(* ===== verification/Prelude.thy ===== *)
theory Prelude
  imports Complex_Main "HOL-Library.Word" "HOL-Library.AList" "HOL-Library.Sublist"
begin

text \<open>
  The vocabulary shared by every component of the development: JavaScript values as they travel
  through the service (JSON values, numbers, property lists), exceptions as values of a sum type,
  the decimal printing that template literals perform, insertion-ordered maps, and two
  interfaces as locales.  \<open>replay_log\<close> is the contract of a bounded replay buffer (the terminal
  and agent event streams rely on it); \<open>lifecycle\<close> is the contract of a table whose rows carry
  a state that may only move along a transition relation (operations and streams rely on it).

  Strings are \<^typ>\<open>string\<close>: a JavaScript string is represented by its UTF-8 text, so equality,
  emptiness, concatenation and ASCII prefix tests mean what they mean in the source.  Numbers are
  IEEE doubles in the source; a finite double is represented by its exact rational value.
\<close>

named_theorems js_simps \<open>evaluation of JavaScript values\<close>
named_theorems row_moves \<open>store operations that move rows along allowed transitions\<close>
named_theorems dp_simps \<open>unfolding of data-plane handlers\<close>
named_theorems wire_simps \<open>unfolding of the protobuf codec\<close>

section \<open>JavaScript values\<close>

datatype js_number = Fin rat | NaN | PosInf | NegInf

datatype json =
    JUndef
  | JNull
  | JBool bool
  | JNum js_number
  | JStr string
  | JArr "json list"
  | JObj "(string \<times> json) list"

type_synonym js_object = "(string \<times> json) list"

text \<open>An integer as a JavaScript number.\<close>

abbreviation num_of_int :: "int \<Rightarrow> js_number" where
  "num_of_int n \<equiv> Fin (rat_of_int n)"

abbreviation JInt :: "int \<Rightarrow> json" where
  "JInt n \<equiv> JNum (num_of_int n)"

definition MAX_SAFE_INTEGER :: int where
  "MAX_SAFE_INTEGER = 2 ^ 53 - 1"

fun is_finite :: "js_number \<Rightarrow> bool" where
  "is_finite (Fin x) = True"
| "is_finite _ = False"

text \<open>\<open>Number.isInteger\<close>, \<open>Number.isSafeInteger\<close> and \<open>Math.floor\<close> (on finite numbers).\<close>

fun js_floor :: "js_number \<Rightarrow> int" where
  "js_floor (Fin x) = \<lfloor>x\<rfloor>"
| "js_floor _ = 0"

fun is_integer :: "js_number \<Rightarrow> bool" where
  "is_integer (Fin x) = (rat_of_int \<lfloor>x\<rfloor> = x)"
| "is_integer _ = False"

definition is_safe_integer :: "js_number \<Rightarrow> bool" where
  "is_safe_integer n \<longleftrightarrow> is_integer n \<and> \<bar>js_floor n\<bar> \<le> MAX_SAFE_INTEGER"

text \<open>The order of numbers, false whenever \<open>NaN\<close> is involved.\<close>

fun js_less :: "js_number \<Rightarrow> js_number \<Rightarrow> bool" where
  "js_less (Fin x) (Fin y) = (x < y)"
| "js_less NegInf (Fin _) = True"
| "js_less NegInf PosInf = True"
| "js_less (Fin _) PosInf = True"
| "js_less _ _ = False"

lemma is_integer_of_int [simp]: "is_integer (num_of_int n)"
  by simp

lemma js_floor_of_int [simp]: "js_floor (num_of_int n) = n"
  by simp

lemma is_safe_integer_of_int [simp]:
  "is_safe_integer (num_of_int n) \<longleftrightarrow> \<bar>n\<bar> \<le> MAX_SAFE_INTEGER"
  by (simp add: is_safe_integer_def)

lemma integer_num_of_int: "is_integer n \<Longrightarrow> num_of_int (js_floor n) = n"
  by (cases n) auto

text \<open>Reading a property: a missing property is \<open>undefined\<close>.\<close>

definition obj_get :: "js_object \<Rightarrow> string \<Rightarrow> json" where
  "obj_get ob k = (case map_of ob k of None \<Rightarrow> JUndef | Some v \<Rightarrow> v)"

text \<open>Assigning a property keeps the position of an existing key and appends a new one.\<close>

abbreviation obj_set :: "string \<Rightarrow> json \<Rightarrow> js_object \<Rightarrow> js_object" where
  "obj_set \<equiv> AList.update"

definition obj_has :: "js_object \<Rightarrow> string \<Rightarrow> bool" where
  "obj_has ob k \<longleftrightarrow> map_of ob k \<noteq> None"

text \<open>The spread \<open>{...a, ...b}\<close>.\<close>

fun obj_spread :: "js_object \<Rightarrow> js_object \<Rightarrow> js_object" where
  "obj_spread a [] = a"
| "obj_spread a ((k, v) # b) = obj_spread (obj_set k v a) b"

lemma obj_get_set [simp]: "obj_get (obj_set k v ob) k' = (if k' = k then v else obj_get ob k')"
  by (simp add: obj_get_def update_conv')

lemma obj_get_Cons [js_simps]:
  "obj_get ((k, v) # ob) k' = (if k' = k then v else obj_get ob k')"
  by (simp add: obj_get_def)

lemma obj_get_Nil [js_simps]: "obj_get [] k = JUndef"
  by (simp add: obj_get_def)

lemma obj_has_set [simp]: "obj_has (obj_set k v ob) k' \<longleftrightarrow> k' = k \<or> obj_has ob k'"
  by (simp add: obj_has_def update_conv')

lemma obj_has_Cons [js_simps]: "obj_has ((k, v) # ob) k' \<longleftrightarrow> k' = k \<or> obj_has ob k'"
  by (simp add: obj_has_def)

lemma obj_has_Nil [js_simps]: "\<not> obj_has [] k"
  by (simp add: obj_has_def)

text \<open>A non-null, non-array object (every \<open>isRecord\<close>/\<open>asRecord\<close> helper of the service).\<close>

fun as_record :: "json \<Rightarrow> js_object option" where
  "as_record (JObj ob) = Some ob"
| "as_record _ = None"

fun as_string :: "json \<Rightarrow> string option" where
  "as_string (JStr s) = Some s"
| "as_string _ = None"

text \<open>\<open>x ?? null\<close> on the string-valued optional fields that the service serialises.\<close>

definition json_of_opt :: "string option \<Rightarrow> json" where
  "json_of_opt x = (case x of None \<Rightarrow> JNull | Some s \<Rightarrow> JStr s)"

section \<open>Exceptions as values\<close>

datatype js_exn =
    JsError string
  | UnsupportedBudEnvelopePayload nat
  | JsonSyntaxError
  | DateRangeError
  | DbError string
  | NonErrorThrown
  | LoopStuck

type_synonym 'a result = "js_exn + 'a"

definition andThen :: "'e + 'a \<Rightarrow> ('a \<Rightarrow> 'e + 'b) \<Rightarrow> 'e + 'b" where
  "andThen m f = (case m of Inl e \<Rightarrow> Inl e | Inr x \<Rightarrow> f x)"

lemma andThen_Inr [simp]: "andThen (Inr x) f = f x"
  by (simp add: andThen_def)

lemma andThen_Inl [simp]: "andThen (Inl e) f = Inl e"
  by (simp add: andThen_def)

lemma andThen_assoc: "andThen (andThen m f) g = andThen m (\<lambda>x. andThen (f x) g)"
  by (simp add: andThen_def split: sum.splits)

lemma andThen_cong: "m = m' \<Longrightarrow> (\<And>x. m' = Inr x \<Longrightarrow> f x = g x) \<Longrightarrow> andThen m f = andThen m' g"
  by (simp add: andThen_def split: sum.split)

lemma andThen_eq_Inr: "andThen m f = Inr y \<longleftrightarrow> (\<exists>x. m = Inr x \<and> f x = Inr y)"
  by (cases m) auto

section \<open>Template literals\<close>

definition digit_char :: "nat \<Rightarrow> char" where
  "digit_char d = char_of (48 + d)"

fun show_nat :: "nat \<Rightarrow> string" where
  "show_nat n = (if n < 10 then [digit_char n] else show_nat (n div 10) @ [digit_char (n mod 10)])"

declare show_nat.simps [simp del]

definition show_int :: "int \<Rightarrow> string" where
  "show_int n = (if n < 0 then CHR ''-'' # show_nat (nat (- n)) else show_nat (nat n))"

fun join_with :: "string \<Rightarrow> string list \<Rightarrow> string" where
  "join_with sep [] = []"
| "join_with sep [s] = s"
| "join_with sep (s # ss) = s @ sep @ join_with sep ss"

definition starts_with :: "string \<Rightarrow> string \<Rightarrow> bool" where
  "starts_with p s \<longleftrightarrow> take (length p) s = p"

section \<open>Searching lists\<close>

text \<open>\<open>Array.prototype.findIndex\<close>, with \<open>None\<close> for the source's \<open>-1\<close>.\<close>

fun find_index :: "('a \<Rightarrow> bool) \<Rightarrow> 'a list \<Rightarrow> nat option" where
  "find_index P [] = None"
| "find_index P (x # xs) = (if P x then Some 0 else map_option Suc (find_index P xs))"

lemma find_index_None_iff: "find_index P xs = None \<longleftrightarrow> (\<forall>x \<in> set xs. \<not> P x)"
  by (induction xs) auto

lemma find_index_Some_nth: "find_index P xs = Some i \<Longrightarrow> i < length xs \<and> P (xs ! i)"
  by (induction xs arbitrary: i) (auto split: if_splits)

lemma find_index_append:
  "find_index P (xs @ ys) =
     (case find_index P xs of Some i \<Rightarrow> Some i
      | None \<Rightarrow> map_option (\<lambda>i. length xs + i) (find_index P ys))"
proof (induction xs)
  case Nil
  show ?case by (cases "find_index P ys") auto
next
  case (Cons x xs)
  then show ?case by (cases "find_index P xs"; cases "find_index P ys") auto
qed

text \<open>Everything strictly after the first element with key \<open>k\<close>.\<close>

definition after_key :: "('a \<Rightarrow> 'k) \<Rightarrow> 'k \<Rightarrow> 'a list \<Rightarrow> 'a list option" where
  "after_key f k xs = map_option (\<lambda>i. drop (Suc i) xs) (find_index (\<lambda>x. f x = k) xs)"

lemma after_key_Nil [simp]: "after_key f k [] = None"
  by (simp add: after_key_def)

lemma after_key_None_iff: "after_key f k xs = None \<longleftrightarrow> k \<notin> f ` set xs"
  by (auto simp: after_key_def find_index_None_iff)

lemma after_key_append_fresh:
  "k \<notin> f ` set xs \<Longrightarrow> after_key f k (xs @ ys) = after_key f k ys"
  using find_index_None_iff [of "\<lambda>x. f x = k" xs]
  by (auto simp: after_key_def find_index_append option.map_comp comp_def)

lemma after_key_append_present:
  "after_key f k xs = Some r \<Longrightarrow> after_key f k (xs @ ys) = Some (r @ ys)"
  using find_index_Some_nth [of "\<lambda>x. f x = k" xs]
  by (auto simp: after_key_def find_index_append split: option.splits)

lemma after_key_snoc_last:
  "f x \<notin> f ` set xs \<Longrightarrow> after_key f (f x) (xs @ [x]) = Some []"
  by (simp add: after_key_append_fresh) (simp add: after_key_def)

text \<open>
  In a list whose keys are distinct, a suffix that still holds the key answers exactly what the
  whole list answers: nothing is lost and nothing is repeated.
\<close>

lemma after_key_suffix:
  assumes "suffix b h" and "distinct (map f h)" and "after_key f k b = Some r"
  shows "after_key f k h = Some r"
proof -
  from assms(1) obtain p where h: "h = p @ b"
    by (auto simp: suffix_def)
  from assms(3) have "k \<in> f ` set b"
    using after_key_None_iff [of f k b] by (cases "k \<in> f ` set b") auto
  with assms(2) h have "k \<notin> f ` set p"
    by auto
  then show ?thesis
    using assms(3) by (simp add: h after_key_append_fresh)
qed

section \<open>Interface: a bounded replay log\<close>

text \<open>
  A publisher pushes entries that carry a resume key; the buffer may forget its oldest entries
  but keeps the order of the others.  From this one law it follows that a subscriber who resumes
  from a key that is still buffered is sent exactly the entries published after that key.
\<close>

locale replay_log =
  fixes key :: "'e \<Rightarrow> 'k"
    and push :: "'e list \<Rightarrow> 'e \<Rightarrow> 'e list"
  assumes push_suffix: "suffix (push b e) (b @ [e])"
begin

lemma foldl_push_suffix: "suffix (foldl push b es) (b @ es)"
proof (induction es arbitrary: b)
  case Nil
  show ?case by simp
next
  case (Cons e es)
  have "suffix (push b e @ es) ((b @ [e]) @ es)"
    using push_suffix [of b e] by (auto simp: suffix_def)
  with Cons.IH [of "push b e"] show ?case
    by (auto intro: suffix_order.trans)
qed

lemma resume_exact:
  assumes "suffix b h" and "distinct (map key (h @ es))"
    and "after_key key k (foldl push b es) = Some r"
  shows "after_key key k (h @ es) = Some r"
proof (rule after_key_suffix [OF _ assms(2,3)])
  have "suffix (b @ es) (h @ es)"
    using assms(1) by (auto simp: suffix_def)
  then show "suffix (foldl push b es) (h @ es)"
    using foldl_push_suffix suffix_order.trans by blast
qed

end

text \<open>A log that also forgets its oldest entries between pushes.\<close>

locale pruned_log = replay_log key push
  for key :: "'e \<Rightarrow> 'k" and push :: "'e list \<Rightarrow> 'e \<Rightarrow> 'e list" +
  fixes prune :: "'c \<Rightarrow> 'e list \<Rightarrow> 'e list"
  assumes prune_suffix: "suffix (prune c b) b"
begin

lemma push_keeps: "suffix b h \<Longrightarrow> suffix (push b e) (h @ [e])"
  using push_suffix [of b e] by (auto simp: suffix_def)

lemma prune_keeps: "suffix b h \<Longrightarrow> suffix (prune c b) h"
  using prune_suffix [of c b] suffix_order.trans by blast

lemma resume_now: "suffix b h \<Longrightarrow> distinct (map key h) \<Longrightarrow> after_key key k b = Some r \<Longrightarrow>
    after_key key k h = Some r"
  by (rule after_key_suffix)

end

section \<open>Interface: a table of rows with a lifecycle\<close>

text \<open>
  Rows have an identity and a state; an update may move the state of a row only along
  \<open>allowed\<close>.  \<open>moves\<close> relates a table to a later version of itself: old rows keep their
  place and identity and their state is reachable, new rows are appended.
\<close>

locale lifecycle =
  fixes ident :: "'r \<Rightarrow> string"
    and st :: "'r \<Rightarrow> 's"
    and allowed :: "'s \<Rightarrow> 's \<Rightarrow> bool"
begin

definition row_moves :: "'r \<Rightarrow> 'r \<Rightarrow> bool" where
  "row_moves r r' \<longleftrightarrow> ident r' = ident r \<and> allowed\<^sup>*\<^sup>* (st r) (st r')"

definition moves :: "'r list \<Rightarrow> 'r list \<Rightarrow> bool" where
  "moves t t' \<longleftrightarrow> (\<exists>u new. t' = u @ new \<and> list_all2 row_moves t u)"

lemma row_moves_refl: "row_moves r r"
  by (simp add: row_moves_def)

lemma row_moves_trans: "row_moves a b \<Longrightarrow> row_moves b c \<Longrightarrow> row_moves a c"
  by (auto simp: row_moves_def)

lemma moves_refl: "moves t t"
  unfolding moves_def by (rule exI [of _ t]) (simp add: list_all2_refl row_moves_refl)

lemma moves_append: "moves t (t @ new)"
  unfolding moves_def by (rule exI [of _ t]) (simp add: list_all2_refl row_moves_refl)

text \<open>One call advances a table: rows may be appended, and each row there keeps its identity and its
  state or goes one step along the table.\<close>

definition row_advances :: "'r \<Rightarrow> 'r \<Rightarrow> bool" where
  "row_advances r r' \<longleftrightarrow> ident r' = ident r \<and> (st r' = st r \<or> allowed (st r) (st r'))"

definition advances :: "'r list \<Rightarrow> 'r list \<Rightarrow> bool" where
  "advances t t' \<longleftrightarrow> (\<exists>u new. t' = u @ new \<and> list_all2 row_advances t u)"

lemma advances_append: "advances t (t @ new)"
  unfolding advances_def by (rule exI [of _ t]) (simp add: list_all2_refl row_advances_def)

lemma advances_refl: "advances t t"
  using advances_append [of t "[]"] by simp

lemma advances_map:
  assumes "\<And>r. r \<in> set t \<Longrightarrow> ident (f r) = ident r \<and> (st (f r) = st r \<or> allowed (st r) (st (f r)))"
  shows "advances t (map f t)"
proof -
  have "list_all2 row_advances t (map f t)"
    unfolding list_all2_map2 by (rule list.rel_refl_strong) (simp add: row_advances_def assms)
  then show ?thesis
    unfolding advances_def by (intro exI [of _ "map f t"] exI [of _ "[]"]) simp
qed

lemma advances_moves: "advances t t' \<Longrightarrow> moves t t'"
  unfolding advances_def moves_def
  by (fastforce simp: row_advances_def row_moves_def intro: list_all2_mono)

lemma advances_row:
  assumes "advances t t'" and "r \<in> set t"
  shows "\<exists>r' \<in> set t'. row_advances r r'"
  using assms by (fastforce simp: advances_def list_all2_conv_all_nth in_set_conv_nth nth_append)

lemma moves_map:
  assumes "\<And>r. r \<in> set t \<Longrightarrow> ident (f r) = ident r \<and> (st (f r) = st r \<or> allowed (st r) (st (f r)))"
  shows "moves t (map f t)"
  using advances_moves [OF advances_map [OF assms]] .

lemma moves_trans:
  assumes "moves a b" and "moves b c"
  shows "moves a c"
proof -
  from assms(1) obtain u n where b: "b = u @ n" and au: "list_all2 row_moves a u"
    by (auto simp: moves_def)
  from assms(2) obtain v m where c: "c = v @ m" and bv: "list_all2 row_moves b v"
    by (auto simp: moves_def)
  from bv b obtain v1 v2 where v: "v = v1 @ v2" and uv: "list_all2 row_moves u v1"
    by (auto simp: list_all2_append1)
  have "list_all2 row_moves a v1"
    using list_all2_trans [OF row_moves_trans au uv] .
  with v c show ?thesis
    unfolding moves_def by (intro exI [of _ v1] exI [of _ "v2 @ m"]) simp
qed

lemma moves_row:
  assumes "moves t t'" and "r \<in> set t"
  shows "\<exists>r' \<in> set t'. row_moves r r'"
proof -
  from assms(1) obtain u new where t': "t' = u @ new" and tu: "list_all2 row_moves t u"
    by (auto simp: moves_def)
  from assms(2) obtain i where "i < length t" and "r = t ! i"
    by (auto simp: in_set_conv_nth)
  with tu have "row_moves r (u ! i)" and "u ! i \<in> set u"
    by (auto simp: list_all2_conv_all_nth)
  then show ?thesis
    using t' by auto
qed

lemma absorbing_reach:
  "allowed\<^sup>*\<^sup>* s s' \<Longrightarrow> (\<And>x. allowed s x \<Longrightarrow> x = s) \<Longrightarrow> s' = s"
  by (induction rule: rtranclp_induct) auto

lemma moves_absorbing:
  assumes "moves t t'" and "r \<in> set t" and "\<And>x. allowed (st r) x \<Longrightarrow> x = st r"
  shows "\<exists>r' \<in> set t'. ident r' = ident r \<and> st r' = st r"
  using moves_row [OF assms(1,2)] absorbing_reach assms(3)
  by (auto simp: row_moves_def)

lemma moves_idents: "moves t t' \<Longrightarrow> map ident t = take (length t) (map ident t')"
  by (auto simp: moves_def row_moves_def list_all2_conv_all_nth intro!: nth_equalityI)

end

text \<open>
  A store whose steps move the rows of a table: the provider promises that one step moves the
  table, and every client gets the same for whole runs, with terminal states as the corollary.
\<close>

locale lifecycle_store = lifecycle ident st allowed
  for ident :: "'r \<Rightarrow> string" and st :: "'r \<Rightarrow> 's" and allowed :: "'s \<Rightarrow> 's \<Rightarrow> bool" +
  fixes step :: "'w \<Rightarrow> 'w \<Rightarrow> bool"
    and rows :: "'w \<Rightarrow> 'r list"
  assumes step_moves: "step w w' \<Longrightarrow> moves (rows w) (rows w')"
begin

lemma run_moves: "step\<^sup>*\<^sup>* w w' \<Longrightarrow> moves (rows w) (rows w')"
  by (induction rule: rtranclp_induct) (auto intro: moves_refl moves_trans step_moves)

lemma run_row:
  assumes "step\<^sup>*\<^sup>* w w'" and "r \<in> set (rows w)"
  shows "\<exists>r' \<in> set (rows w'). ident r' = ident r \<and> allowed\<^sup>*\<^sup>* (st r) (st r')"
  using moves_row [OF run_moves [OF assms(1)] assms(2)] by (simp add: row_moves_def)

lemma run_absorbing:
  assumes "step\<^sup>*\<^sup>* w w'" and "r \<in> set (rows w)" and "\<And>x. allowed (st r) x \<Longrightarrow> x = st r"
  shows "\<exists>r' \<in> set (rows w'). ident r' = ident r \<and> st r' = st r"
  using moves_absorbing [OF run_moves [OF assms(1)] assms(2,3)] .

lemma run_distinct:
  assumes "step\<^sup>*\<^sup>* w w'"
  shows "map ident (rows w) = take (length (rows w)) (map ident (rows w'))"
  using moves_idents [OF run_moves [OF assms]] .

end

text \<open>A store of which every single call advances its table: the contract of a store that checks the
  transition table before it writes.  It gives the contract of the runs.\<close>

locale stepwise_store = lifecycle ident st allowed
  for ident :: "'r \<Rightarrow> string" and st :: "'r \<Rightarrow> 's" and allowed :: "'s \<Rightarrow> 's \<Rightarrow> bool" +
  fixes step :: "'w \<Rightarrow> 'w \<Rightarrow> bool"
    and rows :: "'w \<Rightarrow> 'r list"
  assumes step_advances: "step w w' \<Longrightarrow> advances (rows w) (rows w')"
begin

lemma step_row:
  assumes "step w w'" and "r \<in> set (rows w)"
  shows "\<exists>r' \<in> set (rows w'). ident r' = ident r \<and> (st r' = st r \<or> allowed (st r) (st r'))"
  using advances_row [OF step_advances [OF assms(1)] assms(2)] by (simp add: row_advances_def)

end

sublocale stepwise_store \<subseteq> lifecycle_store
  by unfold_locales (rule advances_moves [OF step_advances])

end
