(* ===== verification/Bytes.thy ===== *)
theory Bytes
  imports Prelude
begin

text \<open>
  What the service uses of the runtime's \<open>Buffer\<close> and \<open>BigInt\<close>: UTF-8 text to bytes and back,
  with the replacement character for ill-formed input; standard base64 with the runtime's lenient
  decoder (characters outside the alphabet are skipped, the URL-safe alphabet is accepted); and
  \<open>Number(bigint)\<close>, which rounds to the nearest double.
\<close>

type_synonym byte = "8 word"

section \<open>UTF-8\<close>

definition byte_of_char :: "char \<Rightarrow> byte" where
  "byte_of_char c = word_of_nat (of_char c)"

definition char_of_byte :: "byte \<Rightarrow> char" where
  "char_of_byte b = char_of (unat b)"

text \<open>\<open>Buffer.from(s, "utf-8")\<close>: a string is already represented by its UTF-8 text.\<close>

definition utf8_bytes :: "string \<Rightarrow> byte list" where
  "utf8_bytes s = map byte_of_char s"

text \<open>
  The ranges that the bytes after a lead byte must lie in (Unicode, Table 3-7); \<open>None\<close> for a
  byte that cannot start a sequence.
\<close>

definition utf8_tail :: "byte \<Rightarrow> (nat \<times> nat) list option" where
  "utf8_tail b =
     (let n = unat b in
      if n \<le> 127 then Some []
      else if 194 \<le> n \<and> n \<le> 223 then Some [(128, 191)]
      else if n = 224 then Some [(160, 191), (128, 191)]
      else if n = 237 then Some [(128, 159), (128, 191)]
      else if 225 \<le> n \<and> n \<le> 239 then Some [(128, 191), (128, 191)]
      else if n = 240 then Some [(144, 191), (128, 191), (128, 191)]
      else if 241 \<le> n \<and> n \<le> 243 then Some [(128, 191), (128, 191), (128, 191)]
      else if n = 244 then Some [(128, 143), (128, 191), (128, 191)]
      else None)"

fun utf8_match :: "(nat \<times> nat) list \<Rightarrow> byte list \<Rightarrow> nat" where
  "utf8_match ((lo, hi) # rs) (b # bs) =
     (if lo \<le> unat b \<and> unat b \<le> hi then Suc (utf8_match rs bs) else 0)"
| "utf8_match _ _ = 0"

text \<open>U+FFFD in UTF-8.\<close>

definition replacement :: string where
  "replacement = [char_of (239::nat), char_of (191::nat), char_of (189::nat)]"

text \<open>\<open>buffer.toString("utf-8")\<close>: each maximal ill-formed subsequence becomes U+FFFD.\<close>

fun utf8_toString :: "byte list \<Rightarrow> string" where
  "utf8_toString [] = []"
| "utf8_toString (b # bs) =
     (case utf8_tail b of
        None \<Rightarrow> replacement @ utf8_toString bs
      | Some rs \<Rightarrow>
          (let n = utf8_match rs bs
           in (if n = length rs then map char_of_byte (b # take n bs) else replacement)
              @ utf8_toString (drop n bs)))"

text \<open>Well-formed UTF-8, i.e. the text of a JavaScript string without lone surrogates.\<close>

fun utf8_ok :: "byte list \<Rightarrow> bool" where
  "utf8_ok [] = True"
| "utf8_ok (b # bs) =
     (case utf8_tail b of
        None \<Rightarrow> False
      | Some rs \<Rightarrow>
          utf8_match rs bs = length rs \<and> utf8_ok (drop (length rs) bs))"

definition js_text :: "string \<Rightarrow> bool" where
  "js_text s \<longleftrightarrow> utf8_ok (utf8_bytes s)"

section \<open>Base64\<close>

definition b64_alphabet :: string where
  "b64_alphabet = ''ABCDEFGHIJKLMNOPQRSTUVWXYZabcdefghijklmnopqrstuvwxyz0123456789+/''"

definition b64_char :: "nat \<Rightarrow> char" where
  "b64_char n = b64_alphabet ! n"

definition b64_val :: "char \<Rightarrow> nat option" where
  "b64_val c = (if c = CHR ''-'' then Some 62 else if c = CHR ''_'' then Some 63
                else find_index (\<lambda>d. d = c) b64_alphabet)"

text \<open>\<open>buffer.toString("base64")\<close>.\<close>

fun b64_encode :: "byte list \<Rightarrow> string" where
  "b64_encode [] = []"
| "b64_encode [a] =
     [b64_char (unat a div 4), b64_char ((unat a mod 4) * 16), CHR ''='', CHR ''='']"
| "b64_encode [a, b] =
     [b64_char (unat a div 4), b64_char ((unat a mod 4) * 16 + unat b div 16),
      b64_char ((unat b mod 16) * 4), CHR ''='']"
| "b64_encode (a # b # c # rest) =
     b64_char (unat a div 4) # b64_char ((unat a mod 4) * 16 + unat b div 16) #
     b64_char ((unat b mod 16) * 4 + unat c div 64) # b64_char (unat c mod 64) #
     b64_encode rest"

fun b64_groups :: "nat list \<Rightarrow> byte list" where
  "b64_groups [] = []"
| "b64_groups [w] = []"
| "b64_groups [w, x] = [word_of_nat (w * 4 + x div 16)]"
| "b64_groups [w, x, y] =
     [word_of_nat (w * 4 + x div 16), word_of_nat ((x mod 16) * 16 + y div 4)]"
| "b64_groups (w # x # y # z # rest) =
     word_of_nat (w * 4 + x div 16) # word_of_nat ((x mod 16) * 16 + y div 4) #
     word_of_nat ((y mod 4) * 64 + z) # b64_groups rest"

text \<open>\<open>Buffer.from(s, "base64")\<close>.\<close>

definition b64_decode :: "string \<Rightarrow> byte list" where
  "b64_decode s = b64_groups (List.map_filter b64_val s)"

section \<open>Number(bigint)\<close>

fun bit_length_nat :: "nat \<Rightarrow> nat" where
  "bit_length_nat n = (if n = 0 then 0 else Suc (bit_length_nat (n div 2)))"

declare bit_length_nat.simps [simp del]

text \<open>Round to 53 significant bits, ties to even.\<close>

definition number_of_bigint :: "nat \<Rightarrow> nat" where
  "number_of_bigint n =
     (if n < 2 ^ 53 then n
      else let e = bit_length_nat n - 53;
               q = n div 2 ^ e;
               r = n mod 2 ^ e;
               half = 2 ^ (e - 1)
           in (if half < r \<or> (r = half \<and> odd q) then Suc q else q) * 2 ^ e)"

section \<open>Lemmas\<close>

lemma byte_lt: "unat (b :: byte) < 256"
proof -
  have "unat b < 2 ^ LENGTH(8)"
    by (rule unsigned_less)
  then show ?thesis by simp
qed

lemma unat_word_of_nat_byte: "n < 256 \<Longrightarrow> unat (word_of_nat n :: byte) = n"
  by (simp add: unat_of_nat)

lemma char_of_byte_of_char [simp]: "char_of_byte (byte_of_char c) = c"
  by (simp add: char_of_byte_def byte_of_char_def unat_of_nat)

lemma byte_of_char_of_byte [simp]: "byte_of_char (char_of_byte b) = b"
  using byte_lt [of b] by (simp add: char_of_byte_def byte_of_char_def)

lemma map_char_of_utf8_bytes [simp]: "map char_of_byte (utf8_bytes s) = s"
  by (simp add: utf8_bytes_def comp_def)

lemma utf8_bytes_append [simp]: "utf8_bytes (s @ t) = utf8_bytes s @ utf8_bytes t"
  by (simp add: utf8_bytes_def)

lemma utf8_bytes_Nil [simp]: "utf8_bytes [] = []"
  by (simp add: utf8_bytes_def)

lemma utf8_bytes_eq_Nil [simp]: "utf8_bytes s = [] \<longleftrightarrow> s = []"
  by (simp add: utf8_bytes_def)

lemma length_utf8_bytes [simp]: "length (utf8_bytes s) = length s"
  by (simp add: utf8_bytes_def)

lemma utf8_match_le: "utf8_match rs bs \<le> length rs \<and> utf8_match rs bs \<le> length bs"
  by (induction rs bs rule: utf8_match.induct) auto

lemma utf8_toString_ok: "utf8_ok bs \<Longrightarrow> utf8_toString bs = map char_of_byte bs"
proof (induction bs rule: utf8_toString.induct)
  case (2 b bs)
  then obtain rs where rs: "utf8_tail b = Some rs" and m: "utf8_match rs bs = length rs"
    and ok: "utf8_ok (drop (length rs) bs)"
    by (auto split: option.splits)
  from ok have "utf8_toString (drop (length rs) bs) = map char_of_byte (drop (length rs) bs)"
    using "2.IH"(2) [OF rs refl] m by simp
  with rs m show ?case
    by (simp flip: map_append)
qed simp

lemma js_text_roundtrip [simp]: "js_text s \<Longrightarrow> utf8_toString (utf8_bytes s) = s"
  by (simp add: js_text_def utf8_toString_ok)

lemma js_text_ascii: "(\<And>c. c \<in> set s \<Longrightarrow> (of_char c :: nat) < 128) \<Longrightarrow> js_text s"
proof (induction s)
  case (Cons c s)
  have "unat (byte_of_char c) \<le> 127"
    using Cons.prems [of c] by (simp add: byte_of_char_def unat_of_nat)
  with Cons show ?case
    by (simp add: js_text_def utf8_bytes_def utf8_tail_def)
qed (simp add: js_text_def utf8_bytes_def)

lemma js_text_by_list: "list_all (\<lambda>c. (of_char c :: nat) < 128) s \<Longrightarrow> js_text s"
  by (simp add: js_text_ascii list_all_iff)

lemma js_text_prefixed: "list_all (\<lambda>c. (of_char c :: nat) < 128) s \<Longrightarrow> js_text u \<Longrightarrow> js_text (s @ u)"
proof (induction s)
  case (Cons c s)
  then have "js_text (s @ u)" "unat (byte_of_char c) \<le> 127"
    by (simp_all add: byte_of_char_def unat_of_nat)
  then show ?case
    by (simp add: js_text_def utf8_bytes_def utf8_tail_def)
qed simp

lemma b64_val_char: "n < 64 \<Longrightarrow> b64_val (b64_char n) = Some n"
proof -
  have "\<forall>n \<in> set [0..<64]. b64_val (b64_char n) = Some n"
    by code_simp
  then show "n < 64 \<Longrightarrow> b64_val (b64_char n) = Some n"
    by simp
qed

lemma b64_val_pad: "b64_val (CHR ''='') = None"
  by code_simp

text \<open>The six-bit groups of two adjacent bytes join to the bytes again.\<close>

lemma nibbles: "unat (b :: byte) div 16 < 16" "unat b div 64 < 4" "unat b div 4 < 64"
  using byte_lt [of b] by (simp_all add: less_mult_imp_div_less)

lemma b64_join:
  fixes a b c :: byte
  shows "unat a div 4 * 4 + (unat a mod 4 * 16 + unat b div 16) div 16 = unat a"
    and "unat a div 4 * 4 + unat a mod 4 * 16 div 16 = unat a"
    and "(unat a mod 4 * 16 + unat b div 16) mod 16 * 16 + (unat b mod 16 * 4 + unat c div 64) div 4
           = unat b"
    and "(unat a mod 4 * 16 + unat b div 16) mod 16 * 16 + unat b mod 16 * 4 div 4 = unat b"
    and "(unat b mod 16 * 4 + unat c div 64) mod 4 * 64 + unat c mod 64 = unat c"
  using nibbles [of b] nibbles [of c] by (simp_all add: div_mult_mod_eq)

lemma b64_range:
  fixes a b c :: byte
  shows "unat a div 4 < 64" "unat a mod 4 * 16 < 64" "unat a mod 4 * 16 + unat b div 16 < 64"
    "unat b mod 16 * 4 + unat c div 64 < 64" "unat b mod 16 * 4 < 64" "unat c mod 64 < 64"
proof -
  have "unat a mod 4 < 4" and "unat b mod 16 < 16"
    by simp_all
  with nibbles [of a] nibbles [of b] nibbles [of c]
  show "unat a div 4 < 64" "unat a mod 4 * 16 < 64" "unat a mod 4 * 16 + unat b div 16 < 64"
    "unat b mod 16 * 4 + unat c div 64 < 64" "unat b mod 16 * 4 < 64" "unat c mod 64 < 64"
    by linarith+
qed

lemma map_filter_Cons_Some:
  "f x = Some y \<Longrightarrow> List.map_filter f (x # xs) = y # List.map_filter f xs"
  "f x = None \<Longrightarrow> List.map_filter f (x # xs) = List.map_filter f xs"
  by (simp_all add: List.map_filter_def)

lemmas b64_simps = nibbles b64_join b64_range b64_val_char b64_val_pad map_filter_Cons_Some

lemma b64_roundtrip: "b64_decode (b64_encode bs) = bs"
proof (induction bs rule: b64_encode.induct)
  case (4 a b c rest)
  then show ?case
    by (simp add: b64_decode_def b64_simps del: of_nat_add of_nat_mult)
qed (simp_all add: b64_decode_def b64_simps map_filter_simps del: of_nat_add of_nat_mult)

lemma b64_char_in: "n < 64 \<Longrightarrow> b64_char n \<in> set b64_alphabet"
  unfolding b64_char_def by (rule nth_mem) (simp add: b64_alphabet_def)

lemma b64_ascii: "c \<in> set (b64_encode bs) \<Longrightarrow> c = CHR ''='' \<or> c \<in> set b64_alphabet"
  by (induction bs rule: b64_encode.induct) (auto simp: b64_char_in b64_range)

lemma js_text_b64: "js_text (b64_encode bs)"
proof (rule js_text_ascii)
  have "\<forall>c \<in> set b64_alphabet. (of_char c :: nat) < 128"
    by code_simp
  then show "c \<in> set (b64_encode bs) \<Longrightarrow> (of_char c :: nat) < 128" for c
    using b64_ascii [of c bs] by auto
qed

lemma number_of_bigint_small: "n < 2 ^ 53 \<Longrightarrow> number_of_bigint n = n"
  by (simp add: number_of_bigint_def)

lemma bit_length_bounds: "0 < n \<Longrightarrow> 2 ^ (bit_length_nat n - 1) \<le> n \<and> n < 2 ^ bit_length_nat n"
proof (induction n rule: bit_length_nat.induct)
  case (1 n)
  show ?case
  proof (cases "n = 1")
    case True
    then show ?thesis by (simp add: bit_length_nat.simps)
  next
    case False
    with 1 have ih: "2 ^ (bit_length_nat (n div 2) - 1) \<le> n div 2 \<and>
        n div 2 < 2 ^ bit_length_nat (n div 2)" and pos: "0 < bit_length_nat (n div 2)"
      by (simp_all add: bit_length_nat.simps [of "n div 2"])
    obtain k where k: "bit_length_nat (n div 2) = Suc k"
      using pos gr0_conv_Suc by blast
    show ?thesis
      using ih "1.prems" by (simp add: bit_length_nat.simps [of n] k) linarith
  qed
qed

text \<open>A value outside the exact range stays outside it, so range checks are not fooled.\<close>

lemma number_of_bigint_large: "2 ^ 53 \<le> n \<Longrightarrow> 2 ^ 53 \<le> number_of_bigint n"
proof -
  assume n: "2 ^ 53 \<le> n"
  define e where "e = bit_length_nat n - 53"
  have b: "2 ^ (bit_length_nat n - 1) \<le> n" "n < 2 ^ bit_length_nat n"
    using bit_length_bounds [of n] n by simp_all
  have "53 < bit_length_nat n"
    using le_less_trans [OF n b(2)] by (simp add: power_strict_increasing_iff del: power_numeral)
  then have bl: "bit_length_nat n = 53 + e" "0 < e"
    by (simp_all add: e_def)
  have "(2::nat) ^ (bit_length_nat n - 1) = 2 ^ 52 * 2 ^ e"
    unfolding bl(1) power_add [symmetric] by simp
  with b(1) have "2 ^ 52 \<le> n div 2 ^ e"
    by (simp add: less_eq_div_iff_mult_less_eq)
  then have "2 ^ 52 * 2 \<le> n div 2 ^ e * 2 ^ e"
    using bl(2) by (intro mult_le_mono) (auto intro: self_le_power)
  then have "2 ^ 53 \<le> (if P then Suc (n div 2 ^ e) else n div 2 ^ e) * 2 ^ e" for P
    by (cases P) auto
  then show ?thesis
    using n by (simp add: number_of_bigint_def Let_def flip: e_def)
qed

end
