(* ===== verification/Carrier.thy ===== *)
theory Carrier
  imports Prelude
begin

text \<open>
  The carriers between the service and a daemon: their health scores
  (\<open>service/src/transport/carrier-health.ts\<close>), the order in which a transport policy tries
  them (\<open>carrier-policy.ts\<close>) and the gateway drain switch (\<open>gateway-drain.ts\<close>).
\<close>

section \<open>Carrier health\<close>

datatype carrier_health_status = Healthy | Degraded | Unhealthy

fun status_name :: "carrier_health_status \<Rightarrow> string" where
  "status_name Healthy = ''healthy''"
| "status_name Degraded = ''degraded''"
| "status_name Unhealthy = ''unhealthy''"

record carrier_health =
  ch_status :: carrier_health_status
  ch_score :: int
  ch_reason :: "string option"
  ch_checkedAt :: "js_number option"

text \<open>\<open>Partial<CarrierHealth>\<close>: every field may be absent, and the score is an unchecked number.\<close>

record partial_carrier_health =
  pch_status :: "carrier_health_status option"
  pch_score :: "js_number option"
  pch_reason :: "string option"
  pch_checkedAt :: "js_number option"

record carrier_selection_candidate =
  cand_transportKind :: string
  cand_role :: "string option"
  cand_health :: carrier_health
  cand_available :: bool
  cand_reason :: "string option"

definition healthyCarrierHealth :: carrier_health where
  "healthyCarrierHealth =
     \<lparr>ch_status = Healthy, ch_score = 100, ch_reason = None, ch_checkedAt = None\<rparr>"

definition statusForScore :: "int \<Rightarrow> carrier_health_status" where
  "statusForScore score =
     (if score \<le> 0 then Unhealthy else if score < 50 then Degraded else Healthy)"

definition normalizeCarrierHealth :: "partial_carrier_health option \<Rightarrow> carrier_health" where
  "normalizeCarrierHealth input =
     (case input of
        None \<Rightarrow> healthyCarrierHealth
      | Some i \<Rightarrow>
          (let score = (case pch_score i of
                          Some n \<Rightarrow> if is_finite n then max 0 (min 100 (js_floor n))
                                    else ch_score healthyCarrierHealth
                        | None \<Rightarrow> ch_score healthyCarrierHealth);
               status = (case pch_status i of Some s \<Rightarrow> s | None \<Rightarrow> statusForScore score);
               checkedAt = (case pch_checkedAt i of
                              Some n \<Rightarrow> if is_finite n then Some n else None
                            | None \<Rightarrow> None)
           in \<lparr>ch_status = status, ch_score = score, ch_reason = pch_reason i,
               ch_checkedAt = checkedAt\<rparr>))"

definition carrierHealthAllowsNewWork :: "carrier_health \<Rightarrow> bool" where
  "carrierHealthAllowsNewWork h \<longleftrightarrow> ch_status h \<noteq> Unhealthy \<and> 50 \<le> ch_score h"

definition describeCarrierHealth :: "carrier_health \<Rightarrow> string" where
  "describeCarrierHealth h =
     (let suf = (case ch_reason h of
                      Some r \<Rightarrow> if r \<noteq> [] then '': '' @ r else []
                    | None \<Rightarrow> [])
      in status_name (ch_status h) @ ''('' @ show_int (ch_score h) @ '')'' @ suf)"

definition serializeCarrierHealth :: "carrier_health option \<Rightarrow> json" where
  "serializeCarrierHealth h =
     (case h of
        None \<Rightarrow> JNull
      | Some x \<Rightarrow> JObj [(''status'', JStr (status_name (ch_status x))),
                        (''score'', JInt (ch_score x)),
                        (''reason'', json_of_opt (ch_reason x)),
                        (''checked_at'', case ch_checkedAt x of None \<Rightarrow> JNull | Some n \<Rightarrow> JNum n)])"

definition serializeCarrierSelectionCandidate :: "carrier_selection_candidate \<Rightarrow> json" where
  "serializeCarrierSelectionCandidate c =
     JObj [(''transport_kind'', JStr (cand_transportKind c)),
           (''role'', json_of_opt (cand_role c)),
           (''health'', serializeCarrierHealth (Some (cand_health c))),
           (''available'', JBool (cand_available c)),
           (''reason'', json_of_opt (cand_reason c))]"

section \<open>Carrier policy\<close>

datatype daemon_transport_policy = Websocket_baseline | H2_preferred | Quic_preferred

datatype control_transport_kind = Ctl_websocket | Ctl_h2_grpc

datatype data_plane_transport_kind = Dp_websocket | Dp_h2_data | Dp_quic

fun transport_kind_name :: "data_plane_transport_kind \<Rightarrow> string" where
  "transport_kind_name Dp_websocket = ''websocket''"
| "transport_kind_name Dp_h2_data = ''h2_data''"
| "transport_kind_name Dp_quic = ''quic''"

fun orderedControlTransportKinds :: "daemon_transport_policy \<Rightarrow> control_transport_kind list" where
  "orderedControlTransportKinds Websocket_baseline = [Ctl_websocket, Ctl_h2_grpc]"
| "orderedControlTransportKinds H2_preferred = [Ctl_h2_grpc, Ctl_websocket]"
| "orderedControlTransportKinds Quic_preferred = [Ctl_h2_grpc, Ctl_websocket]"

fun orderedDataPlaneTransportKinds ::
    "daemon_transport_policy \<Rightarrow> data_plane_transport_kind list" where
  "orderedDataPlaneTransportKinds Websocket_baseline = [Dp_websocket, Dp_h2_data, Dp_quic]"
| "orderedDataPlaneTransportKinds H2_preferred = [Dp_h2_data, Dp_websocket, Dp_quic]"
| "orderedDataPlaneTransportKinds Quic_preferred = [Dp_quic, Dp_h2_data, Dp_websocket]"

definition rankControlTransport :: "control_transport_kind \<Rightarrow> daemon_transport_policy \<Rightarrow> int" where
  "rankControlTransport kind policy =
     (case find_index (\<lambda>k. k = kind) (orderedControlTransportKinds policy) of
        None \<Rightarrow> MAX_SAFE_INTEGER | Some i \<Rightarrow> int i)"

definition rankDataPlaneTransport ::
    "data_plane_transport_kind \<Rightarrow> daemon_transport_policy \<Rightarrow> int" where
  "rankDataPlaneTransport kind policy =
     (case find_index (\<lambda>k. k = kind) (orderedDataPlaneTransportKinds policy) of
        None \<Rightarrow> MAX_SAFE_INTEGER | Some i \<Rightarrow> int i)"

section \<open>Gateway drain\<close>

record gateway_drain_state =
  gd_draining :: bool
  gd_reason :: string
  gd_started_at :: string
  gd_deadline_at :: "string option"

text \<open>The module variable \<open>activeDrain\<close>.\<close>

type_synonym active_drain = "gateway_drain_state option"

definition LONG_LIVED_FRAME_TYPES :: "string list" where
  "LONG_LIVED_FRAME_TYPES =
     [''terminal_ensure'', ''proxy_open'', ''proxy_connect'', ''file_open'', ''file_read'',
      ''file_view'']"

text \<open>
  \<open>nowIso\<close> is \<open>new Date().toISOString()\<close>; the deadline is passed already normalised to its
  ISO text (\<open>normalizeTimestamp\<close>), and an empty or missing deadline adds no field.
\<close>

definition startGatewayDrain ::
    "string \<Rightarrow> string option \<Rightarrow> string \<Rightarrow> active_drain \<Rightarrow> gateway_drain_state \<times> active_drain" where
  "startGatewayDrain reason deadlineAt nowIso d =
     (let a = \<lparr>gd_draining = True, gd_reason = reason, gd_started_at = nowIso,
               gd_deadline_at = (case deadlineAt of
                                   Some t \<Rightarrow> if t \<noteq> [] then Some t else None
                                 | None \<Rightarrow> None)\<rparr>
      in (a, Some a))"

definition clearGatewayDrain :: "active_drain \<Rightarrow> active_drain" where
  "clearGatewayDrain d = None"

definition getGatewayDrainState :: "active_drain \<Rightarrow> gateway_drain_state option" where
  "getGatewayDrainState d = d"

definition isGatewayDraining :: "active_drain \<Rightarrow> bool" where
  "isGatewayDraining d \<longleftrightarrow> d \<noteq> None"

text \<open>A payload is either a bare frame or an envelope that nests the frame under \<open>payload\<close>.\<close>

definition frameType :: "js_object \<Rightarrow> string option" where
  "frameType payload =
     (if obj_has payload ''payload''
      then (case as_record (obj_get payload ''payload'') of
              None \<Rightarrow> None
            | Some nested \<Rightarrow> as_string (obj_get nested ''type''))
      else as_string (obj_get payload ''type''))"

definition shouldBlockNewDaemonWork :: "active_drain \<Rightarrow> js_object \<Rightarrow> bool" where
  "shouldBlockNewDaemonWork d payload =
     (case d of
        None \<Rightarrow> False
      | Some _ \<Rightarrow> (case frameType payload of
                    None \<Rightarrow> False
                  | Some t \<Rightarrow> t \<in> set LONG_LIVED_FRAME_TYPES))"

section \<open>Lemmas\<close>

lemma normalize_score_range:
  "0 \<le> ch_score (normalizeCarrierHealth i) \<and> ch_score (normalizeCarrierHealth i) \<le> 100"
  by (auto simp: normalizeCarrierHealth_def healthyCarrierHealth_def Let_def split: option.splits)

lemma statusForScore_allows:
  "ch_status h = statusForScore (ch_score h) \<Longrightarrow>
   carrierHealthAllowsNewWork h \<longleftrightarrow> ch_status h = Healthy"
  by (auto simp: carrierHealthAllowsNewWork_def statusForScore_def split: if_splits)

lemma normalize_status_default:
  "i = None \<or> (\<exists>p. i = Some p \<and> pch_status p = None) \<Longrightarrow>
   ch_status (normalizeCarrierHealth i) = statusForScore (ch_score (normalizeCarrierHealth i))"
  by (auto simp: normalizeCarrierHealth_def healthyCarrierHealth_def statusForScore_def Let_def
           split: option.splits)

definition partial_of_health :: "carrier_health \<Rightarrow> partial_carrier_health" where
  "partial_of_health h =
     \<lparr>pch_status = Some (ch_status h), pch_score = Some (num_of_int (ch_score h)),
      pch_reason = ch_reason h, pch_checkedAt = ch_checkedAt h\<rparr>"

lemma normalize_checkedAt_finite:
  "ch_checkedAt (normalizeCarrierHealth i) = Some n \<Longrightarrow> is_finite n"
  by (auto simp: normalizeCarrierHealth_def healthyCarrierHealth_def Let_def
           split: option.splits if_splits)

lemma rankDataPlane_range: "0 \<le> rankDataPlaneTransport k p \<and> rankDataPlaneTransport k p \<le> 2"
  by (cases k; cases p) (simp_all add: rankDataPlaneTransport_def)

lemma rankDataPlane_inj:
  "rankDataPlaneTransport k p = rankDataPlaneTransport k' p \<longleftrightarrow> k = k'"
  by (cases k; cases k'; cases p) (simp_all add: rankDataPlaneTransport_def)

lemma rankControl_inj: "rankControlTransport k p = rankControlTransport k' p \<longleftrightarrow> k = k'"
  by (cases k; cases k'; cases p) (simp_all add: rankControlTransport_def)

section \<open>Properties\<close>

text \<open>Normalising a health report clamps the score to 0..100, is idempotent, and, whenever the
  reporter did not force a status, admits new work exactly when the derived status is healthy.\<close>

theorem normalize_health_correct:
  "0 \<le> ch_score (normalizeCarrierHealth i) \<and> ch_score (normalizeCarrierHealth i) \<le> 100 \<and>
   normalizeCarrierHealth (Some (partial_of_health (normalizeCarrierHealth i)))
     = normalizeCarrierHealth i \<and>
   (pch_status p = None \<longrightarrow>
      (carrierHealthAllowsNewWork (normalizeCarrierHealth (Some p)) \<longleftrightarrow>
       ch_status (normalizeCarrierHealth (Some p)) = Healthy))"
proof (intro conjI impI)
  let ?h = "normalizeCarrierHealth i"
  show "0 \<le> ch_score ?h" and "ch_score ?h \<le> 100"
    using normalize_score_range [of i] by simp_all
  then show "normalizeCarrierHealth (Some (partial_of_health ?h)) = ?h"
    using normalize_checkedAt_finite [of i]
    by (cases ?h) (auto simp: normalizeCarrierHealth_def [of "Some _"] partial_of_health_def
        split: option.splits)
next
  assume "pch_status p = None"
  then show "carrierHealthAllowsNewWork (normalizeCarrierHealth (Some p)) \<longleftrightarrow>
      ch_status (normalizeCarrierHealth (Some p)) = Healthy"
    using statusForScore_allows normalize_status_default [of "Some p"] by blast
qed

theorem normalize_health_correct_witness:
  "carrierHealthAllowsNewWork (normalizeCarrierHealth (Some
     \<lparr>pch_status = None, pch_score = Some (Fin 49), pch_reason = None, pch_checkedAt = None\<rparr>))
   \<longleftrightarrow> ch_status (normalizeCarrierHealth (Some
     \<lparr>pch_status = None, pch_score = Some (Fin 49), pch_reason = None, pch_checkedAt = None\<rparr>))
       = Healthy"
  using normalize_health_correct [of None
      "\<lparr>pch_status = None, pch_score = Some (Fin 49), pch_reason = None, pch_checkedAt = None\<rparr>"]
  by simp

text \<open>While the gateway drains, exactly the frames that would open long-lived work are blocked,
  whether they come bare or nested in an envelope; when it does not drain nothing is blocked.\<close>

theorem drain_blocks_long_lived:
  "shouldBlockNewDaemonWork (clearGatewayDrain d) payload = False \<and>
   shouldBlockNewDaemonWork (snd (startGatewayDrain reason dl nowIso d)) payload =
     (case frameType payload of None \<Rightarrow> False | Some t \<Rightarrow> t \<in> set LONG_LIVED_FRAME_TYPES) \<and>
   isGatewayDraining (snd (startGatewayDrain reason dl nowIso d)) \<and>
   \<not> isGatewayDraining (clearGatewayDrain d) \<and>
   frameType [(''payload'', JObj frame)] = as_string (obj_get frame ''type'')"
  by (simp add: shouldBlockNewDaemonWork_def startGatewayDrain_def clearGatewayDrain_def
      isGatewayDraining_def frameType_def obj_has_def obj_get_def Let_def)

end
