(* ===== verification/DaemonState.thy ===== *)
theory DaemonState
  imports Prelude
begin

text \<open>
  The durable state of the connectivity plane, \<open>service/src/runtime/daemon-state.ts\<close> with the
  columns of \<open>service/src/db/schema.ts\<close>: device sessions, transport sessions, operations, streams
  and the audit log.  A table is the list of its rows; an update rewrites the rows that its
  \<open>where\<close> clause selects, an insert appends (and raises on a duplicate key), and a \<open>set\<close> of
  \<open>undefined\<close> leaves the column as it is.  Columns that no method of the store reads or writes
  (\<open>created_at\<close>, \<open>expires_at\<close>, \<open>credit_window_bytes\<close>) and the foreign keys are left out.  The time of a call (\<open>new Date()\<close>) and the fresh
  identifier that \<open>ulid()\<close> would produce are arguments.
\<close>

section \<open>States and transition tables\<close>

datatype operation_state =
  Offered | Accepted | Rejected | Running | Succeeded | Failed | Canceled | OpUnknown | OpExpired

datatype stream_state =
  Opening | Open | HalfClosedLocal | HalfClosedRemote | Closed | Reset | StUnknown | StExpired

definition OPERATION_TERMINAL_STATES :: "operation_state list" where
  "OPERATION_TERMINAL_STATES = [Succeeded, Failed, Canceled, OpUnknown, OpExpired]"

definition STREAM_TERMINAL_STATES :: "stream_state list" where
  "STREAM_TERMINAL_STATES = [Closed, Reset, StUnknown, StExpired]"

fun ALLOWED_OPERATION_TRANSITIONS :: "operation_state \<Rightarrow> operation_state list" where
  "ALLOWED_OPERATION_TRANSITIONS Offered = [Accepted, Rejected, Canceled, OpExpired, OpUnknown]"
| "ALLOWED_OPERATION_TRANSITIONS Accepted =
     [Running, Succeeded, Failed, Canceled, OpUnknown, OpExpired]"
| "ALLOWED_OPERATION_TRANSITIONS Rejected = []"
| "ALLOWED_OPERATION_TRANSITIONS Running = [Succeeded, Failed, Canceled, OpUnknown, OpExpired]"
| "ALLOWED_OPERATION_TRANSITIONS Succeeded = []"
| "ALLOWED_OPERATION_TRANSITIONS Failed = []"
| "ALLOWED_OPERATION_TRANSITIONS Canceled = []"
| "ALLOWED_OPERATION_TRANSITIONS OpUnknown =
     [Offered, Accepted, Running, Failed, Canceled, OpExpired]"
| "ALLOWED_OPERATION_TRANSITIONS OpExpired = []"

fun ALLOWED_STREAM_TRANSITIONS :: "stream_state \<Rightarrow> stream_state list" where
  "ALLOWED_STREAM_TRANSITIONS Opening = [Open, Reset, StUnknown, StExpired]"
| "ALLOWED_STREAM_TRANSITIONS Open =
     [HalfClosedLocal, HalfClosedRemote, Closed, Reset, StUnknown, StExpired]"
| "ALLOWED_STREAM_TRANSITIONS HalfClosedLocal = [Closed, Reset, StUnknown, StExpired]"
| "ALLOWED_STREAM_TRANSITIONS HalfClosedRemote = [Closed, Reset, StUnknown, StExpired]"
| "ALLOWED_STREAM_TRANSITIONS Closed = []"
| "ALLOWED_STREAM_TRANSITIONS Reset = []"
| "ALLOWED_STREAM_TRANSITIONS StUnknown = [Opening, Open, Reset, StExpired]"
| "ALLOWED_STREAM_TRANSITIONS StExpired = []"

definition isAllowedOperationTransition :: "operation_state \<Rightarrow> operation_state \<Rightarrow> bool" where
  "isAllowedOperationTransition from to \<longleftrightarrow>
     from = to \<or> to \<in> set (ALLOWED_OPERATION_TRANSITIONS from)"

definition isAllowedStreamTransition :: "stream_state \<Rightarrow> stream_state \<Rightarrow> bool" where
  "isAllowedStreamTransition from to \<longleftrightarrow>
     from = to \<or> to \<in> set (ALLOWED_STREAM_TRANSITIONS from)"

definition isTerminalOperationState :: "operation_state \<Rightarrow> bool" where
  "isTerminalOperationState s \<longleftrightarrow> s \<in> set OPERATION_TERMINAL_STATES"

definition isTerminalStreamState :: "stream_state \<Rightarrow> bool" where
  "isTerminalStreamState s \<longleftrightarrow> s \<in> set STREAM_TERMINAL_STATES"

fun operation_state_name :: "operation_state \<Rightarrow> string" where
  "operation_state_name Offered = ''offered''"
| "operation_state_name Accepted = ''accepted''"
| "operation_state_name Rejected = ''rejected''"
| "operation_state_name Running = ''running''"
| "operation_state_name Succeeded = ''succeeded''"
| "operation_state_name Failed = ''failed''"
| "operation_state_name Canceled = ''canceled''"
| "operation_state_name OpUnknown = ''unknown''"
| "operation_state_name OpExpired = ''expired''"

fun stream_state_name :: "stream_state \<Rightarrow> string" where
  "stream_state_name Opening = ''opening''"
| "stream_state_name Open = ''open''"
| "stream_state_name HalfClosedLocal = ''half_closed_local''"
| "stream_state_name HalfClosedRemote = ''half_closed_remote''"
| "stream_state_name Closed = ''closed''"
| "stream_state_name Reset = ''reset''"
| "stream_state_name StUnknown = ''unknown''"
| "stream_state_name StExpired = ''expired''"

section \<open>Tables\<close>

datatype session_status = Active | SessionClosed

record device_session_row =
  dev_deviceSessionId :: string
  dev_budId :: string
  dev_status :: session_status
  dev_gatewayInstanceId :: "string option"
  dev_capabilities :: json
  dev_connectedAt :: int
  dev_lastHeartbeatAt :: "int option"
  dev_drainStartedAt :: "int option"
  dev_closedAt :: "int option"
  dev_closeReason :: "string option"
  dev_createdByUserId :: "string option"
  dev_tenantId :: "string option"
  dev_updatedAt :: int

record transport_session_row =
  ts_transportSessionId :: string
  ts_budId :: string
  ts_deviceSessionId :: "string option"
  ts_transportKind :: string
  ts_status :: session_status
  ts_remoteAddr :: "string option"
  ts_userAgent :: "string option"
  ts_connectedAt :: int
  ts_lastSeenAt :: "int option"
  ts_drainStartedAt :: "int option"
  ts_closedAt :: "int option"
  ts_closeReason :: "string option"
  ts_createdByUserId :: "string option"
  ts_tenantId :: "string option"
  ts_updatedAt :: int

record bud_operation_row =
  op_operationId :: string
  op_budId :: string
  op_operationType :: string
  op_trafficClass :: string
  op_state :: operation_state
  op_threadId :: "string option"
  op_terminalSessionId :: "string option"
  op_deviceSessionId :: "string option"
  op_transportSessionId :: "string option"
  op_idempotencyKey :: "string option"
  op_request :: json
  op_result :: "json option"
  op_errorCode :: "string option"
  op_errorMessage :: "string option"
  op_errorRetryable :: "bool option"
  op_errorDetails :: "json option"
  op_offeredAt :: int
  op_acceptedAt :: "int option"
  op_startedAt :: "int option"
  op_finishedAt :: "int option"
  op_createdByUserId :: "string option"
  op_tenantId :: "string option"
  op_updatedAt :: int

record bud_stream_row =
  st_streamId :: string
  st_operationId :: "string option"
  st_budId :: string
  st_streamType :: string
  st_trafficClass :: string
  st_state :: stream_state
  st_deviceSessionId :: "string option"
  st_transportSessionId :: "string option"
  st_sendOffset :: int
  st_receiveOffset :: int
  st_resetReason :: "string option"
  st_errorCode :: "string option"
  st_errorMessage :: "string option"
  st_errorRetryable :: "bool option"
  st_errorDetails :: "json option"
  st_openedAt :: "int option"
  st_closedAt :: "int option"
  st_createdByUserId :: "string option"
  st_tenantId :: "string option"
  st_updatedAt :: int

record audit_event_row =
  aud_auditEventId :: string
  aud_eventType :: string
  aud_eventData :: json
  aud_budId :: "string option"
  aud_userId :: "string option"
  aud_operationId :: "string option"
  aud_streamId :: "string option"
  aud_createdByUserId :: "string option"
  aud_tenantId :: "string option"

record daemon_store =
  ds_devices :: "device_session_row list"
  ds_transports :: "transport_session_row list"
  ds_operations :: "bud_operation_row list"
  ds_streams :: "bud_stream_row list"
  ds_audit :: "audit_event_row list"

record error_info =
  err_code :: string
  err_message :: string
  err_retryable :: "bool option"
  err_details :: "json option"

text \<open>\<open>new ?? undefined\<close> inside a \<open>set\<close>: a missing value keeps the column.\<close>

definition set_col :: "'a option \<Rightarrow> 'a option \<Rightarrow> 'a option" where
  "set_col new old = (case new of None \<Rightarrow> old | Some _ \<Rightarrow> new)"

text \<open>Unless an argument overrides it, the generated identifier is a prefix and a fresh ULID.\<close>

definition id_or_fresh :: "string option \<Rightarrow> string \<Rightarrow> string \<Rightarrow> string" where
  "id_or_fresh given pre fresh = (case given of Some i \<Rightarrow> i | None \<Rightarrow> pre @ fresh)"

section \<open>Sessions\<close>

text \<open>\<open>insert ... onConflictDoUpdate ... returning\<close>, keyed by the primary key.\<close>

definition upsert :: "('r \<Rightarrow> string) \<Rightarrow> 'r \<Rightarrow> ('r \<Rightarrow> 'r) \<Rightarrow> 'r list \<Rightarrow> 'r \<times> 'r list" where
  "upsert key row upd rows =
     (case List.find (\<lambda>r. key r = key row) rows of
        None \<Rightarrow> (row, rows @ [row])
      | Some old \<Rightarrow> (upd old, map (\<lambda>r. if key r = key row then upd r else r) rows))"

definition registerDeviceSession ::
    "string option \<Rightarrow> string \<Rightarrow> json option \<Rightarrow> string option \<Rightarrow> string option \<Rightarrow> string option \<Rightarrow>
     string \<Rightarrow> int \<Rightarrow> daemon_store \<Rightarrow> device_session_row \<times> daemon_store" where
  "registerDeviceSession devId budId caps gateway userId tenant fresh now s =
     (let c = (case caps of Some j \<Rightarrow> j | None \<Rightarrow> JObj []);
          row = \<lparr>dev_deviceSessionId = id_or_fresh devId ''ds_'' fresh, dev_budId = budId,
                 dev_status = Active, dev_gatewayInstanceId = gateway, dev_capabilities = c,
                 dev_connectedAt = now, dev_lastHeartbeatAt = Some now,
                 dev_drainStartedAt = None, dev_closedAt = None, dev_closeReason = None,
                 dev_createdByUserId = userId, dev_tenantId = tenant, dev_updatedAt = now\<rparr>;
          (row', rows) = upsert dev_deviceSessionId row
             (\<lambda>old. old\<lparr>dev_status := Active, dev_capabilities := c,
                        dev_gatewayInstanceId := set_col gateway (dev_gatewayInstanceId old),
                        dev_lastHeartbeatAt := Some now, dev_closedAt := None,
                        dev_closeReason := None, dev_updatedAt := now\<rparr>) (ds_devices s)
      in (row', s\<lparr>ds_devices := rows\<rparr>))"

definition registerTransportSession ::
    "string option \<Rightarrow> string \<Rightarrow> string option \<Rightarrow> string \<Rightarrow> string option \<Rightarrow> string option \<Rightarrow>
     string option \<Rightarrow> string option \<Rightarrow> string \<Rightarrow> int \<Rightarrow> daemon_store \<Rightarrow>
     transport_session_row \<times> daemon_store" where
  "registerTransportSession tsId budId devId kind addr agent userId tenant fresh now s =
     (let row = \<lparr>ts_transportSessionId = id_or_fresh tsId ''ts_'' fresh, ts_budId = budId,
                 ts_deviceSessionId = devId, ts_transportKind = kind, ts_status = Active,
                 ts_remoteAddr = addr, ts_userAgent = agent, ts_connectedAt = now,
                 ts_lastSeenAt = Some now, ts_drainStartedAt = None, ts_closedAt = None,
                 ts_closeReason = None, ts_createdByUserId = userId, ts_tenantId = tenant,
                 ts_updatedAt = now\<rparr>;
          (row', rows) = upsert ts_transportSessionId row
             (\<lambda>old. old\<lparr>ts_status := Active, ts_lastSeenAt := Some now, ts_closedAt := None,
                        ts_closeReason := None, ts_updatedAt := now\<rparr>) (ds_transports s)
      in (row', s\<lparr>ds_transports := rows\<rparr>))"

text \<open>Both identifiers are tested for truthiness, so an empty one is ignored.\<close>

definition recordHeartbeat ::
    "string option \<Rightarrow> string option \<Rightarrow> int \<Rightarrow> daemon_store \<Rightarrow> daemon_store" where
  "recordHeartbeat devId tsId now s =
     (let s1 = (case devId of
                  Some d \<Rightarrow> if d = [] then s else
                    s\<lparr>ds_devices := map (\<lambda>r. if dev_deviceSessionId r = d
                        then r\<lparr>dev_lastHeartbeatAt := Some now, dev_updatedAt := now\<rparr> else r)
                        (ds_devices s)\<rparr>
                | None \<Rightarrow> s)
      in case tsId of
           Some t \<Rightarrow> if t = [] then s1 else
             s1\<lparr>ds_transports := map (\<lambda>r. if ts_transportSessionId r = t
                 then r\<lparr>ts_lastSeenAt := Some now, ts_updatedAt := now\<rparr> else r)
                 (ds_transports s1)\<rparr>
         | None \<Rightarrow> s1)"

definition closeDeviceSession ::
    "string \<Rightarrow> string \<Rightarrow> bool \<Rightarrow> int \<Rightarrow> daemon_store \<Rightarrow> daemon_store" where
  "closeDeviceSession devId reason markDraining now s =
     s\<lparr>ds_devices := map (\<lambda>r. if dev_deviceSessionId r = devId
         then r\<lparr>dev_status := SessionClosed, dev_closedAt := Some now,
                dev_closeReason := Some reason,
                dev_drainStartedAt := (if markDraining then Some now else dev_drainStartedAt r),
                dev_updatedAt := now\<rparr>
         else r) (ds_devices s)\<rparr>"

definition markUnknownForTransportSession :: "string \<Rightarrow> int \<Rightarrow> daemon_store \<Rightarrow> daemon_store" where
  "markUnknownForTransportSession tsId now s =
     s\<lparr>ds_operations := map (\<lambda>r. if op_transportSessionId r = Some tsId \<and>
                                    op_state r \<in> {Offered, Accepted, Running}
          then r\<lparr>op_state := OpUnknown, op_finishedAt := Some now, op_updatedAt := now\<rparr> else r)
          (ds_operations s),
       ds_streams := map (\<lambda>r. if st_transportSessionId r = Some tsId \<and>
                                 st_state r \<in> {Opening, Open, HalfClosedLocal, HalfClosedRemote}
          then r\<lparr>st_state := StUnknown, st_closedAt := Some now, st_updatedAt := now\<rparr> else r)
          (ds_streams s)\<rparr>"

definition closeTransportSession ::
    "string \<Rightarrow> string \<Rightarrow> bool \<Rightarrow> bool option \<Rightarrow> int \<Rightarrow> daemon_store \<Rightarrow> daemon_store" where
  "closeTransportSession tsId reason markDraining markUnknown now s =
     (let s1 = s\<lparr>ds_transports := map (\<lambda>r. if ts_transportSessionId r = tsId
                 then r\<lparr>ts_status := SessionClosed, ts_closedAt := Some now,
                        ts_closeReason := Some reason,
                        ts_drainStartedAt := (if markDraining then Some now
                                              else ts_drainStartedAt r),
                        ts_updatedAt := now\<rparr>
                 else r) (ds_transports s)\<rparr>
      in if (case markUnknown of None \<Rightarrow> True | Some b \<Rightarrow> b)
         then markUnknownForTransportSession tsId now s1 else s1)"

section \<open>Operations and streams\<close>

record create_operation_args =
  co_operationId :: "string option"
  co_budId :: string
  co_operationType :: string
  co_trafficClass :: "string option"
  co_state :: "operation_state option"
  co_threadId :: "string option"
  co_terminalSessionId :: "string option"
  co_deviceSessionId :: "string option"
  co_transportSessionId :: "string option"
  co_idempotencyKey :: "string option"
  co_request :: "json option"
  co_createdByUserId :: "string option"
  co_tenantId :: "string option"

text \<open>The insert violates the primary key or the unique index on (bud, idempotency key).\<close>

definition operation_conflict :: "bud_operation_row \<Rightarrow> bud_operation_row list \<Rightarrow> bool" where
  "operation_conflict row rows \<longleftrightarrow>
     list_ex (\<lambda>r. op_operationId r = op_operationId row \<or>
                  (op_idempotencyKey row \<noteq> None \<and> op_budId r = op_budId row \<and>
                   op_idempotencyKey r = op_idempotencyKey row)) rows"

definition createOperation ::
    "create_operation_args \<Rightarrow> string \<Rightarrow> int \<Rightarrow> daemon_store \<Rightarrow>
     (bud_operation_row \<times> daemon_store) result" where
  "createOperation a fresh now s =
     (let row = \<lparr>op_operationId = id_or_fresh (co_operationId a) ''op_'' fresh,
                op_budId = co_budId a, op_operationType = co_operationType a,
                op_trafficClass = (case co_trafficClass a of None \<Rightarrow> ''control'' | Some t \<Rightarrow> t),
                op_state = (case co_state a of None \<Rightarrow> Offered | Some t \<Rightarrow> t),
                op_threadId = co_threadId a, op_terminalSessionId = co_terminalSessionId a,
                op_deviceSessionId = co_deviceSessionId a,
                op_transportSessionId = co_transportSessionId a,
                op_idempotencyKey = co_idempotencyKey a,
                op_request = (case co_request a of None \<Rightarrow> JObj [] | Some j \<Rightarrow> j),
                op_result = None, op_errorCode = None, op_errorMessage = None,
                op_errorRetryable = None, op_errorDetails = None, op_offeredAt = now,
                op_acceptedAt = None, op_startedAt = None, op_finishedAt = None,
                op_createdByUserId = co_createdByUserId a, op_tenantId = co_tenantId a,
                op_updatedAt = now\<rparr>
      in if operation_conflict row (ds_operations s) then Inl (DbError ''unique_violation'')
         else Inr (row, s\<lparr>ds_operations := ds_operations s @ [row]\<rparr>))"

definition apply_operation_transition ::
    "operation_state \<Rightarrow> json option \<Rightarrow> error_info option \<Rightarrow> int \<Rightarrow> bud_operation_row \<Rightarrow>
     bud_operation_row" where
  "apply_operation_transition to res err now r =
     r\<lparr>op_state := to,
       op_result := set_col res (op_result r),
       op_errorCode := set_col (map_option err_code err) (op_errorCode r),
       op_errorMessage := set_col (map_option err_message err) (op_errorMessage r),
       op_errorRetryable := set_col (Option.bind err err_retryable) (op_errorRetryable r),
       op_errorDetails := set_col (Option.bind err err_details) (op_errorDetails r),
       op_acceptedAt := (if to = Accepted then Some now else op_acceptedAt r),
       op_startedAt := (if to = Running then Some now else op_startedAt r),
       op_finishedAt := (if isTerminalOperationState to then Some now else op_finishedAt r),
       op_updatedAt := now\<rparr>"

definition transitionOperation ::
    "string \<Rightarrow> operation_state list \<Rightarrow> operation_state \<Rightarrow> json option \<Rightarrow> error_info option \<Rightarrow> int \<Rightarrow>
     daemon_store \<Rightarrow> (bud_operation_row option \<times> daemon_store) result" where
  "transitionOperation opId from to res err now s =
     (case List.find (\<lambda>f. \<not> isAllowedOperationTransition f to) from of
        Some f \<Rightarrow> Inl (JsError (''invalid_operation_transition:'' @ operation_state_name f @ ''->''
                                @ operation_state_name to))
      | None \<Rightarrow>
          (let hit = (\<lambda>r. op_operationId r = opId \<and> op_state r \<in> set from);
               upd = apply_operation_transition to res err now
           in Inr (map_option upd (List.find hit (ds_operations s)),
                   s\<lparr>ds_operations := map (\<lambda>r. if hit r then upd r else r) (ds_operations s)\<rparr>)))"

record create_stream_args =
  cs_streamId :: "string option"
  cs_operationId :: "string option"
  cs_budId :: string
  cs_streamType :: string
  cs_trafficClass :: "string option"
  cs_state :: "stream_state option"
  cs_deviceSessionId :: "string option"
  cs_transportSessionId :: "string option"
  cs_createdByUserId :: "string option"
  cs_tenantId :: "string option"

definition createStream ::
    "create_stream_args \<Rightarrow> string \<Rightarrow> int \<Rightarrow> daemon_store \<Rightarrow> (bud_stream_row \<times> daemon_store) result" where
  "createStream a fresh now s =
     (let row = \<lparr>st_streamId = id_or_fresh (cs_streamId a) ''st_'' fresh,
                st_operationId = cs_operationId a, st_budId = cs_budId a,
                st_streamType = cs_streamType a,
                st_trafficClass = (case cs_trafficClass a of None \<Rightarrow> ''interactive'' | Some t \<Rightarrow> t),
                st_state = (case cs_state a of None \<Rightarrow> Opening | Some t \<Rightarrow> t),
                st_deviceSessionId = cs_deviceSessionId a,
                st_transportSessionId = cs_transportSessionId a,
                st_sendOffset = 0, st_receiveOffset = 0, st_resetReason = None,
                st_errorCode = None, st_errorMessage = None, st_errorRetryable = None,
                st_errorDetails = None, st_openedAt = None, st_closedAt = None,
                st_createdByUserId = cs_createdByUserId a, st_tenantId = cs_tenantId a,
                st_updatedAt = now\<rparr>
      in if list_ex (\<lambda>r. st_streamId r = st_streamId row) (ds_streams s)
         then Inl (DbError ''unique_violation'')
         else Inr (row, s\<lparr>ds_streams := ds_streams s @ [row]\<rparr>))"

record transition_stream_args =
  tr_streamId :: string
  tr_from :: "stream_state list"
  tr_to :: stream_state
  tr_sendOffset :: "int option"
  tr_receiveOffset :: "int option"
  tr_resetReason :: "string option"
  tr_error :: "error_info option"

definition apply_stream_transition ::
    "transition_stream_args \<Rightarrow> int \<Rightarrow> bud_stream_row \<Rightarrow> bud_stream_row" where
  "apply_stream_transition a now r =
     r\<lparr>st_state := tr_to a,
       st_sendOffset := (case tr_sendOffset a of None \<Rightarrow> st_sendOffset r | Some n \<Rightarrow> n),
       st_receiveOffset := (case tr_receiveOffset a of None \<Rightarrow> st_receiveOffset r | Some n \<Rightarrow> n),
       st_resetReason := set_col (tr_resetReason a) (st_resetReason r),
       st_errorCode := set_col (map_option err_code (tr_error a)) (st_errorCode r),
       st_errorMessage := set_col (map_option err_message (tr_error a)) (st_errorMessage r),
       st_errorRetryable := set_col (Option.bind (tr_error a) err_retryable) (st_errorRetryable r),
       st_errorDetails := set_col (Option.bind (tr_error a) err_details) (st_errorDetails r),
       st_openedAt := (if tr_to a = Open then Some now else st_openedAt r),
       st_closedAt := (if isTerminalStreamState (tr_to a) then Some now else st_closedAt r),
       st_updatedAt := now\<rparr>"

definition transitionStream ::
    "transition_stream_args \<Rightarrow> int \<Rightarrow> daemon_store \<Rightarrow>
     (bud_stream_row option \<times> daemon_store) result" where
  "transitionStream a now s =
     (case List.find (\<lambda>f. \<not> isAllowedStreamTransition f (tr_to a)) (tr_from a) of
        Some f \<Rightarrow> Inl (JsError (''invalid_stream_transition:'' @ stream_state_name f @ ''->''
                                @ stream_state_name (tr_to a)))
      | None \<Rightarrow>
          (let hit = (\<lambda>r. st_streamId r = tr_streamId a \<and> st_state r \<in> set (tr_from a));
               upd = apply_stream_transition a now
           in Inr (map_option upd (List.find hit (ds_streams s)),
                   s\<lparr>ds_streams := map (\<lambda>r. if hit r then upd r else r) (ds_streams s)\<rparr>)))"

section \<open>Audit log and reconciliation\<close>

record audit_args =
  aa_auditEventId :: "string option"
  aa_eventType :: string
  aa_eventData :: "json option"
  aa_budId :: "string option"
  aa_userId :: "string option"
  aa_operationId :: "string option"
  aa_streamId :: "string option"
  aa_createdByUserId :: "string option"
  aa_tenantId :: "string option"

definition appendAuditEvent ::
    "audit_args \<Rightarrow> string \<Rightarrow> daemon_store \<Rightarrow> (audit_event_row \<times> daemon_store) result" where
  "appendAuditEvent a fresh s =
     (let row = \<lparr>aud_auditEventId = id_or_fresh (aa_auditEventId a) ''aud_'' fresh,
                aud_eventType = aa_eventType a,
                aud_eventData = (case aa_eventData a of None \<Rightarrow> JObj [] | Some j \<Rightarrow> j),
                aud_budId = aa_budId a, aud_userId = aa_userId a,
                aud_operationId = aa_operationId a, aud_streamId = aa_streamId a,
                aud_createdByUserId = aa_createdByUserId a, aud_tenantId = aa_tenantId a\<rparr>
      in if list_ex (\<lambda>r. aud_auditEventId r = aud_auditEventId row) (ds_audit s)
         then Inl (DbError ''unique_violation'')
         else Inr (row, s\<lparr>ds_audit := ds_audit s @ [row]\<rparr>))"

record operation_report =
  opr_operation_id :: string
  opr_state :: string
  opr_operation_type :: "string option"

record stream_report =
  str_stream_id :: string
  str_operation_id :: "string option"
  str_stream_type :: string
  str_state :: string
  str_send_offset :: "int option"
  str_receive_offset :: "int option"

record operation_decision =
  opd_operation_id :: string
  opd_state :: operation_state
  opd_operation_type :: "string option"
  opd_error :: "error_info option"

record stream_decision =
  std_stream_id :: string
  std_operation_id :: "string option"
  std_stream_type :: string
  std_state :: stream_state
  std_send_offset :: int
  std_receive_offset :: int
  std_reset_reason :: "string option"
  std_error :: "error_info option"

text \<open>The error columns of a row: \<open>row.errorCode\<close> is tested for truthiness.\<close>

definition row_error ::
    "string option \<Rightarrow> string option \<Rightarrow> bool option \<Rightarrow> json option \<Rightarrow> error_info option" where
  "row_error code msg retryable details =
     (case code of
        None \<Rightarrow> None
      | Some c \<Rightarrow> if c = [] then None
                  else Some \<lparr>err_code = c, err_message = (case msg of None \<Rightarrow> c | Some m \<Rightarrow> m),
                             err_retryable = retryable, err_details = details\<rparr>)"

definition reconcile_operation ::
    "bud_operation_row list \<Rightarrow> operation_report \<Rightarrow> operation_decision" where
  "reconcile_operation rows rep =
     (case List.find (\<lambda>r. op_operationId r = opr_operation_id rep) (rev rows) of
        None \<Rightarrow> \<lparr>opd_operation_id = opr_operation_id rep, opd_state = OpUnknown,
                 opd_operation_type = opr_operation_type rep,
                 opd_error = Some \<lparr>err_code = ''UNKNOWN_OPERATION'',
                   err_message = ''daemon reported an operation not known to this service'',
                   err_retryable = Some True, err_details = None\<rparr>\<rparr>
      | Some r \<Rightarrow> \<lparr>opd_operation_id = op_operationId r, opd_state = op_state r,
                   opd_operation_type = Some (op_operationType r),
                   opd_error = row_error (op_errorCode r) (op_errorMessage r)
                                 (op_errorRetryable r) (op_errorDetails r)\<rparr>)"

definition reconcile_stream :: "bud_stream_row list \<Rightarrow> stream_report \<Rightarrow> stream_decision" where
  "reconcile_stream rows rep =
     (case List.find (\<lambda>r. st_streamId r = str_stream_id rep) (rev rows) of
        None \<Rightarrow> \<lparr>std_stream_id = str_stream_id rep, std_operation_id = str_operation_id rep,
                 std_stream_type = str_stream_type rep, std_state = StUnknown,
                 std_send_offset = (case str_send_offset rep of None \<Rightarrow> 0 | Some n \<Rightarrow> n),
                 std_receive_offset = (case str_receive_offset rep of None \<Rightarrow> 0 | Some n \<Rightarrow> n),
                 std_reset_reason = None,
                 std_error = Some \<lparr>err_code = ''UNKNOWN_STREAM'',
                   err_message = ''daemon reported a stream not known to this service'',
                   err_retryable = Some True, err_details = None\<rparr>\<rparr>
      | Some r \<Rightarrow> \<lparr>std_stream_id = st_streamId r, std_operation_id = st_operationId r,
                   std_stream_type = st_streamType r, std_state = st_state r,
                   std_send_offset = st_sendOffset r, std_receive_offset = st_receiveOffset r,
                   std_reset_reason = st_resetReason r,
                   std_error = row_error (st_errorCode r) (st_errorMessage r)
                                 (st_errorRetryable r) (st_errorDetails r)\<rparr>)"

record reconnect_report =
  rr_budId :: string
  rr_deviceSessionId :: "string option"
  rr_transportSessionId :: "string option"
  rr_operations :: "operation_report list"
  rr_streams :: "stream_report list"
  rr_terminalSessions :: "string list option"
  rr_localPolicyVersion :: "string option"

text \<open>
  The rows are selected by bud and by the reported (non-empty) identifiers; \<open>new Map(rows)\<close>
  keeps the last row of a key, hence the search from the end.
\<close>

definition selected_operations :: "reconnect_report \<Rightarrow> daemon_store \<Rightarrow> bud_operation_row list" where
  "selected_operations rep s =
     (let ids = filter (\<lambda>i. i \<noteq> []) (map opr_operation_id (rr_operations rep))
      in filter (\<lambda>r. op_budId r = rr_budId rep \<and> op_operationId r \<in> set ids) (ds_operations s))"

definition selected_streams :: "reconnect_report \<Rightarrow> daemon_store \<Rightarrow> bud_stream_row list" where
  "selected_streams rep s =
     (let ids = filter (\<lambda>i. i \<noteq> []) (map str_stream_id (rr_streams rep))
      in filter (\<lambda>r. st_budId r = rr_budId rep \<and> st_streamId r \<in> set ids) (ds_streams s))"

definition reconcileReconnectReport ::
    "reconnect_report \<Rightarrow> string \<Rightarrow> daemon_store \<Rightarrow>
     ((operation_decision list \<times> stream_decision list) \<times> daemon_store) result" where
  "reconcileReconnectReport rep fresh s =
     (let opRows = selected_operations rep s;
          stRows = selected_streams rep s;
          audit = \<lparr>aa_auditEventId = None, aa_eventType = ''daemon.reconnect_report'',
                   aa_eventData = Some (JObj
                     [(''device_session_id'', json_of_opt (rr_deviceSessionId rep)),
                      (''transport_session_id'', json_of_opt (rr_transportSessionId rep)),
                      (''operation_count'', JInt (int (length (rr_operations rep)))),
                      (''stream_count'', JInt (int (length (rr_streams rep)))),
                      (''terminal_session_count'',
                        JInt (case rr_terminalSessions rep of None \<Rightarrow> 0
                              | Some ts \<Rightarrow> int (length ts))),
                      (''local_policy_version'', json_of_opt (rr_localPolicyVersion rep))]),
                   aa_budId = Some (rr_budId rep), aa_userId = None, aa_operationId = None,
                   aa_streamId = None, aa_createdByUserId = None, aa_tenantId = None\<rparr>
      in andThen (appendAuditEvent audit fresh s) (\<lambda>(_, s').
           Inr ((map (reconcile_operation opRows) (rr_operations rep),
                 map (reconcile_stream stRows) (rr_streams rep)), s')))"

section \<open>The store as a transition system\<close>

text \<open>One rule per method of \<open>DaemonStateStore\<close> that writes; a call that raises writes nothing.\<close>

inductive ds_step :: "daemon_store \<Rightarrow> daemon_store \<Rightarrow> bool" where
  register_device:
    "registerDeviceSession d b c g u t fresh now s = (row, s') \<Longrightarrow> ds_step s s'"
| register_transport:
    "registerTransportSession i b d k a g u t fresh now s = (row, s') \<Longrightarrow> ds_step s s'"
| heartbeat: "ds_step s (recordHeartbeat d t now s)"
| close_device: "ds_step s (closeDeviceSession d reason drain now s)"
| close_transport: "ds_step s (closeTransportSession t reason drain unk now s)"
| mark_unknown: "ds_step s (markUnknownForTransportSession t now s)"
| create_operation: "createOperation oa fresh now s = Inr (orow, s') \<Longrightarrow> ds_step s s'"
| transition_operation:
    "transitionOperation i from to res err now s = Inr (orow', s') \<Longrightarrow> ds_step s s'"
| create_stream: "createStream sa fresh now s = Inr (srow, s') \<Longrightarrow> ds_step s s'"
| transition_stream: "transitionStream ta now s = Inr (srow', s') \<Longrightarrow> ds_step s s'"
| append_audit: "appendAuditEvent aa fresh s = Inr (arow, s') \<Longrightarrow> ds_step s s'"
| reconcile: "reconcileReconnectReport rep fresh s = Inr (dec, s') \<Longrightarrow> ds_step s s'"

text \<open>Sessions and the audit log never touch operations and streams.\<close>

lemma registerDeviceSession_frame:
  "registerDeviceSession d b c g u t fresh now s = (row, s') \<Longrightarrow>
   ds_operations s' = ds_operations s \<and> ds_streams s' = ds_streams s"
  by (auto simp: registerDeviceSession_def Let_def split: prod.splits)

lemma registerTransportSession_frame:
  "registerTransportSession i b d k a g u t fresh now s = (row, s') \<Longrightarrow>
   ds_operations s' = ds_operations s \<and> ds_streams s' = ds_streams s"
  by (auto simp: registerTransportSession_def Let_def split: prod.splits)

lemma recordHeartbeat_frame:
  "ds_operations (recordHeartbeat d t now s) = ds_operations s \<and>
   ds_streams (recordHeartbeat d t now s) = ds_streams s"
  by (auto simp: recordHeartbeat_def Let_def split: option.splits)

lemma appendAuditEvent_frame:
  "appendAuditEvent a fresh s = Inr (row, s') \<Longrightarrow>
   ds_operations s' = ds_operations s \<and> ds_streams s' = ds_streams s"
  by (auto simp: appendAuditEvent_def Let_def split: if_splits)

lemma reconcile_frame:
  "reconcileReconnectReport rep fresh s = Inr (dec, s') \<Longrightarrow>
   ds_operations s' = ds_operations s \<and> ds_streams s' = ds_streams s"
  by (auto simp: reconcileReconnectReport_def Let_def andThen_eq_Inr dest: appendAuditEvent_frame)

lemmas frame_lemmas =
  registerDeviceSession_frame registerTransportSession_frame appendAuditEvent_frame reconcile_frame

lemma find_None_allowed_operation:
  "List.find (\<lambda>f. \<not> isAllowedOperationTransition f to) from = None \<Longrightarrow> f \<in> set from \<Longrightarrow>
   isAllowedOperationTransition f to"
  by (auto simp: find_None_iff)

lemma find_None_allowed_stream:
  "List.find (\<lambda>f. \<not> isAllowedStreamTransition f to) from = None \<Longrightarrow> f \<in> set from \<Longrightarrow>
   isAllowedStreamTransition f to"
  by (auto simp: find_None_iff)

interpretation op_rows: lifecycle op_operationId op_state isAllowedOperationTransition .

interpretation st_rows: lifecycle st_streamId st_state isAllowedStreamTransition .

lemma transitionOperation_advances:
  assumes "transitionOperation i from to res err now s = Inr (row, s')"
  shows "op_rows.advances (ds_operations s) (ds_operations s') \<and> ds_streams s' = ds_streams s"
proof -
  from assms have ok: "List.find (\<lambda>f. \<not> isAllowedOperationTransition f to) from = None"
    by (auto simp: transitionOperation_def split: option.splits)
  with assms have s': "s' = s\<lparr>ds_operations := map (\<lambda>r. if op_operationId r = i \<and> op_state r \<in> set from
      then apply_operation_transition to res err now r else r) (ds_operations s)\<rparr>"
    by (simp add: transitionOperation_def Let_def)
  show ?thesis
    unfolding s'
    by (auto intro!: op_rows.advances_map
        simp: apply_operation_transition_def find_None_allowed_operation [OF ok])
qed

lemma transitionStream_advances:
  assumes "transitionStream a now s = Inr (row, s')"
  shows "st_rows.advances (ds_streams s) (ds_streams s') \<and> ds_operations s' = ds_operations s"
proof -
  from assms have ok: "List.find (\<lambda>f. \<not> isAllowedStreamTransition f (tr_to a)) (tr_from a) = None"
    by (auto simp: transitionStream_def split: option.splits)
  with assms have s': "s' = s\<lparr>ds_streams := map (\<lambda>r. if st_streamId r = tr_streamId a \<and>
      st_state r \<in> set (tr_from a) then apply_stream_transition a now r else r) (ds_streams s)\<rparr>"
    by (simp add: transitionStream_def Let_def)
  show ?thesis
    unfolding s'
    by (auto intro!: st_rows.advances_map
        simp: apply_stream_transition_def find_None_allowed_stream [OF ok])
qed

lemma markUnknown_advances:
  "op_rows.advances (ds_operations s) (ds_operations (markUnknownForTransportSession t now s))"
  "st_rows.advances (ds_streams s) (ds_streams (markUnknownForTransportSession t now s))"
  unfolding markUnknownForTransportSession_def
  by (auto intro!: op_rows.advances_map st_rows.advances_map
      simp: isAllowedOperationTransition_def isAllowedStreamTransition_def)

lemma closeTransport_frame:
  "ds_operations (closeTransportSession t reason drain unk now s) =
     (if unk = Some False then ds_operations s
      else ds_operations (markUnknownForTransportSession t now s)) \<and>
   ds_streams (closeTransportSession t reason drain unk now s) =
     (if unk = Some False then ds_streams s
      else ds_streams (markUnknownForTransportSession t now s))"
  by (cases unk) (auto simp: closeTransportSession_def markUnknownForTransportSession_def Let_def)

lemma createOperation_advances:
  "createOperation a fresh now s = Inr (row, s') \<Longrightarrow>
   op_rows.advances (ds_operations s) (ds_operations s') \<and> ds_streams s' = ds_streams s"
  by (auto simp: createOperation_def Let_def intro: op_rows.advances_append split: if_splits)

lemma createStream_advances:
  "createStream a fresh now s = Inr (row, s') \<Longrightarrow>
   st_rows.advances (ds_streams s) (ds_streams s') \<and> ds_operations s' = ds_operations s"
  by (auto simp: createStream_def Let_def intro: st_rows.advances_append split: if_splits)

lemma ds_step_advances:
  "ds_step s s' \<Longrightarrow> op_rows.advances (ds_operations s) (ds_operations s') \<and>
                   st_rows.advances (ds_streams s) (ds_streams s')"
proof (induction rule: ds_step.induct)
  case (close_transport s t reason drain unk now)
  then show ?case
    by (simp add: closeTransport_frame markUnknown_advances op_rows.advances_refl st_rows.advances_refl)
qed (auto simp: recordHeartbeat_frame closeDeviceSession_def markUnknown_advances
       op_rows.advances_refl st_rows.advances_refl
       dest!: frame_lemmas createOperation_advances createStream_advances transitionOperation_advances
         transitionStream_advances)

interpretation op_store:
  stepwise_store op_operationId op_state isAllowedOperationTransition ds_step ds_operations
  by unfold_locales (simp add: ds_step_advances)

interpretation st_store:
  stepwise_store st_streamId st_state isAllowedStreamTransition ds_step ds_streams
  by unfold_locales (simp add: ds_step_advances)

section \<open>Well-formedness\<close>

definition ds_wf :: "daemon_store \<Rightarrow> bool" where
  "ds_wf s \<longleftrightarrow> distinct (map op_operationId (ds_operations s)) \<and>
              distinct (map st_streamId (ds_streams s)) \<and>
              distinct (map dev_deviceSessionId (ds_devices s)) \<and>
              distinct (map ts_transportSessionId (ds_transports s)) \<and>
              distinct (map aud_auditEventId (ds_audit s))"

definition empty_store :: daemon_store where
  "empty_store = \<lparr>ds_devices = [], ds_transports = [], ds_operations = [], ds_streams = [],
                  ds_audit = []\<rparr>"

lemma map_id_update: "(\<And>r. P r \<Longrightarrow> f (g r) = f r) \<Longrightarrow> map f (map (\<lambda>r. if P r then g r else r) xs) = map f xs"
  by (induction xs) auto

lemma upsert_distinct:
  assumes "\<And>r. key (upd r) = key r" and "distinct (map key rows)"
    and "upsert key row upd rows = (row', rows')"
  shows "distinct (map key rows')"
proof (cases "List.find (\<lambda>r. key r = key row) rows")
  case None
  then have "key row \<notin> key ` set rows"
    by (auto simp: find_None_iff)
  with None assms(2,3) show ?thesis
    by (auto simp: upsert_def)
next
  case (Some old)
  with assms show ?thesis
    by (auto simp: upsert_def map_id_update simp del: map_map)
qed

lemma ds_wf_device:
  "ds_wf s \<Longrightarrow> registerDeviceSession d b c g u t fresh now s = (row, s') \<Longrightarrow> ds_wf s'"
  unfolding ds_wf_def registerDeviceSession_def
  by (auto simp: Let_def split: prod.splits elim!: upsert_distinct [rotated 2])

lemma ds_wf_transport:
  "ds_wf s \<Longrightarrow> registerTransportSession i b d' k a g u t fresh now s = (row', s') \<Longrightarrow> ds_wf s'"
  unfolding ds_wf_def registerTransportSession_def
  by (auto simp: Let_def split: prod.splits elim!: upsert_distinct [rotated 2])

lemma ds_wf_updates:
  "ds_wf s \<Longrightarrow> ds_wf (recordHeartbeat d t now s)"
  "ds_wf s \<Longrightarrow> ds_wf (closeDeviceSession d' reason drain now s)"
  "ds_wf s \<Longrightarrow> ds_wf (markUnknownForTransportSession tsId now s)"
  by (auto simp: ds_wf_def recordHeartbeat_def closeDeviceSession_def Let_def map_id_update
        markUnknownForTransportSession_def simp del: map_map split: option.splits)

lemma ds_wf_closeTransport:
  "ds_wf s \<Longrightarrow> ds_wf (closeTransportSession t reason drain unk now s)"
  by (auto simp: closeTransportSession_def Let_def intro!: ds_wf_updates)
     (auto simp: ds_wf_def map_id_update simp del: map_map)

lemma ds_wf_create:
  "ds_wf s \<Longrightarrow> createOperation oa fresh now s = Inr (orow, s') \<Longrightarrow> ds_wf s'"
  "ds_wf s \<Longrightarrow> createStream sa fresh now s = Inr (srow, s') \<Longrightarrow> ds_wf s'"
  "ds_wf s \<Longrightarrow> appendAuditEvent aa fresh s = Inr (arow, s') \<Longrightarrow> ds_wf s'"
  by (auto simp: ds_wf_def createOperation_def operation_conflict_def createStream_def
        appendAuditEvent_def Let_def list_ex_iff split: if_splits) blast+

lemma ds_wf_transition:
  "ds_wf s \<Longrightarrow> transitionOperation i from to res err now s = Inr (orow, s') \<Longrightarrow> ds_wf s'"
  "ds_wf s \<Longrightarrow> transitionStream ta now s = Inr (srow, s') \<Longrightarrow> ds_wf s'"
  by (auto simp: ds_wf_def transitionOperation_def transitionStream_def Let_def map_id_update
        apply_operation_transition_def apply_stream_transition_def
      simp del: map_map split: option.splits)

lemma ds_wf_reconcile:
  "ds_wf s \<Longrightarrow> reconcileReconnectReport rep fresh s = Inr (dec, s') \<Longrightarrow> ds_wf s'"
  by (auto simp: reconcileReconnectReport_def Let_def andThen_eq_Inr intro: ds_wf_create)

lemma ds_step_wf: "ds_step s s' \<Longrightarrow> ds_wf s \<Longrightarrow> ds_wf s'"
  by (induction rule: ds_step.induct)
     (auto intro: ds_wf_device ds_wf_transport ds_wf_updates ds_wf_closeTransport ds_wf_create
        ds_wf_transition ds_wf_reconcile)

lemma ds_run_wf: "ds_step\<^sup>*\<^sup>* s s' \<Longrightarrow> ds_wf s \<Longrightarrow> ds_wf s'"
  by (induction rule: rtranclp_induct) (auto intro: ds_step_wf)

section \<open>A concrete store\<close>

text \<open>A store with one accepted operation and one open stream on transport \<open>ts_1\<close>, for witnesses.\<close>

definition demo_operation :: bud_operation_row where
  "demo_operation = \<lparr>op_operationId = ''op_1'', op_budId = ''bud_1'', op_operationType = ''file_read'',
     op_trafficClass = ''control'', op_state = Accepted, op_threadId = None,
     op_terminalSessionId = None, op_deviceSessionId = Some ''ds_1'',
     op_transportSessionId = Some ''ts_1'', op_idempotencyKey = None, op_request = JObj [],
     op_result = None, op_errorCode = None, op_errorMessage = None, op_errorRetryable = None,
     op_errorDetails = None, op_offeredAt = 0, op_acceptedAt = Some 1, op_startedAt = None,
     op_finishedAt = None, op_createdByUserId = None, op_tenantId = None, op_updatedAt = 1\<rparr>"

definition demo_stream :: bud_stream_row where
  "demo_stream = \<lparr>st_streamId = ''st_1'', st_operationId = Some ''op_1'', st_budId = ''bud_1'',
     st_streamType = ''file_read'', st_trafficClass = ''bulk'', st_state = Open,
     st_deviceSessionId = Some ''ds_1'', st_transportSessionId = Some ''ts_1'', st_sendOffset = 0,
     st_receiveOffset = 0, st_resetReason = None, st_errorCode = None, st_errorMessage = None,
     st_errorRetryable = None, st_errorDetails = None, st_openedAt = Some 2, st_closedAt = None,
     st_createdByUserId = None, st_tenantId = None, st_updatedAt = 2\<rparr>"

definition demo_store :: daemon_store where
  "demo_store = empty_store\<lparr>ds_operations := [demo_operation], ds_streams := [demo_stream]\<rparr>"

definition demo_report :: reconnect_report where
  "demo_report = \<lparr>rr_budId = ''bud_1'', rr_deviceSessionId = None, rr_transportSessionId = None,
     rr_operations = [\<lparr>opr_operation_id = ''op_1'', opr_state = ''running'',
                       opr_operation_type = None\<rparr>],
     rr_streams = [\<lparr>str_stream_id = ''st_1'', str_operation_id = Some ''op_1'',
                    str_stream_type = ''file_read'', str_state = ''open'', str_send_offset = Some 5,
                    str_receive_offset = Some 0\<rparr>,
                   \<lparr>str_stream_id = ''st_9'', str_operation_id = None, str_stream_type = ''file_read'',
                    str_state = ''open'', str_send_offset = None, str_receive_offset = None\<rparr>],
     rr_terminalSessions = None, rr_localPolicyVersion = None\<rparr>"

lemma demo_store_wf: "ds_wf demo_store"
  by (simp add: ds_wf_def demo_store_def empty_store_def)

lemma demo_store_rows:
  "demo_operation \<in> set (ds_operations demo_store)" "demo_stream \<in> set (ds_streams demo_store)"
  by (simp_all add: demo_store_def)

section \<open>Lemmas on single calls\<close>

lemma transitionOperation_error_iff:
  "(\<exists>e. transitionOperation i from to res err now s = Inl e) \<longleftrightarrow>
   (\<exists>f \<in> set from. \<not> isAllowedOperationTransition f to)"
proof -
  have "(\<exists>e. transitionOperation i from to res err now s = Inl e) \<longleftrightarrow>
        List.find (\<lambda>f. \<not> isAllowedOperationTransition f to) from \<noteq> None"
    by (auto simp: transitionOperation_def Let_def split: option.splits)
  then show ?thesis
    by (auto simp: find_None_iff)
qed

lemma filter_map_if:
  "(\<And>r. Q r \<Longrightarrow> \<not> P r \<and> \<not> P (f r)) \<Longrightarrow>
   filter P (map (\<lambda>r. if Q r then f r else r) xs) = filter P xs"
  by (induction xs) auto

lemma find_row_by_id:
  assumes "distinct (map key rows)" and "r \<in> set rows" and "\<And>x. P x \<Longrightarrow> key x = key r"
  shows "List.find P rows = (if P r then Some r else None)"
proof (cases "List.find P rows")
  case None
  then show ?thesis using assms(2) by (auto simp: find_None_iff)
next
  case (Some x)
  then have "x \<in> set rows" and "P x"
    by (auto simp: find_Some_iff)
  with assms have "x = r"
    by (metis distinct_map inj_onD)
  with Some \<open>P x\<close> show ?thesis by simp
qed

lemma find_Some_in: "List.find P rows = Some r \<Longrightarrow> r \<in> set rows \<and> P r"
  by (auto simp: find_Some_iff)

lemma reconcile_known_operation:
  assumes "distinct (map op_operationId (ds_operations s))"
    and "x \<in> set (rr_operations rep)" and "r \<in> set (ds_operations s)"
    and "op_operationId r = opr_operation_id x" and "op_operationId r \<noteq> []"
    and "op_budId r = rr_budId rep"
  shows "List.find (\<lambda>y. op_operationId y = opr_operation_id x) (rev (selected_operations rep s)) = Some r"
proof -
  let ?rows = "rev (selected_operations rep s)"
  have "List.find (\<lambda>y. op_operationId y = opr_operation_id x) ?rows =
        (if op_operationId r = opr_operation_id x then Some r else None)"
  proof (rule find_row_by_id)
    show "distinct (map op_operationId ?rows)"
      using assms(1) by (simp add: selected_operations_def Let_def rev_map [symmetric]
          distinct_map_filter)
    show "r \<in> set ?rows"
      using assms by (auto simp: selected_operations_def Let_def)
  qed (simp add: assms(4))
  then show ?thesis
    using assms(4) by simp
qed

lemma reconcile_known_stream:
  assumes "distinct (map st_streamId (ds_streams s))"
    and "x \<in> set (rr_streams rep)" and "r \<in> set (ds_streams s)"
    and "st_streamId r = str_stream_id x" and "st_streamId r \<noteq> []"
    and "st_budId r = rr_budId rep"
  shows "List.find (\<lambda>y. st_streamId y = str_stream_id x) (rev (selected_streams rep s)) = Some r"
proof -
  have "List.find (\<lambda>y. st_streamId y = str_stream_id x) (rev (selected_streams rep s)) =
        (if st_streamId r = str_stream_id x then Some r else None)"
  proof (rule find_row_by_id)
    show "distinct (map st_streamId (rev (selected_streams rep s)))"
      using assms(1) by (simp add: selected_streams_def Let_def rev_map [symmetric]
          distinct_map_filter)
    show "r \<in> set (rev (selected_streams rep s))"
      using assms by (auto simp: selected_streams_def Let_def)
  qed (simp add: assms(4))
  then show ?thesis
    using assms(4) by simp
qed

lemma operation_lookup:
  assumes "distinct (map op_operationId (ds_operations s))" and "x \<in> set (rr_operations rep)"
  shows "List.find (\<lambda>y. op_operationId y = opr_operation_id x) (rev (selected_operations rep s)) = Some r \<longleftrightarrow>
           r \<in> set (ds_operations s) \<and> op_operationId r = opr_operation_id x \<and> opr_operation_id x \<noteq> [] \<and>
           op_budId r = rr_budId rep"
  using reconcile_known_operation [OF assms]
  by (auto simp: selected_operations_def Let_def dest!: find_Some_in)

lemma stream_lookup:
  assumes "distinct (map st_streamId (ds_streams s))" and "x \<in> set (rr_streams rep)"
  shows "List.find (\<lambda>y. st_streamId y = str_stream_id x) (rev (selected_streams rep s)) = Some r \<longleftrightarrow>
           r \<in> set (ds_streams s) \<and> st_streamId r = str_stream_id x \<and> str_stream_id x \<noteq> [] \<and>
           st_budId r = rr_budId rep"
  using reconcile_known_stream [OF assms]
  by (auto simp: selected_streams_def Let_def dest!: find_Some_in)

lemma unique_id_rows:
  assumes "distinct (map key rows)" and "r \<in> set rows"
  shows "filter (\<lambda>x. key x = key r) rows = [r]"
  using assms
proof (induction rows)
  case (Cons y ys)
  then show ?case
    by (cases "r = y") (auto simp: filter_empty_conv image_iff)
qed simp

section \<open>Properties\<close>

text \<open>C1: the state of an operation changes only along the transition table, one step per store
  call.  In every state that store calls lead to, a further call leaves exactly one row with the
  identifier of each operation, and that row's state is the old one or one that the table allows
  directly from it; and an operation that was rejected, succeeded, failed, canceled or expired at
  any earlier time is still in that state.\<close>

theorem operations_follow_lifecycle:
  assumes "ds_wf s0" and "ds_step\<^sup>*\<^sup>* s0 s" and "ds_step s s'" and "r \<in> set (ds_operations s)"
  shows "\<exists>r'. filter (\<lambda>x. op_operationId x = op_operationId r) (ds_operations s') = [r'] \<and>
           (op_state r' = op_state r \<or> op_state r' \<in> set (ALLOWED_OPERATION_TRANSITIONS (op_state r))) \<and>
           (\<forall>r0 \<in> set (ds_operations s0). op_operationId r0 = op_operationId r \<and>
              op_state r0 \<in> {Rejected, Succeeded, Failed, Canceled, OpExpired} \<longrightarrow>
              op_state r' = op_state r0)"
proof -
  obtain r' where r': "r' \<in> set (ds_operations s')" "op_operationId r' = op_operationId r"
      "op_state r' = op_state r \<or> isAllowedOperationTransition (op_state r) (op_state r')"
    using op_store.step_row [OF assms(3,4)] by blast
  have run: "ds_step\<^sup>*\<^sup>* s0 s'"
    using assms(2,3) by simp
  then have dist: "distinct (map op_operationId (ds_operations s'))"
    using ds_run_wf assms(1) by (auto simp: ds_wf_def)
  have one: "filter (\<lambda>x. op_operationId x = op_operationId r) (ds_operations s') = [r']"
    using unique_id_rows [OF dist r'(1)] r'(2) by simp
  have "op_state r' = op_state r0" if "r0 \<in> set (ds_operations s0)" "op_operationId r0 = op_operationId r"
    "op_state r0 \<in> {Rejected, Succeeded, Failed, Canceled, OpExpired}" for r0
  proof -
    have "x = op_state r0" if "isAllowedOperationTransition (op_state r0) x" for x
      using \<open>op_state r0 \<in> _\<close> that by (auto simp: isAllowedOperationTransition_def)
    from op_store.run_absorbing [OF run \<open>r0 \<in> _\<close> this] obtain x where "x \<in> set (filter (\<lambda>x. op_operationId x = op_operationId r) (ds_operations s'))"
        "op_state x = op_state r0"
      using \<open>op_operationId r0 = _\<close> by auto
    then show ?thesis
      unfolding one by simp
  qed
  with one r'(3) show ?thesis
    by (auto simp: isAllowedOperationTransition_def)
qed

theorem operations_follow_lifecycle_witness:
  "\<exists>r'. filter (\<lambda>x. op_operationId x = ''op_1'')
           (ds_operations (closeTransportSession ''ts_1'' ''gone'' False None 9 demo_store)) = [r'] \<and>
        (op_state r' = Accepted \<or> op_state r' \<in> {Running, Succeeded, Failed, Canceled, OpUnknown, OpExpired})"
  using operations_follow_lifecycle [OF demo_store_wf rtranclp.rtrancl_refl
      ds_step.close_transport [of demo_store "''ts_1''" "''gone''" False None 9] demo_store_rows(1)]
  by (auto simp: demo_operation_def)

text \<open>The same for streams: a store call moves a stream row at most one step along the stream
  transition table, and closed, reset and expired streams stay what they are.\<close>

theorem streams_follow_lifecycle:
  assumes "ds_step s s'" and "r \<in> set (ds_streams s)"
  shows "\<exists>r' \<in> set (ds_streams s').
           st_streamId r' = st_streamId r \<and>
           (st_state r' = st_state r \<or> st_state r' \<in> set (ALLOWED_STREAM_TRANSITIONS (st_state r))) \<and>
           (st_state r \<in> {Closed, Reset, StExpired} \<longrightarrow> st_state r' = st_state r)"
  using st_store.step_row [OF assms] by (auto simp: isAllowedStreamTransition_def)

theorem streams_follow_lifecycle_witness:
  "\<exists>r' \<in> set (ds_streams (closeTransportSession ''ts_1'' ''gone'' False None 9 demo_store)).
     st_streamId r' = ''st_1'' \<and>
     (st_state r' = Open \<or> st_state r' \<in> set (ALLOWED_STREAM_TRANSITIONS Open))"
  using streams_follow_lifecycle [OF
      ds_step.close_transport [of demo_store "''ts_1''" "''gone''" False None 9] demo_store_rows(2)]
  by (simp add: demo_stream_def)

text \<open>A transition is a guarded compare-and-set.  It raises, writing nothing, exactly when a
  listed source state may not go to the target; otherwise it returns the rewritten row when the
  addressed operation is in one of the listed states and nothing when it is not, and every other
  operation is left alone.\<close>

theorem transitionOperation_compare_and_set:
  assumes "ds_wf s" and "r \<in> set (ds_operations s)"
  shows "(\<exists>f \<in> set from. \<not> isAllowedOperationTransition f to) \<and>
           (\<exists>e. transitionOperation (op_operationId r) from to res err now s = Inl e) \<or>
         (\<forall>f \<in> set from. isAllowedOperationTransition f to) \<and>
           (\<exists>s'. transitionOperation (op_operationId r) from to res err now s =
                   Inr (if op_state r \<in> set from
                        then Some (apply_operation_transition to res err now r) else None, s') \<and>
                 ds_operations s' =
                   map (\<lambda>x. if x = r \<and> op_state r \<in> set from
                            then apply_operation_transition to res err now r else x)
                       (ds_operations s))"
proof (cases "\<exists>f \<in> set from. \<not> isAllowedOperationTransition f to")
  case True
  then show ?thesis
    using transitionOperation_error_iff by blast
next
  case False
  let ?hit = "\<lambda>x. op_operationId x = op_operationId r \<and> op_state x \<in> set from"
  have ok: "List.find (\<lambda>f. \<not> isAllowedOperationTransition f to) from = None"
    using False by (auto simp: find_None_iff)
  have dist: "distinct (map op_operationId (ds_operations s))"
    using assms(1) by (simp add: ds_wf_def)
  have "List.find ?hit (ds_operations s) = (if ?hit r then Some r else None)"
    by (rule find_row_by_id [OF dist assms(2)]) simp
  moreover have "?hit x \<longleftrightarrow> x = r \<and> op_state r \<in> set from" if "x \<in> set (ds_operations s)" for x
    using that dist assms(2) by (auto simp: distinct_map dest: inj_onD)
  ultimately show ?thesis
    using False ok by (auto simp: transitionOperation_def Let_def cong: map_cong)
qed

theorem transitionOperation_compare_and_set_witness:
  "\<exists>s'. transitionOperation ''op_1'' [Accepted] Running None None 5 demo_store =
        Inr (Some (apply_operation_transition Running None None 5 demo_operation), s')"
  using transitionOperation_compare_and_set [OF demo_store_wf demo_store_rows(1),
      of "[Accepted]" Running None None 5]
  by (auto simp: demo_operation_def isAllowedOperationTransition_def)

text \<open>When a transport session closes with the default arguments, every live operation and
  stream bound to it becomes unknown, and everything bound elsewhere is untouched.\<close>

theorem transport_loss_marks_unknown:
  assumes "s' = closeTransportSession t reason drain None now s"
  shows "(\<forall>r' \<in> set (ds_operations s'). op_transportSessionId r' = Some t \<longrightarrow>
            op_state r' \<notin> {Offered, Accepted, Running}) \<and>
         (\<forall>r' \<in> set (ds_streams s'). st_transportSessionId r' = Some t \<longrightarrow>
            st_state r' \<notin> {Opening, Open, HalfClosedLocal, HalfClosedRemote}) \<and>
         filter (\<lambda>r. op_transportSessionId r \<noteq> Some t) (ds_operations s') =
           filter (\<lambda>r. op_transportSessionId r \<noteq> Some t) (ds_operations s) \<and>
         filter (\<lambda>r. st_transportSessionId r \<noteq> Some t) (ds_streams s') =
           filter (\<lambda>r. st_transportSessionId r \<noteq> Some t) (ds_streams s)"
proof (intro conjI)
  show "filter (\<lambda>r. op_transportSessionId r \<noteq> Some t) (ds_operations s') =
      filter (\<lambda>r. op_transportSessionId r \<noteq> Some t) (ds_operations s)"
    by (simp add: assms closeTransport_frame markUnknownForTransportSession_def)
       (rule filter_map_if, auto)
  show "filter (\<lambda>r. st_transportSessionId r \<noteq> Some t) (ds_streams s') =
      filter (\<lambda>r. st_transportSessionId r \<noteq> Some t) (ds_streams s)"
    by (simp add: assms closeTransport_frame markUnknownForTransportSession_def)
       (rule filter_map_if, auto)
qed (auto simp: assms closeTransport_frame markUnknownForTransportSession_def)

theorem transport_loss_marks_unknown_witness:
  "\<exists>r'. ds_operations (closeTransportSession ''ts_1'' ''gone'' False None 9 demo_store) = [r'] \<and>
     op_transportSessionId r' = Some ''ts_1'' \<and> op_state r' \<notin> {Offered, Accepted, Running}"
proof -
  obtain r' where "ds_operations (closeTransportSession ''ts_1'' ''gone'' False None 9 demo_store) = [r']"
    "op_transportSessionId r' = Some ''ts_1''"
    by (simp add: closeTransport_frame markUnknownForTransportSession_def demo_store_def demo_operation_def)
  then show ?thesis
    using transport_loss_marks_unknown [OF refl, of "''ts_1''" "''gone''" False 9 demo_store] by simp
qed

text \<open>C13: a reconnect report is answered entry by entry, from the rows of the reporting bud alone.  A
  reported operation that the store holds for that bud is answered with the state and the type of
  its row, a reported stream with the state, the operation, the type, the offsets and the reset
  reason of its row; an entry for which that bud has no row (or whose identifier is empty) is
  answered unknown, a stream with the offsets it reported.  So a daemon never learns anything of
  another bud's operations and streams, and the reconciliation changes neither.\<close>

theorem reconcile_answers_per_bud:
  assumes "ds_wf s" and "reconcileReconnectReport rep fresh s = Inr ((ops, sts), s')"
  shows "map opd_operation_id ops = map opr_operation_id (rr_operations rep) \<and>
         map std_stream_id sts = map str_stream_id (rr_streams rep) \<and>
         (\<forall>i < length (rr_operations rep). let x = rr_operations rep ! i; d = ops ! i;
              known = (\<lambda>r. r \<in> set (ds_operations s) \<and> op_operationId r = opr_operation_id x \<and>
                           opr_operation_id x \<noteq> [] \<and> op_budId r = rr_budId rep) in
            (\<forall>r. known r \<longrightarrow> opd_state d = op_state r \<and> opd_operation_type d = Some (op_operationType r)) \<and>
            ((\<nexists>r. known r) \<longrightarrow> opd_state d = OpUnknown \<and> opd_operation_type d = opr_operation_type x)) \<and>
         (\<forall>i < length (rr_streams rep). let x = rr_streams rep ! i; d = sts ! i;
              known = (\<lambda>r. r \<in> set (ds_streams s) \<and> st_streamId r = str_stream_id x \<and>
                           str_stream_id x \<noteq> [] \<and> st_budId r = rr_budId rep) in
            (\<forall>r. known r \<longrightarrow> std_state d = st_state r \<and> std_operation_id d = st_operationId r \<and>
               std_stream_type d = st_streamType r \<and> std_send_offset d = st_sendOffset r \<and>
               std_receive_offset d = st_receiveOffset r \<and> std_reset_reason d = st_resetReason r) \<and>
            ((\<nexists>r. known r) \<longrightarrow> std_state d = StUnknown \<and> std_operation_id d = str_operation_id x \<and>
               std_stream_type d = str_stream_type x \<and>
               std_send_offset d = (case str_send_offset x of None \<Rightarrow> 0 | Some n \<Rightarrow> n) \<and>
               std_receive_offset d = (case str_receive_offset x of None \<Rightarrow> 0 | Some n \<Rightarrow> n) \<and>
               std_reset_reason d = None)) \<and>
         ds_operations s' = ds_operations s \<and> ds_streams s' = ds_streams s"
proof (intro conjI)
  have ops: "ops = map (reconcile_operation (selected_operations rep s)) (rr_operations rep)"
    and sts: "sts = map (reconcile_stream (selected_streams rep s)) (rr_streams rep)"
    using assms(2) by (auto simp: reconcileReconnectReport_def Let_def andThen_eq_Inr)
  have dist: "distinct (map op_operationId (ds_operations s))" "distinct (map st_streamId (ds_streams s))"
    using assms(1) by (simp_all add: ds_wf_def)
  have id1: "opd_operation_id (reconcile_operation rows x) = opr_operation_id x" for rows x
    by (auto simp: reconcile_operation_def dest: find_Some_in split: option.split)
  have id2: "std_stream_id (reconcile_stream rows x) = str_stream_id x" for rows x
    by (auto simp: reconcile_stream_def dest: find_Some_in split: option.split)
  show "map opd_operation_id ops = map opr_operation_id (rr_operations rep)"
    and "map std_stream_id sts = map str_stream_id (rr_streams rep)"
    by (simp_all add: ops sts id1 id2)
  show "ds_operations s' = ds_operations s" and "ds_streams s' = ds_streams s"
    using reconcile_frame [OF assms(2)] by simp_all
  show "\<forall>i < length (rr_operations rep). let x = rr_operations rep ! i; d = ops ! i;
              known = (\<lambda>r. r \<in> set (ds_operations s) \<and> op_operationId r = opr_operation_id x \<and>
                           opr_operation_id x \<noteq> [] \<and> op_budId r = rr_budId rep) in
            (\<forall>r. known r \<longrightarrow> opd_state d = op_state r \<and> opd_operation_type d = Some (op_operationType r)) \<and>
            ((\<nexists>r. known r) \<longrightarrow> opd_state d = OpUnknown \<and> opd_operation_type d = opr_operation_type x)"
    (is "\<forall>i < _. ?O i")
  proof (intro allI impI)
    fix i
    assume i: "i < length (rr_operations rep)"
    then have at_i: "ops ! i = reconcile_operation (selected_operations rep s) (rr_operations rep ! i)"
      by (simp add: ops)
    show "?O i"
      unfolding Let_def operation_lookup [OF dist(1) nth_mem [OF i], symmetric] at_i
      by (auto simp: reconcile_operation_def split: option.split)
  qed
  show "\<forall>i < length (rr_streams rep). let x = rr_streams rep ! i; d = sts ! i;
              known = (\<lambda>r. r \<in> set (ds_streams s) \<and> st_streamId r = str_stream_id x \<and>
                           str_stream_id x \<noteq> [] \<and> st_budId r = rr_budId rep) in
            (\<forall>r. known r \<longrightarrow> std_state d = st_state r \<and> std_operation_id d = st_operationId r \<and>
               std_stream_type d = st_streamType r \<and> std_send_offset d = st_sendOffset r \<and>
               std_receive_offset d = st_receiveOffset r \<and> std_reset_reason d = st_resetReason r) \<and>
            ((\<nexists>r. known r) \<longrightarrow> std_state d = StUnknown \<and> std_operation_id d = str_operation_id x \<and>
               std_stream_type d = str_stream_type x \<and>
               std_send_offset d = (case str_send_offset x of None \<Rightarrow> 0 | Some n \<Rightarrow> n) \<and>
               std_receive_offset d = (case str_receive_offset x of None \<Rightarrow> 0 | Some n \<Rightarrow> n) \<and>
               std_reset_reason d = None)"
    (is "\<forall>i < _. ?S i")
  proof (intro allI impI)
    fix i
    assume i: "i < length (rr_streams rep)"
    then have at_i: "sts ! i = reconcile_stream (selected_streams rep s) (rr_streams rep ! i)"
      by (simp add: sts)
    show "?S i"
      unfolding Let_def stream_lookup [OF dist(2) nth_mem [OF i], symmetric] at_i
      by (auto simp: reconcile_stream_def split: option.split)
  qed
qed

lemma demo_reconcile:
  "\<exists>ops sts s'. reconcileReconnectReport demo_report ''x'' demo_store = Inr ((ops, sts), s')"
  by (simp add: reconcileReconnectReport_def appendAuditEvent_def demo_report_def demo_store_def
      empty_store_def Let_def)

theorem reconcile_answers_per_bud_witness:
  "\<exists>ops sts s'. reconcileReconnectReport demo_report ''x'' demo_store = Inr ((ops, sts), s') \<and>
     opd_state (ops ! 0) = Accepted \<and> std_state (sts ! 0) = Open \<and> std_state (sts ! 1) = StUnknown"
proof -
  obtain ops sts s' where call: "reconcileReconnectReport demo_report ''x'' demo_store = Inr ((ops, sts), s')"
    using demo_reconcile by blast
  note facts = reconcile_answers_per_bud [OF demo_store_wf call]
  have "opd_state (ops ! 0) = Accepted" and "std_state (sts ! 0) = Open"
      and "std_state (sts ! 1) = StUnknown"
    using facts
    by (auto simp: demo_report_def demo_store_def empty_store_def demo_operation_def demo_stream_def
        Let_def numeral_2_eq_2 less_Suc_eq)
  with call show ?thesis by blast
qed

section \<open>Findings\<close>

text \<open>
  \<open>unknown\<close> is listed as a terminal state, and entering it stamps \<open>finishedAt\<close>, although the
  transition table lets an operation leave it; nothing clears the stamp, so a revived operation
  runs with a finish time.  Conversely \<open>rejected\<close>, which nothing leaves, is not listed and is
  never stamped.
\<close>

lemma revived_operation_keeps_finishedAt:
  "\<exists>r s'. transitionOperation ''op_1'' [OpUnknown] Running None None 10
       (closeTransportSession ''ts_1'' ''gone'' False None 9 demo_store) = Inr (Some r, s') \<and>
     op_state r = Running \<and> op_finishedAt r = Some 9"
  by (simp add: transitionOperation_def closeTransportSession_def markUnknownForTransportSession_def
      demo_store_def demo_operation_def empty_store_def isAllowedOperationTransition_def
      apply_operation_transition_def isTerminalOperationState_def OPERATION_TERMINAL_STATES_def)

lemma rejected_operation_never_finished:
  "op_finishedAt (apply_operation_transition Rejected res err now r) = op_finishedAt r"
  by (simp add: apply_operation_transition_def isTerminalOperationState_def
      OPERATION_TERMINAL_STATES_def)

end
