(* ===== verification/DataPlane.thy ===== *)
theory DataPlane
  imports Bytes Carrier DaemonState
begin

text \<open>
  The data plane, \<open>service/src/transport/data-plane-router.ts\<close>: the registry of carrier sessions,
  the selection of a carrier for a new stream, the per-stream flow control (offsets and credit in
  both directions), the handlers of the four stream frames, and the finalisation of a carrier.

  Objects with identity live in a heap: \<open>dp_trackers\<close> maps a reference to its session tracker, and
  the module-level \<open>Map\<close> of sessions holds references.  Callbacks (\<open>onData\<close>, \<open>onReset\<close>,
  \<open>onClose\<close>, the carrier's \<open>sendFrame\<close> and \<open>close\<close>) belong to clients: a call is recorded
  in \<open>dp_trace\<close> and its outcome (return or throw) is read from the record.  A handler runs to
  completion before the next frame of its stream is handled, which is what the per-stream promise
  queue of the source enforces.  Offsets and credits are exact integers (the frame schemas only
  admit safe integers).  Log calls are left out.
\<close>

section \<open>Streams, trackers and the heap\<close>

datatype cb_result = CbOk | CbThrow string | CbThrowOther

fun cb_exn :: "cb_result \<Rightarrow> unit result" where
  "cb_exn CbOk = Inr ()"
| "cb_exn (CbThrow m) = Inl (JsError m)"
| "cb_exn CbThrowOther = Inl NonErrorThrown"

record data_info =
  di_streamId :: string
  di_streamType :: string
  di_offset :: int
  di_endStream :: bool

record runtime_stream =
  rs_streamId :: string
  rs_streamType :: string
  rs_receiveOffset :: int
  rs_receiveCreditBytes :: int
  rs_sendOffset :: int
  rs_sendCreditBytes :: int
  rs_remoteReceiveOffset :: int
  rs_localClosed :: bool
  rs_remoteClosed :: bool
  rs_resetReason :: "string option"
  rs_onData :: "(byte list \<Rightarrow> data_info \<Rightarrow> cb_result) option"
  rs_onReset :: "(string \<Rightarrow> error_info option \<Rightarrow> cb_result) option"
  rs_onClose :: "(int \<Rightarrow> cb_result) option"

datatype dp_role = Role_data | Role_control_data

fun role_name :: "dp_role \<Rightarrow> string" where
  "role_name Role_data = ''data''"
| "role_name Role_control_data = ''control_data''"

record session_tracker =
  tk_budId :: string
  tk_deviceSessionId :: string
  tk_controlTransportSessionId :: "string option"
  tk_transportSessionId :: "string option"
  tk_transportKind :: data_plane_transport_kind
  tk_role :: dp_role
  tk_draining :: bool
  tk_finalizing :: bool
  tk_finalized :: bool
  tk_health :: "partial_carrier_health option"
  tk_streams :: "string list"
  tk_framesReceived :: int
  tk_bytesReceived :: int
  tk_runtimeStreams :: "(string \<times> runtime_stream) list"
  tk_maxChunkBytes :: int
  tk_initialCreditBytes :: int
  tk_maxInFlightBytes :: int
  tk_sendFrame :: "json \<Rightarrow> cb_result"
  tk_isActive :: bool
  tk_close :: "cb_result option"

datatype dp_event =
    EvSend nat json
  | EvData nat string "byte list" int bool
  | EvReset nat string string "error_info option"
  | EvClose nat string int
  | EvCarrierClose nat

record dp_state =
  dp_sessions :: "(string \<times> nat) list"
  dp_trackers :: "nat \<Rightarrow> session_tracker"
  dp_store :: daemon_store
  dp_trace :: "dp_event list"
  dp_now :: int
  dp_ulid :: "nat \<Rightarrow> string"
  dp_used :: nat

type_synonym 'a dpm = "dp_state \<Rightarrow> 'a result \<times> dp_state"

text \<open>Sequencing of awaited calls: an exception skips the rest.\<close>

definition seqE :: "'a dpm \<Rightarrow> ('a \<Rightarrow> 'b dpm) \<Rightarrow> 'b dpm" where
  "seqE m f s = (case m s of (Inl e, s') \<Rightarrow> (Inl e, s') | (Inr x, s') \<Rightarrow> f x s')"

definition retE :: "'a \<Rightarrow> 'a dpm" where
  "retE x s = (Inr x, s)"

text \<open>\<open>.catch(() => null)\<close>: the effects stay, the outcome is ignored.\<close>

definition catchNull :: "'a dpm \<Rightarrow> unit dpm" where
  "catchNull m s = (Inr (), snd (m s))"

definition emit_ev :: "dp_event \<Rightarrow> dp_state \<Rightarrow> dp_state" where
  "emit_ev e s = s\<lparr>dp_trace := dp_trace s @ [e]\<rparr>"

definition upd_tracker :: "nat \<Rightarrow> (session_tracker \<Rightarrow> session_tracker) \<Rightarrow> dp_state \<Rightarrow> dp_state" where
  "upd_tracker t f s = s\<lparr>dp_trackers := (dp_trackers s)(t := f (dp_trackers s t))\<rparr>"

definition upd_stream ::
    "nat \<Rightarrow> string \<Rightarrow> (runtime_stream \<Rightarrow> runtime_stream) \<Rightarrow> dp_state \<Rightarrow> dp_state" where
  "upd_stream t sid f =
     upd_tracker t (\<lambda>tk. tk\<lparr>tk_runtimeStreams := AList.map_entry sid f (tk_runtimeStreams tk)\<rparr>)"

text \<open>A reset reason is tested for truthiness: the empty reason does not count as reset.\<close>

definition is_reset :: "runtime_stream \<Rightarrow> bool" where
  "is_reset st \<longleftrightarrow> (case rs_resetReason st of None \<Rightarrow> False | Some r \<Rightarrow> r \<noteq> [])"

section \<open>Session registry\<close>

definition dataPlaneSessionKey :: "string \<Rightarrow> string \<Rightarrow> data_plane_transport_kind \<Rightarrow> string" where
  "dataPlaneSessionKey budId devId kind = budId @ '':'' @ devId @ '':'' @ transport_kind_name kind"

definition tracker_key :: "session_tracker \<Rightarrow> string" where
  "tracker_key tk = dataPlaneSessionKey (tk_budId tk) (tk_deviceSessionId tk) (tk_transportKind tk)"

definition isDataPlaneSessionConnected :: "session_tracker \<Rightarrow> bool" where
  "isDataPlaneSessionConnected tk \<longleftrightarrow> \<not> tk_finalized tk \<and> tk_isActive tk"

definition registerActiveDataPlaneSessionTracker :: "nat \<Rightarrow> dp_state \<Rightarrow> nat option \<times> dp_state" where
  "registerActiveDataPlaneSessionTracker t s =
     (let k = tracker_key (dp_trackers s t)
      in (map_of (dp_sessions s) k, s\<lparr>dp_sessions := AList.update k t (dp_sessions s)\<rparr>))"

definition getActiveDataPlaneSessionTracker ::
    "string \<Rightarrow> string \<Rightarrow> data_plane_transport_kind \<Rightarrow> dp_state \<Rightarrow> nat option" where
  "getActiveDataPlaneSessionTracker budId devId kind s =
     (case map_of (dp_sessions s) (dataPlaneSessionKey budId devId kind) of
        None \<Rightarrow> None
      | Some t \<Rightarrow> if isDataPlaneSessionConnected (dp_trackers s t) then Some t else None)"

definition deleteDataPlaneSessionTrackerIfCurrent :: "nat \<Rightarrow> dp_state \<Rightarrow> bool \<times> dp_state" where
  "deleteDataPlaneSessionTrackerIfCurrent t s =
     (let k = tracker_key (dp_trackers s t)
      in if map_of (dp_sessions s) k \<noteq> Some t then (False, s)
         else (True, s\<lparr>dp_sessions := AList.delete k (dp_sessions s)\<rparr>))"

section \<open>Carrier selection\<close>

text \<open>
  The policy argument is optional; \<open>cfg\<close> is the configured policy that
  \<open>activeDaemonTransportPolicy\<close> supplies as its default.
\<close>

definition policy_or :: "daemon_transport_policy \<Rightarrow> daemon_transport_policy option \<Rightarrow>
    daemon_transport_policy" where
  "policy_or cfg p = (case p of None \<Rightarrow> cfg | Some q \<Rightarrow> q)"

definition rankedDataPlaneSessions ::
    "daemon_transport_policy \<Rightarrow> string \<Rightarrow> string option \<Rightarrow> daemon_transport_policy option \<Rightarrow>
     dp_state \<Rightarrow> nat list" where
  "rankedDataPlaneSessions cfg budId devId policy s =
     sort_key (\<lambda>t. rankDataPlaneTransport (tk_transportKind (dp_trackers s t)) (policy_or cfg policy))
       (filter (\<lambda>t. tk_budId (dp_trackers s t) = budId \<and>
                    (case devId of None \<Rightarrow> True
                     | Some d \<Rightarrow> d = [] \<or> tk_deviceSessionId (dp_trackers s t) = d))
          (map snd (dp_sessions s)))"

definition dataPlaneTrackerAcceptsNewWork :: "session_tracker \<Rightarrow> bool" where
  "dataPlaneTrackerAcceptsNewWork tk \<longleftrightarrow>
     \<not> tk_draining tk \<and> carrierHealthAllowsNewWork (normalizeCarrierHealth (tk_health tk))"

definition getActiveDataPlaneSessionForBud ::
    "daemon_transport_policy \<Rightarrow> string \<Rightarrow> string option \<Rightarrow> string option \<Rightarrow>
     data_plane_transport_kind option \<Rightarrow> bool \<Rightarrow> daemon_transport_policy option \<Rightarrow> dp_state \<Rightarrow>
     nat option" where
  "getActiveDataPlaneSessionForBud cfg budId devId streamType kind includeDraining policy s =
     (let candidates = filter (\<lambda>t. let tk = dp_trackers s t in
            (case kind of None \<Rightarrow> True | Some k \<Rightarrow> tk_transportKind tk = k) \<and>
            (includeDraining \<or> \<not> tk_draining tk) \<and>
            (includeDraining \<or> carrierHealthAllowsNewWork (normalizeCarrierHealth (tk_health tk))) \<and>
            (case streamType of None \<Rightarrow> True | Some st \<Rightarrow> st = [] \<or> st \<in> set (tk_streams tk)) \<and>
            isDataPlaneSessionConnected tk)
          (rankedDataPlaneSessions cfg budId devId policy s)
      in case candidates of [] \<Rightarrow> None | t # _ \<Rightarrow> Some t)"

definition candidateUnavailableReason ::
    "bool \<Rightarrow> bool \<Rightarrow> bool \<Rightarrow> carrier_health \<Rightarrow> string option" where
  "candidateUnavailableReason isConnected supportsStream draining health =
     (if \<not> isConnected then Some ''not connected''
      else if \<not> supportsStream then Some ''stream family unsupported''
      else if draining then Some ''draining''
      else if \<not> carrierHealthAllowsNewWork health then Some (describeCarrierHealth health)
      else None)"

definition dataPlaneSelectionCandidate ::
    "session_tracker \<Rightarrow> string \<Rightarrow> carrier_selection_candidate" where
  "dataPlaneSelectionCandidate tk streamType =
     (let health = normalizeCarrierHealth (tk_health tk);
          supportsStream = (streamType \<in> set (tk_streams tk));
          connected = isDataPlaneSessionConnected tk;
          draining = tk_draining tk;
          healthy = carrierHealthAllowsNewWork health
      in \<lparr>cand_transportKind = transport_kind_name (tk_transportKind tk),
          cand_role = Some (role_name (tk_role tk)),
          cand_health = health,
          cand_available = (connected \<and> supportsStream \<and> \<not> draining \<and> healthy),
          cand_reason = candidateUnavailableReason connected supportsStream draining health\<rparr>)"

datatype unavailable_code = DATA_PLANE_UNAVAILABLE | STREAM_FAMILY_UNSUPPORTED | TRANSPORT_DEGRADED

record carrier_selection =
  sel_code :: "unavailable_code option"
  sel_message :: "string option"
  sel_tracker :: "nat option"
  sel_transportKind :: "data_plane_transport_kind option"
  sel_role :: "dp_role option"
  sel_deviceSessionId :: "string option"
  sel_controlTransportSessionId :: "string option"
  sel_dataTransportSessionId :: "string option"
  sel_streamFamilies :: "string list"
  sel_maxChunkBytes :: "int option"
  sel_maxInFlightBytes :: "int option"
  sel_initialCreditBytes :: "int option"
  sel_health :: "carrier_health option"
  sel_selectionReason :: string
  sel_candidateTransports :: "carrier_selection_candidate list"

text \<open>The discriminant \<open>available\<close> of the union is the absence of a code.\<close>

definition sel_available :: "carrier_selection \<Rightarrow> bool" where
  "sel_available r \<longleftrightarrow> sel_code r = None"

definition selection_for ::
    "unavailable_code option \<Rightarrow> string option \<Rightarrow> nat option \<Rightarrow> carrier_selection_candidate list \<Rightarrow>
     string \<Rightarrow> dp_state \<Rightarrow> carrier_selection" where
  "selection_for code msg t candidates selReason s =
     (let tk = map_option (dp_trackers s) t
      in \<lparr>sel_code = code, sel_message = msg, sel_tracker = t,
          sel_transportKind = map_option tk_transportKind tk,
          sel_role = map_option tk_role tk,
          sel_deviceSessionId = map_option tk_deviceSessionId tk,
          sel_controlTransportSessionId = Option.bind tk tk_controlTransportSessionId,
          sel_dataTransportSessionId = Option.bind tk tk_transportSessionId,
          sel_streamFamilies = (case tk of None \<Rightarrow> [] | Some x \<Rightarrow> tk_streams x),
          sel_maxChunkBytes = map_option tk_maxChunkBytes tk,
          sel_maxInFlightBytes = map_option tk_maxInFlightBytes tk,
          sel_initialCreditBytes = map_option tk_initialCreditBytes tk,
          sel_health = map_option (\<lambda>x. normalizeCarrierHealth (tk_health x)) tk,
          sel_selectionReason = selReason,
          sel_candidateTransports = candidates\<rparr>)"

definition unavailableSelection ::
    "unavailable_code \<Rightarrow> string \<Rightarrow> nat option \<Rightarrow> carrier_selection_candidate list \<Rightarrow> string \<Rightarrow>
     dp_state \<Rightarrow> carrier_selection" where
  "unavailableSelection code msg t candidates selReason s =
     selection_for (Some code) (Some msg) t candidates selReason s"

fun policy_name :: "daemon_transport_policy \<Rightarrow> string" where
  "policy_name Websocket_baseline = ''websocket_baseline''"
| "policy_name H2_preferred = ''h2_preferred''"
| "policy_name Quic_preferred = ''quic_preferred''"

definition selectionReasonForDataPlaneCarrier ::
    "session_tracker \<Rightarrow> carrier_selection_candidate list \<Rightarrow> daemon_transport_policy option \<Rightarrow>
     string" where
  "selectionReasonForDataPlaneCarrier selected candidates policy =
     (let kind = transport_kind_name (tk_transportKind selected);
          demoted = map (\<lambda>c. cand_transportKind c @ '': '' @
                         (case cand_reason c of Some r \<Rightarrow> r
                          | None \<Rightarrow> describeCarrierHealth (cand_health c)))
                      (filter (\<lambda>c. cand_transportKind c \<noteq> kind \<and> \<not> cand_available c) candidates);
          policyText = (case policy of None \<Rightarrow> [] | Some p \<Rightarrow> '' by '' @ policy_name p @ '' policy'');
          suf = (if demoted \<noteq> [] then ''; skipped '' @ join_with '', '' demoted else [])
      in ''selected '' @ kind @ policyText @ '' with ''
         @ describeCarrierHealth (normalizeCarrierHealth (tk_health selected)) @ suf)"

definition selectDataPlaneCarrier ::
    "daemon_transport_policy \<Rightarrow> string \<Rightarrow> string option \<Rightarrow> string \<Rightarrow>
     data_plane_transport_kind option \<Rightarrow> daemon_transport_policy option \<Rightarrow> dp_state \<Rightarrow>
     carrier_selection" where
  "selectDataPlaneCarrier cfg budId devId streamType preferred policy s =
     (let tr = dp_trackers s;
          connected = filter (\<lambda>t. isDataPlaneSessionConnected (tr t))
                        (rankedDataPlaneSessions cfg budId devId policy s);
          filtered = (case preferred of None \<Rightarrow> connected
                      | Some k \<Rightarrow> filter (\<lambda>t. tk_transportKind (tr t) = k) connected);
          candidates = map (\<lambda>t. dataPlaneSelectionCandidate (tr t) streamType) filtered
      in case filtered of
           [] \<Rightarrow> unavailableSelection DATA_PLANE_UNAVAILABLE
                   ''Bud does not have an active data-plane carrier''
                   (case connected of [] \<Rightarrow> None | t # _ \<Rightarrow> Some t) candidates
                   (case preferred of
                      Some k \<Rightarrow> ''No active '' @ transport_kind_name k
                                @ '' data-plane carrier is connected''
                    | None \<Rightarrow> ''No active data-plane carrier is connected'') s
         | f0 # _ \<Rightarrow>
             (let familyMatches = filter (\<lambda>t. streamType \<in> set (tk_streams (tr t))) filtered
              in case familyMatches of
                   [] \<Rightarrow> unavailableSelection STREAM_FAMILY_UNSUPPORTED
                           (''Bud data-plane carrier has not negotiated '' @ streamType @ '' support'')
                           (Some f0) candidates
                           (''No active data-plane carrier negotiated '' @ streamType) s
                 | m0 # _ \<Rightarrow>
                     (let familyMatch =
                            (case List.find (\<lambda>t. dataPlaneTrackerAcceptsNewWork (tr t)) familyMatches of
                               Some t \<Rightarrow> t
                             | None \<Rightarrow>
                                 (case List.find (\<lambda>t. \<not> tk_draining (tr t)) familyMatches of
                                    Some t \<Rightarrow> t | None \<Rightarrow> m0));
                          tk = tr familyMatch;
                          health = normalizeCarrierHealth (tk_health tk);
                          kind = transport_kind_name (tk_transportKind tk)
                      in if tk_draining tk then
                           unavailableSelection TRANSPORT_DEGRADED
                             ''Bud data-plane carrier is draining and cannot accept new streams''
                             (Some familyMatch) candidates
                             (kind @ '' is draining and no healthier '' @ streamType
                              @ '' carrier is available'') s
                         else if \<not> carrierHealthAllowsNewWork health then
                           unavailableSelection TRANSPORT_DEGRADED
                             (''Bud data-plane carrier is unhealthy: '' @ describeCarrierHealth health)
                             (Some familyMatch) candidates
                             (kind @ '' is '' @ describeCarrierHealth health
                              @ '' and no healthier '' @ streamType @ '' carrier is available'') s
                         else selection_for None None (Some familyMatch) candidates
                                (selectionReasonForDataPlaneCarrier tk candidates policy) s)))"

end
