(* ===== verification/StreamFlow.thy ===== *)
theory StreamFlow
  imports DataPlane
begin

text \<open>
  The second half of \<open>service/src/transport/data-plane-router.ts\<close>: runtime streams with their
  offsets and credit, the frame schemas, the handlers of \<open>stream_data\<close>, \<open>stream_credit\<close>,
  \<open>stream_reset\<close> and \<open>stream_close\<close>, the sender, and the finalisation of carriers.
\<close>

section \<open>Runtime streams\<close>

record register_stream_args =
  ra_streamId :: string
  ra_streamType :: string
  ra_initialReceiveCreditBytes :: int
  ra_initialSendCreditBytes :: "int option"
  ra_onData :: "(byte list \<Rightarrow> data_info \<Rightarrow> cb_result) option"
  ra_onReset :: "(string \<Rightarrow> error_info option \<Rightarrow> cb_result) option"
  ra_onClose :: "(int \<Rightarrow> cb_result) option"

definition new_runtime_stream :: "register_stream_args \<Rightarrow> runtime_stream" where
  "new_runtime_stream a =
     \<lparr>rs_streamId = ra_streamId a, rs_streamType = ra_streamType a, rs_receiveOffset = 0,
      rs_receiveCreditBytes = ra_initialReceiveCreditBytes a, rs_sendOffset = 0,
      rs_sendCreditBytes = (case ra_initialSendCreditBytes a of None \<Rightarrow> 0 | Some n \<Rightarrow> n),
      rs_remoteReceiveOffset = 0, rs_localClosed = False, rs_remoteClosed = False,
      rs_resetReason = None, rs_onData = ra_onData a, rs_onReset = ra_onReset a,
      rs_onClose = ra_onClose a\<rparr>"

definition getDataPlaneRuntimeStream :: "nat \<Rightarrow> string \<Rightarrow> dp_state \<Rightarrow> runtime_stream option" where
  "getDataPlaneRuntimeStream t sid s = map_of (tk_runtimeStreams (dp_trackers s t)) sid"

definition registerDataPlaneRuntimeStream ::
    "nat \<Rightarrow> register_stream_args \<Rightarrow> dp_state \<Rightarrow> runtime_stream \<times> dp_state" where
  "registerDataPlaneRuntimeStream t a s =
     (case getDataPlaneRuntimeStream t (ra_streamId a) s of
        Some existing \<Rightarrow> (existing, s)
      | None \<Rightarrow>
          (let st = new_runtime_stream a
           in (st, upd_tracker t (\<lambda>tk. tk\<lparr>tk_runtimeStreams :=
                     AList.update (ra_streamId a) st (tk_runtimeStreams tk)\<rparr>) s)))"

definition stream_counts :: "string option \<Rightarrow> runtime_stream \<Rightarrow> bool" where
  "stream_counts streamType st \<longleftrightarrow>
     (case streamType of None \<Rightarrow> True | Some ty \<Rightarrow> ty = [] \<or> rs_streamType st = ty) \<and>
     \<not> (is_reset st \<or> (rs_localClosed st \<and> rs_remoteClosed st))"

definition countActiveDataPlaneRuntimeStreamsForBud :: "string \<Rightarrow> string option \<Rightarrow> dp_state \<Rightarrow> nat" where
  "countActiveDataPlaneRuntimeStreamsForBud budId streamType s =
     sum_list (map (\<lambda>t. length (filter (\<lambda>(_, st). stream_counts streamType st)
                                  (tk_runtimeStreams (dp_trackers s t))))
       (filter (\<lambda>t. tk_budId (dp_trackers s t) = budId \<and>
                    isDataPlaneSessionConnected (dp_trackers s t)) (map snd (dp_sessions s))))"

datatype capacity_check = CapacityOk nat | CapacityExceeded nat string string

definition checkDataPlaneRuntimeStreamCapacity ::
    "string \<Rightarrow> string \<Rightarrow> int \<Rightarrow> dp_state \<Rightarrow> capacity_check" where
  "checkDataPlaneRuntimeStreamCapacity budId streamType maxConcurrent s =
     (let n = countActiveDataPlaneRuntimeStreamsForBud budId (Some streamType) s
      in if int n < maxConcurrent then CapacityOk n
         else CapacityExceeded n ''DATA_PLANE_STREAM_LIMIT_EXCEEDED''
                (''Bud already has '' @ show_nat n @ '' active '' @ streamType @ '' stream(s)''))"

text \<open>Receiving: the rejections come as code and message, in the order of the source.\<close>

definition recordDataPlaneInboundChunk ::
    "runtime_stream \<Rightarrow> int \<Rightarrow> int \<Rightarrow> (string \<times> string) + runtime_stream" where
  "recordDataPlaneInboundChunk st offset byteLength =
     (if is_reset st then Inl (''STREAM_RESET'', ''stream has already been reset'')
      else if rs_remoteClosed st then
        Inl (''STREAM_CLOSED'', ''stream is already closed by the remote peer'')
      else if offset \<noteq> rs_receiveOffset st then
        Inl (''OFFSET_MISMATCH'', ''expected stream offset '' @ show_int (rs_receiveOffset st)
                                  @ '', got '' @ show_int offset)
      else if byteLength > rs_receiveCreditBytes st then
        Inl (''CREDIT_EXHAUSTED'', ''stream frame exceeds available credit by ''
               @ show_int (byteLength - rs_receiveCreditBytes st) @ '' bytes'')
      else Inr (st\<lparr>rs_receiveOffset := rs_receiveOffset st + byteLength,
                   rs_receiveCreditBytes := rs_receiveCreditBytes st - byteLength\<rparr>))"

definition grantDataPlaneReceiveCredit :: "int \<Rightarrow> runtime_stream \<Rightarrow> runtime_stream" where
  "grantDataPlaneReceiveCredit creditBytes st =
     st\<lparr>rs_receiveCreditBytes := rs_receiveCreditBytes st + creditBytes\<rparr>"

definition recordDataPlaneOutboundCredit :: "int \<Rightarrow> int \<Rightarrow> runtime_stream \<Rightarrow> runtime_stream" where
  "recordDataPlaneOutboundCredit receiveOffset creditBytes st =
     st\<lparr>rs_remoteReceiveOffset := max (rs_remoteReceiveOffset st) receiveOffset,
        rs_sendCreditBytes := rs_sendCreditBytes st + creditBytes\<rparr>"

section \<open>Sending frames\<close>

definition PROTO_VERSION :: string where
  "PROTO_VERSION = ''0.1''"

definition wire_frame :: "string \<Rightarrow> string \<Rightarrow> int \<Rightarrow> js_object \<Rightarrow> json" where
  "wire_frame ty i ts flds =
     JObj ([(''proto'', JStr PROTO_VERSION), (''type'', JStr ty), (''id'', JStr i),
            (''ts'', JInt ts), (''ext'', JObj [])] @ flds)"

definition mk_frame :: "string \<Rightarrow> js_object \<Rightarrow> json dpm" where
  "mk_frame ty flds s =
     (Inr (wire_frame ty (''msg_'' @ dp_ulid s (dp_used s)) (dp_now s) flds),
      s\<lparr>dp_used := Suc (dp_used s)\<rparr>)"

definition sendDataPlaneFrame :: "nat \<Rightarrow> json \<Rightarrow> unit dpm" where
  "sendDataPlaneFrame t frame s =
     (if \<not> isDataPlaneSessionConnected (dp_trackers s t)
      then (Inl (JsError ''data-plane carrier is not active''), s)
      else (cb_exn (tk_sendFrame (dp_trackers s t) frame), emit_ev (EvSend t frame) s))"

definition error_json :: "error_info \<Rightarrow> json" where
  "error_json e =
     JObj ([(''code'', JStr (err_code e)), (''message'', JStr (err_message e))]
           @ (case err_retryable e of None \<Rightarrow> [] | Some b \<Rightarrow> [(''retryable'', JBool b)])
           @ (case err_details e of None \<Rightarrow> [] | Some d \<Rightarrow> [(''details'', d)]))"

definition simple_error :: "string \<Rightarrow> string \<Rightarrow> bool \<Rightarrow> error_info" where
  "simple_error code msg retryable =
     \<lparr>err_code = code, err_message = msg, err_retryable = Some retryable, err_details = None\<rparr>"

definition sendStreamReset :: "nat \<Rightarrow> string \<Rightarrow> string \<Rightarrow> error_info \<Rightarrow> unit dpm" where
  "sendStreamReset t sid reason err =
     seqE (mk_frame ''stream_reset'' [(''stream_id'', JStr sid), (''reason'', JStr reason),
                                      (''error'', error_json err)])
          (sendDataPlaneFrame t)"

definition stream_data_fields :: "string \<Rightarrow> string \<Rightarrow> int \<Rightarrow> byte list \<Rightarrow> bool \<Rightarrow> js_object" where
  "stream_data_fields sid ty offset data endStream =
     [(''stream_id'', JStr sid), (''stream_type'', JStr ty), (''offset'', JInt offset),
      (''data'', JStr (b64_encode data)), (''end_stream'', JBool endStream)]"

definition sendDataPlaneStreamData ::
    "nat \<Rightarrow> string \<Rightarrow> byte list \<Rightarrow> bool \<Rightarrow> int \<Rightarrow> unit dpm" where
  "sendDataPlaneStreamData t sid data endStream maxChunkBytes s =
     (case getDataPlaneRuntimeStream t sid s of
        None \<Rightarrow> (Inl (JsError (''unknown data-plane runtime stream: '' @ sid)), s)
      | Some st \<Rightarrow>
          (let n = int (length data) in
           if rs_localClosed st \<or> is_reset st then
             (Inl (JsError (''data-plane runtime stream is not writable: '' @ sid)), s)
           else if n > maxChunkBytes then
             (Inl (JsError (''data-plane runtime stream chunk exceeds '' @ show_int maxChunkBytes
                            @ '' bytes'')), s)
           else if n > rs_sendCreditBytes st then
             (Inl (JsError (''data-plane runtime stream has insufficient send credit: '' @ sid)), s)
           else
             seqE (mk_frame ''stream_data''
                     (stream_data_fields (rs_streamId st) (rs_streamType st) (rs_sendOffset st) data
                        endStream))
                  (sendDataPlaneFrame t)
                  (upd_stream t sid (\<lambda>x. x\<lparr>rs_sendOffset := rs_sendOffset x + n,
                      rs_sendCreditBytes := rs_sendCreditBytes x - n,
                      rs_localClosed := (endStream \<or> rs_localClosed x)\<rparr>) s)))"

definition sendDataPlaneFrameToBud ::
    "daemon_transport_policy \<Rightarrow> string \<Rightarrow> string option \<Rightarrow> string option \<Rightarrow> json \<Rightarrow> bool dpm" where
  "sendDataPlaneFrameToBud cfg budId devId streamType frame s =
     (case getActiveDataPlaneSessionForBud cfg budId devId streamType None False None s of
        None \<Rightarrow> (Inr False, s)
      | Some t \<Rightarrow> seqE (sendDataPlaneFrame t frame) (\<lambda>_. retE True) s)"

section \<open>Frame schemas\<close>

text \<open>
  The zod schemas: every frame extends the envelope (protocol literal, type literal, string
  identifier, numeric timestamp, optional extension record); offsets and credits are safe
  non-negative integers.
\<close>

fun num_ok :: "json \<Rightarrow> bool" where
  "num_ok (JNum n) = (n \<noteq> NaN)"
| "num_ok _ = False"

fun safe_nonneg :: "json \<Rightarrow> int option" where
  "safe_nonneg (JNum n) = (if is_integer n \<and> 0 \<le> js_floor n \<and> is_safe_integer n
                           then Some (js_floor n) else None)"
| "safe_nonneg _ = None"

fun ext_ok :: "json \<Rightarrow> bool" where
  "ext_ok JUndef = True"
| "ext_ok (JObj _) = True"
| "ext_ok _ = False"

definition envelope_ok :: "string \<Rightarrow> js_object \<Rightarrow> bool" where
  "envelope_ok ty ob \<longleftrightarrow>
     obj_get ob ''proto'' = JStr PROTO_VERSION \<and> obj_get ob ''type'' = JStr ty \<and>
     as_string (obj_get ob ''id'') \<noteq> None \<and> num_ok (obj_get ob ''ts'') \<and>
     ext_ok (obj_get ob ''ext'')"

record stream_data_frame =
  sd_stream_id :: string
  sd_stream_type :: string
  sd_offset :: int
  sd_data :: string
  sd_end_stream :: bool

fun bool_default :: "bool \<Rightarrow> json \<Rightarrow> bool option" where
  "bool_default d JUndef = Some d"
| "bool_default d (JBool b) = Some b"
| "bool_default d _ = None"

definition parseStreamDataFrame :: "json \<Rightarrow> stream_data_frame option" where
  "parseStreamDataFrame raw =
     (case as_record raw of
        None \<Rightarrow> None
      | Some ob \<Rightarrow>
          (if \<not> envelope_ok ''stream_data'' ob then None
           else case (as_string (obj_get ob ''stream_id''), as_string (obj_get ob ''stream_type''),
                      safe_nonneg (obj_get ob ''offset''), as_string (obj_get ob ''data''),
                      bool_default False (obj_get ob ''end_stream'')) of
                  (Some sid, Some ty, Some off, Some d, Some e) \<Rightarrow>
                    Some \<lparr>sd_stream_id = sid, sd_stream_type = ty, sd_offset = off, sd_data = d,
                          sd_end_stream = e\<rparr>
                | _ \<Rightarrow> None))"

record stream_credit_frame =
  sc_stream_id :: string
  sc_receive_offset :: int
  sc_credit_bytes :: int

definition parseStreamCredit :: "json \<Rightarrow> stream_credit_frame option" where
  "parseStreamCredit raw =
     (case as_record raw of
        None \<Rightarrow> None
      | Some ob \<Rightarrow>
          (if \<not> envelope_ok ''stream_credit'' ob then None
           else case (as_string (obj_get ob ''stream_id''), safe_nonneg (obj_get ob ''receive_offset''),
                      safe_nonneg (obj_get ob ''credit_bytes'')) of
                  (Some sid, Some off, Some c) \<Rightarrow>
                    Some \<lparr>sc_stream_id = sid, sc_receive_offset = off, sc_credit_bytes = c\<rparr>
                | _ \<Rightarrow> None))"

record stream_reset_frame =
  sr_stream_id :: string
  sr_reason :: string
  sr_error :: "error_info option"

fun opt_bool :: "json \<Rightarrow> bool option option" where
  "opt_bool JUndef = Some None"
| "opt_bool (JBool b) = Some (Some b)"
| "opt_bool _ = None"

fun opt_record :: "json \<Rightarrow> json option option" where
  "opt_record JUndef = Some None"
| "opt_record (JObj ob) = Some (Some (JObj ob))"
| "opt_record _ = None"

fun parse_error :: "json \<Rightarrow> error_info option option" where
  "parse_error JUndef = Some None"
| "parse_error (JObj ob) =
     (case (as_string (obj_get ob ''code''), as_string (obj_get ob ''message''),
            opt_bool (obj_get ob ''retryable''), opt_record (obj_get ob ''details'')) of
        (Some c, Some m, Some r, Some d) \<Rightarrow>
          Some (Some \<lparr>err_code = c, err_message = m, err_retryable = r, err_details = d\<rparr>)
      | _ \<Rightarrow> None)"
| "parse_error _ = None"

definition parseStreamReset :: "json \<Rightarrow> stream_reset_frame option" where
  "parseStreamReset raw =
     (case as_record raw of
        None \<Rightarrow> None
      | Some ob \<Rightarrow>
          (if \<not> envelope_ok ''stream_reset'' ob then None
           else case (as_string (obj_get ob ''stream_id''), as_string (obj_get ob ''reason''),
                      parse_error (obj_get ob ''error'')) of
                  (Some sid, Some r, Some e) \<Rightarrow>
                    Some \<lparr>sr_stream_id = sid, sr_reason = r, sr_error = e\<rparr>
                | _ \<Rightarrow> None))"

record stream_close_frame =
  scl_stream_id :: string
  scl_final_offset :: int

definition parseStreamClose :: "json \<Rightarrow> stream_close_frame option" where
  "parseStreamClose raw =
     (case as_record raw of
        None \<Rightarrow> None
      | Some ob \<Rightarrow>
          (if \<not> envelope_ok ''stream_close'' ob then None
           else case (as_string (obj_get ob ''stream_id''),
                      safe_nonneg (obj_get ob ''final_offset'')) of
                  (Some sid, Some off) \<Rightarrow> Some \<lparr>scl_stream_id = sid, scl_final_offset = off\<rparr>
                | _ \<Rightarrow> None))"

section \<open>Frame handlers\<close>

definition live_stream_states :: "stream_state list" where
  "live_stream_states = [Opening, Open, HalfClosedLocal, HalfClosedRemote]"

text \<open>A store call inside a handler; a fresh identifier is drawn for audit rows.\<close>

definition store_transition :: "transition_stream_args \<Rightarrow> unit dpm" where
  "store_transition a s =
     (case transitionStream a (dp_now s) (dp_store s) of
        Inl e \<Rightarrow> (Inl e, s)
      | Inr (_, st') \<Rightarrow> (Inr (), s\<lparr>dp_store := st'\<rparr>))"

definition store_audit :: "audit_args \<Rightarrow> unit dpm" where
  "store_audit a s =
     (let s1 = s\<lparr>dp_used := Suc (dp_used s)\<rparr>
      in case appendAuditEvent a (dp_ulid s (dp_used s)) (dp_store s) of
           Inl e \<Rightarrow> (Inl e, s1)
         | Inr (_, st') \<Rightarrow> (Inr (), s1\<lparr>dp_store := st'\<rparr>))"

definition transition_to_reset :: "string \<Rightarrow> string \<Rightarrow> error_info option \<Rightarrow> transition_stream_args" where
  "transition_to_reset sid reason err =
     \<lparr>tr_streamId = sid, tr_from = live_stream_states, tr_to = Reset, tr_sendOffset = None,
      tr_receiveOffset = None, tr_resetReason = Some reason, tr_error = err\<rparr>"

definition stream_audit :: "session_tracker \<Rightarrow> string \<Rightarrow> string \<Rightarrow> js_object \<Rightarrow> string option \<Rightarrow>
    audit_args" where
  "stream_audit tk eventType sid extra streamType =
     \<lparr>aa_auditEventId = None, aa_eventType = eventType,
      aa_eventData = Some (JObj (extra @
        [(''stream_type'', json_of_opt streamType),
         (''device_session_id'', JStr (tk_deviceSessionId tk)),
         (''control_transport_session_id'', json_of_opt (tk_controlTransportSessionId tk)),
         (''data_transport_session_id'', json_of_opt (tk_transportSessionId tk)),
         (''transport_kind'', JStr (transport_kind_name (tk_transportKind tk)))])),
      aa_budId = Some (tk_budId tk), aa_userId = None, aa_operationId = None,
      aa_streamId = Some sid, aa_createdByUserId = None, aa_tenantId = None\<rparr>"

definition reset_audit_data :: "string \<Rightarrow> error_info option \<Rightarrow> js_object" where
  "reset_audit_data reason err =
     [(''reason'', JStr reason),
      (''error'', case err of None \<Rightarrow> JNull | Some e \<Rightarrow> error_json e)]"

text \<open>The optional client callbacks.\<close>

definition call_onData :: "nat \<Rightarrow> runtime_stream \<Rightarrow> byte list \<Rightarrow> data_info \<Rightarrow> unit dpm" where
  "call_onData t st chunk info s =
     (case rs_onData st of
        None \<Rightarrow> (Inr (), s)
      | Some f \<Rightarrow> (cb_exn (f chunk info),
                    emit_ev (EvData t (di_streamId info) chunk (di_offset info) (di_endStream info)) s))"

definition call_onReset :: "nat \<Rightarrow> runtime_stream \<Rightarrow> string \<Rightarrow> error_info option \<Rightarrow> unit dpm" where
  "call_onReset t st reason err s =
     (case rs_onReset st of
        None \<Rightarrow> (Inr (), s)
      | Some f \<Rightarrow> (cb_exn (f reason err), emit_ev (EvReset t (rs_streamId st) reason err) s))"

definition call_onClose :: "nat \<Rightarrow> runtime_stream \<Rightarrow> int \<Rightarrow> unit dpm" where
  "call_onClose t st finalOffset s =
     (case rs_onClose st of
        None \<Rightarrow> (Inr (), s)
      | Some f \<Rightarrow> (cb_exn (f finalOffset), emit_ev (EvClose t (rs_streamId st) finalOffset) s))"

definition streamResetReasonForCreditError :: "string \<Rightarrow> string" where
  "streamResetReasonForCreditError code =
     (if code = ''CREDIT_EXHAUSTED'' then ''backpressure'' else ''protocol_error'')"

fun consumer_failure_message :: "js_exn \<Rightarrow> string" where
  "consumer_failure_message (JsError m) = m"
| "consumer_failure_message _ = ''stream consumer failed''"

text \<open>What happens once a chunk was accepted and its consumer threw.\<close>

definition consumer_failed :: "nat \<Rightarrow> runtime_stream \<Rightarrow> string \<Rightarrow> js_exn \<Rightarrow> unit dpm" where
  "consumer_failed t st sid exn s =
     (let err = simple_error ''STREAM_CONSUMER_FAILED'' (consumer_failure_message exn) False
      in seqE (sendStreamReset t sid ''local_error'' err) (\<lambda>_.
         seqE (catchNull (store_transition (transition_to_reset sid ''local_error'' (Some err)))) (\<lambda>_.
           catchNull (store_audit (stream_audit (dp_trackers s t) ''data_plane.stream_reset'' sid
             (reset_audit_data ''local_error'' (Some err)) (Some (rs_streamType st)))))) s)"

text \<open>What happens once a chunk was accepted and consumed: credit is granted back, and a final
  chunk closes the remote direction.\<close>

definition chunk_consumed :: "nat \<Rightarrow> runtime_stream \<Rightarrow> string \<Rightarrow> int \<Rightarrow> bool \<Rightarrow> unit dpm" where
  "chunk_consumed t st sid byteLength endStream s =
     seqE (mk_frame ''stream_credit'' [(''stream_id'', JStr (rs_streamId st)),
              (''receive_offset'', JInt (rs_receiveOffset st)), (''credit_bytes'', JInt byteLength)])
        (\<lambda>frame. seqE (sendDataPlaneFrame t frame) (\<lambda>_ s2.
          if \<not> endStream then (Inr (), s2)
          else seqE (call_onClose t st (rs_receiveOffset st)) (\<lambda>_.
               seqE (mk_frame ''stream_close'' [(''stream_id'', JStr (rs_streamId st)),
                       (''final_offset'', JInt (rs_receiveOffset st))])
                    (sendDataPlaneFrame t))
               (upd_stream t sid (\<lambda>x. x\<lparr>rs_remoteClosed := True\<rparr>) s2)))
        (upd_stream t sid (grantDataPlaneReceiveCredit byteLength) s)"

definition handleStreamData :: "nat \<Rightarrow> json \<Rightarrow> unit dpm" where
  "handleStreamData t raw s =
     (case parseStreamDataFrame raw of
        None \<Rightarrow> (Inr (), s)
      | Some frame \<Rightarrow>
          (let sid = sd_stream_id frame in
           case getDataPlaneRuntimeStream t sid s of
             None \<Rightarrow> sendStreamReset t sid ''protocol_error''
                       (simple_error ''UNKNOWN_STREAM''
                          ''stream_data received for an unknown stream'' False) s
           | Some st \<Rightarrow>
               if rs_streamType st \<noteq> sd_stream_type frame then
                 sendStreamReset t sid ''protocol_error''
                   (simple_error ''STREAM_TYPE_MISMATCH''
                      (''expected stream_type '' @ rs_streamType st @ '', got ''
                       @ sd_stream_type frame) False) s
               else
                 (let decoded = b64_decode (sd_data frame); n = int (length decoded) in
                  if n > tk_maxChunkBytes (dp_trackers s t) then
                    sendStreamReset t sid ''protocol_error''
                      (simple_error ''CHUNK_TOO_LARGE''
                         ''stream_data chunk exceeds data-plane max chunk size'' False) s
                  else case recordDataPlaneInboundChunk st (sd_offset frame) n of
                         Inl (code, msg) \<Rightarrow>
                           sendStreamReset t sid (streamResetReasonForCreditError code)
                             (simple_error code msg False) s
                       | Inr st' \<Rightarrow>
                           (let s1 = upd_tracker t (\<lambda>tk. tk\<lparr>tk_framesReceived := tk_framesReceived tk + 1,
                                                     tk_bytesReceived := tk_bytesReceived tk + n\<rparr>)
                                       (upd_stream t sid (\<lambda>_. st') s);
                                info = \<lparr>di_streamId = sid, di_streamType = sd_stream_type frame,
                                        di_offset = sd_offset frame, di_endStream = sd_end_stream frame\<rparr>
                            in case call_onData t st' decoded info s1 of
                                 (Inl exn, s2) \<Rightarrow> consumer_failed t st' sid exn s2
                               | (Inr _, s2) \<Rightarrow>
                                   chunk_consumed t st' sid n (sd_end_stream frame) s2))))"

definition handleStreamCredit :: "nat \<Rightarrow> json \<Rightarrow> unit dpm" where
  "handleStreamCredit t raw s =
     (case parseStreamCredit raw of
        None \<Rightarrow> (Inr (), s)
      | Some frame \<Rightarrow>
          (case getDataPlaneRuntimeStream t (sc_stream_id frame) s of
             None \<Rightarrow> (Inr (), s)
           | Some st \<Rightarrow>
               (Inr (), upd_stream t (sc_stream_id frame)
                  (\<lambda>x. let y = recordDataPlaneOutboundCredit (sc_receive_offset frame)
                                  (sc_credit_bytes frame) x
                       in y\<lparr>rs_sendCreditBytes := min (rs_sendCreditBytes y)
                              (tk_maxInFlightBytes (dp_trackers s t))\<rparr>) s)))"

definition handleStreamReset :: "nat \<Rightarrow> json \<Rightarrow> unit dpm" where
  "handleStreamReset t raw s =
     (case parseStreamReset raw of
        None \<Rightarrow> (Inr (), s)
      | Some frame \<Rightarrow>
          (let sid = sr_stream_id frame;
               st = getDataPlaneRuntimeStream t sid s;
               audit = stream_audit (dp_trackers s t) ''data_plane.stream_reset'' sid
                         (reset_audit_data (sr_reason frame) (sr_error frame))
                         (map_option rs_streamType st)
           in seqE (\<lambda>s. case st of
                        None \<Rightarrow> (Inr (), s)
                      | Some x \<Rightarrow> call_onReset t x (sr_reason frame) (sr_error frame)
                          (upd_stream t sid (\<lambda>y. y\<lparr>rs_resetReason := Some (sr_reason frame)\<rparr>) s))
              (\<lambda>_. seqE (catchNull (store_transition
                        (transition_to_reset sid (sr_reason frame) (sr_error frame))))
                   (\<lambda>_. catchNull (store_audit audit))) s))"

definition final_offset_error :: "int \<Rightarrow> int \<Rightarrow> error_info" where
  "final_offset_error expected got =
     \<lparr>err_code = ''FINAL_OFFSET_MISMATCH'',
      err_message = ''expected final_offset '' @ show_int expected @ '', got '' @ show_int got,
      err_retryable = Some False,
      err_details = Some (JObj [(''expected_final_offset'', JInt expected),
                                (''received_final_offset'', JInt got)])\<rparr>"

definition handleStreamClose :: "nat \<Rightarrow> json \<Rightarrow> unit dpm" where
  "handleStreamClose t raw s =
     (case parseStreamClose raw of
        None \<Rightarrow> (Inr (), s)
      | Some frame \<Rightarrow>
          (let sid = scl_stream_id frame;
               st = getDataPlaneRuntimeStream t sid s;
               tk = dp_trackers s t;
               finish = (\<lambda>_. seqE (catchNull (store_transition
                    \<lparr>tr_streamId = sid, tr_from = [Opening], tr_to = Open, tr_sendOffset = None,
                     tr_receiveOffset = None, tr_resetReason = None, tr_error = None\<rparr>)) (\<lambda>_.
                  seqE (catchNull (store_transition
                    \<lparr>tr_streamId = sid, tr_from = [Open, HalfClosedLocal, HalfClosedRemote],
                     tr_to = Closed, tr_sendOffset = None,
                     tr_receiveOffset = Some (scl_final_offset frame), tr_resetReason = None,
                     tr_error = None\<rparr>)) (\<lambda>_.
                  catchNull (store_audit (stream_audit tk ''data_plane.stream_close'' sid
                    [(''final_offset'', JInt (scl_final_offset frame))]
                    (map_option rs_streamType st))))))
           in case st of
                None \<Rightarrow> finish () s
              | Some x \<Rightarrow>
                  if scl_final_offset frame \<noteq> rs_receiveOffset x then
                    (let err = final_offset_error (rs_receiveOffset x) (scl_final_offset frame) in
                     seqE (call_onReset t x ''protocol_error'' (Some err)) (\<lambda>_.
                     seqE (catchNull (sendStreamReset t sid ''protocol_error'' err)) (\<lambda>_.
                     seqE (catchNull (store_transition
                             (transition_to_reset sid ''protocol_error'' (Some err)))) (\<lambda>_.
                       catchNull (store_audit (stream_audit tk ''data_plane.stream_reset'' sid
                         (reset_audit_data ''protocol_error'' (Some err))
                         (Some (rs_streamType x)))))))
                     (upd_stream t sid (\<lambda>y. y\<lparr>rs_resetReason := Some ''protocol_error''\<rparr>) s))
                  else seqE (call_onClose t x (scl_final_offset frame)) finish
                         (upd_stream t sid (\<lambda>y. y\<lparr>rs_remoteClosed := True\<rparr>) s)))"

definition dispatchDataPlaneStreamFrame :: "nat \<Rightarrow> json \<Rightarrow> unit dpm" where
  "dispatchDataPlaneStreamFrame t raw s =
     (case Option.bind (as_record raw) (\<lambda>ob. as_string (obj_get ob ''type'')) of
        None \<Rightarrow> (Inr (), s)
      | Some ty \<Rightarrow>
          if ty = ''stream_data'' then handleStreamData t raw s
          else if ty = ''stream_credit'' then handleStreamCredit t raw s
          else if ty = ''stream_reset'' then handleStreamReset t raw s
          else if ty = ''stream_close'' then handleStreamClose t raw s
          else (Inr (), s))"

section \<open>Finalisation\<close>

definition lost_error :: "string \<Rightarrow> error_info" where
  "lost_error reason =
     simple_error ''DATA_PLANE_STREAM_CLOSED''
       (''data-plane carrier closed before runtime stream completed: '' @ reason) True"

text \<open>The body of the loop over the runtime streams; a throwing callback is swallowed.\<close>

definition reset_runtime_stream :: "nat \<Rightarrow> string \<Rightarrow> string \<times> runtime_stream \<Rightarrow> dp_state \<Rightarrow> dp_state" where
  "reset_runtime_stream t reason entry s =
     (let (sid, st) = entry; err = lost_error reason; tk = dp_trackers s t in
      if rs_remoteClosed st \<or> is_reset st then s
      else snd (seqE (catchNull (call_onReset t st ''transport_lost'' (Some err))) (\<lambda>_.
                seqE (catchNull (store_transition
                        (transition_to_reset (rs_streamId st) ''transport_lost'' (Some err)))) (\<lambda>_.
                  catchNull (store_audit (stream_audit tk ''data_plane.stream_reset'' (rs_streamId st)
                    (reset_audit_data ''transport_lost'' (Some err)) (Some (rs_streamType st))))))
                (upd_stream t sid (\<lambda>y. y\<lparr>rs_resetReason := Some ''transport_lost''\<rparr>) s)))"

definition resetRuntimeStreamsForDataPlaneTracker :: "nat \<Rightarrow> string \<Rightarrow> dp_state \<Rightarrow> dp_state" where
  "resetRuntimeStreamsForDataPlaneTracker t reason s =
     upd_tracker t (\<lambda>tk. tk\<lparr>tk_runtimeStreams := []\<rparr>)
       (fold (reset_runtime_stream t reason) (tk_runtimeStreams (dp_trackers s t)) s)"

definition close_carrier :: "nat \<Rightarrow> unit dpm" where
  "close_carrier t s =
     (case tk_close (dp_trackers s t) of
        None \<Rightarrow> (Inr (), s)
      | Some r \<Rightarrow> (cb_exn r, emit_ev (EvCarrierClose t) s))"

definition finalizeDataPlaneSessionTracker ::
    "nat \<Rightarrow> string \<Rightarrow> bool \<Rightarrow> bool \<Rightarrow> unit dpm" where
  "finalizeDataPlaneSessionTracker t reason markDraining deleteSession s =
     (if tk_finalized (dp_trackers s t) \<or> tk_finalizing (dp_trackers s t) then (Inr (), s)
      else
        (let s1 = upd_tracker t (\<lambda>tk. tk\<lparr>tk_finalizing := True,
                    tk_draining := (markDraining \<or> tk_draining tk)\<rparr>) s;
             s2 = (if deleteSession then snd (deleteDataPlaneSessionTrackerIfCurrent t s1) else s1);
             s3 = resetRuntimeStreamsForDataPlaneTracker t reason s2;
             (r, s4) = seqE (close_carrier t) (\<lambda>_ s.
                 (Inr (), upd_tracker t (\<lambda>tk. tk\<lparr>tk_finalized := True\<rparr>)
                   (case (tk_role (dp_trackers s t), tk_transportSessionId (dp_trackers s t)) of
                      (Role_data, Some ts) \<Rightarrow>
                        if ts = [] then s
                        else s\<lparr>dp_store := closeTransportSession ts reason markDraining (Some False)
                                             (dp_now s) (dp_store s)\<rparr>
                    | _ \<Rightarrow> s))) s3
         in (r, upd_tracker t (\<lambda>tk. tk\<lparr>tk_finalizing := False\<rparr>) s4)))"

record control_tracker =
  ct_budId :: string
  ct_sessionId :: "string option"
  ct_deviceSessionId :: "string option"
  ct_transportSessionId :: "string option"

definition control_subordinate :: "control_tracker \<Rightarrow> session_tracker \<Rightarrow> bool" where
  "control_subordinate c tk \<longleftrightarrow>
     (let ids = List.map_filter id [ct_deviceSessionId c, ct_sessionId c] in
      tk_budId tk = ct_budId c \<and> (ids = [] \<or> tk_deviceSessionId tk \<in> set ids) \<and>
      (case ct_transportSessionId c of
         None \<Rightarrow> True
       | Some ts \<Rightarrow> ts = [] \<or> tk_controlTransportSessionId tk = Some ts \<or>
                    tk_transportSessionId tk = Some ts))"

definition finalizeDataPlaneSessionsForControlTracker ::
    "control_tracker \<Rightarrow> string \<Rightarrow> bool \<Rightarrow> dp_state \<Rightarrow> nat \<times> dp_state" where
  "finalizeDataPlaneSessionsForControlTracker c reason markDraining s =
     (let sessions = filter (\<lambda>t. control_subordinate c (dp_trackers s t)) (map snd (dp_sessions s))
      in (length sessions,
          fold (\<lambda>t s. snd (finalizeDataPlaneSessionTracker t reason markDraining True s)) sessions s))"

section \<open>Control frames\<close>

text \<open>
  Control frames go through the transport routers of the gateway, which are parameters: they take the
  bud and the payload and say whether the bud was connected.
\<close>

definition sendDataPlaneControlFrame ::
    "(string \<Rightarrow> json \<Rightarrow> bool) \<Rightarrow> (string \<Rightarrow> json \<Rightarrow> bool) \<Rightarrow> session_tracker \<Rightarrow> json \<Rightarrow> bool" where
  "sendDataPlaneControlFrame websocketRouter grpcRouter tk payload =
     (case tk_transportKind tk of
        Dp_websocket \<Rightarrow> websocketRouter (tk_budId tk) payload
      | Dp_h2_data \<Rightarrow> grpcRouter (tk_budId tk) payload
      | Dp_quic \<Rightarrow> False)"

end
