(* ===== verification/FlowProps.thy ===== *)
theory FlowProps
  imports StreamFlow
begin

text \<open>
  Correctness of the data-plane flow control: what each handler keeps of the state (frame lemmas),
  in-order delivery, the receive window, the send budget, and finalisation.
\<close>

section \<open>Frame lemmas\<close>

text \<open>A computation that only talks to the outside: it leaves registry, heap, clock and identifier
  source alone, and its calls of \<open>onData\<close> add nothing to the trace.\<close>

definition is_data :: "dp_event \<Rightarrow> bool" where
  "is_data e = (case e of EvData _ _ _ _ _ \<Rightarrow> True | _ \<Rightarrow> False)"

definition quiet :: "'a dpm \<Rightarrow> bool" where
  "quiet m \<longleftrightarrow> (\<forall>s. dp_trackers (snd (m s)) = dp_trackers s \<and> dp_sessions (snd (m s)) = dp_sessions s \<and>
                   dp_now (snd (m s)) = dp_now s \<and> dp_ulid (snd (m s)) = dp_ulid s \<and>
                   filter is_data (dp_trace (snd (m s))) = filter is_data (dp_trace s))"

named_theorems quietI \<open>introduction rules for computations that only talk to the outside\<close>

lemma quietD:
  assumes "quiet m"
  shows "dp_trackers (snd (m s)) = dp_trackers s" "dp_sessions (snd (m s)) = dp_sessions s"
    "filter is_data (dp_trace (snd (m s))) = filter is_data (dp_trace s)"
  using assms by (simp_all add: quiet_def)

lemma quiet_seqE [quietI]:
  assumes "quiet m" and "\<And>x. quiet (f x)"
  shows "quiet (seqE m f)"
  unfolding quiet_def
proof
  fix s
  obtain r s1 where m: "m s = (r, s1)" by (cases "m s")
  with assms(1) have 1: "dp_trackers s1 = dp_trackers s" "dp_sessions s1 = dp_sessions s"
      "dp_now s1 = dp_now s" "dp_ulid s1 = dp_ulid s"
      "filter is_data (dp_trace s1) = filter is_data (dp_trace s)"
    by (metis quiet_def snd_conv)+
  show "dp_trackers (snd (seqE m f s)) = dp_trackers s \<and> dp_sessions (snd (seqE m f s)) = dp_sessions s \<and>
      dp_now (snd (seqE m f s)) = dp_now s \<and> dp_ulid (snd (seqE m f s)) = dp_ulid s \<and>
      filter is_data (dp_trace (snd (seqE m f s))) = filter is_data (dp_trace s)"
  proof (cases r)
    case (Inl e)
    with m 1 show ?thesis by (simp add: seqE_def)
  next
    case (Inr x)
    with m 1 assms(2) [of x] show ?thesis by (simp add: seqE_def quiet_def)
  qed
qed

lemma quiet_catchNull [quietI]: "quiet m \<Longrightarrow> quiet (catchNull m)"
  by (simp add: quiet_def catchNull_def)

lemma quiet_mk_frame [quietI]: "quiet (mk_frame ty flds)"
  by (simp add: quiet_def mk_frame_def)

lemma quiet_sendDataPlaneFrame [quietI]: "quiet (sendDataPlaneFrame t f)"
  by (simp add: quiet_def sendDataPlaneFrame_def emit_ev_def is_data_def)

lemma quiet_sendStreamReset [quietI]: "quiet (sendStreamReset t sid reason err)"
  unfolding sendStreamReset_def by (intro quietI)

lemma quiet_store_transition [quietI]: "quiet (store_transition a)"
  by (simp add: quiet_def store_transition_def split: sum.split prod.split)

lemma quiet_store_audit [quietI]: "quiet (store_audit a)"
  by (simp add: quiet_def store_audit_def Let_def split: sum.split prod.split)

lemma quiet_call_onReset [quietI]: "quiet (call_onReset t st reason err)"
  by (simp add: quiet_def call_onReset_def emit_ev_def is_data_def split: option.split)

lemma quiet_call_onClose [quietI]: "quiet (call_onClose t st off)"
  by (simp add: quiet_def call_onClose_def emit_ev_def is_data_def split: option.split)

lemma quiet_consumer_failed [quietI]: "quiet (consumer_failed t st sid exn)"
  unfolding quiet_def
proof
  fix s :: dp_state
  define err where "err = simple_error ''STREAM_CONSUMER_FAILED'' (consumer_failure_message exn) False"
  define tk where "tk = dp_trackers s t"
  have "quiet (seqE (sendStreamReset t sid ''local_error'' err) (\<lambda>_.
         seqE (catchNull (store_transition (transition_to_reset sid ''local_error'' (Some err)))) (\<lambda>_.
           catchNull (store_audit (stream_audit tk ''data_plane.stream_reset'' sid
             (reset_audit_data ''local_error'' (Some err)) (Some (rs_streamType st)))))))"
    by (intro quietI)
  then show "dp_trackers (snd (consumer_failed t st sid exn s)) = dp_trackers s \<and>
      dp_sessions (snd (consumer_failed t st sid exn s)) = dp_sessions s \<and>
      dp_now (snd (consumer_failed t st sid exn s)) = dp_now s \<and>
      dp_ulid (snd (consumer_failed t st sid exn s)) = dp_ulid s \<and>
      filter is_data (dp_trace (snd (consumer_failed t st sid exn s))) = filter is_data (dp_trace s)"
    unfolding quiet_def consumer_failed_def Let_def err_def tk_def by blast
qed

section \<open>Reading a stream after an update\<close>

lemma map_of_map_entry:
  "map_of (AList.map_entry k f xs) k' = (if k' = k then map_option f (map_of xs k) else map_of xs k')"
  by (induction xs) auto

lemma get_upd_stream [simp]:
  "getDataPlaneRuntimeStream t' sid' (upd_stream t sid f s) =
     (if t' = t \<and> sid' = sid then map_option f (getDataPlaneRuntimeStream t sid s)
      else getDataPlaneRuntimeStream t' sid' s)"
  by (simp add: getDataPlaneRuntimeStream_def upd_stream_def upd_tracker_def map_of_map_entry)

lemma get_upd_tracker_counters [simp]:
  "getDataPlaneRuntimeStream t' sid' (upd_tracker t (\<lambda>tk. tk\<lparr>tk_framesReceived := a tk,
     tk_bytesReceived := b tk\<rparr>) s) = getDataPlaneRuntimeStream t' sid' s"
  by (simp add: getDataPlaneRuntimeStream_def upd_tracker_def)

lemma get_emit_ev [simp]:
  "getDataPlaneRuntimeStream t sid (emit_ev e s) = getDataPlaneRuntimeStream t sid s"
  by (simp add: getDataPlaneRuntimeStream_def emit_ev_def)

lemma get_quiet:
  "quiet m \<Longrightarrow> getDataPlaneRuntimeStream t sid (snd (m s)) = getDataPlaneRuntimeStream t sid s"
  by (simp add: getDataPlaneRuntimeStream_def quiet_def)

lemma trace_upd_stream [simp]: "dp_trace (upd_stream t sid f s) = dp_trace s"
  by (simp add: upd_stream_def upd_tracker_def)

lemma trace_upd_tracker [simp]: "dp_trace (upd_tracker t f s) = dp_trace s"
  by (simp add: upd_tracker_def)

lemma seqE_snd_cases:
  "(\<exists>e. fst (m s) = Inl e) \<and> snd (seqE m f s) = snd (m s) \<or>
   (\<exists>x. fst (m s) = Inr x \<and> snd (seqE m f s) = snd (f x (snd (m s))))"
  by (cases "m s") (auto simp: seqE_def split: sum.splits)

section \<open>Delivery\<close>

text \<open>The chunks handed to the consumer of one stream, with their offsets.\<close>

definition delivery_of :: "nat \<Rightarrow> string \<Rightarrow> dp_event \<Rightarrow> (int \<times> byte list) option" where
  "delivery_of t sid e =
     (case e of EvData t' sid' c off _ \<Rightarrow> if t' = t \<and> sid' = sid then Some (off, c) else None
      | _ \<Rightarrow> None)"

definition delivered :: "nat \<Rightarrow> string \<Rightarrow> dp_state \<Rightarrow> (int \<times> byte list) list" where
  "delivered t sid s = List.map_filter (delivery_of t sid) (dp_trace s)"

fun contiguous :: "int \<Rightarrow> (int \<times> byte list) list \<Rightarrow> bool" where
  "contiguous base [] = True"
| "contiguous base ((off, c) # rest) = (off = base \<and> contiguous (base + int (length c)) rest)"

definition total_bytes :: "(int \<times> byte list) list \<Rightarrow> int" where
  "total_bytes ds = int (length (concat (map snd ds)))"

lemma contiguous_snoc:
  "contiguous base (ds @ [(off, c)]) \<longleftrightarrow> contiguous base ds \<and> off = base + total_bytes ds"
  by (induction base ds rule: contiguous.induct) (auto simp: total_bytes_def)

lemma total_bytes_snoc [simp]: "total_bytes (ds @ [(off, c)]) = total_bytes ds + int (length c)"
  by (simp add: total_bytes_def)

lemma map_filter_by_data:
  "List.map_filter (delivery_of t sid) (filter is_data tr) = List.map_filter (delivery_of t sid) tr"
  by (induction tr)
     (auto simp: List.map_filter_simps is_data_def delivery_of_def split: dp_event.splits option.splits)

lemma delivered_cong:
  "filter is_data (dp_trace s') = filter is_data (dp_trace s) \<Longrightarrow> delivered t sid s' = delivered t sid s"
  unfolding delivered_def by (metis map_filter_by_data)

lemma delivered_quiet: "quiet m \<Longrightarrow> delivered t sid (snd (m s)) = delivered t sid s"
  by (rule delivered_cong) (simp add: quiet_def)

lemma delivered_emit:
  "delivered t sid (emit_ev e s) =
     delivered t sid s @ (case delivery_of t sid e of None \<Rightarrow> [] | Some d \<Rightarrow> [d])"
  by (simp add: delivered_def emit_ev_def List.map_filter_def split: option.split)

lemma delivered_upd [simp]:
  "delivered t sid (upd_stream t' sid' f s) = delivered t sid s"
  "delivered t sid (upd_tracker t' g s) = delivered t sid s"
  by (simp_all add: delivered_def)

section \<open>The effect of a data frame on a stream\<close>

lemma chunk_consumed_effect:
  "\<exists>b. getDataPlaneRuntimeStream t' sid' (snd (chunk_consumed t st sid n e s)) =
        (if t' = t \<and> sid' = sid
         then map_option (\<lambda>x. (grantDataPlaneReceiveCredit n x)\<lparr>rs_remoteClosed := b \<or> rs_remoteClosed x\<rparr>)
                (getDataPlaneRuntimeStream t sid s)
         else getDataPlaneRuntimeStream t' sid' s)"
  "delivered t' sid' (snd (chunk_consumed t st sid n e s)) = delivered t' sid' s"
proof -
  define s0 where "s0 = upd_stream t sid (grantDataPlaneReceiveCredit n) s"
  define m where "m = mk_frame ''stream_credit'' [(''stream_id'', JStr (rs_streamId st)),
              (''receive_offset'', JInt (rs_receiveOffset st)), (''credit_bytes'', JInt n)]"
  define cl where "cl = seqE (call_onClose t st (rs_receiveOffset st)) (\<lambda>_.
               seqE (mk_frame ''stream_close'' [(''stream_id'', JStr (rs_streamId st)),
                       (''final_offset'', JInt (rs_receiveOffset st))])
                    (sendDataPlaneFrame t))"
  define k where "k = (\<lambda>_::unit. \<lambda>s2. if \<not> e then (Inr (), s2)
      else cl (upd_stream t sid (\<lambda>x. x\<lparr>rs_remoteClosed := True\<rparr>) s2))"
  have cc: "chunk_consumed t st sid n e s = seqE m (\<lambda>f. seqE (sendDataPlaneFrame t f) k) s0"
    unfolding chunk_consumed_def m_def k_def cl_def s0_def ..
  have qm: "quiet m" and qcl: "quiet cl"
    unfolding m_def cl_def by (intro quietI)+
  obtain frame s1 where ms: "m s0 = (Inr frame, s1)"
    by (cases "m s0") (auto simp: m_def mk_frame_def)
  have s1: "getDataPlaneRuntimeStream x y s1 = getDataPlaneRuntimeStream x y s0"
      "delivered x y s1 = delivered x y s0" for x y
    using get_quiet [OF qm, of x y s0] delivered_quiet [OF qm, of x y s0] ms by simp_all
  have sub: "snd (chunk_consumed t st sid n e s) = snd (sendDataPlaneFrame t frame s1) \<or>
      snd (chunk_consumed t st sid n e s) = snd (k () (snd (sendDataPlaneFrame t frame s1)))"
    using seqE_snd_cases [of "sendDataPlaneFrame t frame" s1 k] ms by (auto simp: cc seqE_def [of m])
  let ?s2 = "snd (sendDataPlaneFrame t frame s1)"
  have s2: "getDataPlaneRuntimeStream x y ?s2 = getDataPlaneRuntimeStream x y s0"
      "delivered x y ?s2 = delivered x y s0" for x y
    by (simp_all add: get_quiet [OF quiet_sendDataPlaneFrame]
        delivered_quiet [OF quiet_sendDataPlaneFrame] s1)
  have s3: "getDataPlaneRuntimeStream x y (snd (k () ?s2)) = getDataPlaneRuntimeStream x y
          (if e then upd_stream t sid (\<lambda>x. x\<lparr>rs_remoteClosed := True\<rparr>) ?s2 else ?s2)"
      "delivered x y (snd (k () ?s2)) = delivered x y s0" for x y
    using get_quiet [OF qcl] delivered_quiet [OF qcl] s2 by (simp_all add: k_def)
  show "\<exists>b. getDataPlaneRuntimeStream t' sid' (snd (chunk_consumed t st sid n e s)) =
        (if t' = t \<and> sid' = sid
         then map_option (\<lambda>x. (grantDataPlaneReceiveCredit n x)\<lparr>rs_remoteClosed := b \<or> rs_remoteClosed x\<rparr>)
                (getDataPlaneRuntimeStream t sid s)
         else getDataPlaneRuntimeStream t' sid' s)"
    using sub
  proof
    assume "snd (chunk_consumed t st sid n e s) = ?s2"
    then show ?thesis
      by (intro exI [of _ False]) (simp add: s2 s0_def grantDataPlaneReceiveCredit_def [abs_def])
  next
    assume "snd (chunk_consumed t st sid n e s) = snd (k () ?s2)"
    then show ?thesis
      by (intro exI [of _ e])
         (auto simp: s3 s2 s0_def grantDataPlaneReceiveCredit_def [abs_def] option.map_comp comp_def)
  qed
  show "delivered t' sid' (snd (chunk_consumed t st sid n e s)) = delivered t' sid' s"
    using sub s2(2) s3(2) by (auto simp: s0_def)
qed

text \<open>
  What one data frame may do to a stream: nothing at all, or accept one chunk that starts at the
  expected offset and fits the credit.
\<close>

definition chunk_accepted :: "runtime_stream \<Rightarrow> runtime_stream \<Rightarrow> int \<Rightarrow> byte list \<Rightarrow> bool" where
  "chunk_accepted st st' off c \<longleftrightarrow>
     \<not> is_reset st \<and> \<not> rs_remoteClosed st \<and> off = rs_receiveOffset st \<and>
     int (length c) \<le> rs_receiveCreditBytes st \<and>
     (\<exists>credit closed. credit \<in> {rs_receiveCreditBytes st, rs_receiveCreditBytes st - int (length c)} \<and>
        st' = st\<lparr>rs_receiveOffset := rs_receiveOffset st + int (length c),
                 rs_receiveCreditBytes := credit, rs_remoteClosed := closed\<rparr>)"

lemma recordInbound_Inr:
  "recordDataPlaneInboundChunk st off n = Inr st' \<longleftrightarrow>
     \<not> is_reset st \<and> \<not> rs_remoteClosed st \<and> off = rs_receiveOffset st \<and> n \<le> rs_receiveCreditBytes st \<and>
     st' = st\<lparr>rs_receiveOffset := rs_receiveOffset st + n,
              rs_receiveCreditBytes := rs_receiveCreditBytes st - n\<rparr>"
  by (auto simp: recordDataPlaneInboundChunk_def)

lemma chunk_acceptedI:
  assumes "recordDataPlaneInboundChunk st off (int (length c)) = Inr x"
  shows "chunk_accepted st x off c"
    and "chunk_accepted st ((grantDataPlaneReceiveCredit (int (length c)) x)\<lparr>rs_remoteClosed := b\<rparr>) off c"
proof -
  show "chunk_accepted st x off c"
    using assms unfolding recordInbound_Inr chunk_accepted_def
    by (auto intro!: exI [of _ "rs_receiveCreditBytes st - int (length c)"]
        exI [of _ "rs_remoteClosed st"])
  show "chunk_accepted st ((grantDataPlaneReceiveCredit (int (length c)) x)\<lparr>rs_remoteClosed := b\<rparr>) off c"
    using assms unfolding recordInbound_Inr chunk_accepted_def
    by (auto simp: grantDataPlaneReceiveCredit_def intro!: exI [of _ "rs_receiveCreditBytes st"])
qed

text \<open>The frame is turned down: at most a reset frame is sent.\<close>

definition turned_down :: "nat \<Rightarrow> dp_state \<Rightarrow> dp_state \<Rightarrow> bool" where
  "turned_down t s s' \<longleftrightarrow> s' = s \<or> (\<exists>sid reason err. s' = snd (sendStreamReset t sid reason err s))"

lemma turned_down_effect:
  "turned_down t s s' \<Longrightarrow> getDataPlaneRuntimeStream x y s' = getDataPlaneRuntimeStream x y s \<and>
     delivered x y s' = delivered x y s"
  by (auto simp: turned_down_def get_quiet [OF quiet_sendStreamReset]
      delivered_quiet [OF quiet_sendStreamReset])

lemma handleStreamData_cases:
  "turned_down t s (snd (handleStreamData t raw s)) \<or>
   (\<exists>frame st st' s1. parseStreamDataFrame raw = Some frame \<and>
      getDataPlaneRuntimeStream t (sd_stream_id frame) s = Some st \<and>
      rs_streamType st = sd_stream_type frame \<and>
      int (length (b64_decode (sd_data frame))) \<le> tk_maxChunkBytes (dp_trackers s t) \<and>
      recordDataPlaneInboundChunk st (sd_offset frame) (int (length (b64_decode (sd_data frame)))) = Inr st' \<and>
      s1 = upd_tracker t (\<lambda>tk. tk\<lparr>tk_framesReceived := tk_framesReceived tk + 1,
             tk_bytesReceived := tk_bytesReceived tk + int (length (b64_decode (sd_data frame)))\<rparr>)
             (upd_stream t (sd_stream_id frame) (\<lambda>_. st') s) \<and>
      handleStreamData t raw s =
        (case call_onData t st' (b64_decode (sd_data frame))
                \<lparr>di_streamId = sd_stream_id frame, di_streamType = sd_stream_type frame,
                 di_offset = sd_offset frame, di_endStream = sd_end_stream frame\<rparr> s1 of
           (Inl exn, s2) \<Rightarrow> consumer_failed t st' (sd_stream_id frame) exn s2
         | (Inr _, s2) \<Rightarrow> chunk_consumed t st' (sd_stream_id frame)
              (int (length (b64_decode (sd_data frame)))) (sd_end_stream frame) s2))"
proof (cases "parseStreamDataFrame raw")
  case None
  then show ?thesis by (simp add: handleStreamData_def turned_down_def)
next
  case frame: (Some frame)
  show ?thesis
  proof (cases "getDataPlaneRuntimeStream t (sd_stream_id frame) s")
    case None
    with frame show ?thesis by (auto simp: handleStreamData_def turned_down_def Let_def)
  next
    case (Some st)
    show ?thesis
    proof (cases "rs_streamType st = sd_stream_type frame \<and>
        int (length (b64_decode (sd_data frame))) \<le> tk_maxChunkBytes (dp_trackers s t)")
      case False
      with frame Some show ?thesis
        by (auto simp: handleStreamData_def turned_down_def Let_def not_le)
    next
      case True
      with frame Some show ?thesis
        by (cases "recordDataPlaneInboundChunk st (sd_offset frame)
              (int (length (b64_decode (sd_data frame))))")
           (auto simp: handleStreamData_def turned_down_def Let_def not_le split: prod.splits)
    qed
  qed
qed

lemma call_onData_effect:
  "snd (call_onData t st c info s) =
     (if rs_onData st = None then s
      else emit_ev (EvData t (di_streamId info) c (di_offset info) (di_endStream info)) s)"
  by (simp add: call_onData_def split: option.split)

lemma handleStreamData_effect:
  assumes "getDataPlaneRuntimeStream t sid s = Some st"
  shows "\<exists>st'. getDataPlaneRuntimeStream t sid (snd (handleStreamData t raw s)) = Some st' \<and>
     (st' = st \<and> delivered t sid (snd (handleStreamData t raw s)) = delivered t sid s \<or>
      (\<exists>off c. chunk_accepted st st' off c \<and>
         delivered t sid (snd (handleStreamData t raw s)) =
           delivered t sid s @ (if rs_onData st = None then [] else [(off, c)])))"
  using handleStreamData_cases [of t s raw]
proof (elim disjE exE conjE)
  assume "turned_down t s (snd (handleStreamData t raw s))"
  then show ?thesis
    using assms by (simp add: turned_down_effect)
next
  fix frame x x' s1
  let ?id = "sd_stream_id frame" and ?c = "b64_decode (sd_data frame)"
  let ?info = "\<lparr>di_streamId = ?id, di_streamType = sd_stream_type frame, di_offset = sd_offset frame,
    di_endStream = sd_end_stream frame\<rparr>"
  assume get: "getDataPlaneRuntimeStream t ?id s = Some x"
    and rec: "recordDataPlaneInboundChunk x (sd_offset frame) (int (length ?c)) = Inr x'"
    and s1: "s1 = upd_tracker t (\<lambda>tk. tk\<lparr>tk_framesReceived := tk_framesReceived tk + 1,
             tk_bytesReceived := tk_bytesReceived tk + int (length ?c)\<rparr>) (upd_stream t ?id (\<lambda>_. x') s)"
    and h: "handleStreamData t raw s =
        (case call_onData t x' ?c ?info s1 of
           (Inl exn, s2) \<Rightarrow> consumer_failed t x' ?id exn s2
         | (Inr _, s2) \<Rightarrow> chunk_consumed t x' ?id (int (length ?c)) (sd_end_stream frame) s2)"
  define s2 where "s2 = snd (call_onData t x' ?c ?info s1)"
  have od: "rs_onData x' = rs_onData x"
    using rec by (simp add: recordInbound_Inr)
  have g2: "getDataPlaneRuntimeStream t sid s2 = (if sid = ?id then Some x' else Some st)"
    using assms get by (simp add: s2_def call_onData_effect s1)
  have d2: "delivered t sid s2 = delivered t sid s @
      (if sid = ?id \<and> rs_onData x \<noteq> None then [(sd_offset frame, ?c)] else [])"
    by (simp add: s2_def call_onData_effect s1 delivered_emit delivery_of_def od)
  show ?thesis
  proof (cases "fst (call_onData t x' ?c ?info s1)")
    case (Inl exn)
    then have "handleStreamData t raw s = consumer_failed t x' ?id exn s2"
      by (auto simp: h s2_def split: prod.split)
    then have "getDataPlaneRuntimeStream t sid (snd (handleStreamData t raw s)) =
          (if sid = ?id then Some x' else Some st)"
        "delivered t sid (snd (handleStreamData t raw s)) = delivered t sid s2"
      using get_quiet [OF quiet_consumer_failed] delivered_quiet [OF quiet_consumer_failed] g2
      by simp_all
    then show ?thesis
      using assms get d2 chunk_acceptedI(1) [OF rec] by (cases "sid = ?id") auto
  next
    case (Inr u)
    then have h2: "handleStreamData t raw s =
        chunk_consumed t x' ?id (int (length ?c)) (sd_end_stream frame) s2"
      by (auto simp: h s2_def split: prod.split)
    obtain b where "getDataPlaneRuntimeStream t sid (snd (handleStreamData t raw s)) =
        (if sid = ?id then Some ((grantDataPlaneReceiveCredit (int (length ?c)) x')\<lparr>rs_remoteClosed :=
            b \<or> rs_remoteClosed x'\<rparr>) else Some st)"
      using chunk_consumed_effect(1) [of t sid t x' ?id "int (length ?c)" "sd_end_stream frame" s2]
        g2 by (auto simp: h2 s2_def call_onData_effect s1 get split: if_splits)
    moreover have "delivered t sid (snd (handleStreamData t raw s)) = delivered t sid s2"
      by (simp add: h2 chunk_consumed_effect(2))
    ultimately show ?thesis
      using assms get d2 chunk_acceptedI(2) [OF rec, of "b \<or> rs_remoteClosed x'"]
      by (cases "sid = ?id") auto
  qed
qed

section \<open>The effect of any frame on a stream\<close>

lemma seqE_quiet_tail:
  assumes "\<And>x. quiet (f x)"
  shows "getDataPlaneRuntimeStream t sid (snd (seqE m f s)) = getDataPlaneRuntimeStream t sid (snd (m s))"
    and "delivered t sid (snd (seqE m f s)) = delivered t sid (snd (m s))"
  using seqE_snd_cases [of m s f] by (auto simp: get_quiet [OF assms] delivered_quiet [OF assms])

text \<open>The receiving side of a stream: offset, credit and consumer.\<close>

definition recv_same :: "runtime_stream \<Rightarrow> runtime_stream \<Rightarrow> bool" where
  "recv_same st st' \<longleftrightarrow> rs_receiveOffset st' = rs_receiveOffset st \<and>
     rs_receiveCreditBytes st' = rs_receiveCreditBytes st \<and> rs_onData st' = rs_onData st"

definition keeps_receiving :: "nat \<Rightarrow> dp_state \<Rightarrow> dp_state \<Rightarrow> bool" where
  "keeps_receiving t s s' \<longleftrightarrow>
     (\<forall>sid. delivered t sid s' = delivered t sid s \<and>
        (\<forall>st. getDataPlaneRuntimeStream t sid s = Some st \<longrightarrow>
          (\<exists>st'. getDataPlaneRuntimeStream t sid s' = Some st' \<and> recv_same st st')))"

lemma keeps_receiving_refl: "keeps_receiving t s s"
  by (simp add: keeps_receiving_def recv_same_def)

lemma keeps_receiving_upd:
  assumes "\<And>x. recv_same x (f x)"
  shows "keeps_receiving t s (upd_stream t sid f s)"
  using assms by (auto simp: keeps_receiving_def recv_same_def)

lemma keeps_receiving_quiet:
  "quiet m \<Longrightarrow> keeps_receiving t s s' \<Longrightarrow> keeps_receiving t s (snd (m s'))"
  by (simp add: keeps_receiving_def get_quiet delivered_quiet)

lemma handleStreamCredit_keeps: "keeps_receiving t s (snd (handleStreamCredit t raw s))"
  unfolding handleStreamCredit_def
  by (auto simp: keeps_receiving_refl recordDataPlaneOutboundCredit_def recv_same_def Let_def
      intro!: keeps_receiving_upd split: option.split)

lemma keeps_seqE:
  "(\<And>x. quiet (f x)) \<Longrightarrow> keeps_receiving t s (snd (m s')) \<Longrightarrow> keeps_receiving t s (snd (seqE m f s'))"
  by (simp add: keeps_receiving_def seqE_quiet_tail)

lemmas keeps_catchNull = keeps_receiving_quiet [OF quiet_catchNull]
lemmas keeps_onReset = keeps_receiving_quiet [OF quiet_call_onReset]
lemmas keeps_onClose = keeps_receiving_quiet [OF quiet_call_onClose]

lemma handleStreamReset_keeps: "keeps_receiving t s (snd (handleStreamReset t raw s))"
  unfolding handleStreamReset_def Let_def
  by (auto intro!: keeps_seqE keeps_catchNull keeps_onReset quietI keeps_receiving_upd
      keeps_receiving_refl simp: recv_same_def split: option.split)

lemma handleStreamClose_keeps: "keeps_receiving t s (snd (handleStreamClose t raw s))"
  unfolding handleStreamClose_def Let_def
  by (auto intro!: keeps_seqE keeps_catchNull keeps_onReset keeps_onClose quietI keeps_receiving_upd
      keeps_receiving_refl simp: recv_same_def split: option.split)

text \<open>One frame of any type, and a whole sequence of frames.\<close>

definition run_frames :: "nat \<Rightarrow> json list \<Rightarrow> dp_state \<Rightarrow> dp_state" where
  "run_frames t raws s = fold (\<lambda>raw s. snd (dispatchDataPlaneStreamFrame t raw s)) raws s"

lemma dispatch_cases:
  "snd (dispatchDataPlaneStreamFrame t raw s) = snd (handleStreamData t raw s) \<or>
   keeps_receiving t s (snd (dispatchDataPlaneStreamFrame t raw s))"
  by (auto simp: dispatchDataPlaneStreamFrame_def keeps_receiving_refl handleStreamCredit_keeps
      handleStreamReset_keeps handleStreamClose_keeps split: option.split)

text \<open>The receive invariant of a stream relative to a starting point: the deliveries since then are
  contiguous and add up to the advance of the offset, and the credit stays between zero and the
  window.\<close>

definition receives ::
    "runtime_stream \<Rightarrow> (int \<times> byte list) list \<Rightarrow> nat \<Rightarrow> string \<Rightarrow> dp_state \<Rightarrow> bool" where
  "receives st0 ds0 t sid s \<longleftrightarrow>
     (\<exists>st ds. getDataPlaneRuntimeStream t sid s = Some st \<and> delivered t sid s = ds0 @ ds \<and>
        rs_onData st = rs_onData st0 \<and> contiguous (rs_receiveOffset st0) ds \<and>
        rs_receiveOffset st = rs_receiveOffset st0 + total_bytes ds \<and>
        0 \<le> rs_receiveCreditBytes st \<and> rs_receiveCreditBytes st \<le> rs_receiveCreditBytes st0)"

lemma receives_start:
  "getDataPlaneRuntimeStream t sid s = Some st \<Longrightarrow> 0 \<le> rs_receiveCreditBytes st \<Longrightarrow>
   receives st (delivered t sid s) t sid s"
  by (auto simp: receives_def total_bytes_def intro!: exI [of _ "[]"])

lemma receives_data:
  assumes "receives st0 ds0 t sid s" and "rs_onData st0 \<noteq> None"
  shows "receives st0 ds0 t sid (snd (handleStreamData t raw s))"
proof -
  obtain st ds where st: "getDataPlaneRuntimeStream t sid s = Some st" "delivered t sid s = ds0 @ ds"
      "rs_onData st = rs_onData st0" "contiguous (rs_receiveOffset st0) ds"
      "rs_receiveOffset st = rs_receiveOffset st0 + total_bytes ds"
      "0 \<le> rs_receiveCreditBytes st" "rs_receiveCreditBytes st \<le> rs_receiveCreditBytes st0"
    using assms(1) by (auto simp: receives_def)
  obtain st' where st': "getDataPlaneRuntimeStream t sid (snd (handleStreamData t raw s)) = Some st'"
    and alt: "st' = st \<and> delivered t sid (snd (handleStreamData t raw s)) = ds0 @ ds \<or>
      (\<exists>off c. chunk_accepted st st' off c \<and>
         delivered t sid (snd (handleStreamData t raw s)) = ds0 @ (ds @ [(off, c)]))"
    using handleStreamData_effect [OF st(1), of raw] st(2,3) assms(2) by auto
  from alt show ?thesis
  proof (elim disjE exE conjE)
    fix off c
    assume "chunk_accepted st st' off c"
      and "delivered t sid (snd (handleStreamData t raw s)) = ds0 @ (ds @ [(off, c)])"
    then show ?thesis
      using st st' unfolding receives_def
      by (intro exI [of _ st'] exI [of _ "ds @ [(off, c)]"])
         (auto simp: chunk_accepted_def contiguous_snoc)
  qed (use st st' in \<open>auto simp: receives_def\<close>)
qed

lemma receives_keeps:
  "receives st0 ds0 t sid s \<Longrightarrow> keeps_receiving t s s' \<Longrightarrow> receives st0 ds0 t sid s'"
  unfolding receives_def keeps_receiving_def recv_same_def by fastforce

lemma receives_dispatch:
  assumes "receives st0 ds0 t sid s" and "rs_onData st0 \<noteq> None"
  shows "receives st0 ds0 t sid (snd (dispatchDataPlaneStreamFrame t raw s))"
  using dispatch_cases [of t raw s] receives_data [OF assms] receives_keeps [OF assms(1)] by metis

lemma receives_run:
  "receives st0 ds0 t sid s \<Longrightarrow> rs_onData st0 \<noteq> None \<Longrightarrow> receives st0 ds0 t sid (run_frames t raws s)"
  unfolding run_frames_def by (induction raws arbitrary: s) (auto intro: receives_dispatch)

section \<open>The send budget\<close>

datatype sender_action = SendChunk "byte list" bool int | HandleFrame json

fun sender_act :: "nat \<Rightarrow> string \<Rightarrow> sender_action \<Rightarrow> dp_state \<Rightarrow> dp_state" where
  "sender_act t sid (SendChunk d e m) s = snd (sendDataPlaneStreamData t sid d e m s)"
| "sender_act t sid (HandleFrame raw) s = snd (handleStreamCredit t raw s)"

text \<open>The credit a frame grants to a stream.\<close>

definition credit_for :: "string \<Rightarrow> json \<Rightarrow> int" where
  "credit_for sid raw =
     (case parseStreamCredit raw of
        None \<Rightarrow> 0
      | Some f \<Rightarrow> if sc_stream_id f = sid then sc_credit_bytes f else 0)"

fun granted :: "string \<Rightarrow> sender_action list \<Rightarrow> int" where
  "granted sid [] = 0"
| "granted sid (HandleFrame raw # as) = credit_for sid raw + granted sid as"
| "granted sid (SendChunk _ _ _ # as) = granted sid as"

lemma safe_nonneg_range: "safe_nonneg j = Some n \<Longrightarrow> 0 \<le> n \<and> n \<le> MAX_SAFE_INTEGER"
  by (cases j) (auto simp: is_safe_integer_def split: if_splits)

lemma credit_for_nonneg: "0 \<le> credit_for sid raw"
  by (auto simp: credit_for_def parseStreamCredit_def dest: safe_nonneg_range
      split: option.splits if_splits)

lemma trackers_upd_stream_static:
  "tk_maxInFlightBytes (dp_trackers (upd_stream t' sid f s) t) = tk_maxInFlightBytes (dp_trackers s t)"
  by (simp add: upd_stream_def upd_tracker_def)

text \<open>Sending a chunk either throws and leaves the stream alone or books its length once.\<close>

lemma quiet_send_frame: "quiet (seqE (mk_frame ty flds) (sendDataPlaneFrame t))"
  by (intro quietI)

lemma sendStreamData_cases:
  assumes "getDataPlaneRuntimeStream t sid s = Some st"
  shows "snd (sendDataPlaneStreamData t sid d e m s) = s \<or>
    int (length d) \<le> rs_sendCreditBytes st \<and> int (length d) \<le> m \<and>
      \<not> rs_localClosed st \<and> \<not> is_reset st \<and>
      (\<exists>flds. sendDataPlaneStreamData t sid d e m s =
        seqE (mk_frame ''stream_data'' flds) (sendDataPlaneFrame t)
          (upd_stream t sid (\<lambda>x. x\<lparr>rs_sendOffset := rs_sendOffset x + int (length d),
             rs_sendCreditBytes := rs_sendCreditBytes x - int (length d),
             rs_localClosed := (e \<or> rs_localClosed x)\<rparr>) s))"
  using assms by (auto simp: sendDataPlaneStreamData_def Let_def)

lemma sender_act_effect:
  assumes "getDataPlaneRuntimeStream t sid s = Some st" and "0 \<le> rs_sendCreditBytes st"
    and "0 \<le> tk_maxInFlightBytes (dp_trackers s t)"
  shows "\<exists>st'. getDataPlaneRuntimeStream t sid (sender_act t sid a s) = Some st' \<and>
     0 \<le> rs_sendCreditBytes st' \<and> rs_sendOffset st \<le> rs_sendOffset st' \<and>
     rs_sendOffset st' + rs_sendCreditBytes st' \<le>
       rs_sendOffset st + rs_sendCreditBytes st + granted sid [a] \<and>
     rs_sendCreditBytes st' \<le> max (rs_sendCreditBytes st) (tk_maxInFlightBytes (dp_trackers s t)) \<and>
     tk_maxInFlightBytes (dp_trackers (sender_act t sid a s) t) = tk_maxInFlightBytes (dp_trackers s t)"
proof (cases a)
  case (SendChunk d e m)
  show ?thesis
    using sendStreamData_cases [OF assms(1), of d e m] assms
    by (auto simp: SendChunk get_quiet [OF quiet_send_frame] trackers_upd_stream_static
        quietD(1) [OF quiet_send_frame])
next
  case (HandleFrame raw)
  then show ?thesis
    using assms credit_for_nonneg [of sid raw]
    by (auto simp: handleStreamCredit_def credit_for_def recordDataPlaneOutboundCredit_def Let_def
        trackers_upd_stream_static split: option.splits)
qed

lemma sender_run_effect:
  assumes "getDataPlaneRuntimeStream t sid s = Some st" and "0 \<le> rs_sendCreditBytes st"
    and "0 \<le> tk_maxInFlightBytes (dp_trackers s t)"
  shows "\<exists>st'. getDataPlaneRuntimeStream t sid (fold (sender_act t sid) as s) = Some st' \<and>
     0 \<le> rs_sendCreditBytes st' \<and> rs_sendOffset st \<le> rs_sendOffset st' \<and>
     rs_sendOffset st' + rs_sendCreditBytes st' \<le>
       rs_sendOffset st + rs_sendCreditBytes st + granted sid as \<and>
     rs_sendCreditBytes st' \<le> max (rs_sendCreditBytes st) (tk_maxInFlightBytes (dp_trackers s t))"
  using assms
proof (induction as arbitrary: s st)
  case Nil
  then show ?case by auto
next
  case (Cons a as)
  obtain st1 where st1: "getDataPlaneRuntimeStream t sid (sender_act t sid a s) = Some st1"
      "0 \<le> rs_sendCreditBytes st1" "rs_sendOffset st \<le> rs_sendOffset st1"
      "rs_sendOffset st1 + rs_sendCreditBytes st1 \<le>
         rs_sendOffset st + rs_sendCreditBytes st + granted sid [a]"
      "rs_sendCreditBytes st1 \<le> max (rs_sendCreditBytes st) (tk_maxInFlightBytes (dp_trackers s t))"
      "tk_maxInFlightBytes (dp_trackers (sender_act t sid a s) t) = tk_maxInFlightBytes (dp_trackers s t)"
    using sender_act_effect [OF Cons.prems, of a] by blast
  obtain st2 where st2: "getDataPlaneRuntimeStream t sid (fold (sender_act t sid) as (sender_act t sid a s)) = Some st2"
      "0 \<le> rs_sendCreditBytes st2" "rs_sendOffset st1 \<le> rs_sendOffset st2"
      "rs_sendOffset st2 + rs_sendCreditBytes st2 \<le>
         rs_sendOffset st1 + rs_sendCreditBytes st1 + granted sid as"
      "rs_sendCreditBytes st2 \<le> max (rs_sendCreditBytes st1)
         (tk_maxInFlightBytes (dp_trackers (sender_act t sid a s) t))"
    using Cons.IH [OF st1(1,2)] Cons.prems(3) st1(6) by auto
  have "granted sid (a # as) = granted sid [a] + granted sid as"
    by (cases a) auto
  with st1 st2 show ?case
    by (intro exI [of _ st2]) auto
qed

section \<open>A concrete carrier\<close>

text \<open>One connected carrier with one stream whose consumer always succeeds, for witnesses.\<close>

definition demo_runtime_stream :: runtime_stream where
  "demo_runtime_stream = new_runtime_stream
     \<lparr>ra_streamId = ''st_1'', ra_streamType = ''file_read'', ra_initialReceiveCreditBytes = 100,
      ra_initialSendCreditBytes = Some 100, ra_onData = Some (\<lambda>_ _. CbOk), ra_onReset = None,
      ra_onClose = None\<rparr>"

definition demo_tracker :: session_tracker where
  "demo_tracker = \<lparr>tk_budId = ''bud_1'', tk_deviceSessionId = ''ds_1'',
     tk_controlTransportSessionId = None, tk_transportSessionId = Some ''ts_1'',
     tk_transportKind = Dp_websocket, tk_role = Role_data, tk_draining = False,
     tk_finalizing = False, tk_finalized = False, tk_health = None, tk_streams = [''file_read''],
     tk_framesReceived = 0, tk_bytesReceived = 0,
     tk_runtimeStreams = [(''st_1'', demo_runtime_stream)], tk_maxChunkBytes = 64,
     tk_initialCreditBytes = 100, tk_maxInFlightBytes = 100, tk_sendFrame = (\<lambda>_. CbOk),
     tk_isActive = True, tk_close = Some CbOk\<rparr>"

definition demo_dp :: dp_state where
  "demo_dp = \<lparr>dp_sessions = [(''bud_1:ds_1:websocket'', 0)], dp_trackers = (\<lambda>_. demo_tracker),
     dp_store = demo_store, dp_trace = [], dp_now = 7, dp_ulid = (\<lambda>n. show_nat n), dp_used = 0\<rparr>"

definition demo_data_frame :: json where
  "demo_data_frame = JObj ([(''proto'', JStr ''0.1''), (''type'', JStr ''stream_data''),
     (''id'', JStr ''msg_1''), (''ts'', JInt 7), (''ext'', JObj [])]
     @ stream_data_fields ''st_1'' ''file_read'' 0 [1, 2, 3] False)"

lemma demo_get: "getDataPlaneRuntimeStream 0 ''st_1'' demo_dp = Some demo_runtime_stream"
  by (simp add: getDataPlaneRuntimeStream_def demo_dp_def demo_tracker_def)

section \<open>Properties\<close>

text \<open>Whatever frames a peer sends, in whatever order, the consumer of a stream is handed a
  contiguous run of bytes: each delivered chunk starts exactly where the previous one ended, none
  is repeated, reordered or skipped, and the receive offset is the number of bytes delivered.\<close>

theorem in_order_delivery:
  assumes "getDataPlaneRuntimeStream t sid s = Some st" and "rs_onData st \<noteq> None"
    and "0 \<le> rs_receiveCreditBytes st"
  shows "\<exists>st' ds. getDataPlaneRuntimeStream t sid (run_frames t raws s) = Some st' \<and>
           delivered t sid (run_frames t raws s) = delivered t sid s @ ds \<and>
           contiguous (rs_receiveOffset st) ds \<and>
           rs_receiveOffset st' = rs_receiveOffset st + total_bytes ds"
  using receives_run [OF receives_start [OF assms(1,3)] assms(2), of raws]
  by (auto simp: receives_def)

theorem in_order_delivery_witness:
  "\<exists>st' ds. getDataPlaneRuntimeStream 0 ''st_1'' (run_frames 0 [demo_data_frame] demo_dp) = Some st' \<and>
     delivered 0 ''st_1'' (run_frames 0 [demo_data_frame] demo_dp) = delivered 0 ''st_1'' demo_dp @ ds \<and>
     contiguous 0 ds \<and> rs_receiveOffset st' = 0 + total_bytes ds"
  using in_order_delivery [OF demo_get, of "[demo_data_frame]"]
  by (simp add: demo_runtime_stream_def new_runtime_stream_def)

text \<open>C11: the receive credit of a stream never becomes negative and never exceeds the window it
  started with, whatever frames arrive.\<close>

theorem receive_window_bounded:
  assumes "getDataPlaneRuntimeStream t sid s = Some st" and "rs_onData st \<noteq> None"
    and "0 \<le> rs_receiveCreditBytes st"
  shows "\<exists>st'. getDataPlaneRuntimeStream t sid (run_frames t raws s) = Some st' \<and>
           0 \<le> rs_receiveCreditBytes st' \<and> rs_receiveCreditBytes st' \<le> rs_receiveCreditBytes st"
  using receives_run [OF receives_start [OF assms(1,3)] assms(2), of raws]
  by (auto simp: receives_def)

theorem receive_window_bounded_witness:
  "\<exists>st'. getDataPlaneRuntimeStream 0 ''st_1'' (run_frames 0 [demo_data_frame] demo_dp) = Some st' \<and>
     0 \<le> rs_receiveCreditBytes st' \<and> rs_receiveCreditBytes st' \<le> 100"
  using receive_window_bounded [OF demo_get, of "[demo_data_frame]"]
  by (simp add: demo_runtime_stream_def new_runtime_stream_def)

text \<open>C10: the sender never outruns the credit it was given: over any sequence of sends and credit
  frames the bytes sent stay within the initial credit plus the credit granted, the remaining
  credit is never negative, and it never exceeds the larger of its start and the in-flight cap.\<close>

theorem send_budget_respected:
  assumes "getDataPlaneRuntimeStream t sid s = Some st" and "0 \<le> rs_sendCreditBytes st"
    and "0 \<le> tk_maxInFlightBytes (dp_trackers s t)"
  shows "\<exists>st'. getDataPlaneRuntimeStream t sid (fold (sender_act t sid) as s) = Some st' \<and>
     0 \<le> rs_sendCreditBytes st' \<and>
     rs_sendOffset st' - rs_sendOffset st \<le> rs_sendCreditBytes st + granted sid as \<and>
     rs_sendCreditBytes st' \<le> max (rs_sendCreditBytes st) (tk_maxInFlightBytes (dp_trackers s t))"
  using sender_run_effect [OF assms, of as] by (fastforce simp: algebra_simps)

theorem send_budget_respected_witness:
  "\<exists>st'. getDataPlaneRuntimeStream 0 ''st_1''
       (fold (sender_act 0 ''st_1'') [SendChunk [1, 2, 3] False 64] demo_dp) = Some st' \<and>
     0 \<le> rs_sendCreditBytes st' \<and> rs_sendOffset st' - 0 \<le> 100 \<and> rs_sendCreditBytes st' \<le> 100"
  using send_budget_respected [OF demo_get, of "[SendChunk [1, 2, 3] False 64]"]
  by (simp add: demo_runtime_stream_def new_runtime_stream_def demo_dp_def demo_tracker_def)

end
