(* ===== verification/Link.thy ===== *)
theory Link
  imports FlowProps
begin

text \<open>
  Both ends of a stream together.  A sending end calls \<open>sendDataPlaneStreamData\<close>, the frames travel
  in order to a receiving end that runs \<open>dispatchDataPlaneStreamFrame\<close>, and the credit frames it
  sends back are dispatched at the sender.  The steps interleave freely; the theorems say that the
  two halves of the flow control agree: nothing is ever reset, bytes arrive once and in order, and
  credit is conserved.
\<close>

section \<open>The link as a transition system\<close>

record link =
  lk_snd :: dp_state
  lk_rcv :: dp_state
  lk_data :: "json list"
  lk_back :: "json list"
  lk_sent :: "byte list"

definition frames_sent :: "nat \<Rightarrow> dp_event list \<Rightarrow> json list" where
  "frames_sent t evs =
     List.map_filter (\<lambda>e. case e of EvSend t' f \<Rightarrow> if t' = t then Some f else None | _ \<Rightarrow> None) evs"

definition new_events :: "dp_state \<Rightarrow> dp_state \<Rightarrow> dp_event list" where
  "new_events s s' = drop (length (dp_trace s)) (dp_trace s')"

inductive link_step :: "nat \<Rightarrow> nat \<Rightarrow> string \<Rightarrow> int \<Rightarrow> link \<Rightarrow> link \<Rightarrow> bool"
  for a b :: nat and sid :: string and m :: int where
  send: "sendDataPlaneStreamData a sid d False m (lk_snd l) = (Inr (), s') \<Longrightarrow>
    link_step a b sid m l (l\<lparr>lk_snd := s',
      lk_data := lk_data l @ frames_sent a (new_events (lk_snd l) s'), lk_sent := lk_sent l @ d\<rparr>)"
| deliver: "lk_data l = f # fs \<Longrightarrow> dispatchDataPlaneStreamFrame b f (lk_rcv l) = (r, s') \<Longrightarrow>
    link_step a b sid m l (l\<lparr>lk_rcv := s', lk_data := fs,
      lk_back := lk_back l @ frames_sent b (new_events (lk_rcv l) s')\<rparr>)"
| credit: "lk_back l = f # fs \<Longrightarrow> dispatchDataPlaneStreamFrame a f (lk_snd l) = (r, s') \<Longrightarrow>
    link_step a b sid m l (l\<lparr>lk_snd := s', lk_back := fs\<rparr>)"

inductive_cases link_stepE: "link_step a b sid m l l'"

section \<open>Parsing the frames that the code itself builds\<close>

lemma safe_nonneg_int:
  "safe_nonneg (JInt n) = (if 0 \<le> n \<and> n \<le> MAX_SAFE_INTEGER then Some n else None)"
  by (auto simp: is_safe_integer_def)

lemma wire_frame_get [js_simps]:
  "obj_get ([(''proto'', JStr PROTO_VERSION), (''type'', JStr ty), (''id'', JStr i), (''ts'', JInt ts),
     (''ext'', JObj [])] @ flds) k =
   (if k = ''proto'' then JStr PROTO_VERSION else if k = ''type'' then JStr ty
    else if k = ''id'' then JStr i else if k = ''ts'' then JInt ts
    else if k = ''ext'' then JObj [] else obj_get flds k)"
  by (simp add: obj_get_def)

lemma envelope_ok_wire:
  "envelope_ok ty ([(''proto'', JStr PROTO_VERSION), (''type'', JStr ty), (''id'', JStr i), (''ts'', JInt ts),
     (''ext'', JObj [])] @ flds)"
  unfolding envelope_ok_def wire_frame_get by simp

lemma parse_data_frame:
  assumes "0 \<le> off" and "off \<le> MAX_SAFE_INTEGER"
  shows "parseStreamDataFrame (wire_frame ''stream_data'' i ts (stream_data_fields sid ty off d e)) =
     Some \<lparr>sd_stream_id = sid, sd_stream_type = ty, sd_offset = off, sd_data = b64_encode d,
           sd_end_stream = e\<rparr>"
  unfolding parseStreamDataFrame_def wire_frame_def as_record.simps option.case
  using assms envelope_ok_wire [of "''stream_data''" i ts "stream_data_fields sid ty off d e"]
  by (simp only: wire_frame_get) (simp add: stream_data_fields_def obj_get_Cons safe_nonneg_int
      del: safe_nonneg.simps)

definition credit_fields :: "string \<Rightarrow> int \<Rightarrow> int \<Rightarrow> js_object" where
  "credit_fields sid off c =
     [(''stream_id'', JStr sid), (''receive_offset'', JInt off), (''credit_bytes'', JInt c)]"

lemma parse_credit_frame:
  assumes "0 \<le> off" "off \<le> MAX_SAFE_INTEGER" "0 \<le> c" "c \<le> MAX_SAFE_INTEGER"
  shows "parseStreamCredit (wire_frame ''stream_credit'' i ts (credit_fields sid off c)) =
     Some \<lparr>sc_stream_id = sid, sc_receive_offset = off, sc_credit_bytes = c\<rparr>"
  unfolding parseStreamCredit_def wire_frame_def as_record.simps option.case
  using assms envelope_ok_wire [of "''stream_credit''" i ts "credit_fields sid off c"]
  by (simp only: wire_frame_get) (simp add: credit_fields_def obj_get_Cons safe_nonneg_int
      del: safe_nonneg.simps)

lemma dispatch_wire_frame:
  "dispatchDataPlaneStreamFrame t (wire_frame ''stream_data'' i ts flds) =
     handleStreamData t (wire_frame ''stream_data'' i ts flds)"
  "dispatchDataPlaneStreamFrame t (wire_frame ''stream_credit'' i ts flds') =
     handleStreamCredit t (wire_frame ''stream_credit'' i ts flds')"
  by (simp_all add: fun_eq_iff dispatchDataPlaneStreamFrame_def wire_frame_def obj_get_Cons)


section \<open>The exact effect of the three steps\<close>

lemma connected_static [simp]:
  "isDataPlaneSessionConnected (dp_trackers (upd_stream t sid f s) x) =
     isDataPlaneSessionConnected (dp_trackers s x)"
  "tk_sendFrame (dp_trackers (upd_stream t sid f s) x) = tk_sendFrame (dp_trackers s x)"
  "tk_maxChunkBytes (dp_trackers (upd_stream t sid f s) x) = tk_maxChunkBytes (dp_trackers s x)"
  by (simp_all add: upd_stream_def upd_tracker_def isDataPlaneSessionConnected_def)

lemma connected_counters [simp]:
  "isDataPlaneSessionConnected (dp_trackers (upd_tracker t (\<lambda>tk. tk\<lparr>tk_framesReceived := p tk,
     tk_bytesReceived := q tk\<rparr>) s) x) = isDataPlaneSessionConnected (dp_trackers s x)"
  "tk_sendFrame (dp_trackers (upd_tracker t (\<lambda>tk. tk\<lparr>tk_framesReceived := p tk,
     tk_bytesReceived := q tk\<rparr>) s) x) = tk_sendFrame (dp_trackers s x)"
  "tk_maxChunkBytes (dp_trackers (upd_tracker t (\<lambda>tk. tk\<lparr>tk_framesReceived := p tk,
     tk_bytesReceived := q tk\<rparr>) s) x) = tk_maxChunkBytes (dp_trackers s x)"
  by (simp_all add: upd_tracker_def isDataPlaneSessionConnected_def)

lemma trackers_emit [simp]: "dp_trackers (emit_ev e s) = dp_trackers s"
  by (simp add: emit_ev_def)

lemma trackers_used [simp]: "dp_trackers (s\<lparr>dp_used := n\<rparr>) = dp_trackers s"
  by simp

lemma get_used [simp]:
  "getDataPlaneRuntimeStream t sid (s\<lparr>dp_used := n\<rparr>) = getDataPlaneRuntimeStream t sid s"
  by (simp add: getDataPlaneRuntimeStream_def)

lemma delivered_used [simp]: "delivered t sid (s\<lparr>dp_used := n\<rparr>) = delivered t sid s"
  by (simp add: delivered_def)

text \<open>A frame that is built and handed to a connected carrier whose \<open>sendFrame\<close> succeeds.\<close>

lemma send_frame_ok:
  assumes "isDataPlaneSessionConnected (dp_trackers s t)"
    and "\<And>f. tk_sendFrame (dp_trackers s t) f = CbOk"
  shows "seqE (mk_frame ty flds) (sendDataPlaneFrame t) s =
    (Inr (), emit_ev (EvSend t (wire_frame ty (''msg_'' @ dp_ulid s (dp_used s)) (dp_now s) flds))
               (s\<lparr>dp_used := Suc (dp_used s)\<rparr>))"
  using assms by (simp add: seqE_def mk_frame_def sendDataPlaneFrame_def)

lemma send_frame_Inr:
  assumes "seqE (mk_frame ty flds) (sendDataPlaneFrame t) s = (Inr (), s')"
  shows "\<exists>i. s' = emit_ev (EvSend t (wire_frame ty i (dp_now s) flds)) (s\<lparr>dp_used := Suc (dp_used s)\<rparr>)"
  using assms by (auto simp: seqE_def mk_frame_def sendDataPlaneFrame_def split: if_splits)

definition book_send :: "nat \<Rightarrow> runtime_stream \<Rightarrow> runtime_stream" where
  "book_send n x = x\<lparr>rs_sendOffset := rs_sendOffset x + int n,
                     rs_sendCreditBytes := rs_sendCreditBytes x - int n\<rparr>"

lemma send_effect:
  assumes "getDataPlaneRuntimeStream a sid s = Some ss"
    and "sendDataPlaneStreamData a sid d False m s = (Inr (), s')"
  shows "int (length d) \<le> m" "int (length d) \<le> rs_sendCreditBytes ss"
    "\<exists>i ts. frames_sent a (new_events s s') =
       [wire_frame ''stream_data'' i ts
          (stream_data_fields (rs_streamId ss) (rs_streamType ss) (rs_sendOffset ss) d False)]"
    "getDataPlaneRuntimeStream a sid s' = Some (book_send (length d) ss)"
    "tk_maxInFlightBytes (dp_trackers s' a) = tk_maxInFlightBytes (dp_trackers s a)"
  using assms
  by (auto simp: sendDataPlaneStreamData_def Let_def frames_sent_def new_events_def emit_ev_def
      List.map_filter_simps book_send_def trackers_upd_stream_static getDataPlaneRuntimeStream_def
      upd_stream_def upd_tracker_def map_of_map_entry
      split: if_splits dest!: send_frame_Inr) blast

definition good_receiver :: "int \<Rightarrow> session_tracker \<Rightarrow> runtime_stream \<Rightarrow> bool" where
  "good_receiver m tk st \<longleftrightarrow>
     isDataPlaneSessionConnected tk \<and> (\<forall>f. tk_sendFrame tk f = CbOk) \<and> m \<le> tk_maxChunkBytes tk \<and>
     \<not> is_reset st \<and> \<not> rs_remoteClosed st \<and>
     (\<exists>f. rs_onData st = Some f \<and> (\<forall>c i. f c i = CbOk))"


lemma chunk_consumed_ok:
  assumes "isDataPlaneSessionConnected (dp_trackers s t)"
    and "\<And>f. tk_sendFrame (dp_trackers s t) f = CbOk"
  shows "\<exists>i ts. snd (chunk_consumed t st sid n False s) =
     emit_ev (EvSend t (wire_frame ''stream_credit'' i ts
         (credit_fields (rs_streamId st) (rs_receiveOffset st) n)))
       ((upd_stream t sid (grantDataPlaneReceiveCredit n) s)\<lparr>dp_used := Suc (dp_used s)\<rparr>)"
  using assms
  by (auto simp: chunk_consumed_def seqE_def mk_frame_def sendDataPlaneFrame_def credit_fields_def
      upd_stream_def upd_tracker_def isDataPlaneSessionConnected_def)

definition take_chunk :: "nat \<Rightarrow> runtime_stream \<Rightarrow> runtime_stream" where
  "take_chunk n x = x\<lparr>rs_receiveOffset := rs_receiveOffset x + int n\<rparr>"

lemma deliver_effect:
  assumes get: "getDataPlaneRuntimeStream b sid s = Some rs"
    and good: "good_receiver m (dp_trackers s b) rs"
    and fits: "int (length d) \<le> m" "int (length d) \<le> rs_receiveCreditBytes rs"
    and off: "0 \<le> rs_receiveOffset rs" "rs_receiveOffset rs \<le> MAX_SAFE_INTEGER"
    and ids: "rs_streamId rs = sid" "rs_streamType rs = ty"
    and s': "s' = snd (dispatchDataPlaneStreamFrame b (wire_frame ''stream_data'' i ts
        (stream_data_fields sid ty (rs_receiveOffset rs) d False)) s)"
  shows "\<exists>i ts. frames_sent b (new_events s s') =
       [wire_frame ''stream_credit'' i ts
          (credit_fields sid (rs_receiveOffset rs + int (length d)) (int (length d)))]"
    "getDataPlaneRuntimeStream b sid s' = Some (take_chunk (length d) rs)"
    "good_receiver m (dp_trackers s' b) (take_chunk (length d) rs)"
    "delivered b sid s' = delivered b sid s @ [(rs_receiveOffset rs, d)]"
proof -
  let ?n = "int (length d)"
  let ?rs = "rs\<lparr>rs_receiveOffset := rs_receiveOffset rs + ?n,
                rs_receiveCreditBytes := rs_receiveCreditBytes rs - ?n\<rparr>"
  define s1 where "s1 = upd_tracker b (\<lambda>tk. tk\<lparr>tk_framesReceived := tk_framesReceived tk + 1,
      tk_bytesReceived := tk_bytesReceived tk + ?n\<rparr>) (upd_stream b sid (\<lambda>_. ?rs) s)"
  define s2 where "s2 = emit_ev (EvData b sid d (rs_receiveOffset rs) False) s1"
  obtain f where f: "rs_onData rs = Some f" "\<And>c i. f c i = CbOk"
    using good by (auto simp: good_receiver_def)
  have rec: "recordDataPlaneInboundChunk rs (rs_receiveOffset rs) ?n = Inr ?rs"
    using good fits by (simp add: recordInbound_Inr good_receiver_def)
  have conn: "isDataPlaneSessionConnected (dp_trackers s2 b)"
      "\<And>f. tk_sendFrame (dp_trackers s2 b) f = CbOk"
    using good by (simp_all add: s2_def s1_def good_receiver_def)
  have "s' = snd (chunk_consumed b ?rs sid ?n False s2)"
    using good fits get rec f
    by (simp add: s' dispatch_wire_frame handleStreamData_def parse_data_frame [OF off] Let_def
        b64_roundtrip ids good_receiver_def call_onData_def s2_def s1_def not_less)
  then obtain i ts where e: "s' = emit_ev (EvSend b (wire_frame ''stream_credit'' i ts
         (credit_fields sid (rs_receiveOffset rs + ?n) ?n)))
       ((upd_stream b sid (grantDataPlaneReceiveCredit ?n) s2)\<lparr>dp_used := Suc (dp_used s2)\<rparr>)"
    using chunk_consumed_ok [OF conn, of ?rs sid ?n] ids by auto
  show "\<exists>i ts. frames_sent b (new_events s s') =
       [wire_frame ''stream_credit'' i ts (credit_fields sid (rs_receiveOffset rs + ?n) ?n)]"
    unfolding e by (auto simp: frames_sent_def new_events_def emit_ev_def s2_def s1_def
        List.map_filter_simps)
  show "getDataPlaneRuntimeStream b sid s' = Some (take_chunk (length d) rs)"
    using get by (simp add: e s2_def s1_def grantDataPlaneReceiveCredit_def take_chunk_def)
  show "good_receiver m (dp_trackers s' b) (take_chunk (length d) rs)"
    using good by (simp add: e s2_def s1_def good_receiver_def take_chunk_def is_reset_def)
  show "delivered b sid s' = delivered b sid s @ [(rs_receiveOffset rs, d)]"
    by (simp add: e s2_def s1_def delivered_emit delivery_of_def)
qed

definition book_credit :: "int \<Rightarrow> int \<Rightarrow> int \<Rightarrow> runtime_stream \<Rightarrow> runtime_stream" where
  "book_credit cap off n x =
     (let y = recordDataPlaneOutboundCredit off n x
      in y\<lparr>rs_sendCreditBytes := min (rs_sendCreditBytes y) cap\<rparr>)"

lemma credit_effect:
  assumes "getDataPlaneRuntimeStream a sid s = Some ss"
    and "0 \<le> off" "off \<le> MAX_SAFE_INTEGER" "0 \<le> n" "n \<le> MAX_SAFE_INTEGER"
    and "s' = snd (dispatchDataPlaneStreamFrame a (wire_frame ''stream_credit'' i ts
           (credit_fields sid off n)) s)"
  shows "getDataPlaneRuntimeStream a sid s' =
       Some (book_credit (tk_maxInFlightBytes (dp_trackers s a)) off n ss)"
    "tk_maxInFlightBytes (dp_trackers s' a) = tk_maxInFlightBytes (dp_trackers s a)"
  using assms
  by (simp_all add: dispatch_wire_frame handleStreamCredit_def parse_credit_frame
      trackers_upd_stream_static book_credit_def [abs_def])


section \<open>The link invariant\<close>

text \<open>The frames under way, described by what they carry.\<close>

definition data_frame_of :: "string \<Rightarrow> string \<Rightarrow> int \<times> byte list \<Rightarrow> json \<Rightarrow> bool" where
  "data_frame_of sid ty c f \<longleftrightarrow>
     (\<exists>i ts. f = wire_frame ''stream_data'' i ts (stream_data_fields sid ty (fst c) (snd c) False))"

definition credit_frame_of :: "string \<Rightarrow> int \<times> int \<Rightarrow> json \<Rightarrow> bool" where
  "credit_frame_of sid c f \<longleftrightarrow>
     (\<exists>i ts. f = wire_frame ''stream_credit'' i ts (credit_fields sid (fst c) (snd c)))"

lemma frame_ofI:
  "data_frame_of sid ty (off, d) (wire_frame ''stream_data'' i ts (stream_data_fields sid ty off d False))"
  "credit_frame_of sid (off, n) (wire_frame ''stream_credit'' i ts (credit_fields sid off n))"
  by (auto simp: data_frame_of_def credit_frame_of_def)

definition bytes_of :: "(int \<times> byte list) list \<Rightarrow> byte list" where
  "bytes_of ds = concat (map snd ds)"

lemma bytes_of_simps [simp]:
  "bytes_of [] = []" "bytes_of (d # ds) = snd d @ bytes_of ds" "bytes_of (xs @ ys) = bytes_of xs @ bytes_of ys"
  by (simp_all add: bytes_of_def)

lemma total_bytes_bytes_of: "total_bytes ds = int (length (bytes_of ds))"
  by (simp add: total_bytes_def bytes_of_def)

text \<open>The chunks \<open>ds\<close> and the credits \<open>cs\<close> are under way; \<open>W\<close> is the window.\<close>

definition link_rel :: "string \<Rightarrow> string \<Rightarrow> int \<Rightarrow> int \<Rightarrow> runtime_stream \<Rightarrow> runtime_stream \<Rightarrow>
    (int \<times> byte list) list \<Rightarrow> (int \<times> int) list \<Rightarrow> bool" where
  "link_rel sid ty m W ss rs ds cs \<longleftrightarrow>
     rs_streamId ss = sid \<and> rs_streamType ss = ty \<and> rs_streamId rs = sid \<and> rs_streamType rs = ty \<and>
     0 \<le> rs_receiveOffset rs \<and> contiguous (rs_receiveOffset rs) ds \<and>
     (\<forall>d \<in> set ds. int (length (snd d)) \<le> m) \<and>
     (\<forall>c \<in> set cs. 0 \<le> fst c \<and> fst c \<le> rs_receiveOffset rs \<and> 0 \<le> snd c \<and> snd c \<le> fst c) \<and>
     rs_sendOffset ss = rs_receiveOffset rs + total_bytes ds \<and>
     rs_receiveCreditBytes rs = W \<and> 0 \<le> rs_sendCreditBytes ss \<and>
     rs_sendCreditBytes ss + total_bytes ds + sum_list (map snd cs) = W"

definition link_inv :: "nat \<Rightarrow> nat \<Rightarrow> string \<Rightarrow> string \<Rightarrow> int \<Rightarrow> int \<Rightarrow> link \<Rightarrow> bool" where
  "link_inv a b sid ty m W l \<longleftrightarrow> (\<exists>ss rs ds cs.
     getDataPlaneRuntimeStream a sid (lk_snd l) = Some ss \<and>
     getDataPlaneRuntimeStream b sid (lk_rcv l) = Some rs \<and>
     good_receiver m (dp_trackers (lk_rcv l) b) rs \<and>
     W \<le> tk_maxInFlightBytes (dp_trackers (lk_snd l) a) \<and>
     list_all2 (data_frame_of sid ty) ds (lk_data l) \<and> list_all2 (credit_frame_of sid) cs (lk_back l) \<and>
     link_rel sid ty m W ss rs ds cs \<and>
     contiguous 0 (delivered b sid (lk_rcv l)) \<and>
     rs_receiveOffset rs = total_bytes (delivered b sid (lk_rcv l)) \<and>
     lk_sent l = bytes_of (delivered b sid (lk_rcv l)) @ bytes_of ds)"

lemma link_invI:
  assumes "getDataPlaneRuntimeStream a sid (lk_snd l) = Some ss"
    and "getDataPlaneRuntimeStream b sid (lk_rcv l) = Some rs"
    and "good_receiver m (dp_trackers (lk_rcv l) b) rs"
    and "W \<le> tk_maxInFlightBytes (dp_trackers (lk_snd l) a)"
    and "list_all2 (data_frame_of sid ty) ds (lk_data l)" "list_all2 (credit_frame_of sid) cs (lk_back l)"
    and "link_rel sid ty m W ss rs ds cs"
    and "contiguous 0 (delivered b sid (lk_rcv l))"
    and "rs_receiveOffset rs = total_bytes (delivered b sid (lk_rcv l))"
    and "lk_sent l = bytes_of (delivered b sid (lk_rcv l)) @ bytes_of ds"
  shows "link_inv a b sid ty m W l"
  unfolding link_inv_def using assms by blast

lemma contiguous_append:
  "contiguous base (xs @ ys) \<longleftrightarrow> contiguous base xs \<and> contiguous (base + total_bytes xs) ys"
  by (induction base xs rule: contiguous.induct) (auto simp: total_bytes_def algebra_simps)

lemma link_rel_send:
  assumes "link_rel sid ty m W ss rs ds cs" and "int (length d) \<le> m"
    and "int (length d) \<le> rs_sendCreditBytes ss"
  shows "link_rel sid ty m W (book_send (length d) ss) rs (ds @ [(rs_sendOffset ss, d)]) cs"
  using assms by (auto simp: link_rel_def book_send_def contiguous_append)

lemma link_rel_deliver:
  assumes "link_rel sid ty m W ss rs (c # ds) cs"
  shows "link_rel sid ty m W ss (take_chunk (length (snd c)) rs) ds
     (cs @ [(rs_receiveOffset rs + int (length (snd c)), int (length (snd c)))])"
  using assms by (cases c) (auto simp: link_rel_def take_chunk_def total_bytes_def)

lemma sum_credits_nonneg:
  "\<forall>c \<in> set cs. 0 \<le> snd (c :: int \<times> int) \<Longrightarrow> 0 \<le> sum_list (map snd cs)"
  by (induction cs) auto

lemma link_rel_credit:
  assumes "link_rel sid ty m W ss rs ds (c # cs)" and "W \<le> cap"
  shows "link_rel sid ty m W (book_credit cap (fst c) (snd c) ss) rs ds cs"
proof -
  have "0 \<le> sum_list (map snd cs)"
    using assms(1) by (intro sum_credits_nonneg) (auto simp: link_rel_def)
  moreover have "0 \<le> total_bytes ds"
    by (simp add: total_bytes_def)
  ultimately show ?thesis
    using assms by (auto simp: link_rel_def book_credit_def recordDataPlaneOutboundCredit_def Let_def)
qed

lemma link_inv_send:
  assumes "link_inv a b sid ty m W l"
    and "sendDataPlaneStreamData a sid d False m (lk_snd l) = (Inr (), s')"
  shows "link_inv a b sid ty m W (l\<lparr>lk_snd := s',
      lk_data := lk_data l @ frames_sent a (new_events (lk_snd l) s'), lk_sent := lk_sent l @ d\<rparr>)"
proof -
  obtain ss rs ds cs where i: "getDataPlaneRuntimeStream a sid (lk_snd l) = Some ss"
      "getDataPlaneRuntimeStream b sid (lk_rcv l) = Some rs"
      "good_receiver m (dp_trackers (lk_rcv l) b) rs"
      "W \<le> tk_maxInFlightBytes (dp_trackers (lk_snd l) a)"
      "list_all2 (data_frame_of sid ty) ds (lk_data l)" "list_all2 (credit_frame_of sid) cs (lk_back l)"
      "link_rel sid ty m W ss rs ds cs" "contiguous 0 (delivered b sid (lk_rcv l))"
      "rs_receiveOffset rs = total_bytes (delivered b sid (lk_rcv l))"
      "lk_sent l = bytes_of (delivered b sid (lk_rcv l)) @ bytes_of ds"
    using assms(1) unfolding link_inv_def by blast
  note e = send_effect [OF i(1) assms(2)]
  obtain k ts where fr: "frames_sent a (new_events (lk_snd l) s') =
       [wire_frame ''stream_data'' k ts (stream_data_fields sid ty (rs_sendOffset ss) d False)]"
    using e(3) i(7) by (auto simp: link_rel_def)
  show ?thesis
    by (rule link_invI [where ds = "ds @ [(rs_sendOffset ss, d)]" and cs = cs and rs = rs
          and ss = "book_send (length d) ss"])
       (use i e(4,5) fr link_rel_send [OF i(7) e(1,2)] in
         \<open>auto simp: frame_ofI intro!: list_all2_appendI\<close>)
qed

lemma link_inv_head:
  assumes "link_inv a b sid ty m W l" and "int (length (lk_sent l)) \<le> MAX_SAFE_INTEGER"
    and "lk_data l = f # fs"
  obtains ss rs c ds cs k ts where "getDataPlaneRuntimeStream a sid (lk_snd l) = Some ss"
      "getDataPlaneRuntimeStream b sid (lk_rcv l) = Some rs"
      "good_receiver m (dp_trackers (lk_rcv l) b) rs"
      "W \<le> tk_maxInFlightBytes (dp_trackers (lk_snd l) a)"
      "list_all2 (data_frame_of sid ty) ds fs" "list_all2 (credit_frame_of sid) cs (lk_back l)"
      "link_rel sid ty m W ss rs (c # ds) cs" "contiguous 0 (delivered b sid (lk_rcv l))"
      "rs_receiveOffset rs = total_bytes (delivered b sid (lk_rcv l))"
      "lk_sent l = bytes_of (delivered b sid (lk_rcv l)) @ bytes_of (c # ds)"
      "f = wire_frame ''stream_data'' k ts
             (stream_data_fields sid ty (rs_receiveOffset rs) (snd c) False)"
      "int (length (snd c)) \<le> m" "int (length (snd c)) \<le> rs_receiveCreditBytes rs"
      "0 \<le> rs_receiveOffset rs" "rs_receiveOffset rs \<le> MAX_SAFE_INTEGER"
      "rs_streamId rs = sid" "rs_streamType rs = ty"
proof -
  obtain ss rs c ds cs where i: "getDataPlaneRuntimeStream a sid (lk_snd l) = Some ss"
      "getDataPlaneRuntimeStream b sid (lk_rcv l) = Some rs"
      "good_receiver m (dp_trackers (lk_rcv l) b) rs"
      "W \<le> tk_maxInFlightBytes (dp_trackers (lk_snd l) a)"
      "data_frame_of sid ty c f" "list_all2 (data_frame_of sid ty) ds fs"
      "list_all2 (credit_frame_of sid) cs (lk_back l)"
      "link_rel sid ty m W ss rs (c # ds) cs" "contiguous 0 (delivered b sid (lk_rcv l))"
      "rs_receiveOffset rs = total_bytes (delivered b sid (lk_rcv l))"
      "lk_sent l = bytes_of (delivered b sid (lk_rcv l)) @ bytes_of (c # ds)"
    using assms(1,3) unfolding link_inv_def by (auto simp: list_all2_Cons2)
  obtain k ts where f: "f = wire_frame ''stream_data'' k ts
      (stream_data_fields sid ty (rs_receiveOffset rs) (snd c) False)"
    using i(5,8) by (cases c) (auto simp: data_frame_of_def link_rel_def)
  have fits: "int (length (snd c)) \<le> m" "int (length (snd c)) \<le> rs_receiveCreditBytes rs"
    using i(8) sum_credits_nonneg [of cs] by (auto simp: link_rel_def total_bytes_def)
  have off: "0 \<le> rs_receiveOffset rs" "rs_receiveOffset rs \<le> MAX_SAFE_INTEGER"
    using i(8,10,11) assms(2) by (auto simp: link_rel_def total_bytes_bytes_of)
  have ids: "rs_streamId rs = sid" "rs_streamType rs = ty"
    using i(8) by (simp_all add: link_rel_def)
  show thesis
    by (rule that [OF i(1-4,6-11) f fits off ids])
qed

lemma link_inv_one_credit:
  assumes "link_inv a b sid ty m W l" and "int (length (lk_sent l)) \<le> MAX_SAFE_INTEGER"
    and "lk_data l = f # fs"
  shows "length (frames_sent b (new_events (lk_rcv l)
           (snd (dispatchDataPlaneStreamFrame b f (lk_rcv l))))) = 1"
proof (rule link_inv_head [OF assms])
  fix ss rs c ds cs k ts
  assume get: "getDataPlaneRuntimeStream b sid (lk_rcv l) = Some rs"
      "good_receiver m (dp_trackers (lk_rcv l) b) rs"
    and r: "int (length (snd c)) \<le> m" "int (length (snd c)) \<le> rs_receiveCreditBytes rs"
      "0 \<le> rs_receiveOffset rs" "rs_receiveOffset rs \<le> MAX_SAFE_INTEGER"
      "rs_streamId rs = sid" "rs_streamType rs = ty"
    and f: "f = wire_frame ''stream_data'' k ts
             (stream_data_fields sid ty (rs_receiveOffset rs) (snd (c :: int \<times> byte list)) False)"
  show ?thesis
    using deliver_effect(1) [OF get r refl, of k ts] by (auto simp: f)
qed

lemma link_inv_deliver:
  assumes "link_inv a b sid ty m W l" and "int (length (lk_sent l)) \<le> MAX_SAFE_INTEGER"
    and "lk_data l = f # fs" and "s' = snd (dispatchDataPlaneStreamFrame b f (lk_rcv l))"
  shows "link_inv a b sid ty m W (l\<lparr>lk_rcv := s', lk_data := fs,
      lk_back := lk_back l @ frames_sent b (new_events (lk_rcv l) s')\<rparr>)"
proof -
  obtain ss rs c ds cs k ts where i: "getDataPlaneRuntimeStream a sid (lk_snd l) = Some ss"
      "getDataPlaneRuntimeStream b sid (lk_rcv l) = Some rs"
      "good_receiver m (dp_trackers (lk_rcv l) b) rs"
      "W \<le> tk_maxInFlightBytes (dp_trackers (lk_snd l) a)"
      "list_all2 (data_frame_of sid ty) ds fs" "list_all2 (credit_frame_of sid) cs (lk_back l)"
      "link_rel sid ty m W ss rs (c # ds) cs" "contiguous 0 (delivered b sid (lk_rcv l))"
      "rs_receiveOffset rs = total_bytes (delivered b sid (lk_rcv l))"
      "lk_sent l = bytes_of (delivered b sid (lk_rcv l)) @ bytes_of (c # ds)"
    and f: "f = wire_frame ''stream_data'' k ts
             (stream_data_fields sid ty (rs_receiveOffset rs) (snd c) False)"
    and r: "int (length (snd c)) \<le> m" "int (length (snd c)) \<le> rs_receiveCreditBytes rs"
      "0 \<le> rs_receiveOffset rs" "rs_receiveOffset rs \<le> MAX_SAFE_INTEGER"
      "rs_streamId rs = sid" "rs_streamType rs = ty"
    by (rule link_inv_head [OF assms(1-3)])
  note e = deliver_effect [OF i(2,3) r assms(4) [unfolded f]]
  show ?thesis
    by (rule link_invI [where ds = ds and rs = "take_chunk (length (snd c)) rs" and ss = ss
          and cs = "cs @ [(rs_receiveOffset rs + int (length (snd c)), int (length (snd c)))]"])
       (use i e link_rel_deliver [OF i(7)] in
         \<open>auto simp: frame_ofI contiguous_append take_chunk_def intro!: list_all2_appendI\<close>)
qed

lemma link_inv_credit:
  assumes "link_inv a b sid ty m W l" and "int (length (lk_sent l)) \<le> MAX_SAFE_INTEGER"
    and "lk_back l = f # fs" and "s' = snd (dispatchDataPlaneStreamFrame a f (lk_snd l))"
  shows "link_inv a b sid ty m W (l\<lparr>lk_snd := s', lk_back := fs\<rparr>)"
proof -
  obtain ss rs ds c cs where i: "getDataPlaneRuntimeStream a sid (lk_snd l) = Some ss"
      "getDataPlaneRuntimeStream b sid (lk_rcv l) = Some rs"
      "good_receiver m (dp_trackers (lk_rcv l) b) rs"
      "W \<le> tk_maxInFlightBytes (dp_trackers (lk_snd l) a)"
      "list_all2 (data_frame_of sid ty) ds (lk_data l)" "credit_frame_of sid c f"
      "list_all2 (credit_frame_of sid) cs fs"
      "link_rel sid ty m W ss rs ds (c # cs)" "contiguous 0 (delivered b sid (lk_rcv l))"
      "rs_receiveOffset rs = total_bytes (delivered b sid (lk_rcv l))"
      "lk_sent l = bytes_of (delivered b sid (lk_rcv l)) @ bytes_of ds"
    using assms(1,3) unfolding link_inv_def by (auto simp: list_all2_Cons2)
  obtain k ts where f: "f = wire_frame ''stream_credit'' k ts (credit_fields sid (fst c) (snd c))"
    using i(6) by (auto simp: credit_frame_of_def)
  have b: "0 \<le> fst c" "fst c \<le> MAX_SAFE_INTEGER" "0 \<le> snd c" "snd c \<le> MAX_SAFE_INTEGER"
    using i(8,10,11) assms(2) by (auto simp: link_rel_def total_bytes_bytes_of)
  note e = credit_effect [OF i(1) b assms(4) [unfolded f]]
  show ?thesis
    by (rule link_invI [where ds = ds and cs = cs and rs = rs and
          ss = "book_credit (tk_maxInFlightBytes (dp_trackers (lk_snd l) a)) (fst c) (snd c) ss"])
       (use i e link_rel_credit [OF i(8,4)] in auto)
qed


lemma link_step_inv:
  assumes "link_step a b sid m l l'" and "link_inv a b sid ty m W l"
    and "int (length (lk_sent l')) \<le> MAX_SAFE_INTEGER"
  shows "link_inv a b sid ty m W l'"
  using assms(1)
proof cases
  case (send d s')
  with assms(2) show ?thesis by (simp add: link_inv_send)
next
  case (deliver f fs r s')
  with link_inv_deliver [OF assms(2) _ deliver(2), of s'] assms(3) show ?thesis by simp
next
  case (credit f fs r s')
  with link_inv_credit [OF assms(2) _ credit(2), of s'] assms(3) show ?thesis by simp
qed

lemma link_step_sent: "link_step a b sid m l l' \<Longrightarrow> length (lk_sent l) \<le> length (lk_sent l')"
  by (auto elim: link_stepE)

lemma link_run_sent: "(link_step a b sid m)\<^sup>*\<^sup>* l l' \<Longrightarrow> length (lk_sent l) \<le> length (lk_sent l')"
  by (induction rule: rtranclp_induct) (auto dest: link_step_sent)

lemma link_run_inv:
  assumes "(link_step a b sid m)\<^sup>*\<^sup>* l l'" and "link_inv a b sid ty m W l"
    and "int (length (lk_sent l')) \<le> MAX_SAFE_INTEGER"
  shows "link_inv a b sid ty m W l'"
  using assms(1,3)
proof (induction rule: rtranclp_induct)
  case base
  then show ?case using assms(2) by simp
next
  case (step y z)
  then show ?case
    using link_step_inv link_step_sent by fastforce
qed

text \<open>Delivering everything that is under way is always possible and empties the link.\<close>

lemma link_drain:
  assumes "link_inv a b sid ty m W l" and "int (length (lk_sent l)) \<le> MAX_SAFE_INTEGER"
  shows "\<exists>l'. (link_step a b sid m)\<^sup>*\<^sup>* l l' \<and> lk_data l' = [] \<and> lk_back l' = [] \<and> lk_sent l' = lk_sent l"
  using assms
proof (induction "2 * length (lk_data l) + length (lk_back l)" arbitrary: l rule: less_induct)
  case less
  show ?case
  proof (cases "lk_data l")
    case (Cons f fs)
    let ?s = "snd (dispatchDataPlaneStreamFrame b f (lk_rcv l))"
    let ?l = "l\<lparr>lk_rcv := ?s, lk_data := fs,
      lk_back := lk_back l @ frames_sent b (new_events (lk_rcv l) ?s)\<rparr>"
    have st: "link_step a b sid m l ?l"
      by (rule link_step.deliver [OF Cons, of _ "fst (dispatchDataPlaneStreamFrame b f (lk_rcv l))"]) simp
    have "length (frames_sent b (new_events (lk_rcv l) ?s)) = 1"
      using link_inv_one_credit [OF less.prems Cons] .
    then show ?thesis
      using less.hyps [of ?l] link_inv_deliver [OF less.prems Cons refl] less.prems(2) st Cons
      by (auto intro: converse_rtranclp_into_rtranclp)
  next
    case data: Nil
    show ?thesis
    proof (cases "lk_back l")
      case Nil
      with data show ?thesis by auto
    next
      case (Cons f fs)
      let ?s = "snd (dispatchDataPlaneStreamFrame a f (lk_snd l))"
      have st: "link_step a b sid m l (l\<lparr>lk_snd := ?s, lk_back := fs\<rparr>)"
        by (rule link_step.credit [OF Cons, of _ "fst (dispatchDataPlaneStreamFrame a f (lk_snd l))"]) simp
      show ?thesis
        using less.hyps [of "l\<lparr>lk_snd := ?s, lk_back := fs\<rparr>"] link_inv_credit [OF less.prems Cons refl]
          less.prems(2) st Cons data
        by (auto intro: converse_rtranclp_into_rtranclp)
    qed
  qed
qed


section \<open>Properties\<close>

text \<open>How a link starts: two fresh streams that agree on the window, an idle link.\<close>

definition link_start :: "nat \<Rightarrow> nat \<Rightarrow> string \<Rightarrow> string \<Rightarrow> int \<Rightarrow> int \<Rightarrow> link \<Rightarrow> bool" where
  "link_start a b sid ty m W l \<longleftrightarrow>
     lk_data l = [] \<and> lk_back l = [] \<and> lk_sent l = [] \<and> delivered b sid (lk_rcv l) = [] \<and>
     0 \<le> W \<and> W \<le> tk_maxInFlightBytes (dp_trackers (lk_snd l) a) \<and>
     (case (getDataPlaneRuntimeStream a sid (lk_snd l), getDataPlaneRuntimeStream b sid (lk_rcv l)) of
        (Some ss, Some rs) \<Rightarrow>
          rs_streamId ss = sid \<and> rs_streamType ss = ty \<and> rs_sendOffset ss = 0 \<and> rs_sendCreditBytes ss = W \<and>
          rs_streamId rs = sid \<and> rs_streamType rs = ty \<and> rs_receiveOffset rs = 0 \<and>
          rs_receiveCreditBytes rs = W \<and> good_receiver m (dp_trackers (lk_rcv l) b) rs
      | _ \<Rightarrow> False)"

lemma link_start_inv: "link_start a b sid ty m W l \<Longrightarrow> link_inv a b sid ty m W l"
  by (auto simp: link_start_def link_inv_def link_rel_def total_bytes_def
      split: option.splits intro!: exI [of _ "[]"])

definition demo_link :: link where
  "demo_link = \<lparr>lk_snd = demo_dp, lk_rcv = demo_dp, lk_data = [], lk_back = [], lk_sent = []\<rparr>"

lemma demo_link_start: "link_start 0 0 ''st_1'' ''file_read'' 64 100 demo_link"
  by (simp add: link_start_def demo_link_def demo_get delivered_def demo_dp_def demo_tracker_def
      demo_runtime_stream_def new_runtime_stream_def good_receiver_def isDataPlaneSessionConnected_def
      is_reset_def List.map_filter_def getDataPlaneRuntimeStream_def)

text \<open>C2: end to end, whatever the interleaving of sends, deliveries and returning credit, what the
  receiving consumer has been handed is a prefix of what was sent, and the receiver never answers
  with anything but credit: two correct ends never reset each other.\<close>

theorem link_delivers_prefix:
  assumes "link_start a b sid ty m W l" and "(link_step a b sid m)\<^sup>*\<^sup>* l l'"
    and "int (length (lk_sent l')) \<le> MAX_SAFE_INTEGER"
  shows "prefix (bytes_of (delivered b sid (lk_rcv l'))) (lk_sent l') \<and>
    contiguous 0 (delivered b sid (lk_rcv l')) \<and>
    (\<forall>f \<in> set (lk_back l'). \<exists>c. credit_frame_of sid c f)"
proof -
  obtain ds cs where "list_all2 (credit_frame_of sid) cs (lk_back l')"
      "contiguous 0 (delivered b sid (lk_rcv l'))"
      "lk_sent l' = bytes_of (delivered b sid (lk_rcv l')) @ bytes_of ds"
    using link_run_inv [OF assms(2) link_start_inv [OF assms(1)] assms(3)] by (auto simp: link_inv_def)
  then show ?thesis
    by (auto simp: list_all2_conv_all_nth in_set_conv_nth) (metis prod.exhaust_sel)
qed

lemma demo_link_send:
  "\<exists>s'. sendDataPlaneStreamData 0 ''st_1'' [1, 2, 3] False 64 demo_dp = (Inr (), s')"
  by (simp add: sendDataPlaneStreamData_def demo_get seqE_def mk_frame_def sendDataPlaneFrame_def Let_def)
     (simp add: demo_runtime_stream_def new_runtime_stream_def is_reset_def demo_dp_def demo_tracker_def
       upd_stream_def upd_tracker_def isDataPlaneSessionConnected_def)

theorem link_delivers_prefix_witness:
  "\<exists>l'. (link_step 0 0 ''st_1'' 64)\<^sup>*\<^sup>* demo_link l' \<and> lk_sent l' = [1, 2, 3] \<and>
     prefix (bytes_of (delivered 0 ''st_1'' (lk_rcv l'))) (lk_sent l')"
proof -
  obtain s' where "sendDataPlaneStreamData 0 ''st_1'' [1, 2, 3] False 64 (lk_snd demo_link) = (Inr (), s')"
    using demo_link_send by (auto simp: demo_link_def)
  from link_step.send [where b = 0, OF this] obtain l' where
    l': "link_step 0 0 ''st_1'' 64 demo_link l'" "lk_sent l' = [1, 2, 3]"
    by (auto simp: demo_link_def)
  then have "(link_step 0 0 ''st_1'' 64)\<^sup>*\<^sup>* demo_link l'"
    by blast
  with l' show ?thesis
    using link_delivers_prefix [OF demo_link_start, of l'] by (auto simp: MAX_SAFE_INTEGER_def intro!: exI [of _ l'])
qed

text \<open>C12: credit is conserved and never lost: from every reachable state the frames under way can
  be delivered, and then the consumer has been handed exactly the bytes that were sent and the
  sender has its whole window back.\<close>

theorem link_window_recovers:
  assumes "link_start a b sid ty m W l" and "(link_step a b sid m)\<^sup>*\<^sup>* l l'"
    and "int (length (lk_sent l')) \<le> MAX_SAFE_INTEGER"
  shows "\<exists>l'' ss. (link_step a b sid m)\<^sup>*\<^sup>* l' l'' \<and> lk_data l'' = [] \<and> lk_back l'' = [] \<and>
    bytes_of (delivered b sid (lk_rcv l'')) = lk_sent l' \<and>
    getDataPlaneRuntimeStream a sid (lk_snd l'') = Some ss \<and> rs_sendCreditBytes ss = W \<and>
    rs_sendOffset ss = int (length (lk_sent l'))"
proof -
  have inv: "link_inv a b sid ty m W l'"
    using link_run_inv [OF assms(2) link_start_inv [OF assms(1)] assms(3)] .
  obtain l'' where l'': "(link_step a b sid m)\<^sup>*\<^sup>* l' l''" "lk_data l'' = []" "lk_back l'' = []"
      "lk_sent l'' = lk_sent l'"
    using link_drain [OF inv assms(3)] by blast
  have "link_inv a b sid ty m W l''"
    using link_run_inv [OF l''(1) inv] l''(4) assms(3) by simp
  then obtain ss rs where "getDataPlaneRuntimeStream a sid (lk_snd l'') = Some ss"
      "link_rel sid ty m W ss rs [] []" "lk_sent l' = bytes_of (delivered b sid (lk_rcv l''))"
      "rs_receiveOffset rs = total_bytes (delivered b sid (lk_rcv l''))"
    using l''(2-4) by (auto simp: link_inv_def)
  with l'' show ?thesis
    by (auto simp: link_rel_def total_bytes_bytes_of)
qed

theorem link_window_recovers_witness:
  "\<exists>l'' ss. (link_step 0 0 ''st_1'' 64)\<^sup>*\<^sup>* demo_link l'' \<and> lk_data l'' = [] \<and>
     getDataPlaneRuntimeStream 0 ''st_1'' (lk_snd l'') = Some ss \<and> rs_sendCreditBytes ss = 100"
  using link_window_recovers [OF demo_link_start, of demo_link]
  by (auto simp: demo_link_def MAX_SAFE_INTEGER_def)

end
