(* ===== verification/DataPlaneProps.thy ===== *)
theory DataPlaneProps
  imports FlowProps
begin

text \<open>
  Correctness of carrier selection, of the session registry and of finalisation: the selection
  finds the best eligible carrier exactly when there is one, a replaced carrier cannot unregister
  its successor, and finalising a carrier resets every stream that was still open, in memory, at
  the consumer and in the store.
\<close>

section \<open>Selection\<close>

text \<open>A carrier that may take a new stream of the given type.\<close>

definition eligible :: "string \<Rightarrow> string option \<Rightarrow> string \<Rightarrow> data_plane_transport_kind option \<Rightarrow>
    dp_state \<Rightarrow> nat \<Rightarrow> bool" where
  "eligible budId devId streamType preferred s t \<longleftrightarrow>
     (let tk = dp_trackers s t in
      t \<in> snd ` set (dp_sessions s) \<and> tk_budId tk = budId \<and>
      (case devId of None \<Rightarrow> True | Some d \<Rightarrow> d = [] \<or> tk_deviceSessionId tk = d) \<and>
      isDataPlaneSessionConnected tk \<and>
      (case preferred of None \<Rightarrow> True | Some k \<Rightarrow> tk_transportKind tk = k) \<and>
      streamType \<in> set (tk_streams tk) \<and> dataPlaneTrackerAcceptsNewWork tk)"

definition carrier_rank :: "daemon_transport_policy \<Rightarrow> daemon_transport_policy option \<Rightarrow> dp_state \<Rightarrow>
    nat \<Rightarrow> int" where
  "carrier_rank cfg policy s t =
     rankDataPlaneTransport (tk_transportKind (dp_trackers s t)) (policy_or cfg policy)"

lemma ranked_sorted: "sorted (map (carrier_rank cfg policy s) (rankedDataPlaneSessions cfg b d policy s))"
  unfolding rankedDataPlaneSessions_def carrier_rank_def by (rule sorted_sort_key)

lemma find_sorted_min:
  assumes "sorted (map f xs)" and "List.find P xs = Some x"
  shows "x \<in> set xs \<and> P x \<and> (\<forall>y \<in> set xs. P y \<longrightarrow> f x \<le> f y)"
  using assms by (induction xs) (auto split: if_splits)

lemma sorted_map_filter: "sorted (map f xs) \<Longrightarrow> sorted (map f (filter P xs))"
  by (simp add: sorted_filter)

text \<open>The carriers the selection looks at, in order, and the one it would pick.\<close>

definition family_matches :: "daemon_transport_policy \<Rightarrow> string \<Rightarrow> string option \<Rightarrow> string \<Rightarrow>
    data_plane_transport_kind option \<Rightarrow> daemon_transport_policy option \<Rightarrow> dp_state \<Rightarrow> nat list" where
  "family_matches cfg b d ty pref pol s =
     filter (\<lambda>t. isDataPlaneSessionConnected (dp_trackers s t) \<and>
                 (case pref of None \<Rightarrow> True | Some k \<Rightarrow> tk_transportKind (dp_trackers s t) = k) \<and>
                 ty \<in> set (tk_streams (dp_trackers s t)))
       (rankedDataPlaneSessions cfg b d pol s)"

definition best_match :: "daemon_transport_policy \<Rightarrow> string \<Rightarrow> string option \<Rightarrow> string \<Rightarrow>
    data_plane_transport_kind option \<Rightarrow> daemon_transport_policy option \<Rightarrow> dp_state \<Rightarrow> nat option" where
  "best_match cfg b d ty pref pol s =
     List.find (\<lambda>t. dataPlaneTrackerAcceptsNewWork (dp_trackers s t)) (family_matches cfg b d ty pref pol s)"

lemma best_match_None: "best_match cfg b d ty pref pol s = None \<longleftrightarrow> (\<forall>t. \<not> eligible b d ty pref s t)"
  unfolding best_match_def find_None_iff family_matches_def eligible_def rankedDataPlaneSessions_def Let_def
  by (auto simp: image_iff)

lemma best_match_Some:
  assumes "best_match cfg b d ty pref pol s = Some t"
  shows "eligible b d ty pref s t \<and>
    (\<forall>t'. eligible b d ty pref s t' \<longrightarrow> carrier_rank cfg pol s t \<le> carrier_rank cfg pol s t')"
proof -
  have "sorted (map (carrier_rank cfg pol s) (family_matches cfg b d ty pref pol s))"
    unfolding family_matches_def by (rule sorted_map_filter [OF ranked_sorted])
  from find_sorted_min [OF this assms [unfolded best_match_def]] show ?thesis
    unfolding family_matches_def eligible_def rankedDataPlaneSessions_def Let_def by auto
qed

lemma not_accepting:
  "\<not> dataPlaneTrackerAcceptsNewWork tk \<Longrightarrow>
   tk_draining tk \<or> \<not> carrierHealthAllowsNewWork (normalizeCarrierHealth (tk_health tk))"
  by (auto simp: dataPlaneTrackerAcceptsNewWork_def)

text \<open>The selection as a function of the carriers in question.\<close>

definition select_from :: "dp_state \<Rightarrow> string \<Rightarrow> nat list \<Rightarrow> nat option \<times> bool" where
  "select_from s ty fm =
     (case fm of
        [] \<Rightarrow> (None, False)
      | m0 # _ \<Rightarrow>
          (let t = (case List.find (\<lambda>t. dataPlaneTrackerAcceptsNewWork (dp_trackers s t)) fm of
                      Some t \<Rightarrow> t
                    | None \<Rightarrow> (case List.find (\<lambda>t. \<not> tk_draining (dp_trackers s t)) fm of
                                 Some t \<Rightarrow> t | None \<Rightarrow> m0))
           in (Some t, dataPlaneTrackerAcceptsNewWork (dp_trackers s t))))"

lemma select_from_accepts:
  "snd (select_from s ty fm) = (List.find (\<lambda>t. dataPlaneTrackerAcceptsNewWork (dp_trackers s t)) fm \<noteq> None)"
proof (cases "List.find (\<lambda>t. dataPlaneTrackerAcceptsNewWork (dp_trackers s t)) fm")
  case None
  then have no: "\<And>t. t \<in> set fm \<Longrightarrow> \<not> dataPlaneTrackerAcceptsNewWork (dp_trackers s t)"
    by (simp add: find_None_iff)
  show ?thesis
  proof (cases fm)
    case (Cons m0 ms)
    have "(case List.find (\<lambda>t. \<not> tk_draining (dp_trackers s t)) fm of Some t \<Rightarrow> t | None \<Rightarrow> m0) \<in> set fm"
      using Cons by (auto dest: find_Some_in split: option.split)
    then show ?thesis
      using None no by (simp add: select_from_def Cons Let_def del: find.simps)
  qed (simp add: select_from_def)
next
  case (Some t)
  moreover from this have "dataPlaneTrackerAcceptsNewWork (dp_trackers s t)" "fm \<noteq> []"
    using find_Some_in by fastforce+
  ultimately show ?thesis
    by (cases fm) (simp_all add: select_from_def Let_def del: find.simps)
qed

lemma selection_result:
  "sel_available (selectDataPlaneCarrier cfg b d ty pref pol s) = (best_match cfg b d ty pref pol s \<noteq> None)"
  "best_match cfg b d ty pref pol s = Some t \<Longrightarrow>
   sel_tracker (selectDataPlaneCarrier cfg b d ty pref pol s) = Some t"
proof -
  let ?tr = "dp_trackers s"
  let ?f = "filter (\<lambda>t. case pref of None \<Rightarrow> True | Some k \<Rightarrow> tk_transportKind (?tr t) = k)
      (filter (\<lambda>t. isDataPlaneSessionConnected (?tr t)) (rankedDataPlaneSessions cfg b d pol s))"
  let ?fm = "family_matches cfg b d ty pref pol s"
  have filtered: "(case pref of None \<Rightarrow> filter (\<lambda>t. isDataPlaneSessionConnected (?tr t))
        (rankedDataPlaneSessions cfg b d pol s)
      | Some k \<Rightarrow> filter (\<lambda>t. tk_transportKind (?tr t) = k)
          (filter (\<lambda>t. isDataPlaneSessionConnected (?tr t)) (rankedDataPlaneSessions cfg b d pol s))) = ?f"
    by (simp split: option.split)
  have fm: "filter (\<lambda>t. ty \<in> set (tk_streams (?tr t))) ?f = ?fm"
    unfolding family_matches_def filter_filter by (rule filter_cong) auto
  have empty: "?f = [] \<Longrightarrow> ?fm = []"
    using fm by simp
  have "sel_available (selectDataPlaneCarrier cfg b d ty pref pol s) = snd (select_from s ty ?fm) \<and>
      (snd (select_from s ty ?fm) \<longrightarrow>
         sel_tracker (selectDataPlaneCarrier cfg b d ty pref pol s) = fst (select_from s ty ?fm))"
    unfolding selectDataPlaneCarrier_def Let_def filtered fm
    using empty
    by (auto simp: select_from_def unavailableSelection_def selection_for_def sel_available_def Let_def
        dataPlaneTrackerAcceptsNewWork_def simp del: find.simps split: list.splits)
  moreover have "best_match cfg b d ty pref pol s = Some t \<Longrightarrow> fst (select_from s ty ?fm) = Some t" for t
    by (cases ?fm) (simp_all add: best_match_def select_from_def Let_def del: find.simps(2))
  ultimately show
    "sel_available (selectDataPlaneCarrier cfg b d ty pref pol s) = (best_match cfg b d ty pref pol s \<noteq> None)"
    "best_match cfg b d ty pref pol s = Some t \<Longrightarrow>
     sel_tracker (selectDataPlaneCarrier cfg b d ty pref pol s) = Some t"
    using select_from_accepts [of s ty ?fm] by (auto simp: best_match_def)
qed


lemma find_as_filter: "List.find P xs = (case filter P xs of [] \<Rightarrow> None | x # _ \<Rightarrow> Some x)"
  by (induction xs) auto

lemma getActive_best_match:
  assumes "ty \<noteq> []"
  shows "getActiveDataPlaneSessionForBud cfg b d (Some ty) pref False pol s = best_match cfg b d ty pref pol s"
proof -
  have "filter (\<lambda>t. let tk = dp_trackers s t in
            (case pref of None \<Rightarrow> True | Some k \<Rightarrow> tk_transportKind tk = k) \<and>
            (False \<or> \<not> tk_draining tk) \<and>
            (False \<or> carrierHealthAllowsNewWork (normalizeCarrierHealth (tk_health tk))) \<and>
            (case Some ty of None \<Rightarrow> True | Some st \<Rightarrow> st = [] \<or> st \<in> set (tk_streams tk)) \<and>
            isDataPlaneSessionConnected tk) (rankedDataPlaneSessions cfg b d pol s) =
      filter (\<lambda>t. dataPlaneTrackerAcceptsNewWork (dp_trackers s t)) (family_matches cfg b d ty pref pol s)"
    unfolding family_matches_def filter_filter
    by (rule filter_cong) (use assms in \<open>auto simp: Let_def dataPlaneTrackerAcceptsNewWork_def\<close>)
  then show ?thesis
    by (simp add: getActiveDataPlaneSessionForBud_def best_match_def find_as_filter)
qed

section \<open>Finalisation\<close>

text \<open>The computations inside a reset only touch the store, the trace and the identifier source.\<close>

lemma store_call_static [simp]:
  "dp_trace (snd (store_transition a s)) = dp_trace s" "dp_trace (snd (store_audit b s)) = dp_trace s"
  "dp_now (snd (store_transition a s)) = dp_now s" "dp_now (snd (store_audit b s)) = dp_now s"
  by (auto simp: store_transition_def store_audit_def Let_def split: sum.split prod.split)

lemma store_audit_streams [simp]:
  "ds_streams (dp_store (snd (store_audit b s))) = ds_streams (dp_store s)"
  by (auto simp: store_audit_def appendAuditEvent_def Let_def split: sum.split prod.split)

definition still_open :: "runtime_stream \<Rightarrow> bool" where
  "still_open st \<longleftrightarrow> \<not> (rs_remoteClosed st \<or> is_reset st)"

definition reset_events :: "nat \<Rightarrow> string \<Rightarrow> string \<times> runtime_stream \<Rightarrow> dp_event list" where
  "reset_events t reason entry =
     (if still_open (snd entry) \<and> rs_onReset (snd entry) \<noteq> None
      then [EvReset t (rs_streamId (snd entry)) ''transport_lost'' (Some (lost_error reason))] else [])"

lemma live_to_reset: "\<forall>f \<in> set live_stream_states. isAllowedStreamTransition f Reset"
  by (simp add: live_stream_states_def isAllowedStreamTransition_def)

lemma transition_to_reset_streams:
  "ds_streams (dp_store (snd (store_transition (transition_to_reset sid reason err) s))) =
     map (\<lambda>r. if st_streamId r = sid \<and> st_state r \<in> set live_stream_states
              then apply_stream_transition (transition_to_reset sid reason err) (dp_now s) r else r)
       (ds_streams (dp_store s))"
proof -
  have "List.find (\<lambda>f. \<not> isAllowedStreamTransition f Reset) live_stream_states = None"
    using live_to_reset by (auto simp: find_None_iff)
  then show ?thesis
    by (simp add: store_transition_def transitionStream_def transition_to_reset_def Let_def)
qed

text \<open>What resetting one stream does to the trackers, the trace and the rows.\<close>

lemma reset_one_closed: "\<not> still_open st \<Longrightarrow> reset_runtime_stream t reason (sid, st) s = s"
  by (simp add: reset_runtime_stream_def still_open_def Let_def)

definition row_reset :: "string \<Rightarrow> string \<Rightarrow> int \<Rightarrow> bud_stream_row \<Rightarrow> bud_stream_row" where
  "row_reset sid reason now r =
     (if st_streamId r = sid \<and> st_state r \<in> set live_stream_states
      then apply_stream_transition (transition_to_reset sid ''transport_lost'' (Some (lost_error reason))) now r
      else r)"

lemma reset_one_open:
  assumes "still_open st"
  shows "dp_trace (reset_runtime_stream t reason (sid, st) s) = dp_trace s @ reset_events t reason (sid, st)"
    "dp_sessions (reset_runtime_stream t reason (sid, st) s) = dp_sessions s"
    "dp_now (reset_runtime_stream t reason (sid, st) s) = dp_now s"
    "dp_trackers (reset_runtime_stream t reason (sid, st) s) =
       dp_trackers (upd_stream t sid (\<lambda>y. y\<lparr>rs_resetReason := Some ''transport_lost''\<rparr>) s)"
    "ds_streams (dp_store (reset_runtime_stream t reason (sid, st) s)) =
       map (row_reset (rs_streamId st) reason (dp_now s)) (ds_streams (dp_store s))"
proof -
  have q: "quiet (seqE (catchNull (call_onReset t st ''transport_lost'' (Some (lost_error reason)))) (\<lambda>_.
      seqE (catchNull (store_transition (transition_to_reset (rs_streamId st) ''transport_lost'' (Some (lost_error reason)))))
        (\<lambda>_. catchNull (store_audit a))))" for a
    by (intro quietI)
  show "dp_trackers (reset_runtime_stream t reason (sid, st) s) =
       dp_trackers (upd_stream t sid (\<lambda>y. y\<lparr>rs_resetReason := Some ''transport_lost''\<rparr>) s)"
    "dp_sessions (reset_runtime_stream t reason (sid, st) s) = dp_sessions s"
    using assms quietD(1,2) [OF q]
    by (simp_all add: reset_runtime_stream_def still_open_def Let_def)
       (simp add: upd_stream_def upd_tracker_def)
  have c: "dp_now (snd (call_onReset t st r e s)) = dp_now s" "dp_store (snd (call_onReset t st r e s)) = dp_store s"
      "dp_trace (snd (call_onReset t st r e s)) =
        dp_trace s @ (if rs_onReset st \<noteq> None then [EvReset t (rs_streamId st) r e] else [])" for r e s
    by (auto simp: call_onReset_def emit_ev_def split: option.split)
  have u: "dp_now (upd_stream t sid f s) = dp_now s" "dp_store (upd_stream t sid f s) = dp_store s" for f
    by (simp_all add: upd_stream_def upd_tracker_def)
  show "dp_trace (reset_runtime_stream t reason (sid, st) s) = dp_trace s @ reset_events t reason (sid, st)"
    "dp_now (reset_runtime_stream t reason (sid, st) s) = dp_now s"
    "ds_streams (dp_store (reset_runtime_stream t reason (sid, st) s)) =
       map (row_reset (rs_streamId st) reason (dp_now s)) (ds_streams (dp_store s))"
    using assms
    by (simp_all add: reset_runtime_stream_def still_open_def Let_def seqE_def catchNull_def c u
        transition_to_reset_streams reset_events_def row_reset_def [abs_def])
qed


text \<open>The loop over all streams.\<close>

definition rows_reset :: "string \<Rightarrow> int \<Rightarrow> (string \<times> runtime_stream) list \<Rightarrow> bud_stream_row \<Rightarrow>
    bud_stream_row" where
  "rows_reset reason now es r =
     fold (\<lambda>e r. if still_open (snd e) then row_reset (rs_streamId (snd e)) reason now r else r) es r"

lemma row_reset_facts:
  "st_streamId (row_reset i reason now r) = st_streamId r"
  "st_streamId r \<noteq> i \<Longrightarrow> row_reset i reason now r = r"
  "st_state r \<notin> set live_stream_states \<Longrightarrow> row_reset i reason now r = r"
  "st_streamId r = i \<Longrightarrow> st_state r \<in> set live_stream_states \<Longrightarrow> st_state (row_reset i reason now r) = Reset"
  by (simp_all add: row_reset_def apply_stream_transition_def transition_to_reset_def)

lemma rows_reset_id [simp]: "st_streamId (rows_reset reason now es r) = st_streamId r"
  unfolding rows_reset_def by (induction es arbitrary: r) (auto simp: row_reset_facts)

lemma rows_reset_settled: "st_state r \<notin> set live_stream_states \<Longrightarrow> rows_reset reason now es r = r"
  unfolding rows_reset_def by (induction es) (auto simp: row_reset_facts)

lemma rows_reset_other:
  "\<forall>e \<in> set es. still_open (snd e) \<longrightarrow> rs_streamId (snd e) \<noteq> st_streamId r \<Longrightarrow> rows_reset reason now es r = r"
  unfolding rows_reset_def by (induction es) (auto simp: row_reset_facts)

lemma rows_reset_hit:
  "e \<in> set es \<Longrightarrow> still_open (snd e) \<Longrightarrow> rs_streamId (snd e) = st_streamId r \<Longrightarrow>
   st_state r \<in> set live_stream_states \<Longrightarrow> st_state (rows_reset reason now es r) = Reset"
proof (induction es arbitrary: r)
  case (Cons x es)
  have settled: "st_state r' = Reset \<Longrightarrow> st_state (rows_reset reason now es r') = Reset" for r'
    using rows_reset_settled [of r' reason now es] by (simp add: live_stream_states_def)
  show ?case
  proof (cases "still_open (snd x) \<and> rs_streamId (snd x) = st_streamId r")
    case True
    with Cons.prems show ?thesis
      using settled by (simp add: rows_reset_def row_reset_facts)
  next
    case False
    with Cons.prems have "e \<in> set es" by auto
    moreover from False have "rows_reset reason now (x # es) r = rows_reset reason now es r"
      by (auto simp: rows_reset_def row_reset_facts)
    ultimately show ?thesis
      using Cons.IH Cons.prems by simp
  qed
qed simp

lemma rows_reset_Cons:
  "still_open st \<Longrightarrow> map (rows_reset reason now es) (map (row_reset (rs_streamId st) reason now) rs) =
     map (rows_reset reason now ((sid, st) # es)) rs"
  by (simp add: rows_reset_def)

lemma reset_all_facts:
  "dp_trace (fold (reset_runtime_stream t reason) es s) = dp_trace s @ concat (map (reset_events t reason) es) \<and>
   dp_sessions (fold (reset_runtime_stream t reason) es s) = dp_sessions s \<and>
   dp_now (fold (reset_runtime_stream t reason) es s) = dp_now s \<and>
   (\<exists>x. dp_trackers (fold (reset_runtime_stream t reason) es s) =
      (dp_trackers s)(t := (dp_trackers s t)\<lparr>tk_runtimeStreams := x\<rparr>)) \<and>
   ds_streams (dp_store (fold (reset_runtime_stream t reason) es s)) =
      map (rows_reset reason (dp_now s) es) (ds_streams (dp_store s))"
proof (induction es arbitrary: s)
  case Nil
  show ?case
    by (auto simp: rows_reset_def intro!: exI [of _ "tk_runtimeStreams (dp_trackers s t)"])
next
  case (Cons e es)
  obtain sid st where e: "e = (sid, st)" by (cases e)
  show ?case
  proof (cases "still_open st")
    case False
    then show ?thesis
      using Cons.IH [of s] by (simp add: e reset_one_closed reset_events_def rows_reset_def [abs_def])
  next
    case True
    note r = reset_one_open [OF True, of t reason sid s]
    let ?s1 = "reset_runtime_stream t reason (sid, st) s"
    obtain x where "dp_trackers (fold (reset_runtime_stream t reason) es ?s1) =
        (dp_trackers ?s1)(t := (dp_trackers ?s1 t)\<lparr>tk_runtimeStreams := x\<rparr>)"
      using Cons.IH [of ?s1] by blast
    also have "\<dots> = (dp_trackers s)(t := (dp_trackers s t)\<lparr>tk_runtimeStreams := x\<rparr>)"
      by (simp only: r(4)) (simp add: upd_stream_def upd_tracker_def)
    finally have "\<exists>x. dp_trackers (fold (reset_runtime_stream t reason) es ?s1) =
        (dp_trackers s)(t := (dp_trackers s t)\<lparr>tk_runtimeStreams := x\<rparr>)"
      by blast
    moreover have "dp_trace (fold (reset_runtime_stream t reason) es ?s1) =
          dp_trace s @ concat (map (reset_events t reason) (e # es))"
        "dp_sessions (fold (reset_runtime_stream t reason) es ?s1) = dp_sessions s"
        "dp_now (fold (reset_runtime_stream t reason) es ?s1) = dp_now s"
        "ds_streams (dp_store (fold (reset_runtime_stream t reason) es ?s1)) =
          map (rows_reset reason (dp_now s) (e # es)) (ds_streams (dp_store s))"
      using Cons.IH [of ?s1] r(1-3,5) rows_reset_Cons [OF True] by (simp_all add: e del: map_map)
    ultimately show ?thesis
      by (simp only: e fold_Cons comp_apply simp_thms)
  qed
qed

lemma reset_streams_facts:
  fixes t :: nat and s :: dp_state
  defines "es \<equiv> tk_runtimeStreams (dp_trackers s t)"
  shows "dp_trace (resetRuntimeStreamsForDataPlaneTracker t reason s) =
      dp_trace s @ concat (map (reset_events t reason) es)"
    "dp_sessions (resetRuntimeStreamsForDataPlaneTracker t reason s) = dp_sessions s"
    "dp_trackers (resetRuntimeStreamsForDataPlaneTracker t reason s) =
      (dp_trackers s)(t := (dp_trackers s t)\<lparr>tk_runtimeStreams := []\<rparr>)"
    "ds_streams (dp_store (resetRuntimeStreamsForDataPlaneTracker t reason s)) =
      map (rows_reset reason (dp_now s) es) (ds_streams (dp_store s))"
  using reset_all_facts [of t reason es s]
  by (auto simp: resetRuntimeStreamsForDataPlaneTracker_def es_def upd_tracker_def)


lemma finalize_runs:
  fixes t :: nat and s :: dp_state
  defines "tk \<equiv> dp_trackers s t"
  assumes "\<not> tk_finalized tk" and "\<not> tk_finalizing tk" and "tk_close tk = None \<or> tk_close tk = Some CbOk"
    and "finalizeDataPlaneSessionTracker t reason drain del s = (r, s')"
  shows "r = Inr ()"
    "dp_trace s' = dp_trace s @ concat (map (reset_events t reason) (tk_runtimeStreams tk)) @
       (if tk_close tk = None then [] else [EvCarrierClose t])"
    "dp_sessions s' = (if del then dp_sessions (snd (deleteDataPlaneSessionTrackerIfCurrent t s)) else dp_sessions s)"
    "dp_trackers s' = (dp_trackers s)(t := tk\<lparr>tk_draining := (drain \<or> tk_draining tk),
       tk_runtimeStreams := [], tk_finalized := True, tk_finalizing := False\<rparr>)"
    "ds_streams (dp_store s') = map (rows_reset reason (dp_now s) (tk_runtimeStreams tk)) (ds_streams (dp_store s))"
proof -
  define s1 where "s1 = upd_tracker t (\<lambda>tk. tk\<lparr>tk_finalizing := True,
      tk_draining := (drain \<or> tk_draining tk)\<rparr>) s"
  define s2 where "s2 = (if del then snd (deleteDataPlaneSessionTrackerIfCurrent t s1) else s1)"
  define s3 where "s3 = resetRuntimeStreamsForDataPlaneTracker t reason s2"
  define s3' where "s3' = (if tk_close tk = None then s3 else emit_ev (EvCarrierClose t) s3)"
  define st where "st = (case (tk_role (dp_trackers s3' t), tk_transportSessionId (dp_trackers s3' t)) of
      (Role_data, Some ts) \<Rightarrow> if ts = [] then s3'
        else s3'\<lparr>dp_store := closeTransportSession ts reason drain (Some False) (dp_now s3') (dp_store s3')\<rparr>
    | _ \<Rightarrow> s3')"
  have s1: "dp_trackers s1 t = tk\<lparr>tk_finalizing := True, tk_draining := (drain \<or> tk_draining tk)\<rparr>"
      "dp_sessions s1 = dp_sessions s" "dp_trace s1 = dp_trace s" "dp_store s1 = dp_store s" "dp_now s1 = dp_now s"
    by (simp_all add: s1_def upd_tracker_def tk_def)
  have k1: "tracker_key (dp_trackers s1 t) = tracker_key tk"
    by (simp add: s1 tracker_key_def)
  have s2: "dp_trackers s2 = dp_trackers s1" "dp_trace s2 = dp_trace s" "dp_store s2 = dp_store s" "dp_now s2 = dp_now s"
      "dp_sessions s2 = (if del then dp_sessions (snd (deleteDataPlaneSessionTrackerIfCurrent t s)) else dp_sessions s)"
    using k1 by (simp_all add: s2_def deleteDataPlaneSessionTrackerIfCurrent_def Let_def s1 tk_def)
  have s3: "dp_trackers s3 = (dp_trackers s1)(t := (dp_trackers s1 t)\<lparr>tk_runtimeStreams := []\<rparr>)"
      "dp_trace s3 = dp_trace s @ concat (map (reset_events t reason) (tk_runtimeStreams tk))"
      "dp_sessions s3 = dp_sessions s2"
      "ds_streams (dp_store s3) = map (rows_reset reason (dp_now s) (tk_runtimeStreams tk)) (ds_streams (dp_store s))"
    using reset_streams_facts [where t = t and s = s2 and reason = reason] by (simp_all add: s3_def s2 s1)
  have cl: "close_carrier t s3 = (Inr (), s3')"
    using assms(4) by (auto simp: close_carrier_def s3 s1 s3'_def)
  have res: "(r, s') = (Inr (), upd_tracker t (\<lambda>tk. tk\<lparr>tk_finalizing := False\<rparr>)
      (upd_tracker t (\<lambda>tk. tk\<lparr>tk_finalized := True\<rparr>) st))"
    using assms(2,3,5) cl
    by (simp add: finalizeDataPlaneSessionTracker_def Let_def s1_def [symmetric] s2_def [symmetric]
        s3_def [symmetric] seqE_def st_def tk_def [symmetric])
  have st: "dp_trackers st = dp_trackers s3" "dp_sessions st = dp_sessions s3"
      "dp_trace st = dp_trace s3 @ (if tk_close tk = None then [] else [EvCarrierClose t])"
      "ds_streams (dp_store st) = ds_streams (dp_store s3)"
    by (auto simp: st_def s3'_def emit_ev_def closeTransportSession_def Let_def
        split: dp_role.split option.split)
  show "r = Inr ()" using res by simp
  show "dp_trace s' = dp_trace s @ concat (map (reset_events t reason) (tk_runtimeStreams tk)) @
       (if tk_close tk = None then [] else [EvCarrierClose t])"
    using res by (simp add: st s3)
  show "dp_sessions s' = (if del then dp_sessions (snd (deleteDataPlaneSessionTrackerIfCurrent t s)) else dp_sessions s)"
    using res by (simp add: st s3 s2 upd_tracker_def)
  show "dp_trackers s' = (dp_trackers s)(t := tk\<lparr>tk_draining := (drain \<or> tk_draining tk),
       tk_runtimeStreams := [], tk_finalized := True, tk_finalizing := False\<rparr>)"
    using res by (simp add: st s3 s1 upd_tracker_def) (simp add: s1_def upd_tracker_def)
  show "ds_streams (dp_store s') = map (rows_reset reason (dp_now s) (tk_runtimeStreams tk)) (ds_streams (dp_store s))"
    using res by (simp add: st s3 upd_tracker_def)
qed


section \<open>Properties\<close>

text \<open>C14: carrier selection is sound and complete: it succeeds exactly when some connected carrier of
  the Bud (and device session) negotiated the stream family, is not draining and is healthy, and it
  then names such a carrier of best rank under the transport policy.\<close>

theorem selection_sound_complete:
  defines "sel cfg b d ty pref pol s \<equiv> selectDataPlaneCarrier cfg b d ty pref pol s"
  shows "(sel_available (sel cfg b d ty pref pol s) \<longleftrightarrow> (\<exists>t. eligible b d ty pref s t)) \<and>
    (sel_available (sel cfg b d ty pref pol s) \<longrightarrow>
       (\<exists>t. sel_tracker (sel cfg b d ty pref pol s) = Some t \<and> eligible b d ty pref s t \<and>
          (\<forall>t'. eligible b d ty pref s t' \<longrightarrow> carrier_rank cfg pol s t \<le> carrier_rank cfg pol s t')))"
proof (cases "best_match cfg b d ty pref pol s")
  case None
  then show ?thesis
    using selection_result(1) [of cfg b d ty pref pol s] best_match_None [of cfg b d ty pref pol s]
    by (simp add: sel_def)
next
  case (Some t)
  then show ?thesis
    using selection_result [of cfg b d ty pref pol s] best_match_Some [OF Some] by (auto simp: sel_def)
qed

theorem selection_sound_complete_witness:
  "sel_available (selectDataPlaneCarrier Websocket_baseline ''bud_1'' None ''file_read'' None None demo_dp)"
proof -
  have "eligible ''bud_1'' None ''file_read'' None demo_dp 0"
    by (simp add: eligible_def demo_dp_def demo_tracker_def isDataPlaneSessionConnected_def Let_def
        dataPlaneTrackerAcceptsNewWork_def normalizeCarrierHealth_def healthyCarrierHealth_def
        carrierHealthAllowsNewWork_def)
  then show ?thesis
    using selection_sound_complete [of Websocket_baseline "''bud_1''" None "''file_read''" None None demo_dp]
    by blast
qed

text \<open>The two ways of finding a carrier agree: the session that \<open>getActiveDataPlaneSessionForBud\<close>
  returns for a stream family is the one the selection names, and there is none exactly when the
  selection reports the data plane unavailable.\<close>

theorem lookup_agrees_with_selection:
  assumes "ty \<noteq> []"
  shows "getActiveDataPlaneSessionForBud cfg b d (Some ty) pref False pol s =
    (if sel_available (selectDataPlaneCarrier cfg b d ty pref pol s)
     then sel_tracker (selectDataPlaneCarrier cfg b d ty pref pol s) else None)"
  using selection_result [of cfg b d ty pref pol s]
  by (cases "best_match cfg b d ty pref pol s") (simp_all add: getActive_best_match [OF assms])

theorem lookup_agrees_with_selection_witness:
  "getActiveDataPlaneSessionForBud Websocket_baseline ''bud_1'' None (Some ''file_read'') None False None demo_dp =
    (if sel_available (selectDataPlaneCarrier Websocket_baseline ''bud_1'' None ''file_read'' None None demo_dp)
     then sel_tracker (selectDataPlaneCarrier Websocket_baseline ''bud_1'' None ''file_read'' None None demo_dp)
     else None)"
  by (rule lookup_agrees_with_selection) simp

text \<open>Finalising a carrier whose \<open>close\<close> succeeds leaves no stream behind: every stream that was
  still open has its \<open>onReset\<close> called once with \<open>transport_lost\<close> and its live row moved to \<open>reset\<close>,
  closed streams are left alone, the carrier is no longer connected, it leaves the registry only if
  it is the registered one, and finalising it again does nothing.\<close>

theorem finalize_resets_open_streams:
  assumes "\<not> tk_finalized (dp_trackers s t)" and "\<not> tk_finalizing (dp_trackers s t)"
    and "tk_close (dp_trackers s t) = None \<or> tk_close (dp_trackers s t) = Some CbOk"
    and "finalizeDataPlaneSessionTracker t reason drain del s = (r, s')"
  shows "tk_runtimeStreams (dp_trackers s' t) = [] \<and> \<not> isDataPlaneSessionConnected (dp_trackers s' t) \<and>
    (\<exists>closing. dp_trace s' = dp_trace s @
        concat (map (reset_events t reason) (tk_runtimeStreams (dp_trackers s t))) @ closing \<and>
        set closing \<subseteq> {EvCarrierClose t}) \<and>
    (\<forall>row \<in> set (ds_streams (dp_store s)). \<exists>row' \<in> set (ds_streams (dp_store s')).
        st_streamId row' = st_streamId row \<and>
        (st_state row \<in> set live_stream_states \<and>
         (\<exists>e \<in> set (tk_runtimeStreams (dp_trackers s t)). still_open (snd e) \<and>
            rs_streamId (snd e) = st_streamId row) \<longrightarrow> st_state row' = Reset) \<and>
        (st_state row \<notin> set live_stream_states \<longrightarrow> row' = row)) \<and>
    (\<forall>k. map_of (dp_sessions s') k = (if del \<and> k = tracker_key (dp_trackers s t) \<and> map_of (dp_sessions s) k = Some t
        then None else map_of (dp_sessions s) k)) \<and>
    finalizeDataPlaneSessionTracker t reason' drain' del' s' = (Inr (), s')"
proof -
  note f = finalize_runs [OF assms]
  have rows: "\<forall>row \<in> set (ds_streams (dp_store s)). \<exists>row' \<in> set (ds_streams (dp_store s')).
        st_streamId row' = st_streamId row \<and>
        (st_state row \<in> set live_stream_states \<and>
         (\<exists>e \<in> set (tk_runtimeStreams (dp_trackers s t)). still_open (snd e) \<and>
            rs_streamId (snd e) = st_streamId row) \<longrightarrow> st_state row' = Reset) \<and>
        (st_state row \<notin> set live_stream_states \<longrightarrow> row' = row)"
  proof
    fix row
    assume "row \<in> set (ds_streams (dp_store s))"
    then have "rows_reset reason (dp_now s) (tk_runtimeStreams (dp_trackers s t)) row \<in> set (ds_streams (dp_store s'))"
      by (simp add: f(5))
    then show "\<exists>row' \<in> set (ds_streams (dp_store s')).
        st_streamId row' = st_streamId row \<and>
        (st_state row \<in> set live_stream_states \<and>
         (\<exists>e \<in> set (tk_runtimeStreams (dp_trackers s t)). still_open (snd e) \<and>
            rs_streamId (snd e) = st_streamId row) \<longrightarrow> st_state row' = Reset) \<and>
        (st_state row \<notin> set live_stream_states \<longrightarrow> row' = row)"
      by (intro bexI) (auto intro: rows_reset_hit rows_reset_settled)
  qed
  have reg: "map_of (dp_sessions s') k = (if del \<and> k = tracker_key (dp_trackers s t) \<and> map_of (dp_sessions s) k = Some t
        then None else map_of (dp_sessions s) k)" for k
    by (auto simp: f(3) deleteDataPlaneSessionTrackerIfCurrent_def Let_def delete_conv')
  have "\<exists>closing. dp_trace s' = dp_trace s @
        concat (map (reset_events t reason) (tk_runtimeStreams (dp_trackers s t))) @ closing \<and>
        set closing \<subseteq> {EvCarrierClose t}"
    by (simp add: f(2))
  with rows reg show ?thesis
    by (simp add: f(4) isDataPlaneSessionConnected_def finalizeDataPlaneSessionTracker_def)
qed

theorem finalize_resets_open_streams_witness:
  "\<exists>r s'. finalizeDataPlaneSessionTracker 0 ''gone'' True True demo_dp = (r, s') \<and>
     tk_runtimeStreams (dp_trackers s' 0) = []"
proof -
  obtain r s' where f: "finalizeDataPlaneSessionTracker 0 ''gone'' True True demo_dp = (r, s')"
    by (metis surj_pair)
  have "tk_runtimeStreams (dp_trackers s' 0) = []"
    using finalize_resets_open_streams [OF _ _ _ f] by (simp add: demo_dp_def demo_tracker_def)
  with f show ?thesis by blast
qed

end
