(* ===== verification/HandlerStore.thy ===== *)
theory HandlerStore
  imports DataPlaneProps
begin

text \<open>
  The data plane and the durable store together.  First, a computation of the router moves the store
  along the steps of \<open>DaemonState\<close>: the computations with this property are closed under the router's
  combinators, so each handler is covered by the rules in \<open>storeI\<close>.  Then the exact effect of a frame
  on the store: an abstract specification gives the verdict on the frame's stream (keep, reset,
  close) from the frame and the runtime stream, and the handlers record that verdict on the row of
  that stream and in the audit log, and change nothing else.
\<close>


definition moves_store :: "'a dpm \<Rightarrow> bool" where
  "moves_store m \<longleftrightarrow> (\<forall>s. ds_step\<^sup>*\<^sup>* (dp_store s) (dp_store (snd (m s))))"

named_theorems storeI \<open>computations that move the durable store along its steps\<close>

lemma moves_storeI [intro]: "(\<And>s. ds_step\<^sup>*\<^sup>* (dp_store s) (dp_store (snd (m s)))) \<Longrightarrow> moves_store m"
  by (simp add: moves_store_def)

lemma moves_storeD: "moves_store m \<Longrightarrow> ds_step\<^sup>*\<^sup>* (dp_store s) (dp_store (snd (m s)))"
  by (simp add: moves_store_def)

lemma store_of_updates [simp]:
  "dp_store (upd_tracker t f s) = dp_store s" "dp_store (upd_stream t sid g s) = dp_store s"
  "dp_store (emit_ev e s) = dp_store s"
  by (simp_all add: upd_tracker_def upd_stream_def emit_ev_def)

lemma moves_seqE [storeI]:
  assumes "moves_store m" and "\<And>x. moves_store (f x)"
  shows "moves_store (seqE m f)"
proof
  fix s
  have "ds_step\<^sup>*\<^sup>* (dp_store s) (dp_store (snd (m s)))"
    using assms(1) by (rule moves_storeD)
  moreover have "ds_step\<^sup>*\<^sup>* (dp_store s') (dp_store (snd (f x s')))" for x s'
    using assms(2) by (rule moves_storeD)
  ultimately show "ds_step\<^sup>*\<^sup>* (dp_store s) (dp_store (snd (seqE m f s)))"
    by (auto simp: seqE_def split: prod.split sum.split intro: rtranclp_trans)
qed

lemma moves_catchNull [storeI]: "moves_store m \<Longrightarrow> moves_store (catchNull m)"
  by (simp add: moves_store_def catchNull_def)

lemma moves_basic [storeI]: 
  "moves_store (retE x)" "moves_store (mk_frame ty flds)" "moves_store (sendDataPlaneFrame t frame)"
  "moves_store (call_onData t st chunk info)" "moves_store (call_onReset t st reason err)" "moves_store (call_onClose t st off)"
  by (auto simp: retE_def mk_frame_def sendDataPlaneFrame_def call_onData_def call_onReset_def call_onClose_def split: option.split)

lemma moves_transition [storeI]: "moves_store (store_transition a)"
  by (rule moves_storeI) (auto simp: store_transition_def split: sum.split intro: ds_step.transition_stream)

lemma moves_audit [storeI]: "moves_store (store_audit a)"
  by (rule moves_storeI) (auto simp: store_audit_def Let_def split: sum.split intro: ds_step.append_audit)

lemma moves_reset [storeI]: "moves_store (sendStreamReset t sid reason err)"
  unfolding sendStreamReset_def by (intro storeI)

lemma moves_after:
  "moves_store m \<Longrightarrow> dp_store s' = dp_store s \<Longrightarrow> ds_step\<^sup>*\<^sup>* (dp_store s) (dp_store (snd (m s')))"
  using moves_storeD [of m s'] by simp

lemma moves_seq_at:
  "moves_store m \<Longrightarrow> (\<And>x. moves_store (f x)) \<Longrightarrow> dp_store s' = dp_store s \<Longrightarrow>
   ds_step\<^sup>*\<^sup>* (dp_store s) (dp_store (snd (seqE m f s')))"
  by (rule moves_after) (rule moves_seqE)

lemma moves_consumed [storeI]: "moves_store (chunk_consumed t st sid n e)"
  unfolding chunk_consumed_def
  by (intro moves_storeI moves_seq_at moves_seqE storeI) (auto intro!: moves_after storeI)

lemma moves_failed [storeI]: "moves_store (consumer_failed t st sid exn)"
  unfolding consumer_failed_def Let_def by (intro moves_storeI moves_seq_at storeI refl)

lemma moves_data: "moves_store (handleStreamData t raw)"
proof
  fix s :: dp_state
  have accepted: "ds_step\<^sup>*\<^sup>* (dp_store s) (dp_store (snd (case call_onData t st chunk info s1 of
      (Inl exn, s2) \<Rightarrow> consumer_failed t st sid exn s2 | (Inr _, s2) \<Rightarrow> chunk_consumed t st sid n e s2)))"
    if "dp_store s1 = dp_store s" for st chunk info s1 sid n e
  proof -
    have "dp_store (snd (call_onData t st chunk info s1)) = dp_store s"
      using that by (simp add: call_onData_def split: option.split)
    then show ?thesis
      by (auto split: prod.split sum.split intro!: moves_after storeI)
  qed
  show "ds_step\<^sup>*\<^sup>* (dp_store s) (dp_store (snd (handleStreamData t raw s)))"
    unfolding handleStreamData_def Let_def
    by (auto split: option.split sum.split intro!: moves_storeD [OF moves_reset] accepted)
qed

lemma moves_credit: "moves_store (handleStreamCredit t raw)"
  by (rule moves_storeI) (auto simp: handleStreamCredit_def Let_def split: option.split)

lemma moves_optional_reset [storeI]:
  "moves_store (\<lambda>s. case x of None \<Rightarrow> (Inr (), s) | Some st \<Rightarrow> call_onReset t st reason err (upd_stream t sid f s))"
  by (rule moves_storeI) (auto split: option.split intro!: moves_after storeI)

lemma moves_handle_reset: "moves_store (handleStreamReset t raw)"
proof
  fix s :: dp_state
  show "ds_step\<^sup>*\<^sup>* (dp_store s) (dp_store (snd (handleStreamReset t raw s)))"
    by (cases "parseStreamReset raw") (auto simp: handleStreamReset_def Let_def intro!: moves_seq_at storeI del: moves_storeI)
qed

lemma moves_close: "moves_store (handleStreamClose t raw)"
  by (rule moves_storeI) (auto simp: handleStreamClose_def Let_def split: option.split intro!: moves_after storeI)

lemma moves_dispatch: "moves_store (dispatchDataPlaneStreamFrame t raw)"
  using moves_data moves_credit moves_handle_reset moves_close
  by (auto simp: dispatchDataPlaneStreamFrame_def moves_store_def split: option.split)

lemma reset_stream_store: "ds_step\<^sup>*\<^sup>* (dp_store s) (dp_store (reset_runtime_stream t reason entry s))"
  by (auto simp: reset_runtime_stream_def Let_def split: prod.split intro!: moves_after storeI)

lemma fold_store:
  assumes "\<And>x s. ds_step\<^sup>*\<^sup>* (dp_store s) (dp_store (f x s))"
  shows "ds_step\<^sup>*\<^sup>* (dp_store s) (dp_store (fold f xs s))"
proof (induction xs arbitrary: s)
  case (Cons x xs)
  show ?case
    using assms [of s x] Cons [of "f x s"] by simp
qed simp

lemma reset_streams_store: "ds_step\<^sup>*\<^sup>* (dp_store s) (dp_store (resetRuntimeStreamsForDataPlaneTracker t reason s))"
  by (simp add: resetRuntimeStreamsForDataPlaneTracker_def fold_store reset_stream_store)

lemma delete_store [simp]: "dp_store (snd (deleteDataPlaneSessionTrackerIfCurrent t s)) = dp_store s"
  by (simp add: deleteDataPlaneSessionTrackerIfCurrent_def Let_def split: option.split)

lemma moves_close_carrier [storeI]: "moves_store (close_carrier t)"
  by (rule moves_storeI) (auto simp: close_carrier_def split: option.split)

lemma moves_finalize: "moves_store (finalizeDataPlaneSessionTracker t reason markDraining deleteSession)"
proof
  fix s :: dp_state
  define s2 where "s2 = (let s1 = upd_tracker t (\<lambda>tk. tk\<lparr>tk_finalizing := True, tk_draining := (markDraining \<or> tk_draining tk)\<rparr>) s
    in if deleteSession then snd (deleteDataPlaneSessionTrackerIfCurrent t s1) else s1)"
  define finish :: "unit dpm" where "finish = (\<lambda>s. (Inr (), upd_tracker t (\<lambda>tk. tk\<lparr>tk_finalized := True\<rparr>)
     (case (tk_role (dp_trackers s t), tk_transportSessionId (dp_trackers s t)) of
        (Role_data, Some ts) \<Rightarrow>
          if ts = [] then s
          else s\<lparr>dp_store := closeTransportSession ts reason markDraining (Some False) (dp_now s) (dp_store s)\<rparr>
      | _ \<Rightarrow> s)))"
  have fin: "moves_store finish"
    unfolding finish_def
    by (rule moves_storeI) (auto split: dp_role.split option.split intro: ds_step.close_transport)
  have "dp_store s2 = dp_store s"
    by (simp add: s2_def Let_def)
  moreover have "ds_step\<^sup>*\<^sup>* (dp_store s2) (dp_store (snd (seqE (close_carrier t) (\<lambda>_. finish)
      (resetRuntimeStreamsForDataPlaneTracker t reason s2))))"
    by (rule rtranclp_trans [OF reset_streams_store [of s2 t reason]]) (intro moves_seq_at moves_close_carrier fin refl)
  moreover have "finalizeDataPlaneSessionTracker t reason markDraining deleteSession s =
      (if tk_finalized (dp_trackers s t) \<or> tk_finalizing (dp_trackers s t) then (Inr (), s)
       else case seqE (close_carrier t) (\<lambda>_. finish) (resetRuntimeStreamsForDataPlaneTracker t reason s2) of
         (r, s4) \<Rightarrow> (r, upd_tracker t (\<lambda>tk. tk\<lparr>tk_finalizing := False\<rparr>) s4))"
    unfolding finalizeDataPlaneSessionTracker_def s2_def finish_def Let_def by (rule refl)
  ultimately show "ds_step\<^sup>*\<^sup>* (dp_store s) (dp_store (snd (finalizeDataPlaneSessionTracker t reason markDraining deleteSession s)))"
    by (auto split: prod.split)
qed

text \<open>Every run of a handler, whatever the frame and whatever its callbacks throw, is a sequence of
  steps of the store.\<close>

lemma handlers_step_store:
  "ds_step\<^sup>*\<^sup>* (dp_store s) (dp_store (snd (dispatchDataPlaneStreamFrame t raw s)))"
  "ds_step\<^sup>*\<^sup>* (dp_store s) (dp_store (snd (finalizeDataPlaneSessionTracker t reason markDraining deleteSession s)))"
  "ds_step\<^sup>*\<^sup>* (dp_store s) (dp_store (snd (finalizeDataPlaneSessionsForControlTracker c reason markDraining s)))"
  using moves_storeD [OF moves_dispatch] moves_storeD [OF moves_finalize]
  by (simp_all add: finalizeDataPlaneSessionsForControlTracker_def Let_def fold_store)

section \<open>What a frame does to the row of its stream\<close>

datatype stream_verdict = KeepRow | ResetRow string "error_info option" | CloseRow int

fun verdict_row :: "int \<Rightarrow> stream_verdict \<Rightarrow> bud_stream_row \<Rightarrow> bud_stream_row" where
  "verdict_row now KeepRow r = r"
| "verdict_row now (ResetRow reason err) r =
     (if st_state r \<in> {Closed, Reset, StUnknown, StExpired} then r
      else r\<lparr>st_state := Reset, st_resetReason := Some reason,
             st_errorCode := set_col (map_option err_code err) (st_errorCode r),
             st_errorMessage := set_col (map_option err_message err) (st_errorMessage r),
             st_errorRetryable := set_col (Option.bind err err_retryable) (st_errorRetryable r),
             st_errorDetails := set_col (Option.bind err err_details) (st_errorDetails r),
             st_closedAt := Some now, st_updatedAt := now\<rparr>)"
| "verdict_row now (CloseRow finalOffset) r =
     (if st_state r \<in> {Closed, Reset, StUnknown, StExpired} then r
      else r\<lparr>st_state := Closed, st_receiveOffset := finalOffset,
             st_openedAt := (if st_state r = Opening then Some now else st_openedAt r),
             st_closedAt := Some now, st_updatedAt := now\<rparr>)"

fun verdict_event :: "stream_verdict \<Rightarrow> string" where
  "verdict_event (CloseRow _) = ''data_plane.stream_close''"
| "verdict_event _ = ''data_plane.stream_reset''"

definition goes_through :: "cb_result option \<Rightarrow> bool" where
  "goes_through c \<longleftrightarrow> c = None \<or> c = Some CbOk"

text \<open>The reset frame goes out when the carrier is connected and takes the frame.\<close>

definition reset_reaches :: "nat \<Rightarrow> string \<Rightarrow> string \<Rightarrow> error_info \<Rightarrow> dp_state \<Rightarrow> bool" where
  "reset_reaches t sid reason err s \<longleftrightarrow> isDataPlaneSessionConnected (dp_trackers s t) \<and>
     tk_sendFrame (dp_trackers s t) (wire_frame ''stream_reset'' (''msg_'' @ dp_ulid s (dp_used s)) (dp_now s)
       [(''stream_id'', JStr sid), (''reason'', JStr reason), (''error'', error_json err)]) = CbOk"

text \<open>A chunk that the stream accepts (its type, its size and the receive window) and whose consumer
  throws resets the row, provided that the reset frame could be sent.\<close>

definition data_verdict :: "nat \<Rightarrow> stream_data_frame \<Rightarrow> dp_state \<Rightarrow> stream_verdict" where
  "data_verdict t f s =
     (case getDataPlaneRuntimeStream t (sd_stream_id f) s of
        None \<Rightarrow> KeepRow
      | Some st \<Rightarrow>
          (let chunk = b64_decode (sd_data f);
               taken = (rs_streamType st = sd_stream_type f \<and>
                        int (length chunk) \<le> tk_maxChunkBytes (dp_trackers s t) \<and>
                        (\<exists>st'. recordDataPlaneInboundChunk st (sd_offset f) (int (length chunk)) = Inr st'));
               info = \<lparr>di_streamId = sd_stream_id f, di_streamType = sd_stream_type f,
                       di_offset = sd_offset f, di_endStream = sd_end_stream f\<rparr>
           in case map_option (\<lambda>g. cb_exn (g chunk info)) (rs_onData st) of
                Some (Inl exn) \<Rightarrow>
                  (let err = simple_error ''STREAM_CONSUMER_FAILED'' (consumer_failure_message exn) False
                   in if taken \<and> reset_reaches t (sd_stream_id f) ''local_error'' err s
                      then ResetRow ''local_error'' (Some err) else KeepRow)
              | _ \<Rightarrow> KeepRow))"

text \<open>A reset of the peer resets the row unless the stream's \<open>onReset\<close> throws.\<close>

definition reset_verdict :: "nat \<Rightarrow> stream_reset_frame \<Rightarrow> dp_state \<Rightarrow> stream_verdict" where
  "reset_verdict t f s =
     (if goes_through (Option.bind (getDataPlaneRuntimeStream t (sr_stream_id f) s)
           (\<lambda>st. map_option (\<lambda>g. g (sr_reason f) (sr_error f)) (rs_onReset st)))
      then ResetRow (sr_reason f) (sr_error f) else KeepRow)"

text \<open>A close at the offset received, or of a stream that is not running here, closes the row unless
  \<open>onClose\<close> throws; at any other offset it resets the row unless \<open>onReset\<close> throws.\<close>

definition close_verdict :: "nat \<Rightarrow> stream_close_frame \<Rightarrow> dp_state \<Rightarrow> stream_verdict" where
  "close_verdict t f s =
     (case getDataPlaneRuntimeStream t (scl_stream_id f) s of
        None \<Rightarrow> CloseRow (scl_final_offset f)
      | Some st \<Rightarrow>
          if scl_final_offset f = rs_receiveOffset st
          then if goes_through (map_option (\<lambda>g. g (scl_final_offset f)) (rs_onClose st))
               then CloseRow (scl_final_offset f) else KeepRow
          else (let err = final_offset_error (rs_receiveOffset st) (scl_final_offset f) in
                if goes_through (map_option (\<lambda>g. g ''protocol_error'' (Some err)) (rs_onReset st))
                then ResetRow ''protocol_error'' (Some err) else KeepRow))"

text \<open>Frames of other types, and frames that do not parse, keep every row.\<close>

definition frame_verdict :: "nat \<Rightarrow> json \<Rightarrow> dp_state \<Rightarrow> string \<times> stream_verdict" where
  "frame_verdict t raw s =
     (let ty = Option.bind (as_record raw) (\<lambda>ob. as_string (obj_get ob ''type''))
      in if ty = Some ''stream_data'' then
           case_option ([], KeepRow) (\<lambda>f. (sd_stream_id f, data_verdict t f s)) (parseStreamDataFrame raw)
         else if ty = Some ''stream_reset'' then
           case_option ([], KeepRow) (\<lambda>f. (sr_stream_id f, reset_verdict t f s)) (parseStreamReset raw)
         else if ty = Some ''stream_close'' then
           case_option ([], KeepRow) (\<lambda>f. (scl_stream_id f, close_verdict t f s)) (parseStreamClose raw)
         else ([], KeepRow))"

text \<open>The verdict is on record: the rows of the stream are rewritten by it, and unless it keeps them
  the audit log gets one entry of the carrier's bud and the stream, under a generated identifier
  (none when that identifier is taken, since the insert then fails and is caught).\<close>

definition verdict_stored :: "nat \<Rightarrow> string \<Rightarrow> stream_verdict \<Rightarrow> dp_state \<Rightarrow> daemon_store \<Rightarrow> bool" where
  "verdict_stored t sid v s store' \<longleftrightarrow>
     (\<exists>new. store' = (dp_store s)\<lparr>
              ds_streams := map (\<lambda>r. if st_streamId r = sid then verdict_row (dp_now s) v r else r)
                              (ds_streams (dp_store s)),
              ds_audit := ds_audit (dp_store s) @ new\<rparr> \<and>
            (v = KeepRow \<longrightarrow> new = []) \<and>
            (v \<noteq> KeepRow \<longrightarrow> (\<exists>n. let i = ''aud_'' @ dp_ulid s n in
               if i \<in> aud_auditEventId ` set (ds_audit (dp_store s)) then new = []
               else \<exists>a. new = [a] \<and> aud_auditEventId a = i \<and> aud_eventType a = verdict_event v \<and>
                        aud_budId a = Some (tk_budId (dp_trackers s t)) \<and> aud_streamId a = Some sid)))"

lemma keep_stored: "verdict_stored t sid KeepRow s (dp_store s)"
  by (simp add: verdict_stored_def cong: if_cong)

text \<open>The two writes of a verdict: the transitions rewrite the rows, then the audit entry is appended.\<close>

lemma reset_transition_store:
  "dp_store (snd (store_transition (transition_to_reset sid reason err) s)) = (dp_store s)\<lparr>ds_streams :=
     map (\<lambda>r. if st_streamId r = sid then verdict_row (dp_now s) (ResetRow reason err) r else r)
       (ds_streams (dp_store s))\<rparr>"
proof -
  have row: "(if st_streamId r = sid \<and> st_state r \<in> set live_stream_states
      then apply_stream_transition (transition_to_reset sid reason err) now r else r) =
      (if st_streamId r = sid then verdict_row now (ResetRow reason err) r else r)" for r now
    by (cases "st_state r") (simp_all add: live_stream_states_def apply_stream_transition_def
        transition_to_reset_def isTerminalStreamState_def STREAM_TERMINAL_STATES_def set_col_def)
  have "List.find (\<lambda>f. \<not> isAllowedStreamTransition f Reset) live_stream_states = None"
    using live_to_reset by (auto simp: find_None_iff)
  then have "dp_store (snd (store_transition (transition_to_reset sid reason err) s)) = (dp_store s)\<lparr>ds_streams :=
     map (\<lambda>r. if st_streamId r = sid \<and> st_state r \<in> set live_stream_states
        then apply_stream_transition (transition_to_reset sid reason err) (dp_now s) r else r) (ds_streams (dp_store s))\<rparr>"
    by (simp add: store_transition_def transitionStream_def transition_to_reset_def Let_def)
  then show ?thesis
    unfolding row .
qed

lemma close_transitions_store:
  "dp_store (snd (catchNull (store_transition \<lparr>tr_streamId = sid, tr_from = [Open, HalfClosedLocal, HalfClosedRemote],
       tr_to = Closed, tr_sendOffset = None, tr_receiveOffset = Some n, tr_resetReason = None, tr_error = None\<rparr>)
     (snd (catchNull (store_transition \<lparr>tr_streamId = sid, tr_from = [Opening], tr_to = Open, tr_sendOffset = None,
       tr_receiveOffset = None, tr_resetReason = None, tr_error = None\<rparr>) s)))) =
   (dp_store s)\<lparr>ds_streams := map (\<lambda>r. if st_streamId r = sid then verdict_row (dp_now s) (CloseRow n) r else r)
       (ds_streams (dp_store s))\<rparr>"
proof -
  have rows: "(if st_streamId x = sid \<and> st_state x \<in> {Open, HalfClosedLocal, HalfClosedRemote}
      then apply_stream_transition \<lparr>tr_streamId = sid, tr_from = [Open, HalfClosedLocal, HalfClosedRemote],
       tr_to = Closed, tr_sendOffset = None, tr_receiveOffset = Some n, tr_resetReason = None, tr_error = None\<rparr> now x else x) =
      (if st_streamId r = sid then verdict_row now (CloseRow n) r else r)"
    if "x = (if st_streamId r = sid \<and> st_state r = Opening then apply_stream_transition
        \<lparr>tr_streamId = sid, tr_from = [Opening], tr_to = Open, tr_sendOffset = None,
         tr_receiveOffset = None, tr_resetReason = None, tr_error = None\<rparr> now r else r)" for x r now
    unfolding that
    by (cases "st_state r") (simp_all add: apply_stream_transition_def isTerminalStreamState_def
        STREAM_TERMINAL_STATES_def set_col_def)
  show ?thesis
    by (simp add: catchNull_def store_transition_def transitionStream_def Let_def comp_def rows [OF refl, simplified]
        isAllowedStreamTransition_def)
qed

lemma audit_append:
  "appendAuditEvent (stream_audit tk event sid extra streamType) fresh st =
     (if ''aud_'' @ fresh \<in> aud_auditEventId ` set (ds_audit st) then Inl (DbError ''unique_violation'')
      else let row = \<lparr>aud_auditEventId = ''aud_'' @ fresh, aud_eventType = event,
                      aud_eventData = the (aa_eventData (stream_audit tk event sid extra streamType)),
                      aud_budId = Some (tk_budId tk), aud_userId = None, aud_operationId = None,
                      aud_streamId = Some sid, aud_createdByUserId = None, aud_tenantId = None\<rparr>
           in Inr (row, st\<lparr>ds_audit := ds_audit st @ [row]\<rparr>))"
  by (auto simp: appendAuditEvent_def stream_audit_def id_or_fresh_def Let_def list_ex_iff image_iff eq_commute)

lemma audit_stored:
  assumes "dp_store s1 = (dp_store s)\<lparr>ds_streams :=
      map (\<lambda>r. if st_streamId r = sid then verdict_row (dp_now s) v r else r) (ds_streams (dp_store s))\<rparr>"
    and "dp_ulid s1 = dp_ulid s" and "v \<noteq> KeepRow" and "tk_budId tk = tk_budId (dp_trackers s t)"
  shows "verdict_stored t sid v s (dp_store (snd (store_audit
           (stream_audit tk (verdict_event v) sid extra streamType) s1)))"
proof (cases "''aud_'' @ dp_ulid s (dp_used s1) \<in> aud_auditEventId ` set (ds_audit (dp_store s))")
  case True
  with assms show ?thesis
    unfolding verdict_stored_def
    by (intro exI [of _ "[]"]) (auto simp: store_audit_def audit_append intro!: exI [of _ "dp_used s1"])
next
  case False
  let ?row = "\<lparr>aud_auditEventId = ''aud_'' @ dp_ulid s (dp_used s1), aud_eventType = verdict_event v,
      aud_eventData = the (aa_eventData (stream_audit tk (verdict_event v) sid extra streamType)),
      aud_budId = Some (tk_budId tk), aud_userId = None, aud_operationId = None,
      aud_streamId = Some sid, aud_createdByUserId = None, aud_tenantId = None\<rparr>"
  show ?thesis
    unfolding verdict_stored_def Let_def
    using False assms
    by (intro exI [of _ "[?row]"] conjI impI exI [of _ "dp_used s1"])
      (simp_all add: store_audit_def audit_append Let_def)
qed

text \<open>The updates of a handler before it reaches the store leave the clock, the identifiers and what
  the audit entry names alone.\<close>

lemma frame_of_updates [simp]:
  "dp_now (upd_tracker t f s) = dp_now s" "dp_now (upd_stream t sid g s) = dp_now s" "dp_now (emit_ev e s) = dp_now s"
  "dp_ulid (upd_tracker t f s) = dp_ulid s" "dp_ulid (upd_stream t sid g s) = dp_ulid s" "dp_ulid (emit_ev e s) = dp_ulid s"
  "dp_used (upd_tracker t f s) = dp_used s" "dp_used (upd_stream t sid g s) = dp_used s" "dp_used (emit_ev e s) = dp_used s"
  "dp_trackers (emit_ev e s) = dp_trackers s"
  by (simp_all add: upd_tracker_def upd_stream_def emit_ev_def)

definition same_store :: "dp_state \<Rightarrow> dp_state \<Rightarrow> bool" where
  "same_store s s' \<longleftrightarrow> dp_store s' = dp_store s \<and> dp_now s' = dp_now s \<and> dp_ulid s' = dp_ulid s"

lemma reset_recorded:
  assumes "same_store s s1" and "tk_budId tk = tk_budId (dp_trackers s t)"
  shows "verdict_stored t sid (ResetRow reason err) s (dp_store (snd
    (seqE (catchNull (store_transition (transition_to_reset sid reason err)))
      (\<lambda>_. catchNull (store_audit (stream_audit tk ''data_plane.stream_reset'' sid extra streamType))) s1)))"
proof -
  let ?s2 = "snd (store_transition (transition_to_reset sid reason err) s1)"
  have "verdict_stored t sid (ResetRow reason err) s (dp_store (snd (store_audit
      (stream_audit tk (verdict_event (ResetRow reason err)) sid extra streamType) ?s2)))"
  proof (rule audit_stored)
    show "dp_store ?s2 = (dp_store s)\<lparr>ds_streams :=
      map (\<lambda>r. if st_streamId r = sid then verdict_row (dp_now s) (ResetRow reason err) r else r) (ds_streams (dp_store s))\<rparr>"
      using assms(1) reset_transition_store [of sid reason err s1] unfolding same_store_def by simp
    show "dp_ulid ?s2 = dp_ulid s"
      using assms(1) by (simp add: same_store_def store_transition_def split: sum.split)
  qed (use assms in simp_all)
  then show ?thesis
    by (simp add: seqE_def catchNull_def)
qed

lemma close_recorded:
  assumes "same_store s s1" and "tk_budId tk = tk_budId (dp_trackers s t)"
  shows "verdict_stored t sid (CloseRow n) s (dp_store (snd
    (seqE (catchNull (store_transition \<lparr>tr_streamId = sid, tr_from = [Opening], tr_to = Open, tr_sendOffset = None,
       tr_receiveOffset = None, tr_resetReason = None, tr_error = None\<rparr>))
     (\<lambda>_. seqE (catchNull (store_transition \<lparr>tr_streamId = sid, tr_from = [Open, HalfClosedLocal, HalfClosedRemote],
       tr_to = Closed, tr_sendOffset = None, tr_receiveOffset = Some n, tr_resetReason = None, tr_error = None\<rparr>))
     (\<lambda>_. catchNull (store_audit (stream_audit tk ''data_plane.stream_close'' sid extra streamType)))) s1)))"
    (is "verdict_stored t sid _ s (dp_store (snd (seqE (catchNull ?t1) (\<lambda>_. seqE (catchNull ?t2) _) s1)))")
proof -
  let ?s2 = "snd (catchNull ?t2 (snd (catchNull ?t1 s1)))"
  have "verdict_stored t sid (CloseRow n) s (dp_store (snd (store_audit
      (stream_audit tk (verdict_event (CloseRow n)) sid extra streamType) ?s2)))"
  proof (rule audit_stored)
    show "dp_store ?s2 = (dp_store s)\<lparr>ds_streams :=
      map (\<lambda>r. if st_streamId r = sid then verdict_row (dp_now s) (CloseRow n) r else r) (ds_streams (dp_store s))\<rparr>"
      using assms(1) close_transitions_store [of sid n s1] unfolding same_store_def by simp
    show "dp_ulid ?s2 = dp_ulid s"
      using assms(1) by (simp add: same_store_def catchNull_def store_transition_def split: sum.split)
  qed (use assms in simp_all)
  then show ?thesis
    by (simp add: seqE_def catchNull_def)
qed

lemma seqE_Inl: "m s = (Inl e, s') \<Longrightarrow> seqE m f s = (Inl e, s')"
  and seqE_Inr: "m s = (Inr x, s') \<Longrightarrow> seqE m f s = f x s'"
  by (simp_all add: seqE_def)

text \<open>A callback either goes through or throws; the store is the same after it.\<close>

lemma callback_cases:
  "goes_through (map_option (\<lambda>g. g reason err) (rs_onReset st)) \<Longrightarrow>
     \<exists>s'. call_onReset t st reason err s = (Inr (), s') \<and> same_store s s' \<and> dp_trackers s' = dp_trackers s"
  "\<not> goes_through (map_option (\<lambda>g. g reason err) (rs_onReset st)) \<Longrightarrow>
     \<exists>e s'. call_onReset t st reason err s = (Inl e, s') \<and> same_store s s'"
  "goes_through (map_option (\<lambda>g. g n) (rs_onClose st)) \<Longrightarrow>
     \<exists>s'. call_onClose t st n s = (Inr (), s') \<and> same_store s s' \<and> dp_trackers s' = dp_trackers s"
  "\<not> goes_through (map_option (\<lambda>g. g n) (rs_onClose st)) \<Longrightarrow>
     \<exists>e s'. call_onClose t st n s = (Inl e, s') \<and> same_store s s'"
  by (auto simp: goes_through_def call_onReset_def call_onClose_def same_store_def elim: cb_exn.elims split: option.splits)
     (metis cb_exn.elims)+

lemma kept_store: "same_store s s' \<Longrightarrow> verdict_stored t sid KeepRow s (dp_store s')"
  using keep_stored [of t sid s] by (simp add: same_store_def)

lemma reset_frame_stored:
  assumes "parseStreamReset raw = Some f"
  shows "verdict_stored t (sr_stream_id f) (reset_verdict t f s) s (dp_store (snd (handleStreamReset t raw s)))"
proof (cases "getDataPlaneRuntimeStream t (sr_stream_id f) s")
  case None
  then show ?thesis
    using reset_recorded [of s s "dp_trackers s t" t "sr_stream_id f" "sr_reason f" "sr_error f"]
    by (simp add: handleStreamReset_def assms reset_verdict_def goes_through_def Let_def seqE_Inr same_store_def)
next
  case (Some st)
  let ?s1 = "upd_stream t (sr_stream_id f) (\<lambda>y. y\<lparr>rs_resetReason := Some (sr_reason f)\<rparr>) s"
  have same: "same_store s ?s1"
    by (simp add: same_store_def)
  show ?thesis
  proof (cases "goes_through (map_option (\<lambda>g. g (sr_reason f) (sr_error f)) (rs_onReset st))")
    case True
    from callback_cases(1) [OF True, of t ?s1] obtain s2
      where "call_onReset t st (sr_reason f) (sr_error f) ?s1 = (Inr (), s2)" "same_store ?s1 s2" by blast
    with same Some True show ?thesis
      using reset_recorded [of s s2 "dp_trackers s t" t "sr_stream_id f" "sr_reason f" "sr_error f"]
      by (simp add: handleStreamReset_def assms reset_verdict_def Let_def seqE_Inr same_store_def)
  next
    case False
    from callback_cases(2) [OF False, of t ?s1] obtain e s2
      where "call_onReset t st (sr_reason f) (sr_error f) ?s1 = (Inl e, s2)" "same_store ?s1 s2" by blast
    with same Some False show ?thesis
      using kept_store [of s s2]
      by (simp add: handleStreamReset_def assms reset_verdict_def Let_def seqE_Inl same_store_def)
  qed
qed

lemma same_store_trans: "same_store a b \<Longrightarrow> same_store b c \<Longrightarrow> same_store a c"
  by (simp add: same_store_def)

lemma sent_same_store: "same_store s (snd (sendStreamReset t sid reason err s))"
  by (simp add: sendStreamReset_def seqE_def mk_frame_def sendDataPlaneFrame_def same_store_def)

lemma catchNull_seq: "seqE (catchNull m) f s = f () (snd (m s))"
  by (simp add: seqE_def catchNull_def)

lemma mismatch_recorded:
  assumes "same_store s s2" and "tk_budId tk = tk_budId (dp_trackers s t)"
  shows "verdict_stored t sid (ResetRow reason (Some err)) s (dp_store (snd
     (seqE (catchNull (sendStreamReset t sid reason err)) (\<lambda>_.
      seqE (catchNull (store_transition (transition_to_reset sid reason (Some err)))) (\<lambda>_.
        catchNull (store_audit (stream_audit tk ''data_plane.stream_reset'' sid extra streamType)))) s2)))"
  unfolding catchNull_seq [of "sendStreamReset t sid reason err"]
  by (rule reset_recorded [OF same_store_trans [OF assms(1) sent_same_store] assms(2)])

lemma close_frame_stored:
  assumes "parseStreamClose raw = Some f"
  shows "verdict_stored t (scl_stream_id f) (close_verdict t f s) s (dp_store (snd (handleStreamClose t raw s)))"
proof (cases "getDataPlaneRuntimeStream t (scl_stream_id f) s")
  case None
  then show ?thesis
    using close_recorded [of s s "dp_trackers s t" t "scl_stream_id f" "scl_final_offset f"]
    by (simp add: handleStreamClose_def assms close_verdict_def Let_def same_store_def)
next
  case (Some st)
  note unf = handleStreamClose_def assms close_verdict_def Let_def
  show ?thesis
  proof (cases "scl_final_offset f = rs_receiveOffset st")
    case at_end: True
    let ?s1 = "upd_stream t (scl_stream_id f) (\<lambda>y. y\<lparr>rs_remoteClosed := True\<rparr>) s"
    have same: "same_store s ?s1"
      by (simp add: same_store_def)
    show ?thesis
    proof (cases "goes_through (map_option (\<lambda>g. g (scl_final_offset f)) (rs_onClose st))")
      case True
      from callback_cases(3) [OF True, of t ?s1] obtain s2
        where "call_onClose t st (scl_final_offset f) ?s1 = (Inr (), s2)" "same_store ?s1 s2" by blast
      with same Some at_end True show ?thesis
        using close_recorded [OF same_store_trans [OF same], of s2 "dp_trackers s t" t "scl_stream_id f" "scl_final_offset f"]
        by (simp add: unf seqE_Inr)
    next
      case False
      from callback_cases(4) [OF False, of t ?s1] obtain e s2
        where "call_onClose t st (scl_final_offset f) ?s1 = (Inl e, s2)" "same_store ?s1 s2" by blast
      with same Some at_end False show ?thesis
        using kept_store [OF same_store_trans [OF same], of s2] by (simp add: unf seqE_Inl)
    qed
  next
    case off: False
    let ?s1 = "upd_stream t (scl_stream_id f) (\<lambda>y. y\<lparr>rs_resetReason := Some ''protocol_error''\<rparr>) s"
    let ?err = "final_offset_error (rs_receiveOffset st) (scl_final_offset f)"
    have same: "same_store s ?s1"
      by (simp add: same_store_def)
    show ?thesis
    proof (cases "goes_through (map_option (\<lambda>g. g ''protocol_error'' (Some ?err)) (rs_onReset st))")
      case True
      from callback_cases(1) [OF True, of t ?s1] obtain s2
        where "call_onReset t st ''protocol_error'' (Some ?err) ?s1 = (Inr (), s2)" "same_store ?s1 s2" by blast
      with same Some off True show ?thesis
        using mismatch_recorded [OF same_store_trans [OF same], of s2 "dp_trackers s t" t "scl_stream_id f" "''protocol_error''" ?err]
        by (simp add: unf seqE_Inr)
    next
      case False
      from callback_cases(2) [OF False, of t ?s1] obtain e s2
        where "call_onReset t st ''protocol_error'' (Some ?err) ?s1 = (Inl e, s2)" "same_store ?s1 s2" by blast
      with same Some off False show ?thesis
        using kept_store [OF same_store_trans [OF same], of s2] by (simp add: unf seqE_Inl)
    qed
  qed
qed

lemma consumed_same_store: "same_store s (snd (chunk_consumed t st sid n e s))"
  by (simp add: chunk_consumed_def seqE_def mk_frame_def sendDataPlaneFrame_def call_onClose_def same_store_def
      split: sum.split option.split)

lemma accepted_callbacks: "recordDataPlaneInboundChunk st off n = Inr st' \<Longrightarrow> rs_onData st' = rs_onData st"
  by (auto simp: recordDataPlaneInboundChunk_def split: if_splits)

lemma send_outcome:
  "reset_reaches t sid reason err s \<Longrightarrow> \<exists>s'. sendStreamReset t sid reason err s = (Inr (), s') \<and> same_store s s'"
  "\<not> reset_reaches t sid reason err s \<Longrightarrow> \<exists>e s'. sendStreamReset t sid reason err s = (Inl e, s') \<and> same_store s s'"
proof -
  obtain frame s1 where sent: "sendStreamReset t sid reason err s = sendDataPlaneFrame t frame s1" "same_store s s1"
      "dp_trackers s1 = dp_trackers s"
    and frame: "frame = wire_frame ''stream_reset'' (''msg_'' @ dp_ulid s (dp_used s)) (dp_now s)
       [(''stream_id'', JStr sid), (''reason'', JStr reason), (''error'', error_json err)]"
    by (simp add: sendStreamReset_def seqE_def mk_frame_def same_store_def)
  show "reset_reaches t sid reason err s \<Longrightarrow> \<exists>s'. sendStreamReset t sid reason err s = (Inr (), s') \<and> same_store s s'"
    using sent by (simp add: reset_reaches_def frame sendDataPlaneFrame_def same_store_def)
  show "\<not> reset_reaches t sid reason err s \<Longrightarrow> \<exists>e s'. sendStreamReset t sid reason err s = (Inl e, s') \<and> same_store s s'"
    using sent
    by (cases "tk_sendFrame (dp_trackers s t) frame")
      (simp_all add: reset_reaches_def frame sendDataPlaneFrame_def same_store_def)
qed

lemma failed_stored:
  assumes "same_store s s2" and "tk_budId (dp_trackers s2 t) = tk_budId (dp_trackers s t)"
    and "err = simple_error ''STREAM_CONSUMER_FAILED'' (consumer_failure_message exn) False"
  shows "verdict_stored t sid (if reset_reaches t sid ''local_error'' err s2 then ResetRow ''local_error'' (Some err) else KeepRow) s
           (dp_store (snd (consumer_failed t st sid exn s2)))"
proof (cases "reset_reaches t sid ''local_error'' err s2")
  case True
  from send_outcome(1) [OF True] obtain s3
    where "sendStreamReset t sid ''local_error'' err s2 = (Inr (), s3)" "same_store s2 s3" by blast
  with True assms(3) show ?thesis
    using reset_recorded [OF same_store_trans [OF assms(1)] assms(2), of s3 sid "''local_error''" "Some err"]
    by (simp add: consumer_failed_def Let_def seqE_Inr)
next
  case False
  from send_outcome(2) [OF False] obtain e s3
    where "sendStreamReset t sid ''local_error'' err s2 = (Inl e, s3)" "same_store s2 s3" by blast
  with False assms(3) show ?thesis
    using kept_store [OF same_store_trans [OF assms(1)], of s3]
    by (simp add: consumer_failed_def Let_def seqE_Inl)
qed

lemma data_frame_stored:
  assumes "parseStreamDataFrame raw = Some f"
  shows "verdict_stored t (sd_stream_id f) (data_verdict t f s) s (dp_store (snd (handleStreamData t raw s)))"
proof (cases "getDataPlaneRuntimeStream t (sd_stream_id f) s")
  case None
  then show ?thesis
    by (simp add: handleStreamData_def assms data_verdict_def Let_def kept_store sent_same_store)
next
  case (Some st)
  let ?chunk = "b64_decode (sd_data f)"
  let ?info = "\<lparr>di_streamId = sd_stream_id f, di_streamType = sd_stream_type f, di_offset = sd_offset f,
                di_endStream = sd_end_stream f\<rparr>"
  show ?thesis
  proof (cases "rs_streamType st = sd_stream_type f \<and> int (length ?chunk) \<le> tk_maxChunkBytes (dp_trackers s t) \<and>
      (\<exists>st'. recordDataPlaneInboundChunk st (sd_offset f) (int (length ?chunk)) = Inr st')")
    case False
    then have "data_verdict t f s = KeepRow"
      using Some by (auto simp: data_verdict_def Let_def split: option.split sum.split)
    with False Some show ?thesis
      by (auto simp: handleStreamData_def assms Let_def kept_store sent_same_store split: sum.split)
  next
    case True
    then obtain st' where st': "recordDataPlaneInboundChunk st (sd_offset f) (int (length ?chunk)) = Inr st'" by blast
    define s1 where "s1 = upd_tracker t (\<lambda>tk. tk\<lparr>tk_framesReceived := tk_framesReceived tk + 1,
        tk_bytesReceived := tk_bytesReceived tk + int (length ?chunk)\<rparr>) (upd_stream t (sd_stream_id f) (\<lambda>_. st') s)"
    have s1: "same_store s s1" "dp_used s1 = dp_used s"
      "tk_budId (dp_trackers s1 t) = tk_budId (dp_trackers s t)"
      "isDataPlaneSessionConnected (dp_trackers s1 t) = isDataPlaneSessionConnected (dp_trackers s t)"
      "tk_sendFrame (dp_trackers s1 t) = tk_sendFrame (dp_trackers s t)"
      by (simp_all add: s1_def same_store_def upd_stream_def upd_tracker_def isDataPlaneSessionConnected_def)
    have run: "handleStreamData t raw s = (case call_onData t st' ?chunk ?info s1 of
        (Inl exn, s2) \<Rightarrow> consumer_failed t st' (sd_stream_id f) exn s2
      | (Inr _, s2) \<Rightarrow> chunk_consumed t st' (sd_stream_id f) (int (length ?chunk)) (sd_end_stream f) s2)"
      using True Some st' by (simp add: handleStreamData_def assms Let_def s1_def)
    show ?thesis
    proof (cases "map_option (\<lambda>g. cb_exn (g ?chunk ?info)) (rs_onData st)")
      case None
      then show ?thesis
        using Some accepted_callbacks [OF st'] kept_store [OF same_store_trans [OF s1(1) consumed_same_store]]
        by (simp add: run call_onData_def data_verdict_def Let_def)
    next
      case (Some answer)
      then obtain g where g: "rs_onData st = Some g" "cb_exn (g ?chunk ?info) = answer" by auto
      define s2 where "s2 = emit_ev (EvData t (sd_stream_id f) ?chunk (sd_offset f) (sd_end_stream f)) s1"
      have s2: "same_store s s2" "dp_used s2 = dp_used s" "dp_trackers s2 = dp_trackers s1"
        using s1 by (simp_all add: s2_def same_store_def)
      have called: "call_onData t st' ?chunk ?info s1 = (answer, s2)"
        using g accepted_callbacks [OF st'] by (simp add: call_onData_def s2_def)
      show ?thesis
      proof (cases answer)
        case (Inl exn)
        let ?err = "simple_error ''STREAM_CONSUMER_FAILED'' (consumer_failure_message exn) False"
        have "reset_reaches t (sd_stream_id f) ''local_error'' ?err s2 \<longleftrightarrow>
              reset_reaches t (sd_stream_id f) ''local_error'' ?err s"
          using s2 s1(4,5) by (simp add: reset_reaches_def same_store_def)
        then have "data_verdict t f s = (if reset_reaches t (sd_stream_id f) ''local_error'' ?err s2
            then ResetRow ''local_error'' (Some ?err) else KeepRow)"
          using True \<open>getDataPlaneRuntimeStream t (sd_stream_id f) s = Some st\<close> g Inl
          by (simp add: data_verdict_def Let_def)
        then show ?thesis
          using failed_stored [OF s2(1) _ refl, of t "sd_stream_id f" exn st'] s1(3) s2(3) called Inl
          by (simp add: run)
      next
        case (Inr u)
        then have "data_verdict t f s = KeepRow"
          using \<open>getDataPlaneRuntimeStream t (sd_stream_id f) s = Some st\<close> g by (simp add: data_verdict_def Let_def)
        then show ?thesis
          using kept_store [OF same_store_trans [OF s2(1) consumed_same_store]] called Inr by (simp add: run)
      qed
    qed
  qed
qed

text \<open>C20: what a stream frame does to the durable store is the verdict of the specification and
  nothing else.  A data frame keeps every row, except that an accepted chunk whose consumer throws
  resets the row of its stream once the reset frame is sent; a reset frame resets the row with the
  reason and error it carries, a close frame at the offset received (or for a stream not running
  here) closes it there, and at another offset resets it as a protocol error, unless the stream's
  own callback throws; other frames change nothing.  Only the rows of the stream that the frame
  names change, only from a live state, and a verdict leaves one audit entry that names the stream
  and the carrier's bud (none if its generated identifier is taken); devices, transports and
  operations stay as they are.\<close>

theorem frame_effect_on_store:
  "verdict_stored t (fst (frame_verdict t raw s)) (snd (frame_verdict t raw s)) s
     (dp_store (snd (dispatchDataPlaneStreamFrame t raw s)))"
proof (cases "Option.bind (as_record raw) (\<lambda>ob. as_string (obj_get ob ''type''))")
  case None
  then show ?thesis
    by (simp add: dispatchDataPlaneStreamFrame_def frame_verdict_def keep_stored)
next
  case (Some ty)
  have credit: "dp_store (snd (handleStreamCredit t raw s)) = dp_store s"
    by (simp add: handleStreamCredit_def Let_def split: option.split)
  have unparsed: "parseStreamDataFrame raw = None \<Longrightarrow> dp_store (snd (handleStreamData t raw s)) = dp_store s"
    "parseStreamReset raw = None \<Longrightarrow> dp_store (snd (handleStreamReset t raw s)) = dp_store s"
    "parseStreamClose raw = None \<Longrightarrow> dp_store (snd (handleStreamClose t raw s)) = dp_store s"
    by (simp_all add: handleStreamData_def handleStreamReset_def handleStreamClose_def)
  consider "ty = ''stream_data''" | "ty = ''stream_reset''" | "ty = ''stream_close''"
    | "ty \<notin> {''stream_data'', ''stream_reset'', ''stream_close''}" by blast
  then show ?thesis
  proof cases
    case 1
    with Some show ?thesis
      using data_frame_stored [of raw _ t s] unparsed(1)
      by (cases "parseStreamDataFrame raw") (simp_all add: dispatchDataPlaneStreamFrame_def frame_verdict_def keep_stored)
  next
    case 2
    with Some show ?thesis
      using reset_frame_stored [of raw _ t s] unparsed(2)
      by (cases "parseStreamReset raw") (simp_all add: dispatchDataPlaneStreamFrame_def frame_verdict_def keep_stored)
  next
    case 3
    with Some show ?thesis
      using close_frame_stored [of raw _ t s] unparsed(3)
      by (cases "parseStreamClose raw") (simp_all add: dispatchDataPlaneStreamFrame_def frame_verdict_def keep_stored)
  next
    case 4
    with Some show ?thesis
      using credit by (simp add: dispatchDataPlaneStreamFrame_def frame_verdict_def keep_stored)
  qed
qed

end
