(* ===== verification/FrameQueue.thy ===== *)
theory FrameQueue
  imports FlowProps "HOL-Library.Sublist"
begin

text \<open>
  The queues of \<open>service/src/transport/data-plane-router.ts\<close> that serialise the frames of a stream:
  \<open>handleDataPlaneStreamFrame\<close> and \<open>enqueueDataPlaneStreamFrame\<close>.  The theorems show that the chain of
  promises is a first-in first-out executor, so that the handlers of \<open>StreamFlow\<close> run one after another.
\<close>


section \<open>Promises and queues\<close>

text \<open>
  A task is the promise \<open>current\<close> of one call: \<open>previous.catch(() => undefined).then(handler)\<close>.  It waits
  for its predecessor, runs its handler, and settles; whether the handler threw makes no difference to
  its successor.  Tasks are numbered in the order of the calls.  \<open>fq_queues\<close> is the map of a carrier from
  a stream to its last promise.
\<close>

datatype task_status = TaskWaiting | TaskRunning | TaskSettled

record frame_task =
  ft_stream :: string
  ft_frame :: json
  ft_previous :: "nat option"
  ft_status :: task_status

record frame_queues =
  fq_tasks :: "frame_task list"
  fq_queues :: "(string \<times> nat) list"

definition new_queues :: frame_queues where
  "new_queues = \<lparr>fq_tasks = [], fq_queues = []\<rparr>"

definition isOrderedDataPlaneStreamFrameType :: "string option \<Rightarrow> bool" where
  "isOrderedDataPlaneStreamFrameType ty \<longleftrightarrow>
     ty = Some ''stream_data'' \<or> ty = Some ''stream_credit'' \<or> ty = Some ''stream_reset'' \<or> ty = Some ''stream_close''"

definition enqueueDataPlaneStreamFrame :: "string \<Rightarrow> json \<Rightarrow> frame_queues \<Rightarrow> nat \<times> frame_queues" where
  "enqueueDataPlaneStreamFrame streamId raw q =
     (let previous = map_of (fq_queues q) streamId; current = length (fq_tasks q)
      in (current,
          q\<lparr>fq_tasks := fq_tasks q @
               [\<lparr>ft_stream = streamId, ft_frame = raw, ft_previous = previous, ft_status = TaskWaiting\<rparr>],
            fq_queues := AList.update streamId current (fq_queues q)\<rparr>))"

text \<open>A frame that is not queued is dispatched at once (\<open>None\<close>).\<close>

definition handleDataPlaneStreamFrame :: "json \<Rightarrow> frame_queues \<Rightarrow> nat option \<times> frame_queues" where
  "handleDataPlaneStreamFrame raw q =
     (let ty = Option.bind (as_record raw) (\<lambda>ob. as_string (obj_get ob ''type''));
          streamId = Option.bind (as_record raw) (\<lambda>ob. as_string (obj_get ob ''stream_id''))
      in case streamId of
           None \<Rightarrow> (None, q)
         | Some sid \<Rightarrow>
             if isOrderedDataPlaneStreamFrameType ty \<and> sid \<noteq> [] then
               (case enqueueDataPlaneStreamFrame sid raw q of (i, q') \<Rightarrow> (Some i, q'))
             else (None, q))"

text \<open>The scheduling of the promise chain.\<close>

definition set_status :: "nat \<Rightarrow> task_status \<Rightarrow> frame_queues \<Rightarrow> frame_queues" where
  "set_status i st q = q\<lparr>fq_tasks := (fq_tasks q)[i := (fq_tasks q ! i)\<lparr>ft_status := st\<rparr>]\<rparr>"

definition task_ready :: "frame_queues \<Rightarrow> nat \<Rightarrow> bool" where
  "task_ready q i \<longleftrightarrow> i < length (fq_tasks q) \<and> ft_status (fq_tasks q ! i) = TaskWaiting \<and>
     (case ft_previous (fq_tasks q ! i) of None \<Rightarrow> True | Some p \<Rightarrow> ft_status (fq_tasks q ! p) = TaskSettled)"

text \<open>The \<open>finally\<close> block: only the last promise of a stream clears its entry.\<close>

definition dequeue_settled :: "nat \<Rightarrow> frame_queues \<Rightarrow> frame_queues" where
  "dequeue_settled i q =
     (let sid = ft_stream (fq_tasks q ! i)
      in if map_of (fq_queues q) sid = Some i then q\<lparr>fq_queues := AList.delete sid (fq_queues q)\<rparr> else q)"

text \<open>
  What can happen, in any order: a frame arrives, a task whose predecessor has settled starts, a handler
  returns or throws, and the awaiting call runs its \<open>finally\<close> block, possibly after other frames arrived.
\<close>

datatype queue_event = Enqueued string nat | Started string nat | Finished string nat bool | Cleaned string nat

abbreviation stream_of :: "frame_queues \<Rightarrow> nat \<Rightarrow> string" where
  "stream_of q i \<equiv> ft_stream (fq_tasks q ! i)"

inductive queue_step :: "frame_queues \<Rightarrow> queue_event \<Rightarrow> frame_queues \<Rightarrow> bool" where
  arrive: "handleDataPlaneStreamFrame raw q = (Some i, q') \<Longrightarrow> queue_step q (Enqueued (stream_of q' i) i) q'"
| start: "task_ready q i \<Longrightarrow> queue_step q (Started (stream_of q i) i) (set_status i TaskRunning q)"
| settle: "i < length (fq_tasks q) \<Longrightarrow> ft_status (fq_tasks q ! i) = TaskRunning \<Longrightarrow>
     queue_step q (Finished (stream_of q i) i ok) (set_status i TaskSettled q)"
| clean: "i < length (fq_tasks q) \<Longrightarrow> ft_status (fq_tasks q ! i) = TaskSettled \<Longrightarrow>
     queue_step q (Cleaned (stream_of q i) i) (dequeue_settled i q)"

section \<open>Invariant\<close>

definition unsettled :: "string \<Rightarrow> frame_queues \<Rightarrow> nat list" where
  "unsettled sid q = filter (\<lambda>i. ft_stream (fq_tasks q ! i) = sid \<and> ft_status (fq_tasks q ! i) \<noteq> TaskSettled)
     [0..<length (fq_tasks q)]"

definition tasks_of :: "string \<Rightarrow> frame_queues \<Rightarrow> nat set" where
  "tasks_of sid q = {i. i < length (fq_tasks q) \<and> ft_stream (fq_tasks q ! i) = sid}"

definition settled :: "frame_queues \<Rightarrow> nat \<Rightarrow> bool" where
  "settled q i \<longleftrightarrow> ft_status (fq_tasks q ! i) = TaskSettled"

definition earlier_settled :: "frame_queues \<Rightarrow> nat \<Rightarrow> bool" where
  "earlier_settled q j \<longleftrightarrow> (\<forall>i \<in> tasks_of (ft_stream (fq_tasks q ! j)) q. i < j \<longrightarrow> settled q i)"

definition chained :: "frame_queues \<Rightarrow> nat \<Rightarrow> bool" where
  "chained q j \<longleftrightarrow> (case ft_previous (fq_tasks q ! j) of
     None \<Rightarrow> earlier_settled q j
   | Some p \<Rightarrow> p < j \<and> p \<in> tasks_of (ft_stream (fq_tasks q ! j)) q \<and>
       (\<forall>i \<in> tasks_of (ft_stream (fq_tasks q ! j)) q. i < j \<longrightarrow> i \<le> p))"

definition tail_ok :: "frame_queues \<Rightarrow> string \<Rightarrow> bool" where
  "tail_ok q sid \<longleftrightarrow> (case map_of (fq_queues q) sid of
     None \<Rightarrow> (\<forall>i \<in> tasks_of sid q. settled q i)
   | Some m \<Rightarrow> m \<in> tasks_of sid q \<and> (\<forall>i \<in> tasks_of sid q. i \<le> m))"

definition queue_inv :: "frame_queues \<Rightarrow> bool" where
  "queue_inv q \<longleftrightarrow> (\<forall>sid. tail_ok q sid) \<and>
     (\<forall>j < length (fq_tasks q). chained q j \<and> (ft_status (fq_tasks q ! j) \<noteq> TaskWaiting \<longrightarrow> earlier_settled q j))"

lemma status_simps [simp]:
  "length (fq_tasks (set_status i st q)) = length (fq_tasks q)" "fq_queues (set_status i st q) = fq_queues q"
  "i < length (fq_tasks q) \<Longrightarrow> fq_tasks (set_status i st q) ! j = (if j = i then (fq_tasks q ! i)\<lparr>ft_status := st\<rparr> else fq_tasks q ! j)"
  by (simp_all add: set_status_def nth_list_update)

lemma tasks_of_status [simp]: "i < length (fq_tasks q) \<Longrightarrow> tasks_of sid (set_status i st q) = tasks_of sid q"
  by (auto simp: tasks_of_def split: if_splits)

lemma settled_status: "i < length (fq_tasks q) \<Longrightarrow> settled (set_status i st q) j \<longleftrightarrow> (if j = i then st = TaskSettled else settled q j)"
  by (simp add: settled_def)

text \<open>What was settled stays settled, and no task is inserted before another.\<close>

lemma earlier_mono:
  assumes "ft_stream (fq_tasks q' ! j) = ft_stream (fq_tasks q ! j)"
    and "\<And>i. i < j \<Longrightarrow> i \<in> tasks_of (ft_stream (fq_tasks q ! j)) q' \<longleftrightarrow> i \<in> tasks_of (ft_stream (fq_tasks q ! j)) q"
    and "\<And>i. i < j \<Longrightarrow> settled q i \<Longrightarrow> settled q' i" and "earlier_settled q j"
  shows "earlier_settled q' j"
  using assms unfolding earlier_settled_def by auto

lemma chained_mono:
  assumes "ft_stream (fq_tasks q' ! j) = ft_stream (fq_tasks q ! j)" and "ft_previous (fq_tasks q' ! j) = ft_previous (fq_tasks q ! j)"
    and "\<And>i. i < j \<Longrightarrow> i \<in> tasks_of (ft_stream (fq_tasks q ! j)) q' \<longleftrightarrow> i \<in> tasks_of (ft_stream (fq_tasks q ! j)) q"
    and "\<And>i. i < j \<Longrightarrow> settled q i \<Longrightarrow> settled q' i" and "chained q j"
  shows "chained q' j"
  using assms earlier_mono [OF assms(1,3,4)] by (auto simp: chained_def split: option.splits)

lemma ready_earlier:
  assumes "queue_inv q" and "task_ready q j"
  shows "earlier_settled q j"
proof (cases "ft_previous (fq_tasks q ! j)")
  case None
  with assms show ?thesis
    by (auto simp: queue_inv_def task_ready_def chained_def)
next
  case (Some p)
  then have p: "settled q p" "p < j"
      "p \<in> tasks_of (ft_stream (fq_tasks q ! j)) q" "\<forall>i \<in> tasks_of (ft_stream (fq_tasks q ! j)) q. i < j \<longrightarrow> i \<le> p"
    using assms by (auto simp: queue_inv_def task_ready_def chained_def settled_def)
  then have "earlier_settled q p"
    using assms(1) by (auto simp: queue_inv_def tasks_of_def settled_def)
  with p show ?thesis
    unfolding earlier_settled_def by (auto simp: tasks_of_def le_less)
qed

lemma status_inv:
  assumes "queue_inv q" and i: "i < length (fq_tasks q)"
    and "earlier_settled q i" and "settled q i \<Longrightarrow> st = TaskSettled"
  shows "queue_inv (set_status i st q)"
proof -
  have more: "settled q j \<Longrightarrow> settled (set_status i st q) j" for j
    using assms(4) i by (auto simp: settled_status)
  have tail: "tail_ok q sid" for sid
    using assms(1) by (simp add: queue_inv_def)
  have "tail_ok (set_status i st q) sid" for sid
    using tail [of sid] more i by (cases "map_of (fq_queues q) sid") (auto simp: tail_ok_def)
  moreover have "chained q j \<Longrightarrow> chained (set_status i st q) j" "earlier_settled q j \<Longrightarrow> earlier_settled (set_status i st q) j" for j
    using more i by (auto intro: chained_mono [of _ j q] earlier_mono [of _ j q])
  ultimately show ?thesis
    using assms by (simp add: queue_inv_def)
qed

lemma clean_inv:
  assumes "queue_inv q" and "i < length (fq_tasks q)" and "ft_status (fq_tasks q ! i) = TaskSettled"
  shows "queue_inv (dequeue_settled i q)"
proof (cases "map_of (fq_queues q) (ft_stream (fq_tasks q ! i)) = Some i")
  case True
  let ?sid = "ft_stream (fq_tasks q ! i)" and ?q = "dequeue_settled i q"
  have "tail_ok q ?sid" and "earlier_settled q i"
    using assms by (simp_all add: queue_inv_def)
  then have quiet: "\<forall>j \<in> tasks_of ?sid q. settled q j"
    using assms(3) True by (auto simp: tail_ok_def earlier_settled_def settled_def le_less)
  have q: "fq_tasks ?q = fq_tasks q" "map_of (fq_queues ?q) = (map_of (fq_queues q))(?sid := None)"
    using True by (simp_all add: dequeue_settled_def delete_conv')
  then have frame: "tasks_of s ?q = tasks_of s q" "settled ?q = settled q" for s
    by (simp_all add: tasks_of_def settled_def fun_eq_iff)
  have tail: "tail_ok q s" for s
    using assms(1) by (simp add: queue_inv_def)
  have "tail_ok ?q s" for s
    using tail [of s] quiet by (cases "map_of (fq_queues q) s") (simp_all add: tail_ok_def q frame)
  moreover have "earlier_settled ?q = earlier_settled q"
    by (simp add: earlier_settled_def fun_eq_iff q frame)
  moreover from this have "chained ?q = chained q"
    by (simp add: chained_def fun_eq_iff q frame cong: option.case_cong)
  ultimately show ?thesis
    using assms(1) by (simp add: queue_inv_def q)
next
  case False
  with assms(1) show ?thesis
    by (simp add: dequeue_settled_def)
qed

lemma enqueue_inv:
  assumes "queue_inv q" and "enqueueDataPlaneStreamFrame sid raw q = (i, q')"
  shows "queue_inv q'"
proof -
  let ?n = "length (fq_tasks q)"
  have q': "length (fq_tasks q') = Suc ?n" "map_of (fq_queues q') = (map_of (fq_queues q))(sid \<mapsto> ?n)"
    and old: "\<And>j. j < ?n \<Longrightarrow> fq_tasks q' ! j = fq_tasks q ! j"
    and new: "fq_tasks q' ! ?n = \<lparr>ft_stream = sid, ft_frame = raw, ft_previous = map_of (fq_queues q) sid, ft_status = TaskWaiting\<rparr>"
    using assms(2) by (auto simp: enqueueDataPlaneStreamFrame_def Let_def nth_append update_conv')
  have tasks: "tasks_of s q' = (if s = sid then insert ?n (tasks_of s q) else tasks_of s q)" for s
    using q' old new by (auto simp: tasks_of_def less_Suc_eq)
  have lt: "j \<in> tasks_of s q \<Longrightarrow> j < ?n" for j s
    by (simp add: tasks_of_def)
  have settled: "j < ?n \<Longrightarrow> settled q' j = settled q j" for j
    using old by (simp add: settled_def)
  have tail: "tail_ok q s" for s
    using assms(1) by (simp add: queue_inv_def)
  have "tail_ok q' s" for s
    using tail [of s] settled lt [of _ s] by (auto simp: tail_ok_def q' tasks less_imp_le split: option.splits)
  moreover have "(chained q j \<longrightarrow> chained q' j) \<and> (earlier_settled q j \<longrightarrow> earlier_settled q' j)" if "j < ?n" for j
    using that settled chained_mono [of q' j q] earlier_mono [of q' j q] by (simp add: tasks old)
  moreover have "chained q' ?n"
    using tail [of sid] settled lt [of _ sid]
    by (auto simp: chained_def new tail_ok_def earlier_settled_def tasks split: option.splits)
  ultimately show ?thesis
    using assms(1) by (auto simp: queue_inv_def q' less_Suc_eq old new)
qed

lemma queue_step_inv: "queue_step q e q' \<Longrightarrow> queue_inv q \<Longrightarrow> queue_inv q'"
proof (induction rule: queue_step.induct)
  case (arrive raw q i q')
  then show ?case
    by (auto simp: handleDataPlaneStreamFrame_def Let_def split: option.splits if_splits prod.splits intro: enqueue_inv)
next
  case (start q i)
  then show ?case
    using ready_earlier [OF start.prems start.hyps]
    by (intro status_inv) (simp_all add: task_ready_def settled_def)
next
  case (settle i q ok)
  then show ?case
    by (intro status_inv) (simp_all add: queue_inv_def)
qed (rule clean_inv)

lemma new_queues_inv: "queue_inv new_queues"
  by (simp add: queue_inv_def new_queues_def tail_ok_def tasks_of_def)

section \<open>Runs\<close>

inductive trace_run :: "('q \<Rightarrow> 'e \<Rightarrow> 'q \<Rightarrow> bool) \<Rightarrow> 'q \<Rightarrow> 'e list \<Rightarrow> 'q \<Rightarrow> bool" for step where
  none: "trace_run step q [] q"
| more: "trace_run step q es q' \<Longrightarrow> step q' e q'' \<Longrightarrow> trace_run step q (es @ [e]) q''"

text \<open>What a serial executor promises: tasks end in the order of arrival, one at a time.\<close>

locale fifo_executor =
  fixes step :: "'q \<Rightarrow> 'e \<Rightarrow> 'q \<Rightarrow> bool" and inv :: "'q \<Rightarrow> bool"
    and pending :: "'q \<Rightarrow> 'i list" and running :: "'q \<Rightarrow> 'i list"
    and arrivals :: "'e \<Rightarrow> 'i list" and starts :: "'e \<Rightarrow> 'i list" and ends :: "'e \<Rightarrow> 'i list"
  assumes inv_step: "step q e q' \<Longrightarrow> inv q \<Longrightarrow> inv q'"
    and fifo: "step q e q' \<Longrightarrow> inv q \<Longrightarrow> ends e @ pending q' = pending q @ arrivals e"
    and serial: "step q e q' \<Longrightarrow> inv q \<Longrightarrow> ends e @ running q' = running q @ starts e"
    and head_only: "inv q \<Longrightarrow> running q = [] \<or> (\<exists>x rest. running q = [x] \<and> pending q = x # rest)"
begin

lemma run_inv: "trace_run step q es q' \<Longrightarrow> inv q \<Longrightarrow> inv q'"
  by (induction rule: trace_run.induct) (auto intro: inv_step)

lemma run_books:
  assumes "trace_run step q es q'" and "inv q"
  shows "pending q @ concat (map arrivals es) = concat (map ends es) @ pending q'"
    "running q @ concat (map starts es) = concat (map ends es) @ running q'"
proof -
  have "pending q @ concat (map arrivals es) = concat (map ends es) @ pending q' \<and>
    running q @ concat (map starts es) = concat (map ends es) @ running q'"
    using assms
  proof (induction rule: trace_run.induct)
    case (more q es q' e q'')
    then have "inv q'"
      using run_inv by blast
    with fifo [OF more.hyps(2)] serial [OF more.hyps(2)] more.IH [OF more.prems] show ?case
      by (metis (no_types, lifting) append.assoc concat_append concat.simps map_append list.map append_Nil2)
  qed simp
  then show "pending q @ concat (map arrivals es) = concat (map ends es) @ pending q'"
    "running q @ concat (map starts es) = concat (map ends es) @ running q'" by blast+
qed

lemma started_in_order:
  assumes "trace_run step q es q'" and "inv q" and "pending q = []"
  shows "prefix (concat (map starts es)) (concat (map arrivals es))"
proof -
  have "running q = []"
    using head_only [OF assms(2)] assms(3) by auto
  with run_books [OF assms(1,2)] assms(3) have
    b: "concat (map arrivals es) = concat (map ends es) @ pending q'" "concat (map starts es) = concat (map ends es) @ running q'"
    by simp_all
  from head_only [OF run_inv [OF assms(1,2)]] have "prefix (running q') (pending q')"
    by auto
  then show ?thesis
    unfolding b by simp
qed

end

section \<open>The promise chain is a serial executor\<close>

definition running_tasks :: "string \<Rightarrow> frame_queues \<Rightarrow> nat list" where
  "running_tasks sid q = filter (\<lambda>i. ft_status (fq_tasks q ! i) = TaskRunning) (unsettled sid q)"

fun enqueued_on :: "string \<Rightarrow> queue_event \<Rightarrow> nat list" where
  "enqueued_on sid (Enqueued s i) = (if s = sid then [i] else [])"
| "enqueued_on sid _ = []"

fun started_on :: "string \<Rightarrow> queue_event \<Rightarrow> nat list" where
  "started_on sid (Started s i) = (if s = sid then [i] else [])"
| "started_on sid _ = []"

fun finished_on :: "string \<Rightarrow> queue_event \<Rightarrow> nat list" where
  "finished_on sid (Finished s i _) = (if s = sid then [i] else [])"
| "finished_on sid _ = []"

lemma unsettled_head:
  assumes "earlier_settled q i" and "i < length (fq_tasks q)" and "\<not> settled q i"
  shows "unsettled (stream_of q i) q = i # filter (\<lambda>j. stream_of q j = stream_of q i \<and> \<not> settled q j) [Suc i..<length (fq_tasks q)]"
proof -
  let ?P = "\<lambda>j. stream_of q j = stream_of q i \<and> \<not> settled q j"
  have "[0..<length (fq_tasks q)] = [0..<i] @ i # [Suc i..<length (fq_tasks q)]"
    using assms(2) by (metis le0 less_imp_le_nat upt_add_eq_append upt_conv_Cons le_add_diff_inverse)
  moreover have "filter ?P [0..<i] = []"
    using assms(1,2) by (auto simp: filter_empty_conv earlier_settled_def tasks_of_def)
  ultimately show ?thesis
    using assms(3) by (simp add: unsettled_def flip: settled_def)
qed

lemma unsettled_status:
  assumes "i < length (fq_tasks q)"
  shows "unsettled sid (set_status i st q) =
    filter (\<lambda>j. stream_of q j = sid \<and> (if j = i then st \<noteq> TaskSettled else \<not> settled q j)) [0..<length (fq_tasks q)]"
  using assms by (auto simp: unsettled_def settled_def intro!: filter_cong)

lemma unsettled_alt: "unsettled sid q = filter (\<lambda>j. stream_of q j = sid \<and> \<not> settled q j) [0..<length (fq_tasks q)]"
  by (simp add: unsettled_def settled_def)

lemma running_head:
  assumes "queue_inv q" and "i < length (fq_tasks q)" and "ft_status (fq_tasks q ! i) = TaskRunning"
  shows "running_tasks (stream_of q i) q = [i] \<and> (\<exists>rest. unsettled (stream_of q i) q = i # rest)"
proof -
  have "earlier_settled q i" "\<not> settled q i"
    using assms by (simp_all add: queue_inv_def settled_def)
  note un = unsettled_head [OF this(1) assms(2) this(2)]
  have "ft_status (fq_tasks q ! j) \<noteq> TaskRunning" if "j \<in> set [Suc i..<length (fq_tasks q)]" "stream_of q j = stream_of q i" for j
  proof
    assume "ft_status (fq_tasks q ! j) = TaskRunning"
    with assms(1) that have "earlier_settled q j"
      by (simp add: queue_inv_def)
    with that assms(2,3) show False
      by (auto simp: earlier_settled_def tasks_of_def settled_def)
  qed
  then show ?thesis
    using assms(3) by (simp add: running_tasks_def un filter_empty_conv)
qed

lemma running_none:
  "running_tasks sid q = [] \<or> (\<exists>i. i < length (fq_tasks q) \<and> stream_of q i = sid \<and> ft_status (fq_tasks q ! i) = TaskRunning)"
  by (auto simp: running_tasks_def unsettled_def filter_empty_conv)

lemma enqueue_lists:
  assumes "handleDataPlaneStreamFrame raw q = (Some i, q')"
  shows "unsettled sid q' = unsettled sid q @ enqueued_on sid (Enqueued (stream_of q' i) i)" "running_tasks sid q' = running_tasks sid q"
proof -
  have i: "i = length (fq_tasks q)" and q': "\<exists>task. fq_tasks q' = fq_tasks q @ [task] \<and> ft_status task = TaskWaiting"
    using assms by (auto simp: handleDataPlaneStreamFrame_def enqueueDataPlaneStreamFrame_def Let_def split: option.splits if_splits)
  then obtain task where t: "fq_tasks q' = fq_tasks q @ [task]" "ft_status task = TaskWaiting" by blast
  have "filter (\<lambda>j. stream_of q' j = sid \<and> ft_status (fq_tasks q' ! j) \<noteq> TaskSettled) [0..<length (fq_tasks q)] = unsettled sid q"
    unfolding unsettled_def by (rule filter_cong) (simp_all add: t nth_append)
  then show un: "unsettled sid q' = unsettled sid q @ enqueued_on sid (Enqueued (stream_of q' i) i)"
    by (simp add: unsettled_def t i)
  have "filter (\<lambda>j. ft_status (fq_tasks q' ! j) = TaskRunning) (unsettled sid q) = running_tasks sid q"
    unfolding running_tasks_def by (rule filter_cong) (auto simp: unsettled_def t nth_append)
  then show "running_tasks sid q' = running_tasks sid q"
    unfolding running_tasks_def un by (simp add: t i)
qed

lemma start_lists:
  assumes "queue_inv q" and "task_ready q i"
  shows "unsettled sid (set_status i TaskRunning q) = unsettled sid q"
    "running_tasks sid (set_status i TaskRunning q) = running_tasks sid q @ started_on sid (Started (stream_of q i) i)"
proof -
  have i: "i < length (fq_tasks q)" "ft_status (fq_tasks q ! i) = TaskWaiting" "\<not> settled q i"
    using assms(2) by (simp_all add: task_ready_def settled_def)
  show un: "unsettled sid (set_status i TaskRunning q) = unsettled sid q" for sid
    unfolding unsettled_status [OF i(1)] unsettled_alt [of sid q] by (rule filter_cong) (use i in auto)
  show "running_tasks sid (set_status i TaskRunning q) = running_tasks sid q @ started_on sid (Started (stream_of q i) i)"
  proof (cases "sid = stream_of q i")
    case True
    have "running_tasks sid q = []"
    proof (rule ccontr)
      assume "running_tasks sid q \<noteq> []"
      then obtain j where j: "j < length (fq_tasks q)" "stream_of q j = sid" "ft_status (fq_tasks q ! j) = TaskRunning"
        using running_none [of sid q] by blast
      obtain r where "unsettled sid q = j # r"
        using running_head [OF assms(1) j(1,3)] unfolding j(2) by blast
      moreover obtain r' where "unsettled sid q = i # r'"
        using unsettled_head [OF ready_earlier [OF assms] i(1,3)] unfolding True by blast
      ultimately have "j = i"
        by simp
      with i j show False by simp
    qed
    moreover have "running_tasks sid (set_status i TaskRunning q) = [i]"
      using running_head [OF queue_step_inv [OF queue_step.start [OF assms(2)] assms(1)], of i] i True by simp
    ultimately show ?thesis
      using True by simp
  next
    case False
    then show ?thesis
      unfolding running_tasks_def un using i by (auto simp: unsettled_def intro!: filter_cong)
  qed
qed

lemma settle_lists:
  assumes "queue_inv q" and "i < length (fq_tasks q)" and "ft_status (fq_tasks q ! i) = TaskRunning"
  shows "unsettled sid q = finished_on sid (Finished (stream_of q i) i ok) @ unsettled sid (set_status i TaskSettled q)"
    "running_tasks sid q = finished_on sid (Finished (stream_of q i) i ok) @ running_tasks sid (set_status i TaskSettled q)"
proof -
  have early: "earlier_settled q i" "\<not> settled q i"
    using assms by (simp_all add: queue_inv_def settled_def)
  note head = unsettled_head [OF early(1) assms(2) early(2)]
  have gone: "unsettled sid (set_status i TaskSettled q) = filter (\<lambda>j. j \<noteq> i) (unsettled sid q)" for sid
    unfolding unsettled_status [OF assms(2)] unsettled_alt [of sid q] filter_filter by (rule filter_cong) auto
  have other: "unsettled sid (set_status i TaskSettled q) = unsettled sid q" if "sid \<noteq> stream_of q i" for sid
    using that unfolding gone by (intro filter_True) (auto simp: unsettled_def)
  have runs: "running_tasks sid (set_status i TaskSettled q) = filter (\<lambda>j. j \<noteq> i) (running_tasks sid q)" for sid
    unfolding running_tasks_def gone filter_filter using assms(2) by (intro filter_cong) auto
  show "unsettled sid q = finished_on sid (Finished (stream_of q i) i ok) @ unsettled sid (set_status i TaskSettled q)"
  proof (cases "sid = stream_of q i")
    case True
    then show ?thesis
      by (simp add: gone head) (auto intro!: filter_cong)
  qed (simp add: other)
  show "running_tasks sid q = finished_on sid (Finished (stream_of q i) i ok) @ running_tasks sid (set_status i TaskSettled q)"
  proof (cases "sid = stream_of q i")
    case True
    with running_head [OF assms] show ?thesis
      by (simp add: runs)
  next
    case False
    then have "filter (\<lambda>j. j \<noteq> i) (running_tasks sid q) = running_tasks sid q"
      by (intro filter_True) (auto simp: running_tasks_def unsettled_def)
    with False show ?thesis
      by (simp add: runs)
  qed
qed

lemma clean_lists:
  "unsettled sid (dequeue_settled i q) = unsettled sid q" "running_tasks sid (dequeue_settled i q) = running_tasks sid q"
  by (simp_all add: dequeue_settled_def unsettled_def running_tasks_def Let_def)

interpretation stream_frames: fifo_executor queue_step queue_inv "unsettled sid" "running_tasks sid"
  "enqueued_on sid" "started_on sid" "finished_on sid" for sid
proof
  fix q e q'
  assume step: "queue_step q e q'" and inv: "queue_inv q"
  then show "queue_inv q'"
    by (rule queue_step_inv)
  from step show "finished_on sid e @ unsettled sid q' = unsettled sid q @ enqueued_on sid e"
    proof cases
    case (settle i ok)
    with settle_lists(1) [OF inv, of i sid ok] show ?thesis by simp
  qed (use inv in \<open>simp_all add: enqueue_lists start_lists clean_lists\<close>)
  from step show "finished_on sid e @ running_tasks sid q' = running_tasks sid q @ started_on sid e"
    proof cases
    case (settle i ok)
    with settle_lists(2) [OF inv, of i sid ok] show ?thesis by simp
  qed (use inv in \<open>simp_all add: enqueue_lists start_lists clean_lists\<close>)
next
  fix q
  assume "queue_inv q"
  then show "running_tasks sid q = [] \<or> (\<exists>x rest. running_tasks sid q = [x] \<and> unsettled sid q = x # rest)"
    using running_none [of sid q] running_head [of q] by metis
qed

lemma head_can_go:
  assumes "queue_inv q" and "unsettled sid q = i # rest"
  shows "ft_status (fq_tasks q ! i) = TaskRunning \<or> task_ready q i"
proof -
  have i: "i < length (fq_tasks q)" "stream_of q i = sid" "\<not> settled q i"
    using arg_cong [OF assms(2), of "\<lambda>xs. i \<in> set xs"] by (auto simp: unsettled_def settled_def)
  have first: "settled q j" if "j \<in> tasks_of sid q" "j < i" for j
  proof (rule ccontr)
    assume "\<not> settled q j"
    with that have "j \<in> set (unsettled sid q)"
      by (auto simp: tasks_of_def unsettled_def settled_def)
    moreover have "sorted (unsettled sid q)"
      unfolding unsettled_def by (rule sorted_wrt_filter) simp
    ultimately show False
      using assms(2) that(2) by auto
  qed
  have "chained q i"
    using assms(1) i by (simp add: queue_inv_def)
  then have "case ft_previous (fq_tasks q ! i) of None \<Rightarrow> True | Some p \<Rightarrow> settled q p"
    using first i by (auto simp: chained_def split: option.splits)
  with i show ?thesis
    by (cases "ft_status (fq_tasks q ! i)") (auto simp: task_ready_def settled_def split: option.splits)
qed

text \<open>C21: the frames of a stream are handled one at a time and in the order of their arrival, whatever
  the interleaving with other streams and whichever handlers throw, and the first frame that is not
  done is being handled or can be handled next: the queue never gets stuck.\<close>

theorem frames_handled_in_order:
  assumes "trace_run queue_step new_queues es q"
  shows "concat (map (enqueued_on sid) es) = concat (map (finished_on sid) es) @ unsettled sid q \<and>
    prefix (concat (map (started_on sid) es)) (concat (map (enqueued_on sid) es)) \<and>
    length (concat (map (started_on sid) es)) \<le> Suc (length (concat (map (finished_on sid) es))) \<and>
    (unsettled sid q = [] \<or> ft_status (fq_tasks q ! hd (unsettled sid q)) = TaskRunning \<or> task_ready q (hd (unsettled sid q)))"
proof -
  have none: "unsettled sid new_queues = []" "running_tasks sid new_queues = []"
    by (simp_all add: unsettled_def running_tasks_def new_queues_def)
  have inv: "queue_inv q"
    using assms new_queues_inv by (rule stream_frames.run_inv)
  note books = stream_frames.run_books [OF assms new_queues_inv, of sid, unfolded none append_Nil]
  have "length (running_tasks sid q) \<le> 1"
    using stream_frames.head_only [OF inv, of sid] by auto
  then show ?thesis
    using books stream_frames.started_in_order [OF assms new_queues_inv none(1)] head_can_go [OF inv, of sid]
    by (cases "unsettled sid q") (simp_all del: append_Cons)
qed

theorem frames_handled_in_order_witness:
  "\<exists>q. trace_run queue_step new_queues [Enqueued ''st_1'' 0, Started ''st_1'' 0] q \<and> unsettled ''st_1'' q = [0]"
proof -
  define q where "q = snd (handleDataPlaneStreamFrame demo_data_frame new_queues)"
  have q: "handleDataPlaneStreamFrame demo_data_frame new_queues = (Some 0, q)" "stream_of q 0 = ''st_1''" "task_ready q 0"
    by (simp_all add: q_def handleDataPlaneStreamFrame_def demo_data_frame_def stream_data_fields_def js_simps
      isOrderedDataPlaneStreamFrameType_def enqueueDataPlaneStreamFrame_def new_queues_def task_ready_def)
  have first: "trace_run queue_step new_queues ([] @ [Enqueued ''st_1'' 0]) q"
    using trace_run.more [where step = queue_step, OF trace_run.none queue_step.arrive [OF q(1)]] q(2) by simp
  have run: "trace_run queue_step new_queues [Enqueued ''st_1'' 0, Started ''st_1'' 0] (set_status 0 TaskRunning q)"
    using trace_run.more [OF first queue_step.start [OF q(3)]] q(2) by simp
  then show ?thesis
    using frames_handled_in_order [OF run, of "''st_1''"] by auto
qed

text \<open>The frames that bypass the queue change nothing, with one exception: frames of a stream with
  the empty identifier.\<close>

theorem unqueued_frames_harmless:
  assumes "handleDataPlaneStreamFrame raw q = (None, q')"
  shows "q' = q \<and> (dispatchDataPlaneStreamFrame t raw s = (Inr (), s) \<or>
    (\<exists>ob. raw = JObj ob \<and> obj_get ob ''stream_id'' = JStr []))"
proof (cases "as_record raw")
  case None
  with assms show ?thesis
    by (auto simp: handleDataPlaneStreamFrame_def dispatchDataPlaneStreamFrame_def Let_def)
next
  case (Some ob)
  then have raw: "raw = JObj ob"
    by (cases raw) simp_all
  show ?thesis
  proof (cases "as_string (obj_get ob ''stream_id'')")
    case None
    with assms raw show ?thesis
      by (auto simp: handleDataPlaneStreamFrame_def dispatchDataPlaneStreamFrame_def Let_def handleStreamData_def handleStreamCredit_def
       handleStreamReset_def handleStreamClose_def parseStreamDataFrame_def parseStreamCredit_def parseStreamReset_def parseStreamClose_def split: option.splits)
  next
    case (Some sid)
    then have "obj_get ob ''stream_id'' = JStr sid"
      by (cases "obj_get ob ''stream_id''") simp_all
    with assms raw show ?thesis
      by (auto simp: handleDataPlaneStreamFrame_def dispatchDataPlaneStreamFrame_def Let_def isOrderedDataPlaneStreamFrameType_def split: option.splits if_splits prod.splits)
  qed
qed

theorem unqueued_frames_harmless_witness:
  "dispatchDataPlaneStreamFrame 0 (JObj [(''type'', JStr ''hello''), (''stream_id'', JStr ''st_1'')]) demo_dp = (Inr (), demo_dp)"
proof -
  have "handleDataPlaneStreamFrame (JObj [(''type'', JStr ''hello''), (''stream_id'', JStr ''st_1'')]) new_queues = (None, new_queues)"
    by (simp add: handleDataPlaneStreamFrame_def isOrderedDataPlaneStreamFrameType_def js_simps)
  then show ?thesis
    using unqueued_frames_harmless [of _ new_queues new_queues 0 demo_dp] by (force simp: js_simps)
qed

end
