(* ===== verification/EventBus.thy ===== *)
theory EventBus
  imports Prelude
begin

text \<open>
  The server-sent-event bus, \<open>service/src/runtime/event-bus.ts\<close>: one replay buffer and one set
  of listeners per channel.  A listener is a reference; whether a call of it throws is read from
  \<open>eb_throws\<close>, and every call is recorded in \<open>eb_calls\<close> with its channel.  Listeners do
  not call back into the bus.  The payload of a call is the event itself (the server-sent-event
  writer that \<open>attach\<close> wraps prints its data with \<open>JSON.stringify\<close>).
\<close>

section \<open>Channels, buffers and listeners\<close>

record sse_event =
  ev_event :: string
  ev_data :: js_object
  ev_id :: "string option"

record sse_bus =
  eb_listeners :: "(string \<times> nat list) list"
  eb_buffers :: "(string \<times> sse_event list) list"
  eb_bufferLimit :: nat
  eb_calls :: "(string \<times> nat \<times> sse_event) list"
  eb_throws :: "nat \<Rightarrow> sse_event \<Rightarrow> bool"

definition new_bus :: "nat \<Rightarrow> (nat \<Rightarrow> sse_event \<Rightarrow> bool) \<Rightarrow> sse_bus" where
  "new_bus limit throws =
     \<lparr>eb_listeners = [], eb_buffers = [], eb_bufferLimit = limit, eb_calls = [], eb_throws = throws\<rparr>"

definition entries_of :: "(string \<times> 'a list) list \<Rightarrow> string \<Rightarrow> 'a list" where
  "entries_of m k = (case map_of m k of None \<Rightarrow> [] | Some xs \<Rightarrow> xs)"

abbreviation bus_buffer :: "sse_bus \<Rightarrow> string \<Rightarrow> sse_event list" where
  "bus_buffer s \<equiv> entries_of (eb_buffers s)"

abbreviation bus_listeners :: "sse_bus \<Rightarrow> string \<Rightarrow> nat list" where
  "bus_listeners s \<equiv> entries_of (eb_listeners s)"

text \<open>\<open>buffer.push(event)\<close> followed by at most one \<open>shift\<close>.\<close>

definition bus_push :: "nat \<Rightarrow> sse_event list \<Rightarrow> sse_event \<Rightarrow> sse_event list" where
  "bus_push limit b e = (let b' = b @ [e] in if length b' > limit then tl b' else b')"

text \<open>Calls that may throw: the loop of \<open>emit\<close> goes on after a throw.\<close>

definition call_all :: "string \<Rightarrow> nat list \<Rightarrow> sse_event \<Rightarrow> sse_bus \<Rightarrow> sse_bus" where
  "call_all ch ls e s = s\<lparr>eb_calls := eb_calls s @ map (\<lambda>l. (ch, l, e)) ls\<rparr>"

definition bus_emit :: "string \<Rightarrow> sse_event \<Rightarrow> bool option \<Rightarrow> sse_bus \<Rightarrow> sse_bus" where
  "bus_emit ch e buffer s =
     (let s1 = (if buffer \<noteq> Some False
                then s\<lparr>eb_buffers := AList.update ch
                         (bus_push (eb_bufferLimit s) (bus_buffer s ch) e) (eb_buffers s)\<rparr>
                else s)
      in case map_of (eb_listeners s1) ch of
           None \<Rightarrow> s1
         | Some ls \<Rightarrow> call_all ch ls e s1)"

definition clearBuffer :: "string \<Rightarrow> sse_bus \<Rightarrow> sse_bus" where
  "clearBuffer ch s = s\<lparr>eb_buffers := AList.delete ch (eb_buffers s)\<rparr>"

record replay_state =
  rp_buffer :: "sse_event list"
  rp_replay :: "sse_event list"
  rp_resumeFound :: "bool option"

definition getReplayBuffer :: "string \<Rightarrow> string option \<Rightarrow> sse_bus \<Rightarrow> replay_state" where
  "getReplayBuffer ch lastEventId s =
     (let buffer = bus_buffer s ch in
      case lastEventId of
        None \<Rightarrow> \<lparr>rp_buffer = buffer, rp_replay = buffer, rp_resumeFound = None\<rparr>
      | Some i \<Rightarrow>
          if i = [] then \<lparr>rp_buffer = buffer, rp_replay = buffer, rp_resumeFound = None\<rparr>
          else case find_index (\<lambda>e. ev_id e = Some i) buffer of
                 None \<Rightarrow> \<lparr>rp_buffer = buffer, rp_replay = [], rp_resumeFound = Some False\<rparr>
               | Some n \<Rightarrow> \<lparr>rp_buffer = buffer, rp_replay = drop (n + 1) buffer,
                            rp_resumeFound = Some True\<rparr>)"

text \<open>\<open>Set.add\<close> keeps insertion order.\<close>

definition set_add :: "'a \<Rightarrow> 'a list \<Rightarrow> 'a list" where
  "set_add x xs = (if x \<in> set xs then xs else xs @ [x])"

definition add_listener :: "string \<Rightarrow> nat \<Rightarrow> sse_bus \<Rightarrow> sse_bus" where
  "add_listener ch l s =
     s\<lparr>eb_listeners := AList.update ch (set_add l (bus_listeners s ch)) (eb_listeners s)\<rparr>"

text \<open>Calls outside of a \<open>try\<close>: the first throw stops the loop and propagates.\<close>

fun call_until_throw :: "string \<Rightarrow> nat \<Rightarrow> sse_event list \<Rightarrow> sse_bus \<Rightarrow> unit result \<times> sse_bus" where
  "call_until_throw ch l [] s = (Inr (), s)"
| "call_until_throw ch l (e # es) s =
     (let s1 = s\<lparr>eb_calls := eb_calls s @ [(ch, l, e)]\<rparr>
      in if eb_throws s l e then (Inl NonErrorThrown, s1) else call_until_throw ch l es s1)"

definition heartbeat_event :: "int \<Rightarrow> bool \<Rightarrow> sse_event" where
  "heartbeat_event now isInitial =
     \<lparr>ev_event = ''heartbeat'',
      ev_data = (''ts'', JInt now) # (if isInitial then [(''initial'', JBool True)] else []),
      ev_id = None\<rparr>"

text \<open>\<open>l\<close> is the closure that \<open>attach\<close> creates; its \<open>detach\<close> is \<open>bus_detach ch l\<close>.\<close>

definition bus_attach :: "string \<Rightarrow> nat \<Rightarrow> string option \<Rightarrow> int \<Rightarrow> sse_bus \<Rightarrow> unit result \<times> sse_bus" where
  "bus_attach ch l lastEventId now s =
     (let s1 = add_listener ch l s;
          st = getReplayBuffer ch lastEventId s1
      in if rp_replay st = []
         then call_until_throw ch l [heartbeat_event now (rp_buffer st = [])] s1
         else call_until_throw ch l (rp_replay st) s1)"

definition bus_attachCallback ::
    "string \<Rightarrow> nat \<Rightarrow> string option \<Rightarrow> bool option \<Rightarrow> sse_bus \<Rightarrow> unit result \<times> sse_bus" where
  "bus_attachCallback ch l lastEventId replay s =
     (let s1 = add_listener ch l s
      in if replay \<noteq> Some False
         then call_until_throw ch l (rp_replay (getReplayBuffer ch lastEventId s1)) s1
         else (Inr (), s1))"

definition bus_detach :: "string \<Rightarrow> nat \<Rightarrow> sse_bus \<Rightarrow> sse_bus" where
  "bus_detach ch l s =
     (case map_of (eb_listeners s) ch of
        None \<Rightarrow> s
      | Some ls \<Rightarrow>
          (let ls' = removeAll l ls
           in s\<lparr>eb_listeners := (if ls' = [] then AList.delete ch (eb_listeners s)
                                 else AList.update ch ls' (eb_listeners s))\<rparr>))"

section \<open>Runs of the bus\<close>

datatype bus_op =
    Emit string sse_event "bool option"
  | Clear string
  | Attach string nat "string option" int
  | AttachCallback string nat "string option" "bool option"
  | Detach string nat

fun bus_exec :: "bus_op \<Rightarrow> sse_bus \<Rightarrow> sse_bus" where
  "bus_exec (Emit ch e b) s = bus_emit ch e b s"
| "bus_exec (Clear ch) s = clearBuffer ch s"
| "bus_exec (Attach ch l i now) s = snd (bus_attach ch l i now s)"
| "bus_exec (AttachCallback ch l i r) s = snd (bus_attachCallback ch l i r s)"
| "bus_exec (Detach ch l) s = bus_detach ch l s"

definition bus_run :: "bus_op list \<Rightarrow> sse_bus \<Rightarrow> sse_bus" where
  "bus_run ops s = fold bus_exec ops s"

text \<open>What a run publishes on a channel: every event, and the buffered ones since the last clear.\<close>

definition emitted :: "string \<Rightarrow> bus_op list \<Rightarrow> sse_event list" where
  "emitted ch ops =
     List.map_filter (\<lambda>x. case x of Emit c e b \<Rightarrow> if c = ch then Some e else None | _ \<Rightarrow> None) ops"

fun publish :: "string \<Rightarrow> sse_event list \<Rightarrow> bus_op \<Rightarrow> sse_event list" where
  "publish ch h (Emit c e b) = (if c = ch \<and> b \<noteq> Some False then h @ [e] else h)"
| "publish ch h (Clear c) = (if c = ch then [] else h)"
| "publish ch h _ = h"

definition published :: "string \<Rightarrow> bus_op list \<Rightarrow> sse_event list" where
  "published ch ops = foldl (publish ch) [] ops"

section \<open>The buffer as a replay log\<close>

lemma bus_push_suffix: "suffix (bus_push n b e) (b @ [e])"
  by (cases b) (auto simp: bus_push_def suffix_def Let_def)

interpretation bus_log: replay_log ev_id "bus_push n" for n
  by unfold_locales (rule bus_push_suffix)

text \<open>The buffer holds exactly the most recent entries.\<close>

lemma bus_push_recent:
  "bus_push n (drop (length h - n) h) e = drop (length (h @ [e]) - n) (h @ [e])"
proof -
  have "drop (length h - n) h @ [e] = drop (length h - n) (h @ [e])"
    by simp
  then show ?thesis
    unfolding bus_push_def Let_def
    by (simp only: tl_drop drop_Suc [symmetric]) (auto simp: Suc_diff_le not_less)
qed

lemma entries_of_update [simp]:
  "entries_of (AList.update k v m) k' = (if k' = k then v else entries_of m k')"
  by (simp add: entries_of_def update_conv')

lemma entries_of_delete [simp]:
  "entries_of (AList.delete k m) k' = (if k' = k then [] else entries_of m k')"
  by (simp add: entries_of_def delete_conv')

lemma call_until_throw_keeps:
  "eb_buffers (snd (call_until_throw ch l es s)) = eb_buffers s"
  "eb_listeners (snd (call_until_throw ch l es s)) = eb_listeners s"
  "eb_bufferLimit (snd (call_until_throw ch l es s)) = eb_bufferLimit s"
  "eb_throws (snd (call_until_throw ch l es s)) = eb_throws s"
  by (induction es arbitrary: s) (simp_all add: Let_def)

lemma call_until_throw_ok:
  "fst (call_until_throw ch l es s) = Inr () \<Longrightarrow>
   eb_calls (snd (call_until_throw ch l es s)) = eb_calls s @ map (\<lambda>e. (ch, l, e)) es"
  by (induction es arbitrary: s) (auto simp: Let_def split: if_splits)

lemmas bus_op_defs = bus_emit_def call_all_def clearBuffer_def bus_attach_def bus_attachCallback_def
  bus_detach_def add_listener_def Let_def

lemma bus_exec_buffer:
  "bus_buffer (bus_exec x s) ch =
     (case x of
        Emit c e b \<Rightarrow> if c = ch \<and> b \<noteq> Some False
                      then bus_push (eb_bufferLimit s) (bus_buffer s ch) e else bus_buffer s ch
      | Clear c \<Rightarrow> if c = ch then [] else bus_buffer s ch
      | _ \<Rightarrow> bus_buffer s ch)"
  by (cases x) (auto simp: bus_op_defs call_until_throw_keeps split: option.split)

lemma bus_exec_static [simp]:
  "eb_bufferLimit (bus_exec x s) = eb_bufferLimit s" "eb_throws (bus_exec x s) = eb_throws s"
  by (cases x; auto simp: bus_op_defs call_until_throw_keeps split: option.split)+

lemma bus_run_buffer:
  assumes "bus_buffer s ch = drop (length h - eb_bufferLimit s) h"
  shows "bus_buffer (bus_run ops s) ch =
     drop (length (foldl (publish ch) h ops) - eb_bufferLimit s) (foldl (publish ch) h ops)"
  using assms
proof (induction ops arbitrary: s h)
  case Nil
  then show ?case by (simp add: bus_run_def)
next
  case (Cons x ops)
  have "bus_buffer (bus_exec x s) ch =
      drop (length (publish ch h x) - eb_bufferLimit s) (publish ch h x)"
    using Cons.prems bus_push_recent [of "eb_bufferLimit s" h]
    unfolding bus_exec_buffer by (cases x) simp_all
  from Cons.IH [of "bus_exec x s" "publish ch h x"] this show ?case
    by (simp add: bus_run_def)
qed


section \<open>What a listener receives\<close>

definition received :: "string \<Rightarrow> nat \<Rightarrow> sse_bus \<Rightarrow> sse_event list" where
  "received ch l s =
     List.map_filter (\<lambda>(c, l', e). if c = ch \<and> l' = l then Some e else None) (eb_calls s)"

text \<open>Operations that neither attach nor detach the given listener on the given channel.\<close>

fun leaves_alone :: "string \<Rightarrow> nat \<Rightarrow> bus_op \<Rightarrow> bool" where
  "leaves_alone ch l (Attach c l' _ _) = (\<not> (c = ch \<and> l' = l))"
| "leaves_alone ch l (AttachCallback c l' _ _) = (\<not> (c = ch \<and> l' = l))"
| "leaves_alone ch l (Detach c l') = (\<not> (c = ch \<and> l' = l))"
| "leaves_alone ch l _ = True"

lemma map_filter_append:
  "List.map_filter f (xs @ ys) = List.map_filter f xs @ List.map_filter f ys"
  by (simp add: List.map_filter_def)

lemma map_filter_none: "(\<And>x. x \<in> set xs \<Longrightarrow> f x = None) \<Longrightarrow> List.map_filter f xs = []"
  by (simp add: List.map_filter_def filter_empty_conv)

lemma received_emit_all:
  "distinct ls \<Longrightarrow> List.map_filter (\<lambda>(c, l', e). if c = ch \<and> l' = l then Some e else None)
      (map (\<lambda>l. (c', l, e')) ls) = (if c' = ch \<and> l \<in> set ls then [e'] else [])"
  by (induction ls) (auto simp: List.map_filter_simps)

lemma call_until_throw_other:
  "c \<noteq> ch \<or> l' \<noteq> l \<Longrightarrow> received ch l (snd (call_until_throw c l' es s)) = received ch l s"
  by (induction es arbitrary: s)
     (auto simp: received_def map_filter_append List.map_filter_simps Let_def)

lemma call_until_throw_received:
  "fst (call_until_throw ch l es s) = Inr () \<Longrightarrow>
   received ch l (snd (call_until_throw ch l es s)) = received ch l s @ es"
  by (simp add: received_def call_until_throw_ok map_filter_append)
     (simp add: List.map_filter_def comp_def)

lemma received_cong: "eb_calls s' = eb_calls s \<Longrightarrow> received ch l s' = received ch l s"
  by (simp add: received_def)

lemma received_add_listener [simp]: "received ch l (add_listener c l' s) = received ch l s"
  by (rule received_cong) (simp add: add_listener_def)

lemma set_add_simps [simp]:
  "set (set_add x xs) = insert x (set xs)" "distinct (set_add x xs) = distinct xs"
  by (auto simp: set_add_def)

lemma bus_exec_listeners:
  "bus_listeners (bus_exec x s) ch =
     (case x of
        Attach c l _ _ \<Rightarrow> if c = ch then set_add l (bus_listeners s ch) else bus_listeners s ch
      | AttachCallback c l _ _ \<Rightarrow> if c = ch then set_add l (bus_listeners s ch) else bus_listeners s ch
      | Detach c l \<Rightarrow> if c = ch then removeAll l (bus_listeners s ch) else bus_listeners s ch
      | _ \<Rightarrow> bus_listeners s ch)"
proof (cases x)
  case (Detach c l)
  have "entries_of (eb_listeners s) c = (case map_of (eb_listeners s) c of None \<Rightarrow> [] | Some ls \<Rightarrow> ls)"
    by (simp add: entries_of_def)
  with Detach show ?thesis
    by (cases "map_of (eb_listeners s) c") (auto simp: bus_detach_def Let_def)
qed (auto simp: bus_op_defs call_until_throw_keeps split: option.split)

lemma bus_exec_distinct:
  "(\<And>ch. distinct (bus_listeners s ch)) \<Longrightarrow> distinct (bus_listeners (bus_exec x s) ch)"
  unfolding bus_exec_listeners by (cases x) (auto simp: distinct_removeAll)

lemma bus_run_distinct:
  "(\<And>ch. distinct (bus_listeners s ch)) \<Longrightarrow> distinct (bus_listeners (bus_run ops s) ch)"
proof (induction ops arbitrary: s)
  case Nil
  then show ?case by (simp add: bus_run_def)
next
  case (Cons x ops)
  then show ?case
    using Cons.IH [of "bus_exec x s"] bus_exec_distinct [of s x] by (simp add: bus_run_def)
qed

text \<open>One operation: an attached listener gets each emitted event once, a detached one nothing.\<close>

lemma bus_exec_received:
  assumes "distinct (bus_listeners s ch)" and "leaves_alone ch l x"
  shows "received ch l (bus_exec x s) =
    received ch l s @ (if l \<in> set (bus_listeners s ch) then emitted ch [x] else [])"
proof (cases x)
  case (Emit c e b)
  have "eb_calls (bus_emit c e b s) = eb_calls s @ map (\<lambda>l. (c, l, e)) (bus_listeners s c)"
    by (auto simp: bus_emit_def call_all_def entries_of_def Let_def split: option.split)
  then have "received ch l (bus_exec x s) = received ch l s @
      (if c = ch \<and> l \<in> set (bus_listeners s c) then [e] else [])"
    using assms(1) Emit
    by (cases "c = ch")
       (auto simp: received_def map_filter_append received_emit_all intro!: map_filter_none)
  then show ?thesis
    by (auto simp: Emit emitted_def List.map_filter_simps)
next
  case (Clear c)
  then show ?thesis by (simp add: emitted_def List.map_filter_simps clearBuffer_def received_def)
next
  case (Attach c l' i now)
  with assms(2) show ?thesis
    by (simp add: emitted_def List.map_filter_simps bus_attach_def Let_def call_until_throw_other
        del: call_until_throw.simps)
next
  case (AttachCallback c l' i r)
  with assms(2) show ?thesis
    by (simp add: emitted_def List.map_filter_simps bus_attachCallback_def Let_def call_until_throw_other
        del: call_until_throw.simps)
next
  case (Detach c l')
  then show ?thesis
    by (auto simp: emitted_def List.map_filter_simps bus_detach_def Let_def
        intro!: received_cong split: option.split)
qed

lemma bus_exec_member:
  "leaves_alone ch l x \<Longrightarrow> l \<in> set (bus_listeners (bus_exec x s) ch) \<longleftrightarrow> l \<in> set (bus_listeners s ch)"
  unfolding bus_exec_listeners by (cases x) auto

lemma bus_run_received:
  assumes "\<And>ch. distinct (bus_listeners s ch)" and "\<forall>x \<in> set ops. leaves_alone ch l x"
  shows "received ch l (bus_run ops s) =
    received ch l s @ (if l \<in> set (bus_listeners s ch) then emitted ch ops else [])"
  using assms
proof (induction ops arbitrary: s)
  case Nil
  then show ?case by (simp add: bus_run_def emitted_def List.map_filter_simps)
next
  case (Cons x ops)
  have "received ch l (bus_run ops (bus_exec x s)) = received ch l (bus_exec x s) @
      (if l \<in> set (bus_listeners (bus_exec x s) ch) then emitted ch ops else [])"
    using Cons.IH [of "bus_exec x s"] bus_exec_distinct [OF Cons.prems(1)] Cons.prems(2) by simp
  moreover have "emitted ch (x # ops) = emitted ch [x] @ emitted ch ops"
    using map_filter_append [of _ "[x]" ops] by (simp add: emitted_def)
  ultimately show ?case
    using Cons.prems bus_exec_received [of s ch l x] bus_exec_member [of ch l x s]
    by (simp add: bus_run_def)
qed

lemma new_bus_distinct: "distinct (bus_listeners (bus_run ops (new_bus n th)) ch)"
  by (rule bus_run_distinct) (simp add: new_bus_def entries_of_def)

lemma new_bus_limit: "eb_bufferLimit (bus_run ops (new_bus n th)) = n"
proof -
  have "eb_bufferLimit (fold bus_exec ops s) = eb_bufferLimit s" for s
    by (induction ops arbitrary: s) auto
  then show ?thesis by (simp add: bus_run_def new_bus_def)
qed

lemma new_bus_buffer:
  "bus_buffer (bus_run ops (new_bus n th)) ch = drop (length (published ch ops) - n) (published ch ops)"
  using bus_run_buffer [of "new_bus n th" ch "[]" ops]
  by (simp add: published_def) (simp add: new_bus_def entries_of_def)

lemma getReplayBuffer_resume:
  "i \<noteq> [] \<Longrightarrow> after_key ev_id (Some i) (bus_buffer s ch) = Some r \<Longrightarrow>
   rp_replay (getReplayBuffer ch (Some i) s) = r"
  by (auto simp: getReplayBuffer_def after_key_def Let_def split: option.splits)

lemma after_key_here: "f x = k \<Longrightarrow> after_key f k (x # xs) = Some xs"
  by (simp add: after_key_def)

lemma replay_add_listener [simp]:
  "getReplayBuffer ch i (add_listener c l s) = getReplayBuffer ch i s"
  by (simp add: getReplayBuffer_def add_listener_def)

section \<open>Properties\<close>

text \<open>After any sequence of operations the replay buffer of a channel holds exactly the last
  \<open>bufferLimit\<close> buffered events published on that channel since it was last cleared, in order.\<close>

theorem bus_buffer_recent:
  "bus_buffer (bus_run ops (new_bus n th)) ch = drop (length (published ch ops) - n) (published ch ops)"
  by (rule new_bus_buffer)

text \<open>C15: a client that resumes from an event that is still buffered misses nothing and gets
  nothing twice: the replay together with the live events is exactly what was published after the
  event it had last seen, whatever other clients do in the meantime and whoever of them throws.
  The other events of the channel may carry no id or share one; it is only assumed that no event
  buffered before the one last seen carries its (non-empty) id, and that the replay calls of the
  resuming client itself do not throw.\<close>

theorem bus_resume_no_gap_no_duplicate:
  assumes s: "s = bus_run ops0 (new_bus n th)"
    and log: "published ch ops0 = before @ e # rest" and buffered: "length rest < n"
    and id: "ev_id e = Some i" "i \<noteq> []" "Some i \<notin> ev_id ` set before"
    and attach: "bus_attachCallback ch l (Some i) None s = (Inr (), s1)"
    and "\<forall>x \<in> set ops1. leaves_alone ch l x"
  shows "received ch l (bus_run ops1 s1) = received ch l s @ rest @ emitted ch ops1"
proof -
  let ?kept = "drop (length (published ch ops0) - n) before"
  have "bus_buffer s ch = ?kept @ e # rest"
    using buffered by (simp add: s new_bus_buffer log)
  moreover have "Some i \<notin> ev_id ` set ?kept"
    using id(3) set_drop_subset by fastforce
  ultimately have r: "after_key ev_id (Some i) (bus_buffer s ch) = Some rest"
    using id(1) by (simp add: after_key_append_fresh after_key_here)
  have at: "call_until_throw ch l rest (add_listener ch l s) = (Inr (), s1)"
    using attach getReplayBuffer_resume [OF id(2) r]
    by (simp add: bus_attachCallback_def Let_def)
  then have "received ch l s1 = received ch l s @ rest"
    using call_until_throw_received [of ch l rest "add_listener ch l s"]
    by (simp add: received_def add_listener_def)
  moreover have "l \<in> set (bus_listeners s1 ch)" "distinct (bus_listeners s1 c)" for c
    using call_until_throw_keeps(2) [of ch l rest "add_listener ch l s"] at new_bus_distinct
    by (simp_all add: add_listener_def s)
  ultimately show ?thesis
    using bus_run_received [of s1 ops1 ch l] assms(8) by simp
qed

definition demo_event :: "string \<Rightarrow> sse_event" where
  "demo_event i = \<lparr>ev_event = ''terminal.output'', ev_data = [(''text'', JStr i)], ev_id = Some i\<rparr>"

definition demo_status :: sse_event where
  "demo_status = \<lparr>ev_event = ''terminal.status'', ev_data = [(''state'', JStr ''running'')], ev_id = None\<rparr>"

theorem bus_resume_no_gap_no_duplicate_witness:
  "\<exists>s1. bus_attachCallback ''t'' 7 (Some ''1'') None
       (bus_run [Emit ''t'' demo_status None, Emit ''t'' (demo_event ''1'') None,
                 Emit ''t'' demo_status None] (new_bus 2 (\<lambda>_ _. False))) = (Inr (), s1) \<and>
     received ''t'' 7 (bus_run [Emit ''t'' (demo_event ''3'') (Some False)] s1) =
       [demo_status, demo_event ''3'']"
proof -
  let ?ops = "[Emit ''t'' demo_status None, Emit ''t'' (demo_event ''1'') None, Emit ''t'' demo_status None]"
  let ?s = "bus_run ?ops (new_bus 2 (\<lambda>_ _. False))"
  obtain s1 where s1: "bus_attachCallback ''t'' 7 (Some ''1'') None ?s = (Inr (), s1)"
    by (simp add: bus_attachCallback_def bus_run_def bus_op_defs new_bus_def entries_of_def bus_push_def
        getReplayBuffer_def demo_event_def demo_status_def)
  have "received ''t'' 7 ?s = []" and log: "published ''t'' ?ops = [demo_status] @ demo_event ''1'' # [demo_status]"
    by (simp_all add: received_def bus_run_def bus_op_defs new_bus_def entries_of_def bus_push_def
        List.map_filter_simps published_def)
  then have "received ''t'' 7 (bus_run [Emit ''t'' (demo_event ''3'') (Some False)] s1) =
       [demo_status, demo_event ''3'']"
    using bus_resume_no_gap_no_duplicate [OF refl log _ _ _ _ s1, of "[Emit ''t'' (demo_event ''3'') (Some False)]"]
    by (simp add: emitted_def List.map_filter_simps demo_event_def demo_status_def)
  with s1 show ?thesis by blast
qed

text \<open>A detached client hears nothing more of the channel until it attaches again, while every
  other client keeps receiving.\<close>

theorem detached_listener_silent:
  assumes "s = bus_run ops0 (new_bus n th)" and "\<forall>x \<in> set ops1. leaves_alone ch l x \<and> leaves_alone ch l' x"
    and "l' \<noteq> l" and "l' \<in> set (bus_listeners s ch)"
  shows "received ch l (bus_run ops1 (bus_detach ch l s)) = received ch l s \<and>
    received ch l' (bus_run ops1 (bus_detach ch l s)) = received ch l' s @ emitted ch ops1"
proof -
  have d: "distinct (bus_listeners (bus_detach ch l s) c)" for c
    using bus_exec_distinct [of s "Detach ch l" c] new_bus_distinct by (simp add: assms(1))
  have m: "l \<notin> set (bus_listeners (bus_detach ch l s) ch)" "l' \<in> set (bus_listeners (bus_detach ch l s) ch)"
    using bus_exec_listeners [of "Detach ch l" s ch] assms(3,4) by simp_all
  have c: "received ch x (bus_detach ch l s) = received ch x s" for x
    by (rule received_cong) (simp add: bus_detach_def Let_def split: option.split)
  show ?thesis
    using bus_run_received [OF d, of ops1 ch l] bus_run_received [OF d, of ops1 ch l'] assms(2) m c
    by simp
qed

theorem detached_listener_silent_witness:
  "received ''t'' 1 (bus_run [Emit ''t'' (demo_event ''9'') None] (bus_detach ''t'' 1
     (bus_run [Attach ''t'' 1 None 0, Attach ''t'' 2 None 0] (new_bus 2 (\<lambda>_ _. False))))) =
     [heartbeat_event 0 True]"
proof -
  let ?s = "bus_run [Attach ''t'' 1 None 0, Attach ''t'' 2 None 0] (new_bus 2 (\<lambda>_ _. False))"
  have "received ''t'' 1 ?s = [heartbeat_event 0 True]" "2 \<in> set (bus_listeners ?s ''t'')"
    by (simp_all add: received_def bus_run_def bus_op_defs new_bus_def entries_of_def getReplayBuffer_def
        List.map_filter_simps set_add_def)
  then show ?thesis
    using detached_listener_silent [OF refl, of "[Emit ''t'' (demo_event ''9'') None]" "''t''" 1 2] by simp
qed

end
