(* ===== verification/AgentRuntime.thy ===== *)
theory AgentRuntime
  imports EventBus "HOL-Library.List_Lexorder" "HOL-Library.Char_ord"
begin

text \<open>
  The live state of an agent turn, \<open>service/src/runtime/agent-runtime-state.ts\<close>, with
  \<open>toolPresentation\<close> of \<open>service/src/agent/message-view.ts\<close>: per thread a snapshot, a replay
  buffer with a size and an age limit, and a set of listeners.

  \<open>ar_gen\<close> is the cursor factory (\<open>monotonicFactory\<close> of the ulid package: the n-th call
  returns \<open>ar_gen n\<close>) and \<open>ar_iso\<close> is \<open>Date.prototype.toISOString\<close> on a time in
  milliseconds.  The clock \<open>ar_now\<close> stands still during one synchronous call and never runs
  backwards between calls.  Calls of listeners are recorded in \<open>ar_calls\<close> as in the event bus.
  \<open>ar_log\<close> is a ghost: every entry ever appended to a buffer, with its thread; the code never
  reads it.  Environment and context budget are carried through unread and are JSON values
  (\<open>JNull\<close> for \<open>null\<close>).
\<close>

section \<open>Presentation of tools\<close>

datatype presentation_kind =
    Questions | App_permission | Automation_activation | Bootstrap | Browser_handoff | Terminal | Generic

record tool_presentation =
  tp_kind :: presentation_kind
  tp_id :: "string option"
  tp_status :: "string option"

definition text_of :: "json \<Rightarrow> string option" where
  "text_of v = (case v of JStr s \<Rightarrow> if s = [] then None else Some s | _ \<Rightarrow> None)"

definition record_or :: "json \<Rightarrow> js_object \<Rightarrow> js_object" where
  "record_or v d = (case as_record v of None \<Rightarrow> d | Some ob \<Rightarrow> ob)"

definition or_else :: "'a option \<Rightarrow> 'a option \<Rightarrow> 'a option" where
  "or_else a b = (case a of None \<Rightarrow> b | Some x \<Rightarrow> Some x)"

definition presentation_kind_for :: "string \<Rightarrow> js_object \<Rightarrow> presentation_kind" where
  "presentation_kind_for name payload =
     (if name = ''ask_user_questions'' then Questions
      else if name = ''data_request_api_key'' then App_permission
      else if name = ''automations_request_activation'' then Automation_activation
      else if name = ''automations_request_existing_contacts'' then Bootstrap
      else if name = ''browser_request_handoff'' \<or> obj_get payload ''wait_kind'' = JStr ''return_control''
        then Browser_handoff
      else if starts_with ''terminal.'' name then Terminal else Generic)"

definition toolPresentation :: "string \<Rightarrow> js_object \<Rightarrow> bool \<Rightarrow> tool_presentation" where
  "toolPresentation name payload pending =
     (let result = record_or (obj_get payload ''result'') payload;
          proposal = record_or (obj_get payload ''proposal'') result;
          request = record_or (obj_get payload ''request'') result;
          kind = presentation_kind_for name payload
      in \<lparr>tp_kind = kind,
          tp_id =
            (if kind = Questions \<or> kind = App_permission then text_of (obj_get request ''request_id'')
             else if kind = Automation_activation \<or> kind = Bootstrap
               then text_of (obj_get proposal ''proposal_id'')
             else if kind = Browser_handoff
               then or_else (text_of (obj_get payload ''handoff_id''))
                      (text_of (obj_get result ''handoff_id''))
             else None),
          tp_status =
            (if pending then Some ''pending''
             else or_else (text_of (obj_get proposal ''status''))
                    (or_else (text_of (obj_get request ''status''))
                       (text_of (obj_get payload ''status''))))\<rparr>)"

fun presentation_kind_name :: "presentation_kind \<Rightarrow> string" where
  "presentation_kind_name Questions = ''questions''"
| "presentation_kind_name App_permission = ''app_permission''"
| "presentation_kind_name Automation_activation = ''automation_activation''"
| "presentation_kind_name Bootstrap = ''bootstrap''"
| "presentation_kind_name Browser_handoff = ''browser_handoff''"
| "presentation_kind_name Terminal = ''terminal''"
| "presentation_kind_name Generic = ''generic''"

definition presentation_json :: "tool_presentation \<Rightarrow> json" where
  "presentation_json p =
     JObj [(''kind'', JStr (presentation_kind_name (tp_kind p))), (''id'', json_of_opt (tp_id p)),
           (''status'', json_of_opt (tp_status p))]"

section \<open>Snapshots\<close>

datatype activity_state = Working | Text | Awaiting_completion

datatype phase =
    Idle | Starting | Thinking | Tool_running | Waiting_for_user | Waiting_for_terminal
  | Streaming_message

datatype segment_kind = Intermediate | Final

record pending_tool =
  pt_client_id :: string
  pt_call_id :: string
  pt_name :: string
  pt_args :: js_object
  pt_started_at :: string

record draft_assistant =
  da_clientId :: string
  da_segmentKind :: "segment_kind option"
  da_text :: string
  da_startedAt :: int
  da_updatedAt :: int

record draft_reasoning =
  dr_turnId :: string
  dr_clientId :: string
  dr_text :: string
  dr_llmCallId :: string
  dr_index :: js_number
  dr_provider :: string
  dr_providerModel :: string
  dr_startedAt :: int
  dr_updatedAt :: int

record last_error =
  le_turn_id :: string
  le_code :: string
  le_message :: string
  le_retryable :: bool
  le_occurred_at :: string

record internal_snapshot =
  sn_output_activity :: "(string \<times> activity_state) option"
  sn_active :: bool
  sn_turnId :: "string option"
  sn_phase :: phase
  sn_canCancel :: bool
  sn_streamCursor :: string
  sn_pendingTool :: "pending_tool option"
  sn_draftAssistant :: "draft_assistant option"
  sn_draftReasoning :: "draft_reasoning list"
  sn_environment :: json
  sn_contextBudget :: json
  sn_lastError :: "last_error option"
  sn_updatedAt :: int

record draft_assistant_view =
  dav_client_id :: string
  dav_segment_kind :: "segment_kind option"
  dav_text :: string
  dav_started_at :: string
  dav_updated_at :: string

record draft_reasoning_view =
  drv_client_id :: string
  drv_text :: string
  drv_llm_call_id :: string
  drv_index :: js_number
  drv_provider :: string
  drv_provider_model :: string
  drv_started_at :: string
  drv_updated_at :: string

record agent_snapshot =
  as_output_activity :: "(string \<times> activity_state) option"
  as_active :: bool
  as_turn_id :: "string option"
  as_phase :: phase
  as_can_cancel :: bool
  as_stream_cursor :: string
  as_pending_tool :: "(pending_tool \<times> tool_presentation) option"
  as_draft_assistant :: "draft_assistant_view option"
  as_draft_reasoning :: "draft_reasoning_view list"
  as_environment :: json
  as_context_budget :: json
  as_last_error :: "last_error option"
  as_updated_at :: string

definition serializeSnapshot :: "(int \<Rightarrow> string) \<Rightarrow> internal_snapshot \<Rightarrow> agent_snapshot" where
  "serializeSnapshot toIso sn =
     \<lparr>as_output_activity = sn_output_activity sn, as_active = sn_active sn, as_turn_id = sn_turnId sn,
      as_phase = sn_phase sn, as_can_cancel = sn_canCancel sn, as_stream_cursor = sn_streamCursor sn,
      as_pending_tool = map_option (\<lambda>p. (p, toolPresentation (pt_name p) (pt_args p) True))
                          (sn_pendingTool sn),
      as_draft_assistant = map_option (\<lambda>d.
        \<lparr>dav_client_id = da_clientId d, dav_segment_kind = da_segmentKind d, dav_text = da_text d,
         dav_started_at = toIso (da_startedAt d), dav_updated_at = toIso (da_updatedAt d)\<rparr>)
        (sn_draftAssistant sn),
      as_draft_reasoning = map (\<lambda>d.
        \<lparr>drv_client_id = dr_clientId d, drv_text = dr_text d, drv_llm_call_id = dr_llmCallId d,
         drv_index = dr_index d, drv_provider = dr_provider d, drv_provider_model = dr_providerModel d,
         drv_started_at = toIso (dr_startedAt d), drv_updated_at = toIso (dr_updatedAt d)\<rparr>)
        (sn_draftReasoning sn),
      as_environment = sn_environment sn, as_context_budget = sn_contextBudget sn,
      as_last_error = sn_lastError sn, as_updated_at = toIso (sn_updatedAt sn)\<rparr>"

section \<open>The manager: cursors, buffers and checkpoints\<close>

record buffer_entry =
  be_cursor :: string
  be_event :: "sse_event option"
  be_recordedAt :: int

record agent_rt =
  ar_listeners :: "(string \<times> nat list) list"
  ar_buffers :: "(string \<times> buffer_entry list) list"
  ar_snapshots :: "(string \<times> internal_snapshot) list"
  ar_gen :: "nat \<Rightarrow> string"
  ar_used :: nat
  ar_bufferLimit :: nat
  ar_bufferTtlMs :: int
  ar_now :: int
  ar_iso :: "int \<Rightarrow> string"
  ar_throws :: "nat \<Rightarrow> sse_event \<Rightarrow> bool"
  ar_calls :: "(string \<times> nat \<times> sse_event) list"
  ar_log :: "(string \<times> buffer_entry) list"

abbreviation rt_buffer :: "agent_rt \<Rightarrow> string \<Rightarrow> buffer_entry list" where
  "rt_buffer s \<equiv> entries_of (ar_buffers s)"

abbreviation rt_listeners :: "agent_rt \<Rightarrow> string \<Rightarrow> nat list" where
  "rt_listeners s \<equiv> entries_of (ar_listeners s)"

text \<open>The two loops of \<open>pruneBuffer\<close> and the loop of \<open>appendBuffer\<close> on the array.\<close>

definition trim_to :: "nat \<Rightarrow> 'a list \<Rightarrow> 'a list" where
  "trim_to n b = drop (length b - n) b"

definition prune_entries :: "nat \<Rightarrow> int \<Rightarrow> buffer_entry list \<Rightarrow> buffer_entry list" where
  "prune_entries limit cutoff b = trim_to limit (dropWhile (\<lambda>e. be_recordedAt e < cutoff) b)"

definition pruneBuffer :: "string \<Rightarrow> agent_rt \<Rightarrow> agent_rt" where
  "pruneBuffer th s =
     (if rt_buffer s th = [] then s
      else (let b = prune_entries (ar_bufferLimit s) (ar_now s - ar_bufferTtlMs s) (rt_buffer s th)
            in s\<lparr>ar_buffers := (if b = [] then AList.delete th (ar_buffers s)
                                else AList.update th b (ar_buffers s))\<rparr>))"

definition appendBuffer :: "string \<Rightarrow> buffer_entry \<Rightarrow> agent_rt \<Rightarrow> agent_rt" where
  "appendBuffer th e s =
     (let s1 = pruneBuffer th s
      in s1\<lparr>ar_buffers := AList.update th (trim_to (ar_bufferLimit s1) (rt_buffer s1 th @ [e]))
                            (ar_buffers s1),
            ar_log := ar_log s1 @ [(th, e)]\<rparr>)"

definition nextCursor :: "agent_rt \<Rightarrow> string \<times> agent_rt" where
  "nextCursor s = (ar_gen s (ar_used s), s\<lparr>ar_used := Suc (ar_used s)\<rparr>)"

definition pushCheckpoint :: "string \<Rightarrow> agent_rt \<Rightarrow> string \<times> agent_rt" where
  "pushCheckpoint th s =
     (let (cursor, s1) = nextCursor s
      in (cursor, appendBuffer th \<lparr>be_cursor = cursor, be_event = None, be_recordedAt = ar_now s1\<rparr> s1))"

definition initial_snapshot :: "string \<Rightarrow> int \<Rightarrow> internal_snapshot" where
  "initial_snapshot cursor now =
     \<lparr>sn_output_activity = None, sn_active = False, sn_turnId = None, sn_phase = Idle,
      sn_canCancel = False, sn_streamCursor = cursor, sn_pendingTool = None, sn_draftAssistant = None,
      sn_draftReasoning = [], sn_environment = JNull, sn_contextBudget = JNull, sn_lastError = None,
      sn_updatedAt = now\<rparr>"

definition put_snapshot :: "string \<Rightarrow> internal_snapshot \<Rightarrow> agent_rt \<Rightarrow> agent_rt" where
  "put_snapshot th sn s = s\<lparr>ar_snapshots := AList.update th sn (ar_snapshots s)\<rparr>"

definition ensureSnapshot :: "string \<Rightarrow> agent_rt \<Rightarrow> internal_snapshot \<times> agent_rt" where
  "ensureSnapshot th s =
     (case map_of (ar_snapshots s) th of
        Some existing \<Rightarrow> (existing, pruneBuffer th s)
      | None \<Rightarrow>
          (let (cursor, s1) = pushCheckpoint th s;
               sn = initial_snapshot cursor (ar_now s1)
           in (sn, put_snapshot th sn s1)))"

definition ensureCursorAvailable :: "string \<Rightarrow> internal_snapshot \<Rightarrow> agent_rt \<Rightarrow>
    internal_snapshot \<times> agent_rt" where
  "ensureCursorAvailable th sn s =
     (let s1 = pruneBuffer th s in
      if \<exists>e \<in> set (rt_buffer s1 th). be_cursor e = sn_streamCursor sn then (sn, s1)
      else (let (cursor, s2) = pushCheckpoint th s1;
                sn' = sn\<lparr>sn_streamCursor := cursor, sn_updatedAt := ar_now s2\<rparr>
            in (sn', put_snapshot th sn' s2)))"

text \<open>A cursor argument is optional and tested for truthiness.\<close>

definition truthy :: "string option \<Rightarrow> bool" where
  "truthy c = (case c of None \<Rightarrow> False | Some x \<Rightarrow> x \<noteq> [])"

definition updateSnapshot :: "string \<Rightarrow> (internal_snapshot \<Rightarrow> internal_snapshot) \<Rightarrow> string option \<Rightarrow>
    agent_rt \<Rightarrow> agent_snapshot \<times> agent_rt" where
  "updateSnapshot th updater cursor s =
     (let (sn, s1) = ensureSnapshot th s;
          sn1 = updater sn;
          (c, s2) = (if truthy cursor
                     then (if the cursor > sn_streamCursor sn1 then the cursor else sn_streamCursor sn1, s1)
                     else pushCheckpoint th s1);
          sn2 = sn1\<lparr>sn_streamCursor := c, sn_updatedAt := ar_now s2\<rparr>
      in (serializeSnapshot (ar_iso s2) sn2, put_snapshot th sn2 s2))"

definition rt_emit :: "string \<Rightarrow> sse_event \<Rightarrow> (string \<Rightarrow> agent_rt \<Rightarrow> agent_rt) \<Rightarrow> agent_rt \<Rightarrow>
    string \<times> agent_rt" where
  "rt_emit th ev beforePublish s =
     (let ev1 = (case as_string (obj_get (ev_data ev) ''name'') of
                   Some name \<Rightarrow>
                     if ev_event ev = ''agent.tool_call''
                     then ev\<lparr>ev_data := obj_set ''presentation''
                            (presentation_json (toolPresentation name
                               (record_or (obj_get (ev_data ev) ''args'') []) True)) (ev_data ev)\<rparr>
                     else ev
                 | None \<Rightarrow> ev);
          (cursor, s1) = nextCursor s;
          emittedEvent = ev1\<lparr>ev_id := Some cursor\<rparr>;
          s2 = beforePublish cursor s1;
          s3 = appendBuffer th \<lparr>be_cursor = cursor, be_event = Some emittedEvent,
                                be_recordedAt = ar_now s2\<rparr> s2
      in (cursor, s3\<lparr>ar_calls := ar_calls s3 @ map (\<lambda>l. (th, l, emittedEvent)) (rt_listeners s3 th)\<rparr>))"


section \<open>Operations\<close>

definition setOutputActivity :: "string \<Rightarrow> string \<Rightarrow> string \<Rightarrow> activity_state option \<Rightarrow> bool \<Rightarrow>
    agent_rt \<Rightarrow> agent_rt" where
  "setOutputActivity th turnId llmCallId state begin s =
     (let (sn, s1) = ensureSnapshot th s; current = sn_output_activity sn in
      if \<not> sn_active sn \<or> sn_turnId sn \<noteq> Some turnId then s1
      else if \<not> begin \<and> map_option fst current \<noteq> Some llmCallId then s1
      else if current \<noteq> None \<and> fst (the current) = llmCallId \<and> Some (snd (the current)) = state then s1
      else snd (rt_emit th
             \<lparr>ev_event = ''agent.output_activity'',
              ev_data = [(''turn_id'', JStr turnId), (''llm_call_id'', JStr llmCallId),
                         (''state'', case state of None \<Rightarrow> JNull
                            | Some Working \<Rightarrow> JStr ''working'' | Some Text \<Rightarrow> JStr ''text''
                            | Some Awaiting_completion \<Rightarrow> JStr ''awaiting_completion'')],
              ev_id = None\<rparr>
             (\<lambda>cursor s. put_snapshot th (sn\<lparr>sn_output_activity := map_option (Pair llmCallId) state,
                 sn_streamCursor := cursor, sn_updatedAt := ar_now s\<rparr>) s) s1))"

definition clearOutputActivity :: "string \<Rightarrow> agent_rt \<Rightarrow> agent_rt" where
  "clearOutputActivity th s =
     (let (sn, s1) = ensureSnapshot th s in
      case sn_output_activity sn of
        Some (call, _) \<Rightarrow>
          if truthy (sn_turnId sn) then setOutputActivity th (the (sn_turnId sn)) call None False s1
          else s1
      | None \<Rightarrow> s1)"

definition getSnapshot :: "string \<Rightarrow> bool \<Rightarrow> agent_rt \<Rightarrow> agent_snapshot \<times> agent_rt" where
  "getSnapshot th freshBoundary s =
     (let (sn0, s1) = ensureSnapshot th s;
          (sn, s2) = ensureCursorAvailable th sn0 s1
      in if freshBoundary
         then (let (cursor, s3) = pushCheckpoint th s2; sn' = sn\<lparr>sn_streamCursor := cursor\<rparr>
               in (serializeSnapshot (ar_iso s3) sn', put_snapshot th sn' s3))
         else (serializeSnapshot (ar_iso s2) sn, s2))"

definition startTurn :: "string \<Rightarrow> string \<Rightarrow> json \<Rightarrow> agent_rt \<Rightarrow> agent_snapshot \<times> agent_rt" where
  "startTurn th turnId environment =
     updateSnapshot th (\<lambda>sn. sn\<lparr>sn_output_activity := None, sn_active := True, sn_turnId := Some turnId,
       sn_phase := Starting, sn_canCancel := True, sn_pendingTool := None, sn_draftAssistant := None,
       sn_draftReasoning := [], sn_environment := (if environment = JUndef then JNull else environment),
       sn_contextBudget := JNull, sn_lastError := None\<rparr>) None"

definition markThinking :: "string \<Rightarrow> string option \<Rightarrow> agent_rt \<Rightarrow> agent_snapshot \<times> agent_rt" where
  "markThinking th cursor s =
     updateSnapshot th (\<lambda>sn. sn\<lparr>sn_phase := Thinking, sn_pendingTool := None\<rparr>) cursor
       (clearOutputActivity th s)"

definition await_tool :: "phase \<Rightarrow> pending_tool \<Rightarrow> internal_snapshot \<Rightarrow> internal_snapshot" where
  "await_tool ph pendingTool sn =
     sn\<lparr>sn_phase := ph, sn_pendingTool := Some pendingTool, sn_draftAssistant := None\<rparr>"

definition setPendingTool :: "string \<Rightarrow> pending_tool \<Rightarrow> string \<Rightarrow> agent_rt \<Rightarrow>
    agent_snapshot \<times> agent_rt" where
  "setPendingTool th pendingTool cursor s =
     updateSnapshot th (await_tool Tool_running pendingTool) (Some cursor) (clearOutputActivity th s)"

definition setPendingUserQuestions :: "string \<Rightarrow> pending_tool \<Rightarrow> string \<Rightarrow> agent_rt \<Rightarrow>
    agent_snapshot \<times> agent_rt" where
  "setPendingUserQuestions th pendingTool cursor s =
     updateSnapshot th (await_tool Waiting_for_user pendingTool) (Some cursor) (clearOutputActivity th s)"

definition setPendingTerminalWait :: "string \<Rightarrow> pending_tool \<Rightarrow> string \<Rightarrow> agent_rt \<Rightarrow>
    agent_snapshot \<times> agent_rt" where
  "setPendingTerminalWait th pendingTool cursor s =
     updateSnapshot th (await_tool Waiting_for_terminal pendingTool) (Some cursor)
       (clearOutputActivity th s)"

definition setDraftAssistant :: "string \<Rightarrow> string \<Rightarrow> string \<Rightarrow> string \<Rightarrow> int option \<Rightarrow>
    segment_kind option \<Rightarrow> agent_rt \<Rightarrow> agent_snapshot \<times> agent_rt" where
  "setDraftAssistant th clientId txt cursor startedAt segmentKind s =
     updateSnapshot th (\<lambda>sn.
       let started = (case sn_draftAssistant sn of
                        Some d \<Rightarrow> if da_clientId d = clientId then Some (da_startedAt d) else None
                      | None \<Rightarrow> None)
       in sn\<lparr>sn_phase := Streaming_message, sn_pendingTool := None,
             sn_draftAssistant := Some \<lparr>da_clientId = clientId, da_segmentKind = segmentKind,
               da_text = txt,
               da_startedAt = (case or_else started startedAt of Some t \<Rightarrow> t | None \<Rightarrow> ar_now s),
               da_updatedAt = ar_now s\<rparr>\<rparr>) (Some cursor) s"

definition clearDraftAssistant :: "string \<Rightarrow> string option \<Rightarrow> agent_rt \<Rightarrow> agent_snapshot \<times> agent_rt" where
  "clearDraftAssistant th =
     updateSnapshot th (\<lambda>sn. sn\<lparr>sn_phase := Thinking, sn_draftAssistant := None\<rparr>)"

text \<open>\<open>d\<close> carries the given start time, if any; the update time is the clock.\<close>

definition put_reasoning :: "int \<Rightarrow> int option \<Rightarrow> draft_reasoning \<Rightarrow> draft_reasoning list \<Rightarrow>
    draft_reasoning list" where
  "put_reasoning now startedAt d ds =
     (case find_index (\<lambda>c. dr_clientId c = dr_clientId d) ds of
        Some i \<Rightarrow> ds[i := d\<lparr>dr_startedAt := dr_startedAt (ds ! i), dr_updatedAt := now\<rparr>]
      | None \<Rightarrow> ds @ [d\<lparr>dr_startedAt := (case startedAt of Some t \<Rightarrow> t | None \<Rightarrow> now),
                        dr_updatedAt := now\<rparr>])"

definition setDraftReasoning :: "string \<Rightarrow> draft_reasoning \<Rightarrow> int option \<Rightarrow> string \<Rightarrow> agent_rt \<Rightarrow>
    agent_snapshot \<times> agent_rt" where
  "setDraftReasoning th draft startedAt cursor s =
     updateSnapshot th (\<lambda>sn. sn\<lparr>sn_phase := Thinking, sn_pendingTool := None,
       sn_draftReasoning := put_reasoning (ar_now s) startedAt draft (sn_draftReasoning sn)\<rparr>)
       (Some cursor) s"

definition clearDraftReasoning :: "string \<Rightarrow> string \<Rightarrow> string option \<Rightarrow> agent_rt \<Rightarrow>
    agent_snapshot \<times> agent_rt" where
  "clearDraftReasoning th clientId =
     updateSnapshot th (\<lambda>sn. sn\<lparr>sn_phase := Thinking,
       sn_draftReasoning := filter (\<lambda>d. dr_clientId d \<noteq> clientId) (sn_draftReasoning sn)\<rparr>)"

definition advanceCursor :: "string \<Rightarrow> string \<Rightarrow> agent_rt \<Rightarrow> agent_snapshot \<times> agent_rt" where
  "advanceCursor th cursor = updateSnapshot th (\<lambda>sn. sn) (Some cursor)"

definition setContextBudget :: "string \<Rightarrow> json \<Rightarrow> string option \<Rightarrow> agent_rt \<Rightarrow>
    agent_snapshot \<times> agent_rt" where
  "setContextBudget th budget = updateSnapshot th (\<lambda>sn. sn\<lparr>sn_contextBudget := budget\<rparr>)"

definition clearContextBudget :: "string \<Rightarrow> string option \<Rightarrow> agent_rt \<Rightarrow> agent_snapshot \<times> agent_rt" where
  "clearContextBudget th = setContextBudget th JNull"

definition setLastError :: "string \<Rightarrow> last_error \<Rightarrow> string option \<Rightarrow> agent_rt \<Rightarrow>
    agent_snapshot \<times> agent_rt" where
  "setLastError th e = updateSnapshot th (\<lambda>sn. sn\<lparr>sn_lastError := Some e\<rparr>)"

definition clearLastError :: "string \<Rightarrow> string option \<Rightarrow> agent_rt \<Rightarrow> agent_snapshot \<times> agent_rt" where
  "clearLastError th = updateSnapshot th (\<lambda>sn. sn\<lparr>sn_lastError := None\<rparr>)"

definition setEnvironment :: "string \<Rightarrow> json \<Rightarrow> string option \<Rightarrow> agent_rt \<Rightarrow>
    agent_snapshot \<times> agent_rt" where
  "setEnvironment th environment = updateSnapshot th (\<lambda>sn. sn\<lparr>sn_environment := environment\<rparr>)"

definition finishTurn :: "string \<Rightarrow> agent_rt \<Rightarrow> agent_snapshot \<times> agent_rt" where
  "finishTurn th s =
     updateSnapshot th (\<lambda>sn. sn\<lparr>sn_active := False, sn_turnId := None, sn_phase := Idle,
       sn_canCancel := False, sn_pendingTool := None, sn_draftAssistant := None,
       sn_draftReasoning := [], sn_environment := JNull, sn_contextBudget := JNull\<rparr>) None
       (clearOutputActivity th s)"

text \<open>A plain \<open>emit\<close> of a client has no \<open>beforePublish\<close>.\<close>

definition rt_publish :: "string \<Rightarrow> sse_event \<Rightarrow> agent_rt \<Rightarrow> string \<times> agent_rt" where
  "rt_publish th ev = rt_emit th ev (\<lambda>_ s. s)"

definition resync_event :: sse_event where
  "resync_event = \<lparr>ev_event = ''agent.resync_required'',
                   ev_data = [(''reason'', JStr ''publication_failed'')], ev_id = None\<rparr>"

definition invalidateReplay :: "agent_rt \<Rightarrow> agent_rt" where
  "invalidateReplay s =
     (let threads = fold (\<lambda>th acc. set_add th acc) (map fst (ar_buffers s) @ map fst (ar_listeners s)) []
      in fold (\<lambda>th s. snd (rt_publish th resync_event s)) threads (s\<lparr>ar_buffers := []\<rparr>))"

datatype attach_plan =
    Plan_attached "sse_event list" "bool option" nat
  | Plan_resync string

definition prepareAttachment :: "string \<Rightarrow> string option \<Rightarrow> agent_rt \<Rightarrow> attach_plan \<times> agent_rt" where
  "prepareAttachment th afterCursor s =
     (let (sn, s1) = ensureSnapshot th s;
          (_, s2) = ensureCursorAvailable th sn s1;
          buffer = rt_buffer s2 th
      in (if \<not> truthy afterCursor then Plan_attached [] None (length buffer)
          else case find_index (\<lambda>e. be_cursor e = the afterCursor) buffer of
                 None \<Rightarrow> Plan_resync (the afterCursor)
               | Some i \<Rightarrow> Plan_attached (List.map_filter be_event (drop (i + 1) buffer)) (Some True)
                             (length buffer), s2))"

fun rt_call_until_throw :: "string \<Rightarrow> nat \<Rightarrow> sse_event list \<Rightarrow> agent_rt \<Rightarrow> unit result \<times> agent_rt" where
  "rt_call_until_throw th l [] s = (Inr (), s)"
| "rt_call_until_throw th l (e # es) s =
     (let s1 = s\<lparr>ar_calls := ar_calls s @ [(th, l, e)]\<rparr>
      in if ar_throws s l e then (Inl NonErrorThrown, s1) else rt_call_until_throw th l es s1)"

definition rt_add_listener :: "string \<Rightarrow> nat \<Rightarrow> agent_rt \<Rightarrow> agent_rt" where
  "rt_add_listener th l s =
     s\<lparr>ar_listeners := AList.update th (set_add l (rt_listeners s th)) (ar_listeners s)\<rparr>"

text \<open>The outcome of an attachment; its \<open>detach\<close> is \<open>rt_detach\<close> (or nothing after a resync).\<close>

datatype attachment = Attached nat "bool option" | Resync_required string

definition rt_attach :: "string \<Rightarrow> nat \<Rightarrow> string option \<Rightarrow> agent_rt \<Rightarrow> attachment result \<times> agent_rt" where
  "rt_attach th l afterCursor s =
     (case prepareAttachment th afterCursor s of
        (Plan_resync c, s1) \<Rightarrow> (Inr (Resync_required c), s1)
      | (Plan_attached replay found buffered, s1) \<Rightarrow>
          (case rt_call_until_throw th l
                  (if replay = [] then [heartbeat_event (ar_now s1) (buffered = 0)] else replay)
                  (rt_add_listener th l s1) of
             (Inl e, s2) \<Rightarrow> (Inl e, s2)
           | (Inr _, s2) \<Rightarrow> (Inr (Attached (length replay) found), s2)))"

text \<open>The listener that \<open>attach\<close> registers writes each event to its reply and ends the reply after an
  \<open>agent.resync_required\<close>; whether the reply has ended can be read off the calls of the listener.  What
  happens to a write after that is the reply's affair (\<open>ar_throws\<close>), and the route detaches the
  listener when the connection closes.\<close>

definition rt_reply_ended :: "string \<Rightarrow> nat \<Rightarrow> agent_rt \<Rightarrow> bool" where
  "rt_reply_ended th l s \<longleftrightarrow>
     list_ex (\<lambda>(c, l', e). c = th \<and> l' = l \<and> ev_event e = ''agent.resync_required'') (ar_calls s)"

definition rt_attachCallback :: "string \<Rightarrow> nat \<Rightarrow> string option \<Rightarrow> agent_rt \<Rightarrow>
    attachment result \<times> agent_rt" where
  "rt_attachCallback th l afterCursor s =
     (case prepareAttachment th afterCursor s of
        (Plan_resync c, s1) \<Rightarrow> (Inr (Resync_required c), s1)
      | (Plan_attached replay found buffered, s1) \<Rightarrow>
          (case rt_call_until_throw th l replay (rt_add_listener th l s1) of
             (Inl e, s2) \<Rightarrow> (Inl e, s2)
           | (Inr _, s2) \<Rightarrow> (Inr (Attached (length replay) found), s2)))"

definition rt_detach :: "string \<Rightarrow> nat \<Rightarrow> agent_rt \<Rightarrow> agent_rt" where
  "rt_detach th l s =
     (case map_of (ar_listeners s) th of
        None \<Rightarrow> s
      | Some ls \<Rightarrow>
          (let ls' = removeAll l ls
           in s\<lparr>ar_listeners := (if ls' = [] then AList.delete th (ar_listeners s)
                                 else AList.update th ls' (ar_listeners s))\<rparr>))"

end
