(* ===== verification/AgentRuntimeProps.thy ===== *)
theory AgentRuntimeProps
  imports AgentRuntime
begin

text \<open>
  Correctness of the agent runtime state: the replay buffer is a bounded suffix of the history, a
  client that attaches at a cursor either gets exactly what followed it or is told to resync, the
  cursor of a snapshot can always be attached at, snapshots never move back, and a finished turn
  leaves nothing behind.
\<close>

section \<open>Runs of the manager\<close>

datatype rt_op =
    SetOutputActivity string string string "activity_state option" bool
  | ClearOutputActivity string
  | GetSnapshot string bool
  | StartTurn string string json
  | MarkThinking string "string option"
  | SetPendingTool string pending_tool string
  | SetPendingUserQuestions string pending_tool string
  | SetPendingTerminalWait string pending_tool string
  | SetDraftAssistant string string string string "int option" "segment_kind option"
  | ClearDraftAssistant string "string option"
  | SetDraftReasoning string draft_reasoning "int option" string
  | ClearDraftReasoning string string "string option"
  | AdvanceCursor string string
  | SetContextBudget string json "string option"
  | ClearContextBudget string "string option"
  | SetLastError string last_error "string option"
  | ClearLastError string "string option"
  | SetEnvironment string json "string option"
  | FinishTurn string
  | Publish string sse_event
  | InvalidateReplay
  | RtAttach string nat "string option"
  | RtAttachCallback string nat "string option"
  | RtDetach string nat
  | Tick nat

fun rt_exec :: "rt_op \<Rightarrow> agent_rt \<Rightarrow> agent_rt" where
  "rt_exec (SetOutputActivity th t c st b) s = setOutputActivity th t c st b s"
| "rt_exec (ClearOutputActivity th) s = clearOutputActivity th s"
| "rt_exec (GetSnapshot th fb) s = snd (getSnapshot th fb s)"
| "rt_exec (StartTurn th t e) s = snd (startTurn th t e s)"
| "rt_exec (MarkThinking th c) s = snd (markThinking th c s)"
| "rt_exec (SetPendingTool th p c) s = snd (setPendingTool th p c s)"
| "rt_exec (SetPendingUserQuestions th p c) s = snd (setPendingUserQuestions th p c s)"
| "rt_exec (SetPendingTerminalWait th p c) s = snd (setPendingTerminalWait th p c s)"
| "rt_exec (SetDraftAssistant th i x c a k) s = snd (setDraftAssistant th i x c a k s)"
| "rt_exec (ClearDraftAssistant th c) s = snd (clearDraftAssistant th c s)"
| "rt_exec (SetDraftReasoning th d a c) s = snd (setDraftReasoning th d a c s)"
| "rt_exec (ClearDraftReasoning th i c) s = snd (clearDraftReasoning th i c s)"
| "rt_exec (AdvanceCursor th c) s = snd (advanceCursor th c s)"
| "rt_exec (SetContextBudget th b c) s = snd (setContextBudget th b c s)"
| "rt_exec (ClearContextBudget th c) s = snd (clearContextBudget th c s)"
| "rt_exec (SetLastError th e c) s = snd (setLastError th e c s)"
| "rt_exec (ClearLastError th c) s = snd (clearLastError th c s)"
| "rt_exec (SetEnvironment th e c) s = snd (setEnvironment th e c s)"
| "rt_exec (FinishTurn th) s = snd (finishTurn th s)"
| "rt_exec (Publish th ev) s = snd (rt_publish th ev s)"
| "rt_exec InvalidateReplay s = invalidateReplay s"
| "rt_exec (RtAttach th l c) s = snd (rt_attach th l c s)"
| "rt_exec (RtAttachCallback th l c) s = snd (rt_attachCallback th l c s)"
| "rt_exec (RtDetach th l) s = rt_detach th l s"
| "rt_exec (Tick d) s = s\<lparr>ar_now := ar_now s + int d\<rparr>"

definition rt_run :: "rt_op list \<Rightarrow> agent_rt \<Rightarrow> agent_rt" where
  "rt_run ops s = fold rt_exec ops s"

definition new_rt :: "(nat \<Rightarrow> string) \<Rightarrow> (int \<Rightarrow> string) \<Rightarrow> (nat \<Rightarrow> sse_event \<Rightarrow> bool) \<Rightarrow> nat \<Rightarrow> int \<Rightarrow>
    int \<Rightarrow> agent_rt" where
  "new_rt gen toIso throws limit ttl now =
     \<lparr>ar_listeners = [], ar_buffers = [], ar_snapshots = [], ar_gen = gen, ar_used = 0,
      ar_bufferLimit = limit, ar_bufferTtlMs = ttl, ar_now = now, ar_iso = toIso, ar_throws = throws,
      ar_calls = [], ar_log = []\<rparr>"

section \<open>The buffer as a pruned log\<close>

definition rt_push :: "nat \<Rightarrow> int \<Rightarrow> buffer_entry list \<Rightarrow> buffer_entry \<Rightarrow> buffer_entry list" where
  "rt_push limit ttl b e = trim_to limit (prune_entries limit (be_recordedAt e - ttl) b @ [e])"

lemma trim_to_suffix: "suffix (trim_to n b) b"
  by (simp add: trim_to_def suffix_drop)

lemma trim_to_length: "length (trim_to n b) \<le> n"
  by (simp add: trim_to_def)

lemma prune_entries_suffix: "suffix (prune_entries n c b) b"
proof -
  have "suffix (trim_to n (dropWhile P b)) (dropWhile P b)" "suffix (dropWhile P b) b" for P
    by (simp_all add: trim_to_suffix suffix_dropWhile)
  then show ?thesis
    unfolding prune_entries_def using suffix_order.trans by blast
qed

lemma rt_push_suffix: "suffix (rt_push n ttl b e) (b @ [e])"
proof -
  have "suffix (prune_entries n c b @ [e]) (b @ [e])" for c
    using prune_entries_suffix [of n c b] by (auto simp: suffix_def)
  then show ?thesis
    unfolding rt_push_def using trim_to_suffix suffix_order.trans by blast
qed

interpretation rt_log: pruned_log be_cursor "rt_push n ttl" "prune_entries n" for n ttl
  by unfold_locales (rule rt_push_suffix prune_entries_suffix)+

section \<open>Invariants\<close>

definition thread_log :: "string \<Rightarrow> agent_rt \<Rightarrow> buffer_entry list" where
  "thread_log th s = map snd (filter (\<lambda>x. fst x = th) (ar_log s))"

definition rt_inv :: "agent_rt \<Rightarrow> bool" where
  "rt_inv s \<longleftrightarrow>
     map (\<lambda>x. be_cursor (snd x)) (ar_log s) = map (ar_gen s) [0..<ar_used s] \<and>
     (\<forall>th. suffix (rt_buffer s th) (thread_log th s) \<and> length (rt_buffer s th) \<le> ar_bufferLimit s \<and>
           distinct (rt_listeners s th))"

lemma rt_inv_snapshots [simp]: "rt_inv (s\<lparr>ar_snapshots := x\<rparr>) = rt_inv s"
  by (simp add: rt_inv_def thread_log_def)

lemma rt_inv_put [simp]: "rt_inv (put_snapshot th sn s) = rt_inv s"
  by (simp add: put_snapshot_def)

lemma rt_inv_calls [simp]: "rt_inv (s\<lparr>ar_calls := x\<rparr>) = rt_inv s"
  by (simp add: rt_inv_def thread_log_def)

lemma rt_inv_now [simp]: "rt_inv (s\<lparr>ar_now := x\<rparr>) = rt_inv s"
  by (simp add: rt_inv_def thread_log_def)

lemma rt_inv_no_buffers: "rt_inv s \<Longrightarrow> rt_inv (s\<lparr>ar_buffers := []\<rparr>)"
  by (simp add: rt_inv_def thread_log_def entries_of_def)

lemma buffer_prune:
  "rt_buffer (pruneBuffer th s) th' =
     (if th' = th then prune_entries (ar_bufferLimit s) (ar_now s - ar_bufferTtlMs s) (rt_buffer s th)
      else rt_buffer s th')"
  by (auto simp: pruneBuffer_def Let_def prune_entries_def trim_to_def)

lemma prune_static [simp]:
  "ar_log (pruneBuffer th s) = ar_log s" "ar_gen (pruneBuffer th s) = ar_gen s"
  "ar_used (pruneBuffer th s) = ar_used s" "ar_bufferLimit (pruneBuffer th s) = ar_bufferLimit s"
  "ar_listeners (pruneBuffer th s) = ar_listeners s" "ar_now (pruneBuffer th s) = ar_now s"
  "ar_snapshots (pruneBuffer th s) = ar_snapshots s" "ar_calls (pruneBuffer th s) = ar_calls s"
  "ar_bufferTtlMs (pruneBuffer th s) = ar_bufferTtlMs s" "ar_iso (pruneBuffer th s) = ar_iso s"
  "ar_throws (pruneBuffer th s) = ar_throws s"
  by (simp_all add: pruneBuffer_def Let_def)

lemma prune_entries_length: "length (prune_entries n c b) \<le> n"
  by (simp add: prune_entries_def trim_to_length)

lemma rt_push_length: "length (rt_push n ttl b e) \<le> n"
  by (simp add: rt_push_def trim_to_length)

lemma thread_log_cong: "ar_log s' = ar_log s \<Longrightarrow> thread_log th s' = thread_log th s"
  by (simp add: thread_log_def)

lemma rt_inv_prune: "rt_inv s \<Longrightarrow> rt_inv (pruneBuffer th s)"
  unfolding rt_inv_def
  by (simp add: buffer_prune rt_log.prune_keeps prune_entries_length
      thread_log_cong [of "pruneBuffer th s" s])

lemma append_static [simp]:
  "ar_log (appendBuffer th e s) = ar_log s @ [(th, e)]" "ar_gen (appendBuffer th e s) = ar_gen s"
  "ar_used (appendBuffer th e s) = ar_used s" "ar_bufferLimit (appendBuffer th e s) = ar_bufferLimit s"
  "ar_listeners (appendBuffer th e s) = ar_listeners s" "ar_now (appendBuffer th e s) = ar_now s"
  "ar_snapshots (appendBuffer th e s) = ar_snapshots s" "ar_calls (appendBuffer th e s) = ar_calls s"
  "ar_bufferTtlMs (appendBuffer th e s) = ar_bufferTtlMs s" "ar_iso (appendBuffer th e s) = ar_iso s"
  "ar_throws (appendBuffer th e s) = ar_throws s"
  by (simp_all add: appendBuffer_def Let_def)

lemma buffer_append:
  "be_recordedAt e = ar_now s \<Longrightarrow>
   rt_buffer (appendBuffer th e s) th' =
     (if th' = th then rt_push (ar_bufferLimit s) (ar_bufferTtlMs s) (rt_buffer s th) e
      else rt_buffer s th')"
  by (simp add: appendBuffer_def Let_def buffer_prune rt_push_def)

lemma thread_log_append:
  "thread_log th' (appendBuffer th e s) = thread_log th' s @ (if th' = th then [e] else [])"
  by (simp add: thread_log_def)

text \<open>Drawing a cursor and appending its entry, with a snapshot update in between.\<close>

definition with_cursor :: "string \<Rightarrow> (string \<Rightarrow> buffer_entry) \<Rightarrow> (string \<times> internal_snapshot) list \<Rightarrow>
    agent_rt \<Rightarrow> agent_rt" where
  "with_cursor th mk sns s =
     appendBuffer th (mk (ar_gen s (ar_used s)))
       (s\<lparr>ar_used := Suc (ar_used s), ar_snapshots := sns\<rparr>)"

lemma rt_inv_with_cursor:
  assumes "rt_inv s" and "\<And>c. be_cursor (mk c) = c" and "\<And>c. be_recordedAt (mk c) = ar_now s"
  shows "rt_inv (with_cursor th mk sns s)"
proof -
  let ?s = "s\<lparr>ar_used := Suc (ar_used s), ar_snapshots := sns\<rparr>" and ?e = "mk (ar_gen s (ar_used s))"
  have "suffix (rt_buffer (with_cursor th mk sns s) x) (thread_log x (with_cursor th mk sns s)) \<and>
      length (rt_buffer (with_cursor th mk sns s) x) \<le> ar_bufferLimit s" for x
    using assms(1) unfolding rt_inv_def with_cursor_def
    by (simp add: buffer_append assms(3) thread_log_append thread_log_cong [of ?s s]
        rt_log.push_keeps rt_push_length del: suffix_snoc)
  then show ?thesis
    using assms(1,2) by (simp add: with_cursor_def rt_inv_def)
qed


section \<open>What every operation keeps\<close>

definition rt_received :: "string \<Rightarrow> nat \<Rightarrow> agent_rt \<Rightarrow> sse_event list" where
  "rt_received th l s =
     List.map_filter (\<lambda>(c, l', e). if c = th \<and> l' = l then Some e else None) (ar_calls s)"

text \<open>From one state to a later one, as the listener \<open>l\<close> of the thread \<open>th\<close> sees it: the invariant
  holds on, the history grows, and an attached listener is called once for every new event.\<close>

definition hears :: "string \<Rightarrow> nat \<Rightarrow> agent_rt \<Rightarrow> agent_rt \<Rightarrow> bool" where
  "hears th l s s' \<longleftrightarrow>
     (rt_inv s \<longrightarrow> rt_inv s' \<and> ar_gen s' = ar_gen s \<and> ar_bufferLimit s' = ar_bufferLimit s \<and>
        ar_bufferTtlMs s' = ar_bufferTtlMs s \<and>
        (l \<in> set (rt_listeners s' th) \<longleftrightarrow> l \<in> set (rt_listeners s th)) \<and>
        (\<exists>new. thread_log th s' = thread_log th s @ new \<and>
           rt_received th l s' = rt_received th l s @
             (if l \<in> set (rt_listeners s th) then List.map_filter be_event new else [])))"

lemma hears_refl [simp]: "hears th l s s"
  by (auto simp: hears_def List.map_filter_simps)

lemma hears_trans:
  assumes "hears th l s s1" and "hears th l s1 s2"
  shows "hears th l s s2"
  using assms unfolding hears_def by (auto simp: map_filter_append)

lemma hears_silent:
  assumes "rt_inv s \<Longrightarrow> rt_inv s'" and "ar_gen s' = ar_gen s" and "ar_bufferLimit s' = ar_bufferLimit s"
    and "ar_bufferTtlMs s' = ar_bufferTtlMs s" and "l \<in> set (rt_listeners s' th) \<longleftrightarrow> l \<in> set (rt_listeners s th)"
    and "ar_log s' = ar_log s" and "rt_received th l s' = rt_received th l s"
  shows "hears th l s s'"
  unfolding hears_def using assms
  by (auto intro!: exI [of _ "[]"] simp: thread_log_def List.map_filter_simps)

lemma hears_prune: "hears th l s (pruneBuffer x s)"
  by (rule hears_silent) (simp_all add: rt_inv_prune rt_received_def)

lemma hears_put [simp]: "hears th l s (put_snapshot x sn s')  = hears th l s s'"
  by (auto simp: hears_def put_snapshot_def thread_log_def rt_received_def)

definition checkpoint_entry :: "int \<Rightarrow> string \<Rightarrow> buffer_entry" where
  "checkpoint_entry now c = \<lparr>be_cursor = c, be_event = None, be_recordedAt = now\<rparr>"

lemma pushCheckpoint_eq:
  "pushCheckpoint th s =
     (ar_gen s (ar_used s), with_cursor th (checkpoint_entry (ar_now s)) (ar_snapshots s) s)"
  by (simp add: pushCheckpoint_def nextCursor_def with_cursor_def checkpoint_entry_def)

lemma with_cursor_static [simp]:
  "ar_log (with_cursor th mk sns s) = ar_log s @ [(th, mk (ar_gen s (ar_used s)))]"
  "ar_gen (with_cursor th mk sns s) = ar_gen s" "ar_used (with_cursor th mk sns s) = Suc (ar_used s)"
  "ar_bufferLimit (with_cursor th mk sns s) = ar_bufferLimit s"
  "ar_listeners (with_cursor th mk sns s) = ar_listeners s" "ar_now (with_cursor th mk sns s) = ar_now s"
  "ar_snapshots (with_cursor th mk sns s) = sns" "ar_calls (with_cursor th mk sns s) = ar_calls s"
  "ar_bufferTtlMs (with_cursor th mk sns s) = ar_bufferTtlMs s"
  "ar_iso (with_cursor th mk sns s) = ar_iso s" "ar_throws (with_cursor th mk sns s) = ar_throws s"
  by (simp_all add: with_cursor_def)

lemma hears_checkpoint: "hears th l s (with_cursor x (checkpoint_entry (ar_now s)) sns s)"
  unfolding hears_def
  by (auto simp: rt_inv_with_cursor checkpoint_entry_def thread_log_def rt_received_def
      List.map_filter_simps intro!: exI [of _ "if x = th then [_] else []"])

lemma rt_inv_distinct: "rt_inv s \<Longrightarrow> distinct (rt_listeners s th)"
  by (simp add: rt_inv_def)

lemma hears_emit:
  assumes "\<And>c s. \<exists>sns. bp c s = s\<lparr>ar_snapshots := sns\<rparr>"
  shows "hears th l s (snd (rt_emit x ev bp s))"
proof -
  obtain sns where sns: "bp (ar_gen s (ar_used s)) (s\<lparr>ar_used := Suc (ar_used s)\<rparr>) =
      s\<lparr>ar_used := Suc (ar_used s), ar_snapshots := sns\<rparr>"
    using assms by blast
  obtain ev' where e: "snd (rt_emit x ev bp s) =
      (let s3 = with_cursor x (\<lambda>c. \<lparr>be_cursor = c, be_event = Some (ev'\<lparr>ev_id := Some c\<rparr>),
                  be_recordedAt = ar_now s\<rparr>) sns s
       in s3\<lparr>ar_calls := ar_calls s3 @ map (\<lambda>l. (x, l, ev'\<lparr>ev_id := Some (ar_gen s (ar_used s))\<rparr>))
                           (rt_listeners s3 x)\<rparr>)"
    by (simp add: rt_emit_def nextCursor_def with_cursor_def sns Let_def)
  show ?thesis
    unfolding hears_def e Let_def
    by (auto simp: rt_inv_with_cursor thread_log_def rt_received_def map_filter_append
        received_emit_all rt_inv_distinct List.map_filter_simps
        intro!: exI [of _ "if x = th then [_] else []"])
qed


text \<open>Every operation, from the private helpers up.\<close>

lemma hears_ensureSnapshot: "hears th l s (snd (ensureSnapshot x s))"
  by (simp add: ensureSnapshot_def hears_prune pushCheckpoint_eq hears_checkpoint Let_def
      split: option.split)

lemma hears_pushCheckpoint: "hears th l s (snd (pushCheckpoint x s))"
  by (simp add: pushCheckpoint_eq hears_checkpoint)

lemma hears_ensureCursor: "hears th l s (snd (ensureCursorAvailable x sn s))"
  using hears_trans [OF hears_prune [of th l s x] hears_pushCheckpoint [of th l "pruneBuffer x s" x]]
  by (simp add: ensureCursorAvailable_def Let_def hears_prune case_prod_unfold)

lemma hears_updateSnapshot: "hears th l s (snd (updateSnapshot x f c s))"
  using hears_trans [OF hears_ensureSnapshot [of th l s x]
      hears_pushCheckpoint [of th l "snd (ensureSnapshot x s)" x]] hears_ensureSnapshot [of th l s x]
  by (simp add: updateSnapshot_def Let_def case_prod_unfold)

lemma hears_setOutputActivity: "hears th l s (setOutputActivity x t c st b s)"
  unfolding setOutputActivity_def Let_def case_prod_unfold
  by (auto intro: hears_ensureSnapshot hears_trans [OF hears_ensureSnapshot hears_emit]
      simp: put_snapshot_def)

lemma hears_clearOutputActivity: "hears th l s (clearOutputActivity x s)"
  unfolding clearOutputActivity_def Let_def case_prod_unfold
  by (auto intro: hears_ensureSnapshot hears_trans [OF hears_ensureSnapshot hears_setOutputActivity]
      split: option.split)

lemma hears_getSnapshot: "hears th l s (snd (getSnapshot x fb s))"
  unfolding getSnapshot_def Let_def case_prod_unfold
  by (auto intro: hears_trans [OF hears_ensureSnapshot hears_ensureCursor]
      hears_trans [OF hears_trans [OF hears_ensureSnapshot hears_ensureCursor] hears_pushCheckpoint])

lemma hears_publish: "hears th l s (snd (rt_publish x ev s))"
  unfolding rt_publish_def by (rule hears_emit) (metis agent_rt.surjective agent_rt.update_convs(3))

lemma hears_invalidateReplay: "hears th l s (invalidateReplay s)"
proof -
  have "hears th l s (fold (\<lambda>th s. snd (rt_publish th resync_event s)) ths s)" for s ths
    by (induction ths arbitrary: s) (auto intro: hears_trans hears_publish)
  moreover have "hears th l s (s\<lparr>ar_buffers := []\<rparr>)"
    by (rule hears_silent) (simp_all add: rt_inv_no_buffers rt_received_def)
  ultimately show ?thesis
    unfolding invalidateReplay_def Let_def using hears_trans by blast
qed

lemma hears_prepareAttachment: "hears th l s (snd (prepareAttachment x c s))"
  unfolding prepareAttachment_def Let_def case_prod_unfold
  by (auto intro: hears_trans [OF hears_ensureSnapshot hears_ensureCursor])

lemma rt_call_keeps [simp]:
  "ar_log (snd (rt_call_until_throw th l es s)) = ar_log s"
  "ar_gen (snd (rt_call_until_throw th l es s)) = ar_gen s"
  "ar_bufferLimit (snd (rt_call_until_throw th l es s)) = ar_bufferLimit s"
  "ar_bufferTtlMs (snd (rt_call_until_throw th l es s)) = ar_bufferTtlMs s"
  "ar_listeners (snd (rt_call_until_throw th l es s)) = ar_listeners s"
  "ar_snapshots (snd (rt_call_until_throw th l es s)) = ar_snapshots s"
  "ar_used (snd (rt_call_until_throw th l es s)) = ar_used s"
  "rt_inv (snd (rt_call_until_throw th l es s)) = rt_inv s"
  by (induction es arbitrary: s) (simp_all add: Let_def)

lemma rt_call_other:
  "x \<noteq> th \<or> l' \<noteq> l \<Longrightarrow> rt_received th l (snd (rt_call_until_throw x l' es s)) = rt_received th l s"
  by (induction es arbitrary: s)
     (auto simp: rt_received_def map_filter_append List.map_filter_simps Let_def)

lemma rt_call_received:
  "fst (rt_call_until_throw th l es s) = Inr () \<Longrightarrow>
   rt_received th l (snd (rt_call_until_throw th l es s)) = rt_received th l s @ es"
  by (induction es arbitrary: s)
     (auto simp: rt_received_def map_filter_append List.map_filter_simps Let_def split: if_splits)

lemma rt_inv_add_listener: "rt_inv s \<Longrightarrow> rt_inv (rt_add_listener x l s)"
  by (simp add: rt_inv_def rt_add_listener_def thread_log_def)

lemma rt_received_add [simp]: "rt_received th l (rt_add_listener x l' s) = rt_received th l s"
  by (simp add: rt_received_def rt_add_listener_def)

lemma rt_add_static [simp]:
  "ar_log (rt_add_listener x l s) = ar_log s" "ar_gen (rt_add_listener x l s) = ar_gen s"
  "ar_bufferLimit (rt_add_listener x l s) = ar_bufferLimit s"
  "ar_bufferTtlMs (rt_add_listener x l s) = ar_bufferTtlMs s"
  "ar_snapshots (rt_add_listener x l s) = ar_snapshots s" "ar_used (rt_add_listener x l s) = ar_used s"
  "rt_listeners (rt_add_listener x l s) th =
     (if th = x then set_add l (rt_listeners s x) else rt_listeners s th)"
  by (simp_all add: rt_add_listener_def)

lemma prepareAttachment_calls: "ar_calls (snd (prepareAttachment x c s)) = ar_calls s"
  by (simp add: prepareAttachment_def ensureCursorAvailable_def ensureSnapshot_def pushCheckpoint_eq
      put_snapshot_def Let_def case_prod_unfold split: option.split)

lemma hears_attaching:
  assumes "x \<noteq> th \<or> l' \<noteq> l" and "hears th l s s1"
  shows "hears th l s (snd (rt_call_until_throw x l' es (rt_add_listener x l' s1)))"
proof (rule hears_trans [OF assms(2)], rule hears_silent)
  show "l \<in> set (rt_listeners (snd (rt_call_until_throw x l' es (rt_add_listener x l' s1))) th) \<longleftrightarrow>
      l \<in> set (rt_listeners s1 th)"
    using assms(1) by (auto simp: rt_add_listener_def)
qed (use assms(1) in \<open>simp_all add: rt_inv_add_listener rt_call_other\<close>)

lemma snd_case_sum [simp]:
  "snd (case p of (Inl e, s) \<Rightarrow> (Inl e, s) | (Inr u, s) \<Rightarrow> (Inr (f u), s)) = snd p"
  by (cases p) (auto split: sum.split)

lemma hears_attach: "x \<noteq> th \<or> l' \<noteq> l \<Longrightarrow> hears th l s (snd (rt_attach x l' c s))"
  using hears_prepareAttachment [of th l s x c]
  by (auto simp: rt_attach_def hears_attaching simp del: rt_call_until_throw.simps
      split: prod.split attach_plan.split)

lemma hears_attachCallback: "x \<noteq> th \<or> l' \<noteq> l \<Longrightarrow> hears th l s (snd (rt_attachCallback x l' c s))"
  using hears_prepareAttachment [of th l s x c]
  by (auto simp: rt_attachCallback_def hears_attaching split: prod.split attach_plan.split)

lemma rt_listeners_detach:
  "rt_listeners (rt_detach x l s) th = (if th = x then removeAll l (rt_listeners s x) else rt_listeners s th)"
proof -
  have "rt_listeners s x = (case map_of (ar_listeners s) x of None \<Rightarrow> [] | Some ls \<Rightarrow> ls)"
    by (simp add: entries_of_def)
  then show ?thesis
    by (cases "map_of (ar_listeners s) x") (auto simp: rt_detach_def Let_def)
qed

lemma rt_detach_static [simp]:
  "ar_log (rt_detach x l s) = ar_log s" "ar_gen (rt_detach x l s) = ar_gen s"
  "ar_used (rt_detach x l s) = ar_used s" "ar_bufferLimit (rt_detach x l s) = ar_bufferLimit s"
  "ar_buffers (rt_detach x l s) = ar_buffers s" "ar_calls (rt_detach x l s) = ar_calls s"
  "ar_snapshots (rt_detach x l s) = ar_snapshots s" "ar_bufferTtlMs (rt_detach x l s) = ar_bufferTtlMs s"
  by (simp_all add: rt_detach_def Let_def split: option.split)

lemma hears_detach: "x \<noteq> th \<or> l' \<noteq> l \<Longrightarrow> hears th l s (rt_detach x l' s)"
  by (rule hears_silent)
     (auto simp: rt_received_def rt_listeners_detach rt_inv_def thread_log_def distinct_removeAll)

text \<open>Operations that neither attach nor detach the given listener.\<close>

fun rt_leaves_alone :: "string \<Rightarrow> nat \<Rightarrow> rt_op \<Rightarrow> bool" where
  "rt_leaves_alone th l (RtAttach x l' _) = (x \<noteq> th \<or> l' \<noteq> l)"
| "rt_leaves_alone th l (RtAttachCallback x l' _) = (x \<noteq> th \<or> l' \<noteq> l)"
| "rt_leaves_alone th l (RtDetach x l') = (x \<noteq> th \<or> l' \<noteq> l)"
| "rt_leaves_alone th l _ = True"

lemmas update_ops = startTurn_def markThinking_def setPendingTool_def setPendingUserQuestions_def
  setPendingTerminalWait_def setDraftAssistant_def clearDraftAssistant_def setDraftReasoning_def
  clearDraftReasoning_def advanceCursor_def setContextBudget_def clearContextBudget_def
  setLastError_def clearLastError_def setEnvironment_def finishTurn_def

lemma hears_exec: "rt_leaves_alone th l x \<Longrightarrow> hears th l s (rt_exec x s)"
proof (cases x)
  case (Tick d)
  show ?thesis
    unfolding Tick rt_exec.simps by (rule hears_silent) (simp_all add: rt_received_def)
qed (auto simp: update_ops intro: hears_updateSnapshot hears_setOutputActivity hears_clearOutputActivity
      hears_getSnapshot hears_publish hears_invalidateReplay hears_attach hears_attachCallback
      hears_detach hears_trans [OF hears_clearOutputActivity hears_updateSnapshot])

lemma hears_run: "\<forall>x \<in> set ops. rt_leaves_alone th l x \<Longrightarrow> hears th l s (rt_run ops s)"
  unfolding rt_run_def by (induction ops arbitrary: s) (auto intro: hears_trans hears_exec)


lemma new_rt_inv: "rt_inv (new_rt gen toIso throws limit ttl now)"
  by (simp add: rt_inv_def new_rt_def entries_of_def)

lemma rt_exec_inv: "rt_inv s \<Longrightarrow> rt_inv (rt_exec x s) \<and> ar_gen (rt_exec x s) = ar_gen s \<and>
    ar_bufferLimit (rt_exec x s) = ar_bufferLimit s \<and> ar_bufferTtlMs (rt_exec x s) = ar_bufferTtlMs s"
proof -
  assume i: "rt_inv s"
  obtain th l where "rt_leaves_alone th l x"
  proof (cases x)
    case (RtAttach x1 l c)
    then show thesis using that [of "CHR ''x'' # x1" l] by simp
  next
    case (RtAttachCallback x1 l c)
    then show thesis using that [of "CHR ''x'' # x1" l] by simp
  next
    case (RtDetach x1 l)
    then show thesis using that [of "CHR ''x'' # x1" l] by simp
  qed (use that [of "[]" 0] in simp_all)
  then show ?thesis
    using hears_exec i by (fastforce simp: hears_def)
qed

lemma rt_run_inv: "rt_inv s \<Longrightarrow> rt_inv (rt_run ops s) \<and> ar_gen (rt_run ops s) = ar_gen s \<and>
    ar_bufferLimit (rt_run ops s) = ar_bufferLimit s \<and> ar_bufferTtlMs (rt_run ops s) = ar_bufferTtlMs s"
proof (induction ops arbitrary: s)
  case Nil
  then show ?case by (simp add: rt_run_def)
next
  case (Cons x ops)
  then show ?case
    using Cons.IH [of "rt_exec x s"] rt_exec_inv [of s x] by (simp add: rt_run_def)
qed

lemma reachable_inv:
  assumes "s = rt_run ops (new_rt gen toIso throws limit ttl now)"
  shows "rt_inv s" "ar_gen s = gen" "ar_bufferLimit s = limit" "ar_bufferTtlMs s = ttl"
  using rt_run_inv [OF new_rt_inv, of ops gen toIso throws limit ttl now] assms
  by (auto simp: new_rt_def)

text \<open>Cursors of a thread are strictly increasing, hence distinct.\<close>

lemma thread_cursors_sorted:
  assumes "rt_inv s" and "strict_mono (ar_gen s)"
  shows "sorted_wrt (<) (map be_cursor (thread_log th s))"
proof -
  have "sorted_wrt (<) (map (\<lambda>x. be_cursor (snd x)) (ar_log s))"
    using assms unfolding rt_inv_def by (auto simp: sorted_wrt_map sorted_wrt_iff_nth_less strict_monoD)
  then show ?thesis
    by (simp add: thread_log_def sorted_wrt_map sorted_wrt_filter)
qed

lemma thread_cursors_distinct:
  "rt_inv s \<Longrightarrow> strict_mono (ar_gen s) \<Longrightarrow> distinct (map be_cursor (thread_log th s))"
  using thread_cursors_sorted [of s th] strict_sorted_iff by blast

lemma buffer_after:
  assumes "rt_inv s" and "strict_mono (ar_gen s)" and "after_key be_cursor c (rt_buffer s th) = Some r"
  shows "after_key be_cursor c (thread_log th s) = Some r"
  using rt_log.resume_now [OF _ thread_cursors_distinct [OF assms(1,2)] assms(3)] assms(1)
  by (simp add: rt_inv_def)

section \<open>Properties: attachment\<close>

text \<open>The replay buffer of a thread never exceeds its limit, always holds the most recent part
  of the thread's history without holes, and its cursors are strictly increasing.\<close>

theorem agent_buffer_bounded_suffix:
  assumes "strict_mono gen" and "s = rt_run ops (new_rt gen toIso throws limit ttl now)"
  shows "length (rt_buffer s th) \<le> limit \<and> suffix (rt_buffer s th) (thread_log th s) \<and>
    sorted_wrt (<) (map be_cursor (rt_buffer s th))"
proof -
  note i = reachable_inv [OF assms(2)]
  have "suffix (rt_buffer s th) (thread_log th s)"
    using i(1) by (simp add: rt_inv_def)
  moreover from this obtain p where "thread_log th s = p @ rt_buffer s th"
    by (auto simp: suffix_def)
  ultimately show ?thesis
    using thread_cursors_sorted [OF i(1), of th] i assms(1) by (auto simp: rt_inv_def sorted_wrt_append)
qed

definition demo_gen :: "nat \<Rightarrow> string" where
  "demo_gen n = replicate (Suc n) (CHR ''a'')"

lemma demo_gen_mono: "strict_mono demo_gen"
proof (rule strict_mono_Suc_iff [THEN iffD2], rule allI)
  fix n
  have "replicate n (CHR ''a'') < CHR ''a'' # replicate n (CHR ''a'')" for n
    by (induction n) auto
  from this [of "Suc n"] show "demo_gen n < demo_gen (Suc n)"
    by (simp add: demo_gen_def)
qed

theorem agent_buffer_bounded_suffix_witness:
  "length (rt_buffer (rt_run [Publish ''t'' resync_event, Publish ''t'' resync_event]
     (new_rt demo_gen show_int (\<lambda>_ _. False) 1 60000 0)) ''t'') \<le> 1"
  using agent_buffer_bounded_suffix [OF demo_gen_mono refl] by blast

text \<open>C9: a client that attaches at a cursor is either told to resync, because the cursor is no
  longer buffered, or from then on has been handed exactly the events of the thread that follow the
  cursor: none missing, none repeated, in order, whatever the other clients and the turn do.\<close>

theorem agent_attach_exact_or_resync:
  assumes "strict_mono gen" and s: "s = rt_run ops0 (new_rt gen toIso throws limit ttl now)"
    and "c \<noteq> []" and attach: "rt_attachCallback th l (Some c) s = (Inr a, s1)"
    and "\<forall>x \<in> set ops1. rt_leaves_alone th l x"
  shows "(a = Resync_required c \<and> c \<notin> be_cursor ` set (rt_buffer s1 th)) \<or>
    (\<exists>rest. after_key be_cursor c (thread_log th (rt_run ops1 s1)) = Some rest \<and>
       rt_received th l (rt_run ops1 s1) = rt_received th l s @ List.map_filter be_event rest)"
proof -
  note i = reachable_inv [OF s]
  obtain plan s2 where p: "prepareAttachment th (Some c) s = (plan, s2)"
    by (cases "prepareAttachment th (Some c) s")
  have h: "hears th l s s2"
    using hears_prepareAttachment [of th l s th "Some c"] p by simp
  then have i2: "rt_inv s2" "ar_gen s2 = gen"
    using i by (simp_all add: hears_def)
  show ?thesis
  proof (cases "after_key be_cursor c (rt_buffer s2 th)")
    case None
    with p assms(3) have "plan = Plan_resync c"
      by (auto simp: prepareAttachment_def Let_def case_prod_unfold truthy_def after_key_def
          split: option.splits)
    with attach p None show ?thesis
      by (auto simp: rt_attachCallback_def after_key_None_iff)
  next
    case (Some r)
    with p assms(3) obtain n where pl: "plan = Plan_attached (List.map_filter be_event r) (Some True) n"
      by (auto simp: prepareAttachment_def Let_def case_prod_unfold truthy_def after_key_def
          split: option.splits)
    let ?s3 = "rt_add_listener th l s2"
    have call: "rt_call_until_throw th l (List.map_filter be_event r) ?s3 = (Inr (), s1)"
      using attach p pl by (auto simp: rt_attachCallback_def split: prod.splits sum.splits)
    have s1: "rt_received th l s1 = rt_received th l s2 @ List.map_filter be_event r"
        "rt_inv s1" "l \<in> set (rt_listeners s1 th)" "ar_gen s1 = gen"
        "thread_log th s1 = thread_log th s2"
      using rt_call_received [of th l "List.map_filter be_event r" ?s3]
        rt_call_keeps [of th l "List.map_filter be_event r" ?s3] i2 rt_inv_add_listener [OF i2(1)]
      by (simp_all add: call thread_log_def)
    obtain new where new: "thread_log th (rt_run ops1 s1) = thread_log th s1 @ new"
        "rt_received th l (rt_run ops1 s1) = rt_received th l s1 @ List.map_filter be_event new"
      using hears_run [OF assms(5), of s1] s1(2,3) by (auto simp: hears_def)
    have "after_key be_cursor c (thread_log th s1) = Some r"
      using buffer_after [OF i2(1) _ Some] assms(1) i2(2) s1(5) by simp
    then have "after_key be_cursor c (thread_log th (rt_run ops1 s1)) = Some (r @ new)"
      using after_key_append_present new(1) by metis
    moreover have "rt_received th l s2 = rt_received th l s"
      using prepareAttachment_calls [of th "Some c" s] p by (simp add: rt_received_def)
    ultimately show ?thesis
      using new(2) s1(1) by (simp add: map_filter_append)
  qed
qed


text \<open>A thread with two events, a client that has seen the first one, and an event to come.\<close>

definition demo_rt :: agent_rt where
  "demo_rt = rt_run [Publish ''t'' resync_event, Publish ''t'' resync_event]
     (new_rt demo_gen show_int (\<lambda>_ _. False) 4 60000 0)"

definition demo_entry :: "string \<Rightarrow> buffer_entry" where
  "demo_entry c = \<lparr>be_cursor = c, be_event = Some (resync_event\<lparr>ev_id := Some c\<rparr>), be_recordedAt = 0\<rparr>"

lemma demo_publish:
  assumes "ar_listeners s = []" and "ar_buffers s = (if b = [] then [] else [(''t'', b)])"
    and "length b < ar_bufferLimit s" and "\<forall>e \<in> set b. be_recordedAt e = 0" and "ar_now s = 0"
    and "0 \<le> ar_bufferTtlMs s"
  shows "snd (rt_publish ''t'' resync_event s) =
    s\<lparr>ar_used := Suc (ar_used s), ar_buffers := [(''t'', b @ [demo_entry (ar_gen s (ar_used s))])],
      ar_log := ar_log s @ [(''t'', demo_entry (ar_gen s (ar_used s)))]\<rparr>"
proof -
  have "dropWhile (\<lambda>e. be_recordedAt e < - ar_bufferTtlMs s) b = b"
    using assms(4,6) by (cases b) auto
  then show ?thesis
    using assms
    by (simp add: rt_publish_def rt_emit_def nextCursor_def appendBuffer_def pruneBuffer_def Let_def
        entries_of_def prune_entries_def trim_to_def resync_event_def obj_get_def demo_entry_def)
qed

lemma demo_rt_eq:
  "demo_rt = (new_rt demo_gen show_int (\<lambda>_ _. False) 4 60000 0)
     \<lparr>ar_used := 2, ar_buffers := [(''t'', [demo_entry ''a'', demo_entry ''aa''])],
      ar_log := [(''t'', demo_entry ''a''), (''t'', demo_entry ''aa'')]\<rparr>"
  by (simp add: demo_rt_def rt_run_def demo_publish [where b = "[]"] new_rt_def demo_gen_def
      demo_publish [where b = "[demo_entry ''a'']"] demo_entry_def)

lemma demo_rt_attach:
  "\<exists>s1. rt_attachCallback ''t'' 3 (Some ''a'') demo_rt = (Inr (Attached 1 (Some True)), s1)"
proof -
  have "\<exists>s1. prepareAttachment ''t'' (Some ''a'') demo_rt =
      (Plan_attached [resync_event\<lparr>ev_id := Some ''aa''\<rparr>] (Some True) 3, s1) \<and> ar_throws s1 = (\<lambda>_ _. False)"
    by (simp add: prepareAttachment_def ensureSnapshot_def ensureCursorAvailable_def pushCheckpoint_eq
        demo_rt_eq new_rt_def with_cursor_def appendBuffer_def pruneBuffer_def entries_of_def
        prune_entries_def trim_to_def demo_entry_def put_snapshot_def initial_snapshot_def truthy_def
        checkpoint_entry_def demo_gen_def List.map_filter_simps Let_def conj_disj_distribR ex_disj_distrib)
  then show ?thesis
    by (auto simp: rt_attachCallback_def Let_def rt_add_listener_def)
qed

theorem agent_attach_exact_or_resync_witness:
  "\<exists>s1 rest. rt_attachCallback ''t'' 3 (Some ''a'') demo_rt = (Inr (Attached 1 (Some True)), s1) \<and>
     after_key be_cursor ''a'' (thread_log ''t'' (rt_run [Publish ''t'' resync_event] s1)) = Some rest \<and>
     rt_received ''t'' 3 (rt_run [Publish ''t'' resync_event] s1) =
       rt_received ''t'' 3 demo_rt @ List.map_filter be_event rest"
proof -
  obtain s1 where s1: "rt_attachCallback ''t'' 3 (Some ''a'') demo_rt = (Inr (Attached 1 (Some True)), s1)"
    using demo_rt_attach by blast
  then show ?thesis
    using agent_attach_exact_or_resync [OF demo_gen_mono demo_rt_def _ s1,
        of "[Publish ''t'' resync_event]"] by auto
qed

text \<open>The cursor a snapshot carries is buffered: if it was not, a checkpoint was pushed.\<close>

lemma rt_push_last: "0 < n \<Longrightarrow> 0 \<le> ttl \<Longrightarrow> e \<in> set (rt_push n ttl b e)"
  by (auto simp: rt_push_def trim_to_def Suc_diff_le)

lemma checkpoint_buffered:
  assumes "0 < ar_bufferLimit s" and "0 \<le> ar_bufferTtlMs s"
  shows "checkpoint_entry (ar_now s) (ar_gen s (ar_used s)) \<in>
    set (rt_buffer (with_cursor th (checkpoint_entry (ar_now s)) sns s) th)"
  using assms by (simp add: with_cursor_def buffer_append checkpoint_entry_def rt_push_last)

lemma ensureSnapshot_static [simp]:
  "ar_bufferLimit (snd (ensureSnapshot th s)) = ar_bufferLimit s"
  "ar_bufferTtlMs (snd (ensureSnapshot th s)) = ar_bufferTtlMs s"
  "ar_now (snd (ensureSnapshot th s)) = ar_now s" "ar_gen (snd (ensureSnapshot th s)) = ar_gen s"
  by (simp_all add: ensureSnapshot_def pushCheckpoint_eq put_snapshot_def Let_def split: option.split)

lemma ensureCursor_static [simp]:
  "ar_bufferLimit (snd (ensureCursorAvailable th sn s)) = ar_bufferLimit s"
  "ar_bufferTtlMs (snd (ensureCursorAvailable th sn s)) = ar_bufferTtlMs s"
  "ar_now (snd (ensureCursorAvailable th sn s)) = ar_now s"
  "ar_gen (snd (ensureCursorAvailable th sn s)) = ar_gen s"
  by (simp_all add: ensureCursorAvailable_def pushCheckpoint_eq put_snapshot_def Let_def)

lemma ensureCursor_buffered:
  assumes "0 < ar_bufferLimit s" and "0 \<le> ar_bufferTtlMs s"
    and "ensureCursorAvailable th sn s = (sn', s')"
  shows "sn_streamCursor sn' \<in> be_cursor ` set (rt_buffer s' th)"
  using assms checkpoint_buffered [of "pruneBuffer th s" th "ar_snapshots (pruneBuffer th s)"]
  by (auto simp: ensureCursorAvailable_def Let_def pushCheckpoint_eq put_snapshot_def
      split: if_splits intro!: rev_image_eqI simp: checkpoint_entry_def)


lemma prune_entries_idem:
  "length b \<le> n \<Longrightarrow> prune_entries n k (prune_entries n k b) = prune_entries n k b"
proof -
  assume "length b \<le> n"
  then have "length (dropWhile P b) \<le> n" for P
    using length_dropWhile_le [of P b] by (meson le_trans)
  then show ?thesis
    by (simp add: prune_entries_def trim_to_def)
qed

lemma prune_keeps_last: "0 < n \<Longrightarrow> k \<le> be_recordedAt e \<Longrightarrow> e \<in> set (prune_entries n k (xs @ [e]))"
  by (auto simp: prune_entries_def trim_to_def dropWhile_append Suc_diff_le)

lemma rt_push_snoc: "0 < n \<Longrightarrow> \<exists>xs. rt_push n ttl b e = xs @ [e]"
  by (auto simp: rt_push_def trim_to_def Suc_diff_le)

text \<open>The cursor survives another pruning at the same time.\<close>

definition kept :: "string \<Rightarrow> string \<Rightarrow> agent_rt \<Rightarrow> bool" where
  "kept th c s \<longleftrightarrow> c \<in> be_cursor ` set (rt_buffer (pruneBuffer th s) th)"

lemma kept_snapshots [simp]: "kept th c (s\<lparr>ar_snapshots := x\<rparr>) = kept th c s"
  by (simp add: kept_def buffer_prune)

lemma kept_put [simp]: "kept th c (put_snapshot x sn s) = kept th c s"
  by (simp add: put_snapshot_def)

lemma kept_checkpoint:
  assumes "0 < ar_bufferLimit s" and "0 \<le> ar_bufferTtlMs s"
  shows "kept th (ar_gen s (ar_used s)) (snd (pushCheckpoint th s))"
proof -
  obtain xs where "rt_buffer (snd (pushCheckpoint th s)) th =
      xs @ [checkpoint_entry (ar_now s) (ar_gen s (ar_used s))]"
    using rt_push_snoc assms(1)
    by (fastforce simp: pushCheckpoint_eq with_cursor_def buffer_append checkpoint_entry_def)
  then show ?thesis
    using assms prune_keeps_last [of "ar_bufferLimit s" "ar_now s - ar_bufferTtlMs s"
        "checkpoint_entry (ar_now s) (ar_gen s (ar_used s))" xs]
    by (auto simp: kept_def buffer_prune pushCheckpoint_eq checkpoint_entry_def intro!: rev_image_eqI)
qed

lemma ensureCursor_kept:
  assumes "0 < ar_bufferLimit s" and "0 \<le> ar_bufferTtlMs s" and "rt_inv s"
    and "ensureCursorAvailable th sn s = (sn', s')"
  shows "kept th (sn_streamCursor sn') s'"
proof (cases "\<exists>e \<in> set (rt_buffer (pruneBuffer th s) th). be_cursor e = sn_streamCursor sn")
  case True
  moreover have "length (rt_buffer s th) \<le> ar_bufferLimit s"
    using assms(3) by (simp add: rt_inv_def)
  ultimately show ?thesis
    using assms(4) by (auto simp: ensureCursorAvailable_def Let_def kept_def buffer_prune prune_entries_idem
        image_iff) metis
next
  case False
  then show ?thesis
    using assms kept_checkpoint [of "pruneBuffer th s" th]
    by (auto simp: ensureCursorAvailable_def Let_def pushCheckpoint_eq)
qed

lemma ensureSnapshot_put:
  "ensureSnapshot th s = (sn, s') \<Longrightarrow> map_of (ar_snapshots s') th = Some sn"
  by (auto simp: ensureSnapshot_def pushCheckpoint_eq put_snapshot_def Let_def update_conv'
      split: option.splits)

lemma ensureCursor_put:
  "ensureCursorAvailable th sn s = (sn', s') \<Longrightarrow> map_of (ar_snapshots s) th = Some sn \<Longrightarrow>
   map_of (ar_snapshots s') th = Some sn'"
  by (auto simp: ensureCursorAvailable_def pushCheckpoint_eq put_snapshot_def Let_def update_conv'
      split: if_splits)

lemma hears_inv: "(\<And>th l. hears th l s s') \<Longrightarrow> rt_inv s \<Longrightarrow> rt_inv s'"
  by (meson hears_def)

lemma getSnapshot_kept:
  assumes "0 < ar_bufferLimit s" and "0 \<le> ar_bufferTtlMs s" and "rt_inv s"
    and "getSnapshot th fb s = (view, s')"
  shows "kept th (as_stream_cursor view) s' \<and>
    map_option sn_streamCursor (map_of (ar_snapshots s') th) = Some (as_stream_cursor view)"
proof -
  obtain sn0 s1 where 1: "ensureSnapshot th s = (sn0, s1)" by (cases "ensureSnapshot th s")
  obtain sn s2 where 2: "ensureCursorAvailable th sn0 s1 = (sn, s2)"
    by (cases "ensureCursorAvailable th sn0 s1")
  have static: "ar_bufferLimit s1 = ar_bufferLimit s" "ar_bufferTtlMs s1 = ar_bufferTtlMs s"
      "ar_bufferLimit s2 = ar_bufferLimit s" "ar_bufferTtlMs s2 = ar_bufferTtlMs s"
    using ensureSnapshot_static [of th s] ensureCursor_static [of th sn0 s1] by (simp_all add: 1 2)
  have "rt_inv s1"
    using hears_inv [OF hears_ensureSnapshot [of _ _ s th] assms(3)] 1 by simp
  with static have k: "kept th (sn_streamCursor sn) s2"
    using ensureCursor_kept [OF _ _ _ 2] assms(1,2) by simp
  have p: "map_of (ar_snapshots s2) th = Some sn"
    using ensureCursor_put [OF 2] ensureSnapshot_put [OF 1] .
  show ?thesis
    using assms(4) k p kept_checkpoint [of s2 th] static assms(1,2)
    by (auto simp: getSnapshot_def 1 2 Let_def serializeSnapshot_def pushCheckpoint_eq put_snapshot_def
        update_conv' split: if_splits)
qed

lemma attach_kept:
  assumes "kept th c s" and "c \<noteq> []" and "rt_inv s"
    and "map_option sn_streamCursor (map_of (ar_snapshots s) th) = Some c"
  shows "\<exists>replay n s2. prepareAttachment th (Some c) s = (Plan_attached replay (Some True) n, s2)"
proof -
  obtain sn where sn: "map_of (ar_snapshots s) th = Some sn" "sn_streamCursor sn = c"
    using assms(4) by auto
  have same: "rt_buffer (pruneBuffer th (pruneBuffer th s)) th = rt_buffer (pruneBuffer th s) th"
    using assms(3) by (simp add: buffer_prune rt_inv_def prune_entries_idem)
  have mem: "\<exists>e \<in> set (rt_buffer (pruneBuffer th s) th). be_cursor e = c"
    using assms(1) by (auto simp: kept_def)
  then obtain i where "find_index (\<lambda>e. be_cursor e = c) (rt_buffer (pruneBuffer th s) th) = Some i"
    using find_index_None_iff [of "\<lambda>e. be_cursor e = c"] by (metis not_None_eq)
  then show ?thesis
    using assms(2) sn same mem
    by (simp add: prepareAttachment_def ensureSnapshot_def ensureCursorAvailable_def truthy_def Let_def)
qed


text \<open>The cursor that a snapshot hands out can be attached at: a client that reads a snapshot
  and attaches at its cursor is never told to resync.\<close>

theorem snapshot_cursor_attachable:
  assumes "strict_mono gen" and "\<And>n. gen n \<noteq> []" and "0 < limit"
    and "0 \<le> ttl" and s: "s = rt_run ops (new_rt gen toIso throws limit ttl now)"
    and "getSnapshot th fb s = (view, s1)"
  shows "\<exists>replay n s2. prepareAttachment th (Some (as_stream_cursor view)) s1 =
      (Plan_attached replay (Some True) n, s2)"
proof -
  note i = reachable_inv [OF s]
  have kept: "kept th (as_stream_cursor view) s1 \<and>
      map_option sn_streamCursor (map_of (ar_snapshots s1) th) = Some (as_stream_cursor view)"
    using getSnapshot_kept [OF _ _ _ assms(6)] i assms(3,4) by simp
  have i1: "rt_inv s1" "ar_gen s1 = gen"
    using hears_getSnapshot [of th undefined s th fb] i(1,2) assms(6) by (auto simp: hears_def)
  have "as_stream_cursor view \<in> be_cursor ` set (thread_log th s1)"
    using kept rt_inv_prune [OF i1(1), of th] set_mono_suffix
    by (fastforce simp: kept_def rt_inv_def thread_log_cong [of "pruneBuffer th s1" s1])
  then have "as_stream_cursor view \<in> set (map (\<lambda>x. be_cursor (snd x)) (ar_log s1))"
    by (auto simp: thread_log_def)
  also have "\<dots> = gen ` {0..<ar_used s1}"
    using i1 unfolding rt_inv_def by simp
  finally have "as_stream_cursor view \<noteq> []"
    using assms(2) by (metis imageE)
  then show ?thesis
    using attach_kept [OF _ _ i1(1)] kept by blast
qed

theorem snapshot_cursor_attachable_witness:
  "\<exists>replay n s2. prepareAttachment ''t''
     (Some (as_stream_cursor (fst (getSnapshot ''t'' False demo_rt)))) (snd (getSnapshot ''t'' False demo_rt)) =
     (Plan_attached replay (Some True) n, s2)"
  using snapshot_cursor_attachable [OF demo_gen_mono _ _ _ demo_rt_def, of "''t''" False]
  by (simp add: demo_gen_def)


section \<open>Snapshots only move forward\<close>

definition snap_cursor :: "string \<Rightarrow> agent_rt \<Rightarrow> string option" where
  "snap_cursor th s = map_option sn_streamCursor (map_of (ar_snapshots s) th)"

text \<open>Every snapshot carries a cursor that the factory has handed out.\<close>

definition past_cursor :: "agent_rt \<Rightarrow> string \<Rightarrow> bool" where
  "past_cursor s c \<longleftrightarrow> c \<in> ar_gen s ` {..<ar_used s}"

definition cursors_known :: "agent_rt \<Rightarrow> bool" where
  "cursors_known s \<longleftrightarrow> (\<forall>th c. snap_cursor th s = Some c \<longrightarrow> past_cursor s c)"

definition moves_on :: "agent_rt \<Rightarrow> agent_rt \<Rightarrow> bool" where
  "moves_on s s' \<longleftrightarrow>
     (strict_mono (ar_gen s) \<and> cursors_known s \<longrightarrow>
        cursors_known s' \<and> ar_gen s' = ar_gen s \<and> ar_used s \<le> ar_used s' \<and>
        (\<forall>th c. snap_cursor th s = Some c \<longrightarrow> (\<exists>c'. snap_cursor th s' = Some c' \<and> c \<le> c')))"

lemma moves_on_refl [simp]: "moves_on s s"
  by (auto simp: moves_on_def)

lemma moves_on_trans: "moves_on s s1 \<Longrightarrow> moves_on s1 s2 \<Longrightarrow> moves_on s s2"
  unfolding moves_on_def by (metis le_trans order_trans)

lemma past_cursor_mono:
  "past_cursor s c \<Longrightarrow> ar_gen s' = ar_gen s \<Longrightarrow> ar_used s \<le> ar_used s' \<Longrightarrow> past_cursor s' c"
  by (fastforce simp: past_cursor_def)

lemma moves_on_same:
  "ar_snapshots s' = ar_snapshots s \<Longrightarrow> ar_gen s' = ar_gen s \<Longrightarrow> ar_used s \<le> ar_used s' \<Longrightarrow> moves_on s s'"
  using past_cursor_mono [of s _ s'] by (auto simp: moves_on_def cursors_known_def snap_cursor_def)

lemma past_cursor_less:
  "strict_mono (ar_gen s) \<Longrightarrow> past_cursor s c \<Longrightarrow> c < ar_gen s (ar_used s)"
  by (auto simp: past_cursor_def strict_monoD)

lemma moves_on_put:
  assumes "strict_mono (ar_gen s) \<Longrightarrow> cursors_known s \<Longrightarrow> past_cursor s (sn_streamCursor sn) \<and>
      (\<forall>c. snap_cursor th s = Some c \<longrightarrow> c \<le> sn_streamCursor sn)"
  shows "moves_on s (put_snapshot th sn s)"
  using assms
  by (auto simp: moves_on_def cursors_known_def past_cursor_def snap_cursor_def put_snapshot_def update_conv')

text \<open>A fresh cursor is later than every known one.\<close>

lemma moves_on_fresh:
  assumes "sn_streamCursor sn = ar_gen s (ar_used s)"
  shows "moves_on s (with_cursor th mk (AList.update x sn (ar_snapshots s)) s)"
  unfolding moves_on_def
proof (intro impI)
  assume a: "strict_mono (ar_gen s) \<and> cursors_known s"
  then have le: "snap_cursor y s = Some c \<Longrightarrow> c \<le> ar_gen s (ar_used s)" for y c
    using past_cursor_less [of s c] by (auto simp: cursors_known_def)
  show "cursors_known (with_cursor th mk (AList.update x sn (ar_snapshots s)) s) \<and>
      ar_gen (with_cursor th mk (AList.update x sn (ar_snapshots s)) s) = ar_gen s \<and>
      ar_used s \<le> ar_used (with_cursor th mk (AList.update x sn (ar_snapshots s)) s) \<and>
      (\<forall>y c. snap_cursor y s = Some c \<longrightarrow>
        (\<exists>c'. snap_cursor y (with_cursor th mk (AList.update x sn (ar_snapshots s)) s) = Some c' \<and> c \<le> c'))"
    using a le assms past_cursor_mono [of s _ "with_cursor th mk (AList.update x sn (ar_snapshots s)) s"]
    by (auto simp: cursors_known_def snap_cursor_def update_conv') (simp add: past_cursor_def)
qed

lemma put_with_cursor:
  "put_snapshot x sn (with_cursor th mk sns s) = with_cursor th mk (AList.update x sn sns) s"
  by (simp add: put_snapshot_def with_cursor_def appendBuffer_def pruneBuffer_def Let_def)

lemma moves_on_ensureSnapshot: "moves_on s (snd (ensureSnapshot th s))"
proof (cases "map_of (ar_snapshots s) th")
  case None
  then show ?thesis
    by (simp add: ensureSnapshot_def pushCheckpoint_eq Let_def put_with_cursor moves_on_fresh
        initial_snapshot_def)
next
  case (Some sn)
  then show ?thesis
    by (simp add: ensureSnapshot_def moves_on_same)
qed

lemma moves_on_ensureCursor:
  "map_of (ar_snapshots s) th = Some sn \<Longrightarrow> moves_on s (snd (ensureCursorAvailable th sn s))"
  using moves_on_trans [OF moves_on_same [of "pruneBuffer th s" s] moves_on_fresh]
  by (auto simp: ensureCursorAvailable_def pushCheckpoint_eq Let_def put_with_cursor moves_on_same)


definition cursor_arg_ok :: "agent_rt \<Rightarrow> string option \<Rightarrow> bool" where
  "cursor_arg_ok s c \<longleftrightarrow> (truthy c \<longrightarrow> past_cursor s (the c))"

lemma moves_on_updateSnapshot:
  assumes "\<And>sn. sn_streamCursor (f sn) = sn_streamCursor sn" and "cursor_arg_ok s c"
  shows "moves_on s (snd (updateSnapshot th f c s))"
proof -
  obtain sn s1 where e: "ensureSnapshot th s = (sn, s1)"
    by (cases "ensureSnapshot th s")
  have 1: "moves_on s s1"
    using moves_on_ensureSnapshot [of s th] e by simp
  have c1: "snap_cursor th s1 = Some (sn_streamCursor sn)"
    using ensureSnapshot_put [OF e] by (simp add: snap_cursor_def)
  show ?thesis
  proof (cases "truthy c")
    case False
    then show ?thesis
      by (simp add: updateSnapshot_def e pushCheckpoint_eq Let_def put_with_cursor
          moves_on_trans [OF 1 moves_on_fresh])
  next
    case True
    have "ar_gen s1 = ar_gen s" "ar_used s \<le> ar_used s1"
      using e by (auto simp: ensureSnapshot_def pushCheckpoint_eq put_snapshot_def Let_def
          split: option.splits)
    then have "past_cursor s1 (the c)"
      using assms(2) True past_cursor_mono [of s "the c" s1] by (simp add: cursor_arg_ok_def)
    then have "moves_on s1 (put_snapshot th (f sn\<lparr>sn_streamCursor :=
        (if the c > sn_streamCursor sn then the c else sn_streamCursor sn), sn_updatedAt := u\<rparr>) s1)" for u
      using c1 by (intro moves_on_put) (auto simp: cursors_known_def)
    then show ?thesis
      using moves_on_trans [OF 1] True assms(1)
      by (cases "the c > sn_streamCursor sn") (simp_all add: updateSnapshot_def e Let_def)
  qed
qed

lemma moves_on_emit:
  assumes "bp = (\<lambda>_ s. s) \<or> (\<exists>x sn. bp = (\<lambda>cursor s. put_snapshot x (sn\<lparr>sn_output_activity := act,
      sn_streamCursor := cursor, sn_updatedAt := ar_now s\<rparr>) s))"
  shows "moves_on s (snd (rt_emit th ev bp s))"
proof -
  obtain ev' where ev': "snd (rt_emit th ev bp s) =
      (let s3 = appendBuffer th \<lparr>be_cursor = ar_gen s (ar_used s), be_event = Some ev',
           be_recordedAt = ar_now (bp (ar_gen s (ar_used s)) (s\<lparr>ar_used := Suc (ar_used s)\<rparr>))\<rparr>
           (bp (ar_gen s (ar_used s)) (s\<lparr>ar_used := Suc (ar_used s)\<rparr>))
       in s3\<lparr>ar_calls := ar_calls s3 @ map (\<lambda>l. (th, l, ev')) (rt_listeners s3 th)\<rparr>)"
    by (simp add: rt_emit_def nextCursor_def Let_def)
  from assms show ?thesis
  proof (elim disjE exE)
    assume bp: "bp = (\<lambda>_ s. s)"
    show ?thesis
      unfolding ev' Let_def by (rule moves_on_same) (simp_all add: bp)
  next
    fix x sn
    assume bp: "bp = (\<lambda>cursor s. put_snapshot x (sn\<lparr>sn_output_activity := act,
      sn_streamCursor := cursor, sn_updatedAt := ar_now s\<rparr>) s)"
    let ?sn = "sn\<lparr>sn_output_activity := act, sn_streamCursor := ar_gen s (ar_used s),
        sn_updatedAt := ar_now s\<rparr>"
    have "moves_on s (with_cursor th (\<lambda>c. \<lparr>be_cursor = c, be_event = Some ev', be_recordedAt = ar_now s\<rparr>)
        (AList.update x ?sn (ar_snapshots s)) s)"
      by (rule moves_on_fresh) simp
    then show ?thesis
      unfolding ev' Let_def
      by (rule moves_on_trans) (rule moves_on_same, simp_all add: bp put_snapshot_def)
  qed
qed

lemma moves_on_setOutputActivity: "moves_on s (setOutputActivity th t c st b s)"
proof -
  have "moves_on s (snd (rt_emit th ev (\<lambda>cursor s. put_snapshot th (sn\<lparr>sn_output_activity := a,
      sn_streamCursor := cursor, sn_updatedAt := ar_now s\<rparr>) s) (snd (ensureSnapshot th s))))" for ev sn a
    by (rule moves_on_trans [OF moves_on_ensureSnapshot moves_on_emit]) blast
  then show ?thesis
    unfolding setOutputActivity_def Let_def case_prod_unfold
    by (simp add: moves_on_ensureSnapshot)
qed

lemma moves_on_clearOutputActivity: "moves_on s (clearOutputActivity th s)"
  unfolding clearOutputActivity_def Let_def case_prod_unfold
  by (auto intro: moves_on_ensureSnapshot moves_on_trans [OF moves_on_ensureSnapshot moves_on_setOutputActivity]
      split: option.split)

lemma moves_on_publish: "moves_on s (snd (rt_publish th ev s))"
  unfolding rt_publish_def by (rule moves_on_emit) simp

lemma moves_on_invalidate: "moves_on s (invalidateReplay s)"
proof -
  have "moves_on s (fold (\<lambda>th s. snd (rt_publish th resync_event s)) ths s)" for s ths
    by (induction ths arbitrary: s) (auto intro: moves_on_trans moves_on_publish)
  moreover have "moves_on s (s\<lparr>ar_buffers := []\<rparr>)"
    by (rule moves_on_same) simp_all
  ultimately show ?thesis
    unfolding invalidateReplay_def Let_def using moves_on_trans by blast
qed

lemma moves_on_ensure_both:
  "moves_on s (snd (ensureCursorAvailable th (fst (ensureSnapshot th s)) (snd (ensureSnapshot th s))))"
  by (rule moves_on_trans [OF moves_on_ensureSnapshot moves_on_ensureCursor])
     (rule ensureSnapshot_put, simp)

lemma moves_on_getSnapshot: "moves_on s (snd (getSnapshot th fb s))"
  using moves_on_ensure_both [of s th]
  by (auto simp: getSnapshot_def Let_def case_prod_unfold pushCheckpoint_eq put_with_cursor
      intro: moves_on_trans [OF _ moves_on_fresh])

lemma moves_on_prepare: "moves_on s (snd (prepareAttachment x c s))"
  using moves_on_ensure_both [of s x] by (simp add: prepareAttachment_def Let_def case_prod_unfold)

lemma moves_on_attaching:
  "moves_on s s1 \<Longrightarrow> moves_on s (snd (rt_call_until_throw x l es (rt_add_listener x l s1)))"
  by (erule moves_on_trans, rule moves_on_same) simp_all

lemma moves_on_attach:
  "moves_on s (snd (rt_attach x l c s))" "moves_on s (snd (rt_attachCallback x l c s))"
  using moves_on_prepare [of s x c]
  by (auto simp: rt_attach_def rt_attachCallback_def moves_on_attaching simp del: rt_call_until_throw.simps
      split: prod.split attach_plan.split)

text \<open>The cursors that callers pass back are ones that \<open>emit\<close> returned earlier.\<close>

fun cursor_arg :: "rt_op \<Rightarrow> string option" where
  "cursor_arg (MarkThinking _ c) = c"
| "cursor_arg (SetPendingTool _ _ c) = Some c"
| "cursor_arg (SetPendingUserQuestions _ _ c) = Some c"
| "cursor_arg (SetPendingTerminalWait _ _ c) = Some c"
| "cursor_arg (SetDraftAssistant _ _ _ c _ _) = Some c"
| "cursor_arg (ClearDraftAssistant _ c) = c"
| "cursor_arg (SetDraftReasoning _ _ _ c) = Some c"
| "cursor_arg (ClearDraftReasoning _ _ c) = c"
| "cursor_arg (AdvanceCursor _ c) = Some c"
| "cursor_arg (SetContextBudget _ _ c) = c"
| "cursor_arg (ClearContextBudget _ c) = c"
| "cursor_arg (SetLastError _ _ c) = c"
| "cursor_arg (ClearLastError _ c) = c"
| "cursor_arg (SetEnvironment _ _ c) = c"
| "cursor_arg _ = None"

fun cursors_from_emit :: "rt_op list \<Rightarrow> agent_rt \<Rightarrow> bool" where
  "cursors_from_emit [] s = True"
| "cursors_from_emit (x # ops) s = (cursor_arg_ok s (cursor_arg x) \<and> cursors_from_emit ops (rt_exec x s))"

lemma moves_on_clear_update:
  assumes "\<And>sn. sn_streamCursor (f sn) = sn_streamCursor sn" and "cursor_arg_ok s c"
  shows "moves_on s (snd (updateSnapshot th f c (clearOutputActivity th s)))"
proof (cases "strict_mono (ar_gen s) \<and> cursors_known s")
  case True
  then have "ar_gen (clearOutputActivity th s) = ar_gen s" "ar_used s \<le> ar_used (clearOutputActivity th s)"
    using moves_on_clearOutputActivity [of s th] by (auto simp: moves_on_def)
  then have "cursor_arg_ok (clearOutputActivity th s) c"
    using assms(2) past_cursor_mono by (auto simp: cursor_arg_ok_def)
  then show ?thesis
    by (rule moves_on_trans [OF moves_on_clearOutputActivity moves_on_updateSnapshot [OF assms(1)]])
qed (auto simp: moves_on_def)

lemma moves_on_exec: "cursor_arg_ok s (cursor_arg x) \<Longrightarrow> moves_on s (rt_exec x s)"
proof (cases x)
  case (Tick d)
  show ?thesis
    unfolding Tick rt_exec.simps by (rule moves_on_same) simp_all
next
  case (RtDetach th l)
  show ?thesis
    unfolding RtDetach rt_exec.simps by (rule moves_on_same) simp_all
qed (auto simp: update_ops Let_def await_tool_def cursor_arg_ok_def [of _ None] truthy_def
      intro!: moves_on_updateSnapshot moves_on_clear_update moves_on_setOutputActivity
      moves_on_clearOutputActivity moves_on_getSnapshot moves_on_publish moves_on_invalidate moves_on_attach)

lemma moves_on_run: "cursors_from_emit ops s \<Longrightarrow> moves_on s (rt_run ops s)"
  unfolding rt_run_def by (induction ops arbitrary: s) (auto intro: moves_on_trans moves_on_exec)

lemma cursors_from_emit_append:
  "cursors_from_emit (xs @ ys) s \<longleftrightarrow> cursors_from_emit xs s \<and> cursors_from_emit ys (rt_run xs s)"
  by (induction xs arbitrary: s) (auto simp: rt_run_def)

text \<open>As long as callers pass back cursors that \<open>emit\<close> returned, the stream cursor of a
  snapshot never moves back, whatever the order of the operations.\<close>

theorem snapshot_cursor_never_back:
  assumes "strict_mono gen" and "cursors_from_emit (ops0 @ ops1) (new_rt gen toIso throws limit ttl now)"
    and "s = rt_run ops0 (new_rt gen toIso throws limit ttl now)" and "snap_cursor th s = Some c"
  shows "\<exists>c'. snap_cursor th (rt_run ops1 s) = Some c' \<and> c \<le> c'"
proof -
  let ?s0 = "new_rt gen toIso throws limit ttl now"
  have "cursors_known ?s0" "ar_gen ?s0 = gen"
    by (simp_all add: cursors_known_def snap_cursor_def new_rt_def)
  then have "strict_mono (ar_gen s) \<and> cursors_known s"
    using moves_on_run [of ops0 ?s0] assms(1-3) by (auto simp: moves_on_def cursors_from_emit_append)
  then show ?thesis
    using moves_on_run [of ops1 s] assms(2-4) by (auto simp: moves_on_def cursors_from_emit_append)
qed

theorem snapshot_cursor_never_back_witness:
  "\<exists>c c'. snap_cursor ''t'' (rt_run [StartTurn ''t'' ''u'' JNull]
       (new_rt demo_gen show_int (\<lambda>_ _. False) 4 60000 0)) = Some c \<and>
     snap_cursor ''t'' (rt_run [FinishTurn ''t''] (rt_run [StartTurn ''t'' ''u'' JNull]
       (new_rt demo_gen show_int (\<lambda>_ _. False) 4 60000 0))) = Some c' \<and> c \<le> c'"
proof -
  let ?s0 = "new_rt demo_gen show_int (\<lambda>_ _. False) 4 60000 0"
  have "snap_cursor ''t'' (rt_run [StartTurn ''t'' ''u'' JNull] ?s0) = Some ''aa''"
    by (simp add: rt_run_def startTurn_def updateSnapshot_def ensureSnapshot_def pushCheckpoint_eq new_rt_def
        put_snapshot_def Let_def truthy_def snap_cursor_def demo_gen_def update_conv')
  then show ?thesis
    using snapshot_cursor_never_back [OF demo_gen_mono _ refl, of "[StartTurn ''t'' ''u'' JNull]"
        "[FinishTurn ''t'']" show_int "\<lambda>_ _. False" 4 60000 0 "''t''"]
    by (auto simp: cursor_arg_ok_def truthy_def)
qed


section \<open>Turns\<close>

text \<open>Output activity only ever belongs to a live turn.\<close>

definition activity_ok :: "internal_snapshot \<Rightarrow> bool" where
  "activity_ok sn \<longleftrightarrow> (sn_output_activity sn \<noteq> None \<longrightarrow> sn_active sn \<and> truthy (sn_turnId sn))"

definition turn_inv :: "agent_rt \<Rightarrow> bool" where
  "turn_inv s \<longleftrightarrow> (\<forall>th sn. map_of (ar_snapshots s) th = Some sn \<longrightarrow>
     activity_ok sn \<and> (sn_turnId sn \<noteq> None \<longrightarrow> truthy (sn_turnId sn)))"

lemma turn_inv_cong: "ar_snapshots s' = ar_snapshots s \<Longrightarrow> turn_inv s' = turn_inv s"
  by (simp add: turn_inv_def)

lemma turn_inv_put:
  "turn_inv s \<Longrightarrow> activity_ok sn \<Longrightarrow> (sn_turnId sn \<noteq> None \<Longrightarrow> truthy (sn_turnId sn)) \<Longrightarrow>
   turn_inv (put_snapshot th sn s)"
  by (auto simp: turn_inv_def put_snapshot_def update_conv')

lemma checkpoint_snapshots [simp]: "ar_snapshots (snd (pushCheckpoint th s)) = ar_snapshots s"
  by (simp add: pushCheckpoint_eq)

lemma turn_inv_pushCheckpoint [simp]: "turn_inv (snd (pushCheckpoint th s)) = turn_inv s"
  by (rule turn_inv_cong) simp

lemma turn_inv_ensureSnapshot: "turn_inv s \<Longrightarrow> turn_inv (snd (ensureSnapshot th s))"
proof (cases "map_of (ar_snapshots s) th")
  case None
  assume "turn_inv s"
  then have "turn_inv (put_snapshot th (initial_snapshot c u) (snd (pushCheckpoint th s)))" for c u
    by (intro turn_inv_put) (simp_all add: initial_snapshot_def activity_ok_def)
  with None show ?thesis
    by (simp add: ensureSnapshot_def Let_def case_prod_unfold)
next
  case (Some sn)
  assume "turn_inv s"
  with Some show ?thesis
    using turn_inv_cong [of "pruneBuffer th s" s] by (simp add: ensureSnapshot_def)
qed

lemma ensureSnapshot_ok:
  "turn_inv s \<Longrightarrow> activity_ok (fst (ensureSnapshot th s)) \<and>
     (sn_turnId (fst (ensureSnapshot th s)) \<noteq> None \<longrightarrow> truthy (sn_turnId (fst (ensureSnapshot th s))))"
  using turn_inv_ensureSnapshot [of s th] ensureSnapshot_put [of th s] unfolding turn_inv_def
  by (metis prod.collapse)

text \<open>The snapshot that an update stores and shows, up to cursor and time.\<close>

lemma updateSnapshot_stores:
  "\<exists>c u s2. updateSnapshot th f cursor s =
     (serializeSnapshot (ar_iso s2) (f (fst (ensureSnapshot th s))\<lparr>sn_streamCursor := c, sn_updatedAt := u\<rparr>),
      put_snapshot th (f (fst (ensureSnapshot th s))\<lparr>sn_streamCursor := c, sn_updatedAt := u\<rparr>) s2) \<and>
     ar_snapshots s2 = ar_snapshots (snd (ensureSnapshot th s))"
  unfolding updateSnapshot_def Let_def case_prod_unfold by (intro exI conjI, rule refl) simp

lemma updateSnapshot_view:
  "\<exists>toIso c u. fst (updateSnapshot th f cursor s) =
     serializeSnapshot toIso (f (fst (ensureSnapshot th s))\<lparr>sn_streamCursor := c, sn_updatedAt := u\<rparr>)"
  using updateSnapshot_stores [of th f cursor s] by (metis fst_conv)

lemma turn_inv_updateSnapshot_at:
  assumes "turn_inv s" and "activity_ok (f (fst (ensureSnapshot th s)))"
    and "sn_turnId (f (fst (ensureSnapshot th s))) \<noteq> None \<Longrightarrow>
      truthy (sn_turnId (f (fst (ensureSnapshot th s))))"
  shows "turn_inv (snd (updateSnapshot th f c s))"
proof -
  obtain c' u s2 where u: "snd (updateSnapshot th f c s) =
      put_snapshot th (f (fst (ensureSnapshot th s))\<lparr>sn_streamCursor := c', sn_updatedAt := u\<rparr>) s2"
      "ar_snapshots s2 = ar_snapshots (snd (ensureSnapshot th s))"
    using updateSnapshot_stores [of th f c s] by auto
  have "turn_inv s2"
    using turn_inv_ensureSnapshot [OF assms(1)] turn_inv_cong [OF u(2)] by simp
  then show ?thesis
    using assms(2,3) unfolding u(1) by (intro turn_inv_put) (auto simp: activity_ok_def)
qed

lemma turn_inv_updateSnapshot:
  assumes "turn_inv s"
    and "\<And>sn. activity_ok sn \<Longrightarrow> (sn_turnId sn \<noteq> None \<longrightarrow> truthy (sn_turnId sn)) \<Longrightarrow>
      activity_ok (f sn) \<and> (sn_turnId (f sn) \<noteq> None \<longrightarrow> truthy (sn_turnId (f sn)))"
  shows "turn_inv (snd (updateSnapshot th f c s))"
  using turn_inv_updateSnapshot_at [OF assms(1)] assms(2) ensureSnapshot_ok [OF assms(1), of th] by blast

text \<open>A publication that invalidates the replay ends the reply of every attached listener of the thread.\<close>

lemma resync_ends_replies:
  assumes "l \<in> set (rt_listeners s th)"
  shows "rt_reply_ended th l (snd (rt_publish th resync_event s))"
  using assms
  by (simp add: rt_reply_ended_def rt_publish_def rt_emit_def nextCursor_def appendBuffer_def Let_def list_ex_iff
      resync_event_def obj_get_def bex_Un)

lemma emit_snapshots:
  "ar_snapshots (snd (rt_emit th ev bp s)) =
     ar_snapshots (bp (ar_gen s (ar_used s)) (s\<lparr>ar_used := Suc (ar_used s)\<rparr>))"
  by (simp add: rt_emit_def nextCursor_def Let_def)

text \<open>Clearing the output activity of a thread.\<close>

lemma turn_inv_setOutputActivity:
  assumes "turn_inv s"
  shows "turn_inv (setOutputActivity th t c st b s)"
proof -
  let ?sn = "fst (ensureSnapshot th s)" and ?s1 = "snd (ensureSnapshot th s)"
  have i: "turn_inv ?s1" "activity_ok ?sn" "sn_turnId ?sn \<noteq> None \<longrightarrow> truthy (sn_turnId ?sn)"
    using turn_inv_ensureSnapshot [OF assms] ensureSnapshot_ok [OF assms] by auto
  have "turn_inv (snd (rt_emit th ev (\<lambda>cursor s. put_snapshot th (?sn\<lparr>sn_output_activity := a,
      sn_streamCursor := cursor, sn_updatedAt := ar_now s\<rparr>) s) ?s1))"
    if "sn_active ?sn" "sn_turnId ?sn = Some t" for ev a
    by (subst turn_inv_cong [OF emit_snapshots], rule turn_inv_put)
       (use i that in \<open>auto simp: activity_ok_def turn_inv_def\<close>)
  with i(1) show ?thesis
    by (simp add: setOutputActivity_def Let_def case_prod_unfold)
qed


lemma turn_inv_clear: "turn_inv s \<Longrightarrow> turn_inv (clearOutputActivity th s)"
  unfolding clearOutputActivity_def Let_def case_prod_unfold
  by (auto intro: turn_inv_ensureSnapshot turn_inv_setOutputActivity split: option.split)

lemma clearOutputActivity_clears:
  assumes "turn_inv s" and "map_of (ar_snapshots (clearOutputActivity th s)) th = Some sn"
  shows "sn_output_activity sn = None"
proof -
  let ?sn = "fst (ensureSnapshot th s)" and ?s1 = "snd (ensureSnapshot th s)"
  have 1: "map_of (ar_snapshots ?s1) th = Some ?sn"
    using ensureSnapshot_put [of th s] by simp
  have ok: "activity_ok ?sn"
    using ensureSnapshot_ok [OF assms(1)] by blast
  show ?thesis
  proof (cases "sn_output_activity ?sn")
    case None
    with assms(2) 1 show ?thesis by (simp add: clearOutputActivity_def Let_def case_prod_unfold)
  next
    case (Some a)
    with ok obtain t where t: "sn_active ?sn" "sn_turnId ?sn = Some t" "truthy (sn_turnId ?sn)"
      by (auto simp: activity_ok_def truthy_def split: option.splits)
    have same: "ensureSnapshot th ?s1 = (?sn, pruneBuffer th ?s1)"
      by (simp add: ensureSnapshot_def [of th ?s1] 1)
    have "clearOutputActivity th s = setOutputActivity th t (fst a) None False ?s1"
      using Some t by (cases a) (simp add: clearOutputActivity_def Let_def case_prod_unfold)
    with assms(2) show ?thesis
      using Some t
      by (cases a) (auto simp: setOutputActivity_def same emit_snapshots put_snapshot_def update_conv' Let_def)
  qed
qed

lemma turn_inv_publish: "turn_inv s \<Longrightarrow> turn_inv (snd (rt_publish th ev s))"
  by (subst turn_inv_cong [of _ s]) (simp_all add: rt_publish_def emit_snapshots)

lemma turn_inv_invalidate: "turn_inv s \<Longrightarrow> turn_inv (invalidateReplay s)"
proof -
  assume "turn_inv s"
  then have "turn_inv (s\<lparr>ar_buffers := []\<rparr>)"
    by (simp add: turn_inv_def)
  moreover have "turn_inv s \<Longrightarrow> turn_inv (fold (\<lambda>th s. snd (rt_publish th resync_event s)) ths s)" for s ths
    by (induction ths arbitrary: s) (auto intro: turn_inv_publish)
  ultimately show ?thesis
    by (simp add: invalidateReplay_def Let_def)
qed

lemma turn_inv_ensureCursor:
  assumes "turn_inv s" and "map_of (ar_snapshots s) th = Some sn"
  shows "turn_inv (snd (ensureCursorAvailable th sn s))"
proof -
  have "turn_inv (pruneBuffer th s)"
    using assms(1) turn_inv_cong [of "pruneBuffer th s" s] by simp
  moreover have "activity_ok sn \<and> (sn_turnId sn \<noteq> None \<longrightarrow> truthy (sn_turnId sn))"
    using assms by (simp add: turn_inv_def)
  ultimately show ?thesis
    by (auto simp: ensureCursorAvailable_def Let_def case_prod_unfold activity_ok_def intro!: turn_inv_put)
qed

lemma turn_inv_both:
  "turn_inv s \<Longrightarrow>
   turn_inv (snd (ensureCursorAvailable th (fst (ensureSnapshot th s)) (snd (ensureSnapshot th s))))"
  using turn_inv_ensureCursor [OF turn_inv_ensureSnapshot] ensureSnapshot_put [of th s] by simp

lemma turn_inv_getSnapshot:
  assumes "turn_inv s"
  shows "turn_inv (snd (getSnapshot th fb s))"
proof -
  obtain sn s2 where e: "ensureCursorAvailable th (fst (ensureSnapshot th s)) (snd (ensureSnapshot th s)) = (sn, s2)"
    by (metis surj_pair)
  have i: "turn_inv s2" "map_of (ar_snapshots s2) th = Some sn"
    using turn_inv_both [OF assms, of th] ensureCursor_put [OF e] ensureSnapshot_put [of th s] by (simp_all add: e)
  then have "turn_inv (put_snapshot th (sn\<lparr>sn_streamCursor := c\<rparr>) (snd (pushCheckpoint th s2)))" for c
    by (intro turn_inv_put) (auto simp: turn_inv_def activity_ok_def)
  with i(1) show ?thesis
    by (simp add: getSnapshot_def e Let_def case_prod_unfold)
qed

lemma turn_inv_prepare: "turn_inv s \<Longrightarrow> turn_inv (snd (prepareAttachment th c s))"
  using turn_inv_both [of s th] by (simp add: prepareAttachment_def Let_def case_prod_unfold)

lemma turn_inv_attach:
  assumes "turn_inv s"
  shows "turn_inv (snd (rt_attach x l c s))" "turn_inv (snd (rt_attachCallback x l c s))"
proof -
  have "turn_inv (snd (rt_call_until_throw x l es (rt_add_listener x l s1))) = turn_inv s1" for es s1
    by (rule turn_inv_cong) simp
  then show "turn_inv (snd (rt_attach x l c s))" "turn_inv (snd (rt_attachCallback x l c s))"
    using turn_inv_prepare [OF assms, of x c]
    by (auto simp: rt_attach_def rt_attachCallback_def simp del: rt_call_until_throw.simps
        split: prod.split attach_plan.split)
qed

lemma ensureSnapshot_of_some:
  "map_of (ar_snapshots s) th = Some sn \<Longrightarrow> fst (ensureSnapshot th s) = sn"
  by (simp add: ensureSnapshot_def)

lemma clear_has_snapshot: "\<exists>sn. map_of (ar_snapshots (clearOutputActivity th s)) th = Some sn"
proof -
  have 1: "map_of (ar_snapshots (snd (ensureSnapshot th s))) th = Some (fst (ensureSnapshot th s))" for s
    using ensureSnapshot_put [of th s] by simp
  have "\<exists>sn. map_of (ar_snapshots (setOutputActivity th t c st b s)) th = Some sn" for t c st b s
    using 1 [of s] by (auto simp: setOutputActivity_def Let_def case_prod_unfold emit_snapshots
        put_snapshot_def update_conv')
  with 1 show ?thesis
    by (auto simp: clearOutputActivity_def Let_def case_prod_unfold split: option.split)
qed

lemma activity_after_clear:
  assumes "turn_inv s"
  shows "sn_output_activity (fst (ensureSnapshot th (clearOutputActivity th s))) = None"
proof -
  obtain sn where sn: "map_of (ar_snapshots (clearOutputActivity th s)) th = Some sn"
    using clear_has_snapshot by blast
  then show ?thesis
    using clearOutputActivity_clears [OF assms sn] ensureSnapshot_of_some [OF sn] by simp
qed

lemma turn_inv_finish: "turn_inv s \<Longrightarrow> turn_inv (snd (finishTurn th s))"
  unfolding finishTurn_def
  by (rule turn_inv_updateSnapshot_at [OF turn_inv_clear])
     (simp_all add: activity_ok_def activity_after_clear)

text \<open>Turns have a non-empty identifier.\<close>

fun named_turn :: "rt_op \<Rightarrow> bool" where
  "named_turn (StartTurn _ t _) = (t \<noteq> [])"
| "named_turn _ = True"

lemma turn_inv_exec: "named_turn x \<Longrightarrow> turn_inv s \<Longrightarrow> turn_inv (rt_exec x s)"
proof (cases x)
  case (Tick d)
  assume "turn_inv s"
  then show ?thesis by (simp add: Tick turn_inv_def)
next
  case (RtDetach th l)
  assume "turn_inv s"
  then show ?thesis by (simp add: RtDetach turn_inv_def)
next
  case (FinishTurn th)
  assume "turn_inv s"
  then show ?thesis by (simp add: FinishTurn turn_inv_finish)
qed (auto simp: update_ops Let_def await_tool_def activity_ok_def truthy_def
      intro!: turn_inv_updateSnapshot turn_inv_clear turn_inv_setOutputActivity turn_inv_getSnapshot
      turn_inv_publish turn_inv_invalidate turn_inv_attach)

lemma turn_inv_run: "\<forall>x \<in> set ops. named_turn x \<Longrightarrow> turn_inv s \<Longrightarrow> turn_inv (rt_run ops s)"
  unfolding rt_run_def by (induction ops arbitrary: s) (auto intro: turn_inv_exec)


text \<open>Finishing a turn leaves nothing of it behind: the snapshot is idle, cannot be cancelled and
  shows no turn, no pending tool, no drafts and no output activity, whatever happened during the
  turn; the last error stays visible.\<close>

theorem finish_turn_leaves_nothing:
  assumes "\<forall>x \<in> set ops. named_turn x" and "s = rt_run ops (new_rt gen toIso throws limit ttl now)"
    and "finishTurn th s = (view, s')"
  shows "\<not> as_active view \<and> as_turn_id view = None \<and> as_phase view = Idle \<and> \<not> as_can_cancel view \<and>
    as_output_activity view = None \<and> as_pending_tool view = None \<and> as_draft_assistant view = None \<and>
    as_draft_reasoning view = [] \<and> as_environment view = JNull \<and> as_context_budget view = JNull \<and>
    turn_inv s'"
proof -
  let ?s = "clearOutputActivity th s"
  have i: "turn_inv s"
    using turn_inv_run [OF assms(1), of "new_rt gen toIso throws limit ttl now"]
    by (simp add: assms(2)) (simp add: turn_inv_def new_rt_def)
  let ?f = "\<lambda>sn. sn\<lparr>sn_active := False, sn_turnId := None, sn_phase := Idle,
       sn_canCancel := False, sn_pendingTool := None, sn_draftAssistant := None,
       sn_draftReasoning := [], sn_environment := JNull, sn_contextBudget := JNull\<rparr>"
  obtain iso' c u where "fst (updateSnapshot th ?f None ?s) =
      serializeSnapshot iso' (?f (fst (ensureSnapshot th ?s))\<lparr>sn_streamCursor := c, sn_updatedAt := u\<rparr>)"
    using updateSnapshot_view [of th ?f None ?s] by blast
  then have "view = serializeSnapshot iso'
      (?f (fst (ensureSnapshot th ?s))\<lparr>sn_streamCursor := c, sn_updatedAt := u\<rparr>)"
    using assms(3) by (simp add: finishTurn_def)
  moreover have "turn_inv s'"
    using turn_inv_finish [OF i, of th] assms(3) by simp
  ultimately show ?thesis
    by (simp add: serializeSnapshot_def activity_after_clear [OF i])
qed

theorem finish_turn_leaves_nothing_witness:
  "\<exists>view s'. finishTurn ''t'' (rt_run [StartTurn ''t'' ''u'' JNull,
      SetOutputActivity ''t'' ''u'' ''c'' (Some Working) True]
      (new_rt demo_gen show_int (\<lambda>_ _. False) 4 60000 0)) = (view, s') \<and>
    as_phase view = Idle \<and> as_output_activity view = None"
proof -
  let ?ops = "[StartTurn ''t'' ''u'' JNull, SetOutputActivity ''t'' ''u'' ''c'' (Some Working) True]"
  obtain view s' where v: "finishTurn ''t'' (rt_run ?ops (new_rt demo_gen show_int (\<lambda>_ _. False) 4 60000 0)) = (view, s')"
    by (metis surj_pair)
  then show ?thesis
    using finish_turn_leaves_nothing [OF _ refl v] by auto
qed

end
