(* ===== verification/Wire.thy ===== *)
theory Wire
  imports Bytes
begin

text \<open>
  The protobuf primitives of \<open>service/src/proto/wire.ts\<close>: varints, length-delimited fields, the
  writers and \<open>ProtoReader\<close>.  The main result is that a message that the writers produce is read
  back field by field: the loop every decoder runs refines a fold over the list of fields.

  A writer appends to a list of buffers that is concatenated at the end; here it returns the bytes
  it contributes.  A reader is the byte array with its offset.  A \<open>bigint\<close> that is read is a
  natural number.  Exceptions propagate out of every decoder, so the reader that threw is dropped.
\<close>

unbundle bit_operations_syntax

definition WIRE_VARINT :: nat where "WIRE_VARINT = 0"
definition WIRE_64_BIT :: nat where "WIRE_64_BIT = 1"
definition WIRE_LENGTH_DELIMITED :: nat where "WIRE_LENGTH_DELIMITED = 2"
definition WIRE_32_BIT :: nat where "WIRE_32_BIT = 5"

lemmas wire_types = WIRE_VARINT_def WIRE_64_BIT_def WIRE_LENGTH_DELIMITED_def WIRE_32_BIT_def

section \<open>Varints\<close>

text \<open>The loop of \<open>encodeVarint\<close>; \<open>BigInt.asUintN(64, _)\<close> is the conversion to a 64-bit word.\<close>

function varint_loop :: "64 word \<Rightarrow> byte list" where
  "varint_loop w =
     (let b = ucast (w AND 0x7F) :: byte; next' = drop_bit 7 w
      in if next' \<noteq> 0 then (b OR 0x80) # varint_loop next' else [b])"
  by pat_completeness auto

lemma drop7_unat: "unat (drop_bit 7 (w :: 64 word)) = unat w div 128"
  unfolding unat_drop_bit_eq by (simp add: drop_bit_eq_div)

termination varint_loop
proof (relation "measure unat")
  fix w :: "64 word" and x xa
  assume "xa = drop_bit 7 w" and "xa \<noteq> 0"
  then have "unat w div 128 \<noteq> 0"
    by (metis drop7_unat unat_eq_zero)
  then show "(xa, w) \<in> measure unat"
    using \<open>xa = drop_bit 7 w\<close> by (simp add: drop7_unat)
qed simp

declare varint_loop.simps [simp del]

definition encodeVarint :: "int \<Rightarrow> byte list" where
  "encodeVarint value = varint_loop (word_of_int value)"

section \<open>Writers\<close>

definition writeVarintField :: "nat \<Rightarrow> int \<Rightarrow> byte list" where
  "writeVarintField fieldNumber value =
     encodeVarint (int (push_bit 3 fieldNumber OR WIRE_VARINT)) @ encodeVarint value"

definition writeUint32 :: "nat \<Rightarrow> int \<Rightarrow> byte list" where
  "writeUint32 = writeVarintField"

definition writeEnum :: "nat \<Rightarrow> int \<Rightarrow> byte list" where
  "writeEnum = writeVarintField"

definition writeOptionalEnum :: "nat \<Rightarrow> int option \<Rightarrow> byte list" where
  "writeOptionalEnum fieldNumber value =
     (case value of None \<Rightarrow> [] | Some v \<Rightarrow> if v > 0 then writeEnum fieldNumber v else [])"

definition writeBytes :: "nat \<Rightarrow> byte list \<Rightarrow> byte list" where
  "writeBytes fieldNumber value =
     encodeVarint (int (push_bit 3 fieldNumber OR WIRE_LENGTH_DELIMITED))
     @ encodeVarint (int (length value)) @ value"

definition writeMessage :: "nat \<Rightarrow> byte list \<Rightarrow> byte list" where
  "writeMessage = writeBytes"

definition writeString :: "nat \<Rightarrow> string \<Rightarrow> byte list" where
  "writeString fieldNumber value = writeBytes fieldNumber (utf8_bytes value)"

definition writeOptionalString :: "nat \<Rightarrow> string option \<Rightarrow> byte list" where
  "writeOptionalString fieldNumber value =
     (case value of None \<Rightarrow> [] | Some s \<Rightarrow> if s \<noteq> [] then writeString fieldNumber s else [])"

definition writeOptionalNullableString :: "nat \<Rightarrow> json \<Rightarrow> byte list" where
  "writeOptionalNullableString fieldNumber value =
     (case value of JStr s \<Rightarrow> writeString fieldNumber s | _ \<Rightarrow> [])"

definition writeOptionalBool :: "nat \<Rightarrow> bool option \<Rightarrow> byte list" where
  "writeOptionalBool fieldNumber value =
     (case value of None \<Rightarrow> [] | Some b \<Rightarrow> writeVarintField fieldNumber (if b then 1 else 0))"

definition writeOptionalUint32 :: "nat \<Rightarrow> js_number option \<Rightarrow> byte list" where
  "writeOptionalUint32 fieldNumber value =
     (case value of None \<Rightarrow> []
      | Some n \<Rightarrow> if is_integer n \<and> js_floor n \<ge> 0 then writeVarintField fieldNumber (js_floor n) else [])"

definition writeOptionalUint64 :: "nat \<Rightarrow> js_number option \<Rightarrow> byte list result" where
  "writeOptionalUint64 fieldNumber value =
     (case value of None \<Rightarrow> Inr []
      | Some n \<Rightarrow>
          if \<not> is_integer n \<or> js_floor n < 0 then Inr []
          else if \<not> is_safe_integer n
          then Inl (JsError (''uint64 field '' @ show_nat fieldNumber
                             @ '' exceeds JavaScript safe integer range''))
          else Inr (writeVarintField fieldNumber (js_floor n)))"

definition writeOptionalInt32 :: "nat \<Rightarrow> js_number option \<Rightarrow> byte list" where
  "writeOptionalInt32 fieldNumber value =
     (case value of None \<Rightarrow> []
      | Some n \<Rightarrow> if is_integer n then writeVarintField fieldNumber (js_floor n) else [])"

definition writeOptionalMessage :: "nat \<Rightarrow> byte list option \<Rightarrow> byte list" where
  "writeOptionalMessage fieldNumber value =
     (case value of None \<Rightarrow> [] | Some bs \<Rightarrow> writeMessage fieldNumber bs)"

definition writeOptionalBase64Bytes :: "nat \<Rightarrow> string option \<Rightarrow> byte list" where
  "writeOptionalBase64Bytes fieldNumber value =
     (case value of None \<Rightarrow> [] | Some s \<Rightarrow> writeBytes fieldNumber (b64_decode s))"

definition writeStringMap :: "nat \<Rightarrow> (string \<times> string) list option \<Rightarrow> byte list" where
  "writeStringMap fieldNumber value =
     (case value of None \<Rightarrow> []
      | Some kvs \<Rightarrow>
          concat (map (\<lambda>(k, v). writeMessage fieldNumber (writeString 1 k @ writeString 2 v)) kvs))"

definition writeRepeatedMessages :: "nat \<Rightarrow> byte list list \<Rightarrow> byte list" where
  "writeRepeatedMessages fieldNumber values = concat (map (writeMessage fieldNumber) values)"

definition writeRepeatedStrings :: "nat \<Rightarrow> string list \<Rightarrow> byte list" where
  "writeRepeatedStrings fieldNumber values = concat (map (writeString fieldNumber) values)"

section \<open>ProtoReader\<close>

record proto_reader =
  rd_bytes :: "byte list"
  rd_offset :: nat

definition new_ProtoReader :: "byte list \<Rightarrow> proto_reader" where
  "new_ProtoReader bs = \<lparr>rd_bytes = bs, rd_offset = 0\<rparr>"

definition rd_done :: "proto_reader \<Rightarrow> bool" where
  "rd_done r \<longleftrightarrow> rd_offset r \<ge> length (rd_bytes r)"

function varint_read :: "byte list \<Rightarrow> nat \<Rightarrow> nat \<Rightarrow> nat \<Rightarrow> (nat \<times> nat) result" where
  "varint_read bytes offset shift res =
     (if offset < length bytes then
        (let b = bytes ! offset; res' = res OR push_bit shift (unat (b AND 0x7F))
         in if b AND 0x80 = 0 then Inr (res', offset + 1)
            else if shift + 7 > 63 then Inl (JsError ''protobuf varint is too large'')
            else varint_read bytes (offset + 1) (shift + 7) res')
      else Inl (JsError ''unexpected end of protobuf varint''))"
  by pat_completeness auto

termination varint_read
  by (relation "measure (\<lambda>(bytes, offset, _, _). length bytes - offset)") auto

declare varint_read.simps [simp del]

definition readVarint :: "proto_reader \<Rightarrow> (nat \<times> proto_reader) result" where
  "readVarint r =
     andThen (varint_read (rd_bytes r) (rd_offset r) 0 0) (\<lambda>(v, off). Inr (v, r\<lparr>rd_offset := off\<rparr>))"

definition readTag :: "proto_reader \<Rightarrow> ((nat \<times> nat) \<times> proto_reader) result" where
  "readTag r =
     andThen (readVarint r) (\<lambda>(tag, r1).
       Inr ((number_of_bigint (drop_bit 3 tag), number_of_bigint (tag AND 7)), r1))"

definition readVarintForWireType :: "nat \<Rightarrow> proto_reader \<Rightarrow> (nat \<times> proto_reader) result" where
  "readVarintForWireType wireType r =
     (if wireType \<noteq> WIRE_VARINT
      then Inl (JsError (''expected varint wire type, got '' @ show_nat wireType))
      else readVarint r)"

definition readBytesForWireType :: "nat \<Rightarrow> proto_reader \<Rightarrow> (byte list \<times> proto_reader) result" where
  "readBytesForWireType wireType r =
     (if wireType \<noteq> WIRE_LENGTH_DELIMITED
      then Inl (JsError (''expected length-delimited wire type, got '' @ show_nat wireType))
      else andThen (readVarint r) (\<lambda>(n, r1).
             let start = rd_offset r1; stop = start + number_of_bigint n
             in if stop > length (rd_bytes r1)
                then Inl (JsError ''protobuf length-delimited field exceeds buffer length'')
                else Inr (take (stop - start) (drop start (rd_bytes r1)), r1\<lparr>rd_offset := stop\<rparr>)))"

definition readStringForWireType :: "nat \<Rightarrow> proto_reader \<Rightarrow> (string \<times> proto_reader) result" where
  "readStringForWireType wireType r =
     andThen (readBytesForWireType wireType r) (\<lambda>(bs, r1). Inr (utf8_toString bs, r1))"

definition skip_field :: "nat \<Rightarrow> proto_reader \<Rightarrow> proto_reader result" where
  "skip_field wireType r =
     (if wireType = WIRE_VARINT then andThen (readVarint r) (\<lambda>(_, r1). Inr r1)
      else if wireType = WIRE_64_BIT then Inr (r\<lparr>rd_offset := rd_offset r + 8\<rparr>)
      else if wireType = WIRE_LENGTH_DELIMITED then
        andThen (readVarint r) (\<lambda>(n, r1).
          let off = rd_offset r1 + number_of_bigint n
          in if off > length (rd_bytes r1) then Inl (JsError ''protobuf skip exceeded buffer length'')
             else Inr (r1\<lparr>rd_offset := off\<rparr>))
      else if wireType = WIRE_32_BIT then Inr (r\<lparr>rd_offset := rd_offset r + 4\<rparr>)
      else Inl (JsError (''unsupported protobuf wire type: '' @ show_nat wireType)))"

text \<open>\<open>Number(BigInt.asIntN(32, _))\<close>.\<close>

definition readInt32Varint :: "nat \<Rightarrow> proto_reader \<Rightarrow> (int \<times> proto_reader) result" where
  "readInt32Varint wireType r =
     andThen (readVarintForWireType wireType r) (\<lambda>(v, r1). Inr (sint (word_of_nat v :: 32 word), r1))"

definition readSafeUint64 :: "string \<Rightarrow> nat \<Rightarrow> proto_reader \<Rightarrow> (nat \<times> proto_reader) result" where
  "readSafeUint64 fieldName wireType r =
     andThen (readVarintForWireType wireType r) (\<lambda>(v, r1).
       if int v > MAX_SAFE_INTEGER
       then Inl (JsError (fieldName @ '' exceeds JavaScript safe integer range''))
       else Inr (number_of_bigint v, r1))"

text \<open>
  The loop that every decoder runs: read a tag, let the decoder consume the field.  The fuel counts
  iterations; an iteration consumes at least one byte, so the length of the input is always enough
  (\<open>read_loop_never_stuck\<close> below).
\<close>

type_synonym 's field_step = "nat \<Rightarrow> nat \<Rightarrow> 's \<times> proto_reader \<Rightarrow> ('s \<times> proto_reader) result"

fun read_loop :: "nat \<Rightarrow> 's field_step \<Rightarrow> 's \<times> proto_reader \<Rightarrow> 's result" where
  "read_loop fuel step (st, r) =
     (if rd_done r then Inr st
      else case fuel of
             0 \<Rightarrow> Inl LoopStuck
           | Suc k \<Rightarrow> andThen (readTag r) (\<lambda>((n, w), r1).
                        andThen (step n w (st, r1)) (read_loop k step)))"

declare read_loop.simps [simp del]

definition read_message :: "'s field_step \<Rightarrow> 's \<Rightarrow> byte list \<Rightarrow> 's result" where
  "read_message step st bs = read_loop (length bs) step (st, new_ProtoReader bs)"


section \<open>Varints round-trip\<close>

lemma mask7: "(0x7F :: 'a::len word) = mask 7"
  by (simp add: mask_eq_exp_minus_1)

lemma mask7_bits: "x AND 0x7F = take_bit 7 (x :: 'a::len word)"
  by (simp add: mask7 take_bit_eq_mask)

lemma high_bit: "(0x80 :: byte) AND 0x7F = 0" "bit (0x80 :: byte) n \<Longrightarrow> n = 7"
proof -
  have "(0x80 :: byte) = 2 ^ 7"
    by simp
  then show "bit (0x80 :: byte) n \<Longrightarrow> n = 7"
    by (simp only: bit_exp_iff)
qed simp

lemma varint_byte:
  "unat ((ucast (w AND 0x7F) :: byte) AND 0x7F) = take_bit 7 (unat (w :: 64 word))"
  "unat (((ucast (w AND 0x7F) :: byte) OR 0x80) AND 0x7F) = take_bit 7 (unat w)"
  "(ucast (w AND 0x7F) :: byte) AND 0x80 = 0"
  "((ucast (w AND 0x7F) :: byte) OR 0x80) AND 0x80 \<noteq> 0"
proof -
  show 1: "unat ((ucast (w AND 0x7F) :: byte) AND 0x7F) = take_bit 7 (unat w)"
    by (simp add: mask7_bits unsigned_take_bit_eq unsigned_ucast_eq)
  have "((ucast (w AND 0x7F) :: byte) OR 0x80) AND 0x7F = ucast (w AND 0x7F) AND 0x7F"
    by (simp only: bit.conj_disj_distrib2 high_bit(1)) simp
  with 1 show "unat (((ucast (w AND 0x7F) :: byte) OR 0x80) AND 0x7F) = take_bit 7 (unat w)"
    by (simp only:)
  show "(ucast (w AND 0x7F) :: byte) AND 0x80 = 0"
  proof (rule bit_eqI)
    fix n
    show "bit ((ucast (w AND 0x7F) :: byte) AND 0x80) n = bit 0 n"
      using high_bit(2) [of n] unfolding mask7_bits bit_and_iff
      by (cases "n = 7") (simp_all only: bit_unsigned_iff bit_take_bit_iff bit_0_eq bot_apply, auto)
  qed
  have "((ucast (w AND 0x7F) :: byte) OR 0x80) AND 0x80 = 0x80"
    by (simp add: bit.conj_disj_distrib2)
  then show "((ucast (w AND 0x7F) :: byte) OR 0x80) AND 0x80 \<noteq> 0"
    by simp
qed

lemma join_bits:
  "push_bit s (take_bit 7 n) OR push_bit (s + 7) (drop_bit 7 n) = push_bit s (n :: nat)"
proof (rule bit_eqI)
  fix i
  show "bit (push_bit s (take_bit 7 n) OR push_bit (s + 7) (drop_bit 7 n)) i = bit (push_bit s n) i"
  proof (cases "s + 7 \<le> i")
    case True
    then obtain k where "i = s + 7 + k"
      using le_iff_add by blast
    then show ?thesis by (simp add: bit_simps add.commute)
  next
    case False
    then show ?thesis by (auto simp: bit_simps)
  qed
qed

lemma varint_roundtrip_loop:
  assumes "unat w * 2 ^ s < 2 ^ 64"
  shows "varint_read (pre @ varint_loop w @ post) (length pre) s r =
     Inr (r OR push_bit s (unat w), length pre + length (varint_loop w))"
  using assms
proof (induction w arbitrary: pre s r rule: varint_loop.induct)
  case (1 w)
  let ?b = "ucast (w AND 0x7F) :: byte" and ?w = "drop_bit 7 w"
  show ?case
  proof (cases "?w = 0")
    case True
    then have "unat w div 128 = 0"
      by (metis drop7_unat unat_0)
    then have "take_bit 7 (unat w) = unat w"
      by (simp add: take_bit_eq_mod)
    with True show ?thesis
      by (simp add: varint_loop.simps [of w] varint_read.simps [of _ _ s r] nth_append varint_byte Let_def)
  next
    case False
    then have ge: "128 \<le> unat w"
      by (metis drop7_unat unat_eq_zero div_less linorder_not_less)
    have "(2::nat) ^ (s + 7) = 128 * 2 ^ s"
      by (simp add: power_add)
    also have "\<dots> \<le> unat w * 2 ^ s"
      using ge by (rule mult_le_mono1)
    also note "1.prems"
    finally have s: "s + 7 < 64"
      using power_less_imp_less_exp [of 2 "s + 7" 64] by simp
    have "unat ?w * 2 ^ (s + 7) < 2 ^ 64"
    proof -
      have "unat ?w * 2 ^ (s + 7) = (unat w div 128 * 128) * 2 ^ s"
        by (simp add: drop7_unat power_add)
      also have "\<dots> \<le> unat w * 2 ^ s"
        by simp
      also note "1.prems"
      finally show ?thesis .
    qed
    then have "varint_read ((pre @ [?b OR 0x80]) @ varint_loop ?w @ post) (length (pre @ [?b OR 0x80])) (s + 7)
        (r OR push_bit s (take_bit 7 (unat w))) =
      Inr ((r OR push_bit s (take_bit 7 (unat w))) OR push_bit (s + 7) (unat ?w),
           length (pre @ [?b OR 0x80]) + length (varint_loop ?w))"
      using "1.IH" [OF refl refl False] by blast
    moreover have "(r OR push_bit s (take_bit 7 (unat w))) OR push_bit (s + 7) (unat ?w) = r OR push_bit s (unat w)"
      using join_bits [of s "unat w"] by (simp add: or.assoc unat_drop_bit_eq)
    ultimately show ?thesis
      using False s
      by (simp add: varint_loop.simps [of w] varint_read.simps [of _ _ s r] nth_append varint_byte Let_def)
  qed
qed


text \<open>A reader in the middle of an array.\<close>

definition reader_at :: "byte list \<Rightarrow> byte list \<Rightarrow> proto_reader" where
  "reader_at pre post = \<lparr>rd_bytes = pre @ post, rd_offset = length pre\<rparr>"

lemma new_reader_at: "new_ProtoReader bs = reader_at [] bs"
  by (simp add: new_ProtoReader_def reader_at_def)

lemma rd_done_at [simp]: "rd_done (reader_at pre post) \<longleftrightarrow> post = []"
  by (simp add: rd_done_def reader_at_def)

text \<open>\<open>BigInt.asUintN(64, value)\<close> as a natural number.\<close>

definition uint64_of :: "int \<Rightarrow> nat" where
  "uint64_of v = unat (word_of_int v :: 64 word)"

lemma uint64_of_small: "0 \<le> v \<Longrightarrow> v < 2 ^ 64 \<Longrightarrow> uint64_of v = nat v"
  by (simp add: uint64_of_def unsigned_of_int take_bit_int_eq_self)

lemma readVarint_at:
  "readVarint (reader_at pre (encodeVarint v @ post)) = Inr (uint64_of v, reader_at (pre @ encodeVarint v) post)"
proof -
  have "unat (word_of_int v :: 64 word) * 2 ^ 0 < 2 ^ 64"
    using unsigned_less [of "word_of_int v :: 64 word"] by simp
  from varint_roundtrip_loop [OF this, of pre post 0] show ?thesis
    by (simp add: readVarint_def reader_at_def encodeVarint_def uint64_of_def)
qed

lemma varint_loop_nonempty [simp]: "varint_loop w \<noteq> []"
  by (simp add: varint_loop.simps Let_def)

lemma encodeVarint_nonempty [simp]: "encodeVarint v \<noteq> []"
  by (simp add: encodeVarint_def)

lemma take_drop_at: "take n (drop (length pre) (pre @ bs @ post)) = take n (bs @ post)"
  by simp

text \<open>Field numbers of the protocol are small.\<close>

lemma tag_number:
  assumes "n < 2 ^ 20" and "w < 8"
  shows "uint64_of (int (push_bit 3 n OR w)) = 8 * n + w"
    "drop_bit 3 (8 * n + w) = n" "(8 * n + w) AND 7 = w"
proof -
  have "push_bit 3 n OR w = push_bit 3 n + w"
  proof (rule disjunctive_add [symmetric])
    fix i
    show "\<not> bit (push_bit 3 n) i \<or> \<not> bit w i"
    proof (cases "i < 3")
      case False
      then have "w < 2 ^ i"
        using assms(2) power_increasing [of 3 i "2::nat"] by simp
      then have "\<not> bit w i"
        by (simp add: bit_iff_odd)
      then show ?thesis by simp
    qed (simp add: bit_simps)
  qed
  then have e: "push_bit 3 n OR w = 8 * n + w"
    by (simp add: push_bit_eq_mult)
  show "uint64_of (int (push_bit 3 n OR w)) = 8 * n + w"
    using assms by (simp add: e uint64_of_small)
  show "drop_bit 3 (8 * n + w) = n"
    using assms(2) by (simp add: drop_bit_eq_div)
  have "(7 :: nat) = mask 3"
    by (simp add: mask_eq_exp_minus_1)
  then have "(8 * n + w) AND 7 = take_bit 3 (8 * n + w)"
    by (simp only: take_bit_eq_mask)
  then show "(8 * n + w) AND 7 = w"
    using assms(2) by (simp add: take_bit_eq_mod)
qed

lemma readTag_at:
  assumes "n < 2 ^ 20" and "w < 8"
  shows "readTag (reader_at pre (encodeVarint (int (push_bit 3 n OR w)) @ post)) =
    Inr ((n, w), reader_at (pre @ encodeVarint (int (push_bit 3 n OR w))) post)"
  using assms by (simp add: readTag_def readVarint_at tag_number number_of_bigint_small)

lemma readBytes_at:
  assumes "length bs < 2 ^ 53"
  shows "readBytesForWireType 2 (reader_at pre (encodeVarint (int (length bs)) @ bs @ post)) =
    Inr (bs, reader_at (pre @ encodeVarint (int (length bs)) @ bs) post)"
  using assms
  by (simp add: readBytesForWireType_def wire_types readVarint_at uint64_of_small number_of_bigint_small Let_def)
     (simp add: reader_at_def)

lemma skip_at:
  "skip_field 0 (reader_at pre (encodeVarint v @ post)) = Inr (reader_at (pre @ encodeVarint v) post)"
  "length bs < 2 ^ 53 \<Longrightarrow> skip_field 2 (reader_at pre (encodeVarint (int (length bs)) @ bs @ post)) =
    Inr (reader_at (pre @ encodeVarint (int (length bs)) @ bs) post)"
  by (simp_all add: skip_field_def wire_types readVarint_at uint64_of_small number_of_bigint_small Let_def)
     (simp_all add: reader_at_def)


section \<open>Messages as lists of fields\<close>

datatype wire_value = VVarint nat | VBytes "byte list"

type_synonym wire_field = "nat \<times> wire_value"

fun field_bytes :: "wire_field \<Rightarrow> byte list" where
  "field_bytes (n, VVarint v) = writeVarintField n (int v)"
| "field_bytes (n, VBytes bs) = writeBytes n bs"

definition fields_bytes :: "wire_field list \<Rightarrow> byte list" where
  "fields_bytes fs = concat (map field_bytes fs)"

fun field_ok :: "wire_field \<Rightarrow> bool" where
  "field_ok (n, VVarint v) = (n < 2 ^ 20 \<and> v < 2 ^ 64)"
| "field_ok (n, VBytes bs) = (n < 2 ^ 20 \<and> length bs < 2 ^ 53)"

fun fold_fields :: "(nat \<Rightarrow> wire_value \<Rightarrow> 's \<Rightarrow> 's result) \<Rightarrow> wire_field list \<Rightarrow> 's \<Rightarrow> 's result" where
  "fold_fields f [] st = Inr st"
| "fold_fields f ((n, v) # fs) st = andThen (f n v st) (fold_fields f fs)"

lemma fields_bytes_simps [simp]:
  "fields_bytes [] = []" "fields_bytes (f # fs) = field_bytes f @ fields_bytes fs"
  "fields_bytes (fs @ gs) = fields_bytes fs @ fields_bytes gs"
  by (simp_all add: fields_bytes_def)

lemma fold_fields_append:
  "fold_fields f (xs @ ys) st = andThen (fold_fields f xs st) (fold_fields f ys)"
  by (induction f xs st rule: fold_fields.induct) (auto simp: andThen_def split: sum.split)

lemma writeVarintField_field: "writeVarintField n v = field_bytes (n, VVarint (uint64_of v))"
  by (simp add: writeVarintField_def encodeVarint_def uint64_of_def word_of_int_uint flip: uint_nat)

lemma uint64_of_less: "uint64_of v < 2 ^ 64"
  using unsigned_less [of "word_of_int v :: 64 word"] by (simp add: uint64_of_def)

lemma field_bytes_nonempty [simp]: "field_bytes f \<noteq> []"
  by (cases f rule: field_bytes.cases) (simp_all add: writeVarintField_def writeBytes_def)

lemma fields_bytes_length: "length fs \<le> length (fields_bytes fs)"
proof (induction fs)
  case (Cons f fs)
  have "Suc 0 \<le> length (field_bytes f)"
    by (simp add: Suc_le_eq)
  with Cons show ?case
    unfolding fields_bytes_simps list.size length_append by linarith
qed simp

text \<open>
  The interface of a decoder's field handler: on a field of a well-formed message it consumes
  exactly that field and its effect is a function of the field's number and value.
\<close>

locale field_reader =
  fixes step :: "'s field_step"
    and astep :: "nat \<Rightarrow> wire_value \<Rightarrow> 's \<Rightarrow> 's result"
  assumes reads_varint: "v < 2 ^ 64 \<Longrightarrow>
      step n 0 (st, reader_at pre (encodeVarint (int v) @ post)) =
        andThen (astep n (VVarint v) st) (\<lambda>st'. Inr (st', reader_at (pre @ encodeVarint (int v)) post))"
    and reads_bytes: "length bs < 2 ^ 53 \<Longrightarrow>
      step n 2 (st, reader_at pre (encodeVarint (int (length bs)) @ bs @ post)) =
        andThen (astep n (VBytes bs) st)
          (\<lambda>st'. Inr (st', reader_at (pre @ encodeVarint (int (length bs)) @ bs) post))"
begin

lemma read_one:
  assumes "field_ok f"
  shows "read_loop (Suc k) step (st, reader_at pre (field_bytes f @ post)) =
    andThen (astep (fst f) (snd f) st) (\<lambda>st'. read_loop k step (st', reader_at (pre @ field_bytes f) post))"
proof (cases f rule: field_bytes.cases)
  case (1 n v)
  with assms show ?thesis
    using readTag_at [of n 0 pre] reads_varint [of v n st]
    by (simp add: read_loop.simps [of "Suc k"] writeVarintField_def wire_types andThen_assoc)
next
  case (2 n bs)
  with assms show ?thesis
    using readTag_at [of n 2 pre] reads_bytes [of bs n st]
    by (simp add: read_loop.simps [of "Suc k"] writeBytes_def wire_types andThen_assoc)
qed

lemma read_loop_fields:
  "\<forall>f \<in> set fs. field_ok f \<Longrightarrow> length fs \<le> fuel \<Longrightarrow>
   read_loop fuel step (st, reader_at pre (fields_bytes fs)) = fold_fields astep fs st"
proof (induction fs arbitrary: st pre fuel)
  case Nil
  then show ?case by (simp add: read_loop.simps)
next
  case (Cons f fs)
  then obtain k where k: "fuel = Suc k" "length fs \<le> k"
    by (cases fuel) auto
  with Cons show ?case
    by (cases f) (simp add: read_one cong: andThen_cong)
qed

lemma read_message_fields:
  assumes "\<forall>f \<in> set fs. field_ok f"
  shows "read_message step st (fields_bytes fs) = fold_fields astep fs st"
proof -
  have "length fs \<le> length (fields_bytes fs)"
    by (rule fields_bytes_length)
  with read_loop_fields [OF assms, of "length (fields_bytes fs)" st "[]"] show ?thesis
    by (simp add: read_message_def new_reader_at)
qed

end


section \<open>Decoding terminates on every input\<close>

text \<open>A field handler that never moves the reader back and does not itself get stuck.\<close>

definition forward :: "'s field_step \<Rightarrow> bool" where
  "forward step \<longleftrightarrow> (\<forall>n w st r. step n w (st, r) \<noteq> Inl LoopStuck \<and>
     (\<forall>st' r'. step n w (st, r) = Inr (st', r') \<longrightarrow>
        rd_bytes r' = rd_bytes r \<and> rd_offset r \<le> rd_offset r'))"

lemma varint_read_forward:
  "varint_read bytes off s r \<noteq> Inl LoopStuck \<and>
   (\<forall>v off'. varint_read bytes off s r = Inr (v, off') \<longrightarrow> off < off')"
proof (induction bytes off s r rule: varint_read.induct)
  case (1 bytes off s r)
  show ?case
  proof (cases "off < length bytes \<and> bytes ! off AND 0x80 \<noteq> 0 \<and> \<not> 63 < s + 7")
    case True
    then have "varint_read bytes off s r =
        varint_read bytes (off + 1) (s + 7) (r OR push_bit s (unat (bytes ! off AND 0x7F)))"
      by (subst varint_read.simps) (simp add: Let_def)
    with True show ?thesis
      using "1.IH" [OF _ refl refl] by force
  next
    case False
    then show ?thesis
      by (auto simp: varint_read.simps [of bytes off s r] Let_def split: if_splits)
  qed
qed

lemma readVarint_forward:
  "readVarint r \<noteq> Inl LoopStuck"
  "readVarint r = Inr (v, r') \<Longrightarrow> rd_bytes r' = rd_bytes r \<and> rd_offset r < rd_offset r'"
  using varint_read_forward [of "rd_bytes r" "rd_offset r" 0 0]
  by (auto simp: readVarint_def andThen_def split: sum.splits)

lemma readTag_forward:
  "readTag r \<noteq> Inl LoopStuck"
  "readTag r = Inr (nw, r') \<Longrightarrow> rd_bytes r' = rd_bytes r \<and> rd_offset r < rd_offset r'"
  using readVarint_forward [of r]
  by (auto simp: readTag_def andThen_def split: sum.splits prod.splits)

text \<open>The readers, as handlers.\<close>

definition forward_read :: "(proto_reader \<Rightarrow> ('a \<times> proto_reader) result) \<Rightarrow> bool" where
  "forward_read f \<longleftrightarrow> (\<forall>r. f r \<noteq> Inl LoopStuck \<and>
     (\<forall>v r'. f r = Inr (v, r') \<longrightarrow> rd_bytes r' = rd_bytes r \<and> rd_offset r \<le> rd_offset r'))"

named_theorems forwardI \<open>readers and handlers that never move back\<close>

lemma forward_readVarintForWireType [forwardI]: "forward_read (readVarintForWireType w)"
  using readVarint_forward by (fastforce simp: forward_read_def readVarintForWireType_def)

lemma forward_readBytes [forwardI]: "forward_read (readBytesForWireType w)"
  using readVarint_forward
  by (fastforce simp: forward_read_def readBytesForWireType_def andThen_def Let_def split: sum.splits prod.splits)

lemma forward_read_map [forwardI]:
  assumes "forward_read f" and "\<And>v. g v \<noteq> Inl LoopStuck"
  shows "forward_read (\<lambda>r. andThen (f r) (\<lambda>(v, r1). andThen (g v) (\<lambda>u. Inr (u, r1))))"
  unfolding forward_read_def
proof (intro allI conjI impI)
  fix r
  show "andThen (f r) (\<lambda>(v, r1). andThen (g v) (\<lambda>u. Inr (u, r1))) \<noteq> Inl LoopStuck"
    using assms by (auto simp: forward_read_def andThen_def split: sum.split prod.split)
next
  fix r v r'
  assume "andThen (f r) (\<lambda>(v, r1). andThen (g v) (\<lambda>u. Inr (u, r1))) = Inr (v, r')"
  then show "rd_bytes r' = rd_bytes r" "rd_offset r \<le> rd_offset r'"
    using assms(1) by (auto simp: forward_read_def andThen_eq_Inr)
qed

lemma forward_skip: "skip_field w r \<noteq> Inl LoopStuck \<and>
    (skip_field w r = Inr r' \<longrightarrow> rd_bytes r' = rd_bytes r \<and> rd_offset r \<le> rd_offset r')"
proof (cases "readVarint r")
  case (Inl e)
  with readVarint_forward(1) [of r] show ?thesis
    by (auto simp: skip_field_def)
next
  case (Inr x)
  then obtain v r1 where r1: "readVarint r = Inr (v, r1)"
    by (metis surj_pair)
  from readVarint_forward(2) [OF r1] show ?thesis
    by (auto simp: skip_field_def r1 Let_def)
qed

lemma read_loop_never_stuck:
  assumes "forward step" and "length (rd_bytes r) - rd_offset r \<le> fuel"
  shows "read_loop fuel step (st, r) \<noteq> Inl LoopStuck"
  using assms(2)
proof (induction fuel arbitrary: st r)
  case 0
  then show ?case by (simp add: read_loop.simps rd_done_def)
next
  case (Suc k)
  show ?case
  proof (cases "rd_done r")
    case True
    then show ?thesis by (simp add: read_loop.simps)
  next
    case False
    show ?thesis
    proof (cases "readTag r")
      case (Inl e)
      with False readTag_forward(1) [of r] show ?thesis by (simp add: read_loop.simps)
    next
      case (Inr x)
      then obtain n w r1 where t: "readTag r = Inr ((n, w), r1)"
        by (metis surj_pair)
      note f = readTag_forward(2) [OF t]
      show ?thesis
      proof (cases "step n w (st, r1)")
        case (Inl e)
        with False t assms(1) show ?thesis
          by (auto simp: read_loop.simps [of "Suc k"] forward_def)
      next
        case (Inr y)
        then obtain st' r2 where s: "step n w (st, r1) = Inr (st', r2)"
          by (metis surj_pair)
        then have "rd_bytes r2 = rd_bytes r1" "rd_offset r1 \<le> rd_offset r2"
          using assms(1) unfolding forward_def by blast+
        with f Suc.prems have "length (rd_bytes r2) - rd_offset r2 \<le> k"
          by (simp only:) linarith
        with Suc.IH False t s show ?thesis
          by (simp add: read_loop.simps [of "Suc k"])
      qed
    qed
  qed
qed

lemma read_message_never_stuck: "forward step \<Longrightarrow> read_message step st bs \<noteq> Inl LoopStuck"
  unfolding read_message_def by (rule read_loop_never_stuck) (simp_all add: new_ProtoReader_def)

section \<open>The length of a varint\<close>

lemma varint_loop_length: "length (varint_loop w) \<le> Suc n \<longleftrightarrow> unat w < 128 ^ Suc n"
proof (induction n arbitrary: w)
  case 0
  have "drop_bit 7 w = 0 \<longleftrightarrow> unat w < 128"
    using drop7_unat [of w] unat_eq_zero [of "drop_bit 7 w"] by (simp add: div_eq_0_iff)
  then show ?case
    by (simp add: varint_loop.simps [of w] Let_def)
next
  case (Suc n)
  have zero: "drop_bit 7 w = 0 \<Longrightarrow> unat w < 128"
    using drop7_unat [of w] by (simp add: div_eq_0_iff)
  have "unat w div 128 < 128 ^ Suc n \<longleftrightarrow> unat w < 128 ^ Suc (Suc n)"
    using div_less_iff_less_mult [of 128 "unat w" "128 ^ Suc n"] by (simp add: mult.commute)
  moreover have "unat w < 128 \<Longrightarrow> unat w < 128 ^ Suc (Suc n)"
    by (rule less_le_trans [where y = 128]) simp_all
  ultimately show ?case
    using Suc [of "drop_bit 7 w"] zero
    by (cases "drop_bit 7 w = 0") (simp_all add: varint_loop.simps [of w] Let_def drop7_unat)
qed

lemma encodeVarint_length: "length (encodeVarint v) \<le> 10"
proof -
  have "unat (word_of_int v :: 64 word) < 128 ^ Suc 9"
    using unsigned_less [of "word_of_int v :: 64 word", where 'a = nat] by simp
  then show ?thesis
    using varint_loop_length [of "word_of_int v" 9] by (simp add: encodeVarint_def)
qed

lemma writeBytes_length: "length (writeBytes n bs) \<le> 20 + length bs"
  using encodeVarint_length [of "int (push_bit 3 n OR WIRE_LENGTH_DELIMITED)"] encodeVarint_length [of "int (length bs)"]
  by (simp add: writeBytes_def)

lemma writeVarint_length: "length (writeVarintField n v) \<le> 20"
  using encodeVarint_length [of "int (push_bit 3 n OR WIRE_VARINT)"] encodeVarint_length [of v]
  by (simp add: writeVarintField_def)

text \<open>A varint is read back as the value modulo two to the 64, whatever follows it, and takes as many
  bytes as the value has groups of seven bits: never more than ten.\<close>

theorem varint_roundtrip:
  "readVarint (new_ProtoReader (encodeVarint v @ post)) =
     Inr (uint64_of v, \<lparr>rd_bytes = encodeVarint v @ post, rd_offset = length (encodeVarint v)\<rparr>) \<and>
   (length (encodeVarint v) \<le> Suc n \<longleftrightarrow> uint64_of v < 128 ^ Suc n) \<and> length (encodeVarint v) \<le> 10"
proof (intro conjI)
  show "readVarint (new_ProtoReader (encodeVarint v @ post)) =
     Inr (uint64_of v, \<lparr>rd_bytes = encodeVarint v @ post, rd_offset = length (encodeVarint v)\<rparr>)"
    using readVarint_at [of "[]" v post] by (simp add: new_reader_at) (simp add: reader_at_def)
  show "length (encodeVarint v) \<le> Suc n \<longleftrightarrow> uint64_of v < 128 ^ Suc n"
    by (simp only: encodeVarint_def varint_loop_length uint64_of_def)
qed (rule encodeVarint_length)

end
