(* ===== verification/WireFrames.thy ===== *)
theory WireFrames
  imports Wire
begin

text \<open>
  The envelope and its payloads: \<open>service/src/proto/envelope.ts\<close> and the encoders and decoders of
  \<open>service/src/proto/wire.ts\<close>.

  A frame is a property list.  The encoders of the source are sequences of one-line writer calls and
  the decoders chains of one-line reader calls; here each such line is one row of a table, in the
  order of the source (\<open>W_str 1 ''code''\<close> is \<open>writeOptionalString(chunks, 1, stringField(frame, "code"))\<close>,
  \<open>(1, R_str ''code'')\<close> is \<open>if (fieldNumber === 1) frame.code = reader.readStringForWireType(wireType)\<close>),
  and \<open>write_row\<close>, \<open>read_row\<close> say what a line does.

  \<open>js_lib\<close> holds the text conversions of the host engine: \<open>JSON.stringify\<close>, \<open>JSON.parse\<close>
  (\<open>None\<close> for a \<open>SyntaxError\<close>), \<open>Date.parse\<close>, \<open>new Date(t).toISOString()\<close> (\<open>None\<close> for a
  \<open>RangeError\<close>) and \<open>String(number)\<close>.  Objects have no integer-like keys, so their properties are
  enumerated in insertion order.
\<close>

record js_lib =
  lib_stringify :: "json \<Rightarrow> string"
  lib_parse :: "string \<Rightarrow> json option"
  lib_dateParse :: "string \<Rightarrow> js_number"
  lib_toISOString :: "js_number \<Rightarrow> string option"
  lib_numberToString :: "js_number \<Rightarrow> string"

section \<open>Envelope vocabulary\<close>

definition BUD_ENVELOPE_VERSION :: nat where
  "BUD_ENVELOPE_VERSION = 1"

datatype traffic_class = Control | Interactive | Proxy_active | Bulk | Telemetry

datatype transport_kind = Websocket | H2_grpc | H2_data | Quic

definition TRAFFIC_CLASSES :: "(string \<times> traffic_class) list" where
  "TRAFFIC_CLASSES = [(''control'', Control), (''interactive'', Interactive),
     (''proxy_active'', Proxy_active), (''bulk'', Bulk), (''telemetry'', Telemetry)]"

definition TRANSPORT_KINDS :: "(string \<times> transport_kind) list" where
  "TRANSPORT_KINDS = [(''websocket'', Websocket), (''h2_grpc'', H2_grpc), (''h2_data'', H2_data),
     (''quic'', Quic)]"

definition TRAFFIC_CLASS_PROTO_VALUES :: "(traffic_class \<times> nat) list" where
  "TRAFFIC_CLASS_PROTO_VALUES =
     [(Control, 1), (Interactive, 2), (Proxy_active, 3), (Bulk, 4), (Telemetry, 5)]"

definition TRANSPORT_KIND_PROTO_VALUES :: "(transport_kind \<times> nat) list" where
  "TRANSPORT_KIND_PROTO_VALUES = [(Websocket, 1), (H2_grpc, 2), (H2_data, 3), (Quic, 4)]"

definition trafficClassFromProto :: "nat \<Rightarrow> traffic_class option" where
  "trafficClassFromProto value =
     map_option fst (List.find (\<lambda>(_, protoValue). protoValue = value) TRAFFIC_CLASS_PROTO_VALUES)"

definition transportKindFromProto :: "nat \<Rightarrow> transport_kind option" where
  "transportKindFromProto value =
     map_option fst (List.find (\<lambda>(_, protoValue). protoValue = value) TRANSPORT_KIND_PROTO_VALUES)"

definition isTrafficClass :: "json \<Rightarrow> bool" where
  "isTrafficClass value = (case value of JStr s \<Rightarrow> s \<in> fst ` set TRAFFIC_CLASSES | _ \<Rightarrow> False)"

definition isTransportKind :: "json \<Rightarrow> bool" where
  "isTransportKind value = (case value of JStr s \<Rightarrow> s \<in> fst ` set TRANSPORT_KINDS | _ \<Rightarrow> False)"

definition isBudEnvelope :: "json \<Rightarrow> bool" where
  "isBudEnvelope value =
     (case as_record value of
        None \<Rightarrow> False
      | Some ob \<Rightarrow>
          obj_get ob ''envelope_version'' = JInt (int BUD_ENVELOPE_VERSION) \<and>
          as_string (obj_get ob ''message_id'') \<noteq> None \<and> as_string (obj_get ob ''sent_at'') \<noteq> None \<and>
          isTrafficClass (obj_get ob ''traffic_class'') \<and> as_record (obj_get ob ''payload'') \<noteq> None)"

definition makeBudError :: "string \<Rightarrow> string \<Rightarrow> bool option \<Rightarrow> js_object option \<Rightarrow> js_object" where
  "makeBudError code message retryable details =
     [(''code'', JStr code), (''message'', JStr message),
      (''retryable'', JBool (case retryable of None \<Rightarrow> False | Some b \<Rightarrow> b))]
     @ (case details of None \<Rightarrow> [] | Some d \<Rightarrow> [(''details'', JObj d)])"

section \<open>Reading properties\<close>

definition stringField :: "js_object \<Rightarrow> string \<Rightarrow> string option" where
  "stringField ob field = as_string (obj_get ob field)"

definition numberField :: "js_object \<Rightarrow> string \<Rightarrow> js_number option" where
  "numberField ob field =
     (case obj_get ob field of JNum n \<Rightarrow> if is_finite n then Some n else None | _ \<Rightarrow> None)"

definition booleanField :: "js_object \<Rightarrow> string \<Rightarrow> bool option" where
  "booleanField ob field = (case obj_get ob field of JBool b \<Rightarrow> Some b | _ \<Rightarrow> None)"

definition recordField :: "js_object \<Rightarrow> string \<Rightarrow> js_object option" where
  "recordField ob field = as_record (obj_get ob field)"

definition arrayField :: "js_object \<Rightarrow> string \<Rightarrow> json list" where
  "arrayField ob field = (case obj_get ob field of JArr xs \<Rightarrow> xs | _ \<Rightarrow> [])"

definition stringArrayField :: "js_object \<Rightarrow> string \<Rightarrow> string list" where
  "stringArrayField ob field = List.map_filter as_string (arrayField ob field)"

text \<open>An assignment to \<open>__proto__\<close> of a fresh object with a string is ignored by the engine.\<close>

definition stringMapField :: "js_lib \<Rightarrow> js_object \<Rightarrow> string \<Rightarrow> (string \<times> string) list option" where
  "stringMapField lib ob field =
     map_option (List.map_filter (\<lambda>(key, nested).
         if key = ''__proto__'' then None
         else case nested of
                JStr s \<Rightarrow> Some (key, s)
              | JUndef \<Rightarrow> None
              | JObj _ \<Rightarrow> Some (key, lib_stringify lib nested)
              | JArr _ \<Rightarrow> Some (key, lib_stringify lib nested)
              | JNull \<Rightarrow> Some (key, ''null'')
              | JBool b \<Rightarrow> Some (key, if b then ''true'' else ''false'')
              | JNum n \<Rightarrow> Some (key, lib_numberToString lib n)))
       (recordField ob field)"

definition jsonBytes :: "js_lib \<Rightarrow> json \<Rightarrow> byte list option" where
  "jsonBytes lib value =
     (case value of JUndef \<Rightarrow> None | JNull \<Rightarrow> None | _ \<Rightarrow> Some (utf8_bytes (lib_stringify lib value)))"

definition parse_json :: "js_lib \<Rightarrow> string \<Rightarrow> json result" where
  "parse_json lib txt = (case lib_parse lib txt of None \<Rightarrow> Inl JsonSyntaxError | Some v \<Rightarrow> Inr v)"

definition parseFrameJson :: "js_lib \<Rightarrow> string \<Rightarrow> js_object result" where
  "parseFrameJson lib txt =
     andThen (parse_json lib txt) (\<lambda>v.
       case as_record v of None \<Rightarrow> Inl (JsError ''frame JSON payload was not an object'') | Some ob \<Rightarrow> Inr ob)"

definition parseJsonBytes :: "js_lib \<Rightarrow> byte list \<Rightarrow> json result" where
  "parseJsonBytes lib bs = parse_json lib (utf8_toString bs)"

definition pushArrayValue :: "string \<Rightarrow> json \<Rightarrow> js_object \<Rightarrow> js_object" where
  "pushArrayValue field value ob =
     obj_set field (case obj_get ob field of JArr xs \<Rightarrow> JArr (xs @ [value]) | _ \<Rightarrow> JArr [value]) ob"

definition protoForFrameType :: "string \<Rightarrow> string" where
  "protoForFrameType frameType = (if starts_with ''terminal_'' frameType then ''0.3'' else ''0.1'')"

definition sentAtToMillis :: "js_lib \<Rightarrow> string \<Rightarrow> js_number" where
  "sentAtToMillis lib value =
     (let millis = lib_dateParse lib value in if is_finite millis then millis else num_of_int 0)"

section \<open>Lines of encoders and decoders\<close>

type_synonym encoder = "js_lib \<Rightarrow> js_object \<Rightarrow> byte list result"
type_synonym decoder = "js_lib \<Rightarrow> byte list \<Rightarrow> js_object result"

datatype write_line =
    W_str nat string
  | W_nullable nat string
  | W_bool nat string
  | W_u32 nat string
  | W_u64 nat string
  | W_i32 nat string
  | W_enum "(string \<times> nat) list" nat string
  | W_json nat string
  | W_b64 nat string
  | W_map nat string
  | W_strs nat string
  | W_msg encoder nat string
  | W_msgs encoder nat string

fun mapE :: "('a \<Rightarrow> 'b result) \<Rightarrow> 'a list \<Rightarrow> 'b list result" where
  "mapE f [] = Inr []"
| "mapE f (x # xs) = andThen (f x) (\<lambda>y. andThen (mapE f xs) (\<lambda>ys. Inr (y # ys)))"

definition record_or_empty :: "json \<Rightarrow> js_object" where
  "record_or_empty v = (case as_record v of None \<Rightarrow> [] | Some ob \<Rightarrow> ob)"

fun write_row :: "js_lib \<Rightarrow> write_line \<Rightarrow> js_object \<Rightarrow> byte list result" where
  "write_row lib (W_str n k) ob = Inr (writeOptionalString n (stringField ob k))"
| "write_row lib (W_nullable n k) ob = Inr (writeOptionalNullableString n (obj_get ob k))"
| "write_row lib (W_bool n k) ob = Inr (writeOptionalBool n (booleanField ob k))"
| "write_row lib (W_u32 n k) ob = Inr (writeOptionalUint32 n (numberField ob k))"
| "write_row lib (W_u64 n k) ob = writeOptionalUint64 n (numberField ob k)"
| "write_row lib (W_i32 n k) ob = Inr (writeOptionalInt32 n (numberField ob k))"
| "write_row lib (W_enum tbl n k) ob =
     Inr (writeOptionalEnum n (map_option int (map_of tbl (case stringField ob k of None \<Rightarrow> [] | Some s \<Rightarrow> s))))"
| "write_row lib (W_json n k) ob =
     Inr (case jsonBytes lib (obj_get ob k) of None \<Rightarrow> [] | Some bs \<Rightarrow> writeBytes n bs)"
| "write_row lib (W_b64 n k) ob = Inr (writeOptionalBase64Bytes n (stringField ob k))"
| "write_row lib (W_map n k) ob = Inr (writeStringMap n (stringMapField lib ob k))"
| "write_row lib (W_strs n k) ob = Inr (writeRepeatedStrings n (stringArrayField ob k))"
| "write_row lib (W_msg enc n k) ob =
     (case recordField ob k of
        None \<Rightarrow> Inr (writeOptionalMessage n None)
      | Some v \<Rightarrow> andThen (enc lib v) (\<lambda>bs. Inr (writeOptionalMessage n (Some bs))))"
| "write_row lib (W_msgs enc n k) ob =
     andThen (mapE (\<lambda>v. enc lib (record_or_empty v)) (arrayField ob k)) (\<lambda>bss.
       Inr (writeRepeatedMessages n bss))"

definition write_rows :: "write_line list \<Rightarrow> encoder" where
  "write_rows rows lib ob = andThen (mapE (\<lambda>row. write_row lib row ob) rows) (\<lambda>bss. Inr (concat bss))"

datatype read_line =
    R_str string
  | R_bool string
  | R_num string
  | R_u64 string string
  | R_i32 string
  | R_enum "(nat \<times> string) list" string string
  | R_json string
  | R_b64 string
  | R_map string
  | R_strs string
  | R_msg decoder string
  | R_msgs decoder string

text \<open>\<open>decodeStringMapEntry\<close>: an entry with an empty key is dropped.\<close>

definition entry_step :: "(string option \<times> string option) field_step" where
  "entry_step n w = (\<lambda>((key, val), r).
     if n = 1 then andThen (readStringForWireType w r) (\<lambda>(s, r1). Inr ((Some s, val), r1))
     else if n = 2 then andThen (readStringForWireType w r) (\<lambda>(s, r1). Inr ((key, Some s), r1))
     else andThen (skip_field w r) (\<lambda>r1. Inr ((key, val), r1)))"

definition decodeStringMapEntry :: "byte list \<Rightarrow> js_object result" where
  "decodeStringMapEntry bs =
     andThen (read_message entry_step (None, None) bs) (\<lambda>(key, val).
       Inr (case key of
              None \<Rightarrow> []
            | Some k \<Rightarrow> if k = [] then [] else [(k, JStr (case val of None \<Rightarrow> [] | Some v \<Rightarrow> v))]))"

definition lookup_or :: "(nat \<times> string) list \<Rightarrow> string \<Rightarrow> nat \<Rightarrow> string" where
  "lookup_or tbl d v = (case map_of tbl v of None \<Rightarrow> d | Some s \<Rightarrow> s)"

fun read_row :: "js_lib \<Rightarrow> read_line \<Rightarrow> nat \<Rightarrow> js_object \<times> proto_reader \<Rightarrow>
    (js_object \<times> proto_reader) result" where
  "read_row lib (R_str k) w (ob, r) =
     andThen (readStringForWireType w r) (\<lambda>(s, r1). Inr (obj_set k (JStr s) ob, r1))"
| "read_row lib (R_bool k) w (ob, r) =
     andThen (readVarintForWireType w r) (\<lambda>(v, r1). Inr (obj_set k (JBool (v \<noteq> 0)) ob, r1))"
| "read_row lib (R_num k) w (ob, r) =
     andThen (readVarintForWireType w r) (\<lambda>(v, r1).
       Inr (obj_set k (JInt (int (number_of_bigint v))) ob, r1))"
| "read_row lib (R_u64 k name) w (ob, r) =
     andThen (readSafeUint64 name w r) (\<lambda>(v, r1). Inr (obj_set k (JInt (int v)) ob, r1))"
| "read_row lib (R_i32 k) w (ob, r) =
     andThen (readInt32Varint w r) (\<lambda>(v, r1). Inr (obj_set k (JInt v) ob, r1))"
| "read_row lib (R_enum tbl d k) w (ob, r) =
     andThen (readVarintForWireType w r) (\<lambda>(v, r1).
       Inr (obj_set k (JStr (lookup_or tbl d (number_of_bigint v))) ob, r1))"
| "read_row lib (R_json k) w (ob, r) =
     andThen (readBytesForWireType w r) (\<lambda>(bs, r1).
       andThen (parseJsonBytes lib bs) (\<lambda>v. Inr (obj_set k v ob, r1)))"
| "read_row lib (R_b64 k) w (ob, r) =
     andThen (readBytesForWireType w r) (\<lambda>(bs, r1). Inr (obj_set k (JStr (b64_encode bs)) ob, r1))"
| "read_row lib (R_map k) w (ob, r) =
     andThen (readBytesForWireType w r) (\<lambda>(bs, r1).
       andThen (decodeStringMapEntry bs) (\<lambda>e.
         Inr (obj_set k (JObj (obj_spread (record_or_empty (obj_get ob k)) e)) ob, r1)))"
| "read_row lib (R_strs k) w (ob, r) =
     andThen (readStringForWireType w r) (\<lambda>(s, r1). Inr (pushArrayValue k (JStr s) ob, r1))"
| "read_row lib (R_msg dec k) w (ob, r) =
     andThen (readBytesForWireType w r) (\<lambda>(bs, r1).
       andThen (dec lib bs) (\<lambda>v. Inr (obj_set k (JObj v) ob, r1)))"
| "read_row lib (R_msgs dec k) w (ob, r) =
     andThen (readBytesForWireType w r) (\<lambda>(bs, r1).
       andThen (dec lib bs) (\<lambda>v. Inr (pushArrayValue k (JObj v) ob, r1)))"

definition read_by :: "js_lib \<Rightarrow> (nat \<times> read_line) list \<Rightarrow> js_object field_step" where
  "read_by lib rows n w = (\<lambda>(ob, r).
     case map_of rows n of
       Some row \<Rightarrow> read_row lib row w (ob, r)
     | None \<Rightarrow> andThen (skip_field w r) (\<lambda>r1. Inr (ob, r1)))"

definition read_rows :: "(nat \<times> read_line) list \<Rightarrow> decoder" where
  "read_rows rows lib bs = read_message (read_by lib rows) [] bs"

section \<open>Enumerations\<close>

definition STREAM_TYPE_PROTO_VALUES :: "(string \<times> nat) list" where
  "STREAM_TYPE_PROTO_VALUES =
     [(''terminal_interactive'', 1), (''localhost_http_proxy'', 2), (''file_read'', 3),
      (''localhost_websocket_proxy'', 4), (''local_llm_http'', 5)]"

definition STREAM_TYPE_JSON_VALUES :: "(nat \<times> string) list" where
  "STREAM_TYPE_JSON_VALUES =
     [(1, ''terminal_interactive''), (2, ''localhost_http_proxy''), (3, ''file_read''),
      (4, ''localhost_websocket_proxy''), (5, ''local_llm_http'')]"

definition OPERATION_STATE_PROTO_VALUES :: "(string \<times> nat) list" where
  "OPERATION_STATE_PROTO_VALUES =
     [(''offered'', 1), (''accepted'', 2), (''rejected'', 3), (''running'', 4), (''succeeded'', 5),
      (''failed'', 6), (''canceled'', 7), (''unknown'', 8), (''expired'', 9)]"

definition OPERATION_STATE_JSON_VALUES :: "(nat \<times> string) list" where
  "OPERATION_STATE_JSON_VALUES =
     [(1, ''offered''), (2, ''accepted''), (3, ''rejected''), (4, ''running''), (5, ''succeeded''),
      (6, ''failed''), (7, ''canceled''), (8, ''unknown''), (9, ''expired'')]"

definition STREAM_STATE_PROTO_VALUES :: "(string \<times> nat) list" where
  "STREAM_STATE_PROTO_VALUES =
     [(''opening'', 1), (''open'', 2), (''half_closed_local'', 3), (''half_closed_remote'', 4),
      (''closed'', 5), (''reset'', 6), (''unknown'', 7), (''expired'', 8)]"

definition STREAM_STATE_JSON_VALUES :: "(nat \<times> string) list" where
  "STREAM_STATE_JSON_VALUES =
     [(1, ''opening''), (2, ''open''), (3, ''half_closed_local''), (4, ''half_closed_remote''),
      (5, ''closed''), (6, ''reset''), (7, ''unknown''), (8, ''expired'')]"

definition STREAM_RESET_REASON_PROTO_VALUES :: "(string \<times> nat) list" where
  "STREAM_RESET_REASON_PROTO_VALUES =
     [(''canceled'', 1), (''policy_denied'', 2), (''transport_lost'', 3), (''timeout'', 4),
      (''backpressure'', 5), (''protocol_error'', 6), (''local_error'', 7), (''remote_error'', 8)]"

definition STREAM_RESET_REASON_JSON_VALUES :: "(nat \<times> string) list" where
  "STREAM_RESET_REASON_JSON_VALUES =
     [(1, ''canceled''), (2, ''policy_denied''), (3, ''transport_lost''), (4, ''timeout''),
      (5, ''backpressure''), (6, ''protocol_error''), (7, ''local_error''), (8, ''remote_error'')]"

section \<open>Nested messages\<close>

definition BudError_write :: "write_line list" where
  "BudError_write =
     [W_str 1 ''code'', W_str 2 ''message'', W_bool 3 ''retryable'', W_map 4 ''details'']"

definition BudError_read :: "(nat \<times> read_line) list" where
  "BudError_read =
     [(1, R_str ''code''), (2, R_str ''message''), (3, R_bool ''retryable''), (4, R_map ''details'')]"

definition encodeBudError :: encoder where
  "encodeBudError = write_rows BudError_write"

definition decodeBudError :: decoder where
  "decodeBudError = read_rows BudError_read"

definition TerminalEnsureConfig_write :: "write_line list" where
  "TerminalEnsureConfig_write =
     [W_str 1 ''shell'', W_str 2 ''cwd'', W_map 3 ''env'', W_u32 4 ''cols'', W_u32 5 ''rows'']"

definition TerminalEnsureConfig_read :: "(nat \<times> read_line) list" where
  "TerminalEnsureConfig_read =
     [(1, R_str ''shell''), (2, R_str ''cwd''), (3, R_map ''env''), (4, R_num ''cols''),
      (5, R_num ''rows'')]"

definition encodeTerminalEnsureConfig :: encoder where
  "encodeTerminalEnsureConfig = write_rows TerminalEnsureConfig_write"

definition decodeTerminalEnsureConfig :: decoder where
  "decodeTerminalEnsureConfig = read_rows TerminalEnsureConfig_read"

definition OperationStatus_write :: "write_line list" where
  "OperationStatus_write =
     [W_str 1 ''operation_id'', W_enum OPERATION_STATE_PROTO_VALUES 2 ''state'',
      W_msg encodeBudError 3 ''error'', W_str 4 ''operation_type'', W_str 5 ''updated_at'']"

definition OperationStatus_read :: "(nat \<times> read_line) list" where
  "OperationStatus_read =
     [(1, R_str ''operation_id''), (2, R_enum OPERATION_STATE_JSON_VALUES ''unknown'' ''state''),
      (3, R_msg decodeBudError ''error''), (4, R_str ''operation_type''), (5, R_str ''updated_at'')]"

definition encodeOperationStatus :: encoder where
  "encodeOperationStatus = write_rows OperationStatus_write"

definition decodeOperationStatus :: decoder where
  "decodeOperationStatus = read_rows OperationStatus_read"

definition StreamStatus_write :: "write_line list" where
  "StreamStatus_write =
     [W_str 1 ''stream_id'', W_str 2 ''operation_id'', W_enum STREAM_TYPE_PROTO_VALUES 3 ''stream_type'',
      W_enum STREAM_STATE_PROTO_VALUES 4 ''state'', W_u64 5 ''send_offset'', W_u64 6 ''receive_offset'',
      W_enum STREAM_RESET_REASON_PROTO_VALUES 7 ''reset_reason'', W_msg encodeBudError 8 ''error'',
      W_str 9 ''updated_at'']"

definition StreamStatus_read :: "(nat \<times> read_line) list" where
  "StreamStatus_read =
     [(1, R_str ''stream_id''), (2, R_str ''operation_id''),
      (3, R_enum STREAM_TYPE_JSON_VALUES ''terminal_interactive'' ''stream_type''),
      (4, R_enum STREAM_STATE_JSON_VALUES ''unknown'' ''state''),
      (5, R_u64 ''send_offset'' ''stream_status.send_offset''),
      (6, R_u64 ''receive_offset'' ''stream_status.receive_offset''),
      (7, R_enum STREAM_RESET_REASON_JSON_VALUES ''protocol_error'' ''reset_reason''),
      (8, R_msg decodeBudError ''error''), (9, R_str ''updated_at'')]"

definition encodeStreamStatus :: encoder where
  "encodeStreamStatus = write_rows StreamStatus_write"

definition decodeStreamStatus :: decoder where
  "decodeStreamStatus = read_rows StreamStatus_read"

section \<open>Payload encoders\<close>

text \<open>One entry per case of the switch of \<open>encodeFieldLevelPayload\<close>.\<close>

definition hello_writers :: "(string \<times> write_line list) list" where
  "hello_writers =
     [(''error'', BudError_write),
      (''hello'',
        [W_str 1 ''name'', W_str 2 ''os'', W_str 3 ''arch'', W_str 4 ''version'',
         W_str 5 ''installation_id'', W_str 6 ''token'', W_str 7 ''bud_id'', W_json 8 ''capabilities'']),
      (''hello_ack'',
        [W_str 1 ''session_id'', W_str 2 ''bud_id'', W_u32 3 ''heartbeat_sec'', W_str 4 ''device_secret'']),
      (''hello_challenge'', [W_str 1 ''nonce'']),
      (''hello_proof'', [W_str 1 ''bud_id'', W_str 2 ''hmac'']),
      (''heartbeat'', [W_str 1 ''session_id'']),
      (''heartbeat_ack'', [W_str 1 ''session_id''])]"

definition terminal_writers :: "(string \<times> write_line list) list" where
  "terminal_writers =
     [(''terminal_ensure'',
        [W_str 1 ''session_id'', W_msg encodeTerminalEnsureConfig 2 ''config'',
         W_u64 3 ''resume_from_offset'']),
      (''terminal_status'', [W_str 1 ''session_id'', W_str 2 ''state'', W_json 3 ''info'']),
      (''terminal_input'', [W_str 1 ''session_id'', W_b64 2 ''data'', W_u64 4 ''input_seq'']),
      (''terminal_resize'', [W_str 1 ''session_id'', W_u32 2 ''cols'', W_u32 3 ''rows'']),
      (''terminal_close'', [W_str 1 ''session_id'', W_str 2 ''reason'']),
      (''terminal_send'',
        [W_str 1 ''session_id'', W_str 2 ''request_id'', W_str 3 ''text'', W_bool 4 ''submit'',
         W_str 5 ''key'', W_str 9 ''await'']),
      (''terminal_send_result'',
        [W_str 1 ''session_id'', W_str 2 ''request_id'', W_nullable 6 ''error'', W_bool 8 ''dispatched'',
         W_json 9 ''outcome'']),
      (''terminal_observe'',
        [W_str 1 ''session_id'', W_str 2 ''request_id'', W_str 3 ''view'', W_i32 4 ''lines'',
         W_str 7 ''await'', W_u64 8 ''quiet_ms'']),
      (''terminal_observe_result'',
        [W_str 1 ''session_id'', W_str 2 ''request_id'', W_str 3 ''view'', W_b64 4 ''output'',
         W_u64 6 ''lines_captured'', W_bool 7 ''changed'', W_nullable 10 ''error'', W_str 12 ''mode'',
         W_str 13 ''integration'', W_bool 14 ''alt_screen'', W_u32 15 ''cursor_row'',
         W_u32 16 ''cursor_col'']),
      (''terminal_output'', [W_str 1 ''session_id'', W_b64 3 ''data'', W_u64 4 ''byte_offset'']),
      (''terminal_event'', [W_str 1 ''session_id'', W_str 2 ''event'', W_json 3 ''data''])]"

definition reconnect_writers :: "(string \<times> write_line list) list" where
  "reconnect_writers =
     [(''reconnect_report'',
        [W_str 1 ''bud_id'', W_str 2 ''device_session_id'', W_msgs encodeOperationStatus 3 ''operations'',
         W_msgs encodeStreamStatus 4 ''streams'', W_str 5 ''local_policy_version'',
         W_strs 6 ''terminal_sessions'']),
      (''reconciliation_decision'',
        [W_msgs encodeOperationStatus 1 ''operations'', W_msgs encodeStreamStatus 2 ''streams''])]"

definition stream_writers :: "(string \<times> write_line list) list" where
  "stream_writers =
     [(''data_attach'',
        [W_str 1 ''bud_id'', W_str 2 ''device_session_id'', W_str 3 ''control_transport_session_id'',
         W_strs 4 ''streams'', W_u32 5 ''max_chunk_bytes'', W_u64 6 ''initial_credit_bytes'']),
      (''data_attach_ack'',
        [W_str 1 ''bud_id'', W_str 2 ''device_session_id'', W_str 3 ''transport_session_id'',
         W_strs 4 ''streams'', W_u32 5 ''max_chunk_bytes'', W_u64 6 ''initial_credit_bytes'']),
      (''stream_data'',
        [W_str 1 ''stream_id'', W_enum STREAM_TYPE_PROTO_VALUES 2 ''stream_type'', W_u64 3 ''offset'',
         W_b64 4 ''data'', W_bool 5 ''end_stream'']),
      (''stream_credit'', [W_str 1 ''stream_id'', W_u64 2 ''receive_offset'', W_u64 3 ''credit_bytes'']),
      (''stream_reset'',
        [W_str 1 ''stream_id'', W_enum STREAM_RESET_REASON_PROTO_VALUES 2 ''reason'',
         W_msg encodeBudError 3 ''error'']),
      (''stream_close'', [W_str 1 ''stream_id'', W_u64 2 ''final_offset''])]"

definition payload_writers :: "(string \<times> write_line list) list" where
  "payload_writers = hello_writers @ terminal_writers @ reconnect_writers @ stream_writers"

definition FIELD_LEVEL_FRAME_TYPES :: "string list" where
  "FIELD_LEVEL_FRAME_TYPES =
     [''error'', ''hello'', ''hello_ack'', ''hello_challenge'', ''hello_proof'', ''heartbeat'',
      ''heartbeat_ack'', ''terminal_ensure'', ''terminal_status'', ''terminal_input'',
      ''terminal_resize'', ''terminal_close'', ''terminal_send'', ''terminal_send_result'',
      ''terminal_observe'', ''terminal_observe_result'', ''terminal_output'', ''terminal_event'',
      ''reconnect_report'', ''reconciliation_decision'', ''data_attach'', ''data_attach_ack'',
      ''stream_data'', ''stream_credit'', ''stream_reset'', ''stream_close'']"

definition encodeFieldLevelPayload :: "js_lib \<Rightarrow> string \<Rightarrow> js_object \<Rightarrow> byte list option result" where
  "encodeFieldLevelPayload lib frameType frame =
     (if frameType \<notin> set FIELD_LEVEL_FRAME_TYPES then Inr None
      else case map_of payload_writers frameType of
             None \<Rightarrow> Inr None
           | Some rows \<Rightarrow> andThen (write_rows rows lib frame) (\<lambda>bs. Inr (Some bs)))"

section \<open>Payload decoders\<close>

definition readHelloField :: "(nat \<times> read_line) list" where
  "readHelloField =
     [(1, R_str ''name''), (2, R_str ''os''), (3, R_str ''arch''), (4, R_str ''version''),
      (5, R_str ''installation_id''), (6, R_str ''token''), (7, R_str ''bud_id''),
      (8, R_json ''capabilities'')]"

definition readHelloAckField :: "(nat \<times> read_line) list" where
  "readHelloAckField =
     [(1, R_str ''session_id''), (2, R_str ''bud_id''), (3, R_num ''heartbeat_sec''),
      (4, R_str ''device_secret'')]"

definition readTerminalSendField :: "(nat \<times> read_line) list" where
  "readTerminalSendField =
     [(1, R_str ''session_id''), (2, R_str ''request_id''), (3, R_str ''text''), (4, R_bool ''submit''),
      (5, R_str ''key''), (9, R_str ''await'')]"

definition readTerminalSendResultField :: "(nat \<times> read_line) list" where
  "readTerminalSendResultField =
     [(1, R_str ''session_id''), (2, R_str ''request_id''), (6, R_str ''error''),
      (8, R_bool ''dispatched''), (9, R_json ''outcome'')]"

definition readTerminalObserveField :: "(nat \<times> read_line) list" where
  "readTerminalObserveField =
     [(1, R_str ''session_id''), (2, R_str ''request_id''), (3, R_str ''view''), (4, R_i32 ''lines''),
      (7, R_str ''await''), (8, R_u64 ''quiet_ms'' ''terminal_observe.quiet_ms'')]"

definition readTerminalObserveResultField :: "(nat \<times> read_line) list" where
  "readTerminalObserveResultField =
     [(1, R_str ''session_id''), (2, R_str ''request_id''), (3, R_str ''view''), (4, R_b64 ''output''),
      (6, R_u64 ''lines_captured'' ''terminal_observe_result.lines_captured''), (7, R_bool ''changed''),
      (10, R_str ''error''), (12, R_str ''mode''), (13, R_str ''integration''), (14, R_bool ''alt_screen''),
      (15, R_num ''cursor_row''), (16, R_num ''cursor_col'')]"

definition readReconnectReportField :: "(nat \<times> read_line) list" where
  "readReconnectReportField =
     [(1, R_str ''bud_id''), (2, R_str ''device_session_id''), (3, R_msgs decodeOperationStatus ''operations''),
      (4, R_msgs decodeStreamStatus ''streams''), (5, R_str ''local_policy_version''),
      (6, R_strs ''terminal_sessions'')]"

definition readDataAttachField :: "(nat \<times> read_line) list" where
  "readDataAttachField =
     [(1, R_str ''bud_id''), (2, R_str ''device_session_id''), (3, R_str ''control_transport_session_id''),
      (4, R_strs ''streams''), (5, R_num ''max_chunk_bytes''),
      (6, R_u64 ''initial_credit_bytes'' ''data_attach.initial_credit_bytes'')]"

definition readDataAttachAckField :: "(nat \<times> read_line) list" where
  "readDataAttachAckField =
     [(1, R_str ''bud_id''), (2, R_str ''device_session_id''), (3, R_str ''transport_session_id''),
      (4, R_strs ''streams''), (5, R_num ''max_chunk_bytes''),
      (6, R_u64 ''initial_credit_bytes'' ''data_attach_ack.initial_credit_bytes'')]"

definition readStreamDataField :: "(nat \<times> read_line) list" where
  "readStreamDataField =
     [(1, R_str ''stream_id''), (2, R_enum STREAM_TYPE_JSON_VALUES ''terminal_interactive'' ''stream_type''),
      (3, R_u64 ''offset'' ''stream_data.offset''), (4, R_b64 ''data''), (5, R_bool ''end_stream'')]"

definition readStreamCreditField :: "(nat \<times> read_line) list" where
  "readStreamCreditField =
     [(1, R_str ''stream_id''), (2, R_u64 ''receive_offset'' ''stream_credit.receive_offset''),
      (3, R_u64 ''credit_bytes'' ''stream_credit.credit_bytes'')]"

definition readStreamResetField :: "(nat \<times> read_line) list" where
  "readStreamResetField =
     [(1, R_str ''stream_id''), (2, R_enum STREAM_RESET_REASON_JSON_VALUES ''protocol_error'' ''reason''),
      (3, R_msg decodeBudError ''error'')]"

text \<open>The switch of \<open>decodeFieldLevelPayload\<close>, with the cases it spells out in line.\<close>

definition payload_readers :: "(string \<times> (nat \<times> read_line) list) list" where
  "payload_readers =
     [(''error'', BudError_read), (''hello'', readHelloField), (''hello_ack'', readHelloAckField),
      (''hello_challenge'', [(1, R_str ''nonce'')]),
      (''hello_proof'', [(1, R_str ''bud_id''), (2, R_str ''hmac'')]),
      (''heartbeat'', [(1, R_str ''session_id'')]), (''heartbeat_ack'', [(1, R_str ''session_id'')]),
      (''terminal_ensure'',
        [(1, R_str ''session_id''), (2, R_msg decodeTerminalEnsureConfig ''config''),
         (3, R_u64 ''resume_from_offset'' ''terminal_ensure.resume_from_offset'')]),
      (''terminal_status'', [(1, R_str ''session_id''), (2, R_str ''state''), (3, R_json ''info'')]),
      (''terminal_input'',
        [(1, R_str ''session_id''), (2, R_b64 ''data''), (4, R_u64 ''input_seq'' ''terminal_input.input_seq'')]),
      (''terminal_resize'', [(1, R_str ''session_id''), (2, R_num ''cols''), (3, R_num ''rows'')]),
      (''terminal_close'', [(1, R_str ''session_id''), (2, R_str ''reason'')]),
      (''terminal_send'', readTerminalSendField), (''terminal_send_result'', readTerminalSendResultField),
      (''terminal_observe'', readTerminalObserveField),
      (''terminal_observe_result'', readTerminalObserveResultField),
      (''terminal_output'',
        [(1, R_str ''session_id''), (3, R_b64 ''data''), (4, R_u64 ''byte_offset'' ''terminal_output.byte_offset'')]),
      (''terminal_event'', [(1, R_str ''session_id''), (2, R_str ''event''), (3, R_json ''data'')]),
      (''reconnect_report'', readReconnectReportField),
      (''reconciliation_decision'',
        [(1, R_msgs decodeOperationStatus ''operations''), (2, R_msgs decodeStreamStatus ''streams'')]),
      (''data_attach'', readDataAttachField), (''data_attach_ack'', readDataAttachAckField),
      (''stream_data'', readStreamDataField), (''stream_credit'', readStreamCreditField),
      (''stream_reset'', readStreamResetField),
      (''stream_close'', [(1, R_str ''stream_id''), (2, R_u64 ''final_offset'' ''stream_close.final_offset'')])]"

text \<open>
  A loop that may return before the end of the input: \<open>decodeBudEnvelopePayloadCase\<close>,
  \<open>decodeBudEnvelopePayloadEncoding\<close> and \<open>payloadContainsFrameJson\<close>.
\<close>

datatype 'a scan = Found 'a | Continue proto_reader

fun scan_loop :: "nat \<Rightarrow> (nat \<Rightarrow> nat \<Rightarrow> proto_reader \<Rightarrow> 'a scan result) \<Rightarrow> proto_reader \<Rightarrow> 'a option result" where
  "scan_loop fuel step r =
     (if rd_done r then Inr None
      else case fuel of
             0 \<Rightarrow> Inl LoopStuck
           | Suc k \<Rightarrow> andThen (readTag r) (\<lambda>((n, w), r1).
                        andThen (step n w r1) (\<lambda>res. case res of
                           Found x \<Rightarrow> Inr (Some x)
                         | Continue r2 \<Rightarrow> scan_loop k step r2)))"

declare scan_loop.simps [simp del]

definition scan_message :: "(nat \<Rightarrow> nat \<Rightarrow> proto_reader \<Rightarrow> 'a scan result) \<Rightarrow> byte list \<Rightarrow> 'a option result" where
  "scan_message step bs = scan_loop (length bs) step (new_ProtoReader bs)"

definition TYPED_FRAME_JSON_FIELD :: nat where
  "TYPED_FRAME_JSON_FIELD = 99"

definition frame_json_scan :: "nat \<Rightarrow> nat \<Rightarrow> proto_reader \<Rightarrow> bool scan result" where
  "frame_json_scan n w r =
     (if n = TYPED_FRAME_JSON_FIELD then Inr (Found True)
      else andThen (skip_field w r) (\<lambda>r1. Inr (Continue r1)))"

definition payloadContainsFrameJson :: "byte list \<Rightarrow> bool result" where
  "payloadContainsFrameJson bs = andThen (scan_message frame_json_scan bs) (\<lambda>found. Inr (found \<noteq> None))"

end
