(* ===== verification/Envelope.thy ===== *)
theory Envelope
  imports WireFrames
begin

text \<open>
  The outer message of \<open>service/src/proto/wire.ts\<close>: \<open>encodeBudEnvelope\<close>, \<open>decodeBudEnvelope\<close>, the
  frame-level entry points \<open>encodeBudFrame\<close> and \<open>decodeBudFrame\<close>, and the two classifiers that look at
  an envelope without decoding it.

  A fresh message id (\<open>ulid()\<close>) and the clock (\<open>new Date()\<close>) are arguments.  \<open>bud_envelope\<close> is
  \<open>LegacyJsonBudEnvelope\<close>; its \<open>extensions\<close> are always \<open>{}\<close> and are left out.
\<close>

definition LEGACY_JSON_PAYLOAD_FIELD :: nat where "LEGACY_JSON_PAYLOAD_FIELD = 100"
definition PAYLOAD_FIELD_MIN :: nat where "PAYLOAD_FIELD_MIN = 100"
definition PAYLOAD_FIELD_MAX :: nat where "PAYLOAD_FIELD_MAX = 199"

definition isPayloadFieldNumber :: "nat \<Rightarrow> bool" where
  "isPayloadFieldNumber fieldNumber \<longleftrightarrow> PAYLOAD_FIELD_MIN \<le> fieldNumber \<and> fieldNumber \<le> PAYLOAD_FIELD_MAX"

definition TYPED_PAYLOAD_FIELD_BY_FRAME_TYPE :: "(string \<times> nat) list" where
  "TYPED_PAYLOAD_FIELD_BY_FRAME_TYPE =
     [(''error'', 101), (''hello'', 102), (''hello_ack'', 103), (''hello_challenge'', 104),
      (''hello_proof'', 105), (''heartbeat'', 106), (''heartbeat_ack'', 107),
      (''terminal_ensure'', 120), (''terminal_status'', 121), (''terminal_input'', 122),
      (''terminal_resize'', 123), (''terminal_close'', 124), (''terminal_send'', 125),
      (''terminal_send_result'', 126), (''terminal_observe'', 127), (''terminal_observe_result'', 128),
      (''terminal_output'', 129), (''terminal_event'', 131), (''reconnect_report'', 150),
      (''reconciliation_decision'', 151), (''data_attach'', 170), (''data_attach_ack'', 171),
      (''stream_data'', 172), (''stream_credit'', 173), (''stream_reset'', 174), (''stream_close'', 175),
      (''proxy_open'', 176), (''proxy_open_result'', 177), (''file_open'', 178),
      (''file_open_result'', 179), (''file_resolve'', 180), (''file_resolve_result'', 181),
      (''proxy_ws_open'', 182), (''proxy_ws_open_result'', 183), (''proxy_ws_message'', 184),
      (''proxy_ws_close'', 185), (''proxy_ws_error'', 186), (''browser_command'', 190),
      (''browser_result'', 191)]"

definition FRAME_TYPE_BY_TYPED_PAYLOAD_FIELD :: "(nat \<times> string) list" where
  "FRAME_TYPE_BY_TYPED_PAYLOAD_FIELD =
     map (\<lambda>(frameType, fieldNumber). (fieldNumber, frameType)) TYPED_PAYLOAD_FIELD_BY_FRAME_TYPE"

text \<open>
  The table is an object literal, so looking up the name of a member of \<open>Object.prototype\<close> finds that
  member: a truthy value that is not a number, which the shift in the tag turns into field 0.
\<close>

definition object_prototype_members :: "string list" where
  "object_prototype_members =
     [''constructor'', ''__defineGetter__'', ''__defineSetter__'', ''hasOwnProperty'',
      ''__lookupGetter__'', ''__lookupSetter__'', ''isPrototypeOf'', ''propertyIsEnumerable'',
      ''toString'', ''valueOf'', ''__proto__'', ''toLocaleString'']"

definition typed_payload_field :: "string \<Rightarrow> nat option" where
  "typed_payload_field frameType =
     (case map_of TYPED_PAYLOAD_FIELD_BY_FRAME_TYPE frameType of
        Some n \<Rightarrow> Some n
      | None \<Rightarrow> if frameType \<in> set object_prototype_members then Some 0 else None)"

section \<open>Envelopes\<close>

record legacy_json_payload =
  lj_json :: string
  lj_frame_type :: "string option"
  lj_proto :: "string option"

record bud_envelope =
  ev_message_id :: string
  ev_correlation_id :: "string option"
  ev_operation_id :: "string option"
  ev_stream_id :: "string option"
  ev_trace_id :: "string option"
  ev_bud_id :: "string option"
  ev_device_session_id :: "string option"
  ev_transport_session_id :: "string option"
  ev_sent_at :: string
  ev_traffic_class :: traffic_class
  ev_transport_kind :: "transport_kind option"
  ev_legacy_json :: legacy_json_payload

record envelope_options =
  eo_messageId :: "string option"
  eo_sentAt :: "string option"
  eo_trafficClass :: "traffic_class option"
  eo_transportKind :: "transport_kind option"

definition no_options :: envelope_options where
  "no_options = \<lparr>eo_messageId = None, eo_sentAt = None, eo_trafficClass = None, eo_transportKind = None\<rparr>"

definition trafficClassForLegacyFrame :: "js_object \<Rightarrow> traffic_class" where
  "trafficClassForLegacyFrame frame =
     (let frameType = (case stringField frame ''type'' of None \<Rightarrow> [] | Some s \<Rightarrow> s)
      in if frameType = ''stream_data'' then
           (if stringField frame ''stream_type'' = Some ''file_read'' then Bulk else Proxy_active)
         else if frameType \<in> {''stream_credit'', ''stream_reset'', ''stream_close''} then Control
         else if frameType \<in> {''terminal_output'', ''terminal_send'', ''terminal_input''} then Interactive
         else if starts_with ''terminal_'' frameType then Interactive
         else if frameType = ''heartbeat'' \<or> frameType = ''hello'' \<or> starts_with ''hello_'' frameType
         then Control
         else Control)"

definition frameMessageId :: "string \<Rightarrow> js_object \<Rightarrow> string" where
  "frameMessageId fresh frame =
     (case stringField frame ''id'' of Some s \<Rightarrow> s | None \<Rightarrow> ''msg_'' @ fresh)"

definition toISO :: "js_lib \<Rightarrow> js_number \<Rightarrow> string result" where
  "toISO lib t = (case lib_toISOString lib t of None \<Rightarrow> Inl DateRangeError | Some s \<Rightarrow> Inr s)"

definition frameSentAt :: "js_lib \<Rightarrow> js_number \<Rightarrow> js_object \<Rightarrow> string result" where
  "frameSentAt lib now frame =
     (case numberField frame ''ts'' of Some t \<Rightarrow> toISO lib t | None \<Rightarrow> toISO lib now)"

definition makeLegacyJsonEnvelope ::
    "js_lib \<Rightarrow> string \<Rightarrow> js_number \<Rightarrow> js_object \<Rightarrow> envelope_options \<Rightarrow> bud_envelope result" where
  "makeLegacyJsonEnvelope lib fresh now frame options =
     andThen (case eo_sentAt options of Some s \<Rightarrow> Inr s | None \<Rightarrow> frameSentAt lib now frame) (\<lambda>sentAt.
       Inr \<lparr>ev_message_id = (case eo_messageId options of Some s \<Rightarrow> s | None \<Rightarrow> frameMessageId fresh frame),
            ev_correlation_id = None, ev_operation_id = None, ev_stream_id = None, ev_trace_id = None,
            ev_bud_id = None, ev_device_session_id = None, ev_transport_session_id = None,
            ev_sent_at = sentAt,
            ev_traffic_class =
              (case eo_trafficClass options of Some c \<Rightarrow> c | None \<Rightarrow> trafficClassForLegacyFrame frame),
            ev_transport_kind =
              Some (case eo_transportKind options of Some k \<Rightarrow> k | None \<Rightarrow> Websocket),
            ev_legacy_json =
              \<lparr>lj_json = lib_stringify lib (JObj frame), lj_frame_type = stringField frame ''type'',
               lj_proto = stringField frame ''proto''\<rparr>\<rparr>)"

section \<open>Encoding\<close>

definition encodeLegacyJsonPayload :: "bud_envelope \<Rightarrow> byte list" where
  "encodeLegacyJsonPayload envelope =
     (let legacyJson = ev_legacy_json envelope
      in writeBytes 1 (utf8_bytes (lj_json legacyJson))
         @ writeOptionalString 2 (lj_frame_type legacyJson)
         @ writeOptionalString 3 (lj_proto legacyJson))"

definition encodeTypedJsonPayload :: "js_lib \<Rightarrow> bud_envelope \<Rightarrow> (nat \<times> byte list) option result" where
  "encodeTypedJsonPayload lib envelope =
     (let legacyJson = ev_legacy_json envelope;
          frameType = (case lj_frame_type legacyJson of None \<Rightarrow> [] | Some s \<Rightarrow> s)
      in if frameType = [] then Inr None
         else case typed_payload_field frameType of
                None \<Rightarrow> Inr None
              | Some fieldNumber \<Rightarrow>
                  andThen (parseFrameJson lib (lj_json legacyJson)) (\<lambda>parsed.
                  andThen (encodeFieldLevelPayload lib frameType parsed) (\<lambda>fieldLevelPayload.
                    case fieldLevelPayload of
                      Some bs \<Rightarrow> Inr (Some (fieldNumber, bs))
                    | None \<Rightarrow> Inr (Some (fieldNumber,
                               writeBytes TYPED_FRAME_JSON_FIELD (utf8_bytes (lj_json legacyJson)))))))"

definition encodeBudEnvelope :: "js_lib \<Rightarrow> bud_envelope \<Rightarrow> bool \<Rightarrow> byte list result" where
  "encodeBudEnvelope lib envelope forceLegacyJsonPayload =
     andThen (if forceLegacyJsonPayload then Inr None else encodeTypedJsonPayload lib envelope)
       (\<lambda>typedPayload.
         Inr (writeUint32 1 (int BUD_ENVELOPE_VERSION)
           @ writeString 2 (ev_message_id envelope)
           @ writeOptionalString 3 (ev_correlation_id envelope)
           @ writeOptionalString 4 (ev_operation_id envelope)
           @ writeOptionalString 5 (ev_stream_id envelope)
           @ writeOptionalString 6 (ev_trace_id envelope)
           @ writeOptionalString 7 (ev_bud_id envelope)
           @ writeOptionalString 8 (ev_device_session_id envelope)
           @ writeOptionalString 9 (ev_transport_session_id envelope)
           @ writeString 10 (ev_sent_at envelope)
           @ writeEnum 11 (int (the (map_of TRAFFIC_CLASS_PROTO_VALUES (ev_traffic_class envelope))))
           @ (case ev_transport_kind envelope of
                None \<Rightarrow> []
              | Some k \<Rightarrow> writeEnum 12 (int (the (map_of TRANSPORT_KIND_PROTO_VALUES k))))
           @ (case typedPayload of
                Some (fieldNumber, bs) \<Rightarrow> writeMessage fieldNumber bs
              | None \<Rightarrow> writeMessage LEGACY_JSON_PAYLOAD_FIELD (encodeLegacyJsonPayload envelope))))"

definition encodeLegacyJsonFrame ::
    "js_lib \<Rightarrow> string \<Rightarrow> js_number \<Rightarrow> js_object \<Rightarrow> envelope_options \<Rightarrow> byte list result" where
  "encodeLegacyJsonFrame lib fresh now frame options =
     andThen (makeLegacyJsonEnvelope lib fresh now frame options) (\<lambda>envelope.
       encodeBudEnvelope lib envelope False)"

definition encodeBudFrame ::
    "js_lib \<Rightarrow> string \<Rightarrow> js_number \<Rightarrow> js_object \<Rightarrow> envelope_options \<Rightarrow> byte list result" where
  "encodeBudFrame = encodeLegacyJsonFrame"

section \<open>Decoding\<close>

definition legacy_step :: "(string option \<times> string option \<times> string option) field_step" where
  "legacy_step n w = (\<lambda>((json, frameType, proto), r).
     if n = 1 then andThen (readStringForWireType w r) (\<lambda>(s, r1). Inr ((Some s, frameType, proto), r1))
     else if n = 2 then andThen (readStringForWireType w r) (\<lambda>(s, r1). Inr ((json, Some s, proto), r1))
     else if n = 3 then andThen (readStringForWireType w r) (\<lambda>(s, r1). Inr ((json, frameType, Some s), r1))
     else andThen (skip_field w r) (\<lambda>r1. Inr ((json, frameType, proto), r1)))"

text \<open>\<open>x ? {k: x} : {}\<close> on a string that may be missing.\<close>

definition non_empty :: "string option \<Rightarrow> string option" where
  "non_empty x = (case x of None \<Rightarrow> None | Some s \<Rightarrow> if s = [] then None else Some s)"

definition decodeLegacyJsonPayload :: "byte list \<Rightarrow> legacy_json_payload result" where
  "decodeLegacyJsonPayload bs =
     andThen (read_message legacy_step (None, None, None) bs) (\<lambda>(json, frameType, proto).
       case non_empty json of
         None \<Rightarrow> Inl (JsError ''legacy_json payload missing json bytes'')
       | Some j \<Rightarrow> Inr \<lparr>lj_json = j, lj_frame_type = non_empty frameType, lj_proto = non_empty proto\<rparr>)"

definition baseFrame :: "js_lib \<Rightarrow> string \<Rightarrow> string \<Rightarrow> string \<Rightarrow> js_object" where
  "baseFrame lib frameType messageId sentAt =
     [(''proto'', JStr (protoForFrameType frameType)), (''type'', JStr frameType), (''id'', JStr messageId),
      (''ts'', JNum (sentAtToMillis lib sentAt)), (''ext'', JObj [])]"

definition fill_defaults :: "string \<Rightarrow> js_object \<Rightarrow> js_object" where
  "fill_defaults frameType frame =
     (let f1 = (if frameType \<in> {''terminal_send_result'', ''terminal_observe_result''} \<and> \<not> obj_has frame ''error''
                then obj_set ''error'' JNull frame else frame);
          f2 = (if frameType = ''terminal_send_result'' \<and> \<not> obj_has f1 ''outcome''
                then obj_set ''outcome'' JNull f1 else f1)
      in if frameType = ''terminal_event'' \<and> \<not> obj_has f2 ''data'' then obj_set ''data'' (JObj []) f2 else f2)"

definition decodeFieldLevelPayload ::
    "js_lib \<Rightarrow> nat \<Rightarrow> byte list \<Rightarrow> string \<Rightarrow> string \<Rightarrow> js_object option result" where
  "decodeFieldLevelPayload lib payloadFieldNumber bs messageId sentAt =
     (case map_of FRAME_TYPE_BY_TYPED_PAYLOAD_FIELD payloadFieldNumber of
        None \<Rightarrow> Inr None
      | Some frameType \<Rightarrow>
          if frameType \<notin> set FIELD_LEVEL_FRAME_TYPES then Inr None
          else andThen (payloadContainsFrameJson bs) (\<lambda>hasFrameJson.
            if hasFrameJson then Inr None
            else andThen
              (read_message (read_by lib (case map_of payload_readers frameType of None \<Rightarrow> [] | Some rows \<Rightarrow> rows))
                 (baseFrame lib frameType messageId sentAt) bs)
              (\<lambda>frame. Inr (Some (fill_defaults frameType frame)))))"

definition frame_json_step :: "(string option) field_step" where
  "frame_json_step n w = (\<lambda>(json, r).
     if n = TYPED_FRAME_JSON_FIELD then andThen (readStringForWireType w r) (\<lambda>(s, r1). Inr (Some s, r1))
     else andThen (skip_field w r) (\<lambda>r1. Inr (json, r1)))"

definition decodeTypedJsonPayload ::
    "js_lib \<Rightarrow> nat \<Rightarrow> byte list \<Rightarrow> string \<Rightarrow> string \<Rightarrow> legacy_json_payload result" where
  "decodeTypedJsonPayload lib payloadFieldNumber bs messageId sentAt =
     andThen (decodeFieldLevelPayload lib payloadFieldNumber bs messageId sentAt) (\<lambda>fieldLevelFrame.
       case fieldLevelFrame of
         Some frame \<Rightarrow>
           Inr \<lparr>lj_json = lib_stringify lib (JObj frame), lj_frame_type = stringField frame ''type'',
                lj_proto = stringField frame ''proto''\<rparr>
       | None \<Rightarrow>
           andThen (read_message frame_json_step None bs) (\<lambda>json.
             case non_empty json of
               None \<Rightarrow> Inl (JsError ''typed protobuf payload missing frame_json bytes'')
             | Some j \<Rightarrow>
                 (let frameType = map_of FRAME_TYPE_BY_TYPED_PAYLOAD_FIELD payloadFieldNumber
                  in Inr \<lparr>lj_json = j, lj_frame_type = frameType,
                          lj_proto = map_option protoForFrameType frameType\<rparr>)))"

record decoded_envelope =
  dc_envelope_version :: "nat option"
  dc_message_id :: "string option"
  dc_correlation_id :: "string option"
  dc_operation_id :: "string option"
  dc_stream_id :: "string option"
  dc_trace_id :: "string option"
  dc_bud_id :: "string option"
  dc_device_session_id :: "string option"
  dc_transport_session_id :: "string option"
  dc_sent_at :: "string option"
  dc_traffic_class :: "traffic_class option"
  dc_transport_kind :: "transport_kind option"
  dc_payload :: "legacy_json_payload option"
  dc_typedPayload :: "(nat \<times> byte list) option"

definition nothing_decoded :: decoded_envelope where
  "nothing_decoded =
     \<lparr>dc_envelope_version = None, dc_message_id = None, dc_correlation_id = None, dc_operation_id = None,
      dc_stream_id = None, dc_trace_id = None, dc_bud_id = None, dc_device_session_id = None,
      dc_transport_session_id = None, dc_sent_at = None, dc_traffic_class = None,
      dc_transport_kind = None, dc_payload = None, dc_typedPayload = None\<rparr>"

text \<open>The string-valued cases of the switch: the field that the case assigns.\<close>

definition envelope_string :: "nat \<Rightarrow> (string \<Rightarrow> decoded_envelope \<Rightarrow> decoded_envelope) option" where
  "envelope_string n = map_of
     [(2, \<lambda>s d. d\<lparr>dc_message_id := Some s\<rparr>), (3, \<lambda>s d. d\<lparr>dc_correlation_id := Some s\<rparr>),
      (4, \<lambda>s d. d\<lparr>dc_operation_id := Some s\<rparr>), (5, \<lambda>s d. d\<lparr>dc_stream_id := Some s\<rparr>),
      (6, \<lambda>s d. d\<lparr>dc_trace_id := Some s\<rparr>), (7, \<lambda>s d. d\<lparr>dc_bud_id := Some s\<rparr>),
      (8, \<lambda>s d. d\<lparr>dc_device_session_id := Some s\<rparr>), (9, \<lambda>s d. d\<lparr>dc_transport_session_id := Some s\<rparr>),
      (10, \<lambda>s d. d\<lparr>dc_sent_at := Some s\<rparr>)] n"

definition envelope_step :: "decoded_envelope field_step" where
  "envelope_step n w = (\<lambda>(d, r).
     if n = 1 then
       andThen (readVarintForWireType w r) (\<lambda>(v, r1). Inr (d\<lparr>dc_envelope_version := Some (number_of_bigint v)\<rparr>, r1))
     else case envelope_string n of
       Some assign \<Rightarrow> andThen (readStringForWireType w r) (\<lambda>(s, r1). Inr (assign s d, r1))
     | None \<Rightarrow>
         if n = 11 then
           andThen (readVarintForWireType w r) (\<lambda>(v, r1).
             Inr (case trafficClassFromProto (number_of_bigint v) of
                    Some c \<Rightarrow> d\<lparr>dc_traffic_class := Some c\<rparr> | None \<Rightarrow> d, r1))
         else if n = 12 then
           andThen (readVarintForWireType w r) (\<lambda>(v, r1).
             Inr (case transportKindFromProto (number_of_bigint v) of
                    Some k \<Rightarrow> d\<lparr>dc_transport_kind := Some k\<rparr> | None \<Rightarrow> d, r1))
         else if n = LEGACY_JSON_PAYLOAD_FIELD then
           andThen (readBytesForWireType w r) (\<lambda>(bs, r1).
             andThen (decodeLegacyJsonPayload bs) (\<lambda>lj. Inr (d\<lparr>dc_payload := Some lj\<rparr>, r1)))
         else if map_of FRAME_TYPE_BY_TYPED_PAYLOAD_FIELD n \<noteq> None then
           andThen (readBytesForWireType w r) (\<lambda>(bs, r1). Inr (d\<lparr>dc_typedPayload := Some (n, bs)\<rparr>, r1))
         else if isPayloadFieldNumber n then Inl (UnsupportedBudEnvelopePayload n)
         else andThen (skip_field w r) (\<lambda>r1. Inr (d, r1)))"

definition decodeBudEnvelope :: "js_lib \<Rightarrow> byte list \<Rightarrow> bud_envelope result" where
  "decodeBudEnvelope lib bs =
     andThen (read_message envelope_step nothing_decoded bs) (\<lambda>decoded.
       if dc_envelope_version decoded \<noteq> Some BUD_ENVELOPE_VERSION then
         Inl (JsError (''unsupported envelope_version: '' @
           (case dc_envelope_version decoded of
              None \<Rightarrow> ''missing'' | Some v \<Rightarrow> lib_numberToString lib (num_of_int (int v)))))
       else
         case (non_empty (dc_message_id decoded), non_empty (dc_sent_at decoded), dc_traffic_class decoded) of
           (Some messageId, Some sentAt, Some trafficClass) \<Rightarrow>
             andThen
               (case dc_payload decoded of
                  Some lj \<Rightarrow> Inr lj
                | None \<Rightarrow>
                    (case dc_typedPayload decoded of
                       Some (fieldNumber, payload) \<Rightarrow>
                         decodeTypedJsonPayload lib fieldNumber payload messageId sentAt
                     | None \<Rightarrow> Inl (JsError ''protobuf envelope missing payload'')))
               (\<lambda>legacyJson.
                  Inr \<lparr>ev_message_id = messageId, ev_correlation_id = dc_correlation_id decoded,
                       ev_operation_id = dc_operation_id decoded, ev_stream_id = dc_stream_id decoded,
                       ev_trace_id = dc_trace_id decoded, ev_bud_id = dc_bud_id decoded,
                       ev_device_session_id = dc_device_session_id decoded,
                       ev_transport_session_id = dc_transport_session_id decoded,
                       ev_sent_at = sentAt, ev_traffic_class = trafficClass,
                       ev_transport_kind = dc_transport_kind decoded, ev_legacy_json = legacyJson\<rparr>)
         | _ \<Rightarrow> Inl (JsError ''protobuf envelope missing required compatibility fields''))"

definition decodeLegacyJsonFrame :: "js_lib \<Rightarrow> byte list \<Rightarrow> js_object result" where
  "decodeLegacyJsonFrame lib bs =
     andThen (decodeBudEnvelope lib bs) (\<lambda>envelope.
     andThen (parse_json lib (lj_json (ev_legacy_json envelope))) (\<lambda>parsed.
       case as_record parsed of
         None \<Rightarrow> Inl (JsError ''legacy_json payload was not an object'')
       | Some frame \<Rightarrow> Inr frame))"

definition decodeBudFrame :: "js_lib \<Rightarrow> byte list \<Rightarrow> js_object result" where
  "decodeBudFrame = decodeLegacyJsonFrame"

definition payload_case_step :: "nat \<Rightarrow> nat \<Rightarrow> proto_reader \<Rightarrow> string scan result" where
  "payload_case_step n w r =
     (if n = LEGACY_JSON_PAYLOAD_FIELD then Inr (Found ''legacy_json'')
      else case map_of FRAME_TYPE_BY_TYPED_PAYLOAD_FIELD n of
             Some typedFrame \<Rightarrow> Inr (Found typedFrame)
           | None \<Rightarrow>
               if isPayloadFieldNumber n then Inl (UnsupportedBudEnvelopePayload n)
               else andThen (skip_field w r) (\<lambda>r1. Inr (Continue r1)))"

definition decodeBudEnvelopePayloadCase :: "byte list \<Rightarrow> string result" where
  "decodeBudEnvelopePayloadCase bs =
     andThen (scan_message payload_case_step bs) (\<lambda>found. case found of
       None \<Rightarrow> Inl (JsError ''protobuf envelope missing payload'') | Some x \<Rightarrow> Inr x)"

datatype payload_encoding = Legacy_json | Typed_fields | Typed_frame_json

definition payload_encoding_step :: "nat \<Rightarrow> nat \<Rightarrow> proto_reader \<Rightarrow> payload_encoding scan result" where
  "payload_encoding_step n w r =
     (if n = LEGACY_JSON_PAYLOAD_FIELD then andThen (skip_field w r) (\<lambda>_. Inr (Found Legacy_json))
      else if map_of FRAME_TYPE_BY_TYPED_PAYLOAD_FIELD n \<noteq> None then
        andThen (readBytesForWireType w r) (\<lambda>(payloadBytes, r1).
          andThen (payloadContainsFrameJson payloadBytes) (\<lambda>has.
            Inr (Found (if has then Typed_frame_json else Typed_fields))))
      else if isPayloadFieldNumber n then Inl (UnsupportedBudEnvelopePayload n)
      else andThen (skip_field w r) (\<lambda>r1. Inr (Continue r1)))"

definition decodeBudEnvelopePayloadEncoding :: "byte list \<Rightarrow> payload_encoding result" where
  "decodeBudEnvelopePayloadEncoding bs =
     andThen (scan_message payload_encoding_step bs) (\<lambda>found. case found of
       None \<Rightarrow> Inl (JsError ''protobuf envelope missing payload'') | Some x \<Rightarrow> Inr x)"

end
