(* ===== verification/WireProps.thy ===== *)
theory WireProps
  imports Envelope
begin

text \<open>
  Correctness of the payload codec.  A table of writer lines and a table of reader lines implement a
  message schema: what the writers produce is a list of fields, and reading these fields back
  restores every property that is present.  The schemas are the messages of
  \<open>proto/bud/v1/bud.proto\<close>, under the property names of the JSON frames.
\<close>

section \<open>Readers as functions of fields\<close>

definition need_bytes :: "wire_value \<Rightarrow> byte list result" where
  "need_bytes v = (case v of
     VBytes bs \<Rightarrow> Inr bs
   | VVarint _ \<Rightarrow> Inl (JsError (''expected length-delimited wire type, got '' @ show_nat 0)))"

definition need_varint :: "wire_value \<Rightarrow> nat result" where
  "need_varint v = (case v of
     VVarint n \<Rightarrow> Inr n
   | VBytes _ \<Rightarrow> Inl (JsError (''expected varint wire type, got '' @ show_nat 2)))"

fun row_effect :: "js_lib \<Rightarrow> read_line \<Rightarrow> wire_value \<Rightarrow> js_object \<Rightarrow> js_object result" where
  "row_effect lib (R_str k) v ob = andThen (need_bytes v) (\<lambda>bs. Inr (obj_set k (JStr (utf8_toString bs)) ob))"
| "row_effect lib (R_bool k) v ob = andThen (need_varint v) (\<lambda>n. Inr (obj_set k (JBool (n \<noteq> 0)) ob))"
| "row_effect lib (R_num k) v ob =
     andThen (need_varint v) (\<lambda>n. Inr (obj_set k (JInt (int (number_of_bigint n))) ob))"
| "row_effect lib (R_u64 k name) v ob =
     andThen (need_varint v) (\<lambda>n.
       if int n > MAX_SAFE_INTEGER then Inl (JsError (name @ '' exceeds JavaScript safe integer range''))
       else Inr (obj_set k (JInt (int (number_of_bigint n))) ob))"
| "row_effect lib (R_i32 k) v ob =
     andThen (need_varint v) (\<lambda>n. Inr (obj_set k (JInt (sint (word_of_nat n :: 32 word))) ob))"
| "row_effect lib (R_enum tbl d k) v ob =
     andThen (need_varint v) (\<lambda>n. Inr (obj_set k (JStr (lookup_or tbl d (number_of_bigint n))) ob))"
| "row_effect lib (R_json k) v ob =
     andThen (need_bytes v) (\<lambda>bs. andThen (parseJsonBytes lib bs) (\<lambda>x. Inr (obj_set k x ob)))"
| "row_effect lib (R_b64 k) v ob = andThen (need_bytes v) (\<lambda>bs. Inr (obj_set k (JStr (b64_encode bs)) ob))"
| "row_effect lib (R_map k) v ob =
     andThen (need_bytes v) (\<lambda>bs. andThen (decodeStringMapEntry bs) (\<lambda>e.
       Inr (obj_set k (JObj (obj_spread (record_or_empty (obj_get ob k)) e)) ob)))"
| "row_effect lib (R_strs k) v ob =
     andThen (need_bytes v) (\<lambda>bs. Inr (pushArrayValue k (JStr (utf8_toString bs)) ob))"
| "row_effect lib (R_msg dec k) v ob =
     andThen (need_bytes v) (\<lambda>bs. andThen (dec lib bs) (\<lambda>x. Inr (obj_set k (JObj x) ob)))"
| "row_effect lib (R_msgs dec k) v ob =
     andThen (need_bytes v) (\<lambda>bs. andThen (dec lib bs) (\<lambda>x. Inr (pushArrayValue k (JObj x) ob)))"

definition rows_effect :: "js_lib \<Rightarrow> (nat \<times> read_line) list \<Rightarrow> nat \<Rightarrow> wire_value \<Rightarrow> js_object \<Rightarrow> js_object result" where
  "rows_effect lib rows n v ob = (case map_of rows n of Some row \<Rightarrow> row_effect lib row v ob | None \<Rightarrow> Inr ob)"

lemma andThen_if: "andThen (if b then x else y) f = (if b then andThen x f else andThen y f)"
  by simp

lemmas reads_at = readVarintForWireType_def readStringForWireType_def readSafeUint64_def readInt32Varint_def
  readVarint_at wire_types andThen_assoc need_bytes_def need_varint_def uint64_of_small

lemma readVarint_number: "v < 2 ^ 64 \<Longrightarrow>
    readVarint (reader_at pre (encodeVarint (int v) @ post)) = Inr (v, reader_at (pre @ encodeVarint (int v)) post)"
  by (simp add: readVarint_at uint64_of_small)

lemma row_reads_varint:
  "v < 2 ^ 64 \<Longrightarrow> read_row lib row 0 (ob, reader_at pre (encodeVarint (int v) @ post)) =
     andThen (row_effect lib row (VVarint v) ob)
       (\<lambda>ob'. Inr (ob', reader_at (pre @ encodeVarint (int v)) post))"
  by (cases row)
     (simp_all add: readVarint_number readVarintForWireType_def readStringForWireType_def readSafeUint64_def
       readInt32Varint_def readBytesForWireType_def wire_types need_bytes_def need_varint_def andThen_if)

lemma row_reads_bytes:
  "length bs < 2 ^ 53 \<Longrightarrow> read_row lib row 2 (ob, reader_at pre (encodeVarint (int (length bs)) @ bs @ post)) =
     andThen (row_effect lib row (VBytes bs) ob)
       (\<lambda>ob'. Inr (ob', reader_at (pre @ encodeVarint (int (length bs)) @ bs) post))"
  by (cases row)
     (simp_all add: readBytes_at readVarintForWireType_def readStringForWireType_def readSafeUint64_def
       readInt32Varint_def wire_types need_bytes_def need_varint_def andThen_assoc)

interpretation rows_reader: field_reader "read_by lib rows" "rows_effect lib rows" for lib rows
proof
  fix v n st pre post
  assume v: "v < (2 :: nat) ^ 64"
  show "read_by lib rows n 0 (st, reader_at pre (encodeVarint (int v) @ post)) =
      andThen (rows_effect lib rows n (VVarint v) st)
        (\<lambda>st'. Inr (st', reader_at (pre @ encodeVarint (int v)) post))"
    by (cases "map_of rows n") (simp_all add: read_by_def rows_effect_def skip_at row_reads_varint [OF v])
next
  fix bs :: "byte list" and n st pre post
  assume bs: "length bs < 2 ^ 53"
  show "read_by lib rows n 2 (st, reader_at pre (encodeVarint (int (length bs)) @ bs @ post)) =
      andThen (rows_effect lib rows n (VBytes bs) st)
        (\<lambda>st'. Inr (st', reader_at (pre @ encodeVarint (int (length bs)) @ bs) post))"
    using bs by (cases "map_of rows n") (simp_all add: read_by_def rows_effect_def skip_at row_reads_bytes)
qed

section \<open>Message schemas\<close>

datatype field_type =
    T_string
  | T_nullable
  | T_bool
  | T_uint
  | T_int32
  | T_enum "string list"
  | T_json
  | T_bytes
  | T_map
  | T_strings
  | T_message "(string \<times> field_type) list"
  | T_messages "(string \<times> field_type) list"

type_synonym schema = "(string \<times> field_type) list"

text \<open>Values that the wire format cannot tell from a missing property.\<close>

fun absent :: "field_type \<Rightarrow> json \<Rightarrow> bool" where
  "absent t JUndef = True"
| "absent t JNull = True"
| "absent T_string (JStr s) = (s = [])"
| "absent T_strings (JArr xs) = (xs = [])"
| "absent (T_messages _) (JArr xs) = (xs = [])"
| "absent T_map (JObj ob) = (ob = [])"
| "absent _ _ = False"

text \<open>The properties of a message, in the order of the schema.\<close>

definition body_of :: "schema \<Rightarrow> js_object \<Rightarrow> js_object" where
  "body_of sch ob =
     concat (map (\<lambda>(k, t). if absent t (obj_get ob k) then [] else [(k, obj_get ob k)]) sch)"

definition is_text :: "json \<Rightarrow> bool" where
  "is_text v = (case v of JStr _ \<Rightarrow> True | _ \<Rightarrow> False)"

definition int_in :: "int \<Rightarrow> int \<Rightarrow> json \<Rightarrow> bool" where
  "int_in lo hi v = (case v of JNum n \<Rightarrow> is_integer n \<and> lo \<le> js_floor n \<and> js_floor n \<le> hi | _ \<Rightarrow> False)"

lemma size_schema: "p \<in> set sch \<Longrightarrow> size (snd p) < Suc (size_list (size_prod (\<lambda>_. 0) size) sch)"
  by (induction sch) auto

function well_typed :: "field_type \<Rightarrow> json \<Rightarrow> bool" where
  "well_typed T_string v = is_text v"
| "well_typed T_nullable v = is_text v"
| "well_typed T_bool v = (case v of JBool _ \<Rightarrow> True | _ \<Rightarrow> False)"
| "well_typed T_uint v = int_in 0 MAX_SAFE_INTEGER v"
| "well_typed T_int32 v = int_in (- (2 ^ 31)) (2 ^ 31 - 1) v"
| "well_typed (T_enum names) v = (case v of JStr s \<Rightarrow> s \<in> set names | _ \<Rightarrow> False)"
| "well_typed T_json v = True"
| "well_typed T_bytes v = (case v of JStr s \<Rightarrow> s = b64_encode (b64_decode s) | _ \<Rightarrow> False)"
| "well_typed T_map v = (case v of
     JObj ob \<Rightarrow> (\<forall>p \<in> set ob. is_text (snd p) \<and> fst p \<notin> {[], ''__proto__''}) | _ \<Rightarrow> False)"
| "well_typed T_strings v = (case v of JArr xs \<Rightarrow> (\<forall>x \<in> set xs. is_text x) | _ \<Rightarrow> False)"
| "well_typed (T_message sch) v = (case v of
     JObj ob \<Rightarrow> ob = body_of sch ob \<and>
       (\<forall>p \<in> set sch. absent (snd p) (obj_get ob (fst p)) \<or> well_typed (snd p) (obj_get ob (fst p)))
   | _ \<Rightarrow> False)"
| "well_typed (T_messages sch) v = (case v of
     JArr xs \<Rightarrow> (\<forall>x \<in> set xs. case x of
         JObj ob \<Rightarrow> ob = body_of sch ob \<and>
           (\<forall>p \<in> set sch. absent (snd p) (obj_get ob (fst p)) \<or> well_typed (snd p) (obj_get ob (fst p)))
       | _ \<Rightarrow> False)
   | _ \<Rightarrow> False)"
  by pat_completeness auto

termination well_typed
  by (relation "measure (\<lambda>(t, _). size t)") (auto dest: size_schema)

definition conforms :: "schema \<Rightarrow> js_object \<Rightarrow> bool" where
  "conforms sch ob \<longleftrightarrow>
     (\<forall>p \<in> set sch. absent (snd p) (obj_get ob (fst p)) \<or> well_typed (snd p) (obj_get ob (fst p)))"

text \<open>A message that is written as the schema has it: nothing else, nothing absent, in order.\<close>

definition canonical :: "schema \<Rightarrow> js_object \<Rightarrow> bool" where
  "canonical sch ob \<longleftrightarrow> ob = body_of sch ob \<and> conforms sch ob"

lemma well_typed_message:
  "well_typed (T_message sch) v \<longleftrightarrow> (\<exists>ob. v = JObj ob \<and> canonical sch ob)"
  "well_typed (T_messages sch) v \<longleftrightarrow> (\<exists>xs. v = JArr (map JObj xs) \<and> (\<forall>ob \<in> set xs. canonical sch ob))"
proof -
  show "well_typed (T_message sch) v \<longleftrightarrow> (\<exists>ob. v = JObj ob \<and> canonical sch ob)"
    by (cases v) (auto simp: canonical_def conforms_def)
  have "(\<forall>x \<in> set xs. case x of JObj ob \<Rightarrow> canonical sch ob | _ \<Rightarrow> False) \<longleftrightarrow>
      (\<exists>obs. xs = map JObj obs \<and> (\<forall>ob \<in> set obs. canonical sch ob))" for xs
  proof (induction xs)
    case (Cons x xs)
    show ?case
    proof (cases x)
      case (JObj ob)
      have "(\<exists>obs. x # xs = map JObj obs \<and> (\<forall>ob \<in> set obs. canonical sch ob)) \<longleftrightarrow>
          canonical sch ob \<and> (\<exists>obs. xs = map JObj obs \<and> (\<forall>ob \<in> set obs. canonical sch ob))"
        unfolding JObj Cons_eq_map_conv by force
      with Cons JObj show ?thesis by simp
    qed (auto simp: Cons_eq_map_conv)
  qed simp
  then show "well_typed (T_messages sch) v \<longleftrightarrow> (\<exists>xs. v = JArr (map JObj xs) \<and> (\<forall>ob \<in> set xs. canonical sch ob))"
    unfolding canonical_def conforms_def by (cases v) simp_all
qed

text \<open>
  Values that \<open>JSON.stringify\<close> keeps: no \<open>undefined\<close>, numbers are finite doubles, strings are
  well-formed text, keys are distinct.
\<close>

definition is_double :: "js_number \<Rightarrow> bool" where
  "is_double n \<longleftrightarrow> (\<exists>m e :: int. \<bar>m\<bar> \<le> MAX_SAFE_INTEGER \<and> -1074 \<le> e \<and> e \<le> 971 \<and>
     n = Fin (rat_of_int m * 2 powi e))"

fun plain :: "json \<Rightarrow> bool" where
  "plain JUndef = False"
| "plain JNull = True"
| "plain (JBool _) = True"
| "plain (JNum n) = is_double n"
| "plain (JStr s) = js_text s"
| "plain (JArr xs) = (\<forall>x \<in> set xs. plain x)"
| "plain (JObj ob) = (distinct (map fst ob) \<and> (\<forall>p \<in> set ob. js_text (fst p) \<and> plain (snd p)))"

lemma is_double_of_int [simp]: "\<bar>n\<bar> \<le> MAX_SAFE_INTEGER \<Longrightarrow> is_double (num_of_int n)"
  unfolding is_double_def by (rule exI [of _ n], rule exI [of _ 0]) simp

lemma is_double_numeral [simp]: "numeral k \<le> MAX_SAFE_INTEGER \<Longrightarrow> is_double (Fin (numeral k))"
  using is_double_of_int [of "numeral k"] by simp

text \<open>What is relied on of \<open>JSON\<close> and \<open>Date\<close>.\<close>

definition json_text_ok :: "js_lib \<Rightarrow> bool" where
  "json_text_ok lib \<longleftrightarrow> (\<forall>v. plain v \<longrightarrow>
     lib_parse lib (lib_stringify lib v) = Some v \<and> js_text (lib_stringify lib v) \<and> lib_stringify lib v \<noteq> [])"

text \<open>Dates range over 100 million days around the epoch.\<close>

definition date_text_ok :: "js_lib \<Rightarrow> bool" where
  "date_text_ok lib \<longleftrightarrow> (\<forall>t. \<bar>t\<bar> \<le> 8640000000000000 \<longrightarrow> (\<exists>s. lib_toISOString lib (num_of_int t) = Some s \<and>
     lib_dateParse lib s = num_of_int t \<and> js_text s \<and> s \<noteq> []))"

section \<open>Rows that restore what they write\<close>

definition field_small :: "wire_field \<Rightarrow> bool" where
  "field_small f \<longleftrightarrow> fst f < 99 \<and> (case snd f of VVarint v \<Rightarrow> v < 2 ^ 64 | VBytes _ \<Rightarrow> True)"

lemma field_bytes_le: "f \<in> set fs \<Longrightarrow> length (field_bytes f) \<le> length (fields_bytes fs)"
  by (induction fs) auto

lemma small_fields_ok:
  assumes "\<forall>f \<in> set fs. field_small f" and "length (fields_bytes fs) < 2 ^ 53"
  shows "\<forall>f \<in> set fs. field_ok f"
proof
  fix f
  assume f: "f \<in> set fs"
  then have "field_small f" and "length (field_bytes f) < 2 ^ 53"
    using assms field_bytes_le [OF f] by auto
  then show "field_ok f"
    by (cases f rule: field_bytes.cases) (auto simp: field_small_def writeBytes_def)
qed

definition restores :: "js_lib \<Rightarrow> (nat \<times> read_line) list \<Rightarrow> write_line \<Rightarrow> string \<times> field_type \<Rightarrow> bool" where
  "restores lib rows w p \<longleftrightarrow> (\<forall>ob.
     (absent (snd p) (obj_get ob (fst p)) \<longrightarrow> write_row lib w ob = Inr []) \<and>
     (\<not> absent (snd p) (obj_get ob (fst p)) \<and> well_typed (snd p) (obj_get ob (fst p)) \<and> plain (obj_get ob (fst p)) \<longrightarrow>
        (\<exists>fs. write_row lib w ob = Inr (fields_bytes fs) \<and> (\<forall>f \<in> set fs. field_small f) \<and>
          (length (fields_bytes fs) < 2 ^ 53 \<longrightarrow> (\<forall>ob'. \<not> obj_has ob' (fst p) \<longrightarrow>
             fold_fields (rows_effect lib rows) fs ob' = Inr (ob' @ [(fst p, obj_get ob (fst p))]))))))"

lemma restoresI:
  assumes "\<And>ob. absent t (obj_get ob k) \<Longrightarrow> write_row lib w ob = Inr []"
    and "\<And>ob. \<not> absent t (obj_get ob k) \<Longrightarrow> well_typed t (obj_get ob k) \<Longrightarrow> plain (obj_get ob k) \<Longrightarrow>
      \<exists>fs. write_row lib w ob = Inr (fields_bytes fs) \<and> (\<forall>f \<in> set fs. field_small f) \<and>
        (length (fields_bytes fs) < 2 ^ 53 \<longrightarrow> (\<forall>ob'. \<not> obj_has ob' k \<longrightarrow>
           fold_fields (rows_effect lib rows) fs ob' = Inr (ob' @ [(k, obj_get ob k)])))"
  shows "restores lib rows w (k, t)"
  using assms unfolding restores_def by simp

lemma restores_present:
  assumes "restores lib rows w (k, t)" "\<not> absent t (obj_get ob k)" "well_typed t (obj_get ob k)" "plain (obj_get ob k)"
  obtains fs where "write_row lib w ob = Inr (fields_bytes fs)" "\<forall>f \<in> set fs. field_small f"
    "length (fields_bytes fs) < 2 ^ 53 \<longrightarrow> (\<forall>ob'. \<not> obj_has ob' k \<longrightarrow>
       fold_fields (rows_effect lib rows) fs ob' = Inr (ob' @ [(k, obj_get ob k)]))"
proof -
  from assms have "\<exists>fs. write_row lib w ob = Inr (fields_bytes fs) \<and> (\<forall>f \<in> set fs. field_small f) \<and>
      (length (fields_bytes fs) < 2 ^ 53 \<longrightarrow> (\<forall>ob'. \<not> obj_has ob' k \<longrightarrow>
         fold_fields (rows_effect lib rows) fs ob' = Inr (ob' @ [(k, obj_get ob k)])))"
    by (simp only: restores_def fst_conv snd_conv simp_thms)
  then obtain fs where "write_row lib w ob = Inr (fields_bytes fs)" "\<forall>f \<in> set fs. field_small f"
    "length (fields_bytes fs) < 2 ^ 53 \<longrightarrow> (\<forall>ob'. \<not> obj_has ob' k \<longrightarrow>
       fold_fields (rows_effect lib rows) fs ob' = Inr (ob' @ [(k, obj_get ob k)]))"
    by (elim exE conjE)
  then show ?thesis
    by (rule that)
qed

lemma obj_set_new: "\<not> obj_has ob k \<Longrightarrow> obj_set k v ob = ob @ [(k, v)]"
  by (induction ob) (auto simp: js_simps)

lemma obj_set_last: "\<not> obj_has ob k \<Longrightarrow> obj_set k v (ob @ [(k, u)]) = ob @ [(k, v)]"
  by (induction ob) (auto simp: js_simps)

lemma obj_get_last: "\<not> obj_has ob k \<Longrightarrow> obj_get (ob @ [(k, u)]) k = u"
  by (induction ob) (auto simp: js_simps)

lemma obj_has_snoc: "obj_has (ob @ [(k, v)]) k' \<longleftrightarrow> k' = k \<or> obj_has ob k'"
  by (induction ob) (auto simp: js_simps)

lemmas obj_ends = obj_set_new obj_set_last obj_get_last

text \<open>A row that writes one field.\<close>

definition writes_one :: "js_lib \<Rightarrow> write_line \<Rightarrow> nat \<Rightarrow> read_line \<Rightarrow> string \<Rightarrow> js_object \<Rightarrow> bool" where
  "writes_one lib w n row k ob \<longleftrightarrow> (\<exists>v. write_row lib w ob = Inr (field_bytes (n, v)) \<and>
     (case v of VVarint i \<Rightarrow> i < 2 ^ 64 | _ \<Rightarrow> True) \<and>
     (length (field_bytes (n, v)) < 2 ^ 53 \<longrightarrow> (\<forall>ob'. row_effect lib row v ob' = Inr (obj_set k (obj_get ob k) ob'))))"

lemma writes_bytesI:
  assumes "write_row lib w ob = Inr (writeBytes n bs)"
    and "\<And>ob'. length (writeBytes n bs) < 2 ^ 53 \<Longrightarrow> row_effect lib row (VBytes bs) ob' = Inr (obj_set k (obj_get ob k) ob')"
  shows "writes_one lib w n row k ob"
  unfolding writes_one_def using assms by (intro exI [of _ "VBytes bs"]) simp

lemma writes_varintI:
  assumes "write_row lib w ob = Inr (writeVarintField n i)"
    and "\<And>ob'. row_effect lib row (VVarint (uint64_of i)) ob' = Inr (obj_set k (obj_get ob k) ob')"
  shows "writes_one lib w n row k ob"
  unfolding writes_one_def using assms uint64_of_less [of i]
  by (intro exI [of _ "VVarint (uint64_of i)"]) (simp add: writeVarintField_field del: field_bytes.simps)

lemma restores_one:
  assumes "map_of rows n = Some row" and "n < 99"
    and "\<And>ob. absent t (obj_get ob k) \<Longrightarrow> write_row lib w ob = Inr []"
    and "\<And>ob. \<not> absent t (obj_get ob k) \<Longrightarrow> well_typed t (obj_get ob k) \<Longrightarrow> plain (obj_get ob k) \<Longrightarrow>
      writes_one lib w n row k ob"
  shows "restores lib rows w (k, t)"
proof (rule restoresI)
  fix ob
  assume "\<not> absent t (obj_get ob k)" "well_typed t (obj_get ob k)" "plain (obj_get ob k)"
  from assms(4) [OF this] obtain v where
    "write_row lib w ob = Inr (field_bytes (n, v))" "case v of VVarint i \<Rightarrow> i < 2 ^ 64 | _ \<Rightarrow> True"
    "length (field_bytes (n, v)) < 2 ^ 53 \<longrightarrow> (\<forall>ob'. row_effect lib row v ob' = Inr (obj_set k (obj_get ob k) ob'))"
    unfolding writes_one_def by blast
  with assms(1,2) show "\<exists>fs. write_row lib w ob = Inr (fields_bytes fs) \<and> (\<forall>f \<in> set fs. field_small f) \<and>
        (length (fields_bytes fs) < 2 ^ 53 \<longrightarrow> (\<forall>ob'. \<not> obj_has ob' k \<longrightarrow>
           fold_fields (rows_effect lib rows) fs ob' = Inr (ob' @ [(k, obj_get ob k)])))"
    by (intro exI [of _ "[(n, v)]"]) (auto simp: field_small_def rows_effect_def obj_set_new)
qed (rule assms(3))

lemma is_text_iff: "is_text v \<longleftrightarrow> (\<exists>s. v = JStr s)"
  by (cases v) (auto simp: is_text_def)

lemma absent_cases: "absent t v \<Longrightarrow> v = JUndef \<or> v = JNull \<or> v = JStr [] \<or> v = JArr [] \<or> v = JObj []"
  by (cases "(t, v)" rule: absent.cases) auto

lemma int_in_iff: "int_in lo hi v \<longleftrightarrow> (\<exists>i. v = JInt i \<and> lo \<le> i \<and> i \<le> hi)"
proof (cases v)
  case (JNum n)
  then show ?thesis
    using integer_num_of_int [of n] by (auto simp: int_in_def intro!: exI [of _ "js_floor n"])
qed (auto simp: int_in_def)

lemmas row_lines = stringField_def numberField_def booleanField_def recordField_def arrayField_def
  stringArrayField_def jsonBytes_def writeOptionalString_def writeOptionalNullableString_def
  writeOptionalBool_def writeOptionalUint32_def writeOptionalUint64_def writeOptionalInt32_def
  writeOptionalEnum_def writeEnum_def writeOptionalBase64Bytes_def writeOptionalMessage_def
  writeMessage_def writeString_def need_bytes_def need_varint_def

lemma safe_uint:
  assumes "0 \<le> i" and "i \<le> MAX_SAFE_INTEGER"
  shows "uint64_of i = nat i" "number_of_bigint (nat i) = nat i"
  using assms by (simp_all add: uint64_of_small number_of_bigint_small MAX_SAFE_INTEGER_def)

lemma int32_roundtrip:
  assumes "- (2 ^ 31) \<le> i" and "i \<le> 2 ^ 31 - 1"
  shows "sint (word_of_nat (uint64_of i) :: 32 word) = i"
proof -
  have "uint (word_of_nat (uint64_of i) :: 32 word) = uint (word_of_int i :: 32 word)"
    unfolding uint64_of_def by (simp add: unsigned_of_nat unsigned_of_int take_bit_of_nat flip: uint_nat)
  then have "(word_of_nat (uint64_of i) :: 32 word) = word_of_int i"
    by (simp add: word_uint_eq_iff)
  then show ?thesis
    using assms by (simp add: sint_sbintrunc' signed_take_bit_int_eq_self)
qed

lemma restores_str:
  assumes "map_of rows n = Some (R_str k)" and "n < 99"
  shows "restores lib rows (W_str n k) (k, T_string)"
proof (rule restores_one [OF assms])
  fix ob
  show "absent T_string (obj_get ob k) \<Longrightarrow> write_row lib (W_str n k) ob = Inr []"
    by (cases "obj_get ob k") (simp_all add: row_lines)
qed (auto simp: is_text_iff row_lines intro!: writes_bytesI)

lemma restores_nullable:
  assumes "map_of rows n = Some (R_str k)" and "n < 99"
  shows "restores lib rows (W_nullable n k) (k, T_nullable)"
proof (rule restores_one [OF assms])
  fix ob
  show "absent T_nullable (obj_get ob k) \<Longrightarrow> write_row lib (W_nullable n k) ob = Inr []"
    by (cases "obj_get ob k") (simp_all add: row_lines)
qed (auto simp: is_text_iff row_lines intro!: writes_bytesI)

lemma restores_bool:
  assumes "map_of rows n = Some (R_bool k)" and "n < 99"
  shows "restores lib rows (W_bool n k) (k, T_bool)"
proof (rule restores_one [OF assms])
  fix ob
  show "absent T_bool (obj_get ob k) \<Longrightarrow> write_row lib (W_bool n k) ob = Inr []"
    by (cases "obj_get ob k") (simp_all add: row_lines)
  assume "well_typed T_bool (obj_get ob k)"
  then obtain b where "obj_get ob k = JBool b"
    by (cases "obj_get ob k") simp_all
  then show "writes_one lib (W_bool n k) n (R_bool k) k ob"
    by (intro writes_varintI [where i = "if b then 1 else 0"]) (simp_all add: row_lines uint64_of_small)
qed

lemma restores_uint:
  assumes "map_of rows n = Some (R_num k)" and "n < 99"
  shows "restores lib rows (W_u32 n k) (k, T_uint)"
proof (rule restores_one [OF assms])
  fix ob
  show "absent T_uint (obj_get ob k) \<Longrightarrow> write_row lib (W_u32 n k) ob = Inr []"
    by (cases "obj_get ob k") (simp_all add: row_lines)
qed (auto simp: int_in_iff row_lines safe_uint intro!: writes_varintI)

lemma restores_u64:
  assumes "map_of rows n = Some (R_u64 k name)" and "n < 99"
  shows "restores lib rows (W_u64 n k) (k, T_uint)"
proof (rule restores_one [OF assms])
  fix ob
  show "absent T_uint (obj_get ob k) \<Longrightarrow> write_row lib (W_u64 n k) ob = Inr []"
    by (cases "obj_get ob k") (simp_all add: row_lines)
qed (auto simp: int_in_iff row_lines safe_uint intro!: writes_varintI)

lemma restores_i32:
  assumes "map_of rows n = Some (R_i32 k)" and "n < 99"
  shows "restores lib rows (W_i32 n k) (k, T_int32)"
proof (rule restores_one [OF assms])
  fix ob
  show "absent T_int32 (obj_get ob k) \<Longrightarrow> write_row lib (W_i32 n k) ob = Inr []"
    by (cases "obj_get ob k") (simp_all add: row_lines)
  assume "well_typed T_int32 (obj_get ob k)"
  then obtain i where i: "obj_get ob k = JInt i" "- (2 ^ 31) \<le> i" "i \<le> 2 ^ 31 - 1"
    by (auto simp: int_in_iff)
  show "writes_one lib (W_i32 n k) n (R_i32 k) k ob"
  proof (rule writes_varintI [where i = i])
    show "row_effect lib (R_i32 k) (VVarint (uint64_of i)) ob' = Inr (obj_set k (obj_get ob k) ob')" for ob'
      unfolding row_effect.simps need_varint_def wire_value.case andThen_Inr int32_roundtrip [OF i(2,3)] i(1) ..
  qed (use i(1) in \<open>simp add: row_lines\<close>)
qed

text \<open>An enumeration: the two tables are inverse to each other on the names.\<close>

definition enum_tables :: "(string \<times> nat) list \<Rightarrow> (nat \<times> string) list \<Rightarrow> bool" where
  "enum_tables tbl tbl' \<longleftrightarrow> map_of tbl [] = None \<and>
     (\<forall>s \<in> set (map fst tbl). case map_of tbl s of
        None \<Rightarrow> False | Some i \<Rightarrow> 0 < i \<and> i < 1000 \<and> map_of tbl' i = Some s)"

lemma restores_enum:
  assumes "map_of rows n = Some (R_enum tbl' d k)" and "n < 99"
    and tables: "enum_tables tbl tbl'"
  shows "restores lib rows (W_enum tbl n k) (k, T_enum (map fst tbl))"
proof (rule restores_one [OF assms(1,2)])
  fix ob
  show "absent (T_enum (map fst tbl)) (obj_get ob k) \<Longrightarrow> write_row lib (W_enum tbl n k) ob = Inr []"
    using tables by (cases "obj_get ob k") (simp_all add: row_lines enum_tables_def)
  assume "well_typed (T_enum (map fst tbl)) (obj_get ob k)"
  then obtain s where s: "obj_get ob k = JStr s" "s \<in> set (map fst tbl)"
    by (cases "obj_get ob k") auto
  with tables have "case map_of tbl s of None \<Rightarrow> False | Some i \<Rightarrow> 0 < i \<and> i < 1000 \<and> map_of tbl' i = Some s"
    unfolding enum_tables_def by blast
  then obtain i where i: "map_of tbl s = Some i" "0 < i" "i < 1000" "map_of tbl' i = Some s"
    by (cases "map_of tbl s") simp_all
  with s show "writes_one lib (W_enum tbl n k) n (R_enum tbl' d k) k ob"
    by (intro writes_varintI [where i = "int i"])
       (simp_all add: row_lines uint64_of_small number_of_bigint_small lookup_or_def)
qed

lemma restores_json:
  assumes "map_of rows n = Some (R_json k)" and "n < 99" and lib: "json_text_ok lib"
  shows "restores lib rows (W_json n k) (k, T_json)"
proof (rule restores_one [OF assms(1,2)])
  fix ob
  show "absent T_json (obj_get ob k) \<Longrightarrow> write_row lib (W_json n k) ob = Inr []"
    by (cases "obj_get ob k") (simp_all add: row_lines)
  assume "\<not> absent T_json (obj_get ob k)" "plain (obj_get ob k)"
  then have "jsonBytes lib (obj_get ob k) = Some (utf8_bytes (lib_stringify lib (obj_get ob k)))"
    by (cases "obj_get ob k") (simp_all add: jsonBytes_def)
  with lib \<open>plain (obj_get ob k)\<close> show "writes_one lib (W_json n k) n (R_json k) k ob"
    by (intro writes_bytesI [where bs = "utf8_bytes (lib_stringify lib (obj_get ob k))"])
       (simp_all add: need_bytes_def parseJsonBytes_def parse_json_def json_text_ok_def)
qed

lemma restores_b64:
  assumes "map_of rows n = Some (R_b64 k)" and "n < 99"
  shows "restores lib rows (W_b64 n k) (k, T_bytes)"
proof (rule restores_one [OF assms])
  fix ob
  show "absent T_bytes (obj_get ob k) \<Longrightarrow> write_row lib (W_b64 n k) ob = Inr []"
    by (cases "obj_get ob k") (simp_all add: row_lines)
  assume "well_typed T_bytes (obj_get ob k)"
  then obtain s where "obj_get ob k = JStr s" "b64_encode (b64_decode s) = s"
    by (cases "obj_get ob k") simp_all
  then show "writes_one lib (W_b64 n k) n (R_b64 k) k ob"
    by (intro writes_bytesI [where bs = "b64_decode s"]) (simp_all add: row_lines)
qed

text \<open>Rows that write one field per element and read by appending.\<close>

lemma push_rest:
  assumes "map_of rows n = Some row" and "\<not> obj_has ob k"
    and "\<And>x ob'. x \<in> set xs \<Longrightarrow> row_effect lib row (VBytes (g x)) ob' = Inr (pushArrayValue k (h x) ob')"
  shows "fold_fields (rows_effect lib rows) (map (\<lambda>x. (n, VBytes (g x))) xs) (ob @ [(k, JArr ys)]) =
    Inr (ob @ [(k, JArr (ys @ map h xs))])"
  using assms(3)
proof (induction xs arbitrary: ys)
  case (Cons x xs)
  from Cons.IH [of "ys @ [h x]"] Cons.prems assms(1,2) show ?case
    by (simp add: rows_effect_def pushArrayValue_def obj_ends)
qed simp

lemma push_all:
  assumes "map_of rows n = Some row" and "\<not> obj_has ob k" and "xs \<noteq> []"
    and "\<And>x ob'. x \<in> set xs \<Longrightarrow> row_effect lib row (VBytes (g x)) ob' = Inr (pushArrayValue k (h x) ob')"
  shows "fold_fields (rows_effect lib rows) (map (\<lambda>x. (n, VBytes (g x))) xs) ob = Inr (ob @ [(k, JArr (map h xs))])"
proof -
  obtain x xs' where xs: "xs = x # xs'"
    using assms(3) by (cases xs) auto
  moreover have "obj_get ob k = JUndef"
    using assms(2) by (auto simp: obj_has_def obj_get_def split: option.split)
  ultimately show ?thesis
    using push_rest [OF assms(1,2), of xs' lib g h "[h x]"] assms
    by (simp add: rows_effect_def pushArrayValue_def obj_ends)
qed

lemma fields_bytes_map: "fields_bytes (map (\<lambda>x. (n, VBytes (g x))) xs) = concat (map (\<lambda>x. writeBytes n (g x)) xs)"
  by (simp add: fields_bytes_def comp_def)

lemma restores_each:
  assumes "map_of rows n = Some row" and "n < 99" and "xs \<noteq> []" and "obj_get ob k = JArr (map h xs)"
    and "write_row lib w ob = Inr (concat (map (\<lambda>x. writeBytes n (g x)) xs))"
    and "\<And>x ob'. x \<in> set xs \<Longrightarrow> length (g x) < 2 ^ 53 \<Longrightarrow>
      row_effect lib row (VBytes (g x)) ob' = Inr (pushArrayValue k (h x) ob')"
  shows "\<exists>fs. write_row lib w ob = Inr (fields_bytes fs) \<and> (\<forall>f \<in> set fs. field_small f) \<and>
    (length (fields_bytes fs) < 2 ^ 53 \<longrightarrow> (\<forall>ob'. \<not> obj_has ob' k \<longrightarrow>
       fold_fields (rows_effect lib rows) fs ob' = Inr (ob' @ [(k, obj_get ob k)])))"
proof (intro exI [of _ "map (\<lambda>x. (n, VBytes (g x))) xs"] conjI impI allI)
  let ?fs = "map (\<lambda>x. (n, VBytes (g x))) xs"
  show "write_row lib w ob = Inr (fields_bytes ?fs)"
    using assms(5) by (simp add: fields_bytes_map)
  show small: "\<forall>f \<in> set ?fs. field_small f"
    using assms(2) by (auto simp: field_small_def)
  fix ob'
  assume "length (fields_bytes ?fs) < 2 ^ 53" and "\<not> obj_has ob' k"
  moreover from this(1) have "length (g x) < 2 ^ 53" if "x \<in> set xs" for x
    using small_fields_ok [OF small] that by auto
  ultimately show "fold_fields (rows_effect lib rows) ?fs ob' = Inr (ob' @ [(k, obj_get ob k)])"
    using push_all [OF assms(1) _ assms(3), of ob' k lib g h] assms(4,6) by simp
qed

lemma restores_strs:
  assumes "map_of rows n = Some (R_strs k)" and "n < 99"
  shows "restores lib rows (W_strs n k) (k, T_strings)"
proof (rule restoresI)
  fix ob
  show "absent T_strings (obj_get ob k) \<Longrightarrow> write_row lib (W_strs n k) ob = Inr []"
    by (cases "obj_get ob k") (simp_all add: row_lines writeRepeatedStrings_def)
  assume a: "\<not> absent T_strings (obj_get ob k)" "well_typed T_strings (obj_get ob k)" "plain (obj_get ob k)"
  then obtain vs where vs: "obj_get ob k = JArr vs" "\<forall>v \<in> set vs. is_text v" "vs \<noteq> []"
    by (cases "obj_get ob k") auto
  from vs(2) have "\<exists>xs. vs = map JStr xs"
    by (auto simp: is_text_iff list_all_iff intro!: ex_map_conv [THEN iffD2])
  then obtain xs where xs: "vs = map JStr xs" ..
  have "List.map_filter as_string (map JStr xs) = xs"
    by (induction xs) (simp_all add: List.map_filter_def)
  with vs xs show "\<exists>fs. write_row lib (W_strs n k) ob = Inr (fields_bytes fs) \<and> (\<forall>f \<in> set fs. field_small f) \<and>
      (length (fields_bytes fs) < 2 ^ 53 \<longrightarrow> (\<forall>ob'. \<not> obj_has ob' k \<longrightarrow>
         fold_fields (rows_effect lib rows) fs ob' = Inr (ob' @ [(k, obj_get ob k)])))"
    using a(3) by (intro restores_each [OF assms, where g = utf8_bytes and h = JStr and xs = xs])
      (auto simp: row_lines writeRepeatedStrings_def cong: map_cong)
qed

text \<open>Nested messages.\<close>

definition codec :: "js_lib \<Rightarrow> encoder \<Rightarrow> decoder \<Rightarrow> schema \<Rightarrow> bool" where
  "codec lib enc dec sch \<longleftrightarrow> (\<forall>ob. canonical sch ob \<and> plain (JObj ob) \<longrightarrow>
     (\<exists>bs. enc lib ob = Inr bs \<and> (length bs < 2 ^ 53 \<longrightarrow> dec lib bs = Inr ob)))"

lemma restores_msg:
  assumes "map_of rows n = Some (R_msg dec k)" and "n < 99" and "codec lib enc dec sch"
  shows "restores lib rows (W_msg enc n k) (k, T_message sch)"
proof (rule restores_one [OF assms(1,2)])
  fix ob
  show "absent (T_message sch) (obj_get ob k) \<Longrightarrow> write_row lib (W_msg enc n k) ob = Inr []"
    by (cases "obj_get ob k") (simp_all add: row_lines)
  assume "well_typed (T_message sch) (obj_get ob k)" "plain (obj_get ob k)"
  then obtain v where v: "obj_get ob k = JObj v" "canonical sch v" "plain (JObj v)"
    by (auto simp only: well_typed_message)
  with assms(3) obtain bs where "enc lib v = Inr bs" "length bs < 2 ^ 53 \<longrightarrow> dec lib bs = Inr v"
    unfolding codec_def by blast
  with v show "writes_one lib (W_msg enc n k) n (R_msg dec k) k ob"
    by (intro writes_bytesI [where bs = bs]) (simp_all add: row_lines writeBytes_def)
qed

lemma mapE_all: "(\<And>x. x \<in> set xs \<Longrightarrow> f x = Inr (g x)) \<Longrightarrow> mapE f xs = Inr (map g xs)"
  by (induction xs) simp_all

lemma restores_msgs:
  assumes "map_of rows n = Some (R_msgs dec k)" and "n < 99" and "codec lib enc dec sch"
  shows "restores lib rows (W_msgs enc n k) (k, T_messages sch)"
proof (rule restoresI)
  fix ob
  show "absent (T_messages sch) (obj_get ob k) \<Longrightarrow> write_row lib (W_msgs enc n k) ob = Inr []"
    by (cases "obj_get ob k") (simp_all add: row_lines writeRepeatedMessages_def)
  assume a: "\<not> absent (T_messages sch) (obj_get ob k)" "well_typed (T_messages sch) (obj_get ob k)"
    "plain (obj_get ob k)"
  then obtain xs where xs: "obj_get ob k = JArr (map JObj xs)" "\<forall>x \<in> set xs. canonical sch x"
    by (auto simp only: well_typed_message)
  define g where "g x = (SOME bs. enc lib x = Inr bs \<and> (length bs < 2 ^ 53 \<longrightarrow> dec lib bs = Inr x))" for x
  have g: "enc lib x = Inr (g x) \<and> (length (g x) < 2 ^ 53 \<longrightarrow> dec lib (g x) = Inr x)" if "x \<in> set xs" for x
  proof -
    have "plain (JObj x)"
      using a(3) xs(1) that by (auto simp del: plain.simps(7))
    with assms(3) xs(2) that have "\<exists>bs. enc lib x = Inr bs \<and> (length bs < 2 ^ 53 \<longrightarrow> dec lib bs = Inr x)"
      unfolding codec_def by (simp only:)
    then show ?thesis
      unfolding g_def by (rule someI_ex)
  qed
  then have "mapE (\<lambda>v. enc lib (record_or_empty v)) (map JObj xs) = Inr (map (\<lambda>v. g (record_or_empty v)) (map JObj xs))"
    by (intro mapE_all) (auto simp: record_or_empty_def)
  then have "write_row lib (W_msgs enc n k) ob = Inr (concat (map (\<lambda>x. writeBytes n (g x)) xs))"
    using xs(1) by (simp add: row_lines writeRepeatedMessages_def record_or_empty_def comp_def)
  with a(1) xs g show "\<exists>fs. write_row lib (W_msgs enc n k) ob = Inr (fields_bytes fs) \<and> (\<forall>f \<in> set fs. field_small f) \<and>
      (length (fields_bytes fs) < 2 ^ 53 \<longrightarrow> (\<forall>ob'. \<not> obj_has ob' k \<longrightarrow>
         fold_fields (rows_effect lib rows) fs ob' = Inr (ob' @ [(k, obj_get ob k)])))"
    by (intro restores_each [OF assms(1,2), where g = g and h = JObj and xs = xs]) (auto simp: need_bytes_def)
qed

text \<open>String maps.\<close>

definition entry_effect :: "nat \<Rightarrow> wire_value \<Rightarrow> string option \<times> string option \<Rightarrow> (string option \<times> string option) result" where
  "entry_effect n v = (\<lambda>(key, val).
     if n = 1 then andThen (need_bytes v) (\<lambda>bs. Inr (Some (utf8_toString bs), val))
     else if n = 2 then andThen (need_bytes v) (\<lambda>bs. Inr (key, Some (utf8_toString bs)))
     else Inr (key, val))"

interpretation entry_reader: field_reader entry_step entry_effect
proof
  fix v n and st :: "string option \<times> string option" and pre post
  show "entry_step n 0 (st, reader_at pre (encodeVarint (int v) @ post)) =
      andThen (entry_effect n (VVarint v) st) (\<lambda>st'. Inr (st', reader_at (pre @ encodeVarint (int v)) post))"
    by (cases st) (simp add: entry_step_def entry_effect_def readStringForWireType_def readBytesForWireType_def
      wire_types need_bytes_def skip_at)
next
  fix bs :: "byte list" and n and st :: "string option \<times> string option" and pre post
  assume "length bs < 2 ^ 53"
  then show "entry_step n 2 (st, reader_at pre (encodeVarint (int (length bs)) @ bs @ post)) =
      andThen (entry_effect n (VBytes bs) st)
        (\<lambda>st'. Inr (st', reader_at (pre @ encodeVarint (int (length bs)) @ bs) post))"
    by (cases st) (simp add: entry_step_def entry_effect_def readStringForWireType_def readBytes_at
      need_bytes_def skip_at)
qed

definition entry_bytes :: "string \<times> string \<Rightarrow> byte list" where
  "entry_bytes = (\<lambda>(key, val). writeString 1 key @ writeString 2 val)"

lemma entry_roundtrip:
  assumes "js_text key" and "js_text val" and "key \<noteq> []" and "length (entry_bytes (key, val)) < 2 ^ 53"
  shows "decodeStringMapEntry (entry_bytes (key, val)) = Inr [(key, JStr val)]"
proof -
  let ?fs = "[(1, VBytes (utf8_bytes key)), (2, VBytes (utf8_bytes val))]"
  have bs: "entry_bytes (key, val) = fields_bytes ?fs"
    by (simp add: entry_bytes_def writeString_def)
  have "\<forall>f \<in> set ?fs. field_ok f"
    using assms(4) by (intro small_fields_ok) (simp_all add: bs field_small_def)
  from entry_reader.read_message_fields [OF this] assms(1-3) show ?thesis
    by (simp add: decodeStringMapEntry_def bs entry_effect_def need_bytes_def del: fields_bytes_simps)
qed

definition json_entries :: "(string \<times> string) list \<Rightarrow> js_object" where
  "json_entries kvs = map (\<lambda>(key, val). (key, JStr val)) kvs"

lemma text_entries:
  assumes "\<forall>p \<in> set ob. is_text (snd p)"
  obtains kvs where "ob = json_entries kvs"
proof -
  from assms have "\<exists>kvs. ob = json_entries kvs"
  proof (induction ob)
    case (Cons p ob)
    then obtain s kvs where "snd p = JStr s" "ob = json_entries kvs"
      by (auto simp: is_text_iff)
    then show ?case
      by (intro exI [of _ "(fst p, s) # kvs"]) (cases p, auto simp: json_entries_def)
  qed (simp add: json_entries_def)
  with that show ?thesis by blast
qed

lemma stringMapField_entries:
  assumes "obj_get ob k = JObj (json_entries kvs)" and "''__proto__'' \<notin> fst ` set kvs"
  shows "stringMapField lib ob k = Some kvs"
proof -
  have "List.map_filter (\<lambda>(key, nested).
         if key = ''__proto__'' then None
         else case nested of
                JStr s \<Rightarrow> Some (key, s)
              | JUndef \<Rightarrow> None
              | JObj _ \<Rightarrow> Some (key, lib_stringify lib nested)
              | JArr _ \<Rightarrow> Some (key, lib_stringify lib nested)
              | JNull \<Rightarrow> Some (key, ''null'')
              | JBool b \<Rightarrow> Some (key, if b then ''true'' else ''false'')
              | JNum n \<Rightarrow> Some (key, lib_numberToString lib n)) (json_entries kvs) = kvs"
    using assms(2) by (induction kvs) (auto simp: json_entries_def List.map_filter_def)
  with assms(1) show ?thesis
    by (simp add: stringMapField_def recordField_def)
qed

definition entries_ok :: "(string \<times> string) list \<Rightarrow> bool" where
  "entries_ok kvs \<longleftrightarrow> distinct (map fst kvs) \<and>
     (\<forall>e \<in> set kvs. js_text (fst e) \<and> js_text (snd e) \<and> fst e \<noteq> [] \<and> length (entry_bytes e) < 2 ^ 53)"

lemma map_rest:
  assumes "map_of rows n = Some (R_map k)" and "\<not> obj_has ob k" and "entries_ok (done @ kvs)"
  shows "fold_fields (rows_effect lib rows) (map (\<lambda>e. (n, VBytes (entry_bytes e))) kvs)
      (ob @ [(k, JObj (json_entries done))]) = Inr (ob @ [(k, JObj (json_entries (done @ kvs)))])"
  using assms(3)
proof (induction kvs arbitrary: "done")
  case (Cons e kvs)
  then have "decodeStringMapEntry (entry_bytes e) = Inr [(fst e, JStr (snd e))]"
    by (cases e) (auto simp: entries_ok_def intro: entry_roundtrip)
  moreover have "\<not> obj_has (json_entries done) (fst e)"
    using Cons.prems by (auto simp: entries_ok_def obj_has_def json_entries_def map_of_eq_None_iff image_image split_def)
  then have "obj_set (fst e) (JStr (snd e)) (json_entries done) = json_entries (done @ [e])"
    by (simp add: obj_set_new) (simp add: json_entries_def split_def)
  ultimately show ?case
    using Cons.IH [of "done @ [e]"] Cons.prems assms(1,2)
    by (simp add: rows_effect_def need_bytes_def record_or_empty_def obj_ends)
qed simp

lemma map_all:
  assumes "map_of rows n = Some (R_map k)" and "\<not> obj_has ob k" and "entries_ok kvs" and "kvs \<noteq> []"
  shows "fold_fields (rows_effect lib rows) (map (\<lambda>e. (n, VBytes (entry_bytes e))) kvs) ob =
    Inr (ob @ [(k, JObj (json_entries kvs))])"
proof -
  obtain e kvs' where kvs: "kvs = e # kvs'"
    using assms(4) by (cases kvs) auto
  have "decodeStringMapEntry (entry_bytes e) = Inr [(fst e, JStr (snd e))]"
    using assms(3) kvs by (cases e) (auto simp: entries_ok_def intro: entry_roundtrip)
  moreover have "obj_get ob k = JUndef"
    using assms(2) by (auto simp: obj_has_def obj_get_def split: option.split)
  moreover have "json_entries [e] = [(fst e, JStr (snd e))]"
    by (simp add: json_entries_def split_def)
  ultimately show ?thesis
    using map_rest [OF assms(1,2), of "[e]" kvs' lib] assms kvs
    by (simp add: rows_effect_def need_bytes_def record_or_empty_def obj_ends)
qed

lemma restores_map:
  assumes "map_of rows n = Some (R_map k)" and "n < 99"
  shows "restores lib rows (W_map n k) (k, T_map)"
proof (rule restoresI)
  fix ob
  show "absent T_map (obj_get ob k) \<Longrightarrow> write_row lib (W_map n k) ob = Inr []"
    by (cases "obj_get ob k") (simp_all add: row_lines stringMapField_def writeStringMap_def List.map_filter_def)
  assume a: "\<not> absent T_map (obj_get ob k)" "well_typed T_map (obj_get ob k)" "plain (obj_get ob k)"
  then obtain m where m: "obj_get ob k = JObj m" "\<forall>p \<in> set m. is_text (snd p)" "m \<noteq> []"
    "\<forall>p \<in> set m. fst p \<notin> {[], ''__proto__''}"
    by (cases "obj_get ob k") auto
  from text_entries [OF m(2)] obtain kvs where kvs: "m = json_entries kvs" .
  let ?fs = "map (\<lambda>e. (n, VBytes (entry_bytes e))) kvs"
  from m(4) kvs have keys: "\<forall>e \<in> set kvs. fst e \<noteq> [] \<and> fst e \<noteq> ''__proto__''"
    by (auto simp: json_entries_def split_def)
  then have "stringMapField lib ob k = Some kvs"
    using m(1) kvs by (intro stringMapField_entries) auto
  then have w: "write_row lib (W_map n k) ob = Inr (fields_bytes ?fs)"
    by (simp add: writeStringMap_def writeMessage_def fields_bytes_map entry_bytes_def split_def)
  have small: "\<forall>f \<in> set ?fs. field_small f"
    using assms(2) by (auto simp: field_small_def)
  have "fold_fields (rows_effect lib rows) ?fs ob' = Inr (ob' @ [(k, obj_get ob k)])"
    if "length (fields_bytes ?fs) < 2 ^ 53" "\<not> obj_has ob' k" for ob'
  proof -
    have "length (entry_bytes e) < 2 ^ 53" if "e \<in> set kvs" for e
      using small_fields_ok [OF small \<open>length (fields_bytes ?fs) < 2 ^ 53\<close>] that by auto
    then have "entries_ok kvs"
      using a(3) m(1) kvs keys by (auto simp: entries_ok_def json_entries_def split_def comp_def)
    with map_all [OF assms(1) \<open>\<not> obj_has ob' k\<close> this] m kvs show ?thesis
      by (auto simp: json_entries_def)
  qed
  with w small show "\<exists>fs. write_row lib (W_map n k) ob = Inr (fields_bytes fs) \<and> (\<forall>f \<in> set fs. field_small f) \<and>
      (length (fields_bytes fs) < 2 ^ 53 \<longrightarrow> (\<forall>ob'. \<not> obj_has ob' k \<longrightarrow>
         fold_fields (rows_effect lib rows) fs ob' = Inr (ob' @ [(k, obj_get ob k)])))"
    by blast
qed

section \<open>Tables that implement a schema\<close>

lemma write_rows_Cons: "write_rows (w # ws) lib ob =
    andThen (write_row lib w ob) (\<lambda>b. andThen (write_rows ws lib ob) (\<lambda>bs. Inr (b @ bs)))"
  by (simp add: write_rows_def andThen_assoc)

lemma write_rows_Nil: "write_rows [] lib ob = Inr []"
  by (simp add: write_rows_def)

lemma body_of_Cons: "body_of (p # sch) ob =
    (if absent (snd p) (obj_get ob (fst p)) then [] else [(fst p, obj_get ob (fst p))]) @ body_of sch ob"
  by (simp add: body_of_def split_def)

definition rows_written :: "js_lib \<Rightarrow> write_line list \<Rightarrow> (nat \<times> read_line) list \<Rightarrow> js_object \<Rightarrow> js_object \<Rightarrow> js_object \<Rightarrow> bool" where
  "rows_written lib ws rows ob base body \<longleftrightarrow>
     (\<exists>fs. write_rows ws lib ob = Inr (fields_bytes fs) \<and> (\<forall>f \<in> set fs. field_small f) \<and>
        (length (fields_bytes fs) < 2 ^ 53 \<longrightarrow> fold_fields (rows_effect lib rows) fs base = Inr (base @ body)))"

lemma rows_written_absent:
  "rows_written lib ws rows ob base body \<Longrightarrow> write_row lib w ob = Inr [] \<Longrightarrow>
   rows_written lib (w # ws) rows ob base body"
  by (simp add: rows_written_def write_rows_Cons cong: andThen_cong) (auto simp: andThen_def)

lemma rows_written_present:
  assumes "rows_written lib ws rows ob (base @ [(k, v)]) body"
    and "write_row lib w ob = Inr (fields_bytes fs)" "\<forall>f \<in> set fs. field_small f"
    and "length (fields_bytes fs) < 2 ^ 53 \<longrightarrow> fold_fields (rows_effect lib rows) fs base = Inr (base @ [(k, v)])"
  shows "rows_written lib (w # ws) rows ob base ((k, v) # body)"
proof -
  from assms(1) obtain gs where gs: "write_rows ws lib ob = Inr (fields_bytes gs)" "\<forall>f \<in> set gs. field_small f"
    "length (fields_bytes gs) < 2 ^ 53 \<longrightarrow>
       fold_fields (rows_effect lib rows) gs (base @ [(k, v)]) = Inr ((base @ [(k, v)]) @ body)"
    unfolding rows_written_def by blast
  show ?thesis
    unfolding rows_written_def
  proof (intro exI [of _ "fs @ gs"] conjI impI)
    show "write_rows (w # ws) lib ob = Inr (fields_bytes (fs @ gs))"
      using assms(2) gs(1) by (simp add: write_rows_Cons)
    show "\<forall>f \<in> set (fs @ gs). field_small f"
      using assms(3) gs(2) by auto
    assume "length (fields_bytes (fs @ gs)) < 2 ^ 53"
    then have "length (fields_bytes fs) < 2 ^ 53" "length (fields_bytes gs) < 2 ^ 53"
      by simp_all
    with assms(4) gs(3) show "fold_fields (rows_effect lib rows) (fs @ gs) base = Inr (base @ (k, v) # body)"
      by (simp add: fold_fields_append)
  qed
qed

text \<open>
  The contract of a message: the lines of its writer and reader restore every property of its schema.
\<close>

locale message_table =
  fixes ws :: "write_line list" and rows :: "(nat \<times> read_line) list" and sch :: schema
  assumes lines: "json_text_ok lib \<Longrightarrow> list_all2 (restores lib rows) ws sch"
    and keys: "distinct (map fst sch)"
begin

lemma written:
  assumes "json_text_ok lib" and "conforms sch ob"
    and "\<forall>p \<in> set sch. absent (snd p) (obj_get ob (fst p)) \<or> plain (obj_get ob (fst p))"
    and "\<forall>p \<in> set sch. \<not> obj_has base (fst p)"
  shows "rows_written lib ws rows ob base (body_of sch ob)"
  using lines [OF assms(1)] keys assms(2-4)
proof (induction arbitrary: base rule: list_all2_induct)
  case Nil
  then show ?case
    by (auto simp: rows_written_def write_rows_Nil body_of_def intro: exI [of _ "[]"])
next
  case (Cons w ws p sch)
  obtain k t where p: "p = (k, t)"
    by (cases p)
  show ?case
  proof (cases "absent t (obj_get ob k)")
    case True
    with Cons.hyps(1) p have "write_row lib w ob = Inr []"
      by (simp add: restores_def)
    with True p Cons show ?thesis
      by (auto simp: body_of_Cons conforms_def intro!: rows_written_absent)
  next
    case False
    with Cons.prems p have "well_typed t (obj_get ob k)" "plain (obj_get ob k)" "\<not> obj_has base k"
      by (auto simp: conforms_def)
    note v = this
    from Cons.hyps(1) [unfolded p] False v(1,2) obtain fs where
      fs: "write_row lib w ob = Inr (fields_bytes fs)" "\<forall>f \<in> set fs. field_small f"
        "length (fields_bytes fs) < 2 ^ 53 \<longrightarrow> (\<forall>ob'. \<not> obj_has ob' k \<longrightarrow>
           fold_fields (rows_effect lib rows) fs ob' = Inr (ob' @ [(k, obj_get ob k)]))"
      by (rule restores_present)
    from fs(3) v(3) have fold: "length (fields_bytes fs) < 2 ^ 53 \<longrightarrow>
        fold_fields (rows_effect lib rows) fs base = Inr (base @ [(k, obj_get ob k)])"
      by (intro impI) blast
    have "\<forall>q \<in> set sch. \<not> obj_has (base @ [(k, obj_get ob k)]) (fst q)"
      using Cons.prems(1,4) p by (auto simp: obj_has_snoc)
    with Cons.IH Cons.prems have "rows_written lib ws rows ob (base @ [(k, obj_get ob k)]) (body_of sch ob)"
      by (simp add: conforms_def)
    from rows_written_present [OF this fs(1,2) fold] False p show ?thesis
      by (simp add: body_of_Cons)
  qed
qed

lemma round_trip: "json_text_ok lib \<Longrightarrow> codec lib (write_rows ws) (read_rows rows) sch"
  unfolding codec_def
proof (intro allI impI)
  fix ob
  assume lib: "json_text_ok lib" and ob: "canonical sch ob \<and> plain (JObj ob)"
  have "obj_get ob k = JUndef \<or> plain (obj_get ob k)" for k
    using ob by (auto simp: obj_get_def split: option.split dest: map_of_SomeD)
  then have "rows_written lib ws rows ob [] (body_of sch ob)"
    using ob by (intro written [OF lib]) (auto simp: canonical_def obj_has_Nil, metis absent.simps(1))
  then obtain fs where fs: "write_rows ws lib ob = Inr (fields_bytes fs)" "\<forall>f \<in> set fs. field_small f"
    "length (fields_bytes fs) < 2 ^ 53 \<longrightarrow> fold_fields (rows_effect lib rows) fs [] = Inr (body_of sch ob)"
    unfolding rows_written_def by auto
  moreover have "read_rows rows lib (fields_bytes fs) = Inr ob" if "length (fields_bytes fs) < 2 ^ 53"
    using rows_reader.read_message_fields [OF small_fields_ok [OF fs(2) that], of lib rows "[]"] fs(3) that ob
    by (simp add: read_rows_def canonical_def)
  ultimately show "\<exists>bs. write_rows ws lib ob = Inr bs \<and> (length bs < 2 ^ 53 \<longrightarrow> read_rows rows lib bs = Inr ob)"
    by blast
qed

end

section \<open>The messages of the protocol\<close>

definition BudError_schema :: schema where
  "BudError_schema = [(''code'', T_string), (''message'', T_string), (''retryable'', T_bool), (''details'', T_map)]"

definition TerminalEnsureConfig_schema :: schema where
  "TerminalEnsureConfig_schema =
     [(''shell'', T_string), (''cwd'', T_string), (''env'', T_map), (''cols'', T_uint), (''rows'', T_uint)]"

definition OperationStatus_schema :: schema where
  "OperationStatus_schema =
     [(''operation_id'', T_string), (''state'', T_enum (map fst OPERATION_STATE_PROTO_VALUES)),
      (''error'', T_message BudError_schema), (''operation_type'', T_string), (''updated_at'', T_string)]"

definition StreamStatus_schema :: schema where
  "StreamStatus_schema =
     [(''stream_id'', T_string), (''operation_id'', T_string),
      (''stream_type'', T_enum (map fst STREAM_TYPE_PROTO_VALUES)),
      (''state'', T_enum (map fst STREAM_STATE_PROTO_VALUES)), (''send_offset'', T_uint),
      (''receive_offset'', T_uint), (''reset_reason'', T_enum (map fst STREAM_RESET_REASON_PROTO_VALUES)),
      (''error'', T_message BudError_schema), (''updated_at'', T_string)]"

definition payload_schemas :: "(string \<times> schema) list" where
  "payload_schemas =
     [(''error'', BudError_schema),
      (''hello'',
        [(''name'', T_string), (''os'', T_string), (''arch'', T_string), (''version'', T_string),
         (''installation_id'', T_string), (''token'', T_string), (''bud_id'', T_string),
         (''capabilities'', T_json)]),
      (''hello_ack'',
        [(''session_id'', T_string), (''bud_id'', T_string), (''heartbeat_sec'', T_uint),
         (''device_secret'', T_string)]),
      (''hello_challenge'', [(''nonce'', T_string)]),
      (''hello_proof'', [(''bud_id'', T_string), (''hmac'', T_string)]),
      (''heartbeat'', [(''session_id'', T_string)]),
      (''heartbeat_ack'', [(''session_id'', T_string)]),
      (''terminal_ensure'',
        [(''session_id'', T_string), (''config'', T_message TerminalEnsureConfig_schema),
         (''resume_from_offset'', T_uint)]),
      (''terminal_status'', [(''session_id'', T_string), (''state'', T_string), (''info'', T_json)]),
      (''terminal_input'', [(''session_id'', T_string), (''data'', T_bytes), (''input_seq'', T_uint)]),
      (''terminal_resize'', [(''session_id'', T_string), (''cols'', T_uint), (''rows'', T_uint)]),
      (''terminal_close'', [(''session_id'', T_string), (''reason'', T_string)]),
      (''terminal_send'',
        [(''session_id'', T_string), (''request_id'', T_string), (''text'', T_string), (''submit'', T_bool),
         (''key'', T_string), (''await'', T_string)]),
      (''terminal_send_result'',
        [(''session_id'', T_string), (''request_id'', T_string), (''error'', T_nullable),
         (''dispatched'', T_bool), (''outcome'', T_json)]),
      (''terminal_observe'',
        [(''session_id'', T_string), (''request_id'', T_string), (''view'', T_string), (''lines'', T_int32),
         (''await'', T_string), (''quiet_ms'', T_uint)]),
      (''terminal_observe_result'',
        [(''session_id'', T_string), (''request_id'', T_string), (''view'', T_string), (''output'', T_bytes),
         (''lines_captured'', T_uint), (''changed'', T_bool), (''error'', T_nullable), (''mode'', T_string),
         (''integration'', T_string), (''alt_screen'', T_bool), (''cursor_row'', T_uint),
         (''cursor_col'', T_uint)]),
      (''terminal_output'', [(''session_id'', T_string), (''data'', T_bytes), (''byte_offset'', T_uint)]),
      (''terminal_event'', [(''session_id'', T_string), (''event'', T_string), (''data'', T_json)]),
      (''reconnect_report'',
        [(''bud_id'', T_string), (''device_session_id'', T_string),
         (''operations'', T_messages OperationStatus_schema), (''streams'', T_messages StreamStatus_schema),
         (''local_policy_version'', T_string), (''terminal_sessions'', T_strings)]),
      (''reconciliation_decision'',
        [(''operations'', T_messages OperationStatus_schema), (''streams'', T_messages StreamStatus_schema)]),
      (''data_attach'',
        [(''bud_id'', T_string), (''device_session_id'', T_string),
         (''control_transport_session_id'', T_string), (''streams'', T_strings),
         (''max_chunk_bytes'', T_uint), (''initial_credit_bytes'', T_uint)]),
      (''data_attach_ack'',
        [(''bud_id'', T_string), (''device_session_id'', T_string), (''transport_session_id'', T_string),
         (''streams'', T_strings), (''max_chunk_bytes'', T_uint), (''initial_credit_bytes'', T_uint)]),
      (''stream_data'',
        [(''stream_id'', T_string), (''stream_type'', T_enum (map fst STREAM_TYPE_PROTO_VALUES)),
         (''offset'', T_uint), (''data'', T_bytes), (''end_stream'', T_bool)]),
      (''stream_credit'', [(''stream_id'', T_string), (''receive_offset'', T_uint), (''credit_bytes'', T_uint)]),
      (''stream_reset'',
        [(''stream_id'', T_string), (''reason'', T_enum (map fst STREAM_RESET_REASON_PROTO_VALUES)),
         (''error'', T_message BudError_schema)]),
      (''stream_close'', [(''stream_id'', T_string), (''final_offset'', T_uint)])]"

lemmas restores_lines = restores_str restores_nullable restores_bool restores_uint restores_u64 restores_i32
  restores_enum restores_json restores_b64 restores_map restores_strs restores_msg restores_msgs

lemma protocol_enums [simp]:
  "enum_tables STREAM_TYPE_PROTO_VALUES STREAM_TYPE_JSON_VALUES"
  "enum_tables OPERATION_STATE_PROTO_VALUES OPERATION_STATE_JSON_VALUES"
  "enum_tables STREAM_STATE_PROTO_VALUES STREAM_STATE_JSON_VALUES"
  "enum_tables STREAM_RESET_REASON_PROTO_VALUES STREAM_RESET_REASON_JSON_VALUES"
  by code_simp+

interpretation bud_error: message_table BudError_write BudError_read BudError_schema
  by unfold_locales
     (auto simp: BudError_write_def BudError_read_def BudError_schema_def intro!: restores_lines)

interpretation ensure_config:
  message_table TerminalEnsureConfig_write TerminalEnsureConfig_read TerminalEnsureConfig_schema
  by unfold_locales
     (auto simp: TerminalEnsureConfig_write_def TerminalEnsureConfig_read_def TerminalEnsureConfig_schema_def
       intro!: restores_lines)

lemma codec_bud_error: "json_text_ok lib \<Longrightarrow> codec lib encodeBudError decodeBudError BudError_schema"
  unfolding encodeBudError_def decodeBudError_def by (rule bud_error.round_trip)

lemma codec_ensure_config:
  "json_text_ok lib \<Longrightarrow> codec lib encodeTerminalEnsureConfig decodeTerminalEnsureConfig TerminalEnsureConfig_schema"
  unfolding encodeTerminalEnsureConfig_def decodeTerminalEnsureConfig_def by (rule ensure_config.round_trip)

interpretation operation_status: message_table OperationStatus_write OperationStatus_read OperationStatus_schema
  by unfold_locales
     (auto simp: OperationStatus_write_def OperationStatus_read_def OperationStatus_schema_def
       intro!: restores_lines codec_bud_error)

interpretation stream_status: message_table StreamStatus_write StreamStatus_read StreamStatus_schema
  by unfold_locales
     (auto simp: StreamStatus_write_def StreamStatus_read_def StreamStatus_schema_def
       intro!: restores_lines codec_bud_error)

lemma codec_operation_status:
  "json_text_ok lib \<Longrightarrow> codec lib encodeOperationStatus decodeOperationStatus OperationStatus_schema"
  unfolding encodeOperationStatus_def decodeOperationStatus_def by (rule operation_status.round_trip)

lemma codec_stream_status:
  "json_text_ok lib \<Longrightarrow> codec lib encodeStreamStatus decodeStreamStatus StreamStatus_schema"
  unfolding encodeStreamStatus_def decodeStreamStatus_def by (rule stream_status.round_trip)

lemmas nested_codecs = codec_bud_error codec_ensure_config codec_operation_status codec_stream_status

text \<open>The writers, readers and schemas of the frame types go together.\<close>

lemma message_tableI:
  "distinct (map fst sch) \<Longrightarrow> (\<And>lib. json_text_ok lib \<Longrightarrow> list_all2 (restores lib rows) ws sch) \<Longrightarrow>
   message_table ws rows sch"
  by unfold_locales

definition tables_agree :: "(string \<times> write_line list) \<Rightarrow> (string \<times> (nat \<times> read_line) list) \<times> (string \<times> schema) \<Rightarrow> bool" where
  "tables_agree = (\<lambda>(ty, ws) ((ty', rows), (ty'', sch)). ty = ty' \<and> ty = ty'' \<and> message_table ws rows sch)"

lemma tables_lookup:
  "list_all2 tables_agree W RS \<Longrightarrow> map_of (map snd RS) ty = Some sch \<Longrightarrow>
   \<exists>ws rows. map_of W ty = Some ws \<and> map_of (map fst RS) ty = Some rows \<and> message_table ws rows sch"
  by (induction rule: list_all2_induct) (auto simp: tables_agree_def split: if_splits)

lemmas inline_readers = payload_readers_def readHelloField_def readHelloAckField_def readTerminalSendField_def
  readTerminalSendResultField_def readTerminalObserveField_def readTerminalObserveResultField_def
  readReconnectReportField_def readDataAttachField_def readDataAttachAckField_def readStreamDataField_def
  readStreamCreditField_def readStreamResetField_def

lemma payload_tables_agree: "list_all2 tables_agree payload_writers (zip payload_readers payload_schemas)"
  unfolding payload_writers_def hello_writers_def terminal_writers_def reconnect_writers_def stream_writers_def
    inline_readers payload_schemas_def append_Cons append_Nil zip_Cons_Cons zip_Nil list_all2_Cons list_all2_Nil
    tables_agree_def prod.case
  by (intro conjI message_tableI bud_error.message_table_axioms refl TrueI)
     (auto intro!: restores_lines nested_codecs)

lemma payload_table:
  assumes "map_of payload_schemas ty = Some sch"
  obtains ws rows where "map_of payload_writers ty = Some ws" "map_of payload_readers ty = Some rows"
    "message_table ws rows sch"
proof -
  have "length payload_readers = length payload_schemas"
    by (simp add: payload_readers_def payload_schemas_def)
  then have "map fst (zip payload_readers payload_schemas) = payload_readers"
    "map snd (zip payload_readers payload_schemas) = payload_schemas"
    by simp_all
  with tables_lookup [OF payload_tables_agree, of ty sch] assms that show ?thesis
    by auto
qed

lemma field_level_schemas: "map fst payload_schemas = FIELD_LEVEL_FRAME_TYPES"
  by (simp add: payload_schemas_def FIELD_LEVEL_FRAME_TYPES_def)

end
