(* ===== verification/SampleLib.thy ===== *)
theory SampleLib
  imports WireProps "HOL-Library.Countable"
begin

text \<open>
  The text functions of the runtime, \<open>JSON\<close> and \<open>Date\<close>, are parameters of the wire model.  The library of
  this theory shows that what the codec relies on of them can hold: values are numbered, and a number is
  written as a text of that length.  One chosen value has a short text, so that frames that carry it can
  be computed with.
\<close>

instance js_number :: countable
  by countable_datatype

instance json :: countable
  by countable_datatype

definition unary :: "nat \<Rightarrow> string" where
  "unary n = replicate (Suc n) CHR ''x''"

definition un_unary :: "string \<Rightarrow> nat" where
  "un_unary s = length s - 1"

lemma un_unary [simp]: "un_unary (unary n) = n"
  by (simp add: un_unary_def unary_def)

lemma js_text_unary [simp]: "js_text (unary n)" "unary n \<noteq> []"
  by (auto simp: unary_def intro!: js_text_ascii)

definition code_of_int :: "int \<Rightarrow> nat" where
  "code_of_int i = (if 0 \<le> i then 2 * nat i else 2 * nat (- i) - 1)"

definition int_of_code :: "nat \<Rightarrow> int" where
  "int_of_code n = (if even n then int (n div 2) else - int (n div 2 + 1))"

lemma int_of_code [simp]: "int_of_code (code_of_int i) = i"
proof (cases "0 \<le> i")
  case False
  then obtain k where "i = - int (Suc k)"
    by (metis int_cases2 negative_zless not_le of_nat_0_le_iff zero_le_imp_eq_int minus_minus not0_implies_Suc add.inverse_neutral of_nat_0)
  then show ?thesis
    by (simp add: code_of_int_def int_of_code_def nat_add_distrib)
qed (simp add: code_of_int_def int_of_code_def)

definition sample_lib :: "json \<Rightarrow> js_lib" where
  "sample_lib short =
     \<lparr>lib_stringify = (\<lambda>v. if v = short then unary 0 else unary (Suc (to_nat v))),
      lib_parse = (\<lambda>s. Some (if un_unary s = 0 then short else from_nat (un_unary s - 1))),
      lib_dateParse = (\<lambda>s. num_of_int (int_of_code (un_unary s))),
      lib_toISOString = (\<lambda>n. case n of Fin x \<Rightarrow> Some (unary (code_of_int \<lfloor>x\<rfloor>)) | _ \<Rightarrow> None),
      lib_numberToString = (\<lambda>n. unary (to_nat n))\<rparr>"

lemma sample_json_ok: "json_text_ok (sample_lib short)"
  by (simp add: json_text_ok_def sample_lib_def)

lemma sample_date_ok: "date_text_ok (sample_lib short)"
  by (simp add: date_text_ok_def sample_lib_def)

lemma sample_parse [simp]:
  "lib_parse (sample_lib short) (lib_stringify (sample_lib short) v) = Some v"
  by (simp add: sample_lib_def)

end
