(* ===== verification/FrameProps.thy ===== *)
theory FrameProps
  imports SampleLib
begin

text \<open>
  Correctness of the envelope codec: envelopes and frames survive encoding and decoding, every input
  is answered, and payload fields that this version does not know are refused.
\<close>

section \<open>Scanning loops\<close>

text \<open>Fields that a scanning loop passes over.\<close>

definition passes :: "(nat \<Rightarrow> nat \<Rightarrow> proto_reader \<Rightarrow> 'a scan result) \<Rightarrow> nat \<Rightarrow> bool" where
  "passes step n \<longleftrightarrow> (\<forall>w r. step n w r = andThen (skip_field w r) (\<lambda>r1. Inr (Continue r1)))"

lemma scan_one:
  assumes "field_ok f" and "passes step (fst f)"
  shows "scan_loop (Suc k) step (reader_at pre (field_bytes f @ post)) = scan_loop k step (reader_at (pre @ field_bytes f) post)"
proof (cases f rule: field_bytes.cases)
  case (1 n v)
  with assms readTag_at [of n 0 pre] show ?thesis
    by (simp add: scan_loop.simps [of "Suc k"] writeVarintField_def wire_types passes_def skip_at)
next
  case (2 n bs)
  with assms readTag_at [of n 2 pre] show ?thesis
    by (simp add: scan_loop.simps [of "Suc k"] writeBytes_def wire_types passes_def skip_at)
qed

lemma scan_passes:
  "\<forall>f \<in> set fs. field_ok f \<and> passes step (fst f) \<Longrightarrow>
   scan_loop (length fs + k) step (reader_at pre (fields_bytes fs @ post)) =
     scan_loop k step (reader_at (pre @ fields_bytes fs) post)"
proof (induction fs arbitrary: pre)
  case (Cons f fs)
  then show ?case
    using scan_one [of f step "length fs + k" pre "fields_bytes fs @ post"] Cons.IH [of "pre @ field_bytes f"]
    by simp
qed simp

lemma scan_message_passes:
  assumes "\<forall>f \<in> set fs. field_ok f \<and> passes step (fst f)"
  obtains k where "scan_message step (fields_bytes fs @ post) = scan_loop (length post + k) step (reader_at (fields_bytes fs) post)"
proof -
  obtain k where "length (fields_bytes fs) = length fs + k"
    using fields_bytes_length [of fs] le_iff_add by blast
  then show ?thesis
    using that [of k] scan_passes [OF assms, of "length post + k" "[]" post]
    by (simp add: scan_message_def new_reader_at ac_simps)
qed

lemma no_frame_json:
  assumes "\<forall>f \<in> set fs. field_small f" and "length (fields_bytes fs) < 2 ^ 53"
  shows "payloadContainsFrameJson (fields_bytes fs) = Inr False"
proof -
  have "\<forall>f \<in> set fs. field_ok f \<and> passes frame_json_scan (fst f)"
    using small_fields_ok [OF assms] assms(1)
    by (auto simp: passes_def field_small_def TYPED_FRAME_JSON_FIELD_def frame_json_scan_def)
  then obtain k where "scan_message frame_json_scan (fields_bytes fs @ []) =
      scan_loop (length ([] :: byte list) + k) frame_json_scan (reader_at (fields_bytes fs) [])"
    by (rule scan_message_passes)
  then show ?thesis
    by (simp add: payloadContainsFrameJson_def scan_loop.simps [of k])
qed

section \<open>Envelope fields\<close>

definition envelope_effect :: "nat \<Rightarrow> wire_value \<Rightarrow> decoded_envelope \<Rightarrow> decoded_envelope result" where
  "envelope_effect n v d =
     (if n = 1 then andThen (need_varint v) (\<lambda>i. Inr (d\<lparr>dc_envelope_version := Some (number_of_bigint i)\<rparr>))
      else case envelope_string n of
        Some assign \<Rightarrow> andThen (need_bytes v) (\<lambda>bs. Inr (assign (utf8_toString bs) d))
      | None \<Rightarrow>
          if n = 11 then
            andThen (need_varint v) (\<lambda>i. Inr (case trafficClassFromProto (number_of_bigint i) of
                     Some c \<Rightarrow> d\<lparr>dc_traffic_class := Some c\<rparr> | None \<Rightarrow> d))
          else if n = 12 then
            andThen (need_varint v) (\<lambda>i. Inr (case transportKindFromProto (number_of_bigint i) of
                     Some k \<Rightarrow> d\<lparr>dc_transport_kind := Some k\<rparr> | None \<Rightarrow> d))
          else if n = LEGACY_JSON_PAYLOAD_FIELD then
            andThen (need_bytes v) (\<lambda>bs. andThen (decodeLegacyJsonPayload bs) (\<lambda>lj. Inr (d\<lparr>dc_payload := Some lj\<rparr>)))
          else if map_of FRAME_TYPE_BY_TYPED_PAYLOAD_FIELD n \<noteq> None then
            andThen (need_bytes v) (\<lambda>bs. Inr (d\<lparr>dc_typedPayload := Some (n, bs)\<rparr>))
          else if isPayloadFieldNumber n then Inl (UnsupportedBudEnvelopePayload n)
          else Inr d)"

interpretation envelope_reader: field_reader envelope_step envelope_effect
proof
  fix v n and st :: decoded_envelope and pre post
  assume "v < (2 :: nat) ^ 64"
  then show "envelope_step n 0 (st, reader_at pre (encodeVarint (int v) @ post)) =
      andThen (envelope_effect n (VVarint v) st) (\<lambda>st'. Inr (st', reader_at (pre @ encodeVarint (int v)) post))"
    by (cases "envelope_string n")
       (simp_all add: envelope_step_def envelope_effect_def readStringForWireType_def readBytesForWireType_def
         readVarintForWireType_def readVarint_number wire_types need_bytes_def need_varint_def skip_at)
next
  fix bs :: "byte list" and n and st :: decoded_envelope and pre post
  assume "length bs < 2 ^ 53"
  then show "envelope_step n 2 (st, reader_at pre (encodeVarint (int (length bs)) @ bs @ post)) =
      andThen (envelope_effect n (VBytes bs) st)
        (\<lambda>st'. Inr (st', reader_at (pre @ encodeVarint (int (length bs)) @ bs) post))"
    by (cases "envelope_string n")
       (simp_all add: envelope_step_def envelope_effect_def readStringForWireType_def readBytes_at
         readVarintForWireType_def wire_types need_bytes_def need_varint_def skip_at andThen_assoc)
qed

definition text_field :: "nat \<Rightarrow> string option \<Rightarrow> wire_field list" where
  "text_field n x = (case x of None \<Rightarrow> [] | Some s \<Rightarrow> [(n, VBytes (utf8_bytes s))])"

text \<open>A string that is present in an envelope is not empty and well-formed.\<close>

definition text_ok :: "string option \<Rightarrow> bool" where
  "text_ok x \<longleftrightarrow> (\<forall>s. x = Some s \<longrightarrow> s \<noteq> [] \<and> js_text s)"

lemma text_ok_simps [simp]: "text_ok None" "text_ok (Some s) \<longleftrightarrow> s \<noteq> [] \<and> js_text s"
  by (simp_all add: text_ok_def)

definition envelope_ok_text :: "bud_envelope \<Rightarrow> bool" where
  "envelope_ok_text ev \<longleftrightarrow> text_ok (Some (ev_message_id ev)) \<and> text_ok (ev_correlation_id ev) \<and>
     text_ok (ev_operation_id ev) \<and> text_ok (ev_stream_id ev) \<and> text_ok (ev_trace_id ev) \<and>
     text_ok (ev_bud_id ev) \<and> text_ok (ev_device_session_id ev) \<and> text_ok (ev_transport_session_id ev) \<and>
     text_ok (Some (ev_sent_at ev))"

definition kind_field :: "transport_kind option \<Rightarrow> wire_field list" where
  "kind_field k = (case k of None \<Rightarrow> [] | Some x \<Rightarrow> [(12, VVarint (the (map_of TRANSPORT_KIND_PROTO_VALUES x)))])"

definition envelope_fields :: "bud_envelope \<Rightarrow> wire_field list" where
  "envelope_fields ev =
     [(1, VVarint BUD_ENVELOPE_VERSION)] @ text_field 2 (Some (ev_message_id ev))
     @ text_field 3 (ev_correlation_id ev) @ text_field 4 (ev_operation_id ev)
     @ text_field 5 (ev_stream_id ev) @ text_field 6 (ev_trace_id ev) @ text_field 7 (ev_bud_id ev)
     @ text_field 8 (ev_device_session_id ev) @ text_field 9 (ev_transport_session_id ev)
     @ text_field 10 (Some (ev_sent_at ev))
     @ [(11, VVarint (the (map_of TRAFFIC_CLASS_PROTO_VALUES (ev_traffic_class ev))))]
     @ kind_field (ev_transport_kind ev)"

lemma optional_string_field: "text_ok x \<Longrightarrow> writeOptionalString n x = fields_bytes (text_field n x)"
  by (cases x) (simp_all add: writeOptionalString_def text_field_def writeString_def)

lemma enum_field: "writeEnum n (int i) = fields_bytes [(n, VVarint i)]"
  by (simp add: writeEnum_def)

definition payload_field :: "js_lib \<Rightarrow> bud_envelope \<Rightarrow> bool \<Rightarrow> (nat \<times> byte list) result" where
  "payload_field lib ev force =
     andThen (if force then Inr None else encodeTypedJsonPayload lib ev) (\<lambda>typed.
       Inr (case typed of Some p \<Rightarrow> p | None \<Rightarrow> (LEGACY_JSON_PAYLOAD_FIELD, encodeLegacyJsonPayload ev)))"

lemma encode_as_fields:
  assumes "envelope_ok_text ev"
  shows "encodeBudEnvelope lib ev force =
    andThen (payload_field lib ev force) (\<lambda>(n, bs). Inr (fields_bytes (envelope_fields ev @ [(n, VBytes bs)])))"
proof -
  have "writeString n s = fields_bytes (text_field n (Some s))" for n s
    by (simp add: text_field_def writeString_def)
  moreover have "(case k of None \<Rightarrow> [] | Some x \<Rightarrow> writeEnum 12 (int (the (map_of TRANSPORT_KIND_PROTO_VALUES x)))) =
      fields_bytes (kind_field k)" for k
    by (cases k) (simp_all add: kind_field_def enum_field)
  moreover have "writeUint32 1 (int BUD_ENVELOPE_VERSION) = fields_bytes [(1, VVarint BUD_ENVELOPE_VERSION)]"
    by (simp add: writeUint32_def)
  moreover have "(case typed of Some (n, bs) \<Rightarrow> writeMessage n bs | None \<Rightarrow> writeMessage m lj) =
      (case (case typed of Some p \<Rightarrow> p | None \<Rightarrow> (m, lj)) of (n, bs) \<Rightarrow> fields_bytes [(n, VBytes bs)])"
    for typed :: "(nat \<times> byte list) option" and m lj
    by (cases typed) (auto simp: writeMessage_def)
  ultimately show ?thesis
    using assms
    by (simp add: encodeBudEnvelope_def payload_field_def envelope_ok_text_def envelope_fields_def andThen_assoc
      optional_string_field enum_field split_def del: fields_bytes_simps(1,2))
     (simp cong: andThen_cong)
qed

lemma fold_text_field:
  assumes "envelope_string n = Some assign" and "n \<noteq> 1" and "text_ok x"
  shows "fold_fields envelope_effect (text_field n x @ fs) d =
    fold_fields envelope_effect fs (case x of None \<Rightarrow> d | Some s \<Rightarrow> assign s d)"
  using assms by (cases x) (simp_all add: text_field_def envelope_effect_def need_bytes_def)

lemma assign_option:
  fixes d :: decoded_envelope
  shows
  "dc_correlation_id d = None \<Longrightarrow> (case x of None \<Rightarrow> d | Some s \<Rightarrow> d\<lparr>dc_correlation_id := Some s\<rparr>) = d\<lparr>dc_correlation_id := x\<rparr>"
  "dc_operation_id d = None \<Longrightarrow> (case x of None \<Rightarrow> d | Some s \<Rightarrow> d\<lparr>dc_operation_id := Some s\<rparr>) = d\<lparr>dc_operation_id := x\<rparr>"
  "dc_stream_id d = None \<Longrightarrow> (case x of None \<Rightarrow> d | Some s \<Rightarrow> d\<lparr>dc_stream_id := Some s\<rparr>) = d\<lparr>dc_stream_id := x\<rparr>"
  "dc_trace_id d = None \<Longrightarrow> (case x of None \<Rightarrow> d | Some s \<Rightarrow> d\<lparr>dc_trace_id := Some s\<rparr>) = d\<lparr>dc_trace_id := x\<rparr>"
  "dc_bud_id d = None \<Longrightarrow> (case x of None \<Rightarrow> d | Some s \<Rightarrow> d\<lparr>dc_bud_id := Some s\<rparr>) = d\<lparr>dc_bud_id := x\<rparr>"
  "dc_device_session_id d = None \<Longrightarrow> (case x of None \<Rightarrow> d | Some s \<Rightarrow> d\<lparr>dc_device_session_id := Some s\<rparr>) = d\<lparr>dc_device_session_id := x\<rparr>"
  "dc_transport_session_id d = None \<Longrightarrow> (case x of None \<Rightarrow> d | Some s \<Rightarrow> d\<lparr>dc_transport_session_id := Some s\<rparr>) = d\<lparr>dc_transport_session_id := x\<rparr>"
  by (cases d; cases x; simp)+

lemma envelope_strings:
  "envelope_string 2 = Some (\<lambda>s d. d\<lparr>dc_message_id := Some s\<rparr>)"
  "envelope_string 3 = Some (\<lambda>s d. d\<lparr>dc_correlation_id := Some s\<rparr>)"
  "envelope_string 4 = Some (\<lambda>s d. d\<lparr>dc_operation_id := Some s\<rparr>)"
  "envelope_string 5 = Some (\<lambda>s d. d\<lparr>dc_stream_id := Some s\<rparr>)"
  "envelope_string 6 = Some (\<lambda>s d. d\<lparr>dc_trace_id := Some s\<rparr>)"
  "envelope_string 7 = Some (\<lambda>s d. d\<lparr>dc_bud_id := Some s\<rparr>)"
  "envelope_string 8 = Some (\<lambda>s d. d\<lparr>dc_device_session_id := Some s\<rparr>)"
  "envelope_string 9 = Some (\<lambda>s d. d\<lparr>dc_transport_session_id := Some s\<rparr>)"
  "envelope_string 10 = Some (\<lambda>s d. d\<lparr>dc_sent_at := Some s\<rparr>)"
  "n < 2 \<or> 10 < n \<Longrightarrow> envelope_string n = None"
  by (simp_all add: envelope_string_def) auto

lemma fold_class:
  "fold_fields envelope_effect ((11, VVarint (the (map_of TRAFFIC_CLASS_PROTO_VALUES c))) # fs) d =
   fold_fields envelope_effect fs (d\<lparr>dc_traffic_class := Some c\<rparr>)"
  by (cases c) (simp_all add: envelope_effect_def envelope_strings need_varint_def number_of_bigint_small
    trafficClassFromProto_def TRAFFIC_CLASS_PROTO_VALUES_def)

lemma fold_kind:
  assumes "dc_transport_kind d = None"
  shows "fold_fields envelope_effect (kind_field k @ fs) d = fold_fields envelope_effect fs (d\<lparr>dc_transport_kind := k\<rparr>)"
proof (cases k)
  case None
  with assms show ?thesis by (cases d) (simp add: kind_field_def)
next
  case (Some x)
  then show ?thesis
    by (cases x) (simp_all add: kind_field_def envelope_effect_def envelope_strings need_varint_def
      number_of_bigint_small transportKindFromProto_def TRANSPORT_KIND_PROTO_VALUES_def)
qed

lemma fold_version:
  "fold_fields envelope_effect ((1, VVarint BUD_ENVELOPE_VERSION) # fs) d =
   fold_fields envelope_effect fs (d\<lparr>dc_envelope_version := Some BUD_ENVELOPE_VERSION\<rparr>)"
  by (simp add: envelope_effect_def need_varint_def number_of_bigint_small BUD_ENVELOPE_VERSION_def)

definition header_of :: "bud_envelope \<Rightarrow> decoded_envelope" where
  "header_of ev =
     \<lparr>dc_envelope_version = Some BUD_ENVELOPE_VERSION, dc_message_id = Some (ev_message_id ev),
      dc_correlation_id = ev_correlation_id ev, dc_operation_id = ev_operation_id ev,
      dc_stream_id = ev_stream_id ev, dc_trace_id = ev_trace_id ev, dc_bud_id = ev_bud_id ev,
      dc_device_session_id = ev_device_session_id ev, dc_transport_session_id = ev_transport_session_id ev,
      dc_sent_at = Some (ev_sent_at ev), dc_traffic_class = Some (ev_traffic_class ev),
      dc_transport_kind = ev_transport_kind ev, dc_payload = None, dc_typedPayload = None\<rparr>"

lemma fold_envelope:
  assumes "envelope_ok_text ev"
  shows "fold_fields envelope_effect (envelope_fields ev @ fs) nothing_decoded = fold_fields envelope_effect fs (header_of ev)"
  using assms unfolding envelope_ok_text_def envelope_fields_def
  by (simp add: fold_text_field envelope_strings fold_class fold_kind fold_version assign_option
        nothing_decoded_def header_of_def del: fold_fields.simps(2) One_nat_def)

definition decode_payload :: "js_lib \<Rightarrow> bud_envelope \<Rightarrow> nat \<Rightarrow> byte list \<Rightarrow> legacy_json_payload result" where
  "decode_payload lib ev n bs =
     (if n = LEGACY_JSON_PAYLOAD_FIELD then decodeLegacyJsonPayload bs
      else decodeTypedJsonPayload lib n bs (ev_message_id ev) (ev_sent_at ev))"

lemma typed_field_range: "map_of FRAME_TYPE_BY_TYPED_PAYLOAD_FIELD n = Some ty \<Longrightarrow> 100 < n \<and> n < 200"
proof -
  have "\<forall>p \<in> set FRAME_TYPE_BY_TYPED_PAYLOAD_FIELD. 100 < fst p \<and> fst p < 200"
    by code_simp
  then show "map_of FRAME_TYPE_BY_TYPED_PAYLOAD_FIELD n = Some ty \<Longrightarrow> 100 < n \<and> n < 200"
    by (fastforce dest: map_of_SomeD)
qed

lemma proto_values_small:
  "the (map_of TRAFFIC_CLASS_PROTO_VALUES c) < 10" "the (map_of TRANSPORT_KIND_PROTO_VALUES k) < 10"
  by (cases c; simp add: TRAFFIC_CLASS_PROTO_VALUES_def)
     (cases k; simp add: TRANSPORT_KIND_PROTO_VALUES_def)

lemma fields_fit:
  assumes "\<forall>f \<in> set fs. fst f < 2 ^ 20 \<and> (\<forall>v. snd f = VVarint v \<longrightarrow> v < 10)" and "length (fields_bytes fs) < 2 ^ 53"
  shows "\<forall>f \<in> set fs. field_ok f"
proof
  fix f
  assume f: "f \<in> set fs"
  with assms(2) have "length (field_bytes f) < 2 ^ 53"
    using field_bytes_le [OF f] by simp
  with assms(1) f show "field_ok f"
    by (cases f rule: field_bytes.cases) (fastforce simp: writeBytes_def)+
qed

lemma decode_from_fields:
  assumes "envelope_ok_text ev" and "length (fields_bytes (envelope_fields ev @ [(n, VBytes bs)])) < 2 ^ 53"
    and "n = LEGACY_JSON_PAYLOAD_FIELD \<or> map_of FRAME_TYPE_BY_TYPED_PAYLOAD_FIELD n \<noteq> None"
  shows "decodeBudEnvelope lib (fields_bytes (envelope_fields ev @ [(n, VBytes bs)])) =
    andThen (decode_payload lib ev n bs) (\<lambda>lj. Inr (ev\<lparr>ev_legacy_json := lj\<rparr>))"
proof -
  have n: "100 \<le> n" "n < 200"
    using assms(3) typed_field_range [of n] by (auto simp: LEGACY_JSON_PAYLOAD_FIELD_def)
  have "\<forall>f \<in> set (envelope_fields ev @ [(n, VBytes bs)]). fst f < 2 ^ 20 \<and> (\<forall>v. snd f = VVarint v \<longrightarrow> v < 10)"
    using n proto_values_small
    by (auto simp: envelope_fields_def text_field_def kind_field_def BUD_ENVELOPE_VERSION_def split: option.split)
  from envelope_reader.read_message_fields [OF fields_fit [OF this assms(2)], of nothing_decoded]
  have "read_message envelope_step nothing_decoded (fields_bytes (envelope_fields ev @ [(n, VBytes bs)])) =
      envelope_effect n (VBytes bs) (header_of ev)"
    by (simp add: fold_envelope [OF assms(1)] del: fields_bytes_simps) (simp add: andThen_def split: sum.split)
  moreover have "text_ok (Some (ev_message_id ev))" "text_ok (Some (ev_sent_at ev))"
    using assms(1) by (simp_all add: envelope_ok_text_def)
  ultimately show ?thesis
    using n assms(3)
    by (auto simp: decodeBudEnvelope_def envelope_effect_def envelope_strings need_bytes_def decode_payload_def
      header_of_def andThen_assoc non_empty_def LEGACY_JSON_PAYLOAD_FIELD_def BUD_ENVELOPE_VERSION_def
      intro!: andThen_cong)
qed

section \<open>Payloads that carry JSON text\<close>

definition legacy_effect :: "nat \<Rightarrow> wire_value \<Rightarrow> string option \<times> string option \<times> string option \<Rightarrow>
    (string option \<times> string option \<times> string option) result" where
  "legacy_effect n v = (\<lambda>(json, frameType, proto).
     if n = 1 then andThen (need_bytes v) (\<lambda>bs. Inr (Some (utf8_toString bs), frameType, proto))
     else if n = 2 then andThen (need_bytes v) (\<lambda>bs. Inr (json, Some (utf8_toString bs), proto))
     else if n = 3 then andThen (need_bytes v) (\<lambda>bs. Inr (json, frameType, Some (utf8_toString bs)))
     else Inr (json, frameType, proto))"

interpretation legacy_reader: field_reader legacy_step legacy_effect
proof
  fix v n and st :: "string option \<times> string option \<times> string option" and pre post
  show "legacy_step n 0 (st, reader_at pre (encodeVarint (int v) @ post)) =
      andThen (legacy_effect n (VVarint v) st) (\<lambda>st'. Inr (st', reader_at (pre @ encodeVarint (int v)) post))"
    by (cases st) (simp add: legacy_step_def legacy_effect_def readStringForWireType_def readBytesForWireType_def
      wire_types need_bytes_def skip_at)
next
  fix bs :: "byte list" and n and st :: "string option \<times> string option \<times> string option" and pre post
  assume "length bs < 2 ^ 53"
  then show "legacy_step n 2 (st, reader_at pre (encodeVarint (int (length bs)) @ bs @ post)) =
      andThen (legacy_effect n (VBytes bs) st)
        (\<lambda>st'. Inr (st', reader_at (pre @ encodeVarint (int (length bs)) @ bs) post))"
    by (cases st) (simp add: legacy_step_def legacy_effect_def readStringForWireType_def readBytes_at
      need_bytes_def skip_at)
qed

lemma non_empty_ok [simp]: "text_ok x \<Longrightarrow> non_empty x = x"
  by (cases x) (simp_all add: non_empty_def)

lemma optional_string_bytes: "writeOptionalString n x = fields_bytes (text_field n (non_empty x))"
  by (cases x) (simp_all add: writeOptionalString_def text_field_def writeString_def non_empty_def)

lemma legacy_payload_roundtrip:
  assumes "lj = ev_legacy_json ev" and "text_ok (Some (lj_json lj))" and "text_ok (non_empty (lj_frame_type lj))"
    and "text_ok (non_empty (lj_proto lj))" and "length (encodeLegacyJsonPayload ev) < 2 ^ 53"
  shows "decodeLegacyJsonPayload (encodeLegacyJsonPayload ev) =
    Inr \<lparr>lj_json = lj_json lj, lj_frame_type = non_empty (lj_frame_type lj), lj_proto = non_empty (lj_proto lj)\<rparr>"
proof -
  let ?ft = "non_empty (lj_frame_type lj)" and ?pr = "non_empty (lj_proto lj)"
  let ?fs = "text_field 1 (Some (lj_json lj)) @ text_field 2 ?ft @ text_field 3 ?pr"
  have bs: "encodeLegacyJsonPayload ev = fields_bytes ?fs"
    using assms(1) by (simp add: encodeLegacyJsonPayload_def optional_string_bytes Let_def)
      (simp add: text_field_def)
  have "\<forall>f \<in> set ?fs. fst f < 2 ^ 20 \<and> (\<forall>v. snd f = VVarint v \<longrightarrow> v < 10)"
    by (auto simp: text_field_def split: option.split)
  from legacy_reader.read_message_fields [OF fields_fit [OF this assms(5) [unfolded bs]]]
  have "read_message legacy_step (None, None, None) (encodeLegacyJsonPayload ev) = Inr (Some (lj_json lj), ?ft, ?pr)"
    using assms(2-4) unfolding bs
    by (cases ?ft; cases ?pr) (simp_all add: text_field_def legacy_effect_def need_bytes_def)
  with assms(2-4) show ?thesis
    by (simp add: decodeLegacyJsonPayload_def del: text_ok_simps)
qed

definition json_effect :: "nat \<Rightarrow> wire_value \<Rightarrow> string option \<Rightarrow> string option result" where
  "json_effect n v json =
     (if n = TYPED_FRAME_JSON_FIELD then andThen (need_bytes v) (\<lambda>bs. Inr (Some (utf8_toString bs))) else Inr json)"

lemma readBytes_varint:
  "readBytesForWireType 0 r = Inl (JsError (''expected length-delimited wire type, got '' @ show_nat 0))"
  by (simp add: readBytesForWireType_def wire_types)

interpretation json_reader: field_reader frame_json_step json_effect
  by unfold_locales
     (simp_all add: frame_json_step_def json_effect_def readStringForWireType_def readBytes_varint readBytes_at
       need_bytes_def skip_at)

lemma frame_json_roundtrip:
  assumes "js_text s" and "length (writeBytes TYPED_FRAME_JSON_FIELD (utf8_bytes s)) < 2 ^ 53"
  shows "read_message frame_json_step None (writeBytes TYPED_FRAME_JSON_FIELD (utf8_bytes s)) = Inr (Some s)"
proof -
  let ?fs = "[(TYPED_FRAME_JSON_FIELD, VBytes (utf8_bytes s))]"
  have "\<forall>f \<in> set ?fs. field_ok f"
    using assms(2) by (intro fields_fit) (simp_all add: TYPED_FRAME_JSON_FIELD_def)
  from json_reader.read_message_fields [OF this, of None] assms(1) show ?thesis
    by (simp add: json_effect_def need_bytes_def)
qed

section \<open>Frames\<close>

lemma field_level_fields:
  assumes "ty \<in> set FIELD_LEVEL_FRAME_TYPES"
  obtains n where "typed_payload_field ty = Some n" "map_of FRAME_TYPE_BY_TYPED_PAYLOAD_FIELD n = Some ty" "ty \<noteq> []"
proof -
  have "\<forall>ty \<in> set FIELD_LEVEL_FRAME_TYPES. ty \<noteq> [] \<and> (case typed_payload_field ty of
      None \<Rightarrow> False | Some n \<Rightarrow> map_of FRAME_TYPE_BY_TYPED_PAYLOAD_FIELD n = Some ty)"
    by code_simp
  with assms have "ty \<noteq> [] \<and> (case typed_payload_field ty of
      None \<Rightarrow> False | Some n \<Rightarrow> map_of FRAME_TYPE_BY_TYPED_PAYLOAD_FIELD n = Some ty)"
    by blast
  with that show ?thesis
    by (cases "typed_payload_field ty") auto
qed

lemma schema_keys:
  assumes "map_of payload_schemas ty = Some sch"
  shows "ty \<in> set FIELD_LEVEL_FRAME_TYPES" "distinct (map fst sch)"
    "\<forall>p \<in> set sch. fst p \<notin> {''proto'', ''type'', ''id'', ''ts'', ''ext''} \<and> js_text (fst p)"
proof -
  have keys: "\<forall>q \<in> set payload_schemas. distinct (map fst (snd q)) \<and>
      (\<forall>p \<in> set (snd q). fst p \<notin> {''proto'', ''type'', ''id'', ''ts'', ''ext''} \<and> js_text (fst p))"
    by code_simp
  from assms have "(ty, sch) \<in> set payload_schemas"
    by (rule map_of_SomeD)
  with keys show "distinct (map fst sch)"
    "\<forall>p \<in> set sch. fst p \<notin> {''proto'', ''type'', ''id'', ''ts'', ''ext''} \<and> js_text (fst p)"
    by auto
  from \<open>(ty, sch) \<in> set payload_schemas\<close> show "ty \<in> set FIELD_LEVEL_FRAME_TYPES"
    unfolding field_level_schemas [symmetric] by force
qed

text \<open>What arrives of a frame of a field-level type.\<close>

definition arrives :: "string \<Rightarrow> string \<Rightarrow> int \<Rightarrow> js_object \<Rightarrow> js_object" where
  "arrives ty mid t body = fill_defaults ty
     ([(''proto'', JStr (protoForFrameType ty)), (''type'', JStr ty), (''id'', JStr mid), (''ts'', JInt t),
       (''ext'', JObj [])] @ body)"

lemma set_obj_set: "p \<in> set (obj_set k v ob) \<Longrightarrow> p = (k, v) \<or> p \<in> set ob"
  by (induction ob) (auto split: if_splits)

lemma plain_set: "plain (JObj ob) \<Longrightarrow> js_text k \<Longrightarrow> plain v \<Longrightarrow> plain (JObj (obj_set k v ob))"
  by (auto simp: distinct_update dest: set_obj_set)

lemma js_text_defaults: "js_text ''error''" "js_text ''outcome''" "js_text ''data''"
  by code_simp+

lemma plain_fill_defaults: "plain (JObj frame) \<Longrightarrow> plain (JObj (fill_defaults ty frame))"
proof -
  have "plain (JObj [])" and "plain JNull"
    by simp_all
  then show "plain (JObj frame) \<Longrightarrow> plain (JObj (fill_defaults ty frame))"
    by (simp add: fill_defaults_def Let_def plain_set js_text_defaults del: plain.simps)
qed

lemma plain_get: "plain (JObj ob) \<Longrightarrow> obj_get ob k = JUndef \<or> plain (obj_get ob k)"
  by (auto simp: obj_get_def split: option.split dest: map_of_SomeD)

lemma body_of_entries:
  "(k, v) \<in> set (body_of sch ob) \<Longrightarrow> v = obj_get ob k \<and> v \<noteq> JUndef \<and> k \<in> fst ` set sch"
  by (auto simp: body_of_def split: if_splits intro: rev_image_eqI)

lemma distinct_body: "distinct (map fst sch) \<Longrightarrow> distinct (map fst (body_of sch ob))"
proof (induction sch)
  case (Cons p sch)
  have "fst ` set (body_of sch ob) \<subseteq> fst ` set sch"
    using body_of_entries by fastforce
  with Cons show ?case
    by (auto simp: body_of_Cons)
qed (simp add: body_of_def)

lemma plain_arrives:
  assumes "map_of payload_schemas ty = Some sch" and "plain (JObj frame)" and "js_text ty" and "js_text mid"
    and "\<bar>t\<bar> \<le> MAX_SAFE_INTEGER"
  shows "plain (JObj (arrives ty mid t (body_of sch frame)))"
  unfolding arrives_def
proof (rule plain_fill_defaults)
  note keys = schema_keys [OF assms(1)]
  have body: "js_text k \<and> plain v \<and> k \<notin> {''proto'', ''type'', ''id'', ''ts'', ''ext''}"
    if "(k, v) \<in> set (body_of sch frame)" for k v
    using body_of_entries [OF that] keys(3) plain_get [OF assms(2), of k] by auto
  have "js_text ''proto'' \<and> js_text ''type'' \<and> js_text ''id'' \<and> js_text ''ts'' \<and> js_text ''ext''"
    by code_simp
  moreover have "js_text (protoForFrameType ty)"
    unfolding protoForFrameType_def by (cases "starts_with ''terminal_'' ty") (simp; code_simp)+
  ultimately show "plain (JObj ([(''proto'', JStr (protoForFrameType ty)), (''type'', JStr ty), (''id'', JStr mid),
      (''ts'', JInt t), (''ext'', JObj [])] @ body_of sch frame))"
    using assms(3-5) distinct_body [OF keys(2), of frame] body by fastforce
qed

definition envelope_of :: "js_lib \<Rightarrow> js_object \<Rightarrow> string \<Rightarrow> string \<Rightarrow> bud_envelope" where
  "envelope_of lib frame mid iso_text =
     \<lparr>ev_message_id = mid, ev_correlation_id = None, ev_operation_id = None, ev_stream_id = None,
      ev_trace_id = None, ev_bud_id = None, ev_device_session_id = None, ev_transport_session_id = None,
      ev_sent_at = iso_text, ev_traffic_class = trafficClassForLegacyFrame frame,
      ev_transport_kind = Some Websocket,
      ev_legacy_json = \<lparr>lj_json = lib_stringify lib (JObj frame), lj_frame_type = stringField frame ''type'',
        lj_proto = stringField frame ''proto''\<rparr>\<rparr>"

text \<open>Frames as the senders of the service build them: plain, with an identifier and a date.\<close>

definition sendable :: "js_object \<Rightarrow> string \<Rightarrow> int \<Rightarrow> bool" where
  "sendable frame mid t \<longleftrightarrow> plain (JObj frame) \<and> obj_get frame ''id'' = JStr mid \<and> mid \<noteq> [] \<and>
     obj_get frame ''ts'' = JInt t \<and> \<bar>t\<bar> \<le> 8640000000000000"

lemma make_envelope:
  assumes "date_text_ok lib" and "sendable frame mid t"
  obtains s where "makeLegacyJsonEnvelope lib fresh now frame no_options = Inr (envelope_of lib frame mid s)"
    "sentAtToMillis lib s = num_of_int t" "envelope_ok_text (envelope_of lib frame mid s)"
proof -
  from assms obtain s where s: "lib_toISOString lib (num_of_int t) = Some s" "lib_dateParse lib s = num_of_int t"
    "js_text s" "s \<noteq> []"
    unfolding date_text_ok_def sendable_def by blast
  have "js_text mid"
    using assms(2) plain_get [of frame "''id''"] by (simp add: sendable_def)
  with s assms(2) that [of s] show ?thesis
    by (simp add: makeLegacyJsonEnvelope_def no_options_def frameSentAt_def frameMessageId_def numberField_def
      stringField_def toISO_def sendable_def sentAtToMillis_def envelope_of_def envelope_ok_text_def)
qed

lemma encode_field_level:
  assumes "json_text_ok lib" and "map_of payload_schemas ty = Some sch" and "conforms sch frame"
    and "plain (JObj frame)" and "obj_get frame ''type'' = JStr ty"
  obtains n rows fs where "payload_field lib (envelope_of lib frame mid s) False = Inr (n, fields_bytes fs)"
    "map_of FRAME_TYPE_BY_TYPED_PAYLOAD_FIELD n = Some ty" "map_of payload_readers ty = Some rows"
    "\<forall>f \<in> set fs. field_small f"
    "length (fields_bytes fs) < 2 ^ 53 \<longrightarrow> fold_fields (rows_effect lib rows) fs (baseFrame lib ty mid s) =
       Inr (baseFrame lib ty mid s @ body_of sch frame)"
proof -
  note keys = schema_keys [OF assms(2)]
  obtain n where n: "typed_payload_field ty = Some n" "map_of FRAME_TYPE_BY_TYPED_PAYLOAD_FIELD n = Some ty" "ty \<noteq> []"
    using keys(1) by (rule field_level_fields)
  obtain ws rows where tbl: "map_of payload_writers ty = Some ws" "map_of payload_readers ty = Some rows"
    "message_table ws rows sch"
    using assms(2) by (rule payload_table)
  have "\<forall>p \<in> set sch. absent (snd p) (obj_get frame (fst p)) \<or> plain (obj_get frame (fst p))"
    using plain_get [OF assms(4)] by (metis absent.simps(1))
  moreover have "\<forall>p \<in> set sch. \<not> obj_has (baseFrame lib ty mid s) (fst p)"
    using keys(3) by (auto simp: baseFrame_def js_simps)
  ultimately have "rows_written lib ws rows frame (baseFrame lib ty mid s) (body_of sch frame)"
    by (rule message_table.written [OF tbl(3) assms(1,3)])
  then obtain fs where fs: "write_rows ws lib frame = Inr (fields_bytes fs)" "\<forall>f \<in> set fs. field_small f"
    "length (fields_bytes fs) < 2 ^ 53 \<longrightarrow> fold_fields (rows_effect lib rows) fs (baseFrame lib ty mid s) =
       Inr (baseFrame lib ty mid s @ body_of sch frame)"
    unfolding rows_written_def by blast
  have "parseFrameJson lib (lib_stringify lib (JObj frame)) = Inr frame"
    using assms(1,4) by (simp add: parseFrameJson_def parse_json_def json_text_ok_def del: plain.simps)
  with n tbl fs(1) keys(1) assms(5)
  have "payload_field lib (envelope_of lib frame mid s) False = Inr (n, fields_bytes fs)"
    by (simp add: payload_field_def encodeTypedJsonPayload_def envelope_of_def stringField_def
      encodeFieldLevelPayload_def)
  with n(2) tbl(2) fs that show ?thesis
    by blast
qed

lemma decode_field_level:
  assumes "map_of FRAME_TYPE_BY_TYPED_PAYLOAD_FIELD n = Some ty" and "ty \<in> set FIELD_LEVEL_FRAME_TYPES"
    and "map_of payload_readers ty = Some rows" and "\<forall>f \<in> set fs. field_small f"
    and "length (fields_bytes fs) < 2 ^ 53"
    and "fold_fields (rows_effect lib rows) fs (baseFrame lib ty mid s) = Inr frame"
  shows "decodeFieldLevelPayload lib n (fields_bytes fs) mid s = Inr (Some (fill_defaults ty frame))"
  using rows_reader.read_message_fields [OF small_fields_ok [OF assms(4,5)], of lib rows "baseFrame lib ty mid s"]
    no_frame_json [OF assms(4,5)] assms
  by (simp add: decodeFieldLevelPayload_def)

lemma parse_arrived:
  "json_text_ok lib \<Longrightarrow> plain (JObj ob) \<Longrightarrow> lib_parse lib (lib_stringify lib (JObj ob)) = Some (JObj ob)"
  by (simp add: json_text_ok_def del: plain.simps)

lemma field_level_bytes:
  assumes "json_text_ok lib" and "date_text_ok lib"
    and "obj_get frame ''type'' = JStr ty" and "map_of payload_schemas ty = Some sch" and "conforms sch frame"
    and "sendable frame mid t"
  obtains s n fs where
    "encodeBudFrame lib fresh now frame no_options =
       Inr (fields_bytes (envelope_fields (envelope_of lib frame mid s) @ [(n, VBytes (fields_bytes fs))]))"
    "envelope_ok_text (envelope_of lib frame mid s)" "map_of FRAME_TYPE_BY_TYPED_PAYLOAD_FIELD n = Some ty"
    "\<forall>f \<in> set fs. field_small f"
    "length (fields_bytes fs) < 2 ^ 53 \<longrightarrow>
       decodeFieldLevelPayload lib n (fields_bytes fs) mid s = Inr (Some (arrives ty mid t (body_of sch frame)))"
proof -
  have plain: "plain (JObj frame)"
    using assms(6) by (simp add: sendable_def)
  obtain s where ev: "makeLegacyJsonEnvelope lib fresh now frame no_options = Inr (envelope_of lib frame mid s)"
    and s: "sentAtToMillis lib s = num_of_int t" and ok: "envelope_ok_text (envelope_of lib frame mid s)"
    using assms(2,6) by (rule make_envelope)
  obtain n rows fs where pf: "payload_field lib (envelope_of lib frame mid s) False = Inr (n, fields_bytes fs)"
    and n: "map_of FRAME_TYPE_BY_TYPED_PAYLOAD_FIELD n = Some ty" and rows: "map_of payload_readers ty = Some rows"
    and small: "\<forall>f \<in> set fs. field_small f"
    and fold: "length (fields_bytes fs) < 2 ^ 53 \<longrightarrow> fold_fields (rows_effect lib rows) fs (baseFrame lib ty mid s) =
       Inr (baseFrame lib ty mid s @ body_of sch frame)"
    using assms(1,4,5) plain assms(3) by (rule encode_field_level)
  have "decodeFieldLevelPayload lib n (fields_bytes fs) mid s = Inr (Some (arrives ty mid t (body_of sch frame)))"
    if short: "length (fields_bytes fs) < 2 ^ 53"
    using decode_field_level [OF n schema_keys(1) [OF assms(4)] rows small short mp [OF fold short]]
    by (simp add: arrives_def baseFrame_def s)
  moreover have "encodeBudFrame lib fresh now frame no_options =
      Inr (fields_bytes (envelope_fields (envelope_of lib frame mid s) @ [(n, VBytes (fields_bytes fs))]))"
    using ev pf by (simp add: encodeBudFrame_def encodeLegacyJsonFrame_def encode_as_fields [OF ok])
  ultimately show ?thesis
    using that ok n small by blast
qed

lemma decode_typed_frame:
  assumes "json_text_ok lib" and "plain (JObj out)" and "envelope_ok_text ev"
    and "map_of FRAME_TYPE_BY_TYPED_PAYLOAD_FIELD n = Some ty"
    and "length (fields_bytes (envelope_fields ev @ [(n, VBytes bs)])) < 2 ^ 53"
    and "decodeFieldLevelPayload lib n bs (ev_message_id ev) (ev_sent_at ev) = Inr (Some out)"
  shows "decodeBudFrame lib (fields_bytes (envelope_fields ev @ [(n, VBytes bs)])) = Inr out"
  using decode_from_fields [OF assms(3,5)] typed_field_range [OF assms(4)] parse_arrived [OF assms(1,2)] assms(4,6)
  by (simp add: decodeBudFrame_def decodeLegacyJsonFrame_def parse_json_def decode_payload_def
    LEGACY_JSON_PAYLOAD_FIELD_def decodeTypedJsonPayload_def del: fields_bytes_simps)

lemma field_level_arrives:
  assumes "json_text_ok lib" and "date_text_ok lib"
    and "obj_get frame ''type'' = JStr ty" and "map_of payload_schemas ty = Some sch" and "conforms sch frame"
    and "sendable frame mid t"
  shows "\<exists>bs. encodeBudFrame lib fresh now frame no_options = Inr bs \<and>
    (length bs < 2 ^ 53 \<longrightarrow> decodeBudFrame lib bs = Inr (arrives ty mid t (body_of sch frame)))"
proof -
  have plain: "plain (JObj frame)" and t: "\<bar>t\<bar> \<le> MAX_SAFE_INTEGER"
    using assms(6) by (simp_all add: sendable_def MAX_SAFE_INTEGER_def)
  have "js_text ty" and "js_text mid"
    using plain_get [OF plain, of "''type''"] plain_get [OF plain, of "''id''"] assms(3,6)
    by (simp_all add: sendable_def)
  then have out: "plain (JObj (arrives ty mid t (body_of sch frame)))"
    by (rule plain_arrives [OF assms(4) plain _ _ t])
  obtain s n fs where enc: "encodeBudFrame lib fresh now frame no_options =
       Inr (fields_bytes (envelope_fields (envelope_of lib frame mid s) @ [(n, VBytes (fields_bytes fs))]))"
    and ok: "envelope_ok_text (envelope_of lib frame mid s)" and n: "map_of FRAME_TYPE_BY_TYPED_PAYLOAD_FIELD n = Some ty"
    and "\<forall>f \<in> set fs. field_small f" and dec: "length (fields_bytes fs) < 2 ^ 53 \<longrightarrow>
       decodeFieldLevelPayload lib n (fields_bytes fs) mid s = Inr (Some (arrives ty mid t (body_of sch frame)))"
    using assms by (rule field_level_bytes)
  show ?thesis
  proof (intro exI conjI impI, rule enc)
    assume len: "length (fields_bytes (envelope_fields (envelope_of lib frame mid s) @ [(n, VBytes (fields_bytes fs))])) < 2 ^ 53"
    then have "length (fields_bytes fs) < 2 ^ 53"
      by (simp add: writeBytes_def)
    with dec have "decodeFieldLevelPayload lib n (fields_bytes fs) (ev_message_id (envelope_of lib frame mid s))
        (ev_sent_at (envelope_of lib frame mid s)) = Inr (Some (arrives ty mid t (body_of sch frame)))"
      by (simp add: envelope_of_def)
    then show "decodeBudFrame lib (fields_bytes (envelope_fields (envelope_of lib frame mid s) @ [(n, VBytes (fields_bytes fs))])) =
        Inr (arrives ty mid t (body_of sch frame))"
      by (rule decode_typed_frame [OF assms(1) out ok n len])
  qed
qed

text \<open>Sample frames, for evaluation.\<close>

definition sample_credit :: js_object where
  "sample_credit = [(''type'', JStr ''stream_credit''), (''id'', JStr ''m1''), (''ts'', JInt 3),
     (''stream_id'', JStr ''s1''), (''receive_offset'', JInt 5), (''credit_bytes'', JInt 7)]"

lemma sample_credit_get [simp]:
  "obj_get sample_credit ''type'' = JStr ''stream_credit''" "obj_get sample_credit ''id'' = JStr ''m1''"
  "obj_get sample_credit ''ts'' = JInt 3" "obj_get sample_credit ''stream_id'' = JStr ''s1''"
  "obj_get sample_credit ''receive_offset'' = JInt 5" "obj_get sample_credit ''credit_bytes'' = JInt 7"
  "obj_get sample_credit ''proto'' = JUndef" 
  by (simp_all add: sample_credit_def js_simps)

lemma sample_credit_schema:
  "map_of payload_schemas ''stream_credit'' = Some [(''stream_id'', T_string), (''receive_offset'', T_uint), (''credit_bytes'', T_uint)]"
  by (simp add: payload_schemas_def)

lemma sample_credit_conforms:
  "conforms [(''stream_id'', T_string), (''receive_offset'', T_uint), (''credit_bytes'', T_uint)] sample_credit"
  using int_in_iff [of 0 MAX_SAFE_INTEGER "JInt 5"] int_in_iff [of 0 MAX_SAFE_INTEGER "JInt 7"] 
  by (simp add: conforms_def is_text_def) (force simp: MAX_SAFE_INTEGER_def int_in_iff)

lemma sample_credit_sendable: "sendable sample_credit ''m1'' 3"
  by (simp add: sendable_def) (simp add: sample_credit_def js_text_by_list MAX_SAFE_INTEGER_def)

lemma sample_credit_payload:
  "encodeFieldLevelPayload lib ''stream_credit'' sample_credit =
     Inr (Some (writeBytes 1 (utf8_bytes ''s1'') @ writeVarintField 2 5 @ writeVarintField 3 7))"
proof -
  have "map_of payload_writers ''stream_credit'' = Some [W_str 1 ''stream_id'', W_u64 2 ''receive_offset'', W_u64 3 ''credit_bytes'']"
    by (simp add: payload_writers_def hello_writers_def terminal_writers_def reconnect_writers_def stream_writers_def)
  then show ?thesis 
    by (simp add: encodeFieldLevelPayload_def row_lines write_rows_def is_safe_integer_def MAX_SAFE_INTEGER_def
      FIELD_LEVEL_FRAME_TYPES_def) 
qed

lemma sample_credit_envelope:
  "makeLegacyJsonEnvelope (sample_lib x) fresh now sample_credit no_options = Inr (envelope_of (sample_lib x) sample_credit ''m1'' (unary 6))"
  by (simp add: makeLegacyJsonEnvelope_def no_options_def frameSentAt_def frameMessageId_def numberField_def
      stringField_def toISO_def sentAtToMillis_def envelope_of_def sample_lib_def code_of_int_def)

lemma short_length: "n \<le> 200 \<Longrightarrow> n < (2 :: nat) ^ 53"
  using le_less_trans [of n 200 "2 ^ 53"] by simp

lemma sample_envelope_length:
  assumes "encodeTypedJsonPayload lib (envelope_of lib frame mid s) = Inr (Some (n, p))"
  obtains bs where "encodeBudEnvelope lib (envelope_of lib frame mid s) False = Inr bs"
    "length bs \<le> 120 + length (utf8_bytes mid) + length (utf8_bytes s) + length p"
proof -
  note lens = writeVarint_length [of 1 "int BUD_ENVELOPE_VERSION"] writeBytes_length [of 2 "utf8_bytes mid"]
    writeBytes_length [of 10 "utf8_bytes s"]
    writeVarint_length [of 11 "int (the (map_of TRAFFIC_CLASS_PROTO_VALUES (trafficClassForLegacyFrame frame)))"]
    writeVarint_length [of 12 "int (the (map_of TRANSPORT_KIND_PROTO_VALUES Websocket))"] writeBytes_length [of n p]
  show ?thesis
    using assms lens
    by (intro that; simp add: encodeBudEnvelope_def)
       (simp add: envelope_of_def writeOptionalString_def writeEnum_def writeUint32_def writeString_def writeMessage_def)
qed

lemma sample_credit_typed: "encodeTypedJsonPayload (sample_lib x) (envelope_of (sample_lib x) sample_credit ''m1'' (unary 6)) =
  Inr (Some (173, writeBytes 1 (utf8_bytes ''s1'') @ writeVarintField 2 5 @ writeVarintField 3 7))"
  by (simp add: encodeTypedJsonPayload_def envelope_of_def stringField_def parseFrameJson_def parse_json_def typed_payload_field_def TYPED_PAYLOAD_FIELD_BY_FRAME_TYPE_def sample_credit_payload)

lemma sample_credit_bytes:
  obtains bs where "encodeBudFrame (sample_lib x) fresh now sample_credit no_options = Inr bs" "length bs < 2 ^ 53"
proof -
  obtain bs where "encodeBudEnvelope (sample_lib x) (envelope_of (sample_lib x) sample_credit ''m1'' (unary 6)) False = Inr bs"
    "length bs \<le> 120 + length (utf8_bytes ''m1'') + length (utf8_bytes (unary 6))
      + length (writeBytes 1 (utf8_bytes ''s1'') @ writeVarintField 2 5 @ writeVarintField 3 7)"
    using sample_credit_typed by (rule sample_envelope_length)
  moreover have "length (utf8_bytes ''m1'') = 2" "length (utf8_bytes ''s1'') = 2" "length (utf8_bytes (unary 6)) = 7"
    by code_simp+
  ultimately have "encodeBudFrame (sample_lib x) fresh now sample_credit no_options = Inr bs" "length bs \<le> 200"
    using writeBytes_length [of 1 "utf8_bytes ''s1''"] writeVarint_length [of 2 5] writeVarint_length [of 3 7]
    by (simp_all add: encodeBudFrame_def encodeLegacyJsonFrame_def sample_credit_envelope)
  then show ?thesis
    using short_length by (intro that)
qed

text \<open>C16: a frame of a field-level type that conforms to its message survives the wire: the decoder
  returns the frame with exactly the properties of its message, each with the value that was sent.\<close>

theorem field_level_frame_roundtrip:
  assumes "json_text_ok lib" and "date_text_ok lib"
    and "obj_get frame ''type'' = JStr ty" and "map_of payload_schemas ty = Some sch" and "conforms sch frame"
    and "sendable frame mid t"
  shows "\<exists>bs. encodeBudFrame lib fresh now frame no_options = Inr bs \<and>
    (length bs < 2 ^ 53 \<longrightarrow> decodeBudFrame lib bs = Inr (arrives ty mid t (body_of sch frame)))"
  using assms by (rule field_level_arrives)

theorem field_level_frame_roundtrip_witness:
  "\<exists>bs. encodeBudFrame (sample_lib JNull) ''f'' NaN sample_credit no_options = Inr bs \<and>
     decodeBudFrame (sample_lib JNull) bs = Inr [(''proto'', JStr ''0.1''), (''type'', JStr ''stream_credit''), (''id'', JStr ''m1''),
       (''ts'', JInt 3), (''ext'', JObj []), (''stream_id'', JStr ''s1''), (''receive_offset'', JInt 5), (''credit_bytes'', JInt 7)]"
proof -
  obtain bs where "encodeBudFrame (sample_lib JNull) ''f'' NaN sample_credit no_options = Inr bs" "length bs < 2 ^ 53"
    by (rule sample_credit_bytes)
  then show ?thesis
    using field_level_frame_roundtrip [OF sample_json_ok sample_date_ok sample_credit_get(1) sample_credit_schema
       sample_credit_conforms sample_credit_sendable, of JNull "''f''" NaN]
    by (simp add: arrives_def body_of_def fill_defaults_def protoForFrameType_def starts_with_def)
qed

text \<open>Frames whose payload carries the JSON text: untyped frames and the types without field-level messages.\<close>

lemma typed_field_names: "map_of TYPED_PAYLOAD_FIELD_BY_FRAME_TYPE ty = Some n \<Longrightarrow>
    map_of FRAME_TYPE_BY_TYPED_PAYLOAD_FIELD n = Some ty"
proof -
  have "\<forall>p \<in> set TYPED_PAYLOAD_FIELD_BY_FRAME_TYPE. map_of FRAME_TYPE_BY_TYPED_PAYLOAD_FIELD (snd p) = Some (fst p)"
    by code_simp
  then show "map_of TYPED_PAYLOAD_FIELD_BY_FRAME_TYPE ty = Some n \<Longrightarrow> map_of FRAME_TYPE_BY_TYPED_PAYLOAD_FIELD n = Some ty"
    by (fastforce dest: map_of_SomeD)
qed

definition json_typed :: "js_object \<Rightarrow> bool" where
  "json_typed frame \<longleftrightarrow> (\<forall>ty. obj_get frame ''type'' = JStr ty \<longrightarrow>
     ty \<notin> set FIELD_LEVEL_FRAME_TYPES \<and> ty \<notin> set object_prototype_members)"

lemma decode_json_payload:
  assumes "json_text_ok lib" and "plain (JObj frame)" and "json_typed frame"
    and "payload_field lib (envelope_of lib frame mid s) False = Inr (n, bs)" and "length bs < 2 ^ 53"
  shows "(n = LEGACY_JSON_PAYLOAD_FIELD \<or> map_of FRAME_TYPE_BY_TYPED_PAYLOAD_FIELD n \<noteq> None) \<and>
    (\<exists>lj. decode_payload lib (envelope_of lib frame mid s) n bs = Inr lj \<and> lj_json lj = lib_stringify lib (JObj frame))"
proof -
  let ?ev = "envelope_of lib frame mid s" and ?j = "lib_stringify lib (JObj frame)"
  have json: "text_ok (Some ?j)" and parse: "parseFrameJson lib ?j = Inr frame"
    using assms(1,2) by (simp_all add: json_text_ok_def parseFrameJson_def parse_json_def del: plain.simps)
  have texts: "text_ok (non_empty (stringField frame k))" for k
    using plain_get [OF assms(2), of k]
    by (cases "obj_get frame k") (auto simp: stringField_def non_empty_def)
  show ?thesis
  proof (cases "\<exists>ty m. stringField frame ''type'' = Some ty \<and> ty \<noteq> [] \<and> map_of TYPED_PAYLOAD_FIELD_BY_FRAME_TYPE ty = Some m")
    case True
    then obtain ty m where ty: "stringField frame ''type'' = Some ty" "ty \<noteq> []" "map_of TYPED_PAYLOAD_FIELD_BY_FRAME_TYPE ty = Some m"
      by blast
    then have "obj_get frame ''type'' = JStr ty"
      by (cases "obj_get frame ''type''") (simp_all add: stringField_def)
    with assms(3) have fl: "ty \<notin> set FIELD_LEVEL_FRAME_TYPES"
      by (simp add: json_typed_def)
    with assms(4) ty parse have nb: "n = m" "bs = writeBytes TYPED_FRAME_JSON_FIELD (utf8_bytes ?j)"
      by (simp_all add: payload_field_def encodeTypedJsonPayload_def envelope_of_def typed_payload_field_def
        encodeFieldLevelPayload_def)
    have "js_text ?j"
      using json by simp
    then have "read_message frame_json_step None (writeBytes TYPED_FRAME_JSON_FIELD (utf8_bytes ?j)) = Inr (Some ?j)"
      using assms(5) unfolding nb(2) by (rule frame_json_roundtrip)
    with typed_field_names [OF ty(3)] typed_field_range [of m ty] fl json show ?thesis
      unfolding nb by (simp add: decode_payload_def decodeTypedJsonPayload_def decodeFieldLevelPayload_def
        LEGACY_JSON_PAYLOAD_FIELD_def non_empty_def)
  next
    case False
    then have "encodeTypedJsonPayload lib ?ev = Inr None"
      using assms(3) by (cases "obj_get frame ''type''")
        (auto simp: encodeTypedJsonPayload_def envelope_of_def stringField_def typed_payload_field_def
          json_typed_def Let_def split: option.split)
    with assms(4) have nb: "n = LEGACY_JSON_PAYLOAD_FIELD" "bs = encodeLegacyJsonPayload ?ev"
      by (simp_all add: payload_field_def)
    have lj: "lj_json (ev_legacy_json ?ev) = ?j" "lj_frame_type (ev_legacy_json ?ev) = stringField frame ''type''"
      "lj_proto (ev_legacy_json ?ev) = stringField frame ''proto''"
      by (simp_all add: envelope_of_def)
    have "decodeLegacyJsonPayload (encodeLegacyJsonPayload ?ev) =
        Inr \<lparr>lj_json = ?j, lj_frame_type = non_empty (stringField frame ''type''),
          lj_proto = non_empty (stringField frame ''proto'')\<rparr>"
      using legacy_payload_roundtrip [OF refl, of ?ev] json texts assms(5) unfolding lj nb(2) by blast
    then show ?thesis
      unfolding nb by (simp add: decode_payload_def)
  qed
qed

lemma json_payload_field:
  assumes "json_text_ok lib" and "plain (JObj frame)" and "json_typed frame"
  obtains n bs where "payload_field lib (envelope_of lib frame mid s) False = Inr (n, bs)"
proof -
  have "parseFrameJson lib (lib_stringify lib (JObj frame)) = Inr frame"
    using assms(1,2) by (simp add: json_text_ok_def parseFrameJson_def parse_json_def del: plain.simps)
  then have "\<exists>x. encodeTypedJsonPayload lib (envelope_of lib frame mid s) = Inr x"
    using assms(3)
    by (cases "obj_get frame ''type''")
       (auto simp: encodeTypedJsonPayload_def envelope_of_def stringField_def encodeFieldLevelPayload_def
         json_typed_def Let_def split: option.split)
  then obtain x where "encodeTypedJsonPayload lib (envelope_of lib frame mid s) = Inr x" ..
  then have "payload_field lib (envelope_of lib frame mid s) False =
      Inr (case x of Some p \<Rightarrow> p | None \<Rightarrow> (LEGACY_JSON_PAYLOAD_FIELD, encodeLegacyJsonPayload (envelope_of lib frame mid s)))"
    by (simp add: payload_field_def)
  then show ?thesis
    using that by (metis surj_pair)
qed

definition sample_open :: js_object where
  "sample_open = [(''type'', JStr ''file_open''), (''id'', JStr ''m2''), (''ts'', JInt 3), (''path'', JStr ''a'')]"

lemma sample_open_get [simp]:
  "obj_get sample_open ''type'' = JStr ''file_open''" "obj_get sample_open ''id'' = JStr ''m2''"
  "obj_get sample_open ''ts'' = JInt 3" "obj_get sample_open ''proto'' = JUndef"
  by (simp_all add: sample_open_def js_simps)

lemma sample_open_ok: "json_typed sample_open" "sendable sample_open ''m2'' 3"
proof -
  show "json_typed sample_open"
    by (simp add: json_typed_def FIELD_LEVEL_FRAME_TYPES_def object_prototype_members_def)
  show "sendable sample_open ''m2'' 3"
    by (simp add: sendable_def) (simp add: sample_open_def js_text_by_list MAX_SAFE_INTEGER_def)
qed

lemma sample_open_bytes:
  obtains bs where "encodeBudFrame (sample_lib (JObj sample_open)) fresh now sample_open no_options = Inr bs"
    "length bs < 2 ^ 53"
proof -
  let ?lib = "sample_lib (JObj sample_open)"
  have "lib_stringify ?lib (JObj sample_open) = ''x''"
    by (simp add: sample_lib_def unary_def)
  then have "encodeTypedJsonPayload ?lib (envelope_of ?lib sample_open ''m2'' (unary 6)) = Inr (Some (178, writeBytes TYPED_FRAME_JSON_FIELD (utf8_bytes ''x'')))"
    using sample_parse [of "JObj sample_open" "JObj sample_open"]
    by (simp add: encodeTypedJsonPayload_def envelope_of_def stringField_def parseFrameJson_def parse_json_def
      typed_payload_field_def TYPED_PAYLOAD_FIELD_BY_FRAME_TYPE_def encodeFieldLevelPayload_def FIELD_LEVEL_FRAME_TYPES_def)
  then obtain bs where "encodeBudEnvelope ?lib (envelope_of ?lib sample_open ''m2'' (unary 6)) False = Inr bs"
    "length bs \<le> 120 + length (utf8_bytes ''m2'') + length (utf8_bytes (unary 6))
      + length (writeBytes TYPED_FRAME_JSON_FIELD (utf8_bytes ''x''))"
    by (rule sample_envelope_length)
  moreover have "makeLegacyJsonEnvelope ?lib fresh now sample_open no_options = Inr (envelope_of ?lib sample_open ''m2'' (unary 6))"
    by (simp add: makeLegacyJsonEnvelope_def no_options_def frameSentAt_def frameMessageId_def numberField_def
      stringField_def toISO_def sentAtToMillis_def envelope_of_def sample_lib_def code_of_int_def)
  moreover have "length (utf8_bytes ''m2'') = 2" "length (utf8_bytes ''x'') = 1" "length (utf8_bytes (unary 6)) = 7"
    by code_simp+
  ultimately have "encodeBudFrame ?lib fresh now sample_open no_options = Inr bs" "length bs \<le> 200"
    using writeBytes_length [of TYPED_FRAME_JSON_FIELD "utf8_bytes ''x''"]
    by (simp_all add: encodeBudFrame_def encodeLegacyJsonFrame_def)
  then show ?thesis
    using short_length by (intro that)
qed

text \<open>C17: a frame of any other type is carried as JSON text and arrives unchanged.\<close>

theorem json_frame_roundtrip:
  assumes "json_text_ok lib" and "date_text_ok lib" and "json_typed frame" and "sendable frame mid t"
  shows "\<exists>bs. encodeBudFrame lib fresh now frame no_options = Inr bs \<and>
    (length bs < 2 ^ 53 \<longrightarrow> decodeBudFrame lib bs = Inr frame)"
proof -
  have plain: "plain (JObj frame)"
    using assms(4) by (simp add: sendable_def)
  obtain s where ev: "makeLegacyJsonEnvelope lib fresh now frame no_options = Inr (envelope_of lib frame mid s)"
    and ok: "envelope_ok_text (envelope_of lib frame mid s)"
    using assms(2,4) by (rule make_envelope)
  obtain n bs where pf: "payload_field lib (envelope_of lib frame mid s) False = Inr (n, bs)"
    using assms(1) plain assms(3) by (rule json_payload_field)
  let ?bs = "fields_bytes (envelope_fields (envelope_of lib frame mid s) @ [(n, VBytes bs)])"
  have enc: "encodeBudFrame lib fresh now frame no_options = Inr ?bs"
    using ev pf by (simp add: encodeBudFrame_def encodeLegacyJsonFrame_def encode_as_fields [OF ok])
  have "decodeBudFrame lib ?bs = Inr frame" if len: "length ?bs < 2 ^ 53"
  proof -
    have "length bs < 2 ^ 53"
      using len by (simp add: writeBytes_def)
    with decode_json_payload [OF assms(1) plain assms(3) pf] obtain lj where
      n: "n = LEGACY_JSON_PAYLOAD_FIELD \<or> map_of FRAME_TYPE_BY_TYPED_PAYLOAD_FIELD n \<noteq> None" and
      lj: "decode_payload lib (envelope_of lib frame mid s) n bs = Inr lj" "lj_json lj = lib_stringify lib (JObj frame)"
      by blast
    then show ?thesis
      using decode_from_fields [OF ok len n] parse_arrived [OF assms(1) plain]
      by (simp add: decodeBudFrame_def decodeLegacyJsonFrame_def parse_json_def)
  qed
  with enc show ?thesis
    by blast
qed

theorem json_frame_roundtrip_witness:
  "\<exists>bs. encodeBudFrame (sample_lib (JObj sample_open)) ''f'' NaN sample_open no_options = Inr bs \<and>
     decodeBudFrame (sample_lib (JObj sample_open)) bs = Inr sample_open"
proof -
  obtain bs where "encodeBudFrame (sample_lib (JObj sample_open)) ''f'' NaN sample_open no_options = Inr bs" "length bs < 2 ^ 53"
    by (rule sample_open_bytes)
  then show ?thesis
    using json_frame_roundtrip [OF sample_json_ok sample_date_ok sample_open_ok, of "JObj sample_open" "''f''" NaN]
    by simp
qed

section \<open>Looking at an envelope without decoding it\<close>

lemma scan_envelope:
  assumes "length (fields_bytes (envelope_fields ev @ [(n, VBytes bs)])) < 2 ^ 53" and "n < 2 ^ 20"
    and "\<And>m. m < 13 \<Longrightarrow> passes step m"
  obtains k where "scan_message step (fields_bytes (envelope_fields ev @ [(n, VBytes bs)])) =
    andThen (step n 2 (reader_at (fields_bytes (envelope_fields ev) @ encodeVarint (int (push_bit 3 n OR 2)))
                         (encodeVarint (int (length bs)) @ bs)))
      (\<lambda>res. case res of Found x \<Rightarrow> Inr (Some x) | Continue r \<Rightarrow> scan_loop k step r)"
proof -
  have fs: "\<forall>f \<in> set (envelope_fields ev). fst f < 13 \<and> (\<forall>v. snd f = VVarint v \<longrightarrow> v < 10)"
    using proto_values_small
    by (auto simp: envelope_fields_def text_field_def kind_field_def BUD_ENVELOPE_VERSION_def split: option.split)
  then have "\<forall>f \<in> set (envelope_fields ev). field_ok f"
    using assms(1) by (intro fields_fit) fastforce+
  with fs assms(3) have "\<forall>f \<in> set (envelope_fields ev). field_ok f \<and> passes step (fst f)"
    by blast
  then obtain k where "scan_message step (fields_bytes (envelope_fields ev) @ writeBytes n bs) =
      scan_loop (length (writeBytes n bs) + k) step (reader_at (fields_bytes (envelope_fields ev)) (writeBytes n bs))"
    by (rule scan_message_passes)
  moreover obtain m where "length (writeBytes n bs) + k = Suc m"
    by (cases "length (writeBytes n bs) + k") (auto simp: writeBytes_def)
  ultimately have "scan_message step (fields_bytes (envelope_fields ev @ [(n, VBytes bs)])) =
      scan_loop (Suc m) step (reader_at (fields_bytes (envelope_fields ev)) (writeBytes n bs))"
    by simp
  then show ?thesis
    using that [of m] readTag_at [OF assms(2), of 2 "fields_bytes (envelope_fields ev)"]
    by (simp add: scan_loop.simps [of "Suc m"] writeBytes_def wire_types)
qed

lemma early_fields:
  "m < 13 \<Longrightarrow> map_of FRAME_TYPE_BY_TYPED_PAYLOAD_FIELD m = None" "m < 13 \<Longrightarrow> \<not> isPayloadFieldNumber m"
  "m < 13 \<Longrightarrow> m \<noteq> LEGACY_JSON_PAYLOAD_FIELD"
  using typed_field_range [of m]
  by (cases "map_of FRAME_TYPE_BY_TYPED_PAYLOAD_FIELD m")
     (auto simp: isPayloadFieldNumber_def PAYLOAD_FIELD_MIN_def LEGACY_JSON_PAYLOAD_FIELD_def)

lemma case_passes: "m < 13 \<Longrightarrow> passes payload_case_step m"
  and encoding_passes: "m < 13 \<Longrightarrow> passes payload_encoding_step m"
  by (simp_all add: passes_def payload_case_step_def payload_encoding_step_def early_fields)

definition sample_envelope :: bud_envelope where
  "sample_envelope = envelope_of (sample_lib JNull) sample_credit ''m1'' ''now''"

text \<open>An envelope whose payload field this version does not know is refused by the decoder and by both
  classifiers, naming the field.\<close>

theorem unknown_payload_refused:
  assumes "envelope_ok_text ev" and "isPayloadFieldNumber n" and "n \<noteq> LEGACY_JSON_PAYLOAD_FIELD"
    and "map_of FRAME_TYPE_BY_TYPED_PAYLOAD_FIELD n = None"
    and "bytes = fields_bytes (envelope_fields ev @ [(n, VBytes bs)])" and "length bytes < 2 ^ 53"
  shows "decodeBudEnvelope lib bytes = Inl (UnsupportedBudEnvelopePayload n) \<and>
    decodeBudEnvelopePayloadCase bytes = Inl (UnsupportedBudEnvelopePayload n) \<and>
    decodeBudEnvelopePayloadEncoding bytes = Inl (UnsupportedBudEnvelopePayload n)"
proof (intro conjI)
  have n: "100 \<le> n" "n < 200" "n < 2 ^ 20"
    using assms(2) by (simp_all add: isPayloadFieldNumber_def PAYLOAD_FIELD_MIN_def PAYLOAD_FIELD_MAX_def)
  note len = assms(6) [unfolded assms(5)]
  have "\<forall>f \<in> set (envelope_fields ev @ [(n, VBytes bs)]). fst f < 2 ^ 20 \<and> (\<forall>v. snd f = VVarint v \<longrightarrow> v < 10)"
    using n proto_values_small
    by (auto simp: envelope_fields_def text_field_def kind_field_def BUD_ENVELOPE_VERSION_def split: option.split)
  from envelope_reader.read_message_fields [OF fields_fit [OF this len], of nothing_decoded] n assms(2-4)
  show "decodeBudEnvelope lib bytes = Inl (UnsupportedBudEnvelopePayload n)"
    unfolding assms(5) by (simp add: decodeBudEnvelope_def fold_envelope [OF assms(1)] envelope_effect_def envelope_strings
      del: fields_bytes_simps)
  obtain k where "scan_message payload_case_step bytes = andThen (payload_case_step n 2 (reader_at
      (fields_bytes (envelope_fields ev) @ encodeVarint (int (push_bit 3 n OR 2))) (encodeVarint (int (length bs)) @ bs)))
      (\<lambda>res. case res of Found x \<Rightarrow> Inr (Some x) | Continue r \<Rightarrow> scan_loop k payload_case_step r)"
    unfolding assms(5) by (rule scan_envelope [OF len n(3) case_passes])
  then show "decodeBudEnvelopePayloadCase bytes = Inl (UnsupportedBudEnvelopePayload n)"
    using assms(2-4) by (simp add: decodeBudEnvelopePayloadCase_def payload_case_step_def)
  obtain k where "scan_message payload_encoding_step bytes = andThen (payload_encoding_step n 2 (reader_at
      (fields_bytes (envelope_fields ev) @ encodeVarint (int (push_bit 3 n OR 2))) (encodeVarint (int (length bs)) @ bs)))
      (\<lambda>res. case res of Found x \<Rightarrow> Inr (Some x) | Continue r \<Rightarrow> scan_loop k payload_encoding_step r)"
    unfolding assms(5) by (rule scan_envelope [OF len n(3) encoding_passes])
  then show "decodeBudEnvelopePayloadEncoding bytes = Inl (UnsupportedBudEnvelopePayload n)"
    using assms(2-4) by (simp add: decodeBudEnvelopePayloadEncoding_def payload_encoding_step_def)
qed

theorem unknown_payload_refused_witness:
  "decodeBudEnvelope (sample_lib JNull) (fields_bytes (envelope_fields sample_envelope @ [(130, VBytes [])])) =
     Inl (UnsupportedBudEnvelopePayload 130)"
proof -
  have "envelope_ok_text sample_envelope"
    by (simp add: sample_envelope_def envelope_of_def envelope_ok_text_def js_text_by_list)
  moreover have "isPayloadFieldNumber 130" "130 \<noteq> LEGACY_JSON_PAYLOAD_FIELD" "map_of FRAME_TYPE_BY_TYPED_PAYLOAD_FIELD 130 = None"
    by code_simp+
  moreover have "length (fields_bytes (envelope_fields sample_envelope @ [(130, VBytes [])])) \<le> 200"
    using writeVarint_length [of 1 "int BUD_ENVELOPE_VERSION"] writeBytes_length [of 2 "utf8_bytes ''m1''"]
    writeBytes_length [of 10 "utf8_bytes ''now''"]
    writeVarint_length [of 11 "int (the (map_of TRAFFIC_CLASS_PROTO_VALUES (trafficClassForLegacyFrame sample_credit)))"]
    writeVarint_length [of 12 "int (the (map_of TRANSPORT_KIND_PROTO_VALUES Websocket))"] writeBytes_length [of 130 "[]"]
    by (simp add: sample_envelope_def envelope_of_def envelope_fields_def text_field_def kind_field_def) 
  ultimately show ?thesis
    using unknown_payload_refused [of sample_envelope 130 _ "[]" "sample_lib JNull"] short_length by blast
qed

text \<open>The classifiers agree with the encoder: an encoded field-level frame is classified by its type
  and as typed fields, without decoding its payload.\<close>

theorem classifiers_agree_with_encoder:
  assumes "json_text_ok lib" and "date_text_ok lib"
    and "obj_get frame ''type'' = JStr ty" and "map_of payload_schemas ty = Some sch" and "conforms sch frame"
    and "sendable frame mid t"
  shows "\<exists>bs. encodeBudFrame lib fresh now frame no_options = Inr bs \<and> (length bs < 2 ^ 53 \<longrightarrow>
    decodeBudEnvelopePayloadCase bs = Inr ty \<and> decodeBudEnvelopePayloadEncoding bs = Inr Typed_fields)"
proof -
  obtain s n fs where enc: "encodeBudFrame lib fresh now frame no_options =
       Inr (fields_bytes (envelope_fields (envelope_of lib frame mid s) @ [(n, VBytes (fields_bytes fs))]))"
    and "envelope_ok_text (envelope_of lib frame mid s)" and n: "map_of FRAME_TYPE_BY_TYPED_PAYLOAD_FIELD n = Some ty"
    and small: "\<forall>f \<in> set fs. field_small f" and "length (fields_bytes fs) < 2 ^ 53 \<longrightarrow>
       decodeFieldLevelPayload lib n (fields_bytes fs) mid s = Inr (Some (arrives ty mid t (body_of sch frame)))"
    using assms by (rule field_level_bytes)
  let ?ev = "envelope_of lib frame mid s"
  let ?bs = "fields_bytes (envelope_fields ?ev @ [(n, VBytes (fields_bytes fs))])"
  let ?r = "reader_at (fields_bytes (envelope_fields ?ev) @ encodeVarint (int (push_bit 3 n OR 2)))
    (encodeVarint (int (length (fields_bytes fs))) @ fields_bytes fs)"
  have r: "100 < n" "n < 2 ^ 20"
    using typed_field_range [OF n] by simp_all
  show ?thesis
  proof (intro exI conjI impI, rule enc)
    assume len: "length ?bs < 2 ^ 53"
    then have short: "length (fields_bytes fs) < 2 ^ 53"
      by (simp add: writeBytes_def)
    obtain k where "scan_message payload_case_step ?bs = andThen (payload_case_step n 2 ?r)
        (\<lambda>res. case res of Found x \<Rightarrow> Inr (Some x) | Continue r \<Rightarrow> scan_loop k payload_case_step r)"
      by (rule scan_envelope [OF len r(2) case_passes])
    then show "decodeBudEnvelopePayloadCase ?bs = Inr ty"
      using n r by (simp add: decodeBudEnvelopePayloadCase_def payload_case_step_def LEGACY_JSON_PAYLOAD_FIELD_def)
    obtain k where "scan_message payload_encoding_step ?bs = andThen (payload_encoding_step n 2 ?r)
        (\<lambda>res. case res of Found x \<Rightarrow> Inr (Some x) | Continue r \<Rightarrow> scan_loop k payload_encoding_step r)"
      by (rule scan_envelope [OF len r(2) encoding_passes])
    then show "decodeBudEnvelopePayloadEncoding ?bs = Inr Typed_fields"
      using n r no_frame_json [OF small short] readBytes_at [OF short, of _ "[]"]
      by (simp add: decodeBudEnvelopePayloadEncoding_def payload_encoding_step_def LEGACY_JSON_PAYLOAD_FIELD_def)
  qed
qed

theorem classifiers_agree_with_encoder_witness:
  "\<exists>bs. encodeBudFrame (sample_lib JNull) ''f'' NaN sample_credit no_options = Inr bs \<and>
     decodeBudEnvelopePayloadCase bs = Inr ''stream_credit'' \<and> decodeBudEnvelopePayloadEncoding bs = Inr Typed_fields"
proof -
  obtain bs where "encodeBudFrame (sample_lib JNull) ''f'' NaN sample_credit no_options = Inr bs" "length bs < 2 ^ 53"
    by (rule sample_credit_bytes)
  then show ?thesis
    using classifiers_agree_with_encoder [OF sample_json_ok sample_date_ok sample_credit_get(1) sample_credit_schema
       sample_credit_conforms sample_credit_sendable, of JNull "''f''" NaN]
    by simp
qed

end
