(* ===== verification/DecodeTotal.thy ===== *)
theory DecodeTotal
  imports WireProps
begin

text \<open>
  Decoding terminates on every input.  The loops of the decoders carry fuel, the length of the input;
  here it is shown that no input ever uses it up, so \<open>LoopStuck\<close> is never the answer: whatever bytes a
  peer sends, every decoder returns a value or throws one of the errors of the source.
\<close>

lemma forward_read_bind:
  assumes "forward_read f" and "\<And>v r1. k v r1 \<noteq> Inl LoopStuck" and "\<And>v r1 y r2. k v r1 = Inr (y, r2) \<Longrightarrow> r2 = r1"
  shows "forward_read (\<lambda>r. andThen (f r) (\<lambda>(v, r1). k v r1))"
  unfolding forward_read_def
proof (intro allI conjI impI)
  fix r
  show "andThen (f r) (\<lambda>(v, r1). k v r1) \<noteq> Inl LoopStuck"
    using assms(1,2) by (auto simp: forward_read_def andThen_def split: sum.split)
  fix y r2
  assume "andThen (f r) (\<lambda>(v, r1). k v r1) = Inr (y, r2)"
  then obtain v r1 where v: "f r = Inr (v, r1)" "k v r1 = Inr (y, r2)"
    by (auto simp: andThen_eq_Inr)
  with assms(3) [OF v(2)] have "f r = Inr (v, r2)"
    by simp
  then show "rd_bytes r2 = rd_bytes r" "rd_offset r \<le> rd_offset r2"
    using assms(1) unfolding forward_read_def by blast+
qed

lemma andThen_not_stuck: "m \<noteq> Inl LoopStuck \<Longrightarrow> (\<And>x. f x \<noteq> Inl LoopStuck) \<Longrightarrow> andThen m f \<noteq> Inl LoopStuck"
  by (auto simp: andThen_def split: sum.split)

lemma andThen_stuck_iff:
  "andThen m f = Inl LoopStuck \<longleftrightarrow> m = Inl LoopStuck \<or> (\<exists>x. m = Inr x \<and> f x = Inl LoopStuck)"
  by (auto simp: andThen_def split: sum.split)

lemma forward_read_if [forwardI]:
  "forward_read f \<Longrightarrow> forward_read g \<Longrightarrow> forward_read (\<lambda>r. if b then f r else g r)"
  by (cases b) simp_all

lemma forward_readString [forwardI]: "forward_read (readStringForWireType w)"
  unfolding readStringForWireType_def by (intro forward_read_bind forwardI) auto

lemma forward_readSafe [forwardI]: "forward_read (readSafeUint64 name w)"
  unfolding readSafeUint64_def by (intro forward_read_bind forwardI) (auto split: if_splits)

lemma forward_readInt32 [forwardI]: "forward_read (readInt32Varint w)"
  unfolding readInt32Varint_def by (intro forward_read_bind forwardI) auto

lemma forward_of_reads:
  assumes "\<And>n w st. forward_read (\<lambda>r. step n w (st, r))"
  shows "forward step"
  using assms unfolding forward_def forward_read_def by blast

lemma forward_read_skip [forwardI]: "forward_read (\<lambda>r. andThen (skip_field w r) (\<lambda>r1. Inr (st, r1)))"
  using forward_skip [of w] unfolding forward_read_def andThen_eq_Inr
  by (auto simp: andThen_def split: sum.split)

lemma entry_not_stuck: "decodeStringMapEntry bs \<noteq> Inl LoopStuck"
proof -
  have "forward entry_step"
  proof (rule forward_of_reads)
    fix n w and st :: "string option \<times> string option"
    show "forward_read (\<lambda>r. entry_step n w (st, r))"
      by (cases st) (auto simp: entry_step_def intro!: forward_read_if forward_read_bind forwardI)
  qed
  then show ?thesis
    unfolding decodeStringMapEntry_def
    by (intro andThen_not_stuck read_message_never_stuck) auto
qed

section \<open>Payloads\<close>

text \<open>A row is total when the decoder of its nested message, if any, always answers.\<close>

fun row_total :: "js_lib \<Rightarrow> read_line \<Rightarrow> bool" where
  "row_total lib (R_msg dec k) = (\<forall>bs. dec lib bs \<noteq> Inl LoopStuck)"
| "row_total lib (R_msgs dec k) = (\<forall>bs. dec lib bs \<noteq> Inl LoopStuck)"
| "row_total lib _ = True"

lemma parse_not_stuck: "parse_json lib s \<noteq> Inl LoopStuck" "parseJsonBytes lib bs \<noteq> Inl LoopStuck"
  by (simp_all add: parse_json_def parseJsonBytes_def split: option.split)

lemma forward_row: "row_total lib row \<Longrightarrow> forward_read (\<lambda>r. read_row lib row w (ob, r))"
  by (cases row)
     (auto intro!: forward_read_bind forwardI
       simp: andThen_stuck_iff parse_not_stuck entry_not_stuck andThen_eq_Inr)

lemma forward_rows:
  assumes "\<forall>p \<in> set rows. row_total lib (snd p)"
  shows "forward (read_by lib rows)"
proof (rule forward_of_reads)
  fix n w st
  show "forward_read (\<lambda>r. read_by lib rows n w (st, r))"
  proof (cases "map_of rows n")
    case None
    then show ?thesis by (simp add: read_by_def forwardI)
  next
    case (Some row)
    then have "row_total lib row"
      using assms by (fastforce dest: map_of_SomeD)
    with Some show ?thesis by (simp add: read_by_def forward_row)
  qed
qed

lemma rows_not_stuck: "\<forall>p \<in> set rows. row_total lib (snd p) \<Longrightarrow> read_rows rows lib bs \<noteq> Inl LoopStuck"
  unfolding read_rows_def by (intro read_message_never_stuck forward_rows)

lemma nested_not_stuck:
  "decodeBudError lib bs \<noteq> Inl LoopStuck" "decodeTerminalEnsureConfig lib bs \<noteq> Inl LoopStuck"
  "decodeOperationStatus lib bs \<noteq> Inl LoopStuck" "decodeStreamStatus lib bs \<noteq> Inl LoopStuck"
proof -
  show e: "decodeBudError lib bs \<noteq> Inl LoopStuck" for bs
    unfolding decodeBudError_def BudError_read_def by (rule rows_not_stuck) simp
  show "decodeTerminalEnsureConfig lib bs \<noteq> Inl LoopStuck"
    unfolding decodeTerminalEnsureConfig_def TerminalEnsureConfig_read_def by (rule rows_not_stuck) simp
  show "decodeOperationStatus lib bs \<noteq> Inl LoopStuck"
    unfolding decodeOperationStatus_def OperationStatus_read_def by (rule rows_not_stuck) (simp add: e)
  show "decodeStreamStatus lib bs \<noteq> Inl LoopStuck"
    unfolding decodeStreamStatus_def StreamStatus_read_def by (rule rows_not_stuck) (simp add: e)
qed

lemma payload_rows_total: "map_of payload_readers ty = Some rows \<Longrightarrow> \<forall>p \<in> set rows. row_total lib (snd p)"
proof -
  have "\<forall>q \<in> set payload_readers. \<forall>p \<in> set (snd q). row_total lib (snd p)"
    by (simp add: inline_readers BudError_read_def nested_not_stuck)
  then show "map_of payload_readers ty = Some rows \<Longrightarrow> \<forall>p \<in> set rows. row_total lib (snd p)"
    by (fastforce dest: map_of_SomeD)
qed

section \<open>Scanning loops\<close>

definition forward_scan :: "(nat \<Rightarrow> nat \<Rightarrow> proto_reader \<Rightarrow> 'a scan result) \<Rightarrow> bool" where
  "forward_scan step \<longleftrightarrow> (\<forall>n w r. step n w r \<noteq> Inl LoopStuck \<and>
     (\<forall>r'. step n w r = Inr (Continue r') \<longrightarrow> rd_bytes r' = rd_bytes r \<and> rd_offset r \<le> rd_offset r'))"

lemma scan_loop_never_stuck:
  assumes "forward_scan step" and "length (rd_bytes r) - rd_offset r \<le> fuel"
  shows "scan_loop fuel step r \<noteq> Inl LoopStuck"
  using assms(2)
proof (induction fuel arbitrary: r)
  case 0
  then show ?case by (simp add: scan_loop.simps rd_done_def)
next
  case (Suc k)
  show ?case
  proof (cases "rd_done r")
    case False
    have "andThen (readTag r) (\<lambda>((n, w), r1). andThen (step n w r1) (\<lambda>res. case res of
        Found x \<Rightarrow> Inr (Some x) | Continue r2 \<Rightarrow> scan_loop k step r2)) \<noteq> Inl LoopStuck"
    proof
      assume "andThen (readTag r) (\<lambda>((n, w), r1). andThen (step n w r1) (\<lambda>res. case res of
        Found x \<Rightarrow> Inr (Some x) | Continue r2 \<Rightarrow> scan_loop k step r2)) = Inl LoopStuck"
      then obtain n w r1 r2 where t: "readTag r = Inr ((n, w), r1)" and s: "step n w r1 = Inr (Continue r2)"
        and stuck: "scan_loop k step r2 = Inl LoopStuck"
        using readTag_forward(1) [of r] assms(1)
        by (auto simp: andThen_def forward_scan_def split: sum.splits scan.splits)
      have "rd_bytes r2 = rd_bytes r" "rd_offset r < rd_offset r2"
        using readTag_forward(2) [OF t] assms(1) s unfolding forward_scan_def by fastforce+
      with Suc.prems have "length (rd_bytes r2) - rd_offset r2 \<le> k"
        by simp
      from Suc.IH [OF this] stuck show False ..
    qed
    with False show ?thesis by (simp add: scan_loop.simps [of "Suc k"])
  qed (simp add: scan_loop.simps)
qed

lemma scan_message_never_stuck: "forward_scan step \<Longrightarrow> scan_message step bs \<noteq> Inl LoopStuck"
  unfolding scan_message_def by (rule scan_loop_never_stuck) (simp_all add: new_ProtoReader_def)

lemma skip_scan:
  "andThen (skip_field w r) (\<lambda>r1. Inr (Continue r1)) \<noteq> Inl LoopStuck"
  "andThen (skip_field w r) (\<lambda>r1. Inr (Continue r1)) = Inr (Continue r') \<longrightarrow>
     rd_bytes r' = rd_bytes r \<and> rd_offset r \<le> rd_offset r'"
  using forward_skip [of w r r'] by (cases "skip_field w r"; simp)+

lemma contains_not_stuck: "payloadContainsFrameJson bs \<noteq> Inl LoopStuck"
proof -
  have "forward_scan frame_json_scan"
    unfolding forward_scan_def frame_json_scan_def by (simp add: skip_scan)
  from scan_message_never_stuck [OF this] show ?thesis
    by (simp add: payloadContainsFrameJson_def andThen_stuck_iff)
qed

section \<open>Envelopes\<close>

lemma forward_legacy: "forward legacy_step"
proof (rule forward_of_reads)
  fix n w and st :: "string option \<times> string option \<times> string option"
  show "forward_read (\<lambda>r. legacy_step n w (st, r))"
    by (cases st) (auto simp: legacy_step_def intro!: forward_read_if forward_read_bind forwardI)
qed

lemma legacy_not_stuck: "decodeLegacyJsonPayload bs \<noteq> Inl LoopStuck"
  using read_message_never_stuck [OF forward_legacy, of "(None, None, None)" bs]
  by (auto simp: decodeLegacyJsonPayload_def andThen_stuck_iff split: option.splits)

lemma forward_envelope: "forward envelope_step"
proof (rule forward_of_reads)
  fix n w and st :: decoded_envelope
  show "forward_read (\<lambda>r. envelope_step n w (st, r))"
    by (cases "envelope_string n")
       (auto simp: envelope_step_def forward_read_def [where f = "\<lambda>r. Inl _"]
          andThen_stuck_iff legacy_not_stuck andThen_eq_Inr
        intro!: forward_read_if forward_read_bind forwardI)
qed

lemma frame_json_not_stuck: "read_message frame_json_step st bs \<noteq> Inl LoopStuck"
  by (rule read_message_never_stuck, rule forward_of_reads)
     (auto simp: frame_json_step_def intro!: forward_read_if forward_read_bind forwardI)

lemma field_level_not_stuck: "decodeFieldLevelPayload lib n bs mid s \<noteq> Inl LoopStuck"
proof -
  have "\<forall>p \<in> set (case map_of payload_readers ty of None \<Rightarrow> [] | Some rows \<Rightarrow> rows). row_total lib (snd p)" for ty
    using payload_rows_total [of ty _ lib] by (cases "map_of payload_readers ty") auto
  from read_message_never_stuck [OF forward_rows [OF this]] show ?thesis
    by (auto simp: decodeFieldLevelPayload_def andThen_stuck_iff contains_not_stuck split: option.splits if_splits)
qed

lemma typed_not_stuck: "decodeTypedJsonPayload lib n bs mid s \<noteq> Inl LoopStuck"
  by (auto simp: decodeTypedJsonPayload_def andThen_stuck_iff field_level_not_stuck frame_json_not_stuck Let_def
    split: option.splits)

lemma envelope_not_stuck: "decodeBudEnvelope lib bs \<noteq> Inl LoopStuck"
  using read_message_never_stuck [OF forward_envelope, of nothing_decoded bs]
  by (auto simp: decodeBudEnvelope_def andThen_stuck_iff typed_not_stuck split: option.splits if_splits prod.splits)

lemma classifiers_forward: "forward_scan payload_case_step" "forward_scan payload_encoding_step"
proof -
  show "forward_scan payload_case_step"
    unfolding forward_scan_def payload_case_step_def by (auto simp: skip_scan split: option.split)
  have "readBytesForWireType w r \<noteq> Inl LoopStuck" "skip_field w r \<noteq> Inl LoopStuck" for w r
    using forward_readBytes [of w] forward_skip [of w r undefined] by (simp_all add: forward_read_def)
  note readers = this
  show "forward_scan payload_encoding_step"
    unfolding forward_scan_def
  proof (intro allI)
    fix n w r
    consider "n = LEGACY_JSON_PAYLOAD_FIELD" | "n \<noteq> LEGACY_JSON_PAYLOAD_FIELD" "map_of FRAME_TYPE_BY_TYPED_PAYLOAD_FIELD n \<noteq> None"
      | "n \<noteq> LEGACY_JSON_PAYLOAD_FIELD" "map_of FRAME_TYPE_BY_TYPED_PAYLOAD_FIELD n = None"
      by blast
    then show "payload_encoding_step n w r \<noteq> Inl LoopStuck \<and> (\<forall>r'. payload_encoding_step n w r = Inr (Continue r') \<longrightarrow>
        rd_bytes r' = rd_bytes r \<and> rd_offset r \<le> rd_offset r')"
    proof cases
      case 1
      then show ?thesis
        using readers(2) [of w r] by (cases "skip_field w r") (simp_all add: payload_encoding_step_def)
    next
      case 2
      then show ?thesis
        using readers(1) [of w r] contains_not_stuck
        by (cases "readBytesForWireType w r")
           (auto simp: payload_encoding_step_def andThen_def split: sum.splits prod.splits)
    next
      case 3
      then show ?thesis
        by (simp add: payload_encoding_step_def skip_scan)
    qed
  qed
qed

text \<open>C18: every decoder answers every input: the fuel of the loops, one iteration per byte of the input,
  is never used up, whatever bytes arrive.\<close>

theorem decoding_always_answers:
  "decodeBudFrame lib bs \<noteq> Inl LoopStuck \<and> decodeBudEnvelope lib bs \<noteq> Inl LoopStuck \<and>
   decodeBudEnvelopePayloadCase bs \<noteq> Inl LoopStuck \<and> decodeBudEnvelopePayloadEncoding bs \<noteq> Inl LoopStuck"
  using scan_message_never_stuck [OF classifiers_forward(1), of bs]
    scan_message_never_stuck [OF classifiers_forward(2), of bs]
  by (auto simp: decodeBudFrame_def decodeLegacyJsonFrame_def decodeBudEnvelopePayloadCase_def
    decodeBudEnvelopePayloadEncoding_def andThen_stuck_iff envelope_not_stuck parse_not_stuck split: option.splits)

end
