(* ===== verification/TerminalFreshness.thy ===== *)
theory TerminalFreshness
  imports Envelope SampleLib "HOL-Library.List_Lexorder" "HOL-Library.Char_ord" "HOL-Library.Product_Lexorder"
begin

text \<open>
  \<open>service/src/terminal/freshness.ts\<close>: what the model has seen of a terminal is recorded with each tool
  result, and compared with the terminal's current state to decide whether the model must look again.

  The two tables that are read are lists of rows.  Dates are milliseconds; \<open>Date\<close> and its texts are
  the parameter \<open>js_lib\<close>.  The hints of a readiness record are sorted as byte strings, which is the order
  of \<open>Array.prototype.sort\<close> on the names in use, all of them ASCII.
\<close>

section \<open>Data\<close>

datatype freshness_reason = New_output | Human_input | Status_changed | Cwd_changed | Unknown_watermark

datatype freshness_state = Fresh_clean | May_have_changed | Fresh_unknown

datatype visibility_source = Terminal_send | Terminal_observe

definition VISIBILITY_SCHEMA :: string where
  "VISIBILITY_SCHEMA = ''terminal_visibility_v1''"

record visibility_metadata =
  vm_session_id :: string
  vm_output_log_bytes :: "int option"
  vm_cwd :: "string option"
  vm_readiness_version :: "string option"
  vm_observed_at :: string
  vm_source :: visibility_source

record freshness_snapshot =
  fs_sessionId :: string
  fs_state :: freshness_state
  fs_reasons :: "freshness_reason list"
  fs_latestVisibility :: "visibility_metadata option"
  fs_outputLogBytes :: "int option"
  fs_cwd :: "string option"
  fs_readinessVersion :: "string option"
  fs_latestHumanInputAt :: "string option"

text \<open>The fields of a session that are read.\<close>

record terminal_session =
  se_sessionId :: string
  se_outputLogBytes :: "js_number option"
  se_cwd :: "string option"

section \<open>Readiness versions\<close>

definition clampConfidence :: "js_number \<Rightarrow> rat" where
  "clampConfidence value = (case value of Fin x \<Rightarrow> min 1 (max 0 x) | _ \<Rightarrow> 0)"

text \<open>\<open>toFixed(2)\<close> of a number between 0 and 1: the nearest multiple of a hundredth, the larger of two.\<close>

definition toFixed2 :: "rat \<Rightarrow> string" where
  "toFixed2 x = (let n = nat \<lfloor>100 * x + 1 / 2\<rfloor>
     in show_nat (n div 100) @ ''.'' @ [digit_char (n div 10 mod 10), digit_char (n mod 10)])"

definition active_hints :: "js_object \<Rightarrow> string list" where
  "active_hints rec = (case as_record (obj_get rec ''hints'') of
     None \<Rightarrow> [] | Some hints \<Rightarrow> sort (map fst (filter (\<lambda>p. snd p = JBool True) hints)))"

definition buildTerminalReadinessVersion :: "json \<Rightarrow> string option" where
  "buildTerminalReadinessVersion readiness =
     (case as_record readiness of
        None \<Rightarrow> None
      | Some rec \<Rightarrow>
          (let confidence = (case obj_get rec ''confidence'' of JNum n \<Rightarrow> n | _ \<Rightarrow> Fin 0);
               trigger = (case as_string (obj_get rec ''trigger'') of Some s \<Rightarrow> s | None \<Rightarrow> ''unknown'');
               promptType = (case as_string (obj_get rec ''prompt_type'') of Some s \<Rightarrow> s | None \<Rightarrow> ''unknown'')
           in Some (join_with ''|''
                [if obj_get rec ''ready'' = JBool True then ''ready'' else ''not_ready'',
                 toFixed2 (clampConfidence confidence), trigger, promptType,
                 join_with '','' (active_hints rec)])))"

section \<open>Watermarks\<close>

definition normalizeByteOffset :: "js_number option \<Rightarrow> int option" where
  "normalizeByteOffset value = (case value of Some (Fin x) \<Rightarrow> Some (max 0 \<lfloor>x\<rfloor>) | _ \<Rightarrow> None)"

definition buildTerminalVisibilityMetadata ::
    "js_lib \<Rightarrow> string \<Rightarrow> visibility_source \<Rightarrow> js_number option \<Rightarrow> string option \<Rightarrow> json \<Rightarrow> int \<Rightarrow>
      visibility_metadata result" where
  "buildTerminalVisibilityMetadata lib sessionId source outputLogBytes cwd readiness observedAt =
     andThen (toISO lib (num_of_int observedAt)) (\<lambda>at_text.
       Inr \<lparr>vm_session_id = sessionId, vm_output_log_bytes = normalizeByteOffset outputLogBytes, vm_cwd = cwd,
            vm_readiness_version = buildTerminalReadinessVersion readiness, vm_observed_at = at_text,
            vm_source = source\<rparr>)"

fun source_name :: "visibility_source \<Rightarrow> string" where
  "source_name Terminal_send = ''terminal_send''"
| "source_name Terminal_observe = ''terminal_observe''"

text \<open>A watermark as it is stored in the metadata of a message.\<close>

definition json_of_visibility :: "visibility_metadata \<Rightarrow> json" where
  "json_of_visibility v =
     JObj [(''schema'', JStr VISIBILITY_SCHEMA), (''session_id'', JStr (vm_session_id v)),
           (''observed_output_log_bytes'', case vm_output_log_bytes v of None \<Rightarrow> JNull | Some n \<Rightarrow> JInt n),
           (''observed_cwd'', json_of_opt (vm_cwd v)),
           (''observed_readiness_version'', json_of_opt (vm_readiness_version v)),
           (''observed_at'', JStr (vm_observed_at v)), (''source'', JStr (source_name (vm_source v)))]"

text \<open>\<open>parseDate\<close>: the time value of a text, none when it is not a number.\<close>

definition parseDate :: "js_lib \<Rightarrow> string \<Rightarrow> js_number option" where
  "parseDate lib value = (let date = lib_dateParse lib value in if date = NaN then None else Some date)"

definition parse_source :: "json \<Rightarrow> visibility_source option" where
  "parse_source v = (if v = JStr ''terminal_send'' then Some Terminal_send
     else if v = JStr ''terminal_observe'' then Some Terminal_observe else None)"

definition parseTerminalVisibilityMetadata :: "js_lib \<Rightarrow> json \<Rightarrow> visibility_metadata option" where
  "parseTerminalVisibilityMetadata lib metadata =
     (case Option.bind (as_record metadata) (\<lambda>c. as_record (obj_get c ''terminal_visibility'')) of
        None \<Rightarrow> None
      | Some vis \<Rightarrow>
          if obj_get vis ''schema'' \<noteq> JStr VISIBILITY_SCHEMA then None
          else case (as_string (obj_get vis ''session_id''), parse_source (obj_get vis ''source''),
                     as_string (obj_get vis ''observed_at'')) of
                 (Some sessionId, Some source, Some observedAt) \<Rightarrow>
                   if sessionId = [] \<or> parseDate lib observedAt = None then None
                   else Some \<lparr>vm_session_id = sessionId,
                     vm_output_log_bytes =
                       (case obj_get vis ''observed_output_log_bytes'' of
                          JNum n \<Rightarrow> normalizeByteOffset (Some n) | _ \<Rightarrow> None),
                     vm_cwd = as_string (obj_get vis ''observed_cwd''),
                     vm_readiness_version = as_string (obj_get vis ''observed_readiness_version''),
                     vm_observed_at = observedAt, vm_source = source\<rparr>
               | _ \<Rightarrow> None)"

section \<open>Freshness\<close>

text \<open>\<open>[...new Set(reasons)]\<close>: the first occurrence of each.\<close>

definition dedupeReasons :: "freshness_reason list \<Rightarrow> freshness_reason list" where
  "dedupeReasons reasons = rev (remdups (rev reasons))"

definition snapshotFor ::
    "js_lib \<Rightarrow> string \<Rightarrow> freshness_state \<Rightarrow> freshness_reason list \<Rightarrow> visibility_metadata option \<Rightarrow>
      int option \<Rightarrow> string option \<Rightarrow> string option \<Rightarrow> int option \<Rightarrow> freshness_snapshot result" where
  "snapshotFor lib sessionId state reasons latestVisibility outputLogBytes cwd readinessVersion humanAt =
     andThen (case humanAt of None \<Rightarrow> Inr None
              | Some t \<Rightarrow> andThen (toISO lib (num_of_int t)) (\<lambda>s. Inr (Some s))) (\<lambda>humanText.
       Inr \<lparr>fs_sessionId = sessionId, fs_state = state, fs_reasons = dedupeReasons reasons,
            fs_latestVisibility = latestVisibility, fs_outputLogBytes = outputLogBytes, fs_cwd = cwd,
            fs_readinessVersion = readinessVersion, fs_latestHumanInputAt = humanText\<rparr>)"

text \<open>The reasons when nothing was ever seen, and when something was.  A string is tested for truthiness.\<close>

definition unseen_reasons :: "int option \<Rightarrow> string option \<Rightarrow> string option \<Rightarrow> int option \<Rightarrow> freshness_reason list" where
  "unseen_reasons out cwd version humanAt =
     (let rs = (case out of Some n \<Rightarrow> if n > 0 then [New_output] else [] | None \<Rightarrow> [])
             @ (if cwd \<noteq> None \<and> cwd \<noteq> Some [] then [Cwd_changed] else [])
             @ (if version \<noteq> None \<and> version \<noteq> Some [] then [Status_changed] else [])
             @ (if humanAt \<noteq> None then [Human_input] else [])
      in if rs \<noteq> [] then rs @ [Unknown_watermark] else rs)"

definition human_after :: "js_lib \<Rightarrow> int option \<Rightarrow> string \<Rightarrow> bool" where
  "human_after lib humanAt observedAt =
     (case humanAt of None \<Rightarrow> False
      | Some t \<Rightarrow> (case parseDate lib observedAt of None \<Rightarrow> True | Some d \<Rightarrow> js_less d (num_of_int t)))"

definition seen_reasons ::
    "js_lib \<Rightarrow> visibility_metadata \<Rightarrow> int option \<Rightarrow> string option \<Rightarrow> string option \<Rightarrow> int option \<Rightarrow> freshness_reason list" where
  "seen_reasons lib v out cwd version humanAt =
     (case vm_output_log_bytes v of
        None \<Rightarrow> [Unknown_watermark]
      | Some seen \<Rightarrow> (case out of Some n \<Rightarrow> if n > seen then [New_output] else [] | None \<Rightarrow> []))
     @ (if cwd \<noteq> vm_cwd v then [Cwd_changed] else [])
     @ (if version \<noteq> vm_readiness_version v then [Status_changed] else [])
     @ (if human_after lib humanAt (vm_observed_at v) then [Human_input] else [])"

definition buildTerminalFreshnessSnapshot ::
    "js_lib \<Rightarrow> terminal_session \<Rightarrow> json \<Rightarrow> visibility_metadata option \<Rightarrow> int option \<Rightarrow> freshness_snapshot result" where
  "buildTerminalFreshnessSnapshot lib session readiness latestVisibility humanAt =
     (let out = normalizeByteOffset (se_outputLogBytes session); cwd = se_cwd session;
          version = buildTerminalReadinessVersion readiness
      in case latestVisibility of
           None \<Rightarrow>
             (let reasons = unseen_reasons out cwd version humanAt
              in snapshotFor lib (se_sessionId session) (if reasons \<noteq> [] then Fresh_unknown else Fresh_clean)
                   reasons latestVisibility out cwd version humanAt)
         | Some v \<Rightarrow>
             (let reasons = seen_reasons lib v out cwd version humanAt
              in snapshotFor lib (se_sessionId session) (if reasons \<noteq> [] then May_have_changed else Fresh_clean)
                   (dedupeReasons reasons) latestVisibility out cwd version humanAt))"

section \<open>Queries\<close>

text \<open>The columns of the two tables that are read.\<close>

record message_row =
  mr_messageId :: string
  mr_threadId :: string
  mr_role :: string
  mr_metadata :: json
  mr_createdAt :: int

record input_log_row =
  il_sessionId :: string
  il_source :: string
  il_createdAt :: int

text \<open>\<open>ORDER BY created_at DESC, message_id DESC LIMIT 100\<close>.\<close>

definition recent_tool_rows :: "message_row list \<Rightarrow> string \<Rightarrow> message_row list" where
  "recent_tool_rows messages threadId =
     take 100 (rev (sort_key (\<lambda>r. (mr_createdAt r, mr_messageId r))
       (filter (\<lambda>r. mr_threadId r = threadId \<and> mr_role r = ''tool'') messages)))"

fun first_visibility :: "js_lib \<Rightarrow> string \<Rightarrow> message_row list \<Rightarrow> visibility_metadata option" where
  "first_visibility lib sessionId [] = None"
| "first_visibility lib sessionId (row # rows) =
     (case parseTerminalVisibilityMetadata lib (mr_metadata row) of
        Some v \<Rightarrow> if vm_session_id v = sessionId then Some v else first_visibility lib sessionId rows
      | None \<Rightarrow> first_visibility lib sessionId rows)"

definition loadLatestTerminalVisibility ::
    "js_lib \<Rightarrow> message_row list \<Rightarrow> string \<Rightarrow> string \<Rightarrow> visibility_metadata option" where
  "loadLatestTerminalVisibility lib messages threadId sessionId =
     first_visibility lib sessionId (recent_tool_rows messages threadId)"

definition loadLatestHumanInputAt :: "input_log_row list \<Rightarrow> string \<Rightarrow> int option" where
  "loadLatestHumanInputAt inputs sessionId =
     (case rev (sort_key il_createdAt (filter (\<lambda>r. il_sessionId r = sessionId \<and> il_source r = ''user'') inputs)) of
        [] \<Rightarrow> None | r # _ \<Rightarrow> Some (il_createdAt r))"

definition resolveTerminalFreshness ::
    "js_lib \<Rightarrow> message_row list \<Rightarrow> input_log_row list \<Rightarrow> string \<Rightarrow> terminal_session option \<Rightarrow> json \<Rightarrow>
      freshness_snapshot option result" where
  "resolveTerminalFreshness lib messages inputs threadId session readiness =
     (case session of
        None \<Rightarrow> Inr None
      | Some s \<Rightarrow>
          andThen (buildTerminalFreshnessSnapshot lib s readiness
                     (loadLatestTerminalVisibility lib messages threadId (se_sessionId s))
                     (loadLatestHumanInputAt inputs (se_sessionId s)))
            (\<lambda>snapshot. Inr (Some snapshot)))"

datatype freshness_hint = TERMINAL_FRESHNESS_HINT | TERMINAL_HUMAN_INPUT_FRESHNESS_HINT

definition buildTerminalFreshnessInstruction :: "freshness_snapshot option \<Rightarrow> freshness_hint option" where
  "buildTerminalFreshnessInstruction snapshot =
     (case snapshot of
        None \<Rightarrow> None
      | Some s \<Rightarrow>
          if fs_state s = Fresh_clean \<or> fs_reasons s = [] then None
          else if Human_input \<in> set (fs_reasons s) then Some TERMINAL_HUMAN_INPUT_FRESHNESS_HINT
          else Some TERMINAL_FRESHNESS_HINT)"

section \<open>Lemmas\<close>

lemma dedupe_set [simp]: "set (dedupeReasons rs) = set rs" "dedupeReasons rs = [] \<longleftrightarrow> rs = []"
  "distinct (dedupeReasons rs)"
  by (simp_all add: dedupeReasons_def)

text \<open>The two searches.\<close>

lemma first_visibility_skip:
  "\<forall>r \<in> set newer. \<forall>w. parseTerminalVisibilityMetadata lib (mr_metadata r) = Some w \<longrightarrow> vm_session_id w \<noteq> sid \<Longrightarrow>
   first_visibility lib sid (newer @ rows) = first_visibility lib sid rows"
  by (induction newer) (auto split: option.splits)

lemma first_visibility_None:
  "first_visibility lib sid rows = None \<longleftrightarrow>
     (\<forall>r \<in> set rows. \<forall>w. parseTerminalVisibilityMetadata lib (mr_metadata r) = Some w \<longrightarrow> vm_session_id w \<noteq> sid)"
  by (induction rows) (auto split: option.splits)

definition user_inputs :: "input_log_row list \<Rightarrow> string \<Rightarrow> int set" where
  "user_inputs inputs sid = {il_createdAt r | r. r \<in> set inputs \<and> il_sessionId r = sid \<and> il_source r = ''user''}"

lemma latest_of_sorted:
  assumes "rev (sort_key f rows) = r # rest"
  shows "r \<in> set rows \<and> (\<forall>x \<in> set rows. f x \<le> f r)"
proof -
  from assms have snoc: "sort_key f rows = rev rest @ [r]"
    by (metis rev_rev_ident rev.simps(2))
  then have "sorted (map f (rev rest @ [r]))"
    by (metis sorted_sort_key)
  moreover have "set rows = set (rev rest @ [r])"
    by (metis snoc set_sort)
  ultimately show ?thesis
    by (auto simp: sorted_append)
qed

lemma sort_key_Nil_iff: "rev (sort_key f rows) = [] \<longleftrightarrow> rows = []"
  using length_sort [of f rows] by (metis length_0_conv length_rev)

lemma latest_human_input:
  "loadLatestHumanInputAt inputs sid = None \<longleftrightarrow> user_inputs inputs sid = {}"
  "loadLatestHumanInputAt inputs sid = Some t \<Longrightarrow> t \<in> user_inputs inputs sid \<and> (\<forall>u \<in> user_inputs inputs sid. u \<le> t)"
proof -
  define rows where "rows = filter (\<lambda>r. il_sessionId r = sid \<and> il_source r = ''user'') inputs"
  have users: "user_inputs inputs sid = il_createdAt ` set rows"
    by (auto simp: user_inputs_def rows_def)
  have load: "loadLatestHumanInputAt inputs sid =
      (case rev (sort_key il_createdAt rows) of [] \<Rightarrow> None | r # _ \<Rightarrow> Some (il_createdAt r))"
    by (simp add: loadLatestHumanInputAt_def rows_def)
  show "loadLatestHumanInputAt inputs sid = None \<longleftrightarrow> user_inputs inputs sid = {}"
    using sort_key_Nil_iff [of il_createdAt rows] unfolding load users by (cases "rev (sort_key il_createdAt rows)") auto
  show "t \<in> user_inputs inputs sid \<and> (\<forall>u \<in> user_inputs inputs sid. u \<le> t)"
    if "loadLatestHumanInputAt inputs sid = Some t"
    using that latest_of_sorted [of il_createdAt rows] unfolding load users
    by (cases "rev (sort_key il_createdAt rows)") auto
qed

text \<open>Watermarks survive their storage.\<close>

lemma parse_stored:
  assumes "obj_get md ''terminal_visibility'' = json_of_visibility v" and "vm_session_id v \<noteq> []"
    and "parseDate lib (vm_observed_at v) \<noteq> None" and "\<And>n. vm_output_log_bytes v = Some n \<Longrightarrow> 0 \<le> n"
  shows "parseTerminalVisibilityMetadata lib (JObj md) = Some v"
proof -
  have opt: "as_string (json_of_opt x) = x" for x
    by (cases x) (simp_all add: json_of_opt_def)
  have src: "parse_source (JStr (source_name src)) = Some src" for src
    by (cases src) (simp_all add: parse_source_def)
  have bytes: "(case (case vm_output_log_bytes v of None \<Rightarrow> JNull | Some n \<Rightarrow> JInt n) of
      JNum n \<Rightarrow> normalizeByteOffset (Some n) | _ \<Rightarrow> None) = vm_output_log_bytes v"
    using assms(4) by (auto simp: normalizeByteOffset_def split: option.split)
  show ?thesis
    using assms(2,3) unfolding parseTerminalVisibilityMetadata_def assms(1) json_of_visibility_def
    by (simp add: js_simps opt src bytes assms(1) [unfolded json_of_visibility_def] cong: if_cong option.case_cong)
qed

lemma visibility_roundtrip:
  assumes "date_text_ok lib" and "\<bar>t\<bar> \<le> 8640000000000000" and "sid \<noteq> []"
    and "obj_get md ''terminal_visibility'' = json_of_visibility v"
    and "buildTerminalVisibilityMetadata lib sid src out cwd rdy t = Inr v"
  shows "parseTerminalVisibilityMetadata lib (JObj md) = Some v" "parseDate lib (vm_observed_at v) = Some (num_of_int t)"
    "v = \<lparr>vm_session_id = sid, vm_output_log_bytes = normalizeByteOffset out, vm_cwd = cwd,
      vm_readiness_version = buildTerminalReadinessVersion rdy, vm_observed_at = vm_observed_at v, vm_source = src\<rparr>"
proof -
  obtain s where s: "lib_toISOString lib (num_of_int t) = Some s" "lib_dateParse lib s = num_of_int t"
    using assms(1,2) by (auto simp: date_text_ok_def)
  with assms(5) show v: "v = \<lparr>vm_session_id = sid, vm_output_log_bytes = normalizeByteOffset out, vm_cwd = cwd,
      vm_readiness_version = buildTerminalReadinessVersion rdy, vm_observed_at = vm_observed_at v, vm_source = src\<rparr>"
    and date: "parseDate lib (vm_observed_at v) = Some (num_of_int t)"
    by (auto simp: buildTerminalVisibilityMetadata_def toISO_def parseDate_def Let_def)
  have "vm_session_id v = sid" "vm_output_log_bytes v = normalizeByteOffset out"
    using arg_cong [OF v, of vm_session_id] arg_cong [OF v, of vm_output_log_bytes] by simp_all
  then show "parseTerminalVisibilityMetadata lib (JObj md) = Some v"
    using assms(3,4) date by (intro parse_stored)
      (auto simp: normalizeByteOffset_def split: option.splits js_number.splits)
qed

lemma human_after_iff:
  assumes "parseDate lib at_text = Some (num_of_int t)"
  shows "human_after lib (loadLatestHumanInputAt inputs sid) at_text \<longleftrightarrow> (\<exists>u \<in> user_inputs inputs sid. t < u)"
proof (cases "loadLatestHumanInputAt inputs sid")
  case None
  then show ?thesis
    using latest_human_input(1) [of inputs sid] by (simp add: human_after_def)
next
  case (Some u)
  then show ?thesis
    using latest_human_input(2) [OF Some] assms by (auto simp: human_after_def)
qed

text \<open>The dates of the input log are dates.\<close>

definition inputs_dated :: "input_log_row list \<Rightarrow> bool" where
  "inputs_dated inputs \<longleftrightarrow> (\<forall>r \<in> set inputs. \<bar>il_createdAt r\<bar> \<le> 8640000000000000)"

lemma snapshot_answers:
  assumes "date_text_ok lib" and "inputs_dated inputs"
  obtains snap where "snapshotFor lib sid state reasons vis out cwd version (loadLatestHumanInputAt inputs sess) = Inr snap"
    "fs_state snap = state" "set (fs_reasons snap) = set reasons"
proof (cases "loadLatestHumanInputAt inputs sess")
  case None
  then show ?thesis
    using that by (simp add: snapshotFor_def)
next
  case (Some u)
  then have "\<bar>u\<bar> \<le> 8640000000000000"
    using latest_human_input(2) [OF Some] assms(2) by (auto simp: user_inputs_def inputs_dated_def)
  with assms(1) obtain s where "lib_toISOString lib (num_of_int u) = Some s"
    by (auto simp: date_text_ok_def)
  then show ?thesis
    using that Some by (simp add: snapshotFor_def toISO_def)
qed

lemma instruction_iff:
  "set (fs_reasons snap) = set reasons \<Longrightarrow> fs_state snap = (if reasons \<noteq> [] then st else Fresh_clean) \<Longrightarrow> st \<noteq> Fresh_clean \<Longrightarrow>
   buildTerminalFreshnessInstruction (Some snap) = None \<longleftrightarrow> fs_state snap = Fresh_clean"
  by (cases "reasons = []") (auto simp: buildTerminalFreshnessInstruction_def)

section \<open>Properties\<close>

text \<open>C25: from observation to decision: when the latest watermark of a session among the recent tool results
  was taken at some time, the terminal counts as clean, and the model gets no instruction to look again,
  exactly when the log has not grown, the directory and the readiness are the same and the user has typed
  nothing since.\<close>

theorem observation_decides_freshness:
  assumes "date_text_ok lib" and "inputs_dated inputs" and "\<bar>t\<bar> \<le> 8640000000000000" and "se_sessionId session \<noteq> []"
    and "buildTerminalVisibilityMetadata lib (se_sessionId session) src out cwd readiness t = Inr v"
    and "recent_tool_rows messages threadId = newer @ row # older"
    and "mr_metadata row = JObj md" and "obj_get md ''terminal_visibility'' = json_of_visibility v"
    and "first_visibility lib (se_sessionId session) newer = None"
  shows "\<exists>snap. resolveTerminalFreshness lib messages inputs threadId (Some session) readiness' = Inr (Some snap) \<and>
    (fs_state snap = Fresh_clean \<longleftrightarrow>
       (\<exists>seen. normalizeByteOffset out = Some seen \<and>
          (\<forall>n. normalizeByteOffset (se_outputLogBytes session) = Some n \<longrightarrow> n \<le> seen)) \<and>
       se_cwd session = cwd \<and> buildTerminalReadinessVersion readiness' = buildTerminalReadinessVersion readiness \<and>
       (\<forall>u \<in> user_inputs inputs (se_sessionId session). u \<le> t)) \<and>
    (buildTerminalFreshnessInstruction (Some snap) = None \<longleftrightarrow> fs_state snap = Fresh_clean)"
proof -
  note vis = visibility_roundtrip [OF assms(1,3,4,8,5)]
  let ?human = "loadLatestHumanInputAt inputs (se_sessionId session)"
  let ?out = "normalizeByteOffset (se_outputLogBytes session)" and ?version = "buildTerminalReadinessVersion readiness'"
  let ?reasons = "seen_reasons lib v ?out (se_cwd session) ?version ?human"
  have fields: "vm_session_id v = se_sessionId session" "vm_output_log_bytes v = normalizeByteOffset out" "vm_cwd v = cwd"
    "vm_readiness_version v = buildTerminalReadinessVersion readiness"
    using arg_cong [OF vis(3), of vm_session_id] arg_cong [OF vis(3), of vm_output_log_bytes]
      arg_cong [OF vis(3), of vm_cwd] arg_cong [OF vis(3), of vm_readiness_version] by simp_all
  have load: "loadLatestTerminalVisibility lib messages threadId (se_sessionId session) = Some v"
    using assms(6,7,9) vis(1) fields(1)
    by (simp add: loadLatestTerminalVisibility_def first_visibility_skip first_visibility_None)
  obtain snap where snap: "snapshotFor lib (se_sessionId session) (if dedupeReasons ?reasons \<noteq> [] then May_have_changed else Fresh_clean)
      (dedupeReasons ?reasons) (Some v) ?out (se_cwd session) ?version ?human = Inr snap"
    and state: "fs_state snap = (if dedupeReasons ?reasons \<noteq> [] then May_have_changed else Fresh_clean)"
    and rs: "set (fs_reasons snap) = set (dedupeReasons ?reasons)"
    using assms(1,2) by (rule snapshot_answers)
  have "resolveTerminalFreshness lib messages inputs threadId (Some session) readiness' = Inr (Some snap)"
    using snap by (simp add: resolveTerminalFreshness_def buildTerminalFreshnessSnapshot_def load Let_def)
  moreover have "?reasons = [] \<longleftrightarrow> (\<exists>seen. normalizeByteOffset out = Some seen \<and> (\<forall>n. ?out = Some n \<longrightarrow> n \<le> seen)) \<and>
      se_cwd session = cwd \<and> ?version = buildTerminalReadinessVersion readiness \<and>
      (\<forall>u \<in> user_inputs inputs (se_sessionId session). u \<le> t)"
    using human_after_iff [OF vis(2), of inputs "se_sessionId session"]
    by (auto simp: seen_reasons_def fields not_le split: option.splits)
  ultimately show ?thesis
    using state instruction_iff [OF rs state] by auto
qed

definition demo_session :: terminal_session where
  "demo_session = \<lparr>se_sessionId = ''s'', se_outputLogBytes = Some (Fin 5), se_cwd = Some ''/''\<rparr>"

definition demo_visibility :: visibility_metadata where
  "demo_visibility = \<lparr>vm_session_id = ''s'', vm_output_log_bytes = Some 5, vm_cwd = Some ''/'', vm_readiness_version = None,
     vm_observed_at = unary 6, vm_source = Terminal_observe\<rparr>"

definition demo_row :: message_row where
  "demo_row = \<lparr>mr_messageId = ''m'', mr_threadId = ''th'', mr_role = ''tool'',
     mr_metadata = JObj [(''terminal_visibility'', json_of_visibility demo_visibility)], mr_createdAt = 4\<rparr>"

definition demo_inputs :: "input_log_row list" where
  "demo_inputs = [\<lparr>il_sessionId = ''s'', il_source = ''user'', il_createdAt = 2\<rparr>]"

lemma demo_inputs_ok: "inputs_dated demo_inputs" "user_inputs demo_inputs ''s'' = {2}"
  by (auto simp: inputs_dated_def demo_inputs_def user_inputs_def)

theorem observation_decides_freshness_witness:
  "\<exists>snap. resolveTerminalFreshness (sample_lib JNull) [demo_row] demo_inputs ''th'' (Some demo_session) JNull = Inr (Some snap) \<and>
     fs_state snap = Fresh_clean"
proof -
  have "buildTerminalVisibilityMetadata (sample_lib JNull) (se_sessionId demo_session) Terminal_observe (Some (Fin 5)) (Some ''/'') JNull 3 =
      Inr demo_visibility"
    by (simp add: buildTerminalVisibilityMetadata_def demo_visibility_def toISO_def sample_lib_def code_of_int_def
      normalizeByteOffset_def buildTerminalReadinessVersion_def demo_session_def)
  moreover have "recent_tool_rows [demo_row] ''th'' = [] @ demo_row # []"
    by (simp add: recent_tool_rows_def demo_row_def)
  moreover have "mr_metadata demo_row = JObj [(''terminal_visibility'', json_of_visibility demo_visibility)]"
    by (simp add: demo_row_def)
  ultimately show ?thesis
    using observation_decides_freshness [OF sample_date_ok demo_inputs_ok(1), of 3 demo_session JNull Terminal_observe
      "Some (Fin 5)" "Some ''/''" JNull demo_visibility "[demo_row]" "''th''" "[]" demo_row "[]" _ JNull]
    by (simp add: demo_session_def js_simps demo_inputs_ok normalizeByteOffset_def) blast
qed

text \<open>A terminal the model has not seen among the recent tool results is never taken for clean when
  anything is known to have happened in it.\<close>

theorem unseen_terminal_never_clean:
  assumes "date_text_ok lib" and "inputs_dated inputs"
    and "first_visibility lib (se_sessionId session) (recent_tool_rows messages threadId) = None"
    and "(\<exists>n > 0. normalizeByteOffset (se_outputLogBytes session) = Some n) \<or> (\<exists>c. se_cwd session = Some c \<and> c \<noteq> []) \<or>
      buildTerminalReadinessVersion readiness \<noteq> None \<or> user_inputs inputs (se_sessionId session) \<noteq> {}"
  shows "\<exists>snap hint. resolveTerminalFreshness lib messages inputs threadId (Some session) readiness = Inr (Some snap) \<and>
    fs_state snap = Fresh_unknown \<and> Unknown_watermark \<in> set (fs_reasons snap) \<and>
    buildTerminalFreshnessInstruction (Some snap) = Some hint"
proof -
  let ?human = "loadLatestHumanInputAt inputs (se_sessionId session)"
  let ?out = "normalizeByteOffset (se_outputLogBytes session)" and ?version = "buildTerminalReadinessVersion readiness"
  let ?reasons = "unseen_reasons ?out (se_cwd session) ?version ?human"
  have "?version \<noteq> Some []"
    by (auto simp: buildTerminalReadinessVersion_def Let_def split: option.splits)
  then have some: "?reasons \<noteq> []" "Unknown_watermark \<in> set ?reasons"
    using assms(4) latest_human_input(1) [of inputs "se_sessionId session"]
    by (auto simp: unseen_reasons_def Let_def split: option.splits)
  obtain snap where snap: "snapshotFor lib (se_sessionId session) (if ?reasons \<noteq> [] then Fresh_unknown else Fresh_clean)
      ?reasons None ?out (se_cwd session) ?version ?human = Inr snap"
    and state: "fs_state snap = (if ?reasons \<noteq> [] then Fresh_unknown else Fresh_clean)"
    and rs: "set (fs_reasons snap) = set ?reasons"
    using assms(1,2) by (rule snapshot_answers)
  have "resolveTerminalFreshness lib messages inputs threadId (Some session) readiness = Inr (Some snap)"
    using snap assms(3)
    by (simp add: resolveTerminalFreshness_def buildTerminalFreshnessSnapshot_def loadLatestTerminalVisibility_def Let_def)
  then show ?thesis
    using state rs some by (auto simp: buildTerminalFreshnessInstruction_def)
qed

theorem unseen_terminal_never_clean_witness:
  "\<exists>snap. resolveTerminalFreshness (sample_lib JNull) [] demo_inputs ''th'' (Some demo_session) JNull = Inr (Some snap) \<and>
     fs_state snap = Fresh_unknown"
  using unseen_terminal_never_clean [OF sample_date_ok [of JNull] demo_inputs_ok(1), where session = demo_session
    and messages = "[]" and threadId = "''th''" and readiness = JNull]
  by (auto simp: recent_tool_rows_def demo_session_def)

end
