(* ===== verification/Questions.thy ===== *)
theory Questions
  imports WireFrames
begin

text \<open>
  \<open>service/src/agent/user-question-contracts.ts\<close>: the questions an agent asks the user, from the model's
  tool call to the normalised request, the user's answers and the tool result.

  Objects with optional properties are records with options, and \<open>removeUndefinedFields\<close> is how they are
  written as JSON.  Two things are parameters: the message of the first issue that the schema library
  reports (\<open>issue\<close>, given the schema and the input), and its test for UUIDs.
\<close>

section \<open>Texts\<close>

text \<open>The white space of \<open>String.prototype.trim\<close>, as UTF-8.\<close>

definition js_whitespace :: "string list" where
  "js_whitespace =
     [[CHR 0x09], [CHR 0x0A], [CHR 0x0B], [CHR 0x0C], [CHR 0x0D], [CHR 0x20],
      [CHR 0xC2, CHR 0xA0], [CHR 0xE1, CHR 0x9A, CHR 0x80],
      [CHR 0xE2, CHR 0x80, CHR 0x80], [CHR 0xE2, CHR 0x80, CHR 0x81], [CHR 0xE2, CHR 0x80, CHR 0x82],
      [CHR 0xE2, CHR 0x80, CHR 0x83], [CHR 0xE2, CHR 0x80, CHR 0x84], [CHR 0xE2, CHR 0x80, CHR 0x85],
      [CHR 0xE2, CHR 0x80, CHR 0x86], [CHR 0xE2, CHR 0x80, CHR 0x87], [CHR 0xE2, CHR 0x80, CHR 0x88],
      [CHR 0xE2, CHR 0x80, CHR 0x89], [CHR 0xE2, CHR 0x80, CHR 0x8A], [CHR 0xE2, CHR 0x80, CHR 0xA8],
      [CHR 0xE2, CHR 0x80, CHR 0xA9], [CHR 0xE2, CHR 0x80, CHR 0xAF], [CHR 0xE2, CHR 0x81, CHR 0x9F],
      [CHR 0xE3, CHR 0x80, CHR 0x80], [CHR 0xEF, CHR 0xBB, CHR 0xBF]]"

function strip_start :: "string list \<Rightarrow> string \<Rightarrow> string" where
  "strip_start ws s =
     (case List.find (\<lambda>w. w \<noteq> [] \<and> starts_with w s) ws of
        None \<Rightarrow> s | Some w \<Rightarrow> strip_start ws (drop (length w) s))"
  by pat_completeness auto

lemma starts_with_drop: "w \<noteq> [] \<Longrightarrow> starts_with w s \<Longrightarrow> length s - length w < length s"
  by (cases s) (auto simp: starts_with_def)

termination strip_start
  by (relation "measure (\<lambda>(ws, s). length s)") (auto simp: find_Some_iff starts_with_drop)

declare strip_start.simps [simp del]

definition js_trim :: "string \<Rightarrow> string" where
  "js_trim s = rev (strip_start (map rev js_whitespace) (rev (strip_start js_whitespace s)))"

text \<open>The length of a string in UTF-16 units, from its UTF-8 bytes.\<close>

definition js_length :: "string \<Rightarrow> nat" where
  "js_length s = sum_list (map (\<lambda>c. let b = of_char c :: nat in
     if b < 128 then 1 else if b < 192 then 0 else if b < 240 then 1 else 2) s)"

definition id_char :: "char \<Rightarrow> bool" where
  "id_char c \<longleftrightarrow> (let b = of_char c :: nat in
     48 \<le> b \<and> b \<le> 57 \<or> 65 \<le> b \<and> b \<le> 90 \<or> 97 \<le> b \<and> b \<le> 122 \<or> b = 95 \<or> b = 45)"

text \<open>\<open>replace(/[^a-zA-Z0-9_-]+/g, "_")\<close> and \<open>replace(/^_+|_+$/g, "")\<close>.\<close>

fun squash :: "bool \<Rightarrow> string \<Rightarrow> string" where
  "squash inRun [] = []"
| "squash inRun (c # s) =
     (if id_char c then c # squash False s else if inRun then squash True s else CHR ''_'' # squash True s)"

definition strip_underscores :: "string \<Rightarrow> string" where
  "strip_underscores s = rev (dropWhile ((=) CHR ''_'') (rev (dropWhile ((=) CHR ''_'') s)))"

definition normalizeId :: "string \<Rightarrow> string" where
  "normalizeId value =
     (let s = strip_underscores (squash False (js_trim value)) in if s \<noteq> [] then s else ''question'')"

section \<open>Data\<close>

datatype question_kind = Q_boolean | Q_single_choice | Q_multi_choice | Q_text | Q_number

datatype question_importance = Imp_required | Imp_important | Imp_optional

datatype skip_reason = User_skipped | Not_applicable | Skip_unknown

datatype question_answer =
    A_boolean bool
  | A_single_choice string
  | A_multi_choice "string list"
  | A_text string
  | A_number js_number

record question_choice =
  qc_choice_id :: string
  qc_label :: string
  qc_description :: "string option"

record user_question =
  uq_question_id :: string
  uq_kind :: question_kind
  uq_label :: string
  uq_help_text :: "string option"
  uq_importance :: question_importance
  uq_choices :: "question_choice list option"
  uq_multiline :: bool
  uq_placeholder :: "string option"
  uq_min_length :: "int option"
  uq_max_length :: "int option"
  uq_min :: "js_number option"
  uq_max :: "js_number option"
  uq_step :: "js_number option"
  uq_unit :: "string option"
  uq_default_answer :: "question_answer option"

record questions_request =
  qr_request_id :: "string option"
  qr_title :: "string option"
  qr_body :: "string option"
  qr_submit_label :: "string option"
  qr_skip_all_label :: "string option"
  qr_questions :: "user_question list"

text \<open>An answer that is skipped carries the reason, one that is answered carries the answer.\<close>

datatype answer_status = Answered | Skipped

record response_answer =
  ra_question_id :: string
  ra_status :: answer_status
  ra_answer :: "question_answer option"
  ra_skip_reason :: "skip_reason option"

record questions_response =
  qs_client_response_id :: string
  qs_answers :: "response_answer list"

record question_view =
  qv_question_id :: string
  qv_kind :: question_kind
  qv_label :: string
  qv_help_text :: "string option"
  qv_choices :: "question_choice list option"

record result_response =
  rr_question_id :: string
  rr_question :: question_view
  rr_status :: answer_status
  rr_answer :: "question_answer option"
  rr_display_answer :: "string option"
  rr_skip_reason :: "skip_reason option"

record questions_result =
  qx_request_id :: string
  qx_title :: "string option"
  qx_body :: "string option"
  qx_responses :: "result_response list"
  qx_summary_markdown :: string

datatype contract_error = AskUserQuestionsContractError string string

type_synonym 'a contract = "contract_error + 'a"

fun kind_name :: "question_kind \<Rightarrow> string" where
  "kind_name Q_boolean = ''boolean''"
| "kind_name Q_single_choice = ''single_choice''"
| "kind_name Q_multi_choice = ''multi_choice''"
| "kind_name Q_text = ''text''"
| "kind_name Q_number = ''number''"

fun answer_kind :: "question_answer \<Rightarrow> question_kind" where
  "answer_kind (A_boolean _) = Q_boolean"
| "answer_kind (A_single_choice _) = Q_single_choice"
| "answer_kind (A_multi_choice _) = Q_multi_choice"
| "answer_kind (A_text _) = Q_text"
| "answer_kind (A_number _) = Q_number"

fun importance_name :: "question_importance \<Rightarrow> string" where
  "importance_name Imp_required = ''required''"
| "importance_name Imp_important = ''important''"
| "importance_name Imp_optional = ''optional''"

fun skip_reason_name :: "skip_reason \<Rightarrow> string" where
  "skip_reason_name User_skipped = ''user_skipped''"
| "skip_reason_name Not_applicable = ''not_applicable''"
| "skip_reason_name Skip_unknown = ''unknown''"

definition DEFAULT_TEXT_MAX_LENGTH :: int where
  "DEFAULT_TEXT_MAX_LENGTH = 4000"

definition ASK_USER_QUESTIONS_REQUEST_SCHEMA :: string where
  "ASK_USER_QUESTIONS_REQUEST_SCHEMA = ''ask_user_questions_request_v1''"

definition ASK_USER_QUESTIONS_RESPONSE_SCHEMA :: string where
  "ASK_USER_QUESTIONS_RESPONSE_SCHEMA = ''ask_user_questions_response_v1''"

section \<open>Schemas\<close>

text \<open>\<open>z.string().trim().min(1)\<close>, \<open>z.array(_)\<close>, \<open>_.optional()\<close> and the numbers in use.\<close>

fun z_text :: "json \<Rightarrow> string option" where
  "z_text (JStr s) = (if js_trim s \<noteq> [] then Some (js_trim s) else None)"
| "z_text _ = None"

definition z_optional :: "(json \<Rightarrow> 'a option) \<Rightarrow> json \<Rightarrow> 'a option option" where
  "z_optional p v = (if v = JUndef then Some None else map_option Some (p v))"

fun z_all :: "(json \<Rightarrow> 'a option) \<Rightarrow> json list \<Rightarrow> 'a list option" where
  "z_all p [] = Some []"
| "z_all p (v # vs) = Option.bind (p v) (\<lambda>x. Option.bind (z_all p vs) (\<lambda>xs. Some (x # xs)))"

fun z_array :: "(json \<Rightarrow> 'a option) \<Rightarrow> json \<Rightarrow> 'a list option" where
  "z_array p (JArr vs) = z_all p vs"
| "z_array p _ = None"

fun z_bool :: "json \<Rightarrow> bool option" where
  "z_bool (JBool b) = Some b"
| "z_bool _ = None"

fun z_number :: "json \<Rightarrow> js_number option" where
  "z_number (JNum n) = (if n \<noteq> NaN then Some n else None)"
| "z_number _ = None"

definition z_positive :: "json \<Rightarrow> js_number option" where
  "z_positive v = Option.bind (z_number v) (\<lambda>n. if js_less (Fin 0) n then Some n else None)"

definition z_int_from :: "int \<Rightarrow> json \<Rightarrow> int option" where
  "z_int_from lo v = Option.bind (z_number v) (\<lambda>n. if is_integer n \<and> lo \<le> js_floor n then Some (js_floor n) else None)"

definition z_enum :: "('a \<Rightarrow> string) \<Rightarrow> 'a list \<Rightarrow> json \<Rightarrow> 'a option" where
  "z_enum name values v = List.find (\<lambda>x. v = JStr (name x)) values"

record raw_choice =
  rc_choice_id :: "string option"
  rc_id :: "string option"
  rc_label :: string
  rc_description :: "string option"

record raw_question =
  rq_question_id :: "string option"
  rq_id :: "string option"
  rq_kind :: question_kind
  rq_label :: string
  rq_help_text :: "string option"
  rq_importance :: "question_importance option"
  rq_choices :: "raw_choice list option"
  rq_default_answer :: json
  rq_multiline :: "bool option"
  rq_placeholder :: "string option"
  rq_min_length :: "int option"
  rq_max_length :: "int option"
  rq_min :: "js_number option"
  rq_max :: "js_number option"
  rq_step :: "js_number option"
  rq_unit :: "string option"

record raw_request =
  rw_title :: "string option"
  rw_body :: "string option"
  rw_submit_label :: "string option"
  rw_skip_all_label :: "string option"
  rw_questions :: "raw_question list"

definition RawChoiceSchema :: "json \<Rightarrow> raw_choice option" where
  "RawChoiceSchema v = Option.bind (as_record v) (\<lambda>ob.
     Option.bind (z_optional z_text (obj_get ob ''choice_id'')) (\<lambda>choiceId.
     Option.bind (z_optional z_text (obj_get ob ''id'')) (\<lambda>i.
     Option.bind (z_text (obj_get ob ''label'')) (\<lambda>label.
     Option.bind (z_optional z_text (obj_get ob ''description'')) (\<lambda>description.
       Some \<lparr>rc_choice_id = choiceId, rc_id = i, rc_label = label, rc_description = description\<rparr>)))))"

definition all_kinds :: "question_kind list" where
  "all_kinds = [Q_boolean, Q_single_choice, Q_multi_choice, Q_text, Q_number]"

definition RawQuestionSchema :: "json \<Rightarrow> raw_question option" where
  "RawQuestionSchema v = Option.bind (as_record v) (\<lambda>ob.
     Option.bind (z_optional z_text (obj_get ob ''question_id'')) (\<lambda>questionId.
     Option.bind (z_optional z_text (obj_get ob ''id'')) (\<lambda>i.
     Option.bind (z_enum kind_name all_kinds (obj_get ob ''kind'')) (\<lambda>kind.
     Option.bind (z_text (obj_get ob ''label'')) (\<lambda>label.
     Option.bind (z_optional z_text (obj_get ob ''help_text'')) (\<lambda>helpText.
     Option.bind (z_optional (z_enum importance_name [Imp_required, Imp_important, Imp_optional])
                    (obj_get ob ''importance'')) (\<lambda>importance.
     Option.bind (z_optional (z_array RawChoiceSchema) (obj_get ob ''choices'')) (\<lambda>choices.
     Option.bind (z_optional z_bool (obj_get ob ''multiline'')) (\<lambda>multiline.
     Option.bind (z_optional z_text (obj_get ob ''placeholder'')) (\<lambda>placeholder.
     Option.bind (z_optional (z_int_from 0) (obj_get ob ''min_length'')) (\<lambda>minLength.
     Option.bind (z_optional (z_int_from 1) (obj_get ob ''max_length'')) (\<lambda>maxLength.
     Option.bind (z_optional z_number (obj_get ob ''min'')) (\<lambda>mn.
     Option.bind (z_optional z_number (obj_get ob ''max'')) (\<lambda>mx.
     Option.bind (z_optional z_positive (obj_get ob ''step'')) (\<lambda>step.
     Option.bind (z_optional z_text (obj_get ob ''unit'')) (\<lambda>unt.
       Some \<lparr>rq_question_id = questionId, rq_id = i, rq_kind = kind, rq_label = label, rq_help_text = helpText,
         rq_importance = importance, rq_choices = choices, rq_default_answer = obj_get ob ''default_answer'',
         rq_multiline = multiline, rq_placeholder = placeholder, rq_min_length = minLength,
         rq_max_length = maxLength, rq_min = mn, rq_max = mx, rq_step = step, rq_unit = unt\<rparr>))))))))))))))))"

definition RawRequestSchema :: "json \<Rightarrow> raw_request option" where
  "RawRequestSchema v = Option.bind (as_record v) (\<lambda>ob.
     Option.bind (z_optional z_text (obj_get ob ''title'')) (\<lambda>title.
     Option.bind (z_optional z_text (obj_get ob ''body'')) (\<lambda>body.
     Option.bind (z_optional z_text (obj_get ob ''submit_label'')) (\<lambda>submitLabel.
     Option.bind (z_optional z_text (obj_get ob ''skip_all_label'')) (\<lambda>skipAllLabel.
     Option.bind (z_array RawQuestionSchema (obj_get ob ''questions'')) (\<lambda>questions.
       if questions = [] then None
       else Some \<lparr>rw_title = title, rw_body = body, rw_submit_label = submitLabel,
                   rw_skip_all_label = skipAllLabel, rw_questions = questions\<rparr>))))))"

definition ClientAnswerSchema :: "json \<Rightarrow> question_answer option" where
  "ClientAnswerSchema v = Option.bind (as_record v) (\<lambda>ob.
     Option.bind (z_enum kind_name all_kinds (obj_get ob ''kind'')) (\<lambda>kind.
       case kind of
         Q_boolean \<Rightarrow> map_option A_boolean (z_bool (obj_get ob ''value''))
       | Q_single_choice \<Rightarrow> map_option A_single_choice (z_text (obj_get ob ''choice_id''))
       | Q_multi_choice \<Rightarrow> Option.bind (z_array z_text (obj_get ob ''choice_ids'')) (\<lambda>ids.
           if ids = [] then None else Some (A_multi_choice ids))
       | Q_text \<Rightarrow> map_option A_text (as_string (obj_get ob ''value''))
       | Q_number \<Rightarrow> map_option A_number (z_number (obj_get ob ''value''))))"

definition ClientAnswerEntrySchema :: "json \<Rightarrow> response_answer option" where
  "ClientAnswerEntrySchema v = Option.bind (as_record v) (\<lambda>ob.
     Option.bind (z_text (obj_get ob ''question_id'')) (\<lambda>questionId.
     Option.bind (z_enum (\<lambda>st. case st of Answered \<Rightarrow> ''answered'' | Skipped \<Rightarrow> ''skipped'') [Answered, Skipped]
                    (obj_get ob ''status'')) (\<lambda>status.
     Option.bind (z_optional ClientAnswerSchema (obj_get ob ''answer'')) (\<lambda>answer.
     Option.bind (z_optional (z_enum skip_reason_name [User_skipped, Not_applicable, Skip_unknown])
                    (obj_get ob ''skip_reason'')) (\<lambda>skipReason.
       Some \<lparr>ra_question_id = questionId, ra_status = status, ra_answer = answer,
             ra_skip_reason = skipReason\<rparr>)))))"

definition ClientResponseSchema :: "(string \<Rightarrow> bool) \<Rightarrow> json \<Rightarrow> questions_response option" where
  "ClientResponseSchema is_uuid v = Option.bind (as_record v) (\<lambda>ob.
     if obj_get ob ''schema'' \<noteq> JStr ASK_USER_QUESTIONS_RESPONSE_SCHEMA then None
     else Option.bind (as_string (obj_get ob ''client_response_id'')) (\<lambda>clientResponseId.
       if \<not> is_uuid clientResponseId then None
       else Option.bind (z_array ClientAnswerEntrySchema (obj_get ob ''answers'')) (\<lambda>answers.
         Some \<lparr>qs_client_response_id = clientResponseId, qs_answers = answers\<rparr>)))"

section \<open>Answers\<close>

definition assertChoiceExists :: "user_question \<Rightarrow> string \<Rightarrow> string \<Rightarrow> unit contract" where
  "assertChoiceExists question choiceId errorCode =
     (if uq_choices question \<noteq> None \<and> choiceId \<in> set (map qc_choice_id (the (uq_choices question)))
      then Inr ()
      else Inl (AskUserQuestionsContractError errorCode
        (''Unknown choice_id '' @ choiceId @ '' for question '' @ uq_question_id question)))"

fun assert_choices :: "user_question \<Rightarrow> string list \<Rightarrow> string \<Rightarrow> unit contract" where
  "assert_choices question [] errorCode = Inr ()"
| "assert_choices question (c # cs) errorCode =
     andThen (assertChoiceExists question c errorCode) (\<lambda>_. assert_choices question cs errorCode)"

definition or_default :: "'a \<Rightarrow> 'a option \<Rightarrow> 'a" where
  "or_default d x = (case x of Some y \<Rightarrow> y | None \<Rightarrow> d)"

definition check_answer :: "js_lib \<Rightarrow> user_question \<Rightarrow> question_answer \<Rightarrow> string \<Rightarrow> unit contract" where
  "check_answer lib question answer errorCode =
     (case answer of
        A_boolean _ \<Rightarrow> Inr ()
      | A_single_choice c \<Rightarrow> assertChoiceExists question c errorCode
      | A_multi_choice cs \<Rightarrow>
          if \<not> distinct cs
          then Inl (AskUserQuestionsContractError errorCode ''Duplicate multi_choice ids are not allowed'')
          else assert_choices question cs errorCode
      | A_text s \<Rightarrow>
          (let minLength = or_default 0 (uq_min_length question);
               maxLength = or_default DEFAULT_TEXT_MAX_LENGTH (uq_max_length question)
           in if int (js_length s) < minLength \<or> maxLength < int (js_length s)
              then Inl (AskUserQuestionsContractError errorCode
                (''Text answer must be between '' @ lib_numberToString lib (num_of_int minLength) @ '' and ''
                 @ lib_numberToString lib (num_of_int maxLength) @ '' characters''))
              else Inr ())
      | A_number n \<Rightarrow>
          if uq_min question \<noteq> None \<and> js_less n (the (uq_min question))
          then Inl (AskUserQuestionsContractError errorCode
            (''Number answer must be >= '' @ lib_numberToString lib (the (uq_min question))))
          else if uq_max question \<noteq> None \<and> js_less (the (uq_max question)) n
          then Inl (AskUserQuestionsContractError errorCode
            (''Number answer must be <= '' @ lib_numberToString lib (the (uq_max question))))
          else Inr ())"

definition validate_parsed :: "js_lib \<Rightarrow> user_question \<Rightarrow> question_answer \<Rightarrow> string \<Rightarrow> question_answer contract" where
  "validate_parsed lib question answer errorCode =
     (if answer_kind answer \<noteq> uq_kind question
      then Inl (AskUserQuestionsContractError errorCode
        (''Answer kind '' @ kind_name (answer_kind answer) @ '' does not match question kind ''
         @ kind_name (uq_kind question)))
      else andThen (check_answer lib question answer errorCode) (\<lambda>_. Inr answer))"

definition validateAnswerForQuestion ::
    "(string \<Rightarrow> json \<Rightarrow> string) \<Rightarrow> js_lib \<Rightarrow> user_question \<Rightarrow> json \<Rightarrow> string \<Rightarrow> question_answer contract" where
  "validateAnswerForQuestion issue lib question input errorCode =
     (case ClientAnswerSchema input of
        None \<Rightarrow> Inl (AskUserQuestionsContractError errorCode (issue ''ClientAnswerSchema'' input))
      | Some answer \<Rightarrow> validate_parsed lib question answer errorCode)"

section \<open>Requests\<close>

fun json_of_answer :: "question_answer \<Rightarrow> json" where
  "json_of_answer (A_boolean b) = JObj [(''kind'', JStr ''boolean''), (''value'', JBool b)]"
| "json_of_answer (A_single_choice c) = JObj [(''kind'', JStr ''single_choice''), (''choice_id'', JStr c)]"
| "json_of_answer (A_multi_choice cs) =
     JObj [(''kind'', JStr ''multi_choice''), (''choice_ids'', JArr (map JStr cs))]"
| "json_of_answer (A_text s) = JObj [(''kind'', JStr ''text''), (''value'', JStr s)]"
| "json_of_answer (A_number n) = JObj [(''kind'', JStr ''number''), (''value'', JNum n)]"

fun stripNullFields :: "json \<Rightarrow> json" where
  "stripNullFields (JArr vs) = JArr (map stripNullFields vs)"
| "stripNullFields (JObj ob) =
     JObj (map (\<lambda>p. (fst p, stripNullFields (snd p))) (filter (\<lambda>p. snd p \<noteq> JNull) ob))"
| "stripNullFields v = v"

fun normalize_choices_from :: "nat \<Rightarrow> string list \<Rightarrow> raw_choice list \<Rightarrow> question_choice list contract" where
  "normalize_choices_from index seen [] = Inr []"
| "normalize_choices_from index seen (choice # rest) =
     (let choiceId = normalizeId (or_default (or_default (''choice_'' @ show_nat (index + 1)) (rc_id choice))
                        (rc_choice_id choice))
      in if choiceId \<in> set seen
         then Inl (AskUserQuestionsContractError ''duplicate_choice_id'' (''Duplicate choice_id: '' @ choiceId))
         else andThen (normalize_choices_from (index + 1) (choiceId # seen) rest) (\<lambda>cs.
           Inr (\<lparr>qc_choice_id = choiceId, qc_label = js_trim (rc_label choice),
                 qc_description = map_option js_trim (rc_description choice)\<rparr> # cs)))"

definition normalizeChoices :: "raw_question \<Rightarrow> question_choice list option contract" where
  "normalizeChoices question =
     (if rq_kind question \<noteq> Q_single_choice \<and> rq_kind question \<noteq> Q_multi_choice then Inr None
      else if rq_choices question = None \<or> rq_choices question = Some []
      then Inl (AskUserQuestionsContractError ''missing_choices''
        (kind_name (rq_kind question) @ '' questions require at least one choice''))
      else andThen (normalize_choices_from 0 [] (the (rq_choices question))) (\<lambda>cs. Inr (Some cs)))"

definition truthy_trim :: "string option \<Rightarrow> string option" where
  "truthy_trim x = (case x of Some s \<Rightarrow> if s \<noteq> [] then Some (js_trim s) else None | None \<Rightarrow> None)"

definition normalized_question :: "string \<Rightarrow> question_choice list option \<Rightarrow> raw_question \<Rightarrow> user_question" where
  "normalized_question questionId choices question =
     \<lparr>uq_question_id = questionId, uq_kind = rq_kind question, uq_label = js_trim (rq_label question),
      uq_help_text = truthy_trim (rq_help_text question),
      uq_importance = or_default Imp_optional (rq_importance question), uq_choices = choices,
      uq_multiline = (rq_multiline question = Some True), uq_placeholder = truthy_trim (rq_placeholder question),
      uq_min_length = rq_min_length question,
      uq_max_length = (case rq_max_length question of Some n \<Rightarrow> Some n
                       | None \<Rightarrow> if rq_kind question = Q_text then Some DEFAULT_TEXT_MAX_LENGTH else None),
      uq_min = rq_min question, uq_max = rq_max question, uq_step = rq_step question,
      uq_unit = truthy_trim (rq_unit question), uq_default_answer = None\<rparr>"

definition with_default_answer ::
    "(string \<Rightarrow> json \<Rightarrow> string) \<Rightarrow> js_lib \<Rightarrow> json \<Rightarrow> user_question \<Rightarrow> user_question contract" where
  "with_default_answer issue lib raw q =
     (if raw = JUndef then Inr q
      else andThen (validateAnswerForQuestion issue lib q raw ''invalid_default_answer'') (\<lambda>a.
        Inr (q\<lparr>uq_default_answer := Some a\<rparr>)))"

fun normalize_questions_from ::
    "(string \<Rightarrow> json \<Rightarrow> string) \<Rightarrow> js_lib \<Rightarrow> nat \<Rightarrow> string list \<Rightarrow> raw_question list \<Rightarrow> user_question list contract" where
  "normalize_questions_from issue lib index seen [] = Inr []"
| "normalize_questions_from issue lib index seen (question # rest) =
     (let questionId = normalizeId (or_default (or_default (''q_'' @ show_nat (index + 1)) (rq_id question))
                          (rq_question_id question))
      in if questionId \<in> set seen
         then Inl (AskUserQuestionsContractError ''duplicate_question_id'' (''Duplicate question_id: '' @ questionId))
         else andThen (normalizeChoices question) (\<lambda>choices.
              andThen (with_default_answer issue lib (rq_default_answer question)
                         (normalized_question questionId choices question)) (\<lambda>q.
              andThen (normalize_questions_from issue lib (index + 1) (questionId # seen) rest) (\<lambda>qs.
                Inr (q # qs)))))"

definition normalizeAskUserQuestionsRequest ::
    "(string \<Rightarrow> json \<Rightarrow> string) \<Rightarrow> js_lib \<Rightarrow> json \<Rightarrow> questions_request contract" where
  "normalizeAskUserQuestionsRequest issue lib input =
     (case RawRequestSchema (stripNullFields input) of
        None \<Rightarrow> Inl (AskUserQuestionsContractError ''invalid_question_request'' (issue ''RawRequestSchema'' (stripNullFields input)))
      | Some raw \<Rightarrow>
          andThen (normalize_questions_from issue lib 0 [] (rw_questions raw)) (\<lambda>questions.
            Inr \<lparr>qr_request_id = None, qr_title = truthy_trim (rw_title raw), qr_body = truthy_trim (rw_body raw),
                 qr_submit_label = truthy_trim (rw_submit_label raw),
                 qr_skip_all_label = truthy_trim (rw_skip_all_label raw), qr_questions = questions\<rparr>))"

definition attachRequestIdToAskUserQuestionsRequest :: "questions_request \<Rightarrow> string \<Rightarrow> questions_request" where
  "attachRequestIdToAskUserQuestionsRequest request requestId = request\<lparr>qr_request_id := Some requestId\<rparr>"

definition parseStoredAskUserQuestionsRequest ::
    "(string \<Rightarrow> json \<Rightarrow> string) \<Rightarrow> js_lib \<Rightarrow> json \<Rightarrow> questions_request contract" where
  "parseStoredAskUserQuestionsRequest issue lib input =
     (case as_record input of
        None \<Rightarrow> Inl (AskUserQuestionsContractError ''invalid_stored_question_request'' ''Expected object'')
      | Some rec \<Rightarrow>
          if obj_get rec ''schema'' \<noteq> JStr ASK_USER_QUESTIONS_REQUEST_SCHEMA
          then Inl (AskUserQuestionsContractError ''invalid_stored_question_request''
                 ''Stored question request has an unsupported schema'')
          else andThen (normalizeAskUserQuestionsRequest issue lib
                          (JObj (obj_set ''questions'' (obj_get rec ''questions'') rec))) (\<lambda>request.
            Inr (case as_string (obj_get rec ''request_id'') of
                   Some i \<Rightarrow> if i \<noteq> [] then request\<lparr>qr_request_id := Some i\<rparr> else request
                 | None \<Rightarrow> request)))"

text \<open>Requests as the plain objects that are stored.\<close>

definition opt_field :: "string \<Rightarrow> ('a \<Rightarrow> json) \<Rightarrow> 'a option \<Rightarrow> js_object" where
  "opt_field k f x = (case x of Some y \<Rightarrow> [(k, f y)] | None \<Rightarrow> [])"

definition json_of_choice :: "question_choice \<Rightarrow> json" where
  "json_of_choice c = JObj ([(''choice_id'', JStr (qc_choice_id c)), (''label'', JStr (qc_label c))]
     @ opt_field ''description'' JStr (qc_description c))"

definition question_fields :: "user_question \<Rightarrow> js_object" where
  "question_fields q = [(''question_id'', JStr (uq_question_id q)), (''kind'', JStr (kind_name (uq_kind q))),
       (''label'', JStr (uq_label q))]
     @ opt_field ''help_text'' JStr (uq_help_text q)
     @ [(''importance'', JStr (importance_name (uq_importance q))), (''skippable'', JBool True)]
     @ opt_field ''choices'' (\<lambda>cs. JArr (map json_of_choice cs)) (uq_choices q)
     @ (if uq_multiline q then [(''multiline'', JBool True)] else [])
     @ opt_field ''placeholder'' JStr (uq_placeholder q)
     @ opt_field ''min_length'' JInt (uq_min_length q) @ opt_field ''max_length'' JInt (uq_max_length q)
     @ opt_field ''min'' JNum (uq_min q) @ opt_field ''max'' JNum (uq_max q) @ opt_field ''step'' JNum (uq_step q)
     @ opt_field ''unit'' JStr (uq_unit q) @ opt_field ''default_answer'' json_of_answer (uq_default_answer q)"

definition json_of_question :: "user_question \<Rightarrow> json" where
  "json_of_question q = JObj (question_fields q)"

definition json_of_request :: "questions_request \<Rightarrow> json" where
  "json_of_request r = JObj ([(''schema'', JStr ASK_USER_QUESTIONS_REQUEST_SCHEMA)]
     @ opt_field ''title'' JStr (qr_title r) @ opt_field ''body'' JStr (qr_body r)
     @ opt_field ''submit_label'' JStr (qr_submit_label r) @ opt_field ''skip_all_label'' JStr (qr_skip_all_label r)
     @ [(''questions'', JArr (map json_of_question (qr_questions r)))]
     @ opt_field ''request_id'' JStr (qr_request_id r))"

text \<open>
  The request goes into a \<open>jsonb\<close> column as \<open>JSON.stringify\<close> writes it and comes back as
  \<open>JSON.parse\<close> reads that: a number that is not finite is written as \<open>null\<close>, an undefined member is
  left out and an undefined element becomes \<open>null\<close>.  (The order of the members, which \<open>jsonb\<close> does
  not keep, is kept here: the readers look members up by name.  A string with a NUL character is
  refused by the database, so such a request is not stored at all.)
\<close>

fun stored_json :: "json \<Rightarrow> json" where
  "stored_json (JNum n) = (if is_finite n then JNum n else JNull)"
| "stored_json (JArr vs) = JArr (map (\<lambda>v. if v = JUndef then JNull else stored_json v) vs)"
| "stored_json (JObj ob) = JObj (map (\<lambda>p. (fst p, stored_json (snd p))) (filter (\<lambda>p. snd p \<noteq> JUndef) ob))"
| "stored_json v = v"

text \<open>What \<open>createAgentQuestionRequest\<close> returns as the request and stores in the request column; the other
  columns of the row (the thread, the turn, the pending status) are not part of the contract.\<close>

definition createAgentQuestionRequest :: "questions_request \<Rightarrow> string \<Rightarrow> questions_request \<times> json" where
  "createAgentQuestionRequest request questionRequestId =
     (let request' = attachRequestIdToAskUserQuestionsRequest request questionRequestId
      in (request', stored_json (json_of_request request')))"

section \<open>Responses\<close>

fun index_answers :: "response_answer list \<Rightarrow> (string \<times> response_answer) list \<Rightarrow> (string \<times> response_answer) list contract" where
  "index_answers [] m = Inr m"
| "index_answers (a # rest) m =
     (if map_of m (ra_question_id a) \<noteq> None
      then Inl (AskUserQuestionsContractError ''duplicate_answer''
        (''Duplicate answer for question_id: '' @ ra_question_id a))
      else index_answers rest (m @ [(ra_question_id a, a)]))"

definition normalize_answer ::
    "(string \<Rightarrow> json \<Rightarrow> string) \<Rightarrow> js_lib \<Rightarrow> user_question \<Rightarrow> response_answer option \<Rightarrow> response_answer contract" where
  "normalize_answer issue lib question answer =
     (case answer of
        None \<Rightarrow> Inr \<lparr>ra_question_id = uq_question_id question, ra_status = Skipped, ra_answer = None,
                     ra_skip_reason = Some User_skipped\<rparr>
      | Some a \<Rightarrow>
          if ra_status a = Skipped
          then Inr \<lparr>ra_question_id = uq_question_id question, ra_status = Skipped, ra_answer = None,
                    ra_skip_reason = Some (or_default User_skipped (ra_skip_reason a))\<rparr>
          else case ra_answer a of
                 None \<Rightarrow> Inl (AskUserQuestionsContractError ''missing_answer''
                   (''Question '' @ uq_question_id question @ '' is marked answered without an answer''))
               | Some x \<Rightarrow> andThen (validateAnswerForQuestion issue lib question (json_of_answer x) ''invalid_answer'')
                   (\<lambda>y. Inr \<lparr>ra_question_id = uq_question_id question, ra_status = Answered,
                             ra_answer = Some y, ra_skip_reason = None\<rparr>))"

fun normalize_answers ::
    "(string \<Rightarrow> json \<Rightarrow> string) \<Rightarrow> js_lib \<Rightarrow> (string \<times> response_answer) list \<Rightarrow> user_question list \<Rightarrow>
      response_answer list contract" where
  "normalize_answers issue lib m [] = Inr []"
| "normalize_answers issue lib m (question # rest) =
     andThen (normalize_answer issue lib question (map_of m (uq_question_id question)))
       (\<lambda>a. andThen (normalize_answers issue lib m rest) (\<lambda>as. Inr (a # as)))"

definition validateAskUserQuestionsResponse ::
    "(string \<Rightarrow> json \<Rightarrow> string) \<Rightarrow> (string \<Rightarrow> bool) \<Rightarrow> js_lib \<Rightarrow> json \<Rightarrow> questions_request \<Rightarrow>
      questions_response contract" where
  "validateAskUserQuestionsResponse issue is_uuid lib input request =
     (case ClientResponseSchema is_uuid input of
        None \<Rightarrow> Inl (AskUserQuestionsContractError ''invalid_question_response'' (issue ''ClientResponseSchema'' input))
      | Some parsed \<Rightarrow>
          andThen (index_answers (qs_answers parsed) []) (\<lambda>m.
            case List.find (\<lambda>i. i \<notin> set (map uq_question_id (qr_questions request))) (map fst m) of
              Some i \<Rightarrow> Inl (AskUserQuestionsContractError ''unknown_question_id'' (''Unknown question_id: '' @ i))
            | None \<Rightarrow> andThen (normalize_answers issue lib m (qr_questions request)) (\<lambda>answers.
                Inr \<lparr>qs_client_response_id = qs_client_response_id parsed, qs_answers = answers\<rparr>)))"

section \<open>Tool results\<close>

definition choice_label :: "user_question \<Rightarrow> string \<Rightarrow> string" where
  "choice_label question choiceId =
     (case Option.bind (uq_choices question) (List.find (\<lambda>c. qc_choice_id c = choiceId)) of
        Some c \<Rightarrow> qc_label c | None \<Rightarrow> choiceId)"

definition formatAnswer :: "js_lib \<Rightarrow> user_question \<Rightarrow> question_answer \<Rightarrow> string" where
  "formatAnswer lib question answer =
     (case answer of
        A_boolean b \<Rightarrow> if b then ''Yes'' else ''No''
      | A_single_choice c \<Rightarrow> choice_label question c
      | A_multi_choice cs \<Rightarrow> join_with '', '' (map (choice_label question) cs)
      | A_text s \<Rightarrow> s
      | A_number n \<Rightarrow> lib_numberToString lib n
          @ (case uq_unit question of Some u \<Rightarrow> if u \<noteq> [] then '' '' @ u else [] | None \<Rightarrow> []))"

definition view_of :: "user_question \<Rightarrow> question_view" where
  "view_of q = \<lparr>qv_question_id = uq_question_id q, qv_kind = uq_kind q, qv_label = uq_label q,
     qv_help_text = uq_help_text q, qv_choices = uq_choices q\<rparr>"

definition result_for :: "js_lib \<Rightarrow> response_answer list \<Rightarrow> user_question \<Rightarrow> result_response" where
  "result_for lib answers question =
     (let answer = or_default \<lparr>ra_question_id = uq_question_id question, ra_status = Skipped, ra_answer = None,
                               ra_skip_reason = Some Skip_unknown\<rparr>
                     (map_of (rev (map (\<lambda>a. (ra_question_id a, a)) answers)) (uq_question_id question))
      in \<lparr>rr_question_id = uq_question_id question, rr_question = view_of question, rr_status = ra_status answer,
          rr_answer = ra_answer answer, rr_display_answer = map_option (formatAnswer lib question) (ra_answer answer),
          rr_skip_reason = (if ra_status answer = Skipped
                            then Some (or_default User_skipped (ra_skip_reason answer)) else None)\<rparr>)"

fun summary_lines :: "nat \<Rightarrow> result_response list \<Rightarrow> string list" where
  "summary_lines index [] = []"
| "summary_lines index (r # rest) =
     [[], show_nat (index + 1) @ ''. '' @ qv_label (rr_question r),
      if rr_status r = Answered then ''Answer: '' @ or_default ''(answered)'' (rr_display_answer r)
      else ''Answer: skipped ('' @ skip_reason_name (or_default User_skipped (rr_skip_reason r)) @ '')'']
     @ summary_lines (index + 1) rest"

definition buildAskUserQuestionsSummaryMarkdown ::
    "string option \<Rightarrow> string option \<Rightarrow> result_response list \<Rightarrow> string" where
  "buildAskUserQuestionsSummaryMarkdown title body responses =
     join_with [CHR 0x0A]
       ([case title of Some s \<Rightarrow> if s \<noteq> [] then ''Question response: '' @ s else ''Question response''
                   | None \<Rightarrow> ''Question response'']
        @ (case body of Some s \<Rightarrow> if s \<noteq> [] then [[], s] else [] | None \<Rightarrow> [])
        @ summary_lines 0 responses)"

definition buildAskUserQuestionsToolResult ::
    "js_lib \<Rightarrow> questions_request \<Rightarrow> questions_response \<Rightarrow> string \<Rightarrow> questions_result" where
  "buildAskUserQuestionsToolResult lib request response requestId =
     (let responses = map (result_for lib (qs_answers response)) (qr_questions request)
      in \<lparr>qx_request_id = requestId, qx_title = qr_title request, qx_body = qr_body request,
          qx_responses = responses,
          qx_summary_markdown =
            buildAskUserQuestionsSummaryMarkdown (qr_title request) (qr_body request) responses\<rparr>)"

end
