(* ===== verification/QuestionProps.thy ===== *)
theory QuestionProps
  imports Questions
begin

text \<open>
  Correctness of the question contract: what normalisation guarantees, that a stored request is read back
  unchanged, and that every accepted response answers the questions that were asked.
\<close>

section \<open>Trimming\<close>

lemma strip_start_suffix: "\<exists>p. s = p @ strip_start ws s"
proof (induction ws s rule: strip_start.induct)
  case (1 ws s)
  show ?case
  proof (cases "List.find (\<lambda>w. w \<noteq> [] \<and> starts_with w s) ws")
    case None
    then show ?thesis
      by (simp add: strip_start.simps [of ws s])
  next
    case (Some w)
    then have "s = w @ drop (length w) s"
      by (auto simp: find_Some_iff starts_with_def) (metis append_take_drop_id)
    moreover from "1" [OF Some] obtain p where "drop (length w) s = p @ strip_start ws (drop (length w) s)" ..
    ultimately have "s = (w @ p) @ strip_start ws s"
      using Some by (simp add: strip_start.simps [of ws s])
    then show ?thesis ..
  qed
qed

lemma strip_start_clean: "w \<in> set ws \<Longrightarrow> w \<noteq> [] \<Longrightarrow> \<not> starts_with w (strip_start ws s)"
proof (induction ws s rule: strip_start.induct)
  case (1 ws s)
  show ?case
  proof (cases "List.find (\<lambda>w. w \<noteq> [] \<and> starts_with w s) ws")
    case None
    then have "strip_start ws s = s"
      by (simp add: strip_start.simps [of ws s])
    with None "1.prems" show ?thesis
      by (auto simp: find_None_iff)
  next
    case (Some w')
    then show ?thesis
      using "1.IH" [OF Some] "1.prems" by (simp add: strip_start.simps [of ws s])
  qed
qed

lemma strip_start_id:
  assumes "\<forall>w \<in> set ws. w \<noteq> [] \<longrightarrow> \<not> starts_with w s"
  shows "strip_start ws s = s"
proof -
  have "List.find (\<lambda>w. w \<noteq> [] \<and> starts_with w s) ws = None"
    using assms by (auto simp: find_None_iff)
  then show ?thesis
    by (simp add: strip_start.simps [of ws s])
qed

lemma starts_with_prefix: "starts_with w s \<Longrightarrow> starts_with w (s @ t)"
proof -
  assume w: "starts_with w s"
  then have "min (length s) (length w) = length w"
    by (metis length_take starts_with_def)
  with w show "starts_with w (s @ t)"
    by (simp add: starts_with_def)
qed

definition untrimmed :: "string \<Rightarrow> bool" where
  "untrimmed s \<longleftrightarrow> (\<exists>w \<in> set js_whitespace. w \<noteq> [] \<and> (starts_with w s \<or> starts_with (rev w) (rev s)))"

lemma js_trim_id: "\<not> untrimmed s \<Longrightarrow> js_trim s = s"
proof -
  assume s: "\<not> untrimmed s"
  then have "strip_start js_whitespace s = s"
    by (intro strip_start_id) (auto simp: untrimmed_def)
  moreover have "strip_start (map rev js_whitespace) (rev s) = rev s"
    using s by (intro strip_start_id) (auto simp: untrimmed_def)
  ultimately show ?thesis
    by (simp add: js_trim_def)
qed

lemma js_trim_clean: "\<not> untrimmed (js_trim s)"
proof
  assume "untrimmed (js_trim s)"
  then obtain w where w: "w \<in> set js_whitespace" "w \<noteq> []" and "starts_with w (js_trim s) \<or> starts_with (rev w) (rev (js_trim s))"
    by (auto simp: untrimmed_def)
  moreover have "\<not> starts_with (rev w) (rev (js_trim s))"
    using strip_start_clean [of "rev w" "map rev js_whitespace"] w by (simp add: js_trim_def)
  moreover obtain p where "rev (strip_start js_whitespace s) = p @ rev (js_trim s)"
    using strip_start_suffix [of "rev (strip_start js_whitespace s)" "map rev js_whitespace"] by (auto simp: js_trim_def)
  then have "strip_start js_whitespace s = js_trim s @ rev p"
    by (metis rev_append rev_rev_ident)
  then have "starts_with w (js_trim s) \<Longrightarrow> starts_with w (strip_start js_whitespace s)"
    by (simp add: starts_with_prefix)
  ultimately show False
    using strip_start_clean [OF w] by blast
qed

lemma js_trim_idem [simp]: "js_trim (js_trim s) = js_trim s"
  by (rule js_trim_id [OF js_trim_clean])

section \<open>Identifiers\<close>

definition good_id :: "string \<Rightarrow> bool" where
  "good_id s \<longleftrightarrow> s \<noteq> [] \<and> (\<forall>c \<in> set s. id_char c) \<and> hd s \<noteq> CHR ''_'' \<and> last s \<noteq> CHR ''_''"

lemma whitespace_ends: "w \<in> set js_whitespace \<Longrightarrow> w \<noteq> [] \<and> \<not> id_char (hd w) \<and> \<not> id_char (last w)"
proof -
  have "\<forall>w \<in> set js_whitespace. w \<noteq> [] \<and> \<not> id_char (hd w) \<and> \<not> id_char (last w)"
    by code_simp
  then show "w \<in> set js_whitespace \<Longrightarrow> w \<noteq> [] \<and> \<not> id_char (hd w) \<and> \<not> id_char (last w)"
    by blast
qed

lemma starts_with_hd: "starts_with w s \<Longrightarrow> w \<noteq> [] \<Longrightarrow> s \<noteq> [] \<and> hd s = hd w"
  by (cases s; cases w) (auto simp: starts_with_def)

lemma good_id_trim: "good_id s \<Longrightarrow> js_trim s = s"
proof (rule js_trim_id, rule notI)
  assume "good_id s" and "untrimmed s"
  then obtain w where w: "w \<in> set js_whitespace" "w \<noteq> []" "starts_with w s \<or> starts_with (rev w) (rev s)"
    by (auto simp: untrimmed_def)
  with \<open>good_id s\<close> have "hd s = hd w \<or> last s = last w" "s \<noteq> []"
    using starts_with_hd [of w s] starts_with_hd [of "rev w" "rev s"] by (auto simp: hd_rev good_id_def)
  moreover from this have "id_char (hd s)" "id_char (last s)"
    using \<open>good_id s\<close> by (simp_all add: good_id_def)
  ultimately show False
    using whitespace_ends [OF w(1)] by auto
qed

lemma squash_id: "\<forall>c \<in> set s. id_char c \<Longrightarrow> squash b s = s"
  by (induction s arbitrary: b) auto

lemma squash_chars: "c \<in> set (squash b s) \<Longrightarrow> id_char c"
proof (induction b s rule: squash.induct)
  case (2 b x s)
  have "id_char CHR ''_''"
    by code_simp
  with 2 show ?case
    by (auto split: if_splits)
qed simp

lemma strip_underscores_id: "s \<noteq> [] \<Longrightarrow> hd s \<noteq> CHR ''_'' \<Longrightarrow> last s \<noteq> CHR ''_'' \<Longrightarrow> strip_underscores s = s"
proof -
  assume s: "s \<noteq> []" "hd s \<noteq> CHR ''_''" "last s \<noteq> CHR ''_''"
  then have "dropWhile ((=) CHR ''_'') s = s"
    by (cases s) auto
  moreover have "dropWhile ((=) CHR ''_'') (rev s) = rev s"
    using s by (cases "rev s") (auto simp: hd_rev [symmetric])
  ultimately show ?thesis
    by (simp add: strip_underscores_def)
qed

lemma good_id_normalized: "good_id s \<Longrightarrow> normalizeId s = s"
  by (simp add: normalizeId_def good_id_trim squash_id strip_underscores_id good_id_def Let_def)

lemma strip_underscores_good:
  assumes "strip_underscores s \<noteq> []" and "\<forall>c \<in> set s. id_char c"
  shows "good_id (strip_underscores s)"
proof -
  let ?d = "dropWhile ((=) CHR ''_'') s" and ?r = "strip_underscores s"
  have "last ?r \<noteq> CHR ''_''"
    using assms(1) hd_dropWhile [of "(=) CHR ''_''" "rev ?d"] by (auto simp: strip_underscores_def last_rev)
  moreover obtain p where p: "?d = ?r @ p"
    unfolding strip_underscores_def
    by (metis takeWhile_dropWhile_id rev_append rev_rev_ident)
  then have "hd ?r = hd ?d"
    using assms(1) by simp
  then have "hd ?r \<noteq> CHR ''_''"
    using p assms(1) hd_dropWhile [of "(=) CHR ''_''" s] by auto
  moreover have "set ?r \<subseteq> set s"
    using p set_dropWhileD [of _ "(=) CHR ''_''" s] by (metis Un_iff set_append subsetI)
  ultimately show ?thesis
    using assms by (auto simp: good_id_def)
qed

lemma normalizeId_good: "good_id (normalizeId s)"
proof -
  have "good_id ''question''"
    by code_simp
  then show ?thesis
    using strip_underscores_good [of "squash False (js_trim s)"] squash_chars by (auto simp: normalizeId_def Let_def)
qed

section \<open>Well-formed requests\<close>

definition trimmed :: "string \<Rightarrow> bool" where
  "trimmed s \<longleftrightarrow> s \<noteq> [] \<and> js_trim s = s"

definition opt_all :: "('a \<Rightarrow> bool) \<Rightarrow> 'a option \<Rightarrow> bool" where
  "opt_all P x \<longleftrightarrow> (\<forall>y. x = Some y \<longrightarrow> P y)"

lemma opt_all_simps [simp]: "opt_all P None" "opt_all P (Some x) = P x"
  by (simp_all add: opt_all_def)

definition choice_ok :: "question_choice \<Rightarrow> bool" where
  "choice_ok c \<longleftrightarrow> good_id (qc_choice_id c) \<and> trimmed (qc_label c) \<and> opt_all trimmed (qc_description c)"

definition is_choice :: "question_kind \<Rightarrow> bool" where
  "is_choice k \<longleftrightarrow> k = Q_single_choice \<or> k = Q_multi_choice"

definition choices_ok :: "question_kind \<Rightarrow> question_choice list option \<Rightarrow> bool" where
  "choices_ok k x = (case x of
     None \<Rightarrow> \<not> is_choice k
   | Some cs \<Rightarrow> is_choice k \<and> cs \<noteq> [] \<and> distinct (map qc_choice_id cs) \<and> (\<forall>c \<in> set cs. choice_ok c))"

text \<open>An answer that fits its question.\<close>

definition fits :: "user_question \<Rightarrow> question_answer \<Rightarrow> bool" where
  "fits q a \<longleftrightarrow> answer_kind a = uq_kind q \<and> (case a of
     A_boolean _ \<Rightarrow> True
   | A_single_choice c \<Rightarrow> c \<in> qc_choice_id ` set (or_default [] (uq_choices q))
   | A_multi_choice cs \<Rightarrow> cs \<noteq> [] \<and> distinct cs \<and> set cs \<subseteq> qc_choice_id ` set (or_default [] (uq_choices q))
   | A_text s \<Rightarrow> or_default 0 (uq_min_length q) \<le> int (js_length s) \<and>
       int (js_length s) \<le> or_default DEFAULT_TEXT_MAX_LENGTH (uq_max_length q)
   | A_number n \<Rightarrow> n \<noteq> NaN \<and> opt_all (\<lambda>m. \<not> js_less n m) (uq_min q) \<and> opt_all (\<lambda>m. \<not> js_less m n) (uq_max q))"

definition question_ok :: "user_question \<Rightarrow> bool" where
  "question_ok q \<longleftrightarrow> good_id (uq_question_id q) \<and> trimmed (uq_label q) \<and> opt_all trimmed (uq_help_text q) \<and>
     choices_ok (uq_kind q) (uq_choices q) \<and> opt_all trimmed (uq_placeholder q) \<and>
     opt_all (\<lambda>n. 0 \<le> n) (uq_min_length q) \<and> opt_all (\<lambda>n. 1 \<le> n) (uq_max_length q) \<and>
     (uq_kind q = Q_text \<longrightarrow> uq_max_length q \<noteq> None) \<and>
     opt_all (\<lambda>n. n \<noteq> NaN) (uq_min q) \<and> opt_all (\<lambda>n. n \<noteq> NaN) (uq_max q) \<and>
     opt_all (js_less (Fin 0)) (uq_step q) \<and> opt_all trimmed (uq_unit q) \<and> opt_all (fits q) (uq_default_answer q)"

definition request_ok :: "questions_request \<Rightarrow> bool" where
  "request_ok r \<longleftrightarrow> qr_questions r \<noteq> [] \<and> distinct (map uq_question_id (qr_questions r)) \<and>
     (\<forall>q \<in> set (qr_questions r). question_ok q) \<and> opt_all trimmed (qr_title r) \<and> opt_all trimmed (qr_body r) \<and>
     opt_all trimmed (qr_submit_label r) \<and> opt_all trimmed (qr_skip_all_label r)"

section \<open>Answers\<close>

lemma assert_choices_iff: "assert_choices q cs code = Inr () \<longleftrightarrow> set cs \<subseteq> qc_choice_id ` set (or_default [] (uq_choices q))"
  by (cases "uq_choices q"; induction cs)
     (auto simp: assertChoiceExists_def or_default_def andThen_eq_Inr split: if_splits)

text \<open>What the schema of answers guarantees, and how an answer is read back.\<close>

definition parsed_answer :: "question_answer \<Rightarrow> bool" where
  "parsed_answer a = (case a of
     A_single_choice c \<Rightarrow> trimmed c
   | A_multi_choice cs \<Rightarrow> cs \<noteq> [] \<and> (\<forall>c \<in> set cs. trimmed c)
   | A_number n \<Rightarrow> n \<noteq> NaN
   | _ \<Rightarrow> True)"

lemma z_text_Some: "z_text v = Some s \<Longrightarrow> trimmed s"
  by (cases v) (auto simp: trimmed_def split: if_splits)

lemma z_text_trimmed: "trimmed s \<Longrightarrow> z_text (JStr s) = Some s"
  by (simp add: trimmed_def)

lemma z_all_Some: "z_all p vs = Some xs \<Longrightarrow> (\<And>v x. p v = Some x \<Longrightarrow> P x) \<Longrightarrow> x \<in> set xs \<Longrightarrow> P x"
  by (induction vs arbitrary: xs) (auto simp: bind_eq_Some_conv)

lemma z_all_map: "\<forall>x \<in> set xs. p (f x) = Some (g x) \<Longrightarrow> z_all p (map f xs) = Some (map g xs)"
  by (induction xs) auto

lemma schema_parsed: "ClientAnswerSchema v = Some a \<Longrightarrow> parsed_answer a"
proof -
  have arr: "z_array z_text u = Some cs \<Longrightarrow> \<forall>c \<in> set cs. trimmed c" for u cs
    by (cases u) (auto dest: z_all_Some [of z_text _ _ trimmed] z_text_Some)
  have num: "z_number u = Some n \<Longrightarrow> n \<noteq> NaN" for u n
    by (cases u) (auto split: if_splits)
  assume "ClientAnswerSchema v = Some a"
  then obtain ob kind where "as_record v = Some ob" "z_enum kind_name all_kinds (obj_get ob ''kind'') = Some kind"
    by (auto simp: ClientAnswerSchema_def bind_eq_Some_conv)
  with \<open>ClientAnswerSchema v = Some a\<close> show "parsed_answer a"
    by (cases kind) (auto simp: ClientAnswerSchema_def parsed_answer_def bind_eq_Some_conv dest: z_text_Some arr num
        split: if_splits)
qed

lemma kind_names: "z_enum kind_name all_kinds (JStr (kind_name k)) = Some k"
  by (cases k) (simp_all add: z_enum_def all_kinds_def)

lemma importance_names: "z_enum importance_name [Imp_required, Imp_important, Imp_optional] (JStr (importance_name i)) = Some i"
  by (cases i) (simp_all add: z_enum_def)

lemma answer_roundtrip:
  assumes "parsed_answer a"
  shows "ClientAnswerSchema (json_of_answer a) = Some a"
proof -
  have ids: "z_array z_text (JArr (map JStr cs)) = Some cs" if "\<forall>c \<in> set cs. trimmed c" for cs
    using that z_all_map [of cs z_text JStr "\<lambda>c. c"] by (simp add: trimmed_def)
  show ?thesis
    using assms kind_names [of "answer_kind a"] ids
    by (cases a) (simp_all add: ClientAnswerSchema_def js_simps parsed_answer_def trimmed_def)
qed

text \<open>Validation accepts exactly the fitting answers, and returns them unchanged.\<close>

lemma check_answer_iff:
  assumes "parsed_answer a" and "answer_kind a = uq_kind q"
  shows "check_answer lib q a code = Inr () \<longleftrightarrow> fits q a"
proof (cases a)
  case (A_single_choice c)
  then show ?thesis
    using assms assert_choices_iff [of q "[c]" code] by (auto simp: check_answer_def fits_def andThen_eq_Inr)
next
  case (A_multi_choice cs)
  then show ?thesis
    using assms assert_choices_iff [of q cs code] by (auto simp: check_answer_def fits_def parsed_answer_def)
next
  case (A_number n)
  then show ?thesis
    using assms by (cases "uq_min q"; cases "uq_max q") (auto simp: check_answer_def fits_def parsed_answer_def)
qed (use assms in \<open>auto simp: check_answer_def fits_def Let_def\<close>)

lemma validate_iff:
  "validateAnswerForQuestion issue lib q v code = Inr a \<longleftrightarrow> ClientAnswerSchema v = Some a \<and> fits q a"
proof (cases "ClientAnswerSchema v")
  case (Some b)
  then show ?thesis
    using check_answer_iff [OF schema_parsed [OF Some], of q lib code]
    by (auto simp: validateAnswerForQuestion_def validate_parsed_def andThen_eq_Inr fits_def)
qed (simp add: validateAnswerForQuestion_def)

lemma fits_parsed:
  assumes "question_ok q" and "fits q a"
  shows "parsed_answer a"
proof -
  have "c \<in> qc_choice_id ` set (or_default [] (uq_choices q)) \<Longrightarrow> trimmed c" for c
    using assms(1) good_id_trim by (auto simp: question_ok_def choices_ok_def choice_ok_def or_default_def trimmed_def good_id_def split: option.splits)
  with assms(2) show ?thesis
    by (auto simp: fits_def parsed_answer_def split: question_answer.splits)
qed

section \<open>Normalisation\<close>

definition raw_choice_ok :: "raw_choice \<Rightarrow> bool" where
  "raw_choice_ok c \<longleftrightarrow> trimmed (rc_label c) \<and> opt_all trimmed (rc_description c)"

definition raw_question_ok :: "raw_question \<Rightarrow> bool" where
  "raw_question_ok q \<longleftrightarrow> trimmed (rq_label q) \<and> opt_all trimmed (rq_help_text q) \<and>
     opt_all (\<lambda>cs. \<forall>c \<in> set cs. raw_choice_ok c) (rq_choices q) \<and> opt_all trimmed (rq_placeholder q) \<and>
     opt_all (\<lambda>n. 0 \<le> n) (rq_min_length q) \<and> opt_all (\<lambda>n. 1 \<le> n) (rq_max_length q) \<and>
     opt_all (\<lambda>n. n \<noteq> NaN) (rq_min q) \<and> opt_all (\<lambda>n. n \<noteq> NaN) (rq_max q) \<and>
     opt_all (js_less (Fin 0)) (rq_step q) \<and> opt_all trimmed (rq_unit q)"

lemma z_optional_all: "z_optional p v = Some x \<Longrightarrow> (\<And>v y. p v = Some y \<Longrightarrow> P y) \<Longrightarrow> opt_all P x"
  by (auto simp: z_optional_def split: if_splits)

lemma z_values:
  "z_int_from lo v = Some n \<Longrightarrow> lo \<le> n" "z_number v = Some m \<Longrightarrow> m \<noteq> NaN" "z_positive v = Some m \<Longrightarrow> js_less (Fin 0) m"
  by (cases v; auto simp: z_int_from_def z_positive_def bind_eq_Some_conv split: if_splits)+

lemma choice_schema_ok: "RawChoiceSchema v = Some c \<Longrightarrow> raw_choice_ok c"
  by (auto simp: RawChoiceSchema_def raw_choice_ok_def bind_eq_Some_conv dest: z_text_Some
      intro: z_optional_all [of z_text _ _ trimmed])

lemma choices_schema_ok: "z_array RawChoiceSchema v = Some cs \<Longrightarrow> \<forall>c \<in> set cs. raw_choice_ok c"
  by (cases v) (auto dest: z_all_Some [of RawChoiceSchema _ _ raw_choice_ok] choice_schema_ok)

lemma question_schema_ok: "RawQuestionSchema v = Some q \<Longrightarrow> raw_question_ok q"
  by (auto simp: RawQuestionSchema_def raw_question_ok_def bind_eq_Some_conv dest: z_text_Some
      intro: z_optional_all [of z_text _ _ trimmed] z_optional_all [OF _ choices_schema_ok] z_optional_all [OF _ z_values(1)]
        z_optional_all [OF _ z_values(2)] z_optional_all [OF _ z_values(3)] z_text_Some)

lemma normalize_choices_ok:
  "normalize_choices_from i seen cs = Inr xs \<Longrightarrow> \<forall>c \<in> set cs. raw_choice_ok c \<Longrightarrow>
   distinct (map qc_choice_id xs) \<and> set (map qc_choice_id xs) \<inter> set seen = {} \<and> (\<forall>x \<in> set xs. choice_ok x) \<and> length xs = length cs"
proof (induction i seen cs arbitrary: xs rule: normalize_choices_from.induct)
  case (2 index seen choice rest)
  let ?id = "normalizeId (or_default (or_default (''choice_'' @ show_nat (index + 1)) (rc_id choice)) (rc_choice_id choice))"
  from "2.prems"(1) have new: "?id \<notin> set seen"
    by (auto simp: Let_def split: if_splits)
  with "2.prems"(1) obtain ys where ys: "normalize_choices_from (index + 1) (?id # seen) rest = Inr ys"
    and xs: "xs = \<lparr>qc_choice_id = ?id, qc_label = js_trim (rc_label choice), qc_description = map_option js_trim (rc_description choice)\<rparr> # ys"
    by (auto simp: Let_def andThen_eq_Inr)
  have "choice_ok (hd xs)"
    using "2.prems"(2) normalizeId_good
    by (cases "rc_description choice") (simp_all add: xs choice_ok_def raw_choice_ok_def trimmed_def)
  with "2.IH" [OF refl new ys] "2.prems"(2) new show ?case
    by (auto simp: xs)
qed simp

lemma normalizeChoices_ok:
  assumes "normalizeChoices q = Inr x" and "raw_question_ok q"
  shows "choices_ok (rq_kind q) x"
proof (cases "is_choice (rq_kind q)")
  case False
  with assms show ?thesis
    by (auto simp: normalizeChoices_def choices_ok_def is_choice_def split: if_splits)
next
  case True
  with assms(1) obtain cs xs where "rq_choices q = Some cs" "cs \<noteq> []" "normalize_choices_from 0 [] cs = Inr xs" "x = Some xs"
    by (auto simp: normalizeChoices_def is_choice_def andThen_eq_Inr split: if_splits)
  with normalize_choices_ok [of 0 "[]" cs xs] assms(2) True show ?thesis
    by (auto simp: choices_ok_def raw_question_ok_def)
qed

lemma truthy_trim_ok: "opt_all trimmed x \<Longrightarrow> truthy_trim x = x"
  by (cases x) (simp_all add: truthy_trim_def trimmed_def)

lemma normalized_question_ok:
  assumes "raw_question_ok rq" and "good_id i" and "choices_ok (rq_kind rq) cs"
  shows "question_ok (normalized_question i cs rq)"
  using assms by (auto simp: question_ok_def normalized_question_def raw_question_ok_def truthy_trim_ok trimmed_def
    DEFAULT_TEXT_MAX_LENGTH_def split: option.split)

lemma fits_default [simp]: "fits (q\<lparr>uq_default_answer := d\<rparr>) a = fits q a"
  by (simp add: fits_def cong: question_answer.case_cong)

lemma with_default_ok:
  assumes "with_default_answer issue lib raw q = Inr q'" and "question_ok q" and "uq_default_answer q = None"
  shows "question_ok q' \<and> uq_question_id q' = uq_question_id q"
  using assms by (auto simp: with_default_answer_def andThen_eq_Inr validate_iff question_ok_def split: if_splits)

lemma normalize_questions_ok:
  "normalize_questions_from issue lib i seen rqs = Inr qs \<Longrightarrow> \<forall>rq \<in> set rqs. raw_question_ok rq \<Longrightarrow>
   distinct (map uq_question_id qs) \<and> set (map uq_question_id qs) \<inter> set seen = {} \<and> (\<forall>q \<in> set qs. question_ok q) \<and>
   length qs = length rqs"
proof (induction issue lib i seen rqs arbitrary: qs rule: normalize_questions_from.induct)
  case (2 issue lib index seen rq rest)
  let ?id = "normalizeId (or_default (or_default (''q_'' @ show_nat (index + 1)) (rq_id rq)) (rq_question_id rq))"
  from "2.prems"(1) have new: "?id \<notin> set seen"
    by (auto simp: Let_def split: if_splits)
  with "2.prems"(1) obtain cs q ys where cs: "normalizeChoices rq = Inr cs"
    and q: "with_default_answer issue lib (rq_default_answer rq) (normalized_question ?id cs rq) = Inr q"
    and ys: "normalize_questions_from issue lib (index + 1) (?id # seen) rest = Inr ys" and qs: "qs = q # ys"
    by (auto simp: Let_def andThen_eq_Inr)
  have rq: "raw_question_ok rq"
    using "2.prems"(2) by simp
  have "question_ok (normalized_question ?id cs rq)"
    using rq normalizeId_good normalizeChoices_ok [OF cs rq] by (rule normalized_question_ok)
  then have "question_ok q" "uq_question_id q = ?id"
    using with_default_ok [OF q] by (simp_all add: normalized_question_def)
  with "2.IH" [OF refl new ys] "2.prems"(2) new show ?case
    by (auto simp: qs)
qed simp

lemma request_schema_ok:
  assumes "RawRequestSchema v = Some raw"
  shows "rw_questions raw \<noteq> [] \<and> (\<forall>rq \<in> set (rw_questions raw). raw_question_ok rq) \<and> opt_all trimmed (rw_title raw) \<and>
    opt_all trimmed (rw_body raw) \<and> opt_all trimmed (rw_submit_label raw) \<and> opt_all trimmed (rw_skip_all_label raw)"
proof -
  have "z_array RawQuestionSchema u = Some rqs \<Longrightarrow> \<forall>rq \<in> set rqs. raw_question_ok rq" for u rqs
    by (cases u) (auto dest: z_all_Some [of RawQuestionSchema _ _ raw_question_ok] question_schema_ok)
  then show ?thesis
    using assms by (auto simp: RawRequestSchema_def bind_eq_Some_conv split: if_splits
      intro: z_optional_all [of z_text _ _ trimmed] z_text_Some)
qed

lemma normalize_request_ok:
  assumes "normalizeAskUserQuestionsRequest issue lib input = Inr r"
  shows "request_ok r \<and> qr_request_id r = None"
proof -
  from assms obtain raw qs where raw: "RawRequestSchema (stripNullFields input) = Some raw"
    and qs: "normalize_questions_from issue lib 0 [] (rw_questions raw) = Inr qs"
    and r: "r = \<lparr>qr_request_id = None, qr_title = truthy_trim (rw_title raw), qr_body = truthy_trim (rw_body raw),
        qr_submit_label = truthy_trim (rw_submit_label raw), qr_skip_all_label = truthy_trim (rw_skip_all_label raw),
        qr_questions = qs\<rparr>"
    by (auto simp: normalizeAskUserQuestionsRequest_def andThen_eq_Inr split: option.splits)
  have ok: "\<forall>rq \<in> set (rw_questions raw). raw_question_ok rq"
    using request_schema_ok [OF raw] by blast
  show ?thesis
    using request_schema_ok [OF raw] normalize_questions_ok [OF qs ok] by (auto simp: r request_ok_def truthy_trim_ok)
qed

section \<open>Stored requests\<close>

definition raw_choice_of :: "question_choice \<Rightarrow> raw_choice" where
  "raw_choice_of c = \<lparr>rc_choice_id = Some (qc_choice_id c), rc_id = None, rc_label = qc_label c, rc_description = qc_description c\<rparr>"

definition raw_question_of :: "user_question \<Rightarrow> raw_question" where
  "raw_question_of q = \<lparr>rq_question_id = Some (uq_question_id q), rq_id = None, rq_kind = uq_kind q, rq_label = uq_label q,
     rq_help_text = uq_help_text q, rq_importance = Some (uq_importance q),
     rq_choices = map_option (map raw_choice_of) (uq_choices q),
     rq_default_answer = (case uq_default_answer q of None \<Rightarrow> JUndef | Some a \<Rightarrow> json_of_answer a),
     rq_multiline = (if uq_multiline q then Some True else None), rq_placeholder = uq_placeholder q,
     rq_min_length = uq_min_length q, rq_max_length = uq_max_length q, rq_min = uq_min q, rq_max = uq_max q,
     rq_step = uq_step q, rq_unit = uq_unit q\<rparr>"

lemma obj_get_append: "obj_get (a @ b) k = (if obj_has a k then obj_get a k else obj_get b k)"
  by (induction a) (auto simp: js_simps)

lemma obj_get_opt [js_simps]:
  "obj_get (opt_field k f x @ rest) k' = (if k = k' then (case x of Some y \<Rightarrow> f y | None \<Rightarrow> obj_get rest k') else obj_get rest k')"
  "obj_get (opt_field k f x) k' = (if k = k' then (case x of Some y \<Rightarrow> f y | None \<Rightarrow> JUndef) else JUndef)"
  by (cases x; simp add: opt_field_def js_simps)+

lemma obj_get_if [js_simps]:
  "obj_get ((if b then [(k, v)] else []) @ rest) k' = (if b \<and> k = k' then v else obj_get rest k')"
  by (simp add: js_simps)

lemma optional_stored:
  "opt_all (\<lambda>y. f y \<noteq> JUndef \<and> p (f y) = Some (g y)) x \<Longrightarrow>
   z_optional p (case x of Some y \<Rightarrow> f y | None \<Rightarrow> JUndef) = Some (map_option g x)"
  by (cases x) (simp_all add: z_optional_def)

lemma optional_text: "opt_all trimmed x \<Longrightarrow> z_optional z_text (case x of Some y \<Rightarrow> JStr y | None \<Rightarrow> JUndef) = Some x"
  using optional_stored [of JStr z_text "\<lambda>y. y" x] by (cases x) (simp_all add: trimmed_def)

lemma optional_present:
  "z_optional p JUndef = Some None" "v \<noteq> JUndef \<Longrightarrow> z_optional p v = map_option Some (p v)"
  by (simp_all add: z_optional_def)

lemma good_id_trimmed: "good_id s \<Longrightarrow> trimmed s"
  by (simp add: trimmed_def good_id_trim) (simp add: good_id_def)

lemma choice_stored: "choice_ok c \<Longrightarrow> RawChoiceSchema (json_of_choice c) = Some (raw_choice_of c)"
  by (simp add: json_of_choice_def RawChoiceSchema_def js_simps optional_text choice_ok_def raw_choice_of_def optional_present
    z_text_trimmed good_id_trimmed del: z_text.simps)

lemma json_stored_present [simp]: "json_of_answer a \<noteq> JUndef" "json_of_answer a \<noteq> JNull" "json_of_choice c \<noteq> JNull"
  "json_of_question q \<noteq> JNull"
  by (cases a; simp) (cases a; simp add: json_of_choice_def json_of_question_def)+

lemma question_field_gets:
  "obj_get (question_fields q) ''question_id'' = JStr (uq_question_id q)"
  "obj_get (question_fields q) ''id'' = JUndef"
  "obj_get (question_fields q) ''kind'' = JStr (kind_name (uq_kind q))"
  "obj_get (question_fields q) ''label'' = JStr (uq_label q)"
  "obj_get (question_fields q) ''help_text'' = (case uq_help_text q of Some y \<Rightarrow> JStr y | None \<Rightarrow> JUndef)"
  "obj_get (question_fields q) ''importance'' = JStr (importance_name (uq_importance q))"
  "obj_get (question_fields q) ''choices'' = (case uq_choices q of Some cs \<Rightarrow> JArr (map json_of_choice cs) | None \<Rightarrow> JUndef)"
  "obj_get (question_fields q) ''multiline'' = (if uq_multiline q then JBool True else JUndef)"
  "obj_get (question_fields q) ''placeholder'' = (case uq_placeholder q of Some y \<Rightarrow> JStr y | None \<Rightarrow> JUndef)"
  "obj_get (question_fields q) ''min_length'' = (case uq_min_length q of Some y \<Rightarrow> JInt y | None \<Rightarrow> JUndef)"
  "obj_get (question_fields q) ''max_length'' = (case uq_max_length q of Some y \<Rightarrow> JInt y | None \<Rightarrow> JUndef)"
  "obj_get (question_fields q) ''min'' = (case uq_min q of Some y \<Rightarrow> JNum y | None \<Rightarrow> JUndef)"
  "obj_get (question_fields q) ''max'' = (case uq_max q of Some y \<Rightarrow> JNum y | None \<Rightarrow> JUndef)"
  "obj_get (question_fields q) ''step'' = (case uq_step q of Some y \<Rightarrow> JNum y | None \<Rightarrow> JUndef)"
  "obj_get (question_fields q) ''unit'' = (case uq_unit q of Some y \<Rightarrow> JStr y | None \<Rightarrow> JUndef)"
  "obj_get (question_fields q) ''default_answer'' = (case uq_default_answer q of Some y \<Rightarrow> json_of_answer y | None \<Rightarrow> JUndef)"
  by (simp_all add: question_fields_def js_simps cong: option.case_cong)

lemma question_stored:
  assumes "question_ok q"
  shows "RawQuestionSchema (json_of_question q) = Some (raw_question_of q)"
proof -
  have ok: "opt_all trimmed (uq_help_text q)" "opt_all trimmed (uq_placeholder q)" "opt_all trimmed (uq_unit q)"
    "trimmed (uq_label q)" "trimmed (uq_question_id q)"
    using assms good_id_trimmed by (auto simp: question_ok_def)
  have choices: "z_optional (z_array RawChoiceSchema) (case uq_choices q of Some cs \<Rightarrow> JArr (map json_of_choice cs) | None \<Rightarrow> JUndef) =
      Some (map_option (map raw_choice_of) (uq_choices q))"
    using assms by (intro optional_stored)
      (auto simp: opt_all_def question_ok_def choices_ok_def choice_stored intro!: z_all_map)
  have ints: "z_optional (z_int_from lo) (case x of Some n \<Rightarrow> JInt n | None \<Rightarrow> JUndef) = Some x" if "opt_all (\<lambda>n. lo \<le> n) x" for lo x
    using that by (cases x) (simp_all add: optional_present z_int_from_def)
  have nums: "z_optional z_number (case x of Some n \<Rightarrow> JNum n | None \<Rightarrow> JUndef) = Some x" if "opt_all (\<lambda>n. n \<noteq> NaN) x" for x
    using that by (cases x) (simp_all add: optional_present)
  have step: "z_optional z_positive (case uq_step q of Some n \<Rightarrow> JNum n | None \<Rightarrow> JUndef) = Some (uq_step q)"
    using assms by (cases "uq_step q") (auto simp: optional_present z_positive_def question_ok_def)
  have multi: "z_optional z_bool (if b then JBool True else JUndef) = Some (if b then Some True else None)" for b
    by (simp add: optional_present)
  have more: "opt_all (\<lambda>n. 0 \<le> n) (uq_min_length q)" "opt_all (\<lambda>n. 1 \<le> n) (uq_max_length q)"
    "opt_all (\<lambda>n. n \<noteq> NaN) (uq_min q)" "opt_all (\<lambda>n. n \<noteq> NaN) (uq_max q)"
    using assms by (simp_all add: question_ok_def)
  show ?thesis
    unfolding json_of_question_def RawQuestionSchema_def as_record.simps Option.bind.simps question_field_gets
      raw_question_of_def
    using ok by (simp add: optional_text optional_present z_text_trimmed kind_names importance_names ints more nums
      multi choices step del: z_text.simps cong: option.case_cong)
qed

text \<open>Stored requests contain no nulls.\<close>

definition strip_pairs :: "js_object \<Rightarrow> js_object" where
  "strip_pairs ob = map (\<lambda>p. (fst p, stripNullFields (snd p))) (filter (\<lambda>p. snd p \<noteq> JNull) ob)"

lemma strip_pairs_simps [simp]:
  "strip_pairs [] = []" "strip_pairs (a @ b) = strip_pairs a @ strip_pairs b"
  "strip_pairs ((k, v) # ob) = (if v = JNull then strip_pairs ob else (k, stripNullFields v) # strip_pairs ob)"
  by (simp_all add: strip_pairs_def)

lemma strip_JObj: "stripNullFields (JObj ob) = JObj (strip_pairs ob)"
  by (simp add: strip_pairs_def)

lemma strip_opt_field: "(\<And>y. f y \<noteq> JNull \<and> stripNullFields (f y) = f y) \<Longrightarrow> strip_pairs (opt_field k f x) = opt_field k f x"
  by (cases x) (simp_all add: opt_field_def)

lemma strip_answer: "stripNullFields (json_of_answer a) = json_of_answer a"
  by (cases a) (simp_all add: strip_JObj del: stripNullFields.simps(2))

lemma strip_choice: "stripNullFields (json_of_choice c) = json_of_choice c"
  unfolding json_of_choice_def strip_JObj by (simp add: strip_opt_field)

lemma strip_question: "stripNullFields (json_of_question q) = json_of_question q"
  unfolding json_of_question_def question_fields_def strip_JObj by (simp add: strip_opt_field strip_answer strip_choice)

lemma strip_request: "stripNullFields (json_of_request r) = json_of_request r"
  unfolding json_of_request_def strip_JObj by (simp add: strip_opt_field strip_question)

text \<open>Normalising what is stored gives it back.\<close>

lemma choices_back:
  "\<forall>c \<in> set cs. choice_ok c \<Longrightarrow> distinct (map qc_choice_id cs) \<Longrightarrow> set (map qc_choice_id cs) \<inter> set seen = {} \<Longrightarrow>
   normalize_choices_from i seen (map raw_choice_of cs) = Inr cs"
proof (induction cs arbitrary: i seen)
  case (Cons c cs)
  have c: "\<lparr>qc_choice_id = qc_choice_id c, qc_label = js_trim (qc_label c), qc_description = map_option js_trim (qc_description c)\<rparr> = c"
    using Cons.prems(1) by (cases "qc_description c") (auto simp: choice_ok_def trimmed_def)
  have "normalizeId (qc_choice_id c) = qc_choice_id c"
    using Cons.prems(1) by (simp add: choice_ok_def good_id_normalized)
  with Cons c show ?case
    by (auto simp: raw_choice_of_def or_default_def Let_def)
qed simp

lemma question_back:
  assumes "question_ok q"
  shows "normalizeChoices (raw_question_of q) = Inr (uq_choices q)"
    "with_default_answer issue lib (rq_default_answer (raw_question_of q))
       (normalized_question (uq_question_id q) (uq_choices q) (raw_question_of q)) = Inr q"
proof -
  show "normalizeChoices (raw_question_of q) = Inr (uq_choices q)"
    using assms choices_back [of "the (uq_choices q)" "[]" 0]
    by (cases "uq_choices q")
       (auto simp: normalizeChoices_def raw_question_of_def question_ok_def choices_ok_def is_choice_def)
  have q: "normalized_question (uq_question_id q) (uq_choices q) (raw_question_of q) = q\<lparr>uq_default_answer := None\<rparr>"
    using assms by (cases q)
      (auto simp: normalized_question_def raw_question_of_def question_ok_def truthy_trim_ok or_default_def trimmed_def
        split: option.split)
  show "with_default_answer issue lib (rq_default_answer (raw_question_of q))
       (normalized_question (uq_question_id q) (uq_choices q) (raw_question_of q)) = Inr q"
  proof (cases "uq_default_answer q")
    case None
    then have "rq_default_answer (raw_question_of q) = JUndef"
      by (simp add: raw_question_of_def)
    with None show ?thesis
      unfolding q with_default_answer_def by simp
  next
    case (Some a)
    with assms have a: "fits q a"
      by (simp add: question_ok_def)
    then have "validateAnswerForQuestion issue lib (q\<lparr>uq_default_answer := None\<rparr>) (json_of_answer a) ''invalid_default_answer'' = Inr a"
      by (simp add: validate_iff answer_roundtrip [OF fits_parsed [OF assms a]])
    moreover have "rq_default_answer (raw_question_of q) = json_of_answer a"
      using Some by (simp add: raw_question_of_def)
    ultimately show ?thesis
      using Some unfolding q with_default_answer_def by simp
  qed
qed

lemma questions_back:
  "\<forall>q \<in> set qs. question_ok q \<Longrightarrow> distinct (map uq_question_id qs) \<Longrightarrow> set (map uq_question_id qs) \<inter> set seen = {} \<Longrightarrow>
   normalize_questions_from issue lib i seen (map raw_question_of qs) = Inr qs"
proof (induction qs arbitrary: i seen)
  case (Cons q qs)
  then have ok: "question_ok q" and i: "normalizeId (uq_question_id q) = uq_question_id q"
    by (simp_all add: question_ok_def good_id_normalized)
  have "or_default x (rq_question_id (raw_question_of q)) = uq_question_id q" for x
    by (simp add: raw_question_of_def or_default_def)
  with Cons i question_back [OF ok] show ?case
    by (auto simp: Let_def)
qed simp

lemma request_back:
  assumes "request_ok r"
  shows "normalizeAskUserQuestionsRequest issue lib (json_of_request r) = Inr (r\<lparr>qr_request_id := None\<rparr>)"
proof -
  have "z_all RawQuestionSchema (map json_of_question (qr_questions r)) = Some (map raw_question_of (qr_questions r))"
    using assms by (intro z_all_map) (auto simp: request_ok_def question_stored)
  then have "RawRequestSchema (json_of_request r) = Some \<lparr>rw_title = qr_title r, rw_body = qr_body r,
      rw_submit_label = qr_submit_label r, rw_skip_all_label = qr_skip_all_label r,
      rw_questions = map raw_question_of (qr_questions r)\<rparr>"
    using assms by (simp add: RawRequestSchema_def json_of_request_def js_simps request_ok_def optional_text
      cong: option.case_cong)
  then show ?thesis
    using assms questions_back [of "qr_questions r" "[]" issue lib 0]
    by (cases r) (simp add: normalizeAskUserQuestionsRequest_def strip_request request_ok_def truthy_trim_ok)
qed

lemma obj_set_same: "obj_has ob k \<Longrightarrow> obj_set k (obj_get ob k) ob = ob"
  by (induction ob) (auto simp: js_simps)

section \<open>Responses\<close>

lemma index_answers_Inr: "index_answers as m = Inr m' \<Longrightarrow> m' = m @ map (\<lambda>a. (ra_question_id a, a)) as"
proof (induction as arbitrary: m)
  case (Cons a as)
  then have rest: "index_answers as (m @ [(ra_question_id a, a)]) = Inr m'"
    by (simp split: if_splits)
  show ?case
    using Cons.IH [OF rest] by simp
qed simp

lemma index_answers_distinct: "index_answers as m = Inr m' \<Longrightarrow> distinct (map fst m) \<Longrightarrow> distinct (map fst m')"
proof (induction as arbitrary: m)
  case (Cons a as)
  then have new: "ra_question_id a \<notin> fst ` set m" and rest: "index_answers as (m @ [(ra_question_id a, a)]) = Inr m'"
    by (auto simp: map_of_eq_None_iff split: if_splits)
  with Cons.prems(2) show ?case
    by (intro Cons.IH [OF rest]) simp
qed simp

text \<open>The answer that is recorded for a question, given what the client sent for it.\<close>

definition recorded :: "user_question \<Rightarrow> response_answer option \<Rightarrow> response_answer \<Rightarrow> bool" where
  "recorded q sent a \<longleftrightarrow> ra_question_id a = uq_question_id q \<and>
     (case sent of
        None \<Rightarrow> ra_status a = Skipped \<and> ra_answer a = None \<and> ra_skip_reason a = Some User_skipped
      | Some s \<Rightarrow>
          if ra_status s = Skipped
          then ra_status a = Skipped \<and> ra_answer a = None \<and> ra_skip_reason a = Some (or_default User_skipped (ra_skip_reason s))
          else ra_status a = Answered \<and> ra_skip_reason a = None \<and>
            (\<exists>x. ra_answer s = Some x \<and> ra_answer a = Some x \<and> fits q x))"

lemma answer_recorded:
  assumes "normalize_answer issue lib q sent = Inr a" and "\<And>s. sent = Some s \<Longrightarrow> opt_all parsed_answer (ra_answer s)"
  shows "recorded q sent a"
proof (cases sent)
  case None
  with assms(1) show ?thesis
    by (auto simp: normalize_answer_def recorded_def)
next
  case (Some s)
  have same: "validateAnswerForQuestion issue lib q (json_of_answer x) code = Inr y \<longleftrightarrow> y = x \<and> fits q x"
    if "ra_answer s = Some x" for x y code
    using that assms(2) [OF Some] by (auto simp: validate_iff answer_roundtrip)
  show ?thesis
  proof (cases "ra_status s")
    case Skipped
    with assms(1) Some show ?thesis
      by (auto simp: normalize_answer_def recorded_def)
  next
    case Answered
    with assms(1) Some same show ?thesis
      by (auto simp: normalize_answer_def recorded_def andThen_eq_Inr split: option.splits)
  qed
qed

lemma answers_recorded:
  assumes "\<And>i s. map_of m i = Some s \<Longrightarrow> opt_all parsed_answer (ra_answer s)"
  shows "normalize_answers issue lib m qs = Inr as \<Longrightarrow> list_all2 (\<lambda>q. recorded q (map_of m (uq_question_id q))) qs as"
proof (induction qs arbitrary: as)
  case (Cons q qs)
  then obtain a as' where a: "normalize_answer issue lib q (map_of m (uq_question_id q)) = Inr a"
    and as': "normalize_answers issue lib m qs = Inr as'" "as = a # as'"
    by (auto simp: andThen_eq_Inr)
  then show ?case
    using answer_recorded [OF a assms] Cons.IH [OF as'(1)] by simp
qed simp

lemma entry_parsed: "ClientAnswerEntrySchema v = Some a \<Longrightarrow> opt_all parsed_answer (ra_answer a)"
  by (auto simp: ClientAnswerEntrySchema_def bind_eq_Some_conv intro: z_optional_all [OF _ schema_parsed])

lemma response_parsed:
  assumes "ClientResponseSchema is_uuid v = Some parsed" and "a \<in> set (qs_answers parsed)"
  shows "opt_all parsed_answer (ra_answer a)"
proof -
  have "z_array ClientAnswerEntrySchema u = Some as \<Longrightarrow> \<forall>a \<in> set as. opt_all parsed_answer (ra_answer a)" for u as
    by (cases u) (auto dest: z_all_Some [of ClientAnswerEntrySchema _ _ "\<lambda>a. opt_all parsed_answer (ra_answer a)"] entry_parsed)
  with assms show ?thesis
    by (auto simp: ClientResponseSchema_def bind_eq_Some_conv split: if_splits)
qed

text \<open>What the client sent for a question.\<close>

definition sent_for :: "questions_response \<Rightarrow> string \<Rightarrow> response_answer option" where
  "sent_for parsed i = List.find (\<lambda>a. ra_question_id a = i) (qs_answers parsed)"

lemma map_of_sent: "map_of (map (\<lambda>a. (ra_question_id a, a)) as) i = List.find (\<lambda>a. ra_question_id a = i) as"
  by (induction as) auto

lemma validated_response:
  assumes "validateAskUserQuestionsResponse issue is_uuid lib input r = Inr resp"
  obtains parsed where "ClientResponseSchema is_uuid input = Some parsed"
    "distinct (map ra_question_id (qs_answers parsed))"
    "set (map ra_question_id (qs_answers parsed)) \<subseteq> set (map uq_question_id (qr_questions r))"
    "list_all2 (\<lambda>q. recorded q (sent_for parsed (uq_question_id q))) (qr_questions r) (qs_answers resp)"
    "qs_client_response_id resp = qs_client_response_id parsed"
proof -
  from assms obtain parsed m as where p: "ClientResponseSchema is_uuid input = Some parsed"
    and m: "index_answers (qs_answers parsed) [] = Inr m"
    and known: "List.find (\<lambda>i. i \<notin> set (map uq_question_id (qr_questions r))) (map fst m) = None"
    and as: "normalize_answers issue lib m (qr_questions r) = Inr as"
    and resp: "resp = \<lparr>qs_client_response_id = qs_client_response_id parsed, qs_answers = as\<rparr>"
    by (auto simp: validateAskUserQuestionsResponse_def andThen_eq_Inr split: option.splits)
  have idx: "m = map (\<lambda>a. (ra_question_id a, a)) (qs_answers parsed)" "distinct (map fst m)"
    using index_answers_Inr [OF m] index_answers_distinct [OF m] by simp_all
  then have ids: "map fst m = map ra_question_id (qs_answers parsed)"
    by simp
  have "list_all2 (\<lambda>q. recorded q (map_of m (uq_question_id q))) (qr_questions r) as"
    using as by (rule answers_recorded [rotated])
      (use idx response_parsed [OF p] in \<open>auto dest!: map_of_SomeD\<close>)
  then have rec: "list_all2 (\<lambda>q. recorded q (sent_for parsed (uq_question_id q))) (qr_questions r) (qs_answers resp)"
    by (simp add: resp sent_for_def map_of_sent idx(1))
  have dis: "distinct (map ra_question_id (qs_answers parsed))"
    using idx(2) unfolding ids .
  have "set (map fst m) \<subseteq> set (map uq_question_id (qr_questions r))"
    using known unfolding find_None_iff by blast
  then have sub: "set (map ra_question_id (qs_answers parsed)) \<subseteq> set (map uq_question_id (qr_questions r))"
    unfolding ids .
  show ?thesis
    by (rule that [OF p dis sub rec]) (simp add: resp)
qed

text \<open>What a tool result shows of a recorded answer.\<close>

lemma recorded_ids: "list_all2 (\<lambda>q. recorded q (f q)) qs as \<Longrightarrow> map ra_question_id as = map uq_question_id qs"
  by (induction rule: list_all2_induct) (simp_all add: recorded_def)

lemma map_of_rev_distinct:
  "distinct (map k as) \<Longrightarrow> a \<in> set as \<Longrightarrow> map_of (rev (map (\<lambda>a. (k a, a)) as)) (k a) = Some a"
  by (rule map_of_is_SomeI) (auto simp: rev_map comp_def simp flip: rev_map)

definition shown :: "js_lib \<Rightarrow> user_question \<Rightarrow> response_answer \<Rightarrow> result_response \<Rightarrow> bool" where
  "shown lib q a x \<longleftrightarrow> rr_question_id x = uq_question_id q \<and> rr_question x = view_of q \<and>
     rr_status x = ra_status a \<and> rr_answer x = ra_answer a \<and>
     rr_display_answer x = map_option (formatAnswer lib q) (ra_answer a) \<and> rr_skip_reason x = ra_skip_reason a"

lemma recorded_skip: "recorded q s a \<Longrightarrow> ra_skip_reason a = (if ra_status a = Skipped
    then Some (or_default User_skipped (ra_skip_reason a)) else None)"
  by (auto simp: recorded_def or_default_def split: option.splits if_splits)

lemma result_shown:
  assumes "distinct (map ra_question_id as)" and "a \<in> set as" and "recorded q s a"
  shows "shown lib q a (result_for lib as q)"
proof -
  have "map_of (rev (map (\<lambda>a. (ra_question_id a, a)) as)) (uq_question_id q) = Some a"
    using map_of_rev_distinct [OF assms(1,2)] assms(3) by (simp add: recorded_def)
  then show ?thesis
    using recorded_skip [OF assms(3)] by (simp add: shown_def result_for_def or_default_def)
qed

text \<open>What is finite is stored as it is.\<close>

definition finite_answer :: "question_answer \<Rightarrow> bool" where
  "finite_answer a \<longleftrightarrow> (case a of A_number n \<Rightarrow> is_finite n | _ \<Rightarrow> True)"

definition finite_question :: "user_question \<Rightarrow> bool" where
  "finite_question q \<longleftrightarrow> opt_all is_finite (uq_min q) \<and> opt_all is_finite (uq_max q) \<and> opt_all is_finite (uq_step q) \<and>
     opt_all finite_answer (uq_default_answer q)"

definition stored_pairs :: "js_object \<Rightarrow> js_object" where
  "stored_pairs ob = map (\<lambda>p. (fst p, stored_json (snd p))) (filter (\<lambda>p. snd p \<noteq> JUndef) ob)"

lemma stored_pairs_simps [simp]:
  "stored_pairs [] = []" "stored_pairs (a @ b) = stored_pairs a @ stored_pairs b"
  "stored_pairs ((k, v) # ob) = (if v = JUndef then stored_pairs ob else (k, stored_json v) # stored_pairs ob)"
  by (simp_all add: stored_pairs_def)

lemma stored_JObj: "stored_json (JObj ob) = JObj (stored_pairs ob)"
  by (simp add: stored_pairs_def)

lemma stored_opt_field:
  "opt_all (\<lambda>y. f y \<noteq> JUndef \<and> stored_json (f y) = f y) x \<Longrightarrow> stored_pairs (opt_field k f x) = opt_field k f x"
  by (cases x) (simp_all add: opt_field_def opt_all_def)

lemma stored_array: "(\<And>x. x \<in> set xs \<Longrightarrow> f x \<noteq> JUndef \<and> stored_json (f x) = f x) \<Longrightarrow> stored_json (JArr (map f xs)) = JArr (map f xs)"
  by simp

lemma stored_answer: "finite_answer a \<Longrightarrow> stored_json (json_of_answer a) = json_of_answer a"
  by (cases a) (simp_all add: finite_answer_def comp_def)

lemma stored_choice: "stored_json (json_of_choice c) = json_of_choice c"
  unfolding json_of_choice_def stored_JObj by (simp add: stored_opt_field opt_all_def split: option.split)

lemma choice_present: "json_of_choice c \<noteq> JUndef"
  by (simp add: json_of_choice_def)

lemma stored_question:
  assumes "finite_question q"
  shows "stored_json (json_of_question q) = json_of_question q"
proof -
  have texts: "stored_pairs (opt_field k JStr x) = opt_field k JStr x" for k x
    by (rule stored_opt_field) (simp add: opt_all_def split: option.split)
  have ints: "stored_pairs (opt_field k JInt x) = opt_field k JInt x" for k x
    by (rule stored_opt_field) (simp add: opt_all_def split: option.split)
  have nums: "stored_pairs (opt_field k JNum x) = opt_field k JNum x" if "opt_all is_finite x" for k x
    using that by (intro stored_opt_field) (simp add: opt_all_def split: option.splits)
  have choices: "stored_pairs (opt_field ''choices'' (\<lambda>cs. JArr (map json_of_choice cs)) x) =
      opt_field ''choices'' (\<lambda>cs. JArr (map json_of_choice cs)) x" for x
    by (rule stored_opt_field) (auto simp: opt_all_def stored_choice choice_present split: option.split)
  have answer: "stored_pairs (opt_field ''default_answer'' json_of_answer (uq_default_answer q)) =
      opt_field ''default_answer'' json_of_answer (uq_default_answer q)"
    using assms by (intro stored_opt_field) (auto simp: opt_all_def finite_question_def stored_answer split: option.splits)
  show ?thesis
    using assms unfolding json_of_question_def question_fields_def stored_JObj
    by (simp add: texts ints nums choices answer finite_question_def)
qed

lemma stored_request:
  assumes "\<forall>q \<in> set (qr_questions r). finite_question q"
  shows "stored_json (json_of_request r) = json_of_request r"
proof -
  have texts: "stored_pairs (opt_field k JStr x) = opt_field k JStr x" for k x
    by (rule stored_opt_field) (simp add: opt_all_def split: option.split)
  have "stored_json (JArr (map json_of_question (qr_questions r))) = JArr (map json_of_question (qr_questions r))"
    using assms by (intro stored_array) (simp add: stored_question, simp add: json_of_question_def)
  then show ?thesis
    unfolding json_of_request_def stored_JObj by (simp add: texts)
qed

section \<open>Properties\<close>

text \<open>C23: normalising a tool call gives a well-formed request: at least one question, distinct identifiers,
  choices exactly where the kind needs them and distinct, limits in range, and every default answer
  fits its question.\<close>

theorem normalized_request_wellformed:
  assumes "normalizeAskUserQuestionsRequest issue lib input = Inr r"
  shows "request_ok r"
  using normalize_request_ok [OF assms] by blast

text \<open>C22: a request that was normalised, given its identifier and stored in its \<open>jsonb\<close> column is read
  back as it was stored, provided that the numbers of its questions (\<open>min\<close>, \<open>max\<close>, \<open>step\<close> and the
  value of a numeric default answer) are finite: the contract accepts infinite ones, and those are
  stored as null.\<close>

theorem stored_request_roundtrip:
  assumes "normalizeAskUserQuestionsRequest issue lib input = Inr r" and "i \<noteq> []"
    and "\<forall>q \<in> set (qr_questions r). finite_question q"
    and "createAgentQuestionRequest r i = (request, column)"
  shows "request = r\<lparr>qr_request_id := Some i\<rparr> \<and>
         parseStoredAskUserQuestionsRequest issue' lib' column = Inr request"
proof -
  let ?r = "attachRequestIdToAskUserQuestionsRequest r i"
  have r: "request_ok r" "qr_request_id r = None"
    using normalize_request_ok [OF assms(1)] by blast+
  have call: "request = ?r" "column = json_of_request ?r"
    using assms(3,4) stored_request [of ?r]
    by (auto simp: createAgentQuestionRequest_def Let_def attachRequestIdToAskUserQuestionsRequest_def)
  have "request_ok ?r"
    using r by (simp add: attachRequestIdToAskUserQuestionsRequest_def request_ok_def)
  from request_back [OF this] have norm: "normalizeAskUserQuestionsRequest issue' lib' (json_of_request ?r) = Inr r"
    using r(2) by (cases r) (simp add: attachRequestIdToAskUserQuestionsRequest_def)
  obtain ob where ob: "json_of_request ?r = JObj ob" and sch: "obj_get ob ''schema'' = JStr ASK_USER_QUESTIONS_REQUEST_SCHEMA"
    and has: "obj_has ob ''questions''" and rid: "obj_get ob ''request_id'' = JStr i"
    by (simp add: json_of_request_def js_simps attachRequestIdToAskUserQuestionsRequest_def obj_has_def map_add_def
      split: option.split)
  show ?thesis
    using norm assms(2) unfolding call ob
    by (simp add: parseStoredAskUserQuestionsRequest_def sch rid obj_set_same [OF has] js_simps
      attachRequestIdToAskUserQuestionsRequest_def)
qed

text \<open>C24: a client's response that is accepted answered each question at most once and no question that was
  not asked, and the stored response has one entry per question in the order of the request: the
  client's answer, which fits the question, where there is one, and a skip with its reason otherwise.\<close>

theorem response_answers_every_question:
  assumes "validateAskUserQuestionsResponse issue is_uuid lib input r = Inr resp"
  shows "\<exists>parsed. ClientResponseSchema is_uuid input = Some parsed \<and>
    qs_client_response_id resp = qs_client_response_id parsed \<and>
    distinct (map ra_question_id (qs_answers parsed)) \<and>
    set (map ra_question_id (qs_answers parsed)) \<subseteq> set (map uq_question_id (qr_questions r)) \<and>
    list_all2 (\<lambda>q. recorded q (sent_for parsed (uq_question_id q))) (qr_questions r) (qs_answers resp)"
  using assms by (rule validated_response) blast

text \<open>The tool result of an accepted response shows, for each question of a well-formed request in its
  order, exactly the answer, the displayed text and the skip reason that were recorded for it.\<close>

theorem tool_result_faithful:
  assumes "request_ok r" and "validateAskUserQuestionsResponse issue is_uuid lib input r = Inr resp"
  shows "map rr_question_id (qx_responses (buildAskUserQuestionsToolResult lib r resp i)) = map uq_question_id (qr_questions r) \<and>
    length (qs_answers resp) = length (qr_questions r) \<and>
    (\<forall>(q, a, x) \<in> set (zip (qr_questions r) (zip (qs_answers resp)
       (qx_responses (buildAskUserQuestionsToolResult lib r resp i)))). shown lib q a x)"
proof -
  obtain parsed where rec: "list_all2 (\<lambda>q. recorded q (sent_for parsed (uq_question_id q))) (qr_questions r) (qs_answers resp)"
    using assms(2) by (rule validated_response)
  have "distinct (map uq_question_id (qr_questions r))"
    using assms(1) by (simp add: request_ok_def)
  then have dis: "distinct (map ra_question_id (qs_answers resp))"
    using recorded_ids [OF rec] by simp
  have len: "length (qs_answers resp) = length (qr_questions r)"
    using list_all2_lengthD [OF rec] by simp
  have "shown lib (qr_questions r ! n) (qs_answers resp ! n) (result_for lib (qs_answers resp) (qr_questions r ! n))"
    if "n < length (qr_questions r)" for n
    using that len list_all2_nthD [OF rec that] by (intro result_shown [OF dis]) auto
  then show ?thesis
    using len by (auto simp: buildAskUserQuestionsToolResult_def Let_def set_zip comp_def result_for_def [abs_def] intro!: nth_equalityI)
qed

text \<open>A request and a response for the witnesses.\<close>

definition demo_lib :: js_lib where
  "demo_lib = \<lparr>lib_stringify = \<lambda>_. ''{}'', lib_parse = \<lambda>_. None, lib_dateParse = \<lambda>_. NaN,
     lib_toISOString = \<lambda>_. None, lib_numberToString = \<lambda>_. ''n''\<rparr>"

definition demo_call :: json where
  "demo_call = JObj [(''title'', JStr '' Setup ''), (''body'', JNull),
     (''questions'', JArr [
        JObj [(''kind'', JStr ''single_choice''), (''label'', JStr ''Which?''),
              (''choices'', JArr [JObj [(''label'', JStr ''One'')], JObj [(''id'', JStr ''b c''), (''label'', JStr ''Two'')]]),
              (''default_answer'', JObj [(''kind'', JStr ''single_choice''), (''choice_id'', JStr ''b_c'')])],
        JObj [(''id'', JStr ''name''), (''kind'', JStr ''text''), (''label'', JStr ''Name'')]])]"

definition demo_request :: questions_request where
  "demo_request = \<lparr>qr_request_id = None, qr_title = Some ''Setup'', qr_body = None, qr_submit_label = None,
     qr_skip_all_label = None, qr_questions = [
       \<lparr>uq_question_id = ''q_1'', uq_kind = Q_single_choice, uq_label = ''Which?'', uq_help_text = None,
        uq_importance = Imp_optional,
        uq_choices = Some [\<lparr>qc_choice_id = ''choice_1'', qc_label = ''One'', qc_description = None\<rparr>,
                           \<lparr>qc_choice_id = ''b_c'', qc_label = ''Two'', qc_description = None\<rparr>],
        uq_multiline = False, uq_placeholder = None, uq_min_length = None, uq_max_length = None,
        uq_min = None, uq_max = None, uq_step = None, uq_unit = None,
        uq_default_answer = Some (A_single_choice ''b_c'')\<rparr>,
       \<lparr>uq_question_id = ''name'', uq_kind = Q_text, uq_label = ''Name'', uq_help_text = None,
        uq_importance = Imp_optional, uq_choices = None,
        uq_multiline = False, uq_placeholder = None, uq_min_length = None, uq_max_length = Some 4000,
        uq_min = None, uq_max = None, uq_step = None, uq_unit = None, uq_default_answer = None\<rparr>]\<rparr>"

definition demo_reply :: json where
  "demo_reply = JObj [(''schema'', JStr ASK_USER_QUESTIONS_RESPONSE_SCHEMA), (''client_response_id'', JStr ''u1''),
     (''answers'', JArr [JObj [(''question_id'', JStr ''name''), (''status'', JStr ''answered''),
        (''answer'', JObj [(''kind'', JStr ''text''), (''value'', JStr ''Ada'')])]])]"

definition demo_response :: questions_response where
  "demo_response = \<lparr>qs_client_response_id = ''u1'', qs_answers = [
     \<lparr>ra_question_id = ''q_1'', ra_status = Skipped, ra_answer = None, ra_skip_reason = Some User_skipped\<rparr>,
     \<lparr>ra_question_id = ''name'', ra_status = Answered, ra_answer = Some (A_text ''Ada''), ra_skip_reason = None\<rparr>]\<rparr>"

lemma demo_normalized: "normalizeAskUserQuestionsRequest (\<lambda>_ _. []) demo_lib demo_call = Inr demo_request"
  by code_simp

lemma demo_validated:
  "validateAskUserQuestionsResponse (\<lambda>_ _. []) (\<lambda>_. True) demo_lib demo_reply demo_request = Inr demo_response"
  by code_simp

theorem normalized_request_wellformed_witness:
  "normalizeAskUserQuestionsRequest (\<lambda>_ _. []) demo_lib demo_call = Inr demo_request \<and> request_ok demo_request"
  using normalized_request_wellformed [OF demo_normalized] demo_normalized by (intro conjI)

theorem stored_request_roundtrip_witness:
  "parseStoredAskUserQuestionsRequest (\<lambda>_ _. []) demo_lib (snd (createAgentQuestionRequest demo_request ''r1''))
   = Inr (demo_request\<lparr>qr_request_id := Some ''r1''\<rparr>)"
proof -
  obtain request column where call: "createAgentQuestionRequest demo_request ''r1'' = (request, column)"
    by fastforce
  have fin: "\<forall>q \<in> set (qr_questions demo_request). finite_question q"
    by (simp add: demo_request_def finite_question_def finite_answer_def opt_all_def)
  show ?thesis
    using stored_request_roundtrip [OF demo_normalized _ fin call, of "\<lambda>_ _. []" demo_lib] call by simp
qed

text \<open>Finding: an infinite limit (\<open>1e999\<close> in the call's arguments) is accepted and then lost by the
  storage, and an infinite default answer makes the stored request unreadable.\<close>

definition infinite_call :: "js_object \<Rightarrow> json" where
  "infinite_call flds = JObj [(''questions'', JArr [JObj ([(''id'', JStr ''n''), (''kind'', JStr ''number''),
     (''label'', JStr ''N'')] @ flds)])]"

lemma infinite_limit_lost:
  "case normalizeAskUserQuestionsRequest (\<lambda>_ _. []) demo_lib (infinite_call [(''min'', JNum PosInf)]) of
     Inr r \<Rightarrow> map uq_min (qr_questions r) = [Some PosInf] \<and>
       (case parseStoredAskUserQuestionsRequest (\<lambda>_ _. []) demo_lib (snd (createAgentQuestionRequest r ''r1'')) of
          Inr r' \<Rightarrow> map uq_min (qr_questions r') = [None] | Inl e \<Rightarrow> False)
   | Inl e \<Rightarrow> False"
  by code_simp

lemma infinite_default_unreadable:
  "case normalizeAskUserQuestionsRequest (\<lambda>_ _. []) demo_lib
       (infinite_call [(''default_answer'', JObj [(''kind'', JStr ''number''), (''value'', JNum PosInf)])]) of
     Inr r \<Rightarrow> (case parseStoredAskUserQuestionsRequest (\<lambda>_ _. []) demo_lib (snd (createAgentQuestionRequest r ''r1'')) of
          Inr r' \<Rightarrow> False | Inl e \<Rightarrow> True)
   | Inl e \<Rightarrow> False"
  by code_simp

theorem response_answers_every_question_witness:
  "\<exists>parsed. ClientResponseSchema (\<lambda>_. True) demo_reply = Some parsed \<and>
     qs_client_response_id demo_response = qs_client_response_id parsed \<and>
     list_all2 (\<lambda>q. recorded q (sent_for parsed (uq_question_id q))) (qr_questions demo_request) (qs_answers demo_response)"
  using response_answers_every_question [OF demo_validated] by blast

theorem tool_result_faithful_witness:
  "map rr_question_id (qx_responses (buildAskUserQuestionsToolResult demo_lib demo_request demo_response ''r1''))
     = map uq_question_id (qr_questions demo_request) \<and>
   length (qs_answers demo_response) = length (qr_questions demo_request)"
  using tool_result_faithful [OF conjunct1 [OF normalize_request_ok [OF demo_normalized]] demo_validated, of "''r1''"]
  by blast

end
