(* ===== verification/Transcript.thy ===== *)
theory Transcript
  imports Questions "HOL-Library.List_Lexorder" "HOL-Library.Char_ord"
begin

text \<open>
  \<open>web/src/features/threads/thread-message-state.ts\<close> and \<open>invocation-state.ts\<close>: the transcript a client
  shows, built from pages of stored messages, from live events and from snapshots of the agent's state.

  A message is a record; \<open>metadata\<close> and \<open>tool_payload\<close> are JSON values, \<open>undefined\<close> when absent.  Objects are
  values here: the one test of object identity (\<open>current === next\<close> in \<open>upsertMessage\<close>) only avoids work, since
  replacing a message by an equal one changes nothing.  Parameters are the clock (\<open>now\<close>, the text of the
  current date), \<open>Date\<close> and number formatting (\<open>js_lib\<close>), and the runtime's collation
  \<open>collate a b = a.localeCompare(b)\<close>.
\<close>

section \<open>Data\<close>

record api_message =
  am_message_id :: string
  am_client_id :: string
  am_role :: string
  am_display_role :: string
  am_content :: string
  am_created_at :: string
  am_metadata :: json
  am_tool_payload :: json
  am_presentation :: json

record api_page =
  pg_limit :: int
  pg_returned :: int
  pg_has_more_before :: bool
  pg_has_more_after :: bool
  pg_before_cursor :: "string option"
  pg_after_cursor :: "string option"

record api_message_page =
  mp_messages :: "api_message list"
  mp_page :: api_page

record api_pending_tool =
  pt_client_id :: string
  pt_call_id :: string
  pt_name :: string
  pt_args :: "js_object option"
  pt_started_at :: "string option"

record api_draft_assistant =
  da_client_id :: string
  da_text :: string
  da_started_at :: "string option"
  da_updated_at :: string

record api_draft_reasoning =
  dr_client_id :: string
  dr_text :: string
  dr_llm_call_id :: string
  dr_index :: int
  dr_provider :: string
  dr_provider_model :: string
  dr_started_at :: "string option"
  dr_updated_at :: string

record api_invocation =
  iv_invocation_id :: string
  iv_turn_id :: string
  iv_status :: string
  iv_reserves_thread :: bool
  iv_attempt :: int
  iv_outcome_code :: "string option"
  iv_cancel_requested_at :: "string option"
  iv_created_at :: string
  iv_updated_at :: string

record api_browser_wait =
  bw_turn_id :: string
  bw_pending_tool :: api_pending_tool

record api_pending_question =
  pq_request_id :: string
  pq_turn_id :: string
  pq_client_id :: string
  pq_call_id :: string
  pq_request :: js_object
  pq_created_at :: string

text \<open>Requests for data keys, automations and existing contacts have the same shape: \<open>payload\<close> is their
  \<open>request\<close> or \<open>proposal\<close>.\<close>

record api_pending_request =
  pr_turn_id :: string
  pr_client_id :: "string option"
  pr_call_id :: string
  pr_payload :: js_object
  pr_created_at :: string

record api_agent_state =
  ag_active :: bool
  ag_turn_id :: "string option"
  ag_pending_tool :: "api_pending_tool option"
  ag_draft_assistant :: "api_draft_assistant option"
  ag_draft_reasoning :: "api_draft_reasoning list option"
  ag_updated_at :: string
  ag_invocations :: "api_invocation list option"
  ag_browser_waits :: "api_browser_wait list option"
  ag_questions :: "api_pending_question list option"
  ag_data_requests :: "api_pending_request list option"
  ag_automation_requests :: "api_pending_request list option"
  ag_bootstrap_requests :: "api_pending_request list option"

text \<open>A nullable string that is tested for truthiness, and lists that may be absent.\<close>

definition nonempty :: "string option \<Rightarrow> string option" where
  "nonempty x = (case x of Some s \<Rightarrow> if s \<noteq> [] then Some s else None | None \<Rightarrow> None)"

definition rows_of :: "'a list option \<Rightarrow> 'a list" where
  "rows_of xs = (case xs of Some ys \<Rightarrow> ys | None \<Rightarrow> [])"

text \<open>\<open>String(value)\<close>.\<close>

fun js_String :: "js_lib \<Rightarrow> json \<Rightarrow> string" where
  "js_String lib JUndef = ''undefined''"
| "js_String lib JNull = ''null''"
| "js_String lib (JBool b) = (if b then ''true'' else ''false'')"
| "js_String lib (JNum n) = lib_numberToString lib n"
| "js_String lib (JStr s) = s"
| "js_String lib (JArr vs) = join_with '','' (map (\<lambda>v. if v = JUndef \<or> v = JNull then [] else js_String lib v) vs)"
| "js_String lib (JObj _) = ''[object Object]''"

section \<open>Kinds of messages\<close>

definition meta_get :: "api_message \<Rightarrow> string \<Rightarrow> json" where
  "meta_get message k = (case as_record (am_metadata message) of Some ob \<Rightarrow> obj_get ob k | None \<Rightarrow> JUndef)"

definition payload_get :: "api_message \<Rightarrow> string \<Rightarrow> json" where
  "payload_get message k = (case as_record (am_tool_payload message) of Some ob \<Rightarrow> obj_get ob k | None \<Rightarrow> JUndef)"

definition getMessageIdentity :: "api_message \<Rightarrow> string" where
  "getMessageIdentity message = am_client_id message"

definition isOptimisticMessage :: "api_message \<Rightarrow> bool" where
  "isOptimisticMessage message \<longleftrightarrow> meta_get message ''optimistic'' = JBool True"

definition isPendingToolMessage :: "api_message \<Rightarrow> bool" where
  "isPendingToolMessage message \<longleftrightarrow> am_role message = ''tool'' \<and> meta_get message ''pending'' = JBool True"

definition isDraftAssistantMessage :: "api_message \<Rightarrow> bool" where
  "isDraftAssistantMessage message \<longleftrightarrow> am_role message = ''assistant'' \<and> meta_get message ''draft'' = JBool True"

definition isDraftReasoningMessage :: "api_message \<Rightarrow> bool" where
  "isDraftReasoningMessage message \<longleftrightarrow> am_role message = ''reasoning'' \<and> meta_get message ''draft'' = JBool True"

definition isSyntheticMessage :: "api_message \<Rightarrow> bool" where
  "isSyntheticMessage message \<longleftrightarrow> isOptimisticMessage message \<or> isPendingToolMessage message \<or>
     isDraftAssistantMessage message \<or> isDraftReasoningMessage message"

definition isAgentSyntheticMessage :: "api_message \<Rightarrow> bool" where
  "isAgentSyntheticMessage message \<longleftrightarrow> isPendingToolMessage message \<or> isDraftAssistantMessage message \<or>
     isDraftReasoningMessage message"

definition isCanonicalMessage :: "api_message \<Rightarrow> bool" where
  "isCanonicalMessage message \<longleftrightarrow> am_message_id message \<noteq> am_client_id message \<and> \<not> isSyntheticMessage message"

section \<open>Order\<close>

text \<open>
  The comparator of \<open>sortMessagesChronologically\<close>; a result of \<open>NaN\<close>, when a date does not parse, counts as
  zero.  \<open>Array.prototype.sort\<close> is stable, so for a consistent comparator there is one result, which
  insertion computes.
\<close>

definition compareMessages :: "js_lib \<Rightarrow> (string \<Rightarrow> string \<Rightarrow> int) \<Rightarrow> api_message \<Rightarrow> api_message \<Rightarrow> int" where
  "compareMessages lib collate left right =
     (case (lib_dateParse lib (am_created_at left), lib_dateParse lib (am_created_at right)) of
        (Fin a, Fin b) \<Rightarrow> if a < b then -1 else if b < a then 1
                          else collate (getMessageIdentity left) (getMessageIdentity right)
      | _ \<Rightarrow> 0)"

fun js_insert :: "('a \<Rightarrow> 'a \<Rightarrow> int) \<Rightarrow> 'a \<Rightarrow> 'a list \<Rightarrow> 'a list" where
  "js_insert cmp x [] = [x]"
| "js_insert cmp x (y # ys) = (if cmp x y \<le> 0 then x # y # ys else y # js_insert cmp x ys)"

definition js_sort :: "('a \<Rightarrow> 'a \<Rightarrow> int) \<Rightarrow> 'a list \<Rightarrow> 'a list" where
  "js_sort cmp xs = foldr (js_insert cmp) xs []"

definition sortMessagesChronologically ::
    "js_lib \<Rightarrow> (string \<Rightarrow> string \<Rightarrow> int) \<Rightarrow> api_message list \<Rightarrow> api_message list" where
  "sortMessagesChronologically lib collate messages = js_sort (compareMessages lib collate) messages"

section \<open>Single messages\<close>

definition upsertMessage ::
    "js_lib \<Rightarrow> (string \<Rightarrow> string \<Rightarrow> int) \<Rightarrow> api_message list \<Rightarrow> api_message \<Rightarrow> api_message list" where
  "upsertMessage lib collate existing nxt =
     (case find_index (\<lambda>message. getMessageIdentity message = getMessageIdentity nxt) existing of
        None \<Rightarrow> sortMessagesChronologically lib collate (existing @ [nxt])
      | Some index \<Rightarrow>
          (let current = existing ! index
           in if isCanonicalMessage current \<and> isSyntheticMessage nxt then existing
              else if current = nxt then existing
              else
                let nxt' = (if am_role current \<noteq> ''user'' \<and> am_message_id current = am_client_id current \<and>
                               am_message_id nxt \<noteq> am_message_id current
                            then nxt\<lparr>am_created_at := am_created_at current\<rparr> else nxt);
                    nextMessages = existing[index := nxt']
                in if am_created_at current = am_created_at nxt' then nextMessages
                   else sortMessagesChronologically lib collate nextMessages))"

definition insertStreamMessage ::
    "js_lib \<Rightarrow> (string \<Rightarrow> string \<Rightarrow> int) \<Rightarrow> api_message list \<Rightarrow> api_message \<Rightarrow> api_message list" where
  "insertStreamMessage lib collate existing nxt =
     (if \<exists>message \<in> set existing. am_client_id message = am_client_id nxt \<and> isCanonicalMessage message
      then existing else upsertMessage lib collate existing nxt)"

fun unique_older :: "string list \<Rightarrow> api_message list \<Rightarrow> api_message list" where
  "unique_older seen [] = []"
| "unique_older seen (message # older) =
     (if getMessageIdentity message \<in> set seen then unique_older seen older
      else message # unique_older (getMessageIdentity message # seen) older)"

definition mergeOlderMessages :: "api_message list \<Rightarrow> api_message list \<Rightarrow> api_message list" where
  "mergeOlderMessages existing older = unique_older (map getMessageIdentity existing) older @ existing"

definition reconcileMessagePersistence ::
    "js_lib \<Rightarrow> (string \<Rightarrow> string \<Rightarrow> int) \<Rightarrow> api_message list \<Rightarrow> string \<Rightarrow> string \<Rightarrow> string \<Rightarrow>
      api_message option \<Rightarrow> api_message list" where
  "reconcileMessagePersistence lib collate existing currentClientId nextMessageId nextClientId nextMessage =
     (case nextMessage of
        Some nxt \<Rightarrow>
          sortMessagesChronologically lib collate
            (filter (\<lambda>message. getMessageIdentity message \<noteq> currentClientId \<and>
                       getMessageIdentity message \<noteq> getMessageIdentity nxt) existing @ [nxt])
      | None \<Rightarrow>
          sortMessagesChronologically lib collate
            (map (\<lambda>message.
               if getMessageIdentity message \<noteq> currentClientId then message
               else message\<lparr>am_message_id := nextMessageId, am_client_id := nextClientId,
                 am_metadata := (case as_record (am_metadata message) of
                     Some ob \<Rightarrow> (let kept = filter (\<lambda>(k, v). k \<noteq> ''optimistic'') ob
                                in if kept \<noteq> [] then JObj kept else JUndef)
                   | None \<Rightarrow> JUndef)\<rparr>) existing))"

definition upsertDraftAssistantMessage ::
    "js_lib \<Rightarrow> (string \<Rightarrow> string \<Rightarrow> int) \<Rightarrow> api_message list \<Rightarrow> string \<Rightarrow> (api_message option \<Rightarrow> api_message) \<Rightarrow>
      api_message list" where
  "upsertDraftAssistantMessage lib collate existing clientId updater =
     (let current = List.find (\<lambda>message. getMessageIdentity message = clientId) existing
      in if (case current of Some c \<Rightarrow> isCanonicalMessage c | None \<Rightarrow> False) then existing
         else upsertMessage lib collate existing (updater current))"

definition upsertDraftReasoningMessage ::
    "js_lib \<Rightarrow> (string \<Rightarrow> string \<Rightarrow> int) \<Rightarrow> api_message list \<Rightarrow> string \<Rightarrow> (api_message option \<Rightarrow> api_message) \<Rightarrow>
      api_message list" where
  "upsertDraftReasoningMessage lib collate existing clientId updater =
     (let current = List.find (\<lambda>message. getMessageIdentity message = clientId) existing
      in if (case current of Some c \<Rightarrow> isCanonicalMessage c | None \<Rightarrow> False) then existing
         else upsertMessage lib collate existing (updater current))"

section \<open>Messages from the agent's state\<close>

definition started_field :: "string option \<Rightarrow> js_object" where
  "started_field startedAt = (case nonempty startedAt of Some s \<Rightarrow> [(''started_at'', JStr s)] | None \<Rightarrow> [])"

definition buildPendingToolMessageFromToolCall ::
    "string \<Rightarrow> string \<Rightarrow> string \<Rightarrow> string \<Rightarrow> string \<Rightarrow> js_object option \<Rightarrow> string option \<Rightarrow> string option \<Rightarrow> api_message" where
  "buildPendingToolMessageFromToolCall now turnId clientId callId name args startedAt createdAt =
     \<lparr>am_message_id = clientId, am_client_id = clientId, am_role = ''tool'', am_display_role = name,
      am_content = name, am_created_at = or_default (or_default now createdAt) startedAt,
      am_metadata = JObj ([(''turn_id'', JStr turnId), (''pending'', JBool True)] @ started_field startedAt),
      am_tool_payload = JObj (obj_set ''call_id'' (JStr callId) (obj_set ''tool'' (JStr name) (or_default [] args))),
      am_presentation = JUndef\<rparr>"

definition pending_tool_card :: "string \<Rightarrow> string \<Rightarrow> api_pending_tool \<Rightarrow> string option \<Rightarrow> api_message" where
  "pending_tool_card now turnId tool createdAt =
     buildPendingToolMessageFromToolCall now turnId (pt_client_id tool) (pt_call_id tool) (pt_name tool)
       (pt_args tool) (pt_started_at tool) createdAt"

definition invocationAllowsLiveActivity :: "api_agent_state \<Rightarrow> bool" where
  "invocationAllowsLiveActivity state =
     (if \<not> ag_active state then False
      else case List.find (\<lambda>row. Some (iv_turn_id row) = ag_turn_id state) (rows_of (ag_invocations state)) of
             None \<Rightarrow> True
           | Some invocation \<Rightarrow> iv_status invocation = ''running'' \<or> iv_status invocation = ''leased'')"

definition tool_named :: "string \<Rightarrow> api_agent_state \<Rightarrow> bool" where
  "tool_named name state = (case ag_pending_tool state of Some tool \<Rightarrow> pt_name tool = name | None \<Rightarrow> False)"

definition returns_control :: "api_agent_state \<Rightarrow> bool" where
  "returns_control state = (case ag_pending_tool state of
     Some tool \<Rightarrow> obj_get (or_default [] (pt_args tool)) ''wait_kind'' = JStr ''return_control'' | None \<Rightarrow> False)"

definition browser_wait :: "api_agent_state \<Rightarrow> bool" where
  "browser_wait state \<longleftrightarrow> tool_named ''browser_request_handoff'' state \<and> nonempty (ag_turn_id state) \<noteq> None \<and>
     (\<exists>invocation \<in> set (rows_of (ag_invocations state)).
        Some (iv_turn_id invocation) = ag_turn_id state \<and> iv_status invocation = ''waiting_for_user'')"

definition buildPendingToolMessageFromState :: "string \<Rightarrow> api_agent_state \<Rightarrow> api_message option" where
  "buildPendingToolMessageFromState now agentState =
     (if ag_browser_waits agentState \<noteq> None \<and>
         (tool_named ''browser_request_handoff'' agentState \<or> returns_control agentState) then None
      else case (ag_pending_tool agentState, nonempty (ag_turn_id agentState)) of
        (Some tool, Some turnId) \<Rightarrow>
          if browser_wait agentState then Some (pending_tool_card now turnId tool None)
          else if ag_data_requests agentState \<noteq> None \<and> pt_name tool = ''data_request_api_key'' then None
          else if ag_questions agentState \<noteq> None \<and> pt_name tool = ''ask_user_questions'' then None
          else if ag_bootstrap_requests agentState \<noteq> None \<and> pt_name tool = ''automations_request_existing_contacts'' then None
          else if ag_automation_requests agentState \<noteq> None \<and> pt_name tool = ''automations_request_activation'' then None
          else if \<not> invocationAllowsLiveActivity agentState then None
          else if \<not> ag_active agentState then None
          else Some (pending_tool_card now turnId tool (Some (ag_updated_at agentState)))
      | _ \<Rightarrow> None)"

definition buildDraftAssistantMessageFromState :: "api_agent_state \<Rightarrow> api_message option" where
  "buildDraftAssistantMessageFromState agentState =
     (if \<not> invocationAllowsLiveActivity agentState then None
      else case (nonempty (ag_turn_id agentState), ag_draft_assistant agentState) of
        (Some turnId, Some draft) \<Rightarrow>
          if \<not> ag_active agentState then None
          else Some \<lparr>am_message_id = da_client_id draft, am_client_id = da_client_id draft, am_role = ''assistant'',
            am_display_role = ''Bud Agent'', am_content = da_text draft,
            am_created_at = or_default (da_updated_at draft) (da_started_at draft),
            am_metadata = JObj ([(''turn_id'', JStr turnId), (''draft'', JBool True)] @ started_field (da_started_at draft)),
            am_tool_payload = JUndef, am_presentation = JUndef\<rparr>
      | _ \<Rightarrow> None)"

definition reasoning_card :: "string \<Rightarrow> api_draft_reasoning \<Rightarrow> api_message" where
  "reasoning_card turnId draft =
     \<lparr>am_message_id = dr_client_id draft, am_client_id = dr_client_id draft, am_role = ''reasoning'',
      am_display_role = ''Reasoning'', am_content = dr_text draft,
      am_created_at = or_default (dr_updated_at draft) (dr_started_at draft),
      am_metadata = JObj [(''artifact_kind'', JStr ''reasoning''), (''model_visible'', JBool False),
        (''turn_id'', JStr turnId), (''draft'', JBool True), (''llm_call_id'', JStr (dr_llm_call_id draft)),
        (''reasoning_index'', JInt (dr_index draft)), (''provider'', JStr (dr_provider draft)),
        (''provider_model'', JStr (dr_provider_model draft)),
        (''started_at'', case dr_started_at draft of Some s \<Rightarrow> JStr s | None \<Rightarrow> JUndef)],
      am_tool_payload = JUndef, am_presentation = JUndef\<rparr>"

definition buildDraftReasoningMessagesFromState :: "api_agent_state \<Rightarrow> api_message list" where
  "buildDraftReasoningMessagesFromState agentState =
     (if \<not> invocationAllowsLiveActivity agentState then []
      else case nonempty (ag_turn_id agentState) of
        None \<Rightarrow> []
      | Some turnId \<Rightarrow>
          if \<not> ag_active agentState then []
          else map (reasoning_card turnId) (rows_of (ag_draft_reasoning agentState)))"

section \<open>Overlay\<close>

text \<open>One pending card: a row that is not the agent's own wins.\<close>

definition put_pending ::
    "js_lib \<Rightarrow> (string \<Rightarrow> string \<Rightarrow> int) \<Rightarrow> api_message list \<Rightarrow> api_message \<Rightarrow> api_message list" where
  "put_pending lib collate messages entry =
     (if \<exists>message \<in> set messages. am_client_id message = am_client_id entry \<and> \<not> isAgentSyntheticMessage message
      then messages else upsertMessage lib collate messages entry)"

definition wait_card :: "string \<Rightarrow> api_browser_wait \<Rightarrow> api_message" where
  "wait_card now wait = pending_tool_card now (bw_turn_id wait) (bw_pending_tool wait) None"

definition question_card :: "string \<Rightarrow> api_pending_question \<Rightarrow> api_message" where
  "question_card now question =
     buildPendingToolMessageFromToolCall now (pq_turn_id question) (pq_client_id question) (pq_call_id question)
       ''ask_user_questions'' (Some (obj_set ''request_id'' (JStr (pq_request_id question)) (pq_request question)))
       (Some (pq_created_at question)) None"

text \<open>The cards of requests that name a message and are still pending.\<close>

definition request_cards :: "string \<Rightarrow> string \<Rightarrow> api_pending_request list \<Rightarrow> api_message list" where
  "request_cards now name requests =
     List.map_filter (\<lambda>request.
       case nonempty (pr_client_id request) of
         None \<Rightarrow> None
       | Some clientId \<Rightarrow>
           if obj_get (pr_payload request) ''status'' \<noteq> JStr ''pending'' then None
           else Some (buildPendingToolMessageFromToolCall now (pr_turn_id request) clientId (pr_call_id request) name
                        (Some (pr_payload request)) (Some (pr_created_at request)) None)) requests"

text \<open>All the cards of the durable inventory, in the order of the loops.\<close>

definition inventory_cards :: "string \<Rightarrow> api_agent_state \<Rightarrow> api_message list" where
  "inventory_cards now agentState =
     map (wait_card now) (rows_of (ag_browser_waits agentState))
     @ map (question_card now) (rows_of (ag_questions agentState))
     @ request_cards now ''data_request_api_key'' (rows_of (ag_data_requests agentState))
     @ request_cards now ''automations_request_activation'' (rows_of (ag_automation_requests agentState))
     @ request_cards now ''automations_request_existing_contacts'' (rows_of (ag_bootstrap_requests agentState))"

definition put_pending_tool ::
    "js_lib \<Rightarrow> (string \<Rightarrow> string \<Rightarrow> int) \<Rightarrow> api_message list \<Rightarrow> api_message option \<Rightarrow> api_message list" where
  "put_pending_tool lib collate messages entry =
     (case entry of
        None \<Rightarrow> messages
      | Some c \<Rightarrow> if \<exists>message \<in> set messages. am_client_id message = am_client_id c then messages
                  else upsertMessage lib collate messages c)"

definition applyAgentStateOverlay ::
    "js_lib \<Rightarrow> (string \<Rightarrow> string \<Rightarrow> int) \<Rightarrow> string \<Rightarrow> api_message list \<Rightarrow> api_agent_state \<Rightarrow> api_message list" where
  "applyAgentStateOverlay lib collate now messages agentState =
     (let m1 = filter (\<lambda>message. \<not> isAgentSyntheticMessage message) messages;
          m2 = put_pending_tool lib collate m1 (buildPendingToolMessageFromState now agentState);
          m3 = foldl (put_pending lib collate) m2 (inventory_cards now agentState);
          m4 = (case buildDraftAssistantMessageFromState agentState of
                  Some draft \<Rightarrow> upsertMessage lib collate m3 draft | None \<Rightarrow> m3);
          m5 = foldl (upsertMessage lib collate) m4 (buildDraftReasoningMessagesFromState agentState)
      in sortMessagesChronologically lib collate m5)"

section \<open>Snapshots\<close>

text \<open>What a reconnect keeps of a protected local row, given the stored row with its identity.\<close>

definition protected_row :: "api_message option \<Rightarrow> api_message \<Rightarrow> api_message" where
  "protected_row canonical current =
     (case canonical of
        None \<Rightarrow> current
      | Some c \<Rightarrow>
          if \<not> isSyntheticMessage c \<and>
             (am_content c = am_content current \<or> isPendingToolMessage current \<or>
              (isDraftAssistantMessage current \<or> isDraftReasoningMessage current) \<and>
                starts_with (am_content current) (am_content c))
          then c\<lparr>am_created_at := am_created_at current\<rparr> else current)"

definition mergeLatestBootstrapState ::
    "js_lib \<Rightarrow> (string \<Rightarrow> string \<Rightarrow> int) \<Rightarrow> string \<Rightarrow> api_message list \<Rightarrow> api_page \<Rightarrow> api_message_page \<Rightarrow>
      api_agent_state \<Rightarrow> string set \<Rightarrow> string set \<Rightarrow> api_message_page" where
  "mergeLatestBootstrapState lib collate now currentMessages currentPage nextPage nextAgentState protectedIds removedIds =
     (let incoming = filter (\<lambda>message. am_client_id message \<notin> removedIds) (mp_messages nextPage);
          incomingById = map_of (rev (map (\<lambda>message. (am_client_id message, message)) incoming));
          latestIds = set (map am_client_id incoming);
          preservedOlderMessages = filter (\<lambda>message. \<not> isSyntheticMessage message \<and>
            getMessageIdentity message \<notin> latestIds) currentMessages;
          canonicalMessages = sortMessagesChronologically lib collate (preservedOlderMessages @ incoming);
          reconciled = foldl (\<lambda>ms current.
              if am_client_id current \<in> protectedIds \<and> am_client_id current \<notin> removedIds
              then upsertMessage lib collate ms (protected_row (incomingById (am_client_id current)) current) else ms)
            (applyAgentStateOverlay lib collate now canonicalMessages nextAgentState) currentMessages;
          p = mp_page nextPage
      in \<lparr>mp_messages = filter (\<lambda>message. am_client_id message \<notin> removedIds) reconciled,
          mp_page = p\<lparr>pg_returned := int (length preservedOlderMessages + length (mp_messages nextPage)),
            pg_has_more_before := (if currentMessages \<noteq> [] then pg_has_more_before currentPage else pg_has_more_before p),
            pg_before_cursor := (if currentMessages \<noteq> [] then pg_before_cursor currentPage else pg_before_cursor p)\<rparr>\<rparr>)"

definition managed_tools :: "api_agent_state \<Rightarrow> string list" where
  "managed_tools state =
     (if ag_questions state \<noteq> None then [''ask_user_questions''] else [])
     @ (if ag_data_requests state \<noteq> None then [''data_request_api_key''] else [])
     @ (if ag_automation_requests state \<noteq> None then [''automations_request_activation''] else [])
     @ (if ag_bootstrap_requests state \<noteq> None then [''automations_request_existing_contacts''] else [])
     @ (if ag_browser_waits state \<noteq> None then [''browser_request_handoff''] else [])"

definition belongs_to_inventory :: "js_lib \<Rightarrow> api_agent_state \<Rightarrow> api_message \<Rightarrow> bool" where
  "belongs_to_inventory lib state message \<longleftrightarrow> isPendingToolMessage message \<and>
     ((let tool = payload_get message ''tool''
       in js_String lib (if tool = JUndef \<or> tool = JNull then JStr (am_display_role message) else tool)) \<in> set (managed_tools state) \<or>
      ag_browser_waits state \<noteq> None \<and> payload_get message ''wait_kind'' = JStr ''return_control'')"

definition applyPendingRequestInventory ::
    "js_lib \<Rightarrow> (string \<Rightarrow> string \<Rightarrow> int) \<Rightarrow> string \<Rightarrow> api_message list \<Rightarrow> api_agent_state \<Rightarrow> api_message list" where
  "applyPendingRequestInventory lib collate now messages state =
     foldl (\<lambda>ms message.
         if isAgentSyntheticMessage message \<and> \<not> belongs_to_inventory lib state message
         then upsertMessage lib collate ms message else ms)
       (applyAgentStateOverlay lib collate now (filter (\<lambda>message. \<not> isAgentSyntheticMessage message) messages)
          (state\<lparr>ag_active := False, ag_pending_tool := None, ag_draft_assistant := None, ag_draft_reasoning := Some []\<rparr>))
       messages"

datatype turn_outcome = Turn_succeeded | Turn_failed | Turn_canceled

fun outcome_field :: "turn_outcome \<Rightarrow> js_object" where
  "outcome_field Turn_succeeded = []"
| "outcome_field Turn_failed = [(''outcome'', JStr ''failed'')]"
| "outcome_field Turn_canceled = [(''outcome'', JStr ''canceled'')]"

definition finalizeTurnMessages :: "api_message list \<Rightarrow> string \<Rightarrow> turn_outcome \<Rightarrow> api_message list" where
  "finalizeTurnMessages messages turnId status =
     concat (map (\<lambda>message.
       if meta_get message ''turn_id'' \<noteq> JStr turnId \<or> \<not> isAgentSyntheticMessage message then [message]
       else if js_trim (am_content message) = [] then []
       else [message\<lparr>am_metadata := JObj (obj_spread (record_or_empty (am_metadata message))
               ([(''draft'', JBool False), (''pending'', JBool False)] @ outcome_field status))\<rparr>]) messages)"

section \<open>Invocations\<close>

definition finished :: "string list" where
  "finished = [''succeeded'', ''failed'', ''canceled'', ''expired'']"

definition lifecycleOrder :: "(string \<times> nat) list" where
  "lifecycleOrder = [(''pending'', 0), (''leased'', 1), (''running'', 2), (''waiting_for_user'', 3),
     (''waiting_for_bud'', 3), (''waiting_for_model'', 3), (''retry_wait'', 3),
     (''succeeded'', 4), (''failed'', 4), (''expired'', 4), (''needs_review'', 4), (''canceled'', 5)]"

definition isInvocationEvent :: "js_lib \<Rightarrow> json \<Rightarrow> bool" where
  "isInvocationEvent lib value =
     (case as_record value of
        None \<Rightarrow> False
      | Some row \<Rightarrow>
          (\<forall>key \<in> set [''invocation_id'', ''turn_id'', ''input_message_id'', ''model'', ''reasoning_effort'',
              ''created_at'', ''updated_at'', ''next_attempt_at'']. as_string (obj_get row key) \<noteq> None) \<and>
          (case as_string (obj_get row ''status'') of
             Some status \<Rightarrow> map_of lifecycleOrder status \<noteq> None | None \<Rightarrow> False) \<and>
          js_String lib (obj_get row ''origin'') \<in> set [''human'', ''automation''] \<and>
          (case obj_get row ''reserves_thread'' of JBool _ \<Rightarrow> True | _ \<Rightarrow> False) \<and>
          (case obj_get row ''attempt'' of JNum n \<Rightarrow> is_safe_integer n \<and> 0 \<le> js_floor n | _ \<Rightarrow> False) \<and>
          (\<forall>key \<in> set [''cancel_requested_at'', ''latest_start_at'', ''outcome_code''].
             obj_get row key = JNull \<or> as_string (obj_get row key) \<noteq> None))"

text \<open>A comparison with a status that is not listed is a comparison with \<open>undefined\<close>, hence false.\<close>

definition lifecycle_after :: "string \<Rightarrow> string \<Rightarrow> bool" where
  "lifecycle_after a b = (case (map_of lifecycleOrder a, map_of lifecycleOrder b) of
     (Some x, Some y) \<Rightarrow> x > y | _ \<Rightarrow> False)"

definition stale_event :: "api_invocation \<Rightarrow> api_invocation \<Rightarrow> bool" where
  "stale_event previous row \<longleftrightarrow> iv_attempt previous > iv_attempt row \<or>
     iv_attempt previous = iv_attempt row \<and> lifecycle_after (iv_status previous) (iv_status row) \<or>
     iv_updated_at previous > iv_updated_at row"

definition compareInvocations :: "(string \<Rightarrow> string \<Rightarrow> int) \<Rightarrow> api_invocation \<Rightarrow> api_invocation \<Rightarrow> int" where
  "compareInvocations collate a b =
     (let r = of_bool (iv_reserves_thread b) - of_bool (iv_reserves_thread a);
          c = collate (iv_created_at b) (iv_created_at a)
      in if r \<noteq> 0 then r else if c \<noteq> 0 then c else collate (iv_invocation_id b) (iv_invocation_id a))"

definition mergeInvocationEvent ::
    "(string \<Rightarrow> string \<Rightarrow> int) \<Rightarrow> api_agent_state \<Rightarrow> api_invocation \<Rightarrow> api_agent_state" where
  "mergeInvocationEvent collate state row =
     (let rows = rows_of (ag_invocations state)
      in if (case List.find (\<lambda>item. iv_invocation_id item = iv_invocation_id row) rows of
               Some previous \<Rightarrow> stale_event previous row | None \<Rightarrow> False)
         then state
         else state\<lparr>ag_invocations := Some (take 50 (js_sort (compareInvocations collate)
                (filter (\<lambda>item. iv_invocation_id item \<noteq> iv_invocation_id row) rows @ [row])))\<rparr>)"

definition invocationLabel :: "api_invocation \<Rightarrow> string" where
  "invocationLabel row =
     (if nonempty (iv_cancel_requested_at row) \<noteq> None \<and> iv_status row \<notin> set finished \<and> iv_status row \<noteq> ''needs_review''
      then ''Stopping'' @ [CHR 0xE2, CHR 0x80, CHR 0xA6]
      else if iv_status row = ''pending'' then ''Queued''
      else if iv_status row = ''leased'' then ''Preparing''
      else if iv_status row = ''running'' then ''Running''
      else if iv_status row = ''retry_wait'' then ''Waiting to retry''
      else if iv_status row = ''waiting_for_bud'' then ''Waiting for the selected Bud''
      else if iv_status row = ''waiting_for_model'' then ''Waiting for the selected model''
      else if iv_status row = ''waiting_for_user'' then ''Waiting for your answer''
      else if iv_status row = ''needs_review''
      then ''Needs review '' @ [CHR 0xE2, CHR 0x80, CHR 0x94] @ '' an action may have run. This thread is paused.''
      else if iv_status row = ''expired'' then ''Expired before it could start''
      else if iv_status row = ''failed''
      then if iv_outcome_code row = Some ''invalid_model''
           then ''Model unavailable. Select a supported model; update and review any affected automation.''
           else ''Failed''
      else if iv_status row = ''canceled'' then ''Canceled''
      else if iv_status row = ''succeeded'' then ''Completed''
      else ''Status unavailable'')"

record invocation_summary =
  is_invocation :: api_invocation
  is_label :: string
  is_queuedBehind :: int
  is_canCancel :: bool

definition current_invocation :: "api_invocation list \<Rightarrow> api_invocation option" where
  "current_invocation rows =
     (case List.find iv_reserves_thread rows of
        Some row \<Rightarrow> Some row
      | None \<Rightarrow> (case List.find (\<lambda>row. iv_status row \<notin> set finished) rows of
                  Some row \<Rightarrow> Some row
                | None \<Rightarrow> (case rows of [] \<Rightarrow> None | row # _ \<Rightarrow> Some row)))"

definition invocationSummary :: "api_agent_state \<Rightarrow> invocation_summary option" where
  "invocationSummary state =
     (let rows = rows_of (ag_invocations state)
      in case current_invocation rows of
           None \<Rightarrow> None
         | Some current \<Rightarrow>
             (let queued = int (length (filter (\<lambda>row. \<not> iv_reserves_thread row \<and> iv_status row \<notin> set finished) rows))
              in Some \<lparr>is_invocation = current, is_label = invocationLabel current,
                   is_queuedBehind = max 0 (queued -
                     (if iv_reserves_thread current \<or> iv_status current \<in> set finished then 0 else 1)),
                   is_canCancel = (iv_status current \<notin> set finished \<and> iv_status current \<noteq> ''needs_review'' \<and>
                     nonempty (iv_cancel_requested_at current) = None)\<rparr>))"

end
