(* ===== verification/TranscriptProps.thy ===== *)
theory TranscriptProps
  imports Transcript SampleLib "HOL-Library.Multiset"
begin

text \<open>
  Properties of the client's transcript: order and identity over every history of operations, canonical
  rows against synthetic ones, what a reconnect keeps, and the progress of invocations.
\<close>

section \<open>Sorting by a comparator\<close>





lemma mset_js_insert [simp]: "mset (js_insert cmp x ys) = add_mset x (mset ys)"
  by (induction ys) auto

lemma mset_js_sort [simp]: "mset (js_sort cmp xs) = mset xs"
  by (induction xs) (simp_all add: js_sort_def)

lemma set_js_insert [simp]: "set (js_insert cmp x ys) = insert x (set ys)"
  by (induction ys) auto

lemma set_js_sort [simp]: "set (js_sort cmp xs) = set xs"
  by (rule mset_eq_setD) simp

lemma distinct_map_js_sort [simp]: "distinct (map f (js_sort cmp xs)) \<longleftrightarrow> distinct (map f xs)"
  by (rule mset_eq_imp_distinct_iff) simp



section \<open>Well-formed transcripts\<close>


definition dated :: "js_lib \<Rightarrow> api_message \<Rightarrow> bool" where
  "dated lib m \<longleftrightarrow> (\<exists>t. lib_dateParse lib (am_created_at m) = Fin t)"

definition rows_ok :: "js_lib \<Rightarrow> api_message list \<Rightarrow> bool" where
  "rows_ok lib ms \<longleftrightarrow> distinct (map am_client_id ms) \<and> (\<forall>m \<in> set ms. dated lib m)"





lemma sort_rows_ok [simp]: "rows_ok lib (sortMessagesChronologically lib' collate ms) \<longleftrightarrow> rows_ok lib ms"
  by (simp add: rows_ok_def sortMessagesChronologically_def)

lemma set_sortMessages [simp]: "set (sortMessagesChronologically lib collate ms) = set ms"
  by (simp add: sortMessagesChronologically_def)





section \<open>Upserts\<close>

lemma find_index_find: "find_index P xs = Some i \<Longrightarrow> List.find P xs = Some (xs ! i)"
  by (induction xs arbitrary: i) (auto split: if_splits)

text \<open>The ways an upsert ends.\<close>

lemma upsert_cases:
  obtains (new) "am_client_id n \<notin> set (map am_client_id ms)"
      "upsertMessage lib collate ms n = sortMessagesChronologically lib collate (ms @ [n])"
  | (same) "am_client_id n \<in> set (map am_client_id ms)" "upsertMessage lib collate ms n = ms"
  | (replaced) i n' where "i < length ms" "am_client_id (ms ! i) = am_client_id n"
      "\<not> (isCanonicalMessage (ms ! i) \<and> isSyntheticMessage n)"
      "n' = n \<or> n' = n\<lparr>am_created_at := am_created_at (ms ! i)\<rparr>"
      "upsertMessage lib collate ms n = (if am_created_at (ms ! i) = am_created_at n' then ms[i := n']
         else sortMessagesChronologically lib collate (ms[i := n']))"
      "List.find (\<lambda>m. am_client_id m = am_client_id n) ms = Some (ms ! i)"
proof (cases "find_index (\<lambda>m. getMessageIdentity m = getMessageIdentity n) ms")
  case None
  then have "am_client_id n \<notin> set (map am_client_id ms)"
    by (auto simp: find_index_None_iff getMessageIdentity_def)
  then show ?thesis
    by (rule new) (simp add: upsertMessage_def None)
next
  case (Some i)
  then have i: "i < length ms" "am_client_id (ms ! i) = am_client_id n"
    using find_index_Some_nth [OF Some] by (simp_all add: getMessageIdentity_def)
  then have mem: "am_client_id n \<in> set (map am_client_id ms)"
    by (metis nth_mem length_map nth_map)
  show ?thesis
  proof (cases "isCanonicalMessage (ms ! i) \<and> isSyntheticMessage n \<or> ms ! i = n")
    case True
    then show ?thesis
      using Some by (intro same mem) (auto simp: upsertMessage_def Let_def)
  next
    case False
    let ?n' = "if am_role (ms ! i) \<noteq> ''user'' \<and> am_message_id (ms ! i) = am_client_id (ms ! i) \<and>
        am_message_id n \<noteq> am_message_id (ms ! i) then n\<lparr>am_created_at := am_created_at (ms ! i)\<rparr> else n"
    show ?thesis
      by (rule replaced [OF i, of ?n'])
         (use False Some find_index_find [OF Some] in \<open>auto simp: upsertMessage_def Let_def getMessageIdentity_def\<close>)
  qed
qed

lemma upsert_ids [simp]:
  "am_client_id ` set (upsertMessage lib collate ms n) = insert (am_client_id n) (am_client_id ` set ms)"
proof (cases lib collate ms n rule: upsert_cases)
  case (replaced i n')
  have "am_client_id n' = map am_client_id ms ! i"
    using replaced(1,2,4) by auto
  then have "map am_client_id (ms[i := n']) = map am_client_id ms"
    by (simp add: map_update list_update_id)
  then have "am_client_id ` set (ms[i := n']) = am_client_id ` set ms"
    by (metis list.set_map)
  moreover have "am_client_id n \<in> am_client_id ` set ms"
    using replaced(1,2) by (metis image_eqI nth_mem)
  ultimately show ?thesis
    using replaced(5) by auto
qed auto





text \<open>An upsert of a synthetic row never touches a canonical one.\<close>

lemma upsert_keeps:
  assumes "m \<in> set ms" and "isCanonicalMessage m"
    and "isSyntheticMessage n \<or> (\<forall>c. List.find (\<lambda>m. am_client_id m = am_client_id n) ms = Some c \<longrightarrow> \<not> isCanonicalMessage c)"
  shows "m \<in> set (upsertMessage lib collate ms n)"
proof (cases lib collate ms n rule: upsert_cases)
  case (replaced i n')
  then have "m \<noteq> ms ! i"
    using assms(2,3) by auto
  then have "m \<in> set (ms[i := n'])"
    using assms(1) by (metis in_set_conv_nth length_list_update nth_list_update_neq)
  with replaced(5) show ?thesis
    by simp
qed (use assms in auto)

section \<open>Loops\<close>

text \<open>The contract of an operation that is run once per element of a list: what it keeps, the loop keeps.\<close>

locale loop_invariant =
  fixes holds :: "'s \<Rightarrow> bool" and ok :: "'e \<Rightarrow> bool" and act :: "'s \<Rightarrow> 'e \<Rightarrow> 's"
  assumes act_keeps: "ok e \<Longrightarrow> holds s \<Longrightarrow> holds (act s e)"
begin

lemma loop_keeps: "holds s \<Longrightarrow> list_all ok es \<Longrightarrow> holds (foldl act s es)"
  by (induction es arbitrary: s) (simp_all add: act_keeps)

lemma guarded_keeps: "holds s \<Longrightarrow> (\<And>e. e \<in> set es \<Longrightarrow> P e \<Longrightarrow> ok (f e)) \<Longrightarrow>
    holds (foldl (\<lambda>s e. if P e then act s (f e) else s) s es)"
proof (induction es arbitrary: s)
  case (Cons e es)
  then have "holds (if P e then act s (f e) else s)"
    by (simp add: act_keeps)
  from Cons.IH [OF this] Cons.prems(2) show ?case
    by simp
qed simp

end



interpretation upsert_canonical: loop_invariant "\<lambda>ms. m \<in> set ms \<and> isCanonicalMessage m" isSyntheticMessage
  "upsertMessage lib collate" for m lib collate
  by unfold_locales (simp add: upsert_keeps)

lemma agent_synthetic: "isAgentSyntheticMessage m \<Longrightarrow> isSyntheticMessage m"
  by (auto simp: isAgentSyntheticMessage_def isSyntheticMessage_def)

lemma canonical_not_synthetic: "isCanonicalMessage m \<Longrightarrow> \<not> isAgentSyntheticMessage m"
  using agent_synthetic by (auto simp: isCanonicalMessage_def)


interpretation pending_canonical: loop_invariant "\<lambda>ms. m \<in> set ms \<and> isCanonicalMessage m" isSyntheticMessage
  "put_pending lib collate" for m lib collate
  by unfold_locales (simp add: put_pending_def upsert_keeps)

text \<open>The identities after a loop of upserts.\<close>

lemma put_pending_ids [simp]:
  "am_client_id ` set (put_pending lib collate ms n) = insert (am_client_id n) (am_client_id ` set ms)"
  by (simp add: put_pending_def) (metis imageI insert_absorb)

lemma loop_ids:
  assumes "\<And>ms n. am_client_id ` set (act ms n) = insert (am_client_id n) (am_client_id ` set ms)"
  shows "am_client_id ` set (foldl act ms ns) = am_client_id ` set ms \<union> am_client_id ` set ns"
  by (induction ns arbitrary: ms) (simp_all add: assms)

lemma guarded_ids:
  "(\<And>e. am_client_id (f e) = am_client_id e) \<Longrightarrow>
   am_client_id ` set (foldl (\<lambda>ms e. if P e then upsertMessage lib collate ms (f e) else ms) ms es)
     = am_client_id ` set ms \<union> am_client_id ` {e \<in> set es. P e}"
proof (induction es arbitrary: ms)
  case (Cons e es)
  show ?case
    using Cons.IH [OF Cons.prems] Cons.prems by auto
qed simp

section \<open>The agent's cards\<close>

definition state_cards :: "string \<Rightarrow> api_agent_state \<Rightarrow> api_message list" where
  "state_cards now st = (case buildPendingToolMessageFromState now st of Some c \<Rightarrow> [c] | None \<Rightarrow> [])
     @ inventory_cards now st
     @ (case buildDraftAssistantMessageFromState st of Some c \<Rightarrow> [c] | None \<Rightarrow> [])
     @ buildDraftReasoningMessagesFromState st"


lemma tool_call_synthetic:
  "isAgentSyntheticMessage (buildPendingToolMessageFromToolCall now turnId clientId callId name args startedAt createdAt)"
  by (simp add: isAgentSyntheticMessage_def isPendingToolMessage_def buildPendingToolMessageFromToolCall_def meta_get_def js_simps)

lemma reasoning_synthetic: "isAgentSyntheticMessage (reasoning_card turnId d)"
  by (simp add: isAgentSyntheticMessage_def isDraftReasoningMessage_def reasoning_card_def meta_get_def js_simps)

lemma pending_tool_synthetic: "buildPendingToolMessageFromState now st = Some c \<Longrightarrow> isAgentSyntheticMessage c"
  by (auto simp: buildPendingToolMessageFromState_def pending_tool_card_def tool_call_synthetic
      split: if_splits option.splits)

lemma inventory_synthetic: "list_all isAgentSyntheticMessage (inventory_cards now st)"
  by (auto simp: inventory_cards_def list_all_iff wait_card_def pending_tool_card_def question_card_def
      request_cards_def map_filter_def tool_call_synthetic split: option.splits if_splits)

lemma draft_synthetic: "buildDraftAssistantMessageFromState st = Some c \<Longrightarrow> isAgentSyntheticMessage c"
  by (auto simp: buildDraftAssistantMessageFromState_def isAgentSyntheticMessage_def isDraftAssistantMessage_def meta_get_def js_simps
      split: if_splits option.splits)

lemma drafts_synthetic: "list_all isAgentSyntheticMessage (buildDraftReasoningMessagesFromState st)"
  by (auto simp: buildDraftReasoningMessagesFromState_def list_all_iff reasoning_synthetic split: option.splits)

lemma state_cards_synthetic: "list_all isAgentSyntheticMessage (state_cards now st)"
  using inventory_synthetic drafts_synthetic
  by (auto simp: state_cards_def pending_tool_synthetic draft_synthetic split: option.split)

section \<open>Overlay and snapshots\<close>

lemma overlay_inv:
  assumes tool: "\<And>ms n. holds ms \<Longrightarrow> n \<in> set (state_cards now st) \<Longrightarrow> holds (upsertMessage lib collate ms n)"
    and pending: "\<And>ms. holds ms \<Longrightarrow> holds (foldl (put_pending lib collate) ms (inventory_cards now st))"
    and drafts: "\<And>ms. holds ms \<Longrightarrow> holds (foldl (upsertMessage lib collate) ms (buildDraftReasoningMessagesFromState st))"
    and start: "holds (filter (\<lambda>m. \<not> isAgentSyntheticMessage m) ms)"
  shows "\<exists>ms'. holds ms' \<and> applyAgentStateOverlay lib collate now ms st = sortMessagesChronologically lib collate ms'"
proof -
  define m2 where "m2 = put_pending_tool lib collate (filter (\<lambda>m. \<not> isAgentSyntheticMessage m) ms) (buildPendingToolMessageFromState now st)"
  define m3 where "m3 = foldl (put_pending lib collate) m2 (inventory_cards now st)"
  define m4 where "m4 = (case buildDraftAssistantMessageFromState st of Some d \<Rightarrow> upsertMessage lib collate m3 d | None \<Rightarrow> m3)"
  have "holds m2"
    using start tool unfolding m2_def put_pending_tool_def by (auto simp: state_cards_def split: option.split)
  then have "holds m3"
    unfolding m3_def by (rule pending)
  then have "holds m4"
    using tool unfolding m4_def by (auto simp: state_cards_def split: option.split)
  then show ?thesis
    using drafts unfolding applyAgentStateOverlay_def Let_def m2_def m3_def m4_def by blast
qed


lemma overlay_keeps:
  assumes "m \<in> set ms" and "isCanonicalMessage m"
  shows "m \<in> set (applyAgentStateOverlay lib collate now ms st)"
proof -
  let ?inv = "\<lambda>ms. m \<in> set ms \<and> isCanonicalMessage m"
  have syn: "list_all isSyntheticMessage (inventory_cards now st)" "list_all isSyntheticMessage (buildDraftReasoningMessagesFromState st)"
    "\<And>n. n \<in> set (state_cards now st) \<Longrightarrow> isSyntheticMessage n"
    using inventory_synthetic [of now st] drafts_synthetic [of st] state_cards_synthetic [of now st] agent_synthetic
    by (auto simp: list_all_iff)
  have "\<exists>ms'. ?inv ms' \<and> applyAgentStateOverlay lib collate now ms st = sortMessagesChronologically lib collate ms'"
  proof (rule overlay_inv)
    show "?inv (upsertMessage lib collate ms n)" if "?inv ms" "n \<in> set (state_cards now st)" for ms n
      using that syn(3) upsert_canonical.act_keeps by blast
    show "?inv (foldl (put_pending lib collate) ms (inventory_cards now st))" if "?inv ms" for ms
      using that syn(1) by (rule pending_canonical.loop_keeps)
    show "?inv (foldl (upsertMessage lib collate) ms (buildDraftReasoningMessagesFromState st))" if "?inv ms" for ms
      using that syn(2) by (rule upsert_canonical.loop_keeps)
    show "?inv (filter (\<lambda>m. \<not> isAgentSyntheticMessage m) ms)"
      using assms canonical_not_synthetic by simp
  qed
  then show ?thesis
    by auto
qed

lemma overlay_ids:
  "am_client_id ` set (applyAgentStateOverlay lib collate now ms st) =
     am_client_id ` {m \<in> set ms. \<not> isAgentSyntheticMessage m} \<union> am_client_id ` set (state_cards now st)"
proof -
  have tool: "am_client_id ` set (put_pending_tool lib collate ms' c) =
      am_client_id ` set ms' \<union> am_client_id ` set (case c of Some x \<Rightarrow> [x] | None \<Rightarrow> [])" for ms' c
    by (auto simp: put_pending_tool_def split: option.split) (metis imageI)
  have draft: "am_client_id ` set (case c of Some d \<Rightarrow> upsertMessage lib collate ms' d | None \<Rightarrow> ms') =
      am_client_id ` set ms' \<union> am_client_id ` set (case c of Some x \<Rightarrow> [x] | None \<Rightarrow> [])" for ms' c
    by (auto split: option.split)
  show ?thesis
    unfolding applyAgentStateOverlay_def state_cards_def Let_def set_sortMessages set_append set_filter image_Un
      loop_ids [of "upsertMessage lib collate", OF upsert_ids] draft loop_ids [of "put_pending lib collate", OF put_pending_ids] tool
    by (simp only: Un_assoc)
qed


lemma inventory_keeps:
  assumes "m \<in> set ms" and "isCanonicalMessage m"
  shows "m \<in> set (applyPendingRequestInventory lib collate now ms st)"
proof -
  have "m \<in> set (applyPendingRequestInventory lib collate now ms st) \<and> isCanonicalMessage m"
    unfolding applyPendingRequestInventory_def
    using assms canonical_not_synthetic agent_synthetic
    by (intro upsert_canonical.guarded_keeps) (auto intro!: overlay_keeps)
  then show ?thesis
    by simp
qed

lemma finalize_keeps: "m \<in> set ms \<Longrightarrow> isCanonicalMessage m \<Longrightarrow> m \<in> set (finalizeTurnMessages ms turnId status)"
  using canonical_not_synthetic by (fastforce simp: finalizeTurnMessages_def)





text \<open>Merging a snapshot.\<close>

lemma bootstrap_messages:
  "mp_messages (mergeLatestBootstrapState lib collate now ms page nxt st prot removed) =
     filter (\<lambda>m. am_client_id m \<notin> removed) (foldl (\<lambda>ms current.
              if am_client_id current \<in> prot \<and> am_client_id current \<notin> removed
              then upsertMessage lib collate ms (protected_row (map_of (rev (map (\<lambda>m. (am_client_id m, m))
                (filter (\<lambda>m. am_client_id m \<notin> removed) (mp_messages nxt)))) (am_client_id current)) current) else ms)
            (applyAgentStateOverlay lib collate now (sortMessagesChronologically lib collate
              (filter (\<lambda>m. \<not> isSyntheticMessage m \<and> am_client_id m \<notin> set (map am_client_id
                 (filter (\<lambda>m. am_client_id m \<notin> removed) (mp_messages nxt)))) ms
               @ filter (\<lambda>m. am_client_id m \<notin> removed) (mp_messages nxt))) st) ms)"
  by (simp add: mergeLatestBootstrapState_def Let_def getMessageIdentity_def)

lemma protected_row_id:
  "am_client_id (protected_row (map_of (rev (map (\<lambda>m. (am_client_id m, m)) ns)) (am_client_id m)) m) = am_client_id m"
  by (auto simp: protected_row_def dest!: map_of_SomeD split: option.split)



section \<open>Histories\<close>

datatype transcript_op =
    Op_upsert api_message
  | Op_insert api_message
  | Op_draft string "api_message option \<Rightarrow> api_message"
  | Op_reasoning string "api_message option \<Rightarrow> api_message"
  | Op_older "api_message list"
  | Op_persist string string string "api_message option"
  | Op_overlay api_agent_state
  | Op_bootstrap api_page api_message_page api_agent_state "string set" "string set"
  | Op_inventory api_agent_state
  | Op_finalize string turn_outcome

fun transcript_exec :: "js_lib \<Rightarrow> (string \<Rightarrow> string \<Rightarrow> int) \<Rightarrow> string \<Rightarrow> api_message list \<Rightarrow> transcript_op \<Rightarrow> api_message list" where
  "transcript_exec lib collate now ms (Op_upsert m) = upsertMessage lib collate ms m"
| "transcript_exec lib collate now ms (Op_insert m) = insertStreamMessage lib collate ms m"
| "transcript_exec lib collate now ms (Op_draft i f) = upsertDraftAssistantMessage lib collate ms i f"
| "transcript_exec lib collate now ms (Op_reasoning i f) = upsertDraftReasoningMessage lib collate ms i f"
| "transcript_exec lib collate now ms (Op_older older) = mergeOlderMessages ms older"
| "transcript_exec lib collate now ms (Op_persist cur mid cid m) = reconcileMessagePersistence lib collate ms cur mid cid m"
| "transcript_exec lib collate now ms (Op_overlay st) = applyAgentStateOverlay lib collate now ms st"
| "transcript_exec lib collate now ms (Op_bootstrap page nxt st prot removed) =
     mp_messages (mergeLatestBootstrapState lib collate now ms page nxt st prot removed)"
| "transcript_exec lib collate now ms (Op_inventory st) = applyPendingRequestInventory lib collate now ms st"
| "transcript_exec lib collate now ms (Op_finalize turnId status) = finalizeTurnMessages ms turnId status"









text \<open>Operations of live events: those that stand for work in progress, and a replayed insertion.\<close>

fun live_op :: "transcript_op \<Rightarrow> bool" where
  "live_op (Op_upsert m) = isSyntheticMessage m"
| "live_op (Op_draft i f) = (\<forall>c. am_client_id (f c) = i)"
| "live_op (Op_reasoning i f) = (\<forall>c. am_client_id (f c) = i)"
| "live_op (Op_persist cur mid cid m) = False"
| "live_op (Op_bootstrap page nxt st prot removed) = False"
| "live_op _ = True"

lemma insert_keeps:
  assumes "m \<in> set ms" and "isCanonicalMessage m"
  shows "m \<in> set (insertStreamMessage lib collate ms n)"
  using assms by (auto simp: insertStreamMessage_def find_Some_iff intro!: upsert_keeps)

lemma draft_keeps:
  assumes "m \<in> set ms" and "isCanonicalMessage m" and "\<And>c. am_client_id (f c) = i"
  shows "m \<in> set (upsertDraftAssistantMessage lib collate ms i f)" "m \<in> set (upsertDraftReasoningMessage lib collate ms i f)"
  using assms by (auto simp: upsertDraftAssistantMessage_def upsertDraftReasoningMessage_def Let_def getMessageIdentity_def
      intro!: upsert_keeps split: option.split)

lemma exec_keeps:
  assumes "live_op op" and "m \<in> set ms \<and> isCanonicalMessage m"
  shows "m \<in> set (transcript_exec lib collate now ms op) \<and> isCanonicalMessage m"
proof (cases op)
  case (Op_older older)
  with assms show ?thesis
    by (simp add: mergeOlderMessages_def)
qed (use assms in \<open>auto intro: upsert_keeps insert_keeps draft_keeps overlay_keeps inventory_keeps finalize_keeps\<close>)

interpretation live: loop_invariant "\<lambda>ms. m \<in> set ms \<and> isCanonicalMessage m" live_op "transcript_exec lib collate now"
  for m lib collate now
  by unfold_locales (rule exec_keeps)

section \<open>Properties\<close>


text \<open>C27: a row the server has persisted stays exactly as it is through any sequence of live events: drafts,
  pending tool calls, agent snapshots, request inventories, replayed insertions, older pages and the
  end of a turn.\<close>

theorem canonical_rows_survive:
  assumes "m \<in> set ms" and "isCanonicalMessage m" and "list_all live_op ops"
  shows "m \<in> set (foldl (transcript_exec lib collate now) ms ops)"
  using live.loop_keeps [of m ms ops lib collate now] assms by simp

text \<open>After a reconnect the transcript has exactly the rows of the page, the settled rows it had before, the
  cards of the agent's state and the protected local rows, less what was removed: nothing else appears
  and nothing is lost.\<close>

theorem reconnect_keeps_rows:
  "am_client_id ` set (mp_messages (mergeLatestBootstrapState lib collate now ms page nxt st prot removed)) =
     am_client_id ` {m \<in> set (mp_messages nxt). \<not> isAgentSyntheticMessage m} \<union> am_client_id ` {m \<in> set ms. \<not> isSyntheticMessage m \<and>
         am_client_id m \<notin> am_client_id ` {x \<in> set (mp_messages nxt). am_client_id x \<notin> removed}}
     \<union> am_client_id ` set (state_cards now st) \<union> (am_client_id ` set ms \<inter> prot) - removed"
proof -
  have flt: "am_client_id ` {m \<in> A. am_client_id m \<notin> R} = am_client_id ` A - R" for A R
    by auto
  show ?thesis
    unfolding bootstrap_messages set_filter flt guarded_ids [OF protected_row_id] overlay_ids set_sortMessages set_append
    using agent_synthetic by auto
qed

text \<open>While an invocation is listed, the events of a client move it forward only: to a later attempt, or
  within an attempt not back in its lifecycle, and never to an older update.\<close>

theorem invocation_moves_forward:
  assumes "distinct (map iv_invocation_id (rows_of (ag_invocations st)))"
    and "a \<in> set (rows_of (ag_invocations st))" and "b \<in> set (rows_of (ag_invocations (mergeInvocationEvent collate st row)))"
    and "iv_invocation_id a = iv_invocation_id b"
  shows "iv_attempt a \<le> iv_attempt b \<and> (iv_attempt a = iv_attempt b \<longrightarrow> \<not> lifecycle_after (iv_status a) (iv_status b)) \<and>
    iv_updated_at a \<le> iv_updated_at b"
proof -
  let ?rows = "rows_of (ag_invocations st)"
  have unique: "x = y" if "x \<in> set ?rows" "y \<in> set ?rows" "iv_invocation_id x = iv_invocation_id y" for x y
    using that assms(1) by (simp add: distinct_map inj_on_def)
  have "a = b \<or> b = row \<and> \<not> stale_event a row"
  proof (cases "mergeInvocationEvent collate st row = st")
    case True
    with assms(2,3,4) unique show ?thesis
      by simp
  next
    case False
    let ?stale = "case List.find (\<lambda>item. iv_invocation_id item = iv_invocation_id row) ?rows of
        Some previous \<Rightarrow> stale_event previous row | None \<Rightarrow> False"
    have guard: "\<not> ?stale"
    proof
      assume ?stale
      then have "mergeInvocationEvent collate st row = st"
        by (simp add: mergeInvocationEvent_def Let_def)
      with False show False ..
    qed
    then have fresh: "\<not> stale_event p row"
      if "List.find (\<lambda>item. iv_invocation_id item = iv_invocation_id row) ?rows = Some p" for p
      using that by simp
    have "rows_of (ag_invocations (mergeInvocationEvent collate st row)) = take 50 (js_sort (compareInvocations collate)
                (filter (\<lambda>item. iv_invocation_id item \<noteq> iv_invocation_id row) ?rows @ [row]))"
      unfolding mergeInvocationEvent_def Let_def if_not_P [OF guard] by (simp add: rows_of_def [of "Some x" for x])
    with assms(3) have b: "b = row \<or> b \<in> set ?rows \<and> iv_invocation_id b \<noteq> iv_invocation_id row"
      by (auto dest!: in_set_takeD)
    have "\<not> stale_event a row" if "b = row"
    proof -
      have a: "iv_invocation_id a = iv_invocation_id row"
        using assms(4) that by simp
      obtain p where p: "List.find (\<lambda>item. iv_invocation_id item = iv_invocation_id row) ?rows = Some p"
        using assms(2) a
        by (cases "List.find (\<lambda>item. iv_invocation_id item = iv_invocation_id row) ?rows") (auto simp: find_None_iff)
      then have "p \<in> set ?rows" "iv_invocation_id p = iv_invocation_id row"
        by (auto simp: find_Some_iff)
      with unique assms(2) a have "p = a"
        by simp
      with fresh [OF p] show ?thesis
        by simp
    qed
    with b unique [OF assms(2), of b] assms(4) show ?thesis
      by auto
  qed
  then show ?thesis
    by (auto simp: stale_event_def lifecycle_after_def split: option.splits)
qed

section \<open>Witnesses\<close>

text \<open>Dates as the numbers of their length, and the collation that takes all texts for equal.\<close>

definition length_lib :: js_lib where
  "length_lib = \<lparr>lib_stringify = \<lambda>_. ''{}'', lib_parse = \<lambda>_. None, lib_dateParse = \<lambda>s. num_of_int (int (length s)),
     lib_toISOString = \<lambda>_. None, lib_numberToString = \<lambda>_. ''n''\<rparr>"

definition demo_message :: "string \<Rightarrow> string \<Rightarrow> string \<Rightarrow> api_message" where
  "demo_message cid mid date = \<lparr>am_message_id = mid, am_client_id = cid, am_role = ''user'', am_display_role = ''User'',
     am_content = ''hello'', am_created_at = date, am_metadata = JUndef, am_tool_payload = JUndef, am_presentation = JUndef\<rparr>"

definition demo_state :: api_agent_state where
  "demo_state = \<lparr>ag_active = True, ag_turn_id = Some ''t1'', ag_pending_tool = None,
     ag_draft_assistant = Some \<lparr>da_client_id = ''d'', da_text = ''Hi'', da_started_at = None, da_updated_at = ''123''\<rparr>,
     ag_draft_reasoning = None, ag_updated_at = ''123'',
     ag_invocations = Some [\<lparr>iv_invocation_id = ''i'', iv_turn_id = ''t1'', iv_status = ''running'', iv_reserves_thread = True,
       iv_attempt = 1, iv_outcome_code = None, iv_cancel_requested_at = None, iv_created_at = ''1'', iv_updated_at = ''1''\<rparr>],
     ag_browser_waits = None, ag_questions = None,
     ag_data_requests = None, ag_automation_requests = None, ag_bootstrap_requests = None\<rparr>"



theorem canonical_rows_survive_witness:
  "demo_message ''d'' ''m1'' ''1'' \<in> set (foldl (transcript_exec length_lib (\<lambda>_ _. 0) ''1'')
     [demo_message ''d'' ''m1'' ''1''] [Op_overlay demo_state, Op_finalize ''t1'' Turn_failed])"
  by (rule canonical_rows_survive)
     (simp_all add: demo_message_def isCanonicalMessage_def isSyntheticMessage_def isOptimisticMessage_def
       isPendingToolMessage_def isDraftAssistantMessage_def isDraftReasoningMessage_def meta_get_def)

theorem invocation_moves_forward_witness:
  "let row = \<lparr>iv_invocation_id = ''i'', iv_turn_id = ''t1'', iv_status = ''succeeded'', iv_reserves_thread = False,
       iv_attempt = 1, iv_outcome_code = None, iv_cancel_requested_at = None, iv_created_at = ''1'', iv_updated_at = ''2''\<rparr>
   in rows_of (ag_invocations (mergeInvocationEvent (\<lambda>_ _. 0) demo_state row)) = [row] \<and>
      \<not> lifecycle_after ''running'' ''succeeded''"
proof -
  let ?row = "\<lparr>iv_invocation_id = ''i'', iv_turn_id = ''t1'', iv_status = ''succeeded'', iv_reserves_thread = False,
       iv_attempt = 1, iv_outcome_code = None, iv_cancel_requested_at = None, iv_created_at = ''1'', iv_updated_at = ''2''\<rparr>"
  let ?old = "\<lparr>iv_invocation_id = ''i'', iv_turn_id = ''t1'', iv_status = ''running'', iv_reserves_thread = True,
       iv_attempt = 1, iv_outcome_code = None, iv_cancel_requested_at = None, iv_created_at = ''1'', iv_updated_at = ''1''\<rparr>"
  have rows: "rows_of (ag_invocations (mergeInvocationEvent (\<lambda>_ _. 0) demo_state ?row)) = [?row]"
    by code_simp
  have old: "rows_of (ag_invocations demo_state) = [?old]"
    by code_simp
  have "\<not> lifecycle_after ''running'' ''succeeded''"
    using invocation_moves_forward [of demo_state ?old ?row "\<lambda>_ _. 0" ?row] by (simp add: rows old)
  with rows show ?thesis
    by (simp add: Let_def)
qed

end
