(* ===== verification/Invocations.thy ===== *)
theory Invocations
  imports Questions
begin

text \<open>
  \<open>service/src/agent/invocation-repository.ts\<close> and \<open>invocation-timing.ts\<close>: the durable queue of agent
  invocations.  An invocation is admitted with its input, leased by a worker, run under a fence that
  every write must carry, parked while it waits for the user, and finished, recovered or canceled.

  Each method is one database transaction: a function from the tables to an error, which rolls back, or
  to a result and the new tables.  A transaction reads the clock once, as \<open>now\<close>, in microseconds.  Rows that
  other transactions hold locked are a set of identifiers where the code says \<open>skip locked\<close>.  Rows a query
  returns without an order come in the order of the table.  Tables have the columns the repository uses.
  What other modules decide or create inside a transaction (the automation policy, the evidence of an
  automation, the requests and proposals that are parked) is an argument.
\<close>

section \<open>Tables\<close>

datatype inv_status = Inv_pending | Inv_retry_wait | Inv_leased | Inv_waiting_for_bud | Inv_waiting_for_model
  | Inv_running | Inv_waiting_for_user | Inv_succeeded | Inv_failed | Inv_canceled | Inv_expired | Inv_needs_review

datatype inv_origin = Human | Automation

record inv_row =
  av_id :: string
  av_turnId :: string
  av_threadId :: string
  av_budId :: string
  av_inputMessageId :: string
  av_origin :: inv_origin
  av_idempotencyKey :: string
  av_model :: string
  av_reasoningEffort :: string
  av_status :: inv_status
  av_reservesThread :: bool
  av_attempt :: int
  av_fence :: int
  av_workerId :: "string option"
  av_leaseExpiresAt :: "int option"
  av_nextAttemptAt :: int
  av_latestStartAt :: "int option"
  av_workDurationMs :: "int option"
  av_workStartedAt :: "int option"
  av_outcomeCode :: "string option"
  av_cancelRequestedAt :: "int option"
  av_canceledByUserId :: "string option"
  av_createdByUserId :: string
  av_createdAt :: int
  av_updatedAt :: int

datatype action_status = Intent | Action_waiting | Action_completed

record action_row =
  ac_id :: string
  ac_invocationId :: string
  ac_callId :: string
  ac_fence :: int
  ac_kind :: string
  ac_status :: action_status
  ac_evidence :: js_object
  ac_createdByUserId :: string
  ac_completedAt :: "int option"

record thread_row =
  th_threadId :: string
  th_budId :: string
  th_createdByUserId :: "string option"
  th_deleted :: bool
  th_messageCount :: int
  th_lastActivityAt :: int
  th_lastMessagePreview :: "string option"
  th_modelId :: "string option"
  th_reasoningEffort :: "string option"

record bud_row =
  bu_budId :: string
  bu_createdByUserId :: "string option"

record message_entry =
  me_messageId :: string
  me_clientId :: string
  me_threadId :: string
  me_role :: string
  me_displayRole :: string
  me_content :: string
  me_metadata :: js_object
  me_createdByUserId :: "string option"
  me_createdAt :: int

record question_row =
  qn_questionRequestId :: string
  qn_threadId :: string
  qn_turnId :: string
  qn_callId :: string
  qn_status :: string
  qn_createdByUserId :: "string option"
  qn_updatedAt :: int

text \<open>Requests for data keys, automation proposals and bootstrap proposals, three tables with these columns.\<close>

record decision_row =
  dc_id :: string
  dc_invocationId :: string
  dc_threadId :: string
  dc_callId :: string
  dc_status :: string
  dc_version :: int
  dc_createdByUserId :: string
  dc_updatedAt :: int

record handoff_row =
  hf_id :: string
  hf_sessionId :: string
  hf_threadId :: string
  hf_budId :: string
  hf_invocationId :: "string option"
  hf_callId :: "string option"
  hf_clientId :: "string option"
  hf_kind :: string
  hf_status :: string
  hf_createdByUserId :: string
  hf_resolutionReason :: "string option"
  hf_resolvedAt :: "int option"

record session_row =
  bs_id :: string
  bs_browserId :: "string option"
  bs_createdByUserId :: string
  bs_desiredState :: string
  bs_closed :: bool

record resource_row =
  br_id :: string
  br_createdByUserId :: string
  br_controlState :: string
  br_privateContent :: bool
  br_desiredState :: string
  br_retired :: bool

text \<open>What is announced after a commit: the invocations that changed and the settled work times.\<close>

datatype inv_event = Changed "string list" | Turn_timing string string "int option"

record inv_db =
  db_invocations :: "inv_row list"
  db_actions :: "action_row list"
  db_threads :: "thread_row list"
  db_buds :: "bud_row list"
  db_messages :: "message_entry list"
  db_questions :: "question_row list"
  db_dataRequests :: "decision_row list"
  db_automationProposals :: "decision_row list"
  db_bootstrapProposals :: "decision_row list"
  db_handoffs :: "handoff_row list"
  db_sessions :: "session_row list"
  db_resources :: "resource_row list"
  db_deliveries :: "(string \<times> string) list"
  db_bootstrapGroups :: "(string \<times> string) list"
  db_published :: "inv_event list"

datatype inv_error = InvocationError string | Db_error string

type_synonym 'a inv_tx = "inv_error + 'a"

definition APP_KEY_REQUEST_TOOL :: string where
  "APP_KEY_REQUEST_TOOL = ''data_request_api_key''"

definition AUTOMATION_PROPOSAL_TOOL :: string where
  "AUTOMATION_PROPOSAL_TOOL = ''automations_request_activation''"

definition BOOTSTRAP_PROPOSAL_TOOL :: string where
  "BOOTSTRAP_PROPOSAL_TOOL = ''automations_request_existing_contacts''"

text \<open>Updates of the rows that satisfy a condition.\<close>

definition upd_rows :: "('r \<Rightarrow> bool) \<Rightarrow> ('r \<Rightarrow> 'r) \<Rightarrow> 'r list \<Rightarrow> 'r list" where
  "upd_rows P f rows = map (\<lambda>r. if P r then f r else r) rows"

definition upd_invocation :: "string \<Rightarrow> (inv_row \<Rightarrow> inv_row) \<Rightarrow> inv_db \<Rightarrow> inv_db" where
  "upd_invocation i f s = s\<lparr>db_invocations := upd_rows (\<lambda>r. av_id r = i) f (db_invocations s)\<rparr>"

definition upd_actions :: "(action_row \<Rightarrow> bool) \<Rightarrow> (action_row \<Rightarrow> action_row) \<Rightarrow> inv_db \<Rightarrow> inv_db" where
  "upd_actions P f s = s\<lparr>db_actions := upd_rows P f (db_actions s)\<rparr>"

definition find_invocation :: "string \<Rightarrow> inv_db \<Rightarrow> inv_row option" where
  "find_invocation i s = List.find (\<lambda>r. av_id r = i) (db_invocations s)"

section \<open>Timing\<close>

text \<open>The work time in milliseconds when the clock stops; unknown once it is uncertain.\<close>

definition settledWorkDuration :: "int \<Rightarrow> inv_row \<Rightarrow> int option" where
  "settledWorkDuration now r =
     (case av_workDurationMs r of
        None \<Rightarrow> None
      | Some d \<Rightarrow>
          (case (av_status r = Inv_running, av_workStartedAt r) of
             (True, Some t) \<Rightarrow> Some (d + max 0 ((now - t) div 1000))
           | (True, None) \<Rightarrow> None
           | (False, Some _) \<Rightarrow> None
           | (False, None) \<Rightarrow> Some d))"

definition settleWorkTiming :: "int \<Rightarrow> inv_row \<Rightarrow> inv_row" where
  "settleWorkTiming now r = r\<lparr>av_workDurationMs := settledWorkDuration now r, av_workStartedAt := None\<rparr>"

definition invalidateWorkTiming :: "inv_row \<Rightarrow> inv_row" where
  "invalidateWorkTiming r = r\<lparr>av_workDurationMs := None, av_workStartedAt := None\<rparr>"

definition beginWorkTiming :: "int \<Rightarrow> inv_row \<Rightarrow> inv_row" where
  "beginWorkTiming now r = r\<lparr>av_workDurationMs := (if av_workStartedAt r \<noteq> None then None else av_workDurationMs r),
     av_workStartedAt := Some now\<rparr>"

definition settledTurnTiming :: "inv_row \<Rightarrow> inv_event option" where
  "settledTurnTiming r =
     (if av_status r \<notin> {Inv_succeeded, Inv_failed, Inv_canceled, Inv_expired, Inv_needs_review} then None
      else Some (Turn_timing (av_threadId r) (av_turnId r)
        (case av_workDurationMs r of
           Some v \<Rightarrow> if av_status r \<noteq> Inv_needs_review \<and> av_workStartedAt r = None \<and> 0 \<le> v \<and> v \<le> MAX_SAFE_INTEGER
                     then Some v else None
         | None \<Rightarrow> None)))"

text \<open>\<open>invocationTimingTransaction\<close>: after the commit the changed identifiers are published once, then the
  timings of the rows that were settled.\<close>

definition publish_changes :: "string list \<Rightarrow> string list \<Rightarrow> inv_db \<Rightarrow> inv_db" where
  "publish_changes changed settled s =
     s\<lparr>db_published := db_published s @
        (if changed = [] then [] else [Changed (remdups changed)])
        @ List.map_filter (\<lambda>i. Option.bind (find_invocation i s) settledTurnTiming) settled\<rparr>"

definition timingsForTurns :: "string \<Rightarrow> string \<Rightarrow> string list \<Rightarrow> inv_db \<Rightarrow> inv_event list" where
  "timingsForTurns owner threadId turnIds s =
     (if turnIds = [] then []
      else List.map_filter settledTurnTiming (filter (\<lambda>r. av_createdByUserId r = owner \<and> av_threadId r = threadId \<and>
        av_turnId r \<in> set turnIds) (db_invocations s)))"

definition invalidateInterruptedTiming :: "int \<Rightarrow> inv_db \<Rightarrow> inv_db" where
  "invalidateInterruptedTiming now s =
     s\<lparr>db_invocations := upd_rows (\<lambda>r. av_workStartedAt r \<noteq> None \<and>
        (av_status r \<noteq> Inv_running \<or> (case av_leaseExpiresAt r of None \<Rightarrow> True | Some e \<Rightarrow> e \<le> now)))
        invalidateWorkTiming (db_invocations s)\<rparr>"

section \<open>Authority\<close>

text \<open>The thread and its bud belong to the owner and the thread is not deleted.\<close>

definition thread_owned :: "inv_db \<Rightarrow> string \<Rightarrow> string \<Rightarrow> bool" where
  "thread_owned s threadId owner \<longleftrightarrow> (\<exists>t \<in> set (db_threads s). th_threadId t = threadId \<and>
     th_createdByUserId t = Some owner \<and> \<not> th_deleted t \<and>
     (\<exists>b \<in> set (db_buds s). bu_budId b = th_budId t \<and> bu_createdByUserId b = Some owner))"

record inv_lease =
  le_id :: string
  le_fence :: int
  le_workerId :: "string option"
  le_createdByUserId :: string

text \<open>The row is held under the lease: same fence, same worker, and the lease has not run out.\<close>

definition holds_lease :: "int \<Rightarrow> inv_lease \<Rightarrow> inv_row \<Rightarrow> bool" where
  "holds_lease now lease r \<longleftrightarrow> av_id r = le_id lease \<and> av_createdByUserId r = le_createdByUserId lease \<and>
     av_fence r = le_fence lease \<and>
     (case le_workerId lease of None \<Rightarrow> False | Some w \<Rightarrow> w \<noteq> [] \<and> av_workerId r = Some w) \<and>
     (case av_leaseExpiresAt r of None \<Rightarrow> False | Some e \<Rightarrow> e > now)"

definition lockedLease :: "int \<Rightarrow> inv_lease \<Rightarrow> inv_status list \<Rightarrow> bool \<Rightarrow> inv_db \<Rightarrow> inv_row inv_tx" where
  "lockedLease now lease statuses allowCancellation s =
     (case List.find (holds_lease now lease) (db_invocations s) of
        None \<Rightarrow> Inl (InvocationError ''lease_lost'')
      | Some row \<Rightarrow>
          if av_status row \<notin> set statuses then Inl (InvocationError ''lease_lost'')
          else if av_cancelRequestedAt row \<noteq> None \<and> \<not> allowCancellation then Inl (InvocationError ''invocation_canceled'')
          else if \<not> thread_owned s (av_threadId row) (av_createdByUserId row)
          then Inl (InvocationError ''invocation_authority_lost'')
          else Inr row)"

definition LEASE_MICROS :: int where
  "LEASE_MICROS = 60 * 1000000"

definition waiting_action :: "inv_db \<Rightarrow> string \<Rightarrow> bool" where
  "waiting_action s i \<longleftrightarrow> (\<exists>a \<in> set (db_actions s). ac_invocationId a = i \<and> ac_status a = Action_waiting)"

text \<open>\<open>evidence->>'browser_handoff_id' is not null\<close> and \<open>evidence ? 'browser_handoff_id'\<close>.\<close>

definition hasBrowserWait :: "inv_db \<Rightarrow> string \<Rightarrow> bool" where
  "hasBrowserWait s i \<longleftrightarrow> (\<exists>a \<in> set (db_actions s). ac_invocationId a = i \<and> ac_status a = Action_waiting \<and>
     obj_get (ac_evidence a) ''browser_handoff_id'' \<notin> {JUndef, JNull})"

definition cancel_handoffs :: "int \<Rightarrow> (handoff_row \<Rightarrow> bool) \<Rightarrow> inv_db \<Rightarrow> inv_db" where
  "cancel_handoffs now P s = s\<lparr>db_handoffs := upd_rows (\<lambda>h. P h \<and> hf_status h = ''pending'')
     (\<lambda>h. h\<lparr>hf_status := ''canceled'', hf_resolvedAt := Some now\<rparr>) (db_handoffs s)\<rparr>"

section \<open>Admission\<close>

record inv_admission =
  ad_owner :: string
  ad_threadId :: string
  ad_origin :: inv_origin
  ad_idempotencyKey :: string
  ad_clientId :: "string option"
  ad_text :: string
  ad_model :: string
  ad_reasoningEffort :: string
  ad_latestStartAt :: "int option"
  ad_metadata :: js_object
  ad_persistModelSelection :: bool

text \<open>\<open>slice(0, n)\<close> in UTF-16 units; half of a surrogate pair is stored as the replacement character.\<close>

fun js_take :: "nat \<Rightarrow> string \<Rightarrow> string" where
  "js_take n [] = []"
| "js_take n (c # s) =
     (let b = of_char c :: nat
      in if 128 \<le> b \<and> b < 192 then c # js_take n s
         else let w = (if b < 240 then 1 else 2)
              in if w \<le> n then c # js_take (n - w) s
                 else if n = 0 then [] else [CHR 0xEF, CHR 0xBF, CHR 0xBD])"

text \<open>The text an invocation was admitted with: the start of an automation keeps it in the metadata.\<close>

definition admitted_text :: "inv_row \<Rightarrow> message_entry \<Rightarrow> json" where
  "admitted_text r message =
     (let kept = obj_get (me_metadata message) ''automation_admission_text''
      in if av_origin r = Automation \<and> kept \<notin> {JUndef, JNull} then kept else JStr (me_content message))"

definition same_admission :: "inv_admission \<Rightarrow> inv_row \<Rightarrow> message_entry option \<Rightarrow> bool" where
  "same_admission input r message \<longleftrightarrow> av_threadId r = ad_threadId input \<and> av_origin r = ad_origin input \<and>
     av_model r = ad_model input \<and> av_reasoningEffort r = ad_reasoningEffort input \<and>
     (case message of None \<Rightarrow> False
      | Some msg \<Rightarrow> admitted_text r msg = JStr (ad_text input) \<and>
          (case ad_clientId input of None \<Rightarrow> True | Some c \<Rightarrow> c = [] \<or> me_clientId msg = c))"

definition cancel_decisions :: "int \<Rightarrow> string \<Rightarrow> string \<Rightarrow> decision_row list \<Rightarrow> decision_row list" where
  "cancel_decisions now i owner rows = upd_rows (\<lambda>d. dc_invocationId d = i \<and> dc_createdByUserId d = owner \<and> dc_status d = ''pending'')
     (\<lambda>d. d\<lparr>dc_status := ''canceled'', dc_version := dc_version d + 1, dc_updatedAt := now\<rparr>) rows"

text \<open>What a cancellation does to everything the invocation waits for.\<close>

definition cancel_waits :: "int \<Rightarrow> inv_row \<Rightarrow> string \<Rightarrow> inv_db \<Rightarrow> inv_db" where
  "cancel_waits now row owner s =
     (cancel_handoffs now (\<lambda>h. hf_invocationId h = Some (av_id row) \<and> hf_createdByUserId h = owner) s)
       \<lparr>db_questions := upd_rows (\<lambda>q. qn_threadId q = av_threadId row \<and> qn_turnId q = av_turnId row \<and>
            qn_createdByUserId q = Some owner \<and> qn_status q = ''pending'')
          (\<lambda>q. q\<lparr>qn_status := ''canceled'', qn_updatedAt := now\<rparr>) (db_questions s),
        db_dataRequests := cancel_decisions now (av_id row) owner (db_dataRequests s),
        db_automationProposals := cancel_decisions now (av_id row) owner (db_automationProposals s),
        db_bootstrapProposals := cancel_decisions now (av_id row) owner (db_bootstrapProposals s)\<rparr>"

definition canceled_row :: "int \<Rightarrow> string \<Rightarrow> inv_row \<Rightarrow> inv_row" where
  "canceled_row now owner row =
     (let r = row\<lparr>av_cancelRequestedAt := Some (or_default now (av_cancelRequestedAt row)), av_canceledByUserId := Some owner,
                  av_updatedAt := now\<rparr>
      in if av_status row = Inv_running then r
         else (settleWorkTiming now r)\<lparr>av_status := Inv_canceled, av_reservesThread := False, av_workerId := None,
                av_leaseExpiresAt := None, av_fence := av_fence row + 1, av_outcomeCode := Some ''user_canceled''\<rparr>)"

definition requestCancelInTransaction :: "int \<Rightarrow> string \<Rightarrow> string \<Rightarrow> inv_db \<Rightarrow> (string list \<times> inv_db) inv_tx" where
  "requestCancelInTransaction now owner invocationId s =
     (case List.find (\<lambda>r. av_id r = invocationId \<and> av_createdByUserId r = owner) (db_invocations s) of
        None \<Rightarrow> Inl (InvocationError ''invocation_not_found'')
      | Some row \<Rightarrow>
          if av_status row \<in> {Inv_succeeded, Inv_failed, Inv_canceled, Inv_expired} then Inr ([], s)
          else Inr ([av_id row], upd_invocation (av_id row) (canceled_row now owner) (cancel_waits now row owner s)))"

definition requestCancel :: "int \<Rightarrow> string \<Rightarrow> string \<Rightarrow> inv_db \<Rightarrow> inv_db inv_tx" where
  "requestCancel now owner invocationId s =
     andThen (requestCancelInTransaction now owner invocationId s) (\<lambda>(settled, s'). Inr (publish_changes settled settled s'))"

text \<open>A new instruction supersedes the browser tasks of the thread that wait for the user.\<close>

definition superseded_waits :: "inv_admission \<Rightarrow> inv_db \<Rightarrow> string list" where
  "superseded_waits input s =
     map av_id (filter (\<lambda>r. av_threadId r = ad_threadId input \<and> av_createdByUserId r = ad_owner input \<and>
       av_status r = Inv_waiting_for_user \<and>
       (\<exists>h \<in> set (db_handoffs s). hf_invocationId h = Some (av_id r) \<and> hf_createdByUserId h = ad_owner input \<and>
          hf_kind h = ''agent'' \<and> hf_status h = ''pending'')) (db_invocations s))"

fun supersede :: "int \<Rightarrow> string \<Rightarrow> string list \<Rightarrow> inv_db \<Rightarrow> (string list \<times> inv_db) inv_tx" where
  "supersede now owner [] s = Inr ([], s)"
| "supersede now owner (i # ids) s =
     andThen (requestCancelInTransaction now owner i s) (\<lambda>(settled, s1).
       let s2 = upd_invocation i (\<lambda>r. r\<lparr>av_outcomeCode := Some ''superseded_by_user_message''\<rparr>) s1;
           s3 = s2\<lparr>db_handoffs := upd_rows (\<lambda>h. hf_invocationId h = Some i \<and> hf_createdByUserId h = owner)
                  (\<lambda>h. h\<lparr>hf_resolutionReason := Some ''user_redirected''\<rparr>) (db_handoffs s2)\<rparr>
       in andThen (supersede now owner ids s3) (\<lambda>(more_settled, s4). Inr (settled @ more_settled, s4)))"

record fresh_ids =
  fi_invocation :: string
  fi_turn :: string
  fi_message :: string
  fi_client :: string

fun origin_name :: "inv_origin \<Rightarrow> string" where
  "origin_name Human = ''human''"
| "origin_name Automation = ''automation''"

definition admitted_message :: "int \<Rightarrow> fresh_ids \<Rightarrow> inv_admission \<Rightarrow> message_entry" where
  "admitted_message now fresh input =
     \<lparr>me_messageId = fi_message fresh, me_clientId = or_default (fi_client fresh) (ad_clientId input),
      me_threadId = ad_threadId input,
      me_role = (if ad_origin input = Human then ''user'' else ''system''),
      me_displayRole = (if ad_origin input = Human then ''User'' else ''Automation''),
      me_content = ad_text input,
      me_metadata = obj_spread (ad_metadata input) [(''invocation_id'', JStr (fi_invocation fresh)),
        (''origin'', JStr (origin_name (ad_origin input))), (''model_context_at'', JNull)],
      me_createdByUserId = Some (ad_owner input), me_createdAt = now\<rparr>"

definition admitted_row :: "int \<Rightarrow> fresh_ids \<Rightarrow> inv_admission \<Rightarrow> thread_row \<Rightarrow> inv_row" where
  "admitted_row now fresh input t =
     \<lparr>av_id = fi_invocation fresh, av_turnId = fi_turn fresh, av_threadId = th_threadId t, av_budId = th_budId t,
      av_inputMessageId = fi_message fresh, av_origin = ad_origin input, av_idempotencyKey = ad_idempotencyKey input,
      av_model = ad_model input, av_reasoningEffort = ad_reasoningEffort input, av_status = Inv_pending,
      av_reservesThread = False, av_attempt = 0, av_fence = 0, av_workerId = None, av_leaseExpiresAt = None,
      av_nextAttemptAt = now, av_latestStartAt = ad_latestStartAt input, av_workDurationMs = Some 0,
      av_workStartedAt = None, av_outcomeCode = None, av_cancelRequestedAt = None, av_canceledByUserId = None,
      av_createdByUserId = ad_owner input, av_createdAt = now, av_updatedAt = now\<rparr>"

definition touched_thread :: "int \<Rightarrow> inv_admission \<Rightarrow> thread_row \<Rightarrow> thread_row" where
  "touched_thread now input t =
     (if ad_persistModelSelection input
      then t\<lparr>th_modelId := Some (ad_model input), th_reasoningEffort := Some (ad_reasoningEffort input)\<rparr> else t)
     \<lparr>th_lastActivityAt := now, th_messageCount := th_messageCount t + 1,
      th_lastMessagePreview := Some (js_take 360 (ad_text input))\<rparr>"

record admission =
  adm_invocation :: inv_row
  adm_message :: message_entry
  adm_duplicate :: bool

definition insert_admission :: "int \<Rightarrow> fresh_ids \<Rightarrow> inv_admission \<Rightarrow> thread_row \<Rightarrow> inv_db \<Rightarrow> inv_db" where
  "insert_admission now fresh input t s =
     s\<lparr>db_messages := db_messages s @ [admitted_message now fresh input],
       db_invocations := db_invocations s @ [admitted_row now fresh input t],
       db_threads := upd_rows (\<lambda>u. th_threadId u = th_threadId t) (touched_thread now input) (db_threads s)\<rparr>"

definition admitInTransaction :: "int \<Rightarrow> fresh_ids \<Rightarrow> inv_admission \<Rightarrow> inv_db \<Rightarrow> (admission \<times> string list \<times> inv_db) inv_tx" where
  "admitInTransaction now fresh input s =
     (if ad_owner input = [] \<or> ad_idempotencyKey input = [] \<or> js_length (ad_idempotencyKey input) > 256 \<or>
         ad_text input = [] \<or> js_length (ad_text input) > 100000
      then Inl (InvocationError ''invalid_admission'')
      else case List.find (\<lambda>t. th_threadId t = ad_threadId input \<and> th_createdByUserId t = Some (ad_owner input) \<and> \<not> th_deleted t \<and>
                  (\<exists>b \<in> set (db_buds s). bu_budId b = th_budId t \<and> bu_createdByUserId b = Some (ad_owner input))) (db_threads s) of
        None \<Rightarrow> Inl (InvocationError ''thread_not_found'')
      | Some t \<Rightarrow>
          (case List.find (\<lambda>r. av_createdByUserId r = ad_owner input \<and> av_idempotencyKey r = ad_idempotencyKey input) (db_invocations s) of
             Some existing \<Rightarrow>
               (let message = List.find (\<lambda>m. me_messageId m = av_inputMessageId existing) (db_messages s)
                in if same_admission input existing message
                   then Inr (\<lparr>adm_invocation = existing, adm_message = the message, adm_duplicate = True\<rparr>, [], s)
                   else Inl (InvocationError ''admission_conflict''))
           | None \<Rightarrow>
               andThen (supersede now (ad_owner input) (if ad_origin input = Human then superseded_waits input s else []) s)
                 (\<lambda>(settled, s1).
                   if fi_invocation fresh \<in> av_id ` set (db_invocations s1) \<or> fi_turn fresh \<in> av_turnId ` set (db_invocations s1) \<or>
                      fi_message fresh \<in> me_messageId ` set (db_messages s1) \<or>
                      or_default (fi_client fresh) (ad_clientId input) \<in> me_clientId ` set (db_messages s1)
                   then Inl (Db_error ''unique_violation'')
                   else Inr (\<lparr>adm_invocation = admitted_row now fresh input t, adm_message = admitted_message now fresh input,
                              adm_duplicate = False\<rparr>, settled, insert_admission now fresh input t s1))))"

definition admit :: "int \<Rightarrow> fresh_ids \<Rightarrow> inv_admission \<Rightarrow> inv_db \<Rightarrow> (admission \<times> inv_db) inv_tx" where
  "admit now fresh input s =
     andThen (admitInTransaction now fresh input s) (\<lambda>(a, settled, s').
       Inr (a, if adm_duplicate a then s' else publish_changes (settled @ [av_id (adm_invocation a)]) settled s'))"

end
