(* ===== verification/InvocationQueue.thy ===== *)
theory InvocationQueue
  imports Invocations "HOL-Library.List_Lexorder" "HOL-Library.Char_ord" "HOL-Library.Product_Lexorder"
begin

text \<open>
  The life of an invocation after its admission: claims, leases, actions, parking, finishing and recovery
  (\<open>service/src/agent/invocation-repository.ts\<close>).
\<close>

section \<open>Claim\<close>

definition queued :: "inv_status list" where
  "queued = [Inv_pending, Inv_retry_wait, Inv_waiting_for_bud, Inv_waiting_for_model]"

text \<open>What the user was asked for has been decided.\<close>

definition question_answered :: "inv_db \<Rightarrow> inv_row \<Rightarrow> action_row \<Rightarrow> bool" where
  "question_answered s r a \<longleftrightarrow> (\<exists>q \<in> set (db_questions s).
     obj_get (ac_evidence a) ''question_request_id'' = JStr (qn_questionRequestId q) \<and> qn_status q = ''answered'' \<and>
     qn_turnId q = av_turnId r \<and> qn_threadId q = av_threadId r \<and> qn_createdByUserId q = Some (av_createdByUserId r))"

definition decided :: "string \<Rightarrow> string \<Rightarrow> decision_row list \<Rightarrow> inv_row \<Rightarrow> action_row \<Rightarrow> bool" where
  "decided key kind rows r a \<longleftrightarrow> ac_kind a = kind \<and> (\<exists>d \<in> set rows.
     obj_get (ac_evidence a) key = JStr (dc_id d) \<and> dc_status d \<noteq> ''pending'' \<and> dc_invocationId d = av_id r \<and>
     dc_callId d = ac_callId a \<and> dc_threadId d = av_threadId r \<and> dc_createdByUserId d = av_createdByUserId r)"

definition browser_returned :: "inv_db \<Rightarrow> inv_row \<Rightarrow> action_row \<Rightarrow> bool" where
  "browser_returned s r a \<longleftrightarrow> (\<exists>h \<in> set (db_handoffs s). \<exists>b \<in> set (db_sessions s). \<exists>x \<in> set (db_resources s).
     obj_get (ac_evidence a) ''browser_handoff_id'' = JStr (hf_id h) \<and>
     bs_id b = hf_sessionId h \<and> bs_createdByUserId b = hf_createdByUserId h \<and>
     bs_browserId b = Some (br_id x) \<and> br_createdByUserId x = hf_createdByUserId h \<and>
     hf_status h = ''returned'' \<and> br_controlState x = ''agent'' \<and> \<not> br_privateContent x \<and> \<not> br_retired x \<and>
     br_desiredState x = ''open'' \<and> \<not> bs_closed b \<and> hf_invocationId h = Some (av_id r) \<and>
     hf_createdByUserId h = av_createdByUserId r)"

definition wait_resolved :: "inv_db \<Rightarrow> inv_row \<Rightarrow> bool" where
  "wait_resolved s r \<longleftrightarrow> (\<exists>a \<in> set (db_actions s). ac_invocationId a = av_id r \<and> ac_status a = Action_waiting \<and>
     (question_answered s r a \<or>
      decided ''data_access_request_id'' APP_KEY_REQUEST_TOOL (db_dataRequests s) r a \<or>
      decided ''automation_proposal_id'' AUTOMATION_PROPOSAL_TOOL (db_automationProposals s) r a \<or>
      decided ''bootstrap_proposal_id'' BOOTSTRAP_PROPOSAL_TOOL (db_bootstrapProposals s) r a \<or>
      browser_returned s r a))"

definition other_reserves :: "inv_db \<Rightarrow> inv_row \<Rightarrow> bool" where
  "other_reserves s r \<longleftrightarrow> (\<exists>x \<in> set (db_invocations s). av_threadId x = av_threadId r \<and> av_id x \<noteq> av_id r \<and> av_reservesThread x)"

definition automations_reserving :: "inv_db \<Rightarrow> string \<Rightarrow> nat" where
  "automations_reserving s budId =
     length (filter (\<lambda>x. av_budId x = budId \<and> av_origin x = Automation \<and> av_reservesThread x) (db_invocations s))"

definition claimable :: "nat \<Rightarrow> int \<Rightarrow> string set \<Rightarrow> string option \<Rightarrow> inv_db \<Rightarrow> inv_row \<Rightarrow> bool" where
  "claimable cap now locked ownerFilter s r \<longleftrightarrow>
     (av_status r \<in> set queued \<or> av_status r = Inv_waiting_for_user \<and> wait_resolved s r) \<and>
     av_nextAttemptAt r \<le> now \<and> av_cancelRequestedAt r = None \<and>
     (\<exists>t \<in> set (db_threads s). th_threadId t = av_threadId r \<and> \<not> th_deleted t \<and>
        th_createdByUserId t = Some (av_createdByUserId r)) \<and> av_threadId r \<notin> locked \<and>
     (\<exists>b \<in> set (db_buds s). bu_budId b = av_budId r \<and> bu_createdByUserId b = Some (av_createdByUserId r)) \<and>
     (ownerFilter = None \<or> ownerFilter = Some [] \<or> ownerFilter = Some (av_createdByUserId r)) \<and>
     (av_origin r = Human \<or> av_reservesThread r \<or> automations_reserving s (av_budId r) < cap) \<and>
     \<not> other_reserves s r"

text \<open>\<open>ORDER BY\<close> human first, then age, then identifier; \<open>LIMIT 1\<close>.\<close>

definition claim_candidate :: "nat \<Rightarrow> int \<Rightarrow> string set \<Rightarrow> string option \<Rightarrow> inv_db \<Rightarrow> string option" where
  "claim_candidate cap now locked ownerFilter s =
     (case sort_key (\<lambda>r. (if av_origin r = Human then 0 else 1 :: nat, av_createdAt r, av_id r))
             (filter (claimable cap now locked ownerFilter s) (db_invocations s)) of
        [] \<Rightarrow> None | r # _ \<Rightarrow> Some (av_id r))"

definition start_elapsed :: "int \<Rightarrow> inv_db \<Rightarrow> inv_row \<Rightarrow> bool" where
  "start_elapsed now s r \<longleftrightarrow> (case av_latestStartAt r of None \<Rightarrow> False | Some t \<Rightarrow> t \<le> now) \<and> \<not> waiting_action s (av_id r)"

definition expired_row :: "int \<Rightarrow> inv_row \<Rightarrow> inv_row" where
  "expired_row now r = (settleWorkTiming now r)\<lparr>av_status := Inv_expired, av_reservesThread := False,
     av_outcomeCode := Some ''latest_start_elapsed'', av_updatedAt := now\<rparr>"

definition leased_row :: "int \<Rightarrow> string \<Rightarrow> inv_row \<Rightarrow> inv_row" where
  "leased_row now workerId r = r\<lparr>av_status := Inv_leased, av_reservesThread := True, av_workerId := Some workerId,
     av_fence := av_fence r + 1, av_attempt := av_attempt r + 1, av_leaseExpiresAt := Some (now + LEASE_MICROS), av_updatedAt := now\<rparr>"

text \<open>
  The candidate comes from a snapshot that may be older than the state in which the thread is locked.
  \<open>claim_read\<close> is what the transaction decides from the tables it then reads, without a lock on the
  invocation; \<open>acquired\<close> is whether the advisory lock of the bud was free.  \<open>claim_write\<close> is its update.
\<close>

datatype claim_outcome = Claim_nothing | Claim_expire | Claim_lease

definition claim_read :: "nat \<Rightarrow> bool \<Rightarrow> int \<Rightarrow> string \<Rightarrow> inv_db \<Rightarrow> claim_outcome" where
  "claim_read cap acquired now i s =
     (case find_invocation i s of
        None \<Rightarrow> Claim_nothing
      | Some current \<Rightarrow>
          if av_cancelRequestedAt current \<noteq> None \<or> av_status current \<notin> set (queued @ [Inv_waiting_for_user]) then Claim_nothing
          else if other_reserves s current then Claim_nothing
          else if start_elapsed now s current \<and> av_status current \<noteq> Inv_waiting_for_user then Claim_expire
          else if av_origin current = Automation \<and> \<not> av_reservesThread current \<and>
                  (\<not> acquired \<or> automations_reserving s (av_budId current) \<ge> cap) then Claim_nothing
          else Claim_lease)"

definition claim_write :: "string \<Rightarrow> int \<Rightarrow> string \<Rightarrow> claim_outcome \<Rightarrow> inv_db \<Rightarrow> inv_row option \<times> inv_db" where
  "claim_write workerId now i outcome s =
     (case find_invocation i s of
        None \<Rightarrow> (None, s)
      | Some stored \<Rightarrow>
          (case outcome of
             Claim_nothing \<Rightarrow> (None, s)
           | Claim_expire \<Rightarrow> (None, publish_changes [i] [i] (upd_invocation i (expired_row now) s))
           | Claim_lease \<Rightarrow>
               (Some (leased_row now workerId stored),
                publish_changes [i] []
                  (upd_actions (\<lambda>a. ac_invocationId a = i \<and> ac_status a = Action_waiting)
                     (\<lambda>a. a\<lparr>ac_fence := av_fence stored + 1\<rparr>)
                     (upd_invocation i (leased_row now workerId) s)))))"

definition claim_locked :: "nat \<Rightarrow> bool \<Rightarrow> string \<Rightarrow> int \<Rightarrow> string \<Rightarrow> inv_db \<Rightarrow> inv_row option \<times> inv_db" where
  "claim_locked cap acquired workerId now i s = claim_write workerId now i (claim_read cap acquired now i s) s"

definition claim :: "nat \<Rightarrow> int \<Rightarrow> inv_db \<Rightarrow> string set \<Rightarrow> bool \<Rightarrow> string \<Rightarrow> string option \<Rightarrow> int \<Rightarrow> inv_db \<Rightarrow>
    (inv_row option \<times> inv_db) inv_tx" where
  "claim cap snapTime snapshot locked acquired workerId ownerFilter now s =
     (if workerId = [] then Inl (InvocationError ''worker_required'')
      else case claim_candidate cap snapTime locked ownerFilter snapshot of
             None \<Rightarrow> Inr (None, s)
           | Some i \<Rightarrow> Inr (claim_locked cap acquired workerId now i s))"

section \<open>Leases\<close>

definition heartbeat :: "int \<Rightarrow> inv_lease \<Rightarrow> inv_db \<Rightarrow> inv_db inv_tx" where
  "heartbeat now lease s =
     andThen (lockedLease now lease [Inv_leased, Inv_running] False s) (\<lambda>_.
       Inr (upd_invocation (le_id lease) (\<lambda>r. r\<lparr>av_leaseExpiresAt := Some (now + LEASE_MICROS), av_updatedAt := now\<rparr>) s))"

record start_env =
  se_policyReady :: "inv_row \<Rightarrow> bool"
  se_evidence :: "inv_row \<Rightarrow> string option"
  se_timestamptz :: "string \<Rightarrow> int option"
  se_iso :: "int \<Rightarrow> string"

definition is_invocation_input :: "inv_db \<Rightarrow> message_entry \<Rightarrow> bool" where
  "is_invocation_input s m \<longleftrightarrow> (\<exists>r \<in> set (db_invocations s). av_inputMessageId r = me_messageId m \<and>
     av_threadId r = me_threadId m \<and> Some (av_createdByUserId r) = me_createdByUserId m)"

definition context_at :: "message_entry \<Rightarrow> string option" where
  "context_at m = as_string (obj_get (me_metadata m) ''model_context_at'')"

definition modelContextMessageVisible :: "inv_db \<Rightarrow> message_entry \<Rightarrow> bool" where
  "modelContextMessageVisible s m \<longleftrightarrow> \<not> is_invocation_input s m \<or> context_at m \<noteq> None"

text \<open>The place of a visible message in the model's context, in microseconds; none when its text is no date.\<close>

definition modelContextMessageCreatedAt :: "start_env \<Rightarrow> inv_db \<Rightarrow> message_entry \<Rightarrow> int option" where
  "modelContextMessageCreatedAt env s m =
     (if is_invocation_input s m then Option.bind (context_at m) (se_timestamptz env) else Some (me_createdAt m))"

definition visible_times :: "start_env \<Rightarrow> inv_db \<Rightarrow> string \<Rightarrow> int option list" where
  "visible_times env s threadId =
     map (modelContextMessageCreatedAt env s)
       (filter (\<lambda>m. me_threadId m = threadId \<and> modelContextMessageVisible s m) (db_messages s))"

definition context_clock :: "start_env \<Rightarrow> int \<Rightarrow> inv_db \<Rightarrow> string \<Rightarrow> int inv_tx" where
  "context_clock env now s threadId =
     (let times = visible_times env s threadId
      in if None \<in> set times then Inl (Db_error ''invalid_datetime'')
         else Inr (fold max (map (\<lambda>t. the t div 1000 + 1) times) (now div 1000)))"

definition with_evidence :: "start_env \<Rightarrow> inv_row \<Rightarrow> message_entry \<Rightarrow> message_entry" where
  "with_evidence env row m =
     (if context_at m \<noteq> None \<and> context_at m \<noteq> Some [] then m
      else case se_evidence env row of
             None \<Rightarrow> m
           | Some context \<Rightarrow> m\<lparr>me_content := me_content m @ context,
               me_metadata := obj_spread (me_metadata m) [(''automation_admission_text'', JStr (me_content m)),
                 (''contact_evidence_version'', JInt 1)]\<rparr>)"

definition automated :: "inv_db \<Rightarrow> inv_row \<Rightarrow> bool" where
  "automated s row \<longleftrightarrow> av_origin row = Automation \<and>
     ((av_id row, av_createdByUserId row) \<in> set (db_deliveries s) \<or> (av_id row, av_createdByUserId row) \<in> set (db_bootstrapGroups s))"

definition input_of :: "inv_row \<Rightarrow> message_entry \<Rightarrow> bool" where
  "input_of row m \<longleftrightarrow> me_messageId m = av_inputMessageId row \<and> me_createdByUserId m = Some (av_createdByUserId row)"

definition prepare_automation :: "start_env \<Rightarrow> inv_row \<Rightarrow> inv_db \<Rightarrow> inv_db inv_tx" where
  "prepare_automation env row s =
     (if \<not> automated s row then Inr s
      else if \<not> se_policyReady env row then Inl (InvocationError ''automation_paused'')
      else if \<not> (\<exists>m \<in> set (db_messages s). input_of row m \<and> me_threadId m = av_threadId row)
      then Inl (InvocationError ''input_message_missing'')
      else Inr (s\<lparr>db_messages := upd_rows (input_of row) (with_evidence env row) (db_messages s)\<rparr>))"

definition started_row :: "int \<Rightarrow> inv_row \<Rightarrow> inv_row" where
  "started_row now r = (beginWorkTiming now r)\<lparr>av_status := Inv_running, av_updatedAt := now\<rparr>"

definition start :: "start_env \<Rightarrow> int \<Rightarrow> inv_lease \<Rightarrow> inv_db \<Rightarrow> inv_db inv_tx" where
  "start env now lease s =
     andThen (lockedLease now lease [Inv_leased] False s) (\<lambda>row.
     andThen (prepare_automation env row s) (\<lambda>s1.
       if start_elapsed now s1 row then Inl (InvocationError ''latest_start_elapsed'')
       else andThen (context_clock env now s1 (av_threadId row)) (\<lambda>clock.
         Inr (publish_changes [le_id lease] []
           (upd_invocation (le_id lease) (started_row now)
             (s1\<lparr>db_messages := upd_rows (input_of row) (\<lambda>m. m\<lparr>me_metadata :=
                   obj_set ''model_context_at'' (JStr (or_default (se_iso env clock) (context_at m))) (me_metadata m)\<rparr>)
                   (db_messages s1)\<rparr>))))))"

datatype defer_status = Defer_bud | Defer_model | Defer_retry

fun defer_target :: "defer_status \<Rightarrow> inv_status" where
  "defer_target Defer_bud = Inv_waiting_for_bud"
| "defer_target Defer_model = Inv_waiting_for_model"
| "defer_target Defer_retry = Inv_retry_wait"

definition keeps_reservation :: "inv_db \<Rightarrow> string \<Rightarrow> bool" where
  "keeps_reservation s i \<longleftrightarrow> waiting_action s i \<and> \<not> hasBrowserWait s i"

definition deferred_row :: "int \<Rightarrow> defer_status \<Rightarrow> int \<Rightarrow> bool \<Rightarrow> inv_row \<Rightarrow> inv_row" where
  "deferred_row now status delaySeconds reserves r =
     (settleWorkTiming now r)\<lparr>av_status := defer_target status, av_reservesThread := reserves, av_workerId := None, av_leaseExpiresAt := None,
       av_nextAttemptAt := now + delaySeconds * 1000000, av_updatedAt := now\<rparr>"

definition defer_invocation :: "int \<Rightarrow> inv_lease \<Rightarrow> defer_status \<Rightarrow> int \<Rightarrow> inv_db \<Rightarrow> inv_db inv_tx" where
  "defer_invocation now lease status delaySeconds s =
     (if delaySeconds < 1 \<or> delaySeconds > 300 then Inl (InvocationError ''invalid_retry_delay'')
      else andThen (lockedLease now lease [Inv_leased] False s) (\<lambda>_.
        Inr (publish_changes [le_id lease] []
          (upd_invocation (le_id lease) (deferred_row now status delaySeconds (keeps_reservation s (le_id lease))) s))))"

section \<open>Actions\<close>

definition recordAction :: "int \<Rightarrow> string \<Rightarrow> inv_lease \<Rightarrow> string \<Rightarrow> string \<Rightarrow> inv_db \<Rightarrow> (action_row \<times> inv_db) inv_tx" where
  "recordAction now fresh lease callId kind s =
     andThen (lockedLease now lease [Inv_running] False s) (\<lambda>row.
       let intent = \<lparr>ac_id = fresh, ac_invocationId = av_id row, ac_callId = callId, ac_fence = av_fence row, ac_kind = kind,
             ac_status = Intent, ac_evidence = [], ac_createdByUserId = av_createdByUserId row, ac_completedAt = None\<rparr>
       in if \<exists>a \<in> set (db_actions s). ac_id a = fresh \<or> ac_invocationId a = av_id row \<and> ac_callId a = callId
          then Inl (InvocationError ''action_already_recorded'')
          else Inr (intent, s\<lparr>db_actions := db_actions s @ [intent]\<rparr>))"

definition completeAction :: "int \<Rightarrow> inv_lease \<Rightarrow> string \<Rightarrow> js_object \<Rightarrow> inv_db \<Rightarrow> inv_db inv_tx" where
  "completeAction now lease callId evidence s =
     andThen (lockedLease now lease [Inv_running] False s) (\<lambda>_.
       let open_action = (\<lambda>a. ac_invocationId a = le_id lease \<and> ac_fence a = le_fence lease \<and> ac_callId a = callId \<and>
             ac_status a \<in> {Intent, Action_waiting})
       in if \<not> (\<exists>a \<in> set (db_actions s). open_action a) then Inl (InvocationError ''action_not_pending'')
          else Inr (upd_actions open_action (\<lambda>a. a\<lparr>ac_status := Action_completed,
            ac_evidence := (if obj_has (ac_evidence a) ''browser_cell''
              then obj_set ''browser_cell'' (obj_get (ac_evidence a) ''browser_cell'') evidence else evidence),
            ac_completedAt := Some now\<rparr>) s))"

section \<open>Finishing\<close>

datatype finish_status = Finish_succeeded | Finish_failed | Finish_needs_review

fun finish_target :: "finish_status \<Rightarrow> inv_status" where
  "finish_target Finish_succeeded = Inv_succeeded"
| "finish_target Finish_failed = Inv_failed"
| "finish_target Finish_needs_review = Inv_needs_review"

definition open_actions :: "inv_db \<Rightarrow> string \<Rightarrow> bool" where
  "open_actions s i \<longleftrightarrow> (\<exists>a \<in> set (db_actions s). ac_invocationId a = i \<and> ac_status a \<in> {Intent, Action_waiting})"

definition finished_row :: "int \<Rightarrow> bool \<Rightarrow> finish_status \<Rightarrow> string \<Rightarrow> inv_row \<Rightarrow> inv_row" where
  "finished_row now pending status outcomeCode r =
     (let canceled = av_cancelRequestedAt r \<noteq> None
      in (if \<not> canceled \<and> (pending \<or> status = Finish_needs_review) then invalidateWorkTiming r else settleWorkTiming now r)
         \<lparr>av_status := (if canceled then Inv_canceled else if pending then Inv_needs_review else finish_target status),
          av_reservesThread := (\<not> canceled \<and> (pending \<or> status = Finish_needs_review)),
          av_outcomeCode := Some (if canceled then ''user_canceled'' else if pending then ''unresolved_action_intent'' else outcomeCode),
          av_workerId := None, av_leaseExpiresAt := None, av_updatedAt := now\<rparr>)"

definition finish :: "int \<Rightarrow> inv_lease \<Rightarrow> finish_status \<Rightarrow> string \<Rightarrow> inv_db \<Rightarrow> inv_db inv_tx" where
  "finish now lease status outcomeCode s =
     andThen (lockedLease now lease [Inv_leased, Inv_running] True s) (\<lambda>current.
       let pending = open_actions s (le_id lease);
           s1 = (if \<not> pending \<or> av_cancelRequestedAt current \<noteq> None
                 then cancel_handoffs now (\<lambda>h. hf_invocationId h = Some (le_id lease)) s else s)
       in Inr (publish_changes [le_id lease] [le_id lease]
            (upd_invocation (le_id lease) (finished_row now pending status outcomeCode) s1)))"

section \<open>Parking\<close>

definition parked_row :: "int \<Rightarrow> bool \<Rightarrow> inv_row \<Rightarrow> inv_row" where
  "parked_row now reserves r = (settleWorkTiming now r)\<lparr>av_status := Inv_waiting_for_user, av_reservesThread := reserves,
     av_workerId := None, av_leaseExpiresAt := None, av_fence := av_fence r + 1, av_updatedAt := now\<rparr>"

text \<open>The intent of a call becomes a wait, with its evidence; \<open>kinds\<close> is the kind the action must have, if any.\<close>

definition pending_intent :: "inv_lease \<Rightarrow> string \<Rightarrow> string option \<Rightarrow> action_row \<Rightarrow> bool" where
  "pending_intent lease callId kinds a \<longleftrightarrow> ac_invocationId a = le_id lease \<and> ac_callId a = callId \<and> ac_fence a = le_fence lease \<and>
     ac_status a = Intent \<and> (case kinds of None \<Rightarrow> True | Some k \<Rightarrow> ac_kind a = k)"

definition park_intent :: "int \<Rightarrow> inv_lease \<Rightarrow> string \<Rightarrow> string option \<Rightarrow> bool \<Rightarrow> js_object \<Rightarrow> bool \<Rightarrow> string \<Rightarrow> inv_db \<Rightarrow> inv_db inv_tx" where
  "park_intent now lease callId kinds bump evidence reserves errorCode s =
     (if \<not> (\<exists>a \<in> set (db_actions s). pending_intent lease callId kinds a) then Inl (InvocationError errorCode)
      else Inr (publish_changes [le_id lease] []
        (upd_invocation (le_id lease) (parked_row now reserves)
          (upd_actions (pending_intent lease callId kinds) (\<lambda>a. a\<lparr>ac_status := Action_waiting,
             ac_fence := (if bump then le_fence lease + 1 else ac_fence a), ac_evidence := evidence\<rparr>) s))))"

definition parkBrowserHandoff :: "int \<Rightarrow> inv_lease \<Rightarrow> string \<Rightarrow> string \<Rightarrow> inv_db \<Rightarrow> inv_db inv_tx" where
  "parkBrowserHandoff now lease callId handoffId s =
     andThen (lockedLease now lease [Inv_running] False s) (\<lambda>row.
       if \<not> (\<exists>h \<in> set (db_handoffs s). \<exists>b \<in> set (db_sessions s). \<exists>x \<in> set (db_resources s).
            bs_id b = hf_sessionId h \<and> bs_browserId b = Some (br_id x) \<and> hf_id h = handoffId \<and>
            hf_invocationId h = Some (av_id row) \<and> hf_callId h = Some callId \<and> hf_createdByUserId h = av_createdByUserId row \<and>
            hf_status h \<in> {''pending'', ''returned''} \<and> \<not> br_retired x)
       then Inl (InvocationError ''browser_handoff_not_available'')
       else park_intent now lease callId None True [(''browser_handoff_id'', JStr handoffId)] False
              ''browser_handoff_action_not_pending'' s)"

definition user_handoff :: "inv_db \<Rightarrow> inv_row \<Rightarrow> handoff_row \<Rightarrow> bool" where
  "user_handoff s row h \<longleftrightarrow> hf_invocationId h = Some (av_id row) \<and> hf_createdByUserId h = av_createdByUserId row \<and>
     hf_kind h = ''user'' \<and> hf_status h = ''pending'' \<and> hf_callId h = None \<and>
     (\<exists>b \<in> set (db_sessions s). \<exists>x \<in> set (db_resources s). bs_id b = hf_sessionId h \<and> bs_browserId b = Some (br_id x) \<and>
        br_controlState x \<noteq> ''agent'')"

definition parkUserBrowserHandoff ::
    "int \<Rightarrow> string \<Rightarrow> inv_lease \<Rightarrow> (string \<times> string) option \<Rightarrow> inv_db \<Rightarrow> (string option \<times> inv_db) inv_tx" where
  "parkUserBrowserHandoff now fresh lease nextCall s =
     andThen (lockedLease now lease [Inv_running] False s) (\<lambda>row.
       case List.find (user_handoff s row) (db_handoffs s) of
         None \<Rightarrow> Inr (None, s)
       | Some h \<Rightarrow>
           (let callId = (case nextCall of Some (c, _) \<Rightarrow> c | None \<Rightarrow> ''browser-user-'' @ hf_id h);
                act = \<lparr>ac_id = fresh, ac_invocationId = av_id row, ac_callId = callId, ac_fence = le_fence lease + 1,
                  ac_kind = (case nextCall of Some (_, tool) \<Rightarrow> tool | None \<Rightarrow> ''browser_user_handoff''),
                  ac_status = Action_waiting, ac_evidence = [(''browser_handoff_id'', JStr (hf_id h))],
                  ac_createdByUserId = av_createdByUserId row, ac_completedAt = None\<rparr>
            in if \<exists>a \<in> set (db_actions s). ac_id a = fresh \<or> ac_invocationId a = av_id row \<and> ac_callId a = callId
               then Inl (Db_error ''unique_violation'')
               else Inr (Some callId, publish_changes [le_id lease] []
                 (upd_invocation (av_id row) (parked_row now False)
                   (s\<lparr>db_actions := db_actions s @ [act],
                      db_handoffs := upd_rows (\<lambda>x. hf_id x = hf_id h) (\<lambda>x. x\<lparr>hf_callId := Some callId\<rparr>) (db_handoffs s)\<rparr>)))))"

definition parkQuestion :: "int \<Rightarrow> inv_lease \<Rightarrow> string \<Rightarrow> string \<Rightarrow> inv_db \<Rightarrow> inv_db inv_tx" where
  "parkQuestion now lease callId questionRequestId s =
     andThen (lockedLease now lease [Inv_running] False s) (\<lambda>row.
       case List.find (\<lambda>q. qn_questionRequestId q = questionRequestId \<and> qn_threadId q = av_threadId row \<and>
              qn_turnId q = av_turnId row \<and> qn_callId q = callId \<and> qn_createdByUserId q = Some (av_createdByUserId row)) (db_questions s) of
         None \<Rightarrow> Inl (InvocationError ''question_not_available'')
       | Some q \<Rightarrow>
           if qn_status q \<notin> {''pending'', ''answered''} then Inl (InvocationError ''question_not_available'')
           else park_intent now lease callId (Some ''ask_user_questions'') False
                  [(''question_request_id'', JStr questionRequestId)] True ''question_action_not_pending'' s)"

text \<open>A client identifier has the form of a UUID.\<close>

definition hex_digit :: "char \<Rightarrow> bool" where
  "hex_digit c \<longleftrightarrow> c \<in> set ''0123456789abcdefABCDEF''"

definition valid_client_id :: "string \<Rightarrow> bool" where
  "valid_client_id s \<longleftrightarrow> length s = 36 \<and>
     list_all (\<lambda>(i, c). if i \<in> {8, 13, 18, 23} then c = CHR ''-'' else hex_digit c) (enumerate 0 s)"

text \<open>\<open>created\<close> is what the other module creates in the same transaction, given the tables.\<close>

definition parkAppDataRequest ::
    "(inv_db \<Rightarrow> decision_row inv_tx) \<Rightarrow> int \<Rightarrow> inv_lease \<Rightarrow> string \<Rightarrow> string \<Rightarrow> inv_db \<Rightarrow> inv_db inv_tx" where
  "parkAppDataRequest created now lease callId clientId s =
     (if \<not> valid_client_id clientId then Inl (InvocationError ''invalid_tool_client_id'')
      else andThen (created s) (\<lambda>request.
        let s1 = s\<lparr>db_dataRequests := db_dataRequests s @ [request]\<rparr>
        in andThen (lockedLease now lease [Inv_running] False s1) (\<lambda>_.
             park_intent now lease callId (Some APP_KEY_REQUEST_TOOL) False
               [(''data_access_request_id'', JStr (dc_id request)), (''tool_client_id'', JStr clientId)] True
               ''app_data_action_not_pending'' s1)))"

definition parkAutomationProposal ::
    "(inv_db \<Rightarrow> decision_row inv_tx) \<Rightarrow> int \<Rightarrow> inv_lease \<Rightarrow> string \<Rightarrow> string \<Rightarrow> inv_db \<Rightarrow> inv_db inv_tx" where
  "parkAutomationProposal created now lease callId clientId s =
     (if \<not> valid_client_id clientId then Inl (InvocationError ''invalid_tool_client_id'')
      else andThen (created s) (\<lambda>proposal.
        let s1 = s\<lparr>db_automationProposals := db_automationProposals s @ [proposal]\<rparr>
        in andThen (lockedLease now lease [Inv_running] False s1) (\<lambda>_.
             park_intent now lease callId (Some AUTOMATION_PROPOSAL_TOOL) False
               [(''automation_proposal_id'', JStr (dc_id proposal)), (''tool_client_id'', JStr clientId)] True
               ''automation_proposal_action_not_pending'' s1)))"

definition parkBootstrapProposal ::
    "(inv_db \<Rightarrow> decision_row option inv_tx) \<Rightarrow> int \<Rightarrow> inv_lease \<Rightarrow> string \<Rightarrow> string \<Rightarrow> inv_db \<Rightarrow> inv_db inv_tx" where
  "parkBootstrapProposal created now lease callId clientId s =
     (if \<not> valid_client_id clientId then Inl (InvocationError ''invalid_tool_client_id'')
      else andThen (created s) (\<lambda>result.
        case result of
          None \<Rightarrow> Inr s
        | Some proposal \<Rightarrow>
            (let s1 = s\<lparr>db_bootstrapProposals := db_bootstrapProposals s @ [proposal]\<rparr>
             in andThen (lockedLease now lease [Inv_running] False s1) (\<lambda>_.
                  park_intent now lease callId (Some BOOTSTRAP_PROPOSAL_TOOL) True
                    [(''bootstrap_proposal_id'', JStr (dc_id proposal)), (''tool_client_id'', JStr clientId)] True
                    ''bootstrap_proposal_action_not_pending'' s1))))"

section \<open>Review, expiry and recovery\<close>

definition abandoned_row :: "int \<Rightarrow> string \<Rightarrow> inv_row \<Rightarrow> inv_row" where
  "abandoned_row now owner r = (invalidateWorkTiming r)\<lparr>av_status := Inv_canceled, av_reservesThread := False,
     av_canceledByUserId := Some owner, av_cancelRequestedAt := Some (or_default now (av_cancelRequestedAt r)),
     av_outcomeCode := Some ''user_abandoned_after_review'', av_fence := av_fence r + 1, av_workerId := None,
     av_leaseExpiresAt := None, av_updatedAt := now\<rparr>"

definition review_action :: "int \<Rightarrow> string \<Rightarrow> string \<Rightarrow> string \<Rightarrow> inv_row \<Rightarrow> action_row" where
  "review_action now fresh freshCall owner row =
     \<lparr>ac_id = fresh, ac_invocationId = av_id row, ac_callId = ''owner-review-'' @ freshCall, ac_fence = av_fence row,
      ac_kind = ''owner_review'', ac_status = Action_completed,
      ac_evidence = [(''decision'', JStr ''abandon''), (''acknowledged_possible_effects'', JBool True),
        (''prior_outcome_code'', json_of_opt (av_outcomeCode row))],
      ac_createdByUserId = owner, ac_completedAt = Some now\<rparr>"

definition abandonReviewed ::
    "(int \<Rightarrow> string) \<Rightarrow> int \<Rightarrow> string \<Rightarrow> string \<Rightarrow> string \<Rightarrow> string \<Rightarrow> string \<Rightarrow> string \<Rightarrow> inv_db \<Rightarrow> inv_db inv_tx" where
  "abandonReviewed to_iso now fresh freshCall owner threadId invocationId expectedUpdatedAt s =
     (case List.find (\<lambda>r. av_id r = invocationId \<and> av_createdByUserId r = owner) (db_invocations s) of
        None \<Rightarrow> Inl (InvocationError ''invocation_not_found'')
      | Some row \<Rightarrow>
          if av_threadId row \<noteq> threadId \<or> \<not> thread_owned s threadId owner then Inl (InvocationError ''invocation_not_found'')
          else if av_status row = Inv_canceled \<and> av_outcomeCode row = Some ''user_abandoned_after_review'' then Inr s
          else if av_status row \<noteq> Inv_needs_review \<or> to_iso (av_updatedAt row div 1000) \<noteq> expectedUpdatedAt
          then Inl (InvocationError ''invocation_review_conflict'')
          else if \<exists>a \<in> set (db_actions s). ac_id a = fresh \<or> ac_invocationId a = av_id row \<and> ac_callId a = ''owner-review-'' @ freshCall
          then Inl (Db_error ''unique_violation'')
          else let s1 = cancel_waits now row owner s;
                   s2 = s1\<lparr>db_actions := db_actions s1 @ [review_action now fresh freshCall owner row]\<rparr>
               in Inr (publish_changes [av_id row] [av_id row] (upd_invocation (av_id row) (abandoned_row now owner) s2)))"

definition owner_matches :: "string option \<Rightarrow> inv_row \<Rightarrow> bool" where
  "owner_matches ownerFilter r \<longleftrightarrow> ownerFilter = None \<or> ownerFilter = Some [] \<or> ownerFilter = Some (av_createdByUserId r)"

text \<open>Rows that a batch takes: at most a hundred, none that another transaction holds.\<close>

definition batch :: "(inv_row \<Rightarrow> bool) \<Rightarrow> string set \<Rightarrow> string option \<Rightarrow> inv_db \<Rightarrow> inv_row list" where
  "batch P locked ownerFilter s = take 100 (filter (\<lambda>r. P r \<and> owner_matches ownerFilter r \<and> av_id r \<notin> locked) (db_invocations s))"

definition expireQueued :: "int \<Rightarrow> string set \<Rightarrow> string option \<Rightarrow> inv_db \<Rightarrow> nat \<times> inv_db" where
  "expireQueued now locked ownerFilter s =
     (let rows = batch (\<lambda>r. av_status r \<in> set queued \<and> start_elapsed now s r) locked ownerFilter s;
          ids = map av_id rows
      in (length rows, publish_changes ids ids (foldl (\<lambda>s i. upd_invocation i (expired_row now) s) s ids)))"

text \<open>The browser task of a parked invocation is over: canceled, or its session, thread, owner or browser is gone.\<close>

definition browser_task_ended :: "inv_db \<Rightarrow> inv_row \<Rightarrow> bool" where
  "browser_task_ended s r \<longleftrightarrow>
     (\<exists>a \<in> set (db_actions s). ac_invocationId a = av_id r \<and> ac_status a = Action_waiting \<and> obj_has (ac_evidence a) ''browser_handoff_id'') \<and>
     (\<exists>h \<in> set (db_handoffs s). \<exists>b \<in> set (db_sessions s). \<exists>t \<in> set (db_threads s). \<exists>u \<in> set (db_buds s).
        bs_id b = hf_sessionId h \<and> th_threadId t = hf_threadId h \<and> bu_budId u = hf_budId h \<and>
        hf_invocationId h = Some (av_id r) \<and> hf_createdByUserId h = av_createdByUserId r \<and>
        hf_status h \<in> {''pending'', ''returned'', ''canceled''} \<and>
        (hf_status h = ''canceled'' \<or> bs_closed b \<or> bs_desiredState b = ''closed'' \<or> th_deleted t \<or>
         \<not> (\<exists>x \<in> set (db_resources s). bs_browserId b = Some (br_id x)) \<or>
         (\<exists>x \<in> set (db_resources s). bs_browserId b = Some (br_id x) \<and> br_retired x) \<or>
         th_createdByUserId t \<noteq> Some (hf_createdByUserId h) \<or> bu_createdByUserId u \<noteq> Some (hf_createdByUserId h)))"

definition ended_row :: "int \<Rightarrow> inv_row \<Rightarrow> inv_row" where
  "ended_row now r = (settleWorkTiming now r)\<lparr>av_status := Inv_canceled, av_reservesThread := False,
     av_outcomeCode := Some ''browser_session_ended'', av_fence := av_fence r + 1, av_workerId := None,
     av_leaseExpiresAt := None, av_updatedAt := now\<rparr>"

definition end_browser_task :: "int \<Rightarrow> inv_db \<Rightarrow> string \<Rightarrow> inv_db" where
  "end_browser_task now s i =
     upd_invocation i (ended_row now) (cancel_handoffs now (\<lambda>h. hf_invocationId h = Some i) s)"

definition recovered_row :: "int \<Rightarrow> bool \<Rightarrow> inv_row \<Rightarrow> inv_row" where
  "recovered_row now continuation r =
     (let canceled = av_cancelRequestedAt r \<noteq> None
      in (if av_status r = Inv_running then invalidateWorkTiming r else settleWorkTiming now r)
         \<lparr>av_reservesThread := (\<not> canceled \<and> (av_status r = Inv_running \<or> continuation)),
          av_status := (if canceled then Inv_canceled else if av_status r = Inv_leased then Inv_retry_wait else Inv_needs_review),
          av_outcomeCode := Some (if canceled then ''user_canceled'' else if av_status r = Inv_leased
            then ''preflight_lease_expired'' else ''execution_lease_expired''),
          av_fence := av_fence r + 1, av_workerId := None, av_leaseExpiresAt := None, av_nextAttemptAt := now, av_updatedAt := now\<rparr>)"

definition recover_row :: "int \<Rightarrow> inv_db \<Rightarrow> inv_row \<Rightarrow> inv_db" where
  "recover_row now s row =
     (let s1 = (if av_cancelRequestedAt row \<noteq> None \<or> av_status row = Inv_running
                then cancel_handoffs now (\<lambda>h. hf_invocationId h = Some (av_id row)) s else s)
      in upd_invocation (av_id row) (recovered_row now (keeps_reservation s (av_id row))) s1)"

definition recoverExpired :: "int \<Rightarrow> string set \<Rightarrow> string option \<Rightarrow> inv_db \<Rightarrow> nat \<times> inv_db" where
  "recoverExpired now locked ownerFilter s =
     (let ended = map av_id (batch (\<lambda>r. av_status r \<in> {Inv_waiting_for_user, Inv_waiting_for_bud, Inv_waiting_for_model, Inv_retry_wait} \<and>
            browser_task_ended s r) locked ownerFilter s);
          s1 = foldl (end_browser_task now) s ended;
          rows = batch (\<lambda>r. av_status r \<in> {Inv_leased, Inv_running} \<and>
            (case av_leaseExpiresAt r of None \<Rightarrow> False | Some e \<Rightarrow> e \<le> now)) locked ownerFilter s1;
          ids = ended @ map av_id rows
      in (length rows, publish_changes ids ids (foldl (recover_row now) s1 rows)))"

end
