(* ===== verification/InvocationProps.thy ===== *)
theory InvocationProps
  imports InvocationQueue
begin

text \<open>
  Properties of the invocation queue.  Every transaction moves the rows of the table by the steps of
  \<open>row_step\<close>, an abstract machine for one invocation, except a claim, which leases one row; the invariants
  are proved for that machine.
\<close>

section \<open>One invocation\<close>

definition lease_running :: "int \<Rightarrow> inv_row \<Rightarrow> bool" where
  "lease_running now r \<longleftrightarrow> (case av_leaseExpiresAt r of None \<Rightarrow> False | Some e \<Rightarrow> e > now)"

inductive row_step :: "int \<Rightarrow> inv_row \<Rightarrow> inv_row \<Rightarrow> bool" for now where
  expire: "av_status r \<in> set queued \<Longrightarrow> row_step now r (expired_row now r)"
| beat: "av_status r \<in> {Inv_leased, Inv_running} \<Longrightarrow> lease_running now r \<Longrightarrow>
    row_step now r (r\<lparr>av_leaseExpiresAt := Some (now + LEASE_MICROS), av_updatedAt := now\<rparr>)"
| begin_work: "av_status r = Inv_leased \<Longrightarrow> row_step now r (started_row now r)"
| defer_work: "av_status r = Inv_leased \<Longrightarrow> row_step now r (deferred_row now st d b r)"
| finish_work: "av_status r \<in> {Inv_leased, Inv_running} \<Longrightarrow> row_step now r (finished_row now p st code r)"
| park: "av_status r = Inv_running \<Longrightarrow> row_step now r (parked_row now b r)"
| cancel: "av_status r \<notin> {Inv_succeeded, Inv_failed, Inv_canceled, Inv_expired} \<Longrightarrow> row_step now r (canceled_row now ow r)"
| abandon: "av_status r = Inv_needs_review \<Longrightarrow> row_step now r (abandoned_row now ow r)"
| end_task: "av_status r \<in> {Inv_waiting_for_user, Inv_waiting_for_bud, Inv_waiting_for_model, Inv_retry_wait} \<Longrightarrow>
    row_step now r (ended_row now r)"
| recover: "av_status r \<in> {Inv_leased, Inv_running} \<Longrightarrow> row_step now r (recovered_row now b r)"
| forget_time: "row_step now r (invalidateWorkTiming r)"
| relabel: "av_status r = Inv_canceled \<Longrightarrow> row_step now r (r\<lparr>av_outcomeCode := code\<rparr>)"

lemma settled_update [simp]:
  "settledWorkDuration now (r\<lparr>av_cancelRequestedAt := x\<rparr>) = settledWorkDuration now r"
  "settledWorkDuration now (r\<lparr>av_canceledByUserId := y\<rparr>) = settledWorkDuration now r"
  "settledWorkDuration now (r\<lparr>av_updatedAt := z\<rparr>) = settledWorkDuration now r"
  by (simp_all add: settledWorkDuration_def cong: option.case_cong)

text \<open>What each step writes.\<close>

lemmas row_defs = leased_row_def expired_row_def started_row_def deferred_row_def finished_row_def parked_row_def
  canceled_row_def abandoned_row_def ended_row_def recovered_row_def settleWorkTiming_def invalidateWorkTiming_def
  beginWorkTiming_def queued_def

lemma row_step_identity:
  "row_step now r r' \<Longrightarrow> av_id r' = av_id r \<and> av_threadId r' = av_threadId r \<and> av_budId r' = av_budId r \<and>
     av_origin r' = av_origin r \<and> av_createdByUserId r' = av_createdByUserId r"
  by (induction rule: row_step.induct) (simp_all add: row_defs Let_def)

lemma row_step_fence: "row_step now r r' \<Longrightarrow> av_fence r \<le> av_fence r'"
  by (induction rule: row_step.induct) (simp_all add: row_defs Let_def)

text \<open>The invariant of a row: it has a worker and a lease exactly while it is leased or running, it
  reserves its thread then, finished and unclaimed rows reserve nothing, and work time is counted
  only while it runs.\<close>

definition row_ok :: "inv_row \<Rightarrow> bool" where
  "row_ok r \<longleftrightarrow>
     (if av_status r \<in> {Inv_leased, Inv_running} then av_workerId r \<noteq> None \<and> av_leaseExpiresAt r \<noteq> None \<and> av_reservesThread r
      else av_workerId r = None \<and> av_leaseExpiresAt r = None) \<and>
     (av_status r \<in> {Inv_pending, Inv_succeeded, Inv_failed, Inv_canceled, Inv_expired} \<longrightarrow> \<not> av_reservesThread r) \<and>
     (av_workStartedAt r \<noteq> None \<longrightarrow> av_status r = Inv_running) \<and>
     (\<forall>d. av_workDurationMs r = Some d \<longrightarrow> 0 \<le> d)"

lemma settled_nonneg:
  "(\<And>d. av_workDurationMs r = Some d \<Longrightarrow> 0 \<le> d) \<Longrightarrow> settledWorkDuration now r = Some d \<Longrightarrow> 0 \<le> d"
  by (auto simp: settledWorkDuration_def split: option.splits bool.splits)

lemma row_step_ok: "row_step now r r' \<Longrightarrow> row_ok r \<Longrightarrow> row_ok r'"
proof (induction rule: row_step.induct)
  case (defer_work r st d b)
  then show ?case
    by (cases st) (auto simp: row_ok_def row_defs Let_def intro: settled_nonneg)
next
  case (finish_work r p st code)
  then show ?case
    by (cases st) (auto simp: row_ok_def row_defs Let_def intro: settled_nonneg split: if_splits)
qed (auto simp: row_ok_def row_defs Let_def intro: settled_nonneg split: if_splits)

lemma leased_ok: "row_ok r \<Longrightarrow> av_status r \<notin> {Inv_leased, Inv_running} \<Longrightarrow> row_ok (leased_row now w r)"
  by (auto simp: row_ok_def leased_row_def)

text \<open>No step but a claim makes a row reserve its thread.\<close>

lemma row_step_reserves: "row_step now r r' \<Longrightarrow> row_ok r \<Longrightarrow> av_reservesThread r' \<Longrightarrow> av_reservesThread r"
  by (induction rule: row_step.induct) (auto simp: row_ok_def row_defs Let_def split: if_splits)

lemma row_steps:
  assumes "(row_step now)\<^sup>*\<^sup>* r r'" and "row_ok r"
  shows "row_ok r'" "av_reservesThread r' \<Longrightarrow> av_reservesThread r" "av_id r' = av_id r" "av_threadId r' = av_threadId r"
    "av_budId r' = av_budId r" "av_origin r' = av_origin r" "av_fence r \<le> av_fence r'"
proof -
  have "row_ok r' \<and> (av_reservesThread r' \<longrightarrow> av_reservesThread r) \<and> av_id r' = av_id r \<and> av_threadId r' = av_threadId r \<and>
      av_budId r' = av_budId r \<and> av_origin r' = av_origin r \<and> av_fence r \<le> av_fence r'"
    using assms
  proof (induction rule: rtranclp_induct)
    case (step y z)
    then show ?case
      using row_step_identity [OF step.hyps(2)] row_step_ok [OF step.hyps(2)] row_step_reserves [OF step.hyps(2)]
        row_step_fence [OF step.hyps(2)] by auto
  qed simp
  then show "row_ok r'" "av_reservesThread r' \<Longrightarrow> av_reservesThread r" "av_id r' = av_id r" "av_threadId r' = av_threadId r"
    "av_budId r' = av_budId r" "av_origin r' = av_origin r" "av_fence r \<le> av_fence r'"
    by blast+
qed

section \<open>The table\<close>

definition exclusive :: "inv_row list \<Rightarrow> bool" where
  "exclusive rows \<longleftrightarrow> (\<forall>r \<in> set rows. \<forall>q \<in> set rows. av_threadId r = av_threadId q \<longrightarrow> av_reservesThread r \<longrightarrow>
     av_reservesThread q \<longrightarrow> av_id r = av_id q)"

definition reserving :: "string \<Rightarrow> inv_row list \<Rightarrow> nat" where
  "reserving b rows = length (filter (\<lambda>x. av_budId x = b \<and> av_origin x = Automation \<and> av_reservesThread x) rows)"

definition rows_inv :: "nat \<Rightarrow> inv_row list \<Rightarrow> bool" where
  "rows_inv cap rows \<longleftrightarrow> distinct (map av_id rows) \<and> list_all row_ok rows \<and> exclusive rows \<and> (\<forall>b. reserving b rows \<le> cap)"

definition new_row :: "inv_row \<Rightarrow> bool" where
  "new_row r \<longleftrightarrow> row_ok r \<and> av_status r = Inv_pending \<and> av_fence r = 0"

definition moves_rows :: "int \<Rightarrow> inv_row list \<Rightarrow> inv_row list \<Rightarrow> bool" where
  "moves_rows now rows rows' \<longleftrightarrow> (\<exists>u new. rows' = u @ new \<and> list_all2 (row_step now)\<^sup>*\<^sup>* rows u \<and> list_all new_row new \<and>
     distinct (map av_id rows'))"

lemma unique_row: "distinct (map av_id rows) \<Longrightarrow> r \<in> set rows \<Longrightarrow> q \<in> set rows \<Longrightarrow> av_id r = av_id q \<Longrightarrow> r = q"
  by (simp add: distinct_map inj_on_def)

lemma filter_le: "list_all2 R xs ys \<Longrightarrow> (\<And>x y. R x y \<Longrightarrow> x \<in> set xs \<Longrightarrow> P y \<Longrightarrow> P x) \<Longrightarrow> length (filter P ys) \<le> length (filter P xs)"
  by (induction rule: list_all2_induct) (auto intro: le_SucI)

lemma reserving_append: "reserving b (xs @ ys) = reserving b xs + reserving b ys"
  by (simp add: reserving_def)

lemma new_reserving: "list_all new_row rows \<Longrightarrow> reserving b rows = 0"
  by (auto simp: reserving_def list_all_iff new_row_def row_ok_def filter_empty_conv)

lemma steps_ids: "list_all2 (row_step now)\<^sup>*\<^sup>* rows u \<Longrightarrow> list_all row_ok rows \<Longrightarrow> map av_id u = map av_id rows"
  by (induction rule: list_all2_induct) (simp_all add: row_steps(3))

lemma moves_inv:
  assumes "moves_rows now rows rows'" and "rows_inv cap rows"
  shows "rows_inv cap rows'"
proof -
  obtain u new where rows': "rows' = u @ new" and u: "list_all2 (row_step now)\<^sup>*\<^sup>* rows u" and new: "list_all new_row new"
    and dist: "distinct (map av_id rows')"
    using assms(1) by (auto simp: moves_rows_def)
  have ok: "row_ok r" if "r \<in> set rows" for r
    using that assms(2) by (simp add: rows_inv_def list_all_iff)
  have origin: "\<exists>r \<in> set rows. (row_step now)\<^sup>*\<^sup>* r r'" if "r' \<in> set u" for r'
    using that u by (metis in_set_conv_nth list_all2_conv_all_nth nth_mem)
  have "list_all row_ok rows'"
    using origin ok row_steps(1) new unfolding rows' by (fastforce simp: list_all_iff new_row_def)
  moreover have "exclusive rows'"
  proof -
    have "\<exists>r0 \<in> set rows. av_id r0 = av_id r \<and> av_threadId r0 = av_threadId r \<and> av_reservesThread r0"
      if "r \<in> set rows'" "av_reservesThread r" for r
    proof -
      have "r \<in> set u"
        using that new unfolding rows' by (auto simp: list_all_iff new_row_def row_ok_def)
      from origin [OF this] obtain r0 where "r0 \<in> set rows" "(row_step now)\<^sup>*\<^sup>* r0 r"
        by blast
      then show ?thesis
        using row_steps [of now r0 r] ok that(2) by metis
    qed
    then show ?thesis
      using assms(2) unfolding rows_inv_def exclusive_def by metis
  qed
  moreover have "reserving b rows' \<le> cap" for b
  proof -
    have "reserving b u \<le> reserving b rows"
      unfolding reserving_def using ok row_steps by (intro filter_le [OF u]) metis
    then show ?thesis
      using assms(2) new_reserving [OF new] by (simp add: rows' reserving_append rows_inv_def) (meson le_trans)
  qed
  ultimately show ?thesis
    using dist by (simp add: rows_inv_def)
qed

text \<open>A claim leases one row whose thread nobody else reserves, within the capacity of its bud.\<close>

lemma lease_inv:
  assumes "rows_inv cap rows" and "r \<in> set rows" and "av_status r \<notin> {Inv_leased, Inv_running}"
    and "\<And>x. x \<in> set rows \<Longrightarrow> av_threadId x = av_threadId r \<Longrightarrow> av_reservesThread x \<Longrightarrow> av_id x = av_id r"
    and "av_origin r = Human \<or> av_reservesThread r \<or> reserving (av_budId r) rows < cap"
  shows "rows_inv cap (upd_rows (\<lambda>x. av_id x = av_id r) (leased_row now w) rows)"
proof -
  let ?f = "\<lambda>x. if av_id x = av_id r then leased_row now w x else x"
  have dist: "distinct (map av_id rows)" and ok: "list_all row_ok rows"
    using assms(1) by (simp_all add: rows_inv_def)
  have eq: "upd_rows (\<lambda>x. av_id x = av_id r) (leased_row now w) rows = map ?f rows"
    by (simp add: upd_rows_def)
  have only: "x = r" if "x \<in> set rows" "av_id x = av_id r" for x
    using unique_row [OF dist that(1) assms(2) that(2)] .
  have id: "av_id (?f x) = av_id x" "av_threadId (?f x) = av_threadId x" "av_budId (?f x) = av_budId x" "av_origin (?f x) = av_origin x" for x
    by (simp_all add: leased_row_def)
  have "row_ok (?f x)" if "x \<in> set rows" for x
    using that ok only [OF that] assms(3) leased_ok by (auto simp: list_all_iff)
  then have "list_all row_ok (map ?f rows)"
    unfolding list_all_iff set_map by blast
  moreover have "exclusive (map ?f rows)"
  proof -
    have "av_id x = av_id y" if "x \<in> set rows" "y \<in> set rows" "av_threadId x = av_threadId y"
      "av_reservesThread (?f x)" "av_reservesThread (?f y)" for x y
    proof -
      have *: "av_id z = av_id r" if "z \<in> set rows" "av_threadId z = av_threadId r" "av_reservesThread (?f z)" for z
        using that assms(4) [OF that(1,2)] by (auto split: if_splits)
      show ?thesis
      proof (cases "x = r \<or> y = r")
        case True
        then show ?thesis
          using *[of x] *[of y] that by auto
      next
        case False
        then have "av_reservesThread x" "av_reservesThread y"
          using that only by (auto split: if_splits)
        then show ?thesis
          using that assms(1) unfolding rows_inv_def exclusive_def by blast
      qed
    qed
    then show ?thesis
      unfolding exclusive_def set_map ball_simps id by blast
  qed
  moreover have "reserving b (map ?f rows) \<le> cap" for b
  proof -
    obtain xs ys where rows: "rows = xs @ r # ys"
      using assms(2) by (auto dest: split_list)
    have "\<forall>x \<in> set xs \<union> set ys. av_id x \<noteq> av_id r"
      using dist unfolding rows by (force simp: image_iff)
    then have "map ?f xs = xs" "map ?f ys = ys"
      by (auto intro!: map_idI)
    then have "reserving b (map ?f rows) = reserving b xs + reserving b [leased_row now w r] + reserving b ys"
      by (simp add: rows reserving_append [of b xs] reserving_append [of b "[leased_row now w r]" ys, simplified])
    moreover have "reserving b rows = reserving b xs + reserving b [r] + reserving b ys"
      by (simp add: rows reserving_append [of b xs] reserving_append [of b "[r]" ys, simplified])
    moreover have "reserving b rows \<le> cap"
      using assms(1) by (simp add: rows_inv_def)
    ultimately show ?thesis
      using assms(5) by (auto simp: reserving_def leased_row_def split: if_splits)
  qed
  ultimately show ?thesis
    unfolding eq rows_inv_def using dist by (simp add: comp_def id)
qed

section \<open>Transactions move rows\<close>

lemma frames [simp]:
  "db_invocations (publish_changes c d s) = db_invocations s"
  "db_invocations (upd_actions P f s) = db_invocations s"
  "db_invocations (cancel_handoffs now Q s) = db_invocations s"
  "db_invocations (cancel_waits now r ow s) = db_invocations s"
  "db_invocations (upd_invocation i g s) = upd_rows (\<lambda>r. av_id r = i) g (db_invocations s)"
  by (simp_all add: publish_changes_def upd_actions_def cancel_handoffs_def cancel_waits_def upd_invocation_def)

text \<open>Changes of rows in place.\<close>

abbreviation steps_rows :: "int \<Rightarrow> inv_row list \<Rightarrow> inv_row list \<Rightarrow> bool" where
  "steps_rows now \<equiv> list_all2 (row_step now)\<^sup>*\<^sup>*"

lemma steps_refl: "steps_rows now rows rows"
  by (simp add: list_all2_refl)

lemma steps_trans: "steps_rows now a b \<Longrightarrow> steps_rows now b c \<Longrightarrow> steps_rows now a c"
  by (rule list_all2_trans [of "(row_step now)\<^sup>*\<^sup>*" "(row_step now)\<^sup>*\<^sup>*"]) auto

lemma steps_upd:
  "(\<And>r. r \<in> set rows \<Longrightarrow> P r \<Longrightarrow> (row_step now)\<^sup>*\<^sup>* r (f r)) \<Longrightarrow> steps_rows now rows (upd_rows P f rows)"
  by (auto simp: upd_rows_def list_all2_conv_all_nth)

lemma steps_id: "(row_step now)\<^sup>*\<^sup>* r r' \<Longrightarrow> av_id r' = av_id r"
  by (induction rule: rtranclp_induct) (simp_all add: row_step_identity)

lemma steps_keep_ids: "steps_rows now rows u \<Longrightarrow> map av_id u = map av_id rows"
  by (induction rule: list_all2_induct) (simp_all add: steps_id)

lemma steps_moves: "steps_rows now rows u \<Longrightarrow> distinct (map av_id rows) \<Longrightarrow> moves_rows now rows u"
  unfolding moves_rows_def using steps_keep_ids by (intro exI [of _ u] exI [of _ "[]"]) simp

text \<open>A lease that is accepted names one row.\<close>

lemma locked_row:
  assumes "lockedLease now lease statuses c s = Inr row"
  shows "row \<in> set (db_invocations s)" "holds_lease now lease row" "av_id row = le_id lease" "av_status row \<in> set statuses"
    "lease_running now row" "av_cancelRequestedAt row = None \<or> c"
  using assms by (auto simp: lockedLease_def find_Some_iff holds_lease_def lease_running_def split: option.splits if_splits)

lemma locked_moves:
  assumes "lockedLease now lease statuses c s = Inr row" and "distinct (map av_id (db_invocations s))"
    and "row_step now row (f row)"
  shows "moves_rows now (db_invocations s) (upd_rows (\<lambda>r. av_id r = le_id lease) f (db_invocations s))"
proof -
  have "r = row" if "r \<in> set (db_invocations s)" "av_id r = le_id lease" for r
    using that unique_row [OF assms(2)] locked_row(1,3) [OF assms(1)] by metis
  then have "steps_rows now (db_invocations s) (upd_rows (\<lambda>r. av_id r = le_id lease) f (db_invocations s))"
    using assms(3) by (intro steps_upd) auto
  then show ?thesis
    using assms(2) by (rule steps_moves)
qed

lemma park_intent_rows:
  "park_intent now lease callId kinds bump ev res code s = Inr s' \<Longrightarrow>
   db_invocations s' = upd_rows (\<lambda>r. av_id r = le_id lease) (parked_row now res) (db_invocations s)"
  by (auto simp: park_intent_def split: if_splits)

lemma park_moves:
  assumes "lockedLease now lease [Inv_running] False s = Inr row" and "distinct (map av_id (db_invocations s))"
    and "park_intent now lease callId kinds bump ev res code s = Inr s'"
  shows "moves_rows now (db_invocations s) (db_invocations s')"
  unfolding park_intent_rows [OF assms(3)]
  using locked_row(4) [OF assms(1)] by (intro locked_moves [OF assms(1,2)] row_step.park) simp

lemma lease_transactions:
  assumes "distinct (map av_id (db_invocations s))"
  shows "heartbeat now lease s = Inr s' \<Longrightarrow> moves_rows now (db_invocations s) (db_invocations s')"
    "start env now lease s = Inr s' \<Longrightarrow> moves_rows now (db_invocations s) (db_invocations s')"
    "defer_invocation now lease st d s = Inr s' \<Longrightarrow> moves_rows now (db_invocations s) (db_invocations s')"
    "finish now lease fs code s = Inr s' \<Longrightarrow> moves_rows now (db_invocations s) (db_invocations s')"
proof -
  note locked = locked_row [of now lease _ _ s] and mv = locked_moves [OF _ assms]
  assume "heartbeat now lease s = Inr s'"
  then obtain row where row: "lockedLease now lease [Inv_leased, Inv_running] False s = Inr row"
    and s': "s' = upd_invocation (le_id lease) (\<lambda>r. r\<lparr>av_leaseExpiresAt := Some (now + LEASE_MICROS), av_updatedAt := now\<rparr>) s"
    by (auto simp: heartbeat_def andThen_eq_Inr)
  show "moves_rows now (db_invocations s) (db_invocations s')"
    unfolding s' frames using locked_row(4,5) [OF row] by (intro mv [OF row] row_step.beat) simp_all
next
  note mv = locked_moves [OF _ assms]
  assume "start env now lease s = Inr s'"
  then obtain row s1 clock where row: "lockedLease now lease [Inv_leased] False s = Inr row"
    and s1: "prepare_automation env row s = Inr s1"
    and s': "db_invocations s' = upd_rows (\<lambda>r. av_id r = le_id lease) (started_row now) (db_invocations s1)"
    by (auto simp: start_def andThen_eq_Inr split: if_splits)
  have "db_invocations s1 = db_invocations s"
    using s1 by (auto simp: prepare_automation_def split: if_splits)
  then show "moves_rows now (db_invocations s) (db_invocations s')"
    unfolding s' using locked_row(4) [OF row] by (simp add: mv [OF row] row_step.begin_work)
next
  note mv = locked_moves [OF _ assms]
  assume "defer_invocation now lease st d s = Inr s'"
  then obtain row where row: "lockedLease now lease [Inv_leased] False s = Inr row"
    and s': "db_invocations s' = upd_rows (\<lambda>r. av_id r = le_id lease) (deferred_row now st d (keeps_reservation s (le_id lease))) (db_invocations s)"
    by (auto simp: defer_invocation_def andThen_eq_Inr split: if_splits)
  show "moves_rows now (db_invocations s) (db_invocations s')"
    unfolding s' using locked_row(4) [OF row] by (simp add: mv [OF row] row_step.defer_work)
next
  note mv = locked_moves [OF _ assms]
  assume "finish now lease fs code s = Inr s'"
  then obtain row where row: "lockedLease now lease [Inv_leased, Inv_running] True s = Inr row"
    and s': "db_invocations s' = upd_rows (\<lambda>r. av_id r = le_id lease)
       (finished_row now (open_actions s (le_id lease)) fs code) (db_invocations s)"
    by (auto simp: finish_def andThen_eq_Inr Let_def split: if_splits)
  show "moves_rows now (db_invocations s) (db_invocations s')"
    unfolding s' using locked_row(4) [OF row] by (simp add: mv [OF row] row_step.finish_work)
qed

lemma action_transactions:
  "recordAction now fresh lease callId kind s = Inr (a, s') \<Longrightarrow> db_invocations s' = db_invocations s"
  "completeAction now lease callId ev s = Inr s' \<Longrightarrow> db_invocations s' = db_invocations s"
  by (auto simp: recordAction_def completeAction_def andThen_eq_Inr Let_def split: if_splits)

lemma park_transactions:
  assumes dist: "distinct (map av_id (db_invocations s))"
  shows "parkBrowserHandoff now lease callId h s = Inr s' \<Longrightarrow> moves_rows now (db_invocations s) (db_invocations s')"
    "parkQuestion now lease callId q s = Inr s' \<Longrightarrow> moves_rows now (db_invocations s) (db_invocations s')"
    "parkAppDataRequest cr now lease callId cl s = Inr s' \<Longrightarrow> moves_rows now (db_invocations s) (db_invocations s')"
    "parkAutomationProposal cr now lease callId cl s = Inr s' \<Longrightarrow> moves_rows now (db_invocations s) (db_invocations s')"
    "parkBootstrapProposal cr' now lease callId cl s = Inr s' \<Longrightarrow> moves_rows now (db_invocations s) (db_invocations s')"
    "parkUserBrowserHandoff now fresh lease nxt s = Inr (c, s') \<Longrightarrow> moves_rows now (db_invocations s) (db_invocations s')"
proof -
  show "parkBrowserHandoff now lease callId h s = Inr s' \<Longrightarrow> moves_rows now (db_invocations s) (db_invocations s')"
    using park_moves [OF _ dist] by (fastforce simp: parkBrowserHandoff_def andThen_eq_Inr split: if_splits)
  show "parkQuestion now lease callId q s = Inr s' \<Longrightarrow> moves_rows now (db_invocations s) (db_invocations s')"
    using park_moves [OF _ dist] by (fastforce simp: parkQuestion_def andThen_eq_Inr split: if_splits option.splits)
  have park: "moves_rows now (db_invocations s) (db_invocations s')"
    if "lockedLease now lease [Inv_running] False s1 = Inr row" "db_invocations s1 = db_invocations s"
      "park_intent now lease callId kinds bump ev res code s1 = Inr s'" for s1 row kinds bump ev res code
    using park_moves [OF that(1) _ that(3)] dist that(2) by simp
  show "parkAppDataRequest cr now lease callId cl s = Inr s' \<Longrightarrow> moves_rows now (db_invocations s) (db_invocations s')"
    by (auto simp: parkAppDataRequest_def andThen_eq_Inr Let_def split: if_splits intro: park)
  show "parkAutomationProposal cr now lease callId cl s = Inr s' \<Longrightarrow> moves_rows now (db_invocations s) (db_invocations s')"
    by (auto simp: parkAutomationProposal_def andThen_eq_Inr Let_def split: if_splits intro: park)
  show "parkBootstrapProposal cr' now lease callId cl s = Inr s' \<Longrightarrow> moves_rows now (db_invocations s) (db_invocations s')"
    using steps_moves [OF steps_refl dist]
    by (auto simp: parkBootstrapProposal_def andThen_eq_Inr Let_def split: if_splits option.splits)
       (rule park, assumption, simp, assumption)
  assume "parkUserBrowserHandoff now fresh lease nxt s = Inr (c, s')"
  then obtain row where row: "lockedLease now lease [Inv_running] False s = Inr row"
    and s': "db_invocations s' = db_invocations s \<or>
      db_invocations s' = upd_rows (\<lambda>r. av_id r = av_id row) (parked_row now False) (db_invocations s)"
    by (auto simp: parkUserBrowserHandoff_def andThen_eq_Inr Let_def split: if_splits option.splits)
  have "moves_rows now (db_invocations s) (upd_rows (\<lambda>r. av_id r = av_id row) (parked_row now False) (db_invocations s))"
    using locked_moves [OF row dist, of "parked_row now False"] locked_row(3,4) [OF row] by (simp add: row_step.park)
  then show "moves_rows now (db_invocations s) (db_invocations s')"
    using s' steps_moves [OF steps_refl dist] by auto
qed

text \<open>Cancellation and review.\<close>

lemma cancel_rows:
  assumes "requestCancelInTransaction now ow i s = Inr (settled, s')" and "distinct (map av_id (db_invocations s))"
  shows "steps_rows now (db_invocations s) (db_invocations s')"
    "\<lbrakk>\<forall>r \<in> set (db_invocations s). av_id r = i \<longrightarrow> av_status r = Inv_waiting_for_user; r' \<in> set (db_invocations s'); av_id r' = i\<rbrakk>
      \<Longrightarrow> av_status r' = Inv_canceled"
    "\<lbrakk>r' \<in> set (db_invocations s'); av_id r' \<noteq> i\<rbrakk> \<Longrightarrow> r' \<in> set (db_invocations s)"
proof -
  obtain row where find: "List.find (\<lambda>r. av_id r = i \<and> av_createdByUserId r = ow) (db_invocations s) = Some row"
    using assms(1) by (auto simp: requestCancelInTransaction_def split: option.splits)
  then have row: "row \<in> set (db_invocations s)" "av_id row = i"
    by (auto simp: find_Some_iff)
  have only: "r = row" if "r \<in> set (db_invocations s)" "av_id r = i" for r
    using that unique_row [OF assms(2)] row by metis
  have keep: "av_id (canceled_row now ow r) = av_id r" for r
    by (simp add: canceled_row_def Let_def settleWorkTiming_def)
  have cases: "s' = s \<and> av_status row \<in> {Inv_succeeded, Inv_failed, Inv_canceled, Inv_expired} \<or>
      db_invocations s' = upd_rows (\<lambda>r. av_id r = i) (canceled_row now ow) (db_invocations s) \<and>
      av_status row \<notin> {Inv_succeeded, Inv_failed, Inv_canceled, Inv_expired}"
    using assms(1) find row by (auto simp: requestCancelInTransaction_def split: if_splits)
  then show "steps_rows now (db_invocations s) (db_invocations s')"
  proof
    assume b: "db_invocations s' = upd_rows (\<lambda>r. av_id r = i) (canceled_row now ow) (db_invocations s) \<and>
      av_status row \<notin> {Inv_succeeded, Inv_failed, Inv_canceled, Inv_expired}"
    have "row_step now r (canceled_row now ow r)" if "r \<in> set (db_invocations s)" "av_id r = i" for r
      using only [OF that] b by (simp add: row_step.cancel)
    then show ?thesis
      using b by (auto intro!: steps_upd)
  qed (simp add: steps_refl)
  show "av_status r' = Inv_canceled" if "\<forall>r \<in> set (db_invocations s). av_id r = i \<longrightarrow> av_status r = Inv_waiting_for_user"
    "r' \<in> set (db_invocations s')" "av_id r' = i"
  proof -
    have w: "av_status row = Inv_waiting_for_user"
      using that(1) row by blast
    with cases have "r' \<in> set (upd_rows (\<lambda>r. av_id r = i) (canceled_row now ow) (db_invocations s))"
      using that(2) by auto
    then obtain r where "r \<in> set (db_invocations s)" "r' = (if av_id r = i then canceled_row now ow r else r)"
      by (auto simp: upd_rows_def)
    then have "r' = canceled_row now ow row"
      using that(3) only by (auto split: if_splits)
    then show ?thesis
      using w by (simp add: canceled_row_def Let_def)
  qed
  show "r' \<in> set (db_invocations s)" if "r' \<in> set (db_invocations s')" "av_id r' \<noteq> i"
    using cases that keep by (auto simp: upd_rows_def split: if_splits)
qed

lemma supersede_rows:
  "supersede now ow ids s = Inr (settled, s') \<Longrightarrow> distinct (map av_id (db_invocations s)) \<Longrightarrow> distinct ids \<Longrightarrow>
   \<forall>r \<in> set (db_invocations s). av_id r \<in> set ids \<longrightarrow> av_status r = Inv_waiting_for_user \<Longrightarrow>
   steps_rows now (db_invocations s) (db_invocations s')"
proof (induction ids arbitrary: s settled)
  case (Cons i ids)
  let ?label = "\<lambda>r. r\<lparr>av_outcomeCode := Some ''superseded_by_user_message''\<rparr>"
  obtain st1 s1 st2 s3 where c: "requestCancelInTransaction now ow i s = Inr (st1, s1)"
    and rest: "supersede now ow ids s3 = Inr (st2, s')"
    and s3: "db_invocations s3 = upd_rows (\<lambda>r. av_id r = i) ?label (db_invocations s1)"
    using Cons.prems(1) by (auto simp: andThen_eq_Inr Let_def)
  note canceled = cancel_rows [OF c Cons.prems(2)]
  have "av_status r' = Inv_canceled" if "r' \<in> set (db_invocations s1)" "av_id r' = i" for r'
    using that Cons.prems(4) by (intro canceled(2)) auto
  then have s13: "steps_rows now (db_invocations s1) (db_invocations s3)"
    unfolding s3 by (intro steps_upd) (auto intro!: row_step.relabel)
  have all: "steps_rows now (db_invocations s) (db_invocations s3)"
    using canceled(1) s13 by (rule steps_trans)
  moreover have "steps_rows now (db_invocations s3) (db_invocations s')"
  proof (rule Cons.IH [OF rest])
    show "distinct (map av_id (db_invocations s3))"
      using steps_keep_ids [OF all] Cons.prems(2) by simp
    show "distinct ids"
      using Cons.prems(3) by simp
    have "r \<in> set (db_invocations s)" if "r \<in> set (db_invocations s3)" "av_id r \<noteq> i" for r
      using that canceled(3) unfolding s3 by (auto simp: upd_rows_def split: if_splits)
    then show "\<forall>r \<in> set (db_invocations s3). av_id r \<in> set ids \<longrightarrow> av_status r = Inv_waiting_for_user"
      using Cons.prems(3,4) by auto
  qed
  ultimately show ?case
    by (rule steps_trans)
qed (simp add: steps_refl)

lemma new_admitted: "new_row (admitted_row now fresh input t)"
  by (simp add: new_row_def row_ok_def admitted_row_def)

lemma admit_moves:
  assumes "admit now fresh input s = Inr (a, s')" and dist: "distinct (map av_id (db_invocations s))"
  shows "moves_rows now (db_invocations s) (db_invocations s')"
proof (cases "adm_duplicate a")
  case True
  then have "s' = s"
    using assms(1) by (auto simp: admit_def admitInTransaction_def andThen_eq_Inr Let_def split: if_splits option.splits)
  then show ?thesis
    using steps_moves [OF steps_refl dist] by simp
next
  case False
  let ?waits = "if ad_origin input = Human then superseded_waits input s else []"
  from assms(1) False obtain settled s1 t where s1: "supersede now (ad_owner input) ?waits s = Inr (settled, s1)"
    and fresh: "fi_invocation fresh \<notin> av_id ` set (db_invocations s1)"
    and s': "db_invocations s' = db_invocations s1 @ [admitted_row now fresh input t]"
    by (auto simp: admit_def admitInTransaction_def andThen_eq_Inr Let_def insert_admission_def split: if_splits option.splits)
  have waits: "distinct ?waits" "\<forall>r \<in> set (db_invocations s). av_id r \<in> set ?waits \<longrightarrow> av_status r = Inv_waiting_for_user"
  proof -
    show "distinct ?waits"
      using dist by (simp add: superseded_waits_def distinct_map_filter)
    have "av_status r = Inv_waiting_for_user"
      if mem: "r \<in> set (db_invocations s)" and wait: "av_id r \<in> set (superseded_waits input s)" for r
    proof -
      obtain q where "q \<in> set (db_invocations s)" "av_id q = av_id r" "av_status q = Inv_waiting_for_user"
        using wait by (auto simp: superseded_waits_def)
      then show ?thesis
        using unique_row [OF dist, of q r] mem by simp
    qed
    then show "\<forall>r \<in> set (db_invocations s). av_id r \<in> set ?waits \<longrightarrow> av_status r = Inv_waiting_for_user"
      by simp
  qed
  have "steps_rows now (db_invocations s) (db_invocations s1)"
    by (rule supersede_rows [OF s1 dist waits])
  moreover have "distinct (map av_id (db_invocations s'))"
  proof -
    have "map av_id (db_invocations s1) = map av_id (db_invocations s)"
      using supersede_rows [OF s1 dist waits] by (rule steps_keep_ids)
    then show ?thesis
      using dist fresh unfolding s' set_map [symmetric] by (simp add: admitted_row_def)
  qed
  ultimately show ?thesis
    using new_admitted unfolding moves_rows_def s' by (intro exI [of _ "db_invocations s1"] exI [of _ "[admitted_row now fresh input t]"]) simp
qed

lemma review_transactions:
  assumes dist: "distinct (map av_id (db_invocations s))"
  shows "requestCancel now ow i s = Inr s' \<Longrightarrow> moves_rows now (db_invocations s) (db_invocations s')"
    "abandonReviewed to_iso now fresh fc ow th i ex s = Inr s' \<Longrightarrow> moves_rows now (db_invocations s) (db_invocations s')"
proof -
  assume "requestCancel now ow i s = Inr s'"
  then obtain settled s1 where "requestCancelInTransaction now ow i s = Inr (settled, s1)" "db_invocations s' = db_invocations s1"
    by (auto simp: requestCancel_def andThen_eq_Inr)
  then show "moves_rows now (db_invocations s) (db_invocations s')"
    using steps_moves [OF cancel_rows(1) dist] dist by metis
next
  assume ab: "abandonReviewed to_iso now fresh fc ow th i ex s = Inr s'"
  then obtain row where find: "List.find (\<lambda>r. av_id r = i \<and> av_createdByUserId r = ow) (db_invocations s) = Some row"
    by (auto simp: abandonReviewed_def split: option.splits)
  then have row: "row \<in> set (db_invocations s)"
    by (auto simp: find_Some_iff)
  have "s' = s \<or> av_status row = Inv_needs_review \<and>
      db_invocations s' = upd_rows (\<lambda>r. av_id r = av_id row) (abandoned_row now ow) (db_invocations s)"
    using ab find by (auto simp: abandonReviewed_def Let_def split: if_splits)
  moreover have "row_step now r (abandoned_row now ow r)"
    if "av_status row = Inv_needs_review" "r \<in> set (db_invocations s)" "av_id r = av_id row" for r
    using unique_row [OF dist that(2) row that(3)] that(1) by (simp add: row_step.abandon)
  then have "moves_rows now (db_invocations s) (upd_rows (\<lambda>r. av_id r = av_id row) (abandoned_row now ow) (db_invocations s))"
    if "av_status row = Inv_needs_review"
    using that by (intro steps_moves [OF steps_upd dist] r_into_rtranclp) blast
  ultimately show "moves_rows now (db_invocations s) (db_invocations s')"
    using steps_moves [OF steps_refl dist] by auto
qed

text \<open>Batches: rows chosen once, then changed one after the other.\<close>

lemma fold_steps:
  assumes rows: "\<And>s x. db_invocations (f s x) = upd_rows (\<lambda>r. av_id r = key x) (g s x) (db_invocations s)"
    and step: "\<And>s x r. Q r \<Longrightarrow> row_step now r (g s x r)"
  shows "distinct (map key xs) \<Longrightarrow> \<forall>r \<in> set (db_invocations s). av_id r \<in> key ` set xs \<longrightarrow> Q r \<Longrightarrow>
    steps_rows now (db_invocations s) (db_invocations (foldl f s xs))"
proof (induction xs arbitrary: s)
  case (Cons x xs)
  have first: "steps_rows now (db_invocations s) (db_invocations (f s x))"
    unfolding rows using Cons.prems(2) step by (intro steps_upd r_into_rtranclp) auto
  have "Q r" if mem: "r \<in> set (db_invocations (f s x))" and later: "av_id r \<in> key ` set xs" for r
  proof -
    obtain r0 where r0: "r0 \<in> set (db_invocations s)" "r = (if av_id r0 = key x then g s x r0 else r0)"
      using mem unfolding rows by (auto simp: upd_rows_def)
    have "av_id r0 \<noteq> key x"
    proof
      assume same: "av_id r0 = key x"
      then have "Q r0"
        using Cons.prems(2) r0(1) by simp
      then have "av_id r = key x"
        using row_step_identity [OF step [of r0 s x]] r0(2) same by simp
      then show False
        using later Cons.prems(1) by auto
    qed
    then show ?thesis
      using r0 later Cons.prems(2) by simp
  qed
  then have "steps_rows now (db_invocations (f s x)) (db_invocations (foldl f (f s x) xs))"
    using Cons.prems(1) by (intro Cons.IH) auto
  with first show ?case
    by (auto intro: steps_trans)
qed (simp add: steps_refl)

lemma batch_rows:
  assumes "distinct (map av_id (db_invocations s))"
  shows "distinct (map av_id (batch P locked ow s))"
    "\<forall>r \<in> set (db_invocations s). av_id r \<in> av_id ` set (batch P locked ow s) \<longrightarrow> P r"
proof -
  show "distinct (map av_id (batch P locked ow s))"
    unfolding batch_def take_map [symmetric] using assms by (intro distinct_take distinct_map_filter)
  show "\<forall>r \<in> set (db_invocations s). av_id r \<in> av_id ` set (batch P locked ow s) \<longrightarrow> P r"
    using unique_row [OF assms] unfolding batch_def by (fastforce dest: in_set_takeD)
qed

lemma sweep_transactions:
  assumes dist: "distinct (map av_id (db_invocations s))"
  shows "moves_rows now (db_invocations s) (db_invocations (snd (expireQueued now locked ow s)))"
    "moves_rows now (db_invocations s) (db_invocations (snd (recoverExpired now locked ow s)))"
    "moves_rows now (db_invocations s) (db_invocations (invalidateInterruptedTiming now s))"
proof -
  let ?P = "\<lambda>r. av_status r \<in> set queued \<and> start_elapsed now s r"
  have "steps_rows now (db_invocations s)
      (db_invocations (foldl (\<lambda>s i. upd_invocation i (expired_row now) s) s (map av_id (batch ?P locked ow s))))"
    using batch_rows [OF dist, of ?P locked ow]
    by (intro fold_steps [where key = "\<lambda>i. i" and Q = ?P and g = "\<lambda>_ _. expired_row now"]) (auto intro: row_step.expire)
  then show "moves_rows now (db_invocations s) (db_invocations (snd (expireQueued now locked ow s)))"
    using dist by (simp add: expireQueued_def Let_def steps_moves)
  let ?E = "\<lambda>r. av_status r \<in> {Inv_waiting_for_user, Inv_waiting_for_bud, Inv_waiting_for_model, Inv_retry_wait} \<and> browser_task_ended s r"
  let ?s1 = "foldl (end_browser_task now) s (map av_id (batch ?E locked ow s))"
  have first: "steps_rows now (db_invocations s) (db_invocations ?s1)"
    using batch_rows [OF dist, of ?E locked ow]
    by (intro fold_steps [where key = "\<lambda>i. i" and Q = ?E and g = "\<lambda>_ _. ended_row now"])
       (auto simp: end_browser_task_def intro: row_step.end_task)
  then have dist1: "distinct (map av_id (db_invocations ?s1))"
    using dist steps_keep_ids by metis
  let ?R = "\<lambda>r. av_status r \<in> {Inv_leased, Inv_running} \<and> (case av_leaseExpiresAt r of None \<Rightarrow> False | Some e \<Rightarrow> e \<le> now)"
  have "steps_rows now (db_invocations ?s1) (db_invocations (foldl (recover_row now) ?s1 (batch ?R locked ow ?s1)))"
    using batch_rows [OF dist1, of ?R locked ow]
    by (intro fold_steps [where key = av_id and Q = ?R and g = "\<lambda>s row. recovered_row now (keeps_reservation s (av_id row))"])
       (auto simp: recover_row_def Let_def intro: row_step.recover)
  with first show "moves_rows now (db_invocations s) (db_invocations (snd (recoverExpired now locked ow s)))"
    using dist by (auto simp: recoverExpired_def Let_def intro: steps_moves steps_trans)
  show "moves_rows now (db_invocations s) (db_invocations (invalidateInterruptedTiming now s))"
    unfolding invalidateInterruptedTiming_def using dist by (auto intro!: steps_moves steps_upd row_step.forget_time)
qed

text \<open>A claim moves the rows too, or leases one of them.\<close>

lemma claim_cases:
  assumes "claim cap t0 snap locked acquired w ow now s = Inr (got, s')" and dist: "distinct (map av_id (db_invocations s))"
  obtains (moved) "moves_rows now (db_invocations s) (db_invocations s')" "got = None"
  | (leased) r where "r \<in> set (db_invocations s)" "av_status r \<in> set (queued @ [Inv_waiting_for_user])" "av_cancelRequestedAt r = None"
      "\<not> other_reserves s r" "av_origin r = Human \<or> av_reservesThread r \<or> reserving (av_budId r) (db_invocations s) < cap"
      "got = Some (leased_row now w r)"
      "db_invocations s' = upd_rows (\<lambda>x. av_id x = av_id r) (leased_row now w) (db_invocations s)"
proof -
  have stay: "moves_rows now (db_invocations s) (db_invocations s)"
    using steps_moves [OF steps_refl dist] .
  show thesis
  proof (cases "s' = s \<and> got = None")
    case True
    then show thesis
      using moved stay by simp
  next
    case False
    then obtain i r where find: "find_invocation i s = Some r"
      and res: "claim_locked cap acquired w now i s = (got, s')"
      using assms(1) by (auto simp: claim_def claim_locked_def claim_read_def claim_write_def split: if_splits option.splits)
    then have r: "r \<in> set (db_invocations s)" "av_id r = i"
      by (auto simp: find_invocation_def find_Some_iff)
    have only: "x = r" if "x \<in> set (db_invocations s)" "av_id x = i" for x
      using that unique_row [OF dist] r by metis
    show thesis
    proof (cases "start_elapsed now s r \<and> av_status r \<noteq> Inv_waiting_for_user")
      case True
      then have "got = None" "db_invocations s' = upd_rows (\<lambda>x. av_id x = i) (expired_row now) (db_invocations s)"
        "av_status r \<in> set queued"
        using res find False by (auto simp: claim_locked_def claim_read_def claim_write_def split: if_splits)
      moreover have "moves_rows now (db_invocations s) (upd_rows (\<lambda>x. av_id x = i) (expired_row now) (db_invocations s))"
        using only calculation(3) by (intro steps_moves [OF steps_upd dist] r_into_rtranclp) (auto intro: row_step.expire)
      ultimately show thesis
        using moved by simp
    next
      case no: False
      show thesis
      proof (rule leased [OF r(1)])
        show "av_origin r = Human \<or> av_reservesThread r \<or> reserving (av_budId r) (db_invocations s) < cap"
          using res find False no
          by (cases "av_origin r") (auto simp: claim_locked_def claim_read_def claim_write_def reserving_def automations_reserving_def split: if_splits)
      qed (use res find False no r in \<open>auto simp: claim_locked_def claim_read_def claim_write_def split: if_splits\<close>)
    qed
  qed
qed

end
