(* ===== verification/InvocationRuns.thy ===== *)
theory InvocationRuns
  imports InvocationProps
begin

text \<open>
  Runs of the invocation queue.  Workers, sweeps and requests take turns in any order, each with one
  transaction; what other modules write in between is a step of its own.  A transaction is taken as one
  step; where the locks of the code do not make it one, \<open>claim_revives_canceled\<close> shows the difference.
\<close>

section \<open>Steps\<close>

definition action_key :: "action_row \<Rightarrow> string \<times> string" where
  "action_key a = (ac_invocationId a, ac_callId a)"

definition lease_of :: "inv_row \<Rightarrow> inv_lease" where
  "lease_of r = \<lparr>le_id = av_id r, le_fence = av_fence r, le_workerId = av_workerId r, le_createdByUserId = av_createdByUserId r\<rparr>"

text \<open>
  A committed transaction of the repository at time \<open>now\<close>.  Two rules are not its own: \<open>environment\<close>, any change
  of the other tables and of the state of recorded actions, and \<open>browser_wait\<close>, the dispatch of a browser
  command that parks a running invocation (\<open>browser/repository.ts\<close>).
\<close>

inductive transaction :: "nat \<Rightarrow> int \<Rightarrow> inv_db \<Rightarrow> inv_db \<Rightarrow> bool" for cap now where
  admit: "Invocations.admit now fresh input s = Inr (a, s') \<Longrightarrow> transaction cap now s s'"
| cancel: "requestCancel now ow i s = Inr s' \<Longrightarrow> transaction cap now s s'"
| claim: "InvocationQueue.claim cap t0 snapshot locked acquired w owf now s = Inr (got, s') \<Longrightarrow> transaction cap now s s'"
| heartbeat: "InvocationQueue.heartbeat now lease s = Inr s' \<Longrightarrow> transaction cap now s s'"
| start: "InvocationQueue.start env now lease s = Inr s' \<Longrightarrow> transaction cap now s s'"
| defer_work: "defer_invocation now lease st d s = Inr s' \<Longrightarrow> transaction cap now s s'"
| record_action: "recordAction now fresh_id lease callId kind s = Inr (act, s') \<Longrightarrow> transaction cap now s s'"
| complete_action: "completeAction now lease callId ev s = Inr s' \<Longrightarrow> transaction cap now s s'"
| finish: "InvocationQueue.finish now lease fs code s = Inr s' \<Longrightarrow> transaction cap now s s'"
| park_browser: "parkBrowserHandoff now lease callId h s = Inr s' \<Longrightarrow> transaction cap now s s'"
| park_user: "parkUserBrowserHandoff now fresh_id lease nxt s = Inr (c, s') \<Longrightarrow> transaction cap now s s'"
| park_question: "parkQuestion now lease callId q s = Inr s' \<Longrightarrow> transaction cap now s s'"
| park_data: "parkAppDataRequest created now lease callId cl s = Inr s' \<Longrightarrow> transaction cap now s s'"
| park_automation: "parkAutomationProposal created now lease callId cl s = Inr s' \<Longrightarrow> transaction cap now s s'"
| park_bootstrap: "parkBootstrapProposal created' now lease callId cl s = Inr s' \<Longrightarrow> transaction cap now s s'"
| abandon: "abandonReviewed to_iso now fresh_id fc ow th i ex s = Inr s' \<Longrightarrow> transaction cap now s s'"
| expire: "transaction cap now s (snd (expireQueued now locked owf s))"
| recover: "transaction cap now s (snd (recoverExpired now locked owf s))"
| invalidate: "transaction cap now s (invalidateInterruptedTiming now s)"
| environment: "db_invocations s' = db_invocations s \<Longrightarrow> map action_key (db_actions s') = map action_key (db_actions s) \<Longrightarrow>
    transaction cap now s s'"
| browser_wait: "lockedLease now lease [Inv_running] False s = Inr row \<Longrightarrow>
    db_invocations s' = upd_rows (\<lambda>r. av_id r = le_id lease) (parked_row now False) (db_invocations s) \<Longrightarrow>
    map action_key (db_actions s') = map action_key (db_actions s) \<Longrightarrow> transaction cap now s s'"

text \<open>Time does not run backwards.\<close>

definition inv_step :: "nat \<Rightarrow> int \<times> inv_db \<Rightarrow> int \<times> inv_db \<Rightarrow> bool" where
  "inv_step cap w w' \<longleftrightarrow> fst w \<le> fst w' \<and> transaction cap (fst w') (snd w) (snd w')"

definition fresh_world :: "int \<times> inv_db \<Rightarrow> bool" where
  "fresh_world w \<longleftrightarrow> db_invocations (snd w) = [] \<and> db_actions (snd w) = []"

definition reachable :: "nat \<Rightarrow> int \<times> inv_db \<Rightarrow> bool" where
  "reachable cap w \<longleftrightarrow> (\<exists>w0. fresh_world w0 \<and> (inv_step cap)\<^sup>*\<^sup>* w0 w)"

section \<open>What one step does to the rows\<close>

lemma transaction_rows:
  assumes "transaction cap now s s'" and dist: "distinct (map av_id (db_invocations s))"
  obtains (moved) "moves_rows now (db_invocations s) (db_invocations s')"
  | (leased) r w where "r \<in> set (db_invocations s)" "av_status r \<in> set (queued @ [Inv_waiting_for_user])"
      "\<not> other_reserves s r"
      "av_origin r = Human \<or> av_reservesThread r \<or> reserving (av_budId r) (db_invocations s) < cap"
      "db_invocations s' = upd_rows (\<lambda>x. av_id x = av_id r) (leased_row now w) (db_invocations s)"
proof -
  have stay: "moves_rows now (db_invocations s) (db_invocations s)"
    using steps_moves [OF steps_refl dist] .
  show thesis
    using assms(1)
  proof cases
    case (claim t0 snapshot locked acquired w owf got)
    from claim dist show thesis
    proof (cases rule: claim_cases)
      case moved
      then show thesis
        using that(1) by simp
    next
      case (leased r)
      then show thesis
        using that(2) [of r w] by blast
    qed
  next
    case (environment)
    then show thesis
      using moved stay by simp
  next
    case (browser_wait lease row)
    then have "moves_rows now (db_invocations s) (db_invocations s')"
      using locked_moves [OF browser_wait(1) dist, of "parked_row now False"] locked_row(4) [OF browser_wait(1)]
      by (simp add: row_step.park)
    then show thesis
      by (rule moved)
  next
    case (record_action fresh_id lease callId kind act)
    then show thesis
      using moved stay action_transactions(1) by metis
  next
    case (complete_action lease callId ev)
    then show thesis
      using moved stay action_transactions(2) by metis
  qed (rule moved, (erule admit_moves [OF _ dist] review_transactions [OF dist] lease_transactions [OF dist] park_transactions [OF dist]
      | simp add: sweep_transactions [OF dist]))+
qed

lemma transaction_inv: "transaction cap now s s' \<Longrightarrow> rows_inv cap (db_invocations s) \<Longrightarrow> rows_inv cap (db_invocations s')"
proof -
  assume t: "transaction cap now s s'" and ok: "rows_inv cap (db_invocations s)"
  then have "distinct (map av_id (db_invocations s))"
    by (simp add: rows_inv_def)
  from t this show ?thesis
  proof (cases rule: transaction_rows)
    case moved
    then show ?thesis
      using ok by (rule moves_inv)
  next
    case (leased r w)
    show ?thesis
      unfolding leased(5)
    proof (rule lease_inv [OF ok leased(1) _ _ leased(4)])
      show "av_status r \<notin> {Inv_leased, Inv_running}"
        using leased(2) by (auto simp: queued_def)
      show "av_id x = av_id r" if "x \<in> set (db_invocations s)" "av_threadId x = av_threadId r" "av_reservesThread x" for x
        using leased(3) that unfolding other_reserves_def by blast
    qed
  qed
qed

lemma run_rows: "(inv_step cap)\<^sup>*\<^sup>* w w' \<Longrightarrow> rows_inv cap (db_invocations (snd w)) \<Longrightarrow> rows_inv cap (db_invocations (snd w'))"
  by (induction rule: rtranclp_induct) (auto simp: inv_step_def intro: transaction_inv)

lemma reachable_rows: "reachable cap w \<Longrightarrow> rows_inv cap (db_invocations (snd w))"
proof -
  assume "reachable cap w"
  then obtain w0 where "fresh_world w0" and run: "(inv_step cap)\<^sup>*\<^sup>* w0 w"
    by (auto simp: reachable_def)
  then have "rows_inv cap (db_invocations (snd w0))"
    by (simp add: fresh_world_def rows_inv_def exclusive_def reserving_def)
  with run show ?thesis
    by (rule run_rows)
qed

lemma reachable_distinct: "reachable cap w \<Longrightarrow> distinct (map av_id (db_invocations (snd w)))"
  using reachable_rows by (simp add: rows_inv_def)

lemma reachable_step: "reachable cap w \<Longrightarrow> inv_step cap w w' \<Longrightarrow> reachable cap w'"
  unfolding reachable_def by (meson rtranclp.rtrancl_into_rtrancl)

lemma reachable_run: "reachable cap w \<Longrightarrow> (inv_step cap)\<^sup>*\<^sup>* w w' \<Longrightarrow> reachable cap w'"
  unfolding reachable_def by (meson rtranclp_trans)

lemma run_time: "(inv_step cap)\<^sup>*\<^sup>* w w' \<Longrightarrow> fst w \<le> fst w'"
  by (induction rule: rtranclp_induct) (auto simp: inv_step_def)

section \<open>Facts about one invocation\<close>

text \<open>
  A predicate on the row of an invocation that stays true as time passes, along the steps of the row
  and when it is leased again, holds of that invocation for the rest of the run.
\<close>

locale row_predicate =
  fixes Q :: "int \<Rightarrow> inv_row \<Rightarrow> bool"
  assumes later: "Q t r \<Longrightarrow> t \<le> t' \<Longrightarrow> Q t' r"
    and keeps: "Q now r \<Longrightarrow> row_step now r r' \<Longrightarrow> Q now r'"
    and leases: "Q now r \<Longrightarrow> Q now (leased_row now w r)"
begin

definition tracked :: "string \<Rightarrow> int \<times> inv_db \<Rightarrow> bool" where
  "tracked i w \<longleftrightarrow> (\<exists>r \<in> set (db_invocations (snd w)). av_id r = i) \<and>
     (\<forall>r \<in> set (db_invocations (snd w)). av_id r = i \<longrightarrow> Q (fst w) r)"

lemma keeps_all: "(row_step now)\<^sup>*\<^sup>* r r' \<Longrightarrow> Q now r \<Longrightarrow> Q now r'"
  by (induction rule: rtranclp_induct) (auto intro: keeps)

lemma moves_tracked:
  assumes "moves_rows now rows rows'" and "r \<in> set rows" and "av_id r = i" and "\<And>r. r \<in> set rows \<Longrightarrow> av_id r = i \<Longrightarrow> Q now r"
  shows "(\<exists>r \<in> set rows'. av_id r = i) \<and> (\<forall>r \<in> set rows'. av_id r = i \<longrightarrow> Q now r)"
proof -
  obtain u new where rows': "rows' = u @ new" and u: "steps_rows now rows u" and dist: "distinct (map av_id rows')"
    using assms(1) by (auto simp: moves_rows_def)
  obtain k where k: "k < length rows" "rows ! k = r"
    using assms(2) by (auto simp: in_set_conv_nth)
  then have step: "(row_step now)\<^sup>*\<^sup>* r (u ! k)" "u ! k \<in> set u"
    using u by (auto simp: list_all2_conv_all_nth)
  have id: "av_id (u ! k) = i" and q: "Q now (u ! k)"
    using steps_id [OF step(1)] keeps_all [OF step(1)] assms(2-4) by simp_all
  have "x = u ! k" if "x \<in> set rows'" "av_id x = i" for x
    using unique_row [OF dist that(1), of "u ! k"] that(2) id step(2) rows' by simp
  then show ?thesis
    using id q step(2) rows' by auto
qed

lemma step_tracked:
  assumes "inv_step cap w w'" and "reachable cap w" and "tracked i w"
  shows "tracked i w'"
proof -
  have dist: "distinct (map av_id (db_invocations (snd w)))"
    using assms(2) by (rule reachable_distinct)
  have time: "fst w \<le> fst w'" and tx: "transaction cap (fst w') (snd w) (snd w')"
    using assms(1) by (simp_all add: inv_step_def)
  obtain r where r: "r \<in> set (db_invocations (snd w))" "av_id r = i"
    and q: "\<And>r. r \<in> set (db_invocations (snd w)) \<Longrightarrow> av_id r = i \<Longrightarrow> Q (fst w') r"
    using assms(3) later [OF _ time] by (auto simp: tracked_def)
  from tx dist show ?thesis
  proof (cases rule: transaction_rows)
    case moved
    then show ?thesis
      unfolding tracked_def by (rule moves_tracked [OF _ r q])
  next
    case (leased x v)
    have id: "av_id (if av_id y = av_id x then leased_row (fst w') v y else y) = av_id y" for y
      by (simp add: leased_row_def)
    have "Q (fst w') (if av_id y = av_id x then leased_row (fst w') v y else y)"
      if "y \<in> set (db_invocations (snd w))" "av_id y = i" for y
      using q [OF that] leases by simp
    then show ?thesis
      unfolding tracked_def leased(5) upd_rows_def set_map ball_simps bex_simps id using r by blast
  qed
qed

lemma run_tracked: "(inv_step cap)\<^sup>*\<^sup>* w w' \<Longrightarrow> reachable cap w \<Longrightarrow> tracked i w \<Longrightarrow> tracked i w'"
proof (induction rule: rtranclp_induct)
  case (step y z)
  then show ?case
    using step_tracked reachable_run by blast
qed

end

text \<open>The fence of an invocation never falls, and a lease that was lost is not regained.\<close>

definition leased_under :: "inv_lease \<Rightarrow> int \<Rightarrow> inv_row \<Rightarrow> bool" where
  "leased_under lease t r \<longleftrightarrow> le_fence lease \<le> av_fence r \<and> av_createdByUserId r = le_createdByUserId lease"

interpretation past_lease: row_predicate "leased_under lease" for lease
proof unfold_locales
  show "leased_under lease now r \<Longrightarrow> row_step now r r' \<Longrightarrow> leased_under lease now r'" for now r r'
    using row_step_fence [of now r r'] row_step_identity [of now r r'] by (auto simp: leased_under_def)
qed (auto simp: leased_under_def leased_row_def)

definition fenced_off :: "inv_lease \<Rightarrow> int \<Rightarrow> inv_row \<Rightarrow> bool" where
  "fenced_off lease t r \<longleftrightarrow> le_fence lease < av_fence r \<or>
     le_fence lease = av_fence r \<and> (av_workerId r \<noteq> le_workerId lease \<or> \<not> lease_running t r)"

lemma fenced_off_step: "row_step now r r' \<Longrightarrow> fenced_off lease now r \<Longrightarrow> fenced_off lease now r'"
  by (induction rule: row_step.induct)
     (auto simp: fenced_off_def lease_running_def row_defs Let_def split: if_splits option.splits)

interpretation lost_lease: row_predicate "fenced_off lease" for lease
proof unfold_locales
  show "fenced_off lease t r \<Longrightarrow> t \<le> t' \<Longrightarrow> fenced_off lease t' r" for t t' r
    by (auto simp: fenced_off_def lease_running_def split: option.splits)
  show "fenced_off lease now r \<Longrightarrow> fenced_off lease now (leased_row now w r)" for now r w
    by (auto simp: fenced_off_def leased_row_def)
qed (rule fenced_off_step)

section \<open>The lifecycle of an invocation\<close>

definition invocation_next :: "inv_status \<Rightarrow> inv_status list" where
  "invocation_next st = (case st of
     Inv_pending \<Rightarrow> [Inv_leased, Inv_expired, Inv_canceled]
   | Inv_retry_wait \<Rightarrow> [Inv_leased, Inv_expired, Inv_canceled]
   | Inv_waiting_for_bud \<Rightarrow> [Inv_leased, Inv_expired, Inv_canceled]
   | Inv_waiting_for_model \<Rightarrow> [Inv_leased, Inv_expired, Inv_canceled]
   | Inv_leased \<Rightarrow> [Inv_running, Inv_waiting_for_bud, Inv_waiting_for_model, Inv_retry_wait, Inv_succeeded, Inv_failed,
       Inv_needs_review, Inv_canceled]
   | Inv_running \<Rightarrow> [Inv_waiting_for_user, Inv_succeeded, Inv_failed, Inv_needs_review, Inv_canceled]
   | Inv_waiting_for_user \<Rightarrow> [Inv_leased, Inv_canceled]
   | Inv_needs_review \<Rightarrow> [Inv_canceled]
   | _ \<Rightarrow> [])"

definition allowed_status :: "inv_status \<Rightarrow> inv_status \<Rightarrow> bool" where
  "allowed_status st st' \<longleftrightarrow> st' \<in> set (invocation_next st)"

lemma row_step_status: "row_step now r r' \<Longrightarrow> av_status r' = av_status r \<or> allowed_status (av_status r) (av_status r')"
proof (induction rule: row_step.induct)
  case (defer_work r st d b)
  then show ?case
    by (cases st) (simp_all add: allowed_status_def invocation_next_def row_defs)
next
  case (finish_work r p st code)
  then show ?case
    by (cases st) (auto simp: allowed_status_def invocation_next_def row_defs Let_def)
next
  case (cancel r ow)
  then show ?case
    by (cases "av_status r") (simp_all add: allowed_status_def invocation_next_def row_defs Let_def)
qed (auto simp: allowed_status_def invocation_next_def row_defs Let_def)

definition live_step :: "nat \<Rightarrow> int \<times> inv_db \<Rightarrow> int \<times> inv_db \<Rightarrow> bool" where
  "live_step cap w w' \<longleftrightarrow> reachable cap w \<and> inv_step cap w w'"

interpretation inv_rows: lifecycle av_id av_status allowed_status .

lemma row_steps_status: "(row_step now)\<^sup>*\<^sup>* r r' \<Longrightarrow> inv_rows.row_moves r r'"
proof (induction rule: rtranclp_induct)
  case (step y z)
  then show ?case
    using row_step_status [OF step.hyps(2)] row_step_identity [OF step.hyps(2)]
    by (auto simp: inv_rows.row_moves_def)
qed (rule inv_rows.row_moves_refl)

interpretation inv_store: lifecycle_store av_id av_status allowed_status "live_step cap" "\<lambda>w. db_invocations (snd w)" for cap
proof unfold_locales
  fix w w'
  assume "live_step cap w w'"
  then have dist: "distinct (map av_id (db_invocations (snd w)))" and tx: "transaction cap (fst w') (snd w) (snd w')"
    using reachable_distinct [of cap w] by (auto simp: live_step_def inv_step_def)
  from tx dist show "inv_rows.moves (db_invocations (snd w)) (db_invocations (snd w'))"
  proof (cases rule: transaction_rows)
    case moved
    then obtain u new where rows: "db_invocations (snd w') = u @ new" and u: "steps_rows (fst w') (db_invocations (snd w)) u"
      by (auto simp: moves_rows_def)
    have "list_all2 inv_rows.row_moves (db_invocations (snd w)) u"
      using u by (rule list_all2_mono) (rule row_steps_status)
    then show ?thesis
      using rows by (auto simp: inv_rows.moves_def)
  next
    case (leased r v)
    have "allowed_status (av_status x) Inv_leased" if "x \<in> set (db_invocations (snd w))" "av_id x = av_id r" for x
      using unique_row [OF dist that(1) leased(1) that(2)] leased(2)
      by (auto simp: allowed_status_def invocation_next_def queued_def)
    then show ?thesis
      unfolding leased(5) upd_rows_def by (intro inv_rows.moves_map) (simp add: leased_row_def)
  qed
qed

lemma live_run: "(inv_step cap)\<^sup>*\<^sup>* w w' \<Longrightarrow> reachable cap w \<Longrightarrow> (live_step cap)\<^sup>*\<^sup>* w w'"
proof (induction rule: rtranclp_induct)
  case (step y z)
  then show ?case
    by (meson live_step_def reachable_run rtranclp.rtrancl_into_rtrancl)
qed simp

section \<open>Recorded actions\<close>

lemma upd_keys: "(\<And>a. action_key (f a) = action_key a) \<Longrightarrow> map action_key (upd_rows P f acts) = map action_key acts"
  by (simp add: upd_rows_def)

lemma action_frames [simp]:
  "db_actions (publish_changes c d s) = db_actions s"
  "db_actions (upd_invocation i g s) = db_actions s"
  "db_actions (cancel_handoffs now Q s) = db_actions s"
  "db_actions (cancel_waits now r ow s) = db_actions s"
  "db_actions (upd_actions P f s) = upd_rows P f (db_actions s)"
  by (simp_all add: publish_changes_def upd_actions_def cancel_handoffs_def cancel_waits_def upd_invocation_def)

definition recorded :: "inv_db \<Rightarrow> (string \<times> string) set" where
  "recorded s = action_key ` set (db_actions s)"

lemma recorded_upd: "(\<And>a. action_key (f a) = action_key a) \<Longrightarrow> action_key ` set (upd_rows P f acts) = action_key ` set acts"
  using upd_keys [of f P acts] by (metis set_map)

lemma recorded_admission:
  "requestCancelInTransaction now ow i s = Inr (settled, s') \<Longrightarrow> db_actions s' = db_actions s"
  "supersede now ow ids s = Inr (settled, s') \<Longrightarrow> db_actions s' = db_actions s"
  "Invocations.admit now fresh input s = Inr (a, s') \<Longrightarrow> db_actions s' = db_actions s"
  "requestCancel now ow i s = Inr s' \<Longrightarrow> db_actions s' = db_actions s"
proof -
  show cancel: "requestCancelInTransaction now ow i s = Inr (settled, s') \<Longrightarrow> db_actions s' = db_actions s" for i s settled s'
    by (auto simp: requestCancelInTransaction_def split: option.splits if_splits)
  show super: "supersede now ow ids s = Inr (settled, s') \<Longrightarrow> db_actions s' = db_actions s" for ow ids s settled s'
  proof (induction ids arbitrary: s settled)
    case (Cons i ids)
    then obtain st1 s1 st2 s3 where "requestCancelInTransaction now ow i s = Inr (st1, s1)" "supersede now ow ids s3 = Inr (st2, s')"
      "db_actions s3 = db_actions s1"
      by (auto simp: andThen_eq_Inr Let_def)
    then show ?case
      using Cons.IH requestCancelInTransaction_def by (auto simp: requestCancelInTransaction_def split: option.splits if_splits)
  qed simp
  show "Invocations.admit now fresh input s = Inr (a, s') \<Longrightarrow> db_actions s' = db_actions s"
    by (auto simp: admit_def admitInTransaction_def andThen_eq_Inr Let_def insert_admission_def dest!: super
        split: if_splits option.splits)
  show "requestCancel now ow i s = Inr s' \<Longrightarrow> db_actions s' = db_actions s"
    by (auto simp: requestCancel_def andThen_eq_Inr dest!: cancel)
qed

lemma recorded_frame: "db_actions s' = db_actions s \<Longrightarrow> recorded s' = recorded s"
  by (simp add: recorded_def)

lemma action_key_update [simp]:
  "action_key (a\<lparr>ac_fence := f\<rparr>) = action_key a" "action_key (a\<lparr>ac_status := st\<rparr>) = action_key a"
  "action_key (a\<lparr>ac_evidence := ev\<rparr>) = action_key a" "action_key (a\<lparr>ac_completedAt := c\<rparr>) = action_key a"
  by (simp_all add: action_key_def)

lemma recorded_frames [simp]:
  "recorded (publish_changes c d s) = recorded s"
  "recorded (upd_invocation i g s) = recorded s"
  "recorded (cancel_handoffs now Q s) = recorded s"
  "recorded (s\<lparr>db_messages := ms\<rparr>) = recorded s"
  "recorded (s\<lparr>db_dataRequests := ds\<rparr>) = recorded s"
  "recorded (s\<lparr>db_automationProposals := ds\<rparr>) = recorded s"
  "recorded (s\<lparr>db_bootstrapProposals := ds\<rparr>) = recorded s"
  by (rule recorded_frame, simp)+

lemma recorded_upd_actions [simp]:
  "(\<And>a. action_key (f a) = action_key a) \<Longrightarrow> recorded (upd_actions P f s) = recorded s"
  by (simp add: recorded_def recorded_upd)

lemma recorded_claim: "InvocationQueue.claim cap t0 snap locked acquired w owf now s = Inr (got, s') \<Longrightarrow> recorded s' = recorded s"
  by (auto simp: claim_def claim_locked_def claim_read_def claim_write_def split: if_splits option.splits)

lemma recorded_lease:
  "InvocationQueue.heartbeat now lease s = Inr s' \<Longrightarrow> recorded s' = recorded s"
  "InvocationQueue.start env now lease s = Inr s' \<Longrightarrow> recorded s' = recorded s"
  "defer_invocation now lease st d s = Inr s' \<Longrightarrow> recorded s' = recorded s"
  "completeAction now lease callId ev s = Inr s' \<Longrightarrow> recorded s' = recorded s"
  "InvocationQueue.finish now lease fs code s = Inr s' \<Longrightarrow> recorded s' = recorded s"
  by (auto simp: heartbeat_def start_def prepare_automation_def defer_invocation_def completeAction_def
      finish_def andThen_eq_Inr Let_def split: if_splits)

lemma recorded_park_intent: "park_intent now lease callId kinds bump ev res code s = Inr s' \<Longrightarrow> recorded s' = recorded s"
  by (auto simp: park_intent_def split: if_splits)

lemma recorded_park:
  "parkBrowserHandoff now lease callId h s = Inr s' \<Longrightarrow> recorded s' = recorded s"
  "parkQuestion now lease callId q s = Inr s' \<Longrightarrow> recorded s' = recorded s"
  "parkAppDataRequest created now lease callId cl s = Inr s' \<Longrightarrow> recorded s' = recorded s"
  "parkAutomationProposal created now lease callId cl s = Inr s' \<Longrightarrow> recorded s' = recorded s"
  "parkBootstrapProposal created' now lease callId cl s = Inr s' \<Longrightarrow> recorded s' = recorded s"
proof -
  show "parkBrowserHandoff now lease callId h s = Inr s' \<Longrightarrow> recorded s' = recorded s"
    using recorded_park_intent by (fastforce simp: parkBrowserHandoff_def andThen_eq_Inr split: if_splits)
  show "parkQuestion now lease callId q s = Inr s' \<Longrightarrow> recorded s' = recorded s"
    using recorded_park_intent by (fastforce simp: parkQuestion_def andThen_eq_Inr split: if_splits option.splits)
  have park: "recorded s' = recorded s"
    if "park_intent now lease callId kinds bump ev res code s1 = Inr s'" "db_actions s1 = db_actions s" for kinds bump ev res code s1
    using recorded_park_intent [OF that(1)] recorded_frame [OF that(2)] by simp
  show "parkAppDataRequest created now lease callId cl s = Inr s' \<Longrightarrow> recorded s' = recorded s"
    by (auto simp: parkAppDataRequest_def andThen_eq_Inr Let_def split: if_splits intro!: park)
  show "parkAutomationProposal created now lease callId cl s = Inr s' \<Longrightarrow> recorded s' = recorded s"
    by (auto simp: parkAutomationProposal_def andThen_eq_Inr Let_def split: if_splits intro!: park)
  assume boot: "parkBootstrapProposal created' now lease callId cl s = Inr s'"
  then obtain result where "created' s = Inr result"
    by (auto simp: parkBootstrapProposal_def andThen_eq_Inr split: if_splits)
  with boot show "recorded s' = recorded s"
    by (cases result) (auto simp: parkBootstrapProposal_def andThen_eq_Inr Let_def split: if_splits intro!: park)
qed

lemma recorded_new:
  "recordAction now fresh lease callId kind s = Inr (act, s') \<Longrightarrow> recorded s' = insert (le_id lease, callId) (recorded s)"
  "parkUserBrowserHandoff now fresh lease nxt s = Inr (c, s') \<Longrightarrow> recorded s \<subseteq> recorded s'"
  "abandonReviewed to_iso now fresh fc ow th i ex s = Inr s' \<Longrightarrow> recorded s \<subseteq> recorded s'"
proof -
  show "recordAction now fresh lease callId kind s = Inr (act, s') \<Longrightarrow> recorded s' = insert (le_id lease, callId) (recorded s)"
    using locked_row(3) [of now lease "[Inv_running]" False s]
    by (auto simp: recordAction_def andThen_eq_Inr Let_def recorded_def action_key_def split: if_splits)
  show "parkUserBrowserHandoff now fresh lease nxt s = Inr (c, s') \<Longrightarrow> recorded s \<subseteq> recorded s'"
    by (auto simp: parkUserBrowserHandoff_def andThen_eq_Inr Let_def recorded_def split: if_splits option.splits)
  show "abandonReviewed to_iso now fresh fc ow th i ex s = Inr s' \<Longrightarrow> recorded s \<subseteq> recorded s'"
    by (auto simp: abandonReviewed_def Let_def recorded_def split: if_splits option.splits)
qed

lemma recorded_fold: "(\<And>s x. db_actions (f s x) = db_actions s) \<Longrightarrow> db_actions (foldl f s xs) = db_actions s"
  by (induction xs arbitrary: s) simp_all

lemma recorded_sweep:
  "db_actions (snd (expireQueued now locked owf s)) = db_actions s"
  "db_actions (snd (recoverExpired now locked owf s)) = db_actions s"
  "db_actions (invalidateInterruptedTiming now s) = db_actions s"
  by (simp_all add: expireQueued_def recoverExpired_def invalidateInterruptedTiming_def Let_def recorded_fold end_browser_task_def recover_row_def)

lemmas recorded_same = recorded_admission(3,4) [THEN recorded_frame] recorded_claim recorded_lease recorded_park

lemma transaction_recorded: "transaction cap now s s' \<Longrightarrow> recorded s \<subseteq> recorded s'"
proof (induction rule: transaction.induct)
  case (environment s' s)
  then show ?case
    by (metis recorded_def set_map subset_refl)
next
  case (browser_wait lease s row s')
  then show ?case
    by (metis recorded_def set_map subset_refl)
next
  case (record_action fresh_id lease callId kind s act s')
  then show ?case
    using recorded_new(1) by blast
qed (rule equalityD2, erule recorded_same | erule recorded_new | simp add: recorded_sweep recorded_def)+

lemma run_recorded: "(inv_step cap)\<^sup>*\<^sup>* w w' \<Longrightarrow> recorded (snd w) \<subseteq> recorded (snd w')"
proof (induction rule: rtranclp_induct)
  case (step y z)
  then show ?case
    using transaction_recorded unfolding inv_step_def by blast
qed simp

section \<open>Properties\<close>

lemma accepted_lease_reserves:
  assumes "reachable cap (t, s)" and "lockedLease now lease st c s = Inr r"
  shows "r \<in> set (db_invocations s)" "av_reservesThread r" "lease = lease_of r"
proof -
  note locked = locked_row [OF assms(2)]
  show r: "r \<in> set (db_invocations s)"
    by (rule locked(1))
  then have "row_ok r"
    using reachable_rows [OF assms(1)] by (simp add: rows_inv_def list_all_iff)
  then show "av_reservesThread r"
    using locked(2) by (auto simp: holds_lease_def row_ok_def split: if_splits option.splits)
  show "lease = lease_of r"
    using locked(2) by (auto simp: holds_lease_def lease_of_def split: option.splits)
qed

text \<open>C4: In every state the queue can reach, two leases that are both accepted for the same thread are
  the same lease: one invocation, one fence, one worker.\<close>

theorem thread_has_one_worker:
  assumes "reachable cap (t, s)"
    and "lockedLease now1 lease1 st1 c1 s = Inr r1"
    and "lockedLease now2 lease2 st2 c2 s = Inr r2"
    and "av_threadId r1 = av_threadId r2"
  shows "lease1 = lease2"
proof -
  note one = accepted_lease_reserves [OF assms(1,2)] and two = accepted_lease_reserves [OF assms(1,3)]
  have "av_id r1 = av_id r2"
    using reachable_rows [OF assms(1)] one(1,2) two(1,2) assms(4) unfolding rows_inv_def exclusive_def snd_conv by blast
  then have "r1 = r2"
    using unique_row [OF reachable_distinct [OF assms(1)]] one(1) two(1) by simp
  then show ?thesis
    using one(3) two(3) by simp
qed

text \<open>C28: With transactions taken one after the other, the automations that hold a thread of one bud, and so those
  that a worker is running, are never more than the capacity.  (The candidate of a claim may come from an older
  snapshot; its row is read again and the capacity decided in the transaction that writes it.  When another
  transaction commits between that read and the write, the bound is not guaranteed: see the claim that revives a
  canceled invocation below.)\<close>

theorem automation_capacity:
  assumes "reachable cap (t, s)"
  shows "automations_reserving s b \<le> cap \<and>
    length (filter (\<lambda>r. av_budId r = b \<and> av_origin r = Automation \<and> av_status r \<in> {Inv_leased, Inv_running}) (db_invocations s)) \<le> cap"
proof
  have ok: "list_all row_ok (db_invocations s)" and cap: "reserving b (db_invocations s) \<le> cap"
    using reachable_rows [OF assms] unfolding rows_inv_def snd_conv by blast+
  then show "automations_reserving s b \<le> cap"
    by (simp only: reserving_def automations_reserving_def)
  have "length (filter (\<lambda>r. av_budId r = b \<and> av_origin r = Automation \<and> av_status r \<in> {Inv_leased, Inv_running}) rows)
      \<le> reserving b rows" if "list_all row_ok rows" for rows
    using that by (induction rows) (auto simp: reserving_def row_ok_def)
  then show "length (filter (\<lambda>r. av_budId r = b \<and> av_origin r = Automation \<and> av_status r \<in> {Inv_leased, Inv_running}) (db_invocations s)) \<le> cap"
    using ok cap le_trans by blast
qed

lemma claimed_row:
  assumes "InvocationQueue.claim cap t0 snap locked acquired w owf now s = Inr (Some row, s1)"
    and "distinct (map av_id (db_invocations s))"
  shows "row \<in> set (db_invocations s1)" "av_workerId row = Some w" "w \<noteq> []"
    "x \<in> set (db_invocations s1) \<Longrightarrow> av_id x = av_id row \<Longrightarrow> x = row"
proof -
  show "w \<noteq> []"
    using assms(1) by (auto simp: claim_def split: if_splits)
  from assms obtain r where r: "r \<in> set (db_invocations s)" and row: "row = leased_row now w r"
    and s1: "db_invocations s1 = upd_rows (\<lambda>x. av_id x = av_id r) (leased_row now w) (db_invocations s)"
    by (cases rule: claim_cases) auto
  show "av_workerId row = Some w"
    by (simp add: row leased_row_def)
  show "row \<in> set (db_invocations s1)"
    unfolding s1 row using r by (auto simp: upd_rows_def image_iff)
  have "av_id row = av_id r"
    by (simp add: row leased_row_def)
  then show "x = row" if "x \<in> set (db_invocations s1)" "av_id x = av_id row"
    using that unique_row [OF assms(2) _ r] unfolding s1 row
    by (auto simp: upd_rows_def leased_row_def split: if_splits)
qed

text \<open>C5: A worker that has lost the lease of a claim, because it ran out or because the invocation was taken from
  it, has lost it for good: whatever happens afterwards, every use of the lease is refused.\<close>

theorem lost_lease_stays_lost:
  assumes "reachable cap (t, s)" and "t \<le> now"
    and claimed: "InvocationQueue.claim cap t0 snap locked acquired w owf now s = Inr (Some row, s1)"
    and "(inv_step cap)\<^sup>*\<^sup>* (now, s1) (t2, s2)"
    and lost: "\<not> (\<exists>r \<in> set (db_invocations s2). holds_lease t2 (lease_of row) r)"
    and "(inv_step cap)\<^sup>*\<^sup>* (t2, s2) (t3, s3)" and "t3 \<le> now3"
  shows "lockedLease now3 (lease_of row) st c s3 = Inl (InvocationError ''lease_lost'')"
proof -
  let ?lease = "lease_of row"
  have dist: "distinct (map av_id (db_invocations s))"
    using reachable_distinct [OF assms(1)] by simp
  note row = claimed_row [OF claimed dist]
  have "inv_step cap (t, s) (now, s1)"
    using assms(2) transaction.claim [OF claimed] by (simp add: inv_step_def)
  then have r1: "reachable cap (now, s1)"
    using assms(1) reachable_step by blast
  moreover have "past_lease.tracked ?lease (av_id row) (now, s1)"
    using row by (auto simp: past_lease.tracked_def leased_under_def lease_of_def)
  ultimately have "past_lease.tracked ?lease (av_id row) (t2, s2)"
    using past_lease.run_tracked [OF assms(4)] by blast
  then have "lost_lease.tracked ?lease (av_id row) (t2, s2)"
    using lost row(2,3) unfolding past_lease.tracked_def lost_lease.tracked_def
    by (fastforce simp: leased_under_def fenced_off_def holds_lease_def lease_of_def lease_running_def split: option.splits)
  then have gone: "lost_lease.tracked ?lease (av_id row) (t3, s3)"
    using lost_lease.run_tracked [OF assms(6)] reachable_run [OF r1 assms(4)] by blast
  have "\<not> holds_lease now3 ?lease r" if "r \<in> set (db_invocations s3)" for r
  proof
    assume held: "holds_lease now3 ?lease r"
    then have "fenced_off ?lease t3 r"
      using gone that by (simp add: lost_lease.tracked_def holds_lease_def lease_of_def)
    then have "fenced_off ?lease now3 r"
      using assms(7) by (rule lost_lease.later)
    then show False
      using held by (auto simp: fenced_off_def holds_lease_def lease_running_def split: option.splits)
  qed
  then have "List.find (holds_lease now3 ?lease) (db_invocations s3) = None"
    by (simp add: find_None_iff)
  then show ?thesis
    by (simp add: lockedLease_def)
qed

text \<open>C29: With transactions taken one after the other, an invocation that has finished keeps its outcome whatever happens afterwards, and one that waits for a
  review, because its work may have had effects, is never run again: it can only be canceled.\<close>

theorem finished_stays_finished:
  assumes "reachable cap w" and "(inv_step cap)\<^sup>*\<^sup>* w w'" and "r \<in> set (db_invocations (snd w))"
  shows "\<exists>r' \<in> set (db_invocations (snd w')). av_id r' = av_id r \<and>
    (case av_status r of
       Inv_succeeded \<Rightarrow> av_status r' = Inv_succeeded
     | Inv_failed \<Rightarrow> av_status r' = Inv_failed
     | Inv_canceled \<Rightarrow> av_status r' = Inv_canceled
     | Inv_expired \<Rightarrow> av_status r' = Inv_expired
     | Inv_needs_review \<Rightarrow> av_status r' \<in> {Inv_needs_review, Inv_canceled}
     | _ \<Rightarrow> True)"
proof -
  obtain r' where r': "r' \<in> set (db_invocations (snd w'))" "av_id r' = av_id r"
    and path: "allowed_status\<^sup>*\<^sup>* (av_status r) (av_status r')"
    using inv_store.run_row [OF live_run [OF assms(2,1)] assms(3)] by blast
  have review: "st = Inv_needs_review \<or> st = Inv_canceled" if "allowed_status\<^sup>*\<^sup>* Inv_needs_review st" for st
    using that by (induction rule: rtranclp_induct) (auto simp: allowed_status_def invocation_next_def)
  have final: "st = st0" if "allowed_status\<^sup>*\<^sup>* st0 st" "invocation_next st0 = []" for st st0
    using that by (induction rule: rtranclp_induct) (auto simp: allowed_status_def)
  have "case av_status r of
       Inv_succeeded \<Rightarrow> av_status r' = Inv_succeeded
     | Inv_failed \<Rightarrow> av_status r' = Inv_failed
     | Inv_canceled \<Rightarrow> av_status r' = Inv_canceled
     | Inv_expired \<Rightarrow> av_status r' = Inv_expired
     | Inv_needs_review \<Rightarrow> av_status r' \<in> {Inv_needs_review, Inv_canceled}
     | _ \<Rightarrow> True"
    using final [OF path] review path by (cases "av_status r") (auto simp: invocation_next_def)
  then show ?thesis
    using r' by blast
qed

text \<open>C30: A tool call whose intent was recorded is never recorded a second time for its invocation, by no lease and in
  no later state, so the tool is not dispatched twice.\<close>

theorem action_recorded_once:
  assumes "recordAction now fresh lease callId kind s = Inr (act, s1)"
    and "(inv_step cap)\<^sup>*\<^sup>* (now, s1) (t2, s2)"
    and "le_id lease2 = le_id lease"
  shows "\<exists>e. recordAction now2 fresh2 lease2 callId kind2 s2 = Inl e"
proof -
  have "(le_id lease, callId) \<in> recorded s2"
    using recorded_new(1) [OF assms(1)] run_recorded [OF assms(2)] by auto
  then obtain a where a: "a \<in> set (db_actions s2)" "ac_invocationId a = le_id lease2" "ac_callId a = callId"
    using assms(3) by (auto simp: recorded_def action_key_def)
  show ?thesis
  proof (cases "lockedLease now2 lease2 [Inv_running] False s2")
    case (Inr row)
    then show ?thesis
      using a locked_row(3) [OF Inr] by (auto simp: recordAction_def andThen_def Let_def)
  qed (simp add: recordAction_def andThen_def)
qed

text \<open>What an admission leaves alone while it cancels superseded waits.\<close>

definition admission_key :: "inv_row \<Rightarrow> string \<times> string" where
  "admission_key r = (av_createdByUserId r, av_idempotencyKey r)"

lemma upd_admission_keys:
  "(\<And>r. admission_key (f r) = admission_key r) \<Longrightarrow> map admission_key (upd_rows P f rows) = map admission_key rows"
  by (simp add: upd_rows_def)

lemma cancel_keeps:
  assumes "requestCancelInTransaction now ow i s = Inr (settled, s')"
  shows "db_threads s' = db_threads s" "db_buds s' = db_buds s" "db_messages s' = db_messages s"
    "map admission_key (db_invocations s') = map admission_key (db_invocations s)"
  using assms
  by (auto simp: requestCancelInTransaction_def upd_invocation_def cancel_waits_def cancel_handoffs_def canceled_row_def
      settleWorkTiming_def admission_key_def Let_def intro!: upd_admission_keys split: option.splits if_splits)

lemma supersede_keeps:
  "supersede now ow ids s = Inr (settled, s') \<Longrightarrow> db_threads s' = db_threads s \<and> db_buds s' = db_buds s \<and>
     db_messages s' = db_messages s \<and> map admission_key (db_invocations s') = map admission_key (db_invocations s)"
proof (induction ids arbitrary: s settled)
  case (Cons i ids)
  then obtain st1 s1 st2 s3 where c: "requestCancelInTransaction now ow i s = Inr (st1, s1)"
    and rest: "supersede now ow ids s3 = Inr (st2, s')"
    and s3: "db_threads s3 = db_threads s1" "db_buds s3 = db_buds s1" "db_messages s3 = db_messages s1"
      "map admission_key (db_invocations s3) = map admission_key (db_invocations s1)"
    by (auto simp: andThen_eq_Inr Let_def upd_invocation_def admission_key_def upd_rows_def)
  then show ?case
    using cancel_keeps [OF c] Cons.IH [OF rest] by simp
qed simp

lemma find_snoc: "\<forall>x \<in> set xs. \<not> P x \<Longrightarrow> P y \<Longrightarrow> List.find P (xs @ [y]) = Some y"
  by (induction xs) simp_all

lemma find_upd: "(\<And>x. P (f x) = P x) \<Longrightarrow> List.find P (upd_rows Q f xs) =
    map_option (\<lambda>x. if Q x then f x else x) (List.find P xs)"
  by (induction xs) (simp_all add: upd_rows_def)

lemma new_admission:
  assumes "Invocations.admit now fresh input s = Inr (a, s1)" and "\<not> adm_duplicate a"
  obtains t settled s0 where
    "\<not> (ad_owner input = [] \<or> ad_idempotencyKey input = [] \<or> js_length (ad_idempotencyKey input) > 256 \<or>
       ad_text input = [] \<or> js_length (ad_text input) > 100000)"
    "List.find (\<lambda>t. th_threadId t = ad_threadId input \<and> th_createdByUserId t = Some (ad_owner input) \<and> \<not> th_deleted t \<and>
      (\<exists>b \<in> set (db_buds s). bu_budId b = th_budId t \<and> bu_createdByUserId b = Some (ad_owner input))) (db_threads s) = Some t"
    "List.find (\<lambda>r. av_createdByUserId r = ad_owner input \<and> av_idempotencyKey r = ad_idempotencyKey input) (db_invocations s) = None"
    "supersede now (ad_owner input) (if ad_origin input = Human then superseded_waits input s else []) s = Inr (settled, s0)"
    "fi_message fresh \<notin> me_messageId ` set (db_messages s0)"
    "a = \<lparr>adm_invocation = admitted_row now fresh input t, adm_message = admitted_message now fresh input, adm_duplicate = False\<rparr>"
    "db_invocations s1 = db_invocations s0 @ [admitted_row now fresh input t]"
    "db_messages s1 = db_messages s0 @ [admitted_message now fresh input]"
    "db_threads s1 = upd_rows (\<lambda>u. th_threadId u = th_threadId t) (touched_thread now input) (db_threads s0)"
    "db_buds s1 = db_buds s0"
  using assms by (auto simp: admit_def admitInTransaction_def andThen_eq_Inr Let_def insert_admission_def publish_changes_def
      split: if_splits option.splits)

lemma admitted_row_found:
  assumes "map admission_key (db_invocations s0) = map admission_key (db_invocations s)"
    and none: "List.find (\<lambda>r. av_createdByUserId r = ad_owner input \<and> av_idempotencyKey r = ad_idempotencyKey input) (db_invocations s) = None"
  shows "List.find (\<lambda>r. av_createdByUserId r = ad_owner input \<and> av_idempotencyKey r = ad_idempotencyKey input)
    (db_invocations s0 @ [admitted_row now fresh input t]) = Some (admitted_row now fresh input t)"
proof -
  have "admission_key r \<noteq> (ad_owner input, ad_idempotencyKey input)" if mem: "r \<in> set (db_invocations s0)" for r
  proof -
    have "admission_key ` set (db_invocations s0) = admission_key ` set (db_invocations s)"
      using assms(1) by (metis set_map)
    with imageI [OF mem, of admission_key] obtain q where "q \<in> set (db_invocations s)" "admission_key r = admission_key q"
      by (simp only:) (erule imageE, rule that, assumption)
    then show ?thesis
      using none by (auto simp: find_None_iff admission_key_def)
  qed
  then show ?thesis
    by (intro find_snoc) (auto simp: admission_key_def admitted_row_def)
qed

text \<open>An admission that is repeated, after a lost response say, returns the first invocation and its message and
  changes nothing.\<close>

theorem admission_idempotent:
  assumes first: "Invocations.admit now fresh input s = Inr (a, s1)"
    and plain: "ad_origin input = Human \<or> obj_get (ad_metadata input) ''automation_admission_text'' \<in> {JUndef, JNull}"
  shows "Invocations.admit now' fresh' input s1 = Inr (a\<lparr>adm_duplicate := True\<rparr>, s1)"
proof (cases "adm_duplicate a")
  case True
  then show ?thesis
    using first by (auto simp: admit_def admitInTransaction_def andThen_eq_Inr Let_def split: if_splits option.splits)
next
  case False
  let ?mine = "\<lambda>s t. th_threadId t = ad_threadId input \<and> th_createdByUserId t = Some (ad_owner input) \<and> \<not> th_deleted t \<and>
      (\<exists>b \<in> set (db_buds s). bu_budId b = th_budId t \<and> bu_createdByUserId b = Some (ad_owner input))"
  let ?row = "\<lambda>t. admitted_row now fresh input t" and ?message = "admitted_message now fresh input"
  from first False obtain t settled s0 where new: "List.find (?mine s) (db_threads s) = Some t" and facts:
    "\<not> (ad_owner input = [] \<or> ad_idempotencyKey input = [] \<or> js_length (ad_idempotencyKey input) > 256 \<or>
       ad_text input = [] \<or> js_length (ad_text input) > 100000)"
    "List.find (\<lambda>r. av_createdByUserId r = ad_owner input \<and> av_idempotencyKey r = ad_idempotencyKey input) (db_invocations s) = None"
    "supersede now (ad_owner input) (if ad_origin input = Human then superseded_waits input s else []) s = Inr (settled, s0)"
    "fi_message fresh \<notin> me_messageId ` set (db_messages s0)"
    "a = \<lparr>adm_invocation = ?row t, adm_message = ?message, adm_duplicate = False\<rparr>"
    and s1: "db_invocations s1 = db_invocations s0 @ [?row t]" "db_messages s1 = db_messages s0 @ [?message]"
      "db_threads s1 = upd_rows (\<lambda>u. th_threadId u = th_threadId t) (touched_thread now input) (db_threads s0)" "db_buds s1 = db_buds s0"
    by (rule new_admission)
  note kept = supersede_keeps [OF facts(3)]
  obtain t' where t': "List.find (?mine s1) (db_threads s1) = Some t'"
    using new kept by (simp add: s1 find_upd touched_thread_def)
  have message: "List.find (\<lambda>m. me_messageId m = av_inputMessageId (?row t)) (db_messages s1) = Some ?message"
    unfolding s1 using facts(4) by (intro find_snoc) (simp_all add: admitted_row_def admitted_message_def image_iff eq_commute)
  have "th_threadId t = ad_threadId input"
    using new by (auto simp: find_Some_iff)
  then have "same_admission input (?row t) (Some ?message)"
    using plain by (auto simp: same_admission_def admitted_row_def admitted_message_def admitted_text_def Let_def
        or_default_def split: option.splits)
  then show ?thesis
    using facts(1) t' admitted_row_found [OF _ facts(2), of s0 now fresh t] kept message
    unfolding admit_def admitInTransaction_def facts(5) s1(1) by simp
qed

lemma upd_member: "x \<in> set rows \<Longrightarrow> P x \<Longrightarrow> f x \<in> set (upd_rows P f rows)"
  by (auto simp: upd_rows_def image_iff)

text \<open>C31: What taking a claim as one step leaves out: the claim reads the invocation without locking its row, so a
  cancellation can commit between that read and the claim's update.  The update then leases the canceled
  invocation again, which reserves its thread.\<close>

theorem claim_revives_canceled:
  assumes "reachable cap (t, s)" and lease: "claim_read cap acquired now i s = Claim_lease"
    and cancel: "requestCancel now1 owner i s = Inr s1"
  shows "\<exists>r \<in> set (db_invocations s1). av_id r = i \<and> av_status r = Inv_canceled \<and>
    (\<exists>r' \<in> set (db_invocations (snd (claim_write w now2 i Claim_lease s1))). av_id r' = i \<and> av_status r' = Inv_leased \<and>
       av_reservesThread r' \<and> av_cancelRequestedAt r' \<noteq> None)"
proof -
  obtain current where cur: "find_invocation i s = Some current" "av_status current \<in> set (queued @ [Inv_waiting_for_user])"
    using lease by (auto simp: claim_read_def split: option.splits if_splits)
  then have mem: "current \<in> set (db_invocations s)" "av_id current = i"
    by (auto simp: find_invocation_def find_Some_iff)
  have only: "r = current" if "r \<in> set (db_invocations s)" "av_id r = i" for r
    using unique_row [OF reachable_distinct [OF assms(1)]] that mem by simp
  let ?r = "canceled_row now1 owner current"
  have r: "av_id ?r = i" "av_status ?r = Inv_canceled" "av_cancelRequestedAt ?r \<noteq> None"
    using cur(2) mem(2) by (auto simp: canceled_row_def settleWorkTiming_def queued_def Let_def)
  from cancel obtain row where row: "List.find (\<lambda>r. av_id r = i \<and> av_createdByUserId r = owner) (db_invocations s) = Some row"
    by (auto simp: requestCancel_def requestCancelInTransaction_def andThen_eq_Inr split: option.splits)
  then have "row = current"
    using only by (auto simp: find_Some_iff)
  then have "db_invocations s1 = upd_rows (\<lambda>r. av_id r = i) (canceled_row now1 owner) (db_invocations s)"
    using cancel row cur(2) mem(2) by (auto simp: requestCancel_def requestCancelInTransaction_def andThen_eq_Inr queued_def split: if_splits)
  then have s1: "?r \<in> set (db_invocations s1)"
    using upd_member [of current "db_invocations s" "\<lambda>r. av_id r = i"] mem by simp
  then obtain stored where "find_invocation i s1 = Some stored"
    using r(1) by (cases "find_invocation i s1") (auto simp: find_invocation_def find_None_iff)
  then have "leased_row now2 w ?r \<in> set (db_invocations (snd (claim_write w now2 i Claim_lease s1)))"
    using upd_member [OF s1, of "\<lambda>r. av_id r = i" "leased_row now2 w"] r(1) by (simp add: claim_write_def)
  moreover have "av_id (leased_row now2 w ?r) = i" "av_status (leased_row now2 w ?r) = Inv_leased" "av_reservesThread (leased_row now2 w ?r)"
    "av_cancelRequestedAt (leased_row now2 w ?r) \<noteq> None"
    using r(1,3) by (simp_all add: leased_row_def)
  ultimately show ?thesis
    using s1 r(1,2) by blast
qed

section \<open>A run\<close>

definition demo_thread :: thread_row where
  "demo_thread = \<lparr>th_threadId = ''th'', th_budId = ''bd'', th_createdByUserId = Some ''u'', th_deleted = False, th_messageCount = 0,
     th_lastActivityAt = 0, th_lastMessagePreview = None, th_modelId = None, th_reasoningEffort = None\<rparr>"

definition demo_db :: inv_db where
  "demo_db = \<lparr>db_invocations = [], db_actions = [], db_threads = [demo_thread],
     db_buds = [\<lparr>bu_budId = ''bd'', bu_createdByUserId = Some ''u''\<rparr>], db_messages = [], db_questions = [], db_dataRequests = [],
     db_automationProposals = [], db_bootstrapProposals = [], db_handoffs = [], db_sessions = [], db_resources = [],
     db_deliveries = [], db_bootstrapGroups = [], db_published = []\<rparr>"

definition demo_input :: inv_admission where
  "demo_input = \<lparr>ad_owner = ''u'', ad_threadId = ''th'', ad_origin = Automation, ad_idempotencyKey = ''k'', ad_clientId = None,
     ad_text = ''hi'', ad_model = ''m'', ad_reasoningEffort = ''low'', ad_latestStartAt = None, ad_metadata = [],
     ad_persistModelSelection = True\<rparr>"

definition demo_fresh :: fresh_ids where
  "demo_fresh = \<lparr>fi_invocation = ''i'', fi_turn = ''t'', fi_message = ''m'', fi_client = ''c''\<rparr>"

definition demo_env :: start_env where
  "demo_env = \<lparr>se_policyReady = (\<lambda>_. True), se_evidence = (\<lambda>_. None), se_timestamptz = (\<lambda>_. Some 0), se_iso = (\<lambda>_. ''now'')\<rparr>"

definition demo_lease :: inv_lease where
  "demo_lease = \<lparr>le_id = ''i'', le_fence = 1, le_workerId = Some ''w'', le_createdByUserId = ''u''\<rparr>"

definition demo_pending :: inv_row where
  "demo_pending = \<lparr>av_id = ''i'', av_turnId = ''t'', av_threadId = ''th'', av_budId = ''bd'', av_inputMessageId = ''m'',
     av_origin = Automation, av_idempotencyKey = ''k'', av_model = ''m'', av_reasoningEffort = ''low'', av_status = Inv_pending,
     av_reservesThread = False, av_attempt = 0, av_fence = 0, av_workerId = None, av_leaseExpiresAt = None, av_nextAttemptAt = 1,
     av_latestStartAt = None, av_workDurationMs = Some 0, av_workStartedAt = None, av_outcomeCode = None,
     av_cancelRequestedAt = None, av_canceledByUserId = None, av_createdByUserId = ''u'', av_createdAt = 1, av_updatedAt = 1\<rparr>"

definition demo_row :: inv_row where
  "demo_row = demo_pending\<lparr>av_status := Inv_leased, av_reservesThread := True, av_attempt := 1, av_fence := 1, av_workerId := Some ''w'',
     av_leaseExpiresAt := Some 60000002, av_updatedAt := 2\<rparr>"

definition demo_message :: message_entry where
  "demo_message = \<lparr>me_messageId = ''m'', me_clientId = ''c'', me_threadId = ''th'', me_role = ''system'', me_displayRole = ''Automation'',
     me_content = ''hi'', me_metadata = [(''invocation_id'', JStr ''i''), (''origin'', JStr ''automation''), (''model_context_at'', JNull)],
     me_createdByUserId = Some ''u'', me_createdAt = 1\<rparr>"

definition demo_admitted :: inv_db where
  "demo_admitted = demo_db\<lparr>db_invocations := [demo_pending], db_messages := [demo_message],
     db_threads := [demo_thread\<lparr>th_messageCount := 1, th_lastActivityAt := 1, th_lastMessagePreview := Some ''hi'',
       th_modelId := Some ''m'', th_reasoningEffort := Some ''low''\<rparr>],
     db_published := [Changed [''i'']]\<rparr>"

definition demo_claimed :: inv_db where
  "demo_claimed = demo_admitted\<lparr>db_invocations := [demo_row], db_published := [Changed [''i''], Changed [''i'']]\<rparr>"

definition demo_running :: inv_db where
  "demo_running = demo_claimed\<lparr>db_invocations := [demo_row\<lparr>av_status := Inv_running, av_workStartedAt := Some 3, av_updatedAt := 3\<rparr>],
     db_messages := [demo_message\<lparr>me_metadata := [(''invocation_id'', JStr ''i''), (''origin'', JStr ''automation''),
       (''model_context_at'', JStr ''now'')]\<rparr>],
     db_published := [Changed [''i''], Changed [''i''], Changed [''i'']]\<rparr>"

definition demo_action :: action_row where
  "demo_action = \<lparr>ac_id = ''a'', ac_invocationId = ''i'', ac_callId = ''call'', ac_fence = 1, ac_kind = ''shell'', ac_status = Intent,
     ac_evidence = [], ac_createdByUserId = ''u'', ac_completedAt = None\<rparr>"

definition demo_canceled_row :: inv_row where
  "demo_canceled_row = demo_row\<lparr>av_status := Inv_canceled, av_reservesThread := False, av_fence := 2, av_workerId := None,
     av_leaseExpiresAt := None, av_outcomeCode := Some ''user_canceled'', av_cancelRequestedAt := Some 3,
     av_canceledByUserId := Some ''u'', av_updatedAt := 3\<rparr>"

definition demo_canceled :: inv_db where
  "demo_canceled = demo_claimed\<lparr>db_invocations := [demo_canceled_row],
     db_published := [Changed [''i''], Changed [''i''], Changed [''i''], Turn_timing ''th'' ''t'' (Some 0)]\<rparr>"

lemma demo_admit:
  "Invocations.admit 1 demo_fresh demo_input demo_db =
     Inr (\<lparr>adm_invocation = demo_pending, adm_message = demo_message, adm_duplicate = False\<rparr>, demo_admitted)"
  by (simp add: admit_def admitInTransaction_def insert_admission_def admitted_row_def admitted_message_def touched_thread_def
      publish_changes_def upd_rows_def js_length_def demo_fresh_def demo_input_def demo_db_def demo_thread_def demo_pending_def
      demo_message_def demo_admitted_def or_default_def Let_def map_filter_def)

lemma demo_claim:
  "InvocationQueue.claim 1 2 demo_admitted {} True ''w'' None 2 demo_admitted = Inr (Some demo_row, demo_claimed)"
  by code_simp

lemma demo_start: "InvocationQueue.start demo_env 3 demo_lease demo_claimed = Inr demo_running"
  by code_simp

lemma demo_record:
  "recordAction 4 ''a'' demo_lease ''call'' ''shell'' demo_running = Inr (demo_action, demo_running\<lparr>db_actions := [demo_action]\<rparr>)"
  by code_simp

lemma demo_cancel: "requestCancel 3 ''u'' ''i'' demo_claimed = Inr demo_canceled"
  by code_simp

lemma reachable_admitted: "reachable 1 (1, demo_admitted)"
proof -
  have "inv_step 1 (0, demo_db) (1, demo_admitted)"
    using transaction.admit [OF demo_admit] by (simp add: inv_step_def)
  moreover have "fresh_world (0, demo_db)"
    by (simp add: fresh_world_def demo_db_def)
  ultimately show ?thesis
    unfolding reachable_def by blast
qed

lemma reachable_claimed: "reachable 1 (2, demo_claimed)"
proof (rule reachable_step [OF reachable_admitted])
  show "inv_step 1 (1, demo_admitted) (2, demo_claimed)"
    unfolding inv_step_def fst_conv snd_conv by (intro conjI transaction.claim [OF demo_claim]) simp
qed

theorem thread_has_one_worker_witness:
  "lockedLease 3 demo_lease [Inv_leased] False demo_claimed = Inr demo_row \<and> lease_of demo_row = demo_lease"
proof -
  have held: "lockedLease 3 demo_lease [Inv_leased] False demo_claimed = Inr demo_row"
    "lockedLease 4 (lease_of demo_row) [Inv_leased] True demo_claimed = Inr demo_row"
    by code_simp+
  then show ?thesis
    using thread_has_one_worker [OF reachable_claimed held(2,1)] by simp
qed

theorem automation_capacity_witness:
  "automations_reserving demo_claimed ''bd'' = 1 \<and> automations_reserving demo_claimed ''bd'' \<le> 1"
proof -
  have "automations_reserving demo_claimed ''bd'' = 1"
    by code_simp
  then show ?thesis
    using automation_capacity [OF reachable_claimed, of "''bd''"] by simp
qed

text \<open>The worker says nothing for a hundred seconds, the sweep takes the invocation back, and the worker wakes up.\<close>

theorem lost_lease_stays_lost_witness:
  "lockedLease 100000002 demo_lease [Inv_leased, Inv_running] False (snd (recoverExpired 100000001 {} None demo_claimed))
     = Inl (InvocationError ''lease_lost'')"
proof -
  have lease: "lease_of demo_row = demo_lease"
    by (simp add: lease_of_def demo_row_def demo_pending_def demo_lease_def)
  have later: "(inv_step 1)\<^sup>*\<^sup>* (2, demo_claimed) (100000000, demo_claimed)"
    by (intro r_into_rtranclp) (simp add: inv_step_def transaction.environment)
  have lost: "\<not> (\<exists>r \<in> set (db_invocations demo_claimed). holds_lease 100000000 (lease_of demo_row) r)"
    by (simp add: demo_claimed_def demo_row_def holds_lease_def)
  have swept: "(inv_step 1)\<^sup>*\<^sup>* (100000000, demo_claimed) (100000001, snd (recoverExpired 100000001 {} None demo_claimed))"
    by (intro r_into_rtranclp) (simp add: inv_step_def transaction.recover)
  show ?thesis
    using lost_lease_stays_lost [OF reachable_admitted _ demo_claim later lost swept] by (simp add: lease)
qed

theorem finished_stays_finished_witness:
  "\<exists>r \<in> set (db_invocations (snd (recoverExpired 100000001 {} None demo_canceled))). av_id r = ''i'' \<and> av_status r = Inv_canceled"
proof -
  have r: "demo_canceled_row \<in> set (db_invocations (snd (3, demo_canceled)))" "av_id demo_canceled_row = ''i''"
    "av_status demo_canceled_row = Inv_canceled"
    by (simp_all add: demo_canceled_def demo_canceled_row_def demo_row_def demo_pending_def)
  have "reachable 1 (3, demo_canceled)"
    by (rule reachable_step [OF reachable_claimed]) (simp add: inv_step_def transaction.cancel [OF demo_cancel])
  moreover have "(inv_step 1)\<^sup>*\<^sup>* (3, demo_canceled) (100000001, snd (recoverExpired 100000001 {} None demo_canceled))"
    by (intro r_into_rtranclp) (simp add: inv_step_def transaction.recover)
  ultimately show ?thesis
    using finished_stays_finished [OF _ _ r(1)] r(2,3) by fastforce
qed

theorem action_recorded_once_witness:
  "\<exists>e. recordAction 5 ''b'' demo_lease ''call'' ''shell'' (demo_running\<lparr>db_actions := [demo_action]\<rparr>) = Inl e"
  by (rule action_recorded_once [OF demo_record rtranclp.rtrancl_refl]) simp

theorem admission_idempotent_witness:
  "Invocations.admit 9 demo_fresh demo_input demo_admitted =
     Inr (\<lparr>adm_invocation = demo_pending, adm_message = demo_message, adm_duplicate = True\<rparr>, demo_admitted)"
  using admission_idempotent [OF demo_admit, of 9 demo_fresh] by (simp add: demo_input_def obj_get_def)

theorem claim_revives_canceled_witness:
  "\<exists>s1. requestCancel 2 ''u'' ''i'' demo_admitted = Inr s1 \<and>
     (\<exists>r \<in> set (db_invocations s1). av_id r = ''i'' \<and> av_status r = Inv_canceled \<and>
        (\<exists>r' \<in> set (db_invocations (snd (claim_write ''w'' 3 ''i'' Claim_lease s1))). av_id r' = ''i'' \<and> av_status r' = Inv_leased \<and>
           av_reservesThread r' \<and> av_cancelRequestedAt r' \<noteq> None))"
proof -
  have read: "claim_read 1 True 2 ''i'' demo_admitted = Claim_lease"
    by code_simp
  obtain s1 where s1: "requestCancel 2 ''u'' ''i'' demo_admitted = Inr s1"
  proof (cases "requestCancel 2 ''u'' ''i'' demo_admitted")
    case (Inl e)
    then show thesis
      by (simp add: requestCancel_def requestCancelInTransaction_def demo_admitted_def demo_pending_def)
  qed
  then show ?thesis
    using claim_revives_canceled [OF reachable_admitted read s1, of "''w''" 3] by blast
qed

end
