(* ===== verification/TerminalOutput.thy ===== *)
theory TerminalOutput
  imports EventBus Bytes
begin

text \<open>
  The durable output of terminals, \<open>service/src/runtime/terminal/output-store.ts\<close>, the stream route that
  resumes a client from it (\<open>routes/threads/terminal.ts\<close>) and the client's side of the resume
  (\<open>web/src/features/threads/terminal-resume.ts\<close>).

  Output arrives from the daemon in frames at byte offsets and is stored by session and offset.  Offsets
  and sizes are naturals: the frame schema admits no others, and the readers clamp what they are given.
  Each query of a read sees the table as it is then: reads take the tables as a function of the number of
  the query.
\<close>

section \<open>Persistence\<close>

record out_chunk =
  oc_sessionId :: string
  oc_byteOffset :: nat
  oc_data :: "byte list"

definition chunk_end :: "out_chunk \<Rightarrow> nat" where
  "chunk_end c = oc_byteOffset c + length (oc_data c)"

text \<open>The rows of a session, \<open>ORDER BY byte_offset\<close>.\<close>

definition session_chunks :: "string \<Rightarrow> out_chunk list \<Rightarrow> out_chunk list" where
  "session_chunks sid tab = sort_key oc_byteOffset (filter (\<lambda>c. oc_sessionId c = sid) tab)"

definition insertChunk :: "string \<Rightarrow> nat \<Rightarrow> byte list \<Rightarrow> out_chunk list \<Rightarrow> bool \<times> out_chunk list" where
  "insertChunk sid off data tab =
     (if \<exists>c \<in> set tab. oc_sessionId c = sid \<and> oc_byteOffset c = off then (False, tab)
      else (True, tab @ [\<lparr>oc_sessionId = sid, oc_byteOffset = off, oc_data = data\<rparr>]))"

definition getStoredOutputBytes :: "string \<Rightarrow> out_chunk list \<Rightarrow> nat" where
  "getStoredOutputBytes sid tab = sum_list (map (length \<circ> oc_data) (filter (\<lambda>c. oc_sessionId c = sid) tab))"

definition findCoveringChunk :: "string \<Rightarrow> nat \<Rightarrow> out_chunk list \<Rightarrow> out_chunk option" where
  "findCoveringChunk sid off tab =
     (case rev (filter (\<lambda>c. oc_byteOffset c \<le> off) (session_chunks sid tab)) of [] \<Rightarrow> None | c # _ \<Rightarrow> Some c)"

definition listChunksFrom :: "string \<Rightarrow> nat \<Rightarrow> nat \<Rightarrow> nat option \<Rightarrow> out_chunk list \<Rightarrow> out_chunk list" where
  "listChunksFrom sid from_off limit before tab =
     take limit (filter (\<lambda>c. from_off \<le> oc_byteOffset c \<and> (case before of None \<Rightarrow> True | Some b \<Rightarrow> oc_byteOffset c < b))
       (session_chunks sid tab))"

definition listTailChunks :: "string \<Rightarrow> nat option \<Rightarrow> nat \<Rightarrow> out_chunk list \<Rightarrow> out_chunk list" where
  "listTailChunks sid before limit tab =
     take limit (rev (filter (\<lambda>c. case before of None \<Rightarrow> True | Some b \<Rightarrow> oc_byteOffset c < b) (session_chunks sid tab)))"

definition getStoredEndOffset :: "string \<Rightarrow> out_chunk list \<Rightarrow> nat" where
  "getStoredEndOffset sid tab = fold max (map chunk_end (filter (\<lambda>c. oc_sessionId c = sid) tab)) 0"

text \<open>One batch of \<open>pruneOldestChunks\<close>: how much is removed and the offset up to which rows go.\<close>

fun prune_scan :: "nat \<Rightarrow> nat \<Rightarrow> out_chunk list \<Rightarrow> nat \<times> nat option" where
  "prune_scan target removed [] = (removed, None)"
| "prune_scan target removed (c # cs) =
     (let removed' = removed + length (oc_data c)
      in if target \<le> removed' then (removed', Some (oc_byteOffset c))
         else case prune_scan target removed' cs of
                (r, None) \<Rightarrow> (r, Some (oc_byteOffset c))
              | (r, Some off) \<Rightarrow> (r, Some off))"

definition delete_through :: "string \<Rightarrow> nat \<Rightarrow> out_chunk list \<Rightarrow> out_chunk list" where
  "delete_through sid cutoff tab = filter (\<lambda>c. \<not> (oc_sessionId c = sid \<and> oc_byteOffset c \<le> cutoff)) tab"

definition PRUNE_BATCH_ROWS :: nat where
  "PRUNE_BATCH_ROWS = 512"

function prune_loop :: "string \<Rightarrow> nat \<Rightarrow> nat \<Rightarrow> out_chunk list \<Rightarrow> nat \<times> out_chunk list" where
  "prune_loop sid target removed tab =
     (if target \<le> removed then (removed, tab)
      else let rows = take PRUNE_BATCH_ROWS (session_chunks sid tab)
           in case prune_scan target removed rows of
                (removed', None) \<Rightarrow> (removed', tab)
              | (removed', Some cutoff) \<Rightarrow>
                  (let tab' = delete_through sid cutoff tab
                   in if removed' < target \<and> length rows < PRUNE_BATCH_ROWS then (removed', tab')
                      else prune_loop sid target removed' tab'))"
  by pat_completeness auto

lemma prune_scan_cutoff: "prune_scan target removed cs = (r, Some off) \<Longrightarrow> \<exists>c \<in> set cs. oc_byteOffset c = off"
  by (induction cs arbitrary: removed) (auto simp: Let_def split: if_splits option.splits prod.splits)

lemma delete_through_shrinks:
  "prune_scan target removed (take n (session_chunks sid tab)) = (r, Some cutoff) \<Longrightarrow> length (delete_through sid cutoff tab) < length tab"
proof -
  assume "prune_scan target removed (take n (session_chunks sid tab)) = (r, Some cutoff)"
  then obtain c where "c \<in> set (take n (session_chunks sid tab))" "oc_byteOffset c = cutoff"
    using prune_scan_cutoff by blast
  then have "c \<in> set tab" "oc_sessionId c = sid" "oc_byteOffset c \<le> cutoff"
    by (auto simp: session_chunks_def dest: in_set_takeD)
  then show ?thesis
    unfolding delete_through_def by (intro length_filter_less [of c]) auto
qed

termination prune_loop
  by (relation "measure (\<lambda>(_, _, _, tab). length tab)") (auto intro: delete_through_shrinks [OF sym])

declare prune_loop.simps [simp del]

definition pruneOldestChunks :: "string \<Rightarrow> nat \<Rightarrow> out_chunk list \<Rightarrow> nat \<times> out_chunk list" where
  "pruneOldestChunks sid minBytesToRemove tab = prune_loop sid minBytesToRemove 0 tab"

section \<open>Reading a range\<close>

definition READ_BATCH_ROWS :: nat where
  "READ_BATCH_ROWS = 128"

record range_read =
  rr_data :: "byte list"
  rr_first :: "nat option"
  rr_consumedEnd :: nat
  rr_remaining :: nat
  rr_truncated :: bool

text \<open>The part of a chunk inside the range, with its offset.\<close>

definition range_slice :: "nat \<Rightarrow> nat option \<Rightarrow> out_chunk \<Rightarrow> nat \<times> byte list" where
  "range_slice start rangeEnd c =
     (let sliceStart = max start (oc_byteOffset c);
          part = drop (start - oc_byteOffset c) (oc_data c)
      in (sliceStart, case rangeEnd of None \<Rightarrow> part | Some e \<Rightarrow> take (e - sliceStart) part))"

definition pushSlice :: "nat \<Rightarrow> nat option \<Rightarrow> out_chunk \<Rightarrow> range_read \<Rightarrow> bool \<times> range_read" where
  "pushSlice start rangeEnd c r =
     (case range_slice start rangeEnd c of
        (sliceStart, part) \<Rightarrow>
          if part = [] then (True, r)
          else if rr_remaining r = 0 then (False, r\<lparr>rr_truncated := True\<rparr>)
          else let tooLong = length part > rr_remaining r;
                   part' = take (rr_remaining r) part;
                   r' = r\<lparr>rr_truncated := rr_truncated r \<or> tooLong,
                          rr_first := (case rr_first r of None \<Rightarrow> Some sliceStart | Some f \<Rightarrow> Some f),
                          rr_data := rr_data r @ part', rr_consumedEnd := sliceStart + length part',
                          rr_remaining := rr_remaining r - length part'\<rparr>
               in (\<not> rr_truncated r', r'))"

fun push_rows :: "nat \<Rightarrow> nat option \<Rightarrow> out_chunk list \<Rightarrow> range_read \<Rightarrow> range_read" where
  "push_rows start rangeEnd [] r = r"
| "push_rows start rangeEnd (c # cs) r =
     (case pushSlice start rangeEnd c r of (True, r') \<Rightarrow> push_rows start rangeEnd cs r' | (False, r') \<Rightarrow> r')"

text \<open>The first query: the chunk that contains the start.\<close>

definition read_start :: "string \<Rightarrow> nat \<Rightarrow> nat option \<Rightarrow> nat \<Rightarrow> out_chunk list \<Rightarrow> range_read \<times> nat" where
  "read_start sid start rangeEnd maxBytes tab =
     (let r = \<lparr>rr_data = [], rr_first = None, rr_consumedEnd = start, rr_remaining = maxBytes, rr_truncated = False\<rparr>
      in case findCoveringChunk sid start tab of
           None \<Rightarrow> (r, start)
         | Some c \<Rightarrow> if chunk_end c > start then (snd (pushSlice start rangeEnd c r), chunk_end c) else (r, start))"

definition read_more :: "nat option \<Rightarrow> range_read \<Rightarrow> nat \<Rightarrow> bool" where
  "read_more rangeEnd r scanFrom \<longleftrightarrow> \<not> rr_truncated r \<and> (case rangeEnd of None \<Rightarrow> True | Some e \<Rightarrow> scanFrom < e)"

text \<open>One page: the rows of a query, and whether the loop stops after it.\<close>

definition read_page :: "string \<Rightarrow> nat \<Rightarrow> nat option \<Rightarrow> out_chunk list \<Rightarrow> range_read \<Rightarrow> nat \<Rightarrow> bool \<times> range_read \<times> nat" where
  "read_page sid start rangeEnd tab r scanFrom =
     (let rows = listChunksFrom sid scanFrom READ_BATCH_ROWS rangeEnd tab
      in if rows = [] then (True, r, scanFrom)
         else let r' = push_rows start rangeEnd rows r;
                  c = last rows
              in (length rows < READ_BATCH_ROWS, r', oc_byteOffset c + max (length (oc_data c)) 1))"

fun read_pages :: "nat \<Rightarrow> string \<Rightarrow> nat \<Rightarrow> nat option \<Rightarrow> (nat \<Rightarrow> out_chunk list) \<Rightarrow> nat \<Rightarrow> range_read \<Rightarrow> nat \<Rightarrow> range_read option" where
  "read_pages 0 sid start rangeEnd tabs n r scanFrom = None"
| "read_pages (Suc fuel) sid start rangeEnd tabs n r scanFrom =
     (if \<not> read_more rangeEnd r scanFrom then Some r
      else case read_page sid start rangeEnd (tabs n) r scanFrom of
             (True, r', _) \<Rightarrow> Some r'
           | (False, r', scanFrom') \<Rightarrow> read_pages fuel sid start rangeEnd tabs (Suc n) r' scanFrom')"

record range_result =
  rg_data :: "byte list"
  rg_startOffset :: nat
  rg_endOffset :: nat
  rg_truncated :: bool
  rg_nextOffset :: "nat option"

definition range_result_of :: "nat \<Rightarrow> range_read \<Rightarrow> range_result" where
  "range_result_of start r =
     \<lparr>rg_data = rr_data r, rg_startOffset = (case rr_first r of None \<Rightarrow> start | Some f \<Rightarrow> f), rg_endOffset = rr_consumedEnd r,
      rg_truncated = rr_truncated r, rg_nextOffset = (if rr_truncated r then Some (rr_consumedEnd r) else None)\<rparr>"

definition readRange :: "nat \<Rightarrow> string \<Rightarrow> int \<Rightarrow> int option \<Rightarrow> int \<Rightarrow> (nat \<Rightarrow> out_chunk list) \<Rightarrow> range_result option" where
  "readRange fuel sid startOffset endOffset maxBytes tabs =
     (let start = nat startOffset;
          rangeEnd = map_option (\<lambda>e. max start (nat e)) endOffset
      in case read_start sid start rangeEnd (nat maxBytes) (tabs 0) of
           (r, scanFrom) \<Rightarrow> map_option (range_result_of start) (read_pages fuel sid start rangeEnd tabs 1 r scanFrom))"

section \<open>Reading the tail\<close>

text \<open>The rows of one page, newest first, until the budget is served.\<close>

fun take_budget :: "nat \<Rightarrow> out_chunk list \<Rightarrow> out_chunk list \<Rightarrow> nat \<Rightarrow> out_chunk list \<times> nat" where
  "take_budget budget [] collected bytes = (collected, bytes)"
| "take_budget budget (c # cs) collected bytes =
     (let bytes' = bytes + length (oc_data c)
      in if budget \<le> bytes' then (c # collected, bytes') else take_budget budget cs (c # collected) bytes')"

text \<open>\<open>collected\<close> is kept in ascending order; the code reverses it at the end.\<close>

fun tail_pages :: "nat \<Rightarrow> string \<Rightarrow> nat \<Rightarrow> (nat \<Rightarrow> out_chunk list) \<Rightarrow> nat \<Rightarrow> nat option \<Rightarrow> out_chunk list \<Rightarrow> nat \<Rightarrow>
    (out_chunk list \<times> nat) option" where
  "tail_pages 0 sid budget tabs n before collected bytes = None"
| "tail_pages (Suc fuel) sid budget tabs n before collected bytes =
     (if budget \<le> bytes then Some (collected, n)
      else let rows = listTailChunks sid before READ_BATCH_ROWS (tabs n)
           in if rows = [] then Some (collected, Suc n)
              else case take_budget budget rows collected bytes of
                     (collected', bytes') \<Rightarrow>
                       if length rows < READ_BATCH_ROWS then Some (collected', Suc n)
                       else tail_pages fuel sid budget tabs (Suc n) (Some (oc_byteOffset (hd collected'))) collected' bytes')"

record tail_result =
  tl_data :: "byte list"
  tl_startOffset :: nat
  tl_endOffset :: nat
  tl_totalBytesStored :: nat

definition tailOutput :: "nat \<Rightarrow> string \<Rightarrow> int \<Rightarrow> (nat \<Rightarrow> out_chunk list) \<Rightarrow> tail_result option" where
  "tailOutput fuel sid maxBytes tabs =
     (let budget = nat maxBytes
      in case tail_pages fuel sid budget tabs 0 None [] 0 of
           None \<Rightarrow> None
         | Some (collected, n) \<Rightarrow>
             (let combined = concat (map oc_data collected);
                  start = (if collected = [] then 0 else oc_byteOffset (hd collected));
                  excess = length combined - budget
              in Some \<lparr>tl_data = drop excess combined, tl_startOffset = start + excess,
                   tl_endOffset = (if collected = [] then 0 else chunk_end (last collected)),
                   tl_totalBytesStored = getStoredOutputBytes sid (tabs n)\<rparr>))"

section \<open>Ingest\<close>

record terminal_stats =
  tm_sessionId :: string
  tm_totalOutputBytes :: nat
  tm_outputLogBytes :: nat
  tm_lastOutputAt :: "int option"
  tm_lastActivityAt :: "int option"

record output_store =
  os_chunks :: "out_chunk list"
  os_sessions :: "terminal_stats list"
  os_lastOffsets :: "(string \<times> nat) list"
  os_retainedBytes :: "(string \<times> int) list"
  os_bus :: sse_bus

definition getLastOffset :: "string \<Rightarrow> output_store \<Rightarrow> nat" where
  "getLastOffset sid s = (case map_of (os_lastOffsets s) sid of None \<Rightarrow> 0 | Some n \<Rightarrow> n)"

definition clearSessionCache :: "string \<Rightarrow> output_store \<Rightarrow> output_store" where
  "clearSessionCache sid s = s\<lparr>os_lastOffsets := AList.delete sid (os_lastOffsets s)\<rparr>"

definition clearSessionCaches :: "string list \<Rightarrow> output_store \<Rightarrow> output_store" where
  "clearSessionCaches sids s = foldl (\<lambda>s sid. clearSessionCache sid s) s sids"

definition bumpOutputStats :: "string \<Rightarrow> nat \<Rightarrow> nat \<Rightarrow> int \<Rightarrow> terminal_stats list \<Rightarrow> terminal_stats list" where
  "bumpOutputStats sid totalDelta storedDelta now rows =
     map (\<lambda>r. if tm_sessionId r = sid
       then r\<lparr>tm_totalOutputBytes := tm_totalOutputBytes r + totalDelta, tm_outputLogBytes := tm_outputLogBytes r + storedDelta,
              tm_lastOutputAt := Some now, tm_lastActivityAt := Some now\<rparr> else r) rows"

definition output_event :: "nat \<Rightarrow> byte list \<Rightarrow> sse_event" where
  "output_event off data =
     \<lparr>ev_event = ''terminal.output'', ev_data = [(''data'', JStr (b64_encode data)), (''byte_offset'', JInt (int off))],
      ev_id = Some (show_nat (off + length data))\<rparr>"

text \<open>The three parts of an ingest between which other tasks may run: the insertion, the accounting and
  pruning, and the emission.\<close>

definition observe_offset :: "string \<Rightarrow> nat \<Rightarrow> output_store \<Rightarrow> output_store" where
  "observe_offset sid endOffset s =
     (if endOffset > getLastOffset sid s then s\<lparr>os_lastOffsets := AList.update sid endOffset (os_lastOffsets s)\<rparr> else s)"

definition retain :: "nat \<Rightarrow> string \<Rightarrow> nat \<Rightarrow> output_store \<Rightarrow> output_store" where
  "retain cap sid len s =
     (let retained = (case map_of (os_retainedBytes s) sid of Some n \<Rightarrow> n | None \<Rightarrow> int (getStoredOutputBytes sid (os_chunks s))) + int len
      in if retained > int cap
         then case pruneOldestChunks sid (nat (retained - int cap)) (os_chunks s) of
                (removed, tab) \<Rightarrow> s\<lparr>os_chunks := tab, os_retainedBytes := AList.update sid (retained - int removed) (os_retainedBytes s)\<rparr>
         else s\<lparr>os_retainedBytes := AList.update sid retained (os_retainedBytes s)\<rparr>)"

text \<open>\<open>onOutputObserved\<close> only informs the dispatcher of pending requests.  The frame's text is base64.\<close>

definition handleTerminalOutput :: "nat \<Rightarrow> int \<Rightarrow> string \<Rightarrow> string \<Rightarrow> nat \<Rightarrow> output_store \<Rightarrow> output_store" where
  "handleTerminalOutput cap now sid data off s =
     (let buffer = b64_decode data;
          s1 = observe_offset sid (off + length buffer) s
      in if buffer = [] then s1
         else case insertChunk sid off buffer (os_chunks s1) of
                (False, _) \<Rightarrow> s1
              | (True, tab) \<Rightarrow>
                  (let s2 = s1\<lparr>os_chunks := tab, os_sessions := bumpOutputStats sid (length buffer) (length buffer) now (os_sessions s1)\<rparr>;
                       s3 = retain cap sid (length buffer) s2
                   in s3\<lparr>os_bus := bus_emit sid (output_event off buffer) None (os_bus s3)\<rparr>))"

end
