(* ===== verification/TerminalStream.thy ===== *)
theory TerminalStream
  imports TerminalOutput Questions
begin

text \<open>
  The stream of a terminal's output to a browser: the route of \<open>service/src/routes/threads/terminal.ts\<close>
  that resumes a client from the stored output and then forwards what is emitted, and the client's
  cursor (\<open>web/src/features/threads/terminal-resume.ts\<close>, \<open>handleOutput\<close> of
  \<open>use-terminal-session.ts\<close>).  The two and the ingest of output run as tasks whose interleavings are
  the step relation at the end.
\<close>

section \<open>Numbers in strings\<close>

text \<open>\<open>Number(s)\<close> of a string.  The result is exact: rounding, which starts above \<open>2 ^ 53\<close>, is left out.\<close>

definition digit_of :: "nat \<Rightarrow> char \<Rightarrow> nat option" where
  "digit_of base c =
     (let b = of_char c :: nat;
          d = (if 48 \<le> b \<and> b \<le> 57 then b - 48 else if 97 \<le> b \<and> b \<le> 122 then b - 87
               else if 65 \<le> b \<and> b \<le> 90 then b - 55 else base)
      in if d < base then Some d else None)"

definition is_digit :: "char \<Rightarrow> bool" where
  "is_digit c \<longleftrightarrow> digit_of 10 c \<noteq> None"

fun digits_value :: "nat \<Rightarrow> nat \<Rightarrow> string \<Rightarrow> nat option" where
  "digits_value base acc [] = Some acc"
| "digits_value base acc (c # cs) =
     (case digit_of base c of None \<Rightarrow> None | Some d \<Rightarrow> digits_value base (acc * base + d) cs)"

definition all_digits :: "string \<Rightarrow> bool" where
  "all_digits s \<longleftrightarrow> s \<noteq> [] \<and> list_all is_digit s"

definition decimal_value :: "string \<Rightarrow> nat" where
  "decimal_value s = (case digits_value 10 0 s of None \<Rightarrow> 0 | Some n \<Rightarrow> n)"

definition exponent_value :: "string \<Rightarrow> int option" where
  "exponent_value s =
     (case s of
        [] \<Rightarrow> Some 0
      | c # r \<Rightarrow>
          if c = CHR ''e'' \<or> c = CHR ''E''
          then if starts_with ''-'' r then if all_digits (tl r) then Some (- int (decimal_value (tl r))) else None
               else let r' = (if starts_with ''+'' r then tl r else r)
                    in if all_digits r' then Some (int (decimal_value r')) else None
          else None)"

definition unsigned_value :: "string \<Rightarrow> js_number" where
  "unsigned_value r =
     (if r = ''Infinity'' then PosInf
      else let ip = takeWhile is_digit r;
               r1 = dropWhile is_digit r;
               fp = (if starts_with ''.'' r1 then takeWhile is_digit (tl r1) else []);
               r2 = (if starts_with ''.'' r1 then dropWhile is_digit (tl r1) else r1)
           in if ip = [] \<and> fp = [] then NaN
              else case exponent_value r2 of
                     None \<Rightarrow> NaN
                   | Some e \<Rightarrow> Fin ((of_nat (decimal_value ip) + of_nat (decimal_value fp) / 10 ^ length fp)
                                 * (if 0 \<le> e then 10 ^ nat e else 1 / 10 ^ nat (- e))))"

fun js_negate :: "js_number \<Rightarrow> js_number" where
  "js_negate (Fin x) = Fin (- x)"
| "js_negate NaN = NaN"
| "js_negate PosInf = NegInf"
| "js_negate NegInf = PosInf"

definition based_value :: "nat \<Rightarrow> string \<Rightarrow> js_number" where
  "based_value base s =
     (if s = [] then NaN else case digits_value base 0 s of None \<Rightarrow> NaN | Some n \<Rightarrow> Fin (of_nat n))"

definition number_of_string :: "string \<Rightarrow> js_number" where
  "number_of_string s =
     (let t = js_trim s
      in if t = [] then Fin 0
         else if starts_with ''0x'' t \<or> starts_with ''0X'' t then based_value 16 (drop 2 t)
         else if starts_with ''0o'' t \<or> starts_with ''0O'' t then based_value 8 (drop 2 t)
         else if starts_with ''0b'' t \<or> starts_with ''0B'' t then based_value 2 (drop 2 t)
         else if starts_with ''-'' t then js_negate (unsigned_value (tl t))
         else if starts_with ''+'' t then unsigned_value (tl t)
         else unsigned_value t)"

section \<open>The client's cursor\<close>

datatype connect_plan = SnapshotMode | ResumeMode nat

definition planTerminalConnect :: "bool \<Rightarrow> nat option \<Rightarrow> connect_plan" where
  "planTerminalConnect snapshotRequired appliedOffset =
     (if snapshotRequired then SnapshotMode
      else case appliedOffset of None \<Rightarrow> SnapshotMode | Some n \<Rightarrow> ResumeMode n)"

definition parseOffset :: "string option \<Rightarrow> nat option" where
  "parseOffset raw =
     (case raw of
        None \<Rightarrow> None
      | Some s \<Rightarrow>
          if js_trim s = [] then None
          else let v = number_of_string s
               in if \<not> is_integer v \<or> js_less v (Fin 0) then None else Some (nat (js_floor v)))"

definition resolveOutputEndOffset :: "string option \<Rightarrow> json \<Rightarrow> nat \<Rightarrow> nat option" where
  "resolveOutputEndOffset lastEventId byteOffset decodedByteLength =
     (case parseOffset lastEventId of
        Some n \<Rightarrow> Some n
      | None \<Rightarrow>
          (case byteOffset of
             JNum v \<Rightarrow> if is_integer v \<and> \<not> js_less v (Fin 0) then Some (nat (js_floor v) + decodedByteLength) else None
           | _ \<Rightarrow> None))"

definition advanceAppliedOffset :: "nat option \<Rightarrow> nat option \<Rightarrow> nat option" where
  "advanceAppliedOffset current eventEndOffset =
     (case eventEndOffset of
        None \<Rightarrow> current
      | Some e \<Rightarrow> (case current of None \<Rightarrow> Some e | Some c \<Rightarrow> Some (max c e)))"

text \<open>The client: what it has written to its terminal since the last snapshot, its cursor, and the
  \<open>EventSource\<close>: the \<open>from_offset\<close> of its URL and the last event id it has seen.\<close>

record term_client =
  tc_shown :: "byte list"
  tc_applied :: "nat option"
  tc_url :: "string option"
  tc_lastEventId :: "string option"

text \<open>\<open>handleOutput\<close> of the byte renderer.  The decoder turns the bytes into text piece by piece; here the
  terminal keeps the bytes.\<close>

definition handleOutput :: "sse_event \<Rightarrow> term_client \<Rightarrow> term_client" where
  "handleOutput e c =
     (let lastId = (case ev_id e of None \<Rightarrow> tc_lastEventId c | Some i \<Rightarrow> Some i);
          c1 = c\<lparr>tc_lastEventId := lastId\<rparr>
      in if ev_event e \<noteq> ''terminal.output'' then c1
         else case obj_get (ev_data e) ''data'' of
                JStr d \<Rightarrow>
                  if d = [] then c1
                  else let bytes = b64_decode d
                       in c1\<lparr>tc_applied := advanceAppliedOffset (tc_applied c1)
                               (resolveOutputEndOffset lastId (obj_get (ev_data e) ''byte_offset'') (length bytes)),
                             tc_shown := tc_shown c1 @ bytes\<rparr>
              | _ \<Rightarrow> c1)"

text \<open>\<open>attachStream\<close>: a new \<open>EventSource\<close> whose URL carries the cursor; and a snapshot, which replaces the
  contents of the terminal and the cursor and closes the \<open>EventSource\<close>.\<close>

definition attachStream :: "term_client \<Rightarrow> term_client" where
  "attachStream c = c\<lparr>tc_url := map_option show_nat (tc_applied c), tc_lastEventId := None\<rparr>"

definition applySnapshot :: "nat \<Rightarrow> term_client \<Rightarrow> term_client" where
  "applySnapshot ringNextOffset c =
     c\<lparr>tc_shown := [], tc_applied := Some ringNextOffset, tc_url := None, tc_lastEventId := None\<rparr>"

section \<open>The stream route\<close>

definition maxResumeCursor :: "string option \<Rightarrow> string option \<Rightarrow> string option" where
  "maxResumeCursor a b =
     (let num = (\<lambda>v. case v of None \<Rightarrow> None | Some s \<Rightarrow> if all_digits s then Some (decimal_value s) else None)
      in case (num a, num b) of
           (None, None) \<Rightarrow> (case a of None \<Rightarrow> b | Some s \<Rightarrow> Some s)
         | (None, Some n) \<Rightarrow> Some (show_nat n)
         | (Some n, None) \<Rightarrow> Some (show_nat n)
         | (Some n, Some k) \<Rightarrow> Some (show_nat (max n k)))"

definition parseOffsetEventId :: "string option \<Rightarrow> nat option" where
  "parseOffsetEventId value =
     (case value of
        None \<Rightarrow> None
      | Some s \<Rightarrow>
          if \<not> all_digits s then None
          else if int (decimal_value s) \<le> MAX_SAFE_INTEGER then Some (decimal_value s) else None)"

definition readLastEventId :: "string option \<Rightarrow> string option \<Rightarrow> string option" where
  "readLastEventId queryValue header =
     (case queryValue of
        Some q \<Rightarrow> if q \<noteq> [] then Some q else (case header of Some h \<Rightarrow> if h \<noteq> [] then Some h else None | None \<Rightarrow> None)
      | None \<Rightarrow> (case header of Some h \<Rightarrow> if h \<noteq> [] then Some h else None | None \<Rightarrow> None))"

text \<open>Where the handler stands: about to read from a cursor, between the pages of a read, with a read that is
  complete but not yet sent, or past the replay.\<close>

datatype replay_phase =
    ReadFrom nat
  | Paging nat range_read nat
  | Served nat range_read
  | Replayed

record term_conn =
  tn_forwardedEnd :: nat
  tn_queued :: "sse_event list"
  tn_phase :: replay_phase
  tn_sent :: "sse_event list"

definition REPLAY_BYTES :: nat where
  "REPLAY_BYTES = 256 * 1024"

text \<open>The resume branch of the route.  Offsets on the bus are naturals.\<close>

definition open_stream :: "string option \<Rightarrow> string option \<Rightarrow> string option \<Rightarrow> term_conn option" where
  "open_stream from_offset last_event_id header =
     map_option (\<lambda>off. \<lparr>tn_forwardedEnd = off, tn_queued = [], tn_phase = ReadFrom off, tn_sent = []\<rparr>)
       (parseOffsetEventId (maxResumeCursor from_offset (readLastEventId last_event_id header)))"

definition sendEvent :: "sse_event \<Rightarrow> term_conn \<Rightarrow> term_conn" where
  "sendEvent e c =
     (if ev_event e = ''terminal.output''
      then case obj_get (ev_data e) ''byte_offset'' of
             JNum v \<Rightarrow>
               if js_less v (Fin (of_nat (tn_forwardedEnd c))) then c
               else let chunkBytes = (case obj_get (ev_data e) ''data'' of JStr d \<Rightarrow> length (b64_decode d) | _ \<Rightarrow> 0)
                    in c\<lparr>tn_forwardedEnd := nat (js_floor v) + chunkBytes, tn_sent := tn_sent c @ [e]\<rparr>
           | _ \<Rightarrow> c
      else c\<lparr>tn_sent := tn_sent c @ [e]\<rparr>)"

definition on_emit :: "sse_event \<Rightarrow> term_conn \<Rightarrow> term_conn" where
  "on_emit e c = (if tn_phase c = Replayed then sendEvent e c else c\<lparr>tn_queued := tn_queued c @ [e]\<rparr>)"

definition flush_queued :: "term_conn \<Rightarrow> term_conn" where
  "flush_queued c = foldl (\<lambda>c e. sendEvent e c) (c\<lparr>tn_phase := Replayed, tn_queued := []\<rparr>) (tn_queued c)"

text \<open>The event of a read.\<close>

definition replay_event :: "nat \<Rightarrow> byte list \<Rightarrow> nat \<Rightarrow> sse_event" where
  "replay_event start data endOffset =
     \<lparr>ev_event = ''terminal.output'', ev_data = [(''data'', JStr (b64_encode data)), (''byte_offset'', JInt (int start))],
      ev_id = Some (show_nat endOffset)\<rparr>"

definition send_read :: "range_result \<Rightarrow> term_conn \<Rightarrow> term_conn" where
  "send_read read c =
     (if rg_data read = [] then c
      else c\<lparr>tn_sent := tn_sent c @ [replay_event (rg_startOffset read) (rg_data read) (rg_endOffset read)],
             tn_forwardedEnd := max (tn_forwardedEnd c) (rg_endOffset read)\<rparr>)"

text \<open>One query of the replay, on the table as it is then, and the continuation after the last one.\<close>

definition replay_query :: "string \<Rightarrow> out_chunk list \<Rightarrow> term_conn \<Rightarrow> term_conn" where
  "replay_query sid tab c =
     (case tn_phase c of
        ReadFrom cursor \<Rightarrow>
          (case read_start sid cursor None REPLAY_BYTES tab of
             (r, scanFrom) \<Rightarrow> c\<lparr>tn_phase := (if read_more None r scanFrom then Paging cursor r scanFrom else Served cursor r)\<rparr>)
      | Paging cursor r scanFrom \<Rightarrow>
          (case read_page sid cursor None tab r scanFrom of
             (stop, r', scanFrom') \<Rightarrow>
               c\<lparr>tn_phase := (if \<not> stop \<and> read_more None r' scanFrom' then Paging cursor r' scanFrom' else Served cursor r')\<rparr>)
      | _ \<Rightarrow> c)"

definition replay_continue :: "term_conn \<Rightarrow> term_conn" where
  "replay_continue c =
     (case tn_phase c of
        Served cursor r \<Rightarrow>
          (let read = range_result_of cursor r;
               c1 = send_read read c
           in case rg_nextOffset read of
                None \<Rightarrow> flush_queued c1
              | Some nextOffset \<Rightarrow> c1\<lparr>tn_phase := ReadFrom nextOffset\<rparr>)
      | _ \<Rightarrow> c)"

section \<open>The system\<close>

text \<open>
  One session, its output and one client.  \<open>ss_emitting\<close> is the event of the frame that is stored and not
  yet emitted: the frames of a session are ingested one after the other
  (\<open>enqueueSessionIngest\<close>, \<open>runtime/terminal-session-manager.ts\<close>).  \<open>ss_output\<close>, the frames stored so far,
  \<open>ss_base\<close>, the offset of the last snapshot, and \<open>ss_gap\<close> are history: \<open>ss_gap\<close> says that since the
  snapshot a row that the client had not applied was pruned, or that a replay has failed.
\<close>

record stream_sys =
  ss_chunks :: "out_chunk list"
  ss_emitting :: "sse_event option"
  ss_conn :: "term_conn option"
  ss_client :: term_client
  ss_output :: "byte list list"
  ss_base :: nat
  ss_gap :: bool

definition output_end :: "stream_sys \<Rightarrow> nat" where
  "output_end s = length (concat (ss_output s))"

definition applied :: "stream_sys \<Rightarrow> nat" where
  "applied s = (case tc_applied (ss_client s) of None \<Rightarrow> 0 | Some n \<Rightarrow> n)"

text \<open>The daemon's frames follow one another without a gap; a frame that is stored already changes nothing.
  A snapshot is taken at an offset that is stored.\<close>

definition store_frame :: "string \<Rightarrow> byte list \<Rightarrow> stream_sys \<Rightarrow> stream_sys" where
  "store_frame sid data s =
     (let off = output_end s
      in case insertChunk sid off data (ss_chunks s) of
           (False, _) \<Rightarrow> s
         | (True, tab) \<Rightarrow> s\<lparr>ss_chunks := tab, ss_output := ss_output s @ [data], ss_emitting := Some (output_event off data)\<rparr>)"

definition prune_through :: "string \<Rightarrow> nat \<Rightarrow> stream_sys \<Rightarrow> stream_sys" where
  "prune_through sid cutoff s =
     s\<lparr>ss_chunks := delete_through sid cutoff (ss_chunks s),
       ss_gap := ss_gap s \<or> (\<exists>c \<in> set (ss_chunks s). oc_sessionId c = sid \<and> oc_byteOffset c \<le> cutoff \<and> applied s < chunk_end c)\<rparr>"

definition emit_frame :: "stream_sys \<Rightarrow> stream_sys" where
  "emit_frame s =
     (case ss_emitting s of
        None \<Rightarrow> s
      | Some e \<Rightarrow> s\<lparr>ss_emitting := None, ss_conn := map_option (on_emit e) (ss_conn s)\<rparr>)"

definition take_snapshot :: "string \<Rightarrow> nat \<Rightarrow> stream_sys \<Rightarrow> stream_sys" where
  "take_snapshot sid off s =
     s\<lparr>ss_client := applySnapshot off (ss_client s), ss_conn := None, ss_base := off,
       ss_gap := off < (case session_chunks sid (ss_chunks s) of [] \<Rightarrow> output_end s | c # _ \<Rightarrow> oc_byteOffset c)\<rparr>"

definition connect_new :: "stream_sys \<Rightarrow> stream_sys" where
  "connect_new s =
     (let cl = attachStream (ss_client s)
      in s\<lparr>ss_client := cl, ss_conn := open_stream (tc_url cl) None None\<rparr>)"

text \<open>The browser's own reconnection: the same URL, and the header.\<close>

definition connect_again :: "stream_sys \<Rightarrow> stream_sys" where
  "connect_again s = s\<lparr>ss_conn := open_stream (tc_url (ss_client s)) None (tc_lastEventId (ss_client s))\<rparr>"

definition query_step :: "string \<Rightarrow> stream_sys \<Rightarrow> stream_sys" where
  "query_step sid s = s\<lparr>ss_conn := map_option (replay_query sid (ss_chunks s)) (ss_conn s)\<rparr>"

definition continue_step :: "stream_sys \<Rightarrow> stream_sys" where
  "continue_step s = s\<lparr>ss_conn := map_option replay_continue (ss_conn s)\<rparr>"

text \<open>A query throws: the handler logs it and goes live.\<close>

definition fail_step :: "stream_sys \<Rightarrow> stream_sys" where
  "fail_step s =
     (case ss_conn s of
        None \<Rightarrow> s
      | Some c \<Rightarrow> if tn_phase c = Replayed then s else s\<lparr>ss_conn := Some (flush_queued c), ss_gap := True\<rparr>)"

definition deliver :: "stream_sys \<Rightarrow> stream_sys" where
  "deliver s =
     (case ss_conn s of
        None \<Rightarrow> s
      | Some c \<Rightarrow>
          (case tn_sent c of
             [] \<Rightarrow> s
           | e # es \<Rightarrow> s\<lparr>ss_conn := Some (c\<lparr>tn_sent := es\<rparr>), ss_client := handleOutput e (ss_client s)\<rparr>))"

definition disconnect :: "stream_sys \<Rightarrow> stream_sys" where
  "disconnect s = s\<lparr>ss_conn := None\<rparr>"

inductive stream_step :: "string \<Rightarrow> stream_sys \<Rightarrow> stream_sys \<Rightarrow> bool" for sid where
  store: "ss_emitting s = None \<Longrightarrow> data \<noteq> [] \<Longrightarrow> int (output_end s + length data) \<le> MAX_SAFE_INTEGER \<Longrightarrow>
    stream_step sid s (store_frame sid data s)"
| prune: "stream_step sid s (prune_through sid cutoff s)"
| emit: "stream_step sid s (emit_frame s)"
| snapshot: "off \<le> output_end s \<Longrightarrow> stream_step sid s (take_snapshot sid off s)"
| connect: "tc_applied (ss_client s) \<noteq> None \<Longrightarrow> stream_step sid s (connect_new s)"
| reconnect: "tc_url (ss_client s) \<noteq> None \<Longrightarrow> stream_step sid s (connect_again s)"
| query: "stream_step sid s (query_step sid s)"
| continue: "stream_step sid s (continue_step s)"
| fail: "stream_step sid s (fail_step s)"
| deliver: "stream_step sid s (deliver s)"
| disconnect: "stream_step sid s (disconnect s)"

definition stream_start :: stream_sys where
  "stream_start =
     \<lparr>ss_chunks = [], ss_emitting = None, ss_conn = None,
      ss_client = \<lparr>tc_shown = [], tc_applied = None, tc_url = None, tc_lastEventId = None\<rparr>,
      ss_output = [], ss_base = 0, ss_gap = False\<rparr>"

end
