(* ===== verification/TerminalOutputProps.thy ===== *)
theory TerminalOutputProps
  imports TerminalOutput "HOL-Library.Multiset"
begin

text \<open>
  What the terminal output store promises.  A read of a range, which trims a covering chunk and then
  pages through the rows, is compared with the reference definition over the stored bytes with their
  positions; the ingest of a frame is idempotent; and the retention bounds what is stored, keeping the
  newest output.
\<close>

section \<open>The bytes of a session and their positions\<close>

definition placed :: "out_chunk \<Rightarrow> (nat \<times> byte) list" where
  "placed c = zip [oc_byteOffset c ..< chunk_end c] (oc_data c)"

definition in_window :: "nat \<Rightarrow> nat option \<Rightarrow> nat \<Rightarrow> bool" where
  "in_window start rangeEnd p \<longleftrightarrow> start \<le> p \<and> (case rangeEnd of None \<Rightarrow> True | Some e \<Rightarrow> p < e)"

definition window_bytes :: "nat \<Rightarrow> nat option \<Rightarrow> out_chunk list \<Rightarrow> (nat \<times> byte) list" where
  "window_bytes start rangeEnd cs = filter (\<lambda>b. in_window start rangeEnd (fst b)) (concat (map placed cs))"

text \<open>The reference: the first \<open>maxBytes\<close> stored bytes of the range.\<close>

definition range_reference :: "nat \<Rightarrow> nat \<Rightarrow> (nat \<times> byte) list \<Rightarrow> range_result" where
  "range_reference start maxBytes bs =
     (let got = take maxBytes bs;
          end_off = (if got = [] then start else Suc (fst (last got)))
      in \<lparr>rg_data = map snd got, rg_startOffset = (if got = [] then start else fst (hd got)), rg_endOffset = end_off,
          rg_truncated = (maxBytes < length bs), rg_nextOffset = (if maxBytes < length bs then Some end_off else None)\<rparr>)"

text \<open>The rows of a session as the daemon's stream leaves them: not empty, in order and not overlapping.\<close>

definition chunks_wf :: "out_chunk list \<Rightarrow> bool" where
  "chunks_wf cs \<longleftrightarrow> list_all (\<lambda>c. oc_data c \<noteq> []) cs \<and> sorted_wrt (\<lambda>c d. chunk_end c \<le> oc_byteOffset d) cs"

lemma window_bytes_Nil [simp]: "window_bytes start rangeEnd [] = []"
  by (simp add: window_bytes_def)

lemma window_bytes_append [simp]:
  "window_bytes start rangeEnd (xs @ ys) = window_bytes start rangeEnd xs @ window_bytes start rangeEnd ys"
  by (simp add: window_bytes_def)

lemma window_bytes_Cons: "window_bytes start rangeEnd (c # cs) = window_bytes start rangeEnd [c] @ window_bytes start rangeEnd cs"
  by (simp add: window_bytes_def)

lemma zip_upt_window:
  "filter (\<lambda>b. s \<le> fst b \<and> fst b < e) (zip [off ..< off + length d] d)
     = (let part = take (e - max s off) (drop (s - off) d) in zip [max s off ..< max s off + length part] part)"
proof (induction d arbitrary: off)
  case Nil
  then show ?case by simp
next
  case (Cons x d)
  have unfold_upt: "zip [off ..< Suc (off + length d)] (x # d) = (off, x) # zip [Suc off ..< Suc (off + length d)] d"
    by (simp add: upt_conv_Cons del: upt_Suc)
  show ?case
  proof (cases "off < s")
    case True
    then have "s - off = Suc (s - Suc off)" "max s off = s" "max s (Suc off) = s"
      by auto
    then show ?thesis
      using Cons.IH [of "Suc off"] True by (simp add: unfold_upt Let_def del: upt_Suc)
  next
    case False
    then have bounds: "s - off = 0" "s - Suc off = 0" "max s off = off" "max s (Suc off) = Suc off"
      by auto
    show ?thesis
    proof (cases "off < e")
      case True
      then have "e - off = Suc (e - Suc off)"
        by auto
      then show ?thesis
        using Cons.IH [of "Suc off"] False True
        by (simp add: unfold_upt bounds Let_def upt_conv_Cons del: upt_Suc)
    next
      case beyond: False
      then show ?thesis
        using Cons.IH [of "Suc off"] False by (simp add: unfold_upt bounds Let_def del: upt_Suc)
    qed
  qed
qed

lemma zip_upt_from:
  "filter (\<lambda>b. s \<le> fst b) (zip [off ..< off + length d] d)
     = (let part = drop (s - off) d in zip [max s off ..< max s off + length part] part)"
proof -
  have "filter (\<lambda>b. s \<le> fst b) (zip [off ..< off + length d] d)
      = filter (\<lambda>b. s \<le> fst b \<and> fst b < max s off + length d) (zip [off ..< off + length d] d)"
    by (rule filter_cong) (auto dest!: set_zip_leftD)
  also have "\<dots> = (let part = drop (s - off) d in zip [max s off ..< max s off + length part] part)"
    by (simp add: zip_upt_window Let_def)
  finally show ?thesis .
qed

lemma window_bytes_chunk:
  "range_slice start rangeEnd c = (sliceStart, part) \<Longrightarrow>
   window_bytes start rangeEnd [c] = zip [sliceStart ..< sliceStart + length part] part"
  using zip_upt_window [of start _ "oc_byteOffset c" "oc_data c"] zip_upt_from [of start "oc_byteOffset c" "oc_data c"]
  by (cases rangeEnd) (auto simp: window_bytes_def in_window_def placed_def chunk_end_def range_slice_def Let_def)

section \<open>Reading a range\<close>

text \<open>The state of a read that has served the bytes \<open>seen\<close> of its range.\<close>

definition read_rel :: "nat \<Rightarrow> nat \<Rightarrow> (nat \<times> byte) list \<Rightarrow> range_read \<Rightarrow> bool" where
  "read_rel start maxBytes seen r \<longleftrightarrow>
     range_result_of start r = range_reference start maxBytes seen \<and> rr_remaining r = maxBytes - length seen
     \<and> (rr_first r = None) = (take maxBytes seen = [])"

lemma read_rel_truncated: "read_rel start maxBytes seen r \<Longrightarrow> rr_truncated r = (maxBytes < length seen)"
  by (simp add: read_rel_def range_result_of_def range_reference_def Let_def)

lemma range_reference_beyond:
  "maxBytes < length seen \<Longrightarrow> range_reference start maxBytes (seen @ bs) = range_reference start maxBytes seen"
  by (simp add: range_reference_def Let_def)

lemma read_rel_beyond: "read_rel start maxBytes seen r \<Longrightarrow> rr_truncated r \<Longrightarrow> read_rel start maxBytes (seen @ bs) r"
  using read_rel_truncated [of start maxBytes seen r] by (auto simp: read_rel_def range_reference_beyond)

lemma last_zip_upt: "part \<noteq> [] \<Longrightarrow> last (zip [s ..< s + length part] part) = (s + length part - 1, last part)"
  by (simp add: last_zip)

lemma read_rel_pushSlice:
  assumes rel: "read_rel start maxBytes seen r" and more: "\<not> rr_truncated r" and push: "pushSlice start rangeEnd c r = (b, r')"
  shows "read_rel start maxBytes (seen @ window_bytes start rangeEnd [c]) r' \<and> b = (\<not> rr_truncated r')"
proof -
  obtain sliceStart part where cut: "range_slice start rangeEnd c = (sliceStart, part)"
    by (cases "range_slice start rangeEnd c")
  note bytes = window_bytes_chunk [OF cut]
  have short: "length seen \<le> maxBytes"
    using read_rel_truncated [OF rel] more by simp
  consider (empty) "part = []" | (full) "part \<noteq> []" "rr_remaining r = 0" | (push) "part \<noteq> []" "rr_remaining r > 0"
    by blast
  then show ?thesis
  proof cases
    case empty
    then show ?thesis
      using rel more push cut bytes by (simp add: pushSlice_def)
  next
    case full
    then show ?thesis
      using rel more push cut bytes short
      by (auto simp: pushSlice_def read_rel_def range_result_of_def range_reference_def Let_def)
  next
    case serve: push
    define part' where "part' = take (rr_remaining r) part"
    have part': "part' \<noteq> []" and rem: "rr_remaining r = maxBytes - length seen"
      using serve rel by (auto simp: part'_def read_rel_def)
    have got: "take maxBytes (seen @ window_bytes start rangeEnd [c]) = seen @ zip [sliceStart ..< sliceStart + length part'] part'"
      using short by (simp add: bytes part'_def rem take_zip take_upt min_def)
    have r': "r' = r\<lparr>rr_truncated := rr_truncated r \<or> length part > rr_remaining r,
        rr_first := (case rr_first r of None \<Rightarrow> Some sliceStart | Some f \<Rightarrow> Some f),
        rr_data := rr_data r @ part', rr_consumedEnd := sliceStart + length part', rr_remaining := rr_remaining r - length part'\<rparr>"
      and b: "b = (\<not> rr_truncated r')"
      using push serve cut by (auto simp: pushSlice_def Let_def part'_def)
    have trunc: "(length part > rr_remaining r) = (maxBytes < length (seen @ window_bytes start rangeEnd [c]))"
      using short by (auto simp: bytes rem)
    have left: "rr_remaining r - length part' = maxBytes - length (seen @ window_bytes start rangeEnd [c])"
      using short by (auto simp: bytes rem part'_def)
    have first: "(case rr_first r of None \<Rightarrow> sliceStart | Some f \<Rightarrow> f) = fst (hd (seen @ zip [sliceStart ..< sliceStart + length part'] part'))"
      using rel short part'
      by (cases seen) (auto simp: read_rel_def range_result_of_def range_reference_def Let_def hd_zip split: option.splits)
    have "range_result_of start r' = range_reference start maxBytes (seen @ window_bytes start rangeEnd [c])"
      unfolding range_reference_def got Let_def
      using rel short part' more trunc first
      by (auto simp: r' range_result_of_def read_rel_def range_reference_def Let_def last_zip_upt split: option.splits)
    moreover have "take maxBytes (seen @ window_bytes start rangeEnd [c]) \<noteq> []"
      using part' unfolding got by simp
    ultimately show ?thesis
      unfolding read_rel_def b using left by (simp add: r' split: option.splits)
  qed
qed

lemma read_rel_push_rows:
  "read_rel start maxBytes seen r \<Longrightarrow> \<not> rr_truncated r \<Longrightarrow>
   read_rel start maxBytes (seen @ window_bytes start rangeEnd cs) (push_rows start rangeEnd cs r)"
proof (induction cs arbitrary: seen r)
  case Nil
  then show ?case by simp
next
  case (Cons c cs)
  obtain b r' where push: "pushSlice start rangeEnd c r = (b, r')"
    by (cases "pushSlice start rangeEnd c r")
  note one = read_rel_pushSlice [OF Cons.prems push]
  show ?case
    using Cons.IH [of "seen @ window_bytes start rangeEnd [c]" r'] read_rel_beyond [of start maxBytes "seen @ window_bytes start rangeEnd [c]" r'] one
    by (cases b) (simp_all add: push window_bytes_Cons [of start rangeEnd c cs])
qed

lemma window_bytes_outside:
  "list_all (\<lambda>c. chunk_end c \<le> start \<or> (case rangeEnd of None \<Rightarrow> False | Some e \<Rightarrow> e \<le> oc_byteOffset c)) cs \<Longrightarrow> window_bytes start rangeEnd cs = []"
  by (induction cs) (auto simp: window_bytes_def in_window_def placed_def filter_empty_conv dest!: set_zip_leftD split: option.splits)

lemma window_bytes_filter:
  "(\<And>c. c \<in> set cs \<Longrightarrow> \<not> P c \<Longrightarrow> window_bytes start rangeEnd [c] = []) \<Longrightarrow>
   window_bytes start rangeEnd (filter P cs) = window_bytes start rangeEnd cs"
proof (induction cs)
  case (Cons c cs)
  then show ?case
    using window_bytes_Cons [of start rangeEnd c cs] window_bytes_Cons [of start rangeEnd c "filter P cs"] by auto
qed simp

text \<open>The rows that a read has still to look at.\<close>

definition rows_from :: "string \<Rightarrow> nat \<Rightarrow> nat option \<Rightarrow> out_chunk list \<Rightarrow> out_chunk list" where
  "rows_from sid scanFrom rangeEnd tab =
     filter (\<lambda>c. scanFrom \<le> oc_byteOffset c \<and> (case rangeEnd of None \<Rightarrow> True | Some b \<Rightarrow> oc_byteOffset c < b)) (session_chunks sid tab)"

lemma chunks_wf_append:
  "chunks_wf (xs @ ys) \<longleftrightarrow> chunks_wf xs \<and> chunks_wf ys \<and> (\<forall>c \<in> set xs. \<forall>d \<in> set ys. chunk_end c \<le> oc_byteOffset d)"
  by (auto simp: chunks_wf_def sorted_wrt_append)

lemma chunks_wf_filter: "chunks_wf cs \<Longrightarrow> chunks_wf (filter P cs)"
  by (auto simp: chunks_wf_def sorted_wrt_filter list_all_iff)

lemma chunk_end_less: "chunks_wf cs \<Longrightarrow> c \<in> set cs \<Longrightarrow> oc_byteOffset c < chunk_end c"
  by (auto simp: chunks_wf_def chunk_end_def list_all_iff)

lemma filter_from_chunk:
  "chunks_wf (xs @ c # ys) \<Longrightarrow> filter (\<lambda>d. chunk_end c \<le> oc_byteOffset d) (xs @ c # ys) = ys"
proof -
  assume wf: "chunks_wf (xs @ c # ys)"
  have "\<not> chunk_end c \<le> oc_byteOffset d" if "d \<in> set (xs @ [c])" for d
    using wf that chunk_end_less [OF wf, of d] chunk_end_less [OF wf, of c]
    by (auto simp: chunks_wf_append)
  moreover have "chunk_end c \<le> oc_byteOffset d" if "d \<in> set ys" for d
    using wf that chunks_wf_append [of "xs @ [c]" ys] by simp
  ultimately show ?thesis
    by (auto simp: filter_empty_conv filter_id_conv)
qed

lemma rows_from_after:
  assumes "chunks_wf (session_chunks sid tab)" and rest: "rows_from sid scanFrom rangeEnd tab = xs @ c # ys"
  shows "rows_from sid (chunk_end c) rangeEnd tab = ys"
proof -
  have wf: "chunks_wf (xs @ c # ys)"
    unfolding rest [symmetric] rows_from_def by (rule chunks_wf_filter [OF assms(1)])
  have "c \<in> set (rows_from sid scanFrom rangeEnd tab)"
    using rest by simp
  then have start: "scanFrom \<le> oc_byteOffset c" "oc_byteOffset c < chunk_end c"
    using chunk_end_less [OF wf, of c] by (auto simp: rows_from_def)
  have "rows_from sid (chunk_end c) rangeEnd tab = filter (\<lambda>d. chunk_end c \<le> oc_byteOffset d) (rows_from sid scanFrom rangeEnd tab)"
    using start by (auto simp: rows_from_def intro!: filter_cong)
  then show ?thesis
    using filter_from_chunk [OF wf] rest by simp
qed

lemma listChunksFrom_rows: "listChunksFrom sid scanFrom limit rangeEnd tab = take limit (rows_from sid scanFrom rangeEnd tab)"
  by (simp add: listChunksFrom_def rows_from_def)

lemma rows_from_ended: "\<not> read_more rangeEnd r scanFrom \<Longrightarrow> \<not> rr_truncated r \<Longrightarrow> rows_from sid scanFrom rangeEnd tab = []"
  by (auto simp: read_more_def rows_from_def filter_empty_conv split: option.splits)

lemma read_pages_reference:
  assumes wf: "chunks_wf (session_chunks sid tab)"
  shows "read_rel start maxBytes seen r \<Longrightarrow> length (rows_from sid scanFrom rangeEnd tab) < fuel \<Longrightarrow>
    \<exists>r'. read_pages fuel sid start rangeEnd (\<lambda>_. tab) n r scanFrom = Some r'
      \<and> read_rel start maxBytes (seen @ window_bytes start rangeEnd (rows_from sid scanFrom rangeEnd tab)) r'"
proof (induction fuel arbitrary: n r scanFrom seen)
  case 0
  then show ?case by simp
next
  case (Suc fuel)
  let ?rest = "rows_from sid scanFrom rangeEnd tab"
  let ?rows = "take READ_BATCH_ROWS ?rest"
  let ?r' = "push_rows start rangeEnd ?rows r"
  consider (stop) "\<not> read_more rangeEnd r scanFrom" | (none) "read_more rangeEnd r scanFrom" "?rest = []"
    | (page) "read_more rangeEnd r scanFrom" "?rest \<noteq> []"
    by blast
  then show ?case
  proof cases
    case stop
    then show ?thesis
      using Suc.prems(1) read_rel_beyond rows_from_ended [OF stop] by (cases "rr_truncated r") auto
  next
    case none
    then show ?thesis
      using Suc.prems(1) by (simp add: read_page_def listChunksFrom_rows)
  next
    case page
    have rel: "read_rel start maxBytes (seen @ window_bytes start rangeEnd ?rows) ?r'"
      using page by (intro read_rel_push_rows Suc.prems(1)) (simp add: read_more_def)
    show ?thesis
    proof (cases "length ?rows < READ_BATCH_ROWS")
      case True
      then have "?rows = ?rest"
        by simp
      then show ?thesis
        using page True rel by (simp add: read_page_def listChunksFrom_rows Let_def)
    next
      case False
      define c where "c = last ?rows"
      have rows: "?rows \<noteq> []"
        using page by (simp add: READ_BATCH_ROWS_def)
      then have cut: "?rest = butlast ?rows @ c # drop READ_BATCH_ROWS ?rest"
        unfolding c_def using append_take_drop_id [of READ_BATCH_ROWS ?rest]
        by (metis append_assoc append_Cons append_Nil append_butlast_last_id)
      have rest': "rows_from sid (chunk_end c) rangeEnd tab = drop READ_BATCH_ROWS ?rest"
        by (rule rows_from_after [OF wf cut])
      have fuel: "length (rows_from sid (chunk_end c) rangeEnd tab) < fuel"
        using Suc.prems(2) page unfolding rest' by (cases ?rest) (simp_all add: READ_BATCH_ROWS_def)
      have "c \<in> set ?rest"
        by (subst cut) simp
      then have "c \<in> set (session_chunks sid tab)"
        by (simp add: rows_from_def)
      then have "oc_byteOffset c + max (length (oc_data c)) 1 = chunk_end c"
        using chunk_end_less [OF wf, of c] unfolding chunk_end_def by linarith
      moreover have "window_bytes start rangeEnd ?rows @ window_bytes start rangeEnd (drop READ_BATCH_ROWS ?rest) = window_bytes start rangeEnd ?rest"
        by (metis append_take_drop_id window_bytes_append)
      ultimately show ?thesis
        using Suc.IH [OF rel fuel, of "Suc n"] page False rows
        by (simp add: read_page_def listChunksFrom_rows Let_def rest' c_def [symmetric])
    qed
  qed
qed

lemma rows_from_window:
  "(\<And>c. c \<in> set (session_chunks sid tab) \<Longrightarrow> oc_byteOffset c < scanFrom \<Longrightarrow> chunk_end c \<le> start) \<Longrightarrow>
   window_bytes start rangeEnd (rows_from sid scanFrom rangeEnd tab) = window_bytes start rangeEnd (session_chunks sid tab)"
  unfolding rows_from_def
  by (rule window_bytes_filter, rule window_bytes_outside) (auto simp: not_le not_less split: option.splits)

lemma findCoveringChunk_Some:
  assumes "findCoveringChunk sid start tab = Some c"
  obtains xs ys where "session_chunks sid tab = xs @ c # ys" "oc_byteOffset c \<le> start" "\<forall>d \<in> set ys. start < oc_byteOffset d"
proof -
  obtain rest where "rev (filter (\<lambda>c. oc_byteOffset c \<le> start) (session_chunks sid tab)) = c # rest"
    using assms by (auto simp: findCoveringChunk_def split: list.splits)
  then have "filter (\<lambda>c. oc_byteOffset c \<le> start) (rev (session_chunks sid tab)) = c # rest"
    by (simp add: rev_filter)
  then obtain us vs where "rev (session_chunks sid tab) = us @ c # vs" "\<forall>d \<in> set us. \<not> oc_byteOffset d \<le> start" "oc_byteOffset c \<le> start"
    by (auto simp: filter_eq_Cons_iff)
  then show ?thesis
    by (intro that [of "rev vs" "rev us"]) (auto simp: rev_swap)
qed

lemma findCoveringChunk_None:
  "findCoveringChunk sid start tab = None \<Longrightarrow> c \<in> set (session_chunks sid tab) \<Longrightarrow> start < oc_byteOffset c"
  by (auto simp: findCoveringChunk_def filter_empty_conv not_le split: list.splits)

lemma read_start_reference:
  assumes wf: "chunks_wf (session_chunks sid tab)" and first: "read_start sid start rangeEnd maxBytes tab = (r, scanFrom)"
  shows "\<exists>seen. read_rel start maxBytes seen r
    \<and> seen @ window_bytes start rangeEnd (rows_from sid scanFrom rangeEnd tab) = window_bytes start rangeEnd (session_chunks sid tab)"
proof -
  define r0 where "r0 = \<lparr>rr_data = [], rr_first = None, rr_consumedEnd = start, rr_remaining = maxBytes, rr_truncated = False\<rparr>"
  have rel0: "read_rel start maxBytes [] r0"
    by (simp add: read_rel_def r0_def range_result_of_def range_reference_def)
  have no_cover: ?thesis
    if "(r, scanFrom) = (r0, start)" and below: "\<forall>c \<in> set (session_chunks sid tab). oc_byteOffset c < start \<longrightarrow> chunk_end c \<le> start"
    using rel0 rows_from_window [of sid tab start start rangeEnd] that by auto
  show ?thesis
  proof (cases "findCoveringChunk sid start tab")
    case None
    have "(r, scanFrom) = (r0, start)"
      using first None by (auto simp: read_start_def r0_def)
    moreover have "\<forall>c \<in> set (session_chunks sid tab). oc_byteOffset c < start \<longrightarrow> chunk_end c \<le> start"
      using findCoveringChunk_None [OF None] by fastforce
    ultimately show ?thesis
      by (rule no_cover)
  next
    case (Some c)
    then obtain xs ys where at: "session_chunks sid tab = xs @ c # ys" "oc_byteOffset c \<le> start" "\<forall>d \<in> set ys. start < oc_byteOffset d"
      by (rule findCoveringChunk_Some)
    have before: "chunk_end d \<le> start" if "d \<in> set xs" for d
      using wf at that by (fastforce simp: chunks_wf_append)
    show ?thesis
    proof (cases "chunk_end c > start")
      case False
      have "(r, scanFrom) = (r0, start)"
        using first Some False by (auto simp: read_start_def r0_def)
      then show ?thesis
        by (rule no_cover) (use False at before in auto)
    next
      case True
      have "rows_from sid (chunk_end c) rangeEnd tab = filter (\<lambda>d. case rangeEnd of None \<Rightarrow> True | Some b \<Rightarrow> oc_byteOffset d < b)
          (filter (\<lambda>d. chunk_end c \<le> oc_byteOffset d) (session_chunks sid tab))"
        by (simp add: rows_from_def)
      then have rows: "rows_from sid (chunk_end c) rangeEnd tab = filter (\<lambda>d. case rangeEnd of None \<Rightarrow> True | Some b \<Rightarrow> oc_byteOffset d < b) ys"
        unfolding at filter_from_chunk [OF wf [unfolded at]] .
      have "window_bytes start rangeEnd (rows_from sid (chunk_end c) rangeEnd tab) = window_bytes start rangeEnd ys"
        unfolding rows by (rule window_bytes_filter, rule window_bytes_outside) (auto simp: not_less split: option.splits)
      moreover have "window_bytes start rangeEnd xs = []"
        using before by (intro window_bytes_outside) (simp add: list_all_iff)
      moreover have "r = snd (pushSlice start rangeEnd c r0)" "scanFrom = chunk_end c"
        using first Some True by (auto simp: read_start_def r0_def)
      ultimately show ?thesis
        using read_rel_pushSlice [OF rel0, of rangeEnd c] window_bytes_Cons [of start rangeEnd c ys]
        by (cases "pushSlice start rangeEnd c r0") (auto simp: at r0_def)
    qed
  qed
qed

lemma rows_from_length: "length (rows_from sid scanFrom rangeEnd tab) \<le> length tab"
  unfolding rows_from_def session_chunks_def
  by (metis length_filter_le length_sort order_trans)

text \<open>C33: A read of a range returns the first bytes of the range that are stored, in order, with their offsets;
  it is truncated exactly when the range holds more than was asked for, and then the continuation starts
  after the last byte returned.  A read of a table of \<open>n\<close> rows makes at most \<open>n + 1\<close> queries for pages.\<close>

theorem readRange_reference:
  assumes "chunks_wf (session_chunks sid tab)" and "length tab < fuel"
  shows "readRange fuel sid startOffset endOffset maxBytes (\<lambda>_. tab)
     = Some (range_reference (nat startOffset) (nat maxBytes)
         (window_bytes (nat startOffset) (map_option (\<lambda>e. max (nat startOffset) (nat e)) endOffset) (session_chunks sid tab)))"
proof -
  define rangeEnd where "rangeEnd = map_option (\<lambda>e. max (nat startOffset) (nat e)) endOffset"
  obtain r scanFrom where first: "read_start sid (nat startOffset) rangeEnd (nat maxBytes) tab = (r, scanFrom)"
    by (cases "read_start sid (nat startOffset) rangeEnd (nat maxBytes) tab")
  obtain seen where seen: "read_rel (nat startOffset) (nat maxBytes) seen r"
      "seen @ window_bytes (nat startOffset) rangeEnd (rows_from sid scanFrom rangeEnd tab) = window_bytes (nat startOffset) rangeEnd (session_chunks sid tab)"
    using read_start_reference [OF assms(1) first] by blast
  have fuel: "length (rows_from sid scanFrom rangeEnd tab) < fuel"
    using rows_from_length [of sid scanFrom rangeEnd tab] assms(2) by linarith
  show ?thesis
    using read_pages_reference [OF assms(1) seen(1) fuel, of 1] seen(2) first
    by (auto simp: readRange_def rangeEnd_def [symmetric] read_rel_def Let_def)
qed

section \<open>Reading the tail\<close>

abbreviation bytes_of :: "out_chunk list \<Rightarrow> nat" where
  "bytes_of cs \<equiv> length (concat (map oc_data cs))"

text \<open>The reference: the last \<open>budget\<close> stored bytes.\<close>

definition tail_reference :: "nat \<Rightarrow> (nat \<times> byte) list \<Rightarrow> nat \<Rightarrow> tail_result" where
  "tail_reference budget bs stored =
     (let got = drop (length bs - budget) bs
      in \<lparr>tl_data = map snd got, tl_startOffset = (if got = [] then 0 else fst (hd got)),
          tl_endOffset = (if got = [] then 0 else Suc (fst (last got))), tl_totalBytesStored = stored\<rparr>)"

lemma take_budget_part:
  "take_budget budget rows collected (bytes_of collected) = (collected', bytes') \<Longrightarrow> bytes_of collected < budget \<Longrightarrow> rows \<noteq> [] \<Longrightarrow>
   \<exists>taken rest. rows = taken @ rest \<and> taken \<noteq> [] \<and> collected' = rev taken @ collected \<and> bytes' = bytes_of collected'
     \<and> bytes_of (tl collected') < budget \<and> (bytes' < budget \<longrightarrow> rest = [])"
proof (induction rows arbitrary: collected)
  case (Cons c rows)
  show ?case
  proof (cases "budget \<le> bytes_of (c # collected) \<or> rows = []")
    case True
    then show ?thesis
      using Cons.prems by - (rule exI [of _ "[c]"], rule exI [of _ rows], auto simp: Let_def add.commute split: if_splits)
  next
    case False
    then have "take_budget budget rows (c # collected) (bytes_of (c # collected)) = (collected', bytes')" "bytes_of (c # collected) < budget"
      using Cons.prems by (auto simp: Let_def add.commute)
    then obtain taken rest where "rows = taken @ rest" "taken \<noteq> []" "collected' = rev taken @ c # collected" "bytes' = bytes_of collected'"
        "bytes_of (tl collected') < budget" "bytes' < budget \<longrightarrow> rest = []"
      using Cons.IH [of "c # collected"] False by blast
    then show ?thesis
      by - (rule exI [of _ "c # taken"], rule exI [of _ rest], auto)
  qed
qed simp

lemma filter_before_chunk:
  "chunks_wf (xs @ c # ys) \<Longrightarrow> filter (\<lambda>d. oc_byteOffset d < oc_byteOffset c) (xs @ c # ys) = xs"
proof -
  assume wf: "chunks_wf (xs @ c # ys)"
  have "oc_byteOffset d < oc_byteOffset c" if "d \<in> set xs" for d
    using wf that chunk_end_less [OF wf, of d] by (fastforce simp: chunks_wf_append)
  moreover have "\<not> oc_byteOffset d < oc_byteOffset c" if "d \<in> set ys" for d
    using wf that chunk_end_less [OF wf, of c] chunks_wf_append [of "xs @ [c]" ys] by fastforce
  ultimately show ?thesis
    by (auto simp: filter_empty_conv filter_id_conv)
qed

lemma listTailChunks_rows:
  assumes "chunks_wf (session_chunks sid tab)" and "session_chunks sid tab = pre @ collected"
    and "before = (if collected = [] then None else Some (oc_byteOffset (hd collected)))"
  shows "listTailChunks sid before limit tab = take limit (rev pre)"
  using assms filter_before_chunk [of pre "hd collected" "tl collected"] by (cases collected) (auto simp: listTailChunks_def)

lemma tail_pages_suffix:
  assumes wf: "chunks_wf (session_chunks sid tab)"
  shows "session_chunks sid tab = pre @ collected \<Longrightarrow> length pre < fuel \<Longrightarrow> bytes_of (tl collected) < budget \<or> collected = [] \<Longrightarrow>
    \<exists>pre' collected' n'. tail_pages fuel sid budget (\<lambda>_. tab) n (if collected = [] then None else Some (oc_byteOffset (hd collected))) collected (bytes_of collected)
        = Some (collected', n')
      \<and> session_chunks sid tab = pre' @ collected' \<and> (bytes_of (tl collected') < budget \<or> collected' = []) \<and> (bytes_of collected' < budget \<longrightarrow> pre' = [])"
proof (induction fuel arbitrary: n pre collected)
  case (Suc fuel)
  let ?before = "if collected = [] then None else Some (oc_byteOffset (hd collected))"
  let ?rows = "take READ_BATCH_ROWS (rev pre)"
  have rows: "listTailChunks sid ?before READ_BATCH_ROWS tab = ?rows"
    by (rule listTailChunks_rows [OF wf Suc.prems(1)]) simp
  consider "budget \<le> bytes_of collected" | "bytes_of collected < budget" "pre = []" | "bytes_of collected < budget" "pre \<noteq> []"
    by linarith
  then show ?case
  proof cases
    case 1
    then show ?thesis
      using Suc.prems by auto
  next
    case 2
    then show ?thesis
      using Suc.prems rows by (auto simp: not_le)
  next
    case 3
    obtain collected' bytes' where take: "take_budget budget ?rows collected (bytes_of collected) = (collected', bytes')"
      by fastforce
    have "?rows \<noteq> []"
      using 3 by (simp add: READ_BATCH_ROWS_def)
    from take_budget_part [OF take 3(1) this] obtain taken rest where part: "?rows = taken @ rest" "taken \<noteq> []"
        "collected' = rev taken @ collected" "bytes' = bytes_of collected'" "bytes_of (tl collected') < budget" "bytes' < budget \<longrightarrow> rest = []"
      by blast
    define pre' where "pre' = rev (rest @ drop READ_BATCH_ROWS (rev pre))"
    have "rev pre = taken @ rest @ drop READ_BATCH_ROWS (rev pre)"
      by (metis append_assoc append_take_drop_id part(1))
    then have pre: "pre = pre' @ rev taken"
      unfolding pre'_def by (metis rev_append rev_rev_ident)
    then have S: "session_chunks sid tab = pre' @ collected'" "length pre' < fuel"
      using Suc.prems part(2,3) by (auto simp: less_Suc_eq)
    show ?thesis
    proof (cases "length ?rows < READ_BATCH_ROWS")
      case True
      then have "bytes' < budget \<longrightarrow> pre' = []"
        using part by (auto simp: pre'_def)
      then show ?thesis
        using 3 True rows take part S \<open>?rows \<noteq> []\<close> by (auto simp: Let_def)
    next
      case False
      have "(if collected' = [] then None else Some (oc_byteOffset (hd collected'))) = Some (oc_byteOffset (hd collected'))"
        using part by simp
      then show ?thesis
        using Suc.IH [OF S, of "Suc n"] part(4,5) 3 False rows take \<open>?rows \<noteq> []\<close> by (simp add: Let_def not_le)
    qed
  qed
qed simp

lemma placed_bytes: "map snd (concat (map placed cs)) = concat (map oc_data cs)"
  by (induction cs) (auto simp: placed_def chunk_end_def)

lemma length_placed: "length (concat (map placed cs)) = bytes_of cs"
  by (metis length_map placed_bytes)

lemma placed_last: "cs \<noteq> [] \<Longrightarrow> oc_data (last cs) \<noteq> [] \<Longrightarrow> Suc (fst (last (concat (map placed cs)))) = chunk_end (last cs)"
  by (cases cs rule: rev_cases) (auto simp: placed_def chunk_end_def last_zip last_append)

lemma placed_hd: "n < length (oc_data c) \<Longrightarrow> fst (hd (drop n (placed c @ bs))) = oc_byteOffset c + n"
  by (simp add: placed_def chunk_end_def hd_drop_conv_nth nth_append)

lemma tail_dropped:
  assumes "S = pre @ collected" "bytes_of collected < budget \<longrightarrow> pre = []"
  shows "drop (bytes_of S - budget) (concat (map placed S)) = drop (bytes_of collected - budget) (concat (map placed collected))"
proof (cases "bytes_of collected < budget")
  case True
  then show ?thesis
    using assms by simp
next
  case False
  then have "bytes_of S - budget = bytes_of pre + (bytes_of collected - budget)"
    using assms(1) by simp
  then show ?thesis
    by (simp add: assms(1) length_placed)
qed

text \<open>The tail of the output is the last \<open>maxBytes\<close> stored bytes, however many pages of rows they take, with the
  offsets of the first byte and of the end.\<close>

theorem tailOutput_reference:
  assumes wf: "chunks_wf (session_chunks sid tab)" and fuel: "length tab < fuel"
  shows "tailOutput fuel sid maxBytes (\<lambda>_. tab)
     = Some (tail_reference (nat maxBytes) (concat (map placed (session_chunks sid tab))) (getStoredOutputBytes sid tab))"
proof -
  let ?S = "session_chunks sid tab"
  define budget where "budget = nat maxBytes"
  have "length ?S < fuel"
    by (simp add: session_chunks_def le_less_trans [OF length_filter_le fuel])
  then obtain pre collected n where pages: "tail_pages fuel sid budget (\<lambda>_. tab) 0 None [] 0 = Some (collected, n)"
      and S: "?S = pre @ collected" and few: "bytes_of (tl collected) < budget \<or> collected = []"
      and whole: "bytes_of collected < budget \<longrightarrow> pre = []"
    using tail_pages_suffix [OF wf, of ?S "[]" fuel budget 0] by auto
  define got where "got = drop (bytes_of collected - budget) (concat (map placed collected))"
  have ref: "tail_reference budget (concat (map placed ?S)) m
      = \<lparr>tl_data = map snd got, tl_startOffset = (if got = [] then 0 else fst (hd got)),
         tl_endOffset = (if got = [] then 0 else Suc (fst (last got))), tl_totalBytesStored = m\<rparr>" for m
    unfolding tail_reference_def length_placed tail_dropped [OF S whole] got_def Let_def ..
  have data: "map snd got = drop (bytes_of collected - budget) (concat (map oc_data collected))"
    unfolding got_def drop_map [symmetric] placed_bytes ..
  show ?thesis
  proof (cases collected)
    case Nil
    then show ?thesis
      using pages ref by (simp add: tailOutput_def budget_def [symmetric] Let_def got_def)
  next
    case (Cons c cs)
    have filled: "oc_data d \<noteq> []" if "d \<in> set collected" for d
      using wf that by (auto simp: S chunks_wf_def list_all_iff)
    have less: "bytes_of collected - budget < length (oc_data c)"
      using few filled [of c] by (cases "oc_data c") (auto simp: Cons)
    also have "\<dots> \<le> bytes_of collected"
      by (simp add: Cons)
    finally have "got \<noteq> []"
      unfolding got_def drop_eq_Nil length_placed by simp
    moreover have "fst (hd got) = oc_byteOffset c + (bytes_of collected - budget)"
      using less placed_hd [of "bytes_of collected - budget" c] by (simp add: got_def Cons)
    moreover have "collected \<noteq> []"
      by (simp add: Cons)
    then have "Suc (fst (last got)) = chunk_end (last collected)"
      using \<open>got \<noteq> []\<close> placed_last [of collected] filled [of "last collected"] unfolding got_def by (simp add: last_drop)
    ultimately show ?thesis
      using pages ref data by (simp add: tailOutput_def budget_def [symmetric] Let_def Cons)
  qed
qed

section \<open>Ingest\<close>

definition stored_at :: "string \<Rightarrow> nat \<Rightarrow> output_store \<Rightarrow> bool" where
  "stored_at sid off s \<longleftrightarrow> (\<exists>c \<in> set (os_chunks s). oc_sessionId c = sid \<and> oc_byteOffset c = off)"

lemma observe_offset_chunks [simp]:
  "os_chunks (observe_offset sid e s) = os_chunks s" "os_retainedBytes (observe_offset sid e s) = os_retainedBytes s"
  by (simp_all add: observe_offset_def)

lemma getLastOffset_observe: "getLastOffset sid (observe_offset sid e s) = max (getLastOffset sid s) e"
  by (auto simp: observe_offset_def getLastOffset_def update_conv' split: option.splits)

lemma observe_offset_again: "e \<le> getLastOffset sid s \<Longrightarrow> observe_offset sid e s = s"
  by (simp add: observe_offset_def)

lemma redelivery_observed: "stored_at sid off s \<Longrightarrow> handleTerminalOutput cap now sid data off s = observe_offset sid (off + length (b64_decode data)) s"
  by (auto simp: handleTerminalOutput_def insertChunk_def stored_at_def Let_def)

section \<open>Retention\<close>

lemma prune_scan_removed:
  "prune_scan target removed cs = (removed', off) \<Longrightarrow> removed < target \<Longrightarrow>
   \<exists>gone kept. cs = gone @ kept \<and> removed' = removed + sum_list (map (length \<circ> oc_data) gone)
     \<and> off = (if gone = [] then None else Some (oc_byteOffset (last gone))) \<and> (removed' < target \<longrightarrow> kept = [])"
proof (induction cs arbitrary: removed removed' off)
  case Nil
  then show ?case by simp
next
  case (Cons c cs)
  show ?case
  proof (cases "target \<le> removed + length (oc_data c)")
    case True
    then show ?thesis
      using Cons.prems by - (rule exI [of _ "[c]"], rule exI [of _ cs], auto simp: Let_def)
  next
    case False
    obtain r o' where scan: "prune_scan target (removed + length (oc_data c)) cs = (r, o')"
      by fastforce
    have "removed + length (oc_data c) < target"
      using False by simp
    from Cons.IH [OF scan this] obtain gone kept where "cs = gone @ kept" "r = removed + length (oc_data c) + sum_list (map (length \<circ> oc_data) gone)"
        "o' = (if gone = [] then None else Some (oc_byteOffset (last gone)))" "r < target \<longrightarrow> kept = []"
      by blast
    then show ?thesis
      using Cons.prems False scan by - (rule exI [of _ "c # gone"], rule exI [of _ kept], auto simp: Let_def comp_def split: if_splits)
  qed
qed

lemma sum_filter_sort: "sum_list (map f (sort_key k xs)) = (sum_list (map f xs) :: nat)"
  by (metis mset_map mset_sort sum_mset_sum_list)

lemma stored_bytes_session: "getStoredOutputBytes sid tab = sum_list (map (length \<circ> oc_data) (session_chunks sid tab))"
  by (simp add: getStoredOutputBytes_def session_chunks_def sum_filter_sort)

lemma session_delete_through:
  "session_chunks sid (delete_through sid cutoff tab) = filter (\<lambda>c. cutoff < oc_byteOffset c) (session_chunks sid tab)"
  unfolding session_chunks_def delete_through_def filter_sort
  by (rule arg_cong [where f = "sort_key oc_byteOffset"]) (auto simp: not_le intro!: filter_cong)

lemma session_delete_other:
  "sid' \<noteq> sid \<Longrightarrow> session_chunks sid' (delete_through sid cutoff tab) = session_chunks sid' tab"
  unfolding session_chunks_def delete_through_def
  by (rule arg_cong [where f = "sort_key oc_byteOffset"]) (auto intro!: filter_cong)

text \<open>The primary key of the table.\<close>

definition keys_distinct :: "out_chunk list \<Rightarrow> bool" where
  "keys_distinct tab \<longleftrightarrow> distinct (map (\<lambda>c. (oc_sessionId c, oc_byteOffset c)) tab)"

lemma keys_distinct_filter: "keys_distinct tab \<Longrightarrow> keys_distinct (filter P tab)"
  by (simp add: keys_distinct_def distinct_map_filter)

lemma session_offsets_strict: "keys_distinct tab \<Longrightarrow> sorted_wrt (\<lambda>c d. oc_byteOffset c < oc_byteOffset d) (session_chunks sid tab)"
proof -
  assume "keys_distinct tab"
  then have "distinct (map (\<lambda>c. (oc_sessionId c, oc_byteOffset c)) (filter (\<lambda>c. oc_sessionId c = sid) tab))"
    by (simp add: keys_distinct_def distinct_map_filter)
  then have "inj_on oc_byteOffset (set (filter (\<lambda>c. oc_sessionId c = sid) tab))" "distinct (filter (\<lambda>c. oc_sessionId c = sid) tab)"
    unfolding distinct_map by (auto simp: inj_on_def)
  then have "distinct (map oc_byteOffset (session_chunks sid tab))"
    by (simp add: session_chunks_def distinct_map)
  moreover have "sorted (map oc_byteOffset (session_chunks sid tab))"
    by (simp add: session_chunks_def)
  ultimately have "sorted_wrt (<) (map oc_byteOffset (session_chunks sid tab))"
    by (simp add: strict_sorted_iff)
  then show ?thesis
    by (simp add: sorted_wrt_map)
qed

lemma filter_after_last:
  "sorted_wrt (\<lambda>c d. oc_byteOffset c < oc_byteOffset d) (xs @ ys) \<Longrightarrow> xs \<noteq> [] \<Longrightarrow>
   filter (\<lambda>c. oc_byteOffset (last xs) < oc_byteOffset c) (xs @ ys) = ys"
proof (cases xs rule: rev_cases)
  case (snoc us x)
  moreover assume "sorted_wrt (\<lambda>c d. oc_byteOffset c < oc_byteOffset d) (xs @ ys)"
  ultimately show ?thesis
    by (fastforce simp: sorted_wrt_append filter_empty_conv filter_id_conv)
qed simp

lemma prune_loop_removed:
  "keys_distinct tab \<Longrightarrow> prune_loop sid target removed tab = (removed', tab') \<Longrightarrow>
   \<exists>gone. session_chunks sid tab = gone @ session_chunks sid tab' \<and> removed' = removed + sum_list (map (length \<circ> oc_data) gone)
     \<and> (removed' < target \<longrightarrow> session_chunks sid tab' = [])
     \<and> (\<forall>sid'. sid' \<noteq> sid \<longrightarrow> session_chunks sid' tab' = session_chunks sid' tab) \<and> keys_distinct tab'"
proof (induction sid target removed tab arbitrary: removed' tab' rule: prune_loop.induct)
  case (1 sid target removed tab)
  let ?S = "session_chunks sid tab"
  let ?rows = "take PRUNE_BATCH_ROWS ?S"
  show ?case
  proof (cases "target \<le> removed")
    case True
    then show ?thesis
      using "1.prems" by (simp add: prune_loop.simps)
  next
    case False
    obtain r1 off where scan: "prune_scan target removed ?rows = (r1, off)"
      by fastforce
    have "removed < target"
      using False by simp
    from prune_scan_removed [OF scan this] obtain gone kept where cut: "?rows = gone @ kept"
        "r1 = removed + sum_list (map (length \<circ> oc_data) gone)"
        "off = (if gone = [] then None else Some (oc_byteOffset (last gone)))" "r1 < target \<longrightarrow> kept = []"
      by blast
    define rest where "rest = kept @ drop PRUNE_BATCH_ROWS ?S"
    have S: "?S = gone @ rest"
      unfolding rest_def by (metis append_assoc append_take_drop_id cut(1))
    show ?thesis
    proof (cases "gone = []")
      case True
      then have "r1 = removed" "kept = []"
        using cut False by auto
      then have "?S = []"
        using True cut(1) by (simp add: PRUNE_BATCH_ROWS_def)
      then show ?thesis
        using "1.prems" False scan cut True by (simp add: prune_loop.simps Let_def)
    next
      case some: False
      define tab1 where "tab1 = delete_through sid (oc_byteOffset (last gone)) tab"
      have S1: "session_chunks sid tab1 = rest"
        unfolding tab1_def session_delete_through S
        by (rule filter_after_last [OF session_offsets_strict [OF "1.prems"(1), of sid, unfolded S] some])
      have others: "session_chunks sid' tab1 = session_chunks sid' tab" if "sid' \<noteq> sid" for sid'
        unfolding tab1_def by (rule session_delete_other [OF that])
      have key1: "keys_distinct tab1"
        unfolding tab1_def delete_through_def by (rule keys_distinct_filter [OF "1.prems"(1)])
      show ?thesis
      proof (cases "r1 < target \<and> length ?rows < PRUNE_BATCH_ROWS")
        case True
        then have "length ?S < PRUNE_BATCH_ROWS"
          by auto
        then have "rest = []"
          using cut True by (simp add: rest_def)
        moreover have "removed' = r1" "tab' = tab1"
          using "1.prems"(2) False scan cut some True by (auto simp: prune_loop.simps Let_def tab1_def)
        ultimately show ?thesis
          using S S1 cut others key1 by (auto simp: comp_def)
      next
        case more: False
        then have loop: "prune_loop sid target r1 tab1 = (removed', tab')"
          using "1.prems"(2) False scan cut some by (auto simp: prune_loop.simps [of sid target removed tab] Let_def tab1_def)
        have off: "off = Some (oc_byteOffset (last gone))"
          using cut some by simp
        obtain gone' where "session_chunks sid tab1 = gone' @ session_chunks sid tab'"
            "removed' = r1 + sum_list (map (length \<circ> oc_data) gone')" "removed' < target \<longrightarrow> session_chunks sid tab' = []"
            "\<forall>sid'. sid' \<noteq> sid \<longrightarrow> session_chunks sid' tab' = session_chunks sid' tab1" "keys_distinct tab'"
          using "1.IH" [OF False refl scan [symmetric] off tab1_def more key1 loop] by blast
        then show ?thesis
          using S S1 cut(2) others by (intro exI [of _ "gone @ gone'"]) (auto simp: comp_def)
      qed
    qed
  qed
qed

text \<open>The cached count of a session is never below what is stored.\<close>

definition accounts :: "output_store \<Rightarrow> bool" where
  "accounts s \<longleftrightarrow> keys_distinct (os_chunks s)
     \<and> (\<forall>sid n. map_of (os_retainedBytes s) sid = Some n \<longrightarrow> int (getStoredOutputBytes sid (os_chunks s)) \<le> n)"

definition counted :: "string \<Rightarrow> output_store \<Rightarrow> int" where
  "counted sid s = (case map_of (os_retainedBytes s) sid of Some n \<Rightarrow> n | None \<Rightarrow> int (getStoredOutputBytes sid (os_chunks s)))"

lemma retain_pruned:
  assumes keys: "keys_distinct (os_chunks s)" and enough: "int (getStoredOutputBytes sid (os_chunks s)) \<le> counted sid s + int len"
  shows "\<exists>gone. session_chunks sid (os_chunks s) = gone @ session_chunks sid (os_chunks (retain cap sid len s))" (is ?suffix)
    and "getStoredOutputBytes sid (os_chunks (retain cap sid len s)) \<le> cap" (is ?bound)
    and "int (getStoredOutputBytes sid (os_chunks (retain cap sid len s))) \<le> counted sid (retain cap sid len s)" (is ?count)
    and "\<forall>sid'. sid' \<noteq> sid \<longrightarrow> session_chunks sid' (os_chunks (retain cap sid len s)) = session_chunks sid' (os_chunks s)
      \<and> map_of (os_retainedBytes (retain cap sid len s)) sid' = map_of (os_retainedBytes s) sid'" (is ?others)
    and "keys_distinct (os_chunks (retain cap sid len s))" (is ?keys)
proof -
  define n where "n = counted sid s + int len"
  have "?suffix \<and> ?bound \<and> ?count \<and> ?others \<and> ?keys"
  proof (cases "n > int cap")
    case False
    then have "retain cap sid len s = s\<lparr>os_retainedBytes := AList.update sid n (os_retainedBytes s)\<rparr>"
      by (simp add: retain_def n_def counted_def Let_def)
    then show ?thesis
      using keys enough False unfolding n_def [symmetric] by (simp add: counted_def update_conv')
  next
    case True
    obtain removed tab where prune: "prune_loop sid (nat (n - int cap)) 0 (os_chunks s) = (removed, tab)"
      by fastforce
    then have r: "retain cap sid len s = s\<lparr>os_chunks := tab, os_retainedBytes := AList.update sid (n - int removed) (os_retainedBytes s)\<rparr>"
      using True by (simp add: retain_def n_def counted_def Let_def pruneOldestChunks_def)
    obtain gone where gone: "session_chunks sid (os_chunks s) = gone @ session_chunks sid tab" "removed = sum_list (map (length \<circ> oc_data) gone)"
        "removed < nat (n - int cap) \<longrightarrow> session_chunks sid tab = []"
        "\<forall>sid'. sid' \<noteq> sid \<longrightarrow> session_chunks sid' tab = session_chunks sid' (os_chunks s)" "keys_distinct tab"
      using prune_loop_removed [OF keys prune] by auto
    have "getStoredOutputBytes sid (os_chunks s) = removed + getStoredOutputBytes sid tab"
      by (simp add: stored_bytes_session gone(1) gone(2) comp_def)
    then have "int (getStoredOutputBytes sid tab) \<le> n - int removed"
      using enough by (simp add: n_def)
    moreover have "getStoredOutputBytes sid tab \<le> cap"
    proof (cases "removed < nat (n - int cap)")
      case True
      then show ?thesis
        using gone(3) by (simp add: stored_bytes_session)
    next
      case False
      then show ?thesis
        using calculation True by linarith
    qed
    ultimately show ?thesis
      using gone by (auto simp: r counted_def update_conv')
  qed
  then show ?suffix ?bound ?count ?others ?keys
    by blast+
qed

definition frame_chunk :: "string \<Rightarrow> string \<Rightarrow> nat \<Rightarrow> out_chunk" where
  "frame_chunk sid data off = \<lparr>oc_sessionId = sid, oc_byteOffset = off, oc_data = b64_decode data\<rparr>"

lemma handle_stores:
  assumes "\<not> stored_at sid off s" and "b64_decode data \<noteq> []"
  obtains s2 where "os_chunks s2 = os_chunks s @ [frame_chunk sid data off]" "os_retainedBytes s2 = os_retainedBytes s"
    "os_chunks (handleTerminalOutput cap now sid data off s) = os_chunks (retain cap sid (length (b64_decode data)) s2)"
    "os_retainedBytes (handleTerminalOutput cap now sid data off s) = os_retainedBytes (retain cap sid (length (b64_decode data)) s2)"
proof -
  define s1 where "s1 = observe_offset sid (off + length (b64_decode data)) s"
  define s2 where "s2 = s1\<lparr>os_chunks := os_chunks s @ [frame_chunk sid data off],
    os_sessions := bumpOutputStats sid (length (b64_decode data)) (length (b64_decode data)) now (os_sessions s1)\<rparr>"
  have "handleTerminalOutput cap now sid data off s
      = (retain cap sid (length (b64_decode data)) s2)\<lparr>os_bus := bus_emit sid (output_event off (b64_decode data)) None
          (os_bus (retain cap sid (length (b64_decode data)) s2))\<rparr>"
    using assms by (auto simp: handleTerminalOutput_def insertChunk_def stored_at_def s2_def s1_def frame_chunk_def Let_def)
  then show ?thesis
    by (intro that [of s2]) (simp_all add: s2_def s1_def)
qed

lemma stored_bytes_snoc:
  "getStoredOutputBytes sid (tab @ [c]) = getStoredOutputBytes sid tab + (if oc_sessionId c = sid then length (oc_data c) else 0)"
  by (simp add: getStoredOutputBytes_def)

lemma counted_bounds: "accounts s \<Longrightarrow> int (getStoredOutputBytes sid (os_chunks s)) \<le> counted sid s"
  by (auto simp: accounts_def counted_def split: option.splits)

lemma stored_bytes_cong: "session_chunks sid tab = session_chunks sid tab' \<Longrightarrow> getStoredOutputBytes sid tab = getStoredOutputBytes sid tab'"
  by (simp add: stored_bytes_session)

text \<open>Storing a new frame keeps the retention: afterwards the session holds at most the configured number of
  bytes, whatever was stored before; of its rows, the new one included, exactly some of the oldest are gone;
  no other session loses anything, and the cached counts stay upper bounds of what is stored.\<close>

theorem ingest_retention:
  assumes "accounts s" and "\<not> stored_at sid off s" and "b64_decode data \<noteq> []"
  shows "let s' = handleTerminalOutput cap now sid data off s in
      getStoredOutputBytes sid (os_chunks s') \<le> cap
      \<and> (\<exists>gone. session_chunks sid (os_chunks s @ [frame_chunk sid data off]) = gone @ session_chunks sid (os_chunks s'))
      \<and> (\<forall>sid'. sid' \<noteq> sid \<longrightarrow> session_chunks sid' (os_chunks s') = session_chunks sid' (os_chunks s)) \<and> accounts s'"
proof -
  define s' where "s' = handleTerminalOutput cap now sid data off s"
  obtain s2 where s2: "os_chunks s2 = os_chunks s @ [frame_chunk sid data off]" "os_retainedBytes s2 = os_retainedBytes s"
    and s': "os_chunks (retain cap sid (length (b64_decode data)) s2) = os_chunks s'"
      "os_retainedBytes (retain cap sid (length (b64_decode data)) s2) = os_retainedBytes s'"
    using handle_stores [OF assms(2,3), of cap now] unfolding s'_def by metis
  have keys: "keys_distinct (os_chunks s2)"
    using assms(1,2) by (auto simp: accounts_def keys_distinct_def s2 stored_at_def frame_chunk_def)
  have enough: "int (getStoredOutputBytes sid (os_chunks s2)) \<le> counted sid s2 + int (length (b64_decode data))"
    using counted_bounds [OF assms(1), of sid]
    by (auto simp: s2 counted_def stored_bytes_snoc frame_chunk_def split: option.splits)
  note r = retain_pruned [OF keys enough, of cap, unfolded s']
  have others: "session_chunks sid' (os_chunks s') = session_chunks sid' (os_chunks s)" if "sid' \<noteq> sid" for sid'
    using r(4) that by (simp add: s2 frame_chunk_def session_chunks_def)
  have "int (getStoredOutputBytes sid' (os_chunks s')) \<le> n" if cached: "map_of (os_retainedBytes s') sid' = Some n" for sid' n
  proof (cases "sid' = sid")
    case True
    then show ?thesis
      using r(3) cached by (simp add: counted_def s')
  next
    case False
    then have "map_of (os_retainedBytes s) sid' = Some n"
      using r(4) cached by (simp add: s2)
    then show ?thesis
      using assms(1) stored_bytes_cong [OF others [OF False]] by (simp add: accounts_def)
  qed
  then have "accounts s'"
    using r(5) by (simp add: accounts_def)
  then show ?thesis
    unfolding Let_def s'_def [symmetric] using r(1,2) others by (simp add: s2)
qed

lemma handle_observed: "getLastOffset sid (handleTerminalOutput cap now sid data off s) = max (getLastOffset sid s) (off + length (b64_decode data))"
proof -
  have "os_lastOffsets (retain cap sid' len s') = os_lastOffsets s'" for cap sid' len s'
    by (simp add: retain_def Let_def split: prod.splits)
  then have "os_lastOffsets (handleTerminalOutput cap now sid data off s) = os_lastOffsets (observe_offset sid (off + length (b64_decode data)) s)"
    by (simp add: handleTerminalOutput_def Let_def split: prod.splits bool.splits)
  then show ?thesis
    using getLastOffset_observe [of sid "off + length (b64_decode data)" s] by (simp add: getLastOffset_def)
qed

text \<open>The daemon delivers frames at least once.  A frame that arrives again while its row is stored changes
  nothing: it is not stored or counted a second time, nothing is pruned for it, and nothing is emitted.\<close>

theorem ingest_idempotent:
  assumes "stored_at sid off (handleTerminalOutput cap now sid data off s)"
  shows "handleTerminalOutput cap now' sid data off (handleTerminalOutput cap now sid data off s) = handleTerminalOutput cap now sid data off s"
  unfolding redelivery_observed [OF assms]
  by (rule observe_offset_again) (simp add: handle_observed)

section \<open>Examples\<close>

definition demo_table :: "out_chunk list" where
  "demo_table =
     [\<lparr>oc_sessionId = ''s'', oc_byteOffset = 3, oc_data = [4, 5]\<rparr>, \<lparr>oc_sessionId = ''t'', oc_byteOffset = 0, oc_data = [9]\<rparr>,
      \<lparr>oc_sessionId = ''s'', oc_byteOffset = 0, oc_data = [1, 2, 3]\<rparr>]"

lemma demo_session:
  "session_chunks ''s'' demo_table = [\<lparr>oc_sessionId = ''s'', oc_byteOffset = 0, oc_data = [1, 2, 3]\<rparr>, \<lparr>oc_sessionId = ''s'', oc_byteOffset = 3, oc_data = [4, 5]\<rparr>]"
  by (simp add: demo_table_def session_chunks_def)

theorem readRange_reference_witness:
  "readRange 4 ''s'' 1 None 3 (\<lambda>_. demo_table)
     = Some \<lparr>rg_data = [2, 3, 4], rg_startOffset = 1, rg_endOffset = 4, rg_truncated = True, rg_nextOffset = Some 4\<rparr>"
proof -
  have "chunks_wf (session_chunks ''s'' demo_table)"
    by (simp add: demo_session chunks_wf_def chunk_end_def)
  moreover have "length demo_table < 4"
    by (simp add: demo_table_def)
  moreover have "window_bytes 1 None (session_chunks ''s'' demo_table) = [(1, 2), (2, 3), (3, 4), (4, 5)]"
    by (simp add: demo_session window_bytes_def in_window_def placed_def chunk_end_def upt_rec)
  ultimately show ?thesis
    using readRange_reference [of "''s''" demo_table 4 1 None 3] by (simp add: range_reference_def)
qed

theorem tailOutput_reference_witness:
  "tailOutput 4 ''s'' 3 (\<lambda>_. demo_table) = Some \<lparr>tl_data = [3, 4, 5], tl_startOffset = 2, tl_endOffset = 5, tl_totalBytesStored = 5\<rparr>"
proof -
  have "chunks_wf (session_chunks ''s'' demo_table)" "length demo_table < 4"
    by (simp_all add: demo_session chunks_wf_def chunk_end_def) (simp add: demo_table_def)
  moreover have "concat (map placed (session_chunks ''s'' demo_table)) = [(0, 1), (1, 2), (2, 3), (3, 4), (4, 5)]"
    by (simp add: demo_session placed_def chunk_end_def upt_rec)
  moreover have "getStoredOutputBytes ''s'' demo_table = 5"
    by (simp add: getStoredOutputBytes_def demo_table_def)
  ultimately show ?thesis
    using tailOutput_reference [of "''s''" demo_table 4 3] by (simp add: tail_reference_def)
qed

definition demo_store :: output_store where
  "demo_store = \<lparr>os_chunks = [], os_sessions = [], os_lastOffsets = [], os_retainedBytes = [], os_bus = new_bus 10 (\<lambda>_ _. False)\<rparr>"

lemma demo_decode: "b64_decode ''AQI='' = [1, 2]"
  using b64_roundtrip [of "[1, 2]"] by (simp add: b64_char_def b64_alphabet_def)

theorem ingest_idempotent_witness:
  "handleTerminalOutput 10 2 ''s'' ''AQI='' 0 (handleTerminalOutput 10 1 ''s'' ''AQI='' 0 demo_store) = handleTerminalOutput 10 1 ''s'' ''AQI='' 0 demo_store"
proof (rule ingest_idempotent)
  show "stored_at ''s'' 0 (handleTerminalOutput 10 1 ''s'' ''AQI='' 0 demo_store)"
    by (simp add: handleTerminalOutput_def demo_decode demo_store_def observe_offset_def getLastOffset_def insertChunk_def retain_def
        getStoredOutputBytes_def Let_def stored_at_def)
qed

theorem ingest_retention_witness:
  "getStoredOutputBytes ''s'' (os_chunks (handleTerminalOutput 10 1 ''s'' ''AQI='' 0 demo_store)) \<le> 10"
proof -
  have "accounts demo_store" "\<not> stored_at ''s'' 0 demo_store"
    by (simp_all add: accounts_def keys_distinct_def stored_at_def demo_store_def)
  then show ?thesis
    using ingest_retention [of demo_store "''s''" 0 "''AQI=''" 10 1] by (simp add: demo_decode Let_def)
qed

end
