(* ===== verification/TerminalStreamProps.thy ===== *)
theory TerminalStreamProps
  imports TerminalStream TerminalOutputProps
begin

text \<open>
  What a client of a terminal's stream shows.  The invariant of the system relates four cursors of one
  sequence of bytes: what the client has applied, what the connection has forwarded, what the replay has
  read, and what is stored.
\<close>

section \<open>Numbers\<close>

lemma digit_of_char: "d < 10 \<Longrightarrow> digit_of 10 (digit_char d) = Some d"
  by (auto simp: digit_of_def digit_char_def Let_def)

lemma digits_value_append:
  "digits_value base acc (xs @ ys) = (case digits_value base acc xs of None \<Rightarrow> None | Some n \<Rightarrow> digits_value base n ys)"
  by (induction base acc xs rule: digits_value.induct) (auto split: option.splits)

lemma digits_value_show: "digits_value 10 0 (show_nat n) = Some n"
proof (induction n rule: show_nat.induct)
  case (1 n)
  then show ?case
    by (cases "n < 10") (auto simp: show_nat.simps [of n] digits_value_append digit_of_char)
qed

lemma decimal_value_show [simp]: "decimal_value (show_nat n) = n"
  by (simp add: decimal_value_def digits_value_show)

lemma is_digit_show: "c \<in> set (show_nat n) \<Longrightarrow> is_digit c"
proof (induction n rule: show_nat.induct)
  case (1 n)
  then show ?case
    by (cases "n < 10") (auto simp: show_nat.simps [of n] is_digit_def digit_of_char)
qed

lemma show_nat_nonempty [simp]: "show_nat n \<noteq> []"
  by (subst show_nat.simps) simp

lemma all_digits_show [simp]: "all_digits (show_nat n)"
  by (simp add: all_digits_def list_all_iff is_digit_show)

lemma maxResumeCursor_show:
  "maxResumeCursor (Some (show_nat a)) None = Some (show_nat a)"
  "maxResumeCursor (Some (show_nat a)) (Some (show_nat b)) = Some (show_nat (max a b))"
  by (simp_all add: maxResumeCursor_def)

lemma parseOffsetEventId_show: "int n \<le> MAX_SAFE_INTEGER \<Longrightarrow> parseOffsetEventId (Some (show_nat n)) = Some n"
  by (simp add: parseOffsetEventId_def)

lemma is_digit_iff: "is_digit c \<longleftrightarrow> 48 \<le> (of_char c :: nat) \<and> (of_char c :: nat) \<le> 57"
  by (auto simp: is_digit_def digit_of_def Let_def)

lemma strip_start_digits:
  assumes "s \<noteq> []" and "is_digit (hd s)" and "\<forall>w \<in> set ws. w \<noteq> [] \<longrightarrow> \<not> is_digit (hd w)"
  shows "strip_start ws s = s"
proof -
  have "\<not> (w \<noteq> [] \<and> starts_with w s)" if "w \<in> set ws" for w
    using assms that by (cases w; cases s) (auto simp: starts_with_def)
  then have "List.find (\<lambda>w. w \<noteq> [] \<and> starts_with w s) ws = None"
    by (auto simp: find_None_iff)
  then show ?thesis
    by (simp add: strip_start.simps)
qed

lemma whitespace_not_digit:
  "\<forall>w \<in> set js_whitespace. w \<noteq> [] \<longrightarrow> \<not> is_digit (hd w)" "\<forall>w \<in> set (map rev js_whitespace). w \<noteq> [] \<longrightarrow> \<not> is_digit (hd w)"
  by (simp_all add: js_whitespace_def is_digit_iff)

lemma js_trim_show [simp]: "js_trim (show_nat n) = show_nat n"
proof -
  have "is_digit (hd (show_nat n))" "is_digit (hd (rev (show_nat n)))"
    by (simp_all add: hd_rev is_digit_show [of _ n])
  then show ?thesis
    by (simp add: js_trim_def strip_start_digits whitespace_not_digit)
qed

lemma starts_with_digit: "starts_with (c # cs) (show_nat n) \<Longrightarrow> is_digit c"
  using is_digit_show [of "hd (show_nat n)" n] by (cases "show_nat n") (auto simp: starts_with_def)

lemma starts_with_two_digits: "starts_with [c, d] (show_nat n) \<Longrightarrow> is_digit d"
  using is_digit_show [of d n] set_take_subset [of 2 "show_nat n"] by (auto simp: starts_with_def numeral_2_eq_2)

lemma number_of_string_show: "number_of_string (show_nat n) = num_of_int (int n)"
proof -
  have prefixes: "\<not> starts_with ''0x'' (show_nat n)" "\<not> starts_with ''0X'' (show_nat n)" "\<not> starts_with ''0o'' (show_nat n)"
      "\<not> starts_with ''0O'' (show_nat n)" "\<not> starts_with ''0b'' (show_nat n)" "\<not> starts_with ''0B'' (show_nat n)"
    by (auto simp: is_digit_iff dest!: starts_with_two_digits)
  have signs: "\<not> starts_with ''-'' (show_nat n)" "\<not> starts_with ''+'' (show_nat n)"
    by (auto simp: is_digit_iff dest!: starts_with_digit)
  have "show_nat n \<noteq> ''Infinity''"
    using is_digit_show [of "hd (show_nat n)" n] by (auto simp: is_digit_iff)
  moreover have "takeWhile is_digit (show_nat n) = show_nat n" "dropWhile is_digit (show_nat n) = []"
    using is_digit_show by (simp_all add: takeWhile_eq_all_conv dropWhile_eq_Nil_conv)
  ultimately have "unsigned_value (show_nat n) = num_of_int (int n)"
    unfolding unsigned_value_def Let_def
    by (simp only: if_False) (simp add: starts_with_def exponent_value_def decimal_value_def [of "[]"])
  then show ?thesis
    by (simp add: number_of_string_def Let_def prefixes signs)
qed

lemma parseOffset_show [simp]: "parseOffset (Some (show_nat n)) = Some n"
  by (simp add: parseOffset_def number_of_string_show)

section \<open>Frames and positions\<close>

definition frame_start :: "byte list list \<Rightarrow> nat \<Rightarrow> nat" where
  "frame_start out i = length (concat (take i out))"

definition chunk_at :: "string \<Rightarrow> byte list list \<Rightarrow> nat \<Rightarrow> out_chunk" where
  "chunk_at sid out i = \<lparr>oc_sessionId = sid, oc_byteOffset = frame_start out i, oc_data = out ! i\<rparr>"

definition event_at :: "byte list list \<Rightarrow> nat \<Rightarrow> sse_event" where
  "event_at out i = output_event (frame_start out i) (out ! i)"

lemma chunk_at_simps [simp]:
  "oc_sessionId (chunk_at sid out i) = sid" "oc_byteOffset (chunk_at sid out i) = frame_start out i" "oc_data (chunk_at sid out i) = out ! i"
  by (simp_all add: chunk_at_def)

lemma frame_start_Suc: "i < length out \<Longrightarrow> frame_start out (Suc i) = frame_start out i + length (out ! i)"
  by (simp add: frame_start_def take_Suc_conv_app_nth)

lemma frame_start_0 [simp]: "frame_start out 0 = 0"
  by (simp add: frame_start_def)

lemma frame_start_end: "length out \<le> i \<Longrightarrow> frame_start out i = length (concat out)"
  by (simp add: frame_start_def)

lemma frame_start_append: "i \<le> length out \<Longrightarrow> frame_start (out @ extra) i = frame_start out i"
  by (simp add: frame_start_def)

lemma chunk_at_append: "i < length out \<Longrightarrow> chunk_at sid (out @ extra) i = chunk_at sid out i"
  by (simp add: chunk_at_def frame_start_append nth_append)

lemma event_at_append: "i < length out \<Longrightarrow> event_at (out @ extra) i = event_at out i"
  by (simp add: event_at_def frame_start_append nth_append)

lemma chunk_end_at: "i < length out \<Longrightarrow> chunk_end (chunk_at sid out i) = frame_start out (Suc i)"
  by (simp add: chunk_end_def frame_start_Suc)

lemma frame_start_mono: "i \<le> j \<Longrightarrow> frame_start out i \<le> frame_start out j"
proof -
  assume "i \<le> j"
  then have "take j out = take i out @ take (j - i) (drop i out)"
    using take_add [of i "j - i" out] by simp
  then show ?thesis
    by (simp add: frame_start_def)
qed

lemma frame_start_bound: "frame_start out i \<le> length (concat out)"
  using frame_start_mono [of i "max i (length out)" out] by (simp add: frame_start_end)

lemma frame_start_less:
  assumes "[] \<notin> set out" "i < j" "i < length out"
  shows "frame_start out i < frame_start out j"
proof -
  have "frame_start out i < frame_start out (Suc i)"
    using assms by (simp add: frame_start_Suc) (metis nth_mem)
  also have "\<dots> \<le> frame_start out j"
    using assms by (intro frame_start_mono) simp
  finally show ?thesis .
qed

lemma frame_start_le_iff: "[] \<notin> set out \<Longrightarrow> i \<le> length out \<Longrightarrow> j \<le> length out \<Longrightarrow> frame_start out i \<le> frame_start out j \<longleftrightarrow> i \<le> j"
  using frame_start_mono [of i j out] frame_start_less [of out j i] by (cases "i \<le> j") auto

lemma frame_start_inj: "[] \<notin> set out \<Longrightarrow> i \<le> length out \<Longrightarrow> j \<le> length out \<Longrightarrow> frame_start out i = frame_start out j \<Longrightarrow> i = j"
  using frame_start_le_iff [of out i j] frame_start_le_iff [of out j i] by auto

lemma concat_nth_frame:
  assumes "i < length out" "k < length (out ! i)"
  shows "concat out ! (frame_start out i + k) = out ! i ! k"
proof -
  have "concat out = concat (take i out) @ out ! i @ concat (drop (Suc i) out)"
    using id_take_nth_drop [OF assms(1)] by (metis concat.simps(2) concat_append)
  then show ?thesis
    using assms(2) by (simp add: frame_start_def nth_append)
qed

lemma frame_bytes: "i < length out \<Longrightarrow> out ! i = map (\<lambda>p. concat out ! p) [frame_start out i ..< frame_start out (Suc i)]"
  by (rule nth_equalityI) (simp_all add: frame_start_Suc concat_nth_frame)

lemma placed_chunk_at:
  "i < length out \<Longrightarrow> placed (chunk_at sid out i) = map (\<lambda>p. (p, concat out ! p)) [frame_start out i ..< frame_start out (Suc i)]"
proof -
  assume i: "i < length out"
  show ?thesis
    unfolding placed_def chunk_end_at [OF i] chunk_at_simps
    by (subst frame_bytes [OF i]) (simp add: zip_map2 zip_same_conv_map)
qed

lemma upt_split: "a \<le> b \<Longrightarrow> b \<le> c \<Longrightarrow> [a ..< c] = [a ..< b] @ [b ..< c]"
  using upt_add_eq_append [of a b "c - b"] by simp

lemma placed_chunks:
  "i \<le> j \<Longrightarrow> j \<le> length out \<Longrightarrow> concat (map placed (map (chunk_at sid out) [i ..< j])) = map (\<lambda>p. (p, concat out ! p)) [frame_start out i ..< frame_start out j]"
proof (induction j)
  case (Suc j)
  show ?case
  proof (cases "i = Suc j")
    case False
    then have "[frame_start out i ..< frame_start out (Suc j)] = [frame_start out i ..< frame_start out j] @ [frame_start out j ..< frame_start out (Suc j)]"
      using Suc.prems frame_start_mono [of i j out] frame_start_mono [of j "Suc j" out] by (intro upt_split) auto
    then show ?thesis
      using Suc False by (simp add: placed_chunk_at)
  qed simp
qed simp

lemma filter_upt_from: "filter (\<lambda>p. s \<le> p) [a ..< b] = [max s a ..< b]"
  by (induction b) (auto simp: max_def)

lemma window_chunks:
  "i \<le> j \<Longrightarrow> j \<le> length out \<Longrightarrow>
   window_bytes start None (map (chunk_at sid out) [i ..< j]) = map (\<lambda>p. (p, concat out ! p)) [max start (frame_start out i) ..< frame_start out j]"
  unfolding window_bytes_def placed_chunks by (simp add: filter_map comp_def in_window_def filter_upt_from)

section \<open>Runs of positions\<close>

text \<open>A sequence of positions between two cursors: in order and without repetition, and all of them when
  nothing is missing.\<close>

definition run_of :: "bool \<Rightarrow> nat \<Rightarrow> nat \<Rightarrow> nat list \<Rightarrow> bool" where
  "run_of full a b ps \<longleftrightarrow> a \<le> b \<and> sorted_wrt (<) ps \<and> set ps \<subseteq> {a ..< b} \<and> (full \<longrightarrow> ps = [a ..< b])"

lemma run_of_upt: "a \<le> b \<Longrightarrow> run_of full a b [a ..< b]"
  by (simp add: run_of_def)

lemma run_of_le: "run_of full a b ps \<Longrightarrow> a \<le> b"
  by (simp add: run_of_def)

lemma run_of_empty: "run_of full a a []"
  by (simp add: run_of_def)

lemma run_of_append: "run_of full a b ps \<Longrightarrow> run_of full b c qs \<Longrightarrow> run_of full a c (ps @ qs)"
  by (fastforce simp: run_of_def sorted_wrt_append upt_split [of a b c])

lemma run_of_weaken: "run_of full a b ps \<Longrightarrow> run_of False a b ps"
  by (simp add: run_of_def)

lemma run_of_gap: "run_of False b c qs \<Longrightarrow> a \<le> b \<Longrightarrow> run_of False a c qs"
  by (auto simp: run_of_def)

lemma sorted_le_last: "sorted xs \<Longrightarrow> x \<in> set xs \<Longrightarrow> x \<le> last (xs :: nat list)"
  by (cases xs rule: rev_cases) (auto simp: sorted_append)

lemma run_of_take:
  assumes "run_of full a b ps"
  shows "run_of full a (if take n ps = [] then a else Suc (last (take n ps))) (take n ps)"
proof -
  have "sorted_wrt (<) (take n ps)"
    using assms by (simp add: run_of_def sorted_wrt_take)
  moreover have "set (take n ps) \<subseteq> {a ..< Suc (last (take n ps))}" if "take n ps \<noteq> []"
  proof -
    have "sorted (take n ps)"
      using assms by (auto simp: run_of_def intro: sorted_wrt_take strict_sorted_imp_sorted)
    then have "p \<le> last (take n ps)" if "p \<in> set (take n ps)" for p
      using that by (rule sorted_le_last)
    moreover have "set (take n ps) \<subseteq> {a ..< b}"
      using assms set_take_subset [of n ps] by (auto simp: run_of_def)
    ultimately show ?thesis
      by fastforce
  qed
  moreover have "take n ps = [a ..< Suc (last (take n ps))]" if "take n ps \<noteq> []" full
  proof -
    have "take n ps = [a ..< min b (a + n)]"
      using assms that(2) by (cases "a + n \<le> b") (auto simp: run_of_def take_upt min_def)
    then show ?thesis
      using that(1) by (auto simp: min_def split: if_splits)
  qed
  moreover have "a \<le> last (take n ps)" if "take n ps \<noteq> []"
    using last_in_set [OF that] calculation(2) [OF that] by auto
  ultimately show ?thesis
    unfolding run_of_def by (cases "take n ps = []") (simp_all del: take_eq_Nil take_eq_Nil2)
qed

section \<open>Reading\<close>

definition bytes_at :: "byte list list \<Rightarrow> nat list \<Rightarrow> (nat \<times> byte) list" where
  "bytes_at out ps = map (\<lambda>p. (p, concat out ! p)) ps"

lemma bytes_at_append [simp]: "bytes_at out (ps @ qs) = bytes_at out ps @ bytes_at out qs"
  by (simp add: bytes_at_def)

lemma bytes_at_extend: "set ps \<subseteq> {..< length (concat out)} \<Longrightarrow> bytes_at (out @ extra) ps = bytes_at out ps"
  by (auto simp: bytes_at_def nth_append)

text \<open>What a read that has served \<open>ps\<close> returns.\<close>

lemma range_result_run:
  assumes rel: "read_rel cursor n (bytes_at out ps) r" and run: "run_of full cursor m ps"
  defines "e \<equiv> rg_endOffset (range_result_of cursor r)"
  shows "\<exists>qs. run_of full cursor e qs \<and> rg_data (range_result_of cursor r) = map (\<lambda>p. concat out ! p) qs"
    and "e \<le> m" and "rg_data (range_result_of cursor r) = [] \<Longrightarrow> e = cursor"
    and "full \<Longrightarrow> \<not> rr_truncated r \<Longrightarrow> e = m"
proof -
  have ref: "range_result_of cursor r = range_reference cursor n (bytes_at out ps)" and trunc: "rr_truncated r = (n < length ps)"
    using rel read_rel_truncated [OF rel] by (simp_all add: read_rel_def bytes_at_def)
  have e: "e = (if take n ps = [] then cursor else Suc (last (take n ps)))"
    by (simp add: e_def ref range_reference_def Let_def bytes_at_def take_map last_map)
  have data: "rg_data (range_result_of cursor r) = map (\<lambda>p. concat out ! p) (take n ps)"
    by (simp add: ref range_reference_def Let_def bytes_at_def take_map comp_def)
  show "\<exists>qs. run_of full cursor e qs \<and> rg_data (range_result_of cursor r) = map (\<lambda>p. concat out ! p) qs"
    using run_of_take [OF run, of n] e data by auto
  have "p < m" if "p \<in> set ps" for p
    using run that by (auto simp: run_of_def)
  then show "e \<le> m"
    using run in_set_takeD [of _ n ps] last_in_set [of "take n ps"] by (auto simp: e run_of_def Suc_le_eq simp del: last_in_set)
  show "rg_data (range_result_of cursor r) = [] \<Longrightarrow> e = cursor"
    by (simp add: data e)
  show "full \<Longrightarrow> \<not> rr_truncated r \<Longrightarrow> e = m"
    using run by (auto simp: e trunc run_of_def)
qed

definition table_of :: "string \<Rightarrow> byte list list \<Rightarrow> nat \<Rightarrow> out_chunk list" where
  "table_of sid out k = map (chunk_at sid out) [k ..< length out]"

lemma session_table: "session_chunks sid (table_of sid out k) = table_of sid out k"
proof -
  have "sorted (map oc_byteOffset (table_of sid out k))"
    by (auto simp: table_of_def sorted_map comp_def intro!: sorted_wrt_mono_rel [OF _ sorted_wrt_upt] frame_start_mono)
  then show ?thesis
    by (simp add: session_chunks_def sort_key_id_if_sorted) (simp add: table_of_def sort_key_id_if_sorted)
qed

lemma table_wf: "[] \<notin> set out \<Longrightarrow> chunks_wf (table_of sid out k)"
proof -
  assume "[] \<notin> set out"
  then have "list_all (\<lambda>c. oc_data c \<noteq> []) (table_of sid out k)"
    by (auto simp: table_of_def list_all_iff) (metis nth_mem)
  moreover have "sorted_wrt (\<lambda>i j. chunk_end (chunk_at sid out i) \<le> frame_start out j) [k ..< length out]"
    by (rule sorted_wrt_mono_rel [OF _ sorted_wrt_upt]) (auto simp: chunk_end_at intro!: frame_start_mono)
  then have "sorted_wrt (\<lambda>c d. chunk_end c \<le> oc_byteOffset d) (table_of sid out k)"
    by (simp add: table_of_def sorted_wrt_map)
  ultimately show ?thesis
    by (simp add: chunks_wf_def)
qed

lemma rows_from_table:
  assumes "[] \<notin> set out" and k: "k \<le> length out"
  obtains i where "rows_from sid scan None (table_of sid out k) = map (chunk_at sid out) [i ..< length out]" "k \<le> i" "i \<le> length out"
    "i < length out \<longrightarrow> scan \<le> frame_start out i" "\<forall>j. k \<le> j \<and> j < i \<longrightarrow> frame_start out j < scan"
proof -
  have "\<exists>i. filter (\<lambda>j. scan \<le> frame_start out j) [k ..< n] = [i ..< n] \<and> k \<le> i \<and> i \<le> n
      \<and> (i < n \<longrightarrow> scan \<le> frame_start out i) \<and> (\<forall>j. k \<le> j \<and> j < i \<longrightarrow> frame_start out j < scan)" if "k \<le> n" "n \<le> length out" for n
    using that
  proof (induction n)
    case (Suc n)
    show ?case
    proof (cases "k = Suc n")
      case False
      then obtain i where i: "filter (\<lambda>j. scan \<le> frame_start out j) [k ..< n] = [i ..< n]" "k \<le> i" "i \<le> n"
          "i < n \<longrightarrow> scan \<le> frame_start out i" "\<forall>j. k \<le> j \<and> j < i \<longrightarrow> frame_start out j < scan"
        using Suc by auto
      show ?thesis
      proof (cases "scan \<le> frame_start out n")
        case True
        then show ?thesis
          using i Suc.prems False by (intro exI [of _ i]) (auto simp: le_less)
      next
        case below: False
        then have "i = n"
          using i frame_start_mono [of i n out] by fastforce
        then show ?thesis
          using i below Suc.prems False by (intro exI [of _ "Suc n"]) (auto simp: less_Suc_eq)
      qed
    qed (intro exI [of _ "Suc n"], simp)
  qed simp
  from this [OF k order_refl] show ?thesis
    using that by (auto simp: rows_from_def session_table) (auto simp: table_of_def filter_map comp_def)
qed

lemma findCovering_table:
  assumes out: "[] \<notin> set out" and c: "findCoveringChunk sid cursor (table_of sid out k) = Some c"
  obtains i where "c = chunk_at sid out i" "k \<le> i" "i < length out" "frame_start out i \<le> cursor"
    "Suc i < length out \<longrightarrow> cursor < frame_start out (Suc i)"
proof -
  obtain xs ys where split: "table_of sid out k = xs @ c # ys" and low: "oc_byteOffset c \<le> cursor"
      and above: "\<forall>d \<in> set ys. cursor < oc_byteOffset d"
    using findCoveringChunk_Some [OF c] unfolding session_table by blast
  then have "c \<in> set (table_of sid out k)"
    by simp
  then obtain i where i: "c = chunk_at sid out i" "k \<le> i" "i < length out"
    by (auto simp: table_of_def)
  have "cursor < frame_start out (Suc i)" if next_chunk: "Suc i < length out"
  proof -
    have later: "frame_start out i < frame_start out (Suc i)"
      using frame_start_less [OF out] i by simp
    have "chunk_at sid out (Suc i) \<in> set (table_of sid out k)"
      using i next_chunk by (simp add: table_of_def)
    moreover have "chunk_at sid out (Suc i) \<notin> set xs"
      using table_wf [OF out, of sid k] i later unfolding split by (fastforce simp: chunks_wf_append chunk_end_def)
    moreover have "chunk_at sid out (Suc i) \<noteq> c"
      using i later by (auto simp: chunk_at_def)
    ultimately show ?thesis
      using above unfolding split by fastforce
  qed
  then show ?thesis
    using that i low by simp
qed

lemma read_start_run:
  assumes out: "[] \<notin> set out" and k: "k \<le> length out" and cursor: "cursor \<le> length (concat out)"
    and stored: "full \<longrightarrow> frame_start out k \<le> cursor"
    and first: "read_start sid cursor None n (table_of sid out k) = (r, scan)"
  shows "\<exists>ps. read_rel cursor n (bytes_at out ps) r \<and> run_of full cursor scan ps \<and> scan \<le> length (concat out)
    \<and> (full \<longrightarrow> (\<exists>j \<le> length out. scan = frame_start out j))"
proof -
  define r0 where "r0 = \<lparr>rr_data = [], rr_first = None, rr_consumedEnd = cursor, rr_remaining = n, rr_truncated = False\<rparr>"
  have rel0: "read_rel cursor n [] r0" and open0: "\<not> rr_truncated r0"
    by (simp_all add: read_rel_def r0_def range_result_of_def range_reference_def)
  let ?cover = "findCoveringChunk sid cursor (table_of sid out k)"
  show ?thesis
  proof (cases "\<exists>c. ?cover = Some c \<and> chunk_end c > cursor")
    case True
    then obtain c where c: "?cover = Some c" "chunk_end c > cursor"
      by blast
    then obtain i where i: "c = chunk_at sid out i" "i < length out" and low: "frame_start out i \<le> cursor"
      using findCovering_table [OF out c(1)] by metis
    have "read_rel cursor n (window_bytes cursor None [c]) r" "scan = frame_start out (Suc i)"
      using first c read_rel_pushSlice [OF rel0 open0, of None c]
      by (cases "pushSlice cursor None c r0"; auto simp: read_start_def r0_def [symmetric] i chunk_end_at)+
    moreover have "window_bytes cursor None [c] = bytes_at out [cursor ..< frame_start out (Suc i)]"
      using window_chunks [of i "Suc i" out cursor sid] i low by (simp add: bytes_at_def max_def)
    ultimately show ?thesis
      using c i frame_start_bound [of out "Suc i"]
      by (intro exI [of _ "[cursor ..< scan]"]) (auto simp: chunk_end_at intro!: run_of_upt exI [of _ "Suc i"])
  next
    case False
    then have r: "r = r0" "scan = cursor"
      using first by (auto simp: read_start_def r0_def Let_def split: option.splits if_splits)
    have "length (concat out) \<le> cursor" if complete: full
    proof (cases ?cover)
      case None
      have "\<not> k < length out"
        using findCoveringChunk_None [OF None, unfolded session_table, of "chunk_at sid out k"] stored complete by (auto simp: table_of_def)
      then show ?thesis
        using stored complete by (simp add: frame_start_end)
    next
      case (Some c)
      then obtain i where i: "c = chunk_at sid out i" "i < length out" "Suc i < length out \<longrightarrow> cursor < frame_start out (Suc i)"
        using findCovering_table [OF out Some] by metis
      then show ?thesis
        using False Some frame_start_end [of out "Suc i"] by (cases "Suc i < length out") (auto simp: chunk_end_at not_less)
    qed
    then show ?thesis
      using rel0 cursor by (auto simp: r bytes_at_def frame_start_end intro!: exI [of _ "[]"] run_of_empty exI [of _ "length out"])
  qed
qed

lemma boundary_index:
  assumes out: "[] \<notin> set out" and k: "k \<le> length out" and j: "j \<le> length out \<and> scan = frame_start out j \<and> frame_start out k \<le> scan"
    and i: "i \<le> length out" "i < length out \<longrightarrow> scan \<le> frame_start out i" "\<forall>j. k \<le> j \<and> j < i \<longrightarrow> frame_start out j < scan"
  shows "scan = frame_start out i"
proof -
  have "k \<le> j"
    using j k frame_start_le_iff [OF out, of k j] by simp
  then have "\<not> j < i"
    using i j by auto
  moreover have "\<not> i < j"
    using i j frame_start_less [OF out, of i j] by auto
  ultimately show ?thesis
    using j by (cases "i = j") auto
qed

lemma read_page_run:
  assumes out: "[] \<notin> set out" and k: "k \<le> length out"
    and stored: "full \<longrightarrow> frame_start out k \<le> scan" and bound: "full \<longrightarrow> (\<exists>j \<le> length out. scan = frame_start out j)"
    and rel: "read_rel cursor n (bytes_at out ps) r" and more: "\<not> rr_truncated r"
    and run: "run_of full cursor scan ps" and scan: "scan \<le> length (concat out)"
    and page: "read_page sid cursor None (table_of sid out k) r scan = (stop, r', scan')"
  shows "\<exists>ps'. read_rel cursor n (bytes_at out ps') r' \<and> run_of full cursor scan' ps' \<and> scan' \<le> length (concat out)
    \<and> (full \<longrightarrow> (\<exists>j \<le> length out. scan' = frame_start out j)) \<and> (full \<and> stop \<longrightarrow> scan' = length (concat out))"
proof -
  obtain i where i: "rows_from sid scan None (table_of sid out k) = map (chunk_at sid out) [i ..< length out]" "k \<le> i" "i \<le> length out"
      "i < length out \<longrightarrow> scan \<le> frame_start out i" "\<forall>j. k \<le> j \<and> j < i \<longrightarrow> frame_start out j < scan"
    by (rule rows_from_table [OF out k, where sid = sid and scan = scan])
  have at: "scan = frame_start out i" if complete: full
    using bound stored boundary_index [OF out k _ i(3-5)] complete by metis
  show ?thesis
  proof (cases "i = length out")
    case True
    then have "stop" "r' = r" "scan' = scan"
      using page i by (auto simp: read_page_def listChunksFrom_rows)
    then show ?thesis
      using rel run scan at True by (auto simp: frame_start_end intro!: exI [of _ ps])
  next
    case False
    define i' where "i' = min (length out) (i + READ_BATCH_ROWS)"
    have i': "i < i'" "i' \<le> length out"
      using i False by (auto simp: i'_def READ_BATCH_ROWS_def)
    have rows: "listChunksFrom sid scan READ_BATCH_ROWS None (table_of sid out k) = map (chunk_at sid out) [i ..< i']"
      using i' by (auto simp: listChunksFrom_rows i take_map take_upt i'_def min_def)
    have last: "last (map (chunk_at sid out) [i ..< i']) = chunk_at sid out (i' - 1)" "Suc (i' - 1) = i'"
      using i' by (simp_all add: last_map)
    have "out ! (i' - 1) \<noteq> []"
      using out i' by (metis Suc_le_eq last(2) nth_mem)
    then have end_row: "frame_start out (i' - 1) + max (length (out ! (i' - 1))) 1 = frame_start out i'"
      using frame_start_Suc [of "i' - 1" out] last(2) i' by (cases "out ! (i' - 1)") auto
    have r': "r' = push_rows cursor None (map (chunk_at sid out) [i ..< i']) r" "scan' = frame_start out i'" "stop = (i' - i < READ_BATCH_ROWS)"
      using page i' end_row by (auto simp: read_page_def rows last Let_def)
    have low: "cursor \<le> frame_start out i" "scan \<le> frame_start out i"
      using run i False by (auto simp: run_of_def)
    have "read_rel cursor n (bytes_at out ps @ bytes_at out [frame_start out i ..< frame_start out i']) r'"
      using read_rel_push_rows [OF rel more, of None "map (chunk_at sid out) [i ..< i']"] i' low
      by (simp add: r' window_chunks bytes_at_def max_def)
    moreover have "run_of full cursor scan' (ps @ [frame_start out i ..< frame_start out i'])"
    proof (rule run_of_append [OF run])
      show "run_of full scan scan' [frame_start out i ..< frame_start out i']"
        using low at frame_start_mono [of i i' out] i' by (auto simp: run_of_def r')
    qed
    moreover have "stop \<longrightarrow> scan' = length (concat out)"
      using i' by (auto simp: r' i'_def min_def frame_start_end split: if_splits)
    moreover have "scan' \<le> length (concat out)" "\<exists>j \<le> length out. scan' = frame_start out j"
      using i' frame_start_bound [of out i'] by (auto simp: r'(2))
    ultimately show ?thesis
      by (intro exI [of _ "ps @ [frame_start out i ..< frame_start out i']"]) simp
  qed
qed

section \<open>Events on the way to the client\<close>

lemma output_event_replay: "output_event off data = replay_event off data (off + length data)"
  by (simp add: output_event_def replay_event_def)

lemma replay_event_simps [simp]:
  "ev_event (replay_event start data m) = ''terminal.output''" "ev_id (replay_event start data m) = Some (show_nat m)"
  "obj_get (ev_data (replay_event start data m)) ''data'' = JStr (b64_encode data)"
  "obj_get (ev_data (replay_event start data m)) ''byte_offset'' = JInt (int start)"
  by (simp_all add: replay_event_def obj_get_def)

fun wire_ok :: "byte list list \<Rightarrow> bool \<Rightarrow> nat \<Rightarrow> nat \<Rightarrow> sse_event list \<Rightarrow> bool" where
  "wire_ok out full a b [] = (a = b)"
| "wire_ok out full a b (e # es) =
     (\<exists>start ps m. e = replay_event start (map (\<lambda>p. concat out ! p) ps) m \<and> ps \<noteq> [] \<and> run_of full a m ps
        \<and> m \<le> length (concat out) \<and> wire_ok out full m b es)"

lemma wire_ok_ConsI:
  "e = replay_event start (map (\<lambda>p. concat out ! p) ps) m \<Longrightarrow> ps \<noteq> [] \<Longrightarrow> run_of full a m ps \<Longrightarrow> m \<le> length (concat out) \<Longrightarrow>
   wire_ok out full m b es \<Longrightarrow> wire_ok out full a b (e # es)"
  by auto

lemma wire_ok_snoc:
  "wire_ok out full a b es \<Longrightarrow> ps \<noteq> [] \<Longrightarrow> run_of full b m ps \<Longrightarrow> m \<le> length (concat out) \<Longrightarrow>
   wire_ok out full a m (es @ [replay_event start (map (\<lambda>p. concat out ! p) ps) m])"
proof (induction es arbitrary: a)
  case (Cons e es)
  then obtain start' ps' m' where "e = replay_event start' (map (\<lambda>p. concat out ! p) ps') m'" "ps' \<noteq> []" "run_of full a m' ps'"
      "m' \<le> length (concat out)" "wire_ok out full m' b es"
    by auto
  then show ?case
    using Cons.IH [of m'] Cons.prems by auto
qed auto

lemma wire_ok_weaken: "wire_ok out full a b es \<Longrightarrow> wire_ok out False a b es"
  by (induction es arbitrary: a) (auto intro: run_of_weaken)

lemma wire_ok_le: "wire_ok out full a b es \<Longrightarrow> a \<le> b"
  by (induction es arbitrary: a) (auto dest!: run_of_le intro: order_trans)

lemma bytes_extend:
  "run_of full a m ps \<Longrightarrow> m \<le> length (concat out) \<Longrightarrow> map (\<lambda>p. concat (out @ extra) ! p) ps = map (\<lambda>p. concat out ! p) ps"
  by (auto simp: run_of_def nth_append)

lemma wire_ok_extend: "wire_ok out full a b es \<Longrightarrow> wire_ok (out @ extra) full a b es"
proof (induction es arbitrary: a)
  case (Cons e es)
  then obtain start ps m where e: "e = replay_event start (map (\<lambda>p. concat out ! p) ps) m" "ps \<noteq> []" "run_of full a m ps"
      "m \<le> length (concat out)" "wire_ok out full m b es"
    by auto
  have "e = replay_event start (map (\<lambda>p. concat (out @ extra) ! p) ps) m"
    unfolding bytes_extend [OF e(3,4)] by (rule e(1))
  then show ?case
    by (rule wire_ok_ConsI) (use Cons.IH [OF e(5)] e(2-4) in auto)
qed simp

lemma b64_encode_nonempty: "data \<noteq> [] \<Longrightarrow> b64_encode data \<noteq> []"
  by (cases data rule: b64_encode.cases) auto

lemma handleOutput_replay:
  "data \<noteq> [] \<Longrightarrow> tc_applied c = Some a \<Longrightarrow> a \<le> m \<Longrightarrow>
   handleOutput (replay_event start data m) c = c\<lparr>tc_applied := Some m, tc_shown := tc_shown c @ data, tc_lastEventId := Some (show_nat m)\<rparr>"
  by (simp add: handleOutput_def Let_def b64_encode_nonempty b64_roundtrip resolveOutputEndOffset_def advanceAppliedOffset_def max_def)

lemma event_at_replay: "i < length out \<Longrightarrow> event_at out i = replay_event (frame_start out i) (out ! i) (frame_start out (Suc i))"
  by (simp add: event_at_def output_event_replay frame_start_Suc)

lemma sendEvent_at:
  "i < length out \<Longrightarrow> sendEvent (event_at out i) c =
     (if frame_start out i < tn_forwardedEnd c then c
      else c\<lparr>tn_forwardedEnd := frame_start out (Suc i), tn_sent := tn_sent c @ [event_at out i]\<rparr>)"
  by (simp add: event_at_replay sendEvent_def Let_def b64_roundtrip frame_start_Suc)

text \<open>The part of a connection that sending events maintains.\<close>

definition sent_ok :: "byte list list \<Rightarrow> bool \<Rightarrow> nat \<Rightarrow> term_conn \<Rightarrow> bool" where
  "sent_ok out full a c \<longleftrightarrow> tn_forwardedEnd c \<le> length (concat out) \<and> wire_ok out full a (tn_forwardedEnd c) (tn_sent c)"

lemma sendEvent_ok:
  assumes out: "[] \<notin> set out" and i: "i < length out" and ok: "sent_ok out full a c"
    and at: "full \<longrightarrow> (\<exists>j. i \<le> j \<and> j \<le> length out \<and> tn_forwardedEnd c = frame_start out j)"
  shows "sent_ok out full a (sendEvent (event_at out i) c)
    \<and> (full \<longrightarrow> (\<exists>j. Suc i \<le> j \<and> j \<le> length out \<and> tn_forwardedEnd (sendEvent (event_at out i) c) = frame_start out j))"
proof (cases "frame_start out i < tn_forwardedEnd c")
  case True
  have "\<exists>j. Suc i \<le> j \<and> j \<le> length out \<and> tn_forwardedEnd c = frame_start out j" if complete: full
  proof -
    obtain j where j: "i \<le> j" "j \<le> length out" "tn_forwardedEnd c = frame_start out j"
      using at complete by blast
    then have "i \<noteq> j"
      using True by auto
    then show ?thesis
      using j by (intro exI [of _ j]) simp
  qed
  then show ?thesis
    using True ok by (simp add: sendEvent_at [OF i])
next
  case False
  have "tn_forwardedEnd c = frame_start out i" if complete: full
    using at complete False frame_start_mono [of i _ out] by (metis le_antisym linorder_not_less)
  then have "run_of full (tn_forwardedEnd c) (frame_start out (Suc i)) [frame_start out i ..< frame_start out (Suc i)]"
    using False frame_start_mono [of i "Suc i" out] by (auto simp: run_of_def)
  moreover have "[frame_start out i ..< frame_start out (Suc i)] \<noteq> []"
    using frame_start_less [OF out, of i "Suc i"] i by simp
  ultimately have "wire_ok out full a (frame_start out (Suc i)) (tn_sent c @ [event_at out i])"
    using ok wire_ok_snoc [OF _ _ _ frame_start_bound, of out full a "tn_forwardedEnd c" "tn_sent c" "[frame_start out i ..< frame_start out (Suc i)]" "Suc i" "frame_start out i"]
    by (simp add: sent_ok_def event_at_replay [OF i] frame_bytes [OF i, symmetric])
  then show ?thesis
    using False i frame_start_bound [of out "Suc i"] by (auto simp: sendEvent_at [OF i] sent_ok_def intro!: exI [of _ "Suc i"])
qed

lemma sendEvent_phase [simp]: "tn_phase (sendEvent e c) = tn_phase c" "tn_queued (sendEvent e c) = tn_queued c"
  by (auto simp: sendEvent_def Let_def split: json.splits)

lemma send_all_ok:
  assumes "[] \<notin> set out" "q \<le> p" "p \<le> length out" "sent_ok out full a c"
    and "full \<longrightarrow> (\<exists>j. q \<le> j \<and> j \<le> length out \<and> tn_forwardedEnd c = frame_start out j)"
  defines "c' \<equiv> foldl (\<lambda>c e. sendEvent e c) c (map (event_at out) [q ..< p])"
  shows "sent_ok out full a c' \<and> tn_phase c' = tn_phase c \<and> tn_queued c' = tn_queued c
    \<and> (full \<longrightarrow> (\<exists>j. p \<le> j \<and> j \<le> length out \<and> tn_forwardedEnd c' = frame_start out j))"
  using assms(2,3) unfolding c'_def
proof (induction p)
  case 0
  then show ?case
    using assms by simp
next
  case (Suc p)
  show ?case
  proof (cases "q = Suc p")
    case True
    then show ?thesis
      using assms by simp
  next
    case False
    then have "q \<le> p" "p < length out"
      using Suc.prems by auto
    then show ?thesis
      using Suc.IH sendEvent_ok [OF assms(1), of p full a "foldl (\<lambda>c e. sendEvent e c) c (map (event_at out) [q ..< p])"] by simp
  qed
qed

section \<open>The invariant\<close>

definition phase_ok :: "byte list list \<Rightarrow> nat \<Rightarrow> bool \<Rightarrow> nat \<Rightarrow> replay_phase \<Rightarrow> bool" where
  "phase_ok out q full F ph =
     (case ph of
        ReadFrom cursor \<Rightarrow> cursor = F
      | Paging cursor r scan \<Rightarrow>
          cursor = F \<and> \<not> rr_truncated r
          \<and> (\<exists>ps. read_rel cursor REPLAY_BYTES (bytes_at out ps) r \<and> run_of full cursor scan ps \<and> scan \<le> length (concat out)
               \<and> (full \<longrightarrow> (\<exists>j \<le> length out. scan = frame_start out j)))
      | Served cursor r \<Rightarrow>
          cursor = F
          \<and> (\<exists>ps m. read_rel cursor REPLAY_BYTES (bytes_at out ps) r \<and> run_of full cursor m ps \<and> m \<le> length (concat out)
               \<and> (full \<and> \<not> rr_truncated r \<longrightarrow> (\<exists>j \<le> length out. q \<le> j \<and> m = frame_start out j)))
      | Replayed \<Rightarrow> True)"

text \<open>\<open>p\<close> is the number of frames emitted.  While the replay runs, the queue holds the frames emitted since
  the connection was opened.\<close>

definition conn_ok :: "byte list list \<Rightarrow> nat \<Rightarrow> bool \<Rightarrow> nat \<Rightarrow> term_conn \<Rightarrow> bool" where
  "conn_ok out p full a c \<longleftrightarrow>
     sent_ok out full a c
     \<and> (if tn_phase c = Replayed
        then tn_queued c = [] \<and> (full \<longrightarrow> (\<exists>j. p \<le> j \<and> j \<le> length out \<and> tn_forwardedEnd c = frame_start out j))
        else \<exists>q \<le> p. tn_queued c = map (event_at out) [q ..< p] \<and> phase_ok out q full (tn_forwardedEnd c) (tn_phase c))"

lemma phase_ok_PagingI:
  "read_rel F REPLAY_BYTES (bytes_at out ps) r \<Longrightarrow> run_of full F scan ps \<Longrightarrow> scan \<le> length (concat out) \<Longrightarrow> \<not> rr_truncated r \<Longrightarrow>
   full \<longrightarrow> (\<exists>j \<le> length out. scan = frame_start out j) \<Longrightarrow> phase_ok out q full F (Paging F r scan)"
  by (auto simp: phase_ok_def)

lemma phase_ok_ServedI:
  "read_rel F REPLAY_BYTES (bytes_at out ps) r \<Longrightarrow> run_of full F m ps \<Longrightarrow> m \<le> length (concat out) \<Longrightarrow>
   full \<and> \<not> rr_truncated r \<longrightarrow> (\<exists>j \<le> length out. q \<le> j \<and> m = frame_start out j) \<Longrightarrow> phase_ok out q full F (Served F r)"
  unfolding phase_ok_def by (simp, blast)

lemma phase_ok_weaken: "phase_ok out q full F ph \<Longrightarrow> phase_ok out q False F ph"
  by (auto simp: phase_ok_def dest: run_of_weaken split: replay_phase.splits)

lemma conn_ok_weaken: "conn_ok out p full a c \<Longrightarrow> conn_ok out p False a c"
  using phase_ok_weaken [of out _ full "tn_forwardedEnd c" "tn_phase c"] wire_ok_weaken [of out full a "tn_forwardedEnd c" "tn_sent c"]
  unfolding conn_ok_def sent_ok_def by (cases "tn_phase c = Replayed") (simp_all, blast)

lemma conn_ok_mono: "conn_ok out p full a c \<Longrightarrow> (full' \<Longrightarrow> full) \<Longrightarrow> conn_ok out p full' a c"
  using conn_ok_weaken [of out p full a c] by (cases full') auto

lemma run_of_bytes_extend:
  "run_of full a m ps \<Longrightarrow> m \<le> length (concat out) \<Longrightarrow> bytes_at (out @ extra) ps = bytes_at out ps"
  by (auto simp: run_of_def intro!: bytes_at_extend)

lemma boundary_extend:
  "\<exists>j \<le> length out. q \<le> j \<and> m = frame_start out j \<Longrightarrow> \<exists>j \<le> length (out @ extra). q \<le> j \<and> m = frame_start (out @ extra) j"
  by (metis frame_start_append le_add1 length_append order_trans)

lemma phase_ok_extend: "phase_ok out q full F ph \<Longrightarrow> phase_ok (out @ extra) q full F ph"
proof (cases ph)
  case (Paging cursor r scan)
  assume "phase_ok out q full F ph"
  then obtain ps where ps: "read_rel cursor REPLAY_BYTES (bytes_at out ps) r" "run_of full cursor scan ps" "scan \<le> length (concat out)"
      "full \<longrightarrow> (\<exists>j \<le> length out. 0 \<le> j \<and> scan = frame_start out j)" "cursor = F" "\<not> rr_truncated r"
    by (auto simp: phase_ok_def Paging)
  then have "full \<longrightarrow> (\<exists>j \<le> length (out @ extra). 0 \<le> j \<and> scan = frame_start (out @ extra) j)"
    using boundary_extend [of out 0 scan extra] by blast
  then show ?thesis
    unfolding Paging \<open>cursor = F\<close> using ps run_of_bytes_extend [OF ps(2,3), of extra]
    by (intro phase_ok_PagingI [where ps = ps]) simp_all
next
  case (Served cursor r)
  assume "phase_ok out q full F ph"
  then obtain ps m where ps: "read_rel cursor REPLAY_BYTES (bytes_at out ps) r" "run_of full cursor m ps" "m \<le> length (concat out)"
      "full \<and> \<not> rr_truncated r \<longrightarrow> (\<exists>j \<le> length out. q \<le> j \<and> m = frame_start out j)" "cursor = F"
    by (auto simp: phase_ok_def Served)
  then have "full \<and> \<not> rr_truncated r \<longrightarrow> (\<exists>j \<le> length (out @ extra). q \<le> j \<and> m = frame_start (out @ extra) j)"
    using boundary_extend [of out q m extra] by blast
  then show ?thesis
    unfolding Served \<open>cursor = F\<close> using ps run_of_bytes_extend [OF ps(2,3), of extra]
    by (intro phase_ok_ServedI [where ps = ps and m = m]) simp_all
qed (auto simp: phase_ok_def)

lemma conn_ok_extend:
  assumes "conn_ok out p full a c" "p \<le> length out"
  shows "conn_ok (out @ extra) p full a c"
proof -
  have sent: "sent_ok (out @ extra) full a c"
    using assms wire_ok_extend [of out full a "tn_forwardedEnd c" "tn_sent c" extra] by (simp add: conn_ok_def sent_ok_def)
  show ?thesis
  proof (cases "tn_phase c = Replayed")
    case True
    then show ?thesis
      using assms sent boundary_extend [of out p "tn_forwardedEnd c" extra] unfolding conn_ok_def by auto
  next
    case False
    then obtain q where q: "q \<le> p" "tn_queued c = map (event_at out) [q ..< p]" "phase_ok out q full (tn_forwardedEnd c) (tn_phase c)"
      using assms by (auto simp: conn_ok_def)
    have "map (event_at out) [q ..< p] = map (event_at (out @ extra)) [q ..< p]"
      using assms(2) by (simp add: event_at_append)
    then show ?thesis
      using False sent q phase_ok_extend [OF q(3), of extra] by (auto simp: conn_ok_def)
  qed
qed

lemma on_emit_ok:
  assumes out: "[] \<notin> set out" and p: "Suc p \<le> length out" and ok: "conn_ok out p full a c"
  shows "conn_ok out (Suc p) full a (on_emit (event_at out p) c)"
proof (cases "tn_phase c = Replayed")
  case True
  then show ?thesis
    using ok sendEvent_ok [OF out, of p full a c] p by (simp add: on_emit_def conn_ok_def)
next
  case False
  then obtain q where q: "q \<le> p" "tn_queued c = map (event_at out) [q ..< p]" "phase_ok out q full (tn_forwardedEnd c) (tn_phase c)"
    using ok by (auto simp: conn_ok_def)
  then have "tn_queued (on_emit (event_at out p) c) = map (event_at out) [q ..< Suc p]"
    using False by (simp add: on_emit_def)
  then show ?thesis
    using False ok q unfolding conn_ok_def sent_ok_def by (auto simp: on_emit_def intro!: exI [of _ q])
qed

lemma flush_ok:
  assumes out: "[] \<notin> set out" and q: "q \<le> p" "p \<le> length out" and ok: "sent_ok out full a c"
    and queued: "tn_queued c = map (event_at out) [q ..< p]"
    and at: "full \<longrightarrow> (\<exists>j. q \<le> j \<and> j \<le> length out \<and> tn_forwardedEnd c = frame_start out j)"
  shows "conn_ok out p full a (flush_queued c)"
  using send_all_ok [OF out q, of full a "c\<lparr>tn_phase := Replayed, tn_queued := []\<rparr>"] ok at
  by (simp add: flush_queued_def queued conn_ok_def sent_ok_def)

lemma conn_ok_phase:
  assumes "conn_ok out p full a c" "tn_phase c \<noteq> Replayed"
  obtains q where "q \<le> p" "tn_queued c = map (event_at out) [q ..< p]" "phase_ok out q full (tn_forwardedEnd c) (tn_phase c)"
    "sent_ok out full a c" "a \<le> tn_forwardedEnd c" "tn_forwardedEnd c \<le> length (concat out)"
  using assms wire_ok_le [of out full a "tn_forwardedEnd c" "tn_sent c"] by (auto simp: conn_ok_def sent_ok_def)

lemma conn_ok_phaseI:
  "sent_ok out full a c \<Longrightarrow> q \<le> p \<Longrightarrow> tn_queued c = map (event_at out) [q ..< p] \<Longrightarrow>
   ph \<noteq> Replayed \<Longrightarrow> phase_ok out q full (tn_forwardedEnd c) ph \<Longrightarrow> conn_ok out p full a (c\<lparr>tn_phase := ph\<rparr>)"
  unfolding conn_ok_def sent_ok_def by auto

lemma replay_query_ok:
  assumes out: "[] \<notin> set out" and k: "k \<le> length out" and p: "p \<le> length out"
    and stored: "full \<longrightarrow> frame_start out k \<le> a" and ok: "conn_ok out p full a c"
  shows "conn_ok out p full a (replay_query sid (table_of sid out k) c)"
proof (cases "tn_phase c")
  case (ReadFrom cursor)
  then obtain q where q: "q \<le> p" "tn_queued c = map (event_at out) [q ..< p]" "phase_ok out q full (tn_forwardedEnd c) (tn_phase c)"
      "sent_ok out full a c" "a \<le> tn_forwardedEnd c" "tn_forwardedEnd c \<le> length (concat out)"
    using conn_ok_phase [OF ok] by auto
  then have F: "tn_forwardedEnd c = cursor"
    by (simp add: phase_ok_def ReadFrom)
  obtain r scan where first: "read_start sid cursor None REPLAY_BYTES (table_of sid out k) = (r, scan)"
    by fastforce
  have "full \<longrightarrow> frame_start out k \<le> cursor"
    using stored q(5) F by linarith
  then obtain ps where ps: "read_rel cursor REPLAY_BYTES (bytes_at out ps) r" "run_of full cursor scan ps" "scan \<le> length (concat out)"
      "full \<longrightarrow> (\<exists>j \<le> length out. scan = frame_start out j)"
    using read_start_run [OF out k _ _ first, of full] q(6) F by auto
  show ?thesis
  proof (cases "rr_truncated r")
    case True
    then have "phase_ok out q full cursor (Served cursor r)"
      by (intro phase_ok_ServedI [OF ps(1-3)]) simp
    then show ?thesis
      using conn_ok_phaseI [OF q(4,1,2), of "Served cursor r"] F True by (simp add: replay_query_def ReadFrom first read_more_def)
  next
    case False
    then have "phase_ok out q full cursor (Paging cursor r scan)"
      by (intro phase_ok_PagingI [OF ps(1-3) _ ps(4)]) simp
    then show ?thesis
      using conn_ok_phaseI [OF q(4,1,2), of "Paging cursor r scan"] F False by (simp add: replay_query_def ReadFrom first read_more_def)
  qed
next
  case (Paging cursor r scan)
  then obtain q where q: "q \<le> p" "tn_queued c = map (event_at out) [q ..< p]" "phase_ok out q full (tn_forwardedEnd c) (tn_phase c)"
      "sent_ok out full a c" "a \<le> tn_forwardedEnd c"
    using conn_ok_phase [OF ok] by auto
  then obtain ps where F: "tn_forwardedEnd c = cursor" and more: "\<not> rr_truncated r"
      and ps: "read_rel cursor REPLAY_BYTES (bytes_at out ps) r" "run_of full cursor scan ps" "scan \<le> length (concat out)"
      "full \<longrightarrow> (\<exists>j \<le> length out. scan = frame_start out j)"
    by (auto simp: phase_ok_def Paging)
  obtain stop r' scan' where page: "read_page sid cursor None (table_of sid out k) r scan = (stop, r', scan')"
    by (cases "read_page sid cursor None (table_of sid out k) r scan") auto
  have "full \<longrightarrow> frame_start out k \<le> scan"
    using stored q(5) F run_of_le [OF ps(2)] by linarith
  then obtain ps' where ps': "read_rel cursor REPLAY_BYTES (bytes_at out ps') r'" "run_of full cursor scan' ps'" "scan' \<le> length (concat out)"
      "full \<longrightarrow> (\<exists>j \<le> length out. scan' = frame_start out j)" "full \<and> stop \<longrightarrow> scan' = length (concat out)"
    using read_page_run [OF out k _ ps(4,1) more ps(2,3) page] by blast
  show ?thesis
  proof (cases "stop \<or> rr_truncated r'")
    case True
    then have "full \<and> \<not> rr_truncated r' \<longrightarrow> (\<exists>j \<le> length out. q \<le> j \<and> scan' = frame_start out j)"
      using ps'(5) q(1) p by (auto simp: frame_start_end intro!: exI [of _ "length out"])
    then have "phase_ok out q full cursor (Served cursor r')"
      by (intro phase_ok_ServedI [OF ps'(1-3)])
    then show ?thesis
      using conn_ok_phaseI [OF q(4,1,2), of "Served cursor r'"] F True by (auto simp: replay_query_def Paging page read_more_def)
  next
    case False
    then have "phase_ok out q full cursor (Paging cursor r' scan')"
      by (intro phase_ok_PagingI [OF ps'(1-3) _ ps'(4)]) simp
    then show ?thesis
      using conn_ok_phaseI [OF q(4,1,2), of "Paging cursor r' scan'"] F False by (simp add: replay_query_def Paging page read_more_def)
  qed
qed (use ok in \<open>simp_all add: replay_query_def\<close>)

lemma send_read_ok:
  assumes ok: "sent_ok out full a c" and run: "run_of full (tn_forwardedEnd c) (rg_endOffset read) qs"
    and data: "rg_data read = map (\<lambda>p. concat out ! p) qs" "rg_data read = [] \<Longrightarrow> rg_endOffset read = tn_forwardedEnd c"
    and bound: "rg_endOffset read \<le> length (concat out)"
  shows "sent_ok out full a (send_read read c) \<and> tn_forwardedEnd (send_read read c) = rg_endOffset read
    \<and> tn_queued (send_read read c) = tn_queued c"
proof (cases "rg_data read = []")
  case True
  then show ?thesis
    using ok data by (simp add: send_read_def)
next
  case False
  then show ?thesis
    using ok wire_ok_snoc [of out full a "tn_forwardedEnd c" "tn_sent c" qs] run data bound run_of_le [OF run]
    by (simp add: send_read_def sent_ok_def max_def)
qed

lemma replay_continue_ok:
  assumes out: "[] \<notin> set out" and p: "p \<le> length out" and ok: "conn_ok out p full a c"
  shows "conn_ok out p full a (replay_continue c)"
proof (cases "tn_phase c")
  case (Served cursor r)
  then obtain q where q: "q \<le> p" "tn_queued c = map (event_at out) [q ..< p]" "phase_ok out q full (tn_forwardedEnd c) (tn_phase c)"
      "sent_ok out full a c"
    using conn_ok_phase [OF ok] by auto
  then obtain ps m where F: "tn_forwardedEnd c = cursor" and ps: "read_rel cursor REPLAY_BYTES (bytes_at out ps) r" "run_of full cursor m ps"
      "m \<le> length (concat out)" "full \<and> \<not> rr_truncated r \<longrightarrow> (\<exists>j \<le> length out. q \<le> j \<and> m = frame_start out j)"
    by (auto simp: phase_ok_def Served)
  define res where "res = range_result_of cursor r"
  note result = range_result_run [OF ps(1,2), folded res_def]
  obtain qs where qs: "run_of full cursor (rg_endOffset res) qs" "rg_data res = map (\<lambda>p. concat out ! p) qs"
    using result(1) by blast
  have sent: "sent_ok out full a (send_read res c)" "tn_forwardedEnd (send_read res c) = rg_endOffset res"
      "tn_queued (send_read res c) = map (event_at out) [q ..< p]"
    using send_read_ok [OF q(4), of res qs] qs result(2,3) ps(3) F q(2) by auto
  show ?thesis
  proof (cases "rr_truncated r")
    case True
    then have "replay_continue c = (send_read res c)\<lparr>tn_phase := ReadFrom (rg_endOffset res)\<rparr>"
      by (simp add: replay_continue_def Served res_def [symmetric] Let_def) (simp add: res_def range_result_of_def)
    then show ?thesis
      using conn_ok_phaseI [OF sent(1) q(1) sent(3), of "ReadFrom (rg_endOffset res)"] sent(2) by (simp add: phase_ok_def)
  next
    case False
    then have "replay_continue c = flush_queued (send_read res c)"
      by (simp add: replay_continue_def Served res_def [symmetric] Let_def) (simp add: res_def range_result_of_def)
    then show ?thesis
      using flush_ok [OF out q(1) p sent(1,3)] result(4) False ps(4) sent(2) by auto
  qed
qed (use ok in \<open>simp_all add: replay_continue_def\<close>)

definition emitted_frames :: "stream_sys \<Rightarrow> nat" where
  "emitted_frames s = (if ss_emitting s = None then length (ss_output s) else length (ss_output s) - 1)"

text \<open>The cursor that the next request will carry is what the client has applied.\<close>

definition url_ok :: "term_client \<Rightarrow> nat \<Rightarrow> bool" where
  "url_ok cl a \<longleftrightarrow>
     (\<forall>u. tc_url cl = Some u \<longrightarrow> (\<exists>f. u = show_nat f
        \<and> (if tc_lastEventId cl = None then f = a else f \<le> a \<and> tc_lastEventId cl = Some (show_nat a))))"

definition client_ok :: "byte list list \<Rightarrow> bool \<Rightarrow> nat \<Rightarrow> term_client \<Rightarrow> bool" where
  "client_ok out full base cl \<longleftrightarrow>
     (case tc_applied cl of
        None \<Rightarrow> tc_shown cl = [] \<and> tc_url cl = None
      | Some a \<Rightarrow>
          a \<le> length (concat out) \<and> (\<exists>ps. run_of full base a ps \<and> tc_shown cl = map (\<lambda>p. concat out ! p) ps)
          \<and> url_ok cl a)"

definition table_ok :: "string \<Rightarrow> byte list list \<Rightarrow> bool \<Rightarrow> nat \<Rightarrow> out_chunk list \<Rightarrow> bool" where
  "table_ok sid out full a tab \<longleftrightarrow> (\<exists>k \<le> length out. tab = table_of sid out k \<and> (full \<longrightarrow> frame_start out k \<le> a))"

definition stream_inv :: "string \<Rightarrow> stream_sys \<Rightarrow> bool" where
  "stream_inv sid s \<longleftrightarrow>
     [] \<notin> set (ss_output s) \<and> int (output_end s) \<le> MAX_SAFE_INTEGER
     \<and> table_ok sid (ss_output s) (\<not> ss_gap s) (applied s) (ss_chunks s)
     \<and> (\<forall>e. ss_emitting s = Some e \<longrightarrow> ss_output s \<noteq> [] \<and> e = event_at (ss_output s) (length (ss_output s) - 1))
     \<and> client_ok (ss_output s) (\<not> ss_gap s) (ss_base s) (ss_client s)
     \<and> (\<forall>c. ss_conn s = Some c \<longrightarrow>
          tc_url (ss_client s) \<noteq> None \<and> conn_ok (ss_output s) (emitted_frames s) (\<not> ss_gap s) (applied s) c)"

lemma emitted_frames_le: "emitted_frames s \<le> length (ss_output s)"
  by (simp add: emitted_frames_def)

lemma client_ok_extend: "client_ok out full base cl \<Longrightarrow> client_ok (out @ extra) full base cl"
proof (cases "tc_applied cl")
  case (Some a)
  assume ok: "client_ok out full base cl"
  then obtain ps where "run_of full base a ps" "tc_shown cl = map (\<lambda>p. concat out ! p) ps" "a \<le> length (concat out)"
    by (auto simp: client_ok_def Some)
  then have "\<exists>ps. run_of full base a ps \<and> tc_shown cl = map (\<lambda>p. concat (out @ extra) ! p) ps"
    using bytes_extend [of full base a ps out extra] by metis
  then show ?thesis
    using ok by (simp add: client_ok_def Some)
qed (simp add: client_ok_def)

lemma client_ok_weaken: "client_ok out full base cl \<Longrightarrow> (full' \<Longrightarrow> full) \<Longrightarrow> client_ok out full' base cl"
  unfolding client_ok_def by (cases full') (auto split: option.splits dest: run_of_weaken)

lemma table_of_snoc: "k \<le> length out \<Longrightarrow> table_of sid (out @ [data]) k = table_of sid out k @ [chunk_at sid (out @ [data]) (length out)]"
  by (simp add: table_of_def chunk_at_append)

lemma next_offset_fresh:
  assumes "stream_inv sid s"
  shows "\<not> (\<exists>c \<in> set (ss_chunks s). oc_sessionId c = sid \<and> oc_byteOffset c = output_end s)"
proof -
  define out where "out = ss_output s"
  obtain k where k: "ss_chunks s = table_of sid out k" and out: "[] \<notin> set out"
    using assms by (auto simp: stream_inv_def table_ok_def out_def)
  have "frame_start out i < output_end s" if "i < length out" for i
    using frame_start_less [OF out that that] by (simp add: output_end_def out_def frame_start_end)
  then have "oc_byteOffset c \<noteq> output_end s" if "c \<in> set (ss_chunks s)" for c
    using that by (auto simp: k table_of_def) (metis less_irrefl)
  then show ?thesis
    by blast
qed

lemma store_ok:
  assumes inv: "stream_inv sid s" and idle: "ss_emitting s = None" and data: "data \<noteq> []"
    and bound: "int (output_end s + length data) \<le> MAX_SAFE_INTEGER"
  shows "stream_inv sid (store_frame sid data s)"
proof -
  define out where "out = ss_output s"
  obtain k where k: "k \<le> length out" "ss_chunks s = table_of sid out k" "\<not> ss_gap s \<longrightarrow> frame_start out k \<le> applied s"
    and out: "[] \<notin> set out"
    using inv by (auto simp: stream_inv_def table_ok_def out_def)
  have e: "output_end s = frame_start out (length out)"
    by (simp add: output_end_def out_def frame_start_end)
  have "insertChunk sid (output_end s) data (ss_chunks s)
      = (True, ss_chunks s @ [\<lparr>oc_sessionId = sid, oc_byteOffset = output_end s, oc_data = data\<rparr>])"
    unfolding insertChunk_def by (rule if_not_P [OF next_offset_fresh [OF inv]])
  moreover have "chunk_at sid (out @ [data]) (length out) = \<lparr>oc_sessionId = sid, oc_byteOffset = output_end s, oc_data = data\<rparr>"
    by (simp add: chunk_at_def e frame_start_append)
  ultimately have s': "store_frame sid data s = s\<lparr>ss_chunks := table_of sid (out @ [data]) k, ss_output := out @ [data],
      ss_emitting := Some (event_at (out @ [data]) (length out))\<rparr>"
    by (simp add: store_frame_def Let_def k(2) table_of_snoc [OF k(1)] out_def [symmetric] event_at_def e frame_start_append)
  have "table_ok sid (out @ [data]) (\<not> ss_gap s) (applied s) (table_of sid (out @ [data]) k)"
    using k by (auto simp: table_ok_def frame_start_append intro!: exI [of _ k])
  moreover have "client_ok (out @ [data]) (\<not> ss_gap s) (ss_base s) (ss_client s)"
    using inv client_ok_extend by (simp add: stream_inv_def out_def)
  moreover have "conn_ok (out @ [data]) (length out) (\<not> ss_gap s) (applied s) c" if "ss_conn s = Some c" for c
    using inv that conn_ok_extend [of out "length out"] by (simp add: stream_inv_def emitted_frames_def idle out_def)
  ultimately show ?thesis
    using inv data bound out
    by (simp add: s' stream_inv_def output_end_def applied_def emitted_frames_def out_def [symmetric])
qed

lemma prune_ok:
  assumes inv: "stream_inv sid s"
  shows "stream_inv sid (prune_through sid cutoff s)"
proof -
  define out where "out = ss_output s"
  define s' where "s' = prune_through sid cutoff s"
  obtain k where k: "k \<le> length out" "ss_chunks s = table_of sid out k" "\<not> ss_gap s \<longrightarrow> frame_start out k \<le> applied s"
    and out: "[] \<notin> set out"
    using inv by (auto simp: stream_inv_def table_ok_def out_def)
  obtain i where i: "rows_from sid (Suc cutoff) None (table_of sid out k) = map (chunk_at sid out) [i ..< length out]" "k \<le> i" "i \<le> length out"
      "\<forall>j. k \<le> j \<and> j < i \<longrightarrow> frame_start out j < Suc cutoff"
    by (rule rows_from_table [OF out k(1), where sid = sid and scan = "Suc cutoff"])
  have "delete_through sid cutoff (table_of sid out k) = rows_from sid (Suc cutoff) None (table_of sid out k)"
    unfolding delete_through_def rows_from_def session_table
    by (rule filter_cong) (auto simp: table_of_def Suc_le_eq)
  then have tab: "ss_chunks s' = table_of sid out i"
    by (simp add: s'_def prune_through_def k(2) i(1)) (simp add: table_of_def)
  have "frame_start out i \<le> applied s" if complete: "\<not> ss_gap s'"
  proof (cases "i = k")
    case True
    then show ?thesis
      using k(3) complete by (simp add: s'_def prune_through_def)
  next
    case False
    then have j: "k \<le> i - 1" "i - 1 < i" "i - 1 < length out" "Suc (i - 1) = i"
      using i by auto
    then have "chunk_at sid out (i - 1) \<in> set (ss_chunks s)"
      by (simp add: k(2) table_of_def)
    moreover have "frame_start out (i - 1) \<le> cutoff"
      using i(4) j by (simp add: less_Suc_eq_le)
    ultimately show ?thesis
      using complete chunk_end_at [OF j(3), of sid] j(4) by (auto simp: s'_def prune_through_def not_less)
  qed
  then have "table_ok sid out (\<not> ss_gap s') (applied s) (ss_chunks s')"
    using tab i(3) by (auto simp: table_ok_def)
  moreover have "client_ok out (\<not> ss_gap s') (ss_base s) (ss_client s)"
    using inv by (auto simp: stream_inv_def s'_def prune_through_def out_def intro: client_ok_weaken)
  moreover have "conn_ok out (emitted_frames s) (\<not> ss_gap s') (applied s) c" if "ss_conn s = Some c" for c
    using inv that by (auto simp: stream_inv_def s'_def prune_through_def out_def intro: conn_ok_mono)
  moreover have "ss_output s' = out" "output_end s' = output_end s" "applied s' = applied s" "emitted_frames s' = emitted_frames s"
      "ss_emitting s' = ss_emitting s" "ss_conn s' = ss_conn s" "ss_client s' = ss_client s" "ss_base s' = ss_base s"
    by (simp_all add: s'_def prune_through_def output_end_def applied_def emitted_frames_def out_def)
  ultimately show ?thesis
    using inv unfolding s'_def [symmetric] stream_inv_def out_def [symmetric] by simp
qed

lemma emit_ok:
  assumes inv: "stream_inv sid s"
  shows "stream_inv sid (emit_frame s)"
proof (cases "ss_emitting s")
  case (Some e)
  define n where "n = length (ss_output s)"
  have e: "ss_output s \<noteq> []" "e = event_at (ss_output s) (n - 1)" and p: "emitted_frames s = n - 1" "Suc (n - 1) = n"
    using inv Some by (auto simp: stream_inv_def emitted_frames_def n_def)
  have "conn_ok (ss_output s) n (\<not> ss_gap s) (applied s) (on_emit e c)" if "ss_conn s = Some c" for c
    using on_emit_ok [of "ss_output s" "n - 1" "\<not> ss_gap s" "applied s" c] inv that p e by (auto simp: stream_inv_def n_def)
  then show ?thesis
    using inv Some by (auto simp: emit_frame_def stream_inv_def output_end_def applied_def emitted_frames_def n_def)
qed (use inv in \<open>simp add: emit_frame_def\<close>)

lemma client_ok_snapshot: "off \<le> length (concat out) \<Longrightarrow> client_ok out full off (applySnapshot off cl)"
  by (auto simp: client_ok_def applySnapshot_def url_ok_def intro!: exI [of _ "[]"] run_of_empty)

lemma snapshot_ok:
  assumes inv: "stream_inv sid s" and off: "off \<le> output_end s"
  shows "stream_inv sid (take_snapshot sid off s)"
proof -
  define out where "out = ss_output s"
  obtain k where k: "k \<le> length out" "ss_chunks s = table_of sid out k"
    using inv by (auto simp: stream_inv_def table_ok_def out_def)
  have first: "(case session_chunks sid (ss_chunks s) of [] \<Rightarrow> output_end s | c # _ \<Rightarrow> oc_byteOffset c) = frame_start out k"
  proof (cases "k = length out")
    case True
    then show ?thesis
      unfolding k(2) session_table by (simp add: table_of_def frame_start_end output_end_def out_def)
  next
    case False
    then show ?thesis
      unfolding k(2) session_table using k(1) by (simp add: table_of_def upt_conv_Cons)
  qed
  have "table_ok sid out (\<not> off < frame_start out k) off (ss_chunks s)"
    using k by (auto simp: table_ok_def intro!: exI [of _ k])
  then show ?thesis
    using inv off client_ok_snapshot [of off out] unfolding take_snapshot_def stream_inv_def first
    by (simp add: output_end_def applied_def emitted_frames_def out_def) (simp add: applySnapshot_def)
qed

lemma applied_Some: "tc_applied (ss_client s) = Some a \<Longrightarrow> applied s = a"
  by (simp add: applied_def)

text \<open>Both ways of connecting resume where the client stands.\<close>

lemma open_stream_resumes:
  assumes "url_ok cl a" and "tc_url cl = Some u" and "int a \<le> MAX_SAFE_INTEGER"
  shows "open_stream (tc_url cl) None (tc_lastEventId cl)
    = Some \<lparr>tn_forwardedEnd = a, tn_queued = [], tn_phase = ReadFrom a, tn_sent = []\<rparr>"
proof -
  obtain f where f: "u = show_nat f" "if tc_lastEventId cl = None then f = a else f \<le> a \<and> tc_lastEventId cl = Some (show_nat a)"
    using assms by (auto simp: url_ok_def)
  have "maxResumeCursor (Some u) (readLastEventId None (tc_lastEventId cl)) = Some (show_nat a)"
    using f by (cases "tc_lastEventId cl") (auto simp: readLastEventId_def maxResumeCursor_show max_def)
  then show ?thesis
    using assms by (simp add: open_stream_def parseOffsetEventId_show)
qed

lemma conn_ok_new:
  "a \<le> length (concat out) \<Longrightarrow> conn_ok out p full a \<lparr>tn_forwardedEnd = a, tn_queued = [], tn_phase = ReadFrom a, tn_sent = []\<rparr>"
  by (auto simp: conn_ok_def sent_ok_def phase_ok_def intro!: exI [of _ p])

lemma connect_inv:
  assumes inv: "stream_inv sid s" and a: "tc_applied (ss_client s) = Some a"
    and cl: "client_ok (ss_output s) (\<not> ss_gap s) (ss_base s) cl" "tc_applied cl = Some a" "tc_url cl = Some u"
  shows "stream_inv sid (s\<lparr>ss_client := cl, ss_conn := open_stream (tc_url cl) None (tc_lastEventId cl)\<rparr>)"
proof -
  have bounds: "a \<le> length (concat (ss_output s))" "url_ok cl a"
    using cl by (simp_all add: client_ok_def)
  then have "int a \<le> MAX_SAFE_INTEGER"
    using inv by (simp add: stream_inv_def output_end_def)
  then show ?thesis
    using inv cl a conn_ok_new [OF bounds(1)] open_stream_resumes [OF bounds(2) cl(3)]
    by (simp add: stream_inv_def output_end_def applied_def emitted_frames_def)
qed

lemma connect_ok:
  assumes inv: "stream_inv sid s" and "tc_applied (ss_client s) \<noteq> None"
  shows "stream_inv sid (connect_new s)"
proof -
  obtain a where a: "tc_applied (ss_client s) = Some a"
    using assms by blast
  have "client_ok (ss_output s) (\<not> ss_gap s) (ss_base s) (attachStream (ss_client s))"
    using inv a by (simp add: stream_inv_def client_ok_def attachStream_def url_ok_def)
  then show ?thesis
    using connect_inv [OF inv a, of "attachStream (ss_client s)"] a by (simp add: connect_new_def Let_def attachStream_def)
qed

lemma reconnect_ok:
  assumes inv: "stream_inv sid s" and "tc_url (ss_client s) \<noteq> None"
  shows "stream_inv sid (connect_again s)"
proof -
  have ok: "client_ok (ss_output s) (\<not> ss_gap s) (ss_base s) (ss_client s)"
    using inv by (simp add: stream_inv_def)
  then obtain a where a: "tc_applied (ss_client s) = Some a"
    using assms by (auto simp: client_ok_def split: option.splits)
  then show ?thesis
    using connect_inv [OF inv a ok a] assms(2) by (auto simp: connect_again_def)
qed

lemma conn_update_simps [simp]:
  "output_end (s\<lparr>ss_conn := x\<rparr>) = output_end s" "applied (s\<lparr>ss_conn := x\<rparr>) = applied s" "emitted_frames (s\<lparr>ss_conn := x\<rparr>) = emitted_frames s"
  "output_end (s\<lparr>ss_gap := g\<rparr>) = output_end s" "applied (s\<lparr>ss_gap := g\<rparr>) = applied s" "emitted_frames (s\<lparr>ss_gap := g\<rparr>) = emitted_frames s"
  "output_end (s\<lparr>ss_client := cl\<rparr>) = output_end s" "emitted_frames (s\<lparr>ss_client := cl\<rparr>) = emitted_frames s"
  "tc_applied cl = Some a \<Longrightarrow> applied (s\<lparr>ss_client := cl\<rparr>) = a"
  by (simp_all add: output_end_def applied_def emitted_frames_def)

lemma conn_inv:
  "stream_inv sid s \<Longrightarrow> (\<And>c c'. ss_conn s = Some c \<Longrightarrow> conn' = Some c' \<Longrightarrow>
      conn_ok (ss_output s) (emitted_frames s) (\<not> ss_gap s) (applied s) c \<Longrightarrow> conn_ok (ss_output s) (emitted_frames s) (\<not> ss_gap s) (applied s) c') \<Longrightarrow>
   (ss_conn s = None \<Longrightarrow> conn' = None) \<Longrightarrow> stream_inv sid (s\<lparr>ss_conn := conn'\<rparr>)"
  by (cases "ss_conn s"; cases conn') (simp_all add: stream_inv_def)

lemma query_ok:
  assumes inv: "stream_inv sid s"
  shows "stream_inv sid (query_step sid s)"
proof -
  obtain k where k: "k \<le> length (ss_output s)" "ss_chunks s = table_of sid (ss_output s) k" "\<not> ss_gap s \<longrightarrow> frame_start (ss_output s) k \<le> applied s"
    and out: "[] \<notin> set (ss_output s)"
    using inv by (auto simp: stream_inv_def table_ok_def)
  show ?thesis
    unfolding query_step_def k(2)
    by (rule conn_inv [OF inv]) (auto intro: replay_query_ok [OF out k(1) emitted_frames_le k(3)])
qed

lemma continue_ok: "stream_inv sid s \<Longrightarrow> stream_inv sid (continue_step s)"
  unfolding continue_step_def
  by (rule conn_inv) (auto intro!: replay_continue_ok [OF _ emitted_frames_le] simp: stream_inv_def)

lemma disconnect_ok: "stream_inv sid s \<Longrightarrow> stream_inv sid (disconnect s)"
  unfolding disconnect_def by (rule conn_inv) auto

lemma fail_ok:
  assumes inv: "stream_inv sid s"
  shows "stream_inv sid (fail_step s)"
proof (cases "ss_conn s")
  case (Some c)
  show ?thesis
  proof (cases "tn_phase c = Replayed")
    case False
    define out where "out = ss_output s"
    have ok: "conn_ok out (emitted_frames s) (\<not> ss_gap s) (applied s) c" and out: "[] \<notin> set out"
      using inv Some by (simp_all add: stream_inv_def out_def)
    obtain q where q: "q \<le> emitted_frames s" "tn_queued c = map (event_at out) [q ..< emitted_frames s]" "sent_ok out False (applied s) c"
      using conn_ok_phase [OF conn_ok_weaken [OF ok] False] by metis
    have "conn_ok out (emitted_frames s) False (applied s) (flush_queued c)"
      by (rule flush_ok [OF out q(1) _ q(3,2)]) (simp_all add: emitted_frames_le out_def)
    moreover have "table_ok sid out False (applied s) (ss_chunks s)" "client_ok out False (ss_base s) (ss_client s)"
      using inv client_ok_weaken [of out "\<not> ss_gap s" "ss_base s" "ss_client s" False] by (auto simp: stream_inv_def table_ok_def out_def)
    ultimately show ?thesis
      using inv Some False
      by (simp add: fail_step_def stream_inv_def out_def)
  qed (use inv Some in \<open>simp add: fail_step_def\<close>)
qed (use inv in \<open>simp add: fail_step_def\<close>)

lemma table_ok_mono: "table_ok sid out full a tab \<Longrightarrow> a \<le> b \<Longrightarrow> table_ok sid out full b tab"
  by (auto simp: table_ok_def intro: order_trans)

lemma conn_ok_delivered:
  assumes "conn_ok out p full a c" "tn_sent c = e # es" "wire_ok out full m (tn_forwardedEnd c) es"
  shows "conn_ok out p full m (c\<lparr>tn_sent := es\<rparr>)"
  using assms by (simp add: conn_ok_def sent_ok_def)

lemma client_ok_deliver:
  assumes ok: "client_ok out full base cl" and a: "tc_applied cl = Some a" and ps: "run_of full a m ps" "m \<le> length (concat out)"
  shows "client_ok out full base (cl\<lparr>tc_applied := Some m, tc_shown := tc_shown cl @ map (\<lambda>p. concat out ! p) ps, tc_lastEventId := Some (show_nat m)\<rparr>)"
proof -
  obtain qs where qs: "run_of full base a qs" "tc_shown cl = map (\<lambda>p. concat out ! p) qs"
    using ok a by (auto simp: client_ok_def)
  have "\<exists>ps'. run_of full base m ps' \<and> map (\<lambda>p. concat out ! p) qs @ map (\<lambda>p. concat out ! p) ps = map (\<lambda>p. concat out ! p) ps'"
    using run_of_append [OF qs(1) ps(1)] by (intro exI [of _ "qs @ ps"]) simp
  moreover have "url_ok (cl\<lparr>tc_applied := Some m, tc_shown := tc_shown cl @ map (\<lambda>p. concat out ! p) ps, tc_lastEventId := Some (show_nat m)\<rparr>) m"
    using ok a run_of_le [OF ps(1)] by (fastforce simp: client_ok_def url_ok_def split: if_splits)
  ultimately show ?thesis
    using ps(2) qs(2) by (simp add: client_ok_def)
qed

lemma deliver_ok:
  assumes inv: "stream_inv sid s"
  shows "stream_inv sid (deliver s)"
proof (cases "ss_conn s")
  case (Some c)
  show ?thesis
  proof (cases "tn_sent c")
    case (Cons e es)
    define out where "out = ss_output s"
    define full where "full = (\<not> ss_gap s)"
    have ok: "conn_ok out (emitted_frames s) full (applied s) c" and cl: "client_ok out full (ss_base s) (ss_client s)"
      and url: "tc_url (ss_client s) \<noteq> None"
      using inv Some by (simp_all add: stream_inv_def out_def full_def)
    obtain a where a: "tc_applied (ss_client s) = Some a"
      using cl url by (auto simp: client_ok_def split: option.splits)
    obtain start ps m where e: "e = replay_event start (map (\<lambda>p. concat out ! p) ps) m" "ps \<noteq> []" "run_of full a m ps"
        "m \<le> length (concat out)" "wire_ok out full m (tn_forwardedEnd c) es"
      using ok Cons applied_Some [OF a] by (auto simp: conn_ok_def sent_ok_def)
    define cl' where "cl' = (ss_client s)\<lparr>tc_applied := Some m, tc_shown := tc_shown (ss_client s) @ map (\<lambda>p. concat out ! p) ps,
      tc_lastEventId := Some (show_nat m)\<rparr>"
    have "handleOutput e (ss_client s) = cl'"
      unfolding e(1) cl'_def by (rule handleOutput_replay [OF _ a run_of_le [OF e(3)]]) (simp add: e(2))
    then have "deliver s = s\<lparr>ss_conn := Some (c\<lparr>tn_sent := es\<rparr>), ss_client := cl'\<rparr>"
      using Some Cons by (simp add: deliver_def)
    moreover have "client_ok out full (ss_base s) cl'"
      unfolding cl'_def by (rule client_ok_deliver [OF cl a e(3,4)])
    moreover have "table_ok sid out full m (ss_chunks s)"
      using inv applied_Some [OF a] table_ok_mono [OF _ run_of_le [OF e(3)]] by (simp add: stream_inv_def out_def full_def)
    ultimately show ?thesis
      using inv url conn_ok_delivered [OF ok Cons e(5)]
      by (simp add: stream_inv_def cl'_def out_def full_def)
  qed (use inv Some in \<open>simp add: deliver_def\<close>)
qed (use inv in \<open>simp add: deliver_def\<close>)

lemma stream_step_inv: "stream_step sid s s' \<Longrightarrow> stream_inv sid s \<Longrightarrow> stream_inv sid s'"
  by (induction rule: stream_step.induct)
    (simp_all add: store_ok prune_ok emit_ok snapshot_ok connect_ok reconnect_ok query_ok continue_ok fail_ok deliver_ok disconnect_ok)

lemma stream_start_inv: "stream_inv sid stream_start"
  by (simp add: stream_inv_def stream_start_def table_ok_def table_of_def output_end_def applied_def client_ok_def MAX_SAFE_INTEGER_def)

abbreviation stream_reachable :: "string \<Rightarrow> stream_sys \<Rightarrow> bool" where
  "stream_reachable sid \<equiv> rtranclp (stream_step sid) stream_start"

text \<open>A property that every step keeps holds along every run.\<close>

locale kept_along =
  fixes step :: "'s \<Rightarrow> 's \<Rightarrow> bool" and ok :: "'s \<Rightarrow> bool"
  assumes step_keeps: "step s s' \<Longrightarrow> ok s \<Longrightarrow> ok s'"
begin

lemma kept: "rtranclp step s s' \<Longrightarrow> ok s \<Longrightarrow> ok s'"
  by (induction rule: rtranclp_induct) (auto intro: step_keeps)

end

interpretation stream_runs: kept_along "stream_step sid" "stream_inv sid" for sid
  by unfold_locales (rule stream_step_inv)

lemma stream_reachable_inv: "stream_reachable sid s \<Longrightarrow> stream_inv sid s"
  using stream_runs.kept stream_start_inv by blast

section \<open>The replay ends\<close>

text \<open>The steps that need no new output and no decision of the client.\<close>

inductive quiet_step :: "string \<Rightarrow> stream_sys \<Rightarrow> stream_sys \<Rightarrow> bool" for sid where
  quiet_query: "quiet_step sid s (query_step sid s)"
| quiet_continue: "quiet_step sid s (continue_step s)"
| quiet_emit: "quiet_step sid s (emit_frame s)"
| quiet_deliver: "quiet_step sid s (deliver s)"

lemma quiet_is_step: "quiet_step sid s s' \<Longrightarrow> stream_step sid s s'"
  by (induction rule: quiet_step.induct) (rule stream_step.intros)+

lemma quiet_keeps:
  "quiet_step sid s s' \<Longrightarrow> ss_output s' = ss_output s \<and> ss_base s' = ss_base s \<and> ss_gap s' = ss_gap s \<and> (ss_conn s = None \<longrightarrow> ss_conn s' = None)"
  by (induction rule: quiet_step.induct)
    (auto simp: query_step_def continue_step_def emit_frame_def deliver_def split: option.splits list.splits)

interpretation quiet_runs: kept_along "quiet_step sid" "stream_inv sid" for sid
  by unfold_locales (auto dest: quiet_is_step intro: stream_step_inv)

interpretation quiet_history: kept_along "quiet_step sid" "\<lambda>s'. ss_output s' = ss_output s \<and> ss_base s' = ss_base s \<and> ss_gap s' = ss_gap s" for sid s
  by unfold_locales (auto dest: quiet_keeps)

lemmas quiet_run_inv = quiet_runs.kept

lemma quiet_run_keeps:
  "rtranclp (quiet_step sid) s s' \<Longrightarrow> ss_output s' = ss_output s \<and> ss_base s' = ss_base s \<and> ss_gap s' = ss_gap s"
  using quiet_history.kept by blast

definition replay_rank :: "nat \<Rightarrow> replay_phase \<Rightarrow> nat" where
  "replay_rank e ph =
     (case ph of
        ReadFrom cursor \<Rightarrow> (e - cursor) * (e + 3) + e + 2
      | Paging cursor r scan \<Rightarrow> (e - cursor) * (e + 3) + Suc (e - scan)
      | Served cursor r \<Rightarrow> (e - cursor) * (e + 3)
      | Replayed \<Rightarrow> 0)"

lemma read_page_advances:
  assumes "read_page sid cursor None tab r scan = (False, r', scan')"
  shows "scan < scan'"
proof -
  define rows where "rows = listChunksFrom sid scan READ_BATCH_ROWS None tab"
  have rows: "rows \<noteq> []" "scan' = oc_byteOffset (last rows) + max (length (oc_data (last rows))) 1"
    using assms by (auto simp: read_page_def rows_def [symmetric] Let_def split: if_splits)
  then have "last rows \<in> set rows"
    by simp
  then have "scan \<le> oc_byteOffset (last rows)"
    by (auto simp: rows_def listChunksFrom_def dest: in_set_takeD)
  then show ?thesis
    using rows(2) by simp
qed

lemma served_advances:
  assumes rel: "read_rel cursor REPLAY_BYTES (bytes_at out ps) r" and run: "run_of full cursor m ps" and "rr_truncated r"
  shows "cursor < rg_endOffset (range_result_of cursor r)"
proof -
  have "REPLAY_BYTES < length ps"
    using read_rel_truncated [OF rel] assms(3) by (simp add: bytes_at_def)
  moreover have "range_result_of cursor r = range_reference cursor REPLAY_BYTES (bytes_at out ps)"
    using rel by (simp add: read_rel_def)
  ultimately have "rg_data (range_result_of cursor r) \<noteq> []"
    by (auto simp: range_reference_def Let_def bytes_at_def REPLAY_BYTES_def)
  moreover obtain qs where "run_of full cursor (rg_endOffset (range_result_of cursor r)) qs"
      "rg_data (range_result_of cursor r) = map (\<lambda>p. concat out ! p) qs"
    using range_result_run(1) [OF rel run] by blast
  ultimately show ?thesis
    by (cases qs) (auto simp: run_of_def)
qed

lemma send_all_phase: "tn_phase (foldl (\<lambda>c e. sendEvent e c) c es) = tn_phase c"
  by (induction es arbitrary: c) simp_all

lemma flush_phase [simp]: "tn_phase (flush_queued c) = Replayed"
  by (simp add: flush_queued_def send_all_phase)

lemma continue_advances:
  assumes ok: "conn_ok out p False a c" and phase: "tn_phase c = Served cursor r"
  shows "tn_phase (replay_continue c) = Replayed
    \<or> replay_rank (length (concat out)) (tn_phase (replay_continue c)) < replay_rank (length (concat out)) (tn_phase c)"
proof (cases "rr_truncated r")
  case True
  define e x where "e = length (concat out)" and "x = rg_endOffset (range_result_of cursor r)"
  obtain ps m where ps: "read_rel cursor REPLAY_BYTES (bytes_at out ps) r" "run_of False cursor m ps" "m \<le> e"
    using ok phase by (auto simp: conn_ok_def phase_ok_def e_def)
  have x: "cursor < x" "x \<le> e"
    using served_advances [OF ps(1,2) True] range_result_run(2) [OF ps(1,2)] ps(3) by (auto simp: x_def)
  have c': "tn_phase (replay_continue c) = ReadFrom x"
    using True by (simp add: phase replay_continue_def Let_def x_def range_result_of_def)
  have "(e - x) * (e + 3) + e + 2 < Suc (e - x) * (e + 3)"
    by simp
  also have "\<dots> \<le> (e - cursor) * (e + 3)"
    using x by (intro mult_le_mono1) simp
  finally show ?thesis
    by (simp add: c' phase replay_rank_def e_def)
next
  case False
  then show ?thesis
    by (simp add: phase replay_continue_def Let_def range_result_of_def)
qed

lemma query_advances:
  assumes ok': "conn_ok out p False a (replay_query sid tab c)" and phase: "\<forall>cursor r. tn_phase c \<noteq> Served cursor r" "tn_phase c \<noteq> Replayed"
  shows "replay_rank (length (concat out)) (tn_phase (replay_query sid tab c)) < replay_rank (length (concat out)) (tn_phase c)"
proof (cases "tn_phase c")
  case (ReadFrom cursor)
  then show ?thesis
    by (auto simp: replay_query_def replay_rank_def split: prod.splits)
next
  case (Paging cursor r scan)
  obtain stop r' scan' where page: "read_page sid cursor None tab r scan = (stop, r', scan')"
    by (cases "read_page sid cursor None tab r scan") auto
  show ?thesis
  proof (cases "\<not> stop \<and> read_more None r' scan'")
    case True
    then have c': "tn_phase (replay_query sid tab c) = Paging cursor r' scan'"
      by (simp add: Paging replay_query_def page)
    have "scan < scan'"
      using read_page_advances page True by auto
    moreover have "scan' \<le> length (concat out)"
      using ok' c' by (auto simp: conn_ok_def phase_ok_def)
    ultimately show ?thesis
      unfolding c' unfolding Paging by (simp add: replay_rank_def)
  next
    case False
    then show ?thesis
      by (auto simp: Paging replay_query_def page replay_rank_def)
  qed
qed (use phase in auto)

lemma replay_ends:
  assumes "stream_inv sid s" "ss_conn s = Some c"
  shows "\<exists>s' c'. rtranclp (quiet_step sid) s s' \<and> ss_conn s' = Some c' \<and> tn_phase c' = Replayed"
  using assms
proof (induction "replay_rank (length (concat (ss_output s))) (tn_phase c)" arbitrary: s c rule: less_induct)
  case less
  let ?rank = "\<lambda>s c. replay_rank (length (concat (ss_output s))) (tn_phase c)"
  have onward: ?case if step: "quiet_step sid s s'" and conn: "ss_conn s' = Some c'"
      and rank: "tn_phase c' = Replayed \<or> ?rank s c' < ?rank s c" for s' c'
  proof (cases "tn_phase c' = Replayed")
    case True
    then show ?thesis
      using step conn by (blast intro: r_into_rtranclp)
  next
    case False
    have "stream_inv sid s'"
      using step less.prems(1) by (blast intro: stream_step_inv quiet_is_step)
    then obtain s'' c'' where "rtranclp (quiet_step sid) s' s''" "ss_conn s'' = Some c''" "tn_phase c'' = Replayed"
      using less.hyps [of s' c'] conn rank False quiet_keeps [OF step] by auto
    then show ?thesis
      using step by (blast intro: converse_rtranclp_into_rtranclp)
  qed
  have weak: "conn_ok (ss_output t) (emitted_frames t) False (applied t) d" if "stream_inv sid t" "ss_conn t = Some d" for t d
    using that by (auto simp: stream_inv_def intro: conn_ok_mono)
  consider "tn_phase c = Replayed" | cursor r where "tn_phase c = Served cursor r"
    | "tn_phase c \<noteq> Replayed" "\<forall>cursor r. tn_phase c \<noteq> Served cursor r"
    by blast
  then show ?case
  proof cases
    case 1
    then show ?thesis
      using less.prems by blast
  next
    case 2
    show ?thesis
      by (rule onward [OF quiet_continue]) (use less.prems continue_advances [OF weak 2] in \<open>auto simp: continue_step_def\<close>)
  next
    case 3
    have "conn_ok (ss_output s) (emitted_frames s) False (applied s) (replay_query sid (ss_chunks s) c)"
      using weak [OF query_ok [OF less.prems(1)]] less.prems(2) by (simp add: query_step_def)
    then show ?thesis
      by - (rule onward [OF quiet_query], use less.prems query_advances [OF _ 3(2,1)] in \<open>auto simp: query_step_def\<close>)
  qed
qed

lemma deliver_all:
  "ss_conn s = Some c \<Longrightarrow>
   \<exists>s' c'. rtranclp (quiet_step sid) s s' \<and> ss_conn s' = Some c' \<and> tn_phase c' = tn_phase c \<and> tn_sent c' = [] \<and> ss_emitting s' = ss_emitting s"
proof (induction "tn_sent c" arbitrary: s c)
  case (Cons e es)
  let ?c = "c\<lparr>tn_sent := es\<rparr>"
  have next_conn: "ss_conn (deliver s) = Some ?c" "ss_emitting (deliver s) = ss_emitting s"
    using Cons.prems Cons.hyps(2) [symmetric] by (simp_all add: deliver_def)
  obtain s' c' where "rtranclp (quiet_step sid) (deliver s) s'" "ss_conn s' = Some c'" "tn_phase c' = tn_phase ?c" "tn_sent c' = []"
      "ss_emitting s' = ss_emitting (deliver s)"
    using Cons.hyps(1) [of ?c "deliver s"] next_conn(1) by auto
  then show ?case
    using next_conn quiet_deliver [of sid s] by (auto intro!: exI [of _ s'] intro: converse_rtranclp_into_rtranclp)
qed (use rtranclp.rtrancl_refl in fastforce)

lemma run_of_bytes: "run_of True a b ps \<Longrightarrow> b \<le> length xs \<Longrightarrow> map (\<lambda>p. xs ! p) ps = take (b - a) (drop a xs)"
  by (auto simp: run_of_def intro!: nth_equalityI)

lemma shown_exact:
  assumes "stream_inv sid s" "tc_applied (ss_client s) = Some a" "\<not> ss_gap s"
  shows "tc_shown (ss_client s) = take (a - ss_base s) (drop (ss_base s) (concat (ss_output s)))"
  using assms run_of_bytes [of "ss_base s" a _ "concat (ss_output s)"] by (auto simp: stream_inv_def client_ok_def)

lemma caught_up:
  assumes inv: "stream_inv sid s" and gap: "\<not> ss_gap s" and c: "ss_conn s = Some c" "tn_phase c = Replayed" "tn_sent c = []"
    and idle: "ss_emitting s = None"
  shows "tc_shown (ss_client s) = drop (ss_base s) (concat (ss_output s))"
proof -
  have ok: "conn_ok (ss_output s) (length (ss_output s)) True (applied s) c" and "tc_url (ss_client s) \<noteq> None"
      and cl: "client_ok (ss_output s) True (ss_base s) (ss_client s)"
    using inv gap c idle by (auto simp: stream_inv_def emitted_frames_def)
  then obtain a where a: "tc_applied (ss_client s) = Some a"
    by (auto simp: client_ok_def split: option.splits)
  have "applied s = length (concat (ss_output s))"
    using ok c by (auto simp: conn_ok_def sent_ok_def frame_start_end)
  then have "a = length (concat (ss_output s))"
    using applied_Some [OF a] by simp
  then show ?thesis
    using shown_exact [OF inv a gap] by simp
qed

text \<open>C3: Whatever happens to the connections, the bytes that a client has written to its terminal since its last
  snapshot are bytes of the terminal's output from the snapshot's offset up to the client's cursor, in order and
  none of them twice; and unless output that it had not applied was pruned or a replay failed, they are all of
  them.\<close>

theorem stream_shows_output:
  assumes "stream_reachable sid s" and "tc_applied (ss_client s) = Some a"
  shows "(\<exists>ps. sorted_wrt (<) ps \<and> set ps \<subseteq> {ss_base s ..< a} \<and> tc_shown (ss_client s) = map (\<lambda>p. concat (ss_output s) ! p) ps)
    \<and> a \<le> output_end s
    \<and> (\<not> ss_gap s \<longrightarrow> tc_shown (ss_client s) = take (a - ss_base s) (drop (ss_base s) (concat (ss_output s))))"
  using stream_reachable_inv [OF assms(1)] assms(2) shown_exact [OF stream_reachable_inv [OF assms(1)] assms(2)]
  by (auto simp: stream_inv_def client_ok_def output_end_def run_of_def)

text \<open>C32: A client whose connection stays up catches up, provided that since its snapshot no output that it had
  not applied was pruned and no replay has failed: without new output, the queries of the replay come to an end,
  and after the events sent have arrived the terminal shows all of the output since the snapshot.\<close>

theorem stream_catches_up:
  assumes "stream_reachable sid s" and "ss_conn s = Some c" and "\<not> ss_gap s"
  shows "\<exists>s'. rtranclp (quiet_step sid) s s' \<and> ss_output s' = ss_output s \<and> ss_base s' = ss_base s
    \<and> tc_shown (ss_client s') = drop (ss_base s) (concat (ss_output s))"
proof -
  note inv = stream_reachable_inv [OF assms(1)]
  obtain s1 c1 where s1: "rtranclp (quiet_step sid) s s1" "ss_conn s1 = Some c1" "tn_phase c1 = Replayed"
    using replay_ends [OF inv assms(2)] by blast
  define c2 where "c2 = (case ss_emitting s1 of None \<Rightarrow> c1 | Some e \<Rightarrow> on_emit e c1)"
  have s2: "ss_conn (emit_frame s1) = Some c2" "tn_phase c2 = Replayed" "ss_emitting (emit_frame s1) = None"
    using s1(2,3) by (auto simp: emit_frame_def c2_def on_emit_def split: option.splits)
  obtain s3 c3 where s3: "rtranclp (quiet_step sid) (emit_frame s1) s3" "ss_conn s3 = Some c3" "tn_phase c3 = Replayed"
      "tn_sent c3 = []" "ss_emitting s3 = None"
    using deliver_all [OF s2(1)] s2(2,3) by metis
  have run: "rtranclp (quiet_step sid) s s3"
    using s1(1) quiet_emit s3(1) by (meson rtranclp.rtrancl_into_rtrancl rtranclp_trans)
  then show ?thesis
    using caught_up [OF quiet_run_inv [OF run inv] _ s3(2-5)] quiet_run_keeps [OF run] assms(3) by auto
qed

section \<open>A run\<close>

definition run_client :: "byte list \<Rightarrow> nat \<Rightarrow> string option \<Rightarrow> string option \<Rightarrow> term_client" where
  "run_client shown a url lid = \<lparr>tc_shown = shown, tc_applied = Some a, tc_url = url, tc_lastEventId = lid\<rparr>"

definition run_conn :: "nat \<Rightarrow> replay_phase \<Rightarrow> sse_event list \<Rightarrow> term_conn" where
  "run_conn f ph sent = \<lparr>tn_forwardedEnd = f, tn_queued = [], tn_phase = ph, tn_sent = sent\<rparr>"

text \<open>One frame is stored and emitted, and a client takes a snapshot before it and connects.\<close>

definition connected_run :: stream_sys where
  "connected_run =
     \<lparr>ss_chunks = [\<lparr>oc_sessionId = ''s'', oc_byteOffset = 0, oc_data = [7]\<rparr>], ss_emitting = None,
      ss_conn = Some (run_conn 0 (ReadFrom 0) []), ss_client = run_client [] 0 (Some (show_nat 0)) None,
      ss_output = [[7]], ss_base = 0, ss_gap = False\<rparr>"

lemma connected_run_steps:
  "connected_run = connect_new (take_snapshot ''s'' 0 (emit_frame (store_frame ''s'' [7] stream_start)))"
  using maxResumeCursor_show(1) [of 0] parseOffsetEventId_show [of 0]
  by (simp add: connected_run_def store_frame_def stream_start_def output_end_def insertChunk_def emit_frame_def take_snapshot_def
      session_chunks_def applySnapshot_def connect_new_def attachStream_def open_stream_def readLastEventId_def run_conn_def run_client_def
      MAX_SAFE_INTEGER_def)

lemma connected_run_reachable: "stream_reachable ''s'' connected_run"
proof -
  have "stream_step ''s'' stream_start (store_frame ''s'' [7] stream_start)"
    by (rule stream_step.store) (simp_all add: stream_start_def output_end_def MAX_SAFE_INTEGER_def)
  then have "stream_reachable ''s'' (emit_frame (store_frame ''s'' [7] stream_start))"
    by (meson rtranclp.rtrancl_into_rtrancl rtranclp.rtrancl_refl stream_step.emit)
  moreover have "stream_step ''s'' (emit_frame (store_frame ''s'' [7] stream_start)) (take_snapshot ''s'' 0 (emit_frame (store_frame ''s'' [7] stream_start)))"
    by (rule stream_step.snapshot) simp
  moreover have "stream_step ''s'' (take_snapshot ''s'' 0 (emit_frame (store_frame ''s'' [7] stream_start))) connected_run"
    unfolding connected_run_steps by (rule stream_step.connect) (simp add: take_snapshot_def applySnapshot_def)
  ultimately show ?thesis
    by (meson rtranclp.rtrancl_into_rtrancl)
qed

definition one_read :: range_read where
  "one_read = \<lparr>rr_data = [7], rr_first = Some 0, rr_consumedEnd = 1, rr_remaining = REPLAY_BYTES - 1, rr_truncated = False\<rparr>"

definition served_run :: stream_sys where
  "served_run = connected_run\<lparr>ss_conn := Some (run_conn 1 Replayed []), ss_client := run_client [7] 1 (Some (show_nat 0)) (Some (show_nat 1))\<rparr>"

lemma connected_run_query: "query_step ''s'' connected_run = connected_run\<lparr>ss_conn := Some (run_conn 0 (Paging 0 one_read 1) [])\<rparr>"
  by (simp add: query_step_def connected_run_def run_conn_def replay_query_def read_start_def findCoveringChunk_def session_chunks_def
      chunk_end_def pushSlice_def range_slice_def Let_def one_read_def REPLAY_BYTES_def read_more_def)

lemma connected_run_page:
  "query_step ''s'' (connected_run\<lparr>ss_conn := Some (run_conn 0 (Paging 0 one_read 1) [])\<rparr>)
     = connected_run\<lparr>ss_conn := Some (run_conn 0 (Served 0 one_read) [])\<rparr>"
  by (simp add: query_step_def connected_run_def run_conn_def replay_query_def read_page_def listChunksFrom_def session_chunks_def)

lemma connected_run_continue:
  "continue_step (connected_run\<lparr>ss_conn := Some (run_conn 0 (Served 0 one_read) [])\<rparr>)
     = connected_run\<lparr>ss_conn := Some (run_conn 1 Replayed [replay_event 0 [7] 1])\<rparr>"
  by (simp add: continue_step_def connected_run_def run_conn_def replay_continue_def Let_def range_result_of_def one_read_def send_read_def flush_queued_def)

lemma served_run_delivered: "deliver (connected_run\<lparr>ss_conn := Some (run_conn 1 Replayed [replay_event 0 [7] 1])\<rparr>) = served_run"
  using handleOutput_replay [of "[7]" "run_client [] 0 (Some (show_nat 0)) None" 0 1 0]
  by (simp add: deliver_def connected_run_def run_conn_def served_run_def run_client_def)

lemma served_run_reachable: "stream_reachable ''s'' served_run"
  using connected_run_reachable stream_step.query [of "''s''"] stream_step.continue [of "''s''"] stream_step.deliver [of "''s''"]
  unfolding served_run_delivered [symmetric] connected_run_continue [symmetric] connected_run_page [symmetric] connected_run_query [symmetric]
  by (meson rtranclp.rtrancl_into_rtrancl)

theorem stream_shows_output_witness:
  "tc_shown (ss_client served_run) = [7] \<and> tc_shown (ss_client served_run) = take 1 (drop 0 (concat (ss_output served_run)))"
  using stream_shows_output [OF served_run_reachable, of 1]
  by (simp add: served_run_def connected_run_def run_client_def)

theorem stream_catches_up_witness:
  "\<exists>s'. rtranclp (quiet_step ''s'') connected_run s' \<and> tc_shown (ss_client s') = [7]"
  using stream_catches_up [OF connected_run_reachable, of "run_conn 0 (ReadFrom 0) []"] by (auto simp: connected_run_def)

section \<open>A replay that fails\<close>

lemma store_frame_next:
  assumes "stream_inv sid s"
  shows "\<exists>tab. store_frame sid data s = s\<lparr>ss_chunks := tab, ss_output := ss_output s @ [data],
           ss_emitting := Some (replay_event (output_end s) data (output_end s + length data))\<rparr>"
proof -
  have "insertChunk sid (output_end s) data (ss_chunks s)
      = (True, ss_chunks s @ [\<lparr>oc_sessionId = sid, oc_byteOffset = output_end s, oc_data = data\<rparr>])"
    unfolding insertChunk_def by (rule if_not_P [OF next_offset_fresh [OF assms]])
  then show ?thesis
    by (auto simp: store_frame_def Let_def output_event_replay)
qed

lemma failed_replay_live:
  assumes "ss_conn s = Some c" and "tn_phase c \<noteq> Replayed" and "tn_queued c = []"
  shows "fail_step s = s\<lparr>ss_conn := Some (c\<lparr>tn_phase := Replayed\<rparr>), ss_gap := True\<rparr>"
  using assms by (cases c) (simp add: fail_step_def flush_queued_def)

text \<open>C34: A replay that fails leaves a hole that the client cannot see.  Take any reachable state in which the
  replay of a connection is not finished, with nothing queued or under way, and the client has applied the output
  up to an offset before its end.  If the replay now fails and the next frame is stored, emitted and delivered,
  the client's terminal shows that frame right after what it showed before, without the stored output in between,
  and the cursor with which it would resume is past the frame: the skipped output is never asked for again.\<close>

theorem failed_replay_skips:
  assumes "stream_reachable sid s" and conn: "ss_conn s = Some c" "tn_phase c \<noteq> Replayed" "tn_queued c = []" "tn_sent c = []"
    and idle: "ss_emitting s = None" and behind: "tc_applied (ss_client s) = Some a" "a < output_end s"
    and data: "data \<noteq> []" "int (output_end s + length data) \<le> MAX_SAFE_INTEGER"
    and s': "s' = deliver (emit_frame (store_frame sid data (fail_step s)))"
  shows "stream_reachable sid s' \<and> concat (ss_output s') = concat (ss_output s) @ data
    \<and> tc_shown (ss_client s') = tc_shown (ss_client s) @ data
    \<and> planTerminalConnect False (tc_applied (ss_client s')) = ResumeMode (output_end s')"
proof -
  define s1 where "s1 = fail_step s"
  have s1: "s1 = s\<lparr>ss_conn := Some (c\<lparr>tn_phase := Replayed\<rparr>), ss_gap := True\<rparr>"
    unfolding s1_def using failed_replay_live [OF conn(1-3)] .
  have r1: "stream_reachable sid s1"
    using rtranclp.rtrancl_into_rtrancl [OF assms(1) stream_step.fail] by (simp add: s1_def)
  obtain tab where s2: "store_frame sid data s1 = s1\<lparr>ss_chunks := tab, ss_output := ss_output s @ [data],
      ss_emitting := Some (replay_event (output_end s) data (output_end s + length data))\<rparr>"
    using store_frame_next [OF stream_reachable_inv [OF r1], of data] by (auto simp: s1 output_end_def)
  have "stream_step sid s1 (store_frame sid data s1)"
    using idle data by (intro stream_step.store) (simp_all add: s1 output_end_def)
  then have reach: "stream_reachable sid s'"
    using r1 stream_step.emit [of sid] stream_step.deliver [of sid] unfolding s' s1_def
    by (meson rtranclp.rtrancl_into_rtrancl)
  have fwd: "tn_forwardedEnd c \<le> output_end s"
    using stream_reachable_inv [OF assms(1)] conn(1) by (auto simp: stream_inv_def conn_ok_def sent_ok_def output_end_def)
  let ?e = "replay_event (output_end s) data (output_end s + length data)"
  have "ss_conn (emit_frame (store_frame sid data s1)) = Some (c\<lparr>tn_phase := Replayed,
      tn_forwardedEnd := output_end s + length data, tn_sent := [?e]\<rparr>)"
    using fwd conn(4) unfolding s2 by (simp add: emit_frame_def s1 on_emit_def sendEvent_def Let_def b64_roundtrip del: b64_encode.simps)
  then have "ss_client s' = handleOutput ?e (ss_client s)" "ss_output s' = ss_output s @ [data]"
    unfolding s' s1_def [symmetric] deliver_def s2 by (simp_all add: emit_frame_def s1)
  with reach behind data(1) show ?thesis
    by (simp add: handleOutput_replay [OF data(1) behind(1)] planTerminalConnect_def output_end_def)
qed

theorem failed_replay_skips_witness:
  "\<exists>s'. stream_reachable ''s'' s' \<and> concat (ss_output s') = [7, 8] \<and> tc_shown (ss_client s') = [8]
     \<and> planTerminalConnect False (tc_applied (ss_client s')) = ResumeMode (output_end s')"
  using failed_replay_skips [OF connected_run_reachable, of "run_conn 0 (ReadFrom 0) []" 0 "[8]", OF _ _ _ _ _ _ _ _ _ refl]
  by (auto simp: connected_run_def run_conn_def run_client_def output_end_def MAX_SAFE_INTEGER_def)

end
