(* ===== verification/PlacePresence.thy ===== *)
theory PlacePresence
  imports Prelude
begin

text \<open>
  Where the owner of a phone is among the places they saved: \<open>service/src/personal-data/place-presence.ts\<close>,
  with the distance of \<open>places.ts\<close> and the tables of \<open>db/schema.ts\<close> both files use.

  The tables are lists of rows in the order a scan returns them; every write of the source runs in one
  transaction under the owner's lock, so an operation is a function of the tables.  Times are milliseconds
  (\<open>Date.getTime\<close>); coordinates, distances, radii and speeds are real numbers, so the rounding of the
  doubles of the source is not modelled.  \<open>updated_at\<close> and \<open>tenant_id\<close> are written and never read and are
  left out.
\<close>

section \<open>Tables\<close>

datatype presence_state = Inside | Outside
datatype presence_transition = Arrived | Departed
datatype presence_source = Region | Visit | Reading

record place =
  pl_id :: string
  pl_name :: string
  pl_note :: "string option"
  pl_latitude :: real
  pl_longitude :: real
  pl_radiusM :: real
  pl_createdBy :: string
  pl_geometryChangedAt :: int
  pl_deletedAt :: "int option"
  pl_owner :: string

record presence_row =
  pr_placeId :: string
  pr_owner :: string
  pr_state :: presence_state
  pr_since :: int
  pr_leavingAt :: "int option"
  pr_lastEnteredAt :: "int option"
  pr_visitId :: "string option"
  pr_leavingEventId :: "string option"
  pr_leavingConfirmed :: bool
  pr_approachingAt :: "int option"
  pr_arrivingAt :: "int option"
  pr_arrivingEventId :: "string option"

record presence_event =
  pe_id :: string
  pe_placeId :: string
  pe_transition :: presence_transition
  pe_occurredAt :: int
  pe_source :: presence_source
  pe_visitId :: "string option"
  pe_rawEventId :: "string option"
  pe_owner :: string

record domain_event =
  de_id :: string
  de_visitId :: "string option"
  de_placeId :: "string option"
  de_presenceEventId :: "string option"
  de_eventType :: string
  de_publicationSequence :: nat
  de_owner :: string

record raw_event =
  re_id :: string
  re_owner :: string
  re_eventType :: string
  re_occurredAt :: int
  re_recordedAt :: int
  re_rawEnvelope :: json

record location_visit =
  lv_id :: string
  lv_visitKey :: string
  lv_arrivalAt :: "int option"
  lv_departureAt :: "int option"
  lv_latitude :: real
  lv_longitude :: real
  lv_horizontalAccuracyM :: real
  lv_startedAt :: int
  lv_firstEventId :: string
  lv_lastEventId :: string
  lv_receivedAt :: int
  lv_owner :: string

text \<open>
  \<open>db_owners\<close> is \<open>data_owner_state\<close> with its publication counter.  \<open>db_ulid\<close> is the supply of identifiers
  (the \<open>ulid\<close> package) and \<open>db_used\<close> the number handed out.
\<close>

record place_db =
  db_places :: "place list"
  db_presence :: "presence_row list"
  db_presenceEvents :: "presence_event list"
  db_owners :: "(string \<times> nat) list"
  db_domains :: "domain_event list"
  db_rawEvents :: "raw_event list"
  db_visits :: "location_visit list"
  db_ulid :: "nat \<Rightarrow> string"
  db_used :: nat

text \<open>\<open>new Date(s).getTime()\<close>, and the text that \<open>->>\<close> gives for a JSON value that is not a string.\<close>

record place_env =
  env_dateParse :: "string \<Rightarrow> js_number"
  env_jsonbText :: "json \<Rightarrow> string"

section \<open>Constants and geometry\<close>

definition REGION_TRANSITION_TYPE :: string where
  "REGION_TRANSITION_TYPE = ''location.region_transition.v1''"

definition DEPARTURE_SETTLE_MS :: int where "DEPARTURE_SETTLE_MS = 3 * 60000"
definition MISSED_EXIT_MS :: int where "MISSED_EXIT_MS = 12 * 3600000"
definition ARRIVAL_CONFIRM_MS :: int where "ARRIVAL_CONFIRM_MS = 30000"
definition STOPPED_MPS :: real where "STOPPED_MPS = 1 / 2"
definition STILL_M :: real where "STILL_M = 15"
definition DEPARTURE_CONFIRM_MS :: int where "DEPARTURE_CONFIRM_MS = 30000"
definition ARRIVAL_STAY_MS :: int where "ARRIVAL_STAY_MS = 5 * 60000"
definition FIX_MAX_ACCURACY_M :: real where "FIX_MAX_ACCURACY_M = 100"
definition NEARBY_PLACE_M :: real where "NEARBY_PLACE_M = 1000"
definition places_per_owner :: nat where "places_per_owner = 200"

definition distanceM :: "real \<Rightarrow> real \<Rightarrow> real \<Rightarrow> real \<Rightarrow> real" where
  "distanceM lat1 lon1 lat2 lon2 =
     (let rad = pi / 180; dLat = (lat2 - lat1) * rad; dLon = (lon2 - lon1) * rad;
          a = (sin (dLat / 2))\<^sup>2 + cos (lat1 * rad) * cos (lat2 * rad) * (sin (dLon / 2))\<^sup>2
      in 2 * 6371000 * arcsin (min 1 (sqrt a)))"

definition placesForOwner :: "string \<Rightarrow> place_db \<Rightarrow> place list" where
  "placesForOwner owner db =
     take places_per_owner (filter (\<lambda>p. pl_owner p = owner \<and> pl_deletedAt p = None) (db_places db))"

definition geometryRevision :: "place \<Rightarrow> string" where
  "geometryRevision p = show_int (pl_geometryChangedAt p)"

section \<open>Reports of the phone\<close>

record fix_reading =
  fx_latitude :: real
  fx_longitude :: real
  fx_accuracyM :: real
  fx_at :: int
  fx_speedMps :: "real option"

record region_transition =
  rg_placeId :: string
  rg_transition :: presence_transition
  rg_at :: int
  rg_initial :: bool
  rg_revision :: string
  rg_fix :: "fix_reading option"

text \<open>A finite number of a JSON value; JSON text has no other numbers.\<close>

fun as_real :: "json \<Rightarrow> real option" where
  "as_real (JNum (Fin x)) = Some (real_of_rat x)"
| "as_real _ = None"

definition parse_time :: "place_env \<Rightarrow> json \<Rightarrow> int option" where
  "parse_time env v =
     (case v of JStr s \<Rightarrow> (if is_finite (env_dateParse env s) then Some (js_floor (env_dateParse env s)) else None)
      | _ \<Rightarrow> None)"

text \<open>The patterns \<open>/^[0-9A-HJKMNP-TV-Z]{26}$/\<close> and \<open>/^\d{1,16}$/\<close>.\<close>

definition ascii_digit :: "char \<Rightarrow> bool" where
  "ascii_digit c \<longleftrightarrow> 48 \<le> (of_char c :: nat) \<and> (of_char c :: nat) \<le> 57"

definition ulid_char :: "char \<Rightarrow> bool" where
  "ulid_char c \<longleftrightarrow> ascii_digit c \<or>
     (65 \<le> (of_char c :: nat) \<and> (of_char c :: nat) \<le> 90 \<and> c \<notin> {CHR ''I'', CHR ''L'', CHR ''O'', CHR ''U''})"

definition ulid_text :: "string \<Rightarrow> bool" where
  "ulid_text s \<longleftrightarrow> length s = 26 \<and> list_all ulid_char s"

definition revision_text :: "string \<Rightarrow> bool" where
  "revision_text s \<longleftrightarrow> 1 \<le> length s \<and> length s \<le> 16 \<and> list_all ascii_digit s"

definition speedOf :: "js_object \<Rightarrow> real option" where
  "speedOf payload =
     (case as_real (obj_get payload ''speed_mps'') of None \<Rightarrow> None | Some v \<Rightarrow> if v \<ge> 0 then Some v else None)"

definition parseFix :: "place_env \<Rightarrow> json \<Rightarrow> fix_reading option" where
  "parseFix env v =
     (case as_record v of None \<Rightarrow> None
      | Some ob \<Rightarrow>
          (case (as_real (obj_get ob ''latitude''), as_real (obj_get ob ''longitude''),
                 as_real (obj_get ob ''horizontal_accuracy_m'')) of
             (Some latitude, Some longitude, Some accuracy) \<Rightarrow>
               (if \<bar>latitude\<bar> \<le> 90 \<and> \<bar>longitude\<bar> \<le> 180 \<and> accuracy \<ge> 0 then
                  map_option (\<lambda>t. \<lparr>fx_latitude = latitude, fx_longitude = longitude, fx_accuracyM = accuracy,
                                    fx_at = t, fx_speedMps = speedOf ob\<rparr>)
                    (parse_time env (obj_get ob ''occurred_at''))
                else None)
           | _ \<Rightarrow> None))"

definition parseRegionTransition :: "place_env \<Rightarrow> json \<Rightarrow> region_transition option" where
  "parseRegionTransition env v =
     (case as_record v of None \<Rightarrow> None
      | Some ob \<Rightarrow>
          (case (obj_get ob ''place_id'', obj_get ob ''transition'', obj_get ob ''initial'', obj_get ob ''geometry_revision'') of
             (JStr placeId, JStr transition, JBool initial, JStr revision) \<Rightarrow>
               (if ulid_text placeId \<and> (transition = ''entered'' \<or> transition = ''exited'') \<and> revision_text revision then
                  (case parse_time env (obj_get ob ''occurred_at'') of None \<Rightarrow> None
                   | Some t \<Rightarrow>
                       (let result = (\<lambda>fx. Some \<lparr>rg_placeId = placeId,
                                rg_transition = (if transition = ''entered'' then Arrived else Departed),
                                rg_at = t, rg_initial = initial, rg_revision = revision, rg_fix = fx\<rparr>);
                            fx = obj_get ob ''fix''
                        in if fx = JUndef \<or> fx = JNull then result None
                           else (case parseFix env fx of None \<Rightarrow> None | Some f \<Rightarrow> result (Some f))))
                else None)
           | _ \<Rightarrow> None))"

datatype reading_class = RInside | ROutside | RUncertain | RUnknown

definition place_distance :: "fix_reading \<Rightarrow> place \<Rightarrow> real" where
  "place_distance fx p = distanceM (fx_latitude fx) (fx_longitude fx) (pl_latitude p) (pl_longitude p)"

definition classifyReading :: "fix_reading \<Rightarrow> place \<Rightarrow> place list \<Rightarrow> reading_class" where
  "classifyReading fx p owned =
     (let distance = place_distance fx p
      in if fx_accuracyM fx > FIX_MAX_ACCURACY_M then RUnknown
         else if distance - fx_accuracyM fx > pl_radiusM p then ROutside
         else if distance + fx_accuracyM fx > pl_radiusM p then RUncertain
         else if list_ex (\<lambda>other. pl_id other \<noteq> pl_id p \<and>
                   (let d = place_distance fx other in d < distance \<and> d \<le> pl_radiusM other + fx_accuracyM fx)) owned
              then RUncertain
         else RInside)"

section \<open>Rows and publication\<close>

definition find_presence :: "string \<Rightarrow> string \<Rightarrow> place_db \<Rightarrow> presence_row option" where
  "find_presence owner pid db = find (\<lambda>r. pr_owner r = owner \<and> pr_placeId r = pid) (db_presence db)"

definition update_presence :: "string \<Rightarrow> string \<Rightarrow> (presence_row \<Rightarrow> presence_row) \<Rightarrow> place_db \<Rightarrow> place_db" where
  "update_presence owner pid f db =
     db\<lparr>db_presence := map (\<lambda>r. if pr_owner r = owner \<and> pr_placeId r = pid then f r else r) (db_presence db)\<rparr>"

text \<open>The row that an insert makes, before the values the caller gives.\<close>

definition new_presence :: "string \<Rightarrow> string \<Rightarrow> int \<Rightarrow> presence_row" where
  "new_presence owner pid since =
     \<lparr>pr_placeId = pid, pr_owner = owner, pr_state = Outside, pr_since = since, pr_leavingAt = None,
      pr_lastEnteredAt = None, pr_visitId = None, pr_leavingEventId = None, pr_leavingConfirmed = False,
      pr_approachingAt = None, pr_arrivingAt = None, pr_arrivingEventId = None\<rparr>"

text \<open>\<open>insert ... on conflict (owner, place) do update\<close>: the same values on either path.\<close>

definition upsert_presence ::
  "string \<Rightarrow> string \<Rightarrow> int \<Rightarrow> (presence_row \<Rightarrow> presence_row) \<Rightarrow> place_db \<Rightarrow> place_db" where
  "upsert_presence owner pid since f db =
     (case find_presence owner pid db of
        None \<Rightarrow> db\<lparr>db_presence := db_presence db @ [f (new_presence owner pid since)]\<rparr>
      | Some _ \<Rightarrow> update_presence owner pid f db)"

record presence_change =
  pc_transition :: presence_transition
  pc_at :: int
  pc_source :: presence_source
  pc_visitId :: "string option"
  pc_rawEventId :: "string option"
  pc_visitDepartureAt :: "int option"
  pc_initial :: bool
  pc_confirmed :: bool

definition transition_name :: "presence_transition \<Rightarrow> string" where
  "transition_name t = (case t of Arrived \<Rightarrow> ''arrived'' | Departed \<Rightarrow> ''departed'')"

definition sequence_of :: "string \<Rightarrow> place_db \<Rightarrow> nat" where
  "sequence_of owner db = (case map_of (db_owners db) owner of None \<Rightarrow> 0 | Some n \<Rightarrow> n)"

definition publishPresence ::
  "string \<Rightarrow> string \<Rightarrow> presence_change \<Rightarrow> string option \<Rightarrow> place_db \<Rightarrow> place_db" where
  "publishPresence owner pid change visitId db =
     (let eid = db_ulid db (db_used db);
          n = Suc (sequence_of owner db)
      in db\<lparr>db_presenceEvents := db_presenceEvents db @
              [\<lparr>pe_id = eid, pe_placeId = pid, pe_transition = pc_transition change, pe_occurredAt = pc_at change,
                pe_source = pc_source change, pe_visitId = visitId, pe_rawEventId = pc_rawEventId change, pe_owner = owner\<rparr>],
            db_owners := AList.update owner n (db_owners db),
            db_domains := db_domains db @
              [\<lparr>de_id = db_ulid db (Suc (db_used db)), de_visitId = None, de_placeId = Some pid,
                de_presenceEventId = Some eid, de_eventType = ''place.'' @ transition_name (pc_transition change),
                de_publicationSequence = n, de_owner = owner\<rparr>],
            db_used := db_used db + 2\<rparr>)"

definition find_raw :: "string \<Rightarrow> string option \<Rightarrow> place_db \<Rightarrow> raw_event option" where
  "find_raw owner eid db =
     (case eid of None \<Rightarrow> None | Some i \<Rightarrow> find (\<lambda>e. re_id e = i \<and> re_owner e = owner) (db_rawEvents db))"

text \<open>\<open>raw_envelope->'payload'->>'k'\<close>; \<open>None\<close> is SQL null.\<close>

definition payload_text :: "place_env \<Rightarrow> raw_event \<Rightarrow> string \<Rightarrow> string option" where
  "payload_text env e k =
     (case as_record (re_rawEnvelope e) of None \<Rightarrow> None
      | Some ob \<Rightarrow>
          (case as_record (obj_get ob ''payload'') of None \<Rightarrow> None
           | Some p \<Rightarrow>
               (case obj_get p k of JUndef \<Rightarrow> None | JNull \<Rightarrow> None | JStr s \<Rightarrow> Some s | v \<Rightarrow> Some (env_jsonbText env v))))"

definition exitSource :: "string \<Rightarrow> string option \<Rightarrow> place_db \<Rightarrow> presence_source" where
  "exitSource owner leavingEventId db =
     (case find_raw owner leavingEventId db of None \<Rightarrow> Region
      | Some e \<Rightarrow> if re_eventType e = REGION_TRANSITION_TYPE then Region else Reading)"

definition arrivalSource :: "place_env \<Rightarrow> string \<Rightarrow> string option \<Rightarrow> string \<Rightarrow> place_db \<Rightarrow> presence_source" where
  "arrivalSource env owner eventId pid db =
     (case find_raw owner eventId db of None \<Rightarrow> Reading
      | Some e \<Rightarrow> if re_eventType e = REGION_TRANSITION_TYPE \<and> payload_text env e ''place_id'' = Some pid
                  then Region else Reading)"

definition clearArrival :: "string \<Rightarrow> string \<Rightarrow> place_db \<Rightarrow> place_db" where
  "clearArrival owner pid = update_presence owner pid (\<lambda>r. r\<lparr>pr_arrivingAt := None, pr_arrivingEventId := None\<rparr>)"

definition noteInside :: "string \<Rightarrow> string \<Rightarrow> int \<Rightarrow> place_db \<Rightarrow> place_db" where
  "noteInside owner pid t = update_presence owner pid (\<lambda>r.
     if pr_state r = Inside
     then r\<lparr>pr_lastEnteredAt := Some (case pr_lastEnteredAt r of None \<Rightarrow> t | Some e \<Rightarrow> max e t)\<rparr> else r)"

definition storedReading :: "place_env \<Rightarrow> string \<Rightarrow> string option \<Rightarrow> place_db \<Rightarrow> fix_reading option" where
  "storedReading env owner rawEventId db =
     (case find_raw owner rawEventId db of None \<Rightarrow> None
      | Some e \<Rightarrow>
          (case as_record (re_rawEnvelope e) of None \<Rightarrow> None
           | Some ob \<Rightarrow>
               (case as_record (obj_get ob ''payload'') of None \<Rightarrow> None
                | Some payload \<Rightarrow>
                    (if obj_get payload ''fix'' \<noteq> JUndef then parseFix env (obj_get payload ''fix'')
                     else (case as_record (obj_get payload ''coordinate'') of None \<Rightarrow> None
                           | Some point \<Rightarrow>
                               (case (as_real (obj_get point ''lat''), as_real (obj_get point ''lon''),
                                      as_real (obj_get payload ''horizontal_accuracy_m'')) of
                                  (Some lat, Some lon, Some accuracy) \<Rightarrow>
                                    Some \<lparr>fx_latitude = lat, fx_longitude = lon, fx_accuracyM = accuracy,
                                          fx_at = re_occurredAt e, fx_speedMps = speedOf payload\<rparr>
                                | _ \<Rightarrow> None))))))"

text \<open>\<open>Math.round\<close> is \<open>floor (x + 1/2)\<close>.\<close>

definition presenceReading :: "place_env \<Rightarrow> string \<Rightarrow> string option \<Rightarrow> place \<Rightarrow> place_db \<Rightarrow> (int \<times> int) option" where
  "presenceReading env owner rawEventId p db =
     map_option (\<lambda>fx. (\<lfloor>place_distance fx p + 1 / 2\<rfloor>, \<lfloor>fx_accuracyM fx + 1 / 2\<rfloor>)) (storedReading env owner rawEventId db)"

definition stopped :: "fix_reading \<Rightarrow> fix_reading option \<Rightarrow> bool" where
  "stopped later earlier =
     (case fx_speedMps later of Some v \<Rightarrow> v < STOPPED_MPS
      | None \<Rightarrow> (case earlier of None \<Rightarrow> False
                 | Some e \<Rightarrow> distanceM (fx_latitude later) (fx_longitude later) (fx_latitude e) (fx_longitude e) \<le> STILL_M))"

definition resetPresence :: "string \<Rightarrow> string \<Rightarrow> place_db \<Rightarrow> place_db" where
  "resetPresence owner pid db =
     db\<lparr>db_presence := filter (\<lambda>r. \<not> (pr_owner r = owner \<and> pr_placeId r = pid)) (db_presence db)\<rparr>"

section \<open>One presence state per owner and place\<close>

text \<open>
  \<open>publish\<close> of \<open>applyPresence\<close>: an event at the change's own time keeps its source and raw event
  (\<open>at === change.at\<close>), one at a remembered time is put down to the region.
\<close>

definition publish_own :: "string \<Rightarrow> string \<Rightarrow> presence_change \<Rightarrow> presence_transition \<Rightarrow> string option \<Rightarrow> place_db \<Rightarrow> place_db" where
  "publish_own owner pid change tr linked = publishPresence owner pid (change\<lparr>pc_transition := tr\<rparr>) linked"

definition publish_remembered ::
  "string \<Rightarrow> string \<Rightarrow> presence_change \<Rightarrow> presence_transition \<Rightarrow> int \<Rightarrow> string option \<Rightarrow> place_db \<Rightarrow> place_db" where
  "publish_remembered owner pid change tr t linked =
     publishPresence owner pid (change\<lparr>pc_transition := tr, pc_at := t, pc_source := Region, pc_rawEventId := None\<rparr>) linked"

definition change_visit :: "presence_change \<Rightarrow> string option" where
  "change_visit change = (if pc_source change = Visit then pc_visitId change else None)"

definition is_inside :: "presence_row option \<Rightarrow> bool" where
  "is_inside row = (case row of None \<Rightarrow> False | Some r \<Rightarrow> pr_state r = Inside)"

definition is_stale :: "presence_row option \<Rightarrow> presence_change \<Rightarrow> bool" where
  "is_stale row change = (case row of None \<Rightarrow> False | Some r \<Rightarrow> pc_at change < pr_since r)"

definition not_before :: "int \<Rightarrow> int option \<Rightarrow> bool" where
  "not_before t x = (case x of None \<Rightarrow> False | Some u \<Rightarrow> u \<le> t)"

text \<open>A row at the start of a stay, and at its end.\<close>

definition enter_row :: "int \<Rightarrow> string option \<Rightarrow> presence_row \<Rightarrow> presence_row" where
  "enter_row t visitId r = r\<lparr>pr_state := Inside, pr_since := t, pr_leavingAt := None, pr_lastEnteredAt := Some t,
     pr_visitId := visitId, pr_approachingAt := None, pr_arrivingAt := None, pr_arrivingEventId := None\<rparr>"

definition leave_row :: "int \<Rightarrow> presence_row \<Rightarrow> presence_row" where
  "leave_row t r = r\<lparr>pr_state := Outside, pr_since := t, pr_leavingAt := None, pr_lastEnteredAt := None, pr_visitId := None\<rparr>"

text \<open>The state a geofence reports when it is first added.\<close>

definition apply_initial :: "string \<Rightarrow> string \<Rightarrow> presence_change \<Rightarrow> place_db \<Rightarrow> place_db" where
  "apply_initial owner pid change db =
     (let arrived = (pc_transition change = Arrived); t = pc_at change
      in if is_stale (find_presence owner pid db) change then db
         else upsert_presence owner pid t (\<lambda>r. r\<lparr>pr_state := (if arrived then Inside else Outside), pr_since := t,
                pr_leavingAt := None, pr_lastEnteredAt := (if arrived then Some t else None), pr_visitId := None,
                pr_approachingAt := None, pr_arrivingAt := None, pr_arrivingEventId := None\<rparr>) db)"

definition apply_arrived :: "string \<Rightarrow> string \<Rightarrow> presence_change \<Rightarrow> place_db \<Rightarrow> place_db" where
  "apply_arrived owner pid change db =
     (let row = find_presence owner pid db; t = pc_at change; visitId = change_visit change
      in case row of
           None \<Rightarrow> publish_own owner pid change Arrived visitId (upsert_presence owner pid t (enter_row t visitId) db)
         | Some r \<Rightarrow>
             (if pr_state r = Outside then
                (if is_stale row change then db
                 else publish_own owner pid change Arrived visitId (upsert_presence owner pid t (enter_row t visitId) db))
              else if not_before t (pr_leavingAt r) then
                (let l = the (pr_leavingAt r)
                 in if \<not> pr_leavingConfirmed r \<or> t - l < DEPARTURE_SETTLE_MS then
                      upsert_presence owner pid t
                        (\<lambda>r. r\<lparr>pr_leavingAt := None, pr_leavingConfirmed := False, pr_lastEnteredAt := Some t\<rparr>) db
                    else publish_own owner pid change Arrived visitId
                           (upsert_presence owner pid t
                              (\<lambda>r. r\<lparr>pr_state := Inside, pr_since := t, pr_leavingAt := None, pr_lastEnteredAt := Some t,
                                     pr_visitId := visitId\<rparr>)
                              (publish_remembered owner pid change Departed l None db)))
              else
                (let lastEnteredAt = Some (case pr_lastEnteredAt r of None \<Rightarrow> t | Some e \<Rightarrow> if t > e then t else e)
                 in if visitId \<noteq> None \<and> visitId \<noteq> pr_visitId r \<and> t > pr_since r \<and>
                       (pr_visitId r \<noteq> None \<or> t - pr_since r > MISSED_EXIT_MS) then
                      publish_own owner pid change Arrived visitId
                        (upsert_presence owner pid t
                           (\<lambda>r. r\<lparr>pr_since := t, pr_leavingAt := None, pr_lastEnteredAt := lastEnteredAt, pr_visitId := visitId\<rparr>) db)
                    else
                      (let overlaps = (case pc_visitDepartureAt change of None \<Rightarrow> True | Some d \<Rightarrow> d \<ge> pr_since r)
                       in upsert_presence owner pid t
                            (\<lambda>r'. if visitId \<noteq> None \<and> pr_visitId r = None \<and> overlaps
                                  then r'\<lparr>pr_lastEnteredAt := lastEnteredAt, pr_visitId := visitId\<rparr>
                                  else r'\<lparr>pr_lastEnteredAt := lastEnteredAt\<rparr>) db))))"

text \<open>A confirmed departure: at the time of the exit that was already waiting, or at the change's own.\<close>

definition depart_now :: "string \<Rightarrow> string \<Rightarrow> presence_change \<Rightarrow> presence_row \<Rightarrow> place_db \<Rightarrow> place_db" where
  "depart_now owner pid change r db =
     (let t = pc_at change
      in case pr_leavingAt r of
           Some l \<Rightarrow>
             (if l < t \<and> (pr_leavingConfirmed r \<or> t - l \<le> DEPARTURE_SETTLE_MS) then
                publishPresence owner pid (change\<lparr>pc_transition := Departed, pc_at := l,
                    pc_source := exitSource owner (pr_leavingEventId r) db, pc_rawEventId := pr_leavingEventId r\<rparr>)
                  (change_visit change) (upsert_presence owner pid t (leave_row l) db)
              else publish_own owner pid change Departed (change_visit change) (upsert_presence owner pid t (leave_row t) db))
         | None \<Rightarrow> publish_own owner pid change Departed (change_visit change) (upsert_presence owner pid t (leave_row t) db))"

text \<open>An exit or an outside reading that no newer inside evidence contradicts.\<close>

definition depart_later :: "string \<Rightarrow> string \<Rightarrow> presence_change \<Rightarrow> presence_row \<Rightarrow> place_db \<Rightarrow> place_db" where
  "depart_later owner pid change r db =
     (let t = pc_at change; left = (pc_source change = Region)
      in if pc_confirmed change then depart_now owner pid change r db
         else (case pr_leavingAt r of
                 None \<Rightarrow> upsert_presence owner pid t
                   (\<lambda>r. r\<lparr>pr_leavingAt := Some t, pr_leavingEventId := pc_rawEventId change, pr_leavingConfirmed := left\<rparr>) db
               | Some l \<Rightarrow>
                   (if \<not> pr_leavingConfirmed r \<and> (left \<or> t - l \<ge> DEPARTURE_CONFIRM_MS)
                    then upsert_presence owner pid t (\<lambda>r. r\<lparr>pr_leavingConfirmed := True\<rparr>) db
                    else db)))"

definition apply_departed :: "string \<Rightarrow> string \<Rightarrow> presence_change \<Rightarrow> place_db \<Rightarrow> place_db" where
  "apply_departed owner pid change db =
     (let row = find_presence owner pid db; t = pc_at change; visitId = change_visit change; stale = is_stale row change
      in case row of
           None \<Rightarrow> db
         | Some r \<Rightarrow>
             (if pr_state r = Inside \<and> stale \<and> visitId \<noteq> None \<and> pr_visitId r = visitId then
                upsert_presence owner pid t (\<lambda>r. r\<lparr>pr_visitId := None\<rparr>) db
              else if pr_state r = Outside \<or> stale then db
              else if pc_source change = Visit then depart_now owner pid change r db
              else (case pr_lastEnteredAt r of
                      Some e \<Rightarrow>
                        (if t < e then
                           (if pc_source change = Reading \<or> e - t < DEPARTURE_SETTLE_MS then db
                            else publish_remembered owner pid change Arrived e None
                                   (upsert_presence owner pid t (\<lambda>r. r\<lparr>pr_since := e, pr_leavingAt := None, pr_visitId := None\<rparr>)
                                      (publish_own owner pid change Departed None db)))
                         else depart_later owner pid change r db)
                    | None \<Rightarrow> depart_later owner pid change r db)))"

text \<open>Reading a row back.  A change of a row keeps its key.\<close>

definition keeps_key :: "(presence_row \<Rightarrow> presence_row) \<Rightarrow> bool" where
  "keeps_key f \<longleftrightarrow> (\<forall>r. pr_owner (f r) = pr_owner r \<and> pr_placeId (f r) = pr_placeId r)"

lemma find_map_same:
  "(\<And>r. P (f r) = P r) \<Longrightarrow> find P (map (\<lambda>r. if P r then f r else r) rows) = map_option f (find P rows)"
  by (induction rows) auto

lemma find_map_other:
  "(\<And>r. P r \<Longrightarrow> \<not> Q r \<and> \<not> Q (f r)) \<Longrightarrow> find Q (map (\<lambda>r. if P r then f r else r) rows) = find Q rows"
  by (induction rows) auto

lemma find_update:
  assumes "keeps_key f"
  shows "find_presence owner pid (update_presence ow p f db) =
     (if ow = owner \<and> p = pid then map_option f (find_presence owner pid db) else find_presence owner pid db)"
proof (cases "ow = owner \<and> p = pid")
  case True
  then show ?thesis
    using assms by (simp add: find_presence_def update_presence_def keeps_key_def find_map_same)
next
  case False
  then show ?thesis
    using assms by (auto simp: find_presence_def update_presence_def keeps_key_def intro!: find_map_other)
qed

lemma find_append: "find P (xs @ ys) = (case find P xs of None \<Rightarrow> find P ys | Some x \<Rightarrow> Some x)"
  by (induction xs) auto

lemma find_upsert:
  assumes "keeps_key f"
  shows "find_presence owner pid (upsert_presence ow p t f db) =
     (if ow = owner \<and> p = pid
      then Some (f (case find_presence owner pid db of None \<Rightarrow> new_presence owner pid t | Some r \<Rightarrow> r))
      else find_presence owner pid db)"
proof (cases "find_presence ow p db")
  case None
  then show ?thesis
    using assms by (auto simp: upsert_presence_def find_presence_def find_append keeps_key_def new_presence_def
        split: option.split)
next
  case (Some r)
  then show ?thesis
    using assms by (auto simp: upsert_presence_def find_update)
qed

lemma find_publish [simp]: "find_presence owner pid (publishPresence ow p c v db) = find_presence owner pid db"
  by (simp add: find_presence_def publishPresence_def Let_def)

lemma keeps_key_rows [simp]:
  "keeps_key (enter_row t v)" "keeps_key (leave_row t)"
  by (simp_all add: keeps_key_def enter_row_def leave_row_def)

function applyPresence :: "place_env \<Rightarrow> string \<Rightarrow> string \<Rightarrow> presence_change \<Rightarrow> place_db \<Rightarrow> place_db" where
  "applyPresence env owner pid change db =
     (let row = find_presence owner pid db; t = pc_at change
      in if pc_initial change then apply_initial owner pid change db
         else if \<not> is_inside row \<and> pc_transition change = Departed then
           (case row of None \<Rightarrow> apply_departed owner pid change db
            | Some r \<Rightarrow>
                (let approach = not_before t (pr_approachingAt r); arriving = not_before t (pr_arrivingAt r)
                 in if arriving \<and> pc_source change = Region \<and> t - the (pr_arrivingAt r) \<ge> ARRIVAL_STAY_MS then
                      (let a = the (pr_arrivingAt r)
                       in applyPresence env owner pid change
                            (publishPresence owner pid
                               \<lparr>pc_transition = Arrived, pc_at = a,
                                pc_source = arrivalSource env owner (pr_arrivingEventId r) pid db, pc_visitId = None,
                                pc_rawEventId = pr_arrivingEventId r, pc_visitDepartureAt = None, pc_initial = False,
                                pc_confirmed = False\<rparr> None
                               (upsert_presence owner pid t (enter_row a None) db)))
                    else if approach \<or> arriving then
                      upsert_presence owner pid t (\<lambda>r. r\<lparr>
                        pr_approachingAt := (if approach then None else pr_approachingAt r),
                        pr_arrivingAt := (if arriving then None else pr_arrivingAt r),
                        pr_arrivingEventId := (if arriving then None else pr_arrivingEventId r)\<rparr>) db
                    else apply_departed owner pid change db))
         else if pc_transition change = Arrived then apply_arrived owner pid change db
         else apply_departed owner pid change db)"
  by pat_completeness auto

termination applyPresence
  by (relation "measure (\<lambda>(env, owner, pid, change, db). if is_inside (find_presence owner pid db) then 0 else 1)")
    (auto simp: find_upsert is_inside_def enter_row_def)

declare applyPresence.simps [simp del]

section \<open>Readings\<close>

text \<open>A change from a region report or a reading, with the optional fields of \<open>PresenceChange\<close> absent.\<close>

definition plain_change :: "presence_transition \<Rightarrow> int \<Rightarrow> presence_source \<Rightarrow> string option \<Rightarrow> presence_change" where
  "plain_change tr t source raw = \<lparr>pc_transition = tr, pc_at = t, pc_source = source, pc_visitId = None,
     pc_rawEventId = raw, pc_visitDepartureAt = None, pc_initial = False, pc_confirmed = False\<rparr>"

definition arriveOnReading ::
  "place_env \<Rightarrow> string \<Rightarrow> place \<Rightarrow> int \<Rightarrow> presence_source \<Rightarrow> string \<Rightarrow> fix_reading \<Rightarrow> place_db \<Rightarrow> place_db" where
  "arriveOnReading env owner p t source raw fx db =
     (let pid = pl_id p; row = find_presence owner pid db;
          wait = upsert_presence owner pid (pl_geometryChangedAt p)
                   (\<lambda>r. r\<lparr>pr_arrivingAt := Some t, pr_arrivingEventId := Some raw\<rparr>) db
      in if is_inside row then applyPresence env owner pid (plain_change Arrived t source (Some raw)) db
         else case row of None \<Rightarrow> wait
           | Some r \<Rightarrow>
               (if t < pr_since r then db
                else case pr_arrivingAt r of None \<Rightarrow> wait
                  | Some first \<Rightarrow>
                      (let stored = storedReading env owner (pr_arrivingEventId r) db;
                           confirmed = (if t < first
                             then (case stored of None \<Rightarrow> False | Some later \<Rightarrow> stopped later (Some fx))
                             else stopped fx stored)
                       in if \<bar>t - first\<bar> \<ge> ARRIVAL_CONFIRM_MS \<and> confirmed then
                            noteInside owner pid (if t < first then first else t)
                              (applyPresence env owner pid
                                 (if t < first then plain_change Arrived t source (Some raw)
                                  else plain_change Arrived first
                                         (arrivalSource env owner (pr_arrivingEventId r) pid db) (pr_arrivingEventId r)) db)
                          else if first \<le> t then db
                          else wait)))"

definition insideEvidence ::
  "place_env \<Rightarrow> string \<Rightarrow> string \<Rightarrow> int \<Rightarrow> string \<Rightarrow> presence_row option \<Rightarrow> place_db \<Rightarrow> place_db" where
  "insideEvidence env owner pid t raw known db =
     (let row = (case known of None \<Rightarrow> find_presence owner pid db | Some r \<Rightarrow> Some r)
      in case row of None \<Rightarrow> db
         | Some r \<Rightarrow>
             (if pr_state r = Outside then db
              else if not_before t (pr_leavingAt r)
              then applyPresence env owner pid (plain_change Arrived t Reading (Some raw)) db
              else noteInside owner pid t db))"

definition markApproaching :: "string \<Rightarrow> place \<Rightarrow> int \<Rightarrow> place_db \<Rightarrow> place_db" where
  "markApproaching owner p t db =
     (let pid = pl_id p;
          mark = upsert_presence owner pid (pl_geometryChangedAt p) (\<lambda>r. r\<lparr>pr_approachingAt := Some t\<rparr>) db
      in case find_presence owner pid db of None \<Rightarrow> mark
         | Some r \<Rightarrow>
             (if pr_state r = Inside \<or> t < pr_since r \<or>
                 (case pr_approachingAt r of None \<Rightarrow> False | Some a \<Rightarrow> t \<le> a) then db else mark))"

text \<open>\<open>[...new Set(xs)]\<close>: the first occurrences.\<close>

definition set_order :: "'a list \<Rightarrow> 'a list" where
  "set_order xs = rev (remdups (rev xs))"

definition find_place :: "string \<Rightarrow> place list \<Rightarrow> place option" where
  "find_place pid ps = find (\<lambda>p. pl_id p = pid) ps"

definition find_row :: "string \<Rightarrow> presence_row list \<Rightarrow> presence_row option" where
  "find_row pid rows = find (\<lambda>r. pr_placeId r = pid) rows"

text \<open>
  What \<open>applyReading\<close> computes before its loop: the classes, the places the reading is inside, the rows it
  may change and the candidates, those inside first (the sort of the source is stable).
\<close>

record reading_scan =
  sc_places :: "place list"
  sc_inside :: "string list"
  sc_rows :: "presence_row list"
  sc_ordered :: "string list"

definition scan_reading :: "string \<Rightarrow> fix_reading \<Rightarrow> place list \<Rightarrow> place_db \<Rightarrow> reading_scan" where
  "scan_reading owner fx ps db =
     (let insideIds = map pl_id (filter (\<lambda>p. classifyReading fx p ps = RInside) ps);
          rows = filter (\<lambda>r. pr_owner r = owner \<and>
                   (pr_state r = Inside \<or> pr_arrivingAt r \<noteq> None \<or> pr_placeId r \<in> set insideIds)) (db_presence db);
          candidates = set_order (map pr_placeId rows @ insideIds);
          first = (\<lambda>pid. is_inside (find_row pid rows))
      in \<lparr>sc_places = ps, sc_inside = insideIds, sc_rows = rows,
          sc_ordered = filter first candidates @ filter (Not \<circ> first) candidates\<rparr>)"

definition insideElsewhere :: "reading_scan \<Rightarrow> string \<Rightarrow> bool" where
  "insideElsewhere sc pid \<longleftrightarrow> list_ex (\<lambda>other. other \<noteq> pid) (sc_inside sc)"

definition confirmedElsewhereAfter :: "reading_scan \<Rightarrow> fix_reading \<Rightarrow> string \<Rightarrow> bool" where
  "confirmedElsewhereAfter sc fx pid \<longleftrightarrow> list_ex (\<lambda>r.
     (case (find_place pid (sc_places sc), find_place (pr_placeId r) (sc_places sc)) of
        (Some here, Some there) \<Rightarrow>
          pr_placeId r \<noteq> pid \<and> pr_state r = Inside \<and>
          distanceM (pl_latitude here) (pl_longitude here) (pl_latitude there) (pl_longitude there) \<le> NEARBY_PLACE_M \<and>
          max (pr_since r) (case pr_lastEnteredAt r of None \<Rightarrow> 0 | Some e \<Rightarrow> e) > fx_at fx
      | _ \<Rightarrow> False)) (sc_rows sc)"

text \<open>One iteration of the loop.\<close>

definition read_place ::
  "place_env \<Rightarrow> string \<Rightarrow> fix_reading \<Rightarrow> string \<Rightarrow> string option \<Rightarrow> reading_scan \<Rightarrow> string \<Rightarrow> place_db \<Rightarrow> place_db" where
  "read_place env owner fx raw exc sc pid db =
     (let row = find_row pid (sc_rows sc); t = fx_at fx
      in case find_place pid (sc_places sc) of None \<Rightarrow> db
         | Some p \<Rightarrow>
             (if Some (pl_id p) = exc \<or> t < pl_geometryChangedAt p \<or> (case row of None \<Rightarrow> False | Some r \<Rightarrow> t < pr_since r) then db
              else
                (let state = classifyReading fx p (sc_places sc)
                 in if \<not> is_inside row then
                      (if state = RInside \<and> \<not> confirmedElsewhereAfter sc fx pid
                       then arriveOnReading env owner p t Reading raw fx db
                       else if (case row of None \<Rightarrow> False | Some r \<Rightarrow> not_before t (pr_arrivingAt r)) \<and>
                               (state = ROutside \<or> insideElsewhere sc pid \<and> state \<noteq> RUnknown)
                       then clearArrival owner pid db else db)
                    else if state = RInside then insideEvidence env owner pid t raw row db
                    else if insideElsewhere sc pid \<and> state \<noteq> RUnknown
                    then applyPresence env owner pid ((plain_change Departed t Reading (Some raw))\<lparr>pc_confirmed := True\<rparr>) db
                    else if state = ROutside
                    then applyPresence env owner pid (plain_change Departed t Reading (Some raw)) db
                    else db)))"

definition applyReading ::
  "place_env \<Rightarrow> string \<Rightarrow> fix_reading \<Rightarrow> string \<Rightarrow> place list option \<Rightarrow> string option \<Rightarrow> place_db \<Rightarrow> place_db" where
  "applyReading env owner fx raw owned exc db =
     (if fx_accuracyM fx > FIX_MAX_ACCURACY_M then db
      else
        (let ps = (case owned of None \<Rightarrow> placesForOwner owner db | Some ps \<Rightarrow> ps);
             sc = scan_reading owner fx ps db
         in fold (read_place env owner fx raw exc sc) (sc_ordered sc) db))"

section \<open>Region reports\<close>

fun text_less :: "string \<Rightarrow> string \<Rightarrow> bool" where
  "text_less [] ys = (ys \<noteq> [])"
| "text_less (x # xs) [] = False"
| "text_less (x # xs) (y # ys) = ((of_char x :: nat) < of_char y \<or> x = y \<and> text_less xs ys)"

definition isRedelivery :: "place_env \<Rightarrow> string \<Rightarrow> string \<Rightarrow> region_transition \<Rightarrow> place_db \<Rightarrow> bool" where
  "isRedelivery env owner raw parsed db =
     (case find (\<lambda>e. re_id e = raw) (db_rawEvents db) of None \<Rightarrow> False
      | Some this \<Rightarrow>
          list_ex (\<lambda>e. re_owner e = owner \<and> re_eventType e = REGION_TRANSITION_TYPE \<and> re_occurredAt e = rg_at parsed \<and>
             re_id e \<noteq> raw \<and> payload_text env e ''place_id'' = Some (rg_placeId parsed) \<and>
             payload_text env e ''geometry_revision'' = Some (rg_revision parsed) \<and>
             (re_recordedAt e < re_recordedAt this \<or> re_recordedAt e = re_recordedAt this \<and> text_less (re_id e) (re_id this)))
            (db_rawEvents db))"

text \<open>The place's own part of a report whose place, revision and freshness are established.\<close>

definition region_decides ::
  "place_env \<Rightarrow> string \<Rightarrow> string \<Rightarrow> region_transition \<Rightarrow> place \<Rightarrow> bool \<Rightarrow> reading_class \<Rightarrow> place_db \<Rightarrow> place_db" where
  "region_decides env owner raw parsed p initial state db =
     (let pid = pl_id p; change = (\<lambda>tr. (plain_change tr (rg_at parsed) Region (Some raw))\<lparr>pc_initial := initial\<rparr>)
      in if state = RUnknown then applyPresence env owner pid (change (rg_transition parsed)) db
         else if initial then applyPresence env owner pid (change (if state = RInside then Arrived else Departed)) db
         else if rg_transition parsed = Arrived then
           (if state = RInside then arriveOnReading env owner p (rg_at parsed) Region raw (the (rg_fix parsed)) db
            else markApproaching owner p (rg_at parsed) db)
         else if state = ROutside then applyPresence env owner pid (change Departed) db
         else if state = RInside
         then (case rg_fix parsed of None \<Rightarrow> db | Some f \<Rightarrow> insideEvidence env owner pid (fx_at f) raw None db)
         else db)"

definition live_place :: "string \<Rightarrow> string \<Rightarrow> place_db \<Rightarrow> place option" where
  "live_place owner pid db = find (\<lambda>p. pl_id p = pid \<and> pl_owner p = owner \<and> pl_deletedAt p = None) (db_places db)"

definition processRegionTransition ::
  "place_env \<Rightarrow> string \<Rightarrow> string \<Rightarrow> json \<Rightarrow> place_db \<Rightarrow> bool \<times> place_db" where
  "processRegionTransition env owner raw payload db =
     (case parseRegionTransition env payload of None \<Rightarrow> (False, db)
      | Some parsed \<Rightarrow>
          (case live_place owner (rg_placeId parsed) db of None \<Rightarrow> (True, db)
           | Some p \<Rightarrow>
               (if rg_revision parsed \<noteq> geometryRevision p then (True, db)
                else if isRedelivery env owner raw parsed db then (True, db)
                else
                  (let initial = (rg_initial parsed \<or> rg_at parsed < pl_geometryChangedAt p);
                       owned = (case rg_fix parsed of None \<Rightarrow> [] | Some _ \<Rightarrow> placesForOwner owner db);
                       state = (case rg_fix parsed of None \<Rightarrow> RUnknown | Some f \<Rightarrow> classifyReading f p owned);
                       others = (\<lambda>db. case rg_fix parsed of None \<Rightarrow> db
                         | Some f \<Rightarrow> if state \<noteq> RUnknown \<and> \<not> initial
                                     then applyReading env owner f raw (Some owned) (Some (pl_id p)) db else db);
                       db1 = (if rg_transition parsed = Arrived then others db else db);
                       db2 = region_decides env owner raw parsed p initial state db1
                   in (True, if rg_transition parsed = Departed then others db2 else db2)))))"

section \<open>Settling departures\<close>

definition settle_due :: "int \<Rightarrow> presence_row \<Rightarrow> bool" where
  "settle_due now r = (case pr_leavingAt r of None \<Rightarrow> False | Some l \<Rightarrow> pr_leavingConfirmed r \<and> l \<le> now - DEPARTURE_SETTLE_MS)"

definition settle_row :: "presence_row \<Rightarrow> place_db \<Rightarrow> place_db" where
  "settle_row r db =
     (let l = the (pr_leavingAt r)
      in publishPresence (pr_owner r) (pr_placeId r)
           (plain_change Departed l (exitSource (pr_owner r) (pr_leavingEventId r) db) (pr_leavingEventId r)) None
           (update_presence (pr_owner r) (pr_placeId r) (leave_row l) db))"

text \<open>
  \<open>now\<close> and \<open>now'\<close> are the two readings of the clock; \<open>locked\<close> tells the owners whose row another
  transaction holds (\<open>skipLocked\<close>).
\<close>

definition settleDepartures :: "int \<Rightarrow> int \<Rightarrow> (string \<Rightarrow> bool) \<Rightarrow> place_db \<Rightarrow> bool \<times> place_db" where
  "settleDepartures now now' locked db =
     (case sort_key (\<lambda>r. the (pr_leavingAt r)) (filter (settle_due now) (db_presence db)) of
        [] \<Rightarrow> (False, db)
      | candidate # _ \<Rightarrow>
          (let owner = pr_owner candidate
           in if map_of (db_owners db) owner = None \<or> locked owner then (False, db)
              else
                (let rows = filter (\<lambda>r. pr_owner r = owner \<and> pr_state r = Inside \<and> settle_due now' r) (db_presence db)
                 in (rows \<noteq> [], fold settle_row rows db))))"

end
