(* ===== verification/Places.thy ===== *)
theory Places
  imports PlacePresence Questions
begin

text \<open>
  Saved places and the visits the phone reports: \<open>service/src/personal-data/places.ts\<close> and the merge of visit
  reports, \<open>parseLocationPayload\<close> and \<open>projectVisit\<close> of \<open>location.ts\<close>.
\<close>

section \<open>The place of a visit\<close>

definition accuracy_padding_cap_m :: real where
  "accuracy_padding_cap_m = 200"

record visit_point =
  vp_latitude :: real
  vp_longitude :: real
  vp_horizontalAccuracyM :: real

definition visit_distance :: "visit_point \<Rightarrow> place \<Rightarrow> real" where
  "visit_distance v p = distanceM (vp_latitude v) (vp_longitude v) (pl_latitude p) (pl_longitude p)"

definition visitAtPlace :: "visit_point \<Rightarrow> place \<Rightarrow> bool" where
  "visitAtPlace v p \<longleftrightarrow> visit_distance v p \<le> pl_radiusM p + min (vp_horizontalAccuracyM v) accuracy_padding_cap_m"

fun nearest_place :: "visit_point \<Rightarrow> place option \<Rightarrow> place list \<Rightarrow> place option" where
  "nearest_place v best [] = best"
| "nearest_place v best (p # ps) =
     (if \<not> visitAtPlace v p then nearest_place v best ps
      else case best of
             None \<Rightarrow> nearest_place v (Some p) ps
           | Some b \<Rightarrow> nearest_place v (if visit_distance v p < visit_distance v b then Some p else best) ps)"

definition visitPlace :: "place list \<Rightarrow> visit_point \<Rightarrow> place option" where
  "visitPlace owned v = nearest_place v None owned"

definition matchingPlaces :: "place list \<Rightarrow> visit_point \<Rightarrow> (string \<times> string) list" where
  "matchingPlaces owned v = (case visitPlace owned v of None \<Rightarrow> [] | Some p \<Rightarrow> [(pl_id p, pl_name p)])"

text \<open>\<open>ORDER BY occurred_at, id\<close>.\<close>

definition event_before :: "presence_event \<Rightarrow> presence_event \<Rightarrow> bool" where
  "event_before e f \<longleftrightarrow> pe_occurredAt e < pe_occurredAt f \<or> pe_occurredAt e = pe_occurredAt f \<and> text_less (pe_id e) (pe_id f)"

fun insert_event :: "presence_event \<Rightarrow> presence_event list \<Rightarrow> presence_event list" where
  "insert_event e [] = [e]"
| "insert_event e (f # fs) = (if event_before f e then f # insert_event e fs else e # f # fs)"

definition order_events :: "presence_event list \<Rightarrow> presence_event list" where
  "order_events es = foldr insert_event es []"

text \<open>The loop of \<open>presenceDuringMs\<close>: the total and the start of the open stay.\<close>

fun stay_scan :: "int \<Rightarrow> int option \<Rightarrow> presence_event list \<Rightarrow> int \<times> int option" where
  "stay_scan acc since [] = (acc, since)"
| "stay_scan acc since (e # es) =
     (if pe_transition e = Departed
      then stay_scan (case since of None \<Rightarrow> acc | Some f \<Rightarrow> acc + (pe_occurredAt e - f)) None es
      else if since = None \<and> pe_source e \<noteq> Visit then stay_scan acc (Some (pe_occurredAt e)) es
      else stay_scan acc since es)"

definition presenceDuringMs :: "string \<Rightarrow> string \<Rightarrow> int \<Rightarrow> int option \<Rightarrow> int \<Rightarrow> place_db \<Rightarrow> int" where
  "presenceDuringMs owner pid start until now db =
     (let mine = filter (\<lambda>e. pe_owner e = owner \<and> pe_placeId e = pid) (db_presenceEvents db);
          before = order_events (filter (\<lambda>e. pe_occurredAt e < start) mine);
          during = order_events (filter (\<lambda>e. start \<le> pe_occurredAt e \<and>
                     (case until of None \<Rightarrow> True | Some u \<Rightarrow> pe_occurredAt e < u)) mine);
          since = (if before \<noteq> [] \<and> pe_transition (last before) = Arrived \<and> pe_source (last before) \<noteq> Visit
                   then Some start else None)
      in case stay_scan 0 since during of
           (ms, None) \<Rightarrow> ms
         | (ms, Some f) \<Rightarrow> ms + (case until of None \<Rightarrow> now | Some u \<Rightarrow> u) - f)"

record visit_span = visit_point +
  vs_startedAt :: int
  vs_arrivalAt :: "int option"
  vs_departureAt :: "int option"

fun longest_stay :: "(place \<Rightarrow> int) \<Rightarrow> (place \<times> int) option \<Rightarrow> place list \<Rightarrow> (place \<times> int) option" where
  "longest_stay ms best [] = best"
| "longest_stay ms best (p # ps) =
     longest_stay ms (if ms p > 0 \<and> (case best of None \<Rightarrow> True | Some (_, m) \<Rightarrow> ms p > m) then Some (p, ms p) else best) ps"

definition visit_point_of :: "visit_span \<Rightarrow> visit_point" where
  "visit_point_of v = visit_point.truncate v"

definition placeOfVisit :: "string \<Rightarrow> place list \<Rightarrow> visit_span \<Rightarrow> int \<Rightarrow> place_db \<Rightarrow> place option" where
  "placeOfVisit owner owned v now db =
     (let fits = filter (visitAtPlace (visit_point_of v)) owned
      in if length fits < 2 then (case fits of [] \<Rightarrow> None | p # _ \<Rightarrow> Some p)
         else
           (case longest_stay (\<lambda>p. presenceDuringMs owner (pl_id p)
                    (case vs_arrivalAt v of None \<Rightarrow> vs_startedAt v | Some a \<Rightarrow> a) (vs_departureAt v) now db) None fits of
              Some (p, _) \<Rightarrow> Some p
            | None \<Rightarrow> visitPlace fits (visit_point_of v)))"

definition visitPlaces :: "string \<Rightarrow> place list \<Rightarrow> visit_span \<Rightarrow> int \<Rightarrow> place_db \<Rightarrow> (string \<times> string) list" where
  "visitPlaces owner owned v now db =
     (case placeOfVisit owner owned v now db of None \<Rightarrow> [] | Some p \<Rightarrow> [(pl_id p, pl_name p)])"

section \<open>Visit reports\<close>

definition span_of :: "location_visit \<Rightarrow> visit_span" where
  "span_of v = \<lparr>vp_latitude = lv_latitude v, vp_longitude = lv_longitude v,
     vp_horizontalAccuracyM = lv_horizontalAccuracyM v, vs_startedAt = lv_startedAt v,
     vs_arrivalAt = lv_arrivalAt v, vs_departureAt = lv_departureAt v\<rparr>"

definition visit_change :: "presence_transition \<Rightarrow> int \<Rightarrow> location_visit \<Rightarrow> presence_change" where
  "visit_change tr t v = \<lparr>pc_transition = tr, pc_at = t, pc_source = Visit, pc_visitId = Some (lv_id v),
     pc_rawEventId = None, pc_visitDepartureAt = lv_departureAt v, pc_initial = False, pc_confirmed = False\<rparr>"

text \<open>
  The publication of \<open>visit.ended\<close>: the counter moves even where the unique index on the visit keeps the
  event from being inserted again.  An owner without a row makes \<open>sequence.value\<close> throw.
\<close>

definition publish_visit_ended :: "string \<Rightarrow> location_visit \<Rightarrow> place_db \<Rightarrow> place_db result" where
  "publish_visit_ended owner v db =
     (case map_of (db_owners db) owner of
        None \<Rightarrow> Inl (JsError ''sequence is undefined'')
      | Some n \<Rightarrow>
          (let d = \<lparr>de_id = db_ulid db (db_used db), de_visitId = Some (lv_id v), de_placeId = None,
                     de_presenceEventId = None, de_eventType = ''visit.ended'', de_publicationSequence = Suc n,
                     de_owner = owner\<rparr>;
               known = list_ex (\<lambda>e. de_visitId e = Some (lv_id v) \<and> de_eventType e = ''visit.ended'') (db_domains db)
           in Inr (db\<lparr>db_owners := AList.update owner (Suc n) (db_owners db),
                      db_domains := (if known then db_domains db else db_domains db @ [d]),
                      db_used := Suc (db_used db)\<rparr>)))"

definition publishVisitEvents ::
  "place_env \<Rightarrow> string \<Rightarrow> location_visit \<Rightarrow> bool \<Rightarrow> bool \<Rightarrow> int \<Rightarrow> place_db \<Rightarrow> place_db result" where
  "publishVisitEvents env owner v arrived completed now db =
     (if \<not> arrived \<and> \<not> completed then Inr db
      else
        (let owned = filter (\<lambda>p. pl_owner p = owner \<and> pl_deletedAt p = None) (db_places db);
             here = (case placeOfVisit owner owned (span_of v) now db of None \<Rightarrow> []
                     | Some p \<Rightarrow> if pl_geometryChangedAt p \<le> lv_startedAt v then [p] else []);
             arrivalAt = (case lv_arrivalAt v of None \<Rightarrow> lv_startedAt v | Some a \<Rightarrow> a);
             db1 = (if arrived then fold (\<lambda>p. applyPresence env owner (pl_id p) (visit_change Arrived arrivalAt v)) here db else db)
         in if \<not> completed then Inr db1
            else
              (let linked = map pr_placeId (filter (\<lambda>r. pr_owner r = owner \<and> pr_visitId r = Some (lv_id v) \<and> pr_state r = Inside)
                              (db_presence db1));
                   leaving = here @ filter (\<lambda>p. pl_id p \<notin> set (map pl_id here) \<and> pl_id p \<in> set linked) owned;
                   db2 = fold (\<lambda>p. applyPresence env owner (pl_id p) (visit_change Departed (the (lv_departureAt v)) v)) leaving db1
               in publish_visit_ended owner v db2)))"

record parsed_location =
  lo_kind :: string
  lo_latitude :: real
  lo_longitude :: real
  lo_horizontalAccuracyM :: real
  lo_arrivalAt :: "int option"
  lo_departureAt :: "int option"
  lo_visitKey :: "string option"

text \<open>
  The pattern of \<open>timestamp\<close>: a date, \<open>T\<close>, anything on one line, and a zone.
\<close>

definition zone_text :: "string \<Rightarrow> bool" where
  "zone_text z \<longleftrightarrow> z = ''Z'' \<or> (length z = 6 \<and> (z ! 0 = CHR ''+'' \<or> z ! 0 = CHR ''-'') \<and> ascii_digit (z ! 1) \<and> ascii_digit (z ! 2) \<and>
     z ! 3 = CHR '':'' \<and> ascii_digit (z ! 4) \<and> ascii_digit (z ! 5))"

definition one_line :: "string \<Rightarrow> bool" where
  "one_line s \<longleftrightarrow> CHR 0x0A \<notin> set s \<and> CHR 0x0D \<notin> set s \<and>
     \<not> list_ex (\<lambda>i. starts_with [CHR 0xE2, CHR 0x80, CHR 0xA8] (drop i s) \<or> starts_with [CHR 0xE2, CHR 0x80, CHR 0xA9] (drop i s))
         [0..<length s]"

definition timestamp_text :: "string \<Rightarrow> bool" where
  "timestamp_text s \<longleftrightarrow>
     (let rest = drop 11 s; n = length rest
      in length s \<ge> 12 \<and> list_all (\<lambda>i. ascii_digit (s ! i)) [0, 1, 2, 3, 5, 6, 8, 9] \<and> s ! 4 = CHR ''-'' \<and> s ! 7 = CHR ''-'' \<and>
         s ! 10 = CHR ''T'' \<and>
         list_ex (\<lambda>k. zone_text (drop k rest) \<and> one_line (take k rest)) [n - 1, n - 6])"

definition timestamp :: "place_env \<Rightarrow> json \<Rightarrow> int option" where
  "timestamp env v = (case v of JStr s \<Rightarrow> if timestamp_text s then parse_time env v else None | _ \<Rightarrow> None)"

definition text_value :: "nat \<Rightarrow> json \<Rightarrow> string option" where
  "text_value limit v = (case v of JStr s \<Rightarrow> if js_length s > 0 \<and> js_length s \<le> limit then Some s else None | _ \<Rightarrow> None)"

definition LOCATION_TYPES :: "string list" where
  "LOCATION_TYPES = [''location.visit.v1'', ''location.visit.v2'', ''location.significant_change.v1'', ''location.fix.v1'']"

text \<open>The pattern \<open>/^fix:[0-9a-z-]{1,64}$/\<close>.\<close>

definition fix_key_text :: "string \<Rightarrow> bool" where
  "fix_key_text s \<longleftrightarrow> starts_with ''fix:'' s \<and> 5 \<le> length s \<and> length s \<le> 68 \<and>
     list_all (\<lambda>c. ascii_digit c \<or> (97 \<le> (of_char c :: nat) \<and> (of_char c :: nat) \<le> 122) \<or> c = CHR ''-'') (drop 4 s)"

text \<open>\<open>x == null ? null : timestamp(x)\<close>: the outer \<open>None\<close> is a value that is present and no timestamp.\<close>

definition optional_time :: "place_env \<Rightarrow> json \<Rightarrow> int option option" where
  "optional_time env v = (if v = JUndef \<or> v = JNull then Some None else map_option Some (timestamp env v))"

definition parseLocationPayload :: "place_env \<Rightarrow> string \<Rightarrow> json \<Rightarrow> parsed_location option" where
  "parseLocationPayload env type v =
     (if type \<notin> set LOCATION_TYPES then None
      else Option.bind (as_record v) (\<lambda>ob.
        Option.bind (as_record (obj_get ob ''coordinate'')) (\<lambda>coordinate.
        Option.bind (as_real (obj_get coordinate ''lat'')) (\<lambda>lat.
        Option.bind (as_real (obj_get coordinate ''lon'')) (\<lambda>lon.
        Option.bind (as_real (obj_get ob ''horizontal_accuracy_m'')) (\<lambda>accuracy.
        if lat < -90 \<or> lat > 90 \<or> lon < -180 \<or> lon > 180 \<or> accuracy < 0 then None
        else Option.bind (optional_time env (obj_get ob ''arrival_at'')) (\<lambda>arrivalAt.
        Option.bind (optional_time env (obj_get ob ''departure_at'')) (\<lambda>departureAt.
        if (case (arrivalAt, departureAt) of (Some a, Some d) \<Rightarrow> d < a | _ \<Rightarrow> False) then None
        else
          (let is_fix = (type = ''location.fix.v1'');
               visitKey = (if type = ''location.visit.v2'' then text_value 128 (obj_get ob ''visit_key'')
                 else if is_fix
                 then (case obj_get ob ''fix_key'' of JStr k \<Rightarrow> if fix_key_text k then Some k else None | _ \<Rightarrow> None)
                 else None)
           in if (type = ''location.visit.v2'' \<or> is_fix) \<and> visitKey = None then None
              else Some \<lparr>lo_kind = (if starts_with ''location.visit.'' type then ''visit''
                                    else if is_fix then ''fix'' else ''significant_change''),
                         lo_latitude = lat, lo_longitude = lon, lo_horizontalAccuracyM = accuracy,
                         lo_arrivalAt = arrivalAt, lo_departureAt = departureAt, lo_visitKey = visitKey\<rparr>)))))))))"

text \<open>\<open>coalesce(least(a, b), a, b)\<close> and the same with \<open>greatest\<close>; both ignore nulls.\<close>

definition opt_least :: "int option \<Rightarrow> int option \<Rightarrow> int option" where
  "opt_least a b = (case (a, b) of (Some x, Some y) \<Rightarrow> Some (min x y) | (None, _) \<Rightarrow> b | _ \<Rightarrow> a)"

definition opt_greatest :: "int option \<Rightarrow> int option \<Rightarrow> int option" where
  "opt_greatest a b = (case (a, b) of (Some x, Some y) \<Rightarrow> Some (max x y) | (None, _) \<Rightarrow> b | _ \<Rightarrow> a)"

definition preferIncoming :: "location_visit \<Rightarrow> location_visit \<Rightarrow> bool" where
  "preferIncoming old new \<longleftrightarrow>
     (lv_departureAt new \<noteq> None \<and> lv_departureAt old = None) \<or>
     ((lv_departureAt new = None) = (lv_departureAt old = None) \<and> lv_horizontalAccuracyM new < lv_horizontalAccuracyM old)"

definition merge_visit :: "location_visit \<Rightarrow> location_visit \<Rightarrow> location_visit" where
  "merge_visit old new =
     (let newer = preferIncoming old new
      in old\<lparr>lv_arrivalAt := opt_least (lv_arrivalAt old) (lv_arrivalAt new),
             lv_departureAt := opt_greatest (lv_departureAt old) (lv_departureAt new),
             lv_latitude := (if newer then lv_latitude new else lv_latitude old),
             lv_longitude := (if newer then lv_longitude new else lv_longitude old),
             lv_horizontalAccuracyM := (if newer then lv_horizontalAccuracyM new else lv_horizontalAccuracyM old),
             lv_startedAt := (case opt_least (lv_arrivalAt old) (lv_arrivalAt new) of None \<Rightarrow> lv_startedAt old | Some a \<Rightarrow> a),
             lv_lastEventId := lv_lastEventId new,
             lv_receivedAt := max (lv_receivedAt old) (lv_receivedAt new)\<rparr>)"

definition find_visit :: "string \<Rightarrow> string \<Rightarrow> place_db \<Rightarrow> location_visit option" where
  "find_visit owner key db = find (\<lambda>v. lv_owner v = owner \<and> lv_visitKey v = key) (db_visits db)"

definition projectVisit :: "place_env \<Rightarrow> string \<Rightarrow> string \<Rightarrow> int \<Rightarrow> parsed_location \<Rightarrow> int \<Rightarrow> place_db \<Rightarrow> place_db result" where
  "projectVisit env owner raw receivedAt lo now db =
     (let key = (case lo_visitKey lo of None \<Rightarrow> ''v1:'' @ raw | Some k \<Rightarrow> k);
          startedAt = (case lo_arrivalAt lo of Some a \<Rightarrow> a
                       | None \<Rightarrow> (case lo_departureAt lo of Some d \<Rightarrow> d | None \<Rightarrow> receivedAt));
          before = find_visit owner key db;
          new = \<lparr>lv_id = db_ulid db (db_used db), lv_visitKey = key, lv_arrivalAt = lo_arrivalAt lo,
                 lv_departureAt = lo_departureAt lo, lv_latitude = lo_latitude lo, lv_longitude = lo_longitude lo,
                 lv_horizontalAccuracyM = lo_horizontalAccuracyM lo, lv_startedAt = startedAt, lv_firstEventId = raw,
                 lv_lastEventId = raw, lv_receivedAt = receivedAt, lv_owner = owner\<rparr>;
          after = (case before of None \<Rightarrow> new | Some old \<Rightarrow> merge_visit old new);
          db1 = db\<lparr>db_visits := (case before of None \<Rightarrow> db_visits db @ [new]
                      | Some _ \<Rightarrow> map (\<lambda>v. if lv_owner v = owner \<and> lv_visitKey v = key then merge_visit v new else v) (db_visits db)),
                   db_used := Suc (db_used db)\<rparr>
      in if lo_visitKey lo = None then Inr db1
         else publishVisitEvents env owner after (before = None \<and> lv_arrivalAt after \<noteq> None)
                ((case before of None \<Rightarrow> True | Some b \<Rightarrow> lv_departureAt b = None) \<and> lv_departureAt after \<noteq> None) now db1)"

section \<open>Managing places\<close>

datatype place_error = InvalidPlace | PlaceLimitReached | PlaceNotFound

record place_input =
  pi_name :: string
  pi_note :: "string option"
  pi_latitude :: real
  pi_longitude :: real
  pi_radius :: real

record place_patch =
  pt_name :: "string option"
  pt_note :: "string option option"
  pt_coordinate :: "(real \<times> real) option"
  pt_radius :: "real option"

text \<open>The \<open>zod\<close> schemas; numbers of a JSON body are finite.\<close>

definition z_name :: "json \<Rightarrow> string option" where
  "z_name v = (case v of JStr s \<Rightarrow> (let t = js_trim s in if 1 \<le> js_length t \<and> js_length t \<le> 120 then Some t else None) | _ \<Rightarrow> None)"

definition z_between :: "real \<Rightarrow> real \<Rightarrow> json \<Rightarrow> real option" where
  "z_between lo hi v = Option.bind (as_real v) (\<lambda>x. if lo \<le> x \<and> x \<le> hi then Some x else None)"

definition z_note :: "json \<Rightarrow> string option option" where
  "z_note v = (case v of JNull \<Rightarrow> Some None
     | JStr s \<Rightarrow> (if js_length (js_trim s) \<le> 500 then Some (Some (js_trim s)) else None) | _ \<Rightarrow> None)"

definition z_strict :: "string list \<Rightarrow> js_object \<Rightarrow> bool" where
  "z_strict keys ob \<longleftrightarrow> list_all (\<lambda>(k, _). k \<in> set keys) ob"

definition place_keys :: "string list" where
  "place_keys = [''name'', ''latitude'', ''longitude'', ''radius_m'', ''note'']"

definition placeCreateSchema :: "json \<Rightarrow> place_input option" where
  "placeCreateSchema v =
     Option.bind (as_record v) (\<lambda>ob.
     Option.bind (z_name (obj_get ob ''name'')) (\<lambda>name.
     Option.bind (z_between (-90) 90 (obj_get ob ''latitude'')) (\<lambda>latitude.
     Option.bind (z_between (-180) 180 (obj_get ob ''longitude'')) (\<lambda>longitude.
     Option.bind (z_optional (z_between 50 2000) (obj_get ob ''radius_m'')) (\<lambda>radius.
     Option.bind (z_optional z_note (obj_get ob ''note'')) (\<lambda>note.
     if z_strict place_keys ob
     then Some \<lparr>pi_name = name, pi_note = (case note of None \<Rightarrow> None | Some n \<Rightarrow> n), pi_latitude = latitude,
                pi_longitude = longitude, pi_radius = (case radius of None \<Rightarrow> 100 | Some r \<Rightarrow> r)\<rparr>
     else None))))))"

definition placeUpdateSchema :: "json \<Rightarrow> place_patch option" where
  "placeUpdateSchema v =
     Option.bind (as_record v) (\<lambda>ob.
     Option.bind (z_optional z_name (obj_get ob ''name'')) (\<lambda>name.
     Option.bind (z_optional (z_between (-90) 90) (obj_get ob ''latitude'')) (\<lambda>latitude.
     Option.bind (z_optional (z_between (-180) 180) (obj_get ob ''longitude'')) (\<lambda>longitude.
     Option.bind (z_optional (z_between 50 2000) (obj_get ob ''radius_m'')) (\<lambda>radius.
     Option.bind (z_optional z_note (obj_get ob ''note'')) (\<lambda>note.
     if z_strict place_keys ob \<and> (latitude = None) = (longitude = None)
     then Some \<lparr>pt_name = name, pt_note = note,
                pt_coordinate = Option.bind latitude (\<lambda>la. map_option (\<lambda>lo. (la, lo)) longitude), pt_radius = radius\<rparr>
     else None))))))"

definition owner_row :: "string \<Rightarrow> place_db \<Rightarrow> place_db" where
  "owner_row owner db = (if map_of (db_owners db) owner = None then db\<lparr>db_owners := db_owners db @ [(owner, 0)]\<rparr> else db)"

definition create_place ::
  "string \<Rightarrow> json \<Rightarrow> string \<Rightarrow> int \<Rightarrow> place_db \<Rightarrow> place_error + (place \<times> place_db)" where
  "create_place owner input createdBy now db =
     (case placeCreateSchema input of None \<Rightarrow> Inl InvalidPlace
      | Some v \<Rightarrow>
          (let db1 = owner_row owner db
           in if length (filter (\<lambda>p. pl_owner p = owner \<and> pl_deletedAt p = None) (db_places db1)) \<ge> places_per_owner
              then Inl PlaceLimitReached
              else
                (let row = \<lparr>pl_id = db_ulid db1 (db_used db1), pl_name = pi_name v, pl_note = pi_note v,
                       pl_latitude = pi_latitude v, pl_longitude = pi_longitude v, pl_radiusM = pi_radius v,
                       pl_createdBy = createdBy, pl_geometryChangedAt = now, pl_deletedAt = None, pl_owner = owner\<rparr>
                 in Inr (row, db1\<lparr>db_places := db_places db1 @ [row], db_used := Suc (db_used db1)\<rparr>))))"

definition patch_place :: "place_patch \<Rightarrow> int \<Rightarrow> place \<Rightarrow> place" where
  "patch_place v now p =
     (let p1 = (case pt_name v of None \<Rightarrow> p | Some n \<Rightarrow> p\<lparr>pl_name := n\<rparr>);
          p2 = (case pt_note v of None \<Rightarrow> p1 | Some n \<Rightarrow> p1\<lparr>pl_note := n\<rparr>);
          p3 = (case pt_coordinate v of None \<Rightarrow> p2 | Some (lat, lon) \<Rightarrow> p2\<lparr>pl_latitude := lat, pl_longitude := lon\<rparr>);
          p4 = (case pt_radius v of None \<Rightarrow> p3 | Some r \<Rightarrow> p3\<lparr>pl_radiusM := r\<rparr>)
      in if pt_coordinate v \<noteq> None \<or> pt_radius v \<noteq> None then p4\<lparr>pl_geometryChangedAt := now\<rparr> else p4)"

definition update_place ::
  "string \<Rightarrow> string \<Rightarrow> json \<Rightarrow> int \<Rightarrow> place_db \<Rightarrow> place_error + (place \<times> place_db)" where
  "update_place owner pid input now db =
     (case placeUpdateSchema input of None \<Rightarrow> Inl InvalidPlace
      | Some v \<Rightarrow>
          (case live_place owner pid db of None \<Rightarrow> Inl PlaceNotFound
           | Some p \<Rightarrow>
               (let db1 = db\<lparr>db_places := map (\<lambda>p. if pl_id p = pid \<and> pl_owner p = owner \<and> pl_deletedAt p = None
                                then patch_place v now p else p) (db_places db)\<rparr>
                in Inr (patch_place v now p,
                        if pt_coordinate v \<noteq> None \<or> pt_radius v \<noteq> None then resetPresence owner pid db1 else db1))))"

definition delete_place :: "string \<Rightarrow> string \<Rightarrow> int \<Rightarrow> place_db \<Rightarrow> place_error + place_db" where
  "delete_place owner pid now db =
     (case live_place owner pid db of None \<Rightarrow> Inl PlaceNotFound
      | Some _ \<Rightarrow> Inr (db\<lparr>db_places := map (\<lambda>p. if pl_id p = pid \<and> pl_owner p = owner \<and> pl_deletedAt p = None
                            then p\<lparr>pl_deletedAt := Some now\<rparr> else p) (db_places db)\<rparr>))"

end
