(* ===== verification/PlaceProps.thy ===== *)
theory PlaceProps
  imports Places
begin

text \<open>
  What the presence of an owner at a place promises.  The published events of a place are its journal; an
  abstract automaton says which journals make sense, and every operation of the service only extends the
  journal along it and leaves the row where the journal ends.  On the way stand the invariant of the rows and
  the numbering of publications.
\<close>

section \<open>Journal and specification\<close>

definition place_journal :: "string \<Rightarrow> string \<Rightarrow> place_db \<Rightarrow> (presence_transition \<times> int) list" where
  "place_journal owner pid db = map (\<lambda>e. (pe_transition e, pe_occurredAt e))
     (filter (\<lambda>e. pe_owner e = owner \<and> pe_placeId e = pid) (db_presenceEvents db))"

text \<open>Where an owner stands relative to a place, and since when; \<open>None\<close> is not known.\<close>

type_synonym standing = "(presence_state \<times> int) option"

definition standing_of :: "presence_row option \<Rightarrow> standing" where
  "standing_of row = map_option (\<lambda>r. (pr_state r, pr_since r)) row"

definition standing :: "string \<Rightarrow> string \<Rightarrow> place_db \<Rightarrow> standing" where
  "standing owner pid db = standing_of (find_presence owner pid db)"

text \<open>
  The specification: an arrival is never before the time the owner has stood where they stand (arrivals may
  follow each other, when the departure between them was never reported), a departure ends a stay and is not
  before its start.
\<close>

fun journal_run :: "standing \<Rightarrow> (presence_transition \<times> int) list \<Rightarrow> standing option" where
  "journal_run p [] = Some p"
| "journal_run p ((Arrived, t) # es) =
     (if (case p of None \<Rightarrow> True | Some (_, s) \<Rightarrow> s \<le> t) then journal_run (Some (Inside, t)) es else None)"
| "journal_run p ((Departed, t) # es) =
     (case p of Some (Inside, s) \<Rightarrow> (if s \<le> t then journal_run (Some (Outside, t)) es else None) | _ \<Rightarrow> None)"

text \<open>A row may come to be without an event, for an approach or a reading: the owner is then outside.\<close>

definition follows :: "standing \<Rightarrow> (presence_transition \<times> int) list \<Rightarrow> standing \<Rightarrow> bool" where
  "follows p es q \<longleftrightarrow> journal_run p es = Some q \<or> (p = None \<and> es = [] \<and> (\<exists>g. q = Some (Outside, g)))"

lemma journal_run_append: "journal_run p (es @ fs) = Option.bind (journal_run p es) (\<lambda>q. journal_run q fs)"
  by (induction p es rule: journal_run.induct) (auto split: option.split prod.split presence_state.split)

lemma journal_run_new_row: "journal_run (Some (Outside, g)) es = Some q \<Longrightarrow> es \<noteq> [] \<Longrightarrow> journal_run None es = Some q"
  by (cases "(Some (Outside, g), es)" rule: journal_run.cases) (auto split: if_splits)

lemma journal_run_known: "journal_run (Some x) es \<noteq> Some None"
proof (induction es arbitrary: x)
  case (Cons e es)
  then show ?case
    by (cases e; cases "fst e"; cases x; cases "fst x") auto
qed simp

lemma journal_run_unknown: "journal_run p es = Some None \<Longrightarrow> p = None \<and> es = []"
  using journal_run_known by (cases "(p, es)" rule: journal_run.cases)
    (auto split: option.splits if_splits presence_state.splits)

lemma follows_refl [simp, intro]: "follows p [] p"
  by (simp add: follows_def)

lemma follows_trans:
  assumes pq: "follows p es q" and qr: "follows q fs r"
  shows "follows p (es @ fs) r"
proof (cases "journal_run p es = Some q")
  case True
  show ?thesis
  proof (cases "journal_run q fs = Some r")
    case True
    with \<open>journal_run p es = Some q\<close> show ?thesis
      by (simp add: follows_def journal_run_append)
  next
    case False
    with qr have q: "q = None" "fs = []" "\<exists>g. r = Some (Outside, g)"
      by (auto simp: follows_def)
    with True journal_run_unknown [of p es] show ?thesis
      by (auto simp: follows_def)
  qed
next
  case False
  with pq obtain g where p: "p = None" "es = []" "q = Some (Outside, g)"
    by (auto simp: follows_def)
  with qr have "journal_run (Some (Outside, g)) fs = Some r"
    by (auto simp: follows_def)
  then show ?thesis
    using p journal_run_new_row [of g fs r] by (cases "fs = []") (auto simp: follows_def)
qed

section \<open>Invariant of the rows\<close>

text \<open>
  Inside, the newest inside evidence lies between the start of the stay and a pending departure, and no
  approach or arrival waits; outside, nothing of a stay is left and what waits is not older than the row.
\<close>

definition presence_row_ok :: "presence_row \<Rightarrow> bool" where
  "presence_row_ok r \<longleftrightarrow>
     (case pr_state r of
        Inside \<Rightarrow> pr_approachingAt r = None \<and> pr_arrivingAt r = None \<and>
          (case pr_lastEnteredAt r of None \<Rightarrow> False
           | Some e \<Rightarrow> pr_since r \<le> e \<and> (case pr_leavingAt r of None \<Rightarrow> True | Some l \<Rightarrow> e \<le> l))
      | Outside \<Rightarrow> pr_leavingAt r = None \<and> pr_lastEnteredAt r = None \<and> pr_visitId r = None \<and>
          (case pr_arrivingAt r of None \<Rightarrow> True | Some a \<Rightarrow> pr_since r \<le> a) \<and>
          (case pr_approachingAt r of None \<Rightarrow> True | Some a \<Rightarrow> pr_since r \<le> a))"

definition row_key :: "presence_row \<Rightarrow> string \<times> string" where
  "row_key r = (pr_owner r, pr_placeId r)"

definition keys_ok :: "place_db \<Rightarrow> bool" where
  "keys_ok db \<longleftrightarrow> distinct (map row_key (db_presence db))"

definition presence_ok :: "place_db \<Rightarrow> bool" where
  "presence_ok db \<longleftrightarrow> keys_ok db \<and> (\<forall>r \<in> set (db_presence db). presence_row_ok r)"

text \<open>The publications of an owner are numbered upwards, and the counter is past them.\<close>

definition publications_ok :: "place_db \<Rightarrow> bool" where
  "publications_ok db \<longleftrightarrow> (\<forall>owner.
     sorted_wrt (<) (map de_publicationSequence (filter (\<lambda>d. de_owner d = owner) (db_domains db))) \<and>
     (\<forall>d \<in> set (db_domains db). de_owner d = owner \<longrightarrow> de_publicationSequence d \<le> sequence_of owner db))"

lemma find_mem: "keys_ok db \<Longrightarrow>
    find_presence owner pid db = Some r \<longleftrightarrow> r \<in> set (db_presence db) \<and> row_key r = (owner, pid)"
proof -
  have "distinct (map row_key rows) \<Longrightarrow>
    find (\<lambda>r. pr_owner r = owner \<and> pr_placeId r = pid) rows = Some r \<longleftrightarrow> r \<in> set rows \<and> row_key r = (owner, pid)" for rows
    by (induction rows) (auto simp: row_key_def image_iff)
  then show "keys_ok db \<Longrightarrow> find_presence owner pid db = Some r \<longleftrightarrow> r \<in> set (db_presence db) \<and> row_key r = (owner, pid)"
    by (simp add: keys_ok_def find_presence_def)
qed

lemma presence_ok_find: "presence_ok db \<longleftrightarrow> keys_ok db \<and> (\<forall>owner pid r. find_presence owner pid db = Some r \<longrightarrow> presence_row_ok r)"
  by (auto simp: presence_ok_def find_mem row_key_def)

lemma presence_ok_row: "presence_ok db \<Longrightarrow> find_presence owner pid db = Some r \<Longrightarrow> presence_row_ok r"
  by (simp add: presence_ok_find)

lemma keys_ok_update: "keys_ok db \<Longrightarrow> keeps_key f \<Longrightarrow> keys_ok (update_presence owner pid f db)"
proof -
  assume "keys_ok db" "keeps_key f"
  then have "map row_key (db_presence (update_presence owner pid f db)) = map row_key (db_presence db)"
    by (auto simp: update_presence_def keeps_key_def row_key_def)
  with \<open>keys_ok db\<close> show ?thesis
    by (simp add: keys_ok_def)
qed

lemma keys_ok_upsert:
  assumes ok: "keys_ok db" and f: "keeps_key f"
  shows "keys_ok (upsert_presence owner pid t f db)"
proof (cases "find_presence owner pid db")
  case None
  then have "row_key (f (new_presence owner pid t)) \<notin> row_key ` set (db_presence db)"
    using f by (auto simp: find_presence_def find_None_iff row_key_def keeps_key_def new_presence_def)
  with None ok show ?thesis
    by (auto simp: upsert_presence_def keys_ok_def)
next
  case (Some r)
  then show ?thesis
    using ok f by (simp add: upsert_presence_def keys_ok_update)
qed

lemma keys_ok_publish [simp]: "keys_ok (publishPresence owner pid c v db) = keys_ok db"
  by (simp add: keys_ok_def publishPresence_def Let_def)

lemma sequence_publish:
  "sequence_of owner (publishPresence ow p c v db) = (if ow = owner then Suc (sequence_of owner db) else sequence_of owner db)"
  by (simp add: sequence_of_def publishPresence_def Let_def update_conv')

lemma publications_grow:
  assumes ok: "publications_ok db" and d: "set ds \<subseteq> {d}" "length ds \<le> 1" "de_owner d = owner"
      "de_publicationSequence d = Suc (sequence_of owner db)"
    and db': "db_domains db' = db_domains db @ ds" "sequence_of owner db' = Suc (sequence_of owner db)"
      "\<And>ow. ow \<noteq> owner \<Longrightarrow> sequence_of ow db' = sequence_of ow db"
  shows "publications_ok db'"
  unfolding publications_ok_def
proof (intro allI conjI ballI impI)
  fix ow
  have old: "sorted_wrt (<) (map de_publicationSequence (filter (\<lambda>d. de_owner d = ow) (db_domains db)))"
    "\<And>e. e \<in> set (db_domains db) \<Longrightarrow> de_owner e = ow \<Longrightarrow> de_publicationSequence e \<le> sequence_of ow db"
    using ok by (auto simp: publications_ok_def)
  have ds: "ds = [] \<or> ds = [d]"
    using d by (cases ds) auto
  show "sorted_wrt (<) (map de_publicationSequence (filter (\<lambda>d. de_owner d = ow) (db_domains db')))"
    using ds d old db'(1) by (auto simp: sorted_wrt_append less_Suc_eq_le)
  show "de_publicationSequence e \<le> sequence_of ow db'" if "e \<in> set (db_domains db')" "de_owner e = ow" for e
  proof (cases "ow = owner")
    case True
    with ds d(3,4) old(2) [of e] that db'(1,2) show ?thesis
      by auto
  next
    case False
    with ds d(3,4) old(2) [of e] that db'(1,3) show ?thesis
      by auto
  qed
qed

lemma publications_publish: "publications_ok db \<Longrightarrow> publications_ok (publishPresence owner pid c v db)"
  by (rule publications_grow [where db = db and ds = "[d]" and d = d for d])
    (auto simp: sequence_publish, auto simp: publishPresence_def Let_def)

section \<open>What an operation does to one place\<close>

definition frame_ok :: "place_db \<Rightarrow> place_db \<Rightarrow> bool" where
  "frame_ok db db' \<longleftrightarrow> db_places db' = db_places db \<and> db_rawEvents db' = db_rawEvents db \<and>
     (publications_ok db \<longrightarrow> publications_ok db')"

text \<open>The operation leaves the row \<open>r\<close> at one place, publishes \<open>es\<close> for it and touches no other place.\<close>

definition effect ::
  "string \<Rightarrow> string \<Rightarrow> (presence_transition \<times> int) list \<Rightarrow> presence_row \<Rightarrow> place_db \<Rightarrow> place_db \<Rightarrow> bool" where
  "effect owner pid es r db db' \<longleftrightarrow>
     keys_ok db' \<and> frame_ok db db' \<and> find_presence owner pid db' = Some r \<and>
     place_journal owner pid db' = place_journal owner pid db @ es \<and>
     (\<forall>ow p. (ow, p) \<noteq> (owner, pid) \<longrightarrow>
        find_presence ow p db' = find_presence ow p db \<and> place_journal ow p db' = place_journal ow p db)"

lemma journal_presence [simp]:
  "place_journal owner pid (update_presence ow p f db) = place_journal owner pid db"
  "place_journal owner pid (upsert_presence ow p t f db) = place_journal owner pid db"
  by (simp_all add: place_journal_def update_presence_def upsert_presence_def split: option.split)

lemma journal_publish:
  "place_journal owner pid (publishPresence ow p c v db) =
     place_journal owner pid db @ (if ow = owner \<and> p = pid then [(pc_transition c, pc_at c)] else [])"
  by (simp add: place_journal_def publishPresence_def Let_def)

lemma publications_presence:
  "publications_ok (db\<lparr>db_presence := rows\<rparr>) = publications_ok db"
  by (simp add: publications_ok_def sequence_of_def)

lemma frame_refl [simp]: "frame_ok db db"
  by (simp add: frame_ok_def)

lemma frame_trans: "frame_ok a b \<Longrightarrow> frame_ok b c \<Longrightarrow> frame_ok a c"
  by (auto simp: frame_ok_def)

lemma frame_presence [simp]:
  "frame_ok db (update_presence owner pid f db)"
  "frame_ok db (upsert_presence owner pid t f db)"
  by (auto simp: frame_ok_def update_presence_def upsert_presence_def publications_presence split: option.split)

lemma frame_publish [simp]: "frame_ok db (publishPresence owner pid c v db)"
  by (auto simp: frame_ok_def publications_publish) (simp_all add: publishPresence_def Let_def)

lemma effect_upsert:
  "keys_ok db \<Longrightarrow> keeps_key f \<Longrightarrow>
     effect owner pid [] (f (case find_presence owner pid db of None \<Rightarrow> new_presence owner pid t | Some r \<Rightarrow> r)) db
       (upsert_presence owner pid t f db)"
  by (auto simp: effect_def keys_ok_upsert find_upsert)

lemma effect_update:
  "keys_ok db \<Longrightarrow> keeps_key f \<Longrightarrow> find_presence owner pid db = Some r \<Longrightarrow>
     effect owner pid [] (f r) db (update_presence owner pid f db)"
  by (auto simp: effect_def keys_ok_update find_update)

lemma effect_publish:
  "keys_ok db \<Longrightarrow> find_presence owner pid db = Some r \<Longrightarrow>
     effect owner pid [(pc_transition c, pc_at c)] r db (publishPresence owner pid c v db)"
  by (auto simp: effect_def journal_publish)

lemma effect_trans:
  "effect owner pid es r a b \<Longrightarrow> effect owner pid fs r' b c \<Longrightarrow> effect owner pid (es @ fs) r' a c"
  by (auto simp: effect_def intro: frame_trans)

lemma effect_keys: "effect owner pid es r db db' \<Longrightarrow> keys_ok db' \<and> find_presence owner pid db' = Some r"
  by (simp add: effect_def)

lemma effect_upsert_publish:
  "keys_ok db \<Longrightarrow> keeps_key f \<Longrightarrow>
     effect owner pid [(pc_transition c, pc_at c)]
       (f (case find_presence owner pid db of None \<Rightarrow> new_presence owner pid t | Some r \<Rightarrow> r)) db
       (publishPresence owner pid c v (upsert_presence owner pid t f db))"
  using effect_trans [OF effect_upsert effect_publish] effect_keys [OF effect_upsert] by fastforce

lemma effect_publish_upsert_publish:
  assumes "keys_ok db" "keeps_key f" "find_presence owner pid db = Some r"
  shows "effect owner pid [(pc_transition c, pc_at c), (pc_transition c', pc_at c')] (f r) db
       (publishPresence owner pid c' v' (upsert_presence owner pid t f (publishPresence owner pid c v db)))"
  using effect_trans [OF effect_publish [OF assms(1,3)] effect_upsert_publish [of _ f]] assms by fastforce

text \<open>Nothing, or an effect along the specification that ends in a good row.\<close>

definition good_effect :: "string \<Rightarrow> string \<Rightarrow> place_db \<Rightarrow> place_db \<Rightarrow> bool" where
  "good_effect owner pid db db' \<longleftrightarrow> db' = db \<or>
     (\<exists>es r. effect owner pid es r db db' \<and> presence_row_ok r \<and> follows (standing owner pid db) es (Some (pr_state r, pr_since r)))"

lemma good_refl [simp]: "good_effect owner pid db db"
  by (simp add: good_effect_def)

lemma good_effectI:
  "effect owner pid es r db db' \<Longrightarrow> presence_row_ok r \<Longrightarrow> follows (standing owner pid db) es (Some (pr_state r, pr_since r)) \<Longrightarrow>
     good_effect owner pid db db'"
  by (auto simp: good_effect_def)

lemma effect_standing: "effect owner pid es r db db' \<Longrightarrow> standing owner pid db' = Some (pr_state r, pr_since r)"
  by (simp add: effect_def standing_def standing_of_def)

lemma good_trans:
  assumes "good_effect owner pid a b" "good_effect owner pid b c"
  shows "good_effect owner pid a c"
proof (cases "b = a \<or> c = b")
  case False
  then obtain es r fs r' where e: "effect owner pid es r a b" "effect owner pid fs r' b c" "presence_row_ok r'"
      "follows (standing owner pid a) es (Some (pr_state r, pr_since r))"
      "follows (standing owner pid b) fs (Some (pr_state r', pr_since r'))"
    using assms by (auto simp: good_effect_def)
  then have "follows (standing owner pid a) (es @ fs) (Some (pr_state r', pr_since r'))"
    using follows_trans by (simp add: effect_standing)
  then show ?thesis
    using e effect_trans by (blast intro: good_effectI)
qed (use assms in auto)

lemma effect_presence_ok:
  assumes "presence_ok db" "effect owner pid es r db db'" "presence_row_ok r"
  shows "presence_ok db'"
proof -
  have "presence_row_ok r'" if "find_presence ow p db' = Some r'" for ow p r'
  proof (cases "(ow, p) = (owner, pid)")
    case True
    with assms(2,3) that show ?thesis
      by (simp add: effect_def)
  next
    case False
    with assms(2) that have "find_presence ow p db = Some r'"
      unfolding effect_def by (metis (no_types))
    with assms(1) show ?thesis
      by (rule presence_ok_row)
  qed
  with assms(2) show ?thesis
    by (simp add: presence_ok_find effect_def)
qed

lemma good_presence_ok:
  "presence_ok db \<Longrightarrow> good_effect owner pid db db' \<Longrightarrow> presence_ok db'"
  by (auto simp: good_effect_def intro: effect_presence_ok)

lemma not_inside: "s \<noteq> Inside \<longleftrightarrow> s = Outside"
  by (cases s) auto

lemmas row_defs = presence_row_ok_def enter_row_def leave_row_def new_presence_def

lemma keeps_keyI [intro!]: "(\<And>r. pr_owner (f r) = pr_owner r \<and> pr_placeId (f r) = pr_placeId r) \<Longrightarrow> keeps_key f"
  by (simp add: keeps_key_def)

section \<open>Every change follows the specification\<close>

lemma good_apply_arrived:
  assumes ok: "presence_ok db"
  shows "good_effect owner pid db (apply_arrived owner pid c db)"
proof (cases "find_presence owner pid db")
  case None
  have "good_effect owner pid db
      (publish_own owner pid c Arrived v (upsert_presence owner pid (pc_at c) (enter_row (pc_at c) v) db))" for v
    unfolding publish_own_def using ok None
    by (intro good_effectI [OF effect_upsert_publish])
      (auto simp: presence_ok_def None row_defs standing_def standing_of_def follows_def)
  with None show ?thesis
    by (simp add: apply_arrived_def Let_def)
next
  case (Some r)
  note r = this
  have keys: "keys_ok db" and rok: "presence_row_ok r"
    using ok r presence_ok_row by (auto simp: presence_ok_def)
  show ?thesis
  proof (cases "pr_state r")
    case Outside
    have "good_effect owner pid db
        (publish_own owner pid c Arrived v (upsert_presence owner pid (pc_at c) (enter_row (pc_at c) v) db))"
      if "pr_since r \<le> pc_at c" for v
      unfolding publish_own_def using keys r that
      by (intro good_effectI [OF effect_upsert_publish])
        (auto simp: row_defs standing_def standing_of_def follows_def)
    with r Outside show ?thesis
      by (simp add: apply_arrived_def is_stale_def Let_def)
  next
    case Inside
    then obtain e where e: "pr_lastEnteredAt r = Some e" "pr_since r \<le> e" "\<And>l. pr_leavingAt r = Some l \<Longrightarrow> e \<le> l"
        "pr_approachingAt r = None" "pr_arrivingAt r = None"
      using rok by (auto simp: presence_row_ok_def split: option.splits)
    have stand: "standing owner pid db = Some (Inside, pr_since r)"
      using r Inside by (simp add: standing_def standing_of_def)
    show ?thesis
    proof (cases "not_before (pc_at c) (pr_leavingAt r)")
      case True
      then obtain l where l: "pr_leavingAt r = Some l" "l \<le> pc_at c"
        by (auto simp: not_before_def split: option.splits)
      with e have le: "e \<le> l"
        by blast
      have cancel: "good_effect owner pid db (upsert_presence owner pid (pc_at c)
          (\<lambda>r. r\<lparr>pr_leavingAt := None, pr_leavingConfirmed := False, pr_lastEnteredAt := Some (pc_at c)\<rparr>) db)"
        using keys r Inside e l le stand
        by (intro good_effectI [OF effect_upsert]) (auto simp: row_defs)
      have again: "good_effect owner pid db (publish_own owner pid c Arrived v
          (upsert_presence owner pid (pc_at c) (\<lambda>r. r\<lparr>pr_state := Inside, pr_since := pc_at c, pr_leavingAt := None,
             pr_lastEnteredAt := Some (pc_at c), pr_visitId := v\<rparr>)
             (publish_remembered owner pid c Departed l None db)))" for v
        unfolding publish_own_def publish_remembered_def using keys r Inside e l le stand
        by (intro good_effectI [OF effect_publish_upsert_publish]) (auto simp: row_defs follows_def)
      from cancel again r Inside True l show ?thesis
        by (simp add: apply_arrived_def Let_def)
    next
      case False
      then have l: "pc_at c < l" if "pr_leavingAt r = Some l" for l
        using that by (simp add: not_before_def)
      have stay: "good_effect owner pid db (publish_own owner pid c Arrived v (upsert_presence owner pid (pc_at c)
          (\<lambda>r. r\<lparr>pr_since := pc_at c, pr_leavingAt := None, pr_lastEnteredAt := Some (if pc_at c > e then pc_at c else e),
             pr_visitId := v\<rparr>) db))" if "pr_since r < pc_at c" for v
        unfolding publish_own_def using keys r Inside e that stand
        by (intro good_effectI [OF effect_upsert_publish]) (auto simp: row_defs follows_def)
      have link: "good_effect owner pid db (upsert_presence owner pid (pc_at c)
          (\<lambda>r'. if b then r'\<lparr>pr_lastEnteredAt := Some (if pc_at c > e then pc_at c else e), pr_visitId := v\<rparr>
                else r'\<lparr>pr_lastEnteredAt := Some (if pc_at c > e then pc_at c else e)\<rparr>) db)" for b v
        using keys r Inside e l stand
        by (intro good_effectI [OF effect_upsert]) (auto simp: row_defs intro: order.trans split: option.split)
      from stay link r Inside False e(1) show ?thesis
        by (simp add: apply_arrived_def Let_def)
    qed
  qed
qed

text \<open>A row inside, with what the invariant says of it.\<close>

lemma presence_row_ok_inside:
  assumes "presence_row_ok r" "pr_state r = Inside"
  obtains e where "pr_lastEnteredAt r = Some e" "pr_since r \<le> e" "\<And>l. pr_leavingAt r = Some l \<Longrightarrow> e \<le> l"
    "pr_approachingAt r = None" "pr_arrivingAt r = None"
  using assms by (auto simp: presence_row_ok_def split: option.splits)

lemma good_depart_now:
  assumes ok: "presence_ok db" and r: "find_presence owner pid db = Some r" "pr_state r = Inside" "pr_since r \<le> pc_at c"
  shows "good_effect owner pid db (depart_now owner pid c r db)"
proof -
  have keys: "keys_ok db" and rok: "presence_row_ok r"
    using ok r presence_ok_row by (auto simp: presence_ok_def)
  obtain e where e: "pr_lastEnteredAt r = Some e" "pr_since r \<le> e" "\<And>l. pr_leavingAt r = Some l \<Longrightarrow> e \<le> l"
      "pr_approachingAt r = None" "pr_arrivingAt r = None"
    using presence_row_ok_inside [OF rok r(2)] by blast
  have leave: "good_effect owner pid db (publishPresence owner pid c' v (upsert_presence owner pid t (leave_row (pc_at c')) db))"
    if "pc_transition c' = Departed" "pr_since r \<le> pc_at c'" for c' v t
    using keys r e that
    by (intro good_effectI [OF effect_upsert_publish]) (auto simp: row_defs follows_def standing_def standing_of_def)
  have now: "good_effect owner pid db
      (publish_own owner pid c Departed v (upsert_presence owner pid (pc_at c) (leave_row (pc_at c)) db))" for v
    unfolding publish_own_def using leave [of "c\<lparr>pc_transition := Departed\<rparr>"] r(3) by simp
  have waiting: "good_effect owner pid db (publishPresence owner pid
      (c\<lparr>pc_transition := Departed, pc_at := l, pc_source := src, pc_rawEventId := raw\<rparr>) v
      (upsert_presence owner pid (pc_at c) (leave_row l) db))" if "pr_leavingAt r = Some l" for l src raw v
    using leave [of "c\<lparr>pc_transition := Departed, pc_at := l, pc_source := src, pc_rawEventId := raw\<rparr>"] e that by fastforce
  from now waiting show ?thesis
    by (simp add: depart_now_def Let_def split: option.split)
qed

lemma good_depart_later:
  assumes ok: "presence_ok db" and r: "find_presence owner pid db = Some r" "pr_state r = Inside" "pr_since r \<le> pc_at c"
    and newer: "\<And>e. pr_lastEnteredAt r = Some e \<Longrightarrow> e \<le> pc_at c"
  shows "good_effect owner pid db (depart_later owner pid c r db)"
proof -
  have keys: "keys_ok db" and rok: "presence_row_ok r"
    using ok r presence_ok_row by (auto simp: presence_ok_def)
  obtain e where e: "pr_lastEnteredAt r = Some e" "pr_since r \<le> e" "\<And>l. pr_leavingAt r = Some l \<Longrightarrow> e \<le> l"
      "pr_approachingAt r = None" "pr_arrivingAt r = None"
    using presence_row_ok_inside [OF rok r(2)] by blast
  have wait: "good_effect owner pid db (upsert_presence owner pid (pc_at c)
      (\<lambda>r. r\<lparr>pr_leavingAt := Some (pc_at c), pr_leavingEventId := raw, pr_leavingConfirmed := b\<rparr>) db)" for raw b
    using keys r e newer
    by (intro good_effectI [OF effect_upsert]) (auto simp: row_defs standing_def standing_of_def)
  have confirm: "good_effect owner pid db (upsert_presence owner pid (pc_at c) (\<lambda>r. r\<lparr>pr_leavingConfirmed := True\<rparr>) db)"
    using keys r e
    by (intro good_effectI [OF effect_upsert]) (auto simp: row_defs standing_def standing_of_def split: option.split)
  from wait confirm good_depart_now [OF ok r] show ?thesis
    by (simp add: depart_later_def Let_def split: option.split)
qed

lemma good_apply_departed:
  assumes ok: "presence_ok db"
  shows "good_effect owner pid db (apply_departed owner pid c db)"
proof (cases "\<exists>r. find_presence owner pid db = Some r \<and> pr_state r = Inside")
  case False
  then show ?thesis
    by (auto simp: apply_departed_def Let_def not_inside split: option.split)
next
  case True
  then obtain r where r: "find_presence owner pid db = Some r" "pr_state r = Inside"
    by blast
  have keys: "keys_ok db" and rok: "presence_row_ok r"
    using ok r presence_ok_row by (auto simp: presence_ok_def)
  obtain e where e: "pr_lastEnteredAt r = Some e" "pr_since r \<le> e" "\<And>l. pr_leavingAt r = Some l \<Longrightarrow> e \<le> l"
      "pr_approachingAt r = None" "pr_arrivingAt r = None"
    using presence_row_ok_inside [OF rok r(2)] by blast
  have unlink: "good_effect owner pid db (upsert_presence owner pid (pc_at c) (\<lambda>r. r\<lparr>pr_visitId := None\<rparr>) db)"
    using keys r e
    by (intro good_effectI [OF effect_upsert]) (auto simp: row_defs standing_def standing_of_def split: option.split)
  have late: "good_effect owner pid db (publish_remembered owner pid c Arrived e None
      (upsert_presence owner pid (pc_at c) (\<lambda>r. r\<lparr>pr_since := e, pr_leavingAt := None, pr_visitId := None\<rparr>)
         (publish_own owner pid c Departed None db)))" if "pr_since r \<le> pc_at c" "pc_at c < e"
    unfolding publish_own_def publish_remembered_def using keys r e that
    by (intro good_effectI [OF effect_publish_upsert_publish]) (auto simp: row_defs follows_def standing_def standing_of_def)
  show ?thesis
  proof (cases "pc_at c < pr_since r")
    case True
    with unlink r show ?thesis
      by (simp add: apply_departed_def Let_def is_stale_def)
  next
    case False
    with r e good_depart_later [OF ok r, of c] good_depart_now [OF ok r, of c] late show ?thesis
      by (simp add: apply_departed_def Let_def is_stale_def)
  qed
qed

lemma good_applyPresence:
  assumes "presence_ok db" "\<not> pc_initial c"
  shows "good_effect owner pid db (applyPresence env owner pid c db)"
  using assms
proof (induction env owner pid c db rule: applyPresence.induct)
  case (1 env owner pid c db)
  show ?case
  proof (cases "find_presence owner pid db")
    case None
    with "1.prems" good_apply_arrived good_apply_departed show ?thesis
      by (subst applyPresence.simps) (auto simp: is_inside_def Let_def)
  next
    case (Some r)
    note r = this
    have keys: "keys_ok db" and rok: "presence_row_ok r"
      using "1.prems" r presence_ok_row by (auto simp: presence_ok_def)
    show ?thesis
    proof (cases "pr_state r = Outside \<and> pc_transition c = Departed")
      case False
      then have "is_inside (Some r) \<or> pc_transition c = Arrived"
        by (cases "pr_state r"; cases "pc_transition c") (auto simp: is_inside_def)
      with r "1.prems" good_apply_arrived good_apply_departed show ?thesis
        by (subst applyPresence.simps) (auto simp: Let_def)
    next
      case True
      have "good_effect owner pid db (upsert_presence owner pid t (\<lambda>r. r\<lparr>
          pr_approachingAt := (if b then None else pr_approachingAt r), pr_arrivingAt := (if b' then None else pr_arrivingAt r),
          pr_arrivingEventId := (if b' then None else pr_arrivingEventId r)\<rparr>) db)" for b b' t
        using keys r rok True
        by (intro good_effectI [OF effect_upsert]) (auto simp: row_defs standing_def standing_of_def split: option.splits)
      moreover have enter: "good_effect owner pid db (publishPresence owner pid
          \<lparr>pc_transition = Arrived, pc_at = a, pc_source = src, pc_visitId = None, pc_rawEventId = raw,
           pc_visitDepartureAt = None, pc_initial = False, pc_confirmed = False\<rparr> None
          (upsert_presence owner pid t (enter_row a None) db))" if "pr_arrivingAt r = Some a" for a src raw t
        using keys r rok True that
        by (intro good_effectI [OF effect_upsert_publish]) (auto simp: row_defs standing_def standing_of_def follows_def)
      moreover note good_apply_departed [OF "1.prems"(1), of owner pid c] "1.prems" r True
      moreover have "good_effect owner pid db (applyPresence env owner pid c (publishPresence owner pid
          \<lparr>pc_transition = Arrived, pc_at = the (pr_arrivingAt r),
           pc_source = arrivalSource env owner (pr_arrivingEventId r) pid db, pc_visitId = None,
           pc_rawEventId = pr_arrivingEventId r, pc_visitDepartureAt = None, pc_initial = False, pc_confirmed = False\<rparr> None
          (upsert_presence owner pid (pc_at c) (enter_row (the (pr_arrivingAt r)) None) db)))"
        if wait: "not_before (pc_at c) (pr_arrivingAt r)" "pc_source c = Region" "pc_at c - the (pr_arrivingAt r) \<ge> ARRIVAL_STAY_MS"
      proof -
        from wait(1) have a: "pr_arrivingAt r = Some (the (pr_arrivingAt r))"
          by (auto simp: not_before_def split: option.splits)
        let ?db1 = "publishPresence owner pid
          \<lparr>pc_transition = Arrived, pc_at = the (pr_arrivingAt r),
           pc_source = arrivalSource env owner (pr_arrivingEventId r) pid db, pc_visitId = None,
           pc_rawEventId = pr_arrivingEventId r, pc_visitDepartureAt = None, pc_initial = False, pc_confirmed = False\<rparr> None
          (upsert_presence owner pid (pc_at c) (enter_row (the (pr_arrivingAt r)) None) db)"
        have first: "good_effect owner pid db ?db1"
          by (rule enter [OF a])
        moreover have "good_effect owner pid ?db1 (applyPresence env owner pid c ?db1)"
          using True wait r "1.prems" good_presence_ok [OF "1.prems"(1) first]
          by - (rule "1.IH" [OF refl refl _ _ r refl refl _ refl], auto simp: is_inside_def)
        ultimately show ?thesis
          by (rule good_trans)
      qed
      ultimately show ?thesis
        by (subst applyPresence.simps) (simp add: is_inside_def Let_def)
    qed
  qed
qed

lemma update_unknown: "find_presence owner pid db = None \<Longrightarrow> update_presence owner pid f db = db"
  by (cases db) (auto simp: update_presence_def find_presence_def find_None_iff intro!: map_idI)

lemma update_same:
  assumes "keys_ok db" "find_presence owner pid db = Some r" "f r = r"
  shows "update_presence owner pid f db = db"
proof -
  have "(if pr_owner x = owner \<and> pr_placeId x = pid then f x else x) = x" if "x \<in> set (db_presence db)" for x
  proof (cases "pr_owner x = owner \<and> pr_placeId x = pid")
    case True
    with that assms(1,2) have "x = r"
      using find_mem [of db owner pid x] by (auto simp: row_key_def)
    with assms(3) show ?thesis
      by simp
  qed auto
  then show ?thesis
    by (cases db) (auto simp: update_presence_def intro!: map_idI)
qed

lemma good_noteInside:
  assumes ok: "presence_ok db"
    and before: "\<And>r l. find_presence owner pid db = Some r \<Longrightarrow> pr_state r = Inside \<Longrightarrow> pr_leavingAt r = Some l \<Longrightarrow> t \<le> l"
  shows "good_effect owner pid db (noteInside owner pid t db)"
proof (cases "find_presence owner pid db")
  case None
  then show ?thesis
    by (simp add: noteInside_def update_unknown)
next
  case (Some r)
  note r = this
  have keys: "keys_ok db" and rok: "presence_row_ok r"
    using ok r presence_ok_row by (auto simp: presence_ok_def)
  show ?thesis
  proof (cases "pr_state r")
    case Outside
    then show ?thesis
      unfolding noteInside_def using keys r by (simp add: update_same)
  next
    case Inside
    then obtain e where e: "pr_lastEnteredAt r = Some e" "pr_since r \<le> e" "\<And>l. pr_leavingAt r = Some l \<Longrightarrow> e \<le> l"
        "pr_approachingAt r = None" "pr_arrivingAt r = None"
      using presence_row_ok_inside [OF rok] by blast
    show ?thesis
      unfolding noteInside_def
    proof (rule good_effectI [OF effect_update [OF keys _ r]])
      show "presence_row_ok (if pr_state r = Inside
          then r\<lparr>pr_lastEnteredAt := Some (case pr_lastEnteredAt r of None \<Rightarrow> t | Some e \<Rightarrow> max e t)\<rparr> else r)"
        using e Inside before [OF r Inside] by (auto simp: presence_row_ok_def split: option.split)
    qed (use r Inside in \<open>auto simp: standing_def standing_of_def\<close>)
  qed
qed

lemma good_insideEvidence:
  assumes ok: "presence_ok db" and known: "\<And>r. known = Some r \<Longrightarrow> find_presence owner pid db = Some r"
  shows "good_effect owner pid db (insideEvidence env owner pid t raw known db)"
proof -
  have "(case known of None \<Rightarrow> find_presence owner pid db | Some r \<Rightarrow> Some r) = find_presence owner pid db"
    using known by (cases known) auto
  moreover have "good_effect owner pid db (noteInside owner pid t db)"
    if "find_presence owner pid db = Some r" "\<not> not_before t (pr_leavingAt r)" for r
    using that by (intro good_noteInside [OF ok]) (auto simp: not_before_def split: option.splits)
  ultimately show ?thesis
    using good_applyPresence [OF ok]
    by (auto simp: insideEvidence_def Let_def plain_change_def split: option.split)
qed

lemma good_clearArrival: "presence_ok db \<Longrightarrow> good_effect owner pid db (clearArrival owner pid db)"
proof (cases "find_presence owner pid db")
  case (Some r)
  assume ok: "presence_ok db"
  with Some have "presence_row_ok r" "keys_ok db"
    by (auto simp: presence_ok_def intro: presence_ok_row [OF ok])
  with Some show ?thesis
    unfolding clearArrival_def
    by (intro good_effectI [OF effect_update]) (auto simp: presence_row_ok_def standing_def standing_of_def split: presence_state.splits option.splits)
qed (simp add: clearArrival_def update_unknown)

lemma good_markApproaching:
  assumes ok: "presence_ok db" and t: "pl_geometryChangedAt p \<le> t"
  shows "good_effect owner (pl_id p) db (markApproaching owner p t db)"
proof -
  have keys: "keys_ok db"
    using ok by (simp add: presence_ok_def)
  have "good_effect owner (pl_id p) db
      (upsert_presence owner (pl_id p) (pl_geometryChangedAt p) (\<lambda>r. r\<lparr>pr_approachingAt := Some t\<rparr>) db)"
    if "\<And>r. find_presence owner (pl_id p) db = Some r \<Longrightarrow> pr_state r = Outside \<and> pr_since r \<le> t"
  proof (cases "find_presence owner (pl_id p) db")
    case None
    with keys t show ?thesis
      by (intro good_effectI [OF effect_upsert]) (auto simp: row_defs standing_def standing_of_def follows_def)
  next
    case (Some r)
    with that presence_ok_row [OF ok Some] keys show ?thesis
      by (intro good_effectI [OF effect_upsert]) (auto simp: row_defs standing_def standing_of_def split: option.splits)
  qed
  then show ?thesis
    by (auto simp: markApproaching_def Let_def not_less not_inside split: option.split)
qed

lemma arrive_outside:
  assumes "find_presence owner pid db = Some r" "pr_state r = Outside" "pr_since r \<le> t"
  shows "find_presence owner pid (applyPresence env owner pid (plain_change Arrived t src raw) db) = Some (enter_row t None r)"
  using assms by (subst applyPresence.simps)
    (auto simp: plain_change_def is_inside_def Let_def apply_arrived_def is_stale_def publish_own_def find_upsert change_visit_def)

lemma good_arriveOnReading:
  assumes ok: "presence_ok db" and t: "pl_geometryChangedAt p \<le> t"
  shows "good_effect owner (pl_id p) db (arriveOnReading env owner p t src raw fx db)"
proof (cases "is_inside (find_presence owner (pl_id p) db)")
  case True
  then show ?thesis
    using good_applyPresence [OF ok] by (simp add: arriveOnReading_def Let_def plain_change_def)
next
  case False
  have keys: "keys_ok db"
    using ok by (simp add: presence_ok_def)
  have wait: "good_effect owner (pl_id p) db (upsert_presence owner (pl_id p) (pl_geometryChangedAt p)
      (\<lambda>r. r\<lparr>pr_arrivingAt := Some t, pr_arrivingEventId := Some raw\<rparr>) db)"
    if "\<And>r. find_presence owner (pl_id p) db = Some r \<Longrightarrow> pr_since r \<le> t"
  proof (cases "find_presence owner (pl_id p) db")
    case None
    with keys t show ?thesis
      by (intro good_effectI [OF effect_upsert]) (auto simp: row_defs standing_def standing_of_def follows_def)
  next
    case (Some r)
    with that presence_ok_row [OF ok Some] False keys show ?thesis
      by (intro good_effectI [OF effect_upsert])
        (auto simp: row_defs standing_def standing_of_def is_inside_def not_inside split: option.splits)
  qed
  have confirm: "good_effect owner (pl_id p) db (noteInside owner (pl_id p) u
      (applyPresence env owner (pl_id p) (plain_change Arrived v src' raw') db))"
    if "find_presence owner (pl_id p) db = Some r" "pr_since r \<le> v" for u v src' raw' r
  proof -
    let ?db1 = "applyPresence env owner (pl_id p) (plain_change Arrived v src' raw') db"
    have one: "good_effect owner (pl_id p) db ?db1"
      using good_applyPresence [OF ok] by (simp add: plain_change_def)
    have row: "find_presence owner (pl_id p) ?db1 = Some (enter_row v None r)"
      using that False by (intro arrive_outside) (auto simp: is_inside_def not_inside)
    have "good_effect owner (pl_id p) ?db1 (noteInside owner (pl_id p) u ?db1)"
      by (rule good_noteInside [OF good_presence_ok [OF ok one]]) (auto simp: row enter_row_def)
    with one show ?thesis
      by (rule good_trans)
  qed
  have since: "pr_since r \<le> a" if "find_presence owner (pl_id p) db = Some r" "pr_arrivingAt r = Some a" for r a
    using presence_ok_row [OF ok that(1)] that False by (auto simp: presence_row_ok_def is_inside_def split: presence_state.splits)
  show ?thesis
  proof (cases "find_presence owner (pl_id p) db")
    case None
    with wait show ?thesis
      by (simp add: arriveOnReading_def Let_def is_inside_def)
  next
    case (Some r)
    have "good_effect owner (pl_id p) db (upsert_presence owner (pl_id p) (pl_geometryChangedAt p)
        (\<lambda>r. r\<lparr>pr_arrivingAt := Some t, pr_arrivingEventId := Some raw\<rparr>) db)" if "\<not> t < pr_since r"
      using wait that Some by simp
    with False confirm [OF Some] since [OF Some] Some show ?thesis
      by (simp add: arriveOnReading_def Let_def split: option.split)
  qed
qed

section \<open>Readings, reports and visits\<close>

text \<open>What a whole operation guarantees for every place: the journal grows along the specification.\<close>

definition lawful_for :: "string \<Rightarrow> string \<Rightarrow> place_db \<Rightarrow> place_db \<Rightarrow> bool" where
  "lawful_for owner pid db db' \<longleftrightarrow>
     (\<exists>es. place_journal owner pid db' = place_journal owner pid db @ es \<and>
           follows (standing owner pid db) es (standing owner pid db'))"

definition lawful :: "place_db \<Rightarrow> place_db \<Rightarrow> bool" where
  "lawful db db' \<longleftrightarrow> presence_ok db' \<and> frame_ok db db' \<and> (\<forall>owner pid. lawful_for owner pid db db')"

lemma lawful_for_refl: "lawful_for owner pid db db"
  by (auto simp: lawful_for_def)

lemma lawful_for_trans: "lawful_for owner pid a b \<Longrightarrow> lawful_for owner pid b c \<Longrightarrow> lawful_for owner pid a c"
  by (auto simp: lawful_for_def intro: follows_trans)

lemma lawful_refl: "presence_ok db \<Longrightarrow> lawful db db"
  by (simp add: lawful_def lawful_for_refl)

lemma lawful_trans: "lawful a b \<Longrightarrow> lawful b c \<Longrightarrow> lawful a c"
  unfolding lawful_def using frame_trans lawful_for_trans by blast

lemma good_elsewhere:
  "good_effect owner pid db db' \<Longrightarrow> (ow, p) \<noteq> (owner, pid) \<Longrightarrow>
     find_presence ow p db' = find_presence ow p db \<and> place_journal ow p db' = place_journal ow p db"
  unfolding good_effect_def effect_def by blast

lemma good_lawful:
  assumes "presence_ok db" "good_effect owner pid db db'"
  shows "lawful db db'"
proof (cases "db' = db")
  case False
  then obtain es r where e: "effect owner pid es r db db'" "follows (standing owner pid db) es (Some (pr_state r, pr_since r))"
    using assms(2) by (auto simp: good_effect_def)
  have "lawful_for ow p db db'" for ow p
  proof (cases "(ow, p) = (owner, pid)")
    case True
    with e show ?thesis
      using effect_standing [OF e(1)] by (auto simp: lawful_for_def effect_def)
  next
    case False
    with good_elsewhere [OF assms(2) False] show ?thesis
      by (auto simp: lawful_for_def standing_def)
  qed
  with e good_presence_ok [OF assms] show ?thesis
    by (simp add: lawful_def effect_def)
qed (use assms lawful_refl in simp)

lemma find_row_snapshot:
  assumes "keys_ok db" and "find_row pid (sc_rows (scan_reading owner fx ps db)) = Some r"
  shows "find_presence owner pid db = Some r"
proof -
  from assms(2) have "r \<in> set (sc_rows (scan_reading owner fx ps db))" "pr_placeId r = pid"
    by (auto simp: find_row_def find_Some_iff)
  then show ?thesis
    using assms(1) by (auto simp: find_mem row_key_def scan_reading_def Let_def)
qed

lemma good_read_place:
  assumes ok: "presence_ok db"
    and snap: "\<And>r. find_row pid (sc_rows sc) = Some r \<Longrightarrow> find_presence owner pid db = Some r"
  shows "good_effect owner pid db (read_place env owner fx raw exc sc pid db)"
proof (cases "find_place pid (sc_places sc)")
  case (Some p)
  then have "pl_id p = pid"
    by (auto simp: find_place_def find_Some_iff)
  then have "good_effect owner pid db (arriveOnReading env owner p (fx_at fx) Reading raw fx db)"
    if "\<not> fx_at fx < pl_geometryChangedAt p"
    using good_arriveOnReading [OF ok, of p "fx_at fx"] that by auto
  with Some good_clearArrival [OF ok] good_insideEvidence [OF ok snap] good_applyPresence [OF ok] show ?thesis
    by (simp add: read_place_def Let_def plain_change_def)
qed (simp add: read_place_def)

lemma lawful_read_places:
  assumes "presence_ok db" "distinct pids"
    and "\<And>pid r. pid \<in> set pids \<Longrightarrow> find_row pid (sc_rows sc) = Some r \<Longrightarrow> find_presence owner pid db = Some r"
  shows "lawful db (fold (read_place env owner fx raw exc sc) pids db)"
  using assms
proof (induction pids arbitrary: db)
  case Nil
  then show ?case
    by (simp add: lawful_refl)
next
  case (Cons pid pids)
  let ?db1 = "read_place env owner fx raw exc sc pid db"
  have good: "good_effect owner pid db ?db1"
    using Cons.prems by (intro good_read_place) auto
  have "lawful ?db1 (fold (read_place env owner fx raw exc sc) pids ?db1)"
  proof (rule Cons.IH)
    show "presence_ok ?db1"
      using Cons.prems(1) good by (rule good_presence_ok)
    show "find_presence owner p ?db1 = Some r" if "p \<in> set pids" "find_row p (sc_rows sc) = Some r" for p r
      using that Cons.prems(2,3) good_elsewhere [OF good, of owner p] by auto
  qed (use Cons.prems in simp)
  with good_lawful [OF Cons.prems(1) good] show ?case
    by (auto intro: lawful_trans)
qed

lemma lawful_applyReading:
  assumes "presence_ok db"
  shows "lawful db (applyReading env owner fx raw owned exc db)"
proof -
  have keys: "keys_ok db"
    using assms by (simp add: presence_ok_def)
  have "distinct (sc_ordered (scan_reading owner fx ps db))" for ps
    by (auto simp: scan_reading_def Let_def set_order_def)
  then have "lawful db (fold (read_place env owner fx raw exc (scan_reading owner fx ps db))
      (sc_ordered (scan_reading owner fx ps db)) db)" for ps
    using assms find_row_snapshot [OF keys] by (intro lawful_read_places) auto
  then show ?thesis
    using assms by (simp add: applyReading_def Let_def lawful_refl)
qed

lemma good_region_decides:
  assumes "presence_ok db" "pl_geometryChangedAt p \<le> rg_at parsed"
  shows "good_effect owner (pl_id p) db (region_decides env owner raw parsed p False state db)"
  using assms good_applyPresence [OF assms(1)] good_arriveOnReading [OF assms] good_markApproaching [OF assms]
    good_insideEvidence [OF assms(1), of None]
  by (simp add: region_decides_def Let_def plain_change_def split: option.split)

text \<open>An initial report sets a baseline: a good row, no event, no other place.\<close>

lemma apply_initial_baseline:
  assumes ok: "presence_ok db"
  shows "apply_initial owner pid c db = db \<or> (\<exists>r. effect owner pid [] r db (apply_initial owner pid c db) \<and> presence_row_ok r)"
proof -
  have put: "\<exists>r. effect owner pid [] r db (upsert_presence owner pid t f db) \<and> presence_row_ok r"
    if "keeps_key f" "\<And>r. presence_row_ok (f r)" for t f
    using effect_upsert [OF _ that(1), of db owner pid t] ok that(2) by (auto simp: presence_ok_def)
  have "\<exists>r. effect owner pid [] r db (upsert_presence owner pid t (\<lambda>r. r\<lparr>pr_state := (if b then Inside else Outside),
      pr_since := t, pr_leavingAt := None, pr_lastEnteredAt := (if b then Some t else None), pr_visitId := None,
      pr_approachingAt := None, pr_arrivingAt := None, pr_arrivingEventId := None\<rparr>) db) \<and> presence_row_ok r" for b t
    by (rule put) (auto simp: presence_row_ok_def)
  then show ?thesis
    by (simp add: apply_initial_def Let_def)
qed

text \<open>Whether a payload is an initial report about a place (or one from before its geometry).\<close>

definition baseline_report :: "place_env \<Rightarrow> string \<Rightarrow> json \<Rightarrow> place_db \<Rightarrow> string \<Rightarrow> bool" where
  "baseline_report env owner payload db pid =
     (case parseRegionTransition env payload of None \<Rightarrow> False
      | Some parsed \<Rightarrow> rg_placeId parsed = pid \<and>
          (case live_place owner pid db of None \<Rightarrow> False
           | Some p \<Rightarrow> rg_initial parsed \<or> rg_at parsed < pl_geometryChangedAt p))"

lemma live_place_id: "live_place owner pid db = Some p \<Longrightarrow> pl_id p = pid"
  by (auto simp: live_place_def find_Some_iff)

lemma region_initial:
  assumes "presence_ok db"
  shows "region_decides env owner raw parsed p True state db = db \<or>
    (\<exists>r. effect owner (pl_id p) [] r db (region_decides env owner raw parsed p True state db) \<and> presence_row_ok r)"
proof -
  have "applyPresence env owner (pl_id p) ((plain_change tr t Region raw')\<lparr>pc_initial := True\<rparr>) db =
      apply_initial owner (pl_id p) ((plain_change tr t Region raw')\<lparr>pc_initial := True\<rparr>) db" for tr t raw'
    by (subst applyPresence.simps) (simp add: plain_change_def)
  then show ?thesis
    using apply_initial_baseline [OF assms] by (simp add: region_decides_def Let_def)
qed

lemma region_lawful:
  assumes ok: "presence_ok db" and db': "db' = snd (processRegionTransition env owner raw payload db)"
  shows "presence_ok db' \<and> frame_ok db db' \<and>
    (\<forall>ow p. ow = owner \<and> baseline_report env owner payload db p \<or> lawful_for ow p db db')"
proof (cases "db' = db")
  case True
  then show ?thesis
    using ok by (simp add: lawful_for_refl)
next
  case False
  then obtain parsed p where parsed: "parseRegionTransition env payload = Some parsed"
      "live_place owner (rg_placeId parsed) db = Some p"
    using db' by (auto simp: processRegionTransition_def split: option.splits)
  let ?initial = "rg_initial parsed \<or> rg_at parsed < pl_geometryChangedAt p"
  show ?thesis
  proof (cases ?initial)
    case True
    then obtain state where "db' = region_decides env owner raw parsed p True state db"
      using db' parsed False by (auto simp: processRegionTransition_def Let_def split: option.splits if_splits)
    with region_initial [OF ok, of env owner raw parsed p state] False
    obtain r where r: "effect owner (pl_id p) [] r db db'" "presence_row_ok r"
      by auto
    have base: "baseline_report env owner payload db (pl_id p)"
      using True parsed live_place_id [OF parsed(2)] by (simp add: baseline_report_def)
    have "lawful_for ow q db db'" if "(ow, q) \<noteq> (owner, pl_id p)" for ow q
      using r(1) that by (auto simp: effect_def lawful_for_def standing_def)
    then have "ow = owner \<and> baseline_report env owner payload db q \<or> lawful_for ow q db db'" for ow q
      using base by (cases "(ow, q) = (owner, pl_id p)") auto
    with effect_presence_ok [OF ok r] r(1) show ?thesis
      by (auto simp: effect_def)
  next
    case initial: False
    have decide: "lawful d (region_decides env owner raw parsed p False state d)" if "presence_ok d" for d state
      using good_lawful [OF that good_region_decides [OF that]] initial by simp
    have read: "lawful d (case rg_fix parsed of None \<Rightarrow> d
        | Some f \<Rightarrow> if b then applyReading env owner f raw owned exc d else d)" if "presence_ok d" for d b owned exc
      using that by (auto simp: lawful_refl lawful_applyReading split: option.split)
    have ok': "presence_ok d'" if "lawful d d'" for d d'
      using that by (simp add: lawful_def)
    have "lawful db (region_decides env owner raw parsed p False state (case rg_fix parsed of None \<Rightarrow> db
        | Some f \<Rightarrow> if b then applyReading env owner f raw owned exc db else db))" for state b owned exc
      using lawful_trans [OF read [OF ok] decide [OF ok' [OF read [OF ok]]]] by blast
    moreover have "lawful db (case rg_fix parsed of None \<Rightarrow> region_decides env owner raw parsed p False state db
        | Some f \<Rightarrow> if b then applyReading env owner f raw owned exc (region_decides env owner raw parsed p False state db)
                     else region_decides env owner raw parsed p False state db)" for state b owned exc
      using lawful_trans [OF decide [OF ok] read [OF ok' [OF decide [OF ok]]]] by blast
    ultimately have "lawful db db'"
      using db' parsed False initial ok
      by (cases "rg_transition parsed") (simp_all add: processRegionTransition_def Let_def split: if_splits)
    then show ?thesis
      by (simp add: lawful_def)
  qed
qed

lemma good_settle_row:
  assumes ok: "presence_ok db" and r: "find_presence (pr_owner r) (pr_placeId r) db = Some r" "pr_state r = Inside"
      "settle_due now r"
  shows "good_effect (pr_owner r) (pr_placeId r) db (settle_row r db)"
proof -
  have keys: "keys_ok db" and rok: "presence_row_ok r"
    using ok r presence_ok_row by (auto simp: presence_ok_def)
  obtain l where l: "pr_leavingAt r = Some l"
    using r(3) by (auto simp: settle_due_def split: option.splits)
  obtain e where e: "pr_lastEnteredAt r = Some e" "pr_since r \<le> e" "\<And>l. pr_leavingAt r = Some l \<Longrightarrow> e \<le> l"
      "pr_approachingAt r = None" "pr_arrivingAt r = None"
    using presence_row_ok_inside [OF rok r(2)] by blast
  have up: "effect (pr_owner r) (pr_placeId r) [] (leave_row l r) db
      (update_presence (pr_owner r) (pr_placeId r) (leave_row l) db)"
    using keys r(1) by (intro effect_update) auto
  have "effect (pr_owner r) (pr_placeId r) [(Departed, l)] (leave_row l r) db (settle_row r db)"
    using effect_trans [OF up effect_publish [where c = "plain_change Departed l
        (exitSource (pr_owner r) (pr_leavingEventId r) db) (pr_leavingEventId r)" and v = None]] effect_keys [OF up] l
    by (simp add: settle_row_def Let_def plain_change_def)
  then show ?thesis
    using e e(3) [OF l] r l by (intro good_effectI) (auto simp: row_defs standing_def standing_of_def follows_def)
qed

lemma lawful_settle_rows:
  assumes "presence_ok db" "distinct (map row_key rows)"
    and "\<And>r. r \<in> set rows \<Longrightarrow> find_presence (pr_owner r) (pr_placeId r) db = Some r \<and> pr_state r = Inside \<and> settle_due now r"
  shows "lawful db (fold settle_row rows db)"
  using assms
proof (induction rows arbitrary: db)
  case Nil
  then show ?case
    by (simp add: lawful_refl)
next
  case (Cons r rows)
  have good: "good_effect (pr_owner r) (pr_placeId r) db (settle_row r db)"
    using Cons.prems by (intro good_settle_row) auto
  have "lawful (settle_row r db) (fold settle_row rows (settle_row r db))"
  proof (rule Cons.IH)
    show "presence_ok (settle_row r db)"
      using Cons.prems(1) good by (rule good_presence_ok)
    show "find_presence (pr_owner x) (pr_placeId x) (settle_row r db) = Some x \<and> pr_state x = Inside \<and> settle_due now x"
      if "x \<in> set rows" for x
    proof -
      have "(pr_owner x, pr_placeId x) \<noteq> (pr_owner r, pr_placeId r)"
        using Cons.prems(2) that by (auto simp: row_key_def image_iff)
      then show ?thesis
        using good_elsewhere [OF good] Cons.prems(3) that by simp
    qed
  qed (use Cons.prems in simp)
  with good_lawful [OF Cons.prems(1) good] show ?case
    by (auto intro: lawful_trans)
qed

lemma lawful_settleDepartures:
  assumes ok: "presence_ok db"
  shows "lawful db (snd (settleDepartures now now' locked db))"
proof -
  let ?rows = "\<lambda>owner. filter (\<lambda>r. pr_owner r = owner \<and> pr_state r = Inside \<and> settle_due now' r) (db_presence db)"
  have keys: "keys_ok db"
    using ok by (simp add: presence_ok_def)
  have "lawful db (fold settle_row (?rows owner) db)" for owner
    using ok find_mem [OF keys] keys
    by (intro lawful_settle_rows) (auto simp: row_key_def keys_ok_def distinct_map_filter)
  then show ?thesis
    using ok by (simp add: settleDepartures_def Let_def lawful_refl split: list.split)
qed

lemma lawful_visit_places:
  assumes "presence_ok db" "\<not> pc_initial c"
  shows "lawful db (fold (\<lambda>p. applyPresence env owner (pl_id p) c) ps db)"
  using assms(1)
proof (induction ps arbitrary: db)
  case (Cons p ps)
  have step: "lawful db (applyPresence env owner (pl_id p) c db)"
    by (rule good_lawful [OF Cons.prems good_applyPresence [OF Cons.prems assms(2)]])
  then have "presence_ok (applyPresence env owner (pl_id p) c db)"
    by (simp add: lawful_def)
  from lawful_trans [OF step Cons.IH [OF this]] show ?case
    by simp
qed (simp add: lawful_refl)

lemma same_presence_lawful:
  assumes "presence_ok db" "db_presence db' = db_presence db" "db_presenceEvents db' = db_presenceEvents db"
  shows "presence_ok db' \<and> lawful_for owner pid db db'"
proof -
  have "find_presence ow p db' = find_presence ow p db" "place_journal ow p db' = place_journal ow p db" for ow p
    using assms by (simp_all add: find_presence_def place_journal_def)
  with assms show ?thesis
    by (auto simp: presence_ok_def keys_ok_def lawful_for_def standing_def)
qed

lemma publications_visit_ended:
  assumes "publications_ok db" "publish_visit_ended owner v db = Inr db'"
  shows "publications_ok db'"
proof -
  obtain n where n: "map_of (db_owners db) owner = Some n"
    using assms(2) by (auto simp: publish_visit_ended_def split: option.splits)
  define d where "d = \<lparr>de_id = db_ulid db (db_used db), de_visitId = Some (lv_id v), de_placeId = None,
    de_presenceEventId = None, de_eventType = ''visit.ended'', de_publicationSequence = Suc n, de_owner = owner\<rparr>"
  define ds where "ds = (if list_ex (\<lambda>e. de_visitId e = Some (lv_id v) \<and> de_eventType e = ''visit.ended'') (db_domains db)
    then [] else [d])"
  have db': "db' = db\<lparr>db_owners := AList.update owner (Suc n) (db_owners db), db_domains := db_domains db @ ds,
      db_used := Suc (db_used db)\<rparr>"
    using assms(2) n by (cases db) (auto simp: publish_visit_ended_def Let_def d_def ds_def)
  show ?thesis
  proof (rule publications_grow [OF assms(1), of ds d owner])
    show "set ds \<subseteq> {d}" "length ds \<le> 1"
      by (simp_all add: ds_def)
  qed (simp_all add: d_def db' sequence_of_def n update_conv')
qed

text \<open>The guarantee without the frame, for the operations that change places, visits or raw events.\<close>

definition sound_for :: "string \<Rightarrow> string \<Rightarrow> place_db \<Rightarrow> place_db \<Rightarrow> bool" where
  "sound_for owner pid db db' \<longleftrightarrow>
     presence_ok db' \<and> (publications_ok db \<longrightarrow> publications_ok db') \<and> lawful_for owner pid db db'"

lemma sound_for_trans: "sound_for owner pid a b \<Longrightarrow> sound_for owner pid b c \<Longrightarrow> sound_for owner pid a c"
  by (auto simp: sound_for_def intro: lawful_for_trans)

lemma lawful_sound: "lawful db db' \<Longrightarrow> sound_for owner pid db db'"
  by (simp add: lawful_def sound_for_def frame_ok_def)

lemma sound_visit_ended:
  assumes "presence_ok db" "publish_visit_ended owner v db = Inr db'"
  shows "sound_for ow p db db'"
  using assms publications_visit_ended [OF _ assms(2)] same_presence_lawful [OF assms(1), of db' ow p]
  by (auto simp: sound_for_def publish_visit_ended_def Let_def split: option.splits)

lemma sound_publishVisitEvents:
  assumes ok: "presence_ok db" and run: "publishVisitEvents env owner v arrived completed now db = Inr db'"
  shows "sound_for ow p db db'"
proof -
  have step: "lawful d (fold (\<lambda>p. applyPresence env owner (pl_id p) (visit_change tr t v)) ps d)" if "presence_ok d" for tr t ps d
    using that by (intro lawful_visit_places) (simp_all add: visit_change_def)
  have sound: "sound_for ow p d d" if "presence_ok d" for d
    using that by (simp add: sound_for_def lawful_for_refl)
  show ?thesis
  proof (cases "arrived \<or> completed")
    case False
    with run sound [OF ok] show ?thesis
      by (simp add: publishVisitEvents_def)
  next
    case True
    define owned where "owned = filter (\<lambda>p. pl_owner p = owner \<and> pl_deletedAt p = None) (db_places db)"
    define here where "here = (case placeOfVisit owner owned (span_of v) now db of None \<Rightarrow> []
      | Some p \<Rightarrow> if pl_geometryChangedAt p \<le> lv_startedAt v then [p] else [])"
    define db1 where "db1 = (if arrived then fold (\<lambda>p. applyPresence env owner (pl_id p) (visit_change Arrived
      (case lv_arrivalAt v of None \<Rightarrow> lv_startedAt v | Some a \<Rightarrow> a) v)) here db else db)"
    define leaving where "leaving = here @ filter (\<lambda>p. pl_id p \<notin> set (map pl_id here) \<and> pl_id p \<in> set (map pr_placeId
      (filter (\<lambda>r. pr_owner r = owner \<and> pr_visitId r = Some (lv_id v) \<and> pr_state r = Inside) (db_presence db1)))) owned"
    define db2 where "db2 = fold (\<lambda>p. applyPresence env owner (pl_id p) (visit_change Departed (the (lv_departureAt v)) v)) leaving db1"
    have split: "(if completed then publish_visit_ended owner v db2 else Inr db1) = Inr db'"
      using run True unfolding publishVisitEvents_def Let_def db2_def leaving_def db1_def here_def owned_def
      by (cases completed) (simp_all only: simp_thms if_True if_False)
    have one: "lawful db db1"
      unfolding db1_def by (cases arrived) (simp_all only: if_True if_False step [OF ok] lawful_refl [OF ok])
    then have ok1: "presence_ok db1"
      by (simp add: lawful_def)
    have two: "lawful db1 db2"
      unfolding db2_def by (rule step [OF ok1])
    then have ok2: "presence_ok db2"
      by (simp add: lawful_def)
    show ?thesis
    proof (cases completed)
      case True
      with split have ended: "publish_visit_ended owner v db2 = Inr db'"
        by simp
      show ?thesis
        by (rule sound_for_trans [OF lawful_sound [OF one]
              sound_for_trans [OF lawful_sound [OF two] sound_visit_ended [OF ok2 ended]]])
    next
      case False
      with split lawful_sound [OF one] show ?thesis
        by simp
    qed
  qed
qed

lemma sound_projectVisit:
  assumes ok: "presence_ok db" and run: "projectVisit env owner raw receivedAt lo now db = Inr db'"
  shows "sound_for ow p db db'"
proof -
  obtain vs where step: "db' = db\<lparr>db_visits := vs, db_used := Suc (db_used db)\<rparr> \<or>
      (\<exists>v a c. publishVisitEvents env owner v a c now (db\<lparr>db_visits := vs, db_used := Suc (db_used db)\<rparr>) = Inr db')"
    using run unfolding projectVisit_def Let_def by (auto split: if_splits)
  let ?db1 = "db\<lparr>db_visits := vs, db_used := Suc (db_used db)\<rparr>"
  have "publications_ok ?db1 = publications_ok db"
    by (simp add: publications_ok_def sequence_of_def)
  then have one: "sound_for ow p db ?db1" "presence_ok ?db1"
    using same_presence_lawful [OF ok, of ?db1 ow p] by (simp_all add: sound_for_def)
  show ?thesis
    using step
  proof
    assume "\<exists>v a c. publishVisitEvents env owner v a c now ?db1 = Inr db'"
    then obtain v a c where "publishVisitEvents env owner v a c now ?db1 = Inr db'"
      by blast
    then show ?thesis
      by (rule sound_for_trans [OF one(1) sound_publishVisitEvents [OF one(2)]])
  qed (use one in simp)
qed

lemma sound_places:
  assumes "presence_ok db"
  shows "create_place owner input by' now db = Inr (row, db') \<Longrightarrow> sound_for ow p db db'"
    and "delete_place owner pid now db = Inr db' \<Longrightarrow> sound_for ow p db db'"
proof -
  have keep: "sound_for ow p db d" if "db_presence d = db_presence db" "db_presenceEvents d = db_presenceEvents db"
      "db_domains d = db_domains db" "\<And>x. sequence_of x d = sequence_of x db" for d
    using same_presence_lawful [OF assms that(1,2)] that by (auto simp: sound_for_def publications_ok_def)
  show "sound_for ow p db db'" if "create_place owner input by' now db = Inr (row, db')"
    using that by (intro keep) (auto simp: create_place_def owner_row_def Let_def sequence_of_def split: option.splits if_splits)
  show "sound_for ow p db db'" if "delete_place owner pid now db = Inr db'"
    using that by (intro keep) (auto simp: delete_place_def sequence_of_def split: option.splits)
qed

lemma find_filter: "(\<And>x. Q x \<Longrightarrow> P x) \<Longrightarrow> find Q (filter P xs) = find Q xs"
  by (induction xs) auto

lemma update_place_sound:
  assumes ok: "presence_ok db" and patch: "placeUpdateSchema input = Some patch"
    and run: "update_place owner pid input now db = Inr (row, db')"
  shows "presence_ok db' \<and> (publications_ok db \<longrightarrow> publications_ok db') \<and>
    (\<forall>ow p. (ow, p) = (owner, pid) \<and> (pt_coordinate patch \<noteq> None \<or> pt_radius patch \<noteq> None) \<or> lawful_for ow p db db')"
proof -
  let ?moved = "pt_coordinate patch \<noteq> None \<or> pt_radius patch \<noteq> None"
  have rows: "db_presence db' = (if ?moved then filter (\<lambda>r. \<not> (pr_owner r = owner \<and> pr_placeId r = pid)) (db_presence db)
      else db_presence db)" "db_presenceEvents db' = db_presenceEvents db" "db_domains db' = db_domains db"
      "db_owners db' = db_owners db"
    using run patch by (auto simp: update_place_def Let_def resetPresence_def split: option.splits if_splits)
  have pub: "publications_ok db' = publications_ok db"
    using rows by (simp add: publications_ok_def sequence_of_def)
  have ok': "presence_ok db'"
    using ok rows by (auto simp: presence_ok_def keys_ok_def distinct_map_filter)
  have same: "find_presence ow p db' = find_presence ow p db" if "\<not> ((ow, p) = (owner, pid) \<and> ?moved)" for ow p
    using that rows by (auto simp: find_presence_def intro!: find_filter)
  have "lawful_for ow p db db'" if "\<not> ((ow, p) = (owner, pid) \<and> ?moved)" for ow p
    using same [OF that] rows by (auto simp: lawful_for_def standing_def place_journal_def)
  with pub ok' show ?thesis
    by blast
qed

end
