(* ===== verification/PlaceRuns.thy ===== *)
theory PlaceRuns
  imports PlaceProps
begin

text \<open>
  Runs of the service for one owner and place, and what they show: the journal of a place, the order of
  reports, the settling of departures, and what single readings can do.
\<close>

section \<open>Runs\<close>

text \<open>
  One transaction of the service, as seen from one owner and place: a region report that is not an initial one
  about this place, a reading, a visit report, settling, a change of saved places that does not move this
  place, and the arrival of raw events.  The transactions left out here, an initial report about this place and a
  change that moves or resizes it, put the row in a new position without an event: they are the re-basings below.
\<close>

inductive presence_step :: "place_env \<Rightarrow> string \<Rightarrow> string \<Rightarrow> place_db \<Rightarrow> place_db \<Rightarrow> bool"
  for env owner pid where
  region: "\<not> (ow = owner \<and> baseline_report env ow payload db pid) \<Longrightarrow>
    presence_step env owner pid db (snd (processRegionTransition env ow raw payload db))"
| reading: "presence_step env owner pid db (applyReading env ow fx raw None None db)"
| visit: "projectVisit env ow raw receivedAt lo now db = Inr db' \<Longrightarrow> presence_step env owner pid db db'"
| settle: "presence_step env owner pid db (snd (settleDepartures now now' locked db))"
| create: "create_place ow input createdBy now db = Inr (row, db') \<Longrightarrow> presence_step env owner pid db db'"
| update: "placeUpdateSchema input = Some patch \<Longrightarrow> update_place ow p input now db = Inr (row, db') \<Longrightarrow>
    \<not> ((ow, p) = (owner, pid) \<and> (pt_coordinate patch \<noteq> None \<or> pt_radius patch \<noteq> None)) \<Longrightarrow>
    presence_step env owner pid db db'"
| delete: "delete_place ow p now db = Inr db' \<Longrightarrow> presence_step env owner pid db db'"
| ingest: "presence_step env owner pid db (db\<lparr>db_rawEvents := db_rawEvents db @ es\<rparr>)"

lemma presence_step_sound:
  assumes "presence_step env owner pid db db'" "presence_ok db"
  shows "sound_for owner pid db db'"
  using assms
proof cases
  case (region ow payload raw)
  with region_lawful [OF assms(2) refl, of env ow raw payload] show ?thesis
    by (auto simp: sound_for_def frame_ok_def)
next
  case (reading ow fx raw)
  then show ?thesis
    using lawful_sound [OF lawful_applyReading [OF assms(2)]] by simp
next
  case (visit ow raw receivedAt lo now)
  then show ?thesis
    using sound_projectVisit [OF assms(2)] by blast
next
  case (settle now now' locked)
  then show ?thesis
    using lawful_sound [OF lawful_settleDepartures [OF assms(2)]] by simp
next
  case (create ow input createdBy now row)
  then show ?thesis
    using sound_places(1) [OF assms(2)] by blast
next
  case (update input patch ow p now row)
  with update_place_sound [OF assms(2) update(1,2)] show ?thesis
    by (auto simp: sound_for_def)
next
  case (delete ow p now)
  then show ?thesis
    using sound_places(2) [OF assms(2)] by blast
next
  case (ingest es)
  then show ?thesis
    using same_presence_lawful [OF assms(2), of db' owner pid]
    by (simp add: sound_for_def publications_ok_def sequence_of_def)
qed

text \<open>
  A system that keeps a journal and a position: every step extends the journal along a specification that is
  reflexive and transitive.  Then every run does.
\<close>

locale journalled =
  fixes step :: "'s \<Rightarrow> 's \<Rightarrow> bool"
    and ok :: "'s \<Rightarrow> bool"
    and journal :: "'s \<Rightarrow> 'e list"
    and pos :: "'s \<Rightarrow> 'p"
    and spec :: "'p \<Rightarrow> 'e list \<Rightarrow> 'p \<Rightarrow> bool"
  assumes spec_refl: "spec p [] p"
    and spec_trans: "spec p es q \<Longrightarrow> spec q fs r \<Longrightarrow> spec p (es @ fs) r"
    and step_keeps: "step s t \<Longrightarrow> ok s \<Longrightarrow> ok t"
    and step_spec: "step s t \<Longrightarrow> ok s \<Longrightarrow> \<exists>es. journal t = journal s @ es \<and> spec (pos s) es (pos t)"
begin

lemma journalled_run:
  assumes "step\<^sup>*\<^sup>* s t" "ok s"
  shows "ok t \<and> (\<exists>es. journal t = journal s @ es \<and> spec (pos s) es (pos t))"
  using assms
proof (induction rule: rtranclp_induct)
  case base
  then show ?case
    using spec_refl by auto
next
  case (step t u)
  then obtain es where es: "ok t" "journal t = journal s @ es" "spec (pos s) es (pos t)"
    by blast
  obtain fs where fs: "journal u = journal t @ fs" "spec (pos t) fs (pos u)"
    using step_spec [OF step.hyps(2) es(1)] by blast
  show ?case
    using es fs step_keeps [OF step.hyps(2) es(1)] spec_trans by auto
qed

end

interpretation pj: journalled "presence_step env owner pid" presence_ok "place_journal owner pid" "standing owner pid" follows
  for env owner pid
proof
  show "presence_ok db'" if "presence_step env owner pid db db'" "presence_ok db" for db db'
    using presence_step_sound [OF that] by (simp add: sound_for_def)
  show "\<exists>es. place_journal owner pid db' = place_journal owner pid db @ es \<and>
      follows (standing owner pid db) es (standing owner pid db')"
    if "presence_step env owner pid db db'" "presence_ok db" for db db'
    using presence_step_sound [OF that] by (simp add: sound_for_def lawful_for_def)
qed (auto intro: follows_trans)

text \<open>C35: 
  Every run keeps the rows of all places in the shape the handlers rely on, one row per owner and place, and
  numbers the publications of each owner upwards without repetition.
\<close>

lemma presence_rows_kept:
  assumes "(presence_step env owner pid)\<^sup>*\<^sup>* db db'" "presence_ok db" "publications_ok db"
  shows "presence_ok db' \<and> publications_ok db'"
  using assms(1)
proof (induction rule: rtranclp_induct)
  case (step a b)
  then show ?case
    using presence_step_sound [OF step.hyps(2)] by (auto simp: sound_for_def)
qed (use assms in simp)

text \<open>
  The transactions that put the row of the place in a new position without publishing anything: a region report
  that is initial, or older than the place's geometry, and an update that moves or resizes the place.
\<close>

datatype rebasing = Baseline int | Moved

inductive rebase_step :: "place_env \<Rightarrow> string \<Rightarrow> string \<Rightarrow> rebasing \<Rightarrow> place_db \<Rightarrow> place_db \<Rightarrow> bool"
  for env owner pid where
  baseline: "parseRegionTransition env payload = Some parsed \<Longrightarrow> baseline_report env owner payload db pid \<Longrightarrow>
    rebase_step env owner pid (Baseline (rg_at parsed)) db (snd (processRegionTransition env owner raw payload db))"
| moved: "placeUpdateSchema input = Some patch \<Longrightarrow> update_place owner pid input now db = Inr (row, db') \<Longrightarrow>
    pt_coordinate patch \<noteq> None \<or> pt_radius patch \<noteq> None \<Longrightarrow> rebase_step env owner pid Moved db db'"

text \<open>What a re-basing may do: an initial report leaves the row alone or puts it in or out since its own time, and a
  place that is moved is forgotten.\<close>

fun rebased :: "rebasing \<Rightarrow> standing \<Rightarrow> standing \<Rightarrow> bool" where
  "rebased (Baseline t) p q \<longleftrightarrow> q = p \<or> q = Some (Inside, t) \<or> q = Some (Outside, t)"
| "rebased Moved p q \<longleftrightarrow> q = None"

lemma apply_initial_standing:
  "rebased (Baseline (pc_at c)) (standing owner pid db) (standing owner pid (apply_initial owner pid c db))"
  by (auto simp: apply_initial_def Let_def standing_def standing_of_def find_upsert keeps_keyI split: option.split)

lemma region_initial_standing:
  "rebased (Baseline (rg_at parsed)) (standing owner (pl_id p) db)
     (standing owner (pl_id p) (region_decides env owner raw parsed p True state db))"
proof -
  have init: "applyPresence env owner (pl_id p) ((plain_change tr t Region raw')\<lparr>pc_initial := True\<rparr>) db =
      apply_initial owner (pl_id p) ((plain_change tr t Region raw')\<lparr>pc_initial := True\<rparr>) db" for tr t raw'
    by (subst applyPresence.simps) (simp add: plain_change_def)
  define tr where "tr = (if state = RUnknown then rg_transition parsed else if state = RInside then Arrived else Departed)"
  have "region_decides env owner raw parsed p True state db =
      apply_initial owner (pl_id p) ((plain_change tr (rg_at parsed) Region (Some raw))\<lparr>pc_initial := True\<rparr>) db"
    by (cases "state = RUnknown") (simp_all add: region_decides_def Let_def init tr_def)
  then show ?thesis
    using apply_initial_standing [of "(plain_change tr (rg_at parsed) Region (Some raw))\<lparr>pc_initial := True\<rparr>" owner "pl_id p" db]
    by (simp add: plain_change_def)
qed

lemma rebase_sound:
  assumes "rebase_step env owner pid b db db'" and ok: "presence_ok db"
  shows "presence_ok db' \<and> place_journal owner pid db' = place_journal owner pid db \<and>
    rebased b (standing owner pid db) (standing owner pid db')"
  using assms(1)
proof cases
  case (baseline payload parsed raw)
  then obtain p where p: "live_place owner pid db = Some p" "rg_placeId parsed = pid" "pl_id p = pid"
      "rg_initial parsed \<or> rg_at parsed < pl_geometryChangedAt p"
    using live_place_id by (auto simp: baseline_report_def split: option.splits)
  show ?thesis
  proof (cases "db' = db")
    case True
    with ok baseline(1) show ?thesis
      by simp
  next
    case False
    then obtain state where db': "db' = region_decides env owner raw parsed p True state db"
      using baseline p by (auto simp: processRegionTransition_def Let_def split: option.splits if_splits)
    with region_initial [OF ok, of env owner raw parsed p state] False
    obtain r where r: "effect owner pid [] r db db'" "presence_row_ok r"
      using p(3) by auto
    with effect_presence_ok [OF ok r] region_initial_standing [of parsed owner p db env raw state] baseline(1) show ?thesis
      by (simp add: db' p(3) effect_def)
  qed
next
  case (moved input patch now row)
  have rows: "db_presence db' = filter (\<lambda>r. \<not> (pr_owner r = owner \<and> pr_placeId r = pid)) (db_presence db)"
      "db_presenceEvents db' = db_presenceEvents db"
    using moved(2-4) by (auto simp: update_place_def Let_def resetPresence_def split: option.splits if_splits)
  have "find_presence owner pid db' = None"
    by (auto simp: find_presence_def rows find_None_iff)
  then show ?thesis
    using update_place_sound [OF ok moved(2,3)] moved(1) rows(2) by (simp add: standing_def standing_of_def place_journal_def)
qed

text \<open>Every run of the service: its transactions in order, with the re-basings it contains.\<close>

inductive presence_run :: "place_env \<Rightarrow> string \<Rightarrow> string \<Rightarrow> rebasing list \<Rightarrow> place_db \<Rightarrow> place_db \<Rightarrow> bool"
  for env owner pid where
  usual: "(presence_step env owner pid)\<^sup>*\<^sup>* db db' \<Longrightarrow> presence_run env owner pid [] db db'"
| rebase: "presence_run env owner pid bs db a \<Longrightarrow> rebase_step env owner pid b a c \<Longrightarrow>
    (presence_step env owner pid)\<^sup>*\<^sup>* c db' \<Longrightarrow> presence_run env owner pid (bs @ [b]) db db'"

text \<open>The specification: between two re-basings the events are a journal from where the row stood to where it stands.\<close>

inductive history :: "standing \<Rightarrow> rebasing list \<Rightarrow> (presence_transition \<times> int) list \<Rightarrow> standing \<Rightarrow> bool" where
  journal: "follows p es q \<Longrightarrow> history p [] es q"
| rebasing: "history p bs es q \<Longrightarrow> rebased b q q' \<Longrightarrow> follows q' fs r \<Longrightarrow> history p (bs @ [b]) (es @ fs) r"

text \<open>C6: 
  The published arrivals and departures of a place make sense, and the row stands where they end.  From any state
  of the tables that satisfies the invariant, whatever reports, readings, visits, settlings and changes of saved
  places are processed in whatever order, the events published since form a journal of the specification, in
  chronological order, with a departure only after an arrival, that leads from where the row stood to where it
  stands; only an initial region report about the place (or one from before its geometry) and a move or resize of
  the place break that line: they publish nothing, the first leaves the row or puts it in or out since the time of
  the report, the second forgets it, and the journal goes on from there.
\<close>

theorem presence_follows_journal:
  assumes "presence_run env owner pid bs db db'" and "presence_ok db"
  shows "\<exists>es. place_journal owner pid db' = place_journal owner pid db @ es \<and>
    history (standing owner pid db) bs es (standing owner pid db')"
proof -
  have "presence_ok db' \<and> (\<exists>es. place_journal owner pid db' = place_journal owner pid db @ es \<and>
      history (standing owner pid db) bs es (standing owner pid db'))"
    using assms
  proof induction
    case (usual db db')
    then show ?case
      using pj.journalled_run [OF usual] history.journal by blast
  next
    case (rebase bs db a b c db')
    then obtain es where es: "presence_ok a" "place_journal owner pid a = place_journal owner pid db @ es"
        "history (standing owner pid db) bs es (standing owner pid a)"
      by blast
    note c = rebase_sound [OF rebase.hyps(2) es(1)]
    obtain fs where fs: "presence_ok db'" "place_journal owner pid db' = place_journal owner pid c @ fs"
        "follows (standing owner pid c) fs (standing owner pid db')"
      using pj.journalled_run [OF rebase.hyps(3)] c by blast
    show ?case
      using es fs c history.rebasing [OF es(3) _ fs(3)] by auto
  qed
  then show ?thesis
    by blast
qed

section \<open>The order of an exit and a re-entry\<close>

text \<open>The fields of a row that count only while a departure is pending.\<close>

definition settled_row :: "presence_row \<Rightarrow> presence_row" where
  "settled_row r = r\<lparr>pr_leavingEventId := None, pr_leavingConfirmed := False\<rparr>"

definition apply_changes :: "place_env \<Rightarrow> string \<Rightarrow> string \<Rightarrow> presence_change list \<Rightarrow> place_db \<Rightarrow> place_db" where
  "apply_changes env owner pid cs db = fold (applyPresence env owner pid) cs db"

lemma apply_exit_inside:
  assumes "find_presence owner pid db = Some r" "pr_state r = Inside" "pr_since r \<le> t"
  shows "applyPresence env owner pid (plain_change Departed t src raw) db =
    apply_departed owner pid (plain_change Departed t src raw) db"
  using assms by (subst applyPresence.simps) (simp add: plain_change_def is_inside_def)

lemma apply_entry_inside:
  assumes "find_presence owner pid db = Some r" "pr_state r = Inside"
  shows "applyPresence env owner pid (plain_change Arrived t src raw) db =
    apply_arrived owner pid (plain_change Arrived t src raw) db"
  using assms by (subst applyPresence.simps) (simp add: plain_change_def is_inside_def)

lemma exit_waits:
  assumes r: "find_presence owner pid db = Some r" "pr_state r = Inside" "pr_leavingAt r = None"
    and e: "pr_lastEnteredAt r = Some e" "pr_since r \<le> e" "e \<le> t" and src: "src \<noteq> Visit"
  shows "applyPresence env owner pid (plain_change Departed t src raw) db =
    upsert_presence owner pid t (\<lambda>r. r\<lparr>pr_leavingAt := Some t, pr_leavingEventId := raw,
      pr_leavingConfirmed := (src = Region)\<rparr>) db"
proof -
  have "pr_since r \<le> t"
    using e by simp
  then show ?thesis
    using assms by (simp add: apply_exit_inside [OF r(1,2)])
      (simp add: apply_departed_def is_stale_def plain_change_def depart_later_def change_visit_def)
qed

lemma exit_late:
  assumes r: "find_presence owner pid db = Some r" "pr_state r = Inside" "pr_since r \<le> t"
    and e: "pr_lastEnteredAt r = Some e" "t < e" and src: "src \<noteq> Visit"
  shows "applyPresence env owner pid (plain_change Departed t src raw) db =
    (if src = Reading \<or> e - t < DEPARTURE_SETTLE_MS then db
     else publish_remembered owner pid (plain_change Departed t src raw) Arrived e None
       (upsert_presence owner pid t (\<lambda>r. r\<lparr>pr_since := e, pr_leavingAt := None, pr_visitId := None\<rparr>)
         (publish_own owner pid (plain_change Departed t src raw) Departed None db)))"
  using assms by (simp add: apply_exit_inside [OF r])
    (simp add: apply_departed_def is_stale_def plain_change_def change_visit_def)

lemma entry_notes:
  assumes r: "find_presence owner pid db = Some r" "pr_state r = Inside" "\<not> not_before t (pr_leavingAt r)"
    and e: "pr_lastEnteredAt r = Some e" and src: "src \<noteq> Visit"
  shows "applyPresence env owner pid (plain_change Arrived t src raw) db =
    upsert_presence owner pid t (\<lambda>r. r\<lparr>pr_lastEnteredAt := Some (max e t)\<rparr>) db"
  using assms by (simp add: apply_entry_inside [OF r(1,2)])
    (auto simp: apply_arrived_def plain_change_def change_visit_def max_def)

lemma entry_returns:
  assumes r: "find_presence owner pid db = Some r" "pr_state r = Inside" "pr_leavingAt r = Some l" "l \<le> t" and src: "src \<noteq> Visit"
  shows "applyPresence env owner pid (plain_change Arrived t src raw) db =
    (if \<not> pr_leavingConfirmed r \<or> t - l < DEPARTURE_SETTLE_MS
     then upsert_presence owner pid t (\<lambda>r. r\<lparr>pr_leavingAt := None, pr_leavingConfirmed := False, pr_lastEnteredAt := Some t\<rparr>) db
     else publish_own owner pid (plain_change Arrived t src raw) Arrived None
       (upsert_presence owner pid t
          (\<lambda>r. r\<lparr>pr_state := Inside, pr_since := t, pr_leavingAt := None, pr_lastEnteredAt := Some t, pr_visitId := None\<rparr>)
          (publish_remembered owner pid (plain_change Arrived t src raw) Departed l None db)))"
  using assms by (simp add: apply_entry_inside [OF r(1,2)])
    (auto simp: apply_arrived_def plain_change_def change_visit_def not_before_def)

lemmas presence_eval = find_upsert keeps_keyI publish_own_def publish_remembered_def journal_publish

text \<open>
  An exit at \<open>te\<close> and a return at \<open>ta\<close>, later, reported by geofence or reading in either order, publish
  the same arrivals and departures and leave the same row, up to the fields that count only while a departure
  is pending.
\<close>

theorem reentry_order_irrelevant:
  assumes r: "find_presence owner pid db = Some r" "pr_state r = Inside" "pr_leavingAt r = None"
    and e: "pr_lastEnteredAt r = Some e" "pr_since r \<le> e" "e \<le> te" "te < ta"
    and src: "src \<noteq> Visit" "src' \<noteq> Visit"
    and changes: "left = plain_change Departed te src raw" "entered = plain_change Arrived ta src' raw'"
  shows "place_journal owner pid (apply_changes env owner pid [left, entered] db) =
      place_journal owner pid (apply_changes env owner pid [entered, left] db) \<and>
    map_option settled_row (find_presence owner pid (apply_changes env owner pid [left, entered] db)) =
      map_option settled_row (find_presence owner pid (apply_changes env owner pid [entered, left] db))"
proof -
  let ?d1 = "applyPresence env owner pid left db" and ?d2 = "applyPresence env owner pid entered db"
  have d1: "?d1 = upsert_presence owner pid te (\<lambda>r. r\<lparr>pr_leavingAt := Some te, pr_leavingEventId := raw,
      pr_leavingConfirmed := (src = Region)\<rparr>) db"
    unfolding changes by (rule exit_waits [OF r e(1,2,3) src(1)])
  have f1: "find_presence owner pid ?d1 = Some (r\<lparr>pr_leavingAt := Some te, pr_leavingEventId := raw,
      pr_leavingConfirmed := (src = Region)\<rparr>)"
    using r by (simp add: d1 find_upsert keeps_keyI)
  have d2: "?d2 = upsert_presence owner pid ta (\<lambda>r. r\<lparr>pr_lastEnteredAt := Some (max e ta)\<rparr>) db"
    unfolding changes using r e src by (intro entry_notes) (auto simp: not_before_def)
  have f2: "find_presence owner pid ?d2 = Some (r\<lparr>pr_lastEnteredAt := Some ta\<rparr>)"
    using r e by (simp add: d2 find_upsert keeps_keyI max_def)
  have late: "applyPresence env owner pid left ?d2 =
    (if src = Reading \<or> ta - te < DEPARTURE_SETTLE_MS then ?d2
     else publish_remembered owner pid left Arrived ta None
       (upsert_presence owner pid te (\<lambda>r. r\<lparr>pr_since := ta, pr_leavingAt := None, pr_visitId := None\<rparr>)
         (publish_own owner pid left Departed None ?d2)))"
    unfolding changes(1) using r e src by (intro exit_late [OF f2]) auto
  have ret: "applyPresence env owner pid entered ?d1 =
    (if src \<noteq> Region \<or> ta - te < DEPARTURE_SETTLE_MS
     then upsert_presence owner pid ta (\<lambda>r. r\<lparr>pr_leavingAt := None, pr_leavingConfirmed := False, pr_lastEnteredAt := Some ta\<rparr>) ?d1
     else publish_own owner pid entered Arrived None
       (upsert_presence owner pid ta
          (\<lambda>r. r\<lparr>pr_state := Inside, pr_since := ta, pr_leavingAt := None, pr_lastEnteredAt := Some ta, pr_visitId := None\<rparr>)
          (publish_remembered owner pid entered Departed te None ?d1)))"
    unfolding changes(2) using r e src by (subst entry_returns [OF f1]) auto
  have "src = Region \<or> src = Reading"
    using src(1) by (cases src) auto
  moreover have "place_journal owner pid ?d1 = place_journal owner pid db" "place_journal owner pid ?d2 = place_journal owner pid db"
    by (simp_all add: d1 d2)
  moreover have "pc_at left = te" "pc_at entered = ta"
    by (simp_all add: changes plain_change_def)
  ultimately show ?thesis
    using r f1 f2
    by (auto simp: apply_changes_def late ret presence_eval settled_row_def)
qed

text \<open>C37: 
  Three reports are another matter.  A stay, an exit at \<open>t1\<close>, a return at \<open>t2\<close> and an exit at \<open>t3\<close>: in
  order, the second exit waits to be settled; when the first exit comes last, the same events are published but
  the wait for the second exit is dropped, and the owner stays inside.
\<close>

theorem late_exit_drops_departure:
  assumes r: "find_presence owner pid db = Some r" "pr_state r = Inside" "pr_leavingAt r = None"
    and e: "pr_lastEnteredAt r = Some e" "pr_since r \<le> e" "e \<le> t1" "t1 + DEPARTURE_SETTLE_MS \<le> t2" "t2 \<le> t3"
    and changes: "exit1 = plain_change Departed t1 Region raw1" "enter2 = plain_change Arrived t2 Region raw2"
      "exit3 = plain_change Departed t3 Region raw3"
  shows "\<exists>r1 r2. find_presence owner pid (apply_changes env owner pid [exit1, enter2, exit3] db) = Some r1 \<and>
    find_presence owner pid (apply_changes env owner pid [enter2, exit3, exit1] db) = Some r2 \<and>
    pr_state r1 = Inside \<and> pr_leavingAt r1 = Some t3 \<and> pr_leavingConfirmed r1 \<and>
    pr_state r2 = Inside \<and> pr_leavingAt r2 = None \<and>
    place_journal owner pid (apply_changes env owner pid [exit1, enter2, exit3] db) =
      place_journal owner pid (apply_changes env owner pid [enter2, exit3, exit1] db)"
proof -
  have gap: "t1 < t2" "\<not> t2 - t1 < DEPARTURE_SETTLE_MS"
    using e by (simp_all add: DEPARTURE_SETTLE_MS_def)
  define a1 where "a1 = applyPresence env owner pid exit1 db"
  define a2 where "a2 = applyPresence env owner pid enter2 a1"
  define b1 where "b1 = applyPresence env owner pid enter2 db"
  define b2 where "b2 = applyPresence env owner pid exit3 b1"
  have a1: "a1 = upsert_presence owner pid t1 (\<lambda>r. r\<lparr>pr_leavingAt := Some t1, pr_leavingEventId := raw1,
      pr_leavingConfirmed := True\<rparr>) db"
    unfolding a1_def changes by (subst exit_waits [OF r e(1,2,3)]) simp_all
  have fa1: "find_presence owner pid a1 = Some (r\<lparr>pr_leavingAt := Some t1, pr_leavingEventId := raw1, pr_leavingConfirmed := True\<rparr>)"
    "place_journal owner pid a1 = place_journal owner pid db"
    using r by (simp_all add: a1 presence_eval)
  have a2: "a2 = publish_own owner pid enter2 Arrived None (upsert_presence owner pid t2
      (\<lambda>r. r\<lparr>pr_state := Inside, pr_since := t2, pr_leavingAt := None, pr_lastEnteredAt := Some t2, pr_visitId := None\<rparr>)
      (publish_remembered owner pid enter2 Departed t1 None a1))"
    unfolding a2_def changes using r gap by (subst entry_returns [OF fa1(1)]) auto
  have at2: "pc_at enter2 = t2" "pc_at exit1 = t1"
    by (simp_all add: changes plain_change_def)
  obtain r' where fa2: "find_presence owner pid a2 = Some r'" "pr_state r' = Inside" "pr_leavingAt r' = None"
      "pr_lastEnteredAt r' = Some t2" "pr_since r' = t2"
      "place_journal owner pid a2 = place_journal owner pid db @ [(Departed, t1), (Arrived, t2)]"
    using fa1 by (simp add: a2 presence_eval at2)
  have a3: "applyPresence env owner pid exit3 a2 = upsert_presence owner pid t3 (\<lambda>r. r\<lparr>pr_leavingAt := Some t3,
      pr_leavingEventId := raw3, pr_leavingConfirmed := True\<rparr>) a2"
    unfolding changes using fa2 e by (subst exit_waits [OF fa2(1,2,3)]) auto
  have b1: "b1 = upsert_presence owner pid t2 (\<lambda>r. r\<lparr>pr_lastEnteredAt := Some (max e t2)\<rparr>) db"
    unfolding b1_def changes using r e by (intro entry_notes) (auto simp: not_before_def)
  have fb1: "find_presence owner pid b1 = Some (r\<lparr>pr_lastEnteredAt := Some t2\<rparr>)"
    "place_journal owner pid b1 = place_journal owner pid db"
    using r e gap by (simp_all add: b1 presence_eval max_def)
  have b2: "b2 = upsert_presence owner pid t3 (\<lambda>r. r\<lparr>pr_leavingAt := Some t3, pr_leavingEventId := raw3,
      pr_leavingConfirmed := True\<rparr>) b1"
    unfolding b2_def changes using r e gap by (subst exit_waits [OF fb1(1)]) auto
  have fb2: "find_presence owner pid b2 = Some (r\<lparr>pr_lastEnteredAt := Some t2, pr_leavingAt := Some t3,
      pr_leavingEventId := raw3, pr_leavingConfirmed := True\<rparr>)" "place_journal owner pid b2 = place_journal owner pid db"
    using fb1 by (simp_all add: b2 presence_eval)
  have b3: "applyPresence env owner pid exit1 b2 = publish_remembered owner pid exit1 Arrived t2 None
      (upsert_presence owner pid t1 (\<lambda>r. r\<lparr>pr_since := t2, pr_leavingAt := None, pr_visitId := None\<rparr>)
        (publish_own owner pid exit1 Departed None b2))"
    unfolding changes using r e gap by (subst exit_late [OF fb2(1)]) auto
  show ?thesis
    using fa2 fb2 r by (simp add: apply_changes_def a1_def [symmetric] a2_def [symmetric] b1_def [symmetric]
        b2_def [symmetric] a3 b3 presence_eval at2)
qed

section \<open>What one reading can do\<close>

text \<open>A place the owner is not at, with no arrival waiting that a reading at \<open>t\<close> is far enough from to confirm.\<close>

definition no_arrival_due :: "string \<Rightarrow> string \<Rightarrow> int \<Rightarrow> place_db \<Rightarrow> bool" where
  "no_arrival_due owner pid t db =
     (case find_presence owner pid db of None \<Rightarrow> True
      | Some r \<Rightarrow> pr_state r = Outside \<and>
          (case pr_arrivingAt r of None \<Rightarrow> True | Some a \<Rightarrow> \<bar>t - a\<bar> < ARRIVAL_CONFIRM_MS))"

lemma read_place_quiet:
  assumes quiet: "no_arrival_due owner pid (fx_at fx) db"
    and snap: "\<And>r. find_row pid (sc_rows sc) = Some r \<Longrightarrow> find_presence owner pid db = Some r"
  shows "place_journal owner pid (read_place env owner fx raw exc sc pid db) = place_journal owner pid db"
proof -
  have "\<not> is_inside (find_presence owner pid db)"
    using quiet by (auto simp: no_arrival_due_def is_inside_def split: option.splits)
  moreover have "\<not> is_inside (find_row pid (sc_rows sc))"
    using snap calculation by (cases "find_row pid (sc_rows sc)") (auto simp: is_inside_def)
  moreover have "place_journal owner pid (arriveOnReading env owner p (fx_at fx) src raw fx db) = place_journal owner pid db"
    if "pl_id p = pid" for p src
    using quiet that calculation(1)
    by (auto simp: arriveOnReading_def Let_def no_arrival_due_def split: option.splits)
  moreover have "pl_id p = pid" if "find_place pid (sc_places sc) = Some p" for p
    using that by (auto simp: find_place_def find_Some_iff)
  ultimately show ?thesis
    by (auto simp: read_place_def Let_def clearArrival_def split: option.split)
qed

lemma read_places_elsewhere:
  assumes "presence_ok db" "distinct pids" "pid \<notin> set pids"
    and "\<And>p r. p \<in> set pids \<Longrightarrow> find_row p (sc_rows sc) = Some r \<Longrightarrow> find_presence owner p db = Some r"
  shows "place_journal owner pid (fold (read_place env owner fx raw exc sc) pids db) = place_journal owner pid db"
  using assms
proof (induction pids arbitrary: db)
  case (Cons p pids)
  have good: "good_effect owner p db (read_place env owner fx raw exc sc p db)"
    using Cons.prems by (intro good_read_place) auto
  have "find_presence owner q (read_place env owner fx raw exc sc p db) = Some r"
    if "q \<in> set pids" "find_row q (sc_rows sc) = Some r" for q r
    using that Cons.prems(2,4) good_elsewhere [OF good, of owner q] by auto
  then show ?case
    using Cons.IH [of "read_place env owner fx raw exc sc p db"] good_presence_ok [OF Cons.prems(1) good]
      good_elsewhere [OF good, of owner pid] Cons.prems(2,3) by simp
qed simp

lemma read_places_quiet:
  assumes "presence_ok db" "distinct pids" "no_arrival_due owner pid (fx_at fx) db"
    and "\<And>p r. p \<in> set pids \<Longrightarrow> find_row p (sc_rows sc) = Some r \<Longrightarrow> find_presence owner p db = Some r"
  shows "place_journal owner pid (fold (read_place env owner fx raw exc sc) pids db) = place_journal owner pid db"
  using assms
proof (induction pids arbitrary: db)
  case (Cons p pids)
  let ?db1 = "read_place env owner fx raw exc sc p db"
  have good: "good_effect owner p db ?db1"
    using Cons.prems by (intro good_read_place) auto
  have ok1: "presence_ok ?db1"
    using Cons.prems(1) good by (rule good_presence_ok)
  have rest: "find_presence owner q ?db1 = Some r" if "q \<in> set pids" "find_row q (sc_rows sc) = Some r" for q r
    using that Cons.prems(2,4) good_elsewhere [OF good, of owner q] by auto
  show ?case
  proof (cases "p = pid")
    case False
    then have "no_arrival_due owner pid (fx_at fx) ?db1" "place_journal owner pid ?db1 = place_journal owner pid db"
      using good_elsewhere [OF good, of owner pid] Cons.prems(3) by (auto simp: no_arrival_due_def)
    then show ?thesis
      using Cons.IH [of ?db1] rest ok1 Cons.prems(2) by simp
  next
    case True
    have "place_journal owner pid ?db1 = place_journal owner pid db"
      unfolding True using Cons.prems True by (intro read_place_quiet) auto
    moreover have "place_journal owner pid (fold (read_place env owner fx raw exc sc) pids ?db1) = place_journal owner pid ?db1"
      using True Cons.prems(2) rest by (intro read_places_elsewhere [OF ok1]) auto
    ultimately show ?thesis
      by simp
  qed
qed simp

text \<open>
  One reading never publishes anything at a place the owner is not at: an arrival needs a second one, at least
  \<open>ARRIVAL_CONFIRM_MS\<close> away from the first.
\<close>

theorem one_reading_never_arrives:
  assumes ok: "presence_ok db" and quiet: "no_arrival_due owner pid (fx_at fx) db"
  shows "place_journal owner pid (applyReading env owner fx raw owned exc db) = place_journal owner pid db"
proof -
  have keys: "keys_ok db"
    using ok by (simp add: presence_ok_def)
  have "distinct (sc_ordered (scan_reading owner fx ps db))" for ps
    by (auto simp: scan_reading_def Let_def set_order_def)
  then have "place_journal owner pid (fold (read_place env owner fx raw exc (scan_reading owner fx ps db))
      (sc_ordered (scan_reading owner fx ps db)) db) = place_journal owner pid db" for ps
    using find_row_snapshot [OF keys] by (intro read_places_quiet [OF ok _ quiet]) auto
  then show ?thesis
    by (simp add: applyReading_def Let_def)
qed

section \<open>Settling every departure\<close>

lemma settle_row_find:
  assumes "find_presence (pr_owner r) (pr_placeId r) db = Some r"
  shows "find_presence ow p (settle_row r db) =
      (if (ow, p) = row_key r then Some (leave_row (the (pr_leavingAt r)) r) else find_presence ow p db)"
    "place_journal ow p (settle_row r db) =
      place_journal ow p db @ (if (ow, p) = row_key r then [(Departed, the (pr_leavingAt r))] else [])"
  using assms by (auto simp: settle_row_def Let_def find_update row_key_def journal_publish plain_change_def)

lemma settle_rows_find:
  assumes "distinct (map row_key rows)"
    and "\<And>r. r \<in> set rows \<Longrightarrow> find_presence (pr_owner r) (pr_placeId r) db = Some r"
  shows "r \<in> set rows \<Longrightarrow> row_key r = (ow, p) \<Longrightarrow>
      find_presence ow p (fold settle_row rows db) = Some (leave_row (the (pr_leavingAt r)) r) \<and>
      place_journal ow p (fold settle_row rows db) = place_journal ow p db @ [(Departed, the (pr_leavingAt r))]"
    and "(ow, p) \<notin> row_key ` set rows \<Longrightarrow>
      find_presence ow p (fold settle_row rows db) = find_presence ow p db \<and>
      place_journal ow p (fold settle_row rows db) = place_journal ow p db"
proof -
  have "(r \<in> set rows \<longrightarrow> row_key r = (ow, p) \<longrightarrow>
      find_presence ow p (fold settle_row rows db) = Some (leave_row (the (pr_leavingAt r)) r) \<and>
      place_journal ow p (fold settle_row rows db) = place_journal ow p db @ [(Departed, the (pr_leavingAt r))]) \<and>
    ((ow, p) \<notin> row_key ` set rows \<longrightarrow>
      find_presence ow p (fold settle_row rows db) = find_presence ow p db \<and>
      place_journal ow p (fold settle_row rows db) = place_journal ow p db)"
    using assms
  proof (induction rows arbitrary: db)
    case (Cons x rows)
    note x = settle_row_find [OF Cons.prems(2) [of x], simplified]
    have "find_presence (pr_owner y) (pr_placeId y) (settle_row x db) = Some y" if "y \<in> set rows" for y
    proof -
      have "row_key y \<noteq> row_key x"
        using that Cons.prems(1) by (metis distinct.simps(2) image_eqI list.simps(9) set_map)
      then show ?thesis
        using x(1) [of "pr_owner y" "pr_placeId y"] that Cons.prems(2) by (auto simp: row_key_def)
    qed
    then have IH: "(r \<in> set rows \<longrightarrow> row_key r = (ow, p) \<longrightarrow>
      find_presence ow p (fold settle_row rows (settle_row x db)) = Some (leave_row (the (pr_leavingAt r)) r) \<and>
      place_journal ow p (fold settle_row rows (settle_row x db)) = place_journal ow p (settle_row x db) @ [(Departed, the (pr_leavingAt r))]) \<and>
    ((ow, p) \<notin> row_key ` set rows \<longrightarrow>
      find_presence ow p (fold settle_row rows (settle_row x db)) = find_presence ow p (settle_row x db) \<and>
      place_journal ow p (fold settle_row rows (settle_row x db)) = place_journal ow p (settle_row x db))"
      using Cons.IH [of "settle_row x db"] Cons.prems(1) by simp
    show ?case
      using IH x Cons.prems(1) by (auto simp: image_iff)
  qed simp
  then show "r \<in> set rows \<Longrightarrow> row_key r = (ow, p) \<Longrightarrow>
      find_presence ow p (fold settle_row rows db) = Some (leave_row (the (pr_leavingAt r)) r) \<and>
      place_journal ow p (fold settle_row rows db) = place_journal ow p db @ [(Departed, the (pr_leavingAt r))]"
    and "(ow, p) \<notin> row_key ` set rows \<Longrightarrow>
      find_presence ow p (fold settle_row rows db) = find_presence ow p db \<and>
      place_journal ow p (fold settle_row rows db) = place_journal ow p db"
    by blast+
qed

definition due_owners :: "int \<Rightarrow> place_db \<Rightarrow> string set" where
  "due_owners now db = {ow. \<exists>p r. find_presence ow p db = Some r \<and> settle_due now r}"

text \<open>One call of the settling worker, at a given time, while no owner is locked.\<close>

definition settle_once :: "int \<Rightarrow> place_db \<Rightarrow> place_db" where
  "settle_once now db = snd (settleDepartures now now (\<lambda>_. False) db)"

lemma settle_row_owners: "map_of (db_owners db) ow \<noteq> None \<Longrightarrow> map_of (db_owners (settle_row r db)) ow \<noteq> None"
  by (simp add: settle_row_def Let_def publishPresence_def update_presence_def update_conv')

lemma settle_rows_owners: "map_of (db_owners db) ow \<noteq> None \<Longrightarrow> map_of (db_owners (fold settle_row rows db)) ow \<noteq> None"
proof (induction rows arbitrary: db)
  case (Cons r rows)
  from Cons.IH [OF settle_row_owners [OF Cons.prems]] show ?case
    by simp
qed simp

lemma due_inside: "presence_ok db \<Longrightarrow> find_presence ow p db = Some r \<Longrightarrow> settle_due now r \<Longrightarrow> pr_state r = Inside"
  by (drule (1) presence_ok_row) (auto simp: presence_row_ok_def settle_due_def split: presence_state.splits option.splits)

lemma leave_not_due [simp]: "\<not> settle_due now (leave_row l r)"
  by (simp add: settle_due_def leave_row_def)

text \<open>One call settles all due departures of one owner and nothing else.\<close>

definition settles :: "int \<Rightarrow> string \<Rightarrow> place_db \<Rightarrow> place_db \<Rightarrow> bool" where
  "settles now o' db db' \<longleftrightarrow> o' \<in> due_owners now db \<and> presence_ok db' \<and>
     (\<forall>ow. map_of (db_owners db) ow \<noteq> None \<longrightarrow> map_of (db_owners db') ow \<noteq> None) \<and>
     (\<forall>ow p. case find_presence ow p db of
        None \<Rightarrow> find_presence ow p db' = None \<and> place_journal ow p db' = place_journal ow p db
      | Some r \<Rightarrow>
          (if ow = o' \<and> settle_due now r
           then find_presence ow p db' = Some (leave_row (the (pr_leavingAt r)) r) \<and>
                place_journal ow p db' = place_journal ow p db @ [(Departed, the (pr_leavingAt r))]
           else find_presence ow p db' = Some r \<and> place_journal ow p db' = place_journal ow p db))"

lemma settles_once:
  assumes ok: "presence_ok db" and known: "\<And>ow. ow \<in> due_owners now db \<Longrightarrow> map_of (db_owners db) ow \<noteq> None"
    and due: "due_owners now db \<noteq> {}"
  obtains o' where "settles now o' db (settle_once now db)"
proof -
  have keys: "keys_ok db"
    using ok by (simp add: presence_ok_def)
  have mem: "find_presence (pr_owner r) (pr_placeId r) db = Some r" if "r \<in> set (db_presence db)" for r
    using that by (simp add: find_mem [OF keys] row_key_def)
  let ?sorted = "sort_key (\<lambda>r. the (pr_leavingAt r)) (filter (settle_due now) (db_presence db))"
  have "set ?sorted \<noteq> {}"
    using due by (auto simp: due_owners_def find_mem [OF keys])
  then obtain c cs where c: "?sorted = c # cs"
    by (cases ?sorted) auto
  then have "c \<in> set ?sorted"
    by simp
  then have cdue: "c \<in> set (db_presence db)" "settle_due now c"
    by auto
  define o' where "o' = pr_owner c"
  have o': "o' \<in> due_owners now db"
    using mem [OF cdue(1)] cdue(2) by (auto simp: due_owners_def o'_def)
  define rows where "rows = filter (\<lambda>r. pr_owner r = o' \<and> pr_state r = Inside \<and> settle_due now r) (db_presence db)"
  have once: "settle_once now db = fold settle_row rows db"
    using c known [OF o'] by (auto simp: settle_once_def settleDepartures_def Let_def o'_def rows_def)
  have dist: "distinct (map row_key rows)"
    using keys by (simp add: rows_def keys_ok_def distinct_map_filter)
  have find: "find_presence (pr_owner r) (pr_placeId r) db = Some r" if "r \<in> set rows" for r
    using that by (intro mem) (simp add: rows_def)
  note settled = settle_rows_find [OF dist find]
  have in_rows: "r \<in> set rows" if "find_presence o' p db = Some r" "settle_due now r" for p r
    using that due_inside [OF ok that] by (auto simp: rows_def find_mem [OF keys] row_key_def)
  have not_rows: "(ow, p) \<notin> row_key ` set rows" if "ow \<noteq> o' \<or> (\<forall>r. find_presence ow p db = Some r \<longrightarrow> \<not> settle_due now r)" for ow p
    using that mem by (fastforce simp: rows_def row_key_def)
  have "case find_presence ow p db of
        None \<Rightarrow> find_presence ow p (settle_once now db) = None \<and> place_journal ow p (settle_once now db) = place_journal ow p db
      | Some r \<Rightarrow>
          (if ow = o' \<and> settle_due now r
           then find_presence ow p (settle_once now db) = Some (leave_row (the (pr_leavingAt r)) r) \<and>
                place_journal ow p (settle_once now db) = place_journal ow p db @ [(Departed, the (pr_leavingAt r))]
           else find_presence ow p (settle_once now db) = Some r \<and> place_journal ow p (settle_once now db) = place_journal ow p db)" for ow p
  proof (cases "\<exists>r. find_presence ow p db = Some r \<and> ow = o' \<and> settle_due now r")
    case True
    then obtain r where r: "find_presence o' p db = Some r" "settle_due now r" "ow = o'"
      by blast
    then have "row_key r = (o', p)"
      by (simp add: find_mem [OF keys])
    with r show ?thesis
      using settled(1) [OF _ in_rows [OF r(1,2)], of o' p] by (simp add: once)
  next
    case False
    then show ?thesis
      using settled(2) [OF _ not_rows, of ow p] by (auto simp: once split: option.split)
  qed
  moreover have "map_of (db_owners (settle_once now db)) ow \<noteq> None" if "map_of (db_owners db) ow \<noteq> None" for ow
    using settle_rows_owners [OF that] by (simp add: once)
  moreover have "presence_ok (settle_once now db)"
    using lawful_settleDepartures [OF ok] by (simp add: settle_once_def lawful_def)
  ultimately have "settles now o' db (settle_once now db)"
    using o' unfolding settles_def by blast
  then show thesis
    by (rule that)
qed

lemma settles_at: "settles now o' db db' \<Longrightarrow>
    (case find_presence ow p db of
        None \<Rightarrow> find_presence ow p db' = None \<and> place_journal ow p db' = place_journal ow p db
      | Some r \<Rightarrow>
          (if ow = o' \<and> settle_due now r
           then find_presence ow p db' = Some (leave_row (the (pr_leavingAt r)) r) \<and>
                place_journal ow p db' = place_journal ow p db @ [(Departed, the (pr_leavingAt r))]
           else find_presence ow p db' = Some r \<and> place_journal ow p db' = place_journal ow p db))"
  by (simp add: settles_def)

lemma settles_due:
  assumes "settles now o' db db'"
  shows "due_owners now db' = due_owners now db - {o'}"
proof (rule set_eqI)
  fix ow
  have eq: "(\<exists>r. find_presence ow p db' = Some r \<and> settle_due now r) \<longleftrightarrow>
      ow \<noteq> o' \<and> (\<exists>r. find_presence ow p db = Some r \<and> settle_due now r)" for p
    using settles_at [OF assms, of ow p] by (cases "find_presence ow p db") (auto split: if_splits)
  then show "ow \<in> due_owners now db' \<longleftrightarrow> ow \<in> due_owners now db - {o'}"
    by (auto simp: due_owners_def)
qed

lemma settles_keeps:
  assumes "settles now o' db db'" "\<And>ow. ow \<in> due_owners now db \<Longrightarrow> map_of (db_owners db) ow \<noteq> None"
  shows "presence_ok db'" "\<And>ow. ow \<in> due_owners now db' \<Longrightarrow> map_of (db_owners db') ow \<noteq> None"
  using assms unfolding settles_due [OF assms(1)] by (auto simp: settles_def)

lemma settle_once_idle:
  assumes "presence_ok db" "due_owners now db = {}"
  shows "settle_once now db = db"
proof -
  have "filter (settle_due now) (db_presence db) = []"
    using assms by (auto simp: due_owners_def filter_empty_conv presence_ok_def find_mem row_key_def)
  then show ?thesis
    by (simp add: settle_once_def settleDepartures_def)
qed

lemma settled_stays:
  assumes "presence_ok db" "\<And>ow. ow \<in> due_owners now db \<Longrightarrow> map_of (db_owners db) ow \<noteq> None"
    and "find_presence owner pid db = Some r" "\<not> settle_due now r"
  shows "find_presence owner pid ((settle_once now ^^ n) db) = Some r \<and>
    place_journal owner pid ((settle_once now ^^ n) db) = place_journal owner pid db"
  using assms
proof (induction n arbitrary: db)
  case (Suc n)
  show ?case
  proof (cases "due_owners now db = {}")
    case True
    have "find_presence owner pid ((settle_once now ^^ n) db) = Some r \<and>
        place_journal owner pid ((settle_once now ^^ n) db) = place_journal owner pid db"
      by (rule Suc.IH [OF Suc.prems])
    then show ?thesis
      using settle_once_idle [OF Suc.prems(1) True] by (simp add: funpow_swap1)
  next
    case False
    obtain o' where s: "settles now o' db (settle_once now db)"
      using settles_once [OF Suc.prems(1,2) False] by blast
    have "find_presence owner pid (settle_once now db) = Some r"
        "place_journal owner pid (settle_once now db) = place_journal owner pid db"
      using settles_at [OF s, of owner pid] Suc.prems(3,4) by auto
    with Suc.IH [OF settles_keeps [OF s Suc.prems(2)]] Suc.prems(4) show ?thesis
      by (simp add: funpow_swap1)
  qed
qed simp

lemma finite_due: "keys_ok db \<Longrightarrow> finite (due_owners now db)"
proof -
  assume "keys_ok db"
  then have "due_owners now db \<subseteq> pr_owner ` set (db_presence db)"
    by (auto simp: due_owners_def find_mem row_key_def)
  then show ?thesis
    by (rule finite_subset) simp
qed

text \<open>C36: 
  Every confirmed departure that has waited out the window is published: as many calls of the worker as there
  are owners with one suffice, and each is published once, at the time of the exit.
\<close>

theorem departures_settle:
  assumes "presence_ok db" and "\<And>ow. ow \<in> due_owners now db \<Longrightarrow> map_of (db_owners db) ow \<noteq> None"
    and "find_presence owner pid db = Some r" and "settle_due now r" and "card (due_owners now db) \<le> n"
  shows "find_presence owner pid ((settle_once now ^^ n) db) = Some (leave_row (the (pr_leavingAt r)) r) \<and>
    place_journal owner pid ((settle_once now ^^ n) db) = place_journal owner pid db @ [(Departed, the (pr_leavingAt r))]"
  using assms
proof (induction n arbitrary: db)
  case 0
  then have "owner \<in> due_owners now db" "finite (due_owners now db)"
    using finite_due [of db now] by (auto simp: due_owners_def presence_ok_def)
  with "0.prems"(5) show ?case
    by auto
next
  case (Suc n)
  have mine: "owner \<in> due_owners now db" and fin: "finite (due_owners now db)"
    using Suc.prems finite_due [of db now] by (auto simp: due_owners_def presence_ok_def)
  then obtain o' where s: "settles now o' db (settle_once now db)"
    using settles_once [OF Suc.prems(1,2)] by blast
  note keeps = settles_keeps [OF s Suc.prems(2)]
  show ?case
  proof (cases "o' = owner")
    case True
    then have left: "find_presence owner pid (settle_once now db) = Some (leave_row (the (pr_leavingAt r)) r)"
        "place_journal owner pid (settle_once now db) = place_journal owner pid db @ [(Departed, the (pr_leavingAt r))]"
      using settles_at [OF s, of owner pid] Suc.prems(3,4) by auto
    have "find_presence owner pid ((settle_once now ^^ n) (settle_once now db)) = Some (leave_row (the (pr_leavingAt r)) r) \<and>
        place_journal owner pid ((settle_once now ^^ n) (settle_once now db)) = place_journal owner pid (settle_once now db)"
      using keeps left(1) by (intro settled_stays) auto
    with left show ?thesis
      by (simp add: funpow_swap1)
  next
    case False
    have "card (due_owners now (settle_once now db)) \<le> n"
      using s fin Suc.prems(5) by (simp add: settles_due [OF s] settles_def card_Diff_singleton)
    moreover have "find_presence owner pid (settle_once now db) = Some r"
        "place_journal owner pid (settle_once now db) = place_journal owner pid db"
      using settles_at [OF s, of owner pid] Suc.prems(3,4) False by auto
    ultimately have "find_presence owner pid ((settle_once now ^^ n) (settle_once now db)) = Some (leave_row (the (pr_leavingAt r)) r) \<and>
        place_journal owner pid ((settle_once now ^^ n) (settle_once now db)) =
          place_journal owner pid db @ [(Departed, the (pr_leavingAt r))]"
      using Suc.IH [of "settle_once now db"] keeps Suc.prems(4) by auto
    then show ?thesis
      by (simp add: funpow_swap1)
  qed
qed

section \<open>Sample states\<close>

definition sample_env :: place_env where
  "sample_env = \<lparr>env_dateParse = (\<lambda>_. NaN), env_jsonbText = (\<lambda>_. [])\<rparr>"

text \<open>A stay that began at 0, and the same with an exit waiting since 1000.\<close>

definition stay_row :: presence_row where
  "stay_row = enter_row 0 None (new_presence ''u'' ''p'' 0)"

definition sample_db :: "presence_row \<Rightarrow> place_db" where
  "sample_db r = \<lparr>db_places = [], db_presence = [r], db_presenceEvents = [], db_owners = [(''u'', 0)], db_domains = [],
     db_rawEvents = [], db_visits = [], db_ulid = show_nat, db_used = 0\<rparr>"

definition leaving_stay :: presence_row where
  "leaving_stay = stay_row\<lparr>pr_leavingAt := Some 1000, pr_leavingConfirmed := True\<rparr>"

lemmas sample_rows = stay_row_def leaving_stay_def enter_row_def new_presence_def

lemma sample_find [simp]: "find_presence ow p (sample_db r) = (if pr_owner r = ow \<and> pr_placeId r = p then Some r else None)"
  by (simp add: find_presence_def sample_db_def)

lemma sample_ok [simp]: "presence_ok (sample_db r) = presence_row_ok r" "publications_ok (sample_db r)"
  by (simp_all add: presence_ok_def keys_ok_def sample_db_def publications_ok_def)

lemma sample_row_ok [simp]: "presence_row_ok stay_row" "presence_row_ok leaving_stay"
  by (simp_all add: sample_rows presence_row_ok_def)

lemma sample_settle_run:
  "(presence_step sample_env ''u'' ''p'')\<^sup>*\<^sup>* (sample_db leaving_stay) (settle_once 200000 (sample_db leaving_stay))"
  unfolding settle_once_def by (intro r_into_rtranclp presence_step.settle)

theorem presence_follows_journal_witness:
  "\<exists>es. place_journal ''u'' ''p'' (settle_once 200000 (sample_db leaving_stay)) =
        place_journal ''u'' ''p'' (sample_db leaving_stay) @ es \<and>
      history (standing ''u'' ''p'' (sample_db leaving_stay)) [] es
        (standing ''u'' ''p'' (settle_once 200000 (sample_db leaving_stay)))"
  using presence_follows_journal [OF presence_run.usual [OF sample_settle_run]] by simp

theorem presence_rows_kept_witness:
  "(presence_step sample_env ''u'' ''p'')\<^sup>*\<^sup>* (sample_db leaving_stay) (settle_once 200000 (sample_db leaving_stay)) \<and>
   presence_ok (sample_db leaving_stay) \<and> publications_ok (sample_db leaving_stay) \<and>
   presence_ok (settle_once 200000 (sample_db leaving_stay)) \<and> publications_ok (settle_once 200000 (sample_db leaving_stay))"
  using sample_settle_run presence_rows_kept [OF sample_settle_run] by simp

theorem reentry_order_irrelevant_witness:
  "place_journal ''u'' ''p'' (apply_changes sample_env ''u'' ''p''
       [plain_change Departed 1000 Region None, plain_change Arrived 500000 Region None] (sample_db stay_row)) =
     place_journal ''u'' ''p'' (apply_changes sample_env ''u'' ''p''
       [plain_change Arrived 500000 Region None, plain_change Departed 1000 Region None] (sample_db stay_row))"
  using reentry_order_irrelevant [of "''u''" "''p''" "sample_db stay_row" stay_row 0 1000 500000 Region Region
      "plain_change Departed 1000 Region None" None "plain_change Arrived 500000 Region None" None sample_env]
  by (simp add: sample_rows)

theorem late_exit_drops_departure_witness:
  "\<exists>r1 r2. find_presence ''u'' ''p'' (apply_changes sample_env ''u'' ''p'' [plain_change Departed 1000 Region None,
       plain_change Arrived 500000 Region None, plain_change Departed 900000 Region None] (sample_db stay_row)) = Some r1 \<and>
     find_presence ''u'' ''p'' (apply_changes sample_env ''u'' ''p'' [plain_change Arrived 500000 Region None,
       plain_change Departed 900000 Region None, plain_change Departed 1000 Region None] (sample_db stay_row)) = Some r2 \<and>
     pr_leavingAt r1 = Some 900000 \<and> pr_leavingAt r2 = None"
  using late_exit_drops_departure [of "''u''" "''p''" "sample_db stay_row" stay_row 0 1000 500000 900000
      "plain_change Departed 1000 Region None" None "plain_change Arrived 500000 Region None" None
      "plain_change Departed 900000 Region None" None sample_env]
  by (auto simp: sample_rows DEPARTURE_SETTLE_MS_def)

definition sample_fix :: fix_reading where
  "sample_fix = \<lparr>fx_latitude = 0, fx_longitude = 0, fx_accuracyM = 5, fx_at = 2000, fx_speedMps = None\<rparr>"

definition sample_place :: place where
  "sample_place = \<lparr>pl_id = ''p'', pl_name = ''Home'', pl_note = None, pl_latitude = 0, pl_longitude = 0, pl_radiusM = 100,
     pl_createdBy = ''user'', pl_geometryChangedAt = 0, pl_deletedAt = None, pl_owner = ''u''\<rparr>"

definition away_row :: presence_row where
  "away_row = new_presence ''u'' ''p'' 0"

theorem one_reading_never_arrives_witness:
  "presence_ok (sample_db away_row) \<and> no_arrival_due ''u'' ''p'' 2000 (sample_db away_row) \<and>
   classifyReading sample_fix sample_place [sample_place] = RInside \<and>
   place_journal ''u'' ''p'' (applyReading sample_env ''u'' sample_fix ''e'' (Some [sample_place]) None (sample_db away_row)) =
     place_journal ''u'' ''p'' (sample_db away_row)"
proof -
  have "presence_ok (sample_db away_row)" "no_arrival_due ''u'' ''p'' 2000 (sample_db away_row)"
    by (simp_all add: away_row_def new_presence_def presence_row_ok_def no_arrival_due_def)
  moreover have "classifyReading sample_fix sample_place [sample_place] = RInside"
    by (simp add: classifyReading_def place_distance_def distanceM_def sample_fix_def sample_place_def FIX_MAX_ACCURACY_M_def)
  ultimately show ?thesis
    using one_reading_never_arrives [of "sample_db away_row" "''u''" "''p''" sample_fix sample_env "''e''" "Some [sample_place]" None]
    by (simp add: sample_fix_def)
qed

lemma sample_due: "due_owners 200000 (sample_db leaving_stay) = {''u''}" "settle_due 200000 leaving_stay"
  by (auto simp: due_owners_def sample_rows settle_due_def DEPARTURE_SETTLE_MS_def)

theorem departures_settle_witness:
  "find_presence ''u'' ''p'' (settle_once 200000 (sample_db leaving_stay)) = Some (leave_row 1000 leaving_stay) \<and>
   place_journal ''u'' ''p'' (settle_once 200000 (sample_db leaving_stay)) = [(Departed, 1000)]"
proof -
  have "map_of (db_owners (sample_db leaving_stay)) ow \<noteq> None" if "ow \<in> due_owners 200000 (sample_db leaving_stay)" for ow
    using that unfolding sample_due by (simp add: sample_db_def)
  from departures_settle [of "sample_db leaving_stay" 200000 "''u''" "''p''" leaving_stay 1, OF _ this]
  show ?thesis
    by (simp add: sample_due) (simp add: sample_rows place_journal_def sample_db_def)
qed

end
