(* ===== verification/PlaceVisits.thy ===== *)
theory PlaceVisits
  imports PlaceRuns
begin

text \<open>
  The place of a visit and the merge of visit reports: the nearest place, the time spent at a place during a
  visit, the order of reports, and the readings that count for one place only.
\<close>

section \<open>The nearest place\<close>

lemma nearest_place_spec:
  assumes "nearest_place v best ps = Some p" and "\<And>b. best = Some b \<Longrightarrow> visitAtPlace v b"
  shows "visitAtPlace v p \<and> p \<in> set ps \<union> set_option best \<and>
    (\<forall>q \<in> set ps \<union> set_option best. visitAtPlace v q \<longrightarrow> visit_distance v p \<le> visit_distance v q)"
  using assms
proof (induction v best ps rule: nearest_place.induct)
  case (2 v best q ps)
  show ?case
  proof (cases "visitAtPlace v q")
    case False
    with "2.IH"(1) "2.prems" show ?thesis
      by auto
  next
    case True
    show ?thesis
    proof (cases best)
      case None
      with True "2.IH"(2) "2.prems" show ?thesis
        by auto
    next
      case (Some b)
      with True "2.IH"(3) "2.prems" show ?thesis
        by (cases "visit_distance v q < visit_distance v b") fastforce+
    qed
  qed
qed auto

lemma nearest_place_None: "nearest_place v best ps = None \<longleftrightarrow> best = None \<and> (\<forall>p \<in> set ps. \<not> visitAtPlace v p)"
  by (induction v best ps rule: nearest_place.induct) (auto split: option.splits)

text \<open>
  The place of a visit, of those its coordinate fits, is a nearest one, and a visit that fits some place has one.
\<close>

theorem visitPlace_nearest:
  "(case visitPlace owned v of
      None \<Rightarrow> filter (visitAtPlace v) owned = []
    | Some p \<Rightarrow> p \<in> set (filter (visitAtPlace v) owned) \<and>
        visit_distance v p = Min (visit_distance v ` set (filter (visitAtPlace v) owned)))"
proof (cases "visitPlace owned v")
  case None
  then have "filter (visitAtPlace v) owned = []"
    by (simp add: visitPlace_def nearest_place_None filter_empty_conv)
  with None show ?thesis
    by simp
next
  case (Some p)
  then have "visitAtPlace v p \<and> p \<in> set owned \<and>
      (\<forall>q \<in> set owned. visitAtPlace v q \<longrightarrow> visit_distance v p \<le> visit_distance v q)"
    using nearest_place_spec [of v None owned p] by (simp add: visitPlace_def)
  with Some show ?thesis
    by (auto intro!: Min_eqI [symmetric])
qed

section \<open>The time at a place\<close>

lemma insert_event_sorted:
  "sorted (map pe_occurredAt fs) \<Longrightarrow> sorted (map pe_occurredAt (insert_event e fs)) \<and> set (insert_event e fs) = insert e (set fs)"
  by (induction fs) (auto simp: event_before_def)

lemma order_events_sorted: "sorted (map pe_occurredAt (order_events es)) \<and> set (order_events es) = set es"
  unfolding order_events_def by (induction es) (simp_all add: insert_event_sorted)

lemma stay_scan_bounds:
  assumes "stay_scan acc since es = (m, since')" and "sorted (map pe_occurredAt es)"
    and "\<And>e. e \<in> set es \<Longrightarrow> lo \<le> pe_occurredAt e \<and> pe_occurredAt e \<le> u" and "lo \<le> u"
    and "0 \<le> acc" "acc \<le> (case since of None \<Rightarrow> lo | Some f \<Rightarrow> f) - start"
    and "\<And>f. since = Some f \<Longrightarrow> start \<le> f \<and> f \<le> lo"
  shows "0 \<le> m \<and> m \<le> (case since' of None \<Rightarrow> u | Some f \<Rightarrow> f) - start \<and> (\<forall>f. since' = Some f \<longrightarrow> start \<le> f \<and> f \<le> u)"
  using assms
proof (induction acc since es arbitrary: lo rule: stay_scan.induct)
  case (1 acc since)
  then show ?case
    by (cases since) auto
next
  case (2 acc since e es)
  have e: "lo \<le> pe_occurredAt e" "pe_occurredAt e \<le> u" "sorted (map pe_occurredAt es)"
      "\<And>x. x \<in> set es \<Longrightarrow> pe_occurredAt e \<le> pe_occurredAt x \<and> pe_occurredAt x \<le> u"
    using "2.prems"(2,3) by auto
  consider (left) "pe_transition e = Departed" | (entered) "pe_transition e \<noteq> Departed" "since = None \<and> pe_source e \<noteq> Visit"
    | (other) "pe_transition e \<noteq> Departed" "\<not> (since = None \<and> pe_source e \<noteq> Visit)"
    by blast
  then show ?case
  proof cases
    case left
    show ?thesis
    proof (rule "2.IH"(1) [OF left])
      show "stay_scan (case since of None \<Rightarrow> acc | Some f \<Rightarrow> acc + (pe_occurredAt e - f)) None es = (m, since')"
        using "2.prems"(1) left by simp
      show "0 \<le> (case since of None \<Rightarrow> acc | Some f \<Rightarrow> acc + (pe_occurredAt e - f))"
        "(case since of None \<Rightarrow> acc | Some f \<Rightarrow> acc + (pe_occurredAt e - f)) \<le>
           (case None of None \<Rightarrow> pe_occurredAt e | Some f \<Rightarrow> f) - start"
        using "2.prems"(5,6,7) e by (auto split: option.splits)
    qed (use e in auto)
  next
    case entered
    show ?thesis
    proof (rule "2.IH"(2) [OF entered])
      show "stay_scan acc (Some (pe_occurredAt e)) es = (m, since')"
        using "2.prems"(1) entered by simp
      show "acc \<le> (case Some (pe_occurredAt e) of None \<Rightarrow> pe_occurredAt e | Some f \<Rightarrow> f) - start"
        using "2.prems"(5,6) entered e by auto
      show "start \<le> f \<and> f \<le> pe_occurredAt e" if "Some (pe_occurredAt e) = Some f" for f
        using that "2.prems"(5,6) entered e by auto
    qed (use e "2.prems" in auto)
  next
    case other
    show ?thesis
    proof (rule "2.IH"(3) [OF other])
      show "stay_scan acc since es = (m, since')"
        using "2.prems"(1) other by auto
      show "acc \<le> (case since of None \<Rightarrow> pe_occurredAt e | Some f \<Rightarrow> f) - start"
        using "2.prems"(6) e by (auto split: option.splits)
      show "start \<le> f \<and> f \<le> pe_occurredAt e" if "since = Some f" for f
        using "2.prems"(7) [OF that] e by auto
    qed (use e "2.prems" in auto)
  qed
qed

text \<open>
  The time that presence had the owner at a place during a visit is neither negative nor longer than the visit,
  whatever the journal holds.
\<close>

theorem presenceDuringMs_bounds:
  assumes "start \<le> u"
  shows "0 \<le> presenceDuringMs owner pid start (Some u) now db \<and>
    presenceDuringMs owner pid start (Some u) now db \<le> u - start"
proof -
  define mine where "mine = filter (\<lambda>e. pe_owner e = owner \<and> pe_placeId e = pid) (db_presenceEvents db)"
  define before where "before = order_events (filter (\<lambda>e. pe_occurredAt e < start) mine)"
  define during where "during = order_events (filter (\<lambda>e. start \<le> pe_occurredAt e \<and> pe_occurredAt e < u) mine)"
  define since where "since = (if before \<noteq> [] \<and> pe_transition (last before) = Arrived \<and> pe_source (last before) \<noteq> Visit
    then Some start else None)"
  obtain m since' where scan: "stay_scan 0 since during = (m, since')"
    by fastforce
  have "presenceDuringMs owner pid start (Some u) now db = (case since' of None \<Rightarrow> m | Some f \<Rightarrow> m + u - f)"
    using scan by (simp add: presenceDuringMs_def Let_def mine_def before_def during_def since_def split: option.split)
  moreover have "0 \<le> m \<and> m \<le> (case since' of None \<Rightarrow> u | Some f \<Rightarrow> f) - start \<and> (\<forall>f. since' = Some f \<longrightarrow> start \<le> f \<and> f \<le> u)"
    using assms order_events_sorted
    by (intro stay_scan_bounds [OF scan, of start u start]) (auto simp: during_def since_def split: if_splits)
  ultimately show ?thesis
    by (cases since') auto
qed

theorem presenceDuringMs_bounds_witness:
  "(0 :: int) \<le> 5000 \<and> 0 \<le> presenceDuringMs ''u'' ''p'' 0 (Some 5000) 0 (settle_once 200000 (sample_db leaving_stay)) \<and>
   presenceDuringMs ''u'' ''p'' 0 (Some 5000) 0 (settle_once 200000 (sample_db leaving_stay)) \<le> 5000"
  using presenceDuringMs_bounds [of 0 5000 "''u''" "''p''" 0 "settle_once 200000 (sample_db leaving_stay)"] by simp

section \<open>Merging visit reports\<close>

lemma opt_least_assoc: "opt_least (opt_least a b) c = opt_least (opt_least a c) b"
  by (cases a; cases b; cases c) (auto simp: opt_least_def)

lemma opt_greatest_assoc: "opt_greatest (opt_greatest a b) c = opt_greatest (opt_greatest a c) b"
  by (cases a; cases b; cases c) (auto simp: opt_greatest_def)

lemma merge_visit_fields:
  "lv_arrivalAt (merge_visit v a) = opt_least (lv_arrivalAt v) (lv_arrivalAt a)"
  "lv_departureAt (merge_visit v a) = opt_greatest (lv_departureAt v) (lv_departureAt a)"
  "lv_startedAt (merge_visit v a) =
     (case opt_least (lv_arrivalAt v) (lv_arrivalAt a) of None \<Rightarrow> lv_startedAt v | Some t \<Rightarrow> t)"
  "lv_receivedAt (merge_visit v a) = max (lv_receivedAt v) (lv_receivedAt a)"
  by (simp_all add: merge_visit_def Let_def)

text \<open>The times of a visit do not depend on the order in which its later reports are merged.\<close>

lemma merge_visit_times_commute:
  "lv_arrivalAt (merge_visit (merge_visit v a) b) = lv_arrivalAt (merge_visit (merge_visit v b) a)"
  "lv_departureAt (merge_visit (merge_visit v a) b) = lv_departureAt (merge_visit (merge_visit v b) a)"
  "lv_startedAt (merge_visit (merge_visit v a) b) = lv_startedAt (merge_visit (merge_visit v b) a)"
  "lv_receivedAt (merge_visit (merge_visit v a) b) = lv_receivedAt (merge_visit (merge_visit v b) a)"
proof -
  show "lv_startedAt (merge_visit (merge_visit v a) b) = lv_startedAt (merge_visit (merge_visit v b) a)"
    by (cases "lv_arrivalAt v"; cases "lv_arrivalAt a"; cases "lv_arrivalAt b") (auto simp: merge_visit_fields opt_least_def)
qed (auto simp: merge_visit_fields opt_least_assoc opt_greatest_assoc)

section \<open>One reading, one place\<close>

text \<open>A reading that is definitely inside two places is equally far from both.\<close>

lemma inside_two_places:
  assumes "classifyReading fx p owned = RInside" "classifyReading fx q owned = RInside"
    and "p \<in> set owned" "q \<in> set owned" "pl_id p \<noteq> pl_id q" "0 \<le> fx_accuracyM fx"
  shows "place_distance fx p = place_distance fx q"
proof (rule ccontr)
  assume "place_distance fx p \<noteq> place_distance fx q"
  then consider "place_distance fx p < place_distance fx q" | "place_distance fx q < place_distance fx p"
    by linarith
  then show False
    using assms by cases (auto simp: classifyReading_def Let_def list_ex_iff split: if_splits)
qed

end
