(* ===== verification/TerminalGrid.thy ===== *)
theory TerminalGrid
  imports Questions
begin

text \<open>
  The grid renderer of the terminal pane: the reducer over \<open>terminal.grid\<close> frames
  (\<open>web/src/features/threads/terminal-grid-state.ts\<close>), its colours, and the viewer counts with which the
  service turns the daemon's frames on and off (\<open>service/src/runtime/terminal-session-manager.ts\<close>).
\<close>

section \<open>Rows\<close>

datatype grid_color = Palette int | Rgb int int int

record grid_run =
  gr_t :: string
  gr_fg :: "grid_color option"
  gr_bg :: "grid_color option"
  gr_a :: "nat option"

type_synonym grid_row = "grid_run list"

fun colorEqual :: "grid_color option \<Rightarrow> grid_color option \<Rightarrow> bool" where
  "colorEqual None None = True"
| "colorEqual (Some (Palette m)) (Some (Palette n)) = (m = n)"
| "colorEqual (Some (Rgb r g b)) (Some (Rgb r' g' b')) = (r = r' \<and> g = g' \<and> b = b')"
| "colorEqual _ _ = False"

definition runs_equal :: "grid_run \<Rightarrow> grid_run \<Rightarrow> bool" where
  "runs_equal ra rb \<longleftrightarrow>
     \<not> (gr_t ra \<noteq> gr_t rb \<or> (case gr_a ra of None \<Rightarrow> 0 | Some a \<Rightarrow> a) \<noteq> (case gr_a rb of None \<Rightarrow> 0 | Some a \<Rightarrow> a) \<or>
        \<not> colorEqual (gr_fg ra) (gr_fg rb) \<or> \<not> colorEqual (gr_bg ra) (gr_bg rb))"

definition gridRowsEqual :: "grid_row \<Rightarrow> grid_row \<Rightarrow> bool" where
  "gridRowsEqual a b \<longleftrightarrow> a = b \<or> length a = length b \<and> list_all (\<lambda>(ra, rb). runs_equal ra rb) (zip a b)"

definition gridRowText :: "grid_row \<Rightarrow> string" where
  "gridRowText runs = concat (map gr_t runs)"

section \<open>Frames and the state of the client\<close>

datatype cursor_shape = CursorBlock | CursorUnderline | CursorBeam

record grid_cursor =
  gc_row :: nat
  gc_col :: nat
  gc_visible :: bool
  gc_shape :: "cursor_shape option"
  gc_blink :: "bool option"

datatype mouse_report = ReportNone | ReportClick | ReportDrag | ReportMotion

record mouse_modes =
  mm_report :: mouse_report
  mm_sgr :: bool
  mm_altScroll :: bool

record grid_frame =
  gf_generation :: nat
  gf_full :: bool
  gf_cols :: nat
  gf_rows :: nat
  gf_alt_screen :: bool
  gf_cursor :: grid_cursor
  gf_dirty_rows :: "(int \<times> grid_row) list"
  gf_scrollback_push :: "grid_row list"
  gf_scrollback_dropped :: nat
  gf_predict_ok :: "bool option"
  gf_applied_input_seq :: "nat option"
  gf_mouse :: "mouse_modes option"
  gf_app_cursor :: "bool option"
  gf_row_shift :: "int option"

record grid_state =
  gs_seeded :: bool
  gs_generation :: nat
  gs_cols :: nat
  gs_rows :: nat
  gs_altScreen :: bool
  gs_cursor :: grid_cursor
  gs_grid :: "grid_row list"
  gs_scrollback :: "grid_row list"
  gs_scrollbackStart :: nat
  gs_scrollbackDropped :: nat
  gs_predictOk :: bool
  gs_appliedInputSeq :: "nat option"
  gs_mouse :: mouse_modes
  gs_appCursor :: bool

definition GRID_SCROLLBACK_CAP :: nat where
  "GRID_SCROLLBACK_CAP = 5000"

definition emptyGridState :: grid_state where
  "emptyGridState =
     \<lparr>gs_seeded = False, gs_generation = 0, gs_cols = 0, gs_rows = 0, gs_altScreen = False,
      gs_cursor = \<lparr>gc_row = 0, gc_col = 0, gc_visible = True, gc_shape = None, gc_blink = None\<rparr>,
      gs_grid = [], gs_scrollback = [], gs_scrollbackStart = 0, gs_scrollbackDropped = 0,
      gs_predictOk = False, gs_appliedInputSeq = None,
      gs_mouse = \<lparr>mm_report = ReportNone, mm_sgr = False, mm_altScroll = True\<rparr>, gs_appCursor = False\<rparr>"

section \<open>Applying a frame\<close>

definition frame_contiguous :: "grid_state \<Rightarrow> grid_frame \<Rightarrow> bool" where
  "frame_contiguous s f \<longleftrightarrow>
     gs_seeded s \<and> gf_generation f = gs_generation s + 1 \<and> gf_cols f = gs_cols s \<and> gf_rows f = gs_rows s"

text \<open>The rows the dirty rows are painted on: those of the state where the geometry agrees, shifted by a scroll
  hint (an absent or zero hint is falsy).\<close>

definition base_grid :: "grid_state \<Rightarrow> grid_frame \<Rightarrow> grid_row list" where
  "base_grid s f =
     (if gf_full f
      then map (\<lambda>i. if gs_rows s = gf_rows f \<and> gs_cols s = gf_cols f
                    then (if i < length (gs_grid s) then gs_grid s ! i else []) else []) [0..<gf_rows f]
      else case gf_row_shift f of
             Some shift \<Rightarrow>
               if shift \<noteq> 0
               then map (\<lambda>i. let src = int i + shift
                             in if 0 \<le> src \<and> src < int (length (gs_grid s)) then gs_grid s ! nat src else [])
                      [0..<gf_rows f]
               else gs_grid s
           | None \<Rightarrow> gs_grid s)"

text \<open>\<open>grid[i] = row\<close>.  Past the end an array grows; \<open>grid_wf\<close> below keeps the array as long as the frame has
  rows, so that this does not happen.\<close>

definition assign_row :: "nat \<Rightarrow> grid_row \<Rightarrow> grid_row list \<Rightarrow> grid_row list" where
  "assign_row i row g =
     (if i < length g then g[i := row] else g @ replicate (i - length g) [] @ [row])"

definition paint_row :: "nat \<Rightarrow> int \<times> grid_row \<Rightarrow> grid_row list \<Rightarrow> grid_row list" where
  "paint_row rows d g =
     (case d of (row, runs) \<Rightarrow>
        if 0 \<le> row \<and> row < int rows
        then assign_row (nat row)
               (if nat row < length g \<and> gridRowsEqual (g ! nat row) runs then g ! nat row else runs) g
        else g)"

definition push_scrollback :: "grid_row list \<Rightarrow> grid_row list \<times> nat \<Rightarrow> grid_row list \<times> nat" where
  "push_scrollback pushed sb =
     (case sb of (scrollback, start) \<Rightarrow>
        if pushed = [] then (scrollback, start)
        else let all_rows = scrollback @ pushed;
                 excess = length all_rows - GRID_SCROLLBACK_CAP
             in if length all_rows > GRID_SCROLLBACK_CAP then (drop excess all_rows, start + excess)
                else (all_rows, start))"

definition applyGridFrame :: "grid_state \<Rightarrow> grid_frame \<Rightarrow> grid_state \<times> bool" where
  "applyGridFrame s f =
     (if \<not> gf_full f \<and> \<not> frame_contiguous s f then (s, True)
      else let grid = fold (paint_row (gf_rows f)) (gf_dirty_rows f) (base_grid s f);
               sb = push_scrollback (gf_scrollback_push f) (gs_scrollback s, gs_scrollbackStart s);
               dropped = gs_scrollbackDropped s + gf_scrollback_dropped f;
               seam = gf_full f \<and> gs_seeded s \<and> gf_generation f \<noteq> gs_generation s + 1
           in (\<lparr>gs_seeded = True, gs_generation = gf_generation f, gs_cols = gf_cols f, gs_rows = gf_rows f,
                gs_altScreen = gf_alt_screen f, gs_cursor = gf_cursor f, gs_grid = grid,
                gs_scrollback = fst sb, gs_scrollbackStart = snd sb,
                gs_scrollbackDropped = (if seam then dropped + 1 else dropped),
                gs_predictOk = (case gf_predict_ok f of None \<Rightarrow> False | Some b \<Rightarrow> b),
                gs_appliedInputSeq =
                  (case gf_applied_input_seq f of
                     None \<Rightarrow> gs_appliedInputSeq s
                   | Some n \<Rightarrow> Some (max n (case gs_appliedInputSeq s of None \<Rightarrow> 0 | Some m \<Rightarrow> m))),
                gs_mouse = (case gf_mouse f of None \<Rightarrow> gs_mouse s | Some m \<Rightarrow> m),
                gs_appCursor = (case gf_app_cursor f of None \<Rightarrow> gs_appCursor s | Some b \<Rightarrow> b)\<rparr>, False))"

section \<open>Seeding the scrollback\<close>

fun split_lines :: "string \<Rightarrow> string list" where
  "split_lines [] = [[]]"
| "split_lines (c # s) =
     (if c = CHR 0x0A then [] # split_lines s
      else case split_lines s of [] \<Rightarrow> [[c]] | l # ls \<Rightarrow> (c # l) # ls)"

definition text_row :: "string \<Rightarrow> grid_row" where
  "text_row line = (if line \<noteq> [] then [\<lparr>gr_t = line, gr_fg = None, gr_bg = None, gr_a = None\<rparr>] else [])"

definition seedGridScrollback :: "grid_state \<Rightarrow> string \<Rightarrow> grid_state" where
  "seedGridScrollback s historyText =
     (if historyText = [] then s\<lparr>gs_scrollback := [], gs_scrollbackStart := 0\<rparr>
      else let scrollback = map text_row (split_lines historyText)
           in s\<lparr>gs_scrollback := drop (length scrollback - GRID_SCROLLBACK_CAP) scrollback,
                gs_scrollbackStart := 0\<rparr>)"

section \<open>Colours\<close>

definition ANSI_16 :: "string list" where
  "ANSI_16 =
     [''#000000'', ''#cd3131'', ''#0dbc79'', ''#e5e510'', ''#2472c8'', ''#bc3fbc'', ''#11a8cd'', ''#e5e5e5'',
      ''#666666'', ''#f14c4c'', ''#23d18b'', ''#f5f543'', ''#3b8eea'', ''#d670d6'', ''#29b8db'', ''#ffffff'']"

definition css_rgb :: "int \<Rightarrow> int \<Rightarrow> int \<Rightarrow> string" where
  "css_rgb r g b = ''rgb('' @ show_int r @ '', '' @ show_int g @ '', '' @ show_int b @ '')''"

definition cube_level :: "int \<Rightarrow> int" where
  "cube_level n = [0, 95, 135, 175, 215, 255] ! nat (n mod 6)"

definition gridColorToCss :: "grid_color option \<Rightarrow> string \<Rightarrow> string" where
  "gridColorToCss color fallback =
     (case color of
        None \<Rightarrow> fallback
      | Some (Rgb r g b) \<Rightarrow> css_rgb r g b
      | Some (Palette n) \<Rightarrow>
          if n < 16 then (if 0 \<le> n then ANSI_16 ! nat n else fallback)
          else if n < 232
          then let index = n - 16
               in css_rgb (cube_level (index div 36)) (cube_level (index div 6)) (cube_level index)
          else if n < 256 then let v = 8 + (n - 232) * 10 in css_rgb v v v
          else fallback)"

section \<open>The viewers of a session\<close>

text \<open>
  The counts of \<open>TerminalSessionManager\<close> change at once; the frame that follows is sent only when the row of the
  session has been read, so each change leaves a task that sends it.  The tasks of several calls may end in any
  order.  \<open>gh_sent\<close> holds the frames handed to the daemon, the newest first.
\<close>

record grid_hub =
  gh_counts :: "string \<Rightarrow> nat option"
  gh_tasks :: "(string \<times> bool) list"
  gh_sent :: "(string \<times> bool) list"

definition hasGridViewers :: "grid_hub \<Rightarrow> string \<Rightarrow> bool" where
  "hasGridViewers h sid \<longleftrightarrow> (case gh_counts h sid of None \<Rightarrow> 0 | Some n \<Rightarrow> n) > 0"

definition sendGridWatch :: "string \<Rightarrow> bool \<Rightarrow> grid_hub \<Rightarrow> grid_hub" where
  "sendGridWatch sid enabled h = h\<lparr>gh_tasks := gh_tasks h @ [(sid, enabled)]\<rparr>"

definition addGridViewer :: "string \<Rightarrow> grid_hub \<Rightarrow> grid_hub" where
  "addGridViewer sid h =
     (let next_count = (case gh_counts h sid of None \<Rightarrow> 0 | Some n \<Rightarrow> n) + 1
      in sendGridWatch sid True (h\<lparr>gh_counts := (gh_counts h)(sid \<mapsto> next_count)\<rparr>))"

definition removeGridViewer :: "string \<Rightarrow> grid_hub \<Rightarrow> grid_hub" where
  "removeGridViewer sid h =
     (let current = (case gh_counts h sid of None \<Rightarrow> 0 | Some n \<Rightarrow> n)
      in if current \<le> 1
         then let h1 = h\<lparr>gh_counts := (gh_counts h)(sid := None)\<rparr>
              in if current = 1 then sendGridWatch sid False h1 else h1
         else h\<lparr>gh_counts := (gh_counts h)(sid \<mapsto> current - 1)\<rparr>)"

text \<open>The end of \<open>handleTerminalStatusInner\<close>: a fresh attachment has no watch state.\<close>

definition status_rearms :: "string \<Rightarrow> string \<Rightarrow> grid_hub \<Rightarrow> grid_hub" where
  "status_rearms sid state h =
     (if state = ''ready'' \<and> hasGridViewers h sid then sendGridWatch sid True h else h)"

text \<open>Task number \<open>i\<close> has read the session; \<open>known\<close> tells whether there is one and \<open>online\<close> whether the bud
  took the frame.\<close>

definition watch_task :: "(string \<Rightarrow> bool) \<Rightarrow> bool \<Rightarrow> nat \<Rightarrow> grid_hub \<Rightarrow> grid_hub" where
  "watch_task known online i h =
     (if i < length (gh_tasks h)
      then let t = gh_tasks h ! i;
               h1 = h\<lparr>gh_tasks := take i (gh_tasks h) @ drop (Suc i) (gh_tasks h)\<rparr>
           in if known (fst t) \<and> online then h1\<lparr>gh_sent := t # gh_sent h1\<rparr> else h1
      else h)"

end
