(* ===== verification/TerminalGridProps.thy ===== *)
theory TerminalGridProps
  imports TerminalGrid
begin

text \<open>
  What the grid renderer shows.  The daemon numbers the screens of an attachment; a frame is an honest account of
  one of them (\<open>frame_describes\<close>, the contract of section 6.8.2 of the protocol).  Whatever frames reach the
  client, in whatever order, a seeded client shows the screen of its generation; the scrollback is the newest
  part of the lines pushed; and the watch of the daemon follows the viewers if the sends end in their order.
\<close>

section \<open>Rows as they look\<close>

definition run_view :: "grid_run \<Rightarrow> string \<times> grid_color option \<times> grid_color option \<times> nat" where
  "run_view r = (gr_t r, gr_fg r, gr_bg r, case gr_a r of None \<Rightarrow> 0 | Some a \<Rightarrow> a)"

definition row_view :: "grid_row \<Rightarrow> (string \<times> grid_color option \<times> grid_color option \<times> nat) list" where
  "row_view row = map run_view row"

lemma colorEqual_iff [simp]: "colorEqual a b \<longleftrightarrow> a = b"
  by (cases "(a, b)" rule: colorEqual.cases) auto

lemma runs_equal_iff: "runs_equal a b \<longleftrightarrow> run_view a = run_view b"
  by (auto simp: runs_equal_def run_view_def)

lemma gridRowsEqual_iff: "gridRowsEqual a b \<longleftrightarrow> row_view a = row_view b"
proof -
  have "length a = length b \<Longrightarrow> list_all (\<lambda>(x, y). runs_equal x y) (zip a b) \<longleftrightarrow> map run_view a = map run_view b"
    by (induction a b rule: list_induct2) (auto simp: runs_equal_iff)
  then show ?thesis
    unfolding gridRowsEqual_def row_view_def by (metis length_map)
qed

section \<open>Painting\<close>

text \<open>What the dirty rows of a frame say of a row: the last one that names it counts.\<close>

definition dirty_at :: "grid_frame \<Rightarrow> nat \<Rightarrow> grid_row option" where
  "dirty_at f i = map_of (rev (gf_dirty_rows f)) (int i)"

lemma assign_row_inside [simp]: "i < length g \<Longrightarrow> assign_row i row g = g[i := row]"
  by (simp add: assign_row_def)

lemma paint_row_length [simp]: "length g = rows \<Longrightarrow> length (paint_row rows d g) = rows"
  by (auto simp: paint_row_def split: prod.splits)

lemma paint_length [simp]: "length g = rows \<Longrightarrow> length (fold (paint_row rows) ds g) = rows"
  by (induction ds arbitrary: g) auto

lemma paint_row_view:
  assumes "length g = rows" "i < rows"
  shows "row_view (paint_row rows d g ! i) = (if fst d = int i then row_view (snd d) else row_view (g ! i))"
  using assms
  by (cases d) (auto simp: paint_row_def gridRowsEqual_iff nth_list_update split: if_splits)

lemma paint_view:
  assumes "length g = rows" "i < rows"
  shows "row_view (fold (paint_row rows) ds g ! i) =
           (case map_of (rev ds) (int i) of Some r \<Rightarrow> row_view r | None \<Rightarrow> row_view (g ! i))"
  using assms
proof (induction ds rule: rev_induct)
  case (snoc d ds)
  then show ?case
    by (cases d) (auto simp: paint_row_view)
qed simp

section \<open>Well-formed states\<close>

definition grid_wf :: "grid_state \<Rightarrow> bool" where
  "grid_wf s \<longleftrightarrow> length (gs_grid s) = gs_rows s \<and> length (gs_scrollback s) \<le> GRID_SCROLLBACK_CAP"

lemma emptyGridState_wf [simp]: "grid_wf emptyGridState"
  by (simp add: grid_wf_def emptyGridState_def)

lemma base_grid_length:
  "grid_wf s \<Longrightarrow> gf_full f \<or> frame_contiguous s f \<Longrightarrow> length (base_grid s f) = gf_rows f"
  by (auto simp: base_grid_def grid_wf_def frame_contiguous_def split: option.splits)

lemma push_scrollback_bounded:
  "length sb \<le> GRID_SCROLLBACK_CAP \<Longrightarrow> length (fst (push_scrollback p (sb, start))) \<le> GRID_SCROLLBACK_CAP"
  by (auto simp: push_scrollback_def Let_def)

lemma applyGridFrame_wf: "grid_wf s \<Longrightarrow> grid_wf (fst (applyGridFrame s f))"
  using base_grid_length [of s f] push_scrollback_bounded
  by (auto simp: grid_wf_def applyGridFrame_def Let_def)

lemma seedGridScrollback_wf: "grid_wf s \<Longrightarrow> grid_wf (seedGridScrollback s t)"
  by (auto simp: grid_wf_def seedGridScrollback_def Let_def)

section \<open>The screens of an attachment\<close>

record grid_screen =
  scr_cols :: nat
  scr_rows :: nat
  scr_alt :: bool
  scr_cursor :: grid_cursor
  scr_lines :: "grid_row list"

text \<open>A frame describes screen number \<open>gf_generation f\<close>: a full frame names every row; a delta names every row
  that the shift of the screen before does not explain.\<close>

definition shifted_row :: "grid_frame \<Rightarrow> grid_screen \<Rightarrow> nat \<Rightarrow> grid_row option" where
  "shifted_row f sc i =
     (let src = int i + (case gf_row_shift f of None \<Rightarrow> 0 | Some n \<Rightarrow> n)
      in if 0 \<le> src \<and> src < int (scr_rows sc) then Some (scr_lines sc ! nat src) else None)"

definition row_explained :: "(nat \<Rightarrow> grid_screen) \<Rightarrow> grid_frame \<Rightarrow> nat \<Rightarrow> bool" where
  "row_explained screens f i \<longleftrightarrow>
     (let shown = row_view (scr_lines (screens (gf_generation f)) ! i)
      in case dirty_at f i of
           Some r \<Rightarrow> row_view r = shown
         | None \<Rightarrow> \<not> gf_full f \<and> map_option row_view (shifted_row f (screens (gf_generation f - 1)) i) = Some shown)"

definition frame_describes :: "(nat \<Rightarrow> grid_screen) \<Rightarrow> grid_frame \<Rightarrow> bool" where
  "frame_describes screens f \<longleftrightarrow>
     (let now = screens (gf_generation f)
      in length (scr_lines now) = scr_rows now \<and> gf_cols f = scr_cols now \<and> gf_rows f = scr_rows now \<and>
         gf_alt_screen f = scr_alt now \<and> gf_cursor f = scr_cursor now \<and>
         list_all (row_explained screens f) [0..<scr_rows now])"

definition shows_screen :: "grid_state \<Rightarrow> grid_screen \<Rightarrow> bool" where
  "shows_screen s sc \<longleftrightarrow>
     gs_cols s = scr_cols sc \<and> gs_rows s = scr_rows sc \<and> gs_altScreen s = scr_alt sc \<and> gs_cursor s = scr_cursor sc \<and>
     map row_view (gs_grid s) = map row_view (scr_lines sc)"

lemma frame_describes_row: "frame_describes screens f \<Longrightarrow> i < gf_rows f \<Longrightarrow> row_explained screens f i"
  by (simp add: frame_describes_def Let_def list_all_iff)

lemma frame_describes_geometry:
  assumes "frame_describes screens f"
  shows "length (scr_lines (screens (gf_generation f))) = gf_rows f"
    "gf_cols f = scr_cols (screens (gf_generation f))" "gf_rows f = scr_rows (screens (gf_generation f))"
    "gf_alt_screen f = scr_alt (screens (gf_generation f))" "gf_cursor f = scr_cursor (screens (gf_generation f))"
  using assms by (simp_all add: frame_describes_def Let_def)

lemma base_row_delta:
  assumes "grid_wf s" "frame_contiguous s f" "shows_screen s before" "\<not> gf_full f" "i < gf_rows f"
    "map_option row_view (shifted_row f before i) = Some v"
  shows "row_view (base_grid s f ! i) = v"
proof -
  from assms have geo: "length (gs_grid s) = gf_rows f" "scr_rows before = gf_rows f"
    by (auto simp: grid_wf_def frame_contiguous_def shows_screen_def)
  have row: "row_view (gs_grid s ! j) = row_view (scr_lines before ! j)" if "j < gf_rows f" for j
  proof -
    have "map row_view (gs_grid s) ! j = map row_view (scr_lines before) ! j"
      using assms(3) by (simp add: shows_screen_def)
    moreover have "j < length (scr_lines before)"
      using assms(3) geo that by (metis length_map shows_screen_def)
    ultimately show ?thesis
      using that geo by simp
  qed
  from assms(4-6) geo row show ?thesis
    by (auto simp: base_grid_def shifted_row_def Let_def split: option.splits if_splits)
qed

lemma described_frame_shown:
  assumes "grid_wf s" "frame_describes screens f" "gf_full f \<or> frame_contiguous s f \<and> shows_screen s (screens (gs_generation s))"
  shows "shows_screen (fst (applyGridFrame s f)) (screens (gf_generation f))"
proof -
  let ?g = "base_grid s f" and ?lines = "scr_lines (screens (gf_generation f))"
  from assms have app: "gf_full f \<or> frame_contiguous s f"
    by blast
  then have len: "length ?g = gf_rows f"
    using base_grid_length assms(1) by blast
  have "row_view (fold (paint_row (gf_rows f)) (gf_dirty_rows f) ?g ! i) = row_view (?lines ! i)" if i: "i < gf_rows f" for i
  proof (cases "dirty_at f i")
    case None
    from frame_describes_row [OF assms(2) i] None
    have delta: "\<not> gf_full f" and src: "map_option row_view (shifted_row f (screens (gf_generation f - 1)) i) = Some (row_view (?lines ! i))"
      by (simp_all add: row_explained_def)
    from delta assms(3) have "frame_contiguous s f" "shows_screen s (screens (gf_generation f - 1))"
      by (auto simp: frame_contiguous_def)
    from base_row_delta [OF assms(1) this delta i src] None show ?thesis
      using paint_view [OF len i] by (simp add: dirty_at_def)
  next
    case (Some r)
    with frame_describes_row [OF assms(2) i] show ?thesis
      using paint_view [OF len i] by (simp add: dirty_at_def row_explained_def)
  qed
  then have "map row_view (fold (paint_row (gf_rows f)) (gf_dirty_rows f) ?g) = map row_view ?lines"
    using len frame_describes_geometry(1) [OF assms(2)] by (auto intro!: nth_equalityI)
  with app frame_describes_geometry(2-5) [OF assms(2)] show ?thesis
    by (auto simp: shows_screen_def applyGridFrame_def Let_def)
qed

section \<open>Runs of the client\<close>

text \<open>What changes the grid of a pane: a frame, a snapshot, which seeds the scrollback, and a switch of thread.\<close>

datatype grid_event = GotFrame grid_frame | GotSnapshot string | ThreadSwitched

fun grid_step :: "grid_event \<Rightarrow> grid_state \<Rightarrow> grid_state" where
  "grid_step (GotFrame f) s = fst (applyGridFrame s f)"
| "grid_step (GotSnapshot history) s = seedGridScrollback s history"
| "grid_step ThreadSwitched s = emptyGridState"

fun event_describes :: "(nat \<Rightarrow> grid_screen) \<Rightarrow> grid_event \<Rightarrow> bool" where
  "event_describes screens (GotFrame f) = frame_describes screens f"
| "event_describes screens _ = True"

definition grid_ok :: "(nat \<Rightarrow> grid_screen) \<Rightarrow> grid_state \<Rightarrow> bool" where
  "grid_ok screens s \<longleftrightarrow> grid_wf s \<and> (gs_seeded s \<longrightarrow> shows_screen s (screens (gs_generation s)))"

lemma seedGridScrollback_screen [simp]:
  "gs_seeded (seedGridScrollback s t) = gs_seeded s" "gs_generation (seedGridScrollback s t) = gs_generation s"
  "shows_screen (seedGridScrollback s t) sc = shows_screen s sc"
  by (simp_all add: seedGridScrollback_def shows_screen_def Let_def)

lemma grid_step_ok:
  assumes "grid_ok screens s" "event_describes screens e"
  shows "grid_ok screens (grid_step e s)"
proof (cases e)
  case (GotFrame f)
  show ?thesis
  proof (cases "gf_full f \<or> frame_contiguous s f")
    case True
    with assms GotFrame have "shows_screen (fst (applyGridFrame s f)) (screens (gf_generation f))"
      by (intro described_frame_shown) (auto simp: grid_ok_def frame_contiguous_def)
    moreover have "gs_generation (fst (applyGridFrame s f)) = gf_generation f"
      using True by (auto simp: applyGridFrame_def Let_def)
    ultimately show ?thesis
      using assms(1) GotFrame applyGridFrame_wf by (simp add: grid_ok_def)
  next
    case False
    then have "applyGridFrame s f = (s, True)"
      by (simp add: applyGridFrame_def)
    with assms(1) GotFrame show ?thesis
      by simp
  qed
next
  case (GotSnapshot history)
  with assms(1) seedGridScrollback_wf show ?thesis
    by (simp add: grid_ok_def)
next
  case ThreadSwitched
  have "\<not> gs_seeded emptyGridState"
    by (simp add: emptyGridState_def)
  with ThreadSwitched show ?thesis
    by (simp add: grid_ok_def)
qed

lemma grid_run_ok:
  "list_all (event_describes screens) es \<Longrightarrow> grid_ok screens s \<Longrightarrow> grid_ok screens (fold grid_step es s)"
  by (induction es arbitrary: s) (simp_all add: grid_step_ok)

text \<open>C7: 
  Whatever frames of an attachment reach the client, in whatever order, how often and with whatever losses, and
  whatever snapshots come between them, a client that shows anything shows the screen of its generation: size,
  cursor, alternate screen and, up to the way a row is written down, every row.
\<close>

theorem grid_shows_screen:
  assumes "list_all (event_describes screens) es" "gs_seeded (fold grid_step es emptyGridState)"
  shows "shows_screen (fold grid_step es emptyGridState) (screens (gs_generation (fold grid_step es emptyGridState)))"
proof -
  have "grid_ok screens emptyGridState"
    by (simp add: grid_ok_def) (simp add: emptyGridState_def)
  from grid_run_ok [OF assms(1) this] assms(2) show ?thesis
    by (simp add: grid_ok_def)
qed

section \<open>Scrollback\<close>

text \<open>The frames of a sequence that the client applies.\<close>

fun accepted :: "grid_state \<Rightarrow> grid_frame list \<Rightarrow> grid_frame list" where
  "accepted s [] = []"
| "accepted s (f # fs) =
     (case applyGridFrame s f of (s', discontinuity) \<Rightarrow> if discontinuity then accepted s' fs else f # accepted s' fs)"

definition newest :: "nat \<Rightarrow> 'a list \<Rightarrow> 'a list" where
  "newest n xs = drop (length xs - n) xs"

lemma newest_append: "newest n (newest n xs @ ys) = newest n (xs @ ys)"
  by (cases "length xs \<le> n") (auto simp: newest_def add.commute)

lemma push_scrollback_newest:
  assumes "length sb \<le> GRID_SCROLLBACK_CAP"
  shows "push_scrollback p (sb, start) =
    (newest GRID_SCROLLBACK_CAP (sb @ p), start + (length (sb @ p) - GRID_SCROLLBACK_CAP))"
  using assms by (auto simp: push_scrollback_def newest_def Let_def)

lemma applyGridFrame_scrollback:
  assumes "applyGridFrame s f = (s', False)" "length (gs_scrollback s) \<le> GRID_SCROLLBACK_CAP"
  shows "gs_scrollback s' = newest GRID_SCROLLBACK_CAP (gs_scrollback s @ gf_scrollback_push f)"
    "gs_scrollbackStart s' = gs_scrollbackStart s + (length (gs_scrollback s @ gf_scrollback_push f) - GRID_SCROLLBACK_CAP)"
  using assms by (auto simp: applyGridFrame_def Let_def push_scrollback_newest split: if_splits)

lemma applyGridFrame_refused: "applyGridFrame s f = (s', True) \<Longrightarrow> s' = s"
  by (auto simp: applyGridFrame_def Let_def split: if_splits)

text \<open>
  The scrollback is the newest five thousand of the lines pushed by the frames applied, after the lines the client
  had, and \<open>scrollbackStart\<close> is the number of the first line kept: a line keeps its number as long as it is kept.
\<close>

theorem scrollback_window:
  assumes "length (gs_scrollback s) \<le> GRID_SCROLLBACK_CAP"
  shows "(let s' = fold (\<lambda>f s. fst (applyGridFrame s f)) fs s;
              pushed = gs_scrollback s @ concat (map gf_scrollback_push (accepted s fs))
          in gs_scrollback s' = newest GRID_SCROLLBACK_CAP pushed \<and>
             gs_scrollbackStart s' = gs_scrollbackStart s + (length pushed - GRID_SCROLLBACK_CAP))"
  using assms
proof (induction fs arbitrary: s)
  case Nil
  then show ?case
    by (simp add: newest_def)
next
  case (Cons f fs)
  obtain s1 d where s1: "applyGridFrame s f = (s1, d)"
    by fastforce
  show ?case
  proof (cases d)
    case True
    with s1 have "s1 = s"
      using applyGridFrame_refused by simp
    with Cons.IH [OF Cons.prems] s1 True show ?thesis
      by (simp add: Let_def)
  next
    case False
    with s1 have app: "applyGridFrame s f = (s1, False)"
      by simp
    note sb = applyGridFrame_scrollback [OF app Cons.prems]
    have len: "length (gs_scrollback s1) \<le> GRID_SCROLLBACK_CAP"
      unfolding sb newest_def by simp
    let ?rest = "concat (map gf_scrollback_push (accepted s1 fs))"
    have "newest GRID_SCROLLBACK_CAP (gs_scrollback s1 @ ?rest) =
        newest GRID_SCROLLBACK_CAP (gs_scrollback s @ gf_scrollback_push f @ ?rest)"
      unfolding sb(1) newest_append by simp
    moreover have "gs_scrollbackStart s1 + (length (gs_scrollback s1 @ ?rest) - GRID_SCROLLBACK_CAP) =
        gs_scrollbackStart s + (length (gs_scrollback s @ gf_scrollback_push f @ ?rest) - GRID_SCROLLBACK_CAP)"
      using Cons.prems unfolding sb by (simp add: newest_def)
    ultimately show ?thesis
      using Cons.IH [OF len] app by (simp add: Let_def)
  qed
qed

lemma split_lines_nonempty [simp]: "split_lines s \<noteq> []"
  by (induction s) (auto split: list.splits)

lemma join_split_lines: "join_with [CHR 0x0A] (split_lines s) = s"
proof (induction s)
  case (Cons c s)
  obtain l ls where "split_lines s = l # ls"
    by (metis list.exhaust split_lines_nonempty)
  with Cons show ?case
    by (cases ls) auto
qed simp

lemma gridRowText_text_row [simp]: "gridRowText (text_row line) = line"
  by (simp add: gridRowText_def text_row_def)

text \<open>The text of a snapshot can be read off the scrollback it seeds, or its newest lines if there are too many.\<close>

lemma seed_scrollback_text:
  "t \<noteq> [] \<Longrightarrow> map gridRowText (gs_scrollback (seedGridScrollback s t)) = newest GRID_SCROLLBACK_CAP (split_lines t)"
  by (simp add: seedGridScrollback_def newest_def Let_def drop_map comp_def)

section \<open>Generations of another attachment\<close>

text \<open>
  The generations of a new attachment start again at one.  A delta whose generation happens to follow that of the
  client, which still shows a screen of the attachment before, is applied: the rows it does not name stay those of
  the old screen.
\<close>

theorem stale_attachment_mixes:
  assumes "grid_wf s" "gs_seeded s" "shows_screen s old" "frame_describes screens f"
    "\<not> gf_full f" "gf_row_shift f = None" "gf_generation f = gs_generation s + 1"
    "gf_cols f = scr_cols old" "gf_rows f = scr_rows old" "i < gf_rows f" "dirty_at f i = None"
  shows "snd (applyGridFrame s f) = False \<and>
    row_view (gs_grid (fst (applyGridFrame s f)) ! i) = row_view (scr_lines old ! i)"
proof -
  from assms have c: "frame_contiguous s f"
    by (simp add: frame_contiguous_def shows_screen_def)
  have "map_option row_view (shifted_row f old i) = Some (row_view (scr_lines old ! i))"
    using assms by (simp add: shifted_row_def)
  from base_row_delta [OF assms(1) c assms(3) assms(5) assms(10) this]
  have "row_view (base_grid s f ! i) = row_view (scr_lines old ! i)" .
  with c assms base_grid_length [of s f] show ?thesis
    by (simp add: applyGridFrame_def Let_def paint_view dirty_at_def)
qed

section \<open>The watch of the daemon\<close>

text \<open>
  The service, one session and the daemon's attachment to it.  An attachment starts unwatched and reports
  \<open>ready\<close>; the bud takes frames while it is online.
\<close>

record watch_sys =
  ws_hub :: grid_hub
  ws_online :: bool
  ws_watched :: bool
  ws_ready :: nat

datatype watch_op = ViewerJoins | ViewerLeaves | TaskEnds nat | BudLeaves | BudReturns | StatusHandled

definition task_ends :: "string \<Rightarrow> nat \<Rightarrow> watch_sys \<Rightarrow> watch_sys" where
  "task_ends sid i w =
     (let h = watch_task (\<lambda>_. True) (ws_online w) i (ws_hub w)
      in w\<lparr>ws_hub := h,
           ws_watched := (if length (gh_sent (ws_hub w)) < length (gh_sent h) \<and> fst (hd (gh_sent h)) = sid
                          then snd (hd (gh_sent h)) else ws_watched w)\<rparr>)"

fun watch_do :: "string \<Rightarrow> watch_op \<Rightarrow> watch_sys \<Rightarrow> watch_sys" where
  "watch_do sid ViewerJoins w = w\<lparr>ws_hub := addGridViewer sid (ws_hub w)\<rparr>"
| "watch_do sid ViewerLeaves w = w\<lparr>ws_hub := removeGridViewer sid (ws_hub w)\<rparr>"
| "watch_do sid (TaskEnds i) w = task_ends sid i w"
| "watch_do sid BudLeaves w = w\<lparr>ws_online := False, ws_watched := False, ws_ready := 0\<rparr>"
| "watch_do sid BudReturns w = (if ws_online w then w else w\<lparr>ws_online := True, ws_ready := 1\<rparr>)"
| "watch_do sid StatusHandled w =
     (if ws_ready w = 0 then w
      else w\<lparr>ws_ready := ws_ready w - 1, ws_hub := status_rearms sid ''ready'' (ws_hub w)\<rparr>)"

definition watch_start :: watch_sys where
  "watch_start = \<lparr>ws_hub = \<lparr>gh_counts = (\<lambda>_. None), gh_tasks = [], gh_sent = []\<rparr>, ws_online = False,
                  ws_watched = False, ws_ready = 0\<rparr>"

text \<open>What the daemon will hold when the tasks have ended in their order.\<close>

definition will_watch :: "watch_sys \<Rightarrow> bool" where
  "will_watch w = (if gh_tasks (ws_hub w) = [] then ws_watched w else snd (last (gh_tasks (ws_hub w))))"

definition watch_ok :: "string \<Rightarrow> watch_sys \<Rightarrow> bool" where
  "watch_ok sid w \<longleftrightarrow>
     list_all (\<lambda>t. fst t = sid) (gh_tasks (ws_hub w)) \<and> (ws_online w \<or> \<not> ws_watched w) \<and>
     (if hasGridViewers (ws_hub w) sid then will_watch w \<or> ws_ready w > 0 \<or> \<not> ws_online w else \<not> will_watch w)"

fun in_order :: "watch_op \<Rightarrow> bool" where
  "in_order (TaskEnds i) = (i = 0)"
| "in_order _ = True"

lemma watch_start_ok: "watch_ok sid watch_start"
  by (simp add: watch_ok_def watch_start_def will_watch_def hasGridViewers_def)

lemmas watch_simps = watch_ok_def will_watch_def hasGridViewers_def sendGridWatch_def

lemma join_ok: "watch_ok sid w \<Longrightarrow> watch_ok sid (watch_do sid ViewerJoins w)"
  by (simp add: watch_simps addGridViewer_def Let_def)

lemma leave_ok: "watch_ok sid w \<Longrightarrow> watch_ok sid (watch_do sid ViewerLeaves w)"
  by (auto simp: watch_simps removeGridViewer_def Let_def split: option.splits if_splits)

lemma status_ok: "watch_ok sid w \<Longrightarrow> watch_ok sid (watch_do sid StatusHandled w)"
  by (auto simp: watch_simps status_rearms_def split: option.splits if_splits)

lemma task_ends_ok: "watch_ok sid w \<Longrightarrow> watch_ok sid (task_ends sid 0 w)"
  by (cases "gh_tasks (ws_hub w)")
     (auto simp: watch_simps task_ends_def watch_task_def Let_def split: option.splits if_splits)

lemma watch_step_ok:
  assumes "watch_ok sid w" "in_order x"
  shows "watch_ok sid (watch_do sid x w)"
proof (cases x)
  case (TaskEnds i)
  with assms task_ends_ok show ?thesis
    by simp
next
  case BudLeaves
  with assms(1) show ?thesis
    by (auto simp: watch_simps split: option.splits if_splits)
next
  case BudReturns
  with assms(1) show ?thesis
    by (auto simp: watch_simps split: option.splits if_splits)
qed (use assms join_ok leave_ok status_ok in simp_all)

lemma watch_run_ok: "list_all in_order ops \<Longrightarrow> watch_ok sid w \<Longrightarrow> watch_ok sid (fold (watch_do sid) ops w)"
  by (induction ops arbitrary: w) (simp_all add: watch_step_ok)

lemma statuses_settle:
  "\<exists>m. let w' = fold (watch_do sid) (replicate m StatusHandled) w
       in ws_ready w' = 0 \<and> ws_online w' = ws_online w \<and> gh_counts (ws_hub w') = gh_counts (ws_hub w)"
proof (induction "ws_ready w" arbitrary: w)
  case 0
  have "fold (watch_do sid) (replicate 0 StatusHandled) w = w"
    by simp
  with 0 show ?case
    by (metis (no_types, lifting))
next
  case (Suc n)
  let ?w = "watch_do sid StatusHandled w"
  have "n = ws_ready ?w" "ws_online ?w = ws_online w" "gh_counts (ws_hub ?w) = gh_counts (ws_hub w)"
    using Suc(2) by (auto simp: status_rearms_def sendGridWatch_def)
  with Suc(1) [of ?w] obtain m where
    "let w' = fold (watch_do sid) (replicate (Suc m) StatusHandled) w
     in ws_ready w' = 0 \<and> ws_online w' = ws_online w \<and> gh_counts (ws_hub w') = gh_counts (ws_hub w)"
    by auto
  then show ?case
    by blast
qed

lemma task_ends_first:
  "gh_tasks (ws_hub (task_ends sid 0 w)) = tl (gh_tasks (ws_hub w))"
  "ws_ready (task_ends sid 0 w) = ws_ready w" "ws_online (task_ends sid 0 w) = ws_online w"
  "gh_counts (ws_hub (task_ends sid 0 w)) = gh_counts (ws_hub w)"
  by (cases "gh_tasks (ws_hub w)"; simp add: task_ends_def watch_task_def Let_def)+

lemma tasks_settle:
  "\<exists>n. let w' = fold (watch_do sid) (replicate n (TaskEnds 0)) w
       in gh_tasks (ws_hub w') = [] \<and> ws_ready w' = ws_ready w \<and> ws_online w' = ws_online w \<and>
          gh_counts (ws_hub w') = gh_counts (ws_hub w)"
proof (induction "gh_tasks (ws_hub w)" arbitrary: w)
  case Nil
  have "fold (watch_do sid) (replicate 0 (TaskEnds 0)) w = w"
    by simp
  with Nil show ?case
    by (metis (no_types, lifting))
next
  case (Cons t ts)
  let ?w = "watch_do sid (TaskEnds 0) w"
  have "ts = gh_tasks (ws_hub ?w)"
    using Cons(2) by (simp add: task_ends_first) (metis list.sel(3))
  with Cons(1) [of ?w] obtain n where
    "let w' = fold (watch_do sid) (replicate (Suc n) (TaskEnds 0)) w
     in gh_tasks (ws_hub w') = [] \<and> ws_ready w' = ws_ready w \<and> ws_online w' = ws_online w \<and>
        gh_counts (ws_hub w') = gh_counts (ws_hub w)"
    by (auto simp: task_ends_first)
  then show ?case
    by blast
qed

text \<open>C39: 
  When the sends of the service end in the order in which they were begun, the daemon's watch settles to what the
  viewers of the session need, whatever viewers came and went and however often the bud left and returned.
\<close>

theorem watch_settles:
  assumes "list_all in_order ops" "ws_online (fold (watch_do sid) ops watch_start)"
  shows "\<exists>m n. let w = fold (watch_do sid) ops watch_start;
                  w' = fold (watch_do sid) (replicate m StatusHandled @ replicate n (TaskEnds 0)) w
              in gh_tasks (ws_hub w') = [] \<and> ws_ready w' = 0 \<and> gh_counts (ws_hub w') = gh_counts (ws_hub w) \<and>
                 (ws_watched w' \<longleftrightarrow> hasGridViewers (ws_hub w) sid)"
proof -
  let ?w = "fold (watch_do sid) ops watch_start"
  obtain m where m: "let w' = fold (watch_do sid) (replicate m StatusHandled) ?w
    in ws_ready w' = 0 \<and> ws_online w' = ws_online ?w \<and> gh_counts (ws_hub w') = gh_counts (ws_hub ?w)"
    using statuses_settle by blast
  let ?w1 = "fold (watch_do sid) (replicate m StatusHandled) ?w"
  obtain n where n: "let w' = fold (watch_do sid) (replicate n (TaskEnds 0)) ?w1
    in gh_tasks (ws_hub w') = [] \<and> ws_ready w' = ws_ready ?w1 \<and> ws_online w' = ws_online ?w1 \<and>
       gh_counts (ws_hub w') = gh_counts (ws_hub ?w1)"
    using tasks_settle by blast
  let ?w2 = "fold (watch_do sid) (replicate n (TaskEnds 0)) ?w1"
  have "watch_ok sid (fold (watch_do sid) (ops @ replicate m StatusHandled @ replicate n (TaskEnds 0)) watch_start)"
    by (rule watch_run_ok) (use assms(1) watch_start_ok in \<open>auto simp: list_all_iff\<close>)
  then have ok: "watch_ok sid ?w2"
    by simp
  have "gh_tasks (ws_hub ?w2) = []" "ws_ready ?w2 = 0" "ws_online ?w2" and c: "gh_counts (ws_hub ?w2) = gh_counts (ws_hub ?w)"
    using m n assms(2) by (simp_all add: Let_def)
  moreover from this ok have "ws_watched ?w2 \<longleftrightarrow> hasGridViewers (ws_hub ?w2) sid"
    by (simp add: watch_ok_def will_watch_def split: if_splits)
  moreover from c have "hasGridViewers (ws_hub ?w2) sid = hasGridViewers (ws_hub ?w) sid"
    by (simp add: hasGridViewers_def)
  ultimately show ?thesis
    by (metis (no_types, lifting) fold_append comp_apply)
qed

text \<open>C40: 
  When the only viewer leaves and another joins, the two sends may end in the other order, each waiting for its own
  read of the session: the daemon is left unwatched although a viewer is there, and nothing is under way.
\<close>

theorem overtaken_watch_lost:
  assumes "gh_counts (ws_hub w) sid = Some 1" "gh_tasks (ws_hub w) = []" "ws_online w" "ws_ready w = 0"
  shows "(let w' = fold (watch_do sid) [ViewerLeaves, ViewerJoins, TaskEnds 1, TaskEnds 0] w
          in hasGridViewers (ws_hub w') sid \<and> \<not> ws_watched w' \<and> ws_online w' \<and> gh_tasks (ws_hub w') = [] \<and> ws_ready w' = 0)"
  using assms
  by (simp add: removeGridViewer_def addGridViewer_def sendGridWatch_def task_ends_def watch_task_def hasGridViewers_def Let_def)

section \<open>A session on two rows\<close>

definition demo_grid_row :: "string \<Rightarrow> grid_row" where
  "demo_grid_row t = [\<lparr>gr_t = t, gr_fg = Some (Palette 2), gr_bg = None, gr_a = None\<rparr>]"

definition demo_cursor :: grid_cursor where
  "demo_cursor = \<lparr>gc_row = 1, gc_col = 0, gc_visible = True, gc_shape = None, gc_blink = None\<rparr>"

definition demo_screens :: "nat \<Rightarrow> grid_screen" where
  "demo_screens n = \<lparr>scr_cols = 80, scr_rows = 2, scr_alt = False, scr_cursor = demo_cursor,
     scr_lines = (if n \<le> 1 then [demo_grid_row ''one'', demo_grid_row ''two''] else [demo_grid_row ''two'', demo_grid_row ''three''])\<rparr>"

definition demo_frame :: "nat \<Rightarrow> bool \<Rightarrow> (int \<times> grid_row) list \<Rightarrow> grid_row list \<Rightarrow> int option \<Rightarrow> grid_frame" where
  "demo_frame n full dirty pushed shift =
     \<lparr>gf_generation = n, gf_full = full, gf_cols = 80, gf_rows = 2, gf_alt_screen = False, gf_cursor = demo_cursor,
      gf_dirty_rows = dirty, gf_scrollback_push = pushed, gf_scrollback_dropped = 0, gf_predict_ok = Some True,
      gf_applied_input_seq = Some 4, gf_mouse = None, gf_app_cursor = None, gf_row_shift = shift\<rparr>"

definition demo_full :: grid_frame where
  "demo_full = demo_frame 1 True [(0, demo_grid_row ''one''), (1, demo_grid_row ''two'')] [] None"

definition demo_delta :: grid_frame where
  "demo_delta = demo_frame 2 False [(1, demo_grid_row ''three'')] [demo_grid_row ''one''] (Some 1)"

definition demo_grid_events :: "grid_event list" where
  "demo_grid_events = [GotFrame demo_delta, GotFrame demo_full, GotSnapshot ''zero'', GotFrame demo_delta, GotFrame demo_delta]"

theorem grid_shows_screen_witness:
  "gs_generation (fold grid_step demo_grid_events emptyGridState) = 2 \<and>
   map gridRowText (gs_scrollback (fold grid_step demo_grid_events emptyGridState)) = [''zero'', ''one''] \<and>
   shows_screen (fold grid_step demo_grid_events emptyGridState) (demo_screens 2)"
proof -
  have "list_all (event_describes demo_screens) demo_grid_events" "gs_seeded (fold grid_step demo_grid_events emptyGridState)"
    by code_simp+
  from grid_shows_screen [OF this]
  have "shows_screen (fold grid_step demo_grid_events emptyGridState)
     (demo_screens (gs_generation (fold grid_step demo_grid_events emptyGridState)))" .
  moreover have g: "gs_generation (fold grid_step demo_grid_events emptyGridState) = 2"
    and "map gridRowText (gs_scrollback (fold grid_step demo_grid_events emptyGridState)) = [''zero'', ''one'']"
    by code_simp+
  ultimately show ?thesis
    by simp
qed

theorem scrollback_window_witness:
  "gs_scrollback (fold (\<lambda>f s. fst (applyGridFrame s f)) [demo_full, demo_delta] emptyGridState) = [demo_grid_row ''one'']"
proof -
  have "length (gs_scrollback emptyGridState) \<le> GRID_SCROLLBACK_CAP"
    by code_simp
  from scrollback_window [OF this, of "[demo_full, demo_delta]"]
  have "gs_scrollback (fold (\<lambda>f s. fst (applyGridFrame s f)) [demo_full, demo_delta] emptyGridState) =
    newest GRID_SCROLLBACK_CAP (gs_scrollback emptyGridState @
      concat (map gf_scrollback_push (accepted emptyGridState [demo_full, demo_delta])))"
    by (simp only: Let_def)
  also have "\<dots> = [demo_grid_row ''one'']"
    by code_simp
  finally show ?thesis .
qed

text \<open>The second attachment shows \<open>four\<close> and \<open>five\<close>; the client comes to show \<open>one\<close> and \<open>five\<close>.\<close>

definition demo_later :: "nat \<Rightarrow> grid_screen" where
  "demo_later n = (demo_screens n)\<lparr>scr_lines := [demo_grid_row ''four'', demo_grid_row (if n \<le> 1 then ''...'' else ''five'')]\<rparr>"

definition demo_stale :: grid_state where
  "demo_stale = fst (applyGridFrame emptyGridState demo_full)"

definition demo_later_delta :: grid_frame where
  "demo_later_delta = demo_frame 2 False [(1, demo_grid_row ''five'')] [] None"

theorem stale_attachment_mixes_witness:
  "snd (applyGridFrame demo_stale demo_later_delta) = False \<and>
   row_view (gs_grid (fst (applyGridFrame demo_stale demo_later_delta)) ! 0) = row_view (demo_grid_row ''one'') \<and>
   \<not> shows_screen (fst (applyGridFrame demo_stale demo_later_delta)) (demo_later 2)"
proof -
  have "grid_wf demo_stale" "gs_seeded demo_stale" "shows_screen demo_stale (demo_screens 1)"
    "frame_describes demo_later demo_later_delta" "\<not> gf_full demo_later_delta" "gf_row_shift demo_later_delta = None"
    "gf_generation demo_later_delta = gs_generation demo_stale + 1" "gf_cols demo_later_delta = scr_cols (demo_screens 1)"
    "gf_rows demo_later_delta = scr_rows (demo_screens 1)" "0 < gf_rows demo_later_delta" "dirty_at demo_later_delta 0 = None"
    by code_simp+
  from stale_attachment_mixes [OF this]
  have "snd (applyGridFrame demo_stale demo_later_delta) = False \<and>
    row_view (gs_grid (fst (applyGridFrame demo_stale demo_later_delta)) ! 0) = row_view (scr_lines (demo_screens 1) ! 0)" .
  moreover have "scr_lines (demo_screens 1) ! 0 = demo_grid_row ''one''"
    "\<not> shows_screen (fst (applyGridFrame demo_stale demo_later_delta)) (demo_later 2)"
    by code_simp+
  ultimately show ?thesis
    by simp
qed

definition demo_watch_ops :: "watch_op list" where
  "demo_watch_ops = [ViewerJoins, TaskEnds 0, BudReturns, ViewerJoins, ViewerLeaves]"

theorem watch_settles_witness:
  "\<exists>m n. ws_watched (fold (watch_do ''s'') (replicate m StatusHandled @ replicate n (TaskEnds 0))
     (fold (watch_do ''s'') demo_watch_ops watch_start))"
proof -
  have "list_all in_order demo_watch_ops"
    by code_simp
  moreover have "ws_online (fold (watch_do ''s'') demo_watch_ops watch_start)"
    and viewer: "hasGridViewers (ws_hub (fold (watch_do ''s'') demo_watch_ops watch_start)) ''s''"
    by code_simp+
  ultimately show ?thesis
    using watch_settles [of demo_watch_ops "''s''"] viewer by (simp only: Let_def) blast
qed

definition demo_watched :: watch_sys where
  "demo_watched = fold (watch_do ''s'') [BudReturns, StatusHandled, ViewerJoins, TaskEnds 0] watch_start"

theorem overtaken_watch_lost_witness:
  "ws_watched demo_watched \<and>
   \<not> ws_watched (fold (watch_do ''s'') [ViewerLeaves, ViewerJoins, TaskEnds 1, TaskEnds 0] demo_watched)"
proof -
  have "gh_counts (ws_hub demo_watched) ''s'' = Some 1" "gh_tasks (ws_hub demo_watched) = []" "ws_online demo_watched"
    "ws_ready demo_watched = 0" "ws_watched demo_watched"
    by code_simp+
  with overtaken_watch_lost [of demo_watched "''s''"] show ?thesis
    by (simp only: Let_def) blast
qed

end
