(* ===== verification/TerminalInput.thy ===== *)
theory TerminalInput
  imports TerminalGrid
begin

text \<open>
  Typing into the terminal pane: the predicted echo (\<open>terminal-prediction.ts\<close>), the queue for input typed while
  not connected (\<open>terminal-input-queue.ts\<close>), the encoding of mouse and cursor keys (\<open>terminal-mouse.ts\<close>), the
  command chip and the interrupt control (\<open>terminal-command-state.ts\<close>, \<open>terminal-interrupt.ts\<close>), and how
  \<open>use-terminal-session.ts\<close> puts them together.  Texts are in UTF-8, as everywhere in this development.
\<close>

section \<open>Predicted echo\<close>

record prediction =
  pn_chunks :: "(nat \<times> string) list"
  pn_pendingText :: string

definition emptyPredictionState :: prediction where
  "emptyPredictionState = \<lparr>pn_chunks = [], pn_pendingText = []\<rparr>"

definition MAX_PREDICTED_BURST :: nat where
  "MAX_PREDICTED_BURST = 32"

definition DEL :: char where
  "DEL = CHR 0x7F"

definition is_control :: "char \<Rightarrow> bool" where
  "is_control c \<longleftrightarrow> (of_char c :: nat) \<le> 31 \<or> c = DEL"

definition isPredictablePrintable :: "string \<Rightarrow> bool" where
  "isPredictablePrintable s =
     (if js_length s = 0 \<or> js_length s > MAX_PREDICTED_BURST then False else \<not> list_ex is_control s)"

text \<open>\<open>Array.from(s)\<close> without its last element: the last code point goes.\<close>

definition is_continuation :: "char \<Rightarrow> bool" where
  "is_continuation c \<longleftrightarrow> (of_char c :: nat) div 64 = 2"

definition pop_char :: "string \<Rightarrow> string" where
  "pop_char s = rev (tl (dropWhile is_continuation (rev s)))"

definition predictKeystroke :: "prediction \<Rightarrow> string \<Rightarrow> prediction \<times> bool" where
  "predictKeystroke p s =
     (if isPredictablePrintable s then (p\<lparr>pn_pendingText := pn_pendingText p @ s\<rparr>, False)
      else if s = [DEL] \<and> pn_pendingText p \<noteq> [] then (p\<lparr>pn_pendingText := pop_char (pn_pendingText p)\<rparr>, False)
      else (emptyPredictionState, True))"

definition assignFlushSeq :: "prediction \<Rightarrow> nat \<Rightarrow> prediction" where
  "assignFlushSeq p seq =
     (if pn_pendingText p = [] then p
      else \<lparr>pn_chunks = pn_chunks p @ [(seq, pn_pendingText p)], pn_pendingText = []\<rparr>)"

definition ackApplied :: "prediction \<Rightarrow> nat \<Rightarrow> prediction" where
  "ackApplied p appliedSeq =
     (if \<not> list_ex (\<lambda>c. fst c \<le> appliedSeq) (pn_chunks p) then p
      else p\<lparr>pn_chunks := filter (\<lambda>c. fst c > appliedSeq) (pn_chunks p)\<rparr>)"

definition predictionGhostText :: "prediction \<Rightarrow> string" where
  "predictionGhostText p = concat (map snd (pn_chunks p)) @ pn_pendingText p"

section \<open>The input queue\<close>

definition TERMINAL_INPUT_QUEUE_MAX_BYTES :: nat where
  "TERMINAL_INPUT_QUEUE_MAX_BYTES = 8192"

record input_queue =
  iq_chunks :: "string list"
  iq_totalBytes :: nat

definition emptyTerminalInputQueue :: input_queue where
  "emptyTerminalInputQueue = \<lparr>iq_chunks = [], iq_totalBytes = 0\<rparr>"

definition utf8ByteLength :: "string \<Rightarrow> nat" where
  "utf8ByteLength s = length (utf8_bytes s)"

text \<open>\<open>new TextDecoder().decode\<close>: a byte order mark at the start is dropped.\<close>

definition text_decode :: "byte list \<Rightarrow> string" where
  "text_decode bs = utf8_toString (if take 3 bs = [0xEF, 0xBB, 0xBF] then drop 3 bs else bs)"

fun skip_continuation :: "byte list \<Rightarrow> byte list" where
  "skip_continuation [] = []"
| "skip_continuation (b # bs) = (if and b 0xC0 = 0x80 then skip_continuation bs else b # bs)"

definition trimChunkToTailBytes :: "string \<Rightarrow> nat \<Rightarrow> string" where
  "trimChunkToTailBytes chunk maxBytes =
     (let bytes = utf8_bytes chunk
      in if length bytes \<le> maxBytes then chunk
         else text_decode (skip_continuation (drop (length bytes - maxBytes) bytes)))"

text \<open>The loop that removes the oldest chunks while the cap is exceeded and more than one is left.\<close>

fun drop_oldest :: "string list \<Rightarrow> nat \<Rightarrow> nat \<Rightarrow> string list \<times> nat \<times> nat" where
  "drop_oldest (removed # c # cs) totalBytes droppedBytes =
     (if totalBytes > TERMINAL_INPUT_QUEUE_MAX_BYTES
      then drop_oldest (c # cs) (totalBytes - utf8ByteLength removed) (droppedBytes + utf8ByteLength removed)
      else (removed # c # cs, totalBytes, droppedBytes))"
| "drop_oldest chunks totalBytes droppedBytes = (chunks, totalBytes, droppedBytes)"

definition enqueueTerminalInput :: "input_queue \<Rightarrow> string \<Rightarrow> input_queue \<times> nat" where
  "enqueueTerminalInput q s =
     (if s = [] then (q, 0)
      else case drop_oldest (iq_chunks q @ [s]) (iq_totalBytes q + utf8ByteLength s) 0 of
             (chunks, totalBytes, droppedBytes) \<Rightarrow>
               if totalBytes > TERMINAL_INPUT_QUEUE_MAX_BYTES
               then let trimmed = trimChunkToTailBytes (hd chunks) TERMINAL_INPUT_QUEUE_MAX_BYTES;
                        trimmedBytes = utf8ByteLength trimmed
                    in (\<lparr>iq_chunks = trimmed # tl chunks, iq_totalBytes = trimmedBytes\<rparr>,
                        droppedBytes + (totalBytes - trimmedBytes))
               else (\<lparr>iq_chunks = chunks, iq_totalBytes = totalBytes\<rparr>, droppedBytes))"

definition takeQueuedTerminalInput :: "input_queue \<Rightarrow> input_queue \<times> string" where
  "takeQueuedTerminalInput q = (emptyTerminalInputQueue, concat (iq_chunks q))"

definition hasQueuedTerminalInput :: "input_queue \<Rightarrow> bool" where
  "hasQueuedTerminalInput q \<longleftrightarrow> iq_totalBytes q > 0"

section \<open>Mouse and cursor keys\<close>

datatype mouse_kind = MousePress | MouseRelease | MouseMove | WheelUp | WheelDown
datatype mouse_button = LeftButton | MiddleButton | RightButton | NoButton

record mouse_event =
  me_kind :: mouse_kind
  me_button :: mouse_button
  me_col :: int
  me_row :: int
  me_shift :: bool
  me_alt :: bool
  me_ctrl :: bool
  me_sgr :: bool

fun BUTTON_CODES :: "mouse_button \<Rightarrow> nat" where
  "BUTTON_CODES LeftButton = 0"
| "BUTTON_CODES MiddleButton = 1"
| "BUTTON_CODES RightButton = 2"
| "BUTTON_CODES NoButton = 3"

definition buttonCode :: "mouse_event \<Rightarrow> nat" where
  "buttonCode e =
     (case me_kind e of WheelUp \<Rightarrow> 64 | WheelDown \<Rightarrow> 65 | _ \<Rightarrow> BUTTON_CODES (me_button e))
     + (if me_kind e = MouseMove then 32 else 0)
     + (if me_shift e then 4 else 0) + (if me_alt e then 8 else 0) + (if me_ctrl e then 16 else 0)"

definition ESC :: char where
  "ESC = CHR 0x1B"

definition CSI :: string where
  "CSI = [ESC, CHR ''['']"

definition encodeTerminalMouseEvent :: "mouse_event \<Rightarrow> string" where
  "encodeTerminalMouseEvent e =
     (let col = nat (max 0 (me_col e) + 1); row = nat (max 0 (me_row e) + 1)
      in if me_sgr e
         then CSI @ ''<'' @ show_nat (buttonCode e) @ '';'' @ show_nat col @ '';'' @ show_nat row @
              (if me_kind e = MouseRelease then ''m'' else ''M'')
         else let code = (if me_kind e = MouseRelease then BUTTON_CODES NoButton + and (buttonCode e) 28 else buttonCode e)
              in CSI @ ''M'' @ [char_of (32 + code), char_of (32 + min col 94), char_of (32 + min row 94)])"

definition encodeWheelFallbackArrows :: "int \<Rightarrow> bool \<Rightarrow> string" where
  "encodeWheelFallbackArrows deltaLines appCursor =
     (if deltaLines = 0 then []
      else let count = nat (min 8 (max 1 \<bar>deltaLines\<bar>));
               lead = (if appCursor then [ESC, CHR ''O''] else CSI);
               key = (if deltaLines > 0 then lead @ ''B'' else lead @ ''A'')
           in concat (replicate count key))"

fun csi_to_ss3 :: "string \<Rightarrow> string" where
  "csi_to_ss3 (a # b # c # s) =
     (if a = ESC \<and> b = CHR ''['' \<and> c \<in> set ''ABCDHF'' then ESC # CHR ''O'' # c # csi_to_ss3 s
      else a # csi_to_ss3 (b # c # s))"
| "csi_to_ss3 s = s"

definition applyAppCursorKeys :: "string \<Rightarrow> bool \<Rightarrow> string" where
  "applyAppCursorKeys s appCursor = (if \<not> appCursor then s else csi_to_ss3 s)"

text \<open>\<open>Math.round\<close> rounds halves up.\<close>

definition wheelDeltaToLines :: "rat \<Rightarrow> rat \<Rightarrow> int" where
  "wheelDeltaToLines deltaY lineHeightPx =
     (if deltaY = 0 then 0
      else let lines = \<lfloor>deltaY / lineHeightPx + 1 / 2\<rfloor>
           in if lines = 0 then (if deltaY > 0 then 1 else - 1) else lines)"

section \<open>The command chip and the interrupt control\<close>

datatype command_chip = ChipRunning "string option" | ChipFinished "string option" "rat option"

definition readCommandId :: "js_object \<Rightarrow> string option" where
  "readCommandId d = (case obj_get d ''command_id'' of JStr s \<Rightarrow> if s \<noteq> [] then Some s else None | _ \<Rightarrow> None)"

definition reduceTerminalCommandChip :: "command_chip option \<Rightarrow> json \<Rightarrow> json \<Rightarrow> command_chip option" where
  "reduceTerminalCommandChip current event data =
     (let d = (case data of JObj d \<Rightarrow> d | _ \<Rightarrow> [])
      in if event = JStr ''command_started'' then Some (ChipRunning (readCommandId d))
         else if event = JStr ''command_finished''
         then Some (ChipFinished (readCommandId d)
                (case obj_get d ''exit_code'' of JNum (Fin n) \<Rightarrow> Some n | _ \<Rightarrow> None))
         else if event = JStr ''child_exited'' then None
         else current)"

datatype connection_state = Connected | Reconnecting | OfflineState | Disconnected
datatype terminal_mode = ShellMode | TuiMode | ReplMode | UnknownMode

definition showTerminalInterrupt ::
  "connection_state \<Rightarrow> command_chip option \<Rightarrow> terminal_mode option \<Rightarrow> grid_state option \<Rightarrow> bool" where
  "showTerminalInterrupt connection chip mode grid =
     (let seeded = (case grid of None \<Rightarrow> False | Some g \<Rightarrow> gs_seeded g)
      in if connection \<noteq> Connected then False
         else if (if seeded then gs_altScreen (the grid) else mode = Some TuiMode) then False
         else if (case chip of Some (ChipRunning _) \<Rightarrow> True | _ \<Rightarrow> False) then True
         else if seeded then \<not> gs_predictOk (the grid)
         else False)"

section \<open>The pane\<close>

text \<open>
  The part of the hook that carries input, while it shows one thread.  A post waits in the chain with the recovery
  cycle that was current when it was made (\<open>requestReconnectRef\<close>, null once the recovery has stopped;
  \<open>ip_cycles\<close> numbers the cycles); at most one is on the network.  \<open>ip_sent\<close> lists the requests made, \<open>ip_skipped\<close>
  the posts given up because their recovery cycle had ended, \<open>ip_lost\<close> counts the bytes dropped from the queue, and
  \<open>ip_cleared\<close> is the text that was in the queue and the buffer when the recovery stopped.
\<close>

record input_post =
  po_input :: string
  po_seq :: "nat option"
  po_owner :: "nat option"

record input_pane =
  ip_gridRenderer :: bool
  ip_grid :: grid_state
  ip_prediction :: prediction
  ip_seqCounter :: nat
  ip_connection :: connection_state
  ip_buffer :: string
  ip_timer :: "nat option"
  ip_queue :: input_queue
  ip_owner :: "nat option"
  ip_cycles :: nat
  ip_chain :: "input_post list"
  ip_inFlight :: "input_post option"
  ip_sent :: "input_post list"
  ip_skipped :: "input_post list"
  ip_lost :: nat
  ip_cleared :: string

definition applyGridFrameToState :: "grid_frame \<Rightarrow> input_pane \<Rightarrow> input_pane \<times> bool" where
  "applyGridFrameToState f p =
     (case applyGridFrame (ip_grid p) f of (state, discontinuity) \<Rightarrow>
        if discontinuity then (p, False)
        else (p\<lparr>ip_grid := state,
                ip_prediction :=
                  (if \<not> gs_predictOk state then emptyPredictionState
                   else case gs_appliedInputSeq state of
                          None \<Rightarrow> ip_prediction p
                        | Some n \<Rightarrow> ackApplied (ip_prediction p) n)\<rparr>, True))"

definition resetGridState :: "input_pane \<Rightarrow> input_pane" where
  "resetGridState p = p\<lparr>ip_grid := emptyGridState, ip_prediction := emptyPredictionState\<rparr>"

definition flushTerminalInput :: "input_pane \<Rightarrow> input_pane" where
  "flushTerminalInput p =
     (let pending = ip_buffer p; p1 = p\<lparr>ip_timer := None, ip_buffer := []\<rparr>
      in if ip_connection p \<noteq> Connected
         then let p2 = p1\<lparr>ip_prediction := emptyPredictionState\<rparr>
              in if pending \<noteq> []
                 then case enqueueTerminalInput (ip_queue p2) pending of
                        (q, droppedBytes) \<Rightarrow> p2\<lparr>ip_queue := q, ip_lost := ip_lost p2 + droppedBytes\<rparr>
                 else p2
         else case takeQueuedTerminalInput (ip_queue p1) of
                (drained, queuedText) \<Rightarrow>
                  let p2 = p1\<lparr>ip_queue := drained\<rparr>; input = queuedText @ pending
                  in if input = [] then p2
                     else let p3 = (if ip_gridRenderer p2
                                    then let seq = ip_seqCounter p2 + 1
                                         in p2\<lparr>ip_seqCounter := seq, ip_prediction := assignFlushSeq (ip_prediction p2) seq\<rparr>
                                    else p2);
                              seq = (if ip_gridRenderer p2 then Some (ip_seqCounter p3) else None)
                          in p3\<lparr>ip_chain := ip_chain p3 @ [\<lparr>po_input = input, po_seq = seq, po_owner = ip_owner p3\<rparr>]\<rparr>)"

definition sendTerminalInput :: "string \<Rightarrow> bool \<Rightarrow> input_pane \<Rightarrow> input_pane" where
  "sendTerminalInput s flushImmediately p =
     (if s = [] then p
      else let p1 = (if ip_gridRenderer p
                     then p\<lparr>ip_prediction :=
                            (if gs_predictOk (ip_grid p) \<and> ip_connection p = Connected
                             then fst (predictKeystroke (ip_prediction p) s) else emptyPredictionState)\<rparr>
                     else p);
               bufferWasEmpty = (ip_buffer p1 = []);
               p2 = p1\<lparr>ip_buffer := ip_buffer p1 @ s, ip_timer := None\<rparr>
           in if flushImmediately then flushTerminalInput p2
              else p2\<lparr>ip_timer := Some (if ip_gridRenderer p2 \<and> bufferWasEmpty then 0 else 20)\<rparr>)"

text \<open>The effect that flushes when the terminal is connected again.\<close>

definition reconnect_effect :: "input_pane \<Rightarrow> input_pane" where
  "reconnect_effect p =
     (if ip_connection p \<noteq> Connected then p
      else if \<not> hasQueuedTerminalInput (ip_queue p) \<and> ip_buffer p = [] then p
      else flushTerminalInput p)"

definition timer_fires :: "input_pane \<Rightarrow> input_pane" where
  "timer_fires p = (if ip_timer p = None then p else flushTerminalInput p)"

text \<open>The next post of the chain starts when the one before has ended: \<open>postInput\<close> up to the request, and its
  answer.\<close>

definition post_starts :: "input_pane \<Rightarrow> input_pane" where
  "post_starts p =
     (case (ip_inFlight p, ip_chain p) of
        (None, x # xs) \<Rightarrow>
          if po_owner x \<noteq> ip_owner p then p\<lparr>ip_chain := xs, ip_skipped := ip_skipped p @ [x]\<rparr>
          else p\<lparr>ip_chain := xs, ip_inFlight := Some x, ip_sent := ip_sent p @ [x]\<rparr>
      | _ \<Rightarrow> p)"

datatype post_answer = AnswerOk | AnswerUnauthorized | AnswerFailed nat | AnswerNetworkError

definition post_ends :: "post_answer \<Rightarrow> input_pane \<Rightarrow> input_pane" where
  "post_ends answer p =
     (case ip_inFlight p of
        None \<Rightarrow> p
      | Some x \<Rightarrow>
          let p1 = p\<lparr>ip_inFlight := None\<rparr>
          in if po_owner x \<noteq> ip_owner p then p1
             else case answer of
                    AnswerOk \<Rightarrow> p1
                  | AnswerUnauthorized \<Rightarrow> p1
                  | AnswerFailed status \<Rightarrow>
                      let p2 = p1\<lparr>ip_prediction := emptyPredictionState\<rparr>
                      in if status \<ge> 500 \<or> status = 0 then p2\<lparr>ip_connection := Reconnecting\<rparr> else p2
                  | AnswerNetworkError \<Rightarrow>
                      p1\<lparr>ip_prediction := emptyPredictionState, ip_connection := Reconnecting\<rparr>)"

text \<open>The connection changes; the recovery cycle is replaced (the effect runs again for the same thread); and the
  recovery stops, on an unauthorized answer or a failure that cannot be retried: the connection stays down, the
  grid is reset and the input that has not been posted is discarded.\<close>

definition setConnectionState :: "connection_state \<Rightarrow> input_pane \<Rightarrow> input_pane" where
  "setConnectionState c p = p\<lparr>ip_connection := c\<rparr>"

definition new_cycle :: "input_pane \<Rightarrow> input_pane" where
  "new_cycle p = p\<lparr>ip_connection := Disconnected, ip_owner := Some (ip_cycles p + 1), ip_cycles := ip_cycles p + 1\<rparr>"

definition stop :: "input_pane \<Rightarrow> input_pane" where
  "stop p =
     (resetGridState p)\<lparr>ip_owner := None, ip_connection := Disconnected,
       ip_cleared := ip_cleared p @ concat (iq_chunks (ip_queue p)) @ ip_buffer p,
       ip_buffer := [], ip_queue := emptyTerminalInputQueue\<rparr>"

definition mount_pane :: "bool \<Rightarrow> input_pane" where
  "mount_pane gridRenderer =
     \<lparr>ip_gridRenderer = gridRenderer, ip_grid = emptyGridState, ip_prediction = emptyPredictionState, ip_seqCounter = 0,
      ip_connection = Disconnected, ip_buffer = [], ip_timer = None, ip_queue = emptyTerminalInputQueue,
      ip_owner = Some 0, ip_cycles = 0, ip_chain = [], ip_inFlight = None, ip_sent = [], ip_skipped = [], ip_lost = 0,
      ip_cleared = []\<rparr>"

end
