(* ===== verification/TerminalInputProps.thy ===== *)
theory TerminalInputProps
  imports TerminalInput "HOL-Library.Sublist"
begin

text \<open>
  What becomes of typed text: the queue keeps the newest bytes of what it is given, cut at a character; the pane
  posts what was typed in its order, and what is missing is counted; the predicted echo is what a line editor makes
  of the text sent; mouse reports can be read back.
\<close>

section \<open>Cutting text at a character\<close>

lemma byte_all:
  assumes "list_all P (map (of_nat :: nat \<Rightarrow> byte) [0..<256])"
  shows "P b"
proof -
  have "unat b \<in> set [0..<256]"
    using byte_lt [of b] by simp
  with assms have "P (of_nat (unat b))"
    unfolding list_all_iff set_map by blast
  then show ?thesis
    by simp
qed

lemma continuation_iff: "and b 0xC0 = (0x80 :: byte) \<longleftrightarrow> 128 \<le> unat b \<and> unat b \<le> 191"
  by (rule byte_all [where P = "\<lambda>b. and b 0xC0 = (0x80 :: byte) \<longleftrightarrow> 128 \<le> unat b \<and> unat b \<le> 191"]) code_simp

lemma utf8_tail_ranges: "utf8_tail b = Some rs \<Longrightarrow> (lo, hi) \<in> set rs \<Longrightarrow> 128 \<le> lo \<and> hi \<le> 191"
  by (auto simp: utf8_tail_def Let_def split: if_splits)

lemma utf8_tail_lead: "utf8_tail b = Some rs \<Longrightarrow> and b 0xC0 \<noteq> (0x80 :: byte)"
  by (auto simp: continuation_iff utf8_tail_def Let_def split: if_splits)

lemma utf8_match_continuations:
  assumes "utf8_match rs bs = length rs" "\<And>lo hi. (lo, hi) \<in> set rs \<Longrightarrow> 128 \<le> lo \<and> hi \<le> 191" "b \<in> set (take (length rs) bs)"
  shows "and b 0xC0 = (0x80 :: byte)"
  using assms by (induction rs bs rule: utf8_match.induct) (fastforce simp: continuation_iff split: if_splits)+

lemma skip_continuation_append:
  "list_all (\<lambda>b. and b 0xC0 = 0x80) xs \<Longrightarrow> skip_continuation (xs @ ys) = skip_continuation ys"
  by (induction xs) auto

lemma skip_continuation_drop: "\<exists>k. skip_continuation bs = drop k bs"
proof (induction bs)
  case (Cons b bs)
  then obtain k where "skip_continuation bs = drop k bs"
    by blast
  then have "skip_continuation (b # bs) = drop (if and b 0xC0 = 0x80 then Suc k else 0) (b # bs)"
    by simp
  then show ?case
    by blast
qed simp

lemma utf8_ok_skip: "utf8_ok bs \<Longrightarrow> utf8_ok (skip_continuation (drop n bs))"
proof (induction bs arbitrary: n rule: utf8_ok.induct)
  case (2 b bs)
  then obtain rs where rs: "utf8_tail b = Some rs" and m: "utf8_match rs bs = length rs" and ok: "utf8_ok (drop (length rs) bs)"
    by (auto split: option.splits)
  note IH = "2.IH" [OF rs ok]
  show ?case
  proof (cases n)
    case 0
    then show ?thesis
      using utf8_tail_lead [OF rs] "2.prems" by simp
  next
    case (Suc k)
    show ?thesis
    proof (cases "k < length rs")
      case True
      have "drop k bs = drop k (take (length rs) bs) @ drop (length rs) bs"
        using True by (metis append_take_drop_id drop_append utf8_match_le m diff_is_0_eq drop0 length_take less_imp_le min.absorb2)
      moreover have "list_all (\<lambda>b. and b 0xC0 = 0x80) (drop k (take (length rs) bs))"
        using utf8_match_continuations [OF m utf8_tail_ranges [OF rs]] by (auto simp: list_all_iff dest: in_set_dropD)
      ultimately have "skip_continuation (drop k bs) = skip_continuation (drop (length rs) bs)"
        by (simp add: skip_continuation_append)
      with IH [of 0] Suc show ?thesis
        by simp
    next
      case False
      then have "drop k bs = drop (k - length rs) (drop (length rs) bs)"
        by simp
      with IH [of "k - length rs"] Suc show ?thesis
        by simp
    qed
  qed
qed simp

lemma text_decode_suffix:
  assumes "utf8_ok bs"
  shows "\<exists>k. text_decode bs = map char_of_byte (drop k bs) \<and> utf8_ok (drop k bs)"
proof (cases "take 3 bs = [0xEF, 0xBB, 0xBF]")
  case True
  then obtain rest where bs: "bs = 0xEF # 0xBB # 0xBF # rest"
    by (metis append_take_drop_id append_Cons append_Nil)
  have "utf8_tail 0xEF = Some [(128, 191), (128, 191)]"
    by code_simp
  with assms bs have "utf8_ok rest"
    by simp
  then have "text_decode bs = map char_of_byte (drop 3 bs) \<and> utf8_ok (drop 3 bs)"
    unfolding text_decode_def using True bs by (simp add: utf8_toString_ok)
  then show ?thesis
    by blast
next
  case False
  then have "text_decode bs = map char_of_byte (drop 0 bs) \<and> utf8_ok (drop 0 bs)"
    using assms by (simp add: text_decode_def utf8_toString_ok)
  then show ?thesis
    by blast
qed

lemma js_text_of_bytes: "utf8_ok bs \<Longrightarrow> js_text (map char_of_byte bs)"
  by (simp add: js_text_def utf8_bytes_def comp_def)

lemma trim_suffix:
  assumes "js_text c"
  shows "\<exists>k. trimChunkToTailBytes c m = drop k c \<and> length (drop k c) \<le> m \<and> js_text (drop k c)"
proof (cases "length c \<le> m")
  case True
  then have "trimChunkToTailBytes c m = drop 0 c \<and> length (drop 0 c) \<le> m \<and> js_text (drop 0 c)"
    using assms by (simp add: trimChunkToTailBytes_def)
  then show ?thesis
    by blast
next
  case False
  let ?bs = "utf8_bytes c"
  obtain k where k: "skip_continuation (drop (length c - m) ?bs) = drop k (drop (length c - m) ?bs)"
    using skip_continuation_drop by blast
  have "utf8_ok (skip_continuation (drop (length c - m) ?bs))"
    using assms utf8_ok_skip by (simp add: js_text_def)
  then obtain j where j: "text_decode (skip_continuation (drop (length c - m) ?bs)) =
      map char_of_byte (drop j (skip_continuation (drop (length c - m) ?bs)))"
    and ok: "utf8_ok (drop j (skip_continuation (drop (length c - m) ?bs)))"
    using text_decode_suffix by blast
  let ?n = "j + (k + (length c - m))"
  have bytes: "drop j (skip_continuation (drop (length c - m) ?bs)) = drop ?n ?bs"
    by (simp add: k add.commute)
  then have "trimChunkToTailBytes c m = drop ?n c"
    using False j by (simp add: trimChunkToTailBytes_def Let_def flip: drop_map)
  moreover have "js_text (drop ?n c)"
    using js_text_of_bytes [OF ok] bytes by (simp flip: drop_map)
  moreover have "length (drop ?n c) \<le> m"
    by simp
  ultimately show ?thesis
    by metis
qed

section \<open>The queue\<close>

definition queue_ok :: "input_queue \<Rightarrow> bool" where
  "queue_ok q \<longleftrightarrow> iq_totalBytes q = length (concat (iq_chunks q)) \<and>
     iq_totalBytes q \<le> TERMINAL_INPUT_QUEUE_MAX_BYTES \<and> list_all js_text (iq_chunks q)"

lemma emptyTerminalInputQueue_ok [simp]: "queue_ok emptyTerminalInputQueue"
  by (simp add: queue_ok_def emptyTerminalInputQueue_def)

lemma drop_oldest_result:
  assumes "drop_oldest chunks t d = (chunks', t', d')" "t = length (concat chunks)"
  shows "\<exists>gone. chunks = gone @ chunks' \<and> t' = length (concat chunks') \<and> d' = d + length (concat gone) \<and>
    (t' > TERMINAL_INPUT_QUEUE_MAX_BYTES \<longrightarrow> length chunks' \<le> 1)"
  using assms
proof (induction chunks t d rule: drop_oldest.induct)
  case (1 removed c cs t d)
  show ?case
  proof (cases "t > TERMINAL_INPUT_QUEUE_MAX_BYTES")
    case True
    with 1 obtain gone where "c # cs = gone @ chunks'" "t' = length (concat chunks')"
      "d' = d + length removed + length (concat gone)" "t' > TERMINAL_INPUT_QUEUE_MAX_BYTES \<longrightarrow> length chunks' \<le> 1"
      by (auto simp: utf8ByteLength_def)
    then have "removed # c # cs = (removed # gone) @ chunks' \<and> t' = length (concat chunks') \<and>
      d' = d + length (concat (removed # gone)) \<and> (t' > TERMINAL_INPUT_QUEUE_MAX_BYTES \<longrightarrow> length chunks' \<le> 1)"
      by simp
    then show ?thesis
      by blast
  next
    case False
    with 1 show ?thesis
      by auto
  qed
qed auto

text \<open>The queue takes what it can: it holds the newest bytes of what it was given, and reports how many it dropped.\<close>

lemma enqueue_newest:
  assumes "queue_ok q" "js_text s" "enqueueTerminalInput q s = (q', dropped)"
  shows "queue_ok q'" "suffix (concat (iq_chunks q')) (concat (iq_chunks q) @ s)"
    "length (concat (iq_chunks q')) + dropped = length (concat (iq_chunks q)) + length s"
proof -
  have "queue_ok q' \<and> suffix (concat (iq_chunks q')) (concat (iq_chunks q) @ s) \<and>
    length (concat (iq_chunks q')) + dropped = length (concat (iq_chunks q)) + length s"
  proof (cases "s = []")
    case True
    with assms show ?thesis
      by (simp add: enqueueTerminalInput_def)
  next
    case False
    obtain chunks t d where dr: "drop_oldest (iq_chunks q @ [s]) (iq_totalBytes q + length s) 0 = (chunks, t, d)"
      by (metis prod_cases3)
    have "iq_totalBytes q + length s = length (concat (iq_chunks q @ [s]))"
      using assms(1) by (simp add: queue_ok_def)
    from drop_oldest_result [OF dr this] obtain gone where
      gone: "iq_chunks q @ [s] = gone @ chunks" "t = length (concat chunks)" "d = length (concat gone)"
        "t > TERMINAL_INPUT_QUEUE_MAX_BYTES \<longrightarrow> length chunks \<le> 1"
      by auto
    have all: "concat (iq_chunks q) @ s = concat gone @ concat chunks"
      by (metis concat.simps concat_append gone(1) append_Nil2)
    have "list_all js_text (iq_chunks q @ [s])"
      using assms(1,2) by (simp add: queue_ok_def)
    then have texts: "list_all js_text chunks"
      unfolding gone(1) by simp
    have len: "length (concat (iq_chunks q)) + length s = length (concat gone) + length (concat chunks)"
      by (metis all length_append)
    show ?thesis
    proof (cases "t > TERMINAL_INPUT_QUEUE_MAX_BYTES")
      case True
      with gone(2,4) obtain c where c: "chunks = [c]"
        by (cases chunks) (auto simp: TERMINAL_INPUT_QUEUE_MAX_BYTES_def)
      with texts obtain k where k: "trimChunkToTailBytes c TERMINAL_INPUT_QUEUE_MAX_BYTES = drop k c"
        "length (drop k c) \<le> TERMINAL_INPUT_QUEUE_MAX_BYTES" "js_text (drop k c)"
        using trim_suffix [of c TERMINAL_INPUT_QUEUE_MAX_BYTES] by auto
      from assms(3) False dr True c k(1) have q': "q' = \<lparr>iq_chunks = [drop k c], iq_totalBytes = length (drop k c)\<rparr>"
        "dropped = d + (t - length (drop k c))"
        by (auto simp: enqueueTerminalInput_def utf8ByteLength_def Let_def)
      have "suffix (drop k c) (concat gone @ c)"
        using suffix_drop suffix_append suffix_order.trans by (metis suffixI)
      with q' k all c gone(2,3) len show ?thesis
        by (simp add: queue_ok_def)
    next
      case False
      with assms(3) \<open>s \<noteq> []\<close> dr have "q' = \<lparr>iq_chunks = chunks, iq_totalBytes = t\<rparr>" "dropped = d"
        by (auto simp: enqueueTerminalInput_def utf8ByteLength_def)
      with False gone(2,3) all texts len show ?thesis
        by (simp add: queue_ok_def suffix_def)
    qed
  qed
  then show "queue_ok q'" "suffix (concat (iq_chunks q')) (concat (iq_chunks q) @ s)"
    "length (concat (iq_chunks q')) + dropped = length (concat (iq_chunks q)) + length s"
    by blast+
qed

section \<open>Runs of the pane\<close>

datatype pane_op =
    Typed string bool
  | TimerFires
  | ReconnectEffect
  | FrameArrives grid_frame
  | PostStarts
  | PostEnds post_answer
  | ConnectionBecomes connection_state
  | NewCycle
  | Stop

fun pane_do :: "pane_op \<Rightarrow> input_pane \<Rightarrow> input_pane" where
  "pane_do (Typed s now) p = sendTerminalInput s now p"
| "pane_do TimerFires p = timer_fires p"
| "pane_do ReconnectEffect p = reconnect_effect p"
| "pane_do (FrameArrives f) p = fst (applyGridFrameToState f p)"
| "pane_do PostStarts p = post_starts p"
| "pane_do (PostEnds answer) p = post_ends answer p"
| "pane_do (ConnectionBecomes c) p = setConnectionState c p"
| "pane_do NewCycle p = new_cycle p"
| "pane_do Stop p = stop p"

fun typed_by :: "pane_op \<Rightarrow> string" where
  "typed_by (Typed s now) = s"
| "typed_by _ = []"

definition carried :: "input_pane \<Rightarrow> string" where
  "carried p = concat (map po_input (ip_sent p @ ip_chain p)) @ concat (iq_chunks (ip_queue p)) @ ip_buffer p"

definition pane_text_ok :: "string \<Rightarrow> input_pane \<Rightarrow> bool" where
  "pane_text_ok typed p \<longleftrightarrow> queue_ok (ip_queue p) \<and> js_text (ip_buffer p) \<and> subseq (carried p) typed \<and>
     length (carried p) + length (concat (map po_input (ip_skipped p))) + ip_lost p + length (ip_cleared p) = length typed"

lemma utf8_ok_append: "utf8_ok a \<Longrightarrow> utf8_ok b \<Longrightarrow> utf8_ok (a @ b)"
proof (induction a rule: utf8_ok.induct)
  case (2 x xs)
  then obtain rs where rs: "utf8_tail x = Some rs" and m: "utf8_match rs xs = length rs" and ok: "utf8_ok (drop (length rs) xs)"
    by (auto split: option.splits)
  have le: "length rs \<le> length xs"
    using utf8_match_le [of rs xs] m by simp
  have "utf8_match rs (xs @ b) = length rs"
    using m by (induction rs xs rule: utf8_match.induct) (auto split: if_splits)
  with "2.IH" [OF rs ok "2.prems"(2)] rs le show ?case
    by simp
qed simp

lemma js_text_append: "js_text a \<Longrightarrow> js_text b \<Longrightarrow> js_text (a @ b)"
  by (simp add: js_text_def utf8_ok_append)

lemma js_text_Nil [simp]: "js_text []"
  by (simp add: js_text_def)

lemma subseq_keep_front: "subseq b c \<Longrightarrow> subseq (a @ c) d \<Longrightarrow> subseq (a @ b) d"
  by (meson subseq_order.trans subseq_append')

lemma flush_carried:
  assumes "ip_connection p = Connected"
  shows "carried (flushTerminalInput p) = carried p" "queue_ok (ip_queue (flushTerminalInput p))"
    "ip_lost (flushTerminalInput p) = ip_lost p" "ip_skipped (flushTerminalInput p) = ip_skipped p"
    "ip_cleared (flushTerminalInput p) = ip_cleared p"
  using assms
  by (auto simp: flushTerminalInput_def takeQueuedTerminalInput_def carried_def emptyTerminalInputQueue_def
      queue_ok_def Let_def)

lemma flush_buffer [simp]: "ip_buffer (flushTerminalInput p) = []"
  by (auto simp: flushTerminalInput_def takeQueuedTerminalInput_def Let_def split: prod.splits)

lemma flush_text_ok:
  assumes "pane_text_ok typed p"
  shows "pane_text_ok typed (flushTerminalInput p)"
proof (cases "ip_connection p = Connected")
  case True
  with assms flush_carried [OF True] show ?thesis
    by (simp add: pane_text_ok_def)
next
  case off: False
  obtain q d where q: "enqueueTerminalInput (ip_queue p) (ip_buffer p) = (q, d)"
    by fastforce
  from assms have "queue_ok (ip_queue p)" "js_text (ip_buffer p)"
    by (simp_all add: pane_text_ok_def)
  note newest = enqueue_newest [OF this q]
  show ?thesis
  proof (cases "ip_buffer p = []")
    case True
    with assms off show ?thesis
      by (simp add: flushTerminalInput_def pane_text_ok_def carried_def Let_def)
  next
    case False
    with off q have p': "flushTerminalInput p = p\<lparr>ip_timer := None, ip_buffer := [], ip_prediction := emptyPredictionState,
        ip_queue := q, ip_lost := ip_lost p + d\<rparr>"
      by (simp add: flushTerminalInput_def Let_def)
    have "subseq (concat (iq_chunks q)) (concat (iq_chunks (ip_queue p)) @ ip_buffer p)"
      using newest(2) by (simp add: suffix_imp_subseq)
    with assms newest p' show ?thesis
      by (auto simp: pane_text_ok_def carried_def intro: subseq_keep_front)
  qed
qed

text \<open>A keystroke: the prediction and the buffer change, and the timer is set or the buffer flushed.\<close>

definition predicted :: "string \<Rightarrow> input_pane \<Rightarrow> prediction" where
  "predicted s p =
     (if \<not> ip_gridRenderer p then ip_prediction p
      else if gs_predictOk (ip_grid p) \<and> ip_connection p = Connected then fst (predictKeystroke (ip_prediction p) s)
      else emptyPredictionState)"

definition keystroke :: "string \<Rightarrow> nat option \<Rightarrow> input_pane \<Rightarrow> input_pane" where
  "keystroke s t p = p\<lparr>ip_prediction := predicted s p, ip_buffer := ip_buffer p @ s, ip_timer := t\<rparr>"

lemma send_is_keystroke:
  "s \<noteq> [] \<Longrightarrow> sendTerminalInput s now p =
     (if now then flushTerminalInput (keystroke s None p)
      else keystroke s (Some (if ip_gridRenderer p \<and> ip_buffer p = [] then 0 else 20)) p)"
  by (cases "ip_gridRenderer p") (simp_all add: sendTerminalInput_def keystroke_def predicted_def Let_def)

lemma keystroke_text_ok:
  assumes "pane_text_ok typed p" "js_text s"
  shows "pane_text_ok (typed @ s) (keystroke s t p)"
proof -
  have "carried (keystroke s t p) = carried p @ s"
    by (simp add: carried_def keystroke_def)
  with assms show ?thesis
    by (simp add: pane_text_ok_def keystroke_def js_text_append)
qed

lemma typed_text_ok:
  assumes "pane_text_ok typed p" "js_text s"
  shows "pane_text_ok (typed @ s) (sendTerminalInput s now p)"
proof (cases "s = []")
  case True
  with assms(1) show ?thesis
    by (simp add: sendTerminalInput_def)
next
  case False
  with keystroke_text_ok [OF assms] flush_text_ok show ?thesis
    by (simp add: send_is_keystroke)
qed

lemma post_starts_text_ok:
  assumes "pane_text_ok typed p"
  shows "pane_text_ok typed (post_starts p)"
proof (cases "ip_inFlight p = None \<and> ip_chain p \<noteq> []")
  case True
  then obtain x xs where x: "ip_inFlight p = None" "ip_chain p = x # xs"
    by (cases "ip_chain p") auto
  show ?thesis
  proof (cases "po_owner x = ip_owner p")
    case same: True
    with x assms show ?thesis
      by (simp add: post_starts_def pane_text_ok_def carried_def)
  next
    case False
    have "subseq (concat (map po_input xs) @ concat (iq_chunks (ip_queue p)) @ ip_buffer p)
        (po_input x @ concat (map po_input xs) @ concat (iq_chunks (ip_queue p)) @ ip_buffer p)"
      by (rule list_emb_append2) simp
    with False x assms show ?thesis
      by (auto simp: post_starts_def pane_text_ok_def carried_def intro: subseq_keep_front)
  qed
next
  case False
  then have "post_starts p = p"
    by (auto simp: post_starts_def split: option.splits list.splits)
  with assms show ?thesis
    by simp
qed

lemma pane_text_ok_cong:
  assumes "pane_text_ok typed p" "ip_sent p' = ip_sent p" "ip_chain p' = ip_chain p" "ip_queue p' = ip_queue p"
    "ip_buffer p' = ip_buffer p" "ip_skipped p' = ip_skipped p" "ip_lost p' = ip_lost p"
    "ip_cleared p' = ip_cleared p"
  shows "pane_text_ok typed p'"
  using assms by (simp add: pane_text_ok_def carried_def)

lemma stop_text_ok:
  assumes "pane_text_ok typed p"
  shows "pane_text_ok typed (stop p)"
proof -
  have "subseq (concat (map po_input (ip_sent p @ ip_chain p)) @ []) typed"
    using assms by (intro subseq_keep_front [of "[]" "concat (iq_chunks (ip_queue p)) @ ip_buffer p"])
      (simp_all add: pane_text_ok_def carried_def)
  with assms show ?thesis
    by (simp add: stop_def resetGridState_def pane_text_ok_def carried_def emptyTerminalInputQueue_def queue_ok_def)
qed

lemma pane_do_text_ok:
  assumes "pane_text_ok typed p" "js_text (typed_by x)"
  shows "pane_text_ok (typed @ typed_by x) (pane_do x p)"
proof (cases x)
  case (Typed s now)
  with assms typed_text_ok show ?thesis
    by simp
next
  case (FrameArrives f)
  then show ?thesis
    by (auto simp: applyGridFrameToState_def split: prod.splits intro!: pane_text_ok_cong [OF assms(1)])
next
  case (PostEnds answer)
  then show ?thesis
    by (auto simp: post_ends_def Let_def split: option.splits post_answer.splits intro!: pane_text_ok_cong [OF assms(1)])
qed (use assms(1) flush_text_ok [OF assms(1)] post_starts_text_ok [OF assms(1)] stop_text_ok [OF assms(1)] in
    \<open>auto simp: timer_fires_def reconnect_effect_def setConnectionState_def new_cycle_def pane_text_ok_def carried_def\<close>)

lemma pane_run_text_ok:
  "list_all (\<lambda>x. js_text (typed_by x)) ops \<Longrightarrow> pane_text_ok typed p \<Longrightarrow>
     pane_text_ok (typed @ concat (map typed_by ops)) (fold pane_do ops p)"
proof (induction ops arbitrary: typed p)
  case (Cons x ops)
  then have "pane_text_ok (typed @ typed_by x) (pane_do x p)"
    by (simp add: pane_do_text_ok)
  from Cons.IH [OF _ this] Cons.prems(1) show ?case
    by simp
qed simp

lemma mount_text_ok: "pane_text_ok [] (mount_pane g)"
  by (simp add: pane_text_ok_def mount_pane_def carried_def emptyTerminalInputQueue_def queue_ok_def)

text \<open>C8: 
  While the pane shows one thread, whatever the connection, the answers and the frames do, the requests made, the posts
  that wait, the queue and the buffer together hold what was typed, in its order.  What is missing is accounted for to
  the byte: the posts given up because their recovery cycle had ended, the bytes the queue reported as dropped, and the
  text that was queued or buffered when the recovery stopped (an unauthorized answer or a failure without retry), which
  the pane discards.  The queue stays within its cap.
\<close>

theorem typed_text_in_order:
  assumes "list_all (\<lambda>x. js_text (typed_by x)) ops"
  shows "(let p = fold pane_do ops (mount_pane g); typed = concat (map typed_by ops)
          in subseq (carried p) typed \<and>
             length (carried p) + length (concat (map po_input (ip_skipped p))) + ip_lost p + length (ip_cleared p) = length typed \<and>
             length (concat (iq_chunks (ip_queue p))) \<le> TERMINAL_INPUT_QUEUE_MAX_BYTES)"
  using pane_run_text_ok [OF assms mount_text_ok, of g] by (simp add: pane_text_ok_def queue_ok_def Let_def)

text \<open>Without a stop nothing is cleared.\<close>

lemma cleared_only_by_stop:
  assumes "Stop \<notin> set ops"
  shows "ip_cleared (fold pane_do ops p) = ip_cleared p"
proof -
  have flush: "ip_cleared (flushTerminalInput q) = ip_cleared q" for q
    by (auto simp: flushTerminalInput_def takeQueuedTerminalInput_def Let_def split: prod.splits)
  have "ip_cleared (pane_do x q) = ip_cleared q" if "x \<noteq> Stop" for x q
    using that
    by (cases x) (auto simp: sendTerminalInput_def timer_fires_def reconnect_effect_def applyGridFrameToState_def
        post_starts_def post_ends_def setConnectionState_def new_cycle_def flush Let_def
        split: prod.splits option.splits list.splits post_answer.splits)
  with assms show ?thesis
    by (induction ops arbitrary: p) auto
qed

section \<open>Ghosts\<close>

text \<open>What a line editor makes of its line when it receives text: a delete takes the last character back.\<close>

fun line_edit :: "string \<Rightarrow> string \<Rightarrow> string" where
  "line_edit line [] = line"
| "line_edit line (c # s) = line_edit (if c = DEL then pop_char line else line @ [c]) s"

definition echoes :: "string \<Rightarrow> string \<Rightarrow> bool" where
  "echoes keys t \<longleftrightarrow> (\<forall>line. line_edit line keys = line @ t)"

definition starts_char :: "string \<Rightarrow> bool" where
  "starts_char t \<longleftrightarrow> (case t of [] \<Rightarrow> True | c # _ \<Rightarrow> \<not> is_continuation c)"

lemma line_edit_append: "line_edit line (a @ b) = line_edit (line_edit line a) b"
  by (induction a arbitrary: line) auto

lemma line_edit_plain: "DEL \<notin> set s \<Longrightarrow> line_edit line s = line @ s"
  by (induction s arbitrary: line) auto

lemma echoes_Nil [simp]: "echoes [] t \<longleftrightarrow> t = []"
  by (simp add: echoes_def)

lemma echoes_printable: "echoes keys t \<Longrightarrow> isPredictablePrintable s \<Longrightarrow> echoes (keys @ s) (t @ s)"
proof -
  assume e: "echoes keys t" and "isPredictablePrintable s"
  then have "DEL \<notin> set s"
    by (auto simp: isPredictablePrintable_def list_ex_iff is_control_def split: if_splits)
  with e show ?thesis
    by (simp add: echoes_def line_edit_append line_edit_plain)
qed

lemma dropWhile_continuation:
  assumes "starts_char t" "t \<noteq> []"
  shows "\<exists>c r. dropWhile is_continuation (rev t) = c # r \<and> prefix (rev r) t"
proof -
  obtain c s where t: "t = c # s" "\<not> is_continuation c"
    using assms by (cases t) (auto simp: starts_char_def)
  then have "dropWhile is_continuation (rev t) \<noteq> []"
    by auto
  then obtain d r where d: "dropWhile is_continuation (rev t) = d # r"
    by (cases "dropWhile is_continuation (rev t)") auto
  have "suffix (d # r) (rev t)"
    unfolding d [symmetric] by (rule suffix_dropWhile)
  then have "suffix r (rev t)"
    by (meson suffix_ConsD)
  then have "prefix (rev r) t"
    by (simp add: suffix_to_prefix)
  with d show ?thesis
    by auto
qed

lemma pop_char_append: "starts_char t \<Longrightarrow> t \<noteq> [] \<Longrightarrow> pop_char (line @ t) = line @ pop_char t"
proof -
  assume "starts_char t" "t \<noteq> []"
  then obtain d r where d: "dropWhile is_continuation (rev t) = d # r"
    using dropWhile_continuation by blast
  have "dropWhile is_continuation (rev t @ rev line) = dropWhile is_continuation (rev t) @ rev line"
    using d by (metis dropWhile_append1 dropWhile_eq_Nil_conv list.distinct(1))
  with d show ?thesis
    by (simp add: pop_char_def)
qed

lemma pop_char_starts: "starts_char t \<Longrightarrow> starts_char (pop_char t)"
proof (cases "t = []")
  case False
  assume t: "starts_char t"
  with False obtain d r where d: "dropWhile is_continuation (rev t) = d # r" and p: "prefix (rev r) t"
    using dropWhile_continuation by blast
  from d have "pop_char t = rev r"
    by (simp add: pop_char_def)
  with p t show ?thesis
    by (auto simp: starts_char_def prefix_def split: list.splits)
qed (simp add: starts_char_def pop_char_def)

lemma echoes_delete:
  "echoes keys t \<Longrightarrow> starts_char t \<Longrightarrow> t \<noteq> [] \<Longrightarrow> echoes (keys @ [DEL]) (pop_char t)"
  by (simp add: echoes_def line_edit_append pop_char_append)

lemma js_text_starts: "js_text s \<Longrightarrow> starts_char (t @ s)" if "starts_char t"
proof (cases t)
  case Nil
  assume s: "js_text s"
  show ?thesis
  proof (cases s)
    case (Cons c r)
    with s obtain rs where "utf8_tail (byte_of_char c) = Some rs"
      by (auto simp: js_text_def utf8_bytes_def split: option.splits)
    from utf8_tail_lead [OF this] have "\<not> is_continuation c"
      by (auto simp: continuation_iff is_continuation_def byte_of_char_def unat_of_nat)
    with Nil Cons show ?thesis
      by (simp add: starts_char_def)
  qed (use Nil in \<open>simp add: starts_char_def\<close>)
qed (use that in \<open>simp add: starts_char_def\<close>)

text \<open>Every ghost comes from input the pane took: a chunk from the end of the post with its number, the pending text
  from the end of the buffer.\<close>

definition made :: "input_pane \<Rightarrow> input_post set" where
  "made p = set (ip_sent p) \<union> set (ip_chain p) \<union> set (ip_skipped p)"

definition chunk_ok :: "input_pane \<Rightarrow> nat \<times> string \<Rightarrow> bool" where
  "chunk_ok p c \<longleftrightarrow> fst c \<le> ip_seqCounter p \<and>
     (\<exists>x \<in> made p. \<exists>before keys. po_seq x = Some (fst c) \<and> po_input x = before @ keys \<and> echoes keys (snd c))"

definition ghosts_ok :: "input_pane \<Rightarrow> bool" where
  "ghosts_ok p \<longleftrightarrow>
     (ip_gridRenderer p \<or> ip_prediction p = emptyPredictionState) \<and>
     starts_char (pn_pendingText (ip_prediction p)) \<and>
     (\<exists>before keys. ip_buffer p = before @ keys \<and> echoes keys (pn_pendingText (ip_prediction p))) \<and>
     sorted_wrt (<) (map fst (pn_chunks (ip_prediction p))) \<and>
     (\<forall>c \<in> set (pn_chunks (ip_prediction p)). chunk_ok p c)"

lemma ghosts_okD:
  assumes "ghosts_ok p"
  obtains before keys where "ip_buffer p = before @ keys" "echoes keys (pn_pendingText (ip_prediction p))"
    "starts_char (pn_pendingText (ip_prediction p))"
  using assms by (auto simp: ghosts_ok_def)

lemma no_ghosts_ok:
  assumes "ip_prediction p = emptyPredictionState"
  shows "ghosts_ok p"
proof -
  have "\<exists>before keys. ip_buffer p = before @ keys \<and> echoes keys []"
    by (rule exI [of _ "ip_buffer p"], rule exI [of _ "[]"]) simp
  then show ?thesis
    using assms unfolding ghosts_ok_def by (auto simp: emptyPredictionState_def starts_char_def)
qed

lemma chunk_ok_mono:
  "chunk_ok p c \<Longrightarrow> made p \<subseteq> made p' \<Longrightarrow> ip_seqCounter p \<le> ip_seqCounter p' \<Longrightarrow> chunk_ok p' c"
  unfolding chunk_ok_def by (meson le_trans subsetD)

lemma ghosts_ok_cong:
  assumes "ghosts_ok p" "ip_prediction p' = ip_prediction p" "ip_buffer p' = ip_buffer p"
    "ip_gridRenderer p' = ip_gridRenderer p" "made p \<subseteq> made p'" "ip_seqCounter p' = ip_seqCounter p"
  shows "ghosts_ok p'"
  using assms chunk_ok_mono [of p _ p'] by (auto simp: ghosts_ok_def)

lemma ackApplied_keeps:
  "pn_pendingText (ackApplied q n) = pn_pendingText q"
  "pn_chunks (ackApplied q n) = filter (\<lambda>c. fst c > n) (pn_chunks q)"
  "ackApplied emptyPredictionState n = emptyPredictionState"
  by (auto simp: ackApplied_def emptyPredictionState_def list_ex_iff not_le intro: filter_True [symmetric])

lemma ack_ghosts_ok:
  assumes "ghosts_ok p"
  shows "ghosts_ok (p\<lparr>ip_grid := g, ip_prediction := ackApplied (ip_prediction p) n\<rparr>)"
proof -
  let ?p = "p\<lparr>ip_grid := g, ip_prediction := ackApplied (ip_prediction p) n\<rparr>"
  have "chunk_ok ?p c = chunk_ok p c" for c
    by (simp add: chunk_ok_def made_def)
  moreover have "sorted_wrt (<) (map fst (filter (\<lambda>c. fst c > n) (pn_chunks (ip_prediction p))))"
    using assms by (auto simp: ghosts_ok_def sorted_wrt_map intro: sorted_wrt_filter)
  ultimately show ?thesis
    using assms by (auto simp: ghosts_ok_def ackApplied_keeps)
qed

lemma frame_ghosts_ok:
  assumes "ghosts_ok p"
  shows "ghosts_ok (fst (applyGridFrameToState f p))"
proof -
  obtain g d where g: "applyGridFrame (ip_grid p) f = (g, d)"
    by fastforce
  consider "d" | "\<not> d" "\<not> gs_predictOk g" | "\<not> d" "gs_predictOk g" "gs_appliedInputSeq g = None"
    | n where "\<not> d" "gs_predictOk g" "gs_appliedInputSeq g = Some n"
    by (cases "gs_appliedInputSeq g") auto
  then show ?thesis
  proof cases
    case 2
    with g show ?thesis
      by (intro no_ghosts_ok) (simp add: applyGridFrameToState_def)
  next
    case 3
    with g show ?thesis
      by (auto simp: applyGridFrameToState_def made_def intro!: ghosts_ok_cong [OF assms])
  next
    case (4 n)
    with g ack_ghosts_ok [OF assms, where g = g and n = n] show ?thesis
      by (simp add: applyGridFrameToState_def)
  qed (use g assms in \<open>simp add: applyGridFrameToState_def\<close>)
qed

lemma predicted_cases:
  assumes "ip_gridRenderer p \<or> ip_prediction p = emptyPredictionState"
  shows "predicted s p = emptyPredictionState \<or>
    ip_gridRenderer p \<and> isPredictablePrintable s \<and>
      predicted s p = (ip_prediction p)\<lparr>pn_pendingText := pn_pendingText (ip_prediction p) @ s\<rparr> \<or>
    ip_gridRenderer p \<and> s = [DEL] \<and> pn_pendingText (ip_prediction p) \<noteq> [] \<and>
      predicted s p = (ip_prediction p)\<lparr>pn_pendingText := pop_char (pn_pendingText (ip_prediction p))\<rparr>"
  using assms by (cases "ip_gridRenderer p") (simp_all add: predicted_def predictKeystroke_def)

lemma keystroke_ghosts_ok:
  assumes "ghosts_ok p" "js_text s"
  shows "ghosts_ok (keystroke s t p)"
proof -
  let ?p = "keystroke s t p" and ?q = "ip_prediction p"
  from assms(1) obtain before keys where keys: "ip_buffer p = before @ keys" "echoes keys (pn_pendingText ?q)"
    "starts_char (pn_pendingText ?q)"
    by (rule ghosts_okD)
  have made: "made ?p = made p" "ip_seqCounter ?p = ip_seqCounter p"
    by (simp_all add: made_def keystroke_def)
  then have chunks: "chunk_ok ?p c = chunk_ok p c" for c
    by (simp add: chunk_ok_def)
  consider "ip_prediction ?p = emptyPredictionState"
    | "ip_gridRenderer p" "isPredictablePrintable s" "ip_prediction ?p = ?q\<lparr>pn_pendingText := pn_pendingText ?q @ s\<rparr>"
    | "ip_gridRenderer p" "s = [DEL]" "pn_pendingText ?q \<noteq> []" "ip_prediction ?p = ?q\<lparr>pn_pendingText := pop_char (pn_pendingText ?q)\<rparr>"
    using assms(1) predicted_cases [of p s] by (auto simp: keystroke_def ghosts_ok_def)
  then show ?thesis
  proof cases
    case 1
    then show ?thesis
      by (rule no_ghosts_ok)
  next
    case 2
    have "ip_buffer ?p = before @ (keys @ s)" "echoes (keys @ s) (pn_pendingText (ip_prediction ?p))"
      using 2 keys echoes_printable by (simp_all add: keystroke_def)
    moreover have "starts_char (pn_pendingText (ip_prediction ?p))"
      using 2 keys(3) js_text_starts assms(2) by simp
    ultimately show ?thesis
      using assms(1) 2 chunks by (auto simp: ghosts_ok_def keystroke_def)
  next
    case 3
    have "ip_buffer ?p = before @ (keys @ [DEL])" "echoes (keys @ [DEL]) (pn_pendingText (ip_prediction ?p))"
      using 3 keys echoes_delete by (simp_all add: keystroke_def)
    moreover have "starts_char (pn_pendingText (ip_prediction ?p))"
      using 3 keys(3) pop_char_starts by simp
    ultimately show ?thesis
      using assms(1) 3 chunks by (auto simp: ghosts_ok_def keystroke_def)
  qed
qed

lemma flush_ghosts_ok:
  assumes "ghosts_ok p"
  shows "ghosts_ok (flushTerminalInput p)"
proof -
  let ?q = "ip_prediction p" and ?input = "concat (iq_chunks (ip_queue p)) @ ip_buffer p"
  from assms obtain before keys where keys: "ip_buffer p = before @ keys" "echoes keys (pn_pendingText ?q)"
    by (rule ghosts_okD)
  consider "ip_connection p \<noteq> Connected" | "\<not> ip_gridRenderer p" | "ip_connection p = Connected" "?input = []"
    | "ip_connection p = Connected" "?input \<noteq> []" "ip_gridRenderer p"
    by blast
  then show ?thesis
  proof cases
    case 1
    then show ?thesis
      by (intro no_ghosts_ok) (simp add: flushTerminalInput_def Let_def split: prod.splits)
  next
    case 2
    with assms show ?thesis
      by (intro no_ghosts_ok)
         (simp add: ghosts_ok_def flushTerminalInput_def takeQueuedTerminalInput_def Let_def split: prod.splits)
  next
    case 3
    then show ?thesis
      by (intro ghosts_ok_cong [OF assms]) (simp_all add: flushTerminalInput_def takeQueuedTerminalInput_def made_def Let_def)
  next
    case 4
    let ?seq = "Suc (ip_seqCounter p)" and ?p = "flushTerminalInput p"
    let ?x = "\<lparr>po_input = ?input, po_seq = Some ?seq, po_owner = ip_owner p\<rparr>"
    have p': "ip_prediction ?p = assignFlushSeq ?q ?seq" "ip_seqCounter ?p = ?seq" "made ?p = insert ?x (made p)"
      "ip_gridRenderer ?p"
      using 4 by (auto simp: flushTerminalInput_def takeQueuedTerminalInput_def made_def Let_def)
    have old: "chunk_ok ?p c" if "chunk_ok p c" for c
      using chunk_ok_mono [OF that, of ?p] p' by auto
    have "\<exists>x \<in> made ?p. \<exists>before keys. po_seq x = Some ?seq \<and> po_input x = before @ keys \<and> echoes keys (pn_pendingText ?q)"
      by (rule bexI [of _ ?x], rule exI [of _ "concat (iq_chunks (ip_queue p)) @ before"], rule exI [of _ keys])
         (use keys p' in simp_all)
    then have new: "chunk_ok ?p (?seq, pn_pendingText ?q)"
      using p' by (simp add: chunk_ok_def)
    have le: "fst c < ?seq" if "c \<in> set (pn_chunks ?q)" for c
      using assms that by (auto simp: ghosts_ok_def chunk_ok_def less_Suc_eq_le)
    show ?thesis
    proof (cases "pn_pendingText ?q = []")
      case True
      with assms p' old show ?thesis
        by (auto simp: ghosts_ok_def assignFlushSeq_def)
    next
      case False
      with assms p' old new le show ?thesis
        by (auto simp: ghosts_ok_def assignFlushSeq_def starts_char_def sorted_wrt_append)
    qed
  qed
qed

lemma post_starts_ghosts_ok:
  assumes "ghosts_ok p"
  shows "ghosts_ok (post_starts p)"
  by (rule ghosts_ok_cong [OF assms]) (auto simp: post_starts_def made_def split: option.splits list.splits)

lemma post_ends_ghosts_ok:
  assumes "ghosts_ok p"
  shows "ghosts_ok (post_ends answer p)"
proof (cases "ip_prediction (post_ends answer p) = emptyPredictionState")
  case False
  then have "ip_prediction (post_ends answer p) = ip_prediction p"
    by (auto simp: post_ends_def Let_def split: option.splits post_answer.splits if_splits)
  then show ?thesis
    by (rule ghosts_ok_cong [OF assms])
       (auto simp: post_ends_def made_def Let_def split: option.splits post_answer.splits)
qed (rule no_ghosts_ok)

lemma pane_do_ghosts_ok:
  assumes "ghosts_ok p" "js_text (typed_by x)"
  shows "ghosts_ok (pane_do x p)"
proof (cases x)
  case (Typed s now)
  with assms keystroke_ghosts_ok flush_ghosts_ok show ?thesis
    by (cases "s = []") (simp_all add: send_is_keystroke, simp add: sendTerminalInput_def)
next
  case (ConnectionBecomes c)
  then show ?thesis
    by (auto simp: setConnectionState_def made_def intro!: ghosts_ok_cong [OF assms(1)])
next
  case NewCycle
  then show ?thesis
    by (auto simp: new_cycle_def made_def intro!: ghosts_ok_cong [OF assms(1)])
next
  case Stop
  then show ?thesis
    by (simp add: stop_def resetGridState_def no_ghosts_ok)
qed (use assms flush_ghosts_ok frame_ghosts_ok post_starts_ghosts_ok post_ends_ghosts_ok in
    \<open>simp_all add: timer_fires_def reconnect_effect_def\<close>)

lemma pane_run_ghosts_ok:
  "list_all (\<lambda>x. js_text (typed_by x)) ops \<Longrightarrow> ghosts_ok p \<Longrightarrow> ghosts_ok (fold pane_do ops p)"
  by (induction ops arbitrary: p) (simp_all add: pane_do_ghosts_ok)

text \<open>C38: 
  Every ghost on the screen is what a line editor would append for input of this pane: each numbered chunk for the
  end of the post with its number, the pending text for the end of the buffer.  Chunks are in the order of their
  numbers, which the pane has handed out.
\<close>

theorem ghosts_echo_input:
  assumes "list_all (\<lambda>x. js_text (typed_by x)) ops" "p = fold pane_do ops (mount_pane g)"
  shows "(\<exists>before keys. ip_buffer p = before @ keys \<and> echoes keys (pn_pendingText (ip_prediction p))) \<and>
    sorted_wrt (<) (map fst (pn_chunks (ip_prediction p))) \<and>
    ((n, t) \<in> set (pn_chunks (ip_prediction p)) \<longrightarrow> n \<le> ip_seqCounter p \<and>
      (\<exists>x \<in> made p. \<exists>before keys. po_seq x = Some n \<and> po_input x = before @ keys \<and> echoes keys t))"
proof -
  have "ghosts_ok p"
    unfolding assms(2) by (rule pane_run_ghosts_ok [OF assms(1)]) (rule no_ghosts_ok, simp add: mount_pane_def)
  then have "\<exists>before keys. ip_buffer p = before @ keys \<and> echoes keys (pn_pendingText (ip_prediction p))"
    "sorted_wrt (<) (map fst (pn_chunks (ip_prediction p)))"
    "(n, t) \<in> set (pn_chunks (ip_prediction p)) \<longrightarrow> chunk_ok p (n, t)"
    by (simp_all add: ghosts_ok_def)
  then show ?thesis
    by (simp add: chunk_ok_def)
qed

text \<open>
  The numbers of a page start at zero, while the daemon reports the highest number of any page.  As long as the number
  reported is not below those of this page, the next frame retires every ghost that was flushed, whether or not its
  text has reached the terminal.
\<close>

theorem reloaded_page_loses_ghosts:
  assumes "list_all (\<lambda>x. js_text (typed_by x)) ops" "p = fold pane_do ops (mount_pane g)"
    "applyGridFrameToState f p = (p', True)" "gs_appliedInputSeq (ip_grid p') = Some m" "ip_seqCounter p \<le> m"
  shows "pn_chunks (ip_prediction p') = []"
proof -
  have "ghosts_ok p"
    unfolding assms(2) by (rule pane_run_ghosts_ok [OF assms(1)]) (rule no_ghosts_ok, simp add: mount_pane_def)
  then have "\<not> m < fst c" if "c \<in> set (pn_chunks (ip_prediction p))" for c
    using that assms(5) by (fastforce simp: ghosts_ok_def chunk_ok_def)
  moreover have "ip_prediction p' = emptyPredictionState \<or> ip_prediction p' = ackApplied (ip_prediction p) m"
    using assms(3,4) by (auto simp: applyGridFrameToState_def split: prod.splits if_splits)
  ultimately show ?thesis
    by (auto simp: ackApplied_keeps emptyPredictionState_def filter_empty_conv)
qed

section \<open>Mouse reports\<close>

lemma digit_char_eq: "a < 10 \<Longrightarrow> b < 10 \<Longrightarrow> digit_char a = digit_char b \<longleftrightarrow> a = b"
proof -
  assume "a < 10" "b < 10"
  then have "(of_char (digit_char a) :: nat) = 48 + a" "(of_char (digit_char b) :: nat) = 48 + b"
    by (simp_all add: digit_char_def)
  then show ?thesis
    by (metis add_left_cancel)
qed

lemma show_nat_some: "show_nat n \<noteq> []"
  by (subst show_nat.simps) simp

lemma show_nat_inject: "show_nat m = show_nat n \<Longrightarrow> m = n"
proof (induction m arbitrary: n rule: show_nat.induct)
  case (1 m)
  consider "m < 10" "n < 10" | "m < 10" "\<not> n < 10" | "\<not> m < 10" "n < 10" | "\<not> m < 10" "\<not> n < 10"
    by blast
  then show ?case
  proof cases
    case 4
    with 1(2) have "show_nat (m div 10) = show_nat (n div 10)" "m mod 10 = n mod 10"
      by (simp_all add: show_nat.simps [of m] show_nat.simps [of n] digit_char_eq)
    with 4 1(1) [of "n div 10"] show ?thesis
      by (metis div_mult_mod_eq)
  qed (use 1(2) show_nat_some show_nat_some [symmetric] in \<open>auto simp: show_nat.simps [of m] show_nat.simps [of n] digit_char_eq append_eq_Cons_conv\<close>)
qed

lemma show_nat_digits: "c \<in> set (show_nat n) \<Longrightarrow> (of_char c :: nat) < 58"
proof (induction n rule: show_nat.induct)
  case (1 n)
  then show ?case
    by (cases "n < 10") (auto simp: show_nat.simps [of n] digit_char_def)
qed

text \<open>A number is read up to the first character that is not a digit.\<close>

lemma show_nat_delimited:
  assumes "show_nat m @ c # r = show_nat n @ d # q" "58 \<le> (of_char c :: nat)" "58 \<le> (of_char d :: nat)"
  shows "m = n" "c = d" "r = q"
proof -
  have read: "takeWhile (\<lambda>x. (of_char x :: nat) < 58) (show_nat k @ e # u) = show_nat k" if "58 \<le> (of_char e :: nat)" for k e u
    using show_nat_digits [of _ k] that by (simp add: takeWhile_append)
  then have "show_nat m = show_nat n"
    using assms by metis
  then show "m = n" "c = d" "r = q"
    using assms(1) show_nat_inject by auto
qed

definition mouse_facts :: "mouse_event \<Rightarrow> mouse_kind \<times> mouse_button \<times> bool \<times> bool \<times> bool \<times> int \<times> int" where
  "mouse_facts e =
     (me_kind e, if me_kind e \<in> {WheelUp, WheelDown} then NoButton else me_button e,
      me_shift e, me_alt e, me_ctrl e, max 0 (me_col e), max 0 (me_row e))"

text \<open>The kind, up to the release that the last letter tells, the button and the modifiers, from the code.\<close>

definition read_code :: "bool \<Rightarrow> nat \<Rightarrow> mouse_kind \<times> mouse_button \<times> bool \<times> bool \<times> bool" where
  "read_code release n =
     (if n \<ge> 64 then (if even n then WheelUp else WheelDown)
      else if release then MouseRelease else if odd (n div 32) then MouseMove else MousePress,
      if n \<ge> 64 then NoButton else [LeftButton, MiddleButton, RightButton, NoButton] ! (n mod 4),
      odd (n div 4), odd (n div 8), odd (n div 16))"

lemma read_buttonCode:
  "read_code (me_kind e = MouseRelease) (buttonCode e) =
     (me_kind e, if me_kind e \<in> {WheelUp, WheelDown} then NoButton else me_button e, me_shift e, me_alt e, me_ctrl e)"
  by (cases "me_kind e"; cases "me_button e"; cases "me_shift e"; cases "me_alt e"; cases "me_ctrl e";
      simp add: read_code_def buttonCode_def)

text \<open>
  An SGR report can be read back: two events with the same report agree in kind, button, modifiers and cell, the wheel
  having no button and cells left of or above the screen counting as its edge.
\<close>

theorem mouse_report_readable:
  assumes "me_sgr e" "me_sgr e'" "encodeTerminalMouseEvent e = encodeTerminalMouseEvent e'"
  shows "mouse_facts e = mouse_facts e'"
proof -
  let ?c = "\<lambda>e. nat (max 0 (me_col e) + 1)" and ?r = "\<lambda>e. nat (max 0 (me_row e) + 1)"
    and ?fin = "\<lambda>e. if me_kind e = MouseRelease then CHR ''m'' else CHR ''M''"
  have enc: "encodeTerminalMouseEvent e = CSI @ CHR ''<'' # show_nat (buttonCode e) @ CHR '';'' # show_nat (?c e) @
      CHR '';'' # show_nat (?r e) @ ?fin e # []" if "me_sgr e" for e
    using that by (simp add: encodeTerminalMouseEvent_def Let_def)
  have stop: "58 \<le> (of_char (CHR '';'') :: nat)" "58 \<le> (of_char (?fin e) :: nat)" for e
    by auto
  have 1: "show_nat (buttonCode e) @ CHR '';'' # show_nat (?c e) @ CHR '';'' # show_nat (?r e) @ ?fin e # [] =
      show_nat (buttonCode e') @ CHR '';'' # show_nat (?c e') @ CHR '';'' # show_nat (?r e') @ ?fin e' # []"
    using assms enc by simp
  note code = show_nat_delimited [OF 1 stop(1) stop(1)]
  note col = show_nat_delimited [OF code(3) stop(1) stop(1)]
  note row = show_nat_delimited [OF col(3) stop(2) stop(2)]
  from row(2) have "(me_kind e = MouseRelease) = (me_kind e' = MouseRelease)"
    by (auto split: if_splits)
  with code(1) read_buttonCode [of e] read_buttonCode [of e']
  have "(me_kind e, if me_kind e \<in> {WheelUp, WheelDown} then NoButton else me_button e, me_shift e, me_alt e, me_ctrl e) =
    (me_kind e', if me_kind e' \<in> {WheelUp, WheelDown} then NoButton else me_button e', me_shift e', me_alt e', me_ctrl e')"
    by metis
  with col(1) row(1) show ?thesis
    by (auto simp: mouse_facts_def eq_nat_nat_iff split: if_splits)
qed

text \<open>A legacy report stays within printable ASCII, so that the UTF-8 channel carries it byte for byte.\<close>

lemma buttonCode_le: "buttonCode e \<le> 93"
  by (cases "me_kind e"; cases "me_button e"; simp add: buttonCode_def)

lemma and_28_le: "n \<le> 93 \<Longrightarrow> and n 28 \<le> (28 :: nat)"
proof -
  have "list_all (\<lambda>n. and n 28 \<le> (28 :: nat)) [0..<94]"
    by code_simp
  then show "n \<le> 93 \<Longrightarrow> and n 28 \<le> 28"
    by (simp add: list_all_iff)
qed

lemma legacy_report_ascii:
  assumes "\<not> me_sgr e"
  shows "list_all (\<lambda>c. 32 \<le> (of_char c :: nat) \<and> (of_char c :: nat) \<le> 126) (drop 3 (encodeTerminalMouseEvent e))"
  using assms buttonCode_le [of e] and_28_le [OF buttonCode_le, of e]
  by (auto simp: encodeTerminalMouseEvent_def CSI_def Let_def)

section \<open>Typing over a lost connection\<close>

definition demo_key :: "string \<Rightarrow> pane_op" where
  "demo_key s = Typed s False"

definition demo_typing :: "pane_op list" where
  "demo_typing =
     [demo_key ''ls'', TimerFires, ConnectionBecomes Connected, ReconnectEffect, demo_key '' -l'', TimerFires, PostStarts,
      PostEnds AnswerOk, NewCycle, PostStarts, demo_key ''x'', Stop, demo_key ''y'']"

lemma demo_typing_text: "list_all (\<lambda>x. js_text (typed_by x)) demo_typing"
  by (simp add: demo_typing_def demo_key_def js_text_by_list)

theorem typed_text_in_order_witness:
  "subseq (carried (fold pane_do demo_typing (mount_pane True))) ''ls -lxy'' \<and>
   carried (fold pane_do demo_typing (mount_pane True)) = ''lsy'' \<and>
   length (concat (map po_input (ip_skipped (fold pane_do demo_typing (mount_pane True))))) = 3 \<and>
   ip_cleared (fold pane_do demo_typing (mount_pane True)) = ''x''"
proof -
  have "concat (map typed_by demo_typing) = ''ls -lxy''"
    by code_simp
  with typed_text_in_order [OF demo_typing_text, of True]
  have "subseq (carried (fold pane_do demo_typing (mount_pane True))) ''ls -lxy''"
    by (simp only: Let_def)
  moreover have "carried (fold pane_do demo_typing (mount_pane True)) = ''lsy''"
    "length (concat (map po_input (ip_skipped (fold pane_do demo_typing (mount_pane True))))) = 3"
    "ip_cleared (fold pane_do demo_typing (mount_pane True)) = ''x''"
    by code_simp+
  ultimately show ?thesis
    by blast
qed

text \<open>A page that types \<open>la\<close>, takes the \<open>a\<close> back, types \<open>s\<close> and then a \<open>!\<close>; the daemon has seen number 4 of an earlier page.\<close>

definition demo_grid_frame :: "nat \<Rightarrow> nat option \<Rightarrow> grid_frame" where
  "demo_grid_frame n applied =
     \<lparr>gf_generation = n, gf_full = True, gf_cols = 80, gf_rows = 1, gf_alt_screen = False,
      gf_cursor = \<lparr>gc_row = 0, gc_col = 2, gc_visible = True, gc_shape = None, gc_blink = None\<rparr>,
      gf_dirty_rows = [(0, [])], gf_scrollback_push = [], gf_scrollback_dropped = 0, gf_predict_ok = Some True,
      gf_applied_input_seq = applied, gf_mouse = None, gf_app_cursor = None, gf_row_shift = None\<rparr>"

definition demo_ghosts :: "nat option \<Rightarrow> pane_op list" where
  "demo_ghosts applied =
     [ConnectionBecomes Connected, FrameArrives (demo_grid_frame 1 applied), demo_key ''la'', demo_key [DEL], demo_key ''s'',
      TimerFires, demo_key ''!'']"

lemma demo_ghosts_text: "list_all (\<lambda>x. js_text (typed_by x)) (demo_ghosts applied)"
  by (simp add: demo_ghosts_def demo_key_def DEL_def js_text_by_list)

theorem ghosts_echo_input_witness:
  "predictionGhostText (ip_prediction (fold pane_do (demo_ghosts None) (mount_pane True))) = ''ls!'' \<and>
   (\<exists>x \<in> made (fold pane_do (demo_ghosts None) (mount_pane True)). \<exists>before keys.
      po_seq x = Some 1 \<and> po_input x = before @ keys \<and> echoes keys ''ls'')"
proof -
  have ghost: "predictionGhostText (ip_prediction (fold pane_do (demo_ghosts None) (mount_pane True))) = ''ls!''"
    and chunk: "pn_chunks (ip_prediction (fold pane_do (demo_ghosts None) (mount_pane True))) = [(1, ''ls'')]"
    by code_simp+
  from chunk have "(1, ''ls'') \<in> set (pn_chunks (ip_prediction (fold pane_do (demo_ghosts None) (mount_pane True))))"
    by simp
  with ghosts_echo_input [OF demo_ghosts_text [of None] refl, where n = 1 and t = "''ls''" and g = True] ghost show ?thesis
    by blast
qed

theorem reloaded_page_loses_ghosts_witness:
  "pn_chunks (ip_prediction (fold pane_do (demo_ghosts (Some 4)) (mount_pane True))) = [(1, ''ls'')] \<and>
   ip_sent (fold pane_do (demo_ghosts (Some 4)) (mount_pane True)) = [] \<and>
   pn_chunks (ip_prediction (fst (applyGridFrameToState (demo_grid_frame 2 (Some 4))
     (fold pane_do (demo_ghosts (Some 4)) (mount_pane True))))) = []"
proof -
  let ?p = "fold pane_do (demo_ghosts (Some 4)) (mount_pane True)" and ?f = "demo_grid_frame 2 (Some 4)"
  have facts: "snd (applyGridFrameToState ?f ?p)" "gs_appliedInputSeq (ip_grid (fst (applyGridFrameToState ?f ?p))) = Some 4"
    "ip_seqCounter ?p \<le> 4"
    by code_simp+
  then have "applyGridFrameToState ?f ?p = (fst (applyGridFrameToState ?f ?p), True)"
    by (simp add: prod_eq_iff)
  from reloaded_page_loses_ghosts [OF demo_ghosts_text refl this facts(2,3)]
  have "pn_chunks (ip_prediction (fst (applyGridFrameToState ?f ?p))) = []" .
  moreover have "pn_chunks (ip_prediction ?p) = [(1, ''ls'')]" "ip_sent ?p = []"
    by code_simp+
  ultimately show ?thesis
    by blast
qed

definition demo_wheel :: "mouse_button \<Rightarrow> int \<Rightarrow> mouse_event" where
  "demo_wheel b c = \<lparr>me_kind = WheelUp, me_button = b, me_col = c, me_row = 3, me_shift = False, me_alt = True,
     me_ctrl = False, me_sgr = True\<rparr>"

theorem mouse_report_readable_witness:
  "encodeTerminalMouseEvent (demo_wheel LeftButton (- 2)) = ESC # ''[<72;1;4M'' \<and>
   mouse_facts (demo_wheel LeftButton (- 2)) = mouse_facts (demo_wheel NoButton 0)"
proof -
  have "me_sgr (demo_wheel LeftButton (- 2))" "me_sgr (demo_wheel NoButton 0)"
    "encodeTerminalMouseEvent (demo_wheel LeftButton (- 2)) = encodeTerminalMouseEvent (demo_wheel NoButton 0)"
    by code_simp+
  from mouse_report_readable [OF this]
  have "mouse_facts (demo_wheel LeftButton (- 2)) = mouse_facts (demo_wheel NoButton 0)" .
  moreover have "encodeTerminalMouseEvent (demo_wheel LeftButton (- 2)) = ESC # ''[<72;1;4M''"
    by code_simp
  ultimately show ?thesis
    by blast
qed

end
