(* ===== verification/Spec2Isabelle.thy ===== *)
theory Spec2Isabelle
  imports Link HandlerStore FrameQueue EventBus AgentRuntimeProps FrameProps DecodeTotal TerminalFreshness QuestionProps TranscriptProps InvocationRuns TerminalStreamProps PlaceVisits TerminalGridProps TerminalInputProps
begin

text \<open>
  Bud connects a hosted service (\<open>service/\<close>, TypeScript) with a daemon on a user's machine
  (\<open>bud/\<close>, Rust) and with a web client (\<open>web/\<close>).  This library verifies the part of the service
  that everything else rests on: the durable state of operations and streams, the data plane that moves
  bytes between daemon and service, the wire codec, the event streams that keep clients up to date, the
  queue of agent invocations, the client's transcript, the contracts between the agent, its terminal
  and the user, and the presence of the user at their places, which triggers automations.

  \<^bold>\<open>How the parts interact.\<close>  A daemon opens carriers (gRPC or WebSocket) to the service.  Each
  carrier has a tracker in the data-plane router, which registers streams on it, grants and spends
  flow-control credit and moves the durable rows of the streams through their lifecycle.  Frames cross
  the wire as protobuf envelopes.  When a carrier is lost its streams are reset and its operations become
  unknown until the daemon reports what it still has.  On the client's side, events of a thread are
  numbered, kept in a bounded buffer and replayed to a client that reconnects with its last cursor.

  \<^bold>\<open>Theories and source files.\<close>  (Paths are under \<open>service/src/\<close>.)
  \<^item> Prelude: JavaScript numbers and JSON values, objects as association lists, exceptions as a sum
    type, comparisons and searches, and the interfaces shared by the components: \<open>replay_log\<close> and
    \<open>pruned_log\<close> (a bounded log replayed from a cursor), \<open>lifecycle\<close>, \<open>lifecycle_store\<close> (rows that move
    along a transition table) and \<open>stepwise_store\<close> (a store that moves them one step per call).
  \<^item> Bytes: UTF-8, base64 and BigInt conversions of the runtime.
  \<^item> DaemonState: \<open>runtime/daemon-state.ts\<close> over the tables of \<open>db/schema.ts\<close> it touches.  Every method
    of \<open>DaemonStateStore\<close> is a function on the record \<open>daemon_store\<close>; \<open>ds_step\<close> is one call.  Shown: a
    call moves a row at most one step along its transition table and absorbing states are kept over any
    history of calls, a transition is a compare-and-set, a lost transport marks what depended on it,
    reconciliation answers each reported operation and stream from the rows of the bud that reports it.
  \<^item> Carrier: \<open>transport/carrier-health.ts\<close>, \<open>carrier-policy.ts\<close>, \<open>gateway-drain.ts\<close>.
  \<^item> DataPlane, StreamFlow: \<open>transport/data-plane-router.ts\<close>.  The state \<open>dp_state\<close> holds the trackers by
    key, the durable store, the clock, the supply of identifiers and the trace of frames sent and
    callbacks called.  DataPlane has the registry, selection and capacity, StreamFlow sending, the four
    frame handlers and finalisation.
  \<^item> FlowProps: in-order delivery, the send budget, the receive window.  DataPlaneProps: selection picks
    the best eligible carrier and reports why there is none; finalisation resets the open streams.
    Link: two routers joined by a pair of FIFO channels as the step relation \<open>link_step\<close>; the receiver
    gets a prefix of what was sent and the window recovers when credits arrive.  HandlerStore: the
    effect of a frame on the store is the verdict (keep, reset or close the row of its stream) of an abstract
    specification, and every handler is a sequence of store operations.
  \<^item> FrameQueue: the promise chain per stream (\<open>enqueueDataPlaneStreamFrame\<close>) as the step relation
    \<open>queue_step\<close>, with the interface \<open>fifo_executor\<close>; it justifies that the other theories run one
    handler of a stream to its end before the next.
  \<^item> Wire, WireFrames, Envelope: \<open>proto/wire.ts\<close> and \<open>proto/envelope.ts\<close>, from varints to the
    field-level payloads of all frame types and the envelope.  Writers and readers are tables of rows
    (field number, property, type) as in the code's switch statements.  WireProps and FrameProps: round
    trips of fields, payloads and frames, the classifiers, refusal of unknown payloads.  DecodeTotal:
    decoders always answer.  SampleLib: a concrete instance of the library parameter, for witnesses.
  \<^item> EventBus: \<open>runtime/event-bus.ts\<close>.  AgentRuntime, AgentRuntimeProps:
    \<open>runtime/agent-runtime-state.ts\<close> and the tool presentation of \<open>agent/message-view.ts\<close>.  Shown: a client
    that attaches with a cursor gets exactly the events after it or is told to resynchronise.
  \<^item> TerminalFreshness: \<open>terminal/freshness.ts\<close>.  What the model has seen of a terminal against what
    happened since; a clean verdict is given exactly when nothing did.
  \<^item> TerminalOutput, TerminalOutputProps: \<open>runtime/terminal/output-store.ts\<close>, the stored output of terminals.
    Shown: paged reads of a range and of the tail equal their reference definitions over the stored bytes,
    redelivered frames change nothing, the retention is a bound and removes the oldest rows.
    TerminalStream, TerminalStreamProps: the resuming stream of \<open>routes/threads/terminal.ts\<close> and the client's
    cursor (\<open>web/src/features/threads/terminal-resume.ts\<close>), run with the ingest as the step relation
    \<open>stream_step\<close>: frames are stored, pruned and emitted while the queries of a replay go on, connections drop
    and resume.  Shown, with the interface \<open>kept_along\<close>: the terminal shows the output in order, once, and
    without a gap unless unapplied output was pruned or a replay failed; and it catches up.
  \<^item> TerminalGrid, TerminalGridProps: the grid renderer (\<open>web/src/features/threads/terminal-grid-state.ts\<close>) and
    the viewer counts of \<open>runtime/terminal-session-manager.ts\<close>.  \<open>frame_describes\<close> is the contract of a frame
    with the numbered screens of an attachment.  Shown: a seeded client shows the screen of its generation
    whatever frames are lost, reordered or repeated; the scrollback is the newest part of the lines pushed; the
    daemon's watch follows the viewers if the sends keep their order, and is lost if they do not; a delta of
    another attachment can be taken for the next one.  TerminalInput, TerminalInputProps: typing
    (\<open>terminal-prediction.ts\<close>, \<open>terminal-input-queue.ts\<close>, \<open>terminal-mouse.ts\<close>, \<open>terminal-command-state.ts\<close>,
    \<open>terminal-interrupt.ts\<close> and the input part of \<open>use-terminal-session.ts\<close>) as operations on the record
    \<open>input_pane\<close>.  Shown: what is typed is posted in its order and what is missing is accounted for, cut only at
    characters; a predicted echo is what a line editor makes of input of this pane; mouse reports can be read back.
  \<^item> Questions, QuestionProps: \<open>agent/user-question-contracts.ts\<close>.  Normalised requests are well formed
    and, if their numbers are finite, survive storage as JSON (\<open>agent/user-question-repository.ts\<close>); accepted responses cover every question and the tool result shows them.
  \<^item> Transcript, TranscriptProps: \<open>web/src/features/threads/thread-message-state.ts\<close> and
    \<open>invocation-state.ts\<close>, the client's list of messages and how pages, snapshots and live events change
    it.  Shown, with the interface \<open>loop_invariant\<close>: the list stays free of duplicates and sorted but for older pages put in front, persisted rows
    survive, a reconnect keeps exactly the rows it should, invocations only move forward.
  \<^item> Invocations, InvocationQueue: \<open>agent/invocation-repository.ts\<close>, \<open>invocation-timing.ts\<close> and
    \<open>model-context-order.ts\<close>, the durable queue that decides which worker runs the agent on which thread.
    Each method is a function on the record of tables \<open>inv_db\<close>: admission, claim, lease, start, actions,
    parking, finish, cancellation, review, expiry, recovery.  InvocationProps: an abstract machine for one
    row (\<open>row_step\<close>) that every transaction follows, and the invariants of the table.  InvocationRuns: runs
    of any transactions of any workers (\<open>transaction\<close>, \<open>inv_step\<close>), with the interface \<open>row_predicate\<close> for facts
    about one invocation.  Shown: one worker per thread, a lost lease stays lost, capacity of automations,
    finished work stays finished, tool calls are recorded once, repeated admissions change nothing.
  \<^item> PlacePresence, Places: \<open>personal-data/place-presence.ts\<close>, \<open>places.ts\<close> and the visit reports of
    \<open>location.ts\<close>: where the owner of a phone is among the places they saved, from geofence reports, readings
    and visits that arrive late and out of order.  The tables are the record \<open>place_db\<close>; each handler is a
    function on it, and \<open>applyPresence\<close> the one that decides.  PlaceProps: the published events of a place as a
    journal, an automaton \<open>journal_run\<close> that says which journals make sense, and that every operation follows
    it.  PlaceRuns: runs of all operations (\<open>presence_step\<close>, and \<open>rebase_step\<close> for those that put a row in a new
    position without an event) through the interface \<open>journalled\<close>: the row of a place stands where its journal ends, due departures are settled, an exit and a re-entry commute, one reading
    is no arrival; and an exit that comes too late drops another departure.  PlaceVisits: the nearest place of a
    visit, bounds on the time spent there, the merge of visit reports.
  \<^item> This theory: what the data plane sends arrives unchanged through the codec.

  \<^bold>\<open>Conventions.\<close>
  \<^item> Strings are lists of characters that stand for UTF-8 bytes; where the code measures or trims them,
    \<open>js_length\<close> and \<open>js_trim\<close> do so on the encoding.  Numbers are rationals with the infinities and NaN
    (\<open>js_number\<close>) where the code may see any number, and \<open>int\<close> where a check has made them safe integers;
    64-bit fields are reduced modulo \<open>2 ^ 64\<close> as the code does.
  \<^item> A thrown error is the left side of a sum.  A rejected promise that the code catches is handled where
    it catches it.  \<open>Date.now()\<close> and fresh identifiers are fields of the state or arguments.
  \<^item> Callbacks of streams and listeners are arguments that return or throw; their calls are in the trace.
  \<^item> \<open>JSON\<close>, \<open>Date\<close> and number formatting are the parameter \<open>js_lib\<close>.  What is relied on is named
    \<open>json_text_ok\<close> (parsing a printed plain value gives it back) and \<open>date_text_ok\<close> (a printed date parses to
    itself), and SampleLib has an instance of both.  The schema library's messages and its UUID test are
    parameters as well.
  \<^item> Loops over input bytes take as many iterations as the input has bytes; \<open>decoding_always_answers\<close>
    shows that they are never used up.  All other recursion is structural or has a measure.
  \<^item> \<open>Promise.allSettled\<close> over the carriers of a bud is run in the order of the list: the finalisations
    touch disjoint streams and each tolerates the failure of the others.
  \<^item> Each database statement is atomic.  The transactions of the invocation queue are steps of their own,
    taken one after the other, and read the clock, in microseconds, once; the candidate of a claim may come from an
    older snapshot, and rows that others hold locked are a set it skips.  \<open>claim_revives_canceled\<close> shows what one
    step hides: the claim does not lock the row it reads, so that a transaction in between can also break the
    capacity and the outcomes that hold otherwise.  Other modules' writes are the rules \<open>environment\<close> and \<open>browser_wait\<close>.
  \<^item> A read of terminal output takes its pages from the table as it is at each query, and one more query than
    there are rows is enough.  The frames of a session are ingested one at a time
    (\<open>enqueueSessionIngest\<close>) and follow one another without a gap, as the daemon numbers them.
  \<^item> Coordinates and distances are real numbers and \<open>distanceM\<close> is the formula of the source over them; the
    rounding of doubles is not modelled.  \<open>Date\<close> parsing and the text of a JSON value in SQL are the parameter
    \<open>place_env\<close>, of which nothing is assumed.  Each operation on places runs under the lock of its owner and is
    one step.
  \<^item> The daemon is represented in TerminalGridProps by what docs/proto.md says of its frames and by the
    events of its attachment: it starts unwatched and reports \<open>ready\<close>.  The session row exists while its tasks run.
    The terminal pane stays on one thread.
  \<^item> \<open>localeCompare\<close> is a parameter of the transcript, assumed to be a consistent order.

  \<^bold>\<open>Not modelled.\<close>  Sockets, HTTP and gRPC servers (third-party libraries drive them), the adapters of
  LLM providers, the agent's orchestration loop, which is I/O between the parts above, authentication,
  push delivery, and the Rust daemon and the React components on the other sides of the interfaces.  Of the
  terminal hook of the web client, the recovery cycle (except for what its start and its stop do to the input) and
  the handling of the xterm widget.  Of the
  invocation repository, the continuation of answered waits and the read-only listings.  Proxy and
  file sessions, browser control and the rest of personal data (contacts, health, automations, grants) use
  further tables and are not modelled.
\<close>

section \<open>The data plane over the wire\<close>


lemma wire_frame_arrives:
  assumes "json_text_ok lib" and "date_text_ok lib" and "map_of payload_schemas ty = Some sch"
    and "conforms sch flds" and "body_of sch flds = flds" and "plain (JObj flds)"
    and "protoForFrameType ty = PROTO_VERSION" and "fill_defaults ty = (\<lambda>ob. ob)"
    and "js_text ty" "js_text i" "i \<noteq> []" and "\<bar>t\<bar> \<le> 8640000000000000"
  shows "\<exists>frame bs. wire_frame ty i t flds = JObj frame \<and> encodeBudFrame lib fresh now frame no_options = Inr bs \<and>
    (length bs < 2 ^ 53 \<longrightarrow> decodeBudFrame lib bs = Inr frame)"
proof -
  let ?hd = "[(''proto'', JStr PROTO_VERSION), (''type'', JStr ty), (''id'', JStr i), (''ts'', JInt t), (''ext'', JObj [])]"
  note keys = schema_keys [OF assms(3)]
  have get: "obj_get (?hd @ flds) k = obj_get flds k" if "k \<in> fst ` set sch" for k
    using that keys(3) by (auto simp: js_simps)
  have body: "body_of sch (?hd @ flds) = flds"
  proof -
    have "body_of sch (?hd @ flds) = body_of sch flds"
      unfolding body_of_def by (intro arg_cong [of _ _ concat] map_cong refl) (use get in force)
    with assms(5) show ?thesis by simp
  qed
  have conf: "conforms sch (?hd @ flds)"
    using assms(4) get unfolding conforms_def by (metis fst_conv image_eqI)
  have "plain (JObj (?hd @ flds))"
  proof -
    have new: "k \<notin> {''proto'', ''type'', ''id'', ''ts'', ''ext''}" if "(k, v) \<in> set flds" for k v
    proof -
      from that have "k \<in> fst ` set sch"
        using body_of_entries [of k v sch flds] assms(5) by simp
      then obtain p where "p \<in> set sch" "k = fst p"
        by auto
      then show ?thesis
        using keys(3) by simp
    qed
    have "distinct (map fst (?hd @ flds))"
      using assms(6) new [of "''proto''"] new [of "''type''"] new [of "''id''"] new [of "''ts''"] new [of "''ext''"]
      by (auto simp: image_iff)
    moreover have "js_text ''proto'' \<and> js_text ''type'' \<and> js_text ''id'' \<and> js_text ''ts'' \<and> js_text ''ext'' \<and> js_text PROTO_VERSION"
      by (simp add: js_text_by_list PROTO_VERSION_def)
    ultimately show ?thesis
      using assms(6,9,10,12) by (simp add: MAX_SAFE_INTEGER_def)
  qed
  then have send: "sendable (?hd @ flds) i t"
    using assms(11,12) by (simp add: sendable_def js_simps)
  have ty: "obj_get (?hd @ flds) ''type'' = JStr ty"
    by (simp add: js_simps)
  from field_level_arrives [OF assms(1,2) ty assms(3) conf send, of fresh now] body assms(7,8) show ?thesis
    by (simp add: wire_frame_def arrives_def)
qed


lemma sends_stream_data:
  assumes "getDataPlaneRuntimeStream t sid s = Some st" and "sendDataPlaneStreamData t sid data e m s = (Inr (), s')"
  shows "dp_trace s' = dp_trace s @ [EvSend t (wire_frame ''stream_data'' (''msg_'' @ dp_ulid s (dp_used s)) (dp_now s)
    (stream_data_fields (rs_streamId st) (rs_streamType st) (rs_sendOffset st) data e))]"
  using assms
  by (auto simp: sendDataPlaneStreamData_def Let_def mk_frame_def sendDataPlaneFrame_def seqE_def upd_stream_def upd_tracker_def emit_ev_def
     split: if_splits sum.splits)


lemma stream_data_schema: "map_of payload_schemas ''stream_data'' = Some
   [(''stream_id'', T_string), (''stream_type'', T_enum (map fst STREAM_TYPE_PROTO_VALUES)),
         (''offset'', T_uint), (''data'', T_bytes), (''end_stream'', T_bool)]"
  by (simp add: payload_schemas_def)


text \<open>C19: what the data plane sends survives the wire: a successful send emits one frame, which the codec
  encodes and decodes to the very same frame, and the receiver's schema reads from it the stream, the
  offset and the bytes that were sent.\<close>

theorem stream_data_crosses_wire:
  assumes "json_text_ok lib" and "date_text_ok lib"
    and "getDataPlaneRuntimeStream t sid s = Some st" and "sendDataPlaneStreamData t sid data e m s = (Inr (), s')"
    and "js_text (rs_streamId st)" and "rs_streamId st \<noteq> []"
    and "rs_streamType st \<in> set (map fst STREAM_TYPE_PROTO_VALUES)"
    and "0 \<le> rs_sendOffset st" and "rs_sendOffset st \<le> MAX_SAFE_INTEGER"
    and "js_text (dp_ulid s (dp_used s))" and "\<bar>dp_now s\<bar> \<le> 8640000000000000"
  shows "\<exists>frame bs. dp_trace s' = dp_trace s @ [EvSend t (JObj frame)] \<and>
    encodeBudFrame lib fresh now frame no_options = Inr bs \<and>
    (length bs < 2 ^ 53 \<longrightarrow> decodeBudFrame lib bs = Inr frame \<and>
       parseStreamDataFrame (JObj frame) = Some \<lparr>sd_stream_id = rs_streamId st, sd_stream_type = rs_streamType st,
         sd_offset = rs_sendOffset st, sd_data = b64_encode data, sd_end_stream = e\<rparr>)"
proof -
  let ?i = "''msg_'' @ dp_ulid s (dp_used s)"
  let ?flds = "stream_data_fields (rs_streamId st) (rs_streamType st) (rs_sendOffset st) data e"
  let ?sch = "[(''stream_id'', T_string), (''stream_type'', T_enum (map fst STREAM_TYPE_PROTO_VALUES)),
         (''offset'', T_uint), (''data'', T_bytes), (''end_stream'', T_bool)]"
  have "\<forall>x \<in> set (map fst STREAM_TYPE_PROTO_VALUES). js_text x"
    by code_simp
  with assms(7) have "js_text (rs_streamType st)" by blast
  moreover have "js_text ''stream_id'' \<and> js_text ''stream_type'' \<and> js_text ''offset'' \<and> js_text ''data'' \<and> js_text ''end_stream'' \<and> js_text ''stream_data''"
    by (simp add: js_text_by_list)
  ultimately have plain: "plain (JObj ?flds)" "js_text ''stream_data''"
    using assms(5,8,9) js_text_b64 [of data] by (simp_all add: stream_data_fields_def)
  have conf: "conforms ?sch ?flds" "body_of ?sch ?flds = ?flds"
    using assms(6-9) int_in_iff [of 0 MAX_SAFE_INTEGER "JInt (rs_sendOffset st)"]
    by (simp_all add: conforms_def body_of_def stream_data_fields_def js_simps is_text_def b64_roundtrip)
  have "js_text ?i"
    using assms(10) by (intro js_text_prefixed) simp_all
  moreover have "protoForFrameType ''stream_data'' = PROTO_VERSION" "fill_defaults ''stream_data'' = (\<lambda>ob. ob)"
    by (simp_all add: protoForFrameType_def starts_with_def PROTO_VERSION_def fill_defaults_def fun_eq_iff)
  ultimately obtain frame bs where f: "wire_frame ''stream_data'' ?i (dp_now s) ?flds = JObj frame"
    "encodeBudFrame lib fresh now frame no_options = Inr bs" "length bs < 2 ^ 53 \<longrightarrow> decodeBudFrame lib bs = Inr frame"
    using wire_frame_arrives [OF assms(1,2) stream_data_schema conf plain(1) _ _ plain(2) _ _ assms(11), of ?i fresh now] by auto
  have "parseStreamDataFrame (wire_frame ''stream_data'' ?i (dp_now s) ?flds) = Some \<lparr>sd_stream_id = rs_streamId st, sd_stream_type = rs_streamType st,
         sd_offset = rs_sendOffset st, sd_data = b64_encode data, sd_end_stream = e\<rparr>"
    using assms(8,9) by (simp add: parseStreamDataFrame_def wire_frame_def envelope_ok_def js_simps stream_data_fields_def)
  with f sends_stream_data [OF assms(3,4)] show ?thesis
    by auto
qed

theorem stream_data_crosses_wire_witness:
  "\<exists>frame bs. dp_trace (snd (sendDataPlaneStreamData 0 ''st_1'' [1, 2, 3] False 64 demo_dp)) = [EvSend 0 (JObj frame)] \<and>
    encodeBudFrame (sample_lib JNull) ''f'' NaN frame no_options = Inr bs"
proof -
  obtain s' where s': "sendDataPlaneStreamData 0 ''st_1'' [1, 2, 3] False 64 demo_dp = (Inr (), s')"
    using demo_link_send by blast
  have "js_text (rs_streamId demo_runtime_stream)" "rs_streamId demo_runtime_stream \<noteq> []"
    "rs_streamType demo_runtime_stream \<in> set (map fst STREAM_TYPE_PROTO_VALUES)" "rs_sendOffset demo_runtime_stream = 0"
    by (simp_all add: demo_runtime_stream_def new_runtime_stream_def js_text_by_list STREAM_TYPE_PROTO_VALUES_def)
  moreover have "js_text (dp_ulid demo_dp (dp_used demo_dp))" "\<bar>dp_now demo_dp\<bar> \<le> 8640000000000000" "dp_trace demo_dp = []"
    by (simp_all add: demo_dp_def show_nat.simps digit_char_def js_text_by_list)
  ultimately show ?thesis
    using stream_data_crosses_wire [OF sample_json_ok sample_date_ok demo_get s', of JNull "''f''" NaN] s'
    by (simp add: MAX_SAFE_INTEGER_def) blast
qed

end
